(* ===== verification/MQTT_Prelude.thy ===== *)
theory MQTT_Prelude
  imports Main "HOL-Library.Word" "HOL-Library.Monad_Syntax" "HOL-Library.Signed_Division"
begin

unbundle bit_operations_syntax

text \<open>
  Shared vocabulary of the development: the C types of the sources (bytes, 16 and 32 bit
  unsigned integers, plain \<open>char\<close>), memory objects with checked reads and writes, the
  bit-fields of the header and flag bytes, the writer state that the serialisers thread
  through their calls, and the byte-level wire format (remaining length, two-byte integers,
  length-prefixed strings) that the specifications are written in.

  Conventions. An undefined behaviour of C that the models track (a read or a write outside
  the memory object) is \<open>None\<close>; a function that returns is \<open>Some\<close>. A C \<open>int\<close> is a HOL
  \<open>int\<close>: where a result could leave the 32-bit range the theorems bound it. A memory object
  is the list of its bytes. A pointer that is written through is an offset into its object
  (\<open>wptr\<close>); a cursor that is read through is its offset together with the bytes from it to
  the end of the object (\<open>rptr\<close>); a stored pointer that is only read is the list of those
  bytes, or \<open>None\<close> for NULL (\<open>cptr\<close>).
\<close>

named_theorems emit_simps \<open>running a serialiser on the writer state\<close>
named_theorems read_simps \<open>running a deserialiser over a concatenation of wire fields\<close>
named_theorems wire_length \<open>lengths of wire fields\<close>
named_theorems field_simps \<open>reading and writing bit-fields\<close>

subsection \<open>C types\<close>

type_synonym byte = "8 word"
type_synonym u16 = "16 word"
type_synonym u32 = "32 word"
type_synonym buffer = "byte list"
type_synonym wptr = "buffer \<times> nat"
type_synonym rptr = "int \<times> byte list"
type_synonym cptr = "byte list option"

text \<open>Whether plain \<open>char\<close> is signed is left to the compiler: it is unsigned on ARM, the
  target of Mbed OS, and signed on x86, where the same sources run on Linux.\<close>

datatype char_abi = Signed_Char | Unsigned_Char

fun char_int :: "char_abi \<Rightarrow> byte \<Rightarrow> int" where
  "char_int Signed_Char b = sint b"
| "char_int Unsigned_Char b = uint b"

lemma uint_byte: "0 \<le> uint (b :: byte)" "uint (b :: byte) < 256"
  using uint_range_size [of b] by (simp_all add: word_size)

lemma sint_byte: "sint (b :: byte) = (if uint b < 128 then uint b else uint b - 256)"
proof -
  have s: "sint b = (uint b + 128) mod 256 - 128"
    by (simp add: sint_uint signed_take_bit_eq_take_bit_shift take_bit_eq_mod)
  show ?thesis
  proof (cases "uint b < 128")
    case True
    with s uint_byte [of b] show ?thesis by simp
  next
    case False
    have "(uint b + 128) mod 256 = (uint b - 128 + 256) mod 256"
      by (simp add: add.commute)
    also have "\<dots> = uint b - 128"
      using False uint_byte [of b] by (simp only: mod_add_self2) simp
    finally show ?thesis
      using s False by simp
  qed
qed

lemma char_int_small: "uint b < 128 \<Longrightarrow> char_int abi b = uint b"
  by (cases abi) (simp_all add: sint_byte)

text \<open>Comparing a \<open>char\<close> that was read from the wire with a small constant does not depend
  on the signedness.\<close>

lemma char_int_eq_small: "0 \<le> k \<Longrightarrow> k < 128 \<Longrightarrow> char_int abi b = k \<longleftrightarrow> b = word_of_int k"
proof (cases abi)
  case Signed_Char
  assume k: "0 \<le> k" "k < 128"
  have "uint (word_of_int k :: byte) = k"
    using k by (simp add: uint_word_of_int)
  then show ?thesis
    using k uint_byte [of b] Signed_Char by (auto simp: sint_byte)
next
  case Unsigned_Char
  assume k: "0 \<le> k" "k < 128"
  have "uint (word_of_int k :: byte) = k"
    using k by (simp add: uint_word_of_int)
  then show ?thesis
    using Unsigned_Char by auto
qed

subsection \<open>Memory objects\<close>

text \<open>\<open>buf[i] = c\<close>, and \<open>memcpy\<close> from another object. A copy of no bytes touches nothing.\<close>

definition store :: "buffer \<Rightarrow> nat \<Rightarrow> byte \<Rightarrow> buffer option" where
  "store buf i c = (if i < length buf then Some (buf[i := c]) else None)"

definition memcpy :: "buffer \<Rightarrow> nat \<Rightarrow> cptr \<Rightarrow> int \<Rightarrow> buffer option" where
  "memcpy buf p src n =
     (if n = 0 then Some buf
      else case src of
        None \<Rightarrow> None
      | Some s \<Rightarrow>
          (if 0 \<le> n \<and> nat n \<le> length s \<and> p + nat n \<le> length buf
           then Some (take p buf @ take (nat n) s @ drop (p + nat n) buf)
           else None))"

text \<open>A pointer with a length, as the callers pass payloads: the bytes it stands for, and that
  they are there.\<close>

definition cptr_holds :: "cptr \<Rightarrow> int \<Rightarrow> bool" where
  "cptr_holds p n \<longleftrightarrow> 0 \<le> n \<and> (n = 0 \<or> (case p of None \<Rightarrow> False | Some d \<Rightarrow> nat n \<le> length d))"

definition cptr_bytes :: "cptr \<Rightarrow> int \<Rightarrow> byte list" where
  "cptr_bytes p n = (case p of None \<Rightarrow> [] | Some d \<Rightarrow> take (nat n) d)"

lemma length_cptr_bytes: "cptr_holds p n \<Longrightarrow> int (length (cptr_bytes p n)) = n"
  by (auto simp: cptr_holds_def cptr_bytes_def split: option.splits)

lemma cptr_bytes_append [simp]: "cptr_bytes (Some (xs @ ys)) (int (length xs)) = xs"
  by (simp add: cptr_bytes_def)

lemma cptr_bytes_holds [simp]:
  assumes "cptr_holds p n"
  shows "cptr_bytes (Some (cptr_bytes p n @ ys)) n = cptr_bytes p n"
  using length_cptr_bytes [OF assms] cptr_bytes_append [of "cptr_bytes p n" ys] by simp

text \<open>Arrays of structures and integers that the callers own: a checked element access.\<close>

definition array_get :: "'a list \<Rightarrow> int \<Rightarrow> 'a option" where
  "array_get xs i = (if 0 \<le> i \<and> nat i < length xs then Some (xs ! nat i) else None)"

definition array_set :: "'a list \<Rightarrow> int \<Rightarrow> 'a \<Rightarrow> 'a list option" where
  "array_set xs i v = (if 0 \<le> i \<and> nat i < length xs then Some (xs[nat i := v]) else None)"

lemma array_get_nth [simp]: "k < length xs \<Longrightarrow> array_get xs (int k) = Some (xs ! k)"
  by (simp add: array_get_def)

lemma array_set_nth [simp]: "k < length xs \<Longrightarrow> array_set xs (int k) v = Some (xs[k := v])"
  by (simp add: array_set_def)

lemma array_set_None [simp]: "length xs \<le> k \<Longrightarrow> array_set xs (int k) v = None"
  by (simp add: array_set_def)

text \<open>Moving a read cursor. A cursor in front of its object has no readable byte.\<close>

definition ptr_add :: "rptr \<Rightarrow> int \<Rightarrow> rptr" where
  "ptr_add cur n = (fst cur + n, if 0 \<le> n then drop (nat n) (snd cur) else [])"

lemma ptr_add_append [read_simps]:
  "n = int (length xs) \<Longrightarrow> ptr_add (p, xs @ ys) n = (p + n, ys)"
  by (simp add: ptr_add_def)

text \<open>The C string comparisons the sources use, on the bytes the pointers lead to.\<close>

fun strncmp_eq :: "byte list \<Rightarrow> byte list \<Rightarrow> nat \<Rightarrow> bool option" where
  "strncmp_eq a b 0 = Some True"
| "strncmp_eq [] b (Suc n) = None"
| "strncmp_eq (x # a) [] (Suc n) = None"
| "strncmp_eq (x # a) (y # b) (Suc n) =
     (if x \<noteq> y then Some False else if x = 0 then Some True else strncmp_eq a b n)"

fun memcmp_eq :: "byte list \<Rightarrow> byte list \<Rightarrow> nat \<Rightarrow> bool option" where
  "memcmp_eq a b 0 = Some True"
| "memcmp_eq [] b (Suc n) = None"
| "memcmp_eq (x # a) [] (Suc n) = None"
| "memcmp_eq (x # a) (y # b) (Suc n) = (if x \<noteq> y then Some False else memcmp_eq a b n)"

lemma memcmp_eq_take:
  "n \<le> length a \<Longrightarrow> n \<le> length b \<Longrightarrow> memcmp_eq a b n = Some (take n a = take n b)"
proof (induction a b n rule: memcmp_eq.induct)
qed auto

lemma strncmp_eq_take:
  "n \<le> length a \<Longrightarrow> n \<le> length b \<Longrightarrow> 0 \<notin> set (take n b) \<Longrightarrow>
   strncmp_eq a b n = Some (take n a = take n b)"
proof (induction a b n rule: strncmp_eq.induct)
qed auto

subsection \<open>Bit-fields\<close>

text \<open>A bit-field of \<open>w\<close> bits whose lowest bit is bit \<open>p\<close> of the byte, as the compilers of the
  supported targets lay out the fields that are declared first (\<open>REVERSED\<close> not defined).\<close>

definition bf_get :: "nat \<Rightarrow> nat \<Rightarrow> byte \<Rightarrow> byte" where
  "bf_get p w b = take_bit w (drop_bit p b)"

definition bf_set :: "nat \<Rightarrow> nat \<Rightarrow> byte \<Rightarrow> byte \<Rightarrow> byte" where
  "bf_set p w v b = (b AND NOT (push_bit p (mask w))) OR push_bit p (take_bit w v)"

lemma bit_bf_get: "bit (bf_get p w b) n \<longleftrightarrow> n < w \<and> bit b (p + n)"
  by (auto simp: bf_get_def bit_simps)

lemma bit_bf_set:
  "bit (bf_set p w v b) n \<longleftrightarrow>
     n < 8 \<and> (if p \<le> n \<and> n < p + w then bit v (n - p) else bit b n)"
  by (auto simp: bf_set_def bit_simps)

lemma bf_get_set [field_simps]:
  "p + w \<le> 8 \<Longrightarrow> bf_get p w (bf_set p w v b) = take_bit w v"
  by (rule bit_word_eqI) (auto simp: bit_bf_get bit_bf_set bit_simps)

lemma bf_get_set_other [field_simps]:
  "p + w \<le> q \<or> q + x \<le> p \<Longrightarrow> p + w \<le> 8 \<Longrightarrow> bf_get p w (bf_set q x v b) = bf_get p w b"
  by (rule bit_word_eqI) (auto simp: bit_bf_get bit_bf_set bit_simps)

lemma bf_get_0 [field_simps]: "bf_get p w 0 = 0"
  by (simp add: bf_get_def)

text \<open>A small non-negative number fits its field.\<close>

lemma uint_take_bit_word_of_int:
  "0 \<le> n \<Longrightarrow> n < 2 ^ w \<Longrightarrow> w \<le> 8 \<Longrightarrow> uint (take_bit w (word_of_int n :: byte)) = n"
  by (simp add: unsigned_take_bit_eq uint_word_of_int_eq take_bit_int_eq_self min_def)

subsection \<open>The writer state\<close>

text \<open>After a serialiser has written \<open>out\<close> at the start of \<open>buf\<close>, its pointer is behind \<open>out\<close>
  and the bytes from there on are the old ones. \<open>emit\<close> is that state, or the out-of-bounds
  write if \<open>out\<close> does not fit.\<close>

definition emit :: "buffer \<Rightarrow> byte list \<Rightarrow> wptr option" where
  "emit buf out =
     (if length out \<le> length buf then Some (out @ drop (length out) buf, length out) else None)"

text \<open>What a serialiser returns in that state: the buffer and \<open>ptr - buf\<close>.\<close>

definition emit_rc :: "buffer \<Rightarrow> byte list \<Rightarrow> (buffer \<times> int) option" where
  "emit_rc buf out =
     (if length out \<le> length buf then Some (out @ drop (length out) buf, int (length out)) else None)"

lemma emit_return [emit_simps]:
  "Option.bind (emit buf out) (\<lambda>(b, p). Some (b, int p)) = emit_rc buf out"
  by (simp add: emit_def emit_rc_def)

lemma emit_return_fst [emit_simps]:
  "Option.bind (emit buf out) (\<lambda>w. Some (fst w, int (snd w))) = emit_rc buf out"
  by (simp add: emit_def emit_rc_def)

lemma emit_Nil: "emit buf [] = Some (buf, 0)"
  by (simp add: emit_def)

lemma store_emit:
  "store (out @ drop (length out) buf) (length out) c =
     (if length out < length buf
      then Some ((out @ [c]) @ drop (length (out @ [c])) buf) else None)"
proof (cases "length out < length buf")
  case True
  then have "drop (length out) buf = buf ! length out # drop (Suc (length out)) buf"
    by (rule Cons_nth_drop_Suc [symmetric])
  with True show ?thesis
    by (simp add: store_def list_update_append)
qed (simp add: store_def)

lemma memcpy_emit:
  assumes "n = int (length xs)" "xs = [] \<or> (\<exists>s. src = Some s \<and> take (length xs) s = xs)"
    and "length out \<le> length buf"
  shows "memcpy (out @ drop (length out) buf) (length out) src n =
     (if length (out @ xs) \<le> length buf
      then Some ((out @ xs) @ drop (length (out @ xs)) buf) else None)"
proof (cases "xs = []")
  case True
  with assms show ?thesis by (simp add: memcpy_def)
next
  case False
  then obtain s where s: "src = Some s" "take (length xs) s = xs"
    using assms(2) by auto
  then have "length xs \<le> length s"
    by (metis length_take min.absorb_iff2 min.commute)
  with s False assms(1,3) show ?thesis
    by (auto simp: memcpy_def add.commute)
qed

subsection \<open>Counting loops\<close>

text \<open>\<open>for (i = 0; i < count; ++i)\<close> over the caller's arrays: a loop whose body emits an entry
  emits the concatenation of the entries, and a loop that adds up lengths adds up theirs.\<close>

lemma bind_case_option: "(case x of None \<Rightarrow> None | Some y \<Rightarrow> f y) = Option.bind x f"
  by (cases x) auto

lemma count_loop_emit:
  fixes f :: "wptr \<Rightarrow> 'r option"
  assumes "\<And>i w. i < k \<Longrightarrow> loop w (int i) = Option.bind (body i w) (\<lambda>w. loop w (int i + 1))"
    and "\<And>w. loop w (int k) = Some w"
    and "\<And>i out (g :: wptr \<Rightarrow> 'r option). i < k \<Longrightarrow>
      Option.bind (emit buf out) (\<lambda>w. Option.bind (body i w) g) = Option.bind (emit buf (out @ entry i)) g"
    and "i \<le> k"
  shows "Option.bind (emit buf out) (\<lambda>w. Option.bind (loop w (int i)) f) =
    Option.bind (emit buf (out @ concat (map entry [i..<k]))) f"
  using assms(4)
proof (induction "k - i" arbitrary: i out)
  case 0
  then have "i = k" by simp
  then show ?case by (simp add: assms(2))
next
  case (Suc d)
  then have i: "i < k" by simp
  have j: "int (Suc i) = int i + 1" by simp
  show ?case
    using Suc.hyps(1) [of "Suc i", unfolded j] Suc.hyps(2) i
    by (simp add: assms(1,3) upt_conv_Cons)
qed

lemma count_loop_sum:
  assumes "\<And>i len. i < k \<Longrightarrow> loop (int i) len = loop (int i + 1) (len + int (size_of i))"
    and "\<And>len. loop (int k) len = Some len"
    and "i \<le> k"
  shows "loop (int i) len = Some (len + int (sum_list (map size_of [i..<k])))"
  using assms(3)
proof (induction "k - i" arbitrary: i len)
  case 0
  then have "i = k" by simp
  then show ?case by (simp add: assms(2))
next
  case (Suc d)
  then have i: "i < k" by simp
  have j: "int (Suc i) = int i + 1" by simp
  show ?case
    using Suc.hyps(1) [of "Suc i", unfolded j] Suc.hyps(2) i
    by (simp add: assms(1) upt_conv_Cons)
qed

subsection \<open>Wire fields\<close>

text \<open>Two-byte integers, most significant byte first; length-prefixed strings; and the
  remaining-length field of MQTT: seven bits to a byte, least significant first, the top bit
  set on all but the last.\<close>

definition be16 :: "int \<Rightarrow> byte list" where
  "be16 n = [word_of_int (n sdiv 256), word_of_int (n smod 256)]"

definition lp_string :: "byte list \<Rightarrow> byte list" where
  "lp_string bs = be16 (int (length bs)) @ bs"

fun varint :: "nat \<Rightarrow> byte list" where
  "varint n =
     (if n < 128 then [word_of_nat n] else (word_of_nat (n mod 128) OR 128) # varint (n div 128))"

declare varint.simps [simp del]

lemma length_be16 [wire_length, simp]: "length (be16 n) = 2"
  by (simp add: be16_def)

lemma length_lp_string [wire_length, simp]: "length (lp_string bs) = length bs + 2"
  by (simp add: lp_string_def)

lemma varint_not_Nil [simp]: "varint n \<noteq> []"
  by (subst varint.simps) simp

lemma sdiv_smod_nonneg: "0 \<le> n \<Longrightarrow> n sdiv 256 = n div 256 \<and> n smod 256 = n mod (256::int)"
  by (simp add: signed_divide_int_def signed_modulo_int_def sgn_if)

lemma be16_value:
  assumes "0 \<le> n" "n < 65536"
  shows "256 * uint (word_of_int (n sdiv 256) :: byte) + uint (word_of_int (n smod 256) :: byte) = n"
  using assms by (simp add: sdiv_smod_nonneg uint_word_of_int div_pos_pos_trivial)

lemma varint_small: "n < 128 \<Longrightarrow> varint n = [word_of_nat n]"
  by (subst varint.simps) simp

lemma length_varint_small: "n < 128 \<Longrightarrow> length (varint n) = 1"
  by (subst varint.simps) simp

lemma length_varint_step: "\<not> n < 128 \<Longrightarrow> length (varint n) = Suc (length (varint (n div 128)))"
  by (subst varint.simps) simp

lemma length_varint [wire_length]:
  assumes "n < 268435456"
  shows "length (varint n) =
     (if n < 128 then 1 else if n < 16384 then 2 else if n < 2097152 then 3 else 4)"
proof -
  have d: "n div 128 div 128 = n div 16384" "n div 16384 div 128 = n div 2097152"
    by (simp_all add: div_mult2_eq [symmetric])
  then show ?thesis
    using assms by (simp add: length_varint_small length_varint_step d)
qed

end
