(* ===== verification/MQTT_Packet.thy ===== *)
theory MQTT_Packet
  imports MQTT_Prelude
begin

text \<open>
  The packet primitives of \<^verbatim>\<open>MQTTPacket.c\<close>: the remaining-length field, cursors over packet
  buffers (\<open>readInt\<close>, \<open>readChar\<close>, \<open>writeChar\<close>, \<open>writeInt\<close>), the two string representations
  \<open>MQTTString\<close> can hold, and the header byte of \<^verbatim>\<open>MQTTPacket.h\<close>. The lemmas show what each
  writer adds to the wire and what each reader takes off it; every serialiser and
  deserialiser of the development runs on them.
\<close>

subsection \<open>Constants and data\<close>

abbreviation MQTTPACKET_BUFFER_TOO_SHORT :: int where
  "MQTTPACKET_BUFFER_TOO_SHORT \<equiv> - 2"

abbreviation MQTTPACKET_READ_ERROR :: int where
  "MQTTPACKET_READ_ERROR \<equiv> - 1"

datatype msgTypes =
  CONNECT | CONNACK | PUBLISH | PUBACK | PUBREC | PUBREL | PUBCOMP | SUBSCRIBE
| SUBACK | UNSUBSCRIBE | UNSUBACK | PINGREQ | PINGRESP | DISCONNECT

fun msgType_code :: "msgTypes \<Rightarrow> byte" where
  "msgType_code CONNECT = 1"
| "msgType_code CONNACK = 2"
| "msgType_code PUBLISH = 3"
| "msgType_code PUBACK = 4"
| "msgType_code PUBREC = 5"
| "msgType_code PUBREL = 6"
| "msgType_code PUBCOMP = 7"
| "msgType_code SUBSCRIBE = 8"
| "msgType_code SUBACK = 9"
| "msgType_code UNSUBSCRIBE = 10"
| "msgType_code UNSUBACK = 11"
| "msgType_code PINGREQ = 12"
| "msgType_code PINGRESP = 13"
| "msgType_code DISCONNECT = 14"

text \<open>The union \<open>MQTTHeader\<close> is its byte; the members of \<open>bits\<close> are fields of it.\<close>

type_synonym MQTTHeader = byte

definition header_retain :: "MQTTHeader \<Rightarrow> byte" where "header_retain = bf_get 0 1"
definition header_qos :: "MQTTHeader \<Rightarrow> byte" where "header_qos = bf_get 1 2"
definition header_dup :: "MQTTHeader \<Rightarrow> byte" where "header_dup = bf_get 3 1"
definition header_type :: "MQTTHeader \<Rightarrow> byte" where "header_type = bf_get 4 4"

definition set_header_retain :: "byte \<Rightarrow> MQTTHeader \<Rightarrow> MQTTHeader" where
  "set_header_retain = bf_set 0 1"
definition set_header_qos :: "byte \<Rightarrow> MQTTHeader \<Rightarrow> MQTTHeader" where
  "set_header_qos = bf_set 1 2"
definition set_header_dup :: "byte \<Rightarrow> MQTTHeader \<Rightarrow> MQTTHeader" where
  "set_header_dup = bf_set 3 1"
definition set_header_type :: "byte \<Rightarrow> MQTTHeader \<Rightarrow> MQTTHeader" where
  "set_header_type = bf_set 4 4"

lemmas header_defs =
  header_retain_def header_qos_def header_dup_def header_type_def
  set_header_retain_def set_header_qos_def set_header_dup_def set_header_type_def

record MQTTLenString =
  ls_len :: int
  ls_data :: cptr

record MQTTString =
  cstring :: cptr
  lenstring :: MQTTLenString

definition MQTTString_initializer :: MQTTString where
  "MQTTString_initializer = \<lparr>cstring = None, lenstring = \<lparr>ls_len = 0, ls_data = None\<rparr>\<rparr>"

text \<open>A string that is given as a C string only.\<close>

definition MQTTString_c :: "byte list \<Rightarrow> MQTTString" where
  "MQTTString_c s = \<lparr>cstring = Some s, lenstring = \<lparr>ls_len = 0, ls_data = None\<rparr>\<rparr>"

subsection \<open>Writing\<close>

definition writeChar :: "wptr \<Rightarrow> byte \<Rightarrow> wptr option" where
  "writeChar = (\<lambda>(buf, p) c. do { buf \<leftarrow> store buf p c; Some (buf, p + 1) })"

definition writeInt :: "wptr \<Rightarrow> int \<Rightarrow> wptr option" where
  "writeInt w anInt = do {
     w \<leftarrow> writeChar w (word_of_int (anInt sdiv 256));
     writeChar w (word_of_int (anInt smod 256)) }"

text \<open>\<open>memcpy(*pptr, src, len); *pptr += len;\<close>\<close>

definition write_mem :: "wptr \<Rightarrow> cptr \<Rightarrow> int \<Rightarrow> wptr option" where
  "write_mem = (\<lambda>(buf, p) src n. do { buf \<leftarrow> memcpy buf p src n; Some (buf, p + nat n) })"

text \<open>A C string is modelled by its bytes before the terminating NUL.\<close>

definition writeCString :: "wptr \<Rightarrow> byte list \<Rightarrow> wptr option" where
  "writeCString w s = (let len = int (length s) in do {
     w \<leftarrow> writeInt w len;
     write_mem w (Some s) len })"

definition getLenStringLen :: "byte list \<Rightarrow> int option" where
  "getLenStringLen ptr =
     (case ptr of a # b # _ \<Rightarrow> Some (256 * uint a + uint b) | _ \<Rightarrow> None)"

definition writeMQTTString :: "wptr \<Rightarrow> MQTTString \<Rightarrow> wptr option" where
  "writeMQTTString w mqttstring =
     (if ls_len (lenstring mqttstring) > 0 then do {
        w \<leftarrow> writeInt w (ls_len (lenstring mqttstring));
        write_mem w (ls_data (lenstring mqttstring)) (ls_len (lenstring mqttstring)) }
      else case cstring mqttstring of
        Some s \<Rightarrow> writeCString w s
      | None \<Rightarrow> writeInt w 0)"

text \<open>The loop of \<open>MQTTPacket_encode\<close>: the digits go to \<open>buf[0]\<close>, \<open>buf[1]\<close>, \dots, where
  \<open>buf\<close> is the writer's position \<open>p\<close>, and the number of digits is returned.\<close>

function MQTTPacket_encode_loop :: "buffer \<Rightarrow> nat \<Rightarrow> int \<Rightarrow> int \<Rightarrow> (buffer \<times> int) option" where
  "MQTTPacket_encode_loop buf p n rc =
     (let d = word_of_int (n smod 128);
          n = n sdiv 128;
          d = (if n > 0 then d OR 128 else d)
      in case store buf (p + nat rc) d of
           None \<Rightarrow> None
         | Some buf \<Rightarrow>
             (if n > 0 then MQTTPacket_encode_loop buf p n (rc + 1) else Some (buf, rc + 1)))"
  by pat_completeness auto
termination
  by (relation "measure (\<lambda>(buf, p, n, rc). nat n)")
     (auto simp: signed_divide_int_def sgn_if split: if_splits)

declare MQTTPacket_encode_loop.simps [simp del]

definition MQTTPacket_encode :: "wptr \<Rightarrow> int \<Rightarrow> (buffer \<times> int) option" where
  "MQTTPacket_encode = (\<lambda>(buf, p) length. MQTTPacket_encode_loop buf p length 0)"

text \<open>\<open>ptr += MQTTPacket_encode(ptr, rem_len)\<close>\<close>

definition write_rem_len :: "wptr \<Rightarrow> int \<Rightarrow> wptr option" where
  "write_rem_len w n = do { (buf, rc) \<leftarrow> MQTTPacket_encode w n; Some (buf, snd w + nat rc) }"

subsection \<open>Reading\<close>

definition readChar :: "rptr \<Rightarrow> (byte \<times> rptr) option" where
  "readChar cur = (case snd cur of [] \<Rightarrow> None | c # _ \<Rightarrow> Some (c, ptr_add cur 1))"

definition readInt :: "rptr \<Rightarrow> (int \<times> rptr) option" where
  "readInt cur =
     (case snd cur of
        a # b # _ \<Rightarrow> Some (256 * uint a + uint b, ptr_add cur 2)
      | _ \<Rightarrow> None)"

text \<open>\<open>getcharfn\<close> and \<open>getfn\<close> are callbacks: from the state of the data source and the number of
  bytes wanted to the return code, the bytes stored at the pointer, and the new state.\<close>

type_synonym 's getfn = "'s \<Rightarrow> int \<Rightarrow> (int \<times> byte list \<times> 's) option"

function MQTTPacket_decode_loop :: "'s getfn \<Rightarrow> 's \<Rightarrow> int \<Rightarrow> int \<Rightarrow> int \<Rightarrow> (int \<times> int \<times> 's) option" where
  "MQTTPacket_decode_loop getcharfn s len multiplier value =
     (let len = len + 1
      in if len > 4 then Some (len, value, s)
         else case getcharfn s 1 of
           None \<Rightarrow> None
         | Some (rc, cs, s) \<Rightarrow>
             (if rc \<noteq> 1 then Some (len, value, s)
              else case cs of
                [] \<Rightarrow> None
              | c # _ \<Rightarrow>
                  (let value = value + uint (c AND 127) * multiplier;
                       multiplier = multiplier * 128
                   in if c AND 128 \<noteq> 0 then MQTTPacket_decode_loop getcharfn s len multiplier value
                      else Some (len, value, s))))"
  by pat_completeness auto
termination
  by (relation "measure (\<lambda>(g, s, len, m, v). nat (5 - len))") auto

declare MQTTPacket_decode_loop.simps [simp del]

text \<open>Returns the count of length bytes, the decoded value and the state of the source.\<close>

definition MQTTPacket_decode :: "'s getfn \<Rightarrow> 's \<Rightarrow> (int \<times> int \<times> 's) option" where
  "MQTTPacket_decode getcharfn s = MQTTPacket_decode_loop getcharfn s 0 1 0"

definition MQTTPacket_len :: "int \<Rightarrow> int" where
  "MQTTPacket_len rem_len =
     (let rem_len = rem_len + 1
      in if rem_len < 128 then rem_len + 1
         else if rem_len < 16384 then rem_len + 2
         else if rem_len < 2097151 then rem_len + 3
         else rem_len + 4)"

text \<open>\<open>bufchar\<close> reads through the static pointer \<open>bufptr\<close>; it does not advance \<open>c\<close>, so only the
  last byte is left there.\<close>

fun bufchar_loop :: "nat \<Rightarrow> byte list \<Rightarrow> rptr \<Rightarrow> (byte list \<times> rptr) option" where
  "bufchar_loop 0 c bufptr = Some (c, bufptr)"
| "bufchar_loop (Suc n) c bufptr = do { (x, bufptr) \<leftarrow> readChar bufptr; bufchar_loop n [x] bufptr }"

definition bufchar :: "rptr getfn" where
  "bufchar bufptr count = do {
     (c, bufptr) \<leftarrow> bufchar_loop (nat count) [] bufptr;
     Some (count, c, bufptr) }"

definition MQTTPacket_decodeBuf :: "rptr \<Rightarrow> (int \<times> int) option" where
  "MQTTPacket_decodeBuf buf = do {
     (len, value, bufptr) \<leftarrow> MQTTPacket_decode bufchar buf;
     Some (len, value) }"

text \<open>Returns the return code, the string structure as left by the call, and the cursor. The
  result points into the buffer.\<close>

definition readMQTTLenString :: "MQTTString \<Rightarrow> rptr \<Rightarrow> int \<Rightarrow> (int \<times> MQTTString \<times> rptr) option" where
  "readMQTTLenString mqttstring cur enddata =
     (if enddata - fst cur > 1 then do {
        (len, cur) \<leftarrow> readInt cur;
        let str = mqttstring\<lparr>lenstring := (lenstring mqttstring)\<lparr>ls_len := len\<rparr>\<rparr>;
        if fst cur + len \<le> enddata
        then Some (1, str\<lparr>lenstring := (lenstring str)\<lparr>ls_data := Some (snd cur)\<rparr>, cstring := None\<rparr>,
                   ptr_add cur len)
        else Some (0, str\<lparr>cstring := None\<rparr>, cur) }
      else Some (0, mqttstring\<lparr>cstring := None\<rparr>, cur))"

definition MQTTstrlen :: "MQTTString \<Rightarrow> int" where
  "MQTTstrlen mqttstring =
     (case cstring mqttstring of
        Some s \<Rightarrow> int (length s)
      | None \<Rightarrow> ls_len (lenstring mqttstring))"

text \<open>\<open>strncmp\<close> sees the terminating NUL of both C strings.\<close>

definition MQTTPacket_equals :: "MQTTString \<Rightarrow> byte list \<Rightarrow> bool option" where
  "MQTTPacket_equals a bptr =
     (let (aptr, alen) =
            (case cstring a of
               Some s \<Rightarrow> (Some (s @ [0]), int (length s))
             | None \<Rightarrow> (ls_data (lenstring a), ls_len (lenstring a)));
          blen = int (length bptr)
      in if alen = blen
         then (case aptr of
                 None \<Rightarrow> if alen = 0 then Some True else None
               | Some p \<Rightarrow> strncmp_eq p (bptr @ [0]) (nat alen))
         else Some False)"

subsection \<open>What the writers emit\<close>

lemma writeChar_emit [emit_simps]:
  "Option.bind (emit buf out) (\<lambda>w. Option.bind (writeChar w c) k) = Option.bind (emit buf (out @ [c])) k"
  by (cases "length out < length buf")
     (auto simp: emit_def writeChar_def store_emit, simp add: store_def)

lemma writeChar_start [emit_simps]:
  "Option.bind (writeChar (buf, 0) c) k = Option.bind (emit buf [c]) k"
  using writeChar_emit [of buf "[]" c k] by (simp add: emit_Nil)

lemma writeInt_emit [emit_simps]:
  "Option.bind (emit buf out) (\<lambda>w. Option.bind (writeInt w n) k) = Option.bind (emit buf (out @ be16 n)) k"
proof -
  have "Option.bind (emit buf out) (\<lambda>w. Option.bind (writeInt w n) k) =
        Option.bind (emit buf out) (\<lambda>w. Option.bind (writeChar w (word_of_int (n sdiv 256)))
          (\<lambda>w. Option.bind (writeChar w (word_of_int (n smod 256))) k))"
    by (simp add: writeInt_def)
  then show ?thesis
    by (simp add: writeChar_emit be16_def)
qed

lemma write_mem_emit:
  assumes "n = int (length xs)" "xs = [] \<or> (\<exists>s. src = Some s \<and> take (length xs) s = xs)"
  shows "Option.bind (emit buf out) (\<lambda>w. Option.bind (write_mem w src n) k) =
         Option.bind (emit buf (out @ xs)) k"
  using memcpy_emit [OF assms, of out buf] assms(1)
  by (auto simp: emit_def write_mem_def)

lemma write_mem_cptr_emit [emit_simps]:
  assumes "cptr_holds src n"
  shows "Option.bind (emit buf out) (\<lambda>w. Option.bind (write_mem w src n) k) =
         Option.bind (emit buf (out @ cptr_bytes src n)) k"
  using assms by (intro write_mem_emit)
    (auto simp: cptr_holds_def cptr_bytes_def split: option.splits)

lemma writeCString_emit [emit_simps]:
  "Option.bind (emit buf out) (\<lambda>w. Option.bind (writeCString w s) k) =
   Option.bind (emit buf (out @ lp_string s)) k"
proof -
  have "Option.bind (emit buf out) (\<lambda>w. Option.bind (writeCString w s) k) =
        Option.bind (emit buf out) (\<lambda>w. Option.bind (writeInt w (int (length s)))
          (\<lambda>w. Option.bind (write_mem w (Some s) (int (length s))) k))"
    by (simp add: writeCString_def Let_def)
  then show ?thesis
    by (simp add: writeInt_emit write_mem_emit [where xs = s] lp_string_def)
qed

lemma encode_loop_emit:
  assumes "p + nat rc = length out" "0 \<le> rc" "length out \<le> length buf"
  shows "MQTTPacket_encode_loop (out @ drop (length out) buf) p (int n) rc =
    (if length (out @ varint n) \<le> length buf
     then Some ((out @ varint n) @ drop (length (out @ varint n)) buf, rc + int (length (varint n)))
     else None)"
  using assms
proof (induction n arbitrary: out rc rule: varint.induct)
  case (1 n)
  show ?case
  proof (cases "n < 128")
    case True
    then show ?thesis
      using "1.prems" by (subst MQTTPacket_encode_loop.simps, subst varint.simps)
        (auto simp: store_emit signed_divide_int_def signed_modulo_int_def sgn_if varint.simps [of n])
  next
    case False
    let ?d = "word_of_nat (n mod 128) OR 128 :: byte"
    have m: "int n mod 128 = int (n mod 128)"
      by (simp add: zmod_int)
    have d: "int n sdiv 128 = int (n div 128)" "word_of_int (int n smod 128) = (word_of_nat (n mod 128) :: byte)"
      using False by (simp_all add: signed_divide_int_def signed_modulo_int_def sgn_if zdiv_int m)
    have v: "varint n = ?d # varint (n div 128)"
      using False by (subst varint.simps) simp
    have pos: "0 < int (n div 128)"
      using False by simp
    show ?thesis
    proof (cases "length out < length buf")
      case True
      have "MQTTPacket_encode_loop (out @ drop (length out) buf) p (int n) rc =
            MQTTPacket_encode_loop ((out @ [?d]) @ drop (length (out @ [?d])) buf) p (int (n div 128)) (rc + 1)"
        using True "1.prems" pos by (subst MQTTPacket_encode_loop.simps) (simp add: d store_emit Let_def)
      also have "\<dots> = (if length ((out @ [?d]) @ varint (n div 128)) \<le> length buf
         then Some (((out @ [?d]) @ varint (n div 128)) @ drop (length ((out @ [?d]) @ varint (n div 128))) buf,
                (rc + 1) + int (length (varint (n div 128))))
         else None)"
        using True "1.prems" False by (intro "1.IH") auto
      finally show ?thesis
        by (simp add: v)
    next
      case nofit: False
      then show ?thesis
        using "1.prems" by (subst MQTTPacket_encode_loop.simps) (simp add: d store_def Let_def v)
    qed
  qed
qed

lemma write_rem_len_emit [emit_simps]:
  "0 \<le> n \<Longrightarrow> Option.bind (emit buf out) (\<lambda>w. Option.bind (write_rem_len w n) k) =
   Option.bind (emit buf (out @ varint (nat n))) k"
  using encode_loop_emit [of "length out" 0 out buf "nat n"]
  by (auto simp: emit_def write_rem_len_def MQTTPacket_encode_def)

subsection \<open>The content of a string\<close>

text \<open>The bytes \<open>writeMQTTString\<close> puts on the wire, and the strings on which it and
  \<open>MQTTstrlen\<close> agree: if the length-delimited form is used, no C string is set, and its
  data are there.\<close>

definition MQTTString_bytes :: "MQTTString \<Rightarrow> byte list" where
  "MQTTString_bytes s =
     (if ls_len (lenstring s) > 0
      then (case ls_data (lenstring s) of None \<Rightarrow> [] | Some d \<Rightarrow> take (nat (ls_len (lenstring s))) d)
      else case cstring s of Some c \<Rightarrow> c | None \<Rightarrow> [])"

definition MQTTString_ok :: "MQTTString \<Rightarrow> bool" where
  "MQTTString_ok s \<longleftrightarrow>
     0 \<le> ls_len (lenstring s) \<and>
     (ls_len (lenstring s) > 0 \<longrightarrow> cstring s = None \<and>
       (case ls_data (lenstring s) of None \<Rightarrow> False | Some d \<Rightarrow> nat (ls_len (lenstring s)) \<le> length d)) \<and>
     length (MQTTString_bytes s) < 65536"

lemma MQTTString_bytes_c [simp]: "MQTTString_bytes (MQTTString_c s) = s"
  by (simp add: MQTTString_bytes_def MQTTString_c_def)

lemma MQTTString_ok_c [simp]: "MQTTString_ok (MQTTString_c s) \<longleftrightarrow> length s < 65536"
  by (simp add: MQTTString_ok_def, simp add: MQTTString_c_def)

lemma MQTTstrlen_ok: "MQTTString_ok s \<Longrightarrow> MQTTstrlen s = int (length (MQTTString_bytes s))"
  by (auto simp: MQTTString_ok_def MQTTString_bytes_def MQTTstrlen_def split: option.splits if_splits)

lemma writeMQTTString_emit [emit_simps]:
  assumes "MQTTString_ok s"
  shows "Option.bind (emit buf out) (\<lambda>w. Option.bind (writeMQTTString w s) k) =
         Option.bind (emit buf (out @ lp_string (MQTTString_bytes s))) k"
proof (cases "ls_len (lenstring s) > 0")
  case True
  with assms obtain d where d: "ls_data (lenstring s) = Some d"
    "nat (ls_len (lenstring s)) \<le> length d"
    by (auto simp: MQTTString_ok_def split: option.splits)
  then have bytes: "MQTTString_bytes s = take (nat (ls_len (lenstring s))) d"
    using True by (simp add: MQTTString_bytes_def)
  then have len: "ls_len (lenstring s) = int (length (MQTTString_bytes s))"
    using True d by simp
  have tk: "take (length (MQTTString_bytes s)) d = MQTTString_bytes s"
    using bytes d by simp
  have "Option.bind (emit buf out) (\<lambda>w. Option.bind (writeMQTTString w s) k) =
        Option.bind (emit buf out) (\<lambda>w. Option.bind (writeInt w (ls_len (lenstring s)))
          (\<lambda>w. Option.bind (write_mem w (Some d) (ls_len (lenstring s))) k))"
    using True d by (simp add: writeMQTTString_def)
  also have "\<dots> = Option.bind (emit buf ((out @ be16 (ls_len (lenstring s))) @ MQTTString_bytes s)) k"
    unfolding writeInt_emit using tk by (intro write_mem_emit [OF len]) auto
  finally show ?thesis
    by (simp add: lp_string_def flip: len)
next
  case False
  then show ?thesis
    by (cases "cstring s")
       (simp_all add: writeMQTTString_def MQTTString_bytes_def writeCString_emit writeInt_emit lp_string_def)
qed

subsection \<open>What the readers take\<close>

lemma readChar_Cons [read_simps]: "readChar (p, c # ys) = Some (c, p + 1, ys)"
  by (simp add: readChar_def ptr_add_def)

lemma readChar_Nil [simp]: "readChar (p, []) = None"
  by (simp add: readChar_def)

lemma readInt_be16 [read_simps]:
  "0 \<le> n \<Longrightarrow> n < 65536 \<Longrightarrow> readInt (p, be16 n @ ys) = Some (n, p + 2, ys)"
  using be16_value [of n] by (simp add: readInt_def be16_def ptr_add_def)

lemma readInt_u16 [read_simps]: "readInt (p, be16 (uint (x :: u16)) @ ys) = Some (uint x, p + 2, ys)"
  using uint_range_size [of x] by (intro readInt_be16) (simp_all add: word_size)

lemma bufchar_1: "bufchar cur 1 = do { (c, cur) \<leftarrow> readChar cur; Some (1, [c], cur) }"
proof -
  have "nat 1 = Suc 0" by simp
  then show ?thesis
    by (cases "readChar cur") (auto simp: bufchar_def)
qed

lemma readInt_cases:
  "readInt (p, bs) = (if length bs < 2 then None else Some (256 * uint (bs ! 0) + uint (bs ! 1), p + 2, drop 2 bs))"
  by (auto simp: readInt_def ptr_add_def split: list.splits)

lemma bit_nat_small: "m < 128 \<Longrightarrow> 7 \<le> k \<Longrightarrow> \<not> bit (m :: nat) k"
proof -
  assume "m < 128" "7 \<le> k"
  then have "m < 2 ^ k"
    using power_increasing [of 7 k "2::nat"] by simp
  then show ?thesis
    by (simp add: bit_iff_odd)
qed

lemma and_127: "(c :: byte) AND 127 = take_bit 7 c"
  by (simp add: take_bit_eq_mask mask_eq_decr_exp)

lemma and_128_eq_0: "(c :: byte) AND 128 = 0 \<longleftrightarrow> \<not> bit c 7"
  using and_exp_eq_0_iff_not_bit [of c 7] by simp

lemma take_bit_7_digit: "m < 128 \<Longrightarrow> take_bit 7 (word_of_nat m :: byte) = word_of_nat m"
  by (rule bit_word_eqI) (auto simp: bit_simps, meson bit_nat_small not_le)

lemma uint_digit: "m < 128 \<Longrightarrow> uint (word_of_nat m :: byte) = int m"
  by (simp add: uint_word_of_int_eq unsigned_of_nat take_bit_nat_eq_self)

lemma varint_last:
  "m < 128 \<Longrightarrow> uint ((word_of_nat m :: byte) AND 127) = int m"
  "m < 128 \<Longrightarrow> (word_of_nat m :: byte) AND 128 = 0"
  by (simp_all add: and_127 and_128_eq_0 take_bit_7_digit uint_digit bit_simps bit_nat_small)

lemma varint_more:
  "m < 128 \<Longrightarrow> uint ((word_of_nat m OR 128 :: byte) AND 127) = int m"
  "(word_of_nat m OR 128 :: byte) AND 128 \<noteq> 0"
  by (simp_all add: and_127 and_128_eq_0 take_bit_7_digit uint_digit bit_simps)

lemma decode_loop_varint:
  "len + int (length (varint n)) \<le> 4 \<Longrightarrow>
   MQTTPacket_decode_loop bufchar (p, varint n @ ys) len m v =
     Some (len + int (length (varint n)), v + int n * m, p + int (length (varint n)), ys)"
proof (induction n arbitrary: p len m v rule: varint.induct)
  case (1 n)
  show ?case
  proof (cases "n < 128")
    case True
    then show ?thesis
      using "1.prems" by (simp add: varint.simps [of n] MQTTPacket_decode_loop.simps [of _ _ len]
          bufchar_1 readChar_Cons varint_last)
  next
    case False
    let ?d = "word_of_nat (n mod 128) OR 128 :: byte"
    have v: "varint n = ?d # varint (n div 128)"
      using False by (subst varint.simps) simp
    then have le: "(len + 1) + int (length (varint (n div 128))) \<le> 4"
      using "1.prems" by simp
    have e: "int n = int (n mod 128) + 128 * int (n div 128)"
      by (simp add: zmod_int zdiv_int)
    have n: "int (n mod 128) * m + int (n div 128) * (m * 128) = int n * m"
      by (subst e) (simp add: algebra_simps)
    have "MQTTPacket_decode_loop bufchar (p, varint n @ ys) len m v =
          MQTTPacket_decode_loop bufchar (p + 1, varint (n div 128) @ ys) (len + 1) (m * 128)
            (v + int (n mod 128) * m)"
      using le by (subst MQTTPacket_decode_loop.simps)
        (simp add: v bufchar_1 readChar_Cons varint_more)
    also have "\<dots> = Some (len + 1 + int (length (varint (n div 128))),
        v + int (n mod 128) * m + int (n div 128) * (m * 128),
        p + 1 + int (length (varint (n div 128))), ys)"
      using False le by (intro "1.IH") auto
    finally show ?thesis
      using n by (simp add: v add.assoc)
  qed
qed

lemma MQTTPacket_decodeBuf_varint [read_simps]:
  "n < 268435456 \<Longrightarrow>
   MQTTPacket_decodeBuf (p, varint n @ ys) = Some (int (length (varint n)), int n)"
  by (simp add: MQTTPacket_decodeBuf_def MQTTPacket_decode_def decode_loop_varint length_varint)

lemma MQTTPacket_decodeBuf_small [read_simps]:
  assumes "uint c < 128"
  shows "MQTTPacket_decodeBuf (p, c # ys) = Some (1, uint c)"
proof -
  have n: "unat c < 128"
    using assms unfolding unat_eq_nat_uint by linarith
  then have "varint (unat c) = [c]" and lt: "unat c < 268435456"
    by (simp_all add: varint_small)
  then show ?thesis
    using MQTTPacket_decodeBuf_varint [OF lt, of p ys] by simp
qed

lemma readMQTTLenString_lp [read_simps]:
  assumes "length bs < 65536" "p + 2 + int (length bs) \<le> enddata"
  shows "readMQTTLenString s (p, lp_string bs @ ys) enddata =
     Some (1, \<lparr>cstring = None, lenstring = \<lparr>ls_len = int (length bs), ls_data = Some (bs @ ys)\<rparr>\<rparr>,
           p + 2 + int (length bs), ys)"
  using assms by (cases s) (simp add: readMQTTLenString_def lp_string_def readInt_be16 ptr_add_def)

lemma MQTTString_bytes_lp [simp]:
  "MQTTString_bytes \<lparr>cstring = None, lenstring = \<lparr>ls_len = int (length bs), ls_data = Some (bs @ ys)\<rparr>\<rparr> = bs"
  by (simp add: MQTTString_bytes_def)

subsection \<open>Buffer sizes\<close>

text \<open>\<open>MQTTPacket_len\<close> counts the header byte before it chooses the width of the length field, so
  at a boundary it asks for one byte more than the packet takes; it never asks for less.\<close>

lemma MQTTPacket_len_bounds:
  assumes "0 \<le> n" "n < 268435456"
  shows "1 + int (length (varint (nat n))) + n \<le> MQTTPacket_len n"
    and "MQTTPacket_len n \<le> 2 + int (length (varint (nat n))) + n"
  using assms by (auto simp: MQTTPacket_len_def length_varint Let_def)

subsection \<open>Properties\<close>

lemma decode_loop_bounds:
  assumes "MQTTPacket_decode_loop getcharfn s len m v = Some (len', v', s')"
    and "0 \<le> len" "len \<le> 4" "0 \<le> v" "m = 128 ^ nat len" "v < m"
  shows "1 \<le> len' \<and> len' \<le> 5 \<and> 0 \<le> v' \<and> v' < 268435456"
  using assms
proof (induction getcharfn s len m v rule: MQTTPacket_decode_loop.induct)
  case (1 getcharfn s len m v)
  have m: "m \<le> 268435456" "0 < m"
  proof -
    have "(128::int) ^ nat len \<le> 128 ^ 4"
      using "1.prems"(3) by (intro power_increasing) auto
    with "1.prems"(5) show "m \<le> 268435456" "0 < m" by simp_all
  qed
  show ?case
  proof (cases "len = 4")
    case True
    then show ?thesis
      using "1.prems" m by (subst (asm) MQTTPacket_decode_loop.simps) auto
  next
    case False
    then obtain rc cs t where g: "getcharfn s 1 = Some (rc, cs, t)"
      using "1.prems"(1,3) by (subst (asm) MQTTPacket_decode_loop.simps) (auto simp: Let_def split: option.splits)
    show ?thesis
    proof (cases "rc = 1")
      case no: False
      then show ?thesis
        using "1.prems" m g False by (subst (asm) MQTTPacket_decode_loop.simps) (auto simp: Let_def)
    next
      case True
      then obtain c cs' where c: "cs = c # cs'"
        using "1.prems"(1,3) g False by (subst (asm) MQTTPacket_decode_loop.simps) (auto simp: Let_def split: list.splits)
      let ?v = "v + uint (c AND 127) * m"
      have d: "0 \<le> uint (c AND 127)" "uint (c AND 127) \<le> 127"
        using take_bit_int_less_exp [of 7 "uint c"]
        by (simp_all only: and_127 unsigned_take_bit_eq) simp_all
      have "uint (c AND 127) * m \<le> 127 * m"
        using d(2) m(2) by (intro mult_right_mono) simp_all
      moreover have "0 \<le> uint (c AND 127) * m"
        using d(1) m(2) by (intro mult_nonneg_nonneg) simp_all
      ultimately have v: "0 \<le> ?v" "?v < m * 128"
        using "1.prems"(4,6) by linarith+
      have pow: "m * 128 = 128 ^ nat (len + 1)"
        using "1.prems"(2,5) by (simp add: nat_add_distrib)
      have bound: "m * 128 \<le> 268435456"
      proof -
        have "(128::int) ^ nat (len + 1) \<le> 128 ^ 4"
          using "1.prems"(3) False by (intro power_increasing) auto
        with pow show ?thesis by simp
      qed
      show ?thesis
      proof (cases "c AND 128 = 0")
        case last: True
        then have "len' = len + 1" "v' = ?v"
          using "1.prems"(1,3) g c True False by (subst (asm) MQTTPacket_decode_loop.simps; simp add: Let_def)+
        then show ?thesis
          using v bound "1.prems"(2,3) False by simp
      next
        case more: False
        have "MQTTPacket_decode_loop getcharfn t (len + 1) (m * 128) ?v = Some (len', v', s')"
          using "1.prems"(1,3) g c True False more by (subst (asm) MQTTPacket_decode_loop.simps) (simp add: Let_def)
        then show ?thesis
          using "1.IH" [OF refl _ g refl refl _ c refl refl more] "1.prems"(2,3) True False v pow by simp
      qed
    qed
  qed
qed

text \<open>Whatever the data source returns, \<open>MQTTPacket_decode\<close> reads at most four bytes of it
  before it gives up (it then answers 5), and the value it leaves is between 0 and 268435455, so a remaining
  length taken from the network never overflows an \<open>int\<close> and is never negative.\<close>

theorem decode_bounded:
  assumes "MQTTPacket_decode getcharfn s = Some (len, value, s')"
  shows "1 \<le> len \<and> len \<le> 5 \<and> 0 \<le> value \<and> value < 268435456"
  using assms unfolding MQTTPacket_decode_def by (rule decode_loop_bounds) simp_all

theorem decode_bounded_witness:
  "MQTTPacket_decode bufchar (0, [255, 255, 255, 255, 1]) = Some (5, 268435455, 4, [1]) \<and>
   (1 \<le> (5::int) \<and> (5::int) \<le> 5 \<and> 0 \<le> (268435455::int) \<and> (268435455::int) < 268435456)"
proof -
  have d: "MQTTPacket_decode bufchar (0, [255, 255, 255, 255, 1]) = Some (5, 268435455, 4, [1])"
    by code_simp
  show ?thesis
    using decode_bounded [OF d] d by simp
qed

text \<open>Encoding and decoding the remaining length are inverse: written at any position of a
  buffer with room for it, a length below 268435456 takes one to four bytes, and \<open>MQTTPacket_decodeBuf\<close> on
  those bytes returns their number and the length.\<close>

theorem rem_len_round_trip:
  assumes "0 \<le> n" "n < 268435456" "p + 4 \<le> length buf"
  shows "\<exists>buf' rc. MQTTPacket_encode (buf, p) n = Some (buf', rc) \<and> 1 \<le> rc \<and> rc \<le> 4 \<and>
    take p buf' = take p buf \<and> drop (p + nat rc) buf' = drop (p + nat rc) buf \<and>
    MQTTPacket_decodeBuf (q, drop p buf') = Some (rc, n)"
proof -
  define k where "k = nat n"
  have k: "n = int k" "k < 268435456"
    using assms(1,2) by (simp_all add: k_def)
  have len: "1 \<le> length (varint k)" "length (varint k) \<le> 4"
    using k(2) by (simp_all add: length_varint)
  have "length (take p buf) = p"
    using assms(3) by simp
  then have "MQTTPacket_encode (buf, p) n =
    Some ((take p buf @ varint k) @ drop (p + length (varint k)) buf, int (length (varint k)))"
    using encode_loop_emit [of p 0 "take p buf" buf k] len assms(3)
    by (simp add: MQTTPacket_encode_def k(1))
  then show ?thesis
    using len k assms(3) MQTTPacket_decodeBuf_varint [OF k(2), of q "drop (p + length (varint k)) buf"] by simp
qed

theorem rem_len_round_trip_witness:
  "\<exists>buf' rc. MQTTPacket_encode ([7, 0, 0, 0, 0, 8], 1) 300 = Some (buf', rc) \<and> 1 \<le> rc \<and> rc \<le> 4 \<and>
    take 1 buf' = take 1 [7, 0, 0, 0, 0, 8] \<and> drop (1 + nat rc) buf' = drop (1 + nat rc) [7, 0, 0, 0, 0, 8] \<and>
    MQTTPacket_decodeBuf (0, drop 1 buf') = Some (rc, 300)"
  by (rule rem_len_round_trip) simp_all

text \<open>\<open>MQTTPacket_len\<close> never asks for less than the packet takes and for at most one byte more.
  It asks for exactly one byte too much when the body has 127, 16383, 2097150 or 2097151 bytes, because it counts the
  header byte before it chooses the width of the length field.\<close>

theorem MQTTPacket_len_exact:
  assumes "0 \<le> n" "n < 268435456"
  shows "MQTTPacket_len n = 1 + int (length (varint (nat n))) + n +
    (if n \<in> {127, 16383, 2097150, 2097151} then 1 else 0)"
  using assms by (auto simp: MQTTPacket_len_def length_varint Let_def)

theorem MQTTPacket_len_exact_witness:
  "MQTTPacket_len 127 = 1 + int (length (varint (nat 127))) + 127 +
    (if (127::int) \<in> {127, 16383, 2097150, 2097151} then 1 else 0)"
  by (rule MQTTPacket_len_exact) simp_all

end
