(* ===== verification/MQTT_Codec.thy ===== *)
theory MQTT_Codec
  imports MQTT_Packet
begin

text \<open>
  The contracts the serialisers and deserialisers share, as locales. \<open>packet_writer\<close> says
  that a serialiser refines a wire format: it refuses a buffer its length check finds too
  short and otherwise writes exactly the wire bytes. \<open>safe_packet_writer\<close> adds that the length
  check asks for enough room, and derives memory safety. \<open>packet_codec\<close> adds a deserialiser
  that recovers the values from the wire, and derives the round trip through the buffer and
  that the format is unambiguous. The packet theories interpret them on their functions.
\<close>

locale packet_writer =
  fixes ser :: "buffer \<Rightarrow> int \<Rightarrow> 'a \<Rightarrow> (buffer \<times> int) option"
    and need :: "'a \<Rightarrow> int"
    and wire :: "'a \<Rightarrow> byte list"
    and ok :: "'a \<Rightarrow> bool"
  assumes ser_eq: "ok a \<Longrightarrow>
    ser buf buflen a = (if need a > buflen then Some (buf, - 2) else emit_rc buf (wire a))"
begin

lemma short_buffer: "ok a \<Longrightarrow> buflen < need a \<Longrightarrow> ser buf buflen a = Some (buf, - 2)"
  by (simp add: ser_eq)

lemma writes_wire:
  "ok a \<Longrightarrow> need a \<le> buflen \<Longrightarrow> length (wire a) \<le> length buf \<Longrightarrow>
   ser buf buflen a = Some (wire a @ drop (length (wire a)) buf, int (length (wire a)))"
  by (simp add: ser_eq emit_rc_def)

lemma overruns:
  "ok a \<Longrightarrow> need a \<le> buflen \<Longrightarrow> length buf < length (wire a) \<Longrightarrow> ser buf buflen a = None"
  by (simp add: ser_eq emit_rc_def)

lemma result_cases:
  "ok a \<Longrightarrow> ser buf buflen a = Some (buf', rc) \<Longrightarrow>
   buf' = buf \<and> rc = - 2 \<and> buflen < need a \<or>
   buf' = wire a @ drop (length (wire a)) buf \<and> rc = int (length (wire a)) \<and> need a \<le> buflen"
  by (auto simp: ser_eq emit_rc_def split: if_splits)

end

locale safe_packet_writer = packet_writer +
  assumes need_covers: "ok a \<Longrightarrow> int (length (wire a)) \<le> need a"
begin

lemma memory_safe:
  assumes "ok a" "buflen \<le> int (length buf)"
  shows "\<exists>buf' rc. ser buf buflen a = Some (buf', rc) \<and> length buf' = length buf \<and>
    (rc = - 2 \<and> buf' = buf \<and> buflen < need a \<or>
     0 \<le> rc \<and> rc \<le> buflen \<and> take (nat rc) buf' = wire a \<and> drop (nat rc) buf' = drop (nat rc) buf)"
proof (cases "buflen < need a")
  case True
  with assms show ?thesis by (simp add: short_buffer)
next
  case False
  with assms need_covers [OF assms(1)] have "length (wire a) \<le> length buf" "int (length (wire a)) \<le> buflen"
    by linarith+
  with False assms show ?thesis by (simp add: writes_wire)
qed

end

locale packet_codec = safe_packet_writer +
  fixes deser :: "'o \<Rightarrow> buffer \<Rightarrow> int \<Rightarrow> (int \<times> 'o) option"
    and view :: "'o \<Rightarrow> 'v"
    and val :: "'a \<Rightarrow> 'v"
  assumes deser_wire: "ok a \<Longrightarrow> int (length (wire a)) \<le> n \<Longrightarrow>
    \<exists>out'. deser out (wire a @ rest) n = Some (1, out') \<and> view out' = val a"
begin

lemma round_trip:
  assumes "ok a" "ser buf buflen a = Some (buf', rc)" "rc \<noteq> - 2" "rc \<le> n"
  shows "\<exists>out'. deser out buf' n = Some (1, out') \<and> view out' = val a"
  using result_cases [OF assms(1,2)] deser_wire [OF assms(1)] assms(3,4) by auto

lemma unambiguous:
  assumes "ok a" "ok b" "wire a @ r = wire b @ s"
  shows "val a = val b"
proof -
  let ?n = "max (int (length (wire a))) (int (length (wire b)))"
  obtain o1 where "deser undefined (wire a @ r) ?n = Some (1, o1)" "view o1 = val a"
    using deser_wire [OF assms(1), of ?n] by auto
  moreover obtain o2 where "deser undefined (wire b @ s) ?n = Some (1, o2)" "view o2 = val b"
    using deser_wire [OF assms(2), of ?n] by auto
  ultimately show ?thesis
    using assms(3) by simp
qed

end

end
