(* ===== verification/MQTT_Publish.thy ===== *)
theory MQTT_Publish
  imports MQTT_Codec
begin

text \<open>
  \<^verbatim>\<open>MQTTSerializePublish.c\<close> and \<^verbatim>\<open>MQTTDeserializePublish.c\<close>: PUBLISH packets and the four-byte
  acknowledgements.
\<close>

subsection \<open>PUBLISH\<close>

definition MQTTSerialize_publishLength :: "int \<Rightarrow> MQTTString \<Rightarrow> int \<Rightarrow> int" where
  "MQTTSerialize_publishLength qos topicName payloadlen =
     (let len = 0 + (2 + MQTTstrlen topicName + payloadlen)
      in if qos > 0 then len + 2 else len)"

definition MQTTSerialize_publish ::
  "buffer \<Rightarrow> int \<Rightarrow> byte \<Rightarrow> int \<Rightarrow> byte \<Rightarrow> u16 \<Rightarrow> MQTTString \<Rightarrow> cptr \<Rightarrow> int \<Rightarrow> (buffer \<times> int) option" where
  "MQTTSerialize_publish buf buflen dup qos retained packetid topicName payload payloadlen =
     (let rem_len = MQTTSerialize_publishLength qos topicName payloadlen
      in if MQTTPacket_len rem_len > buflen then Some (buf, MQTTPACKET_BUFFER_TOO_SHORT)
         else do {
           let header = set_header_type (msgType_code PUBLISH) 0;
           let header = set_header_dup dup header;
           let header = set_header_qos (word_of_int qos) header;
           let header = set_header_retain retained header;
           w \<leftarrow> writeChar (buf, 0) header;
           w \<leftarrow> write_rem_len w rem_len;
           w \<leftarrow> writeMQTTString w topicName;
           w \<leftarrow> (if qos > 0 then writeInt w (uint packetid) else Some w);
           (buf, ptr) \<leftarrow> write_mem w payload payloadlen;
           Some (buf, int ptr) })"

record publish_out =
  pub_dup :: byte
  pub_qos :: int
  pub_retained :: byte
  pub_packetid :: u16
  pub_topicName :: MQTTString
  pub_payload :: cptr
  pub_payloadlen :: int

definition MQTTDeserialize_publish :: "publish_out \<Rightarrow> buffer \<Rightarrow> int \<Rightarrow> (int \<times> publish_out) option" where
  "MQTTDeserialize_publish out buf buflen = do {
     (header, curdata) \<leftarrow> readChar (0, buf);
     if header_type header \<noteq> msgType_code PUBLISH then Some (0, out)
     else do {
       let out = out\<lparr>pub_dup := header_dup header, pub_qos := uint (header_qos header),
                     pub_retained := header_retain header\<rparr>;
       (rc, mylen) \<leftarrow> MQTTPacket_decodeBuf curdata;
       let curdata = ptr_add curdata rc;
       let enddata = fst curdata + mylen;
       (rd, topicName, curdata) \<leftarrow> readMQTTLenString (pub_topicName out) curdata enddata;
       let out = out\<lparr>pub_topicName := topicName\<rparr>;
       if rd = 0 \<or> enddata - fst curdata < 0 then Some (0, out)
       else do {
         (out, curdata) \<leftarrow>
           (if pub_qos out > 0
            then do { (i, curdata) \<leftarrow> readInt curdata;
                      Some (out\<lparr>pub_packetid := word_of_int i\<rparr>, curdata) }
            else Some (out, curdata));
         Some (1, out\<lparr>pub_payloadlen := enddata - fst curdata, pub_payload := Some (snd curdata)\<rparr>) } } }"

subsection \<open>Acknowledgements\<close>

definition MQTTSerialize_ack :: "buffer \<Rightarrow> int \<Rightarrow> byte \<Rightarrow> byte \<Rightarrow> u16 \<Rightarrow> (buffer \<times> int) option" where
  "MQTTSerialize_ack buf buflen packettype dup packetid =
     (if buflen < 4 then Some (buf, MQTTPACKET_BUFFER_TOO_SHORT)
      else do {
        let header = set_header_type packettype 0;
        let header = set_header_dup dup header;
        let header = set_header_qos (if packettype = msgType_code PUBREL then 1 else 0) header;
        w \<leftarrow> writeChar (buf, 0) header;
        w \<leftarrow> write_rem_len w 2;
        (buf, ptr) \<leftarrow> writeInt w (uint packetid);
        Some (buf, int ptr) })"

definition MQTTSerialize_puback :: "buffer \<Rightarrow> int \<Rightarrow> u16 \<Rightarrow> (buffer \<times> int) option" where
  "MQTTSerialize_puback buf buflen packetid = MQTTSerialize_ack buf buflen (msgType_code PUBACK) 0 packetid"

definition MQTTSerialize_pubrel :: "buffer \<Rightarrow> int \<Rightarrow> byte \<Rightarrow> u16 \<Rightarrow> (buffer \<times> int) option" where
  "MQTTSerialize_pubrel buf buflen dup packetid = MQTTSerialize_ack buf buflen (msgType_code PUBREL) dup packetid"

definition MQTTSerialize_pubcomp :: "buffer \<Rightarrow> int \<Rightarrow> u16 \<Rightarrow> (buffer \<times> int) option" where
  "MQTTSerialize_pubcomp buf buflen packetid = MQTTSerialize_ack buf buflen (msgType_code PUBCOMP) 0 packetid"

record ack_out =
  ack_packettype :: byte
  ack_dup :: byte
  ack_packetid :: u16

definition MQTTDeserialize_ack :: "ack_out \<Rightarrow> buffer \<Rightarrow> int \<Rightarrow> (int \<times> ack_out) option" where
  "MQTTDeserialize_ack out buf buflen = do {
     (header, curdata) \<leftarrow> readChar (0, buf);
     let out = out\<lparr>ack_dup := header_dup header, ack_packettype := header_type header\<rparr>;
     (rc, mylen) \<leftarrow> MQTTPacket_decodeBuf curdata;
     let curdata = ptr_add curdata rc;
     let enddata = fst curdata + mylen;
     if enddata - fst curdata < 2 then Some (rc, out)
     else do {
       (i, curdata) \<leftarrow> readInt curdata;
       Some (1, out\<lparr>ack_packetid := word_of_int i\<rparr>) } }"

subsection \<open>Wire formats\<close>

type_synonym publish_args = "byte \<times> int \<times> byte \<times> u16 \<times> MQTTString \<times> cptr \<times> int"

definition publish_header :: "byte \<Rightarrow> int \<Rightarrow> byte \<Rightarrow> byte" where
  "publish_header dup qos retained =
     set_header_retain retained (set_header_qos (word_of_int qos) (set_header_dup dup (set_header_type 3 0)))"

fun publish_body :: "publish_args \<Rightarrow> byte list" where
  "publish_body (dup, qos, retained, packetid, topic, payload, payloadlen) =
     lp_string (MQTTString_bytes topic) @ (if qos > 0 then be16 (uint packetid) else [])
       @ cptr_bytes payload payloadlen"

fun publish_wire :: "publish_args \<Rightarrow> byte list" where
  "publish_wire (dup, qos, retained, packetid, topic, payload, payloadlen) =
     (let body = publish_body (dup, qos, retained, packetid, topic, payload, payloadlen)
      in publish_header dup qos retained # varint (length body) @ body)"

fun publish_ok :: "publish_args \<Rightarrow> bool" where
  "publish_ok (dup, qos, retained, packetid, topic, payload, payloadlen) \<longleftrightarrow>
     0 \<le> qos \<and> qos \<le> 3 \<and> MQTTString_ok topic \<and> cptr_holds payload payloadlen \<and>
     length (publish_body (dup, qos, retained, packetid, topic, payload, payloadlen)) < 268435456"

fun publish_need :: "publish_args \<Rightarrow> int" where
  "publish_need (dup, qos, retained, packetid, topic, payload, payloadlen) =
     MQTTPacket_len (MQTTSerialize_publishLength qos topic payloadlen)"

fun publish_val :: "publish_args \<Rightarrow> byte \<times> int \<times> byte \<times> u16 option \<times> byte list \<times> byte list" where
  "publish_val (dup, qos, retained, packetid, topic, payload, payloadlen) =
     (take_bit 1 dup, qos, take_bit 1 retained, if qos > 0 then Some packetid else None,
      MQTTString_bytes topic, cptr_bytes payload payloadlen)"

definition publish_out_zero :: publish_out where
  "publish_out_zero = \<lparr>pub_dup = 0, pub_qos = 0, pub_retained = 0, pub_packetid = 0,
     pub_topicName = MQTTString_initializer, pub_payload = None, pub_payloadlen = 0\<rparr>"

definition publish_view :: "publish_out \<Rightarrow> byte \<times> int \<times> byte \<times> u16 option \<times> byte list \<times> byte list" where
  "publish_view out =
     (pub_dup out, pub_qos out, pub_retained out, if pub_qos out > 0 then Some (pub_packetid out) else None,
      MQTTString_bytes (pub_topicName out), cptr_bytes (pub_payload out) (pub_payloadlen out))"

lemma publishLength_body:
  "MQTTString_ok topic \<Longrightarrow> cptr_holds payload payloadlen \<Longrightarrow>
   MQTTSerialize_publishLength qos topic payloadlen =
     int (length (publish_body (dup, qos, retained, packetid, topic, payload, payloadlen)))"
  by (simp add: MQTTSerialize_publishLength_def MQTTstrlen_ok length_cptr_bytes)

lemma MQTTSerialize_publish_eq:
  assumes "publish_ok (dup, qos, retained, packetid, topic, payload, payloadlen)"
  shows "MQTTSerialize_publish buf buflen dup qos retained packetid topic payload payloadlen =
    (if publish_need (dup, qos, retained, packetid, topic, payload, payloadlen) > buflen then Some (buf, - 2)
     else emit_rc buf (publish_wire (dup, qos, retained, packetid, topic, payload, payloadlen)))"
proof -
  have ok: "MQTTString_ok topic" "cptr_holds payload payloadlen"
    using assms by auto
  show ?thesis
    using ok by (cases "qos > 0")
      (simp_all add: MQTTSerialize_publish_def publishLength_body [OF ok, of qos dup retained packetid]
        emit_simps publish_header_def Let_def del: publish_body.simps, simp_all)
qed

lemma publish_header_fields [field_simps]:
  "header_type (publish_header dup qos retained) = 3"
  "header_dup (publish_header dup qos retained) = take_bit 1 dup"
  "header_retain (publish_header dup qos retained) = take_bit 1 retained"
  "0 \<le> qos \<Longrightarrow> qos \<le> 3 \<Longrightarrow> uint (header_qos (publish_header dup qos retained)) = qos"
  by (simp_all add: publish_header_def header_defs field_simps uint_take_bit_word_of_int)

lemma publish_decode:
  assumes "publish_ok (dup, qos, retained, packetid, topic, payload, payloadlen)"
  shows "\<exists>out'. MQTTDeserialize_publish out
      (publish_wire (dup, qos, retained, packetid, topic, payload, payloadlen) @ rest) n = Some (1, out') \<and>
    publish_view out' = publish_val (dup, qos, retained, packetid, topic, payload, payloadlen)"
proof -
  let ?t = "MQTTString_bytes topic"
  have t: "length ?t < 65536" "0 \<le> qos" "qos \<le> 3" and h: "cptr_holds payload payloadlen"
    using assms by (auto simp: MQTTString_ok_def)
  show ?thesis
    using assms h by (cases "qos > 0")
      (simp_all add: MQTTDeserialize_publish_def publish_view_def Let_def read_simps field_simps t)
qed

interpretation publish: packet_codec
  "\<lambda>buf buflen (dup, qos, retained, packetid, topic, payload, payloadlen).
     MQTTSerialize_publish buf buflen dup qos retained packetid topic payload payloadlen"
  publish_need publish_wire publish_ok MQTTDeserialize_publish publish_view publish_val
proof unfold_locales
  fix a :: publish_args and buf buflen
  assume "publish_ok a"
  then show "(case a of (dup, qos, retained, packetid, topic, payload, payloadlen) \<Rightarrow>
       MQTTSerialize_publish buf buflen dup qos retained packetid topic payload payloadlen) =
     (if publish_need a > buflen then Some (buf, - 2) else emit_rc buf (publish_wire a))"
    by (cases a rule: publish_ok.cases) (simp only: prod.case MQTTSerialize_publish_eq)
next
  fix a :: publish_args
  assume ok: "publish_ok a"
  obtain dup qos retained packetid topic payload payloadlen
    where a: "a = (dup, qos, retained, packetid, topic, payload, payloadlen)"
    by (cases a rule: publish_ok.cases)
  let ?n = "int (length (publish_body a))"
  have "MQTTSerialize_publishLength qos topic payloadlen = ?n" "?n < 268435456"
    using ok unfolding a by (auto intro: publishLength_body simp del: publish_body.simps)
  then show "int (length (publish_wire a)) \<le> publish_need a"
    using MQTTPacket_len_bounds(1) [of ?n] by (simp add: a Let_def del: publish_body.simps)
next
  fix a :: publish_args and n out rest
  assume "publish_ok a"
  then show "\<exists>out'. MQTTDeserialize_publish out (publish_wire a @ rest) n = Some (1, out') \<and>
      publish_view out' = publish_val a"
    by (cases a rule: publish_ok.cases) (simp only: publish_decode)
qed

definition ack_header :: "byte \<Rightarrow> byte \<Rightarrow> byte" where
  "ack_header packettype dup =
     set_header_qos (if packettype = 6 then 1 else 0) (set_header_dup dup (set_header_type packettype 0))"

fun ack_wire :: "byte \<times> byte \<times> u16 \<Rightarrow> byte list" where
  "ack_wire (packettype, dup, packetid) = ack_header packettype dup # varint 2 @ be16 (uint packetid)"

lemma ack_header_fields [field_simps]:
  "header_type (ack_header packettype dup) = take_bit 4 packettype"
  "header_dup (ack_header packettype dup) = take_bit 1 dup"
  by (simp_all add: ack_header_def header_defs field_simps)

interpretation ack: packet_codec
  "\<lambda>buf buflen (packettype, dup, packetid). MQTTSerialize_ack buf buflen packettype dup packetid"
  "\<lambda>_. 4" ack_wire "\<lambda>_. True" MQTTDeserialize_ack
  "\<lambda>out. (ack_packettype out, ack_dup out, ack_packetid out)"
  "\<lambda>(packettype, dup, packetid). (take_bit 4 packettype, take_bit 1 dup, packetid)"
proof unfold_locales
  fix a :: "byte \<times> byte \<times> u16" and buf buflen
  show "(case a of (packettype, dup, packetid) \<Rightarrow> MQTTSerialize_ack buf buflen packettype dup packetid) =
     (if 4 > buflen then Some (buf, - 2) else emit_rc buf (ack_wire a))"
    by (cases a rule: ack_wire.cases) (simp add: MQTTSerialize_ack_def emit_simps ack_header_def)
next
  fix a :: "byte \<times> byte \<times> u16"
  show "int (length (ack_wire a)) \<le> 4"
    by (cases a rule: ack_wire.cases) (simp add: length_varint)
next
  fix a :: "byte \<times> byte \<times> u16" and n and out :: ack_out and rest
  show "\<exists>out'. MQTTDeserialize_ack out (ack_wire a @ rest) n = Some (1, out') \<and>
      (ack_packettype out', ack_dup out', ack_packetid out') =
      (case a of (packettype, dup, packetid) \<Rightarrow> (take_bit 4 packettype, take_bit 1 dup, packetid))"
    by (cases a rule: ack_wire.cases)
       (simp add: MQTTDeserialize_ack_def Let_def read_simps field_simps)
qed


subsection \<open>Properties\<close>

text \<open>On well-formed arguments (QoS 0 to 3, a topic in one of its two representations, a
  payload that is there, a remaining length below 268435456) \<open>MQTTSerialize_publish\<close> never writes outside a
  buffer of \<open>buflen\<close> bytes: it returns \<open>MQTTPACKET_BUFFER_TOO_SHORT\<close> and changes nothing if
  \<open>buflen\<close> is less than \<open>MQTTPacket_len\<close> asks for, and otherwise the number of bytes of the PUBLISH packet,
  with exactly that packet at the start of the buffer and the rest of the buffer unchanged.\<close>

theorem publish_writes_packet:
  assumes "publish_ok (dup, qos, retained, packetid, topic, payload, payloadlen)" "buflen \<le> int (length buf)"
  shows "\<exists>buf' rc. MQTTSerialize_publish buf buflen dup qos retained packetid topic payload payloadlen = Some (buf', rc) \<and>
    length buf' = length buf \<and>
    (rc = - 2 \<and> buf' = buf \<and> buflen < publish_need (dup, qos, retained, packetid, topic, payload, payloadlen) \<or>
     0 \<le> rc \<and> rc \<le> buflen \<and> drop (nat rc) buf' = drop (nat rc) buf \<and>
     take (nat rc) buf' = publish_wire (dup, qos, retained, packetid, topic, payload, payloadlen))"
  using publish.memory_safe [OF assms] by auto

theorem publish_writes_packet_witness:
  "\<exists>buf' rc. MQTTSerialize_publish (replicate 12 0) 12 0 1 0 7 (MQTTString_c [97])
       (Some [1, 2, 3]) 3 = Some (buf', rc) \<and> length buf' = 12 \<and>
    (rc = - 2 \<and> buf' = replicate 12 0 \<and>
       12 < publish_need (0, 1, 0, 7, (MQTTString_c [97]), Some [1, 2, 3], 3) \<or>
     0 \<le> rc \<and> rc \<le> 12 \<and> drop (nat rc) buf' = drop (nat rc) (replicate 12 0) \<and>
     take (nat rc) buf' = publish_wire (0, 1, 0, 7, (MQTTString_c [97]), Some [1, 2, 3], 3))"
  using publish_writes_packet [of 0 1 0 7 "MQTTString_c [97]"
      "Some [1, 2, 3]" 3 12 "replicate 12 0"]
  by (simp add: cptr_holds_def cptr_bytes_def del: publish_wire.simps publish_need.simps)

text \<open>C1: Round trip of PUBLISH: whatever buffer the serialiser filled, \<open>MQTTDeserialize_publish\<close>
  accepts it and returns the duplicate and retained flags, the QoS, the packet identifier (for
  QoS above 0), the topic bytes and the payload bytes that were given to the serialiser.\<close>

theorem publish_round_trip:
  assumes "publish_ok (dup, qos, retained, packetid, topic, payload, payloadlen)"
    and "MQTTSerialize_publish buf buflen dup qos retained packetid topic payload payloadlen = Some (buf', rc)" "rc \<noteq> - 2"
  shows "\<exists>out'. MQTTDeserialize_publish out buf' rc = Some (1, out') \<and>
    pub_dup out' = take_bit 1 dup \<and> pub_qos out' = qos \<and> pub_retained out' = take_bit 1 retained \<and>
    (qos > 0 \<longrightarrow> pub_packetid out' = packetid) \<and>
    MQTTString_bytes (pub_topicName out') = MQTTString_bytes topic \<and>
    cptr_bytes (pub_payload out') (pub_payloadlen out') = cptr_bytes payload payloadlen"
  using publish.round_trip [of "(dup, qos, retained, packetid, topic, payload, payloadlen)" buf buflen buf' rc rc out]
    assms
  by (auto simp: publish_view_def split: if_splits)

theorem publish_round_trip_witness:
  "\<exists>buf' rc out'. MQTTSerialize_publish (replicate 12 0) 12 1 2 0 513 (MQTTString_c [97])
       (Some [1, 2, 3]) 3 = Some (buf', rc) \<and>
     MQTTDeserialize_publish publish_out_zero buf' rc = Some (1, out') \<and> pub_qos out' = 2 \<and> pub_packetid out' = 513 \<and>
     MQTTString_bytes (pub_topicName out') = [97]"
proof -
  let ?t = "MQTTString_c [97]"
  let ?b = "[60, 8, 0, 1, 97, 2, 1, 1, 2, 3, 0, 0] :: byte list"
  have ok: "publish_ok (1, 2, 0, 513, ?t, Some [1, 2, 3], 3)"
    by (simp add: cptr_holds_def cptr_bytes_def)
  have ser: "MQTTSerialize_publish (replicate 12 0) 12 1 2 0 513 ?t (Some [1, 2, 3]) 3 = Some (?b, 10)"
    by code_simp
  show ?thesis
    using publish_round_trip [OF ok ser, of publish_out_zero] ser by auto
qed

text \<open>The format of PUBLISH is unambiguous: if the packets of two sets of well-formed arguments
  are prefixes of the same bytes, their flags, QoS, packet identifier, topic and payload are the
  same.\<close>

theorem publish_unambiguous:
  assumes "publish_ok a" "publish_ok b" "publish_wire a @ r = publish_wire b @ s"
  shows "publish_val a = publish_val b"
  using assms by (rule publish.unambiguous)

theorem publish_unambiguous_witness:
  "publish_val (2, 1, 0, 5, MQTTString_c [97, 98], Some [1, 2], 1) =
   publish_val (0, 1, 0, 5, \<lparr>cstring = None, lenstring = \<lparr>ls_len = 2, ls_data = Some [97, 98, 99]\<rparr>\<rparr>, Some [1], 1)"
  by (rule publish_unambiguous [where r = "[]" and s = "[]"])
     (simp_all add: MQTTString_ok_def [of "\<lparr>cstring = None, lenstring = x\<rparr>" for x]
       MQTTString_bytes_def [of "\<lparr>cstring = None, lenstring = x\<rparr>" for x]
       cptr_holds_def cptr_bytes_def publish_header_def header_defs bf_set_def)

text \<open>Round trip of the acknowledgements (PUBACK, PUBREC, PUBREL, PUBCOMP, UNSUBACK): into a
  buffer of at least four bytes the serialiser writes four bytes, and the deserialiser recovers
  the packet type, the duplicate flag and the packet identifier.\<close>

theorem ack_round_trip:
  assumes "4 \<le> buflen" "buflen \<le> int (length buf)"
  shows "\<exists>buf' out'. MQTTSerialize_ack buf buflen packettype dup packetid = Some (buf', 4) \<and>
    drop 4 buf' = drop 4 buf \<and> MQTTDeserialize_ack out buf' 4 = Some (1, out') \<and>
    ack_packettype out' = take_bit 4 packettype \<and> ack_dup out' = take_bit 1 dup \<and> ack_packetid out' = packetid"
proof -
  let ?w = "ack_wire (packettype, dup, packetid)"
  have w: "length ?w = 4"
    by (simp add: length_varint)
  then have "MQTTSerialize_ack buf buflen packettype dup packetid = Some (?w @ drop 4 buf, 4)"
    using ack.writes_wire [where a = "(packettype, dup, packetid)" and buflen = buflen and buf = buf] assms by (simp del: ack_wire.simps)
  then show ?thesis
    using ack.deser_wire [where a = "(packettype, dup, packetid)" and n = 4 and out = out and rest = "drop 4 buf"] w by auto
qed

theorem ack_round_trip_witness:
  "\<exists>buf' out'. MQTTSerialize_ack (replicate 5 9) 5 4 0 258 = Some (buf', 4) \<and>
    drop 4 buf' = drop 4 (replicate 5 9) \<and>
    MQTTDeserialize_ack \<lparr>ack_packettype = 0, ack_dup = 0, ack_packetid = 0\<rparr> buf' 4 = Some (1, out') \<and>
    ack_packettype out' = take_bit 4 4 \<and> ack_dup out' = take_bit 1 0 \<and> ack_packetid out' = 258"
  by (rule ack_round_trip) simp_all

end
