(* ===== verification/MQTT_Connect.thy ===== *)
theory MQTT_Connect
  imports MQTT_Codec
begin

text \<open>
  \<^verbatim>\<open>MQTTConnect.h\<close>, \<^verbatim>\<open>MQTTConnectClient.c\<close> and \<^verbatim>\<open>MQTTConnectServer.c\<close>: CONNECT with its flags
  byte, will, user name and password; CONNACK; and the packets with an empty body.
\<close>

subsection \<open>Data\<close>

type_synonym MQTTConnectFlags = byte

definition flags_cleansession :: "MQTTConnectFlags \<Rightarrow> byte" where "flags_cleansession = bf_get 1 1"
definition flags_will :: "MQTTConnectFlags \<Rightarrow> byte" where "flags_will = bf_get 2 1"
definition flags_willQoS :: "MQTTConnectFlags \<Rightarrow> byte" where "flags_willQoS = bf_get 3 2"
definition flags_willRetain :: "MQTTConnectFlags \<Rightarrow> byte" where "flags_willRetain = bf_get 5 1"
definition flags_password :: "MQTTConnectFlags \<Rightarrow> byte" where "flags_password = bf_get 6 1"
definition flags_username :: "MQTTConnectFlags \<Rightarrow> byte" where "flags_username = bf_get 7 1"

definition set_flags_cleansession :: "byte \<Rightarrow> MQTTConnectFlags \<Rightarrow> MQTTConnectFlags" where
  "set_flags_cleansession = bf_set 1 1"
definition set_flags_will :: "byte \<Rightarrow> MQTTConnectFlags \<Rightarrow> MQTTConnectFlags" where
  "set_flags_will = bf_set 2 1"
definition set_flags_willQoS :: "byte \<Rightarrow> MQTTConnectFlags \<Rightarrow> MQTTConnectFlags" where
  "set_flags_willQoS = bf_set 3 2"
definition set_flags_willRetain :: "byte \<Rightarrow> MQTTConnectFlags \<Rightarrow> MQTTConnectFlags" where
  "set_flags_willRetain = bf_set 5 1"
definition set_flags_password :: "byte \<Rightarrow> MQTTConnectFlags \<Rightarrow> MQTTConnectFlags" where
  "set_flags_password = bf_set 6 1"
definition set_flags_username :: "byte \<Rightarrow> MQTTConnectFlags \<Rightarrow> MQTTConnectFlags" where
  "set_flags_username = bf_set 7 1"

lemmas connect_flags_defs =
  flags_cleansession_def flags_will_def flags_willQoS_def flags_willRetain_def flags_password_def
  flags_username_def set_flags_cleansession_def set_flags_will_def set_flags_willQoS_def
  set_flags_willRetain_def set_flags_password_def set_flags_username_def

record MQTTPacket_willOptions =
  will_struct_id :: "byte list"
  will_struct_version :: int
  will_topicName :: MQTTString
  will_message :: MQTTString
  will_retained :: byte
  will_qos :: byte

record MQTTPacket_connectData =
  cd_struct_id :: "byte list"
  cd_struct_version :: int
  cd_MQTTVersion :: byte
  cd_clientID :: MQTTString
  cd_keepAliveInterval :: u16
  cd_cleansession :: byte
  cd_willFlag :: byte
  cd_will :: MQTTPacket_willOptions
  cd_username :: MQTTString
  cd_password :: MQTTString

text \<open>The initialisers: the eyecatchers are \<open>MQTW\<close> and \<open>MQTC\<close>.\<close>

definition MQTTPacket_willOptions_initializer :: MQTTPacket_willOptions where
  "MQTTPacket_willOptions_initializer =
     \<lparr>will_struct_id = [77, 81, 84, 87], will_struct_version = 0,
      will_topicName = MQTTString_initializer, will_message = MQTTString_initializer,
      will_retained = 0, will_qos = 0\<rparr>"

definition MQTTPacket_connectData_initializer :: MQTTPacket_connectData where
  "MQTTPacket_connectData_initializer =
     \<lparr>cd_struct_id = [77, 81, 84, 67], cd_struct_version = 0, cd_MQTTVersion = 4,
      cd_clientID = MQTTString_initializer, cd_keepAliveInterval = 60, cd_cleansession = 1,
      cd_willFlag = 0, cd_will = MQTTPacket_willOptions_initializer,
      cd_username = MQTTString_initializer, cd_password = MQTTString_initializer\<rparr>"

type_synonym MQTTConnackFlags = byte

definition connack_sessionpresent :: "MQTTConnackFlags \<Rightarrow> byte" where
  "connack_sessionpresent = bf_get 0 1"
definition set_connack_sessionpresent :: "byte \<Rightarrow> MQTTConnackFlags \<Rightarrow> MQTTConnackFlags" where
  "set_connack_sessionpresent = bf_set 0 1"

subsection \<open>CONNECT, client side\<close>

text \<open>\<open>s.cstring || s.lenstring.data\<close>\<close>

definition has_string :: "MQTTString \<Rightarrow> bool" where
  "has_string s \<longleftrightarrow> cstring s \<noteq> None \<or> ls_data (lenstring s) \<noteq> None"

definition MQTTSerialize_connectLength :: "MQTTPacket_connectData \<Rightarrow> int" where
  "MQTTSerialize_connectLength options =
     (let len = (if cd_MQTTVersion options = 3 then 12 else if cd_MQTTVersion options = 4 then 10 else 0);
          len = len + (MQTTstrlen (cd_clientID options) + 2);
          len = (if cd_willFlag options \<noteq> 0
                 then len + (MQTTstrlen (will_topicName (cd_will options)) + 2
                             + MQTTstrlen (will_message (cd_will options)) + 2)
                 else len);
          len = (if has_string (cd_username options) then len + (MQTTstrlen (cd_username options) + 2) else len);
          len = (if has_string (cd_password options) then len + (MQTTstrlen (cd_password options) + 2) else len)
      in len)"

text \<open>The string literals \<open>MQTT\<close> and \<open>MQIsdp\<close>.\<close>

definition protocol_MQTT :: "byte list" where
  "protocol_MQTT = [77, 81, 84, 84]"
definition protocol_MQIsdp :: "byte list" where
  "protocol_MQIsdp = [77, 81, 73, 115, 100, 112]"

definition connect_flags :: "MQTTPacket_connectData \<Rightarrow> MQTTConnectFlags" where
  "connect_flags options =
     (let flags = set_flags_cleansession (cd_cleansession options) 0;
          flags = set_flags_will (if cd_willFlag options \<noteq> 0 then 1 else 0) flags;
          flags = (if flags_will flags \<noteq> 0
                   then set_flags_willRetain (will_retained (cd_will options))
                          (set_flags_willQoS (will_qos (cd_will options)) flags)
                   else flags);
          flags = (if has_string (cd_username options) then set_flags_username 1 flags else flags);
          flags = (if has_string (cd_password options) then set_flags_password 1 flags else flags)
      in flags)"

definition MQTTSerialize_connect :: "buffer \<Rightarrow> int \<Rightarrow> MQTTPacket_connectData \<Rightarrow> (buffer \<times> int) option" where
  "MQTTSerialize_connect buf buflen options =
     (let len = MQTTSerialize_connectLength options
      in if MQTTPacket_len len > buflen then Some (buf, MQTTPACKET_BUFFER_TOO_SHORT)
         else do {
           let header = set_header_type (msgType_code CONNECT) 0;
           w \<leftarrow> writeChar (buf, 0) header;
           w \<leftarrow> write_rem_len w len;
           w \<leftarrow> (if cd_MQTTVersion options = 4
                 then do { w \<leftarrow> writeCString w protocol_MQTT; writeChar w 4 }
                 else do { w \<leftarrow> writeCString w protocol_MQIsdp; writeChar w 3 });
           let flags = connect_flags options;
           w \<leftarrow> writeChar w flags;
           w \<leftarrow> writeInt w (uint (cd_keepAliveInterval options));
           w \<leftarrow> writeMQTTString w (cd_clientID options);
           w \<leftarrow> (if cd_willFlag options \<noteq> 0
                 then do { w \<leftarrow> writeMQTTString w (will_topicName (cd_will options));
                           writeMQTTString w (will_message (cd_will options)) }
                 else Some w);
           w \<leftarrow> (if flags_username flags \<noteq> 0 then writeMQTTString w (cd_username options) else Some w);
           w \<leftarrow> (if flags_password flags \<noteq> 0 then writeMQTTString w (cd_password options) else Some w);
           Some (fst w, int (snd w)) })"

record connack_out =
  ca_sessionPresent :: byte
  ca_connack_rc :: byte

definition MQTTDeserialize_connack :: "connack_out \<Rightarrow> buffer \<Rightarrow> int \<Rightarrow> (int \<times> connack_out) option" where
  "MQTTDeserialize_connack out buf buflen = do {
     (header, curdata) \<leftarrow> readChar (0, buf);
     if header_type header \<noteq> msgType_code CONNACK then Some (0, out)
     else do {
       (rc, mylen) \<leftarrow> MQTTPacket_decodeBuf curdata;
       let curdata = ptr_add curdata rc;
       let enddata = fst curdata + mylen;
       if enddata - fst curdata < 2 then Some (rc, out)
       else do {
         (flags, curdata) \<leftarrow> readChar curdata;
         let out = out\<lparr>ca_sessionPresent := connack_sessionpresent flags\<rparr>;
         (c, curdata) \<leftarrow> readChar curdata;
         Some (1, out\<lparr>ca_connack_rc := c\<rparr>) } } }"

definition MQTTSerialize_zero :: "buffer \<Rightarrow> int \<Rightarrow> byte \<Rightarrow> (buffer \<times> int) option" where
  "MQTTSerialize_zero buf buflen packettype =
     (if buflen < 2 then Some (buf, MQTTPACKET_BUFFER_TOO_SHORT)
      else do {
        let header = set_header_type packettype 0;
        w \<leftarrow> writeChar (buf, 0) header;
        (buf, ptr) \<leftarrow> write_rem_len w 0;
        Some (buf, int ptr) })"

definition MQTTSerialize_disconnect :: "buffer \<Rightarrow> int \<Rightarrow> (buffer \<times> int) option" where
  "MQTTSerialize_disconnect buf buflen = MQTTSerialize_zero buf buflen (msgType_code DISCONNECT)"

definition MQTTSerialize_pingreq :: "buffer \<Rightarrow> int \<Rightarrow> (buffer \<times> int) option" where
  "MQTTSerialize_pingreq buf buflen = MQTTSerialize_zero buf buflen (msgType_code PINGREQ)"

subsection \<open>CONNECT, server side\<close>

text \<open>\<open>memcmp\<close> of no bytes compares nothing.\<close>

definition protocol_matches :: "MQTTString \<Rightarrow> byte list \<Rightarrow> int \<Rightarrow> bool option" where
  "protocol_matches protocol name n =
     (let m = (if n < ls_len (lenstring protocol) then n else ls_len (lenstring protocol))
      in case ls_data (lenstring protocol) of
           None \<Rightarrow> if m = 0 then Some True else None
         | Some d \<Rightarrow> if m < 0 then None else memcmp_eq d name (nat m))"

definition MQTTPacket_checkVersion :: "MQTTString \<Rightarrow> int \<Rightarrow> int option" where
  "MQTTPacket_checkVersion protocol version =
     (if version = 3 then do { m \<leftarrow> protocol_matches protocol protocol_MQIsdp 6; Some (if m then 1 else 0) }
      else if version = 4 then do { m \<leftarrow> protocol_matches protocol protocol_MQTT 4; Some (if m then 1 else 0) }
      else Some 0)"

text \<open>The fields after the protocol version, up to the first \<open>goto exit\<close>.\<close>

definition MQTTDeserialize_connect_payload ::
  "MQTTPacket_connectData \<Rightarrow> MQTTConnectFlags \<Rightarrow> rptr \<Rightarrow> int \<Rightarrow> (int \<times> MQTTPacket_connectData) option" where
  "MQTTDeserialize_connect_payload data flags curdata enddata =
     (if flags_username flags \<noteq> 0
      then if enddata - fst curdata < 3 then Some (0, data)
           else do {
             (rd, s, curdata) \<leftarrow> readMQTTLenString (cd_username data) curdata enddata;
             let data = data\<lparr>cd_username := s\<rparr>;
             if rd = 0 then Some (0, data)
             else if flags_password flags \<noteq> 0
             then if enddata - fst curdata < 3 then Some (0, data)
                  else do {
                    (rd, s, curdata) \<leftarrow> readMQTTLenString (cd_password data) curdata enddata;
                    let data = data\<lparr>cd_password := s\<rparr>;
                    Some (if rd = 0 then 0 else 1, data) }
             else Some (1, data) }
      else if flags_password flags \<noteq> 0 then Some (0, data)
      else Some (1, data))"

definition MQTTDeserialize_connect ::
  "char_abi \<Rightarrow> MQTTPacket_connectData \<Rightarrow> buffer \<Rightarrow> int \<Rightarrow> (int \<times> MQTTPacket_connectData) option" where
  "MQTTDeserialize_connect abi data buf len = do {
     let enddata = len;
     (header, curdata) \<leftarrow> readChar (0, buf);
     if header_type header \<noteq> msgType_code CONNECT then Some (0, data)
     else do {
       (rc, mylen) \<leftarrow> MQTTPacket_decodeBuf curdata;
       let curdata = ptr_add curdata rc;
       (rd, Protocol, curdata) \<leftarrow> readMQTTLenString MQTTString_initializer curdata enddata;
       if rd = 0 \<or> enddata - fst curdata < 0 then Some (0, data)
       else do {
         (c, curdata) \<leftarrow> readChar curdata;
         let version = char_int abi c;
         ok \<leftarrow> MQTTPacket_checkVersion Protocol version;
         if ok = 0 then Some (0, data)
         else do {
           (flags, curdata) \<leftarrow> readChar curdata;
           let data = data\<lparr>cd_cleansession := flags_cleansession flags\<rparr>;
           (i, curdata) \<leftarrow> readInt curdata;
           let data = data\<lparr>cd_keepAliveInterval := word_of_int i\<rparr>;
           (rd, s, curdata) \<leftarrow> readMQTTLenString (cd_clientID data) curdata enddata;
           let data = data\<lparr>cd_clientID := s\<rparr>;
           if rd = 0 then Some (0, data)
           else do {
             let data = data\<lparr>cd_willFlag := flags_will flags\<rparr>;
             if flags_will flags \<noteq> 0
             then do {
               let data = data\<lparr>cd_will := (cd_will data)\<lparr>will_qos := flags_willQoS flags,
                                                      will_retained := flags_willRetain flags\<rparr>\<rparr>;
               (rd, s, curdata) \<leftarrow> readMQTTLenString (will_topicName (cd_will data)) curdata enddata;
               let data = data\<lparr>cd_will := (cd_will data)\<lparr>will_topicName := s\<rparr>\<rparr>;
               if rd = 0 then Some (0, data)
               else do {
                 (rd, s, curdata) \<leftarrow> readMQTTLenString (will_message (cd_will data)) curdata enddata;
                 let data = data\<lparr>cd_will := (cd_will data)\<lparr>will_message := s\<rparr>\<rparr>;
                 if rd = 0 then Some (0, data)
                 else MQTTDeserialize_connect_payload data flags curdata enddata } }
             else MQTTDeserialize_connect_payload data flags curdata enddata } } } } }"

definition MQTTSerialize_connack :: "buffer \<Rightarrow> int \<Rightarrow> byte \<Rightarrow> byte \<Rightarrow> (buffer \<times> int) option" where
  "MQTTSerialize_connack buf buflen connack_rc sessionPresent =
     (if buflen < 2 then Some (buf, MQTTPACKET_BUFFER_TOO_SHORT)
      else do {
        let header = set_header_type (msgType_code CONNACK) 0;
        w \<leftarrow> writeChar (buf, 0) header;
        w \<leftarrow> write_rem_len w 2;
        let flags = set_connack_sessionpresent sessionPresent 0;
        w \<leftarrow> writeChar w flags;
        (buf, ptr) \<leftarrow> writeChar w connack_rc;
        Some (buf, int ptr) })"

subsection \<open>Wire formats\<close>

definition opt_field :: "bool \<Rightarrow> MQTTString \<Rightarrow> byte list" where
  "opt_field present s = (if present then lp_string (MQTTString_bytes s) else [])"

definition connect_body :: "MQTTPacket_connectData \<Rightarrow> byte list" where
  "connect_body d =
     (if cd_MQTTVersion d = 4 then lp_string protocol_MQTT @ [4] else lp_string protocol_MQIsdp @ [3])
     @ [connect_flags d] @ be16 (uint (cd_keepAliveInterval d))
     @ lp_string (MQTTString_bytes (cd_clientID d))
     @ opt_field (cd_willFlag d \<noteq> 0) (will_topicName (cd_will d))
     @ opt_field (cd_willFlag d \<noteq> 0) (will_message (cd_will d))
     @ opt_field (has_string (cd_username d)) (cd_username d)
     @ opt_field (has_string (cd_password d)) (cd_password d)"

definition connect_wire :: "MQTTPacket_connectData \<Rightarrow> byte list" where
  "connect_wire d = set_header_type 1 0 # varint (length (connect_body d)) @ connect_body d"

definition connect_ok :: "MQTTPacket_connectData \<Rightarrow> bool" where
  "connect_ok d \<longleftrightarrow>
     (cd_MQTTVersion d = 3 \<or> cd_MQTTVersion d = 4) \<and>
     MQTTString_ok (cd_clientID d) \<and> MQTTString_ok (cd_username d) \<and> MQTTString_ok (cd_password d) \<and>
     MQTTString_ok (will_topicName (cd_will d)) \<and> MQTTString_ok (will_message (cd_will d)) \<and>
     length (connect_body d) < 268435456"

lemma connectLength_body: "connect_ok d \<Longrightarrow> MQTTSerialize_connectLength d = int (length (connect_body d))"
  by (auto simp: connect_ok_def MQTTSerialize_connectLength_def connect_body_def opt_field_def
      MQTTstrlen_ok Let_def protocol_MQTT_def protocol_MQIsdp_def)

lemma connect_flags_fields [field_simps]:
  "flags_cleansession (connect_flags d) = take_bit 1 (cd_cleansession d)"
  "flags_will (connect_flags d) = (if cd_willFlag d \<noteq> 0 then 1 else 0)"
  "cd_willFlag d \<noteq> 0 \<Longrightarrow> flags_willQoS (connect_flags d) = take_bit 2 (will_qos (cd_will d))"
  "cd_willFlag d \<noteq> 0 \<Longrightarrow> flags_willRetain (connect_flags d) = take_bit 1 (will_retained (cd_will d))"
  "flags_username (connect_flags d) = (if has_string (cd_username d) then 1 else 0)"
  "flags_password (connect_flags d) = (if has_string (cd_password d) then 1 else 0)"
  by (simp_all add: connect_flags_def connect_flags_defs field_simps Let_def)

lemma opt_field_emit [emit_simps]:
  "MQTTString_ok s \<Longrightarrow>
   Option.bind (emit buf out) (\<lambda>w. Option.bind (if b then writeMQTTString w s else Some w) k) =
   Option.bind (emit buf (out @ opt_field b s)) k"
  by (cases b) (simp_all add: opt_field_def emit_simps)

lemma will_emit [emit_simps]:
  "MQTTString_ok s \<Longrightarrow> MQTTString_ok t \<Longrightarrow>
   Option.bind (emit buf out) (\<lambda>w. Option.bind
     (if b then do { w \<leftarrow> writeMQTTString w s; writeMQTTString w t } else Some w) k) =
   Option.bind (emit buf (out @ opt_field b s @ opt_field b t)) k"
  by (cases b) (simp_all add: opt_field_def emit_simps)

lemma protocol_emit [emit_simps]:
  "Option.bind (emit buf out) (\<lambda>w. Option.bind
     (if b then do { w \<leftarrow> writeCString w s; writeChar w c } else do { w \<leftarrow> writeCString w t; writeChar w d }) k) =
   Option.bind (emit buf (out @ (if b then lp_string s @ [c] else lp_string t @ [d]))) k"
  by (cases b) (simp_all add: emit_simps)

lemma MQTTSerialize_connect_eq:
  assumes "connect_ok d"
  shows "MQTTSerialize_connect buf buflen d =
    (if MQTTPacket_len (MQTTSerialize_connectLength d) > buflen then Some (buf, - 2)
     else emit_rc buf (connect_wire d))"
proof -
  have ok: "MQTTString_ok (cd_clientID d)" "MQTTString_ok (cd_username d)" "MQTTString_ok (cd_password d)"
    "MQTTString_ok (will_topicName (cd_will d))" "MQTTString_ok (will_message (cd_will d))"
    using assms by (auto simp: connect_ok_def)
  define n where "n = length (connect_body d)"
  have n: "MQTTSerialize_connectLength d = int n" "connect_wire d = set_header_type 1 0 # varint n @ connect_body d"
    using connectLength_body [OF assms] by (simp_all add: n_def connect_wire_def)
  have u: "has_string s \<longleftrightarrow> (if has_string s then 1 else 0 :: byte) \<noteq> 0" for s
    by simp
  show ?thesis
    unfolding MQTTSerialize_connect_def n Let_def connect_flags_fields(5,6) u [symmetric]
    by (simp add: emit_simps ok connect_body_def del: if_split)
qed

text \<open>The deserialiser wants at least one byte of user name or password behind the two length
  bytes, and no password without a user name.\<close>

definition connect_parsable :: "MQTTPacket_connectData \<Rightarrow> bool" where
  "connect_parsable d \<longleftrightarrow>
     (has_string (cd_password d) \<longrightarrow>
        has_string (cd_username d) \<and> MQTTString_bytes (cd_password d) \<noteq> []) \<and>
     (has_string (cd_username d) \<longrightarrow>
        has_string (cd_password d) \<or> MQTTString_bytes (cd_username d) \<noteq> [])"

definition opt_bytes :: "MQTTString \<Rightarrow> byte list option" where
  "opt_bytes s = (if has_string s then Some (MQTTString_bytes s) else None)"

type_synonym connect_values =
  "byte \<times> u16 \<times> byte list \<times> (byte \<times> byte \<times> byte list \<times> byte list) option
   \<times> byte list option \<times> byte list option"

definition connect_view :: "MQTTPacket_connectData \<Rightarrow> connect_values" where
  "connect_view d =
     (cd_cleansession d, cd_keepAliveInterval d, MQTTString_bytes (cd_clientID d),
      if cd_willFlag d \<noteq> 0
      then Some (will_qos (cd_will d), will_retained (cd_will d),
                 MQTTString_bytes (will_topicName (cd_will d)), MQTTString_bytes (will_message (cd_will d)))
      else None,
      opt_bytes (cd_username d), opt_bytes (cd_password d))"

text \<open>What survives the flags byte: single bits of clean session and will retain, two of the
  will QoS.\<close>

definition connect_val :: "MQTTPacket_connectData \<Rightarrow> connect_values" where
  "connect_val d = connect_view (d\<lparr>cd_cleansession := take_bit 1 (cd_cleansession d),
     cd_will := (cd_will d)\<lparr>will_qos := take_bit 2 (will_qos (cd_will d)),
                            will_retained := take_bit 1 (will_retained (cd_will d))\<rparr>\<rparr>)"

lemma protocol_matches_self:
  "protocol_matches \<lparr>cstring = None, lenstring = \<lparr>ls_len = int (length name), ls_data = Some (name @ ys)\<rparr>\<rparr>
     name (int (length name)) = Some True"
  by (simp add: protocol_matches_def memcmp_eq_take)

lemma checkVersion_written:
  "MQTTPacket_checkVersion \<lparr>cstring = None, lenstring = \<lparr>ls_len = 4, ls_data = Some (protocol_MQTT @ ys)\<rparr>\<rparr> 4 = Some 1"
  "MQTTPacket_checkVersion \<lparr>cstring = None, lenstring = \<lparr>ls_len = 6, ls_data = Some (protocol_MQIsdp @ ys)\<rparr>\<rparr> 3 = Some 1"
  using protocol_matches_self [of protocol_MQTT ys] protocol_matches_self [of protocol_MQIsdp ys]
  by (simp_all add: MQTTPacket_checkVersion_def protocol_MQTT_def protocol_MQIsdp_def)

lemma has_string_read [simp]:
  "has_string \<lparr>cstring = None, lenstring = \<lparr>ls_len = n, ls_data = Some bs\<rparr>\<rparr>"
  by (simp add: has_string_def)

lemma has_string_initializer [simp]: "\<not> has_string MQTTString_initializer"
  by (simp add: has_string_def MQTTString_initializer_def)

lemma connect_payload_decode:
  assumes "connect_ok d" "connect_parsable d"
    and "p + int (length (opt_field (has_string (cd_username d)) (cd_username d)
                          @ opt_field (has_string (cd_password d)) (cd_password d))) \<le> enddata"
    and "\<not> has_string (cd_username data)" "\<not> has_string (cd_password data)"
  shows "\<exists>data'. MQTTDeserialize_connect_payload data (connect_flags d)
      (p, opt_field (has_string (cd_username d)) (cd_username d)
          @ opt_field (has_string (cd_password d)) (cd_password d) @ rest) enddata = Some (1, data') \<and>
    connect_view data' = connect_view (data\<lparr>cd_username := cd_username d, cd_password := cd_password d\<rparr>)"
proof -
  let ?u = "MQTTString_bytes (cd_username d)" and ?p = "MQTTString_bytes (cd_password d)"
  have len: "length ?u < 65536" "length ?p < 65536"
    using assms(1) by (auto simp: connect_ok_def MQTTString_ok_def)
  consider (neither) "\<not> has_string (cd_username d)" "\<not> has_string (cd_password d)"
    | (user) "has_string (cd_username d)" "\<not> has_string (cd_password d)" "length ?u > 0"
    | (both) "has_string (cd_username d)" "has_string (cd_password d)" "length ?p > 0"
    using assms(2) by (auto simp: connect_parsable_def)
  then show ?thesis
  proof cases
    case neither
    with assms(4,5) show ?thesis
      by (simp add: MQTTDeserialize_connect_payload_def field_simps opt_field_def opt_bytes_def
          connect_view_def)
  next
    case user
    with assms(3,5) len show ?thesis
      by (simp add: MQTTDeserialize_connect_payload_def field_simps opt_field_def read_simps opt_bytes_def
          connect_view_def Let_def
          del: length_greater_0_conv)
  next
    case both
    with assms(3) len show ?thesis
      by (simp add: MQTTDeserialize_connect_payload_def field_simps opt_field_def read_simps opt_bytes_def
          connect_view_def Let_def
          del: length_greater_0_conv)
  qed
qed

lemma length_protocols [simp]: "length protocol_MQTT = 4" "length protocol_MQIsdp = 6"
  by (simp_all add: protocol_MQTT_def protocol_MQIsdp_def)

lemma connect_payload_refused:
  assumes "connect_ok d" "\<not> connect_parsable d"
    and "p + int (length (opt_field (has_string (cd_username d)) (cd_username d)
                          @ opt_field (has_string (cd_password d)) (cd_password d))) = enddata"
  shows "\<exists>data'. MQTTDeserialize_connect_payload data (connect_flags d)
      (p, opt_field (has_string (cd_username d)) (cd_username d)
          @ opt_field (has_string (cd_password d)) (cd_password d) @ rest) enddata = Some (0, data')"
proof -
  let ?u = "MQTTString_bytes (cd_username d)" and ?p = "MQTTString_bytes (cd_password d)"
  have len: "length ?u < 65536" "length ?p < 65536"
    using assms(1) by (auto simp: connect_ok_def MQTTString_ok_def)
  consider (alone) "\<not> has_string (cd_username d)" "has_string (cd_password d)"
    | (user) "has_string (cd_username d)" "\<not> has_string (cd_password d)" "?u = []"
    | (both) "has_string (cd_username d)" "has_string (cd_password d)" "?p = []"
    using assms(2) by (auto simp: connect_parsable_def)
  then show ?thesis
    by cases (use assms(3) len in \<open>simp_all add: MQTTDeserialize_connect_payload_def field_simps opt_field_def read_simps Let_def\<close>)
qed

text \<open>Up to the user name nothing is refused.\<close>

lemma connect_head_decode:
  assumes "connect_ok d" "int (length (connect_wire d)) \<le> n"
  shows "\<exists>data p. MQTTDeserialize_connect abi MQTTPacket_connectData_initializer (connect_wire d @ rest) n =
      MQTTDeserialize_connect_payload data (connect_flags d) (p, opt_field (has_string (cd_username d)) (cd_username d)
             @ opt_field (has_string (cd_password d)) (cd_password d) @ rest) n \<and>
    p + int (length (opt_field (has_string (cd_username d)) (cd_username d)
             @ opt_field (has_string (cd_password d)) (cd_password d))) = int (length (connect_wire d)) \<and>
    connect_view (data\<lparr>cd_username := cd_username d, cd_password := cd_password d\<rparr>) = connect_val d \<and>
    \<not> has_string (cd_username data) \<and> \<not> has_string (cd_password data)"
proof -
  let ?up = "opt_field (has_string (cd_username d)) (cd_username d)
             @ opt_field (has_string (cd_password d)) (cd_password d)"
  have small: "length (MQTTString_bytes (cd_clientID d)) < 65536"
    "length (MQTTString_bytes (will_topicName (cd_will d))) < 65536"
    "length (MQTTString_bytes (will_message (cd_will d))) < 65536"
    "length (connect_body d) < 268435456" "cd_MQTTVersion d = 3 \<or> cd_MQTTVersion d = 4"
    using assms(1) by (auto simp: connect_ok_def MQTTString_ok_def)
  define m where "m = length (connect_body d)"
  have w: "connect_wire d = set_header_type 1 0 # varint m @ connect_body d" "m < 268435456"
    "1 + int (length (varint m)) + int (length (connect_body d)) \<le> n"
    using small(4) assms(2) by (simp_all add: connect_wire_def m_def)
  have v: "char_int abi 4 = 4" "char_int abi 3 = 3"
    by (simp_all add: char_int_small)
  have init: "\<not> has_string (cd_username MQTTPacket_connectData_initializer)"
     "\<not> has_string (cd_password MQTTPacket_connectData_initializer)"
    by (simp_all add: MQTTPacket_connectData_initializer_def)
  define Q where "Q r \<longleftrightarrow> (\<exists>data p. r = MQTTDeserialize_connect_payload data (connect_flags d) (p, ?up @ rest) n \<and>
      p + int (length ?up) = int (length (connect_wire d)) \<and>
      connect_view (data\<lparr>cd_username := cd_username d, cd_password := cd_password d\<rparr>) = connect_val d \<and>
      \<not> has_string (cd_username data) \<and> \<not> has_string (cd_password data))" for r
  have QI: "Q (MQTTDeserialize_connect_payload data (connect_flags d) (p, opt_field (has_string (cd_username d)) (cd_username d)
             @ opt_field (has_string (cd_password d)) (cd_password d) @ rest) n)"
    if "connect_view (data\<lparr>cd_username := cd_username d, cd_password := cd_password d\<rparr>) = connect_val d"
      "\<not> has_string (cd_username data)" "\<not> has_string (cd_password data)" "p + int (length ?up) = int (length (connect_wire d))"
    for data p
    using that unfolding Q_def by auto
  consider "cd_MQTTVersion d = 3" "cd_willFlag d = 0" | "cd_MQTTVersion d = 3" "cd_willFlag d \<noteq> 0"
    | "cd_MQTTVersion d = 4" "cd_willFlag d = 0" | "cd_MQTTVersion d = 4" "cd_willFlag d \<noteq> 0"
    using small(5) by auto
  then have "Q (MQTTDeserialize_connect abi MQTTPacket_connectData_initializer (connect_wire d @ rest) n)"
  proof cases
  qed (insert w(3) small(1,2,3),
     (simp add: MQTTDeserialize_connect_def w(1) connect_body_def Let_def read_simps field_simps header_defs w(2) v
        checkVersion_written opt_field_def [of True] opt_field_def [of False],
     intro QI; simp add: init connect_view_def connect_val_def field_simps w(1) connect_body_def
        opt_field_def [of True] opt_field_def [of False])+)
  then show ?thesis
    by (simp add: Q_def)
qed

lemma connect_decode:
  assumes "connect_ok d" "connect_parsable d" "int (length (connect_wire d)) \<le> n"
  shows "\<exists>data'. MQTTDeserialize_connect abi MQTTPacket_connectData_initializer (connect_wire d @ rest) n
      = Some (1, data') \<and> connect_view data' = connect_val d"
proof -
  obtain data p where h: "MQTTDeserialize_connect abi MQTTPacket_connectData_initializer (connect_wire d @ rest) n =
      MQTTDeserialize_connect_payload data (connect_flags d) (p, opt_field (has_string (cd_username d)) (cd_username d)
             @ opt_field (has_string (cd_password d)) (cd_password d) @ rest) n"
    "p + int (length (opt_field (has_string (cd_username d)) (cd_username d)
             @ opt_field (has_string (cd_password d)) (cd_password d))) \<le> n"
    "connect_view (data\<lparr>cd_username := cd_username d, cd_password := cd_password d\<rparr>) = connect_val d"
    "\<not> has_string (cd_username data)" "\<not> has_string (cd_password data)"
    using connect_head_decode [OF assms(1,3), of abi rest] assms(3) by force
  then show ?thesis
    using connect_payload_decode [OF assms(1,2) h(2,4,5), of rest] by simp
qed

lemma connect_refused:
  assumes "connect_ok d" "\<not> connect_parsable d"
  shows "\<exists>data'. MQTTDeserialize_connect abi MQTTPacket_connectData_initializer (connect_wire d @ rest) (int (length (connect_wire d))) = Some (0, data')"
  using connect_head_decode [OF assms(1) order_refl, of abi rest] connect_payload_refused [OF assms] by metis

text \<open>The version is checked and not stored.\<close>

lemma connect_keeps_version:
  assumes "MQTTDeserialize_connect abi data buf n = Some (r, data')"
  shows "cd_MQTTVersion data' = cd_MQTTVersion data"
proof -
  have "cd_MQTTVersion b = cd_MQTTVersion a" if "MQTTDeserialize_connect_payload a fl cur e = Some (x, b)" for a fl cur e x b
    using that by (auto simp: MQTTDeserialize_connect_payload_def Let_def split: if_splits Option.bind_splits)
  then show ?thesis
    using assms by (fastforce simp: MQTTDeserialize_connect_def Let_def split: if_splits Option.bind_splits)
qed

interpretation connect: safe_packet_writer MQTTSerialize_connect
  "\<lambda>d. MQTTPacket_len (MQTTSerialize_connectLength d)" connect_wire connect_ok
proof unfold_locales
  fix d buf buflen
  assume "connect_ok d"
  then show "MQTTSerialize_connect buf buflen d =
     (if MQTTPacket_len (MQTTSerialize_connectLength d) > buflen then Some (buf, - 2)
      else emit_rc buf (connect_wire d))"
    by (rule MQTTSerialize_connect_eq)
next
  fix d
  assume ok: "connect_ok d"
  then show "int (length (connect_wire d)) \<le> MQTTPacket_len (MQTTSerialize_connectLength d)"
    using MQTTPacket_len_bounds(1) [of "int (length (connect_body d))"]
    by (simp add: connectLength_body connect_wire_def connect_ok_def)
qed

text \<open>The deserialiser overwrites only what the packet carries: it runs on the default options.\<close>

interpretation connect_server: packet_codec MQTTSerialize_connect
  "\<lambda>d. MQTTPacket_len (MQTTSerialize_connectLength d)" connect_wire
  "\<lambda>d. connect_ok d \<and> connect_parsable d"
  "\<lambda>_. MQTTDeserialize_connect abi MQTTPacket_connectData_initializer" connect_view connect_val for abi
  by unfold_locales (auto simp: connect.ser_eq connect_decode intro: connect.need_covers)

fun connack_wire :: "byte \<times> byte \<Rightarrow> byte list" where
  "connack_wire (rc, sessionPresent) =
     [set_header_type 2 0, 2, set_connack_sessionpresent sessionPresent 0, rc]"

text \<open>CONNACK is four bytes long, but the length check asks for two: this writer is not a safe
  one.\<close>

interpretation connack: packet_writer
  "\<lambda>buf buflen (rc, sp). MQTTSerialize_connack buf buflen rc sp" "\<lambda>_. 2" connack_wire "\<lambda>_. True"
  by unfold_locales
    (auto simp: MQTTSerialize_connack_def emit_simps varint_small Let_def)

lemma connack_decode:
  "MQTTDeserialize_connack out (connack_wire (rc, sp) @ rest) n =
     Some (1, out\<lparr>ca_sessionPresent := take_bit 1 sp, ca_connack_rc := rc\<rparr>)"
  by (simp add: MQTTDeserialize_connack_def read_simps field_simps header_defs ptr_add_def
      connack_sessionpresent_def set_connack_sessionpresent_def)

interpretation zero: safe_packet_writer MQTTSerialize_zero "\<lambda>_. 2" "\<lambda>t. [set_header_type t 0, 0]" "\<lambda>_. True"
  by unfold_locales (auto simp: MQTTSerialize_zero_def emit_simps varint_small Let_def)

subsection \<open>Properties\<close>

text \<open>\<open>MQTTSerialize_connect\<close> is memory safe and writes exactly the CONNECT packet of its options:
  header, remaining length, protocol name and level of the version asked for, flags, keep alive,
  client identifier, and then the will, the user name and the password, each if and only if it is set. A buffer
  shorter than the length check asks for is refused unchanged.\<close>

theorem connect_writes_packet:
  assumes "connect_ok options" "buflen \<le> int (length buf)"
  shows "\<exists>buf' rc. MQTTSerialize_connect buf buflen options = Some (buf', rc) \<and> length buf' = length buf \<and>
    (rc = - 2 \<and> buf' = buf \<and> buflen < MQTTPacket_len (MQTTSerialize_connectLength options) \<or>
     0 \<le> rc \<and> rc \<le> buflen \<and> take (nat rc) buf' = connect_wire options \<and> drop (nat rc) buf' = drop (nat rc) buf)"
  using assms by (rule connect.memory_safe)

theorem connect_writes_packet_witness:
  "\<exists>buf' rc. MQTTSerialize_connect (replicate 20 0) 20 (MQTTPacket_connectData_initializer\<lparr>cd_clientID := MQTTString_c [109, 101]\<rparr>)
       = Some (buf', rc) \<and> length buf' = length (replicate 20 (0 :: byte)) \<and>
    (rc = - 2 \<and> buf' = replicate 20 0 \<and>
       20 < MQTTPacket_len (MQTTSerialize_connectLength (MQTTPacket_connectData_initializer\<lparr>cd_clientID := MQTTString_c [109, 101]\<rparr>)) \<or>
     0 \<le> rc \<and> rc \<le> 20 \<and>
       take (nat rc) buf' = connect_wire (MQTTPacket_connectData_initializer\<lparr>cd_clientID := MQTTString_c [109, 101]\<rparr>) \<and>
       drop (nat rc) buf' = drop (nat rc) (replicate 20 0))"
  by (rule connect_writes_packet)
     (simp_all add: connect_ok_def connect_body_def opt_field_def MQTTPacket_connectData_initializer_def
       MQTTPacket_willOptions_initializer_def MQTTString_ok_def [of MQTTString_initializer]
       MQTTString_bytes_def [of MQTTString_initializer], simp_all add: MQTTString_initializer_def)

text \<open>C16: Round trip of CONNECT between client and server code. For options with a supported version, the packet the client writes is accepted by \<open>MQTTDeserialize_connect\<close>, on a platform with
  signed as with unsigned \<open>char\<close>, exactly if a password comes with a user name and the last credential is not empty; it is refused otherwise. If it is accepted, the bit for clean session, the keep alive
  time, the client identifier, the will (two bits of QoS, the retain bit, topic and message), the user name and the password come out as they went in. The version is checked only: that of the options
  that come out stays what it was.\<close>

theorem connect_round_trip:
  assumes "connect_ok options" "MQTTSerialize_connect buf buflen options = Some (buf', rc)" "rc \<noteq> - 2"
  shows "\<exists>r data. MQTTDeserialize_connect abi MQTTPacket_connectData_initializer buf' rc = Some (r, data) \<and>
    (r = 0 \<or> r = 1) \<and>
    (r = 1 \<longleftrightarrow>
       (has_string (cd_password options) \<longrightarrow> has_string (cd_username options) \<and> MQTTString_bytes (cd_password options) \<noteq> []) \<and>
       (has_string (cd_username options) \<longrightarrow> has_string (cd_password options) \<or> MQTTString_bytes (cd_username options) \<noteq> [])) \<and>
    cd_MQTTVersion data = cd_MQTTVersion MQTTPacket_connectData_initializer \<and>
    (r = 1 \<longrightarrow>
      cd_cleansession data = take_bit 1 (cd_cleansession options) \<and>
      cd_keepAliveInterval data = cd_keepAliveInterval options \<and>
      MQTTString_bytes (cd_clientID data) = MQTTString_bytes (cd_clientID options) \<and>
      (cd_willFlag data \<noteq> 0 \<longleftrightarrow> cd_willFlag options \<noteq> 0) \<and>
      (cd_willFlag options \<noteq> 0 \<longrightarrow>
         will_qos (cd_will data) = take_bit 2 (will_qos (cd_will options)) \<and>
         will_retained (cd_will data) = take_bit 1 (will_retained (cd_will options)) \<and>
         MQTTString_bytes (will_topicName (cd_will data)) = MQTTString_bytes (will_topicName (cd_will options)) \<and>
         MQTTString_bytes (will_message (cd_will data)) = MQTTString_bytes (will_message (cd_will options))) \<and>
      opt_bytes (cd_username data) = opt_bytes (cd_username options) \<and>
      opt_bytes (cd_password data) = opt_bytes (cd_password options))"
proof (cases "connect_parsable options")
  case True
  obtain data where d: "MQTTDeserialize_connect abi MQTTPacket_connectData_initializer buf' rc = Some (1, data)" "connect_view data = connect_val options"
    using connect_server.round_trip [OF conjI [OF assms(1) True] assms(2,3), where n = rc and abi = abi] by auto
  then show ?thesis
    using True [unfolded connect_parsable_def] connect_keeps_version [OF d(1)]
    by (cases "cd_willFlag options = 0") (auto simp: connect_val_def connect_view_def split: if_splits)
next
  case False
  have "buf' = connect_wire options @ drop (length (connect_wire options)) buf" "rc = int (length (connect_wire options))"
    using connect.result_cases [OF assms(1,2)] assms(3) by auto
  then obtain data where "MQTTDeserialize_connect abi MQTTPacket_connectData_initializer buf' rc = Some (0, data)"
    using connect_refused [OF assms(1) False] by blast
  then show ?thesis
    using False [unfolded connect_parsable_def] connect_keeps_version by fastforce
qed

theorem connect_round_trip_witness:
  "\<exists>data. MQTTDeserialize_connect Signed_Char MQTTPacket_connectData_initializer
       [16, 20, 0, 4, 77, 81, 84, 84, 4, 194, 0, 60, 0, 2, 109, 101, 0, 1, 117, 0, 1, 112, 0] 22 = Some (1, data) \<and>
     MQTTString_bytes (cd_clientID data) = [109, 101] \<and> opt_bytes (cd_username data) = Some [117] \<and>
     opt_bytes (cd_password data) = Some [112]"
proof -
  let ?o = "MQTTPacket_connectData_initializer\<lparr>cd_clientID := MQTTString_c [109, 101],
      cd_username := MQTTString_c [117], cd_password := MQTTString_c [112]\<rparr>"
  have ok: "connect_ok ?o"
    by (simp add: connect_ok_def connect_body_def opt_field_def MQTTPacket_connectData_initializer_def
       MQTTPacket_willOptions_initializer_def MQTTString_ok_def [of MQTTString_initializer]
       MQTTString_bytes_def [of MQTTString_initializer], simp add: MQTTString_initializer_def)
  have c: "has_string (MQTTString_c s)" for s
    by (simp add: has_string_def MQTTString_c_def)
  have ser: "MQTTSerialize_connect (replicate 23 0) 23 ?o =
      Some ([16, 20, 0, 4, 77, 81, 84, 84, 4, 194, 0, 60, 0, 2, 109, 101, 0, 1, 117, 0, 1, 112, 0], 22)"
    by code_simp
  show ?thesis
    using connect_round_trip [OF ok ser, of Signed_Char] by (auto simp: opt_bytes_def [of "MQTTString_c s" for s] c)
qed

text \<open>The CONNACK, SUBACK and UNSUBACK serialisers check the buffer against the length of the body
  and forget the fixed header. For CONNACK: with \<open>buflen\<close> 2 or 3, the call passes the check and then writes behind
  the end of the buffer.\<close>

theorem connack_overruns:
  assumes "2 \<le> buflen" "buflen < 4" "buflen = int (length buf)"
  shows "MQTTSerialize_connack buf buflen connack_rc sessionPresent = None"
  using connack.overruns [where a = "(connack_rc, sessionPresent)" and buflen = buflen and buf = buf] assms by simp

theorem connack_overruns_witness: "MQTTSerialize_connack [0, 0, 0] 3 0 1 = None"
  by (rule connack_overruns) simp_all

end
