(* ===== verification/MQTT_Subscribe.thy ===== *)
theory MQTT_Subscribe
  imports MQTT_Publish
begin

text \<open>
  \<^verbatim>\<open>MQTTSubscribeClient.c\<close>, \<^verbatim>\<open>MQTTSubscribeServer.c\<close>, \<^verbatim>\<open>MQTTUnsubscribeClient.c\<close> and
  \<^verbatim>\<open>MQTTUnsubscribeServer.c\<close>: SUBSCRIBE, SUBACK, UNSUBSCRIBE and UNSUBACK. The arrays the
  callers pass are lists as long as the arrays are; the loops index them the way the code
  does, so an index beyond the array is the out-of-bounds access \<open>None\<close>.
\<close>

subsection \<open>SUBSCRIBE, client side\<close>

function MQTTSerialize_subscribeLength_loop :: "int \<Rightarrow> int \<Rightarrow> MQTTString list \<Rightarrow> int \<Rightarrow> int option" where
  "MQTTSerialize_subscribeLength_loop i count topicFilters len =
     (if i < count
      then case array_get topicFilters i of
             None \<Rightarrow> None
           | Some t \<Rightarrow>
               MQTTSerialize_subscribeLength_loop (i + 1) count topicFilters (len + (2 + MQTTstrlen t + 1))
      else Some len)"
  by pat_completeness auto
termination
  by (relation "measure (\<lambda>(i, count, ts, len). nat (count - i))") auto

declare MQTTSerialize_subscribeLength_loop.simps [simp del]

definition MQTTSerialize_subscribeLength :: "int \<Rightarrow> MQTTString list \<Rightarrow> int option" where
  "MQTTSerialize_subscribeLength count topicFilters =
     MQTTSerialize_subscribeLength_loop 0 count topicFilters 2"

function MQTTSerialize_subscribe_loop ::
  "wptr \<Rightarrow> int \<Rightarrow> int \<Rightarrow> MQTTString list \<Rightarrow> int list \<Rightarrow> wptr option" where
  "MQTTSerialize_subscribe_loop w i count topicFilters requestedQoSs =
     (if i < count
      then case (do { t \<leftarrow> array_get topicFilters i;
                      w \<leftarrow> writeMQTTString w t;
                      q \<leftarrow> array_get requestedQoSs i;
                      writeChar w (word_of_int q) }) of
             None \<Rightarrow> None
           | Some w \<Rightarrow> MQTTSerialize_subscribe_loop w (i + 1) count topicFilters requestedQoSs
      else Some w)"
  by pat_completeness auto
termination
  by (relation "measure (\<lambda>(w, i, count, ts, qs). nat (count - i))") auto

declare MQTTSerialize_subscribe_loop.simps [simp del]

definition MQTTSerialize_subscribe ::
  "buffer \<Rightarrow> int \<Rightarrow> byte \<Rightarrow> u16 \<Rightarrow> int \<Rightarrow> MQTTString list \<Rightarrow> int list \<Rightarrow> (buffer \<times> int) option" where
  "MQTTSerialize_subscribe buf buflen dup packetid count topicFilters requestedQoSs = do {
     rem_len \<leftarrow> MQTTSerialize_subscribeLength count topicFilters;
     if MQTTPacket_len rem_len > buflen then Some (buf, MQTTPACKET_BUFFER_TOO_SHORT)
     else do {
       let header = set_header_type (msgType_code SUBSCRIBE) 0;
       let header = set_header_dup dup header;
       let header = set_header_qos 1 header;
       w \<leftarrow> writeChar (buf, 0) header;
       w \<leftarrow> write_rem_len w rem_len;
       w \<leftarrow> writeInt w (uint packetid);
       w \<leftarrow> MQTTSerialize_subscribe_loop w 0 count topicFilters requestedQoSs;
       Some (fst w, int (snd w)) } }"

record suback_out =
  sa_packetid :: u16
  sa_count :: int
  sa_grantedQoSs :: "int list"

function MQTTDeserialize_suback_loop ::
  "char_abi \<Rightarrow> int \<Rightarrow> suback_out \<Rightarrow> rptr \<Rightarrow> int \<Rightarrow> (int \<times> suback_out) option" where
  "MQTTDeserialize_suback_loop abi maxcount out curdata enddata =
     (if fst curdata < enddata
      then if sa_count out > maxcount then Some (- 1, out)
           else case readChar curdata of
                  None \<Rightarrow> None
                | Some (c, curdata') \<Rightarrow>
                    (case array_set (sa_grantedQoSs out) (sa_count out) (char_int abi c) of
                       None \<Rightarrow> None
                     | Some qs \<Rightarrow>
                         MQTTDeserialize_suback_loop abi maxcount
                           (out\<lparr>sa_grantedQoSs := qs, sa_count := sa_count out + 1\<rparr>) curdata' enddata)
      else Some (1, out))"
  by pat_completeness auto
termination
  by (relation "measure (\<lambda>(abi, m, out, cur, e). nat (e - fst cur))")
     (auto simp: readChar_def ptr_add_def split: list.splits)

declare MQTTDeserialize_suback_loop.simps [simp del]

definition MQTTDeserialize_suback ::
  "char_abi \<Rightarrow> int \<Rightarrow> suback_out \<Rightarrow> buffer \<Rightarrow> int \<Rightarrow> (int \<times> suback_out) option" where
  "MQTTDeserialize_suback abi maxcount out buf buflen = do {
     (header, curdata) \<leftarrow> readChar (0, buf);
     if header_type header \<noteq> msgType_code SUBACK then Some (0, out)
     else do {
       (rc, mylen) \<leftarrow> MQTTPacket_decodeBuf curdata;
       let curdata = ptr_add curdata rc;
       let enddata = fst curdata + mylen;
       if enddata - fst curdata < 2 then Some (rc, out)
       else do {
         (i, curdata) \<leftarrow> readInt curdata;
         MQTTDeserialize_suback_loop abi maxcount (out\<lparr>sa_packetid := word_of_int i, sa_count := 0\<rparr>)
           curdata enddata } } }"

subsection \<open>SUBSCRIBE, server side\<close>

record subscribe_out =
  sub_dup :: byte
  sub_packetid :: u16
  sub_count :: int
  sub_topicFilters :: "MQTTString list"
  sub_requestedQoSs :: "int list"

lemma readMQTTLenString_advances:
  assumes "readMQTTLenString s cur enddata = Some (rd, s', cur')" "rd \<noteq> 0"
  shows "fst cur < enddata" "fst cur + 2 \<le> fst cur'" "fst cur' \<le> enddata"
proof -
  obtain l c where l: "readInt cur = Some (l, c)" "0 \<le> l" "fst c = fst cur + 2"
    "enddata - fst cur > 1" "fst cur' = fst c + l" "fst c + l \<le> enddata"
    using assms by (auto simp: readMQTTLenString_def readInt_def Let_def ptr_add_def
        split: if_splits Option.bind_splits list.splits)
  then show "fst cur < enddata" "fst cur + 2 \<le> fst cur'" "fst cur' \<le> enddata"
    by simp_all
qed

text \<open>The early exits of the loop leave \<open>rc\<close> as \<open>MQTTPacket_decodeBuf\<close> set it.\<close>

function MQTTDeserialize_subscribe_loop ::
  "char_abi \<Rightarrow> int \<Rightarrow> subscribe_out \<Rightarrow> rptr \<Rightarrow> int \<Rightarrow> (int \<times> subscribe_out) option" where
  "MQTTDeserialize_subscribe_loop abi rc out curdata enddata =
     (if fst curdata < enddata
      then case array_get (sub_topicFilters out) (sub_count out) of
             None \<Rightarrow> None
           | Some t \<Rightarrow>
          (case readMQTTLenString t curdata enddata of
             None \<Rightarrow> None
           | Some (rd, t, curdata') \<Rightarrow>
               (let out = out\<lparr>sub_topicFilters := (sub_topicFilters out)[nat (sub_count out) := t]\<rparr>
                in if rd = 0 then Some (rc, out)
                   else if fst curdata' \<ge> enddata then Some (rc, out)
                   else case readChar curdata' of
                     None \<Rightarrow> None
                   | Some (c, curdata'') \<Rightarrow>
                       (case array_set (sub_requestedQoSs out) (sub_count out) (char_int abi c) of
                          None \<Rightarrow> None
                        | Some qs \<Rightarrow>
                            MQTTDeserialize_subscribe_loop abi rc
                              (out\<lparr>sub_requestedQoSs := qs, sub_count := sub_count out + 1\<rparr>)
                              curdata'' enddata)))
      else Some (1, out))"
  by pat_completeness auto
termination
proof (relation "measure (\<lambda>(abi, rc, out, cur, e). nat (e - fst cur))", goal_cases)
  case (2 abi rc out curdata enddata t x rd y t' curdata' out' z c curdata'' qs)
  then have "fst curdata' < fst curdata''"
    by (auto simp: readChar_def ptr_add_def split: list.splits)
  moreover have "fst curdata < fst curdata'"
    using readMQTTLenString_advances(2) [of t curdata enddata rd t' curdata'] 2 by auto
  ultimately show ?case
    using 2 by simp
qed simp

declare MQTTDeserialize_subscribe_loop.simps [simp del]

definition MQTTDeserialize_subscribe ::
  "char_abi \<Rightarrow> int \<Rightarrow> subscribe_out \<Rightarrow> buffer \<Rightarrow> int \<Rightarrow> (int \<times> subscribe_out) option" where
  "MQTTDeserialize_subscribe abi maxcount out buf buflen = do {
     (header, curdata) \<leftarrow> readChar (0, buf);
     if header_type header \<noteq> msgType_code SUBSCRIBE then Some (- 1, out)
     else do {
       let out = out\<lparr>sub_dup := header_dup header\<rparr>;
       (rc, mylen) \<leftarrow> MQTTPacket_decodeBuf curdata;
       let curdata = ptr_add curdata rc;
       let enddata = fst curdata + mylen;
       (i, curdata) \<leftarrow> readInt curdata;
       MQTTDeserialize_subscribe_loop abi rc (out\<lparr>sub_packetid := word_of_int i, sub_count := 0\<rparr>)
         curdata enddata } }"

function MQTTSerialize_suback_loop :: "wptr \<Rightarrow> int \<Rightarrow> int \<Rightarrow> int list \<Rightarrow> wptr option" where
  "MQTTSerialize_suback_loop w i count grantedQoSs =
     (if i < count
      then case (do { q \<leftarrow> array_get grantedQoSs i; writeChar w (word_of_int q) }) of
             None \<Rightarrow> None
           | Some w \<Rightarrow> MQTTSerialize_suback_loop w (i + 1) count grantedQoSs
      else Some w)"
  by pat_completeness auto
termination
  by (relation "measure (\<lambda>(w, i, count, qs). nat (count - i))") auto

declare MQTTSerialize_suback_loop.simps [simp del]

definition MQTTSerialize_suback :: "buffer \<Rightarrow> int \<Rightarrow> u16 \<Rightarrow> int \<Rightarrow> int list \<Rightarrow> (buffer \<times> int) option" where
  "MQTTSerialize_suback buf buflen packetid count grantedQoSs =
     (if buflen < 2 + count then Some (buf, MQTTPACKET_BUFFER_TOO_SHORT)
      else do {
        let header = set_header_type (msgType_code SUBACK) 0;
        w \<leftarrow> writeChar (buf, 0) header;
        w \<leftarrow> write_rem_len w (2 + count);
        w \<leftarrow> writeInt w (uint packetid);
        w \<leftarrow> MQTTSerialize_suback_loop w 0 count grantedQoSs;
        Some (fst w, int (snd w)) })"

subsection \<open>UNSUBSCRIBE\<close>

function MQTTSerialize_unsubscribeLength_loop :: "int \<Rightarrow> int \<Rightarrow> MQTTString list \<Rightarrow> int \<Rightarrow> int option" where
  "MQTTSerialize_unsubscribeLength_loop i count topicFilters len =
     (if i < count
      then case array_get topicFilters i of
             None \<Rightarrow> None
           | Some t \<Rightarrow>
               MQTTSerialize_unsubscribeLength_loop (i + 1) count topicFilters (len + (2 + MQTTstrlen t))
      else Some len)"
  by pat_completeness auto
termination
  by (relation "measure (\<lambda>(i, count, ts, len). nat (count - i))") auto

declare MQTTSerialize_unsubscribeLength_loop.simps [simp del]

definition MQTTSerialize_unsubscribeLength :: "int \<Rightarrow> MQTTString list \<Rightarrow> int option" where
  "MQTTSerialize_unsubscribeLength count topicFilters =
     MQTTSerialize_unsubscribeLength_loop 0 count topicFilters 2"

function MQTTSerialize_unsubscribe_loop :: "wptr \<Rightarrow> int \<Rightarrow> int \<Rightarrow> MQTTString list \<Rightarrow> wptr option" where
  "MQTTSerialize_unsubscribe_loop w i count topicFilters =
     (if i < count
      then case (do { t \<leftarrow> array_get topicFilters i; writeMQTTString w t }) of
             None \<Rightarrow> None
           | Some w \<Rightarrow> MQTTSerialize_unsubscribe_loop w (i + 1) count topicFilters
      else Some w)"
  by pat_completeness auto
termination
  by (relation "measure (\<lambda>(w, i, count, ts). nat (count - i))") auto

declare MQTTSerialize_unsubscribe_loop.simps [simp del]

definition MQTTSerialize_unsubscribe ::
  "buffer \<Rightarrow> int \<Rightarrow> byte \<Rightarrow> u16 \<Rightarrow> int \<Rightarrow> MQTTString list \<Rightarrow> (buffer \<times> int) option" where
  "MQTTSerialize_unsubscribe buf buflen dup packetid count topicFilters = do {
     rem_len \<leftarrow> MQTTSerialize_unsubscribeLength count topicFilters;
     if MQTTPacket_len rem_len > buflen then Some (buf, MQTTPACKET_BUFFER_TOO_SHORT)
     else do {
       let header = set_header_type (msgType_code UNSUBSCRIBE) 0;
       let header = set_header_dup dup header;
       let header = set_header_qos 1 header;
       w \<leftarrow> writeChar (buf, 0) header;
       w \<leftarrow> write_rem_len w rem_len;
       w \<leftarrow> writeInt w (uint packetid);
       w \<leftarrow> MQTTSerialize_unsubscribe_loop w 0 count topicFilters;
       Some (fst w, int (snd w)) } }"

definition MQTTDeserialize_unsuback :: "u16 \<Rightarrow> buffer \<Rightarrow> int \<Rightarrow> (int \<times> u16) option" where
  "MQTTDeserialize_unsuback packetid buf buflen = do {
     (rc, out) \<leftarrow> MQTTDeserialize_ack
        \<lparr>ack_packettype = 0, ack_dup = 0, ack_packetid = packetid\<rparr> buf buflen;
     Some (if ack_packettype out = msgType_code UNSUBACK then 1 else rc, ack_packetid out) }"

record unsubscribe_out =
  unsub_dup :: byte
  unsub_packetid :: u16
  unsub_count :: int
  unsub_topicFilters :: "MQTTString list"

function MQTTDeserialize_unsubscribe_loop ::
  "int \<Rightarrow> unsubscribe_out \<Rightarrow> rptr \<Rightarrow> int \<Rightarrow> (int \<times> unsubscribe_out) option" where
  "MQTTDeserialize_unsubscribe_loop rc out curdata enddata =
     (if fst curdata < enddata
      then case array_get (unsub_topicFilters out) (unsub_count out) of
             None \<Rightarrow> None
           | Some t \<Rightarrow>
          (case readMQTTLenString t curdata enddata of
             None \<Rightarrow> None
           | Some (rd, t, curdata') \<Rightarrow>
               (let out = out\<lparr>unsub_topicFilters := (unsub_topicFilters out)[nat (unsub_count out) := t]\<rparr>
                in if rd = 0 then Some (rc, out)
                   else MQTTDeserialize_unsubscribe_loop rc
                          (out\<lparr>unsub_count := unsub_count out + 1\<rparr>) curdata' enddata))
      else Some (1, out))"
  by pat_completeness auto
termination
proof (relation "measure (\<lambda>(rc, out, cur, e). nat (e - fst cur))", goal_cases)
  case (2 rc out curdata enddata t x rd y t' curdata' out')
  then show ?case
    using readMQTTLenString_advances(2) [of t curdata enddata rd t' curdata'] by auto
qed simp

declare MQTTDeserialize_unsubscribe_loop.simps [simp del]

definition MQTTDeserialize_unsubscribe ::
  "int \<Rightarrow> unsubscribe_out \<Rightarrow> buffer \<Rightarrow> int \<Rightarrow> (int \<times> unsubscribe_out) option" where
  "MQTTDeserialize_unsubscribe maxcount out buf len = do {
     (header, curdata) \<leftarrow> readChar (0, buf);
     if header_type header \<noteq> msgType_code UNSUBSCRIBE then Some (0, out)
     else do {
       let out = out\<lparr>unsub_dup := header_dup header\<rparr>;
       (rc, mylen) \<leftarrow> MQTTPacket_decodeBuf curdata;
       let curdata = ptr_add curdata rc;
       let enddata = fst curdata + mylen;
       (i, curdata) \<leftarrow> readInt curdata;
       MQTTDeserialize_unsubscribe_loop rc (out\<lparr>unsub_packetid := word_of_int i, unsub_count := 0\<rparr>)
         curdata enddata } }"

definition MQTTSerialize_unsuback :: "buffer \<Rightarrow> int \<Rightarrow> u16 \<Rightarrow> (buffer \<times> int) option" where
  "MQTTSerialize_unsuback buf buflen packetid =
     (if buflen < 2 then Some (buf, MQTTPACKET_BUFFER_TOO_SHORT)
      else do {
        let header = set_header_type (msgType_code UNSUBACK) 0;
        w \<leftarrow> writeChar (buf, 0) header;
        w \<leftarrow> write_rem_len w 2;
        (buf, ptr) \<leftarrow> writeInt w (uint packetid);
        Some (buf, int ptr) })"

subsection \<open>Wire formats\<close>

type_synonym subscribe_args = "byte \<times> u16 \<times> int \<times> MQTTString list \<times> int list"

definition filters_ok :: "int \<Rightarrow> MQTTString list \<Rightarrow> bool" where
  "filters_ok count ts \<longleftrightarrow>
     0 \<le> count \<and> count \<le> int (length ts) \<and> (\<forall>i < nat count. MQTTString_ok (ts ! i))"

definition filter_entry :: "MQTTString list \<Rightarrow> int list \<Rightarrow> nat \<Rightarrow> byte list" where
  "filter_entry ts qs i = lp_string (MQTTString_bytes (ts ! i)) @ [word_of_int (qs ! i)]"

fun subscribe_body :: "subscribe_args \<Rightarrow> byte list" where
  "subscribe_body (dup, packetid, count, ts, qs) =
     be16 (uint packetid) @ concat (map (filter_entry ts qs) [0..<nat count])"

fun subscribe_wire :: "subscribe_args \<Rightarrow> byte list" where
  "subscribe_wire (dup, packetid, count, ts, qs) =
     (let body = subscribe_body (dup, packetid, count, ts, qs)
      in set_header_qos 1 (set_header_dup dup (set_header_type 8 0)) # varint (length body) @ body)"

fun subscribe_ok :: "subscribe_args \<Rightarrow> bool" where
  "subscribe_ok (dup, packetid, count, ts, qs) \<longleftrightarrow>
     filters_ok count ts \<and> count \<le> int (length qs) \<and>
     length (subscribe_body (dup, packetid, count, ts, qs)) < 268435456"

lemma filters_okE:
  assumes "filters_ok count ts"
  obtains k where "count = int k" "k \<le> length ts" "\<And>i. i < k \<Longrightarrow> MQTTString_ok (ts ! i)"
proof
  show "count = int (nat count)" "nat count \<le> length ts"
    using assms by (simp_all add: filters_ok_def nat_le_iff)
  show "MQTTString_ok (ts ! i)" if "i < nat count" for i
    using assms that by (simp add: filters_ok_def)
qed

lemma subscribeLength_body:
  assumes "filters_ok count ts"
  shows "MQTTSerialize_subscribeLength count ts =
    Some (int (length (subscribe_body (dup, packetid, count, ts, qs))))"
proof (rule filters_okE [OF assms])
  fix k
  assume k: "count = int k" "k \<le> length ts" "\<And>i. i < k \<Longrightarrow> MQTTString_ok (ts ! i)"
  have "MQTTSerialize_subscribeLength_loop (int 0) (int k) ts 2 =
     Some (2 + int (sum_list (map (\<lambda>i. length (filter_entry ts qs i)) [0..<k])))"
  proof (rule count_loop_sum, goal_cases)
    case (1 i len)
    with k(2,3) show ?case
      by (subst MQTTSerialize_subscribeLength_loop.simps) (simp add: filter_entry_def MQTTstrlen_ok algebra_simps)
  qed (simp_all add: MQTTSerialize_subscribeLength_loop.simps)
  then show ?thesis
    by (simp add: MQTTSerialize_subscribeLength_def k(1) length_concat comp_def)
qed

lemma subscribe_loop_emit [emit_simps]:
  assumes "filters_ok count ts" "count \<le> int (length qs)"
  shows "Option.bind (emit buf out) (\<lambda>w. Option.bind (MQTTSerialize_subscribe_loop w 0 count ts qs) f) =
     Option.bind (emit buf (out @ concat (map (filter_entry ts qs) [0..<nat count]))) f"
proof (rule filters_okE [OF assms(1)])
  fix k
  assume k: "count = int k" "k \<le> length ts" "\<And>i. i < k \<Longrightarrow> MQTTString_ok (ts ! i)"
  have "Option.bind (emit buf out) (\<lambda>w. Option.bind (MQTTSerialize_subscribe_loop w (int 0) count ts qs) f) =
     Option.bind (emit buf (out @ concat (map (filter_entry ts qs) [0..<k]))) f"
  proof (rule count_loop_emit [where body = "\<lambda>i w. do { w \<leftarrow> writeMQTTString w (ts ! i);
          writeChar w (word_of_int (qs ! i)) }"], goal_cases)
    case (1 i w)
    with k(1,2) assms(2) show ?case
      by (subst MQTTSerialize_subscribe_loop.simps) (simp add: bind_case_option)
  qed (simp_all add: MQTTSerialize_subscribe_loop.simps emit_simps filter_entry_def k)
  then show ?thesis by (simp add: k(1))
qed

lemma MQTTSerialize_subscribe_eq:
  assumes "subscribe_ok (dup, packetid, count, ts, qs)"
  shows "MQTTSerialize_subscribe buf buflen dup packetid count ts qs =
    (if MQTTPacket_len (int (length (subscribe_body (dup, packetid, count, ts, qs)))) > buflen
     then Some (buf, - 2) else emit_rc buf (subscribe_wire (dup, packetid, count, ts, qs)))"
proof -
  have ok: "filters_ok count ts" "count \<le> int (length qs)"
    using assms by auto
  show ?thesis
    by (simp add: MQTTSerialize_subscribe_def subscribeLength_body [OF ok(1), of dup packetid qs]
        emit_simps ok Let_def del: subscribe_body.simps) simp
qed

fun unsubscribe_body :: "byte \<times> u16 \<times> int \<times> MQTTString list \<Rightarrow> byte list" where
  "unsubscribe_body (dup, packetid, count, ts) =
     be16 (uint packetid) @ concat (map (\<lambda>i. lp_string (MQTTString_bytes (ts ! i))) [0..<nat count])"

fun unsubscribe_wire :: "byte \<times> u16 \<times> int \<times> MQTTString list \<Rightarrow> byte list" where
  "unsubscribe_wire (dup, packetid, count, ts) =
     (let body = unsubscribe_body (dup, packetid, count, ts)
      in set_header_qos 1 (set_header_dup dup (set_header_type 10 0)) # varint (length body) @ body)"

fun unsubscribe_ok :: "byte \<times> u16 \<times> int \<times> MQTTString list \<Rightarrow> bool" where
  "unsubscribe_ok (dup, packetid, count, ts) \<longleftrightarrow>
     filters_ok count ts \<and> length (unsubscribe_body (dup, packetid, count, ts)) < 268435456"

lemma unsubscribeLength_body:
  assumes "filters_ok count ts"
  shows "MQTTSerialize_unsubscribeLength count ts =
    Some (int (length (unsubscribe_body (dup, packetid, count, ts))))"
proof (rule filters_okE [OF assms])
  fix k
  assume k: "count = int k" "k \<le> length ts" "\<And>i. i < k \<Longrightarrow> MQTTString_ok (ts ! i)"
  have "MQTTSerialize_unsubscribeLength_loop (int 0) (int k) ts 2 =
     Some (2 + int (sum_list (map (\<lambda>i. length (lp_string (MQTTString_bytes (ts ! i)))) [0..<k])))"
  proof (rule count_loop_sum, goal_cases)
    case (1 i len)
    with k(2,3) show ?case
      by (subst MQTTSerialize_unsubscribeLength_loop.simps) (simp add: MQTTstrlen_ok algebra_simps)
  qed (simp_all add: MQTTSerialize_unsubscribeLength_loop.simps)
  then show ?thesis
    by (simp add: MQTTSerialize_unsubscribeLength_def k(1) length_concat comp_def)
qed

lemma unsubscribe_loop_emit [emit_simps]:
  assumes "filters_ok count ts"
  shows "Option.bind (emit buf out) (\<lambda>w. Option.bind (MQTTSerialize_unsubscribe_loop w 0 count ts) f) =
     Option.bind (emit buf (out @ concat (map (\<lambda>i. lp_string (MQTTString_bytes (ts ! i))) [0..<nat count]))) f"
proof (rule filters_okE [OF assms(1)])
  fix k
  assume k: "count = int k" "k \<le> length ts" "\<And>i. i < k \<Longrightarrow> MQTTString_ok (ts ! i)"
  have "Option.bind (emit buf out) (\<lambda>w. Option.bind (MQTTSerialize_unsubscribe_loop w (int 0) count ts) f) =
     Option.bind (emit buf (out @ concat (map (\<lambda>i. lp_string (MQTTString_bytes (ts ! i))) [0..<k]))) f"
  proof (rule count_loop_emit [where body = "\<lambda>i w. writeMQTTString w (ts ! i)"], goal_cases)
    case (1 i w)
    with k(1,2) show ?case
      by (subst MQTTSerialize_unsubscribe_loop.simps) (simp add: bind_case_option)
  qed (simp_all add: MQTTSerialize_unsubscribe_loop.simps emit_simps k)
  then show ?thesis by (simp add: k(1))
qed

lemma MQTTSerialize_unsubscribe_eq:
  assumes "unsubscribe_ok (dup, packetid, count, ts)"
  shows "MQTTSerialize_unsubscribe buf buflen dup packetid count ts =
    (if MQTTPacket_len (int (length (unsubscribe_body (dup, packetid, count, ts)))) > buflen
     then Some (buf, - 2) else emit_rc buf (unsubscribe_wire (dup, packetid, count, ts)))"
proof -
  have ok: "filters_ok count ts"
    using assms by auto
  show ?thesis
    by (simp add: MQTTSerialize_unsubscribe_def unsubscribeLength_body [OF ok, of dup packetid]
        emit_simps ok Let_def del: unsubscribe_body.simps) simp
qed

text \<open>SUBACK and UNSUBACK: their length checks leave out the two bytes of the fixed header.\<close>

fun suback_wire :: "u16 \<times> int \<times> int list \<Rightarrow> byte list" where
  "suback_wire (packetid, count, qs) =
     set_header_type 9 0 # varint (nat (2 + count)) @ be16 (uint packetid)
       @ map word_of_int (take (nat count) qs)"

fun suback_ok :: "u16 \<times> int \<times> int list \<Rightarrow> bool" where
  "suback_ok (packetid, count, qs) \<longleftrightarrow> 0 \<le> count \<and> count \<le> int (length qs) \<and> count < 268435454"

lemma suback_loop_emit [emit_simps]:
  assumes "0 \<le> count" "count \<le> int (length qs)"
  shows "Option.bind (emit buf out) (\<lambda>w. Option.bind (MQTTSerialize_suback_loop w 0 count qs) f) =
     Option.bind (emit buf (out @ map word_of_int (take (nat count) qs))) f"
proof -
  define k where "k = nat count"
  have k: "count = int k" "k \<le> length qs"
    using assms by (simp_all add: k_def nat_le_iff)
  have "Option.bind (emit buf out) (\<lambda>w. Option.bind (MQTTSerialize_suback_loop w (int 0) count qs) f) =
     Option.bind (emit buf (out @ concat (map (\<lambda>i. [word_of_int (qs ! i)]) [0..<k]))) f"
  proof (rule count_loop_emit [where body = "\<lambda>i w. writeChar w (word_of_int (qs ! i))"], goal_cases)
    case (1 i w)
    with k(1,2) show ?case
      by (subst MQTTSerialize_suback_loop.simps) (simp add: bind_case_option)
  qed (simp_all add: MQTTSerialize_suback_loop.simps emit_simps k)
  moreover have "concat (map (\<lambda>i. [word_of_int (qs ! i) :: byte]) [0..<k]) = map word_of_int (take k qs)"
    using k(2) by (simp add: concat_map_singleton [where f = "\<lambda>i. word_of_int (qs ! i)"]
        take_map nth_map list_eq_iff_nth_eq)
  ultimately show ?thesis by (simp add: k(1))
qed

interpretation suback: packet_writer
  "\<lambda>buf buflen (packetid, count, qs). MQTTSerialize_suback buf buflen packetid count qs"
  "\<lambda>(packetid, count, qs). 2 + count" suback_wire suback_ok
  by unfold_locales (auto simp: MQTTSerialize_suback_def emit_simps Let_def)

interpretation unsuback: packet_writer MQTTSerialize_unsuback "\<lambda>_. 2"
  "\<lambda>packetid. [set_header_type 11 0, 2] @ be16 (uint packetid)" "\<lambda>_. True"
  by unfold_locales (auto simp: MQTTSerialize_unsuback_def emit_simps varint_small Let_def)

subsection \<open>Reading the lists back\<close>

definition filter_wire :: "byte list \<times> byte \<Rightarrow> byte list" where
  "filter_wire e = lp_string (fst e) @ [snd e]"

lemma subscribe_loop_read:
  fixes es :: "(byte list \<times> byte) list"
  assumes "\<forall>e \<in> set es. length (fst e) < 65536"
    and "enddata = p + int (length (concat (map filter_wire es)))"
    and "k + length es \<le> length (sub_topicFilters out)" "k + length es \<le> length (sub_requestedQoSs out)"
    and "sub_count out = int k"
  shows "\<exists>ts qs. MQTTDeserialize_subscribe_loop abi rc out (p, concat (map filter_wire es) @ rest) enddata =
      Some (1, out\<lparr>sub_count := int (k + length es), sub_topicFilters := ts, sub_requestedQoSs := qs\<rparr>) \<and>
    map MQTTString_bytes (take (k + length es) ts) =
      map MQTTString_bytes (take k (sub_topicFilters out)) @ map fst es \<and>
    take (k + length es) qs = take k (sub_requestedQoSs out) @ map (\<lambda>e. char_int abi (snd e)) es"
  using assms
proof (induction es arbitrary: k out p)
  case Nil
  then show ?case
    by (subst MQTTDeserialize_subscribe_loop.simps) (auto intro!: exI simp flip: Nil.prems(5))
next
  case (Cons e es)
  obtain bs c where e: "e = (bs, c)" by (cases e)
  let ?ys = "c # concat (map filter_wire es) @ rest"
  let ?t = "\<lparr>cstring = None, lenstring = \<lparr>ls_len = int (length bs), ls_data = Some (bs @ ?ys)\<rparr>\<rparr>"
  let ?out = "out\<lparr>sub_topicFilters := (sub_topicFilters out)[k := ?t],
     sub_requestedQoSs := (sub_requestedQoSs out)[k := char_int abi c], sub_count := int (Suc k)\<rparr>"
  have lt: "k < length (sub_topicFilters out)" "k < length (sub_requestedQoSs out)"
    using Cons.prems by simp_all
  have step: "MQTTDeserialize_subscribe_loop abi rc out (p, concat (map filter_wire (e # es)) @ rest) enddata =
     MQTTDeserialize_subscribe_loop abi rc ?out (p + 2 + int (length bs) + 1, concat (map filter_wire es) @ rest) enddata"
    using Cons.prems lt
    by (subst MQTTDeserialize_subscribe_loop.simps)
       (simp add: e filter_wire_def read_simps Let_def add.commute)
  have "\<exists>ts qs. MQTTDeserialize_subscribe_loop abi rc ?out
       (p + 2 + int (length bs) + 1, concat (map filter_wire es) @ rest) enddata =
      Some (1, ?out\<lparr>sub_count := int (Suc k + length es), sub_topicFilters := ts, sub_requestedQoSs := qs\<rparr>) \<and>
    map MQTTString_bytes (take (Suc k + length es) ts) =
      map MQTTString_bytes (take (Suc k) (sub_topicFilters ?out)) @ map fst es \<and>
    take (Suc k + length es) qs = take (Suc k) (sub_requestedQoSs ?out) @ map (\<lambda>e. char_int abi (snd e)) es"
    by (rule Cons.IH) (use Cons.prems in \<open>simp_all add: e filter_wire_def\<close>)
  then show ?case
    unfolding step using lt
    by (simp add: take_Suc_conv_app_nth e)
qed

lemma unsubscribe_loop_read:
  assumes "\<forall>bs \<in> set bss. length bs < 65536"
    and "enddata = p + int (length (concat (map lp_string bss)))"
    and "k + length bss \<le> length (unsub_topicFilters out)" "unsub_count out = int k"
  shows "\<exists>ts. MQTTDeserialize_unsubscribe_loop rc out (p, concat (map lp_string bss) @ rest) enddata =
      Some (1, out\<lparr>unsub_count := int (k + length bss), unsub_topicFilters := ts\<rparr>) \<and>
    map MQTTString_bytes (take (k + length bss) ts) =
      map MQTTString_bytes (take k (unsub_topicFilters out)) @ bss"
  using assms
proof (induction bss arbitrary: k out p)
  case Nil
  then show ?case
    by (subst MQTTDeserialize_unsubscribe_loop.simps) (auto intro!: exI simp flip: Nil.prems(4))
next
  case (Cons bs bss)
  let ?ys = "concat (map lp_string bss) @ rest"
  let ?t = "\<lparr>cstring = None, lenstring = \<lparr>ls_len = int (length bs), ls_data = Some (bs @ ?ys)\<rparr>\<rparr>"
  let ?out = "out\<lparr>unsub_topicFilters := (unsub_topicFilters out)[k := ?t], unsub_count := int (Suc k)\<rparr>"
  have lt: "k < length (unsub_topicFilters out)"
    using Cons.prems by simp_all
  have step: "MQTTDeserialize_unsubscribe_loop rc out (p, concat (map lp_string (bs # bss)) @ rest) enddata =
     MQTTDeserialize_unsubscribe_loop rc ?out (p + 2 + int (length bs), concat (map lp_string bss) @ rest) enddata"
    using Cons.prems lt
    by (subst MQTTDeserialize_unsubscribe_loop.simps)
       (simp add: read_simps Let_def add.commute)
  have "\<exists>ts. MQTTDeserialize_unsubscribe_loop rc ?out
       (p + 2 + int (length bs), concat (map lp_string bss) @ rest) enddata =
      Some (1, ?out\<lparr>unsub_count := int (Suc k + length bss), unsub_topicFilters := ts\<rparr>) \<and>
    map MQTTString_bytes (take (Suc k + length bss) ts) =
      map MQTTString_bytes (take (Suc k) (unsub_topicFilters ?out)) @ bss"
    by (rule Cons.IH) (use Cons.prems in simp_all)
  then show ?case
    unfolding step using lt by (simp add: take_Suc_conv_app_nth)
qed

lemma suback_loop_read:
  assumes "enddata = p + int (length cs)" "k + length cs \<le> nat (maxcount + 1)"
    and "k + length cs \<le> length (sa_grantedQoSs out)" "sa_count out = int k"
  shows "MQTTDeserialize_suback_loop abi maxcount out (p, cs @ rest) enddata =
    Some (1, out\<lparr>sa_count := int (k + length cs),
                 sa_grantedQoSs := take k (sa_grantedQoSs out) @ map (char_int abi) cs
                                     @ drop (k + length cs) (sa_grantedQoSs out)\<rparr>)"
  using assms
proof (induction cs arbitrary: k out p)
  case Nil
  then show ?case
    by (subst MQTTDeserialize_suback_loop.simps) (simp flip: Nil.prems(4))
next
  case (Cons c cs)
  let ?out = "out\<lparr>sa_grantedQoSs := (sa_grantedQoSs out)[k := char_int abi c], sa_count := int (Suc k)\<rparr>"
  have lt: "k < length (sa_grantedQoSs out)" "int k \<le> maxcount"
    using Cons.prems by simp_all
  have step: "MQTTDeserialize_suback_loop abi maxcount out (p, (c # cs) @ rest) enddata =
     MQTTDeserialize_suback_loop abi maxcount ?out (p + 1, cs @ rest) enddata"
    using Cons.prems lt
    by (subst MQTTDeserialize_suback_loop.simps) (simp add: read_simps add.commute)
  have "MQTTDeserialize_suback_loop abi maxcount ?out (p + 1, cs @ rest) enddata =
    Some (1, ?out\<lparr>sa_count := int (Suc k + length cs),
                 sa_grantedQoSs := take (Suc k) (sa_grantedQoSs ?out) @ map (char_int abi) cs
                                     @ drop (Suc k + length cs) (sa_grantedQoSs ?out)\<rparr>)"
    by (rule Cons.IH) (use Cons.prems in simp_all)
  then show ?case
    unfolding step using lt by (simp add: take_Suc_conv_app_nth)
qed

text \<open>The test \<open>*count > maxcount\<close> lets one entry more than \<open>maxcount\<close> through.\<close>

lemma suback_loop_too_many:
  assumes "enddata = p + int (length cs)" "nat (maxcount + 1) < k + length cs" "int k \<le> maxcount + 1"
    and "nat (maxcount + 1) \<le> length (sa_grantedQoSs out)" "sa_count out = int k"
  shows "\<exists>out'. MQTTDeserialize_suback_loop abi maxcount out (p, cs @ rest) enddata = Some (- 1, out')"
  using assms
proof (induction cs arbitrary: k out p)
  case (Cons c cs)
  show ?case
  proof (cases "int k = maxcount + 1")
    case True
    with Cons.prems show ?thesis
      by (subst MQTTDeserialize_suback_loop.simps) simp
  next
    case False
    let ?out = "out\<lparr>sa_grantedQoSs := (sa_grantedQoSs out)[k := char_int abi c], sa_count := int (Suc k)\<rparr>"
    have "MQTTDeserialize_suback_loop abi maxcount out (p, (c # cs) @ rest) enddata =
      MQTTDeserialize_suback_loop abi maxcount ?out (p + 1, cs @ rest) enddata"
      using Cons.prems False
      by (subst MQTTDeserialize_suback_loop.simps) (simp add: read_simps add.commute)
    moreover have "\<exists>out'. MQTTDeserialize_suback_loop abi maxcount ?out (p + 1, cs @ rest) enddata = Some (- 1, out')"
      by (rule Cons.IH [where k = "Suc k"]) (use Cons.prems False in simp_all)
    ultimately show ?thesis by simp
  qed
qed simp

lemma suback_loop_overrun:
  assumes "enddata = p + int (length cs)" "length (sa_grantedQoSs out) < k + length cs"
    and "int (length (sa_grantedQoSs out)) \<le> maxcount" "sa_count out = int k" "k \<le> length (sa_grantedQoSs out)"
  shows "MQTTDeserialize_suback_loop abi maxcount out (p, cs @ rest) enddata = None"
  using assms
proof (induction cs arbitrary: k out p)
  case (Cons c cs)
  show ?case
  proof (cases "k = length (sa_grantedQoSs out)")
    case True
    with Cons.prems show ?thesis
      by (subst MQTTDeserialize_suback_loop.simps) (simp add: read_simps)
  next
    case False
    let ?out = "out\<lparr>sa_grantedQoSs := (sa_grantedQoSs out)[k := char_int abi c], sa_count := int (Suc k)\<rparr>"
    have "MQTTDeserialize_suback_loop abi maxcount out (p, (c # cs) @ rest) enddata =
      MQTTDeserialize_suback_loop abi maxcount ?out (p + 1, cs @ rest) enddata"
      using Cons.prems False
      by (subst MQTTDeserialize_suback_loop.simps) (simp add: read_simps add.commute)
    moreover have "MQTTDeserialize_suback_loop abi maxcount ?out (p + 1, cs @ rest) enddata = None"
      by (rule Cons.IH [where k = "Suc k"]) (use Cons.prems False in simp_all)
    ultimately show ?thesis by simp
  qed
qed simp

subsection \<open>Codecs\<close>

lemma need_covers_body:
  "length body < 268435456 \<Longrightarrow> int (length (h # varint (length body) @ body)) \<le> MQTTPacket_len (int (length body))"
  using MQTTPacket_len_bounds(1) [of "int (length body)"] by simp

definition subscribe_view :: "subscribe_out \<Rightarrow> byte \<times> u16 \<times> int \<times> byte list list \<times> int list" where
  "subscribe_view out =
     (sub_dup out, sub_packetid out, sub_count out,
      map MQTTString_bytes (take (nat (sub_count out)) (sub_topicFilters out)),
      take (nat (sub_count out)) (sub_requestedQoSs out))"

fun subscribe_val :: "char_abi \<Rightarrow> subscribe_args \<Rightarrow> byte \<times> u16 \<times> int \<times> byte list list \<times> int list" where
  "subscribe_val abi (dup, packetid, count, ts, qs) =
     (take_bit 1 dup, packetid, count, map MQTTString_bytes (take (nat count) ts),
      map (\<lambda>q. char_int abi (word_of_int q)) (take (nat count) qs))"

fun subscribe_count :: "subscribe_args \<Rightarrow> nat" where
  "subscribe_count (dup, packetid, count, ts, qs) = nat count"

definition unsubscribe_view :: "unsubscribe_out \<Rightarrow> byte \<times> u16 \<times> int \<times> byte list list" where
  "unsubscribe_view out =
     (unsub_dup out, unsub_packetid out, unsub_count out,
      map MQTTString_bytes (take (nat (unsub_count out)) (unsub_topicFilters out)))"

fun unsubscribe_val :: "byte \<times> u16 \<times> int \<times> MQTTString list \<Rightarrow> byte \<times> u16 \<times> int \<times> byte list list" where
  "unsubscribe_val (dup, packetid, count, ts) =
     (take_bit 1 dup, packetid, count, map MQTTString_bytes (take (nat count) ts))"

fun unsubscribe_count :: "byte \<times> u16 \<times> int \<times> MQTTString list \<Rightarrow> nat" where
  "unsubscribe_count (dup, packetid, count, ts) = nat count"

lemma map_upt_take: "k \<le> length xs \<Longrightarrow> map (\<lambda>i. f (xs ! i)) [0..<k] = map f (take k xs)"
  by (simp add: list_eq_iff_nth_eq)

lemma subscribe_header_fields [field_simps]:
  "header_type (set_header_qos 1 (set_header_dup dup (set_header_type t 0))) = take_bit 4 t"
  "header_dup (set_header_qos 1 (set_header_dup dup (set_header_type t 0))) = take_bit 1 dup"
  by (simp_all add: header_defs field_simps)

lemma subscribe_decode:
  assumes "subscribe_ok (dup, packetid, count, ts, qs)"
    and "nat count \<le> length (sub_topicFilters out)" "nat count \<le> length (sub_requestedQoSs out)"
  shows "\<exists>out'. MQTTDeserialize_subscribe abi maxcount out (subscribe_wire (dup, packetid, count, ts, qs) @ rest) n
      = Some (1, out') \<and> subscribe_view out' = subscribe_val abi (dup, packetid, count, ts, qs)"
proof -
  define k where "k = nat count"
  have k: "count = int k" "k \<le> length ts" "k \<le> length qs" "\<And>i. i < k \<Longrightarrow> MQTTString_ok (ts ! i)"
    "k \<le> length (sub_topicFilters out)" "k \<le> length (sub_requestedQoSs out)"
    using assms by (auto simp: k_def filters_ok_def nat_le_iff)
  define es where "es = map (\<lambda>i. (MQTTString_bytes (ts ! i), word_of_int (qs ! i) :: byte)) [0..<k]"
  have es: "concat (map (filter_entry ts qs) [0..<k]) = concat (map filter_wire es)" "length es = k"
    "map fst es = map MQTTString_bytes (take k ts)"
    "map (\<lambda>e. char_int abi (snd e)) es = map (\<lambda>q. char_int abi (word_of_int q)) (take k qs)"
    using k(2,3) by (simp_all add: es_def filter_entry_def [abs_def] filter_wire_def comp_def
        map_upt_take [where f = "\<lambda>q. char_int abi (word_of_int q)"] map_upt_take)
  have es_ok: "\<forall>e \<in> set es. length (fst e) < 65536"
    using k(4) by (auto simp: es_def MQTTString_ok_def)
  let ?n = "length (subscribe_body (dup, packetid, count, ts, qs))"
  let ?out = "out\<lparr>sub_dup := take_bit 1 dup, sub_packetid := packetid, sub_count := 0\<rparr>"
  have n: "?n < 268435456" "?n = 2 + length (concat (map filter_wire es))"
    using assms(1) by (simp_all add: es(1) k(1))
  have step: "MQTTDeserialize_subscribe abi maxcount out (subscribe_wire (dup, packetid, count, ts, qs) @ rest) n =
    MQTTDeserialize_subscribe_loop abi (int (length (varint ?n))) ?out
      (1 + int (length (varint ?n)) + 2, concat (map filter_wire es) @ rest) (1 + int (length (varint ?n)) + int ?n)"
    using n(1) unfolding MQTTDeserialize_subscribe_def
    by (simp add: Let_def k(1) es(1) read_simps field_simps)
  have "\<exists>ts' qs'. MQTTDeserialize_subscribe_loop abi (int (length (varint ?n))) ?out
      (1 + int (length (varint ?n)) + 2, concat (map filter_wire es) @ rest) (1 + int (length (varint ?n)) + int ?n) =
    Some (1, ?out\<lparr>sub_count := int (0 + length es), sub_topicFilters := ts', sub_requestedQoSs := qs'\<rparr>) \<and>
    map MQTTString_bytes (take (0 + length es) ts') = map MQTTString_bytes (take 0 (sub_topicFilters ?out)) @ map fst es \<and>
    take (0 + length es) qs' = take 0 (sub_requestedQoSs ?out) @ map (\<lambda>e. char_int abi (snd e)) es"
    by (rule subscribe_loop_read) (use n es_ok k es(2) in simp_all)
  then show ?thesis
    unfolding step using es(2,3,4) k(1) by (auto simp: subscribe_view_def)
qed

lemma unsubscribe_decode:
  assumes "unsubscribe_ok (dup, packetid, count, ts)"
    and "nat count \<le> length (unsub_topicFilters out)"
  shows "\<exists>out'. MQTTDeserialize_unsubscribe maxcount out (unsubscribe_wire (dup, packetid, count, ts) @ rest) n
      = Some (1, out') \<and> unsubscribe_view out' = unsubscribe_val (dup, packetid, count, ts)"
proof -
  define k where "k = nat count"
  have k: "count = int k" "k \<le> length ts" "\<And>i. i < k \<Longrightarrow> MQTTString_ok (ts ! i)"
    "k \<le> length (unsub_topicFilters out)"
    using assms by (auto simp: k_def filters_ok_def nat_le_iff)
  define bss where "bss = map MQTTString_bytes (take k ts)"
  have bss: "concat (map (\<lambda>i. lp_string (MQTTString_bytes (ts ! i))) [0..<k]) = concat (map lp_string bss)"
    "length bss = k"
    using k(2) by (simp_all add: bss_def comp_def
        map_upt_take [where f = "\<lambda>t. lp_string (MQTTString_bytes t)"])
  have bss_ok: "\<forall>bs \<in> set bss. length bs < 65536"
    using k(2,3) by (auto simp: bss_def MQTTString_ok_def in_set_conv_nth)
  let ?n = "length (unsubscribe_body (dup, packetid, count, ts))"
  let ?out = "out\<lparr>unsub_dup := take_bit 1 dup, unsub_packetid := packetid, unsub_count := 0\<rparr>"
  have n: "?n < 268435456" "?n = 2 + length (concat (map lp_string bss))"
    using assms(1) by (simp_all add: bss(1) k(1))
  have step: "MQTTDeserialize_unsubscribe maxcount out (unsubscribe_wire (dup, packetid, count, ts) @ rest) n =
    MQTTDeserialize_unsubscribe_loop (int (length (varint ?n))) ?out
      (1 + int (length (varint ?n)) + 2, concat (map lp_string bss) @ rest) (1 + int (length (varint ?n)) + int ?n)"
    using n(1) unfolding MQTTDeserialize_unsubscribe_def
    by (simp add: Let_def k(1) bss(1) read_simps field_simps)
  have "\<exists>ts'. MQTTDeserialize_unsubscribe_loop (int (length (varint ?n))) ?out
      (1 + int (length (varint ?n)) + 2, concat (map lp_string bss) @ rest) (1 + int (length (varint ?n)) + int ?n) =
    Some (1, ?out\<lparr>unsub_count := int (0 + length bss), unsub_topicFilters := ts'\<rparr>) \<and>
    map MQTTString_bytes (take (0 + length bss) ts') = map MQTTString_bytes (take 0 (unsub_topicFilters ?out)) @ bss"
    by (rule unsubscribe_loop_read) (use n bss_ok k bss(2) in simp_all)
  then show ?thesis
    unfolding step using bss(2) k(1) by (auto simp: unsubscribe_view_def bss_def)
qed

text \<open>The servers' arrays are the caller's: \<open>ts_old\<close> and \<open>qs_old\<close> stand for their contents before the
  call. The codecs hold for packets whose filters fit into them.\<close>

interpretation subscribe: packet_codec
  "\<lambda>buf buflen (dup, packetid, count, ts, qs). MQTTSerialize_subscribe buf buflen dup packetid count ts qs"
  "\<lambda>a. MQTTPacket_len (int (length (subscribe_body a)))" subscribe_wire
  "\<lambda>a. subscribe_ok a \<and> subscribe_count a \<le> length ts_old \<and> subscribe_count a \<le> length qs_old"
  "\<lambda>out. MQTTDeserialize_subscribe abi maxcount (out\<lparr>sub_topicFilters := ts_old, sub_requestedQoSs := qs_old\<rparr>)"
  subscribe_view "subscribe_val abi" for abi maxcount ts_old qs_old
proof (unfold_locales, goal_cases)
  case (1 a buf buflen)
  then show ?case
    by (cases a rule: subscribe_ok.cases) (simp only: prod.case MQTTSerialize_subscribe_eq)
next
  case (2 a)
  then show ?case
    by (cases a rule: subscribe_ok.cases)
       (simp only: subscribe_wire.simps Let_def subscribe_ok.simps need_covers_body)
next
  case (3 a n out rest)
  then show ?case
    by (cases a rule: subscribe_ok.cases) (simp only: subscribe_count.simps, intro subscribe_decode; simp)
qed

interpretation unsubscribe: packet_codec
  "\<lambda>buf buflen (dup, packetid, count, ts). MQTTSerialize_unsubscribe buf buflen dup packetid count ts"
  "\<lambda>a. MQTTPacket_len (int (length (unsubscribe_body a)))" unsubscribe_wire
  "\<lambda>a. unsubscribe_ok a \<and> unsubscribe_count a \<le> length ts_old"
  "\<lambda>out. MQTTDeserialize_unsubscribe maxcount (out\<lparr>unsub_topicFilters := ts_old\<rparr>)"
  unsubscribe_view unsubscribe_val for maxcount ts_old
proof (unfold_locales, goal_cases)
  case (1 a buf buflen)
  then show ?case
    by (cases a rule: unsubscribe_ok.cases) (simp only: prod.case MQTTSerialize_unsubscribe_eq)
next
  case (2 a)
  then show ?case
    by (cases a rule: unsubscribe_ok.cases)
       (simp only: unsubscribe_wire.simps Let_def unsubscribe_ok.simps need_covers_body)
next
  case (3 a n out rest)
  then show ?case
    by (cases a rule: unsubscribe_ok.cases) (simp only: unsubscribe_count.simps, intro unsubscribe_decode; simp)
qed

lemma suback_decode:
  assumes "length cs < 268435454"
  shows "MQTTDeserialize_suback abi maxcount out
      (set_header_type 9 0 # varint (2 + length cs) @ be16 (uint packetid) @ cs @ rest) n =
    (let start = 1 + int (length (varint (2 + length cs))) + 2
     in MQTTDeserialize_suback_loop abi maxcount (out\<lparr>sa_packetid := packetid, sa_count := 0\<rparr>)
          (start, cs @ rest) (start + int (length cs)))"
  using assms
  by (simp add: MQTTDeserialize_suback_def Let_def read_simps header_defs field_simps add.assoc)

lemma MQTTDeserialize_unsuback_wire:
  "MQTTDeserialize_unsuback pid ([set_header_type 11 0, 2] @ be16 (uint packetid) @ rest) n = Some (1, packetid)"
  by (simp add: MQTTDeserialize_unsuback_def MQTTDeserialize_ack_def Let_def read_simps header_defs field_simps
      ptr_add_def)

subsection \<open>Properties\<close>



text \<open>Round trip of UNSUBSCRIBE between client and server code, for any number of filters that
  fit into the server's array.\<close>

theorem unsubscribe_round_trip:
  assumes "unsubscribe_ok (dup, packetid, count, ts)"
    and "nat count \<le> length (unsub_topicFilters out)"
    and "MQTTSerialize_unsubscribe buf buflen dup packetid count ts = Some (buf', rc)" "rc \<noteq> - 2"
  shows "\<exists>out'. MQTTDeserialize_unsubscribe maxcount out buf' rc = Some (1, out') \<and>
    unsub_dup out' = take_bit 1 dup \<and> unsub_packetid out' = packetid \<and> unsub_count out' = count \<and>
    map MQTTString_bytes (take (nat count) (unsub_topicFilters out')) = map MQTTString_bytes (take (nat count) ts)"
  using unsubscribe.round_trip [where a = "(dup, packetid, count, ts)" and buf = buf and buflen = buflen and rc = rc
      and ts_old = "unsub_topicFilters out" and out = out and n = rc and maxcount = maxcount and buf' = buf'] assms
  by (auto simp: unsubscribe_view_def simp del: unsubscribe_ok.simps)

theorem unsubscribe_round_trip_witness:
  "\<exists>out'. MQTTDeserialize_unsubscribe 5
      \<lparr>unsub_dup = 0, unsub_packetid = 0, unsub_count = 0, unsub_topicFilters = replicate 5 MQTTString_initializer\<rparr>
      [162, 10, 0, 9, 0, 1, 97, 0, 3, 98, 47, 35, 0, 0] 12 = Some (1, out') \<and>
    unsub_dup out' = take_bit 1 0 \<and> unsub_packetid out' = 9 \<and> unsub_count out' = 2 \<and>
    map MQTTString_bytes (take (nat 2) (unsub_topicFilters out')) =
      map MQTTString_bytes (take (nat 2) [MQTTString_c [97], MQTTString_c [98, 47, 35]])"
proof (rule unsubscribe_round_trip [where buf = "replicate 14 0" and buflen = 14])
  show "unsubscribe_ok (0, 9, 2, [MQTTString_c [97], MQTTString_c [98, 47, 35]])"
    by (simp add: filters_ok_def less_Suc_eq numeral_2_eq_2)
  show "MQTTSerialize_unsubscribe (replicate 14 0) 14 0 9 2 [MQTTString_c [97], MQTTString_c [98, 47, 35]] =
      Some ([162, 10, 0, 9, 0, 1, 97, 0, 3, 98, 47, 35, 0, 0], 12)"
    by code_simp
qed simp_all

text \<open>\<open>MQTTDeserialize_suback\<close> on a SUBACK with the granted QoS bytes \<open>cs\<close>: up to \<open>maxcount + 1\<close> of
  them are stored in order and the call succeeds, and with more it returns -1. So an array of
  \<open>maxcount + 1\<close> entries is needed; with the \<open>maxcount\<close> entries that the parameter stands for, a SUBACK of
  \<open>maxcount + 1\<close> bytes from the network is written past the end of the array.\<close>

theorem suback_entries:
  assumes "length cs < 268435454" "0 \<le> maxcount" "sa_grantedQoSs out = arr"
    "pkt = set_header_type 9 0 # varint (2 + length cs) @ be16 (uint packetid) @ cs @ rest"
  shows "(int (length cs) \<le> maxcount + 1 \<and> length cs \<le> length arr \<longrightarrow>
      MQTTDeserialize_suback abi maxcount out pkt n =
        Some (1, \<lparr>sa_packetid = packetid, sa_count = int (length cs),
                  sa_grantedQoSs = map (char_int abi) cs @ drop (length cs) arr\<rparr>)) \<and>
    (maxcount + 1 < int (length cs) \<and> maxcount + 1 \<le> int (length arr) \<longrightarrow>
      (\<exists>out'. MQTTDeserialize_suback abi maxcount out pkt n = Some (- 1, out'))) \<and>
    (int (length arr) = maxcount \<and> maxcount < int (length cs) \<longrightarrow>
      MQTTDeserialize_suback abi maxcount out pkt n = None)"
proof -
  define st where "st = 1 + int (length (varint (2 + length cs))) + 2"
  let ?o = "out\<lparr>sa_packetid := packetid, sa_count := 0\<rparr>"
  have step: "MQTTDeserialize_suback abi maxcount out pkt n =
      MQTTDeserialize_suback_loop abi maxcount ?o (st, cs @ rest) (st + int (length cs))"
    unfolding assms(4) suback_decode [OF assms(1)] st_def Let_def ..
  have "MQTTDeserialize_suback abi maxcount out pkt n =
        Some (1, \<lparr>sa_packetid = packetid, sa_count = int (length cs),
                  sa_grantedQoSs = map (char_int abi) cs @ drop (length cs) arr\<rparr>)"
    if "int (length cs) \<le> maxcount + 1" "length cs \<le> length arr"
    unfolding step using that assms(2,3) by (subst suback_loop_read [where k = 0]) auto
  moreover have "\<exists>out'. MQTTDeserialize_suback abi maxcount out pkt n = Some (- 1, out')"
    if "maxcount + 1 < int (length cs)" "maxcount + 1 \<le> int (length arr)"
    unfolding step using that assms(2,3) by (intro suback_loop_too_many [where k = 0]) auto
  moreover have "MQTTDeserialize_suback abi maxcount out pkt n = None"
    if "int (length arr) = maxcount" "maxcount < int (length cs)"
    unfolding step using that assms(3) by (intro suback_loop_overrun [where k = 0]) auto
  ultimately show ?thesis
    by (intro conjI impI) simp_all
qed

theorem suback_entries_witness:
  "MQTTDeserialize_suback Signed_Char 1 \<lparr>sa_packetid = 0, sa_count = 0, sa_grantedQoSs = [7]\<rparr>
     (set_header_type 9 0 # varint (2 + length [128, 1]) @ be16 (uint (3 :: u16)) @ [128, 1] @ []) 6 = None"
  using suback_entries [where cs = "[128, 1]" and maxcount = 1 and arr = "[7]" and packetid = 3 and rest = "[]"
      and out = "\<lparr>sa_packetid = 0, sa_count = 0, sa_grantedQoSs = [7]\<rparr>" and abi = Signed_Char and n = 6, OF _ _ _ refl]
  by simp

text \<open>SUBACK and UNSUBACK: a buffer that passes the length check but has no room for the two
  bytes of the fixed header as well is written past its end.\<close>

theorem suback_unsuback_overrun:
  assumes "0 \<le> count" "count \<le> int (length qs)" "count < 126" "int (length buf) = 3 + count"
    "2 \<le> length buf'" "length buf' < 4"
  shows "MQTTSerialize_suback buf (int (length buf)) packetid count qs = None \<and>
    MQTTSerialize_unsuback buf' (int (length buf')) packetid = None"
proof
  have "length (suback_wire (packetid, count, qs)) = 4 + nat count"
    using assms(1-3) by (simp add: varint_small nat_le_iff)
  then show "MQTTSerialize_suback buf (int (length buf)) packetid count qs = None"
    using suback.overruns [of "(packetid, count, qs)" "int (length buf)" buf] assms(1-4)
    by (simp del: suback_wire.simps)
  show "MQTTSerialize_unsuback buf' (int (length buf')) packetid = None"
    using unsuback.overruns [where a = packetid and buflen = "int (length buf')" and buf = buf'] assms(5,6) by simp
qed

theorem suback_unsuback_overrun_witness:
  "MQTTSerialize_suback [0, 0, 0, 0] (int (length [0 :: byte, 0, 0, 0])) 5 1 [2] = None \<and>
   MQTTSerialize_unsuback [0, 0] (int (length [0 :: byte, 0])) 5 = None"
  by (rule suback_unsuback_overrun) simp_all

end
