(* ===== verification/MQTT_Transport.thy ===== *)
theory MQTT_Transport
  imports MQTT_Codec
begin

text \<open>
  The packet readers of \<^verbatim>\<open>MQTTPacket.c\<close>: the blocking \<open>MQTTPacket_read\<close>, and the resumable
  \<open>MQTTPacket_readnb\<close> with its transport structure, a state machine that is called again
  until the packet is complete. The callback of the transport is a parameter; the locale
  \<open>byte_source\<close> says what it has to do, and the callbacks of the sample transport
  (\<^verbatim>\<open>MQTTPacket/samples/transport.c\<close>), which wrap the socket call \<open>recv\<close>, provide it.
\<close>

subsection \<open>Reading a packet\<close>

text \<open>The bytes a callback leaves at the pointer it is given.\<close>

definition put_bytes :: "buffer \<Rightarrow> nat \<Rightarrow> byte list \<Rightarrow> buffer option" where
  "put_bytes buf p bs =
     (if p + length bs \<le> length buf then Some (take p buf @ bs @ drop (p + length bs) buf) else None)"

definition MQTTPacket_read :: "buffer \<Rightarrow> int \<Rightarrow> 's getfn \<Rightarrow> 's \<Rightarrow> (int \<times> buffer \<times> 's) option" where
  "MQTTPacket_read buf buflen getfn s = do {
     (n, bs, s) \<leftarrow> getfn s 1;
     buf \<leftarrow> put_bytes buf 0 bs;
     if n \<noteq> 1 then Some (- 1, buf, s)
     else do {
       (_, rem_len, s) \<leftarrow> MQTTPacket_decode getfn s;
       (buf, k) \<leftarrow> MQTTPacket_encode (buf, 1) rem_len;
       let len = 1 + k;
       if rem_len + len > buflen then Some (- 1, buf, s)
       else do {
         (n, buf, s) \<leftarrow>
           (if rem_len \<noteq> 0
            then do { (n, bs, s) \<leftarrow> getfn s rem_len;
                      buf \<leftarrow> put_bytes buf (nat len) bs;
                      Some (n, buf, s) }
            else Some (rem_len, buf, s));
         if n \<noteq> rem_len then Some (- 1, buf, s)
         else do {
           (header, _) \<leftarrow> readChar (0, buf);
           Some (uint (header_type header), buf, s) } } } }"

record 's MQTTTransport =
  trp_sck :: 's
  trp_multiplier :: int
  trp_rem_len :: int
  trp_len :: int
  trp_state :: int

function MQTTPacket_decodenb_loop :: "'s getfn \<Rightarrow> 's MQTTTransport \<Rightarrow> (int \<times> 's MQTTTransport) option" where
  "MQTTPacket_decodenb_loop getfn trp =
     (if trp_len trp \<ge> 4 then Some (MQTTPACKET_READ_ERROR, trp)
      else case getfn (trp_sck trp) 1 of
        None \<Rightarrow> None
      | Some (frc, cs, s) \<Rightarrow>
          (if frc = - 1 then Some (MQTTPACKET_READ_ERROR, trp\<lparr>trp_sck := s\<rparr>)
           else if frc = 0 then Some (0, trp\<lparr>trp_sck := s\<rparr>)
           else case cs of
             [] \<Rightarrow> None
           | c # _ \<Rightarrow>
               (let trp = trp\<lparr>trp_sck := s, trp_len := trp_len trp + 1,
                              trp_rem_len := trp_rem_len trp + uint (c AND 127) * trp_multiplier trp,
                              trp_multiplier := trp_multiplier trp * 128\<rparr>
                in if c AND 128 \<noteq> 0 then MQTTPacket_decodenb_loop getfn trp
                   else Some (trp_len trp, trp))))"
  by pat_completeness auto
termination
  by (relation "measure (\<lambda>(g, trp). nat (4 - trp_len trp))") auto

declare MQTTPacket_decodenb_loop.simps [simp del]

definition MQTTPacket_decodenb :: "'s getfn \<Rightarrow> 's MQTTTransport \<Rightarrow> (int \<times> 's MQTTTransport) option" where
  "MQTTPacket_decodenb getfn trp =
     (let trp = (if trp_len trp = 0 then trp\<lparr>trp_multiplier := 1, trp_rem_len := 0\<rparr> else trp)
      in MQTTPacket_decodenb_loop getfn trp)"

text \<open>The three cases of the \<open>switch\<close> fall through, so each is a function that ends in a call of
  the next.\<close>

definition readnb_exit :: "int \<Rightarrow> buffer \<Rightarrow> 's MQTTTransport \<Rightarrow> (int \<times> buffer \<times> 's MQTTTransport) option" where
  "readnb_exit rc buf trp = Some (rc, buf, trp\<lparr>trp_state := 0\<rparr>)"

definition readnb_done :: "buffer \<Rightarrow> 's MQTTTransport \<Rightarrow> (int \<times> buffer \<times> 's MQTTTransport) option" where
  "readnb_done buf trp = do {
     (header, _) \<leftarrow> readChar (0, buf);
     readnb_exit (uint (header_type header)) buf trp }"

definition readnb_case2 :: "buffer \<Rightarrow> 's getfn \<Rightarrow> 's MQTTTransport \<Rightarrow> (int \<times> buffer \<times> 's MQTTTransport) option" where
  "readnb_case2 buf getfn trp =
     (if trp_rem_len trp \<noteq> 0
      then do {
        (frc, bs, s) \<leftarrow> getfn (trp_sck trp) (trp_rem_len trp);
        buf \<leftarrow> put_bytes buf (nat (trp_len trp)) bs;
        let trp = trp\<lparr>trp_sck := s\<rparr>;
        if frc = - 1 then readnb_exit (- 1) buf trp
        else if frc = 0 then Some (0, buf, trp)
        else do {
          let trp = trp\<lparr>trp_rem_len := trp_rem_len trp - frc, trp_len := trp_len trp + frc\<rparr>;
          if trp_rem_len trp \<noteq> 0 then Some (0, buf, trp) else readnb_done buf trp } }
      else readnb_done buf trp)"

definition readnb_case1 :: "buffer \<Rightarrow> int \<Rightarrow> 's getfn \<Rightarrow> 's MQTTTransport \<Rightarrow> (int \<times> buffer \<times> 's MQTTTransport) option" where
  "readnb_case1 buf buflen getfn trp = do {
     (frc, trp) \<leftarrow> MQTTPacket_decodenb getfn trp;
     if frc = MQTTPACKET_READ_ERROR then readnb_exit (- 1) buf trp
     else if frc = 0 then Some (0, buf, trp)
     else do {
       (buf, k) \<leftarrow> MQTTPacket_encode (buf, 1) (trp_rem_len trp);
       let trp = trp\<lparr>trp_len := 1 + k\<rparr>;
       if trp_rem_len trp + trp_len trp > buflen then readnb_exit (- 1) buf trp
       else readnb_case2 buf getfn (trp\<lparr>trp_state := trp_state trp + 1\<rparr>) } }"

definition readnb_case0 :: "buffer \<Rightarrow> int \<Rightarrow> 's getfn \<Rightarrow> 's MQTTTransport \<Rightarrow> (int \<times> buffer \<times> 's MQTTTransport) option" where
  "readnb_case0 buf buflen getfn trp = do {
     (frc, bs, s) \<leftarrow> getfn (trp_sck trp) 1;
     buf \<leftarrow> put_bytes buf 0 bs;
     let trp = trp\<lparr>trp_sck := s\<rparr>;
     if frc = - 1 then readnb_exit (- 1) buf trp
     else if frc = 0 then Some (0, buf, trp)
     else readnb_case1 buf buflen getfn (trp\<lparr>trp_len := 0, trp_state := trp_state trp + 1\<rparr>) }"

definition MQTTPacket_readnb ::
  "buffer \<Rightarrow> int \<Rightarrow> 's getfn \<Rightarrow> 's MQTTTransport \<Rightarrow> (int \<times> buffer \<times> 's MQTTTransport) option" where
  "MQTTPacket_readnb buf buflen getfn trp =
     (if trp_state trp = 0 then readnb_case0 buf buflen getfn trp
      else if trp_state trp = 1 then readnb_case1 buf buflen getfn trp
      else if trp_state trp = 2 then readnb_case2 buf getfn trp
      else readnb_case0 buf buflen getfn (trp\<lparr>trp_state := 0\<rparr>))"

subsection \<open>The sample transport\<close>

text \<open>\<open>recv\<close> is the operating system's: from the state of the socket and the number of bytes
  wanted to the return code, the bytes received, and the new state.\<close>

definition transport_getdata :: "('s \<Rightarrow> int \<Rightarrow> int \<times> byte list \<times> 's) \<Rightarrow> 's getfn" where
  "transport_getdata recv mysock count = Some (recv mysock count)"

definition transport_getdatanb :: "('s \<Rightarrow> int \<Rightarrow> int \<times> byte list \<times> 's) \<Rightarrow> 's getfn" where
  "transport_getdatanb recv sock count =
     (let (rc, bs, sock) = recv sock count
      in if rc = - 1 then Some (0, bs, sock) else Some (rc, bs, sock))"

subsection \<open>Reassembly\<close>

text \<open>A source that delivers the bytes \<open>pending\<close> in order, in pieces of its own choice (none, if
  nothing is there yet), and reports no error.\<close>

definition packet_bytes :: "byte \<Rightarrow> byte list \<Rightarrow> byte list" where
  "packet_bytes h body = h # varint (length body) @ body"

lemma put_bytes_at:
  assumes "p = length xs" "take p buf = xs" "p + length bs \<le> length buf"
  shows "\<exists>buf'. put_bytes buf p bs = Some buf' \<and> take (p + length bs) buf' = xs @ bs \<and> length buf' = length buf"
  using assms by (simp add: put_bytes_def)

lemma encode_at_1:
  assumes "1 + length (varint n) \<le> length buf" "take 1 buf = [h]"
  shows "\<exists>buf'. MQTTPacket_encode (buf, 1) (int n) = Some (buf', int (length (varint n))) \<and>
    take (1 + length (varint n)) buf' = h # varint n \<and> length buf' = length buf"
proof -
  have "buf = [h] @ drop (length [h]) buf"
    using assms(2) append_take_drop_id [of 1 buf] by simp
  then have "MQTTPacket_encode (buf, 1) (int n) =
    Some (([h] @ varint n) @ drop (length ([h] @ varint n)) buf, int (length (varint n)))"
    using encode_loop_emit [of 1 0 "[h]" buf n] assms(1) by (simp add: MQTTPacket_encode_def)
  then show ?thesis
    using assms(1) by simp
qed

lemma head_packet: "take (Suc k) buf = h # xs \<Longrightarrow> readChar (0, buf) = Some (h, 1, tl buf)"
  by (cases buf) (auto simp: readChar_def ptr_add_def)

definition readnb_inv ::
  "('s \<Rightarrow> byte list) \<Rightarrow> byte \<Rightarrow> byte list \<Rightarrow> byte list \<Rightarrow> buffer \<Rightarrow> 's MQTTTransport \<Rightarrow> bool" where
  "readnb_inv pending h body rest buf trp \<longleftrightarrow>
     trp_state trp = 0 \<and> pending (trp_sck trp) = packet_bytes h body @ rest \<or>
     trp_state trp = 1 \<and> take 1 buf = [h] \<and> 0 \<le> trp_len trp \<and>
       (\<exists>q. pending (trp_sck trp) = varint q @ body @ rest \<and>
            trp_len trp + int (length (varint q)) = int (length (varint (length body))) \<and>
            (if trp_len trp = 0 then q = length body
             else trp_rem_len trp + int q * trp_multiplier trp = int (length body))) \<or>
     trp_state trp = 2 \<and>
       (\<exists>j < length body. take (1 + length (varint (length body)) + j) buf = h # varint (length body) @ take j body \<and>
            trp_len trp = 1 + int (length (varint (length body))) + int j \<and>
            trp_rem_len trp = int (length body) - int j \<and>
            pending (trp_sck trp) = drop j body @ rest)"

text \<open>A caller that polls: at most \<open>k\<close> calls, as long as the answer is 0.\<close>

fun readnb_poll :: "nat \<Rightarrow> buffer \<Rightarrow> int \<Rightarrow> 's getfn \<Rightarrow> 's MQTTTransport \<Rightarrow> (int \<times> buffer \<times> 's MQTTTransport) option" where
  "readnb_poll 0 buf buflen getfn trp = Some (0, buf, trp)"
| "readnb_poll (Suc k) buf buflen getfn trp =
     (case MQTTPacket_readnb buf buflen getfn trp of
        None \<Rightarrow> None
      | Some (rc, buf, trp) \<Rightarrow>
          (if rc = 0 then readnb_poll k buf buflen getfn trp else Some (rc, buf, trp)))"

locale byte_source =
  fixes getfn :: "'s getfn"
    and pending :: "'s \<Rightarrow> byte list"
    and patience :: "'s \<Rightarrow> nat"
  assumes delivers: "0 < n \<Longrightarrow> \<exists>bs s'. getfn s n = Some (int (length bs), bs, s') \<and>
    pending s = bs @ pending s' \<and> int (length bs) \<le> n \<and>
    (if bs = [] then pending s = [] \<or> patience s' < patience s else patience s' \<le> patience s)"
begin

definition rank :: "'s \<Rightarrow> nat" where
  "rank s = length (pending s) + patience s"

lemma one_byte:
  assumes "pending s \<noteq> []"
  shows "\<exists>s'. (getfn s 1 = Some (0, [], s') \<and> pending s' = pending s \<or>
   (\<exists>c. getfn s 1 = Some (1, [c], s') \<and> pending s = c # pending s')) \<and> rank s' < rank s"
proof -
  obtain bs s' where "getfn s 1 = Some (int (length bs), bs, s')" "pending s = bs @ pending s'" "length bs \<le> 1"
    "if bs = [] then pending s = [] \<or> patience s' < patience s else patience s' \<le> patience s"
    using delivers [of 1 s] by auto
  with assms show ?thesis
    by (cases bs) (auto simp: rank_def)
qed

lemma decodenb_loop_digits:
  assumes "pending (trp_sck trp) = varint q @ ys" "trp_len trp + int (length (varint q)) \<le> 4" "0 \<le> trp_len trp"
  shows "\<exists>rc trp'. MQTTPacket_decodenb_loop getfn trp = Some (rc, trp') \<and> trp_state trp' = trp_state trp \<and>
    rank (trp_sck trp') < rank (trp_sck trp) \<and>
    (rc = 0 \<and> (\<exists>q'. pending (trp_sck trp') = varint q' @ ys \<and>
        trp_rem_len trp' + int q' * trp_multiplier trp' = trp_rem_len trp + int q * trp_multiplier trp \<and>
        trp_len trp' + int (length (varint q')) = trp_len trp + int (length (varint q)) \<and>
        trp_len trp \<le> trp_len trp' \<and> (trp_len trp' = trp_len trp \<longrightarrow> q' = q))
     \<or> rc > 0 \<and> trp_rem_len trp' = trp_rem_len trp + int q * trp_multiplier trp \<and> pending (trp_sck trp') = ys)"
  using assms
proof (induction q arbitrary: trp rule: varint.induct)
  case (1 q)
  obtain s' where s': "getfn (trp_sck trp) 1 = Some (0, [], s') \<and> pending s' = pending (trp_sck trp) \<or>
      (\<exists>c. getfn (trp_sck trp) 1 = Some (1, [c], s') \<and> pending (trp_sck trp) = c # pending s')"
    and rank: "rank s' < rank (trp_sck trp)"
    using one_byte [of "trp_sck trp"] "1.prems"(1) by auto
  have lt: "\<not> trp_len trp \<ge> 4"
    using "1.prems"(2) varint_not_Nil [of q] by (cases "varint q") auto
  consider (wait) "getfn (trp_sck trp) 1 = Some (0, [], s')" "pending s' = pending (trp_sck trp)"
    | (last) "q < 128" "getfn (trp_sck trp) 1 = Some (1, [word_of_nat q], s')" "pending s' = ys"
    | (more) "\<not> q < 128" "getfn (trp_sck trp) 1 = Some (1, [word_of_nat (q mod 128) OR 128], s')"
        "pending s' = varint (q div 128) @ ys"
    using s' "1.prems"(1) by (subst (asm) varint.simps) (auto split: if_splits)
  then show ?case
  proof cases
    case wait
    with lt rank "1.prems" show ?thesis
      by (subst MQTTPacket_decodenb_loop.simps) auto
  next
    case last
    with lt rank "1.prems"(3) show ?thesis
      by (subst MQTTPacket_decodenb_loop.simps) (simp add: Let_def varint_last)
  next
    case more
    let ?trp = "trp\<lparr>trp_sck := s', trp_len := trp_len trp + 1,
        trp_rem_len := trp_rem_len trp + int (q mod 128) * trp_multiplier trp,
        trp_multiplier := trp_multiplier trp * 128\<rparr>"
    have step: "MQTTPacket_decodenb_loop getfn trp = MQTTPacket_decodenb_loop getfn ?trp"
      using lt more by (subst MQTTPacket_decodenb_loop.simps) (simp add: Let_def varint_more)
    have q: "int q = int (q mod 128) + 128 * int (q div 128)"
      by (simp add: zmod_int zdiv_int)
    have total: "trp_rem_len ?trp + int (q div 128) * trp_multiplier ?trp = trp_rem_len trp + int q * trp_multiplier trp"
      by (subst q) (simp add: algebra_simps)
    have len: "trp_len ?trp + int (length (varint (q div 128))) = trp_len trp + int (length (varint q))"
      using more(1) by (simp add: length_varint_step)
    have "\<exists>rc trp'. MQTTPacket_decodenb_loop getfn ?trp = Some (rc, trp') \<and> trp_state trp' = trp_state ?trp \<and>
      rank (trp_sck trp') < rank (trp_sck ?trp) \<and>
      (rc = 0 \<and> (\<exists>q'. pending (trp_sck trp') = varint q' @ ys \<and>
        trp_rem_len trp' + int q' * trp_multiplier trp' = trp_rem_len ?trp + int (q div 128) * trp_multiplier ?trp \<and>
        trp_len trp' + int (length (varint q')) = trp_len ?trp + int (length (varint (q div 128))) \<and>
        trp_len ?trp \<le> trp_len trp' \<and> (trp_len trp' = trp_len ?trp \<longrightarrow> q' = q div 128))
     \<or> rc > 0 \<and> trp_rem_len trp' = trp_rem_len ?trp + int (q div 128) * trp_multiplier ?trp \<and> pending (trp_sck trp') = ys)"
      using more "1.prems" len by (intro "1.IH") simp_all
    then show ?thesis
      unfolding step total len using rank by fastforce
  qed
qed

lemma some_bytes:
  assumes "pending s = xs @ rest" "xs \<noteq> []" "n = int (length xs)"
  shows "\<exists>k s'. k \<le> length xs \<and> getfn s n = Some (int k, take k xs, s') \<and>
    pending s' = drop k xs @ rest \<and> rank s' < rank s"
proof -
  have "0 < n"
    using assms(2,3) by simp
  then obtain bs s' where g: "getfn s n = Some (int (length bs), bs, s')" "pending s = bs @ pending s'"
    "int (length bs) \<le> n" "if bs = [] then pending s = [] \<or> patience s' < patience s else patience s' \<le> patience s"
    using delivers [of n s] by auto
  then have "bs = take (length bs) xs" "pending s' = drop (length bs) xs @ rest"
    using assms(1,3) by (auto simp: append_eq_append_conv_if split: if_splits)
  moreover have "rank s' < rank s"
    using g(2,4) assms(1,2) by (cases bs) (auto simp: rank_def)
  ultimately show ?thesis
    using g(1,3) assms(3) by (metis of_nat_le_iff)
qed

lemma case2_step:
  assumes "j < length body" "take (1 + length (varint (length body)) + j) buf = h # varint (length body) @ take j body"
    "trp_len trp = 1 + int (length (varint (length body))) + int j"
    "trp_rem_len trp = int (length body) - int j" "pending (trp_sck trp) = drop j body @ rest"
    "trp_state trp = 2" "length (packet_bytes h body) \<le> length buf"
  shows "\<exists>rc buf' trp'. readnb_case2 buf getfn trp = Some (rc, buf', trp') \<and> length buf' = length buf \<and>
    rank (trp_sck trp') < rank (trp_sck trp) \<and>
    (rc = 0 \<and> readnb_inv pending h body rest buf' trp' \<or>
     rc = uint (header_type h) \<and> trp_state trp' = 0 \<and> pending (trp_sck trp') = rest \<and>
       take (length (packet_bytes h body)) buf' = packet_bytes h body)"
proof -
  let ?v = "varint (length body)"
  define xs where "xs = drop j body"
  have xs: "xs \<noteq> []" "pending (trp_sck trp) = xs @ rest" "int (length body) - int j = int (length xs)"
    using assms(1,5) by (simp_all add: xs_def of_nat_diff)
  obtain k s' where g: "k \<le> length xs" "getfn (trp_sck trp) (int (length body) - int j) = Some (int k, take k xs, s')"
    "pending s' = drop k xs @ rest" and rank: "rank s' < rank (trp_sck trp)"
    using some_bytes [OF xs(2,1,3)] by auto
  define bs where "bs = take k xs"
  have bs: "length bs = k" "take j body @ bs = take (j + k) body" "pending s' = drop (j + k) body @ rest"
    using g(1,3) by (simp_all add: bs_def xs_def take_add add.commute)
  have room: "length (h # ?v @ take j body) + length bs \<le> length buf"
    using assms(1,7) g(1) bs(1) xs(3) by (simp add: packet_bytes_def)
  obtain buf' where buf': "put_bytes buf (1 + length ?v + j) bs = Some buf'"
    "take (1 + length ?v + j + length bs) buf' = (h # ?v @ take j body) @ bs" "length buf' = length buf"
    using put_bytes_at [of "1 + length ?v + j" "h # ?v @ take j body" buf bs] assms(1,2) room by auto
  have hd: "readChar (0, buf') = Some (h, 1, tl buf')"
    using buf'(2) by (intro head_packet) simp
  have n: "nat (1 + int (length ?v) + int j) = 1 + length ?v + j"
    by simp
  show ?thesis
  proof (cases "j + k = length body")
    case True
    then have "take (length (packet_bytes h body)) buf' = packet_bytes h body"
      using buf'(2) bs by (simp add: packet_bytes_def add.assoc)
    then show ?thesis
      using assms(1,3,4) g(2) buf'(1,3) rank bs True hd
      by (simp add: readnb_case2_def n readnb_done_def readnb_exit_def Let_def flip: bs_def)
  next
    case False
    then have lt: "j + k < length body"
      using g(1) xs(3) by simp
    have inv: "readnb_inv pending h body rest buf' trp'"
      if "trp_state trp' = 2" "trp_sck trp' = s'" "trp_rem_len trp' = int (length body) - int j - int k"
        "trp_len trp' = 1 + int (length ?v) + int j + int k" for trp'
      using that lt buf'(2) bs
      by (simp add: readnb_inv_def) (auto intro!: exI [of _ "j + k"] simp: add.assoc)
    show ?thesis
      using assms(3,4,6) g(2) buf'(1,3) rank lt
      by (auto simp: readnb_case2_def n Let_def simp flip: bs_def intro!: inv)
  qed
qed

lemma case1_step:
  assumes "trp_state trp = 1" "take 1 buf = [h]" "0 \<le> trp_len trp" "pending (trp_sck trp) = varint q @ body @ rest"
    "trp_len trp + int (length (varint q)) = int (length (varint (length body)))"
    "if trp_len trp = 0 then q = length body else trp_rem_len trp + int q * trp_multiplier trp = int (length body)"
    "length body < 268435456" "int (length (packet_bytes h body)) \<le> buflen" "buflen \<le> int (length buf)"
  shows "\<exists>rc buf' trp'. readnb_case1 buf buflen getfn trp = Some (rc, buf', trp') \<and> length buf' = length buf \<and>
    rank (trp_sck trp') < rank (trp_sck trp) \<and>
    (rc = 0 \<and> readnb_inv pending h body rest buf' trp' \<or>
     rc = uint (header_type h) \<and> trp_state trp' = 0 \<and> pending (trp_sck trp') = rest \<and>
       take (length (packet_bytes h body)) buf' = packet_bytes h body)"
proof -
  let ?n = "length body" and ?v = "varint (length body)"
  define t where "t = (if trp_len trp = 0 then trp\<lparr>trp_multiplier := 1, trp_rem_len := 0\<rparr> else trp)"
  have t: "trp_sck t = trp_sck trp" "trp_len t = trp_len trp" "trp_state t = 1"
    "trp_rem_len t + int q * trp_multiplier t = int ?n"
    using assms(1,6) by (auto simp: t_def)
  have four: "trp_len t + int (length (varint q)) \<le> 4" "0 \<le> trp_len t"
    using assms(3,5,7) t(2) by (simp_all add: length_varint)
  obtain rc u where u: "MQTTPacket_decodenb getfn trp = Some (rc, u)" "trp_state u = 1"
    "rank (trp_sck u) < rank (trp_sck trp)"
    and rc: "rc = 0 \<and> (\<exists>q'. pending (trp_sck u) = varint q' @ body @ rest \<and>
        trp_rem_len u + int q' * trp_multiplier u = int ?n \<and>
        trp_len u + int (length (varint q')) = int (length ?v) \<and>
        trp_len trp \<le> trp_len u \<and> (trp_len u = trp_len trp \<longrightarrow> q' = q))
     \<or> rc > 0 \<and> trp_rem_len u = int ?n \<and> pending (trp_sck u) = body @ rest"
    using decodenb_loop_digits [of t q "body @ rest"] assms(4,5) four t
    by (auto simp: MQTTPacket_decodenb_def t_def)
  from rc show ?thesis
  proof (elim disjE conjE exE)
    fix q'
    assume "rc = 0" "pending (trp_sck u) = varint q' @ body @ rest"
      "trp_rem_len u + int q' * trp_multiplier u = int ?n"
      "trp_len u + int (length (varint q')) = int (length ?v)"
      "trp_len trp \<le> trp_len u" "trp_len u = trp_len trp \<longrightarrow> q' = q"
    then have "readnb_inv pending h body rest buf u"
      using assms(2,3,6) u(2) by (auto simp: readnb_inv_def)
    with u \<open>rc = 0\<close> show ?thesis
      by (auto simp: readnb_case1_def)
  next
    assume r: "rc > 0" "trp_rem_len u = int ?n" "pending (trp_sck u) = body @ rest"
    obtain buf' where buf': "MQTTPacket_encode (buf, 1) (int ?n) = Some (buf', int (length ?v))"
      "take (1 + length ?v) buf' = h # ?v" "length buf' = length buf"
      using encode_at_1 [of ?n buf h] assms(2,8,9) by (auto simp: packet_bytes_def)
    let ?t = "u\<lparr>trp_len := 1 + int (length ?v), trp_state := 2\<rparr>"
    have step: "readnb_case1 buf buflen getfn trp = readnb_case2 buf' getfn ?t"
      using u r buf'(1) assms(8) by (simp add: readnb_case1_def packet_bytes_def Let_def)
    show ?thesis
    proof (cases "body = []")
      case True
      have "readChar (0, buf') = Some (h, 1, tl buf')"
        using buf'(2) by (intro head_packet) simp
      with True r u buf' show ?thesis
        unfolding step by (simp add: readnb_case2_def readnb_done_def readnb_exit_def packet_bytes_def)
    next
      case False
      have "\<exists>rc buf'' trp'. readnb_case2 buf' getfn ?t = Some (rc, buf'', trp') \<and> length buf'' = length buf' \<and>
        rank (trp_sck trp') < rank (trp_sck ?t) \<and>
        (rc = 0 \<and> readnb_inv pending h body rest buf'' trp' \<or>
         rc = uint (header_type h) \<and> trp_state trp' = 0 \<and> pending (trp_sck trp') = rest \<and>
           take (length (packet_bytes h body)) buf'' = packet_bytes h body)"
        using False r buf' assms(8,9) by (intro case2_step [where j = 0]) simp_all
      with u(3) buf'(3) show ?thesis
        unfolding step by fastforce
    qed
  qed
qed

lemma case0_step:
  assumes "trp_state trp = 0" "pending (trp_sck trp) = packet_bytes h body @ rest"
    "length body < 268435456" "int (length (packet_bytes h body)) \<le> buflen" "buflen \<le> int (length buf)"
  shows "\<exists>rc buf' trp'. readnb_case0 buf buflen getfn trp = Some (rc, buf', trp') \<and> length buf' = length buf \<and>
    rank (trp_sck trp') < rank (trp_sck trp) \<and>
    (rc = 0 \<and> readnb_inv pending h body rest buf' trp' \<or>
     rc = uint (header_type h) \<and> trp_state trp' = 0 \<and> pending (trp_sck trp') = rest \<and>
       take (length (packet_bytes h body)) buf' = packet_bytes h body)"
proof -
  obtain s' where s': "getfn (trp_sck trp) 1 = Some (0, [], s') \<and> pending s' = packet_bytes h body @ rest \<or>
      getfn (trp_sck trp) 1 = Some (1, [h], s') \<and> pending s' = varint (length body) @ body @ rest"
    and rank: "rank s' < rank (trp_sck trp)"
    using one_byte [of "trp_sck trp"] assms(2) by (auto simp: packet_bytes_def)
  have nonempty: "1 \<le> length buf"
    using assms(4,5) by (simp add: packet_bytes_def)
  from s' show ?thesis
  proof (elim disjE conjE)
    assume "getfn (trp_sck trp) 1 = Some (0, [], s')" "pending s' = packet_bytes h body @ rest"
    with rank assms(1) show ?thesis
      by (simp add: readnb_case0_def put_bytes_def readnb_inv_def)
  next
    assume g: "getfn (trp_sck trp) 1 = Some (1, [h], s')" "pending s' = varint (length body) @ body @ rest"
    obtain buf' where buf': "put_bytes buf 0 [h] = Some buf'" "take 1 buf' = [h]" "length buf' = length buf"
      using put_bytes_at [of 0 "[]" buf "[h]"] nonempty by auto
    let ?t = "trp\<lparr>trp_sck := s', trp_len := 0, trp_state := 1\<rparr>"
    have step: "readnb_case0 buf buflen getfn trp = readnb_case1 buf' buflen getfn ?t"
      using g buf'(1) assms(1) by (simp add: readnb_case0_def)
    have "\<exists>rc buf'' trp'. readnb_case1 buf' buflen getfn ?t = Some (rc, buf'', trp') \<and> length buf'' = length buf' \<and>
      rank (trp_sck trp') < rank (trp_sck ?t) \<and>
      (rc = 0 \<and> readnb_inv pending h body rest buf'' trp' \<or>
       rc = uint (header_type h) \<and> trp_state trp' = 0 \<and> pending (trp_sck trp') = rest \<and>
         take (length (packet_bytes h body)) buf'' = packet_bytes h body)"
      using g(2) buf' assms(3,4,5) by (intro case1_step [where q = "length body"]) simp_all
    with rank buf'(3) show ?thesis
      unfolding step by fastforce
  qed
qed

lemma readnb_step:
  assumes "readnb_inv pending h body rest buf trp"
    "length body < 268435456" "int (length (packet_bytes h body)) \<le> buflen" "buflen \<le> int (length buf)"
  shows "\<exists>rc buf' trp'. MQTTPacket_readnb buf buflen getfn trp = Some (rc, buf', trp') \<and> length buf' = length buf \<and>
    rank (trp_sck trp') < rank (trp_sck trp) \<and>
    (rc = 0 \<and> readnb_inv pending h body rest buf' trp' \<or>
     rc = uint (header_type h) \<and> trp_state trp' = 0 \<and> pending (trp_sck trp') = rest \<and>
       take (length (packet_bytes h body)) buf' = packet_bytes h body)"
proof -
  have len: "length (packet_bytes h body) \<le> length buf"
    using assms(3,4) by linarith
  from assms(1) consider "trp_state trp = 0" "pending (trp_sck trp) = packet_bytes h body @ rest"
    | q where "trp_state trp = 1" "take 1 buf = [h]" "0 \<le> trp_len trp" "pending (trp_sck trp) = varint q @ body @ rest"
    "trp_len trp + int (length (varint q)) = int (length (varint (length body)))"
    "if trp_len trp = 0 then q = length body else trp_rem_len trp + int q * trp_multiplier trp = int (length body)"
    | j where "trp_state trp = 2" "j < length body"
      "take (1 + length (varint (length body)) + j) buf = h # varint (length body) @ take j body"
      "trp_len trp = 1 + int (length (varint (length body))) + int j"
      "trp_rem_len trp = int (length body) - int j" "pending (trp_sck trp) = drop j body @ rest"
    unfolding readnb_inv_def by blast
  then show ?thesis
  proof cases
    case 1
    then show ?thesis
      using case0_step [OF 1 assms(2-4)] by (simp add: MQTTPacket_readnb_def)
  next
    case 2
    then show ?thesis
      using case1_step [OF 2 assms(2-4)] by (simp add: MQTTPacket_readnb_def)
  next
    case 3
    then show ?thesis
      using case2_step [OF 3(2-6,1) len] by (simp add: MQTTPacket_readnb_def)
  qed
qed

lemma poll_completes:
  assumes "readnb_inv pending h body rest buf trp" "uint (header_type h) \<noteq> 0"
    "length body < 268435456" "int (length (packet_bytes h body)) \<le> buflen" "buflen \<le> int (length buf)"
    "rank (trp_sck trp) < k"
  shows "\<exists>buf' trp'. readnb_poll k buf buflen getfn trp = Some (uint (header_type h), buf', trp') \<and>
    take (length (packet_bytes h body)) buf' = packet_bytes h body \<and>
    pending (trp_sck trp') = rest \<and> trp_state trp' = 0"
  using assms
proof (induction k arbitrary: buf trp)
  case (Suc k)
  obtain rc buf' trp' where s: "MQTTPacket_readnb buf buflen getfn trp = Some (rc, buf', trp')"
    "length buf' = length buf" "rank (trp_sck trp') < rank (trp_sck trp)"
    "rc = 0 \<and> readnb_inv pending h body rest buf' trp' \<or>
     rc = uint (header_type h) \<and> trp_state trp' = 0 \<and> pending (trp_sck trp') = rest \<and>
       take (length (packet_bytes h body)) buf' = packet_bytes h body"
    using readnb_step [OF Suc.prems(1,3,4,5)] by blast
  from s(4) show ?case
  proof (elim disjE conjE)
    assume r: "rc = 0" "readnb_inv pending h body rest buf' trp'"
    have "\<exists>b t. readnb_poll k buf' buflen getfn trp' = Some (uint (header_type h), b, t) \<and>
      take (length (packet_bytes h body)) b = packet_bytes h body \<and> pending (trp_sck t) = rest \<and> trp_state t = 0"
      using Suc.prems s(2,3) r(2) by (intro Suc.IH) simp_all
    with s(1) r(1) show ?thesis by simp
  qed (use s(1) Suc.prems(2) in simp)
qed simp
end

text \<open>A stream socket: \<open>recv\<close> fails while nothing has arrived (with \<open>EAGAIN\<close>, after the timeout
  set on the socket), returns 0 once the peer has closed and everything is read, and otherwise
  returns some of the bytes that arrived, in order.\<close>

locale stream_socket =
  fixes recv :: "'s \<Rightarrow> int \<Rightarrow> int \<times> byte list \<times> 's"
    and pending :: "'s \<Rightarrow> byte list"
    and patience :: "'s \<Rightarrow> nat"
  assumes recv_cases: "0 < n \<Longrightarrow> recv s n = (rc, bs, s') \<Longrightarrow>
     rc = - 1 \<and> bs = [] \<and> pending s' = pending s \<and> (pending s = [] \<or> patience s' < patience s) \<or>
     rc = 0 \<and> bs = [] \<and> pending s = [] \<and> pending s' = [] \<or>
     rc = int (length bs) \<and> 0 < length bs \<and> rc \<le> n \<and> pending s = bs @ pending s' \<and> patience s' \<le> patience s"

sublocale stream_socket \<subseteq> byte_source "transport_getdatanb recv" pending patience
proof
  fix n :: int and s
  assume n: "0 < n"
  obtain rc bs s' where r: "recv s n = (rc, bs, s')"
    by (cases "recv s n")
  show "\<exists>bs s'. transport_getdatanb recv s n = Some (int (length bs), bs, s') \<and>
    pending s = bs @ pending s' \<and> int (length bs) \<le> n \<and>
    (if bs = [] then pending s = [] \<or> patience s' < patience s else patience s' \<le> patience s)"
    using recv_cases [OF n r] n r by (auto simp: transport_getdatanb_def)
qed

context stream_socket
begin

lemma axioms_imp_source: "byte_source (transport_getdatanb recv) pending patience"
  by (rule byte_source_axioms)

end

text \<open>A socket that follows a schedule: 0 for a call that times out, \<open>k\<close> for one that finds at
  most \<open>k\<close> bytes; after the schedule, everything that was sent has arrived.\<close>

fun scheduled_recv :: "nat list \<times> byte list \<Rightarrow> int \<Rightarrow> int \<times> byte list \<times> (nat list \<times> byte list)" where
  "scheduled_recv ([], q) n =
     (if q = [] then (- 1, [], [], q)
      else (int (length (take (nat n) q)), take (nat n) q, [], drop (nat n) q))"
| "scheduled_recv (k # ks, q) n =
     (if k = 0 \<or> q = [] then (- 1, [], ks, q)
      else (int (length (take (min k (nat n)) q)), take (min k (nat n)) q, ks, drop (min k (nat n)) q))"

interpretation scheduled: stream_socket scheduled_recv snd "\<lambda>s. length (fst s)"
proof
  fix n rc :: int and bs s s'
  assume n: "0 < n" and r: "scheduled_recv s n = (rc, bs, s')"
  then show "rc = - 1 \<and> bs = [] \<and> snd s' = snd s \<and> (snd s = [] \<or> length (fst s') < length (fst s)) \<or>
     rc = 0 \<and> bs = [] \<and> snd s = [] \<and> snd s' = [] \<or>
     rc = int (length bs) \<and> 0 < length bs \<and> rc \<le> n \<and> snd s = bs @ snd s' \<and> length (fst s') \<le> length (fst s)"
    by (cases "(s, n)" rule: scheduled_recv.cases) (auto split: if_splits)
qed

text \<open>A callback that waits until it has all the bytes it was asked for.\<close>

locale blocking_source =
  fixes getfn :: "'s getfn"
    and pending :: "'s \<Rightarrow> byte list"
  assumes full: "pending s = bs @ ys \<Longrightarrow> n = int (length bs) \<Longrightarrow> 0 < n \<Longrightarrow>
    \<exists>s'. getfn s n = Some (n, bs, s') \<and> pending s' = ys"
begin

lemma decode_digits:
  assumes "pending s = varint n @ ys" "len + int (length (varint n)) \<le> 4"
  shows "\<exists>s'. MQTTPacket_decode_loop getfn s len m v = Some (len + int (length (varint n)), v + int n * m, s') \<and>
    pending s' = ys"
  using assms
proof (induction n arbitrary: s len m v rule: varint.induct)
  case (1 n)
  show ?case
  proof (cases "n < 128")
    case True
    then have v: "varint n = [word_of_nat n]"
      by (rule varint_small)
    then obtain s' where "getfn s 1 = Some (1, [word_of_nat n], s')" "pending s' = ys"
      using full [of s "[word_of_nat n]" ys 1] "1.prems"(1) by auto
    then show ?thesis
      using "1.prems"(2) True v
      by (simp add: MQTTPacket_decode_loop.simps [of _ _ len] varint_last)
  next
    case False
    let ?d = "word_of_nat (n mod 128) OR 128 :: byte"
    have v: "varint n = ?d # varint (n div 128)"
      using False by (subst varint.simps) simp
    then obtain s' where s': "getfn s 1 = Some (1, [?d], s')" "pending s' = varint (n div 128) @ ys"
      using full [of s "[?d]" "varint (n div 128) @ ys" 1] "1.prems"(1) by auto
    have e: "int n = int (n mod 128) + 128 * int (n div 128)"
      by (simp add: zmod_int zdiv_int)
    have n: "int (n mod 128) * m + int (n div 128) * (m * 128) = int n * m"
      by (subst e) (simp add: algebra_simps)
    have le: "(len + 1) + int (length (varint (n div 128))) \<le> 4"
      using "1.prems"(2) v by simp
    have step: "MQTTPacket_decode_loop getfn s len m v =
          MQTTPacket_decode_loop getfn s' (len + 1) (m * 128) (v + int (n mod 128) * m)"
      using le s'(1) by (subst MQTTPacket_decode_loop.simps) (simp add: varint_more)
    show ?thesis
      unfolding step using "1.IH" [OF False s'(2) le, of "m * 128" "v + int (n mod 128) * m"] n
      by (simp add: v add.assoc)
  qed
qed

lemma reads_packet:
  assumes "pending s = packet_bytes h body @ rest" "length body < 268435456"
    "int (length (packet_bytes h body)) \<le> buflen" "buflen \<le> int (length buf)"
  shows "\<exists>buf' s'. MQTTPacket_read buf buflen getfn s = Some (uint (header_type h), buf', s') \<and>
    take (length (packet_bytes h body)) buf' = packet_bytes h body \<and> pending s' = rest"
proof -
  let ?v = "varint (length body)"
  have len: "length (packet_bytes h body) \<le> length buf"
    using assms(3,4) by linarith
  have four: "length ?v \<le> 4"
    using assms(2) by (simp add: length_varint)
  obtain s1 where s1: "getfn s 1 = Some (1, [h], s1)" "pending s1 = ?v @ body @ rest"
    using full [of s "[h]" "?v @ body @ rest" 1] assms(1) by (auto simp: packet_bytes_def)
  obtain buf1 where b1: "put_bytes buf 0 [h] = Some buf1" "take 1 buf1 = [h]" "length buf1 = length buf"
    using put_bytes_at [of 0 "[]" buf "[h]"] len by (auto simp: packet_bytes_def)
  obtain s2 where s2: "MQTTPacket_decode getfn s1 = Some (int (length ?v), int (length body), s2)"
    "pending s2 = body @ rest"
    using decode_digits [OF s1(2), of 0 1 0] four by (auto simp: MQTTPacket_decode_def)
  obtain buf2 where b2: "MQTTPacket_encode (buf1, 1) (int (length body)) = Some (buf2, int (length ?v))"
    "take (1 + length ?v) buf2 = h # ?v" "length buf2 = length buf"
    using encode_at_1 [of "length body" buf1 h] b1(2,3) len by (auto simp: packet_bytes_def)
  have hd: "readChar (0, b) = Some (h, 1, tl b)" if "take (1 + length ?v + k) b = h # xs" for b xs k
    using that head_packet [of "length ?v + k" b h xs] by simp
  show ?thesis
  proof (cases "body = []")
    case True
    then show ?thesis
      using s1 b1 s2 b2 hd [of 0 buf2] assms(3)
      by (simp add: MQTTPacket_read_def packet_bytes_def)
  next
    case False
    obtain s3 where s3: "getfn s2 (int (length body)) = Some (int (length body), body, s3)" "pending s3 = rest"
      using full [OF s2(2), of "int (length body)"] False by auto
    obtain buf3 where b3: "put_bytes buf2 (1 + length ?v) body = Some buf3"
      "take (1 + length ?v + length body) buf3 = (h # ?v) @ body"
      using put_bytes_at [of "1 + length ?v" "h # ?v" buf2 body] b2 len by (auto simp: packet_bytes_def)
    have n: "nat (1 + int (length ?v)) = 1 + length ?v"
      by simp
    show ?thesis
      using False s1(1) b1(1) s2(1) b2(1) s3 b3 hd [OF b3(2) [simplified append_Cons]] assms(3)
      by (simp add: MQTTPacket_read_def packet_bytes_def n)
  qed
qed

end

text \<open>A receive call that waits for all bytes, as \<open>recv\<close> does with \<open>MSG_WAITALL\<close>.\<close>

definition waiting_recv :: "byte list \<Rightarrow> int \<Rightarrow> int \<times> byte list \<times> byte list" where
  "waiting_recv q n = (int (length (take (nat n) q)), take (nat n) q, drop (nat n) q)"

interpretation waiting: blocking_source "transport_getdata waiting_recv" "\<lambda>q. q"
  by unfold_locales (auto simp: transport_getdata_def waiting_recv_def)

subsection \<open>Properties\<close>

definition transport_start :: "'s \<Rightarrow> 's MQTTTransport" where
  "transport_start s = \<lparr>trp_sck = s, trp_multiplier = 0, trp_rem_len = 0, trp_len = 0, trp_state = 0\<rparr>"

text \<open>C7: The non-blocking reader reassembles packets. The hypothesis is that \<open>recv\<close> behaves like a
  stream socket. Whatever pieces the packet arrives in and however often the socket has nothing to give in between,
  a caller that calls \<open>MQTTPacket_readnb\<close> again while it returns 0 gets the packet type after at most as many
  calls as there are pending bytes and time-outs; then the buffer starts with exactly the packet,
  the transport is back in state 0, and the bytes behind the packet are still in the socket.\<close>

theorem readnb_reassembles:
  assumes "stream_socket recv pending patience"
    and "pending s = packet_bytes h body @ rest" "header_type h \<noteq> 0" "length body < 268435456"
    and "int (length (packet_bytes h body)) \<le> buflen" "buflen \<le> int (length buf)"
    and "length (pending s) + patience s < k"
  shows "\<exists>buf' trp'. readnb_poll k buf buflen (transport_getdatanb recv) (transport_start s) =
      Some (uint (header_type h), buf', trp') \<and>
    take (length (packet_bytes h body)) buf' = packet_bytes h body \<and>
    pending (trp_sck trp') = rest \<and> trp_state trp' = 0"
proof -
  have src: "byte_source (transport_getdatanb recv) pending patience"
    using assms(1) by (rule stream_socket.axioms_imp_source)
  show ?thesis
    by (rule byte_source.poll_completes [OF src])
       (use assms in \<open>simp_all add: readnb_inv_def transport_start_def byte_source.rank_def [OF src] unsigned_eq_0_iff\<close>)
qed

theorem readnb_reassembles_witness:
  "\<exists>buf' trp'. readnb_poll 12 (replicate 8 0) 8 (transport_getdatanb scheduled_recv)
      (transport_start ([0, 1, 0, 1, 1], [64, 2, 1, 5, 208])) = Some (uint (header_type 64), buf', trp') \<and>
    take (length (packet_bytes 64 [1, 5])) buf' = packet_bytes 64 [1, 5] \<and>
    snd (trp_sck trp') = [208] \<and> trp_state trp' = 0"
  by (rule readnb_reassembles [OF scheduled.stream_socket_axioms])
     (simp_all add: packet_bytes_def varint_small header_type_def bf_get_def)

text \<open>Every single call keeps the reader consistent: the state (0 before the header byte, 1
  within the remaining length, 2 within the body) says how much of the packet is in the buffer and in the
  counters. A call returns 0 and keeps this invariant, or returns the packet type with the
  whole packet in the buffer; it never reports an error and never writes outside the buffer.\<close>

theorem readnb_call_keeps_invariant:
  assumes "stream_socket recv pending patience" "readnb_inv pending h body rest buf trp"
    and "length body < 268435456" "int (length (packet_bytes h body)) \<le> buflen" "buflen \<le> int (length buf)"
  shows "\<exists>rc buf' trp'. MQTTPacket_readnb buf buflen (transport_getdatanb recv) trp = Some (rc, buf', trp') \<and>
    length buf' = length buf \<and>
    (rc = 0 \<and> readnb_inv pending h body rest buf' trp' \<or>
     rc = uint (header_type h) \<and> trp_state trp' = 0 \<and> pending (trp_sck trp') = rest \<and>
       take (length (packet_bytes h body)) buf' = packet_bytes h body)"
  using byte_source.readnb_step [OF stream_socket.axioms_imp_source [OF assms(1)] assms(2-5)] by blast

theorem readnb_call_keeps_invariant_witness:
  "\<exists>rc buf' trp'. MQTTPacket_readnb [0, 0, 0, 0] 4 (transport_getdatanb scheduled_recv)
      (transport_start ([1, 0], [64, 2, 1, 5])) = Some (rc, buf', trp') \<and>
    length buf' = length [0 :: byte, 0, 0, 0] \<and>
    (rc = 0 \<and> readnb_inv snd 64 [1, 5] [] buf' trp' \<or>
     rc = uint (header_type 64) \<and> trp_state trp' = 0 \<and> snd (trp_sck trp') = [] \<and>
       take (length (packet_bytes 64 [1, 5])) buf' = packet_bytes 64 [1, 5])"
  by (rule readnb_call_keeps_invariant [OF scheduled.stream_socket_axioms])
     (simp_all add: packet_bytes_def varint_small readnb_inv_def transport_start_def)

text \<open>The blocking reader: if the callback always delivers as many bytes as it is asked for,
  \<open>MQTTPacket_read\<close> leaves exactly the next packet in the buffer, returns its type and consumes
  nothing behind it.\<close>

theorem MQTTPacket_read_packet:
  assumes "blocking_source getfn pending" "pending s = packet_bytes h body @ rest" "length body < 268435456"
    and "int (length (packet_bytes h body)) \<le> buflen" "buflen \<le> int (length buf)"
  shows "\<exists>buf' s'. MQTTPacket_read buf buflen getfn s = Some (uint (header_type h), buf', s') \<and>
    take (length (packet_bytes h body)) buf' = packet_bytes h body \<and> pending s' = rest"
  using assms by (rule blocking_source.reads_packet)

theorem MQTTPacket_read_packet_witness:
  "\<exists>buf' s'. MQTTPacket_read (replicate 6 0) 6 (transport_getdata waiting_recv) [64, 2, 1, 5, 208] =
      Some (uint (header_type 64), buf', s') \<and>
    take (length (packet_bytes 64 [1, 5])) buf' = packet_bytes 64 [1, 5] \<and> s' = [208]"
  by (rule MQTTPacket_read_packet [OF waiting.blocking_source_axioms])
     (simp_all add: packet_bytes_def varint_small)

end
