(* ===== verification/MQTT_Topic.thy ===== *)
theory MQTT_Topic
  imports MQTT_Codec
begin

text \<open>
  Topic matching, \<open>isTopicMatched\<close> of \<^verbatim>\<open>MQTTClient.c\<close>: the two cursors over the filter and the
  topic name, and a proof that on filters and names in the format its comment assumes the scan
  decides the level-wise matching relation of the MQTT specification, with the exceptions that the properties
  state.
\<close>

subsection \<open>The scan\<close>

abbreviation ch_slash :: byte where "ch_slash \<equiv> 47"
abbreviation ch_plus :: byte where "ch_plus \<equiv> 43"
abbreviation ch_hash :: byte where "ch_hash \<equiv> 35"

text \<open>\<open>+\<close>: \<open>curn\<close> moves to the last character before the next separator or the end.\<close>

fun skip_level :: "byte list \<Rightarrow> byte list" where
  "skip_level (c # d # n) = (if d \<noteq> ch_slash then skip_level (d # n) else c # d # n)"
| "skip_level n = n"

text \<open>The loop, on the rest of the filter (a C string without its NUL) and the rest of the name
  (the bytes from \<open>curn\<close> to \<open>curn_end\<close>); it ends with the final test. The \<open>curn++\<close> that ends the
  body drops the byte under the cursor.\<close>

fun isTopicMatched_loop :: "byte list \<Rightarrow> byte list \<Rightarrow> bool" where
  "isTopicMatched_loop (cf # curf) (cn # curn) =
     (if cn = ch_slash \<and> cf \<noteq> ch_slash then False
      else if cf \<noteq> ch_plus \<and> cf \<noteq> ch_hash \<and> cf \<noteq> cn then False
      else isTopicMatched_loop curf
             (tl (if cf = ch_plus then skip_level (cn # curn)
                  else if cf = ch_hash then [last (cn # curn)]
                  else cn # curn)))"
| "isTopicMatched_loop curf curn = (curn = [] \<and> curf = [])"

definition isTopicMatched :: "byte list \<Rightarrow> MQTTString \<Rightarrow> bool option" where
  "isTopicMatched topicFilter topicName =
     (let len = ls_len (lenstring topicName)
      in if cptr_holds (ls_data (lenstring topicName)) len
         then Some (isTopicMatched_loop topicFilter (cptr_bytes (ls_data (lenstring topicName)) len))
         else None)"

subsection \<open>Levels\<close>

fun join :: "byte list list \<Rightarrow> byte list" where
  "join [] = []"
| "join [l] = l"
| "join (l # ls) = l @ ch_slash # join ls"

text \<open>The matching relation of the specification, section 4.7.1: \<open>#\<close> stands for any number of
  levels, \<open>+\<close> for one.\<close>

fun level_match :: "byte list list \<Rightarrow> byte list list \<Rightarrow> bool" where
  "level_match [] ns = (ns = [])"
| "level_match (f # fs) ns =
     (if f = [ch_hash] \<and> fs = [] then True
      else case ns of [] \<Rightarrow> False | n # ns \<Rightarrow> (f = [ch_plus] \<or> f = n) \<and> level_match fs ns)"

definition name_level :: "byte list \<Rightarrow> bool" where
  "name_level l \<longleftrightarrow> l \<noteq> [] \<and> ch_slash \<notin> set l"

fun filter_levels :: "byte list list \<Rightarrow> bool" where
  "filter_levels [] \<longleftrightarrow> True"
| "filter_levels (f # fs) \<longleftrightarrow>
     (f = [ch_hash] \<and> fs = [] \<or> f = [ch_plus] \<or>
      name_level f \<and> ch_plus \<notin> set f \<and> ch_hash \<notin> set f) \<and> filter_levels fs"

lemma skip_level_append:
  "n \<noteq> [] \<Longrightarrow> ch_slash \<notin> set n \<Longrightarrow> rest = [] \<or> hd rest = ch_slash \<Longrightarrow>
   tl (skip_level (n @ rest)) = rest"
proof (induction n)
  case (Cons c n)
  show ?case
  proof (cases n)
    case Nil
    with Cons.prems show ?thesis by (cases rest) auto
  next
    case (Cons d m)
    with Cons.prems Cons.IH show ?thesis by simp
  qed
qed simp

text \<open>A level without wildcards is compared character by character.\<close>

lemma scan_literal:
  assumes "ch_slash \<notin> set f" "ch_plus \<notin> set f" "ch_hash \<notin> set f" "ch_slash \<notin> set n"
    and "fr = [] \<or> hd fr = ch_slash" "nr = [] \<or> hd nr = ch_slash"
  shows "isTopicMatched_loop (f @ fr) (n @ nr) \<longleftrightarrow> f = n \<and> isTopicMatched_loop fr nr"
  using assms
proof (induction f arbitrary: n)
  case Nil
  show ?case
  proof (cases n)
    case (Cons c n')
    then show ?thesis
      using Nil.prems by (cases fr) auto
  qed simp
next
  case (Cons c f)
  show ?case
  proof (cases n)
    case Nil
    then show ?thesis
      using Cons.prems by (cases nr) auto
  next
    case (Cons d n')
    then show ?thesis
      using Cons.prems Cons.IH [of n'] by auto
  qed
qed

lemma join_Cons: "join (l # ls) = l @ (if ls = [] then [] else ch_slash # join ls)"
  by (cases ls) simp_all

lemma join_head: "name_level l \<Longrightarrow> \<exists>c cs. join (l # ls) = c # cs \<and> c \<noteq> ch_slash"
  by (cases l) (auto simp: join_Cons name_level_def)

lemma scan_levels:
  assumes "filter_levels fs" "list_all name_level ns" "fs \<noteq> []" "ns \<noteq> []"
  shows "isTopicMatched_loop (join fs) (join ns) \<longleftrightarrow>
     level_match fs ns \<and> \<not> (last fs = [ch_hash] \<and> length fs = Suc (length ns))"
  using assms
proof (induction fs arbitrary: ns)
  case (Cons f fs)
  obtain n ms where ns: "ns = n # ms" using Cons.prems(4) by (cases ns) auto
  then have n: "name_level n" "list_all name_level ms" using Cons.prems(2) by auto
  let ?fr = "if fs = [] then [] else ch_slash # join fs" and ?nr = "if ms = [] then [] else ch_slash # join ms"
  have rest: "isTopicMatched_loop ?fr ?nr \<longleftrightarrow> level_match fs ms \<and> \<not> (last (f # fs) = [ch_hash] \<and> length (f # fs) = Suc (length ns))"
    if "f \<noteq> [ch_hash]"
  proof (cases "fs = []")
    case True then show ?thesis using that by (cases ms) auto
  next
    case False
    show ?thesis
    proof (cases "ms = []")
      case True
      then show ?thesis using False Cons.prems(1) ns
        by (cases fs) (auto)
    next
      case False2: False
      then show ?thesis using False Cons.prems(1) n(2) Cons.IH [of ms] ns by simp
    qed
  qed
  consider (hash) "f = [ch_hash]" "fs = []" | (plus) "f = [ch_plus]"
    | (lit) "name_level f" "ch_plus \<notin> set f" "ch_hash \<notin> set f"
    using Cons.prems(1) by auto
  then show ?case
  proof cases
    case hash
    obtain c cs where "join ns = c # cs" "c \<noteq> ch_slash"
      using join_head [OF n(1)] ns by blast
    then show ?thesis using hash ns by simp
  next
    case plus
    obtain c cs where c: "join ns = c # cs" "c \<noteq> ch_slash"
      using join_head [OF n(1)] ns by blast
    have "tl (skip_level (join ns)) = ?nr"
      unfolding ns join_Cons using n(1) by (intro skip_level_append) (auto simp: name_level_def)
    then have "isTopicMatched_loop (join (f # fs)) (join ns) = isTopicMatched_loop ?fr ?nr"
      using c plus by (simp add: join_Cons)
    then show ?thesis using rest plus ns by simp
  next
    case lit
    have "isTopicMatched_loop (join (f # fs)) (join ns) \<longleftrightarrow> f = n \<and> isTopicMatched_loop ?fr ?nr"
      unfolding ns join_Cons using lit n(1) by (intro scan_literal) (auto simp: name_level_def)
    moreover have "f \<noteq> [ch_hash]" "f \<noteq> [ch_plus]" using lit by auto
    ultimately show ?thesis using rest ns by simp
  qed
qed simp

subsection \<open>Properties\<close>

definition topic_string :: "byte list \<Rightarrow> MQTTString" where
  "topic_string bs = \<lparr>cstring = None, lenstring = \<lparr>ls_len = int (length bs), ls_data = Some bs\<rparr>\<rparr>"

lemma isTopicMatched_topic_string: "isTopicMatched f (topic_string n) = Some (isTopicMatched_loop f n)"
  by (simp add: isTopicMatched_def topic_string_def cptr_holds_def cptr_bytes_def Let_def)

text \<open>C8: Topic matching is right on well-formed input: for a filter whose levels are \<open>+\<close>, a final
  \<open>#\<close> or plain, and a topic name without empty levels, \<open>isTopicMatched\<close> decides the matching relation of
  the specification, except that a filter ending in \<open>/#\<close> does not match its parent level.\<close>

theorem isTopicMatched_levels:
  assumes "filter_levels fs" "fs \<noteq> []" "list_all name_level ns" "ns \<noteq> []"
  shows "isTopicMatched (join fs) (topic_string (join ns)) =
    Some (level_match fs ns \<and> \<not> (last fs = [ch_hash] \<and> length fs = Suc (length ns)))"
  using scan_levels [OF assms(1,3,2,4)]
  by (simp add: isTopicMatched_topic_string)

theorem isTopicMatched_levels_witness:
  "isTopicMatched (join [[97], [43], [35]]) (topic_string (join [[97], [98, 99], [100], [101]])) =
    Some (level_match [[97], [43], [35]] [[97], [98, 99], [100], [101]] \<and>
      \<not> (last [[97], [43], [35]] = [ch_hash] \<and> length [[97 :: byte], [43], [35]] = Suc (length [[97 :: byte], [98, 99], [100], [101]])))"
  by (rule isTopicMatched_levels) (simp_all add: name_level_def)

text \<open>Where the scan departs from the specification: \<open>f/#\<close> does not match the topic \<open>f\<close>, and
  neither \<open>#\<close> nor \<open>+\<close> matches a topic that starts with an empty level (a leading separator), although
  the level-wise relation holds in each case.\<close>

theorem isTopicMatched_misses:
  assumes "name_level f" "ch_plus \<notin> set f" "ch_hash \<notin> set f"
  shows "isTopicMatched (join [f, [ch_hash]]) (topic_string f) = Some False \<and> level_match [f, [ch_hash]] [f] \<and>
    isTopicMatched [ch_hash] (topic_string (join [[], f])) = Some False \<and> level_match [[ch_hash]] [[], f] \<and>
    isTopicMatched (join [[ch_plus], f]) (topic_string (join [[], f])) = Some False \<and> level_match [[ch_plus], f] [[], f]"
  using scan_levels [of "[f, [ch_hash]]" "[f]"] assms
  by (auto simp: isTopicMatched_topic_string)

theorem isTopicMatched_misses_witness:
  "isTopicMatched (join [[97], [ch_hash]]) (topic_string [97]) = Some False \<and> level_match [[97], [ch_hash]] [[97]] \<and>
    isTopicMatched [ch_hash] (topic_string (join [[], [97]])) = Some False \<and> level_match [[ch_hash]] [[], [97]] \<and>
    isTopicMatched (join [[ch_plus], [97]]) (topic_string (join [[], [97]])) = Some False \<and> level_match [[ch_plus], [97]] [[], [97]]"
  by (rule isTopicMatched_misses) (simp_all add: name_level_def)

end
