(* ===== verification/MQTT_Client.thy ===== *)
theory MQTT_Client
  imports MQTT_Connect MQTT_Subscribe MQTT_Transport MQTT_Topic
begin

text \<open>
  The C client, \<^verbatim>\<open>MQTTClient-C/src/MQTTClient.c\<close> and \<^verbatim>\<open>MQTTClient.h\<close>. The network and the timers are
  the platform's: a record of functions on the state \<open>'w\<close> of the world (sockets and clock), with
  timers of type \<open>'t\<close>. The client structure is a record that every operation takes and returns. The
  function pointers of message handlers are values of a type \<open>'h\<close> (\<open>None\<close> is NULL); calls of them are appended
  to the field \<open>delivered\<close>. \<open>size_t\<close> and \<open>unsigned int\<close> have 32 bits, as on the Mbed targets. The
  build without \<open>MQTT_TASK\<close> is modelled, which has no mutex. Local variables that the code leaves
  uninitialised start as 0.

  The loops that wait for the network are \<open>partial_function\<close>s: besides an access outside memory,
  \<open>None\<close> stands there for a loop that never ends. The theory \<open>MQTT_Client_Safety\<close> shows that on a platform
  whose timers run down they all end.
\<close>

subsection \<open>Data\<close>

abbreviation MAX_PACKET_ID :: u32 where "MAX_PACKET_ID \<equiv> 65535"
abbreviation MAX_MESSAGE_HANDLERS :: nat where "MAX_MESSAGE_HANDLERS \<equiv> 5"
abbreviation BUFFER_OVERFLOW :: int where "BUFFER_OVERFLOW \<equiv> - 2"
abbreviation FAILURE :: int where "FAILURE \<equiv> - 1"
abbreviation SUCCESS :: int where "SUCCESS \<equiv> 0"
abbreviation SUBFAIL :: int where "SUBFAIL \<equiv> 128"

record ('w, 't) platform =
  mqttread :: "'w \<Rightarrow> int \<Rightarrow> int \<Rightarrow> int \<times> byte list \<times> 'w"
  mqttwrite :: "'w \<Rightarrow> byte list \<Rightarrow> int \<Rightarrow> int \<times> 'w"
  TimerInit :: "'w \<Rightarrow> 't \<times> 'w"
  TimerIsExpired :: "'w \<Rightarrow> 't \<Rightarrow> bool \<times> 'w"
  TimerCountdownMS :: "'w \<Rightarrow> 't \<Rightarrow> u32 \<Rightarrow> 't \<times> 'w"
  TimerCountdown :: "'w \<Rightarrow> 't \<Rightarrow> u32 \<Rightarrow> 't \<times> 'w"
  TimerLeftMS :: "'w \<Rightarrow> 't \<Rightarrow> int \<times> 'w"

record MQTTMessage =
  msg_qos :: int
  msg_retained :: byte
  msg_dup :: byte
  msg_id :: u16
  msg_payload :: cptr
  msg_payloadlen :: u32

record MessageData =
  md_message :: MQTTMessage
  md_topicName :: MQTTString

record MQTTConnackData =
  connack_rc :: byte
  connack_sessionPresent :: byte

record MQTTSubackData =
  grantedQoS :: int

record 'h MessageHandlers =
  topicFilter :: "byte list option"
  fp :: "'h option"

record ('t, 'h) MQTTClient =
  next_packetid :: u32
  command_timeout_ms :: u32
  buf_size :: u32
  readbuf_size :: u32
  c_buf :: buffer
  c_readbuf :: buffer
  keepAliveInterval :: u32
  ping_outstanding :: int
  isconnected :: int
  cleansession :: int
  messageHandlers :: "'h MessageHandlers list"
  defaultMessageHandler :: "'h option"
  last_sent :: 't
  last_received :: 't
  delivered :: "('h \<times> MessageData) list"

text \<open>Passing a \<open>size_t\<close> as an \<open>int\<close> argument.\<close>

definition int_of_size :: "u32 \<Rightarrow> int" where
  "int_of_size n = sint n"

subsection \<open>Sending\<close>

definition NewMessageData :: "MQTTString \<Rightarrow> MQTTMessage \<Rightarrow> MessageData" where
  "NewMessageData aTopicName aMessage = \<lparr>md_message = aMessage, md_topicName = aTopicName\<rparr>"

definition getNextPacketId :: "('t, 'h) MQTTClient \<Rightarrow> u32 \<times> ('t, 'h) MQTTClient" where
  "getNextPacketId c =
     (let i = (if next_packetid c = MAX_PACKET_ID then 1 else next_packetid c + 1)
      in (i, c\<lparr>next_packetid := i\<rparr>))"

text \<open>The bytes from \<open>&c->buf[sent]\<close> on that \<open>mqttwrite\<close> is told to send: \<open>length\<close> of them, whatever
  \<open>sent\<close> is.\<close>

definition write_window :: "buffer \<Rightarrow> int \<Rightarrow> int \<Rightarrow> byte list option" where
  "write_window buf sent len =
     (if 0 \<le> sent \<and> 0 \<le> len \<and> sent + len \<le> int (length buf)
      then Some (take (nat len) (drop (nat sent) buf)) else None)"

partial_function (option) sendPacket_loop ::
  "('w, 't) platform \<Rightarrow> 'w \<Rightarrow> buffer \<Rightarrow> int \<Rightarrow> 't \<Rightarrow> int \<Rightarrow> (int \<times> 'w) option" where
  "sendPacket_loop p w buf len timer sent =
     (if sent < len
      then case TimerIsExpired p w timer of (expired, w) \<Rightarrow>
        if expired then Some (sent, w)
        else case TimerLeftMS p w timer of (left, w) \<Rightarrow>
          Option.bind (write_window buf sent len) (\<lambda>bytes.
            case mqttwrite p w bytes left of (rc, w) \<Rightarrow>
              if rc < 0 then Some (sent, w) else sendPacket_loop p w buf len timer (sent + rc))
      else Some (sent, w))"

declare sendPacket_loop.simps [code]

definition sendPacket ::
  "('w, 't) platform \<Rightarrow> 'w \<Rightarrow> ('t, 'h) MQTTClient \<Rightarrow> int \<Rightarrow> 't \<Rightarrow> (int \<times> 'w \<times> ('t, 'h) MQTTClient) option" where
  "sendPacket p w c len timer = do {
     (sent, w) \<leftarrow> sendPacket_loop p w (c_buf c) len timer 0;
     if sent = len
     then do {
       let (t, w) = TimerCountdown p w (last_sent c) (keepAliveInterval c);
       Some (SUCCESS, w, c\<lparr>last_sent := t\<rparr>) }
     else Some (FAILURE, w, c) }"

definition MQTTClientInit ::
  "('w, 't) platform \<Rightarrow> 'w \<Rightarrow> ('t, 'h) MQTTClient \<Rightarrow> u32 \<Rightarrow> buffer \<Rightarrow> u32 \<Rightarrow> buffer \<Rightarrow> u32
   \<Rightarrow> 'w \<times> ('t, 'h) MQTTClient" where
  "MQTTClientInit p w c command_timeout sendbuf sendbuf_size readbuf rbuf_size =
     (let c = c\<lparr>messageHandlers := map (\<lambda>s. s\<lparr>topicFilter := None\<rparr>) (messageHandlers c),
                command_timeout_ms := command_timeout, c_buf := sendbuf, buf_size := sendbuf_size,
                c_readbuf := readbuf, readbuf_size := rbuf_size, isconnected := 0, cleansession := 0,
                ping_outstanding := 0, defaultMessageHandler := None, next_packetid := 1\<rparr>;
          (t, w) = TimerInit p w; c = c\<lparr>last_sent := t\<rparr>;
          (t, w) = TimerInit p w; c = c\<lparr>last_received := t\<rparr>
      in (w, c))"

subsection \<open>Receiving\<close>

text \<open>\<open>decodePacket\<close> repeats the loop of \<open>MQTTPacket_decode\<close> with \<open>mqttread\<close> in place of the callback.\<close>

definition decodePacket :: "('w, 't) platform \<Rightarrow> 'w \<Rightarrow> int \<Rightarrow> (int \<times> int \<times> 'w) option" where
  "decodePacket p w timeout = MQTTPacket_decode (\<lambda>w n. Some (mqttread p w n timeout)) w"

text \<open>Step 3 of \<open>readPacket\<close>: the rest of the packet, if there is any.\<close>

definition readPacket_body ::
  "('w, 't) platform \<Rightarrow> 'w \<Rightarrow> ('t, 'h) MQTTClient \<Rightarrow> 't \<Rightarrow> int \<Rightarrow> int \<Rightarrow> (int \<times> 'w \<times> ('t, 'h) MQTTClient) option" where
  "readPacket_body p w c timer len rem_len =
     (if rem_len > 0
      then do {
        let (left, w) = TimerLeftMS p w timer;
        let (n, bs, w) = mqttread p w rem_len left;
        readbuf \<leftarrow> put_bytes (c_readbuf c) (nat len) bs;
        Some (n, w, c\<lparr>c_readbuf := readbuf\<rparr>) }
      else Some (rem_len, w, c))"

definition readPacket ::
  "('w, 't) platform \<Rightarrow> 'w \<Rightarrow> ('t, 'h) MQTTClient \<Rightarrow> 't \<Rightarrow> (int \<times> 'w \<times> ('t, 'h) MQTTClient) option" where
  "readPacket p w c timer = do {
     let (left, w) = TimerLeftMS p w timer;
     let (rc, bs, w) = mqttread p w 1 left;
     readbuf \<leftarrow> put_bytes (c_readbuf c) 0 bs;
     let c = c\<lparr>c_readbuf := readbuf\<rparr>;
     if rc \<noteq> 1 then Some (rc, w, c)
     else do {
       let (left, w) = TimerLeftMS p w timer;
       (_, rem_len, w) \<leftarrow> decodePacket p w left;
       (readbuf, k) \<leftarrow> MQTTPacket_encode (c_readbuf c, 1) rem_len;
       let c = c\<lparr>c_readbuf := readbuf\<rparr>;
       let len = 1 + k;
       if word_of_int rem_len > readbuf_size c - word_of_int len then Some (BUFFER_OVERFLOW, w, c)
       else do {
         (got, w, c) \<leftarrow> readPacket_body p w c timer len rem_len;
         if got \<noteq> rem_len then Some (0, w, c)
         else do {
           (header, _) \<leftarrow> readChar (0, c_readbuf c);
           let rc = uint (header_type header);
           if keepAliveInterval c > 0
           then do {
             let (t, w) = TimerCountdown p w (last_received c) (keepAliveInterval c);
             Some (rc, w, c\<lparr>last_received := t\<rparr>) }
           else Some (rc, w, c) } } } }"

text \<open>A slot is called if it has a filter, which is equal to the topic or matches it, and a handler.\<close>

definition slot_matches :: "MQTTString \<Rightarrow> 'h MessageHandlers \<Rightarrow> bool option" where
  "slot_matches topicName slot =
     (case topicFilter slot of
        None \<Rightarrow> Some False
      | Some f \<Rightarrow> do {
          e \<leftarrow> MQTTPacket_equals topicName f;
          if e then Some True else isTopicMatched f topicName })"

fun deliverMessage_loop ::
  "MQTTString \<Rightarrow> MQTTMessage \<Rightarrow> 'h MessageHandlers list \<Rightarrow> int \<Rightarrow> ('h \<times> MessageData) list
   \<Rightarrow> (int \<times> ('h \<times> MessageData) list) option" where
  "deliverMessage_loop topicName message [] rc calls = Some (rc, calls)"
| "deliverMessage_loop topicName message (slot # slots) rc calls = do {
     m \<leftarrow> slot_matches topicName slot;
     (case (m, fp slot) of
        (True, Some h) \<Rightarrow>
          deliverMessage_loop topicName message slots SUCCESS (calls @ [(h, NewMessageData topicName message)])
      | _ \<Rightarrow> deliverMessage_loop topicName message slots rc calls) }"

definition deliverMessage ::
  "('t, 'h) MQTTClient \<Rightarrow> MQTTString \<Rightarrow> MQTTMessage \<Rightarrow> (int \<times> ('t, 'h) MQTTClient) option" where
  "deliverMessage c topicName message = do {
     (rc, calls) \<leftarrow> deliverMessage_loop topicName message (messageHandlers c) FAILURE (delivered c);
     (case defaultMessageHandler c of
        Some h \<Rightarrow>
          if rc = FAILURE
          then Some (SUCCESS, c\<lparr>delivered := calls @ [(h, NewMessageData topicName message)]\<rparr>)
          else Some (rc, c\<lparr>delivered := calls\<rparr>)
      | None \<Rightarrow> Some (rc, c\<lparr>delivered := calls\<rparr>)) }"

subsection \<open>The session\<close>

definition keepalive ::
  "('w, 't) platform \<Rightarrow> 'w \<Rightarrow> ('t, 'h) MQTTClient \<Rightarrow> (int \<times> 'w \<times> ('t, 'h) MQTTClient) option" where
  "keepalive p w c =
     (if keepAliveInterval c = 0 then Some (SUCCESS, w, c)
      else do {
        let (e, w) = TimerIsExpired p w (last_sent c);
        let (e, w) = (if e then (True, w) else TimerIsExpired p w (last_received c));
        if \<not> e then Some (SUCCESS, w, c)
        else if ping_outstanding c \<noteq> 0 then Some (FAILURE, w, c)
        else do {
          let (timer, w) = TimerInit p w;
          let (timer, w) = TimerCountdownMS p w timer 1000;
          (buf, len) \<leftarrow> MQTTSerialize_pingreq (c_buf c) (int_of_size (buf_size c));
          let c = c\<lparr>c_buf := buf\<rparr>;
          if len > 0
          then do {
            (rc, w, c) \<leftarrow> sendPacket p w c len timer;
            Some (rc, w, if rc = SUCCESS then c\<lparr>ping_outstanding := 1\<rparr> else c) }
          else Some (SUCCESS, w, c) } })"

definition MQTTCleanSession :: "('t, 'h) MQTTClient \<Rightarrow> ('t, 'h) MQTTClient" where
  "MQTTCleanSession c = c\<lparr>messageHandlers := map (\<lambda>s. s\<lparr>topicFilter := None\<rparr>) (messageHandlers c)\<rparr>"

definition MQTTCloseSession :: "('t, 'h) MQTTClient \<Rightarrow> ('t, 'h) MQTTClient" where
  "MQTTCloseSession c =
     (let c = c\<lparr>ping_outstanding := 0, isconnected := 0\<rparr>
      in if cleansession c \<noteq> 0 then MQTTCleanSession c else c)"

text \<open>The cases of the switch in \<open>cycle\<close>: the return code, whether the case leaves by \<open>goto exit\<close>,
  and the state.\<close>

definition cycle_publish ::
  "('w, 't) platform \<Rightarrow> 'w \<Rightarrow> ('t, 'h) MQTTClient \<Rightarrow> 't \<Rightarrow> (int \<times> bool \<times> 'w \<times> ('t, 'h) MQTTClient) option" where
  "cycle_publish p w c timer = do {
     (r, out) \<leftarrow> MQTTDeserialize_publish publish_out_zero (c_readbuf c) (int_of_size (readbuf_size c));
     if r \<noteq> 1 then Some (SUCCESS, True, w, c)
     else do {
       let msg = \<lparr>msg_qos = pub_qos out, msg_retained = pub_retained out, msg_dup = pub_dup out,
                  msg_id = pub_packetid out, msg_payload = pub_payload out,
                  msg_payloadlen = word_of_int (pub_payloadlen out)\<rparr>;
       (_, c) \<leftarrow> deliverMessage c (pub_topicName out) msg;
       if msg_qos msg = 0 then Some (SUCCESS, False, w, c)
       else do {
         (buf, len) \<leftarrow>
           (if msg_qos msg = 1
            then MQTTSerialize_ack (c_buf c) (int_of_size (buf_size c)) (msgType_code PUBACK) 0 (msg_id msg)
            else if msg_qos msg = 2
            then MQTTSerialize_ack (c_buf c) (int_of_size (buf_size c)) (msgType_code PUBREC) 0 (msg_id msg)
            else Some (c_buf c, 0));
         let c = c\<lparr>c_buf := buf\<rparr>;
         (rc, w, c) \<leftarrow> (if len \<le> 0 then Some (FAILURE, w, c) else sendPacket p w c len timer);
         Some (rc, rc = FAILURE, w, c) } } }"

definition cycle_pubrec_pubrel ::
  "('w, 't) platform \<Rightarrow> 'w \<Rightarrow> ('t, 'h) MQTTClient \<Rightarrow> 't \<Rightarrow> int \<Rightarrow> (int \<times> bool \<times> 'w \<times> ('t, 'h) MQTTClient) option" where
  "cycle_pubrec_pubrel p w c timer packet_type = do {
     (r, out) \<leftarrow> MQTTDeserialize_ack \<lparr>ack_packettype = 0, ack_dup = 0, ack_packetid = 0\<rparr>
        (c_readbuf c) (int_of_size (readbuf_size c));
     if r \<noteq> 1 then Some (FAILURE, True, w, c)
     else do {
       (buf, len) \<leftarrow> MQTTSerialize_ack (c_buf c) (int_of_size (buf_size c))
          (if packet_type = 5 then msgType_code PUBREL else msgType_code PUBCOMP) 0 (ack_packetid out);
       let c = c\<lparr>c_buf := buf\<rparr>;
       if len \<le> 0 then Some (FAILURE, True, w, c)
       else do {
         (rc, w, c) \<leftarrow> sendPacket p w c len timer;
         let rc = (if rc \<noteq> SUCCESS then FAILURE else rc);
         Some (rc, rc = FAILURE, w, c) } } }"

definition cycle_dispatch ::
  "('w, 't) platform \<Rightarrow> 'w \<Rightarrow> ('t, 'h) MQTTClient \<Rightarrow> 't \<Rightarrow> int \<Rightarrow> (int \<times> bool \<times> 'w \<times> ('t, 'h) MQTTClient) option" where
  "cycle_dispatch p w c timer packet_type =
     (if packet_type \<in> {0, 2, 4, 9, 11} then Some (SUCCESS, False, w, c)
      else if packet_type = 3 then cycle_publish p w c timer
      else if packet_type = 5 \<or> packet_type = 6 then cycle_pubrec_pubrel p w c timer packet_type
      else if packet_type = 7 then Some (SUCCESS, False, w, c)
      else if packet_type = 13 then Some (SUCCESS, False, w, c\<lparr>ping_outstanding := 0\<rparr>)
      else Some (packet_type, True, w, c))"

definition cycle ::
  "('w, 't) platform \<Rightarrow> 'w \<Rightarrow> ('t, 'h) MQTTClient \<Rightarrow> 't \<Rightarrow> (int \<times> 'w \<times> ('t, 'h) MQTTClient) option" where
  "cycle p w c timer = do {
     (packet_type, w, c) \<leftarrow> readPacket p w c timer;
     (rc, leave, w, c) \<leftarrow> cycle_dispatch p w c timer packet_type;
     (rc, w, c) \<leftarrow>
       (if leave then Some (rc, w, c)
        else do {
          (k, w, c) \<leftarrow> keepalive p w c;
          Some (if k \<noteq> SUCCESS then FAILURE else rc, w, c) });
     if rc = SUCCESS then Some (packet_type, w, c)
     else Some (rc, w, if isconnected c \<noteq> 0 then MQTTCloseSession c else c) }"

partial_function (option) MQTTYield_loop ::
  "('w, 't) platform \<Rightarrow> 'w \<Rightarrow> ('t, 'h) MQTTClient \<Rightarrow> 't \<Rightarrow> (int \<times> 'w \<times> ('t, 'h) MQTTClient) option" where
  "MQTTYield_loop p w c timer =
     Option.bind (cycle p w c timer) (\<lambda>(rc, w, c).
       if rc < 0 then Some (FAILURE, w, c)
       else case TimerIsExpired p w timer of (expired, w) \<Rightarrow>
         if expired then Some (SUCCESS, w, c) else MQTTYield_loop p w c timer)"

declare MQTTYield_loop.simps [code]

definition MQTTYield ::
  "('w, 't) platform \<Rightarrow> 'w \<Rightarrow> ('t, 'h) MQTTClient \<Rightarrow> int \<Rightarrow> (int \<times> 'w \<times> ('t, 'h) MQTTClient) option" where
  "MQTTYield p w c timeout_ms = do {
     let (timer, w) = TimerInit p w;
     let (timer, w) = TimerCountdownMS p w timer (word_of_int timeout_ms);
     MQTTYield_loop p w c timer }"

definition MQTTIsConnected :: "('t, 'h) MQTTClient \<Rightarrow> int" where
  "MQTTIsConnected client = isconnected client"

text \<open>One round of the endless loop of \<open>MQTTRun\<close>.\<close>

definition MQTTRun_round ::
  "('w, 't) platform \<Rightarrow> 'w \<Rightarrow> ('t, 'h) MQTTClient \<Rightarrow> 't \<Rightarrow> ('w \<times> ('t, 'h) MQTTClient \<times> 't) option" where
  "MQTTRun_round p w c timer = do {
     let (timer, w) = TimerCountdownMS p w timer 500;
     (_, w, c) \<leftarrow> cycle p w c timer;
     Some (w, c, timer) }"

partial_function (option) waitfor_loop ::
  "('w, 't) platform \<Rightarrow> 'w \<Rightarrow> ('t, 'h) MQTTClient \<Rightarrow> int \<Rightarrow> 't \<Rightarrow> int \<Rightarrow> (int \<times> 'w \<times> ('t, 'h) MQTTClient) option" where
  "waitfor_loop p w c packet_type timer rc =
     (case TimerIsExpired p w timer of (expired, w) \<Rightarrow>
        if expired then Some (rc, w, c)
        else Option.bind (cycle p w c timer) (\<lambda>(rc, w, c).
          if rc \<noteq> packet_type \<and> rc \<ge> 0 then waitfor_loop p w c packet_type timer rc
          else Some (rc, w, c)))"

declare waitfor_loop.simps [code]

definition waitfor ::
  "('w, 't) platform \<Rightarrow> 'w \<Rightarrow> ('t, 'h) MQTTClient \<Rightarrow> int \<Rightarrow> 't \<Rightarrow> (int \<times> 'w \<times> ('t, 'h) MQTTClient) option" where
  "waitfor p w c packet_type timer = waitfor_loop p w c packet_type timer FAILURE"

subsection \<open>Commands\<close>

definition MQTTConnectWithResults ::
  "('w, 't) platform \<Rightarrow> 'w \<Rightarrow> ('t, 'h) MQTTClient \<Rightarrow> MQTTPacket_connectData option \<Rightarrow> MQTTConnackData
   \<Rightarrow> (int \<times> 'w \<times> ('t, 'h) MQTTClient \<times> MQTTConnackData) option" where
  "MQTTConnectWithResults p w c options data = do {
     (rc, w, c, data) \<leftarrow>
       (if isconnected c \<noteq> 0 then Some (FAILURE, w, c, data)
        else do {
          let (connect_timer, w) = TimerInit p w;
          let (connect_timer, w) = TimerCountdownMS p w connect_timer (command_timeout_ms c);
          let options = (case options of None \<Rightarrow> MQTTPacket_connectData_initializer | Some options \<Rightarrow> options);
          let c = c\<lparr>keepAliveInterval := ucast (cd_keepAliveInterval options),
                     cleansession := uint (cd_cleansession options)\<rparr>;
          let (t, w) = TimerCountdown p w (last_received c) (keepAliveInterval c);
          let c = c\<lparr>last_received := t\<rparr>;
          (buf, len) \<leftarrow> MQTTSerialize_connect (c_buf c) (int_of_size (buf_size c)) options;
          let c = c\<lparr>c_buf := buf\<rparr>;
          if len \<le> 0 then Some (FAILURE, w, c, data)
          else do {
            (rc, w, c) \<leftarrow> sendPacket p w c len connect_timer;
            if rc \<noteq> SUCCESS then Some (rc, w, c, data)
            else do {
              (t, w, c) \<leftarrow> waitfor p w c 2 connect_timer;
              if t = 2
              then do {
                (r, out) \<leftarrow> MQTTDeserialize_connack \<lparr>ca_sessionPresent = 0, ca_connack_rc = 0\<rparr>
                   (c_readbuf c) (int_of_size (readbuf_size c));
                let data = \<lparr>connack_rc = ca_connack_rc out, connack_sessionPresent = ca_sessionPresent out\<rparr>;
                Some (if r = 1 then uint (connack_rc data) else FAILURE, w, c, data) }
              else Some (FAILURE, w, c, data) } } });
     Some (rc, w, if rc = SUCCESS then c\<lparr>isconnected := 1, ping_outstanding := 0\<rparr> else c, data) }"

definition MQTTConnect ::
  "('w, 't) platform \<Rightarrow> 'w \<Rightarrow> ('t, 'h) MQTTClient \<Rightarrow> MQTTPacket_connectData option
   \<Rightarrow> (int \<times> 'w \<times> ('t, 'h) MQTTClient) option" where
  "MQTTConnect p w c options = do {
     (rc, w, c, data) \<leftarrow>
        MQTTConnectWithResults p w c options \<lparr>connack_rc = 0, connack_sessionPresent = 0\<rparr>;
     Some (rc, w, c) }"

text \<open>The index at which a scan of the slots stops: the first slot that satisfies the condition,
  or the number of slots.\<close>

fun scan_slots :: "('s \<Rightarrow> bool) \<Rightarrow> 's list \<Rightarrow> nat" where
  "scan_slots P [] = 0"
| "scan_slots P (s # ss) = (if P s then 0 else Suc (scan_slots P ss))"

definition MQTTSetMessageHandler ::
  "('t, 'h) MQTTClient \<Rightarrow> byte list \<Rightarrow> 'h option \<Rightarrow> int \<times> ('t, 'h) MQTTClient" where
  "MQTTSetMessageHandler c topicf messageHandler =
     (let slots = messageHandlers c;
          i = scan_slots (\<lambda>s. topicFilter s = Some topicf) slots;
          (rc, slots) =
            (if i < length slots
             then (SUCCESS, if messageHandler = None then slots[i := \<lparr>topicFilter = None, fp = None\<rparr>] else slots)
             else (FAILURE, slots))
      in if messageHandler \<noteq> None
         then let (i, rc) =
                    (if rc = FAILURE
                     then let i = scan_slots (\<lambda>s. topicFilter s = None) slots
                          in (i, if i < length slots then SUCCESS else rc)
                     else (i, rc));
                  slots = (if i < length slots
                           then slots[i := \<lparr>topicFilter = Some topicf, fp = messageHandler\<rparr>] else slots)
              in (rc, c\<lparr>messageHandlers := slots\<rparr>)
         else (rc, c\<lparr>messageHandlers := slots\<rparr>))"

definition close_on_failure :: "int \<Rightarrow> ('t, 'h) MQTTClient \<Rightarrow> ('t, 'h) MQTTClient" where
  "close_on_failure rc c = (if rc = FAILURE then MQTTCloseSession c else c)"

definition MQTTSubscribeWithResults ::
  "char_abi \<Rightarrow> ('w, 't) platform \<Rightarrow> 'w \<Rightarrow> ('t, 'h) MQTTClient \<Rightarrow> byte list \<Rightarrow> int \<Rightarrow> 'h option \<Rightarrow> MQTTSubackData
   \<Rightarrow> (int \<times> 'w \<times> ('t, 'h) MQTTClient \<times> MQTTSubackData) option" where
  "MQTTSubscribeWithResults abi p w c topicf qos messageHandler data = do {
     let topic = MQTTString_initializer\<lparr>cstring := Some topicf\<rparr>;
     (rc, w, c, data) \<leftarrow>
       (if isconnected c = 0 then Some (FAILURE, w, c, data)
        else do {
          let (timer, w) = TimerInit p w;
          let (timer, w) = TimerCountdownMS p w timer (command_timeout_ms c);
          let (i, c) = getNextPacketId c;
          (buf, len) \<leftarrow> MQTTSerialize_subscribe (c_buf c) (int_of_size (buf_size c)) 0 (ucast i) 1 [topic] [qos];
          let c = c\<lparr>c_buf := buf\<rparr>;
          if len \<le> 0 then Some (FAILURE, w, c, data)
          else do {
            (rc, w, c) \<leftarrow> sendPacket p w c len timer;
            if rc \<noteq> SUCCESS then Some (rc, w, c, data)
            else do {
              (t, w, c) \<leftarrow> waitfor p w c 9 timer;
              if t = 9
              then do {
                (r, out) \<leftarrow> MQTTDeserialize_suback abi 1 \<lparr>sa_packetid = 0, sa_count = 0, sa_grantedQoSs = [0]\<rparr>
                   (c_readbuf c) (int_of_size (readbuf_size c));
                let data = \<lparr>grantedQoS = hd (sa_grantedQoSs out)\<rparr>;
                if r = 1 \<and> grantedQoS data \<noteq> SUBFAIL
                then do {
                  let (rc, c) = MQTTSetMessageHandler c topicf messageHandler;
                  Some (rc, w, c, data) }
                else Some (rc, w, c, data) }
              else Some (FAILURE, w, c, data) } } });
     Some (rc, w, close_on_failure rc c, data) }"

definition MQTTSubscribe ::
  "char_abi \<Rightarrow> ('w, 't) platform \<Rightarrow> 'w \<Rightarrow> ('t, 'h) MQTTClient \<Rightarrow> byte list \<Rightarrow> int \<Rightarrow> 'h option
   \<Rightarrow> (int \<times> 'w \<times> ('t, 'h) MQTTClient) option" where
  "MQTTSubscribe abi p w c topicf qos messageHandler = do {
     (rc, w, c, data) \<leftarrow> MQTTSubscribeWithResults abi p w c topicf qos messageHandler \<lparr>grantedQoS = 0\<rparr>;
     Some (rc, w, c) }"

definition MQTTUnsubscribe ::
  "('w, 't) platform \<Rightarrow> 'w \<Rightarrow> ('t, 'h) MQTTClient \<Rightarrow> byte list \<Rightarrow> (int \<times> 'w \<times> ('t, 'h) MQTTClient) option" where
  "MQTTUnsubscribe p w c topicf = do {
     let topic = MQTTString_initializer\<lparr>cstring := Some topicf\<rparr>;
     (rc, w, c) \<leftarrow>
       (if isconnected c = 0 then Some (FAILURE, w, c)
        else do {
          let (timer, w) = TimerInit p w;
          let (timer, w) = TimerCountdownMS p w timer (command_timeout_ms c);
          let (i, c) = getNextPacketId c;
          (buf, len) \<leftarrow> MQTTSerialize_unsubscribe (c_buf c) (int_of_size (buf_size c)) 0 (ucast i) 1 [topic];
          let c = c\<lparr>c_buf := buf\<rparr>;
          if len \<le> 0 then Some (FAILURE, w, c)
          else do {
            (rc, w, c) \<leftarrow> sendPacket p w c len timer;
            if rc \<noteq> SUCCESS then Some (rc, w, c)
            else do {
              (t, w, c) \<leftarrow> waitfor p w c 11 timer;
              if t = 11
              then do {
                (r, mypacketid) \<leftarrow> MQTTDeserialize_unsuback 0 (c_readbuf c) (int_of_size (readbuf_size c));
                Some (rc, w, if r = 1 then snd (MQTTSetMessageHandler c topicf None) else c) }
              else Some (FAILURE, w, c) } } });
     Some (rc, w, close_on_failure rc c) }"

text \<open>Waiting for the acknowledgement of a publication: \<open>PUBACK\<close> (4) or \<open>PUBCOMP\<close> (7).\<close>

definition await_ack ::
  "('w, 't) platform \<Rightarrow> 'w \<Rightarrow> ('t, 'h) MQTTClient \<Rightarrow> int \<Rightarrow> 't \<Rightarrow> int \<Rightarrow> (int \<times> 'w \<times> ('t, 'h) MQTTClient) option" where
  "await_ack p w c packet_type timer rc = do {
     (t, w, c) \<leftarrow> waitfor p w c packet_type timer;
     if t = packet_type
     then do {
       (r, out) \<leftarrow> MQTTDeserialize_ack \<lparr>ack_packettype = 0, ack_dup = 0, ack_packetid = 0\<rparr>
          (c_readbuf c) (int_of_size (readbuf_size c));
       Some (if r \<noteq> 1 then FAILURE else rc, w, c) }
     else Some (FAILURE, w, c) }"

text \<open>QoS 1 and 2 take the next packet identifier.\<close>

definition assign_packetid ::
  "('t, 'h) MQTTClient \<Rightarrow> MQTTMessage \<Rightarrow> MQTTMessage \<times> ('t, 'h) MQTTClient" where
  "assign_packetid c message =
     (if msg_qos message = 1 \<or> msg_qos message = 2
      then let (i, c) = getNextPacketId c in (message\<lparr>msg_id := ucast i\<rparr>, c)
      else (message, c))"

definition MQTTPublish ::
  "('w, 't) platform \<Rightarrow> 'w \<Rightarrow> ('t, 'h) MQTTClient \<Rightarrow> byte list \<Rightarrow> MQTTMessage
   \<Rightarrow> (int \<times> 'w \<times> ('t, 'h) MQTTClient \<times> MQTTMessage) option" where
  "MQTTPublish p w c topicName message = do {
     let topic = MQTTString_initializer\<lparr>cstring := Some topicName\<rparr>;
     (rc, w, c, message) \<leftarrow>
       (if isconnected c = 0 then Some (FAILURE, w, c, message)
        else do {
          let (timer, w) = TimerInit p w;
          let (timer, w) = TimerCountdownMS p w timer (command_timeout_ms c);
          let (message, c) = assign_packetid c message;
          (buf, len) \<leftarrow> MQTTSerialize_publish (c_buf c) (int_of_size (buf_size c)) 0 (msg_qos message)
             (msg_retained message) (msg_id message) topic (msg_payload message) (int_of_size (msg_payloadlen message));
          let c = c\<lparr>c_buf := buf\<rparr>;
          if len \<le> 0 then Some (FAILURE, w, c, message)
          else do {
            (rc, w, c) \<leftarrow> sendPacket p w c len timer;
            if rc \<noteq> SUCCESS then Some (rc, w, c, message)
            else do {
              (rc, w, c) \<leftarrow>
                (if msg_qos message = 1 then await_ack p w c 4 timer rc
                 else if msg_qos message = 2 then await_ack p w c 7 timer rc
                 else Some (rc, w, c));
              Some (rc, w, c, message) } } });
     Some (rc, w, close_on_failure rc c, message) }"

definition MQTTDisconnect ::
  "('w, 't) platform \<Rightarrow> 'w \<Rightarrow> ('t, 'h) MQTTClient \<Rightarrow> (int \<times> 'w \<times> ('t, 'h) MQTTClient) option" where
  "MQTTDisconnect p w c = do {
     let (timer, w) = TimerInit p w;
     let (timer, w) = TimerCountdownMS p w timer (command_timeout_ms c);
     (buf, len) \<leftarrow> MQTTSerialize_disconnect (c_buf c) (int_of_size (buf_size c));
     let c = c\<lparr>c_buf := buf\<rparr>;
     (rc, w, c) \<leftarrow> (if len > 0 then sendPacket p w c len timer else Some (FAILURE, w, c));
     Some (rc, w, MQTTCloseSession c) }"

end
