(* ===== verification/MQTT_Session.thy ===== *)
theory MQTT_Session
  imports MQTT_Client
begin

text \<open>
  The client's bookkeeping: packet identifiers, the table of message handlers as a bounded map
  from topic filters to handlers, the delivery of a message to the handlers whose filters match,
  and what closing a session does.
\<close>

subsection \<open>Packet identifiers\<close>

definition packetid_ok :: "('t, 'h) MQTTClient \<Rightarrow> bool" where
  "packetid_ok c \<longleftrightarrow> 1 \<le> uint (next_packetid c) \<and> uint (next_packetid c) \<le> 65535"

definition skip_ids :: "nat \<Rightarrow> ('t, 'h) MQTTClient \<Rightarrow> ('t, 'h) MQTTClient" where
  "skip_ids k = (snd \<circ> getNextPacketId) ^^ k"

lemma getNextPacketId_value:
  assumes "packetid_ok c"
  shows "uint (fst (getNextPacketId c)) = uint (next_packetid c) mod 65535 + 1"
proof -
  let ?n = "uint (next_packetid c)"
  have n: "1 \<le> ?n" "?n \<le> 65535"
    using assms by (simp_all add: packetid_ok_def)
  have "uint (next_packetid c + 1) = ?n + 1"
    using n by (simp add: uint_word_ariths)
  moreover have "next_packetid c = 65535 \<longleftrightarrow> ?n = 65535"
    by (simp add: word_uint_eq_iff)
  ultimately show ?thesis
    using n by (auto simp: getNextPacketId_def Let_def)
qed

lemma getNextPacketId_state: "snd (getNextPacketId c) = c\<lparr>next_packetid := fst (getNextPacketId c)\<rparr>"
  by (simp add: getNextPacketId_def Let_def)

lemma getNextPacketId_ok: "packetid_ok c \<Longrightarrow> packetid_ok (snd (getNextPacketId c))"
  by (simp add: packetid_ok_def getNextPacketId_value getNextPacketId_state)

lemma skip_ids_value:
  assumes "packetid_ok c"
  shows "packetid_ok (skip_ids k c) \<and>
    uint (next_packetid (skip_ids k c)) = (uint (next_packetid c) - 1 + int k) mod 65535 + 1"
proof (induction k)
  case 0
  then show ?case
    using assms by (simp add: skip_ids_def packetid_ok_def)
next
  case (Suc k)
  let ?c = "skip_ids k c" and ?m = "uint (next_packetid c) - 1 + int k"
  have s: "skip_ids (Suc k) c = snd (getNextPacketId ?c)"
    by (simp add: skip_ids_def)
  have "uint (next_packetid (skip_ids (Suc k) c)) = (?m mod 65535 + 1) mod 65535 + 1"
    using Suc by (simp add: s getNextPacketId_state getNextPacketId_value)
  also have "\<dots> = (?m + 1) mod 65535 + 1"
    by (simp add: mod_add_left_eq)
  finally show ?case
    using Suc getNextPacketId_ok [of ?c] by (simp add: s algebra_simps)
qed

subsection \<open>The handler table\<close>

locale handler_table =
  fixes set_handler :: "'s \<Rightarrow> 'k \<Rightarrow> 'v option \<Rightarrow> int \<times> 's"
    and lookup :: "'s \<Rightarrow> 'k \<Rightarrow> 'v option"
    and inv :: "'s \<Rightarrow> bool"
    and full :: "'s \<Rightarrow> bool"
  assumes set_inv: "inv s \<Longrightarrow> inv (snd (set_handler s k u))"
    and set_add: "inv s \<Longrightarrow> \<not> full s \<or> lookup s k \<noteq> None \<Longrightarrow>
      fst (set_handler s k (Some v)) = 0 \<and> lookup (snd (set_handler s k (Some v))) = (lookup s)(k := Some v)"
    and set_full: "inv s \<Longrightarrow> full s \<Longrightarrow> lookup s k = None \<Longrightarrow> set_handler s k (Some v) = (- 1, s)"
    and set_remove: "inv s \<Longrightarrow>
      fst (set_handler s k None) = (if lookup s k = None then - 1 else 0) \<and>
      lookup (snd (set_handler s k None)) = (lookup s)(k := None)"
begin

lemma set_success_lookup:
  assumes "inv s" "set_handler s k v = (0, s')"
  shows "lookup s' = (lookup s)(k := v)"
proof (cases v)
  case None
  then show ?thesis
    using set_remove [OF assms(1), of k] assms(2) by simp
next
  case (Some x)
  then have "\<not> full s \<or> lookup s k \<noteq> None"
    using set_full [OF assms(1), of k x] assms(2) by auto
  then show ?thesis
    using set_add [OF assms(1), of k x] assms(2) Some by simp
qed

lemma set_failure_unchanged:
  assumes "inv s" "set_handler s k v = (rc, s')" "rc \<noteq> 0"
  shows "rc = - 1 \<and> lookup s' = lookup s"
proof (cases v)
  case None
  then show ?thesis
    using set_remove [OF assms(1), of k] assms(2,3) by (auto split: if_splits)
next
  case (Some x)
  then have "full s \<and> lookup s k = None"
    using set_add [OF assms(1), of k x] assms(2,3) by (cases "full s \<and> lookup s k = None") auto
  then show ?thesis
    using set_full [OF assms(1), of k x] assms(2) Some by auto
qed

lemma remove_after_add:
  "inv s \<Longrightarrow> set_handler s k (Some v) = (0, s') \<Longrightarrow> lookup s k = None \<Longrightarrow>
   lookup (snd (set_handler s' k None)) = lookup s"
  using set_success_lookup [of s k "Some v" s'] set_inv [of s k "Some v"] set_remove [of s' k]
  by (auto intro!: ext)

end

text \<open>The model's table: the slots of the client. No filter is registered twice.\<close>

definition slots_ok :: "'h MessageHandlers list \<Rightarrow> bool" where
  "slots_ok slots \<longleftrightarrow>
     (\<forall>i < length slots. \<forall>j < length slots.
        topicFilter (slots ! i) \<noteq> None \<longrightarrow> topicFilter (slots ! i) = topicFilter (slots ! j) \<longrightarrow> i = j) \<and>
     (\<forall>s \<in> set slots. topicFilter s \<noteq> None \<longrightarrow> fp s \<noteq> None)"

definition handler_of :: "'h MessageHandlers list \<Rightarrow> byte list \<Rightarrow> 'h option" where
  "handler_of slots f =
     (let i = scan_slots (\<lambda>s. topicFilter s = Some f) slots
      in if i < length slots then fp (slots ! i) else None)"

definition slots_full :: "'h MessageHandlers list \<Rightarrow> bool" where
  "slots_full slots \<longleftrightarrow> (\<forall>s \<in> set slots. topicFilter s \<noteq> None)"

lemma scan_slots_le: "scan_slots P ss \<le> length ss"
  by (induction ss) auto

lemma scan_slots_found: "scan_slots P ss < length ss \<Longrightarrow> P (ss ! scan_slots P ss)"
  by (induction ss) auto

lemma scan_slots_none: "\<not> scan_slots P ss < length ss \<longleftrightarrow> (\<forall>s \<in> set ss. \<not> P s)"
  by (induction ss) auto

lemma handler_of_iff:
  assumes "slots_ok slots"
  shows "handler_of slots f = Some h \<longleftrightarrow>
    (\<exists>i < length slots. topicFilter (slots ! i) = Some f \<and> fp (slots ! i) = Some h)"
proof
  let ?i = "scan_slots (\<lambda>s. topicFilter s = Some f) slots"
  assume "handler_of slots f = Some h"
  then have "?i < length slots" "fp (slots ! ?i) = Some h"
    by (auto simp: handler_of_def Let_def split: if_splits)
  then show "\<exists>i < length slots. topicFilter (slots ! i) = Some f \<and> fp (slots ! i) = Some h"
    using scan_slots_found [of "\<lambda>s. topicFilter s = Some f" slots] by auto
next
  let ?i = "scan_slots (\<lambda>s. topicFilter s = Some f) slots"
  assume "\<exists>i < length slots. topicFilter (slots ! i) = Some f \<and> fp (slots ! i) = Some h"
  then obtain j where j: "j < length slots" "topicFilter (slots ! j) = Some f" "fp (slots ! j) = Some h"
    by blast
  then have lt: "?i < length slots"
    using scan_slots_none [of "\<lambda>s. topicFilter s = Some f" slots] nth_mem [OF j(1)] by blast
  then have "?i = j"
    using scan_slots_found [OF lt] assms j(1,2) by (auto simp: slots_ok_def)
  then show "handler_of slots f = Some h"
    using j by (simp add: handler_of_def)
qed

lemma handler_of_None:
  assumes "slots_ok slots"
  shows "handler_of slots f = None \<longleftrightarrow> (\<forall>s \<in> set slots. topicFilter s \<noteq> Some f)"
proof -
  have "handler_of slots f = None \<longleftrightarrow> (\<forall>h. handler_of slots f \<noteq> Some h)"
    by (cases "handler_of slots f") auto
  also have "\<dots> \<longleftrightarrow> (\<forall>s \<in> set slots. topicFilter s \<noteq> Some f)"
    using assms by (auto simp: handler_of_iff [OF assms] slots_ok_def in_set_conv_nth all_set_conv_all_nth)
  finally show ?thesis .
qed

lemma slots_okD:
  assumes "slots_ok slots"
  shows "i < length slots \<Longrightarrow> j < length slots \<Longrightarrow> topicFilter (slots ! i) = Some f \<Longrightarrow>
      topicFilter (slots ! j) = Some f \<Longrightarrow> i = j"
    and "i < length slots \<Longrightarrow> topicFilter (slots ! i) = Some f \<Longrightarrow> \<exists>h. fp (slots ! i) = Some h"
proof -
  show "i = j" if "i < length slots" "j < length slots" "topicFilter (slots ! i) = Some f"
      "topicFilter (slots ! j) = Some f"
    using assms that unfolding slots_ok_def by auto
  show "\<exists>h. fp (slots ! i) = Some h" if "i < length slots" "topicFilter (slots ! i) = Some f"
    using assms that unfolding slots_ok_def by (metis nth_mem not_None_eq)
qed

lemma slots_okI:
  assumes "\<And>i j f. i < length slots \<Longrightarrow> j < length slots \<Longrightarrow> topicFilter (slots ! i) = Some f \<Longrightarrow>
      topicFilter (slots ! j) = Some f \<Longrightarrow> i = j"
    and "\<And>i f. i < length slots \<Longrightarrow> topicFilter (slots ! i) = Some f \<Longrightarrow> fp (slots ! i) \<noteq> None"
  shows "slots_ok slots"
  unfolding slots_ok_def all_set_conv_all_nth using assms by (metis not_None_eq)

text \<open>Writing slot \<open>i\<close>, where no other slot has the new filter.\<close>

lemma slots_ok_update:
  assumes "slots_ok slots" "i < length slots"
    and "\<And>j. j < length slots \<Longrightarrow> topicFilter (slots ! j) = Some f \<Longrightarrow> j = i"
    and "topicFilter s = Some f \<and> fp s \<noteq> None \<or> topicFilter s = None"
  shows "slots_ok (slots[i := s])"
proof (rule slots_okI)
  fix a b g
  assume ab: "a < length (slots[i := s])" "b < length (slots[i := s])"
    "topicFilter (slots[i := s] ! a) = Some g" "topicFilter (slots[i := s] ! b) = Some g"
  show "a = b"
  proof (cases "a = i \<or> b = i")
    case True
    then have "g = f" using ab assms(4) by auto
    then show ?thesis
      using True ab assms(3) [of a] assms(3) [of b] by (auto simp: nth_list_update split: if_splits)
  next
    case False
    then show ?thesis
      using ab slots_okD(1) [OF assms(1), of a b g] by simp
  qed
next
  fix a g
  assume a: "a < length (slots[i := s])" "topicFilter (slots[i := s] ! a) = Some g"
  then show "fp (slots[i := s] ! a) \<noteq> None"
    using slots_okD(2) [OF assms(1), of a g] assms(4) by (cases "a = i") auto
qed

lemma handler_of_update:
  assumes "slots_ok slots" "i < length slots"
    and "\<And>j. j < length slots \<Longrightarrow> topicFilter (slots ! j) = Some f \<Longrightarrow> j = i"
    and "topicFilter (slots ! i) = None \<or> topicFilter (slots ! i) = Some f"
    and "topicFilter s = Some f \<and> fp s \<noteq> None \<or> topicFilter s = None \<and> fp s = None"
  shows "handler_of (slots[i := s]) = (handler_of slots)(f := fp s)"
proof
  fix g
  have ok: "slots_ok (slots[i := s])"
    using assms by (intro slots_ok_update) auto
  have "handler_of (slots[i := s]) g = Some h \<longleftrightarrow> ((handler_of slots)(f := fp s)) g = Some h" for h
  proof (cases "g = f")
    case True
    have "handler_of (slots[i := s]) f = Some h \<longleftrightarrow> topicFilter s = Some f \<and> fp s = Some h"
      unfolding handler_of_iff [OF ok] using assms(2) assms(3)
      by (auto simp: nth_list_update split: if_splits)
    then show ?thesis
      using True assms(5) by auto
  next
    case False
    have "handler_of (slots[i := s]) g = Some h \<longleftrightarrow> handler_of slots g = Some h"
      unfolding handler_of_iff [OF ok] handler_of_iff [OF assms(1)]
    proof (rule ex_cong1)
      fix j
      show "j < length (slots[i := s]) \<and> topicFilter (slots[i := s] ! j) = Some g \<and> fp (slots[i := s] ! j) = Some h \<longleftrightarrow>
            j < length slots \<and> topicFilter (slots ! j) = Some g \<and> fp (slots ! j) = Some h"
        using False assms(2,4,5) by (cases "j = i") auto
    qed
    then show ?thesis
      using False by simp
  qed
  then show "handler_of (slots[i := s]) g = ((handler_of slots)(f := fp s)) g"
    by (metis option.exhaust)
qed

lemma free_slot: "\<not> slots_full slots \<longleftrightarrow> scan_slots (\<lambda>s. topicFilter s = None) slots < length slots"
  using scan_slots_none [of "\<lambda>s. topicFilter s = None" slots] by (auto simp: slots_full_def)

text \<open>\<open>MQTTSetMessageHandler\<close> on the slots alone.\<close>

definition set_slot :: "'h MessageHandlers list \<Rightarrow> byte list \<Rightarrow> 'h option \<Rightarrow> int \<times> 'h MessageHandlers list" where
  "set_slot slots f h =
     (let i = scan_slots (\<lambda>s. topicFilter s = Some f) slots;
          j = scan_slots (\<lambda>s. topicFilter s = None) slots
      in if i < length slots then (SUCCESS, slots[i := \<lparr>topicFilter = if h = None then None else Some f, fp = h\<rparr>])
         else if h \<noteq> None \<and> j < length slots then (SUCCESS, slots[j := \<lparr>topicFilter = Some f, fp = h\<rparr>])
         else (FAILURE, slots))"

lemma MQTTSetMessageHandler_slots:
  "MQTTSetMessageHandler c f h =
     (fst (set_slot (messageHandlers c) f h), c\<lparr>messageHandlers := snd (set_slot (messageHandlers c) f h)\<rparr>)"
proof (cases h)
  case None
  then show ?thesis
    by (simp add: MQTTSetMessageHandler_def set_slot_def Let_def)
next
  case (Some x)
  then show ?thesis
    by (cases "scan_slots (\<lambda>s. topicFilter s = Some f) (messageHandlers c) < length (messageHandlers c)")
       (simp_all add: MQTTSetMessageHandler_def set_slot_def Let_def)
qed

lemma registered:
  assumes "slots_ok slots"
  shows "scan_slots (\<lambda>s. topicFilter s = Some f) slots < length slots \<longleftrightarrow> handler_of slots f \<noteq> None"
  using scan_slots_none [of "\<lambda>s. topicFilter s = Some f" slots] handler_of_None [OF assms, of f] by auto

lemma set_slot_cases:
  assumes "slots_ok slots"
  obtains (fail) "set_slot slots f h = (FAILURE, slots)" "handler_of slots f = None" "h = None \<or> slots_full slots"
  | (stored) i s where "set_slot slots f h = (SUCCESS, slots[i := s])" "i < length slots"
      "\<And>j. j < length slots \<Longrightarrow> topicFilter (slots ! j) = Some f \<Longrightarrow> j = i"
      "topicFilter (slots ! i) = None \<or> topicFilter (slots ! i) = Some f"
      "topicFilter s = Some f \<and> fp s \<noteq> None \<or> topicFilter s = None \<and> fp s = None"
      "fp s = h" "handler_of slots f \<noteq> None \<or> h \<noteq> None \<and> \<not> slots_full slots"
proof -
  let ?i = "scan_slots (\<lambda>s. topicFilter s = Some f) slots" and ?j = "scan_slots (\<lambda>s. topicFilter s = None) slots"
  consider "?i < length slots" | "\<not> ?i < length slots" "h \<noteq> None" "?j < length slots"
    | "\<not> ?i < length slots" "h = None \<or> \<not> ?j < length slots"
    by (cases "?i < length slots"; cases "h = None"; cases "?j < length slots") auto
  then show thesis
  proof cases
    case 1
    have f: "topicFilter (slots ! ?i) = Some f"
      using scan_slots_found [OF 1] .
    show thesis
    proof (rule stored)
      show "set_slot slots f h = (SUCCESS, slots[?i := \<lparr>topicFilter = if h = None then None else Some f, fp = h\<rparr>])"
        using 1 by (simp add: set_slot_def Let_def)
      show "j = ?i" if "j < length slots" "topicFilter (slots ! j) = Some f" for j
        using slots_okD(1) [OF assms that(1) 1 that(2) f] .
      show "handler_of slots f \<noteq> None \<or> h \<noteq> None \<and> \<not> slots_full slots"
        using 1 registered [OF assms] by simp
    qed (use 1 f in simp_all)
  next
    case 2
    have f: "topicFilter (slots ! ?j) = None"
      using scan_slots_found [OF 2(3)] .
    have none: "topicFilter (slots ! k) \<noteq> Some f" if "k < length slots" for k
      using 2(1) that nth_mem [OF that] unfolding scan_slots_none by blast
    show thesis
    proof (rule stored)
      show "set_slot slots f h = (SUCCESS, slots[?j := \<lparr>topicFilter = Some f, fp = h\<rparr>])"
        using 2 by (simp add: set_slot_def Let_def)
      show "j = ?j" if "j < length slots" "topicFilter (slots ! j) = Some f" for j
        using none [OF that(1)] that(2) by simp
      show "handler_of slots f \<noteq> None \<or> h \<noteq> None \<and> \<not> slots_full slots"
        using 2 free_slot [of slots] by simp
    qed (use 2 f in simp_all)
  next
    case 3
    show thesis
    proof (rule fail)
      show "set_slot slots f h = (FAILURE, slots)"
        using 3 by (auto simp: set_slot_def Let_def)
      show "handler_of slots f = None"
        using 3(1) registered [OF assms, of f] by simp
      show "h = None \<or> slots_full slots"
        using 3(2) free_slot [of slots] by blast
    qed
  qed
qed

lemma stored_slot:
  assumes "slots_ok slots" "i < length slots"
    and "\<And>j. j < length slots \<Longrightarrow> topicFilter (slots ! j) = Some f \<Longrightarrow> j = i"
    and "topicFilter (slots ! i) = None \<or> topicFilter (slots ! i) = Some f"
    and "topicFilter s = Some f \<and> fp s \<noteq> None \<or> topicFilter s = None \<and> fp s = None"
  shows "slots_ok (slots[i := s]) \<and> handler_of (slots[i := s]) = (handler_of slots)(f := fp s)"
proof
  show "slots_ok (slots[i := s])"
    by (rule slots_ok_update [OF assms(1-3)]) (use assms(5) in auto)
  show "handler_of (slots[i := s]) = (handler_of slots)(f := fp s)"
    by (rule handler_of_update [OF assms])
qed

lemma set_slot_spec:
  assumes "slots_ok slots"
  shows "slots_ok (snd (set_slot slots f h)) \<and>
    (if handler_of slots f \<noteq> None \<or> h \<noteq> None \<and> \<not> slots_full slots
     then fst (set_slot slots f h) = SUCCESS \<and> handler_of (snd (set_slot slots f h)) = (handler_of slots)(f := h)
     else set_slot slots f h = (FAILURE, slots))"
  using assms
proof (cases rule: set_slot_cases [where f = f and h = h])
  case fail
  then show ?thesis using assms by auto
next
  case (stored i s)
  then show ?thesis using stored_slot [OF assms stored(2-5)] by auto
qed

interpretation handlers: handler_table set_slot handler_of slots_ok slots_full
proof (unfold_locales, goal_cases)
  case (1 s k u)
  then show ?case using set_slot_spec [OF 1] by simp
next
  case (2 s k v)
  then show ?case using set_slot_spec [OF 2(1), of k "Some v"] by (auto split: if_splits)
next
  case (3 s k v)
  then show ?case using set_slot_spec [OF 3(1), of k "Some v"] by simp
next
  case (4 s k)
  then show ?case using set_slot_spec [OF 4, of k None] by (simp add: fun_upd_idem split: if_splits)
qed

subsection \<open>Delivery\<close>

definition topic_ok :: "MQTTString \<Rightarrow> bool" where
  "topic_ok t \<longleftrightarrow> cstring t = None \<and> cptr_holds (ls_data (lenstring t)) (ls_len (lenstring t))"

definition topic_bytes :: "MQTTString \<Rightarrow> byte list" where
  "topic_bytes t = cptr_bytes (ls_data (lenstring t)) (ls_len (lenstring t))"

text \<open>Which handler a slot contributes for a topic.\<close>

definition slot_target :: "byte list \<Rightarrow> 'h MessageHandlers \<Rightarrow> 'h option" where
  "slot_target topic slot =
     (case topicFilter slot of
        Some f \<Rightarrow> if topic = f \<or> isTopicMatched_loop f topic then fp slot else None
      | None \<Rightarrow> None)"

definition targets :: "('t, 'h) MQTTClient \<Rightarrow> byte list \<Rightarrow> 'h list" where
  "targets c topic =
     (let hs = List.map_filter (slot_target topic) (messageHandlers c)
      in if hs = [] then (case defaultMessageHandler c of Some h \<Rightarrow> [h] | None \<Rightarrow> []) else hs)"

definition filters_are_cstrings :: "'h MessageHandlers list \<Rightarrow> bool" where
  "filters_are_cstrings slots \<longleftrightarrow> (\<forall>s \<in> set slots. \<forall>f. topicFilter s = Some f \<longrightarrow> 0 \<notin> set f)"

lemma MQTTPacket_equals_topic:
  assumes "topic_ok t" "0 \<notin> set f"
  shows "MQTTPacket_equals t f = Some (topic_bytes t = f)"
proof -
  define n where "n = nat (ls_len (lenstring t))"
  have c: "cstring t = None" "ls_len (lenstring t) = int n"
    using assms(1) by (auto simp: topic_ok_def cptr_holds_def n_def)
  show ?thesis
  proof (cases "ls_data (lenstring t)")
    case None
    then have "n = 0"
      using assms(1) c(2) by (auto simp: topic_ok_def cptr_holds_def)
    then show ?thesis
      using None c by (auto simp: MQTTPacket_equals_def topic_bytes_def cptr_bytes_def)
  next
    case (Some d)
    then have d: "n \<le> length d"
      using assms(1) c(2) by (auto simp: topic_ok_def cptr_holds_def)
    show ?thesis
    proof (cases "n = length f")
      case True
      then have "strncmp_eq d (f @ [0]) n = Some (take n d = take n (f @ [0]))"
        using d assms(2) by (intro strncmp_eq_take) simp_all
      then show ?thesis
        using True Some c d by (simp add: MQTTPacket_equals_def topic_bytes_def cptr_bytes_def)
    next
      case False
      then show ?thesis
        using Some c d by (auto simp: MQTTPacket_equals_def topic_bytes_def cptr_bytes_def)
    qed
  qed
qed

lemma slot_matches_topic:
  assumes "topic_ok t" "\<And>f. topicFilter s = Some f \<Longrightarrow> 0 \<notin> set f"
  shows "slot_matches t s =
    Some (\<exists>f. topicFilter s = Some f \<and> (topic_bytes t = f \<or> isTopicMatched_loop f (topic_bytes t)))"
  using assms
  by (cases "topicFilter s")
     (auto simp: slot_matches_def MQTTPacket_equals_topic isTopicMatched_def topic_bytes_def topic_ok_def Let_def)

lemma deliverMessage_loop_targets:
  assumes "topic_ok t" "filters_are_cstrings slots"
  shows "deliverMessage_loop t m slots rc calls =
    (let hs = List.map_filter (slot_target (topic_bytes t)) slots
     in Some (if hs = [] then rc else SUCCESS, calls @ map (\<lambda>h. (h, NewMessageData t m)) hs))"
  using assms(2)
proof (induction slots arbitrary: rc calls)
  case Nil
  then show ?case by (simp add: List.map_filter_def)
next
  case (Cons s slots)
  have s: "slot_matches t s =
    Some (\<exists>f. topicFilter s = Some f \<and> (topic_bytes t = f \<or> isTopicMatched_loop f (topic_bytes t)))"
    using Cons.prems by (intro slot_matches_topic [OF assms(1)]) (auto simp: filters_are_cstrings_def)
  have IH: "filters_are_cstrings slots"
    using Cons.prems by (simp add: filters_are_cstrings_def)
  show ?case
  proof (cases "slot_target (topic_bytes t) s")
    case None
    then show ?thesis
      using s Cons.IH [OF IH]
      by (auto simp: slot_target_def List.map_filter_def Let_def split: option.splits if_splits bool.splits)
  next
    case (Some h)
    then show ?thesis
      using s Cons.IH [OF IH]
      by (auto simp: slot_target_def List.map_filter_def Let_def split: option.splits if_splits)
  qed
qed

lemma deliverMessage_targets:
  assumes "topic_ok t" "filters_are_cstrings (messageHandlers c)"
  shows "deliverMessage c t m =
    Some (if targets c (topic_bytes t) = [] then FAILURE else SUCCESS,
          c\<lparr>delivered := delivered c @ map (\<lambda>h. (h, NewMessageData t m)) (targets c (topic_bytes t))\<rparr>)"
  by (cases "defaultMessageHandler c")
     (simp_all add: deliverMessage_def deliverMessage_loop_targets [OF assms] targets_def Let_def)

subsection \<open>Properties\<close>

text \<open>Packet identifiers. From the value \<open>MQTTClientInit\<close> sets (or any between 1 and 65535) the
  client hands out identifiers that are never 0, fit into 16 bits, and run through all of 1 to 65535 before one is used
  again: the k-th one is the start advanced by k modulo 65535, so within 65534 further calls none
  comes twice.\<close>

theorem packet_ids_cycle:
  assumes "packetid_ok c"
  shows "packetid_ok (skip_ids k c) \<and>
    uint (next_packetid (skip_ids k c)) = (uint (next_packetid c) - 1 + int k) mod 65535 + 1 \<and>
    uint (ucast (next_packetid (skip_ids k c)) :: u16) = uint (next_packetid (skip_ids k c)) \<and>
    (0 < k \<and> k < 65535 \<longrightarrow> next_packetid (skip_ids k c) \<noteq> next_packetid c)"
proof -
  let ?n = "uint (next_packetid c)" and ?m = "uint (next_packetid (skip_ids k c))"
  have ok: "packetid_ok (skip_ids k c)" and v: "?m = (?n - 1 + int k) mod 65535 + 1"
    using skip_ids_value [OF assms, of k] by blast+
  have n: "1 \<le> ?n" "?n \<le> 65535" and m: "1 \<le> ?m" "?m \<le> 65535"
    using assms ok by (simp_all add: packetid_ok_def)
  have "?m \<noteq> ?n" if k: "0 < k" "k < 65535"
  proof
    assume "?m = ?n"
    then have "(?n - 1 + int k) mod 65535 = (?n - 1) mod 65535"
      using v n by simp
    then have "65535 dvd int k"
      by (metis add.commute add_diff_cancel_right' mod_eq_dvd_iff)
    then show False
      using k by (auto dest: zdvd_imp_le)
  qed
  moreover have "uint (ucast (next_packetid (skip_ids k c)) :: u16) = ?m"
    using m by (simp add: unsigned_ucast_eq take_bit_eq_mod)
  ultimately show ?thesis
    using ok v by auto
qed

definition blank_client :: "(int, nat) MQTTClient" where
  "blank_client = \<lparr>next_packetid = 1, command_timeout_ms = 1000, buf_size = 20, readbuf_size = 20,
     c_buf = replicate 20 0, c_readbuf = replicate 22 0, keepAliveInterval = 0, ping_outstanding = 0,
     isconnected = 1, cleansession = 1,
     messageHandlers = replicate 5 \<lparr>topicFilter = None, fp = None\<rparr>,
     defaultMessageHandler = None, last_sent = 0, last_received = 0, delivered = []\<rparr>"

text \<open>A platform to run the client on: a queue of incoming bytes, which a read waits for until its
  time-out, the bytes written, and a clock in milliseconds that every look at a timer advances.\<close>

record sim_world =
  sim_in :: "byte list"
  sim_out :: "byte list"
  sim_now :: int

definition sim_read :: "sim_world \<Rightarrow> int \<Rightarrow> int \<Rightarrow> int \<times> byte list \<times> sim_world" where
  "sim_read w n t =
     (if n \<le> int (length (sim_in w))
      then (n, take (nat n) (sim_in w), w\<lparr>sim_in := drop (nat n) (sim_in w)\<rparr>)
      else (0, [], w\<lparr>sim_now := sim_now w + max 0 t\<rparr>))"

definition sim_platform :: "(sim_world, int) platform" where
  "sim_platform = \<lparr>
     mqttread = sim_read,
     mqttwrite = (\<lambda>w bs t. (int (length bs), w\<lparr>sim_out := sim_out w @ bs\<rparr>)),
     TimerInit = (\<lambda>w. (0, w)),
     TimerIsExpired = (\<lambda>w t. (t \<le> sim_now w, w\<lparr>sim_now := sim_now w + 1\<rparr>)),
     TimerCountdownMS = (\<lambda>w t ms. (sim_now w + uint ms, w)),
     TimerCountdown = (\<lambda>w t s. (sim_now w + 1000 * uint s, w)),
     TimerLeftMS = (\<lambda>w t. (t - sim_now w, w))\<rparr>"

definition sim_message :: MQTTMessage where
  "sim_message = \<lparr>msg_qos = 1, msg_retained = 0, msg_dup = 0, msg_id = 0, msg_payload = Some [1, 2], msg_payloadlen = 2\<rparr>"

theorem packet_ids_cycle_witness:
  "packetid_ok (skip_ids 60000 blank_client) \<and>
    uint (next_packetid (skip_ids 60000 blank_client)) = (uint (next_packetid blank_client) - 1 + 60000) mod 65535 + 1 \<and>
    next_packetid (skip_ids 60000 blank_client) \<noteq> next_packetid blank_client"
  using packet_ids_cycle [of blank_client 60000] by (simp add: packetid_ok_def blank_client_def)

text \<open>C9: The handler table refines a bounded map from topic filters to handlers. On a table in which
  no filter is registered twice, \<open>MQTTSetMessageHandler\<close> with a handler updates the map at the filter and succeeds,
  unless the filter is new and all slots are taken, when it fails and changes nothing; without a
  handler it removes the filter, and succeeds if it was there. Only the table changes, and no filter is registered twice
  afterwards either.\<close>

theorem handler_table_refines_map:
  assumes "slots_ok (messageHandlers c)" "MQTTSetMessageHandler c f h = (rc, c')"
  shows "slots_ok (messageHandlers c') \<and> c' = c\<lparr>messageHandlers := messageHandlers c'\<rparr> \<and>
    (rc = SUCCESS \<longleftrightarrow> handler_of (messageHandlers c) f \<noteq> None \<or> h \<noteq> None \<and> \<not> slots_full (messageHandlers c)) \<and>
    (rc = SUCCESS \<longrightarrow> handler_of (messageHandlers c') = (handler_of (messageHandlers c))(f := h)) \<and>
    (rc \<noteq> SUCCESS \<longrightarrow> rc = FAILURE \<and> c' = c)"
  using handlers.set_inv [OF assms(1), of f h] set_slot_spec [OF assms(1), of f h] assms(2)
  by (auto simp: MQTTSetMessageHandler_slots split: if_splits)

theorem handler_table_refines_map_witness:
  "let c' = snd (MQTTSetMessageHandler blank_client [97] (Some 3))
   in slots_ok (messageHandlers c') \<and> handler_of (messageHandlers c') [97] = Some 3"
proof -
  have e: "messageHandlers blank_client = replicate 5 \<lparr>topicFilter = None, fp = None\<rparr>"
    by (simp add: blank_client_def)
  have ok: "slots_ok (messageHandlers blank_client)"
    by (rule slots_okI) (simp_all add: e)
  have "\<not> slots_full (messageHandlers blank_client)"
    by (simp add: e slots_full_def)
  then show ?thesis
    using handler_table_refines_map [OF ok surjective_pairing, of "[97]" "Some 3"] by (auto simp: Let_def)
qed

text \<open>Delivery. A message is passed, with its topic, to exactly the handlers of the slots whose filter
  equals or matches the topic, in slot order; if there is none, to the default handler, if there is one. The return
  code is \<open>SUCCESS\<close> exactly if somebody was called, and nothing but the record of calls changes.\<close>

theorem deliver_to_matching_handlers:
  assumes "topic_ok t" "filters_are_cstrings (messageHandlers c)"
  shows "deliverMessage c t m =
    Some (if targets c (topic_bytes t) = [] then FAILURE else SUCCESS,
          c\<lparr>delivered := delivered c @ map (\<lambda>h. (h, NewMessageData t m)) (targets c (topic_bytes t))\<rparr>)"
  using assms by (rule deliverMessage_targets)

theorem deliver_to_matching_handlers_witness:
  "deliverMessage (blank_client\<lparr>messageHandlers := [\<lparr>topicFilter = Some [97, 47, 35], fp = Some 1\<rparr>,
        \<lparr>topicFilter = Some [98], fp = Some 2\<rparr>, \<lparr>topicFilter = Some [43, 47, 98], fp = Some 3\<rparr>]\<rparr>)
      (topic_string [97, 47, 98]) sim_message =
    Some (SUCCESS, blank_client\<lparr>messageHandlers := [\<lparr>topicFilter = Some [97, 47, 35], fp = Some 1\<rparr>,
        \<lparr>topicFilter = Some [98], fp = Some 2\<rparr>, \<lparr>topicFilter = Some [43, 47, 98], fp = Some 3\<rparr>],
      delivered := [(1, NewMessageData (topic_string [97, 47, 98] ) sim_message), (3, NewMessageData (topic_string [97, 47, 98] ) sim_message)]\<rparr>)"
proof -
  have t: "topic_bytes (topic_string [97, 47, 98]) = [97, 47, 98]" "topic_ok (topic_string [97, 47, 98])"
    by (simp_all add: topic_bytes_def topic_ok_def topic_string_def cptr_bytes_def cptr_holds_def)
  show ?thesis
    by (subst deliver_to_matching_handlers)
       (simp_all add: t filters_are_cstrings_def targets_def slot_target_def blank_client_def List.map_filter_def)
qed

text \<open>Without a connection the commands fail and send nothing: publish, subscribe and unsubscribe
  return \<open>FAILURE\<close>, leave the network and the clock alone and take no packet identifier; they close the session, which drops
  all handlers if the session was clean. With a connection, \<open>MQTTConnect\<close> returns \<open>FAILURE\<close> and changes
  nothing.\<close>

theorem commands_need_connection:
  "(isconnected c = 0 \<longrightarrow>
      MQTTPublish p w c topic msg = Some (FAILURE, w, MQTTCloseSession c, msg) \<and>
      MQTTSubscribe abi p w c topic qos h = Some (FAILURE, w, MQTTCloseSession c) \<and>
      MQTTUnsubscribe p w c topic = Some (FAILURE, w, MQTTCloseSession c)) \<and>
   (isconnected c \<noteq> 0 \<longrightarrow> MQTTConnect p w c options = Some (FAILURE, w, c))"
  by (simp add: MQTTPublish_def MQTTSubscribe_def MQTTSubscribeWithResults_def MQTTUnsubscribe_def
      MQTTConnect_def MQTTConnectWithResults_def close_on_failure_def)

theorem commands_need_connection_witness:
  "MQTTPublish sim_platform \<lparr>sim_in = [], sim_out = [], sim_now = 0\<rparr> (blank_client\<lparr>isconnected := 0\<rparr>) [97] sim_message =
     Some (FAILURE, \<lparr>sim_in = [], sim_out = [], sim_now = 0\<rparr>, MQTTCloseSession (blank_client\<lparr>isconnected := 0\<rparr>), sim_message)"
  using commands_need_connection [of "blank_client\<lparr>isconnected := 0\<rparr>" sim_platform "\<lparr>sim_in = [], sim_out = [], sim_now = 0\<rparr>"
      "[97]" sim_message]
  by simp

end
