(* ===== verification/MQTT_Client_Safety.thy ===== *)
theory MQTT_Client_Safety
  imports MQTT_Session
begin

text \<open>
  The client on a platform that keeps its contract: every operation returns (no loop runs
  forever, no access leaves the memory), keeps the invariant of the client structure, writes nothing behind its buffers and lets time only
  advance. The locale \<open>mqtt_platform\<close> is that contract: reads and writes stay within the count
  they are given, and a timer that is found not to have expired runs down. A write may be cut.

  The lists \<open>c_buf\<close> and \<open>c_readbuf\<close> are the memory from the addresses of the two buffers on; the buffers that the application gave are their
  first \<open>buf_size\<close> and \<open>readbuf_size\<close> bytes. Two places of the code read behind them, and what is there to read is a hypothesis of the theorems:
  after a write that was cut \<open>sendPacket\<close> asks for the whole length again (\<open>send_room\<close>), and the deserialiser of PUBLISH takes a packet
  identifier without a check that the packet has one (\<open>publish_cut\<close>, \<open>id_room\<close>).
\<close>

subsection \<open>The invariant\<close>

definition client_inv :: "('t, 'h) MQTTClient \<Rightarrow> bool" where
  "client_inv c \<longleftrightarrow>
     0 \<le> int_of_size (buf_size c) \<and> int_of_size (buf_size c) \<le> int (length (c_buf c)) \<and>
     5 \<le> uint (readbuf_size c) \<and> uint (readbuf_size c) \<le> int (length (c_readbuf c)) \<and>
     packetid_ok c \<and> length (messageHandlers c) = MAX_MESSAGE_HANDLERS \<and>
     slots_ok (messageHandlers c) \<and> filters_are_cstrings (messageHandlers c)"

text \<open>The memory behind the send buffer and behind the read buffer.\<close>

definition behind_buf :: "('t, 'h) MQTTClient \<Rightarrow> byte list" where
  "behind_buf c = drop (nat (int_of_size (buf_size c))) (c_buf c)"

definition behind_readbuf :: "('t, 'h) MQTTClient \<Rightarrow> byte list" where
  "behind_readbuf c = drop (nat (uint (readbuf_size c))) (c_readbuf c)"

text \<open>Either the platform never cuts a write, or the memory behind the send buffer is at least as long as the buffer, less one byte.\<close>

definition whole_writes :: "('w, 't) platform \<Rightarrow> bool" where
  "whole_writes p \<longleftrightarrow> (\<forall>w bs t rc w'. mqttwrite p w bs t = (rc, w') \<longrightarrow> rc \<le> 0 \<or> rc = int (length bs))"

definition send_room :: "('w, 't) platform \<Rightarrow> ('t, 'h) MQTTClient \<Rightarrow> bool" where
  "send_room p c \<longleftrightarrow> whole_writes p \<or> int_of_size (buf_size c) \<le> int (length (behind_buf c)) + 1"

text \<open>A packet of type \<open>t\<close> lies at the start of the memory; \<open>holds_packet\<close> asks for two more bytes behind it.\<close>

definition lies :: "int \<Rightarrow> buffer \<Rightarrow> bool" where
  "lies t buf \<longleftrightarrow>
     (\<exists>h n xs. buf = h # varint n @ xs \<and> n < 268435456 \<and> n \<le> length xs \<and> 2 \<le> length xs \<and> t = uint (header_type h))"

definition holds_packet :: "int \<Rightarrow> buffer \<Rightarrow> bool" where
  "holds_packet t buf \<longleftrightarrow>
     (\<exists>h n xs. buf = h # varint n @ xs \<and> n < 268435456 \<and> n + 2 \<le> length xs \<and> t = uint (header_type h))"

lemma holds_lies: "holds_packet t buf \<Longrightarrow> lies t buf"
  unfolding holds_packet_def lies_def by fastforce

text \<open>A PUBLISH of QoS 1 or higher with a topic behind which there are fewer than two bytes of memory: the packet has no identifier, and it fills
  the memory up to the last byte or the last but one.\<close>

definition publish_cut :: "buffer \<Rightarrow> bool" where
  "publish_cut buf \<longleftrightarrow>
     (\<exists>h n a b ys. buf = h # varint n @ a # b # ys \<and> n < 268435456 \<and> header_qos h \<noteq> 0 \<and>
        256 * uint a + uint b + 2 \<le> int n \<and> int (length ys) < 256 * uint a + uint b + 2)"

text \<open>Either there are two bytes of memory behind the read buffer, or no such packet comes: whatever \<open>readPacket\<close> returns as a PUBLISH is not cut. \<open>R\<close> is the memory behind the read buffer.\<close>

definition id_room :: "('w, 't) platform \<Rightarrow> byte list \<Rightarrow> 'h itself \<Rightarrow> bool" where
  "id_room p R (_ :: 'h itself) \<longleftrightarrow> 2 \<le> length R \<or>
     (\<forall>w (c :: ('t, 'h) MQTTClient) timer w' c'. client_inv c \<and> behind_readbuf c = R \<and> readPacket p w c timer = Some (3, w', c') \<longrightarrow>
        \<not> publish_cut (c_readbuf c'))"

lemma varint_append_inject:
  assumes "varint n @ xs = varint m @ ys" "n < 268435456" "m < 268435456"
  shows "n = m \<and> xs = ys"
proof -
  have "n = m"
    using MQTTPacket_decodeBuf_varint [OF assms(2), of 0 xs] MQTTPacket_decodeBuf_varint [OF assms(3), of 0 ys] assms(1) by simp
  then show ?thesis
    using assms(1) by simp
qed

lemma publish_cut_unidentified:
  assumes "publish_cut (h # varint n @ a # b # ys)" "n < 268435456" "n \<le> 2 + length ys"
  shows "int n < 256 * uint a + uint b + 4"
proof -
  obtain h' n' a' b' ys' where e: "h # varint n @ a # b # ys = h' # varint n' @ a' # b' # ys'" "n' < 268435456"
    "int (length ys') < 256 * uint a' + uint b' + 2"
    using assms(1) unfolding publish_cut_def by blast
  then have "n = n' \<and> a # b # ys = a' # b' # ys'"
    using varint_append_inject [of n "a # b # ys" n' "a' # b' # ys'"] assms(2) by simp
  then show ?thesis
    using assms(3) e(3) by simp
qed

text \<open>Arguments of \<open>MQTTPublish\<close> that make a packet.\<close>

definition publish_args_ok :: "byte list \<Rightarrow> MQTTMessage \<Rightarrow> bool" where
  "publish_args_ok topic msg \<longleftrightarrow>
     publish_ok (0, msg_qos msg, msg_retained msg, msg_id msg, MQTTString_initializer\<lparr>cstring := Some topic\<rparr>,
       msg_payload msg, int_of_size (msg_payloadlen msg))"

lemma slots_ok_clean: "slots_ok (map (\<lambda>s. s\<lparr>topicFilter := None\<rparr>) slots)"
  by (simp add: slots_ok_def)

lemma client_inv_close [simp]: "client_inv c \<Longrightarrow> client_inv (MQTTCloseSession c)"
  by (simp add: MQTTCloseSession_def MQTTCleanSession_def client_inv_def packetid_ok_def Let_def
      slots_ok_clean filters_are_cstrings_def)

lemma close_fields [simp]:
  "c_readbuf (MQTTCloseSession c) = c_readbuf c" "c_buf (MQTTCloseSession c) = c_buf c"
  "readbuf_size (MQTTCloseSession c) = readbuf_size c" "buf_size (MQTTCloseSession c) = buf_size c"
  "isconnected (MQTTCloseSession c) = 0"
  by (simp_all add: MQTTCloseSession_def MQTTCleanSession_def Let_def)

lemma client_inv_update [simp]:
  "client_inv (c\<lparr>last_sent := t\<rparr>) = client_inv c"
  "client_inv (c\<lparr>last_received := t\<rparr>) = client_inv c"
  "client_inv (c\<lparr>ping_outstanding := i\<rparr>) = client_inv c"
  "client_inv (c\<lparr>isconnected := i\<rparr>) = client_inv c"
  "client_inv (c\<lparr>delivered := d\<rparr>) = client_inv c"
  "client_inv (c\<lparr>keepAliveInterval := k\<rparr>) = client_inv c"
  "client_inv (c\<lparr>cleansession := i\<rparr>) = client_inv c"
  by (simp_all add: client_inv_def packetid_ok_def)

lemma client_inv_buf: "client_inv c \<Longrightarrow> length buf = length (c_buf c) \<Longrightarrow> client_inv (c\<lparr>c_buf := buf\<rparr>)"
  by (simp add: client_inv_def packetid_ok_def)

lemma client_inv_readbuf:
  "client_inv c \<Longrightarrow> length buf = length (c_readbuf c) \<Longrightarrow> client_inv (c\<lparr>c_readbuf := buf\<rparr>)"
  by (simp add: client_inv_def packetid_ok_def)

lemma set_slot_frame:
  assumes "filters_are_cstrings slots" "h = None \<or> 0 \<notin> set f"
  shows "filters_are_cstrings (snd (set_slot slots f h)) \<and> length (snd (set_slot slots f h)) = length slots"
proof -
  have "filters_are_cstrings (slots[i := s])" if "topicFilter s = None \<or> topicFilter s = Some f \<and> 0 \<notin> set f" for i s
    using assms(1) that set_update_subset_insert [of slots i s] by (auto simp: filters_are_cstrings_def)
  then show ?thesis
    using assms by (auto simp: set_slot_def Let_def)
qed

lemma client_inv_remove: "client_inv c \<Longrightarrow> client_inv (snd (MQTTSetMessageHandler c f None))"
  using set_slot_spec [of "messageHandlers c" f None] set_slot_frame [of "messageHandlers c" None f]
  by (auto simp: MQTTSetMessageHandler_slots client_inv_def packetid_ok_def)

subsection \<open>Deserialisers on a packet in the buffer\<close>

lemma ack_lies:
  assumes "lies t buf"
  shows "\<exists>r out'. MQTTDeserialize_ack out buf k = Some (r, out')"
proof -
  obtain h n xs where b: "buf = h # varint n @ xs" "n < 268435456" "2 \<le> length xs"
    using assms by (auto simp: lies_def)
  then show ?thesis
    by (simp add: MQTTDeserialize_ack_def Let_def read_simps readInt_cases)
qed

lemma connack_lies:
  assumes "lies t buf"
  shows "\<exists>r out'. MQTTDeserialize_connack out buf k = Some (r, out')"
proof -
  obtain h n xs where b: "buf = h # varint n @ xs" "n < 268435456" "2 \<le> length xs"
    using assms by (auto simp: lies_def)
  then obtain a b ys where "xs = a # b # ys"
    by (cases xs; cases "tl xs") auto
  with b show ?thesis
    by (simp add: MQTTDeserialize_connack_def Let_def read_simps)
qed

lemma unsuback_lies: "lies t buf \<Longrightarrow> \<exists>r i. MQTTDeserialize_unsuback j buf k = Some (r, i)"
  using ack_lies [of t buf "\<lparr>ack_packettype = 0, ack_dup = 0, ack_packetid = j\<rparr>" k]
  by (auto simp: MQTTDeserialize_unsuback_def)

lemma publish_lies:
  assumes "lies t buf" "\<not> publish_cut buf" "cstring (pub_topicName out) = None"
  shows "\<exists>r out'. MQTTDeserialize_publish out buf k = Some (r, out') \<and>
    (r = 1 \<longrightarrow> topic_ok (pub_topicName out'))"
proof -
  obtain h n xs where b: "buf = h # varint n @ xs" "n < 268435456" "n \<le> length xs"
    using assms(1) by (auto simp: lies_def)
  let ?s = "1 + int (length (varint n))"
  obtain rd str cur where r: "readMQTTLenString (pub_topicName out) (?s, xs) (?s + int n) = Some (rd, str, cur)"
    "rd = 0 \<or> topic_ok str \<and> (header_qos h \<noteq> 0 \<longrightarrow> 2 \<le> length (snd cur))"
  proof (cases "n > 1")
    case True
    then obtain a c ys where xs: "xs = a # c # ys"
      using b(3) by (cases xs; cases "tl xs") auto
    define l where "l = nat (256 * uint a + uint c)"
    have l: "256 * uint a + uint c = int l"
      using uint_byte [of a] uint_byte [of c] by (simp add: l_def)
    show thesis
    proof (cases "2 + l \<le> n")
      case fits: True
      have read: "readMQTTLenString (pub_topicName out) (?s, xs) (?s + int n) =
        Some (1, \<lparr>cstring = None, lenstring = \<lparr>ls_len = int l, ls_data = Some ys\<rparr>\<rparr>, ?s + 2 + int l, drop l ys)"
        using True fits by (cases "pub_topicName out")
          (simp add: readMQTTLenString_def xs readInt_def Let_def ptr_add_def l)
      have cut: "publish_cut buf" if "header_qos h \<noteq> 0" "\<not> 2 \<le> length (drop l ys)"
        unfolding publish_cut_def b(1) xs
        by (intro exI [of _ h] exI [of _ n] exI [of _ a] exI [of _ c] exI [of _ ys]) (use that b(2) fits l in simp)
      have "header_qos h \<noteq> 0 \<longrightarrow> 2 \<le> length (drop l ys)"
        using cut assms(2) by blast
      with read show thesis
        using fits b(3) xs by (intro that) (auto simp: topic_ok_def cptr_holds_def)
    next
      case no: False
      have "\<exists>str. readMQTTLenString (pub_topicName out) (?s, xs) (?s + int n) = Some (0, str, ?s + 2, ys)"
        using True no by (simp add: readMQTTLenString_def xs readInt_def Let_def ptr_add_def l)
      then show thesis
        using that by blast
    qed
  next
    case False
    then show thesis
      by (intro that) (auto simp: readMQTTLenString_def)
  qed
  show ?thesis
    using b(1,2) r assms(3)
    by (cases cur) (auto simp: MQTTDeserialize_publish_def Let_def read_simps readInt_cases
        split: if_splits)
qed

lemma holds_not_cut:
  assumes "holds_packet t buf"
  shows "\<not> publish_cut buf"
proof
  assume "publish_cut buf"
  then obtain h n a b ys where c: "buf = h # varint n @ a # b # ys" "n < 268435456" "256 * uint a + uint b + 2 \<le> int n"
    "int (length ys) < 256 * uint a + uint b + 2"
    unfolding publish_cut_def by blast
  obtain h' n' xs where e: "buf = h' # varint n' @ xs" "n' < 268435456" "n' + 2 \<le> length xs"
    using assms by (auto simp: holds_packet_def)
  have "n' = n \<and> xs = a # b # ys"
    using varint_append_inject [of n' xs n "a # b # ys"] c(1,2) e(1,2) by simp
  then show False
    using c(3,4) e(3) by simp
qed

lemmas ack_total = ack_lies [OF holds_lies]
  and connack_total = connack_lies [OF holds_lies]
  and unsuback_total = unsuback_lies [OF holds_lies]
  and publish_total = publish_lies [OF holds_lies holds_not_cut]

text \<open>The comparison of \<open>readPacket\<close> in \<open>size_t\<close> does not wrap around if the buffer has at least five
  bytes.\<close>

lemma readbuf_check:
  assumes "n < 268435456" "5 \<le> uint (rs :: u32)" "k \<le> (4 :: nat)"
  shows "word_of_int (int n) > rs - word_of_int (1 + int k) \<longleftrightarrow> int n > uint rs - (1 + int k)"
proof -
  have k: "uint (word_of_int (1 + int k) :: u32) = 1 + int k"
    unfolding uint_word_of_int using assms(3) by simp
  then have "uint (rs - word_of_int (1 + int k)) = uint rs - (1 + int k)"
    using assms(2,3) uint_sub_lem [of "word_of_int (1 + int k)" rs] by simp
  moreover have "uint (word_of_int (int n) :: u32) = int n"
    unfolding uint_word_of_int using assms(1) by simp
  ultimately show ?thesis
    unfolding word_less_def by (simp only:)
qed

lemma holds_packetI:
  assumes "take (1 + length (varint n)) b = h # varint n" "n < 268435456"
    "1 + length (varint n) + n + 2 \<le> length b"
  shows "holds_packet (uint (header_type h)) b"
proof -
  have "b = h # varint n @ drop (1 + length (varint n)) b"
    using assms(1) append_take_drop_id [of "1 + length (varint n)" b] by simp
  moreover have "n + 2 \<le> length (drop (1 + length (varint n)) b)"
    using assms(3) by simp
  ultimately show ?thesis
    using assms(2) unfolding holds_packet_def by blast
qed

lemma liesI:
  assumes "take (1 + length (varint n)) b = h # varint n" "n < 268435456"
    "1 + length (varint n) + n \<le> length b" "5 \<le> length b"
  shows "lies (uint (header_type h)) b"
proof -
  let ?xs = "drop (1 + length (varint n)) b"
  have "b = h # varint n @ ?xs"
    using assms(1) append_take_drop_id [of "1 + length (varint n)" b] by simp
  moreover have "n \<le> length ?xs"
    using assms(3) by simp
  moreover have "2 \<le> length ?xs"
  proof (cases "n < 2")
    case True
    then show ?thesis using assms(4) by (simp add: varint_small)
  qed (use assms(3) in simp)
  ultimately show ?thesis
    using assms(2) unfolding lies_def by blast
qed

lemma drop_further: "drop k xs = drop k ys \<Longrightarrow> k \<le> j \<Longrightarrow> drop j xs = drop j ys"
  by (metis drop_drop le_add_diff_inverse2)

lemma put_bytes_behind: "put_bytes buf i bs = Some buf' \<Longrightarrow> i + length bs \<le> k \<Longrightarrow> drop k buf' = drop k buf"
  by (auto simp: put_bytes_def split: if_splits)

lemma encode_behind:
  assumes "take 1 buf = [h]" "1 + length (varint n) \<le> length buf" "MQTTPacket_encode (buf, 1) (int n) = Some (buf', k)" "1 + length (varint n) \<le> j"
  shows "drop j buf' = drop j buf"
proof -
  have "buf = [h] @ drop (length [h]) buf"
    using assms(1) append_take_drop_id [of 1 buf] by simp
  then have "MQTTPacket_encode (buf, 1) (int n) = Some (([h] @ varint n) @ drop (length ([h] @ varint n)) buf, int (length (varint n)))"
    using encode_loop_emit [of 1 0 "[h]" buf n] assms(2) by (simp add: MQTTPacket_encode_def)
  moreover have "drop j (xs @ drop (length xs) buf) = drop j buf" if "length xs \<le> j" for xs
    using that by simp
  from this [of "[h] @ varint n"] have "drop j (([h] @ varint n) @ drop (length ([h] @ varint n)) buf) = drop j buf"
    using assms(4) by simp
  ultimately show ?thesis
    using assms(3) by (simp only: option.inject prod.inject)
qed

subsection \<open>The platform\<close>

locale mqtt_platform =
  fixes p :: "('w, 't) platform"
    and ticks :: "'w \<Rightarrow> 't \<Rightarrow> nat"
  assumes read_count: "0 < n \<Longrightarrow> mqttread p w n t = (rc, bs, w') \<Longrightarrow>
      int (length bs) \<le> n \<and> (rc > 0 \<longrightarrow> rc = int (length bs))"
    and write_count: "mqttwrite p w bs t = (rc, w') \<Longrightarrow> rc \<le> int (length bs)"
    and runs_down: "TimerIsExpired p w timer = (False, w') \<Longrightarrow> ticks w' timer < ticks w timer"
    and time_read: "mqttread p w n t = (rc, bs, w') \<Longrightarrow> ticks w' s \<le> ticks w s"
    and time_write: "mqttwrite p w bs t = (rc, w') \<Longrightarrow> ticks w' s \<le> ticks w s"
    and time_init: "TimerInit p w = (timer, w') \<Longrightarrow> ticks w' s \<le> ticks w s"
    and time_expired: "TimerIsExpired p w timer = (e, w') \<Longrightarrow> ticks w' s \<le> ticks w s"
    and time_countdown_ms: "TimerCountdownMS p w timer ms = (timer', w') \<Longrightarrow> ticks w' s \<le> ticks w s"
    and time_countdown: "TimerCountdown p w timer sec = (timer', w') \<Longrightarrow> ticks w' s \<le> ticks w s"
    and time_left: "TimerLeftMS p w timer = (l, w') \<Longrightarrow> ticks w' s \<le> ticks w s"
begin

definition later :: "'w \<Rightarrow> 'w \<Rightarrow> bool" where
  "later w w' \<longleftrightarrow> (\<forall>s. ticks w' s \<le> ticks w s)"

lemma later_refl [simp]: "later w w"
  by (simp add: later_def)

lemma later_trans: "later w w' \<Longrightarrow> later w' w'' \<Longrightarrow> later w w''"
  unfolding later_def by (meson order_trans)

lemma later_ops:
  "mqttread p w n t = (rc, bs, w') \<Longrightarrow> later w w'"
  "mqttwrite p w bs t = (rc, w') \<Longrightarrow> later w w'"
  "TimerInit p w = (timer, w') \<Longrightarrow> later w w'"
  "TimerIsExpired p w timer = (e, w') \<Longrightarrow> later w w'"
  "TimerCountdownMS p w timer ms = (timer', w') \<Longrightarrow> later w w'"
  "TimerCountdown p w timer sec = (timer', w') \<Longrightarrow> later w w'"
  "TimerLeftMS p w timer = (l, w') \<Longrightarrow> later w w'"
  by (simp_all add: later_def time_read time_write time_init time_expired time_countdown_ms time_countdown time_left)

text \<open>The invariant with the bytes \<open>B\<close> behind the send buffer and \<open>R\<close> behind the read buffer.\<close>

definition sound :: "byte list \<Rightarrow> byte list \<Rightarrow> ('t, 'h) MQTTClient \<Rightarrow> bool" where
  "sound B R c \<longleftrightarrow> client_inv c \<and> behind_buf c = B \<and> behind_readbuf c = R \<and>
     (whole_writes p \<or> int_of_size (buf_size c) \<le> int (length B) + 1)"

lemma sound_iff: "sound B R c \<longleftrightarrow> client_inv c \<and> send_room p c \<and> behind_buf c = B \<and> behind_readbuf c = R"
  by (auto simp: sound_def send_room_def)

lemma soundD:
  assumes "sound B R c"
  shows "client_inv c" "send_room p c" "behind_buf c = B" "behind_readbuf c = R"
    "0 \<le> int_of_size (buf_size c)" "int_of_size (buf_size c) \<le> int (length (c_buf c))"
    "5 \<le> uint (readbuf_size c)" "uint (readbuf_size c) \<le> int (length (c_readbuf c))"
  using assms by (simp_all add: sound_iff client_inv_def)

lemma sound_close [simp]: "sound B R c \<Longrightarrow> sound B R (MQTTCloseSession c)"
  by (simp add: sound_def behind_buf_def behind_readbuf_def)

lemma sound_update [simp]:
  "sound B R (c\<lparr>last_sent := t\<rparr>) = sound B R c"
  "sound B R (c\<lparr>last_received := t\<rparr>) = sound B R c"
  "sound B R (c\<lparr>ping_outstanding := i\<rparr>) = sound B R c"
  "sound B R (c\<lparr>isconnected := i\<rparr>) = sound B R c"
  "sound B R (c\<lparr>delivered := d\<rparr>) = sound B R c"
  "sound B R (c\<lparr>keepAliveInterval := k\<rparr>) = sound B R c"
  "sound B R (c\<lparr>cleansession := i\<rparr>) = sound B R c"
  by (simp_all add: sound_def behind_buf_def behind_readbuf_def)

text \<open>What a serialiser does to the send buffer.\<close>

definition serialised :: "('t, 'h) MQTTClient \<Rightarrow> buffer \<Rightarrow> int \<Rightarrow> bool" where
  "serialised c buf len \<longleftrightarrow> length buf = length (c_buf c) \<and> len \<le> int_of_size (buf_size c) \<and>
     drop (nat (int_of_size (buf_size c))) buf = behind_buf c"

lemma serialisedI:
  assumes "sound B R c"
  shows "serialised c (c_buf c) (- 2)"
    and "length buf = length (c_buf c) \<Longrightarrow> 0 \<le> len \<Longrightarrow> len \<le> int_of_size (buf_size c) \<Longrightarrow>
      drop (nat len) buf = drop (nat len) (c_buf c) \<Longrightarrow> serialised c buf len"
proof -
  have "drop (nat k) buf = drop (nat k) (c_buf c)" if "drop (nat len) buf = drop (nat len) (c_buf c)" "len \<le> k" for k
    using arg_cong [OF that(1), of "drop (nat k - nat len)"] that(2) by (simp add: nat_mono)
  then show "length buf = length (c_buf c) \<Longrightarrow> 0 \<le> len \<Longrightarrow> len \<le> int_of_size (buf_size c) \<Longrightarrow>
      drop (nat len) buf = drop (nat len) (c_buf c) \<Longrightarrow> serialised c buf len"
    by (simp add: serialised_def behind_buf_def)
  show "serialised c (c_buf c) (- 2)"
    using soundD(5) [OF assms] by (simp add: serialised_def behind_buf_def)
qed

lemma sound_buf: "sound B R c \<Longrightarrow> serialised c buf len \<Longrightarrow> sound B R (c\<lparr>c_buf := buf\<rparr>)"
  by (simp add: sound_def serialised_def behind_buf_def behind_readbuf_def client_inv_buf)

lemma sound_readbuf:
  "sound B R c \<Longrightarrow> length buf = length (c_readbuf c) \<Longrightarrow> drop (nat (uint (readbuf_size c))) buf = R \<Longrightarrow> sound B R (c\<lparr>c_readbuf := buf\<rparr>)"
  by (simp add: sound_def behind_buf_def behind_readbuf_def client_inv_readbuf)

lemma sound_remove: "sound B R c \<Longrightarrow> sound B R (snd (MQTTSetMessageHandler c f None))"
  using client_inv_remove [of c f]
  by (simp add: sound_def MQTTSetMessageHandler_slots behind_buf_def behind_readbuf_def)

text \<open>The loop of \<open>sendPacket\<close> with \<open>s\<close> bytes sent. Its windows lie in the memory if a first window does and writes are whole, or if there is memory
  for two packets.\<close>

lemma sendPacket_loop_returns:
  assumes "0 < len" "whole_writes p \<or> 2 * len \<le> int (length buf) + 1"
  shows "0 \<le> s \<Longrightarrow> s < len \<longrightarrow> s + len \<le> int (length buf) \<Longrightarrow>
    \<exists>n w'. sendPacket_loop p w buf len timer s = Some (n, w') \<and> later w w'"
proof (induction "ticks w timer" arbitrary: w s rule: less_induct)
  case less
  obtain e w1 where e: "TimerIsExpired p w timer = (e, w1)" by force
  obtain l w2 where l: "TimerLeftMS p w1 timer = (l, w2)" by force
  let ?bs = "take (nat len) (drop (nat s) buf)"
  obtain rc w3 where rc: "mqttwrite p w2 ?bs l = (rc, w3)" by force
  have w1: "later w w1" and w3: "later w w3"
    using later_ops(4) [OF e] later_ops(7) [OF l] later_ops(2) [OF rc] later_trans by blast+
  note step = sendPacket_loop.simps [of p w buf len timer s] e l rc
  show ?case
  proof (cases "s < len \<and> \<not> e \<and> 0 \<le> rc")
    case True
    then have win: "write_window buf s len = Some ?bs" "int (length ?bs) = len"
      using less.prems assms(1) by (simp_all add: write_window_def)
    have whole: "whole_writes p \<Longrightarrow> rc \<le> 0 \<or> rc = len"
      using rc win(2) unfolding whole_writes_def by metis
    have "ticks w3 timer < ticks w timer"
      using runs_down [of w timer w1] e True time_left [OF l, of timer] time_write [OF rc, of timer] by simp
    moreover have "s + rc < len \<longrightarrow> s + rc + len \<le> int (length buf)"
      using assms(2) True less.prems whole by auto
    ultimately obtain n w' where "sendPacket_loop p w3 buf len timer (s + rc) = Some (n, w')" "later w3 w'"
      using less.hyps [of w3 "s + rc"] less.prems True by auto
    then show ?thesis
      using step True win(1) later_trans [OF w3] by auto
  next
    case False
    then show ?thesis
      using step w1 w3 less.prems assms(1) by (auto simp: write_window_def)
  qed
qed

lemma sendPacket_returns:
  assumes "sound B R c" "0 < len" "len \<le> int_of_size (buf_size c)"
  shows "\<exists>rc w' t. sendPacket p w c len timer = Some (rc, w', c\<lparr>last_sent := t\<rparr>) \<and>
    (rc = SUCCESS \<or> rc = FAILURE) \<and> later w w'"
proof -
  have "whole_writes p \<or> 2 * len \<le> int (length (c_buf c)) + 1"
    using soundD(2,5,6) [OF assms(1)] assms(3) by (auto simp: send_room_def behind_buf_def)
  then obtain sent w1 where s: "sendPacket_loop p w (c_buf c) len timer 0 = Some (sent, w1)" "later w w1"
    using sendPacket_loop_returns [of len "c_buf c" 0 w timer] assms soundD(6) [OF assms(1)] by auto
  obtain t w2 where t: "TimerCountdown p w1 (last_sent c) (keepAliveInterval c) = (t, w2)" by force
  show ?thesis
  proof (cases "sent = len")
    case True
    then show ?thesis
      using s t later_trans [OF s(2) later_ops(6) [OF t]] by (auto simp: sendPacket_def)
  next
    case False
    then have "sendPacket p w c len timer = Some (FAILURE, w1, c\<lparr>last_sent := last_sent c\<rparr>)"
      using s by (simp add: sendPacket_def)
    then show ?thesis
      using s(2) by blast
  qed
qed

lemma keepalive_returns:
  assumes "sound B R c"
  shows "\<exists>rc w' c'. keepalive p w c = Some (rc, w', c') \<and> sound B R c' \<and> later w w' \<and>
    c_readbuf c' = c_readbuf c \<and> isconnected c' = isconnected c"
proof (cases "keepAliveInterval c = 0")
  case True
  with assms show ?thesis by (simp add: keepalive_def)
next
  case False
  obtain e1 w1 where e1: "TimerIsExpired p w (last_sent c) = (e1, w1)" by force
  obtain e2 w2 where e2: "(if e1 then (True, w1) else TimerIsExpired p w1 (last_received c)) = (e2, w2)" by force
  have w2: "later w w2"
    using later_ops(4) [OF e1] later_trans [OF later_ops(4) [OF e1] later_ops(4), of "last_received c" e2 w2] e2
    by (auto split: if_splits)
  note start = keepalive_def [of p w c] False e1 e2
  show ?thesis
  proof (cases "e2 \<and> ping_outstanding c = 0")
    case no: False
    with assms w2 show ?thesis
      by (auto simp: start split: if_splits)
  next
    case True
    obtain t3 w3 where t3: "TimerInit p w2 = (t3, w3)" by force
    obtain t4 w4 where t4: "TimerCountdownMS p w3 t3 1000 = (t4, w4)" by force
    have w4: "later w w4"
      using w2 later_ops(3) [OF t3] later_ops(5) [OF t4] later_trans by blast
    obtain buf len where b: "MQTTSerialize_pingreq (c_buf c) (int_of_size (buf_size c)) = Some (buf, len)"
      "serialised c buf len"
      using zero.memory_safe [where a = "msgType_code PINGREQ" and buf = "c_buf c" and buflen = "int_of_size (buf_size c)"]
        soundD(6) [OF assms] by (auto simp: MQTTSerialize_pingreq_def intro: serialisedI [OF assms])
    let ?c = "c\<lparr>c_buf := buf\<rparr>"
    have inv: "sound B R ?c"
      using assms b(2) by (rule sound_buf)
    show ?thesis
    proof (cases "len > 0")
      case len: True
      then obtain rc w5 t where s: "sendPacket p w4 ?c len t4 = Some (rc, w5, ?c\<lparr>last_sent := t\<rparr>)" "later w4 w5"
        using sendPacket_returns [OF inv, of len w4 t4] b(2) by (auto simp: serialised_def)
      then show ?thesis
        using True len t3 t4 b(1) inv later_trans [OF w4 s(2)] by (simp add: start)
    next
      case len: False
      then show ?thesis
        using True t3 t4 b(1) inv w4 by (simp add: start)
    qed
  qed
qed

lemma decodePacket_returns:
  "\<exists>len n w'. decodePacket p w timeout = Some (len, int n, w') \<and> n < 268435456 \<and> later w w'"
proof -
  have "\<exists>len' v' w'. MQTTPacket_decode_loop (\<lambda>w n. Some (mqttread p w n timeout)) w len m v = Some (len', v', w') \<and> later w w'"
    for len m v
  proof (induction "nat (4 - len)" arbitrary: w len m v rule: less_induct)
    case less
    obtain rc bs w1 where r: "mqttread p w 1 timeout = (rc, bs, w1)" by (cases "mqttread p w 1 timeout") auto
    have w1: "later w w1" using later_ops(1) [OF r] .
    have bs: "bs \<noteq> []" if "rc = 1" using read_count [OF _ r] that by auto
    note step = MQTTPacket_decode_loop.simps [of "\<lambda>w n. Some (mqttread p w n timeout)" w len m v]
    show ?case
    proof (cases "len + 1 > 4 \<or> rc \<noteq> 1")
      case True
      then show ?thesis using step r w1 by (auto simp: Let_def)
    next
      case False
      then obtain c cs where c: "bs = c # cs" using bs by (cases bs) auto
      have "nat (4 - (len + 1)) < nat (4 - len)" using False by simp
      then obtain len' v' w' where "MQTTPacket_decode_loop (\<lambda>w n. Some (mqttread p w n timeout)) w1 (len + 1) (m * 128)
          (v + uint (c AND 127) * m) = Some (len', v', w')" "later w1 w'"
        using less by blast
      then show ?thesis
        using step r c False w1 later_trans [OF w1] by (auto simp: Let_def)
    qed
  qed
  then obtain len v w' where d: "decodePacket p w timeout = Some (len, v, w')" "later w w'"
    unfolding decodePacket_def MQTTPacket_decode_def by blast
  then have "0 \<le> v" "v < 268435456"
    using decode_loop_bounds [of "\<lambda>w n. Some (mqttread p w n timeout)" w 0 1 0 len v w']
    by (simp_all add: decodePacket_def MQTTPacket_decode_def)
  then show ?thesis
    using d by (intro exI [of _ len] exI [of _ "nat v"] exI [of _ w']) simp
qed

lemma read_body_returns:
  assumes "1 + length (varint n) + n \<le> length (c_readbuf c)" "take (1 + length (varint n)) (c_readbuf c) = h # varint n"
  shows "\<exists>got w' b. readPacket_body p w c timer (1 + int (length (varint n))) (int n) =
      Some (got, w', c\<lparr>c_readbuf := b\<rparr>) \<and> later w w' \<and>
    length b = length (c_readbuf c) \<and> take (1 + length (varint n)) b = h # varint n \<and>
    drop (1 + length (varint n) + n) b = drop (1 + length (varint n) + n) (c_readbuf c)"
proof (cases "n > 0")
  case True
  obtain l w1 where l: "TimerLeftMS p w timer = (l, w1)" by force
  obtain m bs w2 where r: "mqttread p w1 (int n) l = (m, bs, w2)" by (cases "mqttread p w1 (int n) l") auto
  have bs: "length bs \<le> n"
    using read_count [OF _ r] True by simp
  have w2: "later w w2"
    using later_ops(7) [OF l] later_ops(1) [OF r] later_trans by blast
  have k: "nat (1 + int (length (varint n))) = 1 + length (varint n)"
    by simp
  obtain b' where b': "put_bytes (c_readbuf c) (1 + length (varint n)) bs = Some b'"
    "take (1 + length (varint n) + length bs) b' = (h # varint n) @ bs" "length b' = length (c_readbuf c)"
    using put_bytes_at [of "1 + length (varint n)" "h # varint n" "c_readbuf c" bs] assms bs by auto
  have "take (1 + length (varint n)) b' = h # varint n"
    using arg_cong [OF b'(2), of "take (1 + length (varint n))"] by simp
  then show ?thesis
    using True l r b'(1,3) w2 put_bytes_behind [OF b'(1), of "1 + length (varint n) + n"] bs
    by (intro exI [of _ m] exI [of _ w2] exI [of _ b']) (simp add: readPacket_body_def k)
next
  case False
  then show ?thesis
    using assms by (intro exI [of _ "int n"] exI [of _ w] exI [of _ "c_readbuf c"]) (simp add: readPacket_body_def)
qed

lemma readPacket_returns:
  assumes "sound B R c"
  shows "\<exists>rc w' buf t. readPacket p w c timer = Some (rc, w', c\<lparr>c_readbuf := buf, last_received := t\<rparr>) \<and>
    later w w' \<and> length buf = length (c_readbuf c) \<and> drop (nat (uint (readbuf_size c))) buf = R \<and>
    (rc \<le> 0 \<or> lies rc buf \<and> (2 \<le> length R \<longrightarrow> \<not> publish_cut buf))"
proof -
  have same: "c\<lparr>c_readbuf := b, last_received := last_received c\<rparr> = c\<lparr>c_readbuf := b\<rparr>" for b
    by simp
  note size = soundD(7,8) [OF assms]
  let ?S = "nat (uint (readbuf_size c))"
  have R: "drop ?S (c_readbuf c) = R" "5 \<le> ?S"
    using soundD(4) [OF assms] size(1) unfolding behind_readbuf_def by linarith+
  obtain l1 w1 where l1: "TimerLeftMS p w timer = (l1, w1)" by force
  obtain rc bs w2 where r: "mqttread p w1 1 l1 = (rc, bs, w2)" by (cases "mqttread p w1 1 l1") auto
  have bs: "length bs \<le> 1" "rc > 0 \<Longrightarrow> rc = 1 \<and> length bs = 1"
    using read_count [OF _ r] by (cases bs; auto)+
  have w2: "later w w2"
    using later_ops(7) [OF l1] later_ops(1) [OF r] later_trans by blast
  obtain b1 where b1: "put_bytes (c_readbuf c) 0 bs = Some b1" "take (length bs) b1 = bs" "length b1 = length (c_readbuf c)"
    using put_bytes_at [of 0 "[]" "c_readbuf c" bs] bs(1) size by auto
  have R1: "drop ?S b1 = R"
    using put_bytes_behind [OF b1(1), of ?S] bs(1) R by simp
  note start = readPacket_def [of p w c timer] l1 r b1(1)
  show ?thesis
  proof (cases "rc = 1")
    case False
    then have "rc \<le> 0"
      using bs(2) by (cases "rc > 0") auto
    then show ?thesis
      using False w2 b1(3) R1 by (intro exI [of _ rc] exI [of _ w2] exI [of _ b1] exI [of _ "last_received c"]) (auto simp: start same)
  next
    case True
    then obtain h where h: "bs = [h]"
      using bs(2) by (cases bs) auto
    obtain l2 w3 where l2: "TimerLeftMS p w2 timer = (l2, w3)" by force
    obtain len n w4 where d: "decodePacket p w3 l2 = Some (len, int n, w4)" "n < 268435456" "later w3 w4"
      using decodePacket_returns by blast
    have w4: "later w w4"
      using w2 later_ops(7) [OF l2] d(3) later_trans by blast
    have v: "1 \<le> length (varint n)" "length (varint n) \<le> 4"
      using d(2) by (simp_all add: length_varint)
    obtain b2 where b2: "MQTTPacket_encode (b1, 1) (int n) = Some (b2, int (length (varint n)))"
      "take (1 + length (varint n)) b2 = h # varint n" "length b2 = length (c_readbuf c)"
      using encode_at_1 [of n b1 h] b1 h v size by auto
    have R2: "drop ?S b2 = R"
      using encode_behind [of b1 h n b2 _ ?S] b2(1) b1(2,3) h v size R R1 by simp
    note start2 = start True l2 d(1) b2(1) [unfolded One_nat_def]
    note u = readbuf_check [OF d(2) size(1) v(2)]
    show ?thesis
    proof (cases "int n > uint (readbuf_size c) - (1 + int (length (varint n)))")
      case over: True
      then show ?thesis
        using w4 b2(3) R2 unfolding u [symmetric]
        by (intro exI [of _ "-2"] exI [of _ w4] exI [of _ b2] exI [of _ "last_received c"]) (simp add: start2 same)
    next
      case fits: False
      then have room: "1 + length (varint n) + n \<le> ?S" "?S \<le> length (c_readbuf c)"
        using size(2) by linarith+
      obtain got w5 b3 where body: "readPacket_body p w4 (c\<lparr>c_readbuf := b2\<rparr>) timer (1 + int (length (varint n))) (int n) =
          Some (got, w5, c\<lparr>c_readbuf := b3\<rparr>)"
        and g: "later w w5" "length b3 = length (c_readbuf c)" "take (1 + length (varint n)) b3 = h # varint n"
          "drop (1 + length (varint n) + n) b3 = drop (1 + length (varint n) + n) b2"
        using read_body_returns [of n "c\<lparr>c_readbuf := b2\<rparr>" h w4 timer] room b2 later_trans [OF w4] by auto
      have R3: "drop ?S b3 = R"
        using drop_further [OF g(4) room(1)] R2 by simp
      have nover: "\<not> readbuf_size c - word_of_int (1 + int (length (varint n))) < word_of_int (int n)"
        using fits unfolding u .
      obtain t w6 where t: "TimerCountdown p w5 (last_received c) (keepAliveInterval c) = (t, w6)" by force
      have hd: "readChar (0, b3) = Some (h, 1, tl b3)"
        using g(3) by (intro head_packet) simp
      have "lies (uint (header_type h)) b3"
        by (rule liesI [OF g(3) d(2)]) (use room g(2) R(2) in linarith)+
      moreover have "\<not> publish_cut b3" if "2 \<le> length R"
      proof -
        have "length R = length b3 - ?S"
          using R3 by auto
        then have "holds_packet (uint (header_type h)) b3"
          using that room(1) by (intro holds_packetI [OF g(3) d(2)]) linarith
        then show ?thesis
          by (rule holds_not_cut)
      qed
      ultimately have "lies (uint (header_type h)) b3 \<and> (2 \<le> length R \<longrightarrow> \<not> publish_cut b3)"
        by blast
      note tail = this R3 g(1,2) hd t later_trans [OF g(1) later_ops(6) [OF t]] nover
      show ?thesis
      proof (cases "got = int n \<and> keepAliveInterval c > 0")
        case True
        then show ?thesis
          using tail by (intro exI [of _ "uint (header_type h)"] exI [of _ w6] exI [of _ b3] exI [of _ t])
            (simp add: start2 body)
      next
        case False
        then show ?thesis
          using tail by (intro exI [of _ "if got = int n then uint (header_type h) else 0"] exI [of _ w5]
              exI [of _ b3] exI [of _ "last_received c"]) (auto simp: same start2 body)
      qed
    qed
  qed
qed

text \<open>Serialising an acknowledgement and sending it.\<close>

lemma send_or_fail_returns:
  assumes "sound B R c" "len \<le> int_of_size (buf_size c)"
  shows "\<exists>rc w' t. (if len \<le> 0 then Some (FAILURE, w, c) else sendPacket p w c len timer) =
      Some (rc, w', c\<lparr>last_sent := t\<rparr>) \<and> (rc = SUCCESS \<or> rc = FAILURE) \<and> later w w'"
proof (cases "len \<le> 0")
  case True
  then show ?thesis
    by (intro exI [of _ FAILURE] exI [of _ w] exI [of _ "last_sent c"]) simp
next
  case False
  then show ?thesis
    using sendPacket_returns [OF assms(1), of len w timer] assms(2) by simp
qed

lemma send_ack_returns:
  assumes "sound B R c"
  shows "\<exists>buf len rc w' t. MQTTSerialize_ack (c_buf c) (int_of_size (buf_size c)) ty d i = Some (buf, len) \<and>
    sound B R (c\<lparr>c_buf := buf\<rparr>) \<and>
    (if len \<le> 0 then Some (FAILURE, w, c\<lparr>c_buf := buf\<rparr>) else sendPacket p w (c\<lparr>c_buf := buf\<rparr>) len timer) =
      Some (rc, w', c\<lparr>c_buf := buf, last_sent := t\<rparr>) \<and> (rc = SUCCESS \<or> rc = FAILURE) \<and> later w w'"
proof -
  obtain buf len where b: "MQTTSerialize_ack (c_buf c) (int_of_size (buf_size c)) ty d i = Some (buf, len)"
    "serialised c buf len"
    using ack.memory_safe [where a = "(ty, d, i)" and buf = "c_buf c" and buflen = "int_of_size (buf_size c)"]
      soundD(6) [OF assms] by (auto intro: serialisedI [OF assms])
  then show ?thesis
    using send_or_fail_returns [OF sound_buf [OF assms b(2)], of len w timer] sound_buf [OF assms b(2)] by (simp add: serialised_def)
qed

lemma cycle_publish_returns:
  assumes "sound B R c" "lies t (c_readbuf c)" "\<not> publish_cut (c_readbuf c)"
  shows "\<exists>rc leave w' c'. cycle_publish p w c timer = Some (rc, leave, w', c') \<and> sound B R c' \<and> later w w' \<and>
    c_readbuf c' = c_readbuf c \<and> rc \<le> 0"
proof -
  have z: "cstring (pub_topicName publish_out_zero) = None"
    by (simp add: publish_out_zero_def MQTTString_initializer_def)
  obtain r out where r: "MQTTDeserialize_publish publish_out_zero (c_readbuf c) (int_of_size (readbuf_size c)) = Some (r, out)"
    "r = 1 \<longrightarrow> topic_ok (pub_topicName out)"
    using publish_lies [OF assms(2,3) z] by blast
  show ?thesis
  proof (cases "r = 1")
    case False
    then show ?thesis using r assms(1) by (auto simp: cycle_publish_def)
  next
    case True
    define msg where "msg = \<lparr>msg_qos = pub_qos out, msg_retained = pub_retained out, msg_dup = pub_dup out,
        msg_id = pub_packetid out, msg_payload = pub_payload out, msg_payloadlen = word_of_int (pub_payloadlen out)\<rparr>"
    obtain rd ds where d: "deliverMessage c (pub_topicName out) msg = Some (rd, c\<lparr>delivered := ds\<rparr>)"
      using deliverMessage_targets [of "pub_topicName out" c msg] r(2) True soundD(1) [OF assms(1)] by (auto simp: client_inv_def)
    let ?c = "c\<lparr>delivered := ds\<rparr>"
    have inv: "sound B R ?c" using assms(1) by simp
    have start: "cycle_publish p w c timer =
      (if pub_qos out = 0 then Some (SUCCESS, False, w, ?c)
       else do {
         (buf, len) \<leftarrow>
           (if pub_qos out = 1
            then MQTTSerialize_ack (c_buf c) (int_of_size (buf_size c)) (msgType_code PUBACK) 0 (pub_packetid out)
            else if pub_qos out = 2
            then MQTTSerialize_ack (c_buf c) (int_of_size (buf_size c)) (msgType_code PUBREC) 0 (pub_packetid out)
            else Some (c_buf c, 0));
         let c = ?c\<lparr>c_buf := buf\<rparr>;
         (rc, w, c) \<leftarrow> (if len \<le> 0 then Some (FAILURE, w, c) else sendPacket p w c len timer);
         Some (rc, rc = FAILURE, w, c) })"
      using r(1) True d by (simp add: cycle_publish_def msg_def)
    obtain buf len rc w' t where b: "MQTTSerialize_ack (c_buf c) (int_of_size (buf_size c))
        (msgType_code (if pub_qos out = 1 then PUBACK else PUBREC)) 0 (pub_packetid out) = Some (buf, len)"
      "sound B R (?c\<lparr>c_buf := buf\<rparr>)"
      "(if len \<le> 0 then Some (FAILURE, w, ?c\<lparr>c_buf := buf\<rparr>) else sendPacket p w (?c\<lparr>c_buf := buf\<rparr>) len timer) =
        Some (rc, w', ?c\<lparr>c_buf := buf, last_sent := t\<rparr>)" "rc = SUCCESS \<or> rc = FAILURE" "later w w'"
      using send_ack_returns [OF inv, of "msgType_code (if pub_qos out = 1 then PUBACK else PUBREC)" 0 "pub_packetid out" w timer]
      by auto
    have inv': "sound B R (?c\<lparr>c_buf := buf, last_sent := t\<rparr>)" "rc \<le> 0"
      using b(2,4) by auto
    consider (none) "pub_qos out = 0" | (ack) "pub_qos out = 1 \<or> pub_qos out = 2" | (bad) "pub_qos out \<notin> {0, 1, 2}"
      by blast
    then show ?thesis
    proof cases
      case none
      then have "cycle_publish p w c timer = Some (SUCCESS, False, w, ?c)"
        by (simp add: start)
      then show ?thesis using inv by auto
    next
      case ack
      then have "cycle_publish p w c timer = Some (rc, rc = FAILURE, w', ?c\<lparr>c_buf := buf, last_sent := t\<rparr>)"
        using b(1) by (elim disjE) (simp_all add: start b(3))
      then show ?thesis using inv' b(5) by auto
    next
      case bad
      then have "cycle_publish p w c timer = Some (FAILURE, True, w, ?c)"
        by (simp add: start)
      then show ?thesis using inv by auto
    qed
  qed
qed

lemma cycle_pubrec_pubrel_returns:
  assumes "sound B R c" "lies t (c_readbuf c)"
  shows "\<exists>rc leave w' c'. cycle_pubrec_pubrel p w c timer ty = Some (rc, leave, w', c') \<and> sound B R c' \<and> later w w' \<and>
    c_readbuf c' = c_readbuf c \<and> rc \<le> 0"
proof -
  let ?o = "\<lparr>ack_packettype = 0, ack_dup = 0, ack_packetid = 0\<rparr>"
  obtain r out where r: "MQTTDeserialize_ack ?o (c_readbuf c) (int_of_size (readbuf_size c)) = Some (r, out)"
    using ack_lies [OF assms(2)] by blast
  obtain buf len rc w' t where b: "MQTTSerialize_ack (c_buf c) (int_of_size (buf_size c))
      (if ty = 5 then msgType_code PUBREL else msgType_code PUBCOMP) 0 (ack_packetid out) = Some (buf, len)"
    "sound B R (c\<lparr>c_buf := buf\<rparr>)"
    "(if len \<le> 0 then Some (FAILURE, w, c\<lparr>c_buf := buf\<rparr>) else sendPacket p w (c\<lparr>c_buf := buf\<rparr>) len timer) =
      Some (rc, w', c\<lparr>c_buf := buf, last_sent := t\<rparr>)" "rc = SUCCESS \<or> rc = FAILURE" "later w w'"
    using send_ack_returns [OF assms(1)] by blast
  have inv': "sound B R (c\<lparr>c_buf := buf, last_sent := t\<rparr>)" "rc \<le> 0"
    using b(2,4) by auto
  note start = cycle_pubrec_pubrel_def [of p w c timer ty] r b(1) [simplified]
  consider (bad) "r \<noteq> 1" | (short) "r = 1" "len \<le> 0" | (sent) "r = 1" "\<not> len \<le> 0"
    by blast
  then show ?thesis
  proof cases
    case sent
    then show ?thesis
      using b(3-5) inv' by (auto simp: start)
  qed (use assms(1) b(2) in \<open>auto simp: start\<close>)
qed

lemma cycle_dispatch_returns:
  assumes "sound B R c" "ty \<le> 0 \<or> lies ty (c_readbuf c)" "\<not> (ty = 3 \<and> publish_cut (c_readbuf c))"
  shows "\<exists>rc leave w' c'. cycle_dispatch p w c timer ty = Some (rc, leave, w', c') \<and> sound B R c' \<and> later w w' \<and>
    c_readbuf c' = c_readbuf c \<and> (rc \<le> 0 \<or> rc = ty) \<and> (ty < 0 \<longrightarrow> rc = ty \<and> leave)"
proof (cases "ty = 3 \<or> ty = 5 \<or> ty = 6")
  case True
  then have h: "lies ty (c_readbuf c)"
    using assms(2) by auto
  from True show ?thesis
    using cycle_publish_returns [OF assms(1) h, of w timer] assms(3) cycle_pubrec_pubrel_returns [OF assms(1) h, of w timer ty]
    by (auto simp: cycle_dispatch_def)
next
  case False
  then show ?thesis
    using assms(1) by (auto simp: cycle_dispatch_def)
qed

text \<open>A round, with what it has read. If that is a cut PUBLISH, the round is undefined.\<close>

lemma cycle_round:
  assumes "sound B R c"
  shows "\<exists>ty w1 b t. readPacket p w c timer = Some (ty, w1, c\<lparr>c_readbuf := b, last_received := t\<rparr>) \<and>
    length b = length (c_readbuf c) \<and> drop (nat (uint (readbuf_size c))) b = R \<and>
    (ty \<le> 0 \<or> lies ty b \<and> (2 \<le> length R \<longrightarrow> \<not> publish_cut b)) \<and>
    (\<not> (ty = 3 \<and> publish_cut b) \<longrightarrow> (\<exists>rc w' c'. cycle p w c timer = Some (rc, w', c') \<and> sound B R c' \<and> later w w' \<and>
      (rc \<le> 0 \<or> lies rc (c_readbuf c')) \<and> (rc < 0 \<longrightarrow> isconnected c' = 0)))"
proof -
  obtain ty w1 b t where r: "readPacket p w c timer = Some (ty, w1, c\<lparr>c_readbuf := b, last_received := t\<rparr>)"
    "later w w1" "length b = length (c_readbuf c)" "drop (nat (uint (readbuf_size c))) b = R"
    "ty \<le> 0 \<or> lies ty b \<and> (2 \<le> length R \<longrightarrow> \<not> publish_cut b)"
    using readPacket_returns [OF assms, of w timer] by blast
  let ?c = "c\<lparr>c_readbuf := b, last_received := t\<rparr>"
  have inv: "sound B R ?c"
    using sound_readbuf [OF assms r(3,4)] by simp
  have "\<exists>rc w' c'. cycle p w c timer = Some (rc, w', c') \<and> sound B R c' \<and> later w w' \<and>
      (rc \<le> 0 \<or> lies rc (c_readbuf c')) \<and> (rc < 0 \<longrightarrow> isconnected c' = 0)" if "\<not> (ty = 3 \<and> publish_cut b)"
  proof -
    have "ty \<le> 0 \<or> lies ty (c_readbuf ?c)" "\<not> (ty = 3 \<and> publish_cut (c_readbuf ?c))"
      using r(5) that by auto
    then obtain rc leave w2 c2 where d: "cycle_dispatch p w1 ?c timer ty = Some (rc, leave, w2, c2)" "sound B R c2" "later w1 w2"
      "c_readbuf c2 = b" "rc \<le> 0 \<or> rc = ty" "ty < 0 \<longrightarrow> rc = ty \<and> leave"
      using cycle_dispatch_returns [OF inv, of ty w1 timer] by auto
    obtain k w3 c3 where k: "keepalive p w2 c2 = Some (k, w3, c3)" "sound B R c3" "later w2 w3" "c_readbuf c3 = b"
      using keepalive_returns [OF d(2), of w2] d(4) by auto
    have w2: "later w w2" and w3: "later w w3"
      using later_trans r(2) d(3) k(3) by blast+
    note start = cycle_def [of p w c timer] r(1) d(1) k(1)
    show ?thesis
    proof (cases leave)
      case True
      then show ?thesis
        using r(5) d(2,4,5,6) w2 by (auto simp: start)
    next
      case False
      then show ?thesis
        using r(5) d(5,6) k(2,4) w3 by (auto simp: start)
    qed
  qed
  then show ?thesis
    using r(1,3-5) by blast
qed

lemma cycle_returns:
  assumes "sound B R (c :: ('t, 'h) MQTTClient)" "id_room p R TYPE('h)"
  shows "\<exists>rc w' c'. cycle p w c timer = Some (rc, w', c') \<and> sound B R c' \<and> later w w' \<and>
    (rc \<le> 0 \<or> lies rc (c_readbuf c')) \<and> (rc < 0 \<longrightarrow> isconnected c' = 0)"
proof -
  obtain ty w1 b t where r: "readPacket p w c timer = Some (ty, w1, c\<lparr>c_readbuf := b, last_received := t\<rparr>)"
    "length b = length (c_readbuf c)" "drop (nat (uint (readbuf_size c))) b = R" "ty \<le> 0 \<or> lies ty b \<and> (2 \<le> length R \<longrightarrow> \<not> publish_cut b)"
    "\<not> (ty = 3 \<and> publish_cut b) \<longrightarrow> (\<exists>rc w' c'. cycle p w c timer = Some (rc, w', c') \<and> sound B R c' \<and> later w w' \<and>
      (rc \<le> 0 \<or> lies rc (c_readbuf c')) \<and> (rc < 0 \<longrightarrow> isconnected c' = 0))"
    using cycle_round [OF assms(1), of w timer] by blast
  have "\<not> publish_cut b" if "ty = 3"
    using assms(2) r(1,4) that soundD(1,4) [OF assms(1)] unfolding id_room_def by force
  then show ?thesis
    using r(5) by blast
qed

lemma waitfor_loop_returns:
  assumes "sound B R (c :: ('t, 'h) MQTTClient)" "rc0 \<le> 0 \<or> rc0 \<noteq> ty" "0 < ty" "id_room p R TYPE('h)"
  shows "\<exists>rc w' c'. waitfor_loop p w c ty timer rc0 = Some (rc, w', c') \<and> sound B R c' \<and> later w w' \<and>
    (rc = ty \<longrightarrow> lies ty (c_readbuf c'))"
  using assms(1,2)
proof (induction "ticks w timer" arbitrary: w c rc0 rule: less_induct)
  case less
  obtain e w1 where e: "TimerIsExpired p w timer = (e, w1)" by force
  note w1 = later_ops(4) [OF e]
  note step = waitfor_loop.simps [of p w c ty timer rc0] e
  show ?case
  proof (cases e)
    case True
    then show ?thesis
      using less.prems assms(3) w1 by (auto simp: step)
  next
    case False
    obtain rc w2 c2 where cy: "cycle p w1 c timer = Some (rc, w2, c2)" "sound B R c2" "later w1 w2"
      "rc \<le> 0 \<or> lies rc (c_readbuf c2)"
      using cycle_returns [OF less.prems(1) assms(4), of w1 timer] by blast
    have w2: "later w w2" using later_trans [OF w1 cy(3)] .
    show ?thesis
    proof (cases "rc \<noteq> ty \<and> rc \<ge> 0")
      case True
      have "ticks w2 timer < ticks w timer"
        using runs_down e False cy(3) by (fastforce simp: later_def intro: le_less_trans)
      then obtain r w' c' where "waitfor_loop p w2 c2 ty timer rc = Some (r, w', c')" "sound B R c'" "later w2 w'"
        "r = ty \<longrightarrow> lies ty (c_readbuf c')"
        using less.hyps [of w2 c2 rc] cy(2) True by blast
      then show ?thesis
        using True False cy(1) later_trans [OF w2] by (auto simp: step)
    next
      case over: False
      then show ?thesis
        using False cy w2 assms(3) by (auto simp: step)
    qed
  qed
qed

lemma waitfor_returns:
  assumes "sound B R (c :: ('t, 'h) MQTTClient)" "0 < ty" "id_room p R TYPE('h)"
  shows "\<exists>rc w' c'. waitfor p w c ty timer = Some (rc, w', c') \<and> sound B R c' \<and> later w w' \<and>
    (rc = ty \<longrightarrow> lies ty (c_readbuf c'))"
  unfolding waitfor_def using waitfor_loop_returns [OF assms(1) _ assms(2,3)] by simp

lemma MQTTYield_loop_returns:
  assumes "sound B R (c :: ('t, 'h) MQTTClient)" "id_room p R TYPE('h)"
  shows "\<exists>rc w' c'. MQTTYield_loop p w c timer = Some (rc, w', c') \<and> sound B R c' \<and> later w w' \<and>
    (rc = SUCCESS \<or> rc = FAILURE \<and> isconnected c' = 0)"
  using assms(1)
proof (induction "ticks w timer" arbitrary: w c rule: less_induct)
  case less
  obtain rc w1 c1 where cy: "cycle p w c timer = Some (rc, w1, c1)" "sound B R c1" "later w w1"
    "rc < 0 \<longrightarrow> isconnected c1 = 0"
    using cycle_returns [OF less.prems assms(2), of w timer] by blast
  obtain e w2 where e: "TimerIsExpired p w1 timer = (e, w2)" by force
  have w2: "later w w2" using later_trans [OF cy(3) later_ops(4) [OF e]] .
  note step = MQTTYield_loop.simps [of p w c timer] cy(1) e
  show ?case
  proof (cases "rc < 0 \<or> e")
    case True
    then show ?thesis using cy(2,3,4) w2 by (auto simp: step)
  next
    case False
    have "ticks w2 timer < ticks w timer"
      using runs_down e False cy(3) by (fastforce simp: later_def intro: less_le_trans)
    then obtain r w' c' where "MQTTYield_loop p w2 c1 timer = Some (r, w', c')" "sound B R c'" "later w2 w'"
        "r = SUCCESS \<or> r = FAILURE \<and> isconnected c' = 0"
      using less.hyps [of w2 c1] cy(2) by blast
    then show ?thesis
      using False later_trans [OF w2] by (auto simp: step)
  qed
qed

lemma start_timer:
  "\<exists>t w1 t' w2. TimerInit p w = (t, w1) \<and> TimerCountdownMS p w1 t ms = (t', w2) \<and> later w w2"
proof -
  obtain t w1 where t: "TimerInit p w = (t, w1)" by force
  obtain t' w2 where t': "TimerCountdownMS p w1 t ms = (t', w2)" by force
  show ?thesis
    using t t' later_trans [OF later_ops(3) [OF t] later_ops(5) [OF t']] by blast
qed

lemma MQTTYield_returns:
  assumes "sound B R (c :: ('t, 'h) MQTTClient)" "id_room p R TYPE('h)"
  shows "\<exists>rc w' c'. MQTTYield p w c ms = Some (rc, w', c') \<and> sound B R c' \<and>
    (rc = SUCCESS \<or> rc = FAILURE \<and> isconnected c' = 0)"
proof -
  obtain t w1 t' w2 where "TimerInit p w = (t, w1)" "TimerCountdownMS p w1 t (word_of_int ms) = (t', w2)"
    using start_timer by blast
  then show ?thesis
    using MQTTYield_loop_returns [OF assms, of w2 t'] by (auto simp: MQTTYield_def)
qed

lemma await_ack_returns:
  assumes "sound B R (c :: ('t, 'h) MQTTClient)" "0 < ty" "rc = SUCCESS" "id_room p R TYPE('h)"
  shows "\<exists>rc' w' c'. await_ack p w c ty timer rc = Some (rc', w', c') \<and> sound B R c' \<and>
    (rc' = SUCCESS \<or> rc' = FAILURE)"
proof -
  obtain r w' c' where r: "waitfor p w c ty timer = Some (r, w', c')" "sound B R c'"
    "r = ty \<longrightarrow> lies ty (c_readbuf c')"
    using waitfor_returns [OF assms(1,2,4), of w timer] by blast
  show ?thesis
  proof (cases "r = ty")
    case True
    then obtain q out where "MQTTDeserialize_ack \<lparr>ack_packettype = 0, ack_dup = 0, ack_packetid = 0\<rparr>
        (c_readbuf c') (int_of_size (readbuf_size c')) = Some (q, out)"
      using ack_lies r(3) by blast
    then show ?thesis
      using True r(1,2) assms(3) by (simp add: await_ack_def)
  next
    case False
    then show ?thesis
      using r(1,2) by (simp add: await_ack_def)
  qed
qed

text \<open>Sending a request of \<open>len\<close> bytes that lie in the send buffer.\<close>

lemma request_returns:
  assumes "sound B R c" "0 < len" "len \<le> int_of_size (buf_size c)"
  shows "\<exists>rc w' c'. sendPacket p w c len timer = Some (rc, w', c') \<and> sound B R c' \<and>
    isconnected c' = isconnected c \<and> (rc = SUCCESS \<or> rc = FAILURE) \<and> later w w'"
proof -
  obtain rc w' t where "sendPacket p w c len timer = Some (rc, w', c\<lparr>last_sent := t\<rparr>)"
    "rc = SUCCESS \<or> rc = FAILURE" "later w w'"
    using sendPacket_returns [OF assms, of w timer] by auto
  then show ?thesis
    using assms(1) by simp
qed

lemma sound_next_id:
  assumes "sound B R c" "getNextPacketId c = (i, c')"
  shows "sound B R c'" "c_buf c' = c_buf c" "buf_size c' = buf_size c" "isconnected c' = isconnected c"
proof -
  have c': "c' = c\<lparr>next_packetid := i\<rparr>"
    using assms(2) getNextPacketId_state [of c] by simp
  have "packetid_ok c'"
    using getNextPacketId_ok [of c] assms(2) soundD(1) [OF assms(1)] by (simp add: client_inv_def)
  then show "sound B R c'" "c_buf c' = c_buf c" "buf_size c' = buf_size c" "isconnected c' = isconnected c"
    using assms(1) by (simp_all add: c' sound_def client_inv_def behind_buf_def behind_readbuf_def)
qed

lemma MQTTDisconnect_returns:
  assumes "sound B R c"
  shows "\<exists>rc w' c'. MQTTDisconnect p w c = Some (rc, w', c') \<and> sound B R c' \<and> isconnected c' = 0"
proof -
  obtain t w1 t' w2 where t: "TimerInit p w = (t, w1)" "TimerCountdownMS p w1 t (command_timeout_ms c) = (t', w2)"
    using start_timer by blast
  obtain buf len where b: "MQTTSerialize_disconnect (c_buf c) (int_of_size (buf_size c)) = Some (buf, len)"
    "serialised c buf len"
    using zero.memory_safe [where a = "msgType_code DISCONNECT" and buf = "c_buf c" and buflen = "int_of_size (buf_size c)"]
      soundD(6) [OF assms] by (auto simp: MQTTSerialize_disconnect_def intro: serialisedI [OF assms])
  let ?c = "c\<lparr>c_buf := buf\<rparr>"
  have inv: "sound B R ?c"
    by (rule sound_buf [OF assms b(2)])
  show ?thesis
  proof (cases "len > 0")
    case True
    then obtain rc w' c' where "sendPacket p w2 ?c len t' = Some (rc, w', c')" "sound B R c'"
      using request_returns [OF inv True] b(2) by (force simp: serialised_def)
    then show ?thesis
      using t b(1) True by (simp add: MQTTDisconnect_def)
  next
    case False
    then show ?thesis
      using t b(1) inv by (simp add: MQTTDisconnect_def)
  qed
qed

lemma MQTTPublish_returns:
  assumes "sound B R (c :: ('t, 'h) MQTTClient)" "publish_args_ok topic msg" "id_room p R TYPE('h)"
  shows "\<exists>rc w' c' msg'. MQTTPublish p w c topic msg = Some (rc, w', c', msg') \<and> sound B R c' \<and>
    (rc = SUCCESS \<or> rc = FAILURE \<and> isconnected c' = 0)"
proof (cases "isconnected c = 0")
  case True
  then show ?thesis
    using assms(1) by (simp add: MQTTPublish_def close_on_failure_def)
next
  case False
  let ?topic = "MQTTString_initializer\<lparr>cstring := Some topic\<rparr>"
  obtain t w1 t' w2 where t: "TimerInit p w = (t, w1)" "TimerCountdownMS p w1 t (command_timeout_ms c) = (t', w2)"
    using start_timer by blast
  obtain m c1 where m: "assign_packetid c msg = (m, c1)" by force
  obtain i c0 where ic: "getNextPacketId c = (i, c0)" by force
  have c1: "sound B R c1" "c_buf c1 = c_buf c" "buf_size c1 = buf_size c" "msg_qos m = msg_qos msg" "publish_args_ok topic m"
    using m sound_next_id [OF assms(1) ic] assms ic
    by (auto simp: publish_args_ok_def assign_packetid_def split: if_splits)
  obtain buf len where b: "MQTTSerialize_publish (c_buf c) (int_of_size (buf_size c)) 0 (msg_qos msg) (msg_retained m)
      (msg_id m) ?topic (msg_payload m) (int_of_size (msg_payloadlen m)) = Some (buf, len)"
    "serialised c buf len"
    using publish.memory_safe [OF c1(5) [unfolded publish_args_ok_def], of "int_of_size (buf_size c)" "c_buf c"] c1(4) soundD(6) [OF assms(1)]
    by (auto intro: serialisedI [OF assms(1)])
  let ?c = "c1\<lparr>c_buf := buf\<rparr>"
  have inv: "sound B R ?c"
    by (rule sound_buf [OF c1(1), where len = len]) (use b(2) c1(2,3) in \<open>simp add: serialised_def behind_buf_def\<close>)
  note start = MQTTPublish_def [of p w c topic msg] False t m c1(2,3,4)
  show ?thesis
  proof (cases "len > 0")
    case no: False
    then show ?thesis
      using inv b(1) by (simp add: start close_on_failure_def)
  next
    case True
    have le: "len \<le> int_of_size (buf_size ?c)"
      using b(2) c1(3) by (simp add: serialised_def)
    obtain rc w3 c3 where s: "sendPacket p w2 ?c len t' = Some (rc, w3, c3)" "sound B R c3" "rc = SUCCESS \<or> rc = FAILURE"
      using request_returns [OF inv True le, of w2 t'] by blast
    have pos: "0 < (if msg_qos msg = 1 then 4 else 7 :: int)"
      by simp
    obtain rc' w4 c4 where a: "await_ack p w3 c3 (if msg_qos msg = 1 then 4 else 7) t' SUCCESS = Some (rc', w4, c4)"
      "sound B R c4" "rc' = SUCCESS \<or> rc' = FAILURE"
      using await_ack_returns [OF s(2) pos refl assms(3)] by blast
    consider "rc = FAILURE" | "rc = SUCCESS" "msg_qos msg = 1" | "rc = SUCCESS" "msg_qos msg = 2"
      | "rc = SUCCESS" "msg_qos msg \<noteq> 1" "msg_qos msg \<noteq> 2"
      using s(3) by blast
    then show ?thesis
      by cases (use True s(1,2) a b(1) in \<open>auto simp: start close_on_failure_def\<close>)
  qed
qed

lemma MQTTUnsubscribe_returns:
  assumes "sound B R (c :: ('t, 'h) MQTTClient)" "length topic < 65536" "id_room p R TYPE('h)"
  shows "\<exists>rc w' c'. MQTTUnsubscribe p w c topic = Some (rc, w', c') \<and> sound B R c' \<and>
    (rc = SUCCESS \<or> rc = FAILURE \<and> isconnected c' = 0)"
proof (cases "isconnected c = 0")
  case True
  then show ?thesis
    using assms(1) by (simp add: MQTTUnsubscribe_def close_on_failure_def)
next
  case False
  let ?topic = "MQTTString_initializer\<lparr>cstring := Some topic\<rparr>"
  obtain t w1 t' w2 where t: "TimerInit p w = (t, w1)" "TimerCountdownMS p w1 t (command_timeout_ms c) = (t', w2)"
    using start_timer by blast
  obtain i c1 where ic: "getNextPacketId c = (i, c1)" by force
  note c1 = sound_next_id [OF assms(1) ic]
  have ok: "unsubscribe_ok (0, ucast i, 1, [?topic])"
    using assms(2) by (simp add: filters_ok_def MQTTString_ok_def MQTTString_bytes_def MQTTString_initializer_def)
  obtain buf len where b: "MQTTSerialize_unsubscribe (c_buf c) (int_of_size (buf_size c)) 0 (ucast i) 1 [?topic] = Some (buf, len)"
    "serialised c buf len"
    using unsubscribe.memory_safe [where a = "(0, ucast i, 1, [?topic])" and ts_old = "[?topic]"
        and buflen = "int_of_size (buf_size c)" and buf = "c_buf c"] ok soundD(6) [OF assms(1)]
    by (auto intro: serialisedI [OF assms(1)] simp del: unsubscribe_ok.simps)
  let ?c = "c1\<lparr>c_buf := buf\<rparr>"
  have inv: "sound B R ?c"
    by (rule sound_buf [OF c1(1), where len = len]) (use b(2) c1(2,3) in \<open>simp add: serialised_def behind_buf_def\<close>)
  note start = MQTTUnsubscribe_def [of p w c topic] False t ic c1(2,3) b(1)
  show ?thesis
  proof (cases "len > 0")
    case no: False
    then show ?thesis
      using inv by (simp add: start close_on_failure_def)
  next
    case True
    have le: "len \<le> int_of_size (buf_size ?c)"
      using b(2) c1(3) by (simp add: serialised_def)
    obtain rc w3 c3 where s: "sendPacket p w2 ?c len t' = Some (rc, w3, c3)" "sound B R c3" "rc = SUCCESS \<or> rc = FAILURE"
      using request_returns [OF inv True le, of w2 t'] by blast
    obtain ty w4 c4 where a: "waitfor p w3 c3 11 t' = Some (ty, w4, c4)" "sound B R c4"
      "ty = 11 \<longrightarrow> lies 11 (c_readbuf c4)"
      using waitfor_returns [OF s(2) _ assms(3), of 11 w3 t'] by auto
    have removed: "sound B R (snd (MQTTSetMessageHandler c4 topic None))"
      using a(2) by (rule sound_remove)
    show ?thesis
    proof (cases "ty = 11")
      case eleven: True
      obtain r j where "MQTTDeserialize_unsuback 0 (c_readbuf c4) (int_of_size (readbuf_size c4)) = Some (r, j)"
        using unsuback_lies a(3) eleven by blast
      then show ?thesis
        using True s a(1,2) eleven removed by (auto simp: start close_on_failure_def)
    next
      case other: False
      then show ?thesis
        using True s a(1,2) by (auto simp: start close_on_failure_def)
    qed
  qed
qed

lemma MQTTConnect_returns:
  assumes "sound B R (c :: ('t, 'h) MQTTClient)" "connect_ok (case options of None \<Rightarrow> MQTTPacket_connectData_initializer | Some d \<Rightarrow> d)" "id_room p R TYPE('h)"
  shows "\<exists>rc w' c'. MQTTConnect p w c options = Some (rc, w', c') \<and> sound B R c' \<and>
    (rc = SUCCESS \<longrightarrow> isconnected c' = 1) \<and> (isconnected c \<noteq> 0 \<longrightarrow> c' = c)"
proof (cases "isconnected c = 0")
  case False
  then show ?thesis
    using assms(1) by (simp add: MQTTConnect_def MQTTConnectWithResults_def)
next
  case True
  define d where "d = (case options of None \<Rightarrow> MQTTPacket_connectData_initializer | Some d \<Rightarrow> d)"
  define c1 where "c1 = c\<lparr>keepAliveInterval := ucast (cd_keepAliveInterval d), cleansession := uint (cd_cleansession d)\<rparr>"
  obtain t w1 t' w2 where t: "TimerInit p w = (t, w1)" "TimerCountdownMS p w1 t (command_timeout_ms c) = (t', w2)"
    using start_timer by blast
  obtain t3 w3 where t3: "TimerCountdown p w2 (last_received c) (ucast (cd_keepAliveInterval d)) = (t3, w3)" by force
  obtain buf len where b: "MQTTSerialize_connect (c_buf c) (int_of_size (buf_size c)) d = Some (buf, len)"
    "serialised c buf len"
    using connect.memory_safe [of d "int_of_size (buf_size c)" "c_buf c"] assms(2) soundD(6) [OF assms(1)]
    by (auto simp: d_def intro: serialisedI [OF assms(1)])
  let ?c = "c1\<lparr>last_received := t3, c_buf := buf\<rparr>"
  have inv: "sound B R ?c"
    by (rule sound_buf [where len = len]) (use assms(1) b(2) in \<open>simp_all add: c1_def serialised_def behind_buf_def\<close>)
  note start = MQTTConnect_def [of p w c options] MQTTConnectWithResults_def True t d_def [symmetric] c1_def [symmetric] t3 b(1)
  have c1: "c_buf c1 = c_buf c" "buf_size c1 = buf_size c"
    by (simp_all add: c1_def)
  show ?thesis
  proof (cases "len > 0")
    case no: False
    then show ?thesis
      using inv by (simp add: start c1)
  next
    case pos: True
    obtain rc w4 c4 where s: "sendPacket p w3 ?c len t' = Some (rc, w4, c4)" "sound B R c4" "rc = SUCCESS \<or> rc = FAILURE"
      using request_returns [OF inv pos] b(2) by (force simp: serialised_def c1_def)
    obtain ty w5 c5 where a: "waitfor p w4 c4 2 t' = Some (ty, w5, c5)" "sound B R c5"
      "ty = 2 \<longrightarrow> lies 2 (c_readbuf c5)"
      using waitfor_returns [OF s(2) _ assms(3), of 2 w4 t'] by auto
    show ?thesis
    proof (cases "ty = 2")
      case two: True
      obtain r out where "MQTTDeserialize_connack \<lparr>ca_sessionPresent = 0, ca_connack_rc = 0\<rparr>
          (c_readbuf c5) (int_of_size (readbuf_size c5)) = Some (r, out)"
        using connack_lies a(3) two by blast
      then show ?thesis
        using pos s a(1,2) two by (auto simp: start c1 Let_def)
    next
      case other: False
      then show ?thesis
        using pos s a(1,2) by (auto simp: start c1)
    qed
  qed
qed

end

interpretation sim: mqtt_platform sim_platform "\<lambda>w t. nat (t - sim_now w)"
  by unfold_locales (auto simp: sim_platform_def sim_read_def split: if_splits)

lemma sim_whole_writes: "whole_writes sim_platform"
  by (auto simp: whole_writes_def sim_platform_def)

lemma send_room_whole: "whole_writes p \<Longrightarrow> send_room p c"
  by (simp add: send_room_def)

subsection \<open>Properties\<close>

text \<open>C2: One round of the client is total and safe, whatever bytes the peer sends and also if writes are cut. Let the client structure satisfy the invariant (the two buffers have the sizes the
  client was told, the read buffer at least five bytes; packet identifiers in range, five handler slots with distinct filters), and let the platform either never cut a write or have
  memory behind the send buffer that \<open>sendPacket\<close> may read after a cut write. Then \<open>cycle\<close> returns, the invariant holds again and the memory behind
  both buffers is as before; a negative result means the session is closed, a positive one is the type of a packet that lies in the read buffer. The only exception is the defect that
  the code has: the packet read is a PUBLISH without its packet identifier that fills the read buffer, and there are fewer than two bytes of memory behind the buffer.\<close>

theorem cycle_total:
  assumes "mqtt_platform p ticks" "client_inv c" "send_room p c"
  shows "(\<exists>rc w' c'. cycle p w c timer = Some (rc, w', c') \<and> client_inv c' \<and>
      behind_buf c' = behind_buf c \<and> behind_readbuf c' = behind_readbuf c \<and>
      (rc > 0 \<longrightarrow> lies rc (c_readbuf c')) \<and> (rc < 0 \<longrightarrow> isconnected c' = 0)) \<or>
    length (behind_readbuf c) < 2 \<and> (\<exists>w' c'. readPacket p w c timer = Some (3, w', c') \<and> publish_cut (c_readbuf c'))"
proof -
  have s: "mqtt_platform.sound p B R c' \<longleftrightarrow> client_inv c' \<and> send_room p c' \<and> behind_buf c' = B \<and> behind_readbuf c' = R" for B R c'
    by (rule mqtt_platform.sound_iff [OF assms(1)])
  have "mqtt_platform.sound p (behind_buf c) (behind_readbuf c) c"
    using assms by (simp add: s)
  from mqtt_platform.cycle_round [OF assms(1) this, of w timer] show ?thesis
    unfolding s by (elim exE conjE) fastforce
qed

lemma blank_client_inv: "client_inv blank_client"
proof -
  have "slots_ok (messageHandlers blank_client)"
    by (rule slots_okI) (simp_all add: blank_client_def)
  then show ?thesis
    by (simp add: client_inv_def packetid_ok_def filters_are_cstrings_def int_of_size_def blank_client_def)
qed

definition sim_start :: "byte list \<Rightarrow> sim_world" where
  "sim_start bs = \<lparr>sim_in = bs, sim_out = [], sim_now = 0\<rparr>"

theorem cycle_total_witness:
  "(\<exists>rc w' c'. cycle sim_platform (sim_start [48, 3, 0, 1, 97]) blank_client 10 = Some (rc, w', c') \<and> client_inv c' \<and>
      behind_buf c' = [] \<and> behind_readbuf c' = [0, 0] \<and>
      (rc > 0 \<longrightarrow> lies rc (c_readbuf c')) \<and> (rc < 0 \<longrightarrow> isconnected c' = 0))"
proof -
  have b: "behind_buf blank_client = []" "behind_readbuf blank_client = [0, 0]"
    by code_simp+
  show ?thesis
    using cycle_total [OF sim.mqtt_platform_axioms blank_client_inv send_room_whole [OF sim_whole_writes],
        of "sim_start [48, 3, 0, 1, 97]" 10] by (simp add: b)
qed

text \<open>Waiting ends: on such a platform, with two bytes of memory behind the read buffer or a peer that sends no cut PUBLISH, \<open>waitfor\<close> and \<open>MQTTYield\<close> return for every peer, also one that
  keeps sending, because every round looks at the timer. If \<open>waitfor\<close> returns the type it
  waits for, a packet of this type is in the read buffer; \<open>MQTTYield\<close> returns \<open>SUCCESS\<close>, or \<open>FAILURE\<close> with the session
  closed.\<close>

theorem waiting_ends:
  assumes "mqtt_platform p ticks" "client_inv (c :: ('t, 'h) MQTTClient)" "send_room p c" "id_room p (behind_readbuf c) TYPE('h)" "0 < packet_type"
  shows "(\<exists>rc w' c'. waitfor p w c packet_type timer = Some (rc, w', c') \<and> client_inv c' \<and>
      (rc = packet_type \<longrightarrow> lies packet_type (c_readbuf c'))) \<and>
    (\<exists>rc w' c'. MQTTYield p w c ms = Some (rc, w', c') \<and> client_inv c' \<and>
      (rc = SUCCESS \<or> rc = FAILURE \<and> isconnected c' = 0))"
proof -
  note s = mqtt_platform.sound_iff [OF assms(1)]
  have c: "mqtt_platform.sound p (behind_buf c) (behind_readbuf c) c"
    using assms by (simp add: s)
  show ?thesis
    using mqtt_platform.waitfor_returns [OF assms(1) c assms(5,4), of w timer] mqtt_platform.MQTTYield_returns [OF assms(1) c assms(4), of w ms]
    unfolding s by blast
qed

text \<open>C14: The commands of the client return and write nothing behind their buffers, for every behaviour of the peer and also if writes are cut: \<open>MQTTYield\<close>, \<open>MQTTPublish\<close> (with arguments that make a packet),
  \<open>MQTTUnsubscribe\<close> and \<open>MQTTDisconnect\<close>. Yield, publish and unsubscribe return \<open>SUCCESS\<close>, or \<open>FAILURE\<close> with the session closed; disconnect always closes the session. The buffers have just the sizes the client was told. Asked for is, besides
  the invariant: either no PUBLISH is read that fills the buffer and lacks its packet identifier, or there are two bytes of memory behind the read buffer, where the code then reads one (\<open>id_room\<close>); and either the platform never cuts
  a write, or there is memory behind the send buffer for what \<open>sendPacket\<close> hands out after a cut write (\<open>send_room\<close>). \<open>MQTTSubscribe\<close> is not among these commands: a SUBACK with two codes makes it undefined.\<close>

theorem commands_return:
  assumes "mqtt_platform p ticks" "client_inv (c :: ('t, 'h) MQTTClient)" "send_room p c" "id_room p (behind_readbuf c) TYPE('h)"
    and "publish_args_ok topic msg" "length topicf < 65536"
  shows "(\<exists>rc w' c'. MQTTYield p w c ms = Some (rc, w', c') \<and> client_inv c' \<and> behind_buf c' = behind_buf c \<and>
      behind_readbuf c' = behind_readbuf c \<and> (rc = SUCCESS \<or> rc = FAILURE \<and> isconnected c' = 0)) \<and>
    (\<exists>rc w' c' msg'. MQTTPublish p w c topic msg = Some (rc, w', c', msg') \<and> client_inv c' \<and> behind_buf c' = behind_buf c \<and>
      behind_readbuf c' = behind_readbuf c \<and> (rc = SUCCESS \<or> rc = FAILURE \<and> isconnected c' = 0)) \<and>
    (\<exists>rc w' c'. MQTTUnsubscribe p w c topicf = Some (rc, w', c') \<and> client_inv c' \<and> behind_buf c' = behind_buf c \<and>
      behind_readbuf c' = behind_readbuf c \<and> (rc = SUCCESS \<or> rc = FAILURE \<and> isconnected c' = 0)) \<and>
    (\<exists>rc w' c'. MQTTDisconnect p w c = Some (rc, w', c') \<and> client_inv c' \<and> behind_buf c' = behind_buf c \<and>
      behind_readbuf c' = behind_readbuf c \<and> isconnected c' = 0)"
proof -
  note s = mqtt_platform.sound_iff [OF assms(1)]
  have c: "mqtt_platform.sound p (behind_buf c) (behind_readbuf c) c"
    using assms by (simp add: s)
  show ?thesis
    using mqtt_platform.MQTTYield_returns [OF assms(1) c assms(4), of w ms] mqtt_platform.MQTTPublish_returns [OF assms(1) c assms(5,4), of w]
      mqtt_platform.MQTTUnsubscribe_returns [OF assms(1) c assms(6,4), of w] mqtt_platform.MQTTDisconnect_returns [OF assms(1) c, of w]
    unfolding s by (intro conjI) blast+
qed

theorem commands_return_witness:
  "(\<exists>rc w' c' msg'. MQTTPublish sim_platform (sim_start []) blank_client [97] sim_message = Some (rc, w', c', msg') \<and>
      client_inv c' \<and> (rc = SUCCESS \<or> rc = FAILURE \<and> isconnected c' = 0)) \<and>
    (\<exists>rc w' c'. MQTTUnsubscribe sim_platform (sim_start []) blank_client [98] = Some (rc, w', c') \<and> client_inv c' \<and>
      (rc = SUCCESS \<or> rc = FAILURE \<and> isconnected c' = 0)) \<and>
    (\<exists>rc w' c'. MQTTDisconnect sim_platform (sim_start []) blank_client = Some (rc, w', c') \<and> client_inv c' \<and> isconnected c' = 0)"
proof -
  have b: "behind_readbuf blank_client = [0, 0]"
    by code_simp
  have a: "publish_args_ok [97] sim_message" "length [98 :: byte] < 65536" "id_room sim_platform (behind_readbuf blank_client) TYPE(nat)"
    by (simp_all add: b id_room_def publish_args_ok_def sim_message_def MQTTString_ok_def MQTTString_bytes_def MQTTString_initializer_def
       cptr_holds_def cptr_bytes_def int_of_size_def)
  show ?thesis
    using commands_return [OF sim.mqtt_platform_axioms blank_client_inv send_room_whole [OF sim_whole_writes] a(3,1,2), of "sim_start []" 0]
    by blast
qed

text \<open>\<open>MQTTConnect\<close> returns for every peer and keeps the invariant; \<open>SUCCESS\<close> means the client is connected;
  a client that is connected already is left as it is.\<close>

theorem connect_returns:
  assumes "mqtt_platform p ticks" "client_inv (c :: ('t, 'h) MQTTClient)" "send_room p c" "id_room p (behind_readbuf c) TYPE('h)"
    and "connect_ok (case options of None \<Rightarrow> MQTTPacket_connectData_initializer | Some d \<Rightarrow> d)"
  shows "\<exists>rc w' c'. MQTTConnect p w c options = Some (rc, w', c') \<and> client_inv c' \<and>
    (rc = SUCCESS \<longrightarrow> isconnected c' = 1) \<and> (isconnected c \<noteq> 0 \<longrightarrow> c' = c)"
proof -
  note s = mqtt_platform.sound_iff [OF assms(1)]
  have c: "mqtt_platform.sound p (behind_buf c) (behind_readbuf c) c"
    using assms by (simp add: s)
  show ?thesis
    using mqtt_platform.MQTTConnect_returns [OF assms(1) c assms(5,4), of w] unfolding s by blast
qed

text \<open>What a partial write does: once \<open>k\<close> of the \<open>len\<close> bytes are sent, \<open>sendPacket\<close> asks for \<open>len\<close> bytes
  again, from offset \<open>k\<close>. If the send buffer has fewer than \<open>k + len\<close> bytes, the platform reads behind it.\<close>

theorem partial_write_overreads:
  assumes "0 < k" "k < len" "int (length buf) < k + len" "TimerIsExpired p w timer = (False, w')"
  shows "sendPacket_loop p w buf len timer k = None"
  using assms
  by (subst sendPacket_loop.simps) (auto simp: write_window_def split: prod.splits)

theorem partial_write_overreads_witness:
  "sendPacket_loop sim_platform (sim_start []) [192, 0] 2 5 1 = None"
  by (rule partial_write_overreads [where w' = "sim_start []\<lparr>sim_now := 1\<rparr>"])
     (simp_all add: sim_platform_def sim_start_def)

end
