(* ===== verification/MQTT_Client_Protocol.thy ===== *)
theory MQTT_Client_Protocol
  imports MQTT_Client_Safety
begin

text \<open>
  The client as a party of the protocol: what it puts on the network and what it hands to the
  application when packets arrive. The locale \<open>mqtt_network\<close> extends the contract of the platform by the
  bytes that have arrived and the bytes that were sent. The second part has the answers of a
  broker that the client does not handle well.
\<close>

subsection \<open>A message from the broker\<close>

text \<open>What a handler is told, without the pointers.\<close>

definition told :: "'h \<times> MessageData \<Rightarrow> 'h \<times> byte list \<times> byte list \<times> int \<times> byte" where
  "told = (\<lambda>(h, d). (h, MQTTString_bytes (md_topicName d),
     cptr_bytes (msg_payload (md_message d)) (uint (msg_payloadlen (md_message d))),
     msg_qos (md_message d), msg_retained (md_message d)))"

text \<open>The answer to a PUBLISH: nothing, PUBACK or PUBREC.\<close>

definition answer :: "int \<Rightarrow> u16 \<Rightarrow> byte list" where
  "answer qos packetid =
     (if qos = 1 then ack_wire (4, 0, packetid) else if qos = 2 then ack_wire (5, 0, packetid) else [])"

lemma publish_payloadlen:
  assumes "publish_ok (dup, qos, retained, packetid, topic, payload, payloadlen)"
    and "MQTTDeserialize_publish out (publish_wire (dup, qos, retained, packetid, topic, payload, payloadlen) @ ys) n = Some (1, out')"
  shows "pub_payloadlen out' = payloadlen"
proof -
  have t: "length (MQTTString_bytes topic) < 65536" "0 \<le> qos" "qos \<le> 3" "0 \<le> payloadlen"
    and h: "cptr_holds payload payloadlen"
    using assms(1) by (auto simp: MQTTString_ok_def cptr_holds_def)
  have "\<exists>out'. MQTTDeserialize_publish out
      (publish_wire (dup, qos, retained, packetid, topic, payload, payloadlen) @ ys) n = Some (1, out') \<and>
    pub_payloadlen out' = int (length (cptr_bytes payload payloadlen))"
    using assms(1) by (cases "qos > 0")
      (simp_all add: MQTTDeserialize_publish_def Let_def read_simps field_simps t(1-3))
  then show ?thesis
    using assms(2) length_cptr_bytes [OF h] by auto
qed

lemma topic_bytes_MQTTString: "topic_ok t \<Longrightarrow> topic_bytes t = MQTTString_bytes t"
  by (auto simp: topic_ok_def topic_bytes_def MQTTString_bytes_def cptr_holds_def cptr_bytes_def split: option.splits)

lemma publish_not_cut:
  assumes "publish_ok a" "a = (dup, qos, retained, packetid, topic, payload, payloadlen)"
  shows "lies (uint (header_type (publish_header dup qos retained))) (publish_wire a @ d)" "\<not> publish_cut (publish_wire a @ d)"
proof -
  let ?h = "publish_header dup qos retained" and ?n = "length (publish_body a)" and ?t = "MQTTString_bytes topic"
  have n: "?n < 268435456" and t: "length ?t < 65536" and q: "0 \<le> qos" "qos \<le> 3"
    using assms by (simp_all add: MQTTString_ok_def del: publish_body.simps)
  have wire: "publish_wire a @ d = ?h # varint ?n @ publish_body a @ d"
    by (simp add: assms(2) Let_def del: publish_body.simps)
  show "lies (uint (header_type ?h)) (publish_wire a @ d)"
    unfolding lies_def wire using n assms(2)
    by (intro exI [of _ ?h] exI [of _ ?n] exI [of _ "publish_body a @ d"]) simp
  show "\<not> publish_cut (publish_wire a @ d)"
  proof
    assume "publish_cut (publish_wire a @ d)"
    then obtain h m x y ys where c: "?h # varint ?n @ publish_body a @ d = h # varint m @ x # y # ys" "m < 268435456" "header_qos h \<noteq> 0"
      "int (length ys) < 256 * uint x + uint y + 2"
      unfolding publish_cut_def wire by blast
    have "publish_body a @ d = x # y # ys"
      using varint_append_inject [of ?n "publish_body a @ d" m "x # y # ys"] c(1,2) n by simp
    moreover have "qos > 0"
    proof -
      have "uint (header_qos ?h) = qos" "h = ?h"
        using publish_header_fields(4) [of qos dup retained] q c(1) by auto
      then have "qos \<noteq> 0"
        using c(3) by (auto simp: uint_0_iff)
      then show ?thesis
        using q(1) by simp
    qed
    ultimately have "256 * uint x + uint y = int (length ?t)" "length ys \<ge> length ?t + 2"
      using be16_value [of "int (length ?t)"] t by (auto simp: assms(2) lp_string_def be16_def)
    then show False
      using c(4) by simp
  qed
qed

lemma publish_in_buffer:
  assumes "publish_ok a" "a = (dup, qos, retained, packetid, topic, payload, payloadlen)"
    and "take (length (publish_wire a)) buf = publish_wire a"
  shows "\<exists>out. MQTTDeserialize_publish publish_out_zero buf k = Some (1, out) \<and> publish_view out = publish_val a \<and>
    topic_ok (pub_topicName out) \<and> pub_payloadlen out = payloadlen"
proof -
  let ?d = "drop (length (publish_wire a)) buf"
  have b: "buf = publish_wire a @ ?d"
    using assms(3) by (metis append_take_drop_id)
  obtain out where o: "MQTTDeserialize_publish publish_out_zero buf k = Some (1, out)" "publish_view out = publish_val a"
    using publish_decode [OF assms(1) [unfolded assms(2)], of publish_out_zero ?d k] b assms(2) by auto
  have "lies (uint (header_type (publish_header dup qos retained))) buf" "\<not> publish_cut buf"
    using publish_not_cut [OF assms(1,2), of ?d] b by simp_all
  then have "topic_ok (pub_topicName out)"
    using publish_lies [of _ buf publish_out_zero k] o(1) by (auto simp: publish_out_zero_def MQTTString_initializer_def)
  moreover have "pub_payloadlen out = payloadlen"
    using publish_payloadlen [OF assms(1) [unfolded assms(2)], of publish_out_zero ?d k out] o(1) b assms(2) by simp
  ultimately show ?thesis
    using o by auto
qed

subsection \<open>The network\<close>

text \<open>Decoding the length leaves alone what the callback leaves alone.\<close>

lemma decode_loop_keeps:
  assumes "MQTTPacket_decode_loop getcharfn s len m v = Some (len', v', s')"
    and "\<And>s n rc cs s'. getcharfn s n = Some (rc, cs, s') \<Longrightarrow> f s' = f s"
  shows "f s' = f s"
  using assms
proof (induction getcharfn s len m v rule: MQTTPacket_decode_loop.induct)
  case (1 getcharfn s len m v)
  show ?case
  proof (cases "len + 1 > 4")
    case True
    then show ?thesis
      using "1.prems"(1) by (subst (asm) MQTTPacket_decode_loop.simps) simp
  next
    case False
    then obtain rc cs t where g: "getcharfn s 1 = Some (rc, cs, t)"
      using "1.prems"(1) by (subst (asm) MQTTPacket_decode_loop.simps) (auto simp: Let_def split: option.splits)
    note t = "1.prems"(2) [OF g]
    show ?thesis
    proof (cases "rc = 1 \<and> (\<exists>c cs'. cs = c # cs' \<and> c AND 128 \<noteq> 0)")
      case no: False
      then show ?thesis
        using "1.prems"(1) g t False by (subst (asm) MQTTPacket_decode_loop.simps)
          (auto simp: Let_def split: if_splits list.splits)
    next
      case True
      then obtain c cs' where c: "cs = c # cs'" "c AND 128 \<noteq> 0" "rc = 1"
        by auto
      have "MQTTPacket_decode_loop getcharfn t (len + 1) (m * 128) (v + uint (c AND 127) * m) = Some (len', v', s')"
        using "1.prems"(1) g c False by (subst (asm) MQTTPacket_decode_loop.simps) (simp add: Let_def)
      then show ?thesis
        using "1.IH" [OF refl _ g refl refl _ c(1) refl refl c(2)] "1.prems"(2) c(3) False t by simp
    qed
  qed
qed

lemma pingreq_header: "set_header_type 12 0 = 192"
  by (simp add: set_header_type_def bf_set_def)

locale mqtt_network = mqtt_platform p ticks
  for p :: "('w, 't) platform" and ticks :: "'w \<Rightarrow> 't \<Rightarrow> nat" +
  fixes pending :: "'w \<Rightarrow> byte list"
    and sent :: "'w \<Rightarrow> byte list"
  assumes reads_pending: "pending w = bs @ ys \<Longrightarrow> n = int (length bs) \<Longrightarrow> 0 < n \<Longrightarrow>
      \<exists>w'. mqttread p w n t = (n, bs, w') \<and> pending w' = ys"
    and read_sends_nothing: "mqttread p w n t = (rc, bs, w') \<Longrightarrow> sent w' = sent w"
    and writes: "mqttwrite p w bs t = (rc, w') \<Longrightarrow> pending w' = pending w \<and> sent w' = sent w @ take (nat rc) bs"
    and quiet_init: "TimerInit p w = (timer, w') \<Longrightarrow> pending w' = pending w \<and> sent w' = sent w"
    and quiet_expired: "TimerIsExpired p w timer = (e, w') \<Longrightarrow> pending w' = pending w \<and> sent w' = sent w"
    and quiet_countdown_ms: "TimerCountdownMS p w timer ms = (timer', w') \<Longrightarrow> pending w' = pending w \<and> sent w' = sent w"
    and quiet_countdown: "TimerCountdown p w timer sec = (timer', w') \<Longrightarrow> pending w' = pending w \<and> sent w' = sent w"
    and quiet_left: "TimerLeftMS p w timer = (l, w') \<Longrightarrow> pending w' = pending w \<and> sent w' = sent w"

sublocale mqtt_network \<subseteq> source: blocking_source "\<lambda>w n. Some (mqttread p w n t)" pending
  for t
  by unfold_locales (use reads_pending in fastforce)

context mqtt_network
begin

lemmas quiet = quiet_init quiet_expired quiet_countdown_ms quiet_countdown quiet_left

text \<open>However the writes are cut, what the loop has counted is what it has sent, from its place in the buffer on.\<close>

lemma sendPacket_loop_sends:
  assumes "sendPacket_loop p w buf len timer s = Some (n, w')" "0 \<le> s"
  shows "pending w' = pending w \<and> s \<le> n \<and> sent w' = sent w @ take (nat (n - s)) (drop (nat s) buf)"
  using assms
proof (induction "ticks w timer" arbitrary: w s rule: less_induct)
  case less
  obtain e w1 where e: "TimerIsExpired p w timer = (e, w1)" by force
  obtain l w2 where l: "TimerLeftMS p w1 timer = (l, w2)" by force
  note q = quiet_expired [OF e] quiet_left [OF l]
  note loop = less.prems(1) [unfolded sendPacket_loop.simps [of p w buf len timer s]]
  show ?case
  proof (cases "s < len \<and> \<not> e")
    case True
    then obtain bs where bs: "write_window buf s len = Some bs"
      using loop e l by (cases "write_window buf s len") auto
    have win: "bs = take (nat len) (drop (nat s) buf)" "length bs = nat len"
      using bs by (auto simp: write_window_def split: if_splits)
    obtain rc w3 where rc: "mqttwrite p w2 bs l = (rc, w3)" by force
    note w = writes [OF rc]
    have le: "rc \<le> len"
      using write_count [OF rc] win(2) True less.prems(2) by simp
    show ?thesis
    proof (cases "rc < 0")
      case neg: True
      then show ?thesis
        using loop True e l bs rc q w by simp
    next
      case False
      have t: "ticks w3 timer < ticks w timer"
        using runs_down [of w timer w1] e True time_left [OF l, of timer] time_write [OF rc, of timer] by simp
      have "sendPacket_loop p w3 buf len timer (s + rc) = Some (n, w')"
        using loop True False e l bs rc by simp
      from less.hyps [OF t this] have h: "pending w' = pending w3" "s + rc \<le> n"
        "sent w' = sent w3 @ take (nat (n - (s + rc))) (drop (nat (s + rc)) buf)"
        using less.prems(2) False by simp_all
      have "take (nat rc) bs @ take (nat (n - (s + rc))) (drop (nat (s + rc)) buf) = take (nat (n - s)) (drop (nat s) buf)"
      proof -
        have "nat (n - s) = nat rc + nat (n - (s + rc))" "nat (s + rc) = nat rc + nat s"
          using False h(2) less.prems(2) by simp_all
        then show ?thesis
          using le by (simp add: win(1) take_add min_def nat_mono)
      qed
      then show ?thesis
        using h q w False by simp
    qed
  next
    case False
    then show ?thesis
      using loop e q by (auto split: if_splits)
  qed
qed

lemma sendPacket_sends:
  assumes "sound B R c" "0 < len" "len \<le> int_of_size (buf_size c)"
  shows "\<exists>rc w' t. sendPacket p w c len timer = Some (rc, w', c\<lparr>last_sent := t\<rparr>) \<and> pending w' = pending w \<and>
    (rc = SUCCESS \<and> sent w' = sent w @ take (nat len) (c_buf c) \<or> rc = FAILURE)"
proof -
  obtain rc w' t where s: "sendPacket p w c len timer = Some (rc, w', c\<lparr>last_sent := t\<rparr>)"
    using sendPacket_returns [OF assms] by blast
  obtain n w1 where n: "sendPacket_loop p w (c_buf c) len timer 0 = Some (n, w1)"
    using s by (cases "sendPacket_loop p w (c_buf c) len timer 0") (auto simp: sendPacket_def)
  note l = sendPacket_loop_sends [OF n order_refl]
  obtain u w2 where u: "TimerCountdown p w1 (last_sent c) (keepAliveInterval c) = (u, w2)" by force
  show ?thesis
  proof (cases "n = len")
    case True
    then show ?thesis
      using s n l u quiet_countdown [OF u] by (auto simp: sendPacket_def)
  next
    case False
    then show ?thesis
      using s n l by (auto simp: sendPacket_def)
  qed
qed

text \<open>The keep-alive sends nothing or a PINGREQ.\<close>

lemma keepalive_sends:
  assumes "sound B R c"
  shows "\<exists>rc w' c'. keepalive p w c = Some (rc, w', c') \<and> pending w' = pending w \<and> delivered c' = delivered c \<and>
    isconnected c' = isconnected c \<and> (rc = SUCCESS \<longrightarrow> sent w' = sent w \<or> sent w' = sent w @ [192, 0])"
proof (cases "keepAliveInterval c = 0")
  case True
  then show ?thesis by (simp add: keepalive_def)
next
  case False
  obtain e1 w1 where e1: "TimerIsExpired p w (last_sent c) = (e1, w1)" by force
  obtain e2 w2 where e2: "(if e1 then (True, w1) else TimerIsExpired p w1 (last_received c)) = (e2, w2)" by force
  have w2: "pending w2 = pending w" "sent w2 = sent w"
    using quiet_expired [OF e1] quiet_expired [of w1 "last_received c"] e2 by (auto split: if_splits)
  note start = keepalive_def [of p w c] False e1 e2
  show ?thesis
  proof (cases "e2 \<and> ping_outstanding c = 0")
    case no: False
    with w2 show ?thesis
      by (auto simp: start split: if_splits)
  next
    case True
    obtain t3 w3 where t3: "TimerInit p w2 = (t3, w3)" by force
    obtain t4 w4 where t4: "TimerCountdownMS p w3 t3 1000 = (t4, w4)" by force
    have w4: "pending w4 = pending w" "sent w4 = sent w"
      using w2 quiet_init [OF t3] quiet_countdown_ms [OF t4] by simp_all
    obtain buf len where b: "MQTTSerialize_pingreq (c_buf c) (int_of_size (buf_size c)) = Some (buf, len)"
      "serialised c buf len" "len > 0 \<Longrightarrow> take (nat len) buf = [192, 0]"
      using zero.memory_safe [where a = "msgType_code PINGREQ" and buf = "c_buf c" and buflen = "int_of_size (buf_size c)"]
        soundD(6) [OF assms] serialisedI(1) [OF assms] by (auto simp: MQTTSerialize_pingreq_def pingreq_header intro: serialisedI(2) [OF assms])
    note inv = sound_buf [OF assms b(2)]
    let ?c = "c\<lparr>c_buf := buf\<rparr>"
    show ?thesis
    proof (cases "len > 0")
      case len: True
      then obtain rc w5 t where s: "sendPacket p w4 ?c len t4 = Some (rc, w5, ?c\<lparr>last_sent := t\<rparr>)"
        "pending w5 = pending w4" "rc = SUCCESS \<and> sent w5 = sent w4 @ [192, 0] \<or> rc = FAILURE"
        using sendPacket_sends [OF inv, of len w4 t4] b by (auto simp: serialised_def)
      then show ?thesis
        using True len t3 t4 b(1) w4 by (auto simp: start)
    next
      case len: False
      then show ?thesis
        using True t3 t4 b(1) w4 by (simp add: start)
    qed
  qed
qed

text \<open>A packet that has arrived and fits is read into the buffer.\<close>

lemma readPacket_reads:
  assumes "sound B R c" "pending w = h # varint n @ xs @ rest" "length xs = n" "n < 268435456"
    and "1 + int (length (varint n)) + int n \<le> uint (readbuf_size c)"
  shows "\<exists>w' buf t. readPacket p w c timer = Some (uint (header_type h), w', c\<lparr>c_readbuf := buf, last_received := t\<rparr>) \<and>
    pending w' = rest \<and> sent w' = sent w \<and> length buf = length (c_readbuf c) \<and>
    drop (nat (uint (readbuf_size c))) buf = R \<and> take (1 + length (varint n) + n) buf = h # varint n @ xs"
proof -
  note size = soundD(7,8) [OF assms(1)]
  let ?S = "nat (uint (readbuf_size c))"
  have R: "drop ?S (c_readbuf c) = R"
    using soundD(4) [OF assms(1)] unfolding behind_readbuf_def .
  have v: "1 \<le> length (varint n)" "length (varint n) \<le> 4"
    using assms(4) by (simp_all add: length_varint)
  have room: "1 + length (varint n) + n \<le> length (c_readbuf c)" "1 + length (varint n) + n \<le> ?S"
    using size(2) assms(5) by linarith+
  obtain l1 w1 where l1: "TimerLeftMS p w timer = (l1, w1)" by force
  obtain w2 where r: "mqttread p w1 1 l1 = (1, [h], w2)" "pending w2 = varint n @ xs @ rest"
    using reads_pending [of w1 "[h]" "varint n @ xs @ rest" 1 l1] assms(2) quiet_left [OF l1] by auto
  obtain b1 where b1: "put_bytes (c_readbuf c) 0 [h] = Some b1" "take 1 b1 = [h]" "length b1 = length (c_readbuf c)"
    using put_bytes_at [of 0 "[]" "c_readbuf c" "[h]"] room by auto
  obtain l2 w3 where l2: "TimerLeftMS p w2 timer = (l2, w3)" by force
  obtain w4 where d: "decodePacket p w3 l2 = Some (int (length (varint n)), int n, w4)" "pending w4 = xs @ rest"
    using source.decode_digits [of w3 n "xs @ rest" 0 l2 1 0] r(2) quiet_left [OF l2] v
    by (auto simp: decodePacket_def MQTTPacket_decode_def)
  have w4: "sent w4 = sent w"
  proof -
    have "sent w4 = sent w3"
      using d(1) unfolding decodePacket_def MQTTPacket_decode_def
      by (rule decode_loop_keeps) (use read_sends_nothing in auto)
    then show ?thesis
      using quiet_left [OF l1] quiet_left [OF l2] read_sends_nothing [OF r(1)] by simp
  qed
  obtain b2 where b2: "MQTTPacket_encode (b1, 1) (int n) = Some (b2, int (length (varint n)))"
    "take (1 + length (varint n)) b2 = h # varint n" "length b2 = length (c_readbuf c)"
    using encode_at_1 [of n b1 h] b1 room by auto
  have R2: "drop ?S b2 = R"
    using put_bytes_behind [OF b1(1), of ?S] encode_behind [OF b1(2) _ b2(1), of ?S] b1(3) room R by simp
  have fits: "\<not> readbuf_size c - word_of_int (1 + int (length (varint n))) < word_of_int (int n)"
    using assms(5) unfolding readbuf_check [OF assms(4) size(1) v(2)] by linarith
  obtain w5 b3 where body: "readPacket_body p w4 (c\<lparr>c_readbuf := b2\<rparr>) timer (1 + int (length (varint n))) (int n) =
      Some (int n, w5, c\<lparr>c_readbuf := b3\<rparr>)" "pending w5 = rest" "sent w5 = sent w"
      "length b3 = length (c_readbuf c)" "take (1 + length (varint n) + n) b3 = h # varint n @ xs" "drop ?S b3 = R"
  proof (cases "n = 0")
    case True
    then show thesis
      using that [of w4 b2] d(2) w4 b2 R2 assms(3) by (simp add: readPacket_body_def)
  next
    case False
    obtain l3 w5 where l3: "TimerLeftMS p w4 timer = (l3, w5)" by force
    obtain w6 where r3: "mqttread p w5 (int n) l3 = (int n, xs, w6)" "pending w6 = rest"
      using reads_pending [of w5 xs rest "int n" l3] quiet_left [OF l3] d(2) False assms(3) by auto
    obtain b3 where b3: "put_bytes b2 (1 + length (varint n)) xs = Some b3"
      "take (1 + length (varint n) + n) b3 = (h # varint n) @ xs" "length b3 = length b2"
      using put_bytes_at [of "1 + length (varint n)" "h # varint n" b2 xs] b2 room assms(3) by auto
    have "nat (1 + int (length (varint n))) = 1 + length (varint n)"
      by simp
    then show thesis
      using that [of w6 b3] False l3 r3 b3 b2(3) quiet_left [OF l3] read_sends_nothing [OF r3(1)] w4
        put_bytes_behind [OF b3(1), of ?S] R2 room(2) assms(3)
      by (simp add: readPacket_body_def)
  qed
  obtain t w6 where t: "TimerCountdown p w5 (last_received c) (keepAliveInterval c) = (t, w6)" by force
  have hd: "readChar (0, b3) = Some (h, 1, tl b3)"
    using body(5) by (intro head_packet [where k = "length (varint n) + n"]) simp
  note start = readPacket_def [of p w c timer] l1 r(1) b1(1) l2 d(1) b2(1) [unfolded One_nat_def] body(1) hd
  show ?thesis
  proof (cases "keepAliveInterval c > 0")
    case True
    then have "readPacket p w c timer = Some (uint (header_type h), w6, c\<lparr>c_readbuf := b3, last_received := t\<rparr>)"
      using fits t by (simp add: start Let_def)
    then show ?thesis
      using quiet_countdown [OF t] body by auto
  next
    case False
    then have "readPacket p w c timer =
        Some (uint (header_type h), w5, c\<lparr>c_readbuf := b3, last_received := last_received c\<rparr>)"
      using fits by (simp add: start Let_def)
    then show ?thesis
      using body by blast
  qed
qed

lemma cycle_publish_delivers:
  assumes "sound B R c" "publish_ok a" "a = (dup, qos, retained, packetid, topic, payload, payloadlen)" "qos \<le> 2"
    and "take (length (publish_wire a)) (c_readbuf c) = publish_wire a"
  shows "\<exists>rc leave w' c' calls. cycle_publish p w c timer = Some (rc, leave, w', c') \<and> sound B R c' \<and>
    pending w' = pending w \<and> isconnected c' = isconnected c \<and> delivered c' = delivered c @ calls \<and>
    map told calls = map (\<lambda>h. (h, MQTTString_bytes topic, cptr_bytes payload payloadlen, qos, take_bit 1 retained))
      (targets c (MQTTString_bytes topic)) \<and>
    (rc = SUCCESS \<and> \<not> leave \<and> sent w' = sent w @ answer qos packetid \<or> rc = FAILURE \<and> leave)"
proof -
  obtain out where o: "MQTTDeserialize_publish publish_out_zero (c_readbuf c) (int_of_size (readbuf_size c)) = Some (1, out)"
    "publish_view out = publish_val a" "topic_ok (pub_topicName out)" "pub_payloadlen out = payloadlen"
    using publish_in_buffer [OF assms(2,3,5)] by blast
  have view: "pub_qos out = qos" "pub_retained out = take_bit 1 retained" "qos > 0 \<Longrightarrow> pub_packetid out = packetid"
    "MQTTString_bytes (pub_topicName out) = MQTTString_bytes topic" "cptr_bytes (pub_payload out) payloadlen = cptr_bytes payload payloadlen"
    using o(2,4) by (auto simp: publish_view_def assms(3))
  have pl: "0 \<le> payloadlen" "payloadlen < 268435456" "0 \<le> qos"
    using assms(2,3) length_cptr_bytes [of payload payloadlen] by (auto simp: cptr_holds_def)
  then have u: "uint (word_of_int payloadlen :: u32) = payloadlen"
    unfolding uint_word_of_int by simp
  define m where "m = \<lparr>msg_qos = pub_qos out, msg_retained = pub_retained out, msg_dup = pub_dup out,
     msg_id = pub_packetid out, msg_payload = pub_payload out, msg_payloadlen = word_of_int (pub_payloadlen out)\<rparr>"
  define calls where "calls = map (\<lambda>h. (h, NewMessageData (pub_topicName out) m)) (targets c (MQTTString_bytes topic))"
  have told: "map told calls = map (\<lambda>h. (h, MQTTString_bytes topic, cptr_bytes payload payloadlen, qos, take_bit 1 retained))
      (targets c (MQTTString_bytes topic))"
    by (simp add: calls_def told_def NewMessageData_def m_def view o(4) u)
  let ?c = "c\<lparr>delivered := delivered c @ calls\<rparr>"
  obtain r where d: "deliverMessage c (pub_topicName out) m = Some (r, ?c)"
    using deliverMessage_targets [OF o(3), of c m] soundD(1) [OF assms(1)] topic_bytes_MQTTString [OF o(3)] view(4)
    by (auto simp: client_inv_def calls_def)
  note start = cycle_publish_def [of p w c timer] o(1)
  show ?thesis
  proof (cases "qos = 0")
    case True
    then show ?thesis
      using assms(1) told d [unfolded m_def] by (auto simp: start view answer_def)
  next
    case False
    with pl assms(4) have q: "qos = 1 \<or> qos = 2" by auto
    define t where "t = (if qos = 1 then 4 else 5 :: byte)"
    have ans: "answer qos packetid = ack_wire (t, 0, packetid)" "length (ack_wire (t, 0, packetid)) = 4"
      using q by (auto simp: answer_def t_def length_varint)
    obtain buf len where s: "MQTTSerialize_ack (c_buf c) (int_of_size (buf_size c)) t 0 packetid = Some (buf, len)"
      "serialised c buf len" "len = - 2 \<or> len = 4 \<and> take 4 buf = answer qos packetid"
      using ack.memory_safe [where a = "(t, 0, packetid)" and buf = "c_buf c" and buflen = "int_of_size (buf_size c)"]
        ack.result_cases [where a = "(t, 0, packetid)" and buf = "c_buf c" and buflen = "int_of_size (buf_size c)"]
        soundD(6) [OF assms(1)] serialisedI(1) [OF assms(1)]
        serialisedI(2) [OF assms(1), of "ack_wire (t, 0, packetid) @ drop 4 (c_buf c)" 4] ans by (auto simp del: ack_wire.simps)
    have start2: "cycle_publish p w c timer = do {
        (rc, w, c) \<leftarrow> (if len \<le> 0 then Some (FAILURE, w, ?c\<lparr>c_buf := buf\<rparr>) else sendPacket p w (?c\<lparr>c_buf := buf\<rparr>) len timer);
        Some (rc, rc = FAILURE, w, c) }"
      using q s(1) view(3) d [unfolded m_def] by (auto simp: start view t_def)
    have inv: "sound B R (?c\<lparr>c_buf := buf\<rparr>)"
      by (rule sound_buf [where len = len]) (use assms(1) s(2) in \<open>simp_all add: serialised_def behind_buf_def\<close>)
    show ?thesis
    proof (cases "len = 4")
      case True
      obtain rc w1 u where "sendPacket p w (?c\<lparr>c_buf := buf\<rparr>) len timer = Some (rc, w1, ?c\<lparr>c_buf := buf\<rparr>\<lparr>last_sent := u\<rparr>)"
        "pending w1 = pending w" "rc = SUCCESS \<and> sent w1 = sent w @ answer qos packetid \<or> rc = FAILURE"
        using sendPacket_sends [OF inv, of len w timer] True s(2,3) by (auto simp: serialised_def)
      then show ?thesis
        using True told inv start2 by auto
    next
      case False
      then show ?thesis
        using s(3) told inv start2 by auto
    qed
  qed
qed

lemma cycle_delivers:
  assumes "sound B R c" "publish_ok a" "a = (dup, qos, retained, packetid, topic, payload, payloadlen)" "qos \<le> 2"
    and "pending w = publish_wire a @ rest" "int (length (publish_wire a)) \<le> uint (readbuf_size c)"
  shows "\<exists>rc w' c' calls. cycle p w c timer = Some (rc, w', c') \<and>
    pending w' = rest \<and> delivered c' = delivered c @ calls \<and>
    map told calls = map (\<lambda>h. (h, MQTTString_bytes topic, cptr_bytes payload payloadlen, qos, take_bit 1 retained))
      (targets c (MQTTString_bytes topic)) \<and>
    (rc = 3 \<and> (\<exists>ping \<in> {[], [192, 0]}. sent w' = sent w @ answer qos packetid @ ping) \<or>
     rc = FAILURE \<and> isconnected c' = 0)"
proof -
  let ?h = "publish_header dup qos retained" and ?n = "length (publish_body a)"
  have wire: "publish_wire a = ?h # varint ?n @ publish_body a"
    by (simp add: assms(3) Let_def del: publish_body.simps)
  have n: "?n < 268435456"
    using assms(2,3) by (simp del: publish_body.simps)
  obtain w1 buf t where r: "readPacket p w c timer = Some (3, w1, c\<lparr>c_readbuf := buf, last_received := t\<rparr>)"
    "pending w1 = rest" "sent w1 = sent w" "length buf = length (c_readbuf c)"
    "drop (nat (uint (readbuf_size c))) buf = R" "take (length (publish_wire a)) buf = publish_wire a"
    using readPacket_reads [OF assms(1) _ refl n, of w ?h rest timer] assms(5,6)
    by (auto simp: wire publish_header_fields)
  let ?c = "c\<lparr>c_readbuf := buf, last_received := t\<rparr>"
  have inv: "sound B R ?c"
    using sound_readbuf [OF assms(1) r(4,5)] by simp
  have tg: "targets ?c topic = targets c topic" for topic
    by (simp add: targets_def Let_def)
  obtain rc leave w2 c2 calls where d: "cycle_publish p w1 ?c timer = Some (rc, leave, w2, c2)" "sound B R c2"
    "pending w2 = rest" "delivered c2 = delivered c @ calls"
    "map told calls = map (\<lambda>h. (h, MQTTString_bytes topic, cptr_bytes payload payloadlen, qos, take_bit 1 retained))
      (targets c (MQTTString_bytes topic))"
    "rc = SUCCESS \<and> \<not> leave \<and> sent w2 = sent w @ answer qos packetid \<or> rc = FAILURE \<and> leave"
    using cycle_publish_delivers [OF inv assms(2-4), of w1 timer] r tg by auto
  have disp: "cycle_dispatch p w1 ?c timer 3 = Some (rc, leave, w2, c2)"
    using d(1) by (simp add: cycle_dispatch_def)
  have close: "delivered (MQTTCloseSession c') = delivered c'" for c' :: "('t, 'b) MQTTClient"
    by (simp add: MQTTCloseSession_def MQTTCleanSession_def Let_def)
  show ?thesis
  proof (cases leave)
    case True
    then show ?thesis
      using d r(1) disp by (auto simp: cycle_def close)
  next
    case False
    obtain k w3 c3 where k: "keepalive p w2 c2 = Some (k, w3, c3)" "pending w3 = rest" "delivered c3 = delivered c @ calls"
      "k = SUCCESS \<longrightarrow> sent w3 = sent w2 \<or> sent w3 = sent w2 @ [192, 0]"
      using keepalive_sends [OF d(2), of w2] d(3,4) by auto
    then show ?thesis
      using False d(5,6) r(1) disp by (auto simp: cycle_def close)
  qed
qed

end

text \<open>The simulated platform keeps this contract.\<close>

interpretation sim_net: mqtt_network sim_platform "\<lambda>w t. nat (t - sim_now w)" sim_in sim_out
  by unfold_locales (auto simp: sim_platform_def sim_read_def split: if_splits)

subsection \<open>Answers the client does not handle\<close>

text \<open>A SUBACK with two return codes: the second one is written behind the variable for the granted
  QoS, since \<open>MQTTDeserialize_suback\<close> lets \<open>maxcount + 1\<close> codes pass.\<close>

lemma subscribe_overrun:
  "MQTTSubscribe abi sim_platform (sim_start [144, 4, 0, 2, 0, 0]) blank_client [97] 0 (Some 1) = None"
  by (cases abi) code_simp+

text \<open>A SUBACK that refuses the subscription. \<open>MQTTSubscribe\<close> returns \<open>SUCCESS\<close>; where plain \<open>char\<close> is
  signed the refusal is not noticed and the handler is registered.\<close>

lemma subscribe_refused_unsigned:
  "map_option (\<lambda>(rc, w, c). (rc, handler_of (messageHandlers c) [97], isconnected c))
     (MQTTSubscribe Unsigned_Char sim_platform (sim_start [144, 3, 0, 2, 128]) blank_client [97] 0 (Some 1)) =
   Some (SUCCESS, None, 1)"
  by code_simp

lemma subscribe_refused_signed:
  "map_option (\<lambda>(rc, w, c). (rc, handler_of (messageHandlers c) [97], isconnected c))
     (MQTTSubscribe Signed_Char sim_platform (sim_start [144, 3, 0, 2, 128]) blank_client [97] 0 (Some 1)) =
   Some (SUCCESS, Some 1, 1)"
  by code_simp

text \<open>A CONNACK without a body counts as accepted.\<close>

lemma connack_without_body:
  "map_option (\<lambda>(rc, w, c). (rc, isconnected c))
     (MQTTConnect sim_platform (sim_start [32, 0]) (blank_client\<lparr>isconnected := 0\<rparr>) None) = Some (SUCCESS, 1)"
  by code_simp

text \<open>A PUBLISH of QoS 1 that ends behind its topic, in a read buffer it fills: the packet identifier is
  read behind the buffer. This is the exception that \<open>cycle_total\<close> names.\<close>

lemma publish_without_identifier:
  "cycle sim_platform (sim_start [50, 18, 0, 16, 97, 97, 97, 97, 97, 97, 97, 97, 97, 97, 97, 97, 97, 97, 97, 97])
     (blank_client\<lparr>c_readbuf := replicate 20 0\<rparr>) 10 = None"
  by code_simp

subsection \<open>Properties\<close>

text \<open>C15: A message from the broker. If a PUBLISH of QoS 0, 1 or 2 that fits into the read buffer has arrived, one round of the client
  takes exactly this packet from the network and calls exactly the handlers for its topic, in slot order, with its topic, payload, QoS and
  retained flag; it returns PUBLISH and has sent the acknowledgement with the packet's identifier (none, PUBACK or PUBREC) and at most a PINGREQ
  after it; or, if sending failed, it returns \<open>FAILURE\<close> and the session is closed. The buffers have just the sizes the client was told, and writes may be cut if
  there is memory behind the send buffer for what \<open>sendPacket\<close> then reads.\<close>

theorem cycle_handles_publish:
  assumes "mqtt_network p ticks pending sent" "client_inv c" "send_room p c"
    and "publish_ok (dup, qos, retained, packetid, topic, payload, payloadlen)" "qos \<le> 2"
    and "pending w = publish_wire (dup, qos, retained, packetid, topic, payload, payloadlen) @ rest"
    and "int (length (publish_wire (dup, qos, retained, packetid, topic, payload, payloadlen))) \<le> uint (readbuf_size c)"
  shows "\<exists>rc w' c' calls. cycle p w c timer = Some (rc, w', c') \<and>
    pending w' = rest \<and> delivered c' = delivered c @ calls \<and>
    map told calls = map (\<lambda>h. (h, MQTTString_bytes topic, cptr_bytes payload payloadlen, qos, take_bit 1 retained))
      (targets c (MQTTString_bytes topic)) \<and>
    (rc = 3 \<and> (\<exists>ping \<in> {[], [192, 0]}. sent w' = sent w @ answer qos packetid @ ping) \<or>
     rc = FAILURE \<and> isconnected c' = 0)"
proof -
  have "mqtt_platform.sound p (behind_buf c) (behind_readbuf c) c"
    using mqtt_platform.sound_iff [OF mqtt_network.axioms(1) [OF assms(1)]] assms(2,3) by blast
  from mqtt_network.cycle_delivers [OF assms(1) this assms(4) refl assms(5-7)] show ?thesis .
qed

theorem cycle_handles_publish_witness:
  "\<exists>rc w' c' calls. cycle sim_platform (sim_start (publish_wire (0, 1, 0, 7, MQTTString_c [97], Some [5], 1) @ [208, 0]))
       blank_client 10 = Some (rc, w', c') \<and>
    sim_in w' = [208, 0] \<and> delivered c' = delivered blank_client @ calls \<and>
    map told calls = map (\<lambda>h. (h, MQTTString_bytes (MQTTString_c [97]), cptr_bytes (Some [5]) 1, 1, take_bit 1 0))
      (targets blank_client (MQTTString_bytes (MQTTString_c [97]))) \<and>
    (rc = 3 \<and> (\<exists>ping \<in> {[], [192, 0]}. sim_out w' =
        sim_out (sim_start (publish_wire (0, 1, 0, 7, MQTTString_c [97], Some [5], 1) @ [208, 0])) @ answer 1 7 @ ping) \<or>
     rc = FAILURE \<and> isconnected c' = 0)"
  by (rule cycle_handles_publish [OF sim_net.mqtt_network_axioms blank_client_inv send_room_whole [OF sim_whole_writes]])
     (simp_all add: cptr_holds_def cptr_bytes_def sim_start_def blank_client_def varint_small)

end
