(* ===== verification/MQTT_Cpp_Client.thy ===== *)
theory MQTT_Cpp_Client
  imports MQTT_Client_Protocol
begin

text \<open>
  The C++ client, \<^verbatim>\<open>MQTTClient/src/MQTTClient.h\<close>: the class template \<open>MQTT::Client\<close>. Its methods are the
  functions with the prefix \<open>Cpp_\<close>. The template parameters \<open>Network\<close> and \<open>Timer\<close> are a record of functions on the
  state \<open>'w\<close> of the world; a read may fail to return (\<open>None\<close>), a write may take part of the bytes. The
  preprocessor symbols \<open>MQTTCLIENT_QOS1\<close>, \<open>MQTTCLIENT_QOS2\<close> and the template parameter \<open>MAX_MQTT_PACKET_SIZE\<close> are
  fields of a configuration; \<open>MAX_MESSAGE_HANDLERS\<close> and \<open>MAX_INCOMING_QOS2_MESSAGES\<close> are the lengths of the arrays.
  (With \<open>MQTTCLIENT_QOS2\<close> but not \<open>MQTTCLIENT_QOS1\<close> the header does not compile: an \<open>else\<close> is left
  without its \<open>if\<close>.) Integers have 32 bits, bytes of an \<open>int\<close> are little-endian, and uninitialised locals start as 0,
  as in the model of the C client, whose message and handler records are used here too.

  \<open>cl_readbuf\<close> is the memory from the array \<open>readbuf\<close> on: its \<open>MAX_MQTT_PACKET_SIZE\<close> bytes and those of the members
  behind it. The timer \<open>ping_sent\<close>, a static variable of \<open>keepalive\<close>, is a field of the client.
\<close>

subsection \<open>Data\<close>

record ('w, 't) net_ops =
  ipstack_read :: "'w \<Rightarrow> int \<Rightarrow> int \<Rightarrow> (int \<times> byte list \<times> 'w) option"
  ipstack_write :: "'w \<Rightarrow> byte list \<Rightarrow> int \<Rightarrow> int \<times> 'w"
  Timer_new :: "'w \<Rightarrow> 't \<times> 'w"
  Timer_ms :: "'w \<Rightarrow> int \<Rightarrow> 't \<times> 'w"
  timer_expired :: "'w \<Rightarrow> 't \<Rightarrow> bool \<times> 'w"
  timer_countdown_ms :: "'w \<Rightarrow> 't \<Rightarrow> u32 \<Rightarrow> 't \<times> 'w"
  timer_countdown :: "'w \<Rightarrow> 't \<Rightarrow> int \<Rightarrow> 't \<times> 'w"
  timer_left_ms :: "'w \<Rightarrow> 't \<Rightarrow> int \<times> 'w"

record client_config =
  MQTTCLIENT_QOS1 :: bool
  MQTTCLIENT_QOS2 :: bool
  MAX_MQTT_PACKET_SIZE :: int

record connackData =
  cd_rc :: int
  cd_sessionPresent :: bool

record ('t, 'h) CppClient =
  cl_command_timeout_ms :: u32
  cl_sendbuf :: buffer
  cl_readbuf :: buffer
  cl_last_sent :: 't
  cl_last_received :: 't
  cl_ping_sent :: 't
  cl_keepAliveInterval :: u32
  cl_ping_outstanding :: bool
  cl_cleansession :: bool
  cl_packetid :: int
  cl_messageHandlers :: "'h MessageHandlers list"
  cl_defaultMessageHandler :: "'h option"
  cl_isconnected :: bool
  cl_pubbuf :: buffer
  cl_inflightLen :: int
  cl_inflightMsgid :: u16
  cl_inflightQoS :: int
  cl_pubrel :: bool
  cl_incomingQoS2messages :: "u16 list"
  cl_delivered :: "('h \<times> MessageData) list"

abbreviation (input) QOS0 :: int where "QOS0 \<equiv> 0"

subsection \<open>Packet identifiers and sessions\<close>

definition PacketId_getNext :: "('t, 'h) CppClient \<Rightarrow> int \<times> ('t, 'h) CppClient" where
  "PacketId_getNext c =
     (let i = (if cl_packetid c = 65535 then 1 else cl_packetid c + 1) in (i, c\<lparr>cl_packetid := i\<rparr>))"

definition Cpp_cleanSession :: "client_config \<Rightarrow> ('t, 'h) CppClient \<Rightarrow> ('t, 'h) CppClient" where
  "Cpp_cleanSession cfg c =
     (let c = c\<lparr>cl_messageHandlers := map (\<lambda>s. s\<lparr>topicFilter := None\<rparr>) (cl_messageHandlers c)\<rparr>;
          c = (if MQTTCLIENT_QOS1 cfg \<or> MQTTCLIENT_QOS2 cfg then c\<lparr>cl_inflightMsgid := 0, cl_inflightQoS := QOS0\<rparr> else c)
      in if MQTTCLIENT_QOS2 cfg
         then c\<lparr>cl_pubrel := False, cl_incomingQoS2messages := map (\<lambda>_. 0) (cl_incomingQoS2messages c)\<rparr>
         else c)"

definition Cpp_closeSession :: "client_config \<Rightarrow> ('t, 'h) CppClient \<Rightarrow> ('t, 'h) CppClient" where
  "Cpp_closeSession cfg c =
     (let c = c\<lparr>cl_ping_outstanding := False, cl_isconnected := False\<rparr>
      in if cl_cleansession c then Cpp_cleanSession cfg c else c)"

text \<open>The constructor; the argument \<open>c\<close> is the memory of the object before it.\<close>

definition CppClient_new ::
  "client_config \<Rightarrow> ('w, 't) net_ops \<Rightarrow> 'w \<Rightarrow> ('t, 'h) CppClient \<Rightarrow> u32 \<Rightarrow> 'w \<times> ('t, 'h) CppClient" where
  "CppClient_new cfg n w c command_timeout =
     (let (t1, w) = Timer_new n w;
          (t2, w) = Timer_new n w;
          c = c\<lparr>cl_last_sent := t1, cl_last_received := t2, cl_packetid := 0,
                cl_messageHandlers := map (\<lambda>s. s\<lparr>fp := None\<rparr>) (cl_messageHandlers c),
                cl_defaultMessageHandler := None,
                cl_command_timeout_ms := command_timeout, cl_cleansession := True\<rparr>
      in (w, Cpp_closeSession cfg c))"

definition Cpp_isQoS2msgidFree :: "('t, 'h) CppClient \<Rightarrow> u16 \<Rightarrow> bool" where
  "Cpp_isQoS2msgidFree c i = (\<not> list_ex (\<lambda>m. m = i) (cl_incomingQoS2messages c))"

definition Cpp_useQoS2msgid :: "('t, 'h) CppClient \<Rightarrow> u16 \<Rightarrow> bool \<times> ('t, 'h) CppClient" where
  "Cpp_useQoS2msgid c i =
     (let ms = cl_incomingQoS2messages c; k = scan_slots (\<lambda>m. m = 0) ms
      in if k < length ms then (True, c\<lparr>cl_incomingQoS2messages := ms[k := i]\<rparr>) else (False, c))"

definition Cpp_freeQoS2msgid :: "('t, 'h) CppClient \<Rightarrow> u16 \<Rightarrow> ('t, 'h) CppClient" where
  "Cpp_freeQoS2msgid c i =
     (let ms = cl_incomingQoS2messages c; k = scan_slots (\<lambda>m. m = i) ms
      in if k < length ms then c\<lparr>cl_incomingQoS2messages := ms[k := 0]\<rparr> else c)"

subsection \<open>Sending and receiving\<close>

partial_function (option) Cpp_sendPacket_loop ::
  "('w, 't) net_ops \<Rightarrow> 'w \<Rightarrow> buffer \<Rightarrow> int \<Rightarrow> 't \<Rightarrow> int \<Rightarrow> (int \<times> 'w) option" where
  "Cpp_sendPacket_loop n w sendbuf len timer sent =
     (if sent < len
      then case timer_left_ms n w timer of (left, w) \<Rightarrow>
        Option.bind (write_window sendbuf sent (len - sent)) (\<lambda>bytes.
          case ipstack_write n w bytes left of (rc, w) \<Rightarrow>
            if rc < 0 then Some (sent, w)
            else case timer_expired n w timer of (expired, w) \<Rightarrow>
              if expired then Some (sent + rc, w)
              else Cpp_sendPacket_loop n w sendbuf len timer (sent + rc))
      else Some (sent, w))"

declare Cpp_sendPacket_loop.simps [code]

definition Cpp_sendPacket ::
  "('w, 't) net_ops \<Rightarrow> 'w \<Rightarrow> ('t, 'h) CppClient \<Rightarrow> int \<Rightarrow> 't \<Rightarrow> (int \<times> 'w \<times> ('t, 'h) CppClient) option" where
  "Cpp_sendPacket n w c len timer = do {
     (sent, w) \<leftarrow> Cpp_sendPacket_loop n w (cl_sendbuf c) len timer 0;
     if sent = len
     then if cl_keepAliveInterval c > 0
          then let (t, w) = timer_countdown n w (cl_last_sent c) (int_of_size (cl_keepAliveInterval c))
               in Some (SUCCESS, w, c\<lparr>cl_last_sent := t\<rparr>)
          else Some (SUCCESS, w, c)
     else Some (FAILURE, w, c) }"

text \<open>\<open>decodePacket\<close> has the loop of \<open>MQTTPacket_decode\<close>, with \<open>ipstack.read\<close> in place of the callback.\<close>

definition Cpp_decodePacket :: "('w, 't) net_ops \<Rightarrow> 'w \<Rightarrow> int \<Rightarrow> (int \<times> int \<times> 'w) option" where
  "Cpp_decodePacket n w timeout = MQTTPacket_decode (\<lambda>w k. ipstack_read n w k timeout) w"

definition Cpp_readPacket_body ::
  "('w, 't) net_ops \<Rightarrow> 'w \<Rightarrow> ('t, 'h) CppClient \<Rightarrow> 't \<Rightarrow> int \<Rightarrow> int \<Rightarrow> (int \<times> 'w \<times> ('t, 'h) CppClient) option" where
  "Cpp_readPacket_body n w c timer len rem_len =
     (if rem_len > 0
      then do {
        let (left, w) = timer_left_ms n w timer;
        (got, bs, w) \<leftarrow> ipstack_read n w rem_len left;
        readbuf \<leftarrow> put_bytes (cl_readbuf c) (nat len) bs;
        Some (got, w, c\<lparr>cl_readbuf := readbuf\<rparr>) }
      else Some (rem_len, w, c))"

definition Cpp_readPacket ::
  "client_config \<Rightarrow> ('w, 't) net_ops \<Rightarrow> 'w \<Rightarrow> ('t, 'h) CppClient \<Rightarrow> 't \<Rightarrow> (int \<times> 'w \<times> ('t, 'h) CppClient) option" where
  "Cpp_readPacket cfg n w c timer = do {
     let (left, w) = timer_left_ms n w timer;
     (rc, bs, w) \<leftarrow> ipstack_read n w 1 left;
     readbuf \<leftarrow> put_bytes (cl_readbuf c) 0 bs;
     let c = c\<lparr>cl_readbuf := readbuf\<rparr>;
     if rc \<noteq> 1 then Some (0, w, c)
     else do {
       let (left, w) = timer_left_ms n w timer;
       (_, rem_len, w) \<leftarrow> Cpp_decodePacket n w left;
       (readbuf, k) \<leftarrow> MQTTPacket_encode (cl_readbuf c, 1) rem_len;
       let c = c\<lparr>cl_readbuf := readbuf\<rparr>;
       let len = 1 + k;
       if rem_len > MAX_MQTT_PACKET_SIZE cfg - len then Some (BUFFER_OVERFLOW, w, c)
       else do {
         (got, w, c) \<leftarrow> Cpp_readPacket_body n w c timer len rem_len;
         if got \<noteq> rem_len then Some (FAILURE, w, c)
         else do {
           (header, _) \<leftarrow> readChar (0, cl_readbuf c);
           let rc = uint (header_type header);
           if cl_keepAliveInterval c > 0
           then let (t, w) = timer_countdown n w (cl_last_received c) (int_of_size (cl_keepAliveInterval c))
                in Some (rc, w, c\<lparr>cl_last_received := t\<rparr>)
           else Some (rc, w, c) } } } }"

subsection \<open>Topics and delivery\<close>

text \<open>The scan of \<open>isTopicMatched\<close> up to the end of its loop: the rest of the filter from \<open>curf\<close> and
  the rest of the name from \<open>curn\<close>.\<close>

fun Cpp_topic_scan :: "byte list \<Rightarrow> byte list \<Rightarrow> byte list \<times> byte list" where
  "Cpp_topic_scan (cf # curf) (cn # curn) =
     (if cn = ch_slash \<and> cf \<noteq> ch_slash then (cf # curf, cn # curn)
      else if cf \<noteq> ch_plus \<and> cf \<noteq> ch_hash \<and> cf \<noteq> cn then (cf # curf, cn # curn)
      else Cpp_topic_scan curf
             (tl (if cf = ch_plus then skip_level (cn # curn)
                  else if cf = ch_hash then [last (cn # curn)]
                  else cn # curn)))"
| "Cpp_topic_scan curf curn = (curf, curn)"

text \<open>Behind the loop: a filter of which \<open>/\<close> or \<open>/#\<close> is left is at its end.\<close>

fun Cpp_skip_multilevel :: "byte list \<Rightarrow> byte list" where
  "Cpp_skip_multilevel (f # g # fs) =
     (if f = ch_slash then if g = ch_hash then fs else g # fs else f # g # fs)"
| "Cpp_skip_multilevel [f] = (if f = ch_slash then [] else [f])"
| "Cpp_skip_multilevel [] = []"

definition Cpp_topic_matches :: "byte list \<Rightarrow> byte list \<Rightarrow> bool" where
  "Cpp_topic_matches topicf name =
     (let (curf, curn) = Cpp_topic_scan topicf name
      in curn = [] \<and> Cpp_skip_multilevel curf = [])"

definition Cpp_isTopicMatched :: "byte list \<Rightarrow> MQTTString \<Rightarrow> bool option" where
  "Cpp_isTopicMatched topicf topicName =
     (let len = ls_len (lenstring topicName)
      in if cptr_holds (ls_data (lenstring topicName)) len
         then Some (Cpp_topic_matches topicf (cptr_bytes (ls_data (lenstring topicName)) len))
         else None)"

definition Cpp_slot_matches :: "MQTTString \<Rightarrow> 'h MessageHandlers \<Rightarrow> bool option" where
  "Cpp_slot_matches topicName slot =
     (case topicFilter slot of
        None \<Rightarrow> Some False
      | Some f \<Rightarrow> do {
          e \<leftarrow> MQTTPacket_equals topicName f;
          if e then Some True else Cpp_isTopicMatched f topicName })"

fun Cpp_deliverMessage_loop ::
  "MQTTString \<Rightarrow> MQTTMessage \<Rightarrow> 'h MessageHandlers list \<Rightarrow> int \<Rightarrow> ('h \<times> MessageData) list
   \<Rightarrow> (int \<times> ('h \<times> MessageData) list) option" where
  "Cpp_deliverMessage_loop topicName message [] rc calls = Some (rc, calls)"
| "Cpp_deliverMessage_loop topicName message (slot # slots) rc calls = do {
     m \<leftarrow> Cpp_slot_matches topicName slot;
     (case (m, fp slot) of
        (True, Some h) \<Rightarrow>
          Cpp_deliverMessage_loop topicName message slots SUCCESS (calls @ [(h, NewMessageData topicName message)])
      | _ \<Rightarrow> Cpp_deliverMessage_loop topicName message slots rc calls) }"

definition Cpp_deliverMessage ::
  "('t, 'h) CppClient \<Rightarrow> MQTTString \<Rightarrow> MQTTMessage \<Rightarrow> (int \<times> ('t, 'h) CppClient) option" where
  "Cpp_deliverMessage c topicName message = do {
     (rc, calls) \<leftarrow> Cpp_deliverMessage_loop topicName message (cl_messageHandlers c) FAILURE (cl_delivered c);
     (case cl_defaultMessageHandler c of
        Some h \<Rightarrow>
          if rc = FAILURE
          then Some (SUCCESS, c\<lparr>cl_delivered := calls @ [(h, NewMessageData topicName message)]\<rparr>)
          else Some (rc, c\<lparr>cl_delivered := calls\<rparr>)
      | None \<Rightarrow> Some (rc, c\<lparr>cl_delivered := calls\<rparr>)) }"

subsection \<open>One round\<close>

text \<open>What happens to an arrived message: with \<open>MQTTCLIENT_QOS2\<close>, one of QoS 2 is delivered only if its identifier
  is not in the table and there is room to enter it.\<close>

definition Cpp_cycle_deliver ::
  "client_config \<Rightarrow> ('t, 'h) CppClient \<Rightarrow> MQTTString \<Rightarrow> MQTTMessage \<Rightarrow> ('t, 'h) CppClient option" where
  "Cpp_cycle_deliver cfg c topicName msg =
     (if MQTTCLIENT_QOS2 cfg \<and> msg_qos msg = 2
      then if Cpp_isQoS2msgidFree c (msg_id msg)
           then let (ok, c) = Cpp_useQoS2msgid c (msg_id msg)
                in if ok then map_option snd (Cpp_deliverMessage c topicName msg) else Some c
           else Some c
      else map_option snd (Cpp_deliverMessage c topicName msg))"

text \<open>The cases of the switch: return code, whether it leaves by \<open>goto exit\<close>, and the state. The case PUBLISH
  without QoS 1 and 2 has no \<open>break\<close> and runs into the case PINGRESP.\<close>

definition Cpp_cycle_publish ::
  "client_config \<Rightarrow> ('w, 't) net_ops \<Rightarrow> 'w \<Rightarrow> ('t, 'h) CppClient \<Rightarrow> 't \<Rightarrow> (int \<times> bool \<times> 'w \<times> ('t, 'h) CppClient) option" where
  "Cpp_cycle_publish cfg n w c timer = do {
     (r, out) \<leftarrow> MQTTDeserialize_publish publish_out_zero (cl_readbuf c) (MAX_MQTT_PACKET_SIZE cfg);
     if r \<noteq> 1 then Some (FAILURE, True, w, c)
     else do {
       let msg = \<lparr>msg_qos = pub_qos out, msg_retained = pub_retained out, msg_dup = pub_dup out,
                  msg_id = pub_packetid out, msg_payload = pub_payload out,
                  msg_payloadlen = word_of_int (pub_payloadlen out)\<rparr>;
       c \<leftarrow> Cpp_cycle_deliver cfg c (pub_topicName out) msg;
       if \<not> (MQTTCLIENT_QOS1 cfg \<or> MQTTCLIENT_QOS2 cfg)
       then Some (SUCCESS, False, w, c\<lparr>cl_ping_outstanding := False\<rparr>)
       else if msg_qos msg = 0 then Some (SUCCESS, False, w, c)
       else do {
         (buf, len) \<leftarrow>
           (if msg_qos msg = 1
            then MQTTSerialize_ack (cl_sendbuf c) (MAX_MQTT_PACKET_SIZE cfg) (msgType_code PUBACK) 0 (msg_id msg)
            else if msg_qos msg = 2
            then MQTTSerialize_ack (cl_sendbuf c) (MAX_MQTT_PACKET_SIZE cfg) (msgType_code PUBREC) 0 (msg_id msg)
            else Some (cl_sendbuf c, 0));
         let c = c\<lparr>cl_sendbuf := buf\<rparr>;
         (rc, w, c) \<leftarrow> (if len \<le> 0 then Some (FAILURE, w, c) else Cpp_sendPacket n w c len timer);
         Some (rc, rc = FAILURE, w, c) } } }"

definition Cpp_cycle_pubrec_pubrel ::
  "client_config \<Rightarrow> ('w, 't) net_ops \<Rightarrow> 'w \<Rightarrow> ('t, 'h) CppClient \<Rightarrow> 't \<Rightarrow> int
   \<Rightarrow> (int \<times> bool \<times> 'w \<times> ('t, 'h) CppClient) option" where
  "Cpp_cycle_pubrec_pubrel cfg n w c timer packet_type = do {
     (r, out) \<leftarrow> MQTTDeserialize_ack \<lparr>ack_packettype = 0, ack_dup = 0, ack_packetid = 0\<rparr>
        (cl_readbuf c) (MAX_MQTT_PACKET_SIZE cfg);
     if r \<noteq> 1 then Some (FAILURE, True, w, c)
     else do {
       (buf, len) \<leftarrow> MQTTSerialize_ack (cl_sendbuf c) (MAX_MQTT_PACKET_SIZE cfg)
          (if packet_type = 5 then msgType_code PUBREL else msgType_code PUBCOMP) 0 (ack_packetid out);
       let c = c\<lparr>cl_sendbuf := buf\<rparr>;
       if len \<le> 0 then Some (FAILURE, True, w, c)
       else do {
         (rc, w, c) \<leftarrow> Cpp_sendPacket n w c len timer;
         let rc = (if rc \<noteq> SUCCESS then FAILURE else rc);
         if rc = FAILURE then Some (rc, True, w, c)
         else Some (rc, False, w, if packet_type = 6 then Cpp_freeQoS2msgid c (ack_packetid out) else c) } } }"

definition Cpp_cycle_dispatch ::
  "client_config \<Rightarrow> ('w, 't) net_ops \<Rightarrow> 'w \<Rightarrow> ('t, 'h) CppClient \<Rightarrow> 't \<Rightarrow> int
   \<Rightarrow> (int \<times> bool \<times> 'w \<times> ('t, 'h) CppClient) option" where
  "Cpp_cycle_dispatch cfg n w c timer packet_type =
     (if packet_type \<in> {0, 2, 4, 9, 11} then Some (SUCCESS, False, w, c)
      else if packet_type = 3 then Cpp_cycle_publish cfg n w c timer
      else if MQTTCLIENT_QOS2 cfg \<and> (packet_type = 5 \<or> packet_type = 6)
      then Cpp_cycle_pubrec_pubrel cfg n w c timer packet_type
      else if MQTTCLIENT_QOS2 cfg \<and> packet_type = 7 then Some (SUCCESS, False, w, c)
      else if packet_type = 13 then Some (SUCCESS, False, w, c\<lparr>cl_ping_outstanding := False\<rparr>)
      else Some (packet_type, True, w, c))"

definition Cpp_keepalive ::
  "client_config \<Rightarrow> ('w, 't) net_ops \<Rightarrow> 'w \<Rightarrow> ('t, 'h) CppClient \<Rightarrow> (int \<times> 'w \<times> ('t, 'h) CppClient) option" where
  "Cpp_keepalive cfg n w c =
     (if cl_keepAliveInterval c = 0 then Some (SUCCESS, w, c)
      else if cl_ping_outstanding c
      then let (e, w) = timer_expired n w (cl_ping_sent c) in Some (if e then FAILURE else SUCCESS, w, c)
      else do {
        let (e, w) = timer_expired n w (cl_last_sent c);
        let (e, w) = (if e then (True, w) else timer_expired n w (cl_last_received c));
        if \<not> e then Some (SUCCESS, w, c)
        else do {
          let (timer, w) = Timer_ms n w 1000;
          (buf, len) \<leftarrow> MQTTSerialize_pingreq (cl_sendbuf c) (MAX_MQTT_PACKET_SIZE cfg);
          let c = c\<lparr>cl_sendbuf := buf\<rparr>;
          if len > 0
          then do {
            (rc, w, c) \<leftarrow> Cpp_sendPacket n w c len timer;
            if rc = SUCCESS
            then let (t, w) = timer_countdown n w (cl_ping_sent c) (int_of_size (cl_keepAliveInterval c))
                 in Some (rc, w, c\<lparr>cl_ping_outstanding := True, cl_ping_sent := t\<rparr>)
            else Some (rc, w, c) }
          else Some (SUCCESS, w, c) } })"

definition Cpp_cycle ::
  "client_config \<Rightarrow> ('w, 't) net_ops \<Rightarrow> 'w \<Rightarrow> ('t, 'h) CppClient \<Rightarrow> 't \<Rightarrow> (int \<times> 'w \<times> ('t, 'h) CppClient) option" where
  "Cpp_cycle cfg n w c timer = do {
     (packet_type, w, c) \<leftarrow> Cpp_readPacket cfg n w c timer;
     (rc, leave, w, c) \<leftarrow> Cpp_cycle_dispatch cfg n w c timer packet_type;
     (rc, w, c) \<leftarrow>
       (if leave then Some (rc, w, c)
        else do {
          (k, w, c) \<leftarrow> Cpp_keepalive cfg n w c;
          Some (if k \<noteq> SUCCESS then FAILURE else rc, w, c) });
     if rc = SUCCESS then Some (packet_type, w, c)
     else Some (rc, w, if cl_isconnected c then Cpp_closeSession cfg c else c) }"

partial_function (option) Cpp_yield_loop ::
  "client_config \<Rightarrow> ('w, 't) net_ops \<Rightarrow> 'w \<Rightarrow> ('t, 'h) CppClient \<Rightarrow> 't \<Rightarrow> (int \<times> 'w \<times> ('t, 'h) CppClient) option" where
  "Cpp_yield_loop cfg n w c timer =
     (case timer_expired n w timer of (expired, w) \<Rightarrow>
        if expired then Some (SUCCESS, w, c)
        else Option.bind (Cpp_cycle cfg n w c timer) (\<lambda>(rc, w, c).
          if rc < 0 then Some (FAILURE, w, c) else Cpp_yield_loop cfg n w c timer))"

declare Cpp_yield_loop.simps [code]

definition Cpp_yield ::
  "client_config \<Rightarrow> ('w, 't) net_ops \<Rightarrow> 'w \<Rightarrow> ('t, 'h) CppClient \<Rightarrow> u32 \<Rightarrow> (int \<times> 'w \<times> ('t, 'h) CppClient) option" where
  "Cpp_yield cfg n w c timeout_ms = do {
     let (timer, w) = Timer_new n w;
     let (timer, w) = timer_countdown_ms n w timer timeout_ms;
     Cpp_yield_loop cfg n w c timer }"

partial_function (option) Cpp_waitfor_loop ::
  "client_config \<Rightarrow> ('w, 't) net_ops \<Rightarrow> 'w \<Rightarrow> ('t, 'h) CppClient \<Rightarrow> int \<Rightarrow> 't \<Rightarrow> int \<Rightarrow> (int \<times> 'w \<times> ('t, 'h) CppClient) option" where
  "Cpp_waitfor_loop cfg n w c packet_type timer rc =
     (case timer_expired n w timer of (expired, w) \<Rightarrow>
        if expired then Some (rc, w, c)
        else Option.bind (Cpp_cycle cfg n w c timer) (\<lambda>(rc, w, c).
          if rc \<noteq> packet_type \<and> rc \<ge> 0 then Cpp_waitfor_loop cfg n w c packet_type timer rc
          else Some (rc, w, c)))"

declare Cpp_waitfor_loop.simps [code]

definition Cpp_waitfor ::
  "client_config \<Rightarrow> ('w, 't) net_ops \<Rightarrow> 'w \<Rightarrow> ('t, 'h) CppClient \<Rightarrow> int \<Rightarrow> 't \<Rightarrow> (int \<times> 'w \<times> ('t, 'h) CppClient) option" where
  "Cpp_waitfor cfg n w c packet_type timer = Cpp_waitfor_loop cfg n w c packet_type timer FAILURE"

subsection \<open>Publishing\<close>

text \<open>Waiting for \<open>PUBACK\<close> (4) or \<open>PUBCOMP\<close> (7); the acknowledgement of the publication in flight clears it.\<close>

definition Cpp_await_ack ::
  "client_config \<Rightarrow> ('w, 't) net_ops \<Rightarrow> 'w \<Rightarrow> ('t, 'h) CppClient \<Rightarrow> int \<Rightarrow> 't \<Rightarrow> (int \<times> 'w \<times> ('t, 'h) CppClient) option" where
  "Cpp_await_ack cfg n w c packet_type timer = do {
     (t, w, c) \<leftarrow> Cpp_waitfor cfg n w c packet_type timer;
     if t = packet_type
     then do {
       (r, out) \<leftarrow> MQTTDeserialize_ack \<lparr>ack_packettype = 0, ack_dup = 0, ack_packetid = 0\<rparr>
          (cl_readbuf c) (MAX_MQTT_PACKET_SIZE cfg);
       if r \<noteq> 1 then Some (FAILURE, w, c)
       else Some (SUCCESS, w, if cl_inflightMsgid c = ack_packetid out then c\<lparr>cl_inflightMsgid := 0\<rparr> else c) }
     else Some (FAILURE, w, c) }"

text \<open>The private \<open>publish(len, timer, qos)\<close>: send what is in the send buffer.\<close>

definition Cpp_publish_buf ::
  "client_config \<Rightarrow> ('w, 't) net_ops \<Rightarrow> 'w \<Rightarrow> ('t, 'h) CppClient \<Rightarrow> int \<Rightarrow> 't \<Rightarrow> int \<Rightarrow> (int \<times> 'w \<times> ('t, 'h) CppClient) option" where
  "Cpp_publish_buf cfg n w c len timer qos = do {
     (rc, w, c) \<leftarrow> Cpp_sendPacket n w c len timer;
     (rc, w, c) \<leftarrow>
       (if rc \<noteq> SUCCESS then Some (rc, w, c)
        else if MQTTCLIENT_QOS1 cfg \<and> qos = 1 then Cpp_await_ack cfg n w c 4 timer
        else if MQTTCLIENT_QOS2 cfg \<and> qos = 2 then Cpp_await_ack cfg n w c 7 timer
        else Some (rc, w, c));
     Some (rc, w, if rc \<noteq> SUCCESS then Cpp_closeSession cfg c else c) }"

text \<open>QoS 1 and 2 take the next packet identifier; in a session that is kept, the packet is stored for a resend.\<close>

definition Cpp_take_id :: "client_config \<Rightarrow> ('t, 'h) CppClient \<Rightarrow> u16 \<Rightarrow> int \<Rightarrow> u16 \<times> ('t, 'h) CppClient" where
  "Cpp_take_id cfg c i qos =
     (if (MQTTCLIENT_QOS1 cfg \<or> MQTTCLIENT_QOS2 cfg) \<and> (qos = 1 \<or> qos = 2)
      then let (k, c) = PacketId_getNext c in (word_of_int k, c) else (i, c))"

definition Cpp_store_inflight ::
  "client_config \<Rightarrow> ('t, 'h) CppClient \<Rightarrow> u16 \<Rightarrow> int \<Rightarrow> int \<Rightarrow> ('t, 'h) CppClient option" where
  "Cpp_store_inflight cfg c i len qos =
     (if (MQTTCLIENT_QOS1 cfg \<or> MQTTCLIENT_QOS2 cfg) \<and> \<not> cl_cleansession c
      then do {
        pubbuf \<leftarrow> put_bytes (cl_pubbuf c) 0 (take (nat len) (cl_sendbuf c));
        let c = c\<lparr>cl_pubbuf := pubbuf, cl_inflightMsgid := i, cl_inflightLen := len, cl_inflightQoS := qos\<rparr>;
        Some (if MQTTCLIENT_QOS2 cfg then c\<lparr>cl_pubrel := False\<rparr> else c) }
      else Some c)"

text \<open>\<open>publish(topicName, payload, payloadlen, id, qos, retained)\<close>; the reference \<open>id\<close> is passed and returned.\<close>

definition Cpp_publish_id ::
  "client_config \<Rightarrow> ('w, 't) net_ops \<Rightarrow> 'w \<Rightarrow> ('t, 'h) CppClient \<Rightarrow> byte list \<Rightarrow> cptr \<Rightarrow> u32 \<Rightarrow> u16 \<Rightarrow> int \<Rightarrow> byte
   \<Rightarrow> (int \<times> 'w \<times> ('t, 'h) CppClient \<times> u16) option" where
  "Cpp_publish_id cfg n w c topicName payload payloadlen i qos retained = do {
     let (timer, w) = Timer_ms n w (int_of_size (cl_command_timeout_ms c));
     if \<not> cl_isconnected c then Some (FAILURE, w, c, i)
     else do {
       let (i, c) = Cpp_take_id cfg c i qos;
       (buf, len) \<leftarrow> MQTTSerialize_publish (cl_sendbuf c) (MAX_MQTT_PACKET_SIZE cfg) 0 qos retained i
          (MQTTString_initializer\<lparr>cstring := Some topicName\<rparr>) payload (int_of_size payloadlen);
       let c = c\<lparr>cl_sendbuf := buf\<rparr>;
       if len \<le> 0 then Some (FAILURE, w, c, i)
       else do {
         c \<leftarrow> Cpp_store_inflight cfg c i len qos;
         (rc, w, c) \<leftarrow> Cpp_publish_buf cfg n w c len timer qos;
         Some (rc, w, c, i) } } }"

definition Cpp_publish ::
  "client_config \<Rightarrow> ('w, 't) net_ops \<Rightarrow> 'w \<Rightarrow> ('t, 'h) CppClient \<Rightarrow> byte list \<Rightarrow> cptr \<Rightarrow> u32 \<Rightarrow> int \<Rightarrow> byte
   \<Rightarrow> (int \<times> 'w \<times> ('t, 'h) CppClient) option" where
  "Cpp_publish cfg n w c topicName payload payloadlen qos retained = do {
     (rc, w, c, _) \<leftarrow> Cpp_publish_id cfg n w c topicName payload payloadlen 0 qos retained;
     Some (rc, w, c) }"

definition Cpp_publish_message ::
  "client_config \<Rightarrow> ('w, 't) net_ops \<Rightarrow> 'w \<Rightarrow> ('t, 'h) CppClient \<Rightarrow> byte list \<Rightarrow> MQTTMessage
   \<Rightarrow> (int \<times> 'w \<times> ('t, 'h) CppClient) option" where
  "Cpp_publish_message cfg n w c topicName message =
     Cpp_publish cfg n w c topicName (msg_payload message) (msg_payloadlen message) (msg_qos message) (msg_retained message)"

subsection \<open>Connecting\<close>

text \<open>Resending the publication in flight; without one, the return code stays as it is.\<close>

definition Cpp_resend_inflight ::
  "client_config \<Rightarrow> ('w, 't) net_ops \<Rightarrow> 'w \<Rightarrow> ('t, 'h) CppClient \<Rightarrow> 't \<Rightarrow> int \<Rightarrow> (int \<times> 'w \<times> ('t, 'h) CppClient) option" where
  "Cpp_resend_inflight cfg n w c timer rc =
     (if MQTTCLIENT_QOS2 cfg \<and> cl_inflightMsgid c > 0 \<and> cl_inflightQoS c = 2 \<and> cl_pubrel c
      then do {
        (buf, len) \<leftarrow> MQTTSerialize_ack (cl_sendbuf c) (MAX_MQTT_PACKET_SIZE cfg) (msgType_code PUBREL) 0 (cl_inflightMsgid c);
        let c = c\<lparr>cl_sendbuf := buf\<rparr>;
        if len \<le> 0 then Some (FAILURE, w, c) else Cpp_publish_buf cfg n w c len timer (cl_inflightQoS c) }
      else if (MQTTCLIENT_QOS1 cfg \<or> MQTTCLIENT_QOS2 cfg) \<and> cl_inflightMsgid c > 0
      then do {
        buf \<leftarrow> put_bytes (cl_sendbuf c) 0 (take (nat (MAX_MQTT_PACKET_SIZE cfg)) (cl_pubbuf c));
        Cpp_publish_buf cfg n w (c\<lparr>cl_sendbuf := buf\<rparr>) (cl_inflightLen c) timer (cl_inflightQoS c) }
      else Some (rc, w, c))"

text \<open>Starting the keep-alive timer of received packets, and reading the CONNACK if there is one.\<close>

definition Cpp_start_received :: "('w, 't) net_ops \<Rightarrow> 'w \<Rightarrow> ('t, 'h) CppClient \<Rightarrow> 'w \<times> ('t, 'h) CppClient" where
  "Cpp_start_received n w c =
     (if cl_keepAliveInterval c > 0
      then let (t, w) = timer_countdown n w (cl_last_received c) (int_of_size (cl_keepAliveInterval c))
           in (w, c\<lparr>cl_last_received := t\<rparr>)
      else (w, c))"

definition Cpp_read_connack ::
  "client_config \<Rightarrow> ('t, 'h) CppClient \<Rightarrow> int \<Rightarrow> connackData \<Rightarrow> (int \<times> connackData) option" where
  "Cpp_read_connack cfg c packet_type data =
     (if packet_type = 2
      then do {
        (r, out) \<leftarrow> MQTTDeserialize_connack \<lparr>ca_sessionPresent = 0, ca_connack_rc = 0\<rparr>
           (cl_readbuf c) (MAX_MQTT_PACKET_SIZE cfg);
        let data = \<lparr>cd_rc = uint (ca_connack_rc out), cd_sessionPresent = ca_sessionPresent out \<noteq> 0\<rparr>;
        Some (if r = 1 then cd_rc data else FAILURE, data) }
      else Some (FAILURE, data))"

definition Cpp_connect_data ::
  "client_config \<Rightarrow> ('w, 't) net_ops \<Rightarrow> 'w \<Rightarrow> ('t, 'h) CppClient \<Rightarrow> MQTTPacket_connectData \<Rightarrow> connackData
   \<Rightarrow> (int \<times> 'w \<times> ('t, 'h) CppClient \<times> connackData) option" where
  "Cpp_connect_data cfg n w c options data = do {
     let (connect_timer, w) = Timer_ms n w (int_of_size (cl_command_timeout_ms c));
     (rc, w, c, data) \<leftarrow>
       (if cl_isconnected c then Some (FAILURE, w, c, data)
        else do {
          let c = c\<lparr>cl_keepAliveInterval := ucast (cd_keepAliveInterval options),
                     cl_cleansession := cd_cleansession options \<noteq> 0\<rparr>;
          (buf, len) \<leftarrow> MQTTSerialize_connect (cl_sendbuf c) (MAX_MQTT_PACKET_SIZE cfg) options;
          let c = c\<lparr>cl_sendbuf := buf\<rparr>;
          if len \<le> 0 then Some (FAILURE, w, c, data)
          else do {
            (rc, w, c) \<leftarrow> Cpp_sendPacket n w c len connect_timer;
            if rc \<noteq> SUCCESS then Some (rc, w, c, data)
            else do {
              let (w, c) = Cpp_start_received n w c;
              (t, w, c) \<leftarrow> Cpp_waitfor cfg n w c 2 connect_timer;
              (rc, data) \<leftarrow> Cpp_read_connack cfg c t data;
              (rc, w, c) \<leftarrow> Cpp_resend_inflight cfg n w c connect_timer rc;
              Some (rc, w, c, data) } } });
     Some (rc, w, if rc = SUCCESS then c\<lparr>cl_isconnected := True, cl_ping_outstanding := False\<rparr> else c, data) }"

definition Cpp_connect_options ::
  "client_config \<Rightarrow> ('w, 't) net_ops \<Rightarrow> 'w \<Rightarrow> ('t, 'h) CppClient \<Rightarrow> MQTTPacket_connectData
   \<Rightarrow> (int \<times> 'w \<times> ('t, 'h) CppClient) option" where
  "Cpp_connect_options cfg n w c options = do {
     (rc, w, c, _) \<leftarrow> Cpp_connect_data cfg n w c options \<lparr>cd_rc = 0, cd_sessionPresent = False\<rparr>;
     Some (rc, w, c) }"

definition Cpp_connect ::
  "client_config \<Rightarrow> ('w, 't) net_ops \<Rightarrow> 'w \<Rightarrow> ('t, 'h) CppClient \<Rightarrow> (int \<times> 'w \<times> ('t, 'h) CppClient) option" where
  "Cpp_connect cfg n w c = Cpp_connect_options cfg n w c MQTTPacket_connectData_initializer"

subsection \<open>Handlers, subscriptions and disconnecting\<close>

definition Cpp_setDefaultMessageHandler :: "('t, 'h) CppClient \<Rightarrow> 'h option \<Rightarrow> ('t, 'h) CppClient" where
  "Cpp_setDefaultMessageHandler c mh = c\<lparr>cl_defaultMessageHandler := mh\<rparr>"

definition Cpp_setMessageHandler ::
  "('t, 'h) CppClient \<Rightarrow> byte list \<Rightarrow> 'h option \<Rightarrow> int \<times> ('t, 'h) CppClient" where
  "Cpp_setMessageHandler c topicf messageHandler =
     (let slots = cl_messageHandlers c;
          i = scan_slots (\<lambda>s. topicFilter s = Some topicf) slots;
          (rc, slots) =
            (if i < length slots
             then (SUCCESS, if messageHandler = None then slots[i := \<lparr>topicFilter = None, fp = None\<rparr>] else slots)
             else (FAILURE, slots))
      in if messageHandler \<noteq> None
         then let (i, rc) =
                    (if rc = FAILURE
                     then let i = scan_slots (\<lambda>s. topicFilter s = None) slots
                          in (i, if i < length slots then SUCCESS else rc)
                     else (i, rc));
                  slots = (if i < length slots
                           then slots[i := \<lparr>topicFilter = Some topicf, fp = messageHandler\<rparr>] else slots)
              in (rc, c\<lparr>cl_messageHandlers := slots\<rparr>)
         else (rc, c\<lparr>cl_messageHandlers := slots\<rparr>))"

definition Cpp_subscribe_data ::
  "char_abi \<Rightarrow> client_config \<Rightarrow> ('w, 't) net_ops \<Rightarrow> 'w \<Rightarrow> ('t, 'h) CppClient \<Rightarrow> byte list \<Rightarrow> int \<Rightarrow> 'h option
   \<Rightarrow> MQTTSubackData \<Rightarrow> (int \<times> 'w \<times> ('t, 'h) CppClient \<times> MQTTSubackData) option" where
  "Cpp_subscribe_data abi cfg n w c topicf qos messageHandler data = do {
     let (timer, w) = Timer_ms n w (int_of_size (cl_command_timeout_ms c));
     let topic = \<lparr>cstring = Some topicf, lenstring = \<lparr>ls_len = 0, ls_data = None\<rparr>\<rparr>;
     (rc, w, c, data) \<leftarrow>
       (if \<not> cl_isconnected c then Some (FAILURE, w, c, data)
        else do {
          let (i, c) = PacketId_getNext c;
          (buf, len) \<leftarrow> MQTTSerialize_subscribe (cl_sendbuf c) (MAX_MQTT_PACKET_SIZE cfg) 0 (word_of_int i) 1 [topic] [qos];
          let c = c\<lparr>cl_sendbuf := buf\<rparr>;
          if len \<le> 0 then Some (FAILURE, w, c, data)
          else do {
            (rc, w, c) \<leftarrow> Cpp_sendPacket n w c len timer;
            if rc \<noteq> SUCCESS then Some (rc, w, c, data)
            else do {
              (t, w, c) \<leftarrow> Cpp_waitfor cfg n w c 9 timer;
              if t = 9
              then do {
                (r, out) \<leftarrow> MQTTDeserialize_suback abi 1 \<lparr>sa_packetid = 0, sa_count = 0, sa_grantedQoSs = [0]\<rparr>
                   (cl_readbuf c) (MAX_MQTT_PACKET_SIZE cfg);
                let data = \<lparr>grantedQoS = hd (sa_grantedQoSs out)\<rparr>;
                if r = 1 \<and> grantedQoS data \<noteq> 128
                then let (rc, c) = Cpp_setMessageHandler c topicf messageHandler in Some (rc, w, c, data)
                else Some (rc, w, c, data) }
              else Some (FAILURE, w, c, data) } } });
     Some (rc, w, if rc = FAILURE then Cpp_closeSession cfg c else c, data) }"

definition Cpp_subscribe ::
  "char_abi \<Rightarrow> client_config \<Rightarrow> ('w, 't) net_ops \<Rightarrow> 'w \<Rightarrow> ('t, 'h) CppClient \<Rightarrow> byte list \<Rightarrow> int \<Rightarrow> 'h option
   \<Rightarrow> (int \<times> 'w \<times> ('t, 'h) CppClient) option" where
  "Cpp_subscribe abi cfg n w c topicf qos messageHandler = do {
     (rc, w, c, _) \<leftarrow> Cpp_subscribe_data abi cfg n w c topicf qos messageHandler \<lparr>grantedQoS = 0\<rparr>;
     Some (rc, w, c) }"

definition Cpp_unsubscribe ::
  "client_config \<Rightarrow> ('w, 't) net_ops \<Rightarrow> 'w \<Rightarrow> ('t, 'h) CppClient \<Rightarrow> byte list \<Rightarrow> (int \<times> 'w \<times> ('t, 'h) CppClient) option" where
  "Cpp_unsubscribe cfg n w c topicf = do {
     let (timer, w) = Timer_ms n w (int_of_size (cl_command_timeout_ms c));
     let topic = \<lparr>cstring = Some topicf, lenstring = \<lparr>ls_len = 0, ls_data = None\<rparr>\<rparr>;
     (rc, w, c) \<leftarrow>
       (if \<not> cl_isconnected c then Some (FAILURE, w, c)
        else do {
          let (i, c) = PacketId_getNext c;
          (buf, len) \<leftarrow> MQTTSerialize_unsubscribe (cl_sendbuf c) (MAX_MQTT_PACKET_SIZE cfg) 0 (word_of_int i) 1 [topic];
          let c = c\<lparr>cl_sendbuf := buf\<rparr>;
          if len \<le> 0 then Some (FAILURE, w, c)
          else do {
            (rc, w, c) \<leftarrow> Cpp_sendPacket n w c len timer;
            if rc \<noteq> SUCCESS then Some (rc, w, c)
            else do {
              (t, w, c) \<leftarrow> Cpp_waitfor cfg n w c 11 timer;
              if t = 11
              then do {
                (r, mypacketid) \<leftarrow> MQTTDeserialize_unsuback 0 (cl_readbuf c) (MAX_MQTT_PACKET_SIZE cfg);
                Some (rc, w, if r = 1 then snd (Cpp_setMessageHandler c topicf None) else c) }
              else Some (FAILURE, w, c) } } });
     Some (rc, w, if rc \<noteq> SUCCESS then Cpp_closeSession cfg c else c) }"

definition Cpp_disconnect ::
  "client_config \<Rightarrow> ('w, 't) net_ops \<Rightarrow> 'w \<Rightarrow> ('t, 'h) CppClient \<Rightarrow> (int \<times> 'w \<times> ('t, 'h) CppClient) option" where
  "Cpp_disconnect cfg n w c = do {
     let (timer, w) = Timer_ms n w (int_of_size (cl_command_timeout_ms c));
     (buf, len) \<leftarrow> MQTTSerialize_disconnect (cl_sendbuf c) (MAX_MQTT_PACKET_SIZE cfg);
     let c = c\<lparr>cl_sendbuf := buf\<rparr>;
     (rc, w, c) \<leftarrow> (if len > 0 then Cpp_sendPacket n w c len timer else Some (FAILURE, w, c));
     Some (rc, w, Cpp_closeSession cfg c) }"

end
