(* ===== verification/MQTT_Cpp_Safety.thy ===== *)
theory MQTT_Cpp_Safety
  imports MQTT_Cpp_Client
begin

text \<open>
  The C++ client on a network and timers that keep their contract, the locale \<open>cpp_platform\<close>: a read returns and
  stores at most the bytes asked for, a write takes any part of the bytes it is given and only writes send bytes, and a
  timer that is found not to have expired runs down. There every method returns, keeps the invariant of the client, writes
  nothing behind the read buffer, and a negative result leaves the session closed.
\<close>

subsection \<open>Filling a buffer from its start\<close>

definition overlay :: "byte list \<Rightarrow> buffer \<Rightarrow> buffer" where
  "overlay xs buf = xs @ drop (length xs) buf"

lemma overlay_Nil [simp]: "overlay [] buf = buf"
  by (simp add: overlay_def)

lemma length_overlay [simp]: "length xs \<le> length buf \<Longrightarrow> length (overlay xs buf) = length buf"
  by (simp add: overlay_def)

lemma drop_overlay: "length xs \<le> k \<Longrightarrow> drop k (overlay xs buf) = drop k buf"
  by (simp add: overlay_def)

lemma put_bytes_overlay:
  "length xs + length bs \<le> length buf \<Longrightarrow> k = length xs \<Longrightarrow>
   put_bytes (overlay xs buf) k bs = Some (overlay (xs @ bs) buf)"
  by (simp add: put_bytes_def overlay_def add.commute)

lemma encode_overlay:
  assumes "1 + length (varint m) \<le> length buf"
  shows "MQTTPacket_encode (overlay [h] buf, 1) (int m) = Some (overlay (h # varint m) buf, int (length (varint m)))"
proof -
  have "MQTTPacket_encode (overlay [h] buf, 1) (int m) =
    Some (([h] @ varint m) @ drop (length ([h] @ varint m)) (overlay [h] buf), int (length (varint m)))"
    using encode_loop_emit [of 1 0 "[h]" "overlay [h] buf" m] assms by (simp add: MQTTPacket_encode_def overlay_def)
  then show ?thesis
    by (simp add: overlay_def)
qed

lemma readChar_overlay: "readChar (0, overlay (h # xs) buf) = Some (h, 1, tl (overlay (h # xs) buf))"
  by (simp add: readChar_def ptr_add_def overlay_def)

lemma holds_packet_overlay:
  assumes "n < 268435456" "1 + length (varint n) + n + 2 \<le> length buf" "length xs \<le> n"
  shows "holds_packet (uint (header_type h)) (overlay (h # varint n @ xs) buf)"
  by (rule holds_packetI [where n = n]) (use assms in \<open>simp_all add: overlay_def\<close>)

subsection \<open>The invariant\<close>

text \<open>No identifier of a QoS 2 message is entered twice; 0 marks a free entry.\<close>

definition qos2_table_ok :: "u16 list \<Rightarrow> bool" where
  "qos2_table_ok ms \<longleftrightarrow> distinct (filter (\<lambda>m. m \<noteq> 0) ms)"

text \<open>The buffers have the size of the template argument. Behind \<open>readbuf\<close> the object goes on with its timers; the deserialiser reads up to two bytes of them when a PUBLISH that fills the buffer has no
  identifier, and \<open>cl_readbuf\<close> counts this memory. No method writes it.\<close>

definition Cpp_inv :: "client_config \<Rightarrow> ('t, 'h) CppClient \<Rightarrow> bool" where
  "Cpp_inv cfg c \<longleftrightarrow>
     5 \<le> MAX_MQTT_PACKET_SIZE cfg \<and> int (length (cl_sendbuf c)) = MAX_MQTT_PACKET_SIZE cfg \<and>
     int (length (cl_pubbuf c)) = MAX_MQTT_PACKET_SIZE cfg \<and>
     MAX_MQTT_PACKET_SIZE cfg + 2 \<le> int (length (cl_readbuf c)) \<and>
     0 \<le> cl_packetid c \<and> cl_packetid c \<le> 65535 \<and>
     slots_ok (cl_messageHandlers c) \<and> filters_are_cstrings (cl_messageHandlers c) \<and>
     ((MQTTCLIENT_QOS1 cfg \<or> MQTTCLIENT_QOS2 cfg) \<and> cl_inflightMsgid c \<noteq> 0 \<longrightarrow>
        0 < cl_inflightLen c \<and> cl_inflightLen c \<le> MAX_MQTT_PACKET_SIZE cfg) \<and>
     (MQTTCLIENT_QOS2 cfg \<longrightarrow> qos2_table_ok (cl_incomingQoS2messages c))"

text \<open>The memory behind the read buffer.\<close>

definition behind :: "client_config \<Rightarrow> ('t, 'h) CppClient \<Rightarrow> byte list" where
  "behind cfg c = drop (nat (MAX_MQTT_PACKET_SIZE cfg)) (cl_readbuf c)"

text \<open>Arguments of \<open>publish\<close> that make a packet.\<close>

definition publishable :: "byte list \<Rightarrow> cptr \<Rightarrow> u32 \<Rightarrow> int \<Rightarrow> byte \<Rightarrow> bool" where
  "publishable topic payload payloadlen qos retained \<longleftrightarrow>
     (\<forall>i. publish_ok (0, qos, retained, i, MQTTString_initializer\<lparr>cstring := Some topic\<rparr>, payload, int_of_size payloadlen))"

lemma Cpp_invD:
  assumes "Cpp_inv cfg c"
  shows "5 \<le> MAX_MQTT_PACKET_SIZE cfg" "int (length (cl_sendbuf c)) = MAX_MQTT_PACKET_SIZE cfg"
    "int (length (cl_pubbuf c)) = MAX_MQTT_PACKET_SIZE cfg"
    "MAX_MQTT_PACKET_SIZE cfg + 2 \<le> int (length (cl_readbuf c))"
    "filters_are_cstrings (cl_messageHandlers c)" "slots_ok (cl_messageHandlers c)"
  using assms by (simp_all add: Cpp_inv_def)

lemma Cpp_inv_update [simp]:
  "Cpp_inv cfg (c\<lparr>cl_last_sent := t\<rparr>) = Cpp_inv cfg c"
  "Cpp_inv cfg (c\<lparr>cl_last_received := t\<rparr>) = Cpp_inv cfg c"
  "Cpp_inv cfg (c\<lparr>cl_ping_sent := t\<rparr>) = Cpp_inv cfg c"
  "Cpp_inv cfg (c\<lparr>cl_ping_outstanding := b\<rparr>) = Cpp_inv cfg c"
  "Cpp_inv cfg (c\<lparr>cl_isconnected := b\<rparr>) = Cpp_inv cfg c"
  "Cpp_inv cfg (c\<lparr>cl_delivered := d\<rparr>) = Cpp_inv cfg c"
  "Cpp_inv cfg (c\<lparr>cl_keepAliveInterval := k\<rparr>) = Cpp_inv cfg c"
  "Cpp_inv cfg (c\<lparr>cl_cleansession := b\<rparr>) = Cpp_inv cfg c"
  "Cpp_inv cfg (c\<lparr>cl_pubrel := b\<rparr>) = Cpp_inv cfg c"
  "Cpp_inv cfg (c\<lparr>cl_defaultMessageHandler := dh\<rparr>) = Cpp_inv cfg c"
  by (simp_all add: Cpp_inv_def)

lemma behind_update [simp]:
  "behind cfg (c\<lparr>cl_last_sent := t\<rparr>) = behind cfg c"
  "behind cfg (c\<lparr>cl_last_received := t\<rparr>) = behind cfg c"
  "behind cfg (c\<lparr>cl_ping_sent := t\<rparr>) = behind cfg c"
  "behind cfg (c\<lparr>cl_ping_outstanding := b\<rparr>) = behind cfg c"
  "behind cfg (c\<lparr>cl_isconnected := b\<rparr>) = behind cfg c"
  "behind cfg (c\<lparr>cl_delivered := d\<rparr>) = behind cfg c"
  "behind cfg (c\<lparr>cl_keepAliveInterval := k\<rparr>) = behind cfg c"
  "behind cfg (c\<lparr>cl_cleansession := b\<rparr>) = behind cfg c"
  "behind cfg (c\<lparr>cl_sendbuf := buf\<rparr>) = behind cfg c"
  "behind cfg (c\<lparr>cl_pubbuf := buf\<rparr>) = behind cfg c"
  "behind cfg (c\<lparr>cl_packetid := i\<rparr>) = behind cfg c"
  "behind cfg (c\<lparr>cl_pubrel := b\<rparr>) = behind cfg c"
  "behind cfg (c\<lparr>cl_inflightMsgid := m\<rparr>) = behind cfg c"
  "behind cfg (c\<lparr>cl_inflightLen := i\<rparr>) = behind cfg c"
  "behind cfg (c\<lparr>cl_inflightQoS := i\<rparr>) = behind cfg c"
  "behind cfg (c\<lparr>cl_incomingQoS2messages := ms\<rparr>) = behind cfg c"
  "behind cfg (c\<lparr>cl_messageHandlers := hs\<rparr>) = behind cfg c"
  by (simp_all add: behind_def)

text \<open>What is kept for sending a publication again, and whether the client is connected.\<close>

definition inflight :: "('t, 'h) CppClient \<Rightarrow> buffer \<times> int \<times> u16 \<times> int \<times> bool" where
  "inflight c = (cl_pubbuf c, cl_inflightLen c, cl_inflightMsgid c, cl_inflightQoS c, cl_pubrel c)"

definition kept :: "('t, 'h) CppClient \<Rightarrow> ('t, 'h) CppClient \<Rightarrow> bool" where
  "kept c c' \<longleftrightarrow> inflight c' = inflight c \<and> cl_cleansession c' = cl_cleansession c \<and> cl_isconnected c' = cl_isconnected c"

lemma kept_update [simp]:
  "kept c c"
  "kept c (c'\<lparr>cl_last_sent := t\<rparr>) = kept c c'"
  "kept c (c'\<lparr>cl_last_received := t\<rparr>) = kept c c'"
  "kept c (c'\<lparr>cl_ping_sent := t\<rparr>) = kept c c'"
  "kept c (c'\<lparr>cl_ping_outstanding := b\<rparr>) = kept c c'"
  "kept c (c'\<lparr>cl_delivered := d\<rparr>) = kept c c'"
  "kept c (c'\<lparr>cl_sendbuf := buf\<rparr>) = kept c c'"
  "kept c (c'\<lparr>cl_readbuf := buf\<rparr>) = kept c c'"
  "kept c (c'\<lparr>cl_incomingQoS2messages := ms\<rparr>) = kept c c'"
  by (simp_all add: kept_def inflight_def)

lemma kept_trans: "kept c c' \<Longrightarrow> kept c' c'' \<Longrightarrow> kept c c''"
  by (simp add: kept_def)

text \<open>What closing a session leaves of it: everything, if the client was not connected; what is in flight, if the session is not
  a clean one.\<close>

definition held :: "('t, 'h) CppClient \<Rightarrow> ('t, 'h) CppClient \<Rightarrow> bool" where
  "held c c' \<longleftrightarrow> (\<not> cl_isconnected c \<longrightarrow> kept c c') \<and>
     (\<not> cl_cleansession c \<longrightarrow> inflight c' = inflight c \<and> cl_cleansession c' = cl_cleansession c)"

lemma held_refl [simp]: "held c c"
  by (simp add: held_def)

lemma held_trans: "held c c' \<Longrightarrow> held c' c'' \<Longrightarrow> held c c''"
  by (auto simp: held_def kept_def)

lemma kept_held: "kept c c' \<Longrightarrow> held c c'"
  by (simp add: held_def kept_def)

lemma kept_free [simp]: "kept c (Cpp_freeQoS2msgid c' i) = kept c c'"
  by (simp add: Cpp_freeQoS2msgid_def Let_def)

lemma Cpp_inv_sendbuf:
  "Cpp_inv cfg c \<Longrightarrow> length buf = length (cl_sendbuf c) \<Longrightarrow> Cpp_inv cfg (c\<lparr>cl_sendbuf := buf\<rparr>)"
  by (simp add: Cpp_inv_def)

lemma Cpp_inv_readbuf:
  "Cpp_inv cfg c \<Longrightarrow> length buf = length (cl_readbuf c) \<Longrightarrow> Cpp_inv cfg (c\<lparr>cl_readbuf := buf\<rparr>)"
  by (simp add: Cpp_inv_def)

lemma Cpp_inv_acked: "Cpp_inv cfg c \<Longrightarrow> Cpp_inv cfg (c\<lparr>cl_inflightMsgid := 0\<rparr>)"
  by (simp add: Cpp_inv_def)

lemma Cpp_inv_getNext: "Cpp_inv cfg c \<Longrightarrow> PacketId_getNext c = (i, c') \<Longrightarrow> Cpp_inv cfg c'"
  by (auto simp: PacketId_getNext_def Cpp_inv_def Let_def split: if_splits)

lemma getNext_frame:
  "PacketId_getNext c = (i, c') \<Longrightarrow> c' = c\<lparr>cl_packetid := i\<rparr>"
  by (auto simp: PacketId_getNext_def Let_def)

lemma qos2_clean: "qos2_table_ok (map (\<lambda>_. 0) ms)"
  by (simp add: qos2_table_ok_def filter_map o_def)

lemma Cpp_inv_close [simp]: "Cpp_inv cfg c \<Longrightarrow> Cpp_inv cfg (Cpp_closeSession cfg c)"
  by (simp add: Cpp_closeSession_def Cpp_cleanSession_def Cpp_inv_def Let_def slots_ok_clean filters_are_cstrings_def qos2_clean)

lemma Cpp_close_frame [simp]:
  "cl_readbuf (Cpp_closeSession cfg c) = cl_readbuf c"
  "\<not> cl_isconnected (Cpp_closeSession cfg c)"
  "behind cfg (Cpp_closeSession cfg c) = behind cfg c"
  by (simp_all add: Cpp_closeSession_def Cpp_cleanSession_def Let_def)

lemma kept_close: "\<not> cl_cleansession c \<Longrightarrow> inflight (Cpp_closeSession cfg c) = inflight c \<and> cl_cleansession (Cpp_closeSession cfg c) = cl_cleansession c"
  by (simp add: Cpp_closeSession_def inflight_def Let_def)

text \<open>The table of QoS 2 identifiers as a set of at most as many elements as it has entries.\<close>

lemma qos2_use:
  assumes "qos2_table_ok ms" "i \<notin> set ms" "k < length ms" "ms ! k = 0"
  shows "qos2_table_ok (ms[k := i]) \<and> set (ms[k := i]) - {0} = insert i (set ms) - {0}"
proof -
  have ms: "ms = take k ms @ 0 # drop (Suc k) ms"
    using assms(3,4) by (metis id_take_nth_drop)
  have u: "ms[k := i] = take k ms @ i # drop (Suc k) ms"
    using assms(3) by (simp add: upd_conv_take_nth_drop)
  have d: "distinct (filter (\<lambda>m. m \<noteq> 0) (take k ms) @ filter (\<lambda>m. m \<noteq> 0) (drop (Suc k) ms))"
    using assms(1) unfolding qos2_table_ok_def by (subst (asm) ms) simp
  have s: "set ms = insert 0 (set (take k ms) \<union> set (drop (Suc k) ms))"
    by (subst ms) auto
  show ?thesis
    unfolding u qos2_table_ok_def using d assms(2) s by auto
qed

lemma qos2_free:
  assumes "qos2_table_ok ms" "k < length ms" "ms ! k = i"
  shows "qos2_table_ok (ms[k := 0]) \<and> set (ms[k := 0]) - {0} = set ms - {0, i}"
proof -
  have ms: "ms = take k ms @ i # drop (Suc k) ms"
    using assms(2,3) by (metis id_take_nth_drop)
  have u: "ms[k := 0] = take k ms @ 0 # drop (Suc k) ms"
    using assms(2) by (simp add: upd_conv_take_nth_drop)
  have d: "distinct (filter (\<lambda>m. m \<noteq> 0) (take k ms) @ (if i \<noteq> 0 then [i] else []) @ filter (\<lambda>m. m \<noteq> 0) (drop (Suc k) ms))"
    using assms(1) unfolding qos2_table_ok_def by (subst (asm) ms) (auto split: if_splits)
  have s: "set ms = insert i (set (take k ms) \<union> set (drop (Suc k) ms))"
    by (subst ms) auto
  show ?thesis
    unfolding u qos2_table_ok_def using d s by (auto split: if_splits)
qed

lemma use_state:
  "Cpp_useQoS2msgid c i = (ok, c') \<Longrightarrow> \<exists>ms. c' = c\<lparr>cl_incomingQoS2messages := ms\<rparr>"
  by (auto simp: Cpp_useQoS2msgid_def Let_def split: if_splits intro: exI [of _ "cl_incomingQoS2messages c"])

lemma Cpp_inv_use:
  assumes "Cpp_inv cfg c" "Cpp_isQoS2msgidFree c i" "Cpp_useQoS2msgid c i = (ok, c')"
  shows "Cpp_inv cfg c'"
proof (cases "scan_slots (\<lambda>m. m = 0) (cl_incomingQoS2messages c) < length (cl_incomingQoS2messages c)")
  case True
  then show ?thesis
    using assms scan_slots_found [OF True] qos2_use [of "cl_incomingQoS2messages c" i _]
    by (auto simp: Cpp_useQoS2msgid_def Cpp_isQoS2msgidFree_def list_ex_iff Cpp_inv_def Let_def)
next
  case False
  then show ?thesis
    using assms by (auto simp: Cpp_useQoS2msgid_def Let_def)
qed

lemma Cpp_inv_free: "Cpp_inv cfg c \<Longrightarrow> Cpp_inv cfg (Cpp_freeQoS2msgid c i)"
  using scan_slots_found [of "\<lambda>m. m = i" "cl_incomingQoS2messages c"] qos2_free [of "cl_incomingQoS2messages c" _ i]
  by (auto simp: Cpp_freeQoS2msgid_def Cpp_inv_def Let_def)

lemma Cpp_free_frame [simp]:
  "cl_readbuf (Cpp_freeQoS2msgid c i) = cl_readbuf c" "behind cfg (Cpp_freeQoS2msgid c i) = behind cfg c"
  by (simp_all add: Cpp_freeQoS2msgid_def Let_def)

lemma Cpp_setMessageHandler_slots:
  "Cpp_setMessageHandler c f h =
     (fst (set_slot (cl_messageHandlers c) f h), c\<lparr>cl_messageHandlers := snd (set_slot (cl_messageHandlers c) f h)\<rparr>)"
proof (cases h)
  case None
  then show ?thesis
    by (simp add: Cpp_setMessageHandler_def set_slot_def Let_def)
next
  case (Some x)
  then show ?thesis
    by (cases "scan_slots (\<lambda>s. topicFilter s = Some f) (cl_messageHandlers c) < length (cl_messageHandlers c)")
       (simp_all add: Cpp_setMessageHandler_def set_slot_def Let_def)
qed

lemma Cpp_inv_set:
  "Cpp_inv cfg c \<Longrightarrow> h = None \<or> 0 \<notin> set f \<Longrightarrow> Cpp_inv cfg (snd (Cpp_setMessageHandler c f h))"
  using set_slot_spec [of "cl_messageHandlers c" f h] set_slot_frame [of "cl_messageHandlers c" h f]
  by (auto simp: Cpp_setMessageHandler_slots Cpp_inv_def)

lemma Cpp_set_frame [simp]:
  "cl_readbuf (snd (Cpp_setMessageHandler c f h)) = cl_readbuf c"
  "behind cfg (snd (Cpp_setMessageHandler c f h)) = behind cfg c"
  by (simp_all add: Cpp_setMessageHandler_slots)

subsection \<open>Delivery\<close>

definition Cpp_slot_target :: "byte list \<Rightarrow> 'h MessageHandlers \<Rightarrow> 'h option" where
  "Cpp_slot_target topic slot =
     (case topicFilter slot of
        Some f \<Rightarrow> if topic = f \<or> Cpp_topic_matches f topic then fp slot else None
      | None \<Rightarrow> None)"

definition Cpp_targets :: "('t, 'h) CppClient \<Rightarrow> byte list \<Rightarrow> 'h list" where
  "Cpp_targets c topic =
     (let hs = List.map_filter (Cpp_slot_target topic) (cl_messageHandlers c)
      in if hs = [] then (case cl_defaultMessageHandler c of Some h \<Rightarrow> [h] | None \<Rightarrow> []) else hs)"

lemma Cpp_slot_matches_topic:
  assumes "topic_ok t" "\<And>f. topicFilter s = Some f \<Longrightarrow> 0 \<notin> set f"
  shows "Cpp_slot_matches t s =
    Some (\<exists>f. topicFilter s = Some f \<and> (topic_bytes t = f \<or> Cpp_topic_matches f (topic_bytes t)))"
  using assms
  by (cases "topicFilter s")
     (auto simp: Cpp_slot_matches_def MQTTPacket_equals_topic Cpp_isTopicMatched_def topic_bytes_def topic_ok_def Let_def)

lemma Cpp_deliver_loop_targets:
  assumes "topic_ok t" "filters_are_cstrings slots"
  shows "Cpp_deliverMessage_loop t m slots rc calls =
    (let hs = List.map_filter (Cpp_slot_target (topic_bytes t)) slots
     in Some (if hs = [] then rc else SUCCESS, calls @ map (\<lambda>h. (h, NewMessageData t m)) hs))"
  using assms(2)
proof (induction slots arbitrary: rc calls)
  case Nil
  then show ?case by (simp add: List.map_filter_def)
next
  case (Cons s slots)
  have s: "Cpp_slot_matches t s =
    Some (\<exists>f. topicFilter s = Some f \<and> (topic_bytes t = f \<or> Cpp_topic_matches f (topic_bytes t)))"
    using Cons.prems by (intro Cpp_slot_matches_topic [OF assms(1)]) (auto simp: filters_are_cstrings_def)
  have IH: "filters_are_cstrings slots"
    using Cons.prems by (simp add: filters_are_cstrings_def)
  show ?case
    using s Cons.IH [OF IH] by (cases "Cpp_slot_target (topic_bytes t) s")
      (auto simp: Cpp_slot_target_def List.map_filter_def Let_def split: option.splits if_splits bool.splits)
qed

lemma Cpp_deliverMessage_targets:
  assumes "topic_ok t" "filters_are_cstrings (cl_messageHandlers c)"
  shows "Cpp_deliverMessage c t m =
    Some (if Cpp_targets c (topic_bytes t) = [] then FAILURE else SUCCESS,
          c\<lparr>cl_delivered := cl_delivered c @ map (\<lambda>h. (h, NewMessageData t m)) (Cpp_targets c (topic_bytes t))\<rparr>)"
  by (cases "cl_defaultMessageHandler c")
     (simp_all add: Cpp_deliverMessage_def Cpp_deliver_loop_targets [OF assms] Cpp_targets_def Let_def)

lemma Cpp_cycle_deliver_returns:
  assumes "Cpp_inv cfg c" "topic_ok t"
  shows "\<exists>ms ds. Cpp_cycle_deliver cfg c t msg = Some (c\<lparr>cl_incomingQoS2messages := ms, cl_delivered := ds\<rparr>) \<and>
    Cpp_inv cfg (c\<lparr>cl_incomingQoS2messages := ms\<rparr>)"
proof -
  have same: "c\<lparr>cl_incomingQoS2messages := ms, cl_delivered := cl_delivered c\<rparr> = c\<lparr>cl_incomingQoS2messages := ms\<rparr>" for ms
    by (cases c) simp
  obtain ok c' where u: "Cpp_useQoS2msgid c (msg_id msg) = (ok, c')" by force
  obtain ms where c': "c' = c\<lparr>cl_incomingQoS2messages := ms\<rparr>"
    using use_state [OF u] by blast
  note d = Cpp_deliverMessage_targets [OF assms(2), of c msg] Cpp_deliverMessage_targets [OF assms(2), of c' msg]
  have f: "filters_are_cstrings (cl_messageHandlers c)" "filters_are_cstrings (cl_messageHandlers c')"
    using assms(1) c' by (simp_all add: Cpp_inv_def)
  show ?thesis
  proof (cases "MQTTCLIENT_QOS2 cfg \<and> msg_qos msg = 2 \<and> Cpp_isQoS2msgidFree c (msg_id msg)")
    case True
    then have "Cpp_inv cfg c'" using Cpp_inv_use [OF assms(1) _ u] by blast
    then show ?thesis
      using u f d c' True same
      by (intro exI [of _ ms] exI [of _ "if ok then cl_delivered c @ map (\<lambda>h. (h, NewMessageData t msg)) (Cpp_targets c' (topic_bytes t)) else cl_delivered c"])
         (simp add: Cpp_cycle_deliver_def)
  next
    case False
    then show ?thesis
      using f d same [of "cl_incomingQoS2messages c"] assms(1)
      by (intro exI [of _ "cl_incomingQoS2messages c"]
          exI [of _ "if MQTTCLIENT_QOS2 cfg \<and> msg_qos msg = 2 then cl_delivered c
            else cl_delivered c @ map (\<lambda>h. (h, NewMessageData t msg)) (Cpp_targets c (topic_bytes t))"])
         (auto simp: Cpp_cycle_deliver_def)
  qed
qed


subsection \<open>The platform\<close>

locale cpp_platform =
  fixes n :: "('w, 't) net_ops"
    and ticks :: "'w \<Rightarrow> 't \<Rightarrow> nat"
    and sent :: "'w \<Rightarrow> byte list"
  assumes read_returns: "0 < k \<Longrightarrow> \<exists>rc bs w'. ipstack_read n w k t = Some (rc, bs, w') \<and>
      int (length bs) \<le> k \<and> (rc > 0 \<longrightarrow> rc = int (length bs))"
    and time_read: "ipstack_read n w k t = Some (rc, bs, w') \<Longrightarrow> ticks w' s \<le> ticks w s \<and> sent w' = sent w"
    and write_count: "ipstack_write n w bs t = (rc, w') \<Longrightarrow> rc \<le> int (length bs)"
    and writes: "ipstack_write n w bs t = (rc, w') \<Longrightarrow> ticks w' s \<le> ticks w s \<and> sent w' = sent w @ take (nat rc) bs"
    and runs_down: "timer_expired n w timer = (False, w') \<Longrightarrow> ticks w' timer < ticks w timer"
    and time_new: "Timer_new n w = (timer, w') \<Longrightarrow> ticks w' s \<le> ticks w s \<and> sent w' = sent w"
    and time_ms: "Timer_ms n w ms = (timer, w') \<Longrightarrow> ticks w' s \<le> ticks w s \<and> sent w' = sent w"
    and time_expired: "timer_expired n w timer = (e, w') \<Longrightarrow> ticks w' s \<le> ticks w s \<and> sent w' = sent w"
    and time_countdown_ms: "timer_countdown_ms n w timer m = (timer', w') \<Longrightarrow> ticks w' s \<le> ticks w s \<and> sent w' = sent w"
    and time_countdown: "timer_countdown n w timer sec = (timer', w') \<Longrightarrow> ticks w' s \<le> ticks w s \<and> sent w' = sent w"
    and time_left: "timer_left_ms n w timer = (l, w') \<Longrightarrow> ticks w' s \<le> ticks w s \<and> sent w' = sent w"
begin

lemma reads:
  assumes "0 < k"
  shows "\<exists>rc bs w'. ipstack_read n w k t = Some (rc, bs, w') \<and> int (length bs) \<le> k \<and> (rc > 0 \<longrightarrow> rc = int (length bs)) \<and>
    (\<forall>s. ticks w' s \<le> ticks w s) \<and> sent w' = sent w"
  using read_returns [OF assms, of w t] time_read by blast

text \<open>Time advances and more bytes are sent.\<close>

definition later :: "'w \<Rightarrow> 'w \<Rightarrow> bool" where
  "later w w' \<longleftrightarrow> (\<forall>s. ticks w' s \<le> ticks w s) \<and> (\<exists>ys. sent w' = sent w @ ys)"

lemma later_refl [simp]: "later w w"
  by (simp add: later_def)

lemma later_trans [trans]: "later w w' \<Longrightarrow> later w' w'' \<Longrightarrow> later w w''"
  unfolding later_def by (metis append.assoc order_trans)

lemma later_ops:
  "ipstack_write n w bs t = (rc, w') \<Longrightarrow> later w w'"
  "Timer_new n w = (timer, w') \<Longrightarrow> later w w'"
  "Timer_ms n w ms = (timer, w') \<Longrightarrow> later w w'"
  "timer_expired n w timer = (e, w') \<Longrightarrow> later w w'"
  "timer_countdown_ms n w timer m = (timer', w') \<Longrightarrow> later w w'"
  "timer_countdown n w timer sec = (timer', w') \<Longrightarrow> later w w'"
  "timer_left_ms n w timer = (l, w') \<Longrightarrow> later w w'"
  using writes time_new time_ms time_expired time_countdown_ms time_countdown time_left
  unfolding later_def by (metis append_Nil2)+

text \<open>A step that keeps the contract: time advances, the invariant holds, and the memory behind the read buffer is the
  same.\<close>

definition safe_step :: "client_config \<Rightarrow> 'w \<Rightarrow> ('t, 'h) CppClient \<Rightarrow> 'w \<Rightarrow> ('t, 'h) CppClient \<Rightarrow> bool" where
  "safe_step cfg w c w' c' \<longleftrightarrow> later w w' \<and> Cpp_inv cfg c' \<and> behind cfg c' = behind cfg c"

lemma safe_step_trans:
  "safe_step cfg w c w' c' \<Longrightarrow> safe_step cfg w' c' w'' c'' \<Longrightarrow> safe_step cfg w c w'' c''"
  unfolding safe_step_def using later_trans by metis

lemma safe_step_inv: "safe_step cfg w c w' c' \<Longrightarrow> Cpp_inv cfg c'"
  by (simp add: safe_step_def)

lemma safe_step_close: "safe_step cfg w c w' c' \<Longrightarrow> safe_step cfg w c w' (Cpp_closeSession cfg c')"
  by (simp add: safe_step_def)

lemma sendPacket_loop_returns:
  assumes "0 \<le> s0" "s0 \<le> len" "len \<le> int (length buf)"
  shows "\<exists>s1 w'. Cpp_sendPacket_loop n w buf len timer s0 = Some (s1, w') \<and> later w w'"
  using assms(1,2)
proof (induction "ticks w timer" arbitrary: w s0 rule: less_induct)
  case less
  obtain l w1 where l: "timer_left_ms n w timer = (l, w1)" by force
  let ?bs = "take (nat (len - s0)) (drop (nat s0) buf)"
  have win: "write_window buf s0 (len - s0) = Some ?bs" "int (length ?bs) = len - s0"
    using assms(3) less.prems by (simp_all add: write_window_def nat_diff_distrib')
  obtain rc w2 where rc: "ipstack_write n w1 ?bs l = (rc, w2)" by force
  obtain e w3 where e: "timer_expired n w2 timer = (e, w3)" by force
  have w2: "later w w2" and w3: "later w w3"
    using later_ops(7) [OF l] later_ops(1) [OF rc] later_ops(4) [OF e] later_trans by blast+
  note step = Cpp_sendPacket_loop.simps [of n w buf len timer s0] l win(1) rc e
  consider "\<not> s0 < len" | "s0 < len" "rc < 0" | "s0 < len" "0 \<le> rc" e | "s0 < len" "0 \<le> rc" "\<not> e"
    by linarith
  then show ?case
  proof cases
    case 4
    have "ticks w3 timer < ticks w timer"
      using runs_down [of w2 timer w3] e 4(3) w2 by (fastforce simp: later_def intro: less_le_trans)
    then obtain s' w' where "Cpp_sendPacket_loop n w3 buf len timer (s0 + rc) = Some (s', w')" "later w3 w'"
      using less.hyps [of w3 "s0 + rc"] less.prems 4(2) write_count [OF rc] win(2) by auto
    then show ?thesis
      using step 4 later_trans [OF w3] by auto
  qed (use step w2 w3 in simp_all)
qed

lemma sendPacket_returns:
  assumes "Cpp_inv cfg c" "0 \<le> len" "len \<le> MAX_MQTT_PACKET_SIZE cfg"
  shows "\<exists>rc w' t. Cpp_sendPacket n w c len timer = Some (rc, w', c\<lparr>cl_last_sent := t\<rparr>) \<and>
    (rc = SUCCESS \<or> rc = FAILURE) \<and> later w w'"
proof -
  obtain s0 w1 where s: "Cpp_sendPacket_loop n w (cl_sendbuf c) len timer 0 = Some (s0, w1)" "later w w1"
    using sendPacket_loop_returns [of 0 len "cl_sendbuf c" w timer] assms Cpp_invD(2) [OF assms(1)] by auto
  obtain t w2 where t: "timer_countdown n w1 (cl_last_sent c) (int_of_size (cl_keepAliveInterval c)) = (t, w2)" by force
  have same: "c\<lparr>cl_last_sent := cl_last_sent c\<rparr> = c" by simp
  show ?thesis
  proof (cases "s0 = len \<and> cl_keepAliveInterval c > 0")
    case True
    then show ?thesis
      using s t later_trans [OF s(2) later_ops(6) [OF t]]
      by (intro exI [of _ SUCCESS] exI [of _ w2] exI [of _ t]) (simp add: Cpp_sendPacket_def)
  next
    case False
    then show ?thesis
      using s by (intro exI [of _ "if s0 = len then SUCCESS else FAILURE"] exI [of _ w1] exI [of _ "cl_last_sent c"])
        (auto simp: Cpp_sendPacket_def same)
  qed
qed

lemma sendPacket_step:
  assumes "Cpp_inv cfg c" "0 \<le> len" "len \<le> MAX_MQTT_PACKET_SIZE cfg"
  shows "\<exists>rc w' c'. Cpp_sendPacket n w c len timer = Some (rc, w', c') \<and> (rc = SUCCESS \<or> rc = FAILURE) \<and>
    safe_step cfg w c w' c' \<and> cl_readbuf c' = cl_readbuf c \<and> kept c c'"
proof -
  obtain rc w' t where "Cpp_sendPacket n w c len timer = Some (rc, w', c\<lparr>cl_last_sent := t\<rparr>)"
    "rc = SUCCESS \<or> rc = FAILURE" "later w w'"
    using sendPacket_returns [OF assms] by blast
  then show ?thesis
    using assms(1) by (simp add: safe_step_def)
qed

lemma decodePacket_returns:
  "\<exists>len m w'. Cpp_decodePacket n w timeout = Some (len, int m, w') \<and> m < 268435456 \<and> later w w'"
proof -
  have "\<exists>len' v' w'. MQTTPacket_decode_loop (\<lambda>w k. ipstack_read n w k timeout) w len m v = Some (len', v', w') \<and> later w w'"
    for len m v
  proof (induction "nat (4 - len)" arbitrary: w len m v rule: less_induct)
    case less
    obtain rc bs w1 where r: "ipstack_read n w 1 timeout = Some (rc, bs, w1)" "rc > 0 \<longrightarrow> rc = int (length bs)" and w1: "later w w1"
      using reads [of 1 w timeout] by (auto simp: later_def)
    have bs: "bs \<noteq> []" if "rc = 1" using r(2) that by auto
    note step = MQTTPacket_decode_loop.simps [of "\<lambda>w k. ipstack_read n w k timeout" w len m v]
    show ?case
    proof (cases "len + 1 > 4 \<or> rc \<noteq> 1")
      case True
      then show ?thesis using step r w1 by (auto simp: Let_def)
    next
      case False
      then obtain c cs where c: "bs = c # cs" using bs by (cases bs) auto
      have "nat (4 - (len + 1)) < nat (4 - len)" using False by simp
      then obtain len' v' w' where "MQTTPacket_decode_loop (\<lambda>w k. ipstack_read n w k timeout) w1 (len + 1) (m * 128)
          (v + uint (c AND 127) * m) = Some (len', v', w')" "later w1 w'"
        using less by blast
      then show ?thesis
        using step r(1) c False w1 later_trans [OF w1] by (auto simp: Let_def)
    qed
  qed
  then obtain len v w' where d: "Cpp_decodePacket n w timeout = Some (len, v, w')" "later w w'"
    unfolding Cpp_decodePacket_def MQTTPacket_decode_def by blast
  then have "0 \<le> v" "v < 268435456"
    using decode_loop_bounds [of "\<lambda>w k. ipstack_read n w k timeout" w 0 1 0 len v w']
    by (simp_all add: Cpp_decodePacket_def MQTTPacket_decode_def)
  then show ?thesis
    using d by (intro exI [of _ len] exI [of _ "nat v"] exI [of _ w']) simp
qed

lemma readPacket_body_returns:
  assumes "cl_readbuf c = overlay (h # varint m) rb" "1 + length (varint m) + m \<le> length rb"
  shows "\<exists>got w' bs. Cpp_readPacket_body n w c timer (1 + int (length (varint m))) (int m) =
      Some (got, w', c\<lparr>cl_readbuf := overlay (h # varint m @ bs) rb\<rparr>) \<and> later w w' \<and> length bs \<le> m"
proof (cases "m > 0")
  case True
  obtain l w1 where l: "timer_left_ms n w timer = (l, w1)" by force
  obtain got bs w2 where r: "ipstack_read n w1 (int m) l = Some (got, bs, w2)" "length bs \<le> m" and w: "later w1 w2"
    using reads [of "int m" w1 l] True by (auto simp: later_def)
  have "put_bytes (cl_readbuf c) (nat (1 + int (length (varint m)))) bs = Some (overlay (h # varint m @ bs) rb)"
    using put_bytes_overlay [of "h # varint m" bs rb] assms r(2) by (simp add: nat_add_distrib)
  then show ?thesis
    using True l r later_trans [OF later_ops(7) [OF l] w] by (auto simp: Cpp_readPacket_body_def)
next
  case False
  then show ?thesis
    using assms(1) by (intro exI [of _ "int m"] exI [of _ w] exI [of _ "[]"]) (simp add: Cpp_readPacket_body_def)
qed

lemma readPacket_returns:
  assumes "Cpp_inv cfg c"
  shows "\<exists>rc w' xs t. Cpp_readPacket cfg n w c timer =
      Some (rc, w', c\<lparr>cl_readbuf := overlay xs (cl_readbuf c), cl_last_received := t\<rparr>) \<and>
    later w w' \<and> int (length xs) \<le> MAX_MQTT_PACKET_SIZE cfg \<and> (rc \<le> 0 \<or> holds_packet rc (overlay xs (cl_readbuf c)))"
proof -
  let ?rb = "cl_readbuf c" and ?max = "MAX_MQTT_PACKET_SIZE cfg"
  have same: "c\<lparr>cl_readbuf := b, cl_last_received := cl_last_received c\<rparr> = c\<lparr>cl_readbuf := b\<rparr>" for b
    by (cases c) simp
  have size: "5 \<le> ?max" "?max + 2 \<le> int (length ?rb)"
    using assms by (simp_all add: Cpp_inv_def)
  obtain l1 w1 where l1: "timer_left_ms n w timer = (l1, w1)" by force
  obtain rc bs w2 where r: "ipstack_read n w1 1 l1 = Some (rc, bs, w2)" "length bs \<le> 1" "rc > 0 \<longrightarrow> rc = int (length bs)"
    and w12: "later w1 w2"
    using reads [of 1 w1 l1] by (auto simp: later_def)
  have w2: "later w w2" using later_trans [OF later_ops(7) [OF l1] w12] .
  have b1: "put_bytes ?rb 0 bs = Some (overlay bs ?rb)"
    using put_bytes_overlay [of "[]" bs ?rb 0] r(2) size by simp
  note start = Cpp_readPacket_def [of cfg n w c timer] l1 r(1) b1
  show ?thesis
  proof (cases "rc = 1")
    case False
    then show ?thesis
      using w2 r(2) size by (intro exI [of _ 0] exI [of _ w2] exI [of _ bs] exI [of _ "cl_last_received c"]) (simp add: start same)
  next
    case True
    then obtain h where h: "bs = [h]"
      using r(3) by (cases bs) auto
    obtain l2 w3 where l2: "timer_left_ms n w2 timer = (l2, w3)" by force
    obtain len m w4 where d: "Cpp_decodePacket n w3 l2 = Some (len, int m, w4)" "m < 268435456" "later w3 w4"
      using decodePacket_returns by blast
    have w4: "later w w4"
      using w2 later_ops(7) [OF l2] d(3) later_trans by blast
    have v: "1 \<le> length (varint m)" "length (varint m) \<le> 4"
      using d(2) by (simp_all add: length_varint)
    have b2: "MQTTPacket_encode (overlay [h] ?rb, 1) (int m) = Some (overlay (h # varint m) ?rb, int (length (varint m)))"
      using v size by (intro encode_overlay) linarith
    note start2 = start [unfolded h] True l2 d(1) b2 [unfolded One_nat_def]
    show ?thesis
    proof (cases "int m > ?max - (1 + int (length (varint m)))")
      case over: True
      then show ?thesis
        using w4 v size
        by (intro exI [of _ "-2"] exI [of _ w4] exI [of _ "h # varint m"] exI [of _ "cl_last_received c"]) (simp add: start2 same)
    next
      case fits: False
      then have room: "1 + length (varint m) + m + 2 \<le> length ?rb"
        using size(2) by linarith
      obtain got w5 xs where body: "Cpp_readPacket_body n w4 (c\<lparr>cl_readbuf := overlay (h # varint m) ?rb\<rparr>) timer
          (1 + int (length (varint m))) (int m) = Some (got, w5, c\<lparr>cl_readbuf := overlay (h # varint m @ xs) ?rb\<rparr>)"
        and g: "later w w5" "length xs \<le> m"
        using readPacket_body_returns [of "c\<lparr>cl_readbuf := overlay (h # varint m) ?rb\<rparr>" h m ?rb w4 timer] room
          later_trans [OF w4] by auto
      obtain t w6 where t: "timer_countdown n w5 (cl_last_received c) (int_of_size (cl_keepAliveInterval c)) = (t, w6)" by force
      note tail = holds_packet_overlay [OF d(2) room g(2), of h] g fits t later_trans [OF g(1) later_ops(6) [OF t]]
      let ?xs = "h # varint m @ xs"
      show ?thesis
      proof (cases "got = int m \<and> cl_keepAliveInterval c > 0")
        case True
        then show ?thesis
          using tail by (intro exI [of _ "uint (header_type h)"] exI [of _ w6] exI [of _ ?xs] exI [of _ t])
            (simp add: start2 body readChar_overlay)
      next
        case False
        then show ?thesis
          using tail by (intro exI [of _ "if got = int m then uint (header_type h) else FAILURE"] exI [of _ w5]
              exI [of _ ?xs] exI [of _ "cl_last_received c"]) (auto simp: same start2 body readChar_overlay)
      qed
    qed
  qed
qed


text \<open>A serialiser has put \<open>len\<close> bytes into the send buffer.\<close>

definition serialised :: "('t, 'h) CppClient \<Rightarrow> buffer \<Rightarrow> int \<Rightarrow> bool" where
  "serialised c buf len \<longleftrightarrow> length buf = length (cl_sendbuf c) \<and> len \<le> int (length (cl_sendbuf c))"

lemma serialised_step:
  assumes "Cpp_inv cfg c" "serialised c buf len"
  shows "safe_step cfg w c w (c\<lparr>cl_sendbuf := buf\<rparr>)"
  using assms Cpp_inv_sendbuf [OF assms(1), of buf] by (simp add: safe_step_def serialised_def)

lemma send_serialised:
  assumes "Cpp_inv cfg c" "serialised c buf len" "0 < len"
  shows "\<exists>rc w' c'. Cpp_sendPacket n w (c\<lparr>cl_sendbuf := buf\<rparr>) len timer = Some (rc, w', c') \<and>
    (rc = SUCCESS \<or> rc = FAILURE) \<and> safe_step cfg w c w' c' \<and> cl_readbuf c' = cl_readbuf c \<and>
    kept c c'"
proof -
  let ?c = "c\<lparr>cl_sendbuf := buf\<rparr>"
  note s = serialised_step [OF assms(1,2)]
  have "len \<le> MAX_MQTT_PACKET_SIZE cfg"
    using assms(1,2) Cpp_invD(2) [OF assms(1)] by (simp add: serialised_def)
  then show ?thesis
    using sendPacket_step [OF safe_step_inv [OF s], of len w timer] assms(3) safe_step_trans [OF s] kept_trans [of c ?c]
    by fastforce
qed

lemma ack_serialised:
  assumes "Cpp_inv cfg c"
  shows "\<exists>buf len. MQTTSerialize_ack (cl_sendbuf c) (MAX_MQTT_PACKET_SIZE cfg) ty d i = Some (buf, len) \<and> serialised c buf len"
  using ack.memory_safe [where a = "(ty, d, i)" and buf = "cl_sendbuf c" and buflen = "MAX_MQTT_PACKET_SIZE cfg"]
    Cpp_invD [OF assms] by (auto simp: serialised_def)

lemma zero_serialised:
  assumes "Cpp_inv cfg c"
  shows "\<exists>buf len. MQTTSerialize_zero (cl_sendbuf c) (MAX_MQTT_PACKET_SIZE cfg) ty = Some (buf, len) \<and> serialised c buf len"
  using zero.memory_safe [where a = ty and buf = "cl_sendbuf c" and buflen = "MAX_MQTT_PACKET_SIZE cfg"]
    Cpp_invD [OF assms] by (auto simp: serialised_def)

lemma keepalive_step:
  assumes "Cpp_inv cfg c"
  shows "\<exists>rc w' c'. Cpp_keepalive cfg n w c = Some (rc, w', c') \<and> safe_step cfg w c w' c' \<and>
    cl_readbuf c' = cl_readbuf c \<and> kept c c'"
proof (cases "cl_keepAliveInterval c = 0 \<or> cl_ping_outstanding c")
  case True
  obtain e w1 where e: "timer_expired n w (cl_ping_sent c) = (e, w1)" by force
  show ?thesis
    using True assms later_ops(4) [OF e] by (auto simp: Cpp_keepalive_def e safe_step_def)
next
  case False
  obtain e1 w1 where e1: "timer_expired n w (cl_last_sent c) = (e1, w1)" by force
  obtain e2 w2 where e2: "(if e1 then (True, w1) else timer_expired n w1 (cl_last_received c)) = (e2, w2)" by force
  have w2: "later w w2"
    using later_ops(4) [OF e1] later_trans [OF later_ops(4) [OF e1] later_ops(4), of "cl_last_received c" e2 w2] e2
    by (auto split: if_splits)
  have off: "cl_keepAliveInterval c \<noteq> 0" "\<not> cl_ping_outstanding c" using False by simp_all
  note start = Cpp_keepalive_def [of cfg n w c] off e1 e2
  show ?thesis
  proof (cases e2)
    case no: False
    with assms w2 show ?thesis
      by (simp add: start safe_step_def)
  next
    case True
    obtain t3 w3 where t3: "Timer_ms n w2 1000 = (t3, w3)" by force
    have w3: "later w w3"
      using later_trans [OF w2 later_ops(3) [OF t3]] .
    obtain buf len where b: "MQTTSerialize_pingreq (cl_sendbuf c) (MAX_MQTT_PACKET_SIZE cfg) = Some (buf, len)" "serialised c buf len"
      using zero_serialised [OF assms, of "msgType_code PINGREQ"] by (auto simp: MQTTSerialize_pingreq_def)
    show ?thesis
    proof (cases "len > 0")
      case len: True
      then obtain rc w5 c5 where s: "Cpp_sendPacket n w3 (c\<lparr>cl_sendbuf := buf\<rparr>) len t3 = Some (rc, w5, c5)" "safe_step cfg w3 c w5 c5"
        "cl_readbuf c5 = cl_readbuf c" "kept c c5"
        using send_serialised [OF assms b(2) len, of w3 t3] by blast
      obtain t w6 where t: "timer_countdown n w5 (cl_ping_sent c5) (int_of_size (cl_keepAliveInterval c5)) = (t, w6)" by force
      show ?thesis
        using True len t3 b(1) s t later_trans [OF w3] later_trans later_ops(6) [OF t]
        by (auto simp: start safe_step_def)
    next
      case len: False
      then show ?thesis
        using True t3 b(1) w3 serialised_step [OF assms b(2), of w] by (simp add: start safe_step_def)
    qed
  qed
qed

lemma cycle_publish_step:
  assumes "Cpp_inv cfg c" "holds_packet t (cl_readbuf c)"
  shows "\<exists>rc leave w' c'. Cpp_cycle_publish cfg n w c timer = Some (rc, leave, w', c') \<and> safe_step cfg w c w' c' \<and>
    cl_readbuf c' = cl_readbuf c \<and> rc \<le> 0 \<and> kept c c'"
proof -
  obtain r out where r: "MQTTDeserialize_publish publish_out_zero (cl_readbuf c) (MAX_MQTT_PACKET_SIZE cfg) = Some (r, out)"
    "r = 1 \<longrightarrow> topic_ok (pub_topicName out)"
    using publish_total [OF assms(2) assms(2), of publish_out_zero "MAX_MQTT_PACKET_SIZE cfg"]
    by (auto simp: publish_out_zero_def MQTTString_initializer_def)
  show ?thesis
  proof (cases "r = 1")
    case False
    then show ?thesis using r assms(1) by (auto simp: Cpp_cycle_publish_def safe_step_def)
  next
    case True
    define msg where "msg = \<lparr>msg_qos = pub_qos out, msg_retained = pub_retained out, msg_dup = pub_dup out,
        msg_id = pub_packetid out, msg_payload = pub_payload out, msg_payloadlen = word_of_int (pub_payloadlen out)\<rparr>"
    obtain ms ds where d: "Cpp_cycle_deliver cfg c (pub_topicName out) msg = Some (c\<lparr>cl_incomingQoS2messages := ms, cl_delivered := ds\<rparr>)"
      "Cpp_inv cfg (c\<lparr>cl_incomingQoS2messages := ms\<rparr>)"
      using Cpp_cycle_deliver_returns [OF assms(1)] r(2) True by blast
    let ?c = "c\<lparr>cl_incomingQoS2messages := ms, cl_delivered := ds\<rparr>"
    have inv: "Cpp_inv cfg ?c" and s0: "safe_step cfg w c w ?c" using d(2) by (simp_all add: safe_step_def)
    let ?ty = "msgType_code (if pub_qos out = 1 then PUBACK else PUBREC)"
    obtain buf len where b: "MQTTSerialize_ack (cl_sendbuf c) (MAX_MQTT_PACKET_SIZE cfg) ?ty 0 (pub_packetid out) = Some (buf, len)"
      "serialised ?c buf len"
      using ack_serialised [OF inv, of ?ty 0 "pub_packetid out"] by auto
    have s1: "safe_step cfg w c w (?c\<lparr>cl_sendbuf := buf\<rparr>)"
      using safe_step_trans [OF s0 serialised_step [OF inv b(2)]] .
    note start = Cpp_cycle_publish_def [of cfg n w c timer] r(1) True msg_def [symmetric] d(1)
    have m: "msg_qos msg = pub_qos out" "msg_id msg = pub_packetid out"
      by (simp_all add: msg_def)
    consider (plain) "\<not> (MQTTCLIENT_QOS1 cfg \<or> MQTTCLIENT_QOS2 cfg) \<or> pub_qos out \<notin> {1, 2}"
      | (ack) "MQTTCLIENT_QOS1 cfg \<or> MQTTCLIENT_QOS2 cfg" "pub_qos out = 1 \<or> pub_qos out = 2"
      by blast
    then show ?thesis
    proof cases
      case plain
      then show ?thesis using s0 inv by (auto simp: start m safe_step_def)
    next
      case ack
      show ?thesis
      proof (cases "len > 0")
        case True
        then obtain rc w' c' where s: "Cpp_sendPacket n w (?c\<lparr>cl_sendbuf := buf\<rparr>) len timer = Some (rc, w', c')"
          "rc = SUCCESS \<or> rc = FAILURE" "safe_step cfg w ?c w' c'" "cl_readbuf c' = cl_readbuf c" "kept c c'"
          using send_serialised [OF inv b(2) True, of w timer] kept_trans [of c ?c] by auto
        then show ?thesis
          using ack True b(1) safe_step_trans [OF s0] by (auto simp: start m split: if_splits)
      next
        case False
        then show ?thesis
          using ack b(1) s1 by (auto simp: start m split: if_splits)
      qed
    qed
  qed
qed

lemma cycle_pubrec_pubrel_step:
  assumes "Cpp_inv cfg c" "holds_packet t (cl_readbuf c)"
  shows "\<exists>rc leave w' c'. Cpp_cycle_pubrec_pubrel cfg n w c timer ty = Some (rc, leave, w', c') \<and> safe_step cfg w c w' c' \<and>
    cl_readbuf c' = cl_readbuf c \<and> rc \<le> 0 \<and> kept c c'"
proof -
  obtain r out where r: "MQTTDeserialize_ack \<lparr>ack_packettype = 0, ack_dup = 0, ack_packetid = 0\<rparr> (cl_readbuf c)
      (MAX_MQTT_PACKET_SIZE cfg) = Some (r, out)"
    using ack_total [OF assms(2)] by blast
  obtain buf len where b: "MQTTSerialize_ack (cl_sendbuf c) (MAX_MQTT_PACKET_SIZE cfg)
      (if ty = 5 then msgType_code PUBREL else msgType_code PUBCOMP) 0 (ack_packetid out) = Some (buf, len)" "serialised c buf len"
    using ack_serialised [OF assms(1)] by blast
  note start = Cpp_cycle_pubrec_pubrel_def [of cfg n w c timer ty] r b(1) [simplified]
  show ?thesis
  proof (cases "r = 1 \<and> len > 0")
    case True
    then obtain rc w' c' where s: "Cpp_sendPacket n w (c\<lparr>cl_sendbuf := buf\<rparr>) len timer = Some (rc, w', c')"
      "rc = SUCCESS \<or> rc = FAILURE" "safe_step cfg w c w' c'" "cl_readbuf c' = cl_readbuf c" "kept c c'"
      using send_serialised [OF assms(1) b(2), of w timer] by blast
    then have "safe_step cfg w c w' (Cpp_freeQoS2msgid c' (ack_packetid out))"
      by (simp add: safe_step_def Cpp_inv_free)
    with True s show ?thesis
      by (auto simp: start)
  next
    case False
    then show ?thesis
      using assms(1) serialised_step [OF assms(1) b(2)] by (auto simp: start safe_step_def)
  qed
qed

lemma cycle_dispatch_step:
  assumes "Cpp_inv cfg c" "ty \<le> 0 \<or> holds_packet ty (cl_readbuf c)"
  shows "\<exists>rc leave w' c'. Cpp_cycle_dispatch cfg n w c timer ty = Some (rc, leave, w', c') \<and> safe_step cfg w c w' c' \<and>
    cl_readbuf c' = cl_readbuf c \<and> kept c c' \<and> (rc \<le> 0 \<or> rc = ty) \<and> (ty < 0 \<longrightarrow> rc = ty \<and> leave)"
proof (cases "ty = 3 \<or> ty = 5 \<or> ty = 6")
  case True
  then have h: "holds_packet ty (cl_readbuf c)"
    using assms(2) by auto
  from True show ?thesis
    using cycle_publish_step [OF assms(1) h, of w timer] cycle_pubrec_pubrel_step [OF assms(1) h, of w timer ty] assms(1)
    by (auto simp: Cpp_cycle_dispatch_def safe_step_def)
next
  case False
  then show ?thesis
    using assms(1) by (auto simp: Cpp_cycle_dispatch_def safe_step_def)
qed

lemma cycle_step:
  assumes "Cpp_inv cfg c"
  shows "\<exists>rc w' c'. Cpp_cycle cfg n w c timer = Some (rc, w', c') \<and> safe_step cfg w c w' c' \<and>
    (rc \<le> 0 \<or> holds_packet rc (cl_readbuf c')) \<and> (rc < 0 \<longrightarrow> \<not> cl_isconnected c') \<and>
    held c c'"
proof -
  obtain ty w1 xs t where r: "Cpp_readPacket cfg n w c timer =
      Some (ty, w1, c\<lparr>cl_readbuf := overlay xs (cl_readbuf c), cl_last_received := t\<rparr>)"
    "later w w1" "int (length xs) \<le> MAX_MQTT_PACKET_SIZE cfg" "ty \<le> 0 \<or> holds_packet ty (overlay xs (cl_readbuf c))"
    using readPacket_returns [OF assms, of w timer] by blast
  let ?c = "c\<lparr>cl_readbuf := overlay xs (cl_readbuf c), cl_last_received := t\<rparr>"
  have s1: "safe_step cfg w c w1 ?c"
    using r(2,3) Cpp_inv_readbuf [OF assms, of "overlay xs (cl_readbuf c)"] Cpp_invD [OF assms] drop_overlay [of xs "nat (MAX_MQTT_PACKET_SIZE cfg)"]
    by (auto simp: safe_step_def behind_def)
  obtain rc leave w2 c2 where d: "Cpp_cycle_dispatch cfg n w1 ?c timer ty = Some (rc, leave, w2, c2)" "safe_step cfg w1 ?c w2 c2"
    "cl_readbuf c2 = overlay xs (cl_readbuf c)" "kept c c2" "rc \<le> 0 \<or> rc = ty" "ty < 0 \<longrightarrow> rc = ty \<and> leave"
    using cycle_dispatch_step [OF safe_step_inv [OF s1], of ty w1 timer] r(4) kept_trans [of c ?c] by auto
  obtain k w3 c3 where k: "Cpp_keepalive cfg n w2 c2 = Some (k, w3, c3)" "safe_step cfg w2 c2 w3 c3" "cl_readbuf c3 = cl_readbuf c2" "kept c c3"
    using keepalive_step [OF safe_step_inv [OF d(2)], of w2] kept_trans [OF d(4)] by auto
  have s2: "safe_step cfg w c w2 c2" and s3: "safe_step cfg w c w3 c3"
    using safe_step_trans s1 d(2) k(2) by blast+
  note close = s2 s3 safe_step_close [OF s2] safe_step_close [OF s3]
  note start = Cpp_cycle_def [of cfg n w c timer] r(1) d(1) k(1)
  show ?thesis
  proof (cases leave)
    case True
    then show ?thesis
      using r(4) d(3-6) close kept_close by (auto simp: start kept_def held_def)
  next
    case False
    then show ?thesis
      using r(4) d(3,5,6) k(3,4) close kept_close by (auto simp: start kept_def held_def)
  qed
qed

lemma waitfor_loop_step:
  assumes "Cpp_inv cfg c" "rc0 \<le> 0 \<or> rc0 \<noteq> ty" "0 < ty"
  shows "\<exists>rc w' c'. Cpp_waitfor_loop cfg n w c ty timer rc0 = Some (rc, w', c') \<and> safe_step cfg w c w' c' \<and>
    (rc = ty \<longrightarrow> holds_packet ty (cl_readbuf c')) \<and> held c c'"
  using assms(1,2)
proof (induction "ticks w timer" arbitrary: w c rc0 rule: less_induct)
  case less
  obtain e w1 where e: "timer_expired n w timer = (e, w1)" by force
  have s1: "safe_step cfg w c w1 c" using later_ops(4) [OF e] less.prems(1) by (simp add: safe_step_def)
  note step = Cpp_waitfor_loop.simps [of cfg n w c ty timer rc0] e
  show ?case
  proof (cases e)
    case True
    then show ?thesis
      using less.prems assms(3) s1 by (auto simp: step)
  next
    case False
    obtain rc w2 c2 where cy: "Cpp_cycle cfg n w1 c timer = Some (rc, w2, c2)" "safe_step cfg w1 c w2 c2"
      "rc \<le> 0 \<or> holds_packet rc (cl_readbuf c2)" "held c c2"
      using cycle_step [OF less.prems(1), of w1 timer] by blast
    note s2 = safe_step_trans [OF s1 cy(2)]
    show ?thesis
    proof (cases "rc \<noteq> ty \<and> rc \<ge> 0")
      case True
      have "ticks w2 timer < ticks w timer"
        using runs_down e False cy(2) by (fastforce simp: later_def safe_step_def intro: le_less_trans)
      then obtain r w' c' where "Cpp_waitfor_loop cfg n w2 c2 ty timer rc = Some (r, w', c')" "safe_step cfg w2 c2 w' c'"
        "r = ty \<longrightarrow> holds_packet ty (cl_readbuf c')" "held c2 c'"
        using less.hyps [of w2 c2 rc] safe_step_inv [OF cy(2)] True by blast
      then show ?thesis
        using True False cy(1) safe_step_trans [OF s2] held_trans [OF cy(4)] by (auto simp: step)
    next
      case over: False
      then show ?thesis
        using False cy s2 assms(3) by (auto simp: step)
    qed
  qed
qed

lemma waitfor_step:
  assumes "Cpp_inv cfg c" "0 < ty"
  shows "\<exists>rc w' c'. Cpp_waitfor cfg n w c ty timer = Some (rc, w', c') \<and> safe_step cfg w c w' c' \<and>
    (rc = ty \<longrightarrow> holds_packet ty (cl_readbuf c')) \<and> held c c'"
  unfolding Cpp_waitfor_def using waitfor_loop_step [OF assms(1) _ assms(2)] by simp

lemma yield_loop_step:
  assumes "Cpp_inv cfg c"
  shows "\<exists>rc w' c'. Cpp_yield_loop cfg n w c timer = Some (rc, w', c') \<and> safe_step cfg w c w' c' \<and>
    (rc = SUCCESS \<or> rc = FAILURE \<and> \<not> cl_isconnected c')"
  using assms
proof (induction "ticks w timer" arbitrary: w c rule: less_induct)
  case less
  obtain e w1 where e: "timer_expired n w timer = (e, w1)" by force
  have s1: "safe_step cfg w c w1 c" using later_ops(4) [OF e] less.prems(1) by (simp add: safe_step_def)
  obtain rc w2 c2 where cy: "Cpp_cycle cfg n w1 c timer = Some (rc, w2, c2)" "safe_step cfg w1 c w2 c2"
    "rc < 0 \<longrightarrow> \<not> cl_isconnected c2"
    using cycle_step [OF less.prems, of w1 timer] by blast
  note s2 = safe_step_trans [OF s1 cy(2)]
  note step = Cpp_yield_loop.simps [of cfg n w c timer] e cy(1)
  show ?case
  proof (cases "e \<or> rc < 0")
    case True
    then show ?thesis using cy(3) s1 s2 by (auto simp: step)
  next
    case False
    have "ticks w2 timer < ticks w timer"
      using runs_down e False cy(2) by (fastforce simp: later_def safe_step_def intro: le_less_trans)
    then obtain r w' c' where "Cpp_yield_loop cfg n w2 c2 timer = Some (r, w', c')" "safe_step cfg w2 c2 w' c'"
        "r = SUCCESS \<or> r = FAILURE \<and> \<not> cl_isconnected c'"
      using less.hyps [of w2 c2] safe_step_inv [OF cy(2)] by blast
    then show ?thesis
      using False safe_step_trans [OF s2] by (auto simp: step)
  qed
qed

lemma yield_step:
  assumes "Cpp_inv cfg c"
  shows "\<exists>rc w' c'. Cpp_yield cfg n w c ms = Some (rc, w', c') \<and> safe_step cfg w c w' c' \<and>
    (rc = SUCCESS \<or> rc = FAILURE \<and> \<not> cl_isconnected c')"
proof -
  obtain t w1 where t: "Timer_new n w = (t, w1)" by force
  obtain t' w2 where t': "timer_countdown_ms n w1 t ms = (t', w2)" by force
  have "safe_step cfg w c w2 c"
    using later_trans [OF later_ops(2) [OF t] later_ops(5) [OF t']] assms by (simp add: safe_step_def)
  then show ?thesis
    using yield_loop_step [OF assms, of w2 t'] safe_step_trans t t' by (fastforce simp: Cpp_yield_def)
qed


lemma timer_step:
  assumes "Cpp_inv cfg c"
  obtains t w1 where "Timer_ms n w ms = (t, w1)" "safe_step cfg w c w1 c"
proof -
  obtain t w1 where t: "Timer_ms n w ms = (t, w1)" by force
  then show thesis
    using that later_ops(3) [OF t] assms by (simp add: safe_step_def)
qed

lemma await_ack_step:
  assumes "Cpp_inv cfg c" "0 < ty"
  shows "\<exists>rc w' c'. Cpp_await_ack cfg n w c ty timer = Some (rc, w', c') \<and> safe_step cfg w c w' c' \<and>
    (rc = SUCCESS \<or> rc = FAILURE \<and> held c c')"
proof -
  obtain r w' c' where r: "Cpp_waitfor cfg n w c ty timer = Some (r, w', c')" "safe_step cfg w c w' c'"
    "r = ty \<longrightarrow> holds_packet ty (cl_readbuf c')" "held c c'"
    using waitfor_step [OF assms, of w timer] by blast
  show ?thesis
  proof (cases "r = ty")
    case True
    then obtain q out where "MQTTDeserialize_ack \<lparr>ack_packettype = 0, ack_dup = 0, ack_packetid = 0\<rparr>
        (cl_readbuf c') (MAX_MQTT_PACKET_SIZE cfg) = Some (q, out)"
      using ack_total r(3) by blast
    then show ?thesis
      using True r(1,2,4) by (auto simp: Cpp_await_ack_def safe_step_def Cpp_inv_acked)
  next
    case False
    then show ?thesis
      using r(1,2,4) by (simp add: Cpp_await_ack_def)
  qed
qed

lemma publish_buf_step:
  assumes "Cpp_inv cfg c" "0 \<le> len" "len \<le> MAX_MQTT_PACKET_SIZE cfg"
  shows "\<exists>rc w' c'. Cpp_publish_buf cfg n w c len timer qos = Some (rc, w', c') \<and> safe_step cfg w c w' c' \<and>
    (rc = SUCCESS \<or> rc = FAILURE \<and> \<not> cl_isconnected c' \<and> (\<not> cl_cleansession c \<longrightarrow> inflight c' = inflight c))"
proof -
  obtain rc w1 c1 where s: "Cpp_sendPacket n w c len timer = Some (rc, w1, c1)" "rc = SUCCESS \<or> rc = FAILURE"
    "safe_step cfg w c w1 c1" "kept c c1"
    using sendPacket_step [OF assms] by blast
  obtain r4 w4 c4 where a4: "Cpp_await_ack cfg n w1 c1 4 timer = Some (r4, w4, c4)" "safe_step cfg w1 c1 w4 c4"
    "r4 = SUCCESS \<or> r4 = FAILURE \<and> held c1 c4"
    using await_ack_step [OF safe_step_inv [OF s(3)], of 4 w1 timer] by auto
  obtain r7 w7 c7 where a7: "Cpp_await_ack cfg n w1 c1 7 timer = Some (r7, w7, c7)" "safe_step cfg w1 c1 w7 c7"
    "r7 = SUCCESS \<or> r7 = FAILURE \<and> held c1 c7"
    using await_ack_step [OF safe_step_inv [OF s(3)], of 7 w1 timer] by auto
  note steps = s(3) safe_step_trans [OF s(3) a4(2)] safe_step_trans [OF s(3) a7(2)]
  have closed: "inflight (Cpp_closeSession cfg c') = inflight c" if "held c1 c'" "\<not> cl_cleansession c" for c'
    using s(4) that kept_close [of c' cfg] by (auto simp: held_def kept_def)
  show ?thesis
    using s(1,2) a4(1,3) a7(1,3) steps steps [THEN safe_step_close] by (auto simp: Cpp_publish_buf_def closed)
qed

lemma resend_inflight_step:
  assumes "Cpp_inv cfg c"
  shows "\<exists>rc' w' c'. Cpp_resend_inflight cfg n w c timer rc = Some (rc', w', c') \<and> safe_step cfg w c w' c'"
proof -
  obtain buf len where b: "MQTTSerialize_ack (cl_sendbuf c) (MAX_MQTT_PACKET_SIZE cfg) (msgType_code PUBREL) 0 (cl_inflightMsgid c) =
      Some (buf, len)" "serialised c buf len"
    using ack_serialised [OF assms] by blast
  note i1 = serialised_step [OF assms b(2)]
  have len: "len \<le> MAX_MQTT_PACKET_SIZE cfg"
    using b(2) Cpp_invD(2) [OF assms] by (simp add: serialised_def)
  have all: "put_bytes (cl_sendbuf c) 0 (take (nat (MAX_MQTT_PACKET_SIZE cfg)) (cl_pubbuf c)) = Some (cl_pubbuf c)"
    using Cpp_invD [OF assms] by (simp add: put_bytes_def)
  have i2: "safe_step cfg w c w (c\<lparr>cl_sendbuf := cl_pubbuf c\<rparr>)"
    using Cpp_invD [OF assms] Cpp_inv_sendbuf [OF assms, of "cl_pubbuf c"] assms by (simp add: safe_step_def)
  consider (rel) "MQTTCLIENT_QOS2 cfg \<and> cl_inflightMsgid c > 0 \<and> cl_inflightQoS c = 2 \<and> cl_pubrel c"
    | (pub) "\<not> (MQTTCLIENT_QOS2 cfg \<and> cl_inflightMsgid c > 0 \<and> cl_inflightQoS c = 2 \<and> cl_pubrel c)"
        "(MQTTCLIENT_QOS1 cfg \<or> MQTTCLIENT_QOS2 cfg) \<and> cl_inflightMsgid c > 0"
    | (none) "\<not> ((MQTTCLIENT_QOS1 cfg \<or> MQTTCLIENT_QOS2 cfg) \<and> cl_inflightMsgid c > 0)"
    by blast
  then show ?thesis
  proof cases
    case rel
    then show ?thesis
      using b(1) i1 publish_buf_step [OF safe_step_inv [OF i1 [of w]], of len w timer "cl_inflightQoS c"] len safe_step_trans [OF i1]
      by (cases "len \<le> 0") (fastforce simp: Cpp_resend_inflight_def)+
  next
    case pub
    have "cl_inflightMsgid c \<noteq> 0"
      using pub(2) by auto
    then have "0 \<le> cl_inflightLen c" "cl_inflightLen c \<le> MAX_MQTT_PACKET_SIZE cfg"
      using assms pub(2) by (auto simp: Cpp_inv_def)
    then obtain rc' w' c' where "Cpp_publish_buf cfg n w (c\<lparr>cl_sendbuf := cl_pubbuf c\<rparr>) (cl_inflightLen c) timer (cl_inflightQoS c) =
        Some (rc', w', c')" "safe_step cfg w (c\<lparr>cl_sendbuf := cl_pubbuf c\<rparr>) w' c'"
      using publish_buf_step [OF safe_step_inv [OF i2]] by blast
    then show ?thesis
      using pub all safe_step_trans [OF i2] by (auto simp: Cpp_resend_inflight_def)
  next
    case none
    then show ?thesis
      using assms by (auto simp: Cpp_resend_inflight_def safe_step_def)
  qed
qed

lemma start_received_step:
  assumes "Cpp_inv cfg c" "Cpp_start_received n w c = (w', c')"
  shows "safe_step cfg w c w' c'"
proof -
  obtain t w1 where "timer_countdown n w (cl_last_received c) (int_of_size (cl_keepAliveInterval c)) = (t, w1)" by force
  then show ?thesis
    using assms later_ops(6) by (auto simp: Cpp_start_received_def safe_step_def split: if_splits)
qed

lemma read_connack_returns:
  assumes "ty = 2 \<longrightarrow> holds_packet 2 (cl_readbuf c)"
  shows "\<exists>rc data'. Cpp_read_connack cfg c ty data = Some (rc, data')"
proof (cases "ty = 2")
  case True
  then obtain r out where "MQTTDeserialize_connack \<lparr>ca_sessionPresent = 0, ca_connack_rc = 0\<rparr>
      (cl_readbuf c) (MAX_MQTT_PACKET_SIZE cfg) = Some (r, out)"
    using connack_total assms by blast
  then show ?thesis by (simp add: Cpp_read_connack_def True Let_def)
qed (simp add: Cpp_read_connack_def)

lemma connect_step:
  assumes "Cpp_inv cfg c" "connect_ok options"
  shows "\<exists>rc w' c' data'. Cpp_connect_data cfg n w c options data = Some (rc, w', c', data') \<and> safe_step cfg w c w' c' \<and>
    (rc = SUCCESS \<longrightarrow> cl_isconnected c')"
proof -
  obtain t w1 where t: "Timer_ms n w (int_of_size (cl_command_timeout_ms c)) = (t, w1)" "safe_step cfg w c w1 c"
    using timer_step [OF assms(1)] by blast
  show ?thesis
  proof (cases "cl_isconnected c")
    case True
    then show ?thesis
      using t by (auto simp: Cpp_connect_data_def)
  next
    case False
    define c1 where "c1 = c\<lparr>cl_keepAliveInterval := ucast (cd_keepAliveInterval options), cl_cleansession := cd_cleansession options \<noteq> 0\<rparr>"
    have c1: "safe_step cfg w c w1 c1"
      using t(2) by (simp add: c1_def safe_step_def)
    note inv1 = safe_step_inv [OF c1]
    obtain buf len where b: "MQTTSerialize_connect (cl_sendbuf c1) (MAX_MQTT_PACKET_SIZE cfg) options = Some (buf, len)" "serialised c1 buf len"
      using connect.memory_safe [OF assms(2), of "MAX_MQTT_PACKET_SIZE cfg" "cl_sendbuf c1"] Cpp_invD [OF inv1]
      by (auto simp: serialised_def)
    note s1 = safe_step_trans [OF c1 serialised_step [OF inv1 b(2)]]
    note start = Cpp_connect_data_def [of cfg n w c options data] False t(1) c1_def [symmetric] b(1)
    show ?thesis
    proof (cases "len > 0")
      case no: False
      then show ?thesis using s1 by (auto simp: start)
    next
      case pos: True
      obtain rc w2 c2 where s: "Cpp_sendPacket n w1 (c1\<lparr>cl_sendbuf := buf\<rparr>) len t = Some (rc, w2, c2)"
        "rc = SUCCESS \<or> rc = FAILURE" "safe_step cfg w1 c1 w2 c2"
        using send_serialised [OF inv1 b(2) pos] by blast
      note s2 = safe_step_trans [OF c1 s(3)]
      obtain w4 c4 where k: "Cpp_start_received n w2 c2 = (w4, c4)" by force
      note s4 = safe_step_trans [OF s2 start_received_step [OF safe_step_inv [OF s2] k]]
      obtain ty w5 c5 where a: "Cpp_waitfor cfg n w4 c4 2 t = Some (ty, w5, c5)" "safe_step cfg w4 c4 w5 c5"
        "ty = 2 \<longrightarrow> holds_packet 2 (cl_readbuf c5)"
        using waitfor_step [OF safe_step_inv [OF s4], of 2 w4 t] by auto
      note s5 = safe_step_trans [OF s4 a(2)]
      obtain rca da where rca: "Cpp_read_connack cfg c5 ty data = Some (rca, da)"
        using read_connack_returns a(3) by blast
      obtain rcb w6 c6 where re: "Cpp_resend_inflight cfg n w5 c5 t rca = Some (rcb, w6, c6)" "safe_step cfg w5 c5 w6 c6"
        using resend_inflight_step [OF safe_step_inv [OF s5]] by blast
      show ?thesis
      proof (cases "rc = SUCCESS")
        case True
        have "Cpp_connect_data cfg n w c options data =
          Some (rcb, w6, if rcb = SUCCESS then c6\<lparr>cl_isconnected := True, cl_ping_outstanding := False\<rparr> else c6, da)"
          using pos True s(1) k a(1) rca re(1) by (simp add: start)
        then show ?thesis
          using safe_step_trans [OF s5 re(2)] by (auto simp: safe_step_def)
      next
        case False
        then show ?thesis
          using pos s s2 by (auto simp: start)
      qed
    qed
  qed
qed


lemma take_id_step:
  assumes "Cpp_inv cfg c" "Cpp_take_id cfg c i qos = (j, c')"
  shows "safe_step cfg w c w c'"
proof -
  obtain k c0 where kc: "PacketId_getNext c = (k, c0)" by force
  then show ?thesis
    using assms Cpp_inv_getNext [OF assms(1) kc] getNext_frame [OF kc]
    by (auto simp: Cpp_take_id_def safe_step_def split: if_splits)
qed

lemma store_inflight_step:
  assumes "Cpp_inv cfg c" "0 < len" "len \<le> MAX_MQTT_PACKET_SIZE cfg"
  shows "\<exists>c'. Cpp_store_inflight cfg c i len qos = Some c' \<and> safe_step cfg w c w c'"
proof (cases "(MQTTCLIENT_QOS1 cfg \<or> MQTTCLIENT_QOS2 cfg) \<and> \<not> cl_cleansession c")
  case True
  let ?bs = "take (nat len) (cl_sendbuf c)"
  define c2 where "c2 = c\<lparr>cl_pubbuf := overlay ?bs (cl_pubbuf c), cl_inflightMsgid := i, cl_inflightLen := len, cl_inflightQoS := qos\<rparr>"
  have l: "length ?bs \<le> length (cl_pubbuf c)"
    using Cpp_invD [OF assms(1)] by simp
  then have "put_bytes (cl_pubbuf c) 0 ?bs = Some (overlay ?bs (cl_pubbuf c))"
    using put_bytes_overlay [of "[]" ?bs "cl_pubbuf c" 0] by simp
  then have "Cpp_store_inflight cfg c i len qos = Some (if MQTTCLIENT_QOS2 cfg then c2\<lparr>cl_pubrel := False\<rparr> else c2)"
    using True by (simp add: Cpp_store_inflight_def c2_def Let_def)
  moreover have "Cpp_inv cfg c2"
    using assms length_overlay [OF l] by (simp add: c2_def Cpp_inv_def)
  ultimately show ?thesis
    by (simp add: safe_step_def c2_def)
qed (use assms(1) in \<open>auto simp: Cpp_store_inflight_def safe_step_def\<close>)

lemma publish_step:
  assumes "Cpp_inv cfg c" "publishable topic payload payloadlen qos retained"
  shows "\<exists>rc w' c' i'. Cpp_publish_id cfg n w c topic payload payloadlen i qos retained = Some (rc, w', c', i') \<and>
    safe_step cfg w c w' c' \<and> (rc = SUCCESS \<or> rc = FAILURE)"
proof -
  let ?topic = "MQTTString_initializer\<lparr>cstring := Some topic\<rparr>" and ?max = "MAX_MQTT_PACKET_SIZE cfg"
  obtain t w1 where t: "Timer_ms n w (int_of_size (cl_command_timeout_ms c)) = (t, w1)" "safe_step cfg w c w1 c"
    using timer_step [OF assms(1)] by blast
  show ?thesis
  proof (cases "cl_isconnected c")
    case False
    then show ?thesis using t by (auto simp: Cpp_publish_id_def)
  next
    case True
    obtain j c1 where j: "Cpp_take_id cfg c i qos = (j, c1)" by force
    note c1 = safe_step_trans [OF t(2) take_id_step [OF assms(1) j]]
    note inv1 = safe_step_inv [OF c1]
    have ok: "publish_ok (0, qos, retained, j, ?topic, payload, int_of_size payloadlen)"
      using assms(2) by (simp only: publishable_def)
    obtain buf len where b: "MQTTSerialize_publish (cl_sendbuf c1) ?max 0 qos retained j ?topic payload (int_of_size payloadlen) = Some (buf, len)"
      "serialised c1 buf len"
      using publish.memory_safe [OF ok, of ?max "cl_sendbuf c1"] Cpp_invD [OF inv1] by (auto simp: serialised_def)
    let ?c = "c1\<lparr>cl_sendbuf := buf\<rparr>"
    note s1 = safe_step_trans [OF c1 serialised_step [OF inv1 b(2)]]
    have len: "len \<le> ?max"
      using b(2) Cpp_invD(2) [OF inv1] by (simp add: serialised_def)
    note start = Cpp_publish_id_def [of cfg n w c topic payload payloadlen i qos retained] t(1) True j b(1)
    show ?thesis
    proof (cases "len > 0")
      case no: False
      then show ?thesis using s1 by (auto simp: start)
    next
      case pos: True
      obtain c3 where st: "Cpp_store_inflight cfg ?c j len qos = Some c3" "safe_step cfg w1 ?c w1 c3"
        using store_inflight_step [OF safe_step_inv [OF s1] pos len] by blast
      note s3 = safe_step_trans [OF s1 st(2)]
      obtain rc w' c' where p: "Cpp_publish_buf cfg n w1 c3 len t qos = Some (rc, w', c')" "safe_step cfg w1 c3 w' c'"
        "rc = SUCCESS \<or> rc = FAILURE"
        using publish_buf_step [OF safe_step_inv [OF s3], of len w1 t qos] pos len by auto
      have "Cpp_publish_id cfg n w c topic payload payloadlen i qos retained = Some (rc, w', c', j)"
        using pos p(1) st(1) by (simp add: start)
      then show ?thesis
        using safe_step_trans [OF s3 p(2)] p(3) by blast
    qed
  qed
qed

lemma unsubscribe_step:
  assumes "Cpp_inv cfg c" "length topic < 65536"
  shows "\<exists>rc w' c'. Cpp_unsubscribe cfg n w c topic = Some (rc, w', c') \<and> safe_step cfg w c w' c' \<and>
    (rc = SUCCESS \<or> rc = FAILURE \<and> \<not> cl_isconnected c')"
proof -
  let ?topic = "\<lparr>cstring = Some topic, lenstring = \<lparr>ls_len = 0, ls_data = None\<rparr>\<rparr>" and ?max = "MAX_MQTT_PACKET_SIZE cfg"
  obtain t w1 where t: "Timer_ms n w (int_of_size (cl_command_timeout_ms c)) = (t, w1)" "safe_step cfg w c w1 c"
    using timer_step [OF assms(1)] by blast
  show ?thesis
  proof (cases "cl_isconnected c")
    case False
    then show ?thesis using t safe_step_close [OF t(2)] by (simp add: Cpp_unsubscribe_def)
  next
    case True
    obtain k c1 where kc: "PacketId_getNext c = (k, c1)" by force
    have c1: "safe_step cfg w c w1 c1"
      using t(2) Cpp_inv_getNext [OF assms(1) kc] getNext_frame [OF kc] by (auto simp: safe_step_def)
    note inv1 = safe_step_inv [OF c1]
    have ok: "unsubscribe_ok (0, word_of_int k, 1, [?topic])"
      using assms(2) by (simp add: filters_ok_def MQTTString_ok_def MQTTString_bytes_def)
    obtain buf len where b: "MQTTSerialize_unsubscribe (cl_sendbuf c1) ?max 0 (word_of_int k) 1 [?topic] = Some (buf, len)"
      "serialised c1 buf len"
      using unsubscribe.memory_safe [where a = "(0, word_of_int k, 1, [?topic])" and ts_old = "[?topic]"
        and buflen = ?max and buf = "cl_sendbuf c1"] ok Cpp_invD [OF inv1]
      by (auto simp: serialised_def simp del: unsubscribe_ok.simps)
    note s1 = safe_step_trans [OF c1 serialised_step [OF inv1 b(2)]]
    note start = Cpp_unsubscribe_def [of cfg n w c topic] t(1) True kc b(1)
    show ?thesis
    proof (cases "len > 0")
      case no: False
      then show ?thesis using safe_step_close [OF s1] by (simp add: start)
    next
      case pos: True
      obtain rc w2 c2 where s: "Cpp_sendPacket n w1 (c1\<lparr>cl_sendbuf := buf\<rparr>) len t = Some (rc, w2, c2)"
        "rc = SUCCESS \<or> rc = FAILURE" "safe_step cfg w1 c1 w2 c2"
        using send_serialised [OF inv1 b(2) pos] by blast
      note s2 = safe_step_trans [OF c1 s(3)]
      obtain ty w3 c3 where a: "Cpp_waitfor cfg n w2 c2 11 t = Some (ty, w3, c3)" "safe_step cfg w2 c2 w3 c3"
        "ty = 11 \<longrightarrow> holds_packet 11 (cl_readbuf c3)"
        using waitfor_step [OF safe_step_inv [OF s2], of 11 w2 t] by auto
      note s3 = safe_step_trans [OF s2 a(2)]
      have s4: "safe_step cfg w c w3 (snd (Cpp_setMessageHandler c3 topic None))"
        using s3 Cpp_inv_set [of cfg c3 None topic] by (simp add: safe_step_def)
      have u: "ty = 11 \<Longrightarrow> \<exists>r j. MQTTDeserialize_unsuback 0 (cl_readbuf c3) ?max = Some (r, j)"
        using unsuback_total a(3) by blast
      show ?thesis
        using pos s(1,2) s2 a(1) u s3 s4 safe_step_close [OF s2] safe_step_close [OF s3] by (auto simp: start)
    qed
  qed
qed

lemma disconnect_step:
  assumes "Cpp_inv cfg c"
  shows "\<exists>rc w' c'. Cpp_disconnect cfg n w c = Some (rc, w', c') \<and> safe_step cfg w c w' c' \<and> \<not> cl_isconnected c'"
proof -
  obtain t w1 where t: "Timer_ms n w (int_of_size (cl_command_timeout_ms c)) = (t, w1)" "safe_step cfg w c w1 c"
    using timer_step [OF assms] by blast
  obtain buf len where b: "MQTTSerialize_disconnect (cl_sendbuf c) (MAX_MQTT_PACKET_SIZE cfg) = Some (buf, len)" "serialised c buf len"
    using zero_serialised [OF assms, of "msgType_code DISCONNECT"] by (auto simp: MQTTSerialize_disconnect_def)
  note s1 = safe_step_trans [OF t(2) serialised_step [OF assms b(2)]]
  show ?thesis
  proof (cases "len > 0")
    case True
    then obtain rc w2 c2 where s: "Cpp_sendPacket n w1 (c\<lparr>cl_sendbuf := buf\<rparr>) len t = Some (rc, w2, c2)" "safe_step cfg w1 c w2 c2"
      using send_serialised [OF assms b(2)] by blast
    then show ?thesis
      using True t(1) b(1) safe_step_close [OF safe_step_trans [OF t(2) s(2)]] by (simp add: Cpp_disconnect_def)
  next
    case False
    then show ?thesis
      using t(1) b(1) safe_step_close [OF s1] by (simp add: Cpp_disconnect_def)
  qed
qed

end

subsection \<open>A simulated network\<close>

text \<open>The world of the simulation of the C client, with a network that takes at most three bytes at once.\<close>

definition sim_net :: "(sim_world, int) net_ops" where
  "sim_net = \<lparr>
     ipstack_read = (\<lambda>w k t. Some (sim_read w k t)),
     ipstack_write = (\<lambda>w bs t. (int (min 3 (length bs)), w\<lparr>sim_out := sim_out w @ take 3 bs\<rparr>)),
     Timer_new = (\<lambda>w. (0, w)),
     Timer_ms = (\<lambda>w ms. (sim_now w + ms, w)),
     timer_expired = (\<lambda>w t. (t \<le> sim_now w, w\<lparr>sim_now := sim_now w + 1\<rparr>)),
     timer_countdown_ms = (\<lambda>w t ms. (sim_now w + uint ms, w)),
     timer_countdown = (\<lambda>w t s. (sim_now w + 1000 * s, w)),
     timer_left_ms = (\<lambda>w t. (t - sim_now w, w))\<rparr>"

interpretation simnet: cpp_platform sim_net "\<lambda>w t. nat (t - sim_now w)" sim_out
  by unfold_locales (auto simp: sim_net_def sim_read_def min_def split: if_splits)

definition demo_config :: client_config where
  "demo_config = \<lparr>MQTTCLIENT_QOS1 = True, MQTTCLIENT_QOS2 = True, MAX_MQTT_PACKET_SIZE = 20\<rparr>"

definition demo_cpp :: "(int, nat) CppClient" where
  "demo_cpp = \<lparr>cl_command_timeout_ms = 1000, cl_sendbuf = replicate 20 0, cl_readbuf = replicate 22 0, cl_last_sent = 0,
     cl_last_received = 0, cl_ping_sent = 0, cl_keepAliveInterval = 0, cl_ping_outstanding = False, cl_cleansession = False,
     cl_packetid = 0, cl_messageHandlers = replicate 5 \<lparr>topicFilter = None, fp = None\<rparr>, cl_defaultMessageHandler = Some 7,
     cl_isconnected = True, cl_pubbuf = replicate 20 0, cl_inflightLen = 0, cl_inflightMsgid = 0, cl_inflightQoS = 0,
     cl_pubrel = False, cl_incomingQoS2messages = replicate 3 0, cl_delivered = []\<rparr>"

lemma demo_cpp_inv: "Cpp_inv demo_config demo_cpp"
proof -
  have "slots_ok (cl_messageHandlers demo_cpp)"
    by (rule slots_okI) (simp_all add: demo_cpp_def)
  then show ?thesis
    by (simp add: Cpp_inv_def demo_cpp_def demo_config_def filters_are_cstrings_def qos2_table_ok_def)
qed

subsection \<open>Properties\<close>

text \<open>C12: One round of the C++ client is total and safe, for every build of it (with or without QoS 1 and 2). On a platform that
  keeps its contract, also one that writes in parts, \<open>cycle\<close> returns whatever bytes arrive; it keeps the
  invariant, writes nothing behind the read buffer, a positive result is the type of a packet that lies in the read
  buffer, and a negative one leaves the session closed.\<close>

theorem cpp_cycle_safe:
  assumes "cpp_platform n ticks sent" "Cpp_inv cfg c"
  shows "\<exists>rc w' c'. Cpp_cycle cfg n w c timer = Some (rc, w', c') \<and> Cpp_inv cfg c' \<and> behind cfg c' = behind cfg c \<and>
    (rc > 0 \<longrightarrow> holds_packet rc (cl_readbuf c')) \<and> (rc < 0 \<longrightarrow> \<not> cl_isconnected c')"
  using cpp_platform.cycle_step [OF assms, of w timer] unfolding cpp_platform.safe_step_def [OF assms(1)] by fastforce

theorem cpp_cycle_safe_witness:
  "\<exists>rc w' c'. Cpp_cycle demo_config sim_net (sim_start [50, 5, 0, 1, 97, 0, 9]) demo_cpp 10 = Some (rc, w', c') \<and>
    Cpp_inv demo_config c' \<and> behind demo_config c' = behind demo_config demo_cpp \<and>
    (rc > 0 \<longrightarrow> holds_packet rc (cl_readbuf c')) \<and> (rc < 0 \<longrightarrow> \<not> cl_isconnected c')"
  by (rule cpp_cycle_safe [OF simnet.cpp_platform_axioms demo_cpp_inv])

text \<open>C13: The methods of the C++ client return on such a platform for every behaviour of the peer, and keep the invariant and the
  memory behind the read buffer: \<open>yield\<close>, \<open>connect\<close> with its resend of a publication in flight, \<open>publish\<close> (with arguments that
  make a packet), \<open>unsubscribe\<close> and \<open>disconnect\<close>. A successful connect leaves the client connected; \<open>yield\<close> and \<open>unsubscribe\<close>
  that fail, and every disconnect, leave it disconnected.\<close>

theorem cpp_methods_return:
  assumes "cpp_platform n ticks sent" "Cpp_inv cfg c" "connect_ok options" "publishable topic payload payloadlen qos retained"
    and "length topicf < 65536"
  shows "(\<exists>rc w' c'. Cpp_yield cfg n w c ms = Some (rc, w', c') \<and> Cpp_inv cfg c' \<and> behind cfg c' = behind cfg c \<and>
      (rc = SUCCESS \<or> rc = FAILURE \<and> \<not> cl_isconnected c')) \<and>
    (\<exists>rc w' c'. Cpp_connect_options cfg n w c options = Some (rc, w', c') \<and> Cpp_inv cfg c' \<and> behind cfg c' = behind cfg c \<and>
      (rc = SUCCESS \<longrightarrow> cl_isconnected c')) \<and>
    (\<exists>rc w' c'. Cpp_publish cfg n w c topic payload payloadlen qos retained = Some (rc, w', c') \<and> Cpp_inv cfg c' \<and>
      behind cfg c' = behind cfg c \<and> (rc = SUCCESS \<or> rc = FAILURE)) \<and>
    (\<exists>rc w' c'. Cpp_unsubscribe cfg n w c topicf = Some (rc, w', c') \<and> Cpp_inv cfg c' \<and> behind cfg c' = behind cfg c \<and>
      (rc = SUCCESS \<or> rc = FAILURE \<and> \<not> cl_isconnected c')) \<and>
    (\<exists>rc w' c'. Cpp_disconnect cfg n w c = Some (rc, w', c') \<and> Cpp_inv cfg c' \<and> behind cfg c' = behind cfg c \<and>
      \<not> cl_isconnected c')"
proof -
  note s = cpp_platform.safe_step_def [OF assms(1)]
  show ?thesis
    using cpp_platform.yield_step [OF assms(1,2), of w ms] cpp_platform.connect_step [OF assms(1-3), of w "\<lparr>cd_rc = 0, cd_sessionPresent = False\<rparr>"]
      cpp_platform.publish_step [OF assms(1,2,4), of w 0] cpp_platform.unsubscribe_step [OF assms(1,2,5), of w]
      cpp_platform.disconnect_step [OF assms(1,2), of w]
    unfolding s Cpp_connect_options_def Cpp_publish_def by (intro conjI) auto
qed

theorem cpp_methods_return_witness:
  "(\<exists>rc w' c'. Cpp_yield demo_config sim_net (sim_start [208, 0]) demo_cpp 50 = Some (rc, w', c') \<and> Cpp_inv demo_config c' \<and>
      behind demo_config c' = behind demo_config demo_cpp \<and> (rc = SUCCESS \<or> rc = FAILURE \<and> \<not> cl_isconnected c')) \<and>
    (\<exists>rc w' c'. Cpp_publish demo_config sim_net (sim_start [64, 2, 0, 1]) demo_cpp [97] (Some [1, 2]) 2 1 0 = Some (rc, w', c') \<and>
      Cpp_inv demo_config c' \<and> behind demo_config c' = behind demo_config demo_cpp \<and> (rc = SUCCESS \<or> rc = FAILURE))"
proof -
  have o: "connect_ok MQTTPacket_connectData_initializer"
    by (simp add: connect_ok_def connect_body_def opt_field_def MQTTPacket_connectData_initializer_def
       MQTTPacket_willOptions_initializer_def MQTTString_ok_def MQTTString_bytes_def MQTTString_initializer_def)
  have p: "publishable [97] (Some [1, 2]) 2 1 0"
    by (simp add: publishable_def MQTTString_ok_def MQTTString_bytes_def MQTTString_initializer_def
       cptr_holds_def cptr_bytes_def int_of_size_def)
  show ?thesis
    using cpp_methods_return [OF simnet.cpp_platform_axioms demo_cpp_inv o p, of "[98]" "sim_start [208, 0]" 50]
      cpp_methods_return [OF simnet.cpp_platform_axioms demo_cpp_inv o p, of "[98]" "sim_start [64, 2, 0, 1]" 50]
    by simp
qed

end
