(* ===== verification/MQTT_Cpp_Protocol.thy ===== *)
theory MQTT_Cpp_Protocol
  imports MQTT_Cpp_Safety
begin

text \<open>
  The C++ client as a party of the protocol. Topics: its scan decides the matching relation of the
  specification on well-formed filters and names. The network: the locale \<open>cpp_network\<close> extends the contract of the platform
  by the bytes that have arrived and the bytes that were sent, so that what the client sends and delivers can be stated.
  QoS 2: the client refines a receiver with a bounded set of identifiers, which hands every message to
  the application once. Reconnecting: a publication in flight is sent again.
\<close>

subsection \<open>Topics\<close>

lemma Cpp_topic_matches_simps:
  "Cpp_topic_matches (cf # curf) (cn # curn) =
     (if cn = ch_slash \<and> cf \<noteq> ch_slash then False
      else if cf \<noteq> ch_plus \<and> cf \<noteq> ch_hash \<and> cf \<noteq> cn then False
      else Cpp_topic_matches curf
             (tl (if cf = ch_plus then skip_level (cn # curn)
                  else if cf = ch_hash then [last (cn # curn)]
                  else cn # curn)))"
  "Cpp_topic_matches [] ns = (ns = [])"
  "Cpp_topic_matches fs [] = (Cpp_skip_multilevel fs = [])"
  by (cases ns; cases fs; simp add: Cpp_topic_matches_def)+

lemma Cpp_scan_literal:
  assumes "ch_slash \<notin> set f" "ch_plus \<notin> set f" "ch_hash \<notin> set f" "ch_slash \<notin> set m"
    and "fr = [] \<or> hd fr = ch_slash" "nr = [] \<or> hd nr = ch_slash"
  shows "Cpp_topic_matches (f @ fr) (m @ nr) \<longleftrightarrow> f = m \<and> Cpp_topic_matches fr nr"
  using assms
proof (induction f arbitrary: m)
  case Nil
  show ?case
  proof (cases m)
    case (Cons c m')
    then show ?thesis
      using Nil.prems by (cases fr) (auto simp: Cpp_topic_matches_simps)
  qed simp
next
  case (Cons c f)
  show ?case
  proof (cases m)
    case Nil
    have "Cpp_skip_multilevel (c # f @ fr) \<noteq> []"
      using Cons.prems by (cases "f @ fr") auto
    then show ?thesis
      using Cons.prems Nil by (cases nr) (auto simp: Cpp_topic_matches_simps)
  next
    case (Cons d m')
    then show ?thesis
      using Cons.prems Cons.IH [of m'] by (auto simp: Cpp_topic_matches_simps)
  qed
qed

text \<open>The rest of a filter behind the last level of the name: only a final \<open>#\<close> may be left.\<close>

lemma Cpp_scan_rest:
  assumes "filter_levels fs" "fs \<noteq> []"
  shows "Cpp_topic_matches (ch_slash # join fs) [] \<longleftrightarrow> fs = [[ch_hash]]"
proof -
  obtain g gs where fs: "fs = g # gs" using assms(2) by (cases fs) auto
  have g: "g = [ch_hash] \<and> gs = [] \<or> g = [ch_plus] \<or> g \<noteq> [] \<and> ch_hash \<notin> set g"
    using assms(1) by (auto simp: fs name_level_def)
  then obtain c cs where c: "g = c # cs" by (cases g) auto
  show ?thesis
    using g c by (cases "join fs") (auto simp: fs join_Cons Cpp_topic_matches_simps)
qed

lemma Cpp_scan_levels:
  assumes "filter_levels fs" "list_all name_level ns" "fs \<noteq> []" "ns \<noteq> []"
  shows "Cpp_topic_matches (join fs) (join ns) \<longleftrightarrow> level_match fs ns"
  using assms
proof (induction fs arbitrary: ns)
  case (Cons f fs)
  obtain m ms where ns: "ns = m # ms" using Cons.prems(4) by (cases ns) auto
  then have m: "name_level m" "list_all name_level ms" using Cons.prems(2) by auto
  let ?fr = "if fs = [] then [] else ch_slash # join fs" and ?nr = "if ms = [] then [] else ch_slash # join ms"
  have rest: "Cpp_topic_matches ?fr ?nr \<longleftrightarrow> level_match fs ms" if "f \<noteq> [ch_hash]"
  proof (cases "fs = []")
    case True then show ?thesis by (cases ms) (auto simp: Cpp_topic_matches_simps)
  next
    case False
    show ?thesis
    proof (cases "ms = []")
      case True
      then show ?thesis
        using False Cons.prems(1) Cpp_scan_rest [OF _ False] by (cases fs) auto
    next
      case False2: False
      then show ?thesis using False Cons.prems(1) m(2) Cons.IH [of ms] by (simp add: Cpp_topic_matches_simps)
    qed
  qed
  consider (hash) "f = [ch_hash]" "fs = []" | (plus) "f = [ch_plus]"
    | (lit) "name_level f" "ch_plus \<notin> set f" "ch_hash \<notin> set f"
    using Cons.prems(1) by auto
  then show ?case
  proof cases
    case hash
    obtain c cs where "join ns = c # cs" "c \<noteq> ch_slash"
      using join_head [OF m(1)] ns by blast
    then show ?thesis using hash ns by (simp add: Cpp_topic_matches_simps)
  next
    case plus
    obtain c cs where c: "join ns = c # cs" "c \<noteq> ch_slash"
      using join_head [OF m(1)] ns by blast
    have "tl (skip_level (join ns)) = ?nr"
      unfolding ns join_Cons using m(1) by (intro skip_level_append) (auto simp: name_level_def)
    then have "Cpp_topic_matches (join (f # fs)) (join ns) = Cpp_topic_matches ?fr ?nr"
      using c plus by (simp add: join_Cons Cpp_topic_matches_simps)
    then show ?thesis using rest plus ns by simp
  next
    case lit
    have "Cpp_topic_matches (join (f # fs)) (join ns) \<longleftrightarrow> f = m \<and> Cpp_topic_matches ?fr ?nr"
      unfolding ns join_Cons using lit m(1) by (intro Cpp_scan_literal) (auto simp: name_level_def)
    moreover have "f \<noteq> [ch_hash]" "f \<noteq> [ch_plus]" using lit by auto
    ultimately show ?thesis using rest ns by simp
  qed
qed simp

lemma Cpp_isTopicMatched_string: "Cpp_isTopicMatched f (topic_string m) = Some (Cpp_topic_matches f m)"
  by (simp add: Cpp_isTopicMatched_def topic_string_def cptr_holds_def cptr_bytes_def Let_def)


subsection \<open>A receiver of QoS 2\<close>

text \<open>What the application is told of a message, and what a receiver does by the specification (section 4.3.3, method A of the
  figure): it remembers the identifiers it has seen until they are released, at most \<open>capacity\<close> of them, and
  hands a message on only if its identifier is new. \<open>tg\<close> gives the handlers for a topic.\<close>

datatype broker_packet = Publication publish_args | Release u16

fun packet_wire :: "broker_packet \<Rightarrow> byte list" where
  "packet_wire (Publication a) = publish_wire a"
| "packet_wire (Release i) = ack_wire (6, 0, i)"

fun packet_ok :: "client_config \<Rightarrow> broker_packet \<Rightarrow> bool" where
  "packet_ok cfg (Publication a) \<longleftrightarrow> publish_ok a \<and> fst (snd a) \<le> 2 \<and> int (length (publish_wire a)) \<le> MAX_MQTT_PACKET_SIZE cfg"
| "packet_ok cfg (Release i) \<longleftrightarrow> True"

fun deliveries :: "(byte list \<Rightarrow> 'h list) \<Rightarrow> publish_args \<Rightarrow> ('h \<times> byte list \<times> byte list \<times> int \<times> byte) list" where
  "deliveries tg (dup, qos, retained, i, topic, payload, payloadlen) =
     map (\<lambda>h. (h, MQTTString_bytes topic, cptr_bytes payload payloadlen, qos, take_bit 1 retained)) (tg (MQTTString_bytes topic))"

fun receive ::
  "nat \<Rightarrow> (byte list \<Rightarrow> 'h list) \<Rightarrow> broker_packet \<Rightarrow> u16 set \<times> ('h \<times> byte list \<times> byte list \<times> int \<times> byte) list
   \<Rightarrow> u16 set \<times> ('h \<times> byte list \<times> byte list \<times> int \<times> byte) list" where
  "receive capacity tg (Publication (dup, qos, retained, i, topic, payload, payloadlen)) (S, log) =
     (if qos \<noteq> 2 then (S, log @ deliveries tg (dup, qos, retained, i, topic, payload, payloadlen))
      else if i \<notin> S \<and> i \<noteq> 0 \<and> card S < capacity
      then (insert i S, log @ deliveries tg (dup, qos, retained, i, topic, payload, payloadlen))
      else (S, log))"
| "receive capacity tg (Release i) (S, log) = (S - {i}, log)"

definition received :: "('t, 'h) CppClient \<Rightarrow> u16 set \<times> ('h \<times> byte list \<times> byte list \<times> int \<times> byte) list" where
  "received c = (set (cl_incomingQoS2messages c) - {0}, map told (cl_delivered c))"

text \<open>The answers: PUBACK, PUBREC or nothing to a publication, PUBCOMP to a release.\<close>

fun packet_answer :: "broker_packet \<Rightarrow> byte list" where
  "packet_answer (Publication (dup, qos, retained, i, topic, payload, payloadlen)) = answer qos i"
| "packet_answer (Release i) = ack_wire (7, 0, i)"

lemma ack_length: "length (ack_wire (ty, d, i)) = 4"
  by (simp add: length_varint)

lemma qos2_room:
  assumes "qos2_table_ok ms"
  shows "scan_slots (\<lambda>m. m = 0) ms < length ms \<longleftrightarrow> card (set ms - {0}) < length ms"
proof -
  have "set ms - {0} = set (filter (\<lambda>m. m \<noteq> 0) ms)" by auto
  then have "card (set ms - {0}) = length (filter (\<lambda>m. m \<noteq> 0) ms)"
    using distinct_card [of "filter (\<lambda>m. m \<noteq> 0) ms"] assms by (simp only: qos2_table_ok_def)
  moreover have "length (filter (\<lambda>m. m \<noteq> 0) ms) < length ms \<longleftrightarrow> 0 \<in> set ms"
    using length_filter_less [of 0 ms "\<lambda>m. m \<noteq> 0"] filter_id_conv [of "\<lambda>m. m \<noteq> 0" ms] by (cases "0 \<in> set ms") auto
  ultimately show ?thesis
    using scan_slots_none [of "\<lambda>m. m = 0" ms] by auto
qed

text \<open>What the application can see of the client.\<close>

definition app_view ::
  "('t, 'h) CppClient \<Rightarrow> 'h MessageHandlers list \<times> 'h option \<times> u16 list \<times> ('h \<times> MessageData) list" where
  "app_view c = (cl_messageHandlers c, cl_defaultMessageHandler c, cl_incomingQoS2messages c, cl_delivered c)"

lemma app_view_update [simp]:
  "app_view (c\<lparr>cl_last_sent := t\<rparr>) = app_view c"
  "app_view (c\<lparr>cl_last_received := t\<rparr>) = app_view c"
  "app_view (c\<lparr>cl_ping_sent := t\<rparr>) = app_view c"
  "app_view (c\<lparr>cl_ping_outstanding := b\<rparr>) = app_view c"
  "app_view (c\<lparr>cl_sendbuf := buf\<rparr>) = app_view c"
  "app_view (c\<lparr>cl_readbuf := buf\<rparr>) = app_view c"
  by (simp_all add: app_view_def)

lemma received_app_view: "app_view c = app_view c' \<Longrightarrow> received c = received c'"
  by (simp add: app_view_def received_def)

lemma targets_app_view: "app_view c = app_view c' \<Longrightarrow> Cpp_targets c = Cpp_targets c'"
  by (auto simp: app_view_def Cpp_targets_def Let_def)

lemma received_delivered [simp]:
  "snd (received (Cpp_closeSession cfg c)) = snd (received c)"
  by (simp add: received_def Cpp_closeSession_def Cpp_cleanSession_def Let_def)

text \<open>Delivery of a deserialised message refines the receiver, in a build with QoS 2.\<close>

lemma Cpp_cycle_deliver_refines:
  assumes "Cpp_inv cfg c" "MQTTCLIENT_QOS2 cfg" "topic_ok (pub_topicName out)"
    and "publish_view out = publish_val a" "a = (dup, qos, retained, i, topic, payload, payloadlen)"
    and "pub_payloadlen out = payloadlen" "publish_ok a"
    and "msg = \<lparr>msg_qos = pub_qos out, msg_retained = pub_retained out, msg_dup = pub_dup out,
        msg_id = pub_packetid out, msg_payload = pub_payload out, msg_payloadlen = word_of_int (pub_payloadlen out)\<rparr>"
  shows "\<exists>ms ds. Cpp_cycle_deliver cfg c (pub_topicName out) msg = Some (c\<lparr>cl_incomingQoS2messages := ms, cl_delivered := ds\<rparr>) \<and>
    length ms = length (cl_incomingQoS2messages c) \<and>
    received (c\<lparr>cl_incomingQoS2messages := ms, cl_delivered := ds\<rparr>) =
      receive (length (cl_incomingQoS2messages c)) (Cpp_targets c) (Publication a) (received c)"
proof -
  let ?ms = "cl_incomingQoS2messages c" and ?t = "pub_topicName out"
  have view: "pub_qos out = qos" "pub_retained out = take_bit 1 retained" "qos > 0 \<Longrightarrow> pub_packetid out = i"
    "MQTTString_bytes ?t = MQTTString_bytes topic" "cptr_bytes (pub_payload out) payloadlen = cptr_bytes payload payloadlen"
    using assms(4,6) by (auto simp: publish_view_def assms(5))
  have "0 \<le> payloadlen" "payloadlen < 268435456"
    using assms(5,7) length_cptr_bytes [of payload payloadlen] by (auto simp: cptr_holds_def)
  then have u: "uint (word_of_int payloadlen :: u32) = payloadlen"
    unfolding uint_word_of_int by simp
  define calls where "calls = map (\<lambda>h. (h, NewMessageData ?t msg)) (Cpp_targets c (MQTTString_bytes topic))"
  have told: "map told calls = deliveries (Cpp_targets c) a"
    by (simp add: calls_def told_def NewMessageData_def assms(5,6,8) view u)
  have tg: "topic_bytes ?t = MQTTString_bytes topic"
    using topic_bytes_MQTTString [OF assms(3)] view(4) by simp
  have d: "map_option snd (Cpp_deliverMessage (c\<lparr>cl_incomingQoS2messages := ms\<rparr>) ?t msg) =
      Some (c\<lparr>cl_incomingQoS2messages := ms, cl_delivered := cl_delivered c @ calls\<rparr>)" for ms
  proof -
    have "Cpp_targets (c\<lparr>cl_incomingQoS2messages := ms\<rparr>) = Cpp_targets c"
      by (auto simp: Cpp_targets_def Let_def)
    then show ?thesis
      using Cpp_deliverMessage_targets [OF assms(3), of "c\<lparr>cl_incomingQoS2messages := ms\<rparr>" msg] Cpp_invD(5) [OF assms(1)]
      by (simp add: calls_def tg)
  qed
  have same: "c\<lparr>cl_incomingQoS2messages := ?ms\<rparr> = c" "c\<lparr>cl_incomingQoS2messages := ?ms, cl_delivered := cl_delivered c\<rparr> = c"
    by simp_all
  have ok: "qos2_table_ok ?ms"
    using assms(1,2) by (simp add: Cpp_inv_def)
  let ?k = "scan_slots (\<lambda>m. m = 0) ?ms"
  consider (other) "qos \<noteq> 2" | (seen) "qos = 2" "i \<in> set ?ms" | (full) "qos = 2" "i \<notin> set ?ms" "\<not> ?k < length ?ms"
    | (new) "qos = 2" "i \<notin> set ?ms" "?k < length ?ms"
    by blast
  then show ?thesis
  proof cases
    case other
    then show ?thesis
      using d [of ?ms] told by (intro exI [of _ ?ms] exI [of _ "cl_delivered c @ calls"])
        (auto simp: Cpp_cycle_deliver_def assms(2,5,8) view received_def)
  next
    case seen
    then show ?thesis
      using same(2) view(3) by (intro exI [of _ ?ms] exI [of _ "cl_delivered c"])
        (auto simp: Cpp_cycle_deliver_def assms(2,5,8) view(1) received_def Cpp_isQoS2msgidFree_def list_ex_iff)
  next
    case full
    then show ?thesis
      using same(2) view(3) qos2_room [OF ok] by (intro exI [of _ ?ms] exI [of _ "cl_delivered c"])
        (auto simp: Cpp_cycle_deliver_def assms(2,5,8) view(1) received_def Cpp_isQoS2msgidFree_def list_ex_iff Cpp_useQoS2msgid_def Let_def)
  next
    case new
    have z: "?ms ! ?k = 0" and i0: "i \<noteq> 0"
      using scan_slots_found [OF new(3)] nth_mem [OF new(3)] new(2) by auto
    have "set (?ms[?k := i]) - {0} = insert i (set ?ms - {0})"
      using qos2_use [OF ok new(2,3) z] i0 by auto
    then show ?thesis
      using new view(3) qos2_room [OF ok] i0 d [of "?ms[?k := i]"] told
      by (intro exI [of _ "?ms[?k := i]"] exI [of _ "cl_delivered c @ calls"])
        (auto simp: Cpp_cycle_deliver_def assms(2,5,8) view(1) received_def Cpp_isQoS2msgidFree_def list_ex_iff Cpp_useQoS2msgid_def Let_def)
  qed
qed


text \<open>A number of rounds, as the loops of \<open>yield\<close> and \<open>waitfor\<close> make them, until one fails.\<close>

primrec Cpp_rounds ::
  "client_config \<Rightarrow> ('w, 't) net_ops \<Rightarrow> 'w \<Rightarrow> ('t, 'h) CppClient \<Rightarrow> 't \<Rightarrow> nat \<Rightarrow> (int \<times> 'w \<times> ('t, 'h) CppClient) option" where
  "Cpp_rounds cfg n w c timer 0 = Some (SUCCESS, w, c)"
| "Cpp_rounds cfg n w c timer (Suc k) = do {
     (rc, w, c) \<leftarrow> Cpp_cycle cfg n w c timer;
     if rc < 0 then Some (rc, w, c) else Cpp_rounds cfg n w c timer k }"

subsection \<open>The network\<close>

locale cpp_network = cpp_platform n ticks sent
  for n :: "('w, 't) net_ops" and ticks :: "'w \<Rightarrow> 't \<Rightarrow> nat" and sent :: "'w \<Rightarrow> byte list" +
  fixes pending :: "'w \<Rightarrow> byte list"
  assumes reads_pending: "pending w = bs @ ys \<Longrightarrow> k = int (length bs) \<Longrightarrow> 0 < k \<Longrightarrow>
      \<exists>w'. ipstack_read n w k t = Some (k, bs, w') \<and> pending w' = ys"
    and keep_write: "ipstack_write n w bs t = (rc, w') \<Longrightarrow> pending w' = pending w"
    and keep_new: "Timer_new n w = (timer, w') \<Longrightarrow> pending w' = pending w"
    and keep_ms: "Timer_ms n w ms = (timer, w') \<Longrightarrow> pending w' = pending w"
    and keep_expired: "timer_expired n w timer = (e, w') \<Longrightarrow> pending w' = pending w"
    and keep_countdown_ms: "timer_countdown_ms n w timer m = (timer', w') \<Longrightarrow> pending w' = pending w"
    and keep_countdown: "timer_countdown n w timer sec = (timer', w') \<Longrightarrow> pending w' = pending w"
    and keep_left: "timer_left_ms n w timer = (l, w') \<Longrightarrow> pending w' = pending w"

sublocale cpp_network \<subseteq> source: blocking_source "\<lambda>w k. ipstack_read n w k t" pending
  for t
  by unfold_locales (use reads_pending in fastforce)

context cpp_network
begin

lemma quiet_write: "ipstack_write n w bs t = (rc, w') \<Longrightarrow> pending w' = pending w \<and> sent w' = sent w @ take (nat rc) bs"
  and quiet_ms: "Timer_ms n w ms = (timer, w') \<Longrightarrow> pending w' = pending w \<and> sent w' = sent w"
  and quiet_expired: "timer_expired n w timer = (e, w') \<Longrightarrow> pending w' = pending w \<and> sent w' = sent w"
  and quiet_countdown: "timer_countdown n w timer sec = (timer', w') \<Longrightarrow> pending w' = pending w \<and> sent w' = sent w"
  and quiet_left: "timer_left_ms n w timer = (l, w') \<Longrightarrow> pending w' = pending w \<and> sent w' = sent w"
  by (simp_all add: keep_write keep_ms keep_expired keep_countdown keep_left writes [THEN conjunct2] time_ms [THEN conjunct2]
      time_expired [THEN conjunct2] time_countdown [THEN conjunct2] time_left [THEN conjunct2])

text \<open>However the network cuts the writes, the bytes go out in order, each once.\<close>

lemma sendPacket_loop_sends:
  assumes "0 \<le> s0" "s0 \<le> len" "len \<le> int (length buf)"
  shows "\<exists>s1 w'. Cpp_sendPacket_loop n w buf len timer s0 = Some (s1, w') \<and> pending w' = pending w \<and>
    s0 \<le> s1 \<and> s1 \<le> len \<and> sent w' = sent w @ take (nat (s1 - s0)) (drop (nat s0) buf)"
  using assms(1,2)
proof (induction "ticks w timer" arbitrary: w s0 rule: less_induct)
  case less
  obtain l w1 where l: "timer_left_ms n w timer = (l, w1)" by force
  let ?bs = "take (nat (len - s0)) (drop (nat s0) buf)"
  have win: "write_window buf s0 (len - s0) = Some ?bs" "int (length ?bs) = len - s0"
    using assms(3) less.prems by (simp_all add: write_window_def nat_diff_distrib')
  obtain rc w2 where rc: "ipstack_write n w1 ?bs l = (rc, w2)" by force
  obtain e w3 where e: "timer_expired n w2 timer = (e, w3)" by force
  have le: "rc \<le> len - s0" using write_count [OF rc] win(2) by simp
  have tk: "take (nat rc) ?bs = take (nat rc) (drop (nat s0) buf)"
    using le by (simp add: min_def nat_le_iff)
  note q = quiet_left [OF l] quiet_write [OF rc] quiet_expired [OF e]
  note step = Cpp_sendPacket_loop.simps [of n w buf len timer s0] l win(1) rc e
  consider "\<not> s0 < len" | "s0 < len" "rc < 0" | "s0 < len" "0 \<le> rc" e | "s0 < len" "0 \<le> rc" "\<not> e"
    by linarith
  then show ?case
  proof cases
    case 4
    have "ticks w3 timer < ticks w timer"
      using runs_down [of w2 timer w3] e 4(3) time_left [OF l, of timer] writes [OF rc, of timer] by simp
    then obtain s1 w' where h: "Cpp_sendPacket_loop n w3 buf len timer (s0 + rc) = Some (s1, w')" "pending w' = pending w3"
      "s0 + rc \<le> s1" "s1 \<le> len" "sent w' = sent w3 @ take (nat (s1 - (s0 + rc))) (drop (nat (s0 + rc)) buf)"
      using less.hyps [of w3 "s0 + rc"] less.prems 4(2) le by auto
    have "take (nat rc) (drop (nat s0) buf) @ take (nat (s1 - (s0 + rc))) (drop (nat (s0 + rc)) buf) =
      take (nat (s1 - s0)) (drop (nat s0) buf)"
    proof -
      have "nat (s0 + rc) = nat rc + nat s0" "nat (s1 - s0) = nat rc + nat (s1 - (s0 + rc))"
        using less.prems 4(2) h(3) by simp_all
      then show ?thesis
        by (simp add: take_add)
    qed
    then have "sent w' = sent w @ take (nat (s1 - s0)) (drop (nat s0) buf)"
      using h(5) q tk by simp
    then show ?thesis
      using step 4 h q by auto
  qed (use step q less.prems le tk in auto)
qed

lemma sendPacket_sends:
  assumes "0 \<le> len" "len \<le> int (length (cl_sendbuf c))"
  shows "\<exists>rc w' t. Cpp_sendPacket n w c len timer = Some (rc, w', c\<lparr>cl_last_sent := t\<rparr>) \<and> pending w' = pending w \<and>
    (rc = SUCCESS \<and> sent w' = sent w @ take (nat len) (cl_sendbuf c) \<or>
     rc = FAILURE \<and> (\<exists>k < nat len. sent w' = sent w @ take k (cl_sendbuf c)))"
proof -
  obtain s1 w1 where s: "Cpp_sendPacket_loop n w (cl_sendbuf c) len timer 0 = Some (s1, w1)" "pending w1 = pending w"
    "0 \<le> s1" "s1 \<le> len" "sent w1 = sent w @ take (nat s1) (cl_sendbuf c)"
    using sendPacket_loop_sends [of 0 len "cl_sendbuf c" w timer] assms by auto
  obtain t w2 where t: "timer_countdown n w1 (cl_last_sent c) (int_of_size (cl_keepAliveInterval c)) = (t, w2)" by force
  have same: "c\<lparr>cl_last_sent := cl_last_sent c\<rparr> = c" by simp
  show ?thesis
  proof (cases "s1 = len \<and> cl_keepAliveInterval c > 0")
    case True
    then show ?thesis
      using s t quiet_countdown [OF t] by (intro exI [of _ SUCCESS] exI [of _ w2] exI [of _ t]) (simp add: Cpp_sendPacket_def)
  next
    case False
    then show ?thesis
      using s by (intro exI [of _ "if s1 = len then SUCCESS else FAILURE"] exI [of _ w1] exI [of _ "cl_last_sent c"])
        (auto simp: Cpp_sendPacket_def same intro: exI [of _ "nat s1"])
  qed
qed

text \<open>A packet that has arrived and fits is read to the start of the buffer.\<close>

lemma readPacket_reads:
  assumes "Cpp_inv cfg c" "pending w = h # varint m @ xs @ rest" "length xs = m" "m < 268435456"
    and "1 + int (length (varint m)) + int m \<le> MAX_MQTT_PACKET_SIZE cfg"
  shows "\<exists>w' t. Cpp_readPacket cfg n w c timer = Some (uint (header_type h), w',
      c\<lparr>cl_readbuf := overlay (h # varint m @ xs) (cl_readbuf c), cl_last_received := t\<rparr>) \<and>
    pending w' = rest \<and> sent w' = sent w"
proof -
  let ?rb = "cl_readbuf c"
  have same: "c\<lparr>cl_readbuf := b, cl_last_received := cl_last_received c\<rparr> = c\<lparr>cl_readbuf := b\<rparr>" for b
    by (cases c) simp
  have room: "1 + length (varint m) + m + 2 \<le> length ?rb"
    using Cpp_invD(4) [OF assms(1)] assms(5) by linarith
  have v: "1 \<le> length (varint m)" "length (varint m) \<le> 4"
    using assms(4) by (simp_all add: length_varint)
  obtain l1 w1 where l1: "timer_left_ms n w timer = (l1, w1)" by force
  obtain w2 where r: "ipstack_read n w1 1 l1 = Some (1, [h], w2)" "pending w2 = varint m @ xs @ rest"
    using reads_pending [of w1 "[h]" "varint m @ xs @ rest" 1 l1] assms(2) quiet_left [OF l1] by auto
  have b1: "put_bytes ?rb 0 [h] = Some (overlay [h] ?rb)"
    using put_bytes_overlay [of "[]" "[h]" ?rb 0] room by simp
  obtain l2 w3 where l2: "timer_left_ms n w2 timer = (l2, w3)" by force
  obtain w4 where d: "Cpp_decodePacket n w3 l2 = Some (int (length (varint m)), int m, w4)" "pending w4 = xs @ rest"
    using source.decode_digits [of w3 m "xs @ rest" 0 l2 1 0] r(2) quiet_left [OF l2] v
    by (auto simp: Cpp_decodePacket_def MQTTPacket_decode_def)
  have "sent w4 = sent w3"
    using d(1) unfolding Cpp_decodePacket_def MQTTPacket_decode_def
    by (rule decode_loop_keeps) (use time_read in blast)
  then have w4: "sent w4 = sent w"
    using quiet_left [OF l1] quiet_left [OF l2] time_read [OF r(1)] by simp
  have b2: "MQTTPacket_encode (overlay [h] ?rb, 1) (int m) = Some (overlay (h # varint m) ?rb, int (length (varint m)))"
    using room by (intro encode_overlay) simp
  obtain w5 where body: "Cpp_readPacket_body n w4 (c\<lparr>cl_readbuf := overlay (h # varint m) ?rb\<rparr>) timer
      (1 + int (length (varint m))) (int m) = Some (int m, w5, c\<lparr>cl_readbuf := overlay (h # varint m @ xs) ?rb\<rparr>)"
    "pending w5 = rest" "sent w5 = sent w"
  proof (cases "m = 0")
    case True
    then show thesis
      using that [of w4] d(2) w4 assms(3) by (simp add: Cpp_readPacket_body_def)
  next
    case False
    obtain l3 w5 where l3: "timer_left_ms n w4 timer = (l3, w5)" by force
    obtain w6 where r3: "ipstack_read n w5 (int m) l3 = Some (int m, xs, w6)" "pending w6 = rest"
      using reads_pending [of w5 xs rest "int m" l3] quiet_left [OF l3] d(2) False assms(3) by auto
    have "put_bytes (overlay (h # varint m) ?rb) (nat (1 + int (length (varint m)))) xs = Some (overlay (h # varint m @ xs) ?rb)"
      using put_bytes_overlay [of "h # varint m" xs ?rb] room assms(3) by (simp add: nat_add_distrib)
    then show thesis
      using that [of w6] False l3 r3 quiet_left [OF l3] time_read [OF r3(1)] w4 by (simp add: Cpp_readPacket_body_def)
  qed
  obtain t w6 where t: "timer_countdown n w5 (cl_last_received c) (int_of_size (cl_keepAliveInterval c)) = (t, w6)" by force
  have fits: "\<not> int m > MAX_MQTT_PACKET_SIZE cfg - (1 + int (length (varint m)))"
    using assms(5) by linarith
  note start = Cpp_readPacket_def [of cfg n w c timer] l1 r(1) b1 l2 d(1) b2 [unfolded One_nat_def] fits body(1) readChar_overlay
  show ?thesis
  proof (cases "cl_keepAliveInterval c > 0")
    case True
    then show ?thesis
      using t quiet_countdown [OF t] body(2,3) by (intro exI [of _ w6] exI [of _ t]) (simp add: start)
  next
    case False
    then show ?thesis
      using body(2,3) by (intro exI [of _ w5] exI [of _ "cl_last_received c"]) (simp add: start same)
  qed
qed

lemma keepalive_quiet:
  assumes "Cpp_inv cfg c"
  shows "\<exists>rc w' c'. Cpp_keepalive cfg n w c = Some (rc, w', c') \<and> pending w' = pending w \<and> app_view c' = app_view c \<and>
    (\<exists>ys. sent w' = sent w @ ys)"
proof (cases "cl_keepAliveInterval c = 0 \<or> cl_ping_outstanding c")
  case True
  obtain e w1 where e: "timer_expired n w (cl_ping_sent c) = (e, w1)" by force
  show ?thesis
    using True quiet_expired [OF e] by (auto simp: Cpp_keepalive_def e)
next
  case False
  obtain e1 w1 where e1: "timer_expired n w (cl_last_sent c) = (e1, w1)" by force
  obtain e2 w2 where e2: "(if e1 then (True, w1) else timer_expired n w1 (cl_last_received c)) = (e2, w2)" by force
  have w2: "pending w2 = pending w" "sent w2 = sent w"
    using quiet_expired [OF e1] quiet_expired [of w1 "cl_last_received c"] e2 by (auto split: if_splits)
  have off: "cl_keepAliveInterval c \<noteq> 0" "\<not> cl_ping_outstanding c" using False by simp_all
  note start = Cpp_keepalive_def [of cfg n w c] off e1 e2
  show ?thesis
  proof (cases e2)
    case no: False
    with w2 show ?thesis by (simp add: start)
  next
    case True
    obtain t3 w3 where t3: "Timer_ms n w2 1000 = (t3, w3)" by force
    obtain buf len where b: "MQTTSerialize_pingreq (cl_sendbuf c) (MAX_MQTT_PACKET_SIZE cfg) = Some (buf, len)" "serialised c buf len"
      using zero_serialised [OF assms, of "msgType_code PINGREQ"] by (auto simp: MQTTSerialize_pingreq_def)
    show ?thesis
    proof (cases "len > 0")
      case len: True
      then obtain rc w5 t where s: "Cpp_sendPacket n w3 (c\<lparr>cl_sendbuf := buf\<rparr>) len t3 = Some (rc, w5, c\<lparr>cl_sendbuf := buf, cl_last_sent := t\<rparr>)"
        "pending w5 = pending w3" "\<exists>ys. sent w5 = sent w3 @ ys"
        using sendPacket_sends [of len "c\<lparr>cl_sendbuf := buf\<rparr>" w3 t3] b(2) by (auto simp: serialised_def)
      obtain t' w6 where t': "timer_countdown n w5 (cl_ping_sent c) (int_of_size (cl_keepAliveInterval c)) = (t', w6)" by force
      show ?thesis
        using True len t3 b(1) s t' w2 quiet_ms [OF t3] quiet_countdown [OF t'] by (auto simp: start)
    next
      case len: False
      then show ?thesis
        using True t3 b w2 quiet_ms [OF t3] by (simp add: start)
    qed
  qed
qed


lemma sent_ack:
  assumes "Cpp_inv cfg c" "MQTTSerialize_ack (cl_sendbuf c) (MAX_MQTT_PACKET_SIZE cfg) ty 0 i = Some (buf, len)"
  shows "0 < len \<and> take (nat len) buf = ack_wire (ty, 0, i) \<and> serialised c buf len"
  using ack_serialised [OF assms(1), of ty 0 i] Cpp_invD [OF assms(1)] assms(2) length_varint [of 2]
    ack.result_cases [where a = "(ty, 0, i)" and buf = "cl_sendbuf c" and buflen = "MAX_MQTT_PACKET_SIZE cfg" and buf' = buf and rc = len]
  by (auto simp del: ack_wire.simps simp: ack_length)

lemma publish_refines:
  assumes "Cpp_inv cfg c" "MQTTCLIENT_QOS2 cfg" "packet_ok cfg (Publication a)"
    and "cl_readbuf c = overlay (publish_wire a) rb" "length (publish_wire a) + 2 \<le> length (cl_readbuf c)"
  shows "\<exists>rc leave w' c'. Cpp_cycle_publish cfg n w c timer = Some (rc, leave, w', c') \<and> pending w' = pending w \<and>
    received c' = receive (length (cl_incomingQoS2messages c)) (Cpp_targets c) (Publication a) (received c) \<and>
    length (cl_incomingQoS2messages c') = length (cl_incomingQoS2messages c) \<and> Cpp_targets c' = Cpp_targets c \<and>
    (rc = SUCCESS \<and> \<not> leave \<and> sent w' = sent w @ packet_answer (Publication a) \<or> rc = FAILURE \<and> leave)"
proof -
  obtain dup qos retained i topic payload payloadlen where a: "a = (dup, qos, retained, i, topic, payload, payloadlen)"
    by (cases a rule: publish_ok.cases)
  have ok: "publish_ok a" "qos \<le> 2" "0 \<le> qos"
    using assms(3) by (auto simp: a)
  obtain out where out: "MQTTDeserialize_publish publish_out_zero (cl_readbuf c) (MAX_MQTT_PACKET_SIZE cfg) = Some (1, out)"
    "publish_view out = publish_val a" "topic_ok (pub_topicName out)" "pub_payloadlen out = payloadlen"
    using publish_in_buffer [OF ok(1) a, of "cl_readbuf c"] assms(4,5) by (auto simp: overlay_def)
  define msg where "msg = \<lparr>msg_qos = pub_qos out, msg_retained = pub_retained out, msg_dup = pub_dup out,
        msg_id = pub_packetid out, msg_payload = pub_payload out, msg_payloadlen = word_of_int (pub_payloadlen out)\<rparr>"
  have view: "pub_qos out = qos" "qos > 0 \<Longrightarrow> pub_packetid out = i"
    using out(2) by (auto simp: publish_view_def a)
  obtain ms ds where d: "Cpp_cycle_deliver cfg c (pub_topicName out) msg = Some (c\<lparr>cl_incomingQoS2messages := ms, cl_delivered := ds\<rparr>)"
    "length ms = length (cl_incomingQoS2messages c)"
    "received (c\<lparr>cl_incomingQoS2messages := ms, cl_delivered := ds\<rparr>) =
      receive (length (cl_incomingQoS2messages c)) (Cpp_targets c) (Publication a) (received c)"
    using Cpp_cycle_deliver_refines [OF assms(1,2) out(3,2) a out(4) ok(1) msg_def] by blast
  let ?c = "c\<lparr>cl_incomingQoS2messages := ms, cl_delivered := ds\<rparr>"
  have inv: "Cpp_inv cfg ?c"
    using Cpp_cycle_deliver_returns [OF assms(1) out(3), of msg] d(1) by (metis Cpp_inv_update(6) option.inject)
  have tg: "Cpp_targets (?c\<lparr>cl_sendbuf := buf, cl_last_sent := t\<rparr>) = Cpp_targets c" "Cpp_targets ?c = Cpp_targets c" for buf t
    by (auto simp: Cpp_targets_def Let_def)
  have rec: "received (?c\<lparr>cl_sendbuf := buf, cl_last_sent := t\<rparr>) = received ?c" for buf t
    by (rule received_app_view) simp
  have start: "Cpp_cycle_publish cfg n w c timer =
    (if qos = 0 then Some (SUCCESS, False, w, ?c)
     else do {
       (buf, len) \<leftarrow>
         (if qos = 1 then MQTTSerialize_ack (cl_sendbuf c) (MAX_MQTT_PACKET_SIZE cfg) 4 0 (pub_packetid out)
          else if qos = 2 then MQTTSerialize_ack (cl_sendbuf c) (MAX_MQTT_PACKET_SIZE cfg) 5 0 (pub_packetid out)
          else Some (cl_sendbuf c, 0));
       let c = ?c\<lparr>cl_sendbuf := buf\<rparr>;
       (rc, w, c) \<leftarrow> (if len \<le> 0 then Some (FAILURE, w, c) else Cpp_sendPacket n w c len timer);
       Some (rc, rc = FAILURE, w, c) })"
    using out(1) d(1) [unfolded msg_def] by (simp add: Cpp_cycle_publish_def assms(2) view)
  show ?thesis
  proof (cases "qos = 0")
    case True
    then show ?thesis
      using d(2,3) tg by (auto simp: start a answer_def)
  next
    case False
    define ty where "ty = (if qos = 1 then 4 else 5 :: byte)"
    obtain buf len where b: "MQTTSerialize_ack (cl_sendbuf c) (MAX_MQTT_PACKET_SIZE cfg) ty 0 i = Some (buf, len)"
      using ack_serialised [OF assms(1)] by blast
    then have len: "0 < len" "take (nat len) buf = ack_wire (ty, 0, i)" "serialised ?c buf len"
      using sent_ack [OF inv, of ty i buf len] by simp_all
    obtain rc w1 t where s: "Cpp_sendPacket n w (?c\<lparr>cl_sendbuf := buf\<rparr>) len timer = Some (rc, w1, ?c\<lparr>cl_sendbuf := buf, cl_last_sent := t\<rparr>)"
      "pending w1 = pending w" "rc = SUCCESS \<and> sent w1 = sent w @ ack_wire (ty, 0, i) \<or> rc = FAILURE"
      using sendPacket_sends [of len "?c\<lparr>cl_sendbuf := buf\<rparr>" w timer] len by (auto simp: serialised_def)
    have "Cpp_cycle_publish cfg n w c timer = Some (rc, rc = FAILURE, w1, ?c\<lparr>cl_sendbuf := buf, cl_last_sent := t\<rparr>)"
      using False ok(2,3) b s(1) len(1) by (cases "qos = 1") (auto simp: start view ty_def)
    moreover have "packet_answer (Publication a) = ack_wire (ty, 0, i)"
      using False ok(2,3) by (auto simp: a answer_def ty_def)
    ultimately show ?thesis
      using s(2,3) d(2,3) by (auto simp: tg rec)
  qed
qed

lemma release_refines:
  assumes "Cpp_inv cfg c" "MQTTCLIENT_QOS2 cfg" "cl_readbuf c = overlay (ack_wire (6, 0, i)) rb"
  shows "\<exists>rc leave w' c'. Cpp_cycle_pubrec_pubrel cfg n w c timer 6 = Some (rc, leave, w', c') \<and> pending w' = pending w \<and>
    snd (received c') = snd (received c) \<and> length (cl_incomingQoS2messages c') = length (cl_incomingQoS2messages c) \<and>
    Cpp_targets c' = Cpp_targets c \<and>
    (rc = SUCCESS \<and> \<not> leave \<and> fst (received c') = fst (received c) - {i} \<and> sent w' = sent w @ packet_answer (Release i) \<or>
     rc = FAILURE \<and> leave)"
proof -
  obtain out where out: "MQTTDeserialize_ack \<lparr>ack_packettype = 0, ack_dup = 0, ack_packetid = 0\<rparr> (cl_readbuf c) (MAX_MQTT_PACKET_SIZE cfg) =
      Some (1, out)" "ack_packetid out = i"
    using ack.deser_wire [where a = "(6, 0, i)" and n = "MAX_MQTT_PACKET_SIZE cfg" and rest = "drop (length (ack_wire (6, 0, i))) rb"
      and out = "\<lparr>ack_packettype = 0, ack_dup = 0, ack_packetid = 0\<rparr>"] assms(3) Cpp_invD(1) [OF assms(1)]
    by (auto simp: overlay_def ack_length simp del: ack_wire.simps)
  obtain buf len where b: "MQTTSerialize_ack (cl_sendbuf c) (MAX_MQTT_PACKET_SIZE cfg) 7 0 i = Some (buf, len)"
    using ack_serialised [OF assms(1)] by blast
  note len = sent_ack [OF assms(1) b]
  obtain rc w1 t where s: "Cpp_sendPacket n w (c\<lparr>cl_sendbuf := buf\<rparr>) len timer = Some (rc, w1, c\<lparr>cl_sendbuf := buf, cl_last_sent := t\<rparr>)"
    "pending w1 = pending w" "rc = SUCCESS \<and> sent w1 = sent w @ ack_wire (7, 0, i) \<or> rc = FAILURE"
    using sendPacket_sends [of len "c\<lparr>cl_sendbuf := buf\<rparr>" w timer] len by (auto simp: serialised_def)
  let ?c = "c\<lparr>cl_sendbuf := buf, cl_last_sent := t\<rparr>" and ?ms = "cl_incomingQoS2messages c"
  let ?k = "scan_slots (\<lambda>m. m = i) ?ms"
  have ok: "qos2_table_ok ?ms"
    using assms(1,2) by (simp add: Cpp_inv_def)
  have eq: "Cpp_cycle_pubrec_pubrel cfg n w c timer 6 =
    Some (rc, rc = FAILURE, w1, if rc = FAILURE then ?c else Cpp_freeQoS2msgid ?c i)"
    using out b len s(1,3) by (auto simp: Cpp_cycle_pubrec_pubrel_def)
  have view: "received ?c = received c" "Cpp_targets ?c = Cpp_targets c"
    by (intro received_app_view targets_app_view; simp)+
  have free: "fst (received (Cpp_freeQoS2msgid ?c i)) = fst (received c) - {i}"
  proof (cases "?k < length ?ms")
    case True
    then show ?thesis
      using qos2_free [OF ok True scan_slots_found [OF True]] by (auto simp: Cpp_freeQoS2msgid_def received_def Let_def)
  next
    case False
    then show ?thesis
      using scan_slots_none [of "\<lambda>m. m = i" ?ms] by (auto simp: Cpp_freeQoS2msgid_def received_def Let_def)
  qed
  have frame: "snd (received (Cpp_freeQoS2msgid ?c i)) = snd (received c)"
    "length (cl_incomingQoS2messages (Cpp_freeQoS2msgid ?c i)) = length ?ms" "Cpp_targets (Cpp_freeQoS2msgid ?c i) = Cpp_targets c"
    by (auto simp: Cpp_freeQoS2msgid_def received_def Let_def Cpp_targets_def)
  show ?thesis
    unfolding eq using s(2,3) view free frame by auto
qed


text \<open>The wire form of a packet, as \<open>readPacket\<close> needs it.\<close>

lemma packet_parts:
  assumes "packet_ok cfg pk" "5 \<le> MAX_MQTT_PACKET_SIZE cfg"
  obtains h xs where "packet_wire pk = h # varint (length xs) @ xs" "length xs < 268435456"
    "uint (header_type h) = (case pk of Publication _ \<Rightarrow> 3 | Release _ \<Rightarrow> 6)"
    "1 + int (length (varint (length xs))) + int (length xs) \<le> MAX_MQTT_PACKET_SIZE cfg"
proof (cases pk)
  case (Publication a)
  obtain dup qos retained i topic payload payloadlen where a: "a = (dup, qos, retained, i, topic, payload, payloadlen)"
    by (cases a rule: publish_ok.cases)
  have w: "packet_wire pk = publish_header dup qos retained # varint (length (publish_body a)) @ publish_body a"
    by (simp add: Publication a Let_def del: publish_body.simps)
  show thesis
    using that [OF w] assms(1) w by (simp add: Publication a publish_header_fields del: publish_body.simps publish_wire.simps)
next
  case (Release i)
  show thesis
    using that [of "ack_header 6 0" "be16 (uint i)"] assms(2) by (simp add: Release field_simps length_varint)
qed

lemma cycle_refines:
  assumes "Cpp_inv cfg c" "MQTTCLIENT_QOS2 cfg" "packet_ok cfg pk" "pending w = packet_wire pk @ rest"
  shows "\<exists>rc w' c'. Cpp_cycle cfg n w c timer = Some (rc, w', c') \<and> pending w' = rest \<and> Cpp_inv cfg c' \<and>
    snd (received c') = snd (receive (length (cl_incomingQoS2messages c)) (Cpp_targets c) pk (received c)) \<and>
    (rc > 0 \<and> received c' = receive (length (cl_incomingQoS2messages c)) (Cpp_targets c) pk (received c) \<and>
       length (cl_incomingQoS2messages c') = length (cl_incomingQoS2messages c) \<and> Cpp_targets c' = Cpp_targets c \<and>
       (\<exists>ys. sent w' = sent w @ packet_answer pk @ ys) \<or>
     rc < 0 \<and> \<not> cl_isconnected c')"
proof -
  obtain h xs where wire: "packet_wire pk = h # varint (length xs) @ xs" "length xs < 268435456"
    "uint (header_type h) = (case pk of Publication _ \<Rightarrow> 3 | Release _ \<Rightarrow> 6)"
    "1 + int (length (varint (length xs))) + int (length xs) \<le> MAX_MQTT_PACKET_SIZE cfg"
    using packet_parts [OF assms(3) Cpp_invD(1) [OF assms(1)]] by blast
  let ?ty = "case pk of Publication _ \<Rightarrow> 3 | Release _ \<Rightarrow> (6 :: int)"
  obtain w1 t where r: "Cpp_readPacket cfg n w c timer =
      Some (?ty, w1, c\<lparr>cl_readbuf := overlay (packet_wire pk) (cl_readbuf c), cl_last_received := t\<rparr>)"
    "pending w1 = rest" "sent w1 = sent w"
    using readPacket_reads [OF assms(1) _ refl wire(2,4), of w h rest timer] assms(4) wire(1,3) by auto
  let ?c = "c\<lparr>cl_readbuf := overlay (packet_wire pk) (cl_readbuf c), cl_last_received := t\<rparr>"
  have l: "int (length (packet_wire pk)) \<le> MAX_MQTT_PACKET_SIZE cfg"
    using wire(1,4) by simp
  have inv: "Cpp_inv cfg ?c"
    using Cpp_inv_readbuf [OF assms(1), of "overlay (packet_wire pk) (cl_readbuf c)"] l Cpp_invD(4) [OF assms(1)] by simp
  have holds: "holds_packet ?ty (cl_readbuf ?c)"
    using holds_packet_overlay [of "length xs" "cl_readbuf c" xs h] wire Cpp_invD(4) [OF assms(1)] by simp
  have view: "received ?c = received c" "Cpp_targets ?c = Cpp_targets c"
    by (intro received_app_view targets_app_view; simp)+
  have room: "length (packet_wire pk) + 2 \<le> length (cl_readbuf ?c)"
    using l Cpp_invD(4) [OF assms(1)] by simp
  let ?spec = "receive (length (cl_incomingQoS2messages c)) (Cpp_targets c) pk (received c)"
  obtain rc leave w2 c2 where d: "Cpp_cycle_dispatch cfg n w1 ?c timer ?ty = Some (rc, leave, w2, c2)" "pending w2 = rest"
    "snd (received c2) = snd ?spec" "length (cl_incomingQoS2messages c2) = length (cl_incomingQoS2messages c)"
    "Cpp_targets c2 = Cpp_targets c"
    "rc = SUCCESS \<and> \<not> leave \<and> received c2 = ?spec \<and> sent w2 = sent w @ packet_answer pk \<or> rc = FAILURE \<and> leave"
  proof (cases pk)
    case (Publication a)
    then show thesis
      using publish_refines [OF inv assms(2), of a "cl_readbuf c" w1 timer] assms(3) room r(2,3) view that
      by (auto simp: Cpp_cycle_dispatch_def simp del: publish_wire.simps)
  next
    case (Release i)
    obtain S log where S: "received c = (S, log)" by force
    show thesis
      using release_refines [OF inv assms(2), of i "cl_readbuf c" w1 timer] r(2,3) view that assms(2) S
      by (auto simp: Cpp_cycle_dispatch_def Release prod_eq_iff simp del: ack_wire.simps)
  qed
  have inv2: "Cpp_inv cfg c2"
    using cycle_dispatch_step [OF inv, of ?ty w1 timer] d(1) holds by (auto simp: safe_step_def)
  obtain k w3 c3 where k: "Cpp_keepalive cfg n w2 c2 = Some (k, w3, c3)" "pending w3 = rest" "app_view c3 = app_view c2"
    "\<exists>ys. sent w3 = sent w2 @ ys"
    using keepalive_quiet [OF inv2, of w2] d(2) by auto
  have inv3: "Cpp_inv cfg c3"
    using keepalive_step [OF inv2, of w2] k(1) by (auto simp: safe_step_def)
  have view3: "received c3 = received c2" "Cpp_targets c3 = Cpp_targets c2"
    "length (cl_incomingQoS2messages c3) = length (cl_incomingQoS2messages c2)"
    using k(3) received_app_view targets_app_view by (auto simp: app_view_def)
  have "?ty > 0" by (simp split: broker_packet.split)
  note start = Cpp_cycle_def [of cfg n w c timer] r(1) d(1) k(1) this
  show ?thesis
  proof (cases leave)
    case True
    then show ?thesis
      using d inv2 by (auto simp: start)
  next
    case False
    then have "rc = SUCCESS" using d(6) by auto
    then show ?thesis
      using False d k(2,4) inv3 view3 by (auto simp: start)
  qed
qed

text \<open>Rounds until the first that fails.\<close>

lemma rounds_refine:
  assumes "Cpp_inv cfg c" "MQTTCLIENT_QOS2 cfg" "list_all (packet_ok cfg) pks" "pending w = concat (map packet_wire pks) @ rest"
  shows "\<exists>rc w' c' j. Cpp_rounds cfg n w c timer (length pks) = Some (rc, w', c') \<and> Cpp_inv cfg c' \<and> j \<le> length pks \<and>
    snd (received c') = snd (fold (receive (length (cl_incomingQoS2messages c)) (Cpp_targets c)) (take j pks) (received c)) \<and>
    (pks \<noteq> [] \<longrightarrow> 0 < j) \<and>
    (rc \<ge> 0 \<and> j = length pks \<and> pending w' = rest \<and>
       received c' = fold (receive (length (cl_incomingQoS2messages c)) (Cpp_targets c)) pks (received c) \<or>
     rc < 0 \<and> \<not> cl_isconnected c')"
  using assms(1,3,4)
proof (induction pks arbitrary: w c)
  case Nil
  then show ?case
    by (intro exI [of _ SUCCESS] exI [of _ w] exI [of _ c] exI [of _ 0]) simp
next
  case (Cons pk pks)
  let ?r = "receive (length (cl_incomingQoS2messages c)) (Cpp_targets c)"
  obtain rc w1 c1 where cy: "Cpp_cycle cfg n w c timer = Some (rc, w1, c1)" "pending w1 = concat (map packet_wire pks) @ rest"
    "Cpp_inv cfg c1" "snd (received c1) = snd (?r pk (received c))"
    "rc > 0 \<and> received c1 = ?r pk (received c) \<and> length (cl_incomingQoS2messages c1) = length (cl_incomingQoS2messages c) \<and>
       Cpp_targets c1 = Cpp_targets c \<or> rc < 0 \<and> \<not> cl_isconnected c1"
    using cycle_refines [OF Cons.prems(1) assms(2), of pk w "concat (map packet_wire pks) @ rest" timer] Cons.prems(2,3) by auto
  show ?case
  proof (cases "rc < 0")
    case True
    then show ?thesis
      using cy by (intro exI [of _ rc] exI [of _ w1] exI [of _ c1] exI [of _ 1]) auto
  next
    case False
    then have g: "received c1 = ?r pk (received c)" "length (cl_incomingQoS2messages c1) = length (cl_incomingQoS2messages c)"
       "Cpp_targets c1 = Cpp_targets c"
      using cy(5) by auto
    obtain rc' w' c' j where "Cpp_rounds cfg n w1 c1 timer (length pks) = Some (rc', w', c')" "Cpp_inv cfg c'" "j \<le> length pks"
      "snd (received c') = snd (fold ?r (take j pks) (received c1))"
      "rc' \<ge> 0 \<and> j = length pks \<and> pending w' = rest \<and> received c' = fold ?r pks (received c1) \<or> rc' < 0 \<and> \<not> cl_isconnected c'"
      using Cons.IH [OF cy(3) _ cy(2)] Cons.prems(2) g by auto
    then show ?thesis
      using False cy(1) g(1) by (intro exI [of _ rc'] exI [of _ w'] exI [of _ c'] exI [of _ "Suc j"]) auto
  qed
qed


subsection \<open>Sending a publication again\<close>

lemma publish_buf_sends:
  assumes "Cpp_inv cfg c" "0 \<le> len" "len \<le> MAX_MQTT_PACKET_SIZE cfg"
    and "Cpp_publish_buf cfg n w c len timer qos = Some (SUCCESS, w', c')"
  shows "\<exists>ys. sent w' = sent w @ take (nat len) (cl_sendbuf c) @ ys"
proof -
  obtain rc w1 t where s: "Cpp_sendPacket n w c len timer = Some (rc, w1, c\<lparr>cl_last_sent := t\<rparr>)"
    "rc = SUCCESS \<and> sent w1 = sent w @ take (nat len) (cl_sendbuf c) \<or> rc = FAILURE"
    using sendPacket_sends [of len c w timer] assms(2,3) Cpp_invD(2) [OF assms(1)] by auto
  have inv: "Cpp_inv cfg (c\<lparr>cl_last_sent := t\<rparr>)" using assms(1) by simp
  have rc: "rc = SUCCESS"
    using s assms(4) by (auto simp: Cpp_publish_buf_def)
  have "later w1 w'"
    using await_ack_step [OF inv, of 4 w1 timer] await_ack_step [OF inv, of 7 w1 timer] assms(4) s(1) rc
    by (auto simp: Cpp_publish_buf_def safe_step_def split: if_splits)
  then show ?thesis
    using s(2) rc by (auto simp: later_def)
qed

lemma resend_sends:
  assumes "Cpp_inv cfg c" "MQTTCLIENT_QOS1 cfg" "cl_inflightMsgid c \<noteq> 0" "\<not> (MQTTCLIENT_QOS2 cfg \<and> cl_pubrel c)"
    and "Cpp_resend_inflight cfg n w c timer rc = Some (SUCCESS, w', c')"
  shows "\<exists>ys. sent w' = sent w @ take (nat (cl_inflightLen c)) (cl_pubbuf c) @ ys"
proof -
  have all: "put_bytes (cl_sendbuf c) 0 (take (nat (MAX_MQTT_PACKET_SIZE cfg)) (cl_pubbuf c)) = Some (cl_pubbuf c)"
    using Cpp_invD [OF assms(1)] by (simp add: put_bytes_def)
  have inv: "Cpp_inv cfg (c\<lparr>cl_sendbuf := cl_pubbuf c\<rparr>)"
    using Cpp_invD [OF assms(1)] by (intro Cpp_inv_sendbuf [OF assms(1)]) simp
  have pos: "cl_inflightMsgid c > 0"
    using assms(3) by (simp add: word_gt_0)
  have len: "0 \<le> cl_inflightLen c" "cl_inflightLen c \<le> MAX_MQTT_PACKET_SIZE cfg"
    using assms(1-3) by (auto simp: Cpp_inv_def)
  have "Cpp_publish_buf cfg n w (c\<lparr>cl_sendbuf := cl_pubbuf c\<rparr>) (cl_inflightLen c) timer (cl_inflightQoS c) = Some (SUCCESS, w', c')"
    using assms(2,4,5) pos all by (auto simp: Cpp_resend_inflight_def)
  from publish_buf_sends [OF inv len this] show ?thesis by simp
qed

lemma connect_resends:
  assumes "Cpp_inv cfg c" "connect_ok options" "MQTTCLIENT_QOS1 cfg" "cl_inflightMsgid c \<noteq> 0"
    and "\<not> (MQTTCLIENT_QOS2 cfg \<and> cl_pubrel c)"
    and "Cpp_connect_data cfg n w c options data = Some (SUCCESS, w', c', data')"
  shows "\<exists>xs ys. sent w' = sent w @ connect_wire options @ xs @ take (nat (cl_inflightLen c)) (cl_pubbuf c) @ ys"
proof -
  have off: "\<not> cl_isconnected c"
    using assms(6) by (auto simp: Cpp_connect_data_def split: prod.splits)
  obtain t w1 where t: "Timer_ms n w (int_of_size (cl_command_timeout_ms c)) = (t, w1)" by force
  define c1 where "c1 = c\<lparr>cl_keepAliveInterval := ucast (cd_keepAliveInterval options), cl_cleansession := cd_cleansession options \<noteq> 0\<rparr>"
  have inv1: "Cpp_inv cfg c1" and fl1: "inflight c1 = inflight c" "\<not> cl_isconnected c1"
    using assms(1) off by (simp_all add: c1_def inflight_def)
  obtain buf len where b: "MQTTSerialize_connect (cl_sendbuf c1) (MAX_MQTT_PACKET_SIZE cfg) options = Some (buf, len)" "serialised c1 buf len"
    "len > 0 \<longrightarrow> take (nat len) buf = connect_wire options"
    using connect.memory_safe [OF assms(2), of "MAX_MQTT_PACKET_SIZE cfg" "cl_sendbuf c1"] Cpp_invD [OF inv1]
    by (auto simp: serialised_def)
  note start = Cpp_connect_data_def [of cfg n w c options data] off t c1_def [symmetric] b(1)
  have pos: "len > 0"
    using assms(6) by (cases "len \<le> 0") (simp_all add: start)
  obtain rc w2 t2 where s: "Cpp_sendPacket n w1 (c1\<lparr>cl_sendbuf := buf\<rparr>) len t = Some (rc, w2, c1\<lparr>cl_sendbuf := buf, cl_last_sent := t2\<rparr>)"
    "rc = SUCCESS \<and> sent w2 = sent w1 @ connect_wire options \<or> rc = FAILURE"
    using sendPacket_sends [of len "c1\<lparr>cl_sendbuf := buf\<rparr>" w1 t] b(2,3) pos by (auto simp: serialised_def)
  let ?c2 = "c1\<lparr>cl_sendbuf := buf, cl_last_sent := t2\<rparr>"
  have inv2: "Cpp_inv cfg ?c2" and fl2: "inflight ?c2 = inflight c" "\<not> cl_isconnected ?c2"
    using serialised_step [OF inv1 b(2), of w1] fl1 by (simp_all add: safe_step_def inflight_def)
  have rc: "rc = SUCCESS"
    using assms(6) pos s by (auto simp: start)
  obtain w3 c3 where k: "Cpp_start_received n w2 ?c2 = (w3, c3)" by force
  have s3: "safe_step cfg w2 ?c2 w3 c3"
    using start_received_step [OF inv2 k] .
  have fl3: "inflight c3 = inflight c" "\<not> cl_isconnected c3"
    using k fl2 by (auto simp: Cpp_start_received_def inflight_def split: if_splits prod.splits)
  obtain ty w4 c4 where a: "Cpp_waitfor cfg n w3 c3 2 t = Some (ty, w4, c4)" "safe_step cfg w3 c3 w4 c4"
    "ty = 2 \<longrightarrow> holds_packet 2 (cl_readbuf c4)" "held c3 c4"
    using waitfor_step [OF safe_step_inv [OF s3], of 2 w3 t] by auto
  have fl4: "inflight c4 = inflight c"
    using a(4) fl3 by (simp add: held_def kept_def)
  obtain rca da where rca: "Cpp_read_connack cfg c4 ty data = Some (rca, da)"
    using read_connack_returns a(3) by blast
  obtain c5 where "Cpp_resend_inflight cfg n w4 c4 t rca = Some (SUCCESS, w', c5)"
    using assms(6) pos rc s(1) k a(1) rca by (auto simp: start bind_eq_Some_conv split: if_splits)
  then obtain ys where ys: "sent w' = sent w4 @ take (nat (cl_inflightLen c)) (cl_pubbuf c) @ ys"
    using resend_sends [OF safe_step_inv [OF a(2)] assms(3), of w4 t rca w' c5] assms(4,5) fl4 by (auto simp: inflight_def)
  have "later w2 w4"
    using s3 a(2) later_trans by (auto simp: safe_step_def)
  then obtain xs where "sent w4 = sent w2 @ xs"
    by (auto simp: later_def)
  then show ?thesis
    using ys s(2) rc quiet_ms [OF t] by (intro exI [of _ xs] exI [of _ ys]) auto
qed

lemma publish_stores:
  assumes "Cpp_inv cfg c" "MQTTCLIENT_QOS1 cfg" "\<not> cl_cleansession c" "cl_isconnected c" "qos = 1 \<or> qos = 2"
    and "publishable topic payload payloadlen qos retained"
    and "Cpp_publish_id cfg n w c topic payload payloadlen i qos retained = Some (FAILURE, w', c', j)" "\<not> cl_isconnected c'"
  shows "Cpp_inv cfg c' \<and> cl_inflightMsgid c' \<noteq> 0 \<and> \<not> (MQTTCLIENT_QOS2 cfg \<and> cl_pubrel c') \<and>
    take (nat (cl_inflightLen c')) (cl_pubbuf c') =
      publish_wire (0, qos, retained, j, MQTTString_initializer\<lparr>cstring := Some topic\<rparr>, payload, int_of_size payloadlen)"
proof -
  let ?topic = "MQTTString_initializer\<lparr>cstring := Some topic\<rparr>" and ?max = "MAX_MQTT_PACKET_SIZE cfg"
  obtain t w1 where t: "Timer_ms n w (int_of_size (cl_command_timeout_ms c)) = (t, w1)" by force
  obtain k c1 where kc: "PacketId_getNext c = (k, c1)" by force
  have c1: "c1 = c\<lparr>cl_packetid := k\<rparr>" "1 \<le> k" "k \<le> 65535"
    using kc assms(1) by (auto simp: PacketId_getNext_def Cpp_inv_def Let_def split: if_splits)
  have id: "Cpp_take_id cfg c i qos = (word_of_int k, c1)"
    using assms(2,5) kc by (simp add: Cpp_take_id_def)
  have k0: "(word_of_int k :: u16) \<noteq> 0"
    using c1(2,3) by (simp add: word_uint_eq_iff uint_word_of_int)
  note inv1 = Cpp_inv_getNext [OF assms(1) kc]
  have ok: "publish_ok (0, qos, retained, word_of_int k, ?topic, payload, int_of_size payloadlen)"
    using assms(6) by (simp only: publishable_def)
  obtain buf len where b: "MQTTSerialize_publish (cl_sendbuf c1) ?max 0 qos retained (word_of_int k) ?topic payload (int_of_size payloadlen) = Some (buf, len)"
    "serialised c1 buf len"
    "len > 0 \<longrightarrow> take (nat len) buf = publish_wire (0, qos, retained, word_of_int k, ?topic, payload, int_of_size payloadlen)"
    using publish.memory_safe [OF ok, of ?max "cl_sendbuf c1"] Cpp_invD [OF inv1]
    by (auto simp: serialised_def simp del: publish_wire.simps)
  let ?c = "c1\<lparr>cl_sendbuf := buf\<rparr>"
  have inv2: "Cpp_inv cfg ?c"
    using serialised_step [OF inv1 b(2), of w1] by (simp add: safe_step_def)
  note start = Cpp_publish_id_def [of cfg n w c topic payload payloadlen i qos retained] t assms(4) id b(1)
  have "cl_isconnected c1"
    using assms(4) c1(1) by simp
  then have pos: "len > 0"
    using assms(7,8) by (cases "len \<le> 0") (auto simp: start)
  have len: "len \<le> ?max"
    using b(2) Cpp_invD(2) [OF inv1] by (simp add: serialised_def)
  obtain c2 where st: "Cpp_store_inflight cfg ?c (word_of_int k) len qos = Some c2" "safe_step cfg w1 ?c w1 c2"
    using store_inflight_step [OF inv2 pos len] by blast
  have lb: "length (take (nat len) buf) \<le> length (cl_pubbuf c1)"
    using b(2) Cpp_invD [OF inv1] by (simp add: serialised_def)
  have "put_bytes (cl_pubbuf c1) 0 (take (nat len) buf) = Some (overlay (take (nat len) buf) (cl_pubbuf c1))"
    using put_bytes_overlay [of "[]" "take (nat len) buf" "cl_pubbuf c1" 0] lb by simp
  then have c2: "cl_inflightMsgid c2 = word_of_int k" "cl_inflightLen c2 = len" "\<not> (MQTTCLIENT_QOS2 cfg \<and> cl_pubrel c2)"
    "cl_pubbuf c2 = overlay (take (nat len) buf) (cl_pubbuf c1)" "\<not> cl_cleansession c2"
    using st(1) assms(2,3) c1(1) by (auto simp: Cpp_store_inflight_def Let_def split: if_splits)
  have j: "j = word_of_int k" and p: "Cpp_publish_buf cfg n w1 c2 len t qos = Some (FAILURE, w', c')"
    using assms(7) pos st(1) by (auto simp: start bind_eq_Some_conv)
  have e: "inflight c' = inflight c2" and inv: "Cpp_inv cfg c'"
    using publish_buf_step [OF safe_step_inv [OF st(2)], of len w1 t qos] pos len p c2(5) by (auto simp: safe_step_def)
  have lt: "length (take (nat len) buf) = nat len"
    using b(2) Cpp_invD [OF inv1] by (auto simp: serialised_def)
  then have "take (nat len) (overlay (take (nat len) buf) (cl_pubbuf c1)) = take (nat len) buf"
    by (simp add: overlay_def)
  then show ?thesis
    using inv e c2 k0 j b(3) pos by (simp add: inflight_def del: publish_wire.simps)
qed

end

interpretation simnet: cpp_network sim_net "\<lambda>w t. nat (t - sim_now w)" sim_out sim_in
  by unfold_locales (auto simp: sim_net_def sim_read_def split: if_splits)

text \<open>Publications of QoS 2 with one identifier: only the first is handed on.\<close>

lemma receive_again:
  assumes "\<forall>a \<in> set as. fst (snd a) = 2 \<and> fst (snd (snd (snd a))) = i" "i \<in> S"
  shows "fold (receive capacity tg) (map Publication as) (S, log) = (S, log)"
  using assms(1)
proof (induction as)
  case (Cons a as)
  then show ?case
    using assms(2) by (cases a rule: publish_ok.cases) auto
qed simp

lemma receive_once:
  assumes "as \<noteq> []" "\<forall>a \<in> set as. fst (snd a) = 2 \<and> fst (snd (snd (snd a))) = i" "i \<notin> S" "i \<noteq> 0" "card S < capacity"
  shows "fold (receive capacity tg) (map Publication as) (S, log) = (insert i S, log @ deliveries tg (hd as))"
proof (cases as)
  case (Cons a bs)
  then show ?thesis
    using assms(2-) receive_again [of bs i "insert i S" capacity tg] by (cases a rule: publish_ok.cases) auto
qed (use assms(1) in simp)

subsection \<open>Answers the client does not handle\<close>

text \<open>A refused connection (return code 5) while a publication is in flight: the publication is sent all the same, and if it is
  acknowledged, \<open>connect\<close> returns \<open>SUCCESS\<close> and the client counts as connected.\<close>

lemma refused_connect_succeeds:
  "map_option (\<lambda>(rc, w, c). (rc, cl_isconnected c))
     (Cpp_connect_options demo_config sim_net (sim_start [32, 2, 0, 5, 64, 2, 0, 1])
       (demo_cpp\<lparr>cl_isconnected := False, cl_inflightMsgid := 1, cl_inflightLen := 7, cl_inflightQoS := 1,
          cl_pubbuf := [50, 5, 0, 1, 97, 0, 1] @ replicate 13 0\<rparr>) MQTTPacket_connectData_initializer) =
   Some (SUCCESS, True)"
  by code_simp

text \<open>In a build without QoS 2, the default, a PUBREC closes the session, and \<open>yield\<close> returns \<open>SUCCESS\<close> nevertheless.\<close>

lemma pubrec_closes_session:
  "map_option (\<lambda>(rc, w, c). (rc, cl_isconnected c))
     (Cpp_yield (demo_config\<lparr>MQTTCLIENT_QOS2 := False\<rparr>) sim_net (sim_start [80, 2, 0, 1]) demo_cpp 50) = Some (SUCCESS, False)"
  by code_simp

text \<open>A QoS 1 PUBLISH whose topic fills the read buffer: the packet identifier is read behind the buffer.\<close>

lemma publish_overreads:
  "Cpp_cycle demo_config sim_net (sim_start ([50, 18, 0, 16] @ replicate 16 97)) (demo_cpp\<lparr>cl_readbuf := replicate 20 0\<rparr>) 50 = None"
  by code_simp

text \<open>A refused subscription returns \<open>SUCCESS\<close>; one that is answered with two return codes writes behind the variable.\<close>

lemma Cpp_subscribe_refused:
  "map_option (\<lambda>(rc, w, c). (rc, handler_of (cl_messageHandlers c) [97], cl_isconnected c))
     (Cpp_subscribe Unsigned_Char demo_config sim_net (sim_start [144, 3, 0, 1, 128]) demo_cpp [97] 0 (Some 1)) =
   Some (SUCCESS, None, True)"
  by code_simp

lemma Cpp_subscribe_overrun:
  "Cpp_subscribe abi demo_config sim_net (sim_start [144, 4, 0, 1, 0, 0]) demo_cpp [97] 0 (Some 1) = None"
  by (cases abi) code_simp+

text \<open>In a build without QoS 1 and 2, a PUBLISH counts as the answer to a PINGREQ.\<close>

lemma publish_answers_ping:
  "map_option (\<lambda>(rc, w, c). (rc, cl_ping_outstanding c))
     (Cpp_cycle \<lparr>MQTTCLIENT_QOS1 = False, MQTTCLIENT_QOS2 = False, MAX_MQTT_PACKET_SIZE = 20\<rparr> sim_net
       (sim_start [48, 3, 0, 1, 97]) (demo_cpp\<lparr>cl_ping_outstanding := True\<rparr>) 50) = Some (3, False)"
  by code_simp

subsection \<open>Properties\<close>

text \<open>C26: The C++ client's topic matching is right on well-formed input: for a filter whose levels are \<open>+\<close>, a final \<open>#\<close>
  or plain, and a topic name without empty levels, \<open>isTopicMatched\<close> decides the matching relation of the specification,
  including that \<open>#\<close> matches the parent level.\<close>

theorem cpp_topic_levels:
  assumes "filter_levels fs" "fs \<noteq> []" "list_all name_level ns" "ns \<noteq> []"
  shows "Cpp_isTopicMatched (join fs) (topic_string (join ns)) = Some (level_match fs ns)"
  using Cpp_scan_levels [OF assms(1,3,2,4)] by (simp add: Cpp_isTopicMatched_string)

theorem cpp_topic_levels_witness:
  "Cpp_isTopicMatched (join [[97], [43], [35]]) (topic_string (join [[97], [98, 99]])) =
    Some (level_match [[97], [43], [35]] [[97], [98, 99]])"
  by (rule cpp_topic_levels) (simp_all add: name_level_def)

text \<open>Where it is wrong: a filter that ends in a separator, which has an empty last level, matches the topic without it.\<close>

lemma Cpp_trailing_slash:
  assumes "name_level f" "ch_plus \<notin> set f" "ch_hash \<notin> set f"
  shows "Cpp_isTopicMatched (f @ [ch_slash]) (topic_string f) = Some True \<and> \<not> level_match [f, []] [f]"
  using Cpp_scan_literal [of f f "[ch_slash]" "[]"] assms
  by (auto simp: Cpp_isTopicMatched_string name_level_def Cpp_topic_matches_simps)

text \<open>A packet leaves the C++ client in order and each byte once, however the network cuts the writes: \<open>sendPacket\<close>
  returns \<open>SUCCESS\<close> if and only if all of the packet was taken; if it fails, a proper beginning of the packet was.\<close>

theorem cpp_sends_in_parts:
  assumes "cpp_network n ticks sent pending" "0 \<le> len" "len \<le> int (length (cl_sendbuf c))"
  shows "\<exists>rc w' t. Cpp_sendPacket n w c len timer = Some (rc, w', c\<lparr>cl_last_sent := t\<rparr>) \<and> pending w' = pending w \<and>
    (rc = SUCCESS \<and> sent w' = sent w @ take (nat len) (cl_sendbuf c) \<or>
     rc = FAILURE \<and> (\<exists>k < nat len. sent w' = sent w @ take k (cl_sendbuf c)))"
  using assms by (rule cpp_network.sendPacket_sends)

theorem cpp_sends_in_parts_witness:
  "\<exists>rc w' t. Cpp_sendPacket sim_net (sim_start []) (demo_cpp\<lparr>cl_sendbuf := [1, 2, 3, 4, 5, 6, 7]\<rparr>) 7 10 =
      Some (rc, w', demo_cpp\<lparr>cl_sendbuf := [1, 2, 3, 4, 5, 6, 7]\<rparr>\<lparr>cl_last_sent := t\<rparr>) \<and> sim_in w' = sim_in (sim_start []) \<and>
    (rc = SUCCESS \<and> sim_out w' = sim_out (sim_start []) @ take (nat 7) (cl_sendbuf (demo_cpp\<lparr>cl_sendbuf := [1, 2, 3, 4, 5, 6, 7]\<rparr>)) \<or>
     rc = FAILURE \<and> (\<exists>k < nat 7. sim_out w' = sim_out (sim_start []) @ take k (cl_sendbuf (demo_cpp\<lparr>cl_sendbuf := [1, 2, 3, 4, 5, 6, 7]\<rparr>))))"
  by (rule cpp_sends_in_parts [OF simnet.cpp_network_axioms]) simp_all

text \<open>A round of the C++ client with QoS 2 refines a receiver of the specification. If a PUBLISH that fits or a PUBREL has arrived,
  \<open>cycle\<close> does to the identifiers in its table and to what the application was told exactly what the receiver does: a
  QoS 2 message whose identifier is in the table, or for which the table has no room, is not handed on; any other is,
  to the handlers of its topic; a release frees the identifier. The right answer is sent. If an answer cannot be sent, the
  session is closed, and still the application has been told the right messages.\<close>

theorem cpp_qos2_refines:
  assumes "cpp_network n ticks sent pending" "Cpp_inv cfg c" "MQTTCLIENT_QOS2 cfg" "packet_ok cfg pk"
    and "pending w = packet_wire pk @ rest"
  shows "\<exists>rc w' c'. Cpp_cycle cfg n w c timer = Some (rc, w', c') \<and> pending w' = rest \<and>
    snd (received c') = snd (receive (length (cl_incomingQoS2messages c)) (Cpp_targets c) pk (received c)) \<and>
    (rc > 0 \<and> received c' = receive (length (cl_incomingQoS2messages c)) (Cpp_targets c) pk (received c) \<and>
       (\<exists>ys. sent w' = sent w @ packet_answer pk @ ys) \<or>
     rc < 0 \<and> \<not> cl_isconnected c')"
  using cpp_network.cycle_refines [OF assms, of timer] by blast

theorem cpp_qos2_refines_witness:
  "\<exists>rc w' c'. Cpp_cycle demo_config sim_net (sim_start (packet_wire (Release 9))) (demo_cpp\<lparr>cl_incomingQoS2messages := [9, 0]\<rparr>) 50 =
      Some (rc, w', c') \<and> sim_in w' = [] \<and>
    snd (received c') = snd (receive 2 (Cpp_targets (demo_cpp\<lparr>cl_incomingQoS2messages := [9, 0]\<rparr>)) (Release 9)
      (received (demo_cpp\<lparr>cl_incomingQoS2messages := [9, 0]\<rparr>))) \<and>
    (rc > 0 \<and> received c' = receive 2 (Cpp_targets (demo_cpp\<lparr>cl_incomingQoS2messages := [9, 0]\<rparr>)) (Release 9)
        (received (demo_cpp\<lparr>cl_incomingQoS2messages := [9, 0]\<rparr>)) \<and> (\<exists>ys. sim_out w' = packet_answer (Release 9) @ ys) \<or>
     rc < 0 \<and> \<not> cl_isconnected c')"
proof -
  have inv: "Cpp_inv demo_config (demo_cpp\<lparr>cl_incomingQoS2messages := [9, 0]\<rparr>)"
    using demo_cpp_inv by (simp add: Cpp_inv_def qos2_table_ok_def)
  show ?thesis
    using cpp_qos2_refines [OF simnet.cpp_network_axioms inv, of "Release 9" "sim_start (packet_wire (Release 9))" "[]" 50]
    by (simp add: demo_config_def sim_start_def numeral_2_eq_2 del: packet_wire.simps receive.simps packet_answer.simps)
qed

text \<open>C5: QoS 2 delivers exactly once. If the broker sends a message again and again under one identifier, before it is
  released, and the identifier was not in use and the table has room, then the rounds that read these publications hand
  the message to the application once: the first one is delivered, the others are not.\<close>

theorem cpp_qos2_exactly_once:
  assumes "cpp_network n ticks sent pending" "Cpp_inv cfg c" "MQTTCLIENT_QOS2 cfg" "as \<noteq> []"
    and "\<forall>a \<in> set as. packet_ok cfg (Publication a) \<and> fst (snd a) = 2 \<and> fst (snd (snd (snd a))) = i"
    and "i \<notin> set (cl_incomingQoS2messages c)" "0 \<in> set (cl_incomingQoS2messages c)"
    and "pending w = concat (map publish_wire as) @ rest"
  shows "\<exists>rc w' c'. Cpp_rounds cfg n w c timer (length as) = Some (rc, w', c') \<and>
    map told (cl_delivered c') = map told (cl_delivered c) @ deliveries (Cpp_targets c) (hd as) \<and>
    (rc \<ge> 0 \<and> pending w' = rest \<or> rc < 0 \<and> \<not> cl_isconnected c')"
proof -
  let ?ms = "cl_incomingQoS2messages c" and ?pks = "map Publication as"
  have ok: "list_all (packet_ok cfg) ?pks"
    using assms(5) by (auto simp: list_all_iff)
  have p: "pending w = concat (map packet_wire ?pks) @ rest"
    using assms(8) by (simp add: comp_def)
  have tab: "qos2_table_ok ?ms"
    using assms(2,3) by (simp add: Cpp_inv_def)
  have i0: "i \<noteq> 0"
    using assms(6,7) by auto
  have room: "card (set ?ms - {0}) < length ?ms"
    using qos2_room [OF tab] scan_slots_none [of "\<lambda>m. m = 0" ?ms] assms(7) by auto
  obtain rc w' c' j where r: "Cpp_rounds cfg n w c timer (length ?pks) = Some (rc, w', c')" "j \<le> length ?pks"
    "snd (received c') = snd (fold (receive (length ?ms) (Cpp_targets c)) (take j ?pks) (received c))" "?pks \<noteq> [] \<longrightarrow> 0 < j"
    "rc \<ge> 0 \<and> pending w' = rest \<or> rc < 0 \<and> \<not> cl_isconnected c'"
    using cpp_network.rounds_refine [OF assms(1-3) ok p, of timer] by blast
  have as': "take j as \<noteq> []" "hd (take j as) = hd as"
    using r(4) assms(4) by (auto simp: hd_take)
  have "\<forall>a \<in> set (take j as). fst (snd a) = 2 \<and> fst (snd (snd (snd a))) = i"
    using assms(5) in_set_takeD by fast
  then have "snd (received c') = snd (received c) @ deliveries (Cpp_targets c) (hd as)"
    using receive_once [OF as'(1), of i "set ?ms - {0}" "length ?ms" "Cpp_targets c" "map told (cl_delivered c)"]
      r(3) assms(6) i0 room as'(2) by (simp add: take_map received_def)
  then show ?thesis
    using r(1,5) by (auto simp: received_def)
qed

definition demo_publication :: "byte \<Rightarrow> publish_args" where
  "demo_publication dup = (dup, 2, 0, 5, MQTTString_initializer\<lparr>cstring := Some [97]\<rparr>, Some [1, 2], 2)"

lemma demo_publication_ok: "packet_ok demo_config (Publication (demo_publication dup))"
  by (simp add: demo_publication_def demo_config_def MQTTString_ok_def MQTTString_bytes_def MQTTString_initializer_def
      cptr_holds_def cptr_bytes_def Let_def length_varint)

theorem cpp_qos2_exactly_once_witness:
  "\<exists>rc w' c'. Cpp_rounds demo_config sim_net
      (sim_start (publish_wire (demo_publication 0) @ publish_wire (demo_publication 1))) demo_cpp 50 2 = Some (rc, w', c') \<and>
    map told (cl_delivered c') = deliveries (Cpp_targets demo_cpp) (demo_publication 0) \<and>
    (rc \<ge> 0 \<and> sim_in w' = [] \<or> rc < 0 \<and> \<not> cl_isconnected c')"
proof -
  let ?as = "[demo_publication 0, demo_publication 1]"
  have ok: "\<forall>a \<in> set ?as. packet_ok demo_config (Publication a) \<and> fst (snd a) = 2 \<and> fst (snd (snd (snd a))) = 5"
    using demo_publication_ok by (simp add: demo_publication_def del: packet_ok.simps)
  have p: "sim_in (sim_start (publish_wire (demo_publication 0) @ publish_wire (demo_publication 1))) = concat (map publish_wire ?as) @ []"
    by (simp add: sim_start_def)
  have d: "MQTTCLIENT_QOS2 demo_config" "?as \<noteq> []" "5 \<notin> set (cl_incomingQoS2messages demo_cpp)"
    "0 \<in> set (cl_incomingQoS2messages demo_cpp)" "cl_delivered demo_cpp = []" "length ?as = 2" "hd ?as = demo_publication 0"
    by (simp_all add: demo_config_def demo_cpp_def)
  show ?thesis
    using cpp_qos2_exactly_once [OF simnet.cpp_network_axioms demo_cpp_inv d(1,2) ok d(3,4) p, of 50]
    unfolding d(5-7) by simp
qed

text \<open>C10: A publication that was not acknowledged is sent again. If \<open>publish\<close> at QoS 1 or 2 fails in a session that is to be
  kept and the client is disconnected then, the next \<open>connect\<close> that succeeds has sent, after its CONNECT packet, the same PUBLISH
  packet, byte for byte.\<close>

theorem cpp_unacknowledged_resent:
  assumes "cpp_network n ticks sent pending" "Cpp_inv cfg c" "MQTTCLIENT_QOS1 cfg" "\<not> cl_cleansession c" "cl_isconnected c"
    and "qos = 1 \<or> qos = 2" "publishable topic payload payloadlen qos retained" "connect_ok options"
    and "Cpp_publish_id cfg n w c topic payload payloadlen i qos retained = Some (FAILURE, w1, c1, j)" "\<not> cl_isconnected c1"
    and "Cpp_connect_options cfg n w2 c1 options = Some (SUCCESS, w3, c3)"
  shows "\<exists>xs ys. sent w3 = sent w2 @ connect_wire options @ xs @
    publish_wire (0, qos, retained, j, MQTTString_initializer\<lparr>cstring := Some topic\<rparr>, payload, int_of_size payloadlen) @ ys"
proof -
  have c1: "Cpp_inv cfg c1" "cl_inflightMsgid c1 \<noteq> 0" "\<not> (MQTTCLIENT_QOS2 cfg \<and> cl_pubrel c1)"
    "take (nat (cl_inflightLen c1)) (cl_pubbuf c1) =
      publish_wire (0, qos, retained, j, MQTTString_initializer\<lparr>cstring := Some topic\<rparr>, payload, int_of_size payloadlen)"
    using cpp_network.publish_stores [OF assms(1-7,9,10)] by auto
  obtain d where "Cpp_connect_data cfg n w2 c1 options \<lparr>cd_rc = 0, cd_sessionPresent = False\<rparr> = Some (SUCCESS, w3, c3, d)"
    using assms(11) by (auto simp: Cpp_connect_options_def bind_eq_Some_conv)
  from cpp_network.connect_resends [OF assms(1) c1(1) assms(8,3) c1(2,3) this] show ?thesis
    unfolding c1(4) .
qed

lemma demo_options_ok: "connect_ok MQTTPacket_connectData_initializer"
  by (simp add: connect_ok_def connect_body_def opt_field_def MQTTPacket_connectData_initializer_def
     MQTTPacket_willOptions_initializer_def MQTTString_ok_def MQTTString_bytes_def MQTTString_initializer_def)

lemma demo_publishable: "publishable [97] (Some [1, 2]) 2 1 0"
  by (simp add: publishable_def MQTTString_ok_def MQTTString_bytes_def MQTTString_initializer_def
     cptr_holds_def cptr_bytes_def int_of_size_def)

text \<open>A publication without an answer, and a connect that is answered by CONNACK and PUBACK.\<close>

lemma demo_publish_unanswered:
  "map_option (\<lambda>(rc, w, c, j). (rc, cl_isconnected c, j))
     (Cpp_publish_id demo_config sim_net (sim_start []) demo_cpp [97] (Some [1, 2]) 2 0 1 0) = Some (FAILURE, False, 1)"
  by code_simp

lemma demo_reconnect:
  "Option.bind (Cpp_publish_id demo_config sim_net (sim_start []) demo_cpp [97] (Some [1, 2]) 2 0 1 0) (\<lambda>(rc, w, c, j).
     map_option fst (Cpp_connect_options demo_config sim_net (sim_start [32, 2, 0, 0, 64, 2, 0, 1]) c MQTTPacket_connectData_initializer)) =
   Some SUCCESS"
  by code_simp

theorem cpp_unacknowledged_resent_witness:
  "\<exists>w1 c1 w3 c3. Cpp_publish_id demo_config sim_net (sim_start []) demo_cpp [97] (Some [1, 2]) 2 0 1 0 = Some (FAILURE, w1, c1, 1) \<and>
     Cpp_connect_options demo_config sim_net (sim_start [32, 2, 0, 0, 64, 2, 0, 1]) c1 MQTTPacket_connectData_initializer =
       Some (SUCCESS, w3, c3) \<and>
     (\<exists>xs ys. sim_out w3 = sim_out (sim_start [32, 2, 0, 0, 64, 2, 0, 1]) @ connect_wire MQTTPacket_connectData_initializer @ xs @
        publish_wire (0, 1, 0, 1, MQTTString_initializer\<lparr>cstring := Some [97]\<rparr>, Some [1, 2], int_of_size 2) @ ys)"
proof -
  obtain w1 c1 where p: "Cpp_publish_id demo_config sim_net (sim_start []) demo_cpp [97] (Some [1, 2]) 2 0 1 0 = Some (FAILURE, w1, c1, 1)"
    "\<not> cl_isconnected c1"
    using demo_publish_unanswered by auto
  obtain w3 c3 where r: "Cpp_connect_options demo_config sim_net (sim_start [32, 2, 0, 0, 64, 2, 0, 1]) c1 MQTTPacket_connectData_initializer =
      Some (SUCCESS, w3, c3)"
    using demo_reconnect p(1) by auto
  have d: "MQTTCLIENT_QOS1 demo_config" "\<not> cl_cleansession demo_cpp" "cl_isconnected demo_cpp" "(1 :: int) = 1 \<or> (1 :: int) = 2"
    by (simp_all add: demo_config_def demo_cpp_def)
  show ?thesis
    using cpp_unacknowledged_resent [OF simnet.cpp_network_axioms demo_cpp_inv d demo_publishable demo_options_ok p r] p(1) r
    by blast
qed

end
