(* ===== verification/MQTTSN_Packet.thy ===== *)
theory MQTTSN_Packet
  imports MQTT_Transport
begin

text \<open>
  The packet primitives of MQTT-SN, \<^verbatim>\<open>MQTTSNPacket.c\<close> and \<^verbatim>\<open>MQTTSNPacket.h\<close>: the length
  field of one or three bytes, the flags byte, topic identifiers, strings, and the two readers
  for datagrams. The locale \<open>sn_writer\<close> is the contract of the serialisers of the MQTT-SN
  theories, \<open>sn_codec\<close> that of a serialiser with its deserialiser; the general contracts of
  \<open>MQTT_Codec\<close> follow from them by \<^theory_text>\<open>sublocale\<close>.

  The sources of both libraries are linked together: \<open>readInt\<close>, \<open>readChar\<close>, \<open>writeChar\<close>, \<open>writeInt\<close>
  and \<open>writeCString\<close> are the ones of \<^verbatim>\<open>MQTTPacket.c\<close>, because the copies in \<^verbatim>\<open>MQTTSNPacket.c\<close>
  are compiled out (\<^verbatim>\<open>#if 0\<close>).
\<close>

subsection \<open>Constants and data\<close>

abbreviation MQTTSNPACKET_BUFFER_TOO_SHORT :: int where
  "MQTTSNPACKET_BUFFER_TOO_SHORT \<equiv> - 2"

abbreviation MQTTSNPACKET_READ_ERROR :: int where
  "MQTTSNPACKET_READ_ERROR \<equiv> - 1"

datatype MQTTSN_msgTypes =
  MQTTSN_ADVERTISE | MQTTSN_SEARCHGW | MQTTSN_GWINFO | MQTTSN_RESERVED1
| MQTTSN_CONNECT | MQTTSN_CONNACK
| MQTTSN_WILLTOPICREQ | MQTTSN_WILLTOPIC | MQTTSN_WILLMSGREQ | MQTTSN_WILLMSG
| MQTTSN_REGISTER | MQTTSN_REGACK
| MQTTSN_PUBLISH | MQTTSN_PUBACK | MQTTSN_PUBCOMP | MQTTSN_PUBREC | MQTTSN_PUBREL | MQTTSN_RESERVED2
| MQTTSN_SUBSCRIBE | MQTTSN_SUBACK | MQTTSN_UNSUBSCRIBE | MQTTSN_UNSUBACK
| MQTTSN_PINGREQ | MQTTSN_PINGRESP
| MQTTSN_DISCONNECT | MQTTSN_RESERVED3
| MQTTSN_WILLTOPICUPD | MQTTSN_WILLTOPICRESP | MQTTSN_WILLMSGUPD | MQTTSN_WILLMSGRESP
| MQTTSN_ENCAPSULATED

fun sn_code :: "MQTTSN_msgTypes \<Rightarrow> byte" where
  "sn_code MQTTSN_ADVERTISE = 0"
| "sn_code MQTTSN_SEARCHGW = 1"
| "sn_code MQTTSN_GWINFO = 2"
| "sn_code MQTTSN_RESERVED1 = 3"
| "sn_code MQTTSN_CONNECT = 4"
| "sn_code MQTTSN_CONNACK = 5"
| "sn_code MQTTSN_WILLTOPICREQ = 6"
| "sn_code MQTTSN_WILLTOPIC = 7"
| "sn_code MQTTSN_WILLMSGREQ = 8"
| "sn_code MQTTSN_WILLMSG = 9"
| "sn_code MQTTSN_REGISTER = 10"
| "sn_code MQTTSN_REGACK = 11"
| "sn_code MQTTSN_PUBLISH = 12"
| "sn_code MQTTSN_PUBACK = 13"
| "sn_code MQTTSN_PUBCOMP = 14"
| "sn_code MQTTSN_PUBREC = 15"
| "sn_code MQTTSN_PUBREL = 16"
| "sn_code MQTTSN_RESERVED2 = 17"
| "sn_code MQTTSN_SUBSCRIBE = 18"
| "sn_code MQTTSN_SUBACK = 19"
| "sn_code MQTTSN_UNSUBSCRIBE = 20"
| "sn_code MQTTSN_UNSUBACK = 21"
| "sn_code MQTTSN_PINGREQ = 22"
| "sn_code MQTTSN_PINGRESP = 23"
| "sn_code MQTTSN_DISCONNECT = 24"
| "sn_code MQTTSN_RESERVED3 = 25"
| "sn_code MQTTSN_WILLTOPICUPD = 26"
| "sn_code MQTTSN_WILLTOPICRESP = 27"
| "sn_code MQTTSN_WILLMSGUPD = 28"
| "sn_code MQTTSN_WILLMSGRESP = 29"
| "sn_code MQTTSN_ENCAPSULATED = 254"

definition packet_names :: "string list" where
  "packet_names =
    [''ADVERTISE'', ''SEARCHGW'', ''GWINFO'', ''RESERVED'', ''CONNECT'', ''CONNACK'',
     ''WILLTOPICREQ'', ''WILLTOPIC'', ''WILLMSGREQ'', ''WILLMSG'', ''REGISTER'', ''REGACK'',
     ''PUBLISH'', ''PUBACK'', ''PUBCOMP'', ''PUBREC'', ''PUBREL'', ''RESERVED'',
     ''SUBSCRIBE'', ''SUBACK'', ''UNSUBSCRIBE'', ''UNSUBACK'', ''PINGREQ'', ''PINGRESP'',
     ''DISCONNECT'', ''RESERVED'', ''WILLTOPICUPD'', ''WILLTOPICRESP'', ''WILLMSGUPD'',
     ''WILLMSGRESP'']"

definition MQTTSNPacket_name :: "int \<Rightarrow> string option" where
  "MQTTSNPacket_name code =
     (if code = 254 then Some ''ENCAPSULATED''
      else if code \<ge> 0 \<and> code \<le> 29 then array_get packet_names code
      else Some ''UNKNOWN'')"

text \<open>The two-bit field of the flags byte can hold a fourth value, which the enumeration does not
  name; the deserialisers store it all the same.\<close>

datatype MQTTSN_topicTypes =
  MQTTSN_TOPIC_TYPE_NORMAL | MQTTSN_TOPIC_TYPE_PREDEFINED | MQTTSN_TOPIC_TYPE_SHORT | MQTTSN_TOPIC_TYPE_3

fun topicType_code :: "MQTTSN_topicTypes \<Rightarrow> byte" where
  "topicType_code MQTTSN_TOPIC_TYPE_NORMAL = 0"
| "topicType_code MQTTSN_TOPIC_TYPE_PREDEFINED = 1"
| "topicType_code MQTTSN_TOPIC_TYPE_SHORT = 2"
| "topicType_code MQTTSN_TOPIC_TYPE_3 = 3"

definition topicType_of :: "byte \<Rightarrow> MQTTSN_topicTypes" where
  "topicType_of b =
     (if b = 0 then MQTTSN_TOPIC_TYPE_NORMAL else if b = 1 then MQTTSN_TOPIC_TYPE_PREDEFINED
      else if b = 2 then MQTTSN_TOPIC_TYPE_SHORT else MQTTSN_TOPIC_TYPE_3)"

text \<open>The union in \<open>MQTTSN_topicid\<close>, by the member that was written last. The two-byte members
  overlay each other (the low byte of \<open>id\<close> first, as on the supported targets). Reading a
  two-byte member of a long name would read bytes of an address, and reading a long name that
  was not written would follow an arbitrary pointer: the model has no value for either.\<close>

datatype topic_union =
  Topic_id u16
| Topic_short byte byte
| Topic_long cptr int

record MQTTSN_topicid =
  topic_type :: MQTTSN_topicTypes
  topic_data :: topic_union

fun data_id :: "topic_union \<Rightarrow> u16 option" where
  "data_id (Topic_id i) = Some i"
| "data_id (Topic_short a b) = Some (ucast a + push_bit 8 (ucast b))"
| "data_id (Topic_long _ _) = None"

fun data_short :: "topic_union \<Rightarrow> (byte \<times> byte) option" where
  "data_short (Topic_id i) = Some (ucast i, ucast (drop_bit 8 i))"
| "data_short (Topic_short a b) = Some (a, b)"
| "data_short (Topic_long _ _) = None"

fun data_long :: "topic_union \<Rightarrow> (cptr \<times> int) option" where
  "data_long (Topic_long name len) = Some (name, len)"
| "data_long _ = None"

definition MQTTSNTopic_equals :: "MQTTSN_topicid \<Rightarrow> MQTTSN_topicid \<Rightarrow> bool option" where
  "MQTTSNTopic_equals a b =
     (if topic_type a \<noteq> topic_type b then Some False
      else do {
        i \<leftarrow> data_id (topic_data a);
        j \<leftarrow> data_id (topic_data b);
        if i \<noteq> j then Some False
        else do {
          (a0, a1) \<leftarrow> data_short (topic_data a);
          (b0, b1) \<leftarrow> data_short (topic_data b);
          Some (a0 = b0 \<and> a1 = b1) } })"

text \<open>The union \<open>MQTTSNFlags\<close> is its byte. \<open>dup\<close> is declared as a one-bit field of type \<open>int\<close>, which
  GCC and Clang take as signed: a set bit reads as -1, and as 255 in an \<open>unsigned char\<close>.\<close>

type_synonym MQTTSNFlags = byte

definition snflags_topicIdType :: "MQTTSNFlags \<Rightarrow> byte" where "snflags_topicIdType = bf_get 0 2"
definition snflags_cleanSession :: "MQTTSNFlags \<Rightarrow> byte" where "snflags_cleanSession = bf_get 2 1"
definition snflags_will :: "MQTTSNFlags \<Rightarrow> byte" where "snflags_will = bf_get 3 1"
definition snflags_retain :: "MQTTSNFlags \<Rightarrow> byte" where "snflags_retain = bf_get 4 1"
definition snflags_QoS :: "MQTTSNFlags \<Rightarrow> byte" where "snflags_QoS = bf_get 5 2"
definition snflags_dup :: "MQTTSNFlags \<Rightarrow> int" where
  "snflags_dup f = (if bf_get 7 1 f = 0 then 0 else - 1)"

definition set_snflags_topicIdType :: "byte \<Rightarrow> MQTTSNFlags \<Rightarrow> MQTTSNFlags" where
  "set_snflags_topicIdType = bf_set 0 2"
definition set_snflags_cleanSession :: "byte \<Rightarrow> MQTTSNFlags \<Rightarrow> MQTTSNFlags" where
  "set_snflags_cleanSession = bf_set 2 1"
definition set_snflags_will :: "byte \<Rightarrow> MQTTSNFlags \<Rightarrow> MQTTSNFlags" where
  "set_snflags_will = bf_set 3 1"
definition set_snflags_retain :: "byte \<Rightarrow> MQTTSNFlags \<Rightarrow> MQTTSNFlags" where
  "set_snflags_retain = bf_set 4 1"
definition set_snflags_QoS :: "byte \<Rightarrow> MQTTSNFlags \<Rightarrow> MQTTSNFlags" where
  "set_snflags_QoS = bf_set 5 2"
definition set_snflags_dup :: "byte \<Rightarrow> MQTTSNFlags \<Rightarrow> MQTTSNFlags" where
  "set_snflags_dup = bf_set 7 1"

lemmas snflags_defs =
  snflags_topicIdType_def snflags_cleanSession_def snflags_will_def snflags_retain_def
  snflags_QoS_def snflags_dup_def
  set_snflags_topicIdType_def set_snflags_cleanSession_def set_snflags_will_def
  set_snflags_retain_def set_snflags_QoS_def set_snflags_dup_def

record MQTTSNLenString =
  snls_len :: int
  snls_data :: cptr

record MQTTSNString =
  sn_cstring :: cptr
  sn_lenstring :: MQTTSNLenString

definition MQTTSNString_initializer :: MQTTSNString where
  "MQTTSNString_initializer = \<lparr>sn_cstring = None, sn_lenstring = \<lparr>snls_len = 0, snls_data = None\<rparr>\<rparr>"

text \<open>A string in one of its two representations.\<close>

definition MQTTSNString_c :: "byte list \<Rightarrow> MQTTSNString" where
  "MQTTSNString_c s = \<lparr>sn_cstring = Some s, sn_lenstring = \<lparr>snls_len = 0, snls_data = None\<rparr>\<rparr>"

definition MQTTSNString_l :: "byte list \<Rightarrow> MQTTSNString" where
  "MQTTSNString_l s = \<lparr>sn_cstring = None, sn_lenstring = \<lparr>snls_len = int (length s), snls_data = Some s\<rparr>\<rparr>"

subsection \<open>Lengths and strings\<close>

definition MQTTSNPacket_len :: "int \<Rightarrow> int" where
  "MQTTSNPacket_len len = (if len > 255 then len + 3 else len + 1)"

text \<open>\<open>MQTTSNPacket_encode\<close> writes at the pointer it is given and returns the number of bytes;
  its callers advance their own pointer by that number.\<close>

definition MQTTSNPacket_encode :: "wptr \<Rightarrow> int \<Rightarrow> (buffer \<times> int) option" where
  "MQTTSNPacket_encode w len =
     (if len > 255
      then do { w \<leftarrow> writeChar w 1; w \<leftarrow> writeInt w len; Some (fst w, 3) }
      else do { buf \<leftarrow> store (fst w) (snd w + 0) (word_of_int len); Some (buf, 1) })"

definition sn_write_len :: "wptr \<Rightarrow> int \<Rightarrow> wptr option" where
  "sn_write_len w len = do { (buf, rc) \<leftarrow> MQTTSNPacket_encode w len; Some (buf, snd w + nat rc) }"

text \<open>\<open>value\<close> is the integer behind the out-parameter: \<open>None\<close> if the caller did not initialise it,
  and left as it is when the function fails.\<close>

definition MQTTSNPacket_decode :: "byte list \<Rightarrow> int \<Rightarrow> int option \<Rightarrow> (int \<times> int option) option" where
  "MQTTSNPacket_decode buf buflen value =
     (if buflen \<le> 0 then Some (MQTTSNPACKET_READ_ERROR, value)
      else case buf of
        [] \<Rightarrow> None
      | b # bufptr \<Rightarrow>
          (if b = 1
           then if buflen < 3 then Some (MQTTSNPACKET_READ_ERROR, value)
                else do { (v, _) \<leftarrow> readInt (1, bufptr); Some (3, Some v) }
           else Some (1, Some (uint b))))"

text \<open>How the deserialisers begin: \<open>curdata += MQTTSNPacket_decode(curdata, buflen, &mylen);\<close>
  \<open>enddata = buf + mylen;\<close> with the value \<open>mylen\<close> is declared with. Returns the count of length
  bytes, \<open>curdata\<close> and \<open>enddata\<close>; using \<open>mylen\<close> when it has no value is undefined.\<close>

definition sn_begin :: "int option \<Rightarrow> buffer \<Rightarrow> int \<Rightarrow> (int \<times> rptr \<times> int) option" where
  "sn_begin mylen buf buflen = do {
     (rc, mylen) \<leftarrow> MQTTSNPacket_decode buf buflen mylen;
     enddata \<leftarrow> mylen;
     Some (rc, ptr_add (0, buf) rc, enddata) }"

definition writeMQTTSNString :: "wptr \<Rightarrow> MQTTSNString \<Rightarrow> wptr option" where
  "writeMQTTSNString w str =
     (if snls_len (sn_lenstring str) > 0
      then write_mem w (snls_data (sn_lenstring str)) (snls_len (sn_lenstring str))
      else case sn_cstring str of
        Some s \<Rightarrow> writeCString w s
      | None \<Rightarrow> Some w)"

definition readMQTTSNString :: "MQTTSNString \<Rightarrow> rptr \<Rightarrow> int \<Rightarrow> int \<times> MQTTSNString \<times> rptr" where
  "readMQTTSNString str cur enddata =
     (let len = enddata - fst cur;
          str = str\<lparr>sn_lenstring := (sn_lenstring str)\<lparr>snls_len := len\<rparr>\<rparr>
      in if len > 0
         then (1, str\<lparr>sn_lenstring := (sn_lenstring str)\<lparr>snls_data := Some (snd cur)\<rparr>\<rparr>, ptr_add cur len)
         else (1, str\<lparr>sn_lenstring := (sn_lenstring str)\<lparr>snls_data := None\<rparr>, sn_cstring := None\<rparr>, cur))"

definition MQTTSNstrlen :: "MQTTSNString \<Rightarrow> int" where
  "MQTTSNstrlen str =
     (case sn_cstring str of
        Some s \<Rightarrow> int (length s)
      | None \<Rightarrow> snls_len (sn_lenstring str))"

subsection \<open>Reading datagrams\<close>

text \<open>\<open>buf[i]\<close>; an index in front of the buffer or behind it is out of bounds.\<close>

definition load :: "buffer \<Rightarrow> int \<Rightarrow> byte option" where
  "load buf i = (if 0 \<le> i \<and> nat i < length buf then Some (buf ! nat i) else None)"

definition MQTTSNPacket_read_nb :: "buffer \<Rightarrow> int \<Rightarrow> int option" where
  "MQTTSNPacket_read_nb buf buflen = do {
     let len = buflen;
     (lenlen, datalen) \<leftarrow> MQTTSNPacket_decode buf len (Some 0);
     datalen \<leftarrow> datalen;
     if datalen \<noteq> len then Some MQTTSNPACKET_READ_ERROR
     else do { c \<leftarrow> load buf lenlen; Some (uint c) } }"

definition MQTTSNPacket_read :: "buffer \<Rightarrow> int \<Rightarrow> 's getfn \<Rightarrow> 's \<Rightarrow> (int \<times> buffer \<times> 's) option" where
  "MQTTSNPacket_read buf buflen getfn s = do {
     (len, bs, s) \<leftarrow> getfn s buflen;
     buf \<leftarrow> put_bytes buf 0 bs;
     if len < 2 then Some (MQTTSNPACKET_READ_ERROR, buf, s)
     else do {
       (lenlen, datalen) \<leftarrow> MQTTSNPacket_decode buf len (Some 0);
       datalen \<leftarrow> datalen;
       if datalen \<noteq> len then Some (MQTTSNPACKET_READ_ERROR, buf, s)
       else do { c \<leftarrow> load buf lenlen; Some (uint c, buf, s) } } }"

subsection \<open>What the writers add and the readers take\<close>

text \<open>The length field, and a packet: its length field, which counts itself, and its body from
  the message type on.\<close>

definition sn_len_field :: "int \<Rightarrow> byte list" where
  "sn_len_field n = (if n > 255 then 1 # be16 n else [word_of_int n])"

definition sn_frame :: "byte list \<Rightarrow> byte list" where
  "sn_frame body = sn_len_field (MQTTSNPacket_len (int (length body))) @ body"

definition sn_lenlen :: "byte list \<Rightarrow> int" where
  "sn_lenlen body = (if length body > 255 then 3 else 1)"

text \<open>A body of 255 bytes is the exception: \<open>MQTTSNPacket_len\<close> makes it 256 bytes with a length
  field of one byte, and \<open>MQTTSNPacket_encode\<close> gives 256 a field of three.\<close>

definition frame_ok :: "byte list \<Rightarrow> bool" where
  "frame_ok body \<longleftrightarrow> body \<noteq> [] \<and> length body \<noteq> 255 \<and> length body < 65533"

lemma writeChar_pos: "writeChar w c = Some v \<Longrightarrow> snd v = snd w + 1"
  by (cases w) (auto simp: writeChar_def split: Option.bind_splits)

lemma writeInt_pos: "writeInt w n = Some v \<Longrightarrow> snd v = snd w + 2"
  by (auto simp: writeInt_def split: Option.bind_splits dest!: writeChar_pos)

lemma sn_write_len_emit [emit_simps]:
  "Option.bind (emit buf out) (\<lambda>w. Option.bind (sn_write_len w n) k) =
   Option.bind (emit buf (out @ sn_len_field n)) k"
proof (cases "n > 255")
  case True
  have 1: "Option.bind (sn_write_len w n) k = Option.bind (writeChar w 1) (\<lambda>v. Option.bind (writeInt v n) k)" for w
    using True by (cases w) (auto simp: sn_write_len_def MQTTSNPacket_encode_def numeral_3_eq_3 split: Option.bind_splits
        dest!: writeChar_pos writeInt_pos)
  show ?thesis
    using True by (simp add: 1 sn_len_field_def writeChar_emit writeInt_emit)
next
  case False
  have "sn_write_len w n = writeChar w (word_of_int n)" for w
    using False by (cases w) (simp add: sn_write_len_def MQTTSNPacket_encode_def writeChar_def)
  with False show ?thesis
    by (simp add: sn_len_field_def writeChar_emit)
qed

lemma sn_write_len_start [emit_simps]:
  "Option.bind (sn_write_len (buf, 0) n) k = Option.bind (emit buf (sn_len_field n)) k"
  using sn_write_len_emit [of buf "[]" n k] by (simp add: emit_Nil)

lemma length_sn_len_field:
  "length (sn_len_field n) = (if n > 255 then 3 else 1)"
  by (simp add: sn_len_field_def)

lemma length_sn_frame:
  "frame_ok body \<Longrightarrow> int (length (sn_frame body)) = MQTTSNPacket_len (int (length body))"
  by (auto simp: sn_frame_def frame_ok_def length_sn_len_field MQTTSNPacket_len_def)

lemma sn_frame_start: "frame_ok body \<Longrightarrow> sn_lenlen body + int (length body) \<le> n \<longleftrightarrow> int (length (sn_frame body)) \<le> n"
  by (auto simp: length_sn_frame MQTTSNPacket_len_def sn_lenlen_def)

lemma decode_sn_frame:
  assumes "frame_ok body" "int (length (sn_frame body)) \<le> n"
  shows "MQTTSNPacket_decode (sn_frame body @ rest) n v =
    Some (sn_lenlen body, Some (sn_lenlen body + int (length body)))"
proof (cases "length body > 255")
  case True
  with assms have "MQTTSNPacket_len (int (length body)) = int (length body) + 3" "int (length body) + 3 \<le> n"
    by (simp_all add: length_sn_frame MQTTSNPacket_len_def)
  with True assms(1) show ?thesis
    by (simp add: MQTTSNPacket_decode_def sn_frame_def sn_len_field_def sn_lenlen_def frame_ok_def readInt_be16)
next
  case False
  with assms have l: "MQTTSNPacket_len (int (length body)) = int (length body) + 1"
    "1 \<le> length body" "length body < 255" "int (length body) + 1 \<le> n"
    by (auto simp: length_sn_frame MQTTSNPacket_len_def frame_ok_def Suc_le_eq)
  then have u: "uint (word_of_int (int (length body) + 1) :: byte) = int (length body) + 1"
    unfolding uint_word_of_int by simp
  then have "(word_of_int (int (length body) + 1) :: byte) \<noteq> 1"
    using l(2) by (metis add_cancel_left_left int_ops(2) not_one_le_zero of_nat_eq_0_iff uint_1_eq)
  with u l False show ?thesis
    by (simp add: MQTTSNPacket_decode_def sn_frame_def sn_len_field_def sn_lenlen_def)
qed

lemma sn_begin_frame [read_simps]:
  assumes "frame_ok body" "int (length (sn_frame body)) \<le> n"
  shows "sn_begin v (sn_frame body @ rest) n =
    Some (sn_lenlen body, (sn_lenlen body, body @ rest), sn_lenlen body + int (length body))"
proof -
  have "length (sn_len_field (MQTTSNPacket_len (int (length body)))) = nat (sn_lenlen body)"
    using assms(1) by (auto simp: length_sn_len_field MQTTSNPacket_len_def sn_lenlen_def frame_ok_def)
  then show ?thesis
    using decode_sn_frame [OF assms, of rest v]
    by (simp add: sn_begin_def ptr_add_def sn_frame_def sn_lenlen_def split: if_splits)
qed

lemma sn_lenlen_bounds: "1 \<le> sn_lenlen body" "sn_lenlen body \<le> 3"
  by (simp_all add: sn_lenlen_def)

text \<open>The bytes \<open>writeMQTTSNString\<close> writes. A C string goes out with a two-byte length in front,
  which \<open>MQTTSNstrlen\<close> does not count; so only the other representation makes a packet.\<close>

definition MQTTSNString_bytes :: "MQTTSNString \<Rightarrow> byte list" where
  "MQTTSNString_bytes s =
     (if snls_len (sn_lenstring s) > 0 then cptr_bytes (snls_data (sn_lenstring s)) (snls_len (sn_lenstring s))
      else case sn_cstring s of Some c \<Rightarrow> lp_string c | None \<Rightarrow> [])"

definition MQTTSNString_ok :: "MQTTSNString \<Rightarrow> bool" where
  "MQTTSNString_ok s \<longleftrightarrow>
     sn_cstring s = None \<and> cptr_holds (snls_data (sn_lenstring s)) (snls_len (sn_lenstring s))"

lemma writeMQTTSNString_emit [emit_simps]:
  "MQTTSNString_ok s \<Longrightarrow> Option.bind (emit buf out) (\<lambda>w. Option.bind (writeMQTTSNString w s) k) =
     Option.bind (emit buf (out @ MQTTSNString_bytes s)) k"
  by (auto simp: writeMQTTSNString_def MQTTSNString_ok_def MQTTSNString_bytes_def write_mem_cptr_emit
      bind_case_option)

lemma writeMQTTSNString_c_emit [emit_simps]:
  "Option.bind (emit buf out) (\<lambda>w. Option.bind (writeMQTTSNString w (MQTTSNString_c s)) k) =
     Option.bind (emit buf (out @ lp_string s)) k"
  by (simp add: writeMQTTSNString_def MQTTSNString_c_def writeCString_emit)

lemma MQTTSNstrlen_ok: "MQTTSNString_ok s \<Longrightarrow> MQTTSNstrlen s = int (length (MQTTSNString_bytes s))"
  by (auto simp: MQTTSNString_ok_def MQTTSNstrlen_def MQTTSNString_bytes_def length_cptr_bytes)
     (simp add: cptr_holds_def)

lemma MQTTSNString_l [simp]: "MQTTSNString_ok (MQTTSNString_l s)" "MQTTSNString_bytes (MQTTSNString_l s) = s"
  by (simp_all add: MQTTSNString_ok_def MQTTSNString_l_def MQTTSNString_bytes_def cptr_holds_def cptr_bytes_def)

lemma MQTTSNString_initializer_ok [simp]:
  "MQTTSNString_ok MQTTSNString_initializer" "MQTTSNString_bytes MQTTSNString_initializer = []"
  by (simp_all add: MQTTSNString_ok_def MQTTSNString_initializer_def MQTTSNString_bytes_def cptr_holds_def)

lemma readMQTTSNString_rest [read_simps]:
  assumes "enddata = p + int (length bs)"
  shows "readMQTTSNString str (p, bs @ rest) enddata =
    (1, \<lparr>sn_cstring = (if bs = [] then None else sn_cstring str),
         sn_lenstring = \<lparr>snls_len = int (length bs), snls_data = (if bs = [] then None else Some (bs @ rest))\<rparr>\<rparr>,
     enddata, rest)"
  using assms by (cases str) (simp add: readMQTTSNString_def Let_def ptr_add_def)

lemma MQTTSNString_bytes_rest [simp]:
  "MQTTSNString_bytes \<lparr>sn_cstring = None, sn_lenstring = \<lparr>snls_len = 0, snls_data = None\<rparr>\<rparr> = []"
  "bs \<noteq> [] \<Longrightarrow> MQTTSNString_bytes
     \<lparr>sn_cstring = c, sn_lenstring = \<lparr>snls_len = int (length bs), snls_data = Some (bs @ rest)\<rparr>\<rparr> = bs"
  by (simp_all add: MQTTSNString_bytes_def cptr_bytes_def)

subsection \<open>Contracts\<close>

locale sn_writer =
  fixes ser :: "buffer \<Rightarrow> int \<Rightarrow> 'a \<Rightarrow> (buffer \<times> int) option"
    and body :: "'a \<Rightarrow> byte list"
    and ok :: "'a \<Rightarrow> bool"
  assumes writes: "ok a \<Longrightarrow> ser buf buflen a =
      (if MQTTSNPacket_len (int (length (body a))) > buflen then Some (buf, - 2)
       else emit_rc buf (sn_frame (body a)))"
    and frame: "ok a \<Longrightarrow> frame_ok (body a)"

sublocale sn_writer \<subseteq> safe_packet_writer ser
  "\<lambda>a. MQTTSNPacket_len (int (length (body a)))" "\<lambda>a. sn_frame (body a)" ok
  by unfold_locales (simp_all add: writes length_sn_frame frame)

context sn_writer
begin

text \<open>A packet that is written can be sent and received: \<open>MQTTSNPacket_read_nb\<close> on exactly the
  bytes that were written finds the message type.\<close>

lemma sent_and_received:
  assumes "ok a" "ser buf buflen a = Some (buf', rc)" "rc \<noteq> - 2"
  shows "MQTTSNPacket_read_nb buf' rc = Some (uint (hd (body a)))"
proof -
  have f: "frame_ok (body a)" "body a \<noteq> []"
    using frame [OF assms(1)] by (auto simp: frame_ok_def)
  have b: "buf' = sn_frame (body a) @ drop (length (sn_frame (body a))) buf" "rc = int (length (sn_frame (body a)))"
    using result_cases [OF assms(1,2)] assms(3) by auto
  have l: "int (length (sn_len_field (MQTTSNPacket_len (int (length (body a)))))) = sn_lenlen (body a)"
    "int (length (sn_frame (body a))) = sn_lenlen (body a) + int (length (body a))"
    using f(1) by (auto simp: length_sn_len_field MQTTSNPacket_len_def sn_lenlen_def frame_ok_def length_sn_frame)
  have "load buf' (sn_lenlen (body a)) = Some (hd (body a))"
    unfolding b load_def l(1) [symmetric] using f(2) by (cases "body a") (simp_all add: sn_frame_def)
  then show ?thesis
    using decode_sn_frame [OF f(1), of rc "drop (length (sn_frame (body a))) buf" "Some 0"] l(2) b
    by (simp add: MQTTSNPacket_read_nb_def)
qed

end

locale sn_codec = sn_writer ser body ok
  for ser :: "buffer \<Rightarrow> int \<Rightarrow> 'a \<Rightarrow> (buffer \<times> int) option"
    and body :: "'a \<Rightarrow> byte list"
    and ok :: "'a \<Rightarrow> bool" +
  fixes deser :: "'o \<Rightarrow> buffer \<Rightarrow> int \<Rightarrow> (int \<times> 'o) option"
    and view :: "'o \<Rightarrow> 'v"
    and val :: "'a \<Rightarrow> 'v"
  assumes reads: "ok a \<Longrightarrow> int (length (sn_frame (body a))) \<le> n \<Longrightarrow>
    \<exists>out'. deser out (sn_frame (body a) @ rest) n = Some (1, out') \<and> view out' = val a"

sublocale sn_codec \<subseteq> packet_codec ser
  "\<lambda>a. MQTTSNPacket_len (int (length (body a)))" "\<lambda>a. sn_frame (body a)" ok deser view val
  by unfold_locales (rule reads)

subsection \<open>Properties\<close>

text \<open>The length of MQTT-SN packets. \<open>MQTTSNPacket_len\<close> is the size of the packet for every body but one of
  255 bytes, and then \<open>MQTTSNPacket_decode\<close> finds in the bytes that \<open>MQTTSNPacket_encode\<close> writes the number of
  length bytes and that size. For a body of 255 bytes the packet is two bytes longer than \<open>MQTTSNPacket_len\<close> says,
  and the length field is two short.\<close>

theorem MQTTSN_length_field:
  assumes "body \<noteq> []" "length body < 65533" "int (length (sn_frame body)) \<le> n"
  shows "MQTTSNPacket_encode (buf, 0) (MQTTSNPacket_len (int (length body))) =
      map_option (\<lambda>(b, r). (b, int r)) (emit buf (sn_len_field (MQTTSNPacket_len (int (length body))))) \<and>
    MQTTSNPacket_decode (sn_frame body @ rest) n v =
      Some (if length body < 255 then 1 else 3, Some (MQTTSNPacket_len (int (length body)))) \<and>
    int (length (sn_frame body)) =
      MQTTSNPacket_len (int (length body)) + (if length body = 255 then 2 else 0)"
proof (intro conjI)
  let ?n = "MQTTSNPacket_len (int (length body))"
  have "Option.bind (sn_write_len (buf, 0) ?n) Some = Option.bind (emit buf (sn_len_field ?n)) Some"
    by (rule sn_write_len_start)
  then show "MQTTSNPacket_encode (buf, 0) ?n = map_option (\<lambda>(b, r). (b, int r)) (emit buf (sn_len_field ?n))"
    by (cases "emit buf (sn_len_field ?n)")
       (auto simp: sn_write_len_def MQTTSNPacket_encode_def split: if_splits Option.bind_splits)
  show "MQTTSNPacket_decode (sn_frame body @ rest) n v =
      Some (if length body < 255 then 1 else 3, Some ?n)"
  proof (cases "length body = 255")
    case True
    then have "258 \<le> n"
      using assms(3) by (simp add: sn_frame_def sn_len_field_def MQTTSNPacket_len_def)
    with True show ?thesis
      by (simp add: MQTTSNPacket_decode_def sn_frame_def sn_len_field_def MQTTSNPacket_len_def readInt_be16)
  next
    case False
    with assms(1,2) have "frame_ok body"
      by (simp add: frame_ok_def)
    with False show ?thesis
      by (simp add: decode_sn_frame [OF _ assms(3)] sn_lenlen_def MQTTSNPacket_len_def)
  qed
  show "int (length (sn_frame body)) = ?n + (if length body = 255 then 2 else 0)"
    by (simp add: sn_frame_def length_sn_len_field MQTTSNPacket_len_def)
qed

theorem MQTTSN_length_field_witness:
  "MQTTSNPacket_decode (sn_frame (replicate 255 7) @ []) 258 None =
     Some (3, Some (MQTTSNPacket_len (int (length (replicate 255 (7 :: byte)))))) \<and>
   int (length (sn_frame (replicate 255 7))) = 258"
  using MQTTSN_length_field [of "replicate 255 7" 258 "[]" "[]" None]
  by (simp add: sn_frame_def sn_len_field_def MQTTSNPacket_len_def)

text \<open>The datagram reader \<open>MQTTSNPacket_read_nb\<close> on every input of at least one byte: it returns the
  byte behind the length field, the message type, if the length field says \<open>buflen\<close>, and \<open>MQTTSNPACKET_READ_ERROR\<close> if it does not.
  Two inputs make it read outside the buffer: a datagram that consists of a three-byte length field only, in a buffer without
  spare room, and the empty datagram, for which it reads the byte in front of the buffer (the failed decoding leaves -1 as the
  size of the length field, and the two zero lengths agree).\<close>

theorem MQTTSNPacket_read_nb_result:
  assumes "0 < buflen" "buflen \<le> int (length buf)"
  shows "MQTTSNPacket_read_nb buf buflen =
     (if buf ! 0 \<noteq> 1 \<and> uint (buf ! 0) = buflen then Some (uint (buf ! 1))
      else if buf ! 0 = 1 \<and> 3 \<le> buflen \<and> 256 * uint (buf ! 1) + uint (buf ! 2) = buflen
           then if 3 < length buf then Some (uint (buf ! 3)) else None
      else Some (- 1)) \<and>
    MQTTSNPacket_read_nb buf 0 = None"
proof
  obtain b bs where buf: "buf = b # bs"
    using assms by (cases buf) auto
  show "MQTTSNPacket_read_nb buf buflen =
     (if buf ! 0 \<noteq> 1 \<and> uint (buf ! 0) = buflen then Some (uint (buf ! 1))
      else if buf ! 0 = 1 \<and> 3 \<le> buflen \<and> 256 * uint (buf ! 1) + uint (buf ! 2) = buflen
           then if 3 < length buf then Some (uint (buf ! 3)) else None
      else Some (- 1))"
  proof (cases "b = 1")
    case True
    show ?thesis
    proof (cases "buflen < 3")
      case False
      then obtain c d ds where "bs = c # d # ds"
        using assms(2) by (cases bs; cases "tl bs") (auto simp: buf)
      with False True show ?thesis
        by (auto simp: buf MQTTSNPacket_read_nb_def MQTTSNPacket_decode_def readInt_cases load_def)
    qed (use True assms(1) in \<open>auto simp: buf MQTTSNPacket_read_nb_def MQTTSNPacket_decode_def\<close>)
  next
    case False
    have "buflen = 1 \<Longrightarrow> uint b \<noteq> 1"
      using False by (metis unsigned_1 unsigned_word_eqI)
    with False assms show ?thesis
      by (auto simp: buf MQTTSNPacket_read_nb_def MQTTSNPacket_decode_def load_def)
  qed
  show "MQTTSNPacket_read_nb buf 0 = None"
    by (simp add: MQTTSNPacket_read_nb_def MQTTSNPacket_decode_def load_def)
qed

theorem MQTTSNPacket_read_nb_result_witness:
  "MQTTSNPacket_read_nb [2, 23] 2 = Some 23 \<and> MQTTSNPacket_read_nb [1, 0, 3] 3 = None \<and>
   MQTTSNPacket_read_nb [2, 23] 0 = None"
  using MQTTSNPacket_read_nb_result [of 2 "[2, 23]"] MQTTSNPacket_read_nb_result [of 3 "[1, 0, 3]"] by simp

end
