(* ===== verification/MQTTSN_Publish.thy ===== *)
theory MQTTSN_Publish
  imports MQTTSN_Packet
begin

text \<open>
  \<^verbatim>\<open>MQTTSNSerializePublish.c\<close> and \<^verbatim>\<open>MQTTSNDeserializePublish.c\<close>: PUBLISH with its three kinds of
  topic, the acknowledgements, and REGISTER and REGACK of MQTT-SN.
\<close>

subsection \<open>PUBLISH\<close>

text \<open>The long topic name of a QoS -1 message, which the code writes as QoS 3.\<close>

definition long_topic :: "MQTTSN_topicid \<Rightarrow> int \<Rightarrow> bool" where
  "long_topic topic qos \<longleftrightarrow> topic_type topic = MQTTSN_TOPIC_TYPE_NORMAL \<and> qos = 3"

definition MQTTSNSerialize_publishLength :: "int \<Rightarrow> MQTTSN_topicid \<Rightarrow> int \<Rightarrow> int option" where
  "MQTTSNSerialize_publishLength payloadlen topic qos = do {
     len \<leftarrow> (if long_topic topic qos
             then do { (_, l) \<leftarrow> data_long (topic_data topic); Some (6 + l) }
             else Some 6);
     Some (payloadlen + len) }"

definition write_topicid :: "wptr \<Rightarrow> MQTTSN_topicid \<Rightarrow> int \<Rightarrow> wptr option" where
  "write_topicid w topic qos =
     (if long_topic topic qos
      then do { (_, l) \<leftarrow> data_long (topic_data topic); writeInt w l }
      else if topic_type topic = MQTTSN_TOPIC_TYPE_NORMAL \<or> topic_type topic = MQTTSN_TOPIC_TYPE_PREDEFINED
      then do { i \<leftarrow> data_id (topic_data topic); writeInt w (uint i) }
      else do {
        (c0, c1) \<leftarrow> data_short (topic_data topic);
        w \<leftarrow> writeChar w c0;
        writeChar w c1 })"

definition MQTTSNSerialize_publish ::
  "buffer \<Rightarrow> int \<Rightarrow> byte \<Rightarrow> int \<Rightarrow> byte \<Rightarrow> u16 \<Rightarrow> MQTTSN_topicid \<Rightarrow> cptr \<Rightarrow> int \<Rightarrow> (buffer \<times> int) option" where
  "MQTTSNSerialize_publish buf buflen dup qos retained packetid topic payload payloadlen = do {
     n \<leftarrow> MQTTSNSerialize_publishLength payloadlen topic qos;
     let len = MQTTSNPacket_len n;
     if len > buflen then Some (buf, MQTTSNPACKET_BUFFER_TOO_SHORT)
     else do {
       w \<leftarrow> sn_write_len (buf, 0) len;
       w \<leftarrow> writeChar w (sn_code MQTTSN_PUBLISH);
       let flags = set_snflags_dup dup 0;
       let flags = set_snflags_QoS (word_of_int qos) flags;
       let flags = set_snflags_retain retained flags;
       let flags = set_snflags_topicIdType (topicType_code (topic_type topic)) flags;
       w \<leftarrow> writeChar w flags;
       w \<leftarrow> write_topicid w topic qos;
       w \<leftarrow> writeInt w (uint packetid);
       w \<leftarrow> (if long_topic topic qos
             then do { (name, l) \<leftarrow> data_long (topic_data topic); write_mem w name l }
             else Some w);
       (buf, ptr) \<leftarrow> write_mem w payload payloadlen;
       Some (buf, int ptr) } }"

record snpublish_out =
  snp_dup :: byte
  snp_qos :: int
  snp_retained :: byte
  snp_packetid :: u16
  snp_topic :: MQTTSN_topicid
  snp_payload :: cptr
  snp_payloadlen :: int

text \<open>Assigning \<open>long_.len\<close> keeps \<open>long_.name\<close> if that is what the union held.\<close>

definition set_long_len :: "int \<Rightarrow> topic_union \<Rightarrow> topic_union" where
  "set_long_len l d = (case d of Topic_long name _ \<Rightarrow> Topic_long name l | _ \<Rightarrow> Topic_long None l)"

definition read_topicid :: "rptr \<Rightarrow> MQTTSN_topicid \<Rightarrow> int \<Rightarrow> (MQTTSN_topicid \<times> rptr) option" where
  "read_topicid curdata topic qos =
     (if long_topic topic qos
      then do { (l, curdata) \<leftarrow> readInt curdata;
                Some (topic\<lparr>topic_data := set_long_len l (topic_data topic)\<rparr>, curdata) }
      else if topic_type topic = MQTTSN_TOPIC_TYPE_NORMAL \<or> topic_type topic = MQTTSN_TOPIC_TYPE_PREDEFINED
      then do { (i, curdata) \<leftarrow> readInt curdata;
                Some (topic\<lparr>topic_data := Topic_id (word_of_int i)\<rparr>, curdata) }
      else do {
        (c0, curdata) \<leftarrow> readChar curdata;
        (c1, curdata) \<leftarrow> readChar curdata;
        Some (topic\<lparr>topic_data := Topic_short c0 c1\<rparr>, curdata) })"

definition MQTTSNDeserialize_publish :: "snpublish_out \<Rightarrow> buffer \<Rightarrow> int \<Rightarrow> (int \<times> snpublish_out) option" where
  "MQTTSNDeserialize_publish out buf buflen = do {
     (_, curdata, enddata) \<leftarrow> sn_begin (Some 0) buf buflen;
     if enddata - fst curdata > buflen then Some (0, out)
     else do {
       (c, curdata) \<leftarrow> readChar curdata;
       if c \<noteq> sn_code MQTTSN_PUBLISH then Some (0, out)
       else do {
         (flags, curdata) \<leftarrow> readChar curdata;
         let out = out\<lparr>snp_dup := word_of_int (snflags_dup flags), snp_qos := uint (snflags_QoS flags),
                       snp_retained := snflags_retain flags,
                       snp_topic := (snp_topic out)\<lparr>topic_type := topicType_of (snflags_topicIdType flags)\<rparr>\<rparr>;
         (topic, curdata) \<leftarrow> read_topicid curdata (snp_topic out) (snp_qos out);
         (packetid, curdata) \<leftarrow> readInt curdata;
         let out = out\<lparr>snp_topic := topic, snp_packetid := word_of_int packetid\<rparr>;
         (topic, curdata) \<leftarrow>
           (if long_topic topic (snp_qos out)
            then do { (_, l) \<leftarrow> data_long (topic_data topic);
                      Some (topic\<lparr>topic_data := Topic_long (Some (snd curdata)) l\<rparr>, ptr_add curdata l) }
            else Some (topic, curdata));
         Some (1, out\<lparr>snp_topic := topic, snp_payloadlen := enddata - fst curdata,
                      snp_payload := Some (snd curdata)\<rparr>) } } }"

subsection \<open>Acknowledgements\<close>

definition MQTTSNSerialize_puback :: "buffer \<Rightarrow> int \<Rightarrow> u16 \<Rightarrow> u16 \<Rightarrow> byte \<Rightarrow> (buffer \<times> int) option" where
  "MQTTSNSerialize_puback buf buflen topicid packetid returncode =
     (let len = MQTTSNPacket_len 6
      in if len > buflen then Some (buf, MQTTSNPACKET_BUFFER_TOO_SHORT)
         else do {
           w \<leftarrow> sn_write_len (buf, 0) len;
           w \<leftarrow> writeChar w (sn_code MQTTSN_PUBACK);
           w \<leftarrow> writeInt w (uint topicid);
           w \<leftarrow> writeInt w (uint packetid);
           (buf, ptr) \<leftarrow> writeChar w returncode;
           Some (buf, int ptr) })"

text \<open>The type is an \<open>unsigned short\<close> that \<open>writeChar\<close> cuts to a byte.\<close>

definition MQTTSNSerialize_ack :: "buffer \<Rightarrow> int \<Rightarrow> u16 \<Rightarrow> u16 \<Rightarrow> (buffer \<times> int) option" where
  "MQTTSNSerialize_ack buf buflen packet_type packetid =
     (let len = 4
      in if len > buflen then Some (buf, MQTTSNPACKET_BUFFER_TOO_SHORT)
         else do {
           w \<leftarrow> sn_write_len (buf, 0) len;
           w \<leftarrow> writeChar w (ucast packet_type);
           (buf, ptr) \<leftarrow> writeInt w (uint packetid);
           Some (buf, int ptr) })"

definition MQTTSNSerialize_pubrec :: "buffer \<Rightarrow> int \<Rightarrow> u16 \<Rightarrow> (buffer \<times> int) option" where
  "MQTTSNSerialize_pubrec buf buflen packetid = MQTTSNSerialize_ack buf buflen (ucast (sn_code MQTTSN_PUBREC)) packetid"

definition MQTTSNSerialize_pubrel :: "buffer \<Rightarrow> int \<Rightarrow> u16 \<Rightarrow> (buffer \<times> int) option" where
  "MQTTSNSerialize_pubrel buf buflen packetid = MQTTSNSerialize_ack buf buflen (ucast (sn_code MQTTSN_PUBREL)) packetid"

definition MQTTSNSerialize_pubcomp :: "buffer \<Rightarrow> int \<Rightarrow> u16 \<Rightarrow> (buffer \<times> int) option" where
  "MQTTSNSerialize_pubcomp buf buflen packetid = MQTTSNSerialize_ack buf buflen (ucast (sn_code MQTTSN_PUBCOMP)) packetid"

record topic_ack_out =
  ta_topicid :: u16
  ta_packetid :: u16
  ta_returncode :: byte

definition MQTTSNDeserialize_puback :: "topic_ack_out \<Rightarrow> buffer \<Rightarrow> int \<Rightarrow> (int \<times> topic_ack_out) option" where
  "MQTTSNDeserialize_puback out buf buflen = do {
     (_, curdata, enddata) \<leftarrow> sn_begin (Some 0) buf buflen;
     if enddata - fst curdata > buflen then Some (0, out)
     else do {
       (c, curdata) \<leftarrow> readChar curdata;
       if c \<noteq> sn_code MQTTSN_PUBACK then Some (0, out)
       else do {
         (topicid, curdata) \<leftarrow> readInt curdata;
         (packetid, curdata) \<leftarrow> readInt curdata;
         (returncode, curdata) \<leftarrow> readChar curdata;
         Some (1, \<lparr>ta_topicid = word_of_int topicid, ta_packetid = word_of_int packetid,
                   ta_returncode = returncode\<rparr>) } } }"

record snack_out =
  snack_type :: byte
  snack_packetid :: u16

definition MQTTSNDeserialize_ack :: "snack_out \<Rightarrow> buffer \<Rightarrow> int \<Rightarrow> (int \<times> snack_out) option" where
  "MQTTSNDeserialize_ack out buf buflen = do {
     (_, curdata, enddata) \<leftarrow> sn_begin (Some 0) buf buflen;
     if enddata - fst curdata > buflen then Some (0, out)
     else do {
       (type, curdata) \<leftarrow> readChar curdata;
       let out = out\<lparr>snack_type := type\<rparr>;
       if type \<noteq> sn_code MQTTSN_PUBREL \<and> type \<noteq> sn_code MQTTSN_PUBREC \<and> type \<noteq> sn_code MQTTSN_PUBCOMP then Some (0, out)
       else do {
         (packetid, curdata) \<leftarrow> readInt curdata;
         Some (1, out\<lparr>snack_packetid := word_of_int packetid\<rparr>) } } }"

subsection \<open>REGISTER and REGACK\<close>

definition MQTTSNSerialize_registerLength :: "int \<Rightarrow> int" where
  "MQTTSNSerialize_registerLength topicnamelen = topicnamelen + 5"

definition MQTTSNSerialize_register :: "buffer \<Rightarrow> int \<Rightarrow> u16 \<Rightarrow> u16 \<Rightarrow> MQTTSNString \<Rightarrow> (buffer \<times> int) option" where
  "MQTTSNSerialize_register buf buflen topicid packetid topicname =
     (let topicnamelen = (case sn_cstring topicname of
            Some s \<Rightarrow> int (length s) | None \<Rightarrow> snls_len (sn_lenstring topicname));
          len = MQTTSNPacket_len (MQTTSNSerialize_registerLength topicnamelen)
      in if len > buflen then Some (buf, MQTTSNPACKET_BUFFER_TOO_SHORT)
         else do {
           w \<leftarrow> sn_write_len (buf, 0) len;
           w \<leftarrow> writeChar w (sn_code MQTTSN_REGISTER);
           w \<leftarrow> writeInt w (uint topicid);
           w \<leftarrow> writeInt w (uint packetid);
           (buf, ptr) \<leftarrow> write_mem w
             (case sn_cstring topicname of Some s \<Rightarrow> Some s | None \<Rightarrow> snls_data (sn_lenstring topicname)) topicnamelen;
           Some (buf, int ptr) })"

definition MQTTSNSerialize_regack :: "buffer \<Rightarrow> int \<Rightarrow> u16 \<Rightarrow> u16 \<Rightarrow> byte \<Rightarrow> (buffer \<times> int) option" where
  "MQTTSNSerialize_regack buf buflen topicid packetid return_code =
     (let len = MQTTSNPacket_len 6
      in if len > buflen then Some (buf, MQTTSNPACKET_BUFFER_TOO_SHORT)
         else do {
           w \<leftarrow> sn_write_len (buf, 0) len;
           w \<leftarrow> writeChar w (sn_code MQTTSN_REGACK);
           w \<leftarrow> writeInt w (uint topicid);
           w \<leftarrow> writeInt w (uint packetid);
           (buf, ptr) \<leftarrow> writeChar w return_code;
           Some (buf, int ptr) })"

record register_out =
  reg_topicid :: u16
  reg_packetid :: u16
  reg_topicname :: MQTTSNString

definition MQTTSNDeserialize_register :: "register_out \<Rightarrow> buffer \<Rightarrow> int \<Rightarrow> (int \<times> register_out) option" where
  "MQTTSNDeserialize_register out buf buflen = do {
     (_, curdata, enddata) \<leftarrow> sn_begin (Some 0) buf buflen;
     if enddata - fst curdata > buflen then Some (0, out)
     else do {
       (c, curdata) \<leftarrow> readChar curdata;
       if c \<noteq> sn_code MQTTSN_REGISTER then Some (0, out)
       else do {
         (topicid, curdata) \<leftarrow> readInt curdata;
         (packetid, curdata) \<leftarrow> readInt curdata;
         Some (1, \<lparr>reg_topicid = word_of_int topicid, reg_packetid = word_of_int packetid,
                   reg_topicname = \<lparr>sn_cstring = None,
                     sn_lenstring = \<lparr>snls_len = enddata - fst curdata, snls_data = Some (snd curdata)\<rparr>\<rparr>\<rparr>) } } }"

definition MQTTSNDeserialize_regack :: "topic_ack_out \<Rightarrow> buffer \<Rightarrow> int \<Rightarrow> (int \<times> topic_ack_out) option" where
  "MQTTSNDeserialize_regack out buf buflen = do {
     (_, curdata, enddata) \<leftarrow> sn_begin (Some 0) buf buflen;
     if enddata - fst curdata > buflen then Some (0, out)
     else do {
       (c, curdata) \<leftarrow> readChar curdata;
       if c \<noteq> sn_code MQTTSN_REGACK then Some (0, out)
       else do {
         (topicid, curdata) \<leftarrow> readInt curdata;
         (packetid, curdata) \<leftarrow> readInt curdata;
         (return_code, curdata) \<leftarrow> readChar curdata;
         Some (1, \<lparr>ta_topicid = word_of_int topicid, ta_packetid = word_of_int packetid,
                   ta_returncode = return_code\<rparr>) } } }"

subsection \<open>Topics on the wire\<close>

text \<open>A topic in the form its type and the QoS call for, the two bytes it has in the topic field,
  the name that follows the packet identifier, and the topic without its pointer.\<close>

definition sn_topic_ok :: "MQTTSN_topicid \<Rightarrow> int \<Rightarrow> bool" where
  "sn_topic_ok topic qos \<longleftrightarrow>
     (case topic_data topic of
        Topic_long name l \<Rightarrow> long_topic topic qos \<and> cptr_holds name l
      | Topic_id i \<Rightarrow> \<not> long_topic topic qos \<and>
          (topic_type topic = MQTTSN_TOPIC_TYPE_NORMAL \<or> topic_type topic = MQTTSN_TOPIC_TYPE_PREDEFINED)
      | Topic_short a b \<Rightarrow>
          topic_type topic = MQTTSN_TOPIC_TYPE_SHORT \<or> topic_type topic = MQTTSN_TOPIC_TYPE_3)"

fun topic_field :: "topic_union \<Rightarrow> byte list" where
  "topic_field (Topic_long _ l) = be16 l"
| "topic_field (Topic_id i) = be16 (uint i)"
| "topic_field (Topic_short a b) = [a, b]"

fun topic_name :: "topic_union \<Rightarrow> byte list" where
  "topic_name (Topic_long name l) = cptr_bytes name l"
| "topic_name _ = []"

fun topic_norm :: "topic_union \<Rightarrow> topic_union" where
  "topic_norm (Topic_long name l) = Topic_long (Some (cptr_bytes name l)) l"
| "topic_norm d = d"

lemma length_topic_field [wire_length, simp]: "length (topic_field d) = 2"
  by (cases d) simp_all

lemma sn_topic_ok_cases:
  assumes "sn_topic_ok topic qos"
  obtains (long_name) name l where "topic_data topic = Topic_long name l" "long_topic topic qos" "cptr_holds name l"
  | (ident) i where "topic_data topic = Topic_id i" "\<not> long_topic topic qos"
      "topic_type topic = MQTTSN_TOPIC_TYPE_NORMAL \<or> topic_type topic = MQTTSN_TOPIC_TYPE_PREDEFINED"
  | (short_name) a b where "topic_data topic = Topic_short a b" "\<not> long_topic topic qos"
      "topic_type topic \<noteq> MQTTSN_TOPIC_TYPE_NORMAL" "topic_type topic \<noteq> MQTTSN_TOPIC_TYPE_PREDEFINED"
proof (cases "topic_data topic")
  case (Topic_short a b)
  with assms have "topic_type topic = MQTTSN_TOPIC_TYPE_SHORT \<or> topic_type topic = MQTTSN_TOPIC_TYPE_3"
    by (simp add: sn_topic_ok_def)
  with Topic_short show ?thesis
    by (intro short_name [OF Topic_short]) (auto simp: long_topic_def)
qed (use assms in \<open>auto simp: sn_topic_ok_def intro: that\<close>)

lemma write_topicid_emit [emit_simps]:
  "sn_topic_ok topic qos \<Longrightarrow> Option.bind (emit buf out) (\<lambda>w. Option.bind (write_topicid w topic qos) k) =
     Option.bind (emit buf (out @ topic_field (topic_data topic))) k"
  by (cases rule: sn_topic_ok_cases) (auto simp: write_topicid_def emit_simps)

lemma topicType_of_code [simp]: "topicType_of (topicType_code t) = t"
  by (cases t) (simp_all add: topicType_of_def)

lemma topicType_code_bits [simp]: "take_bit 2 (topicType_code t) = topicType_code t"
  by (cases t) simp_all

subsection \<open>PUBLISH on the wire\<close>

type_synonym snpublish_args = "byte \<times> int \<times> byte \<times> u16 \<times> MQTTSN_topicid \<times> cptr \<times> int"

definition snpublish_flags :: "byte \<Rightarrow> int \<Rightarrow> byte \<Rightarrow> MQTTSN_topicTypes \<Rightarrow> byte" where
  "snpublish_flags dup qos retained t =
     set_snflags_topicIdType (topicType_code t)
       (set_snflags_retain retained (set_snflags_QoS (word_of_int qos) (set_snflags_dup dup 0)))"

fun snpublish_body :: "snpublish_args \<Rightarrow> byte list" where
  "snpublish_body (dup, qos, retained, packetid, topic, payload, payloadlen) =
     12 # snpublish_flags dup qos retained (topic_type topic) # topic_field (topic_data topic) @
       be16 (uint packetid) @ topic_name (topic_data topic) @ cptr_bytes payload payloadlen"

fun snpublish_ok :: "snpublish_args \<Rightarrow> bool" where
  "snpublish_ok (dup, qos, retained, packetid, topic, payload, payloadlen) \<longleftrightarrow>
     0 \<le> qos \<and> qos \<le> 3 \<and> sn_topic_ok topic qos \<and> cptr_holds payload payloadlen \<and>
     frame_ok (snpublish_body (dup, qos, retained, packetid, topic, payload, payloadlen))"

text \<open>A set duplicate flag comes back as 255, see \<open>snflags_dup\<close>.\<close>

fun snpublish_val ::
  "snpublish_args \<Rightarrow> byte \<times> int \<times> byte \<times> u16 \<times> MQTTSN_topicTypes \<times> topic_union \<times> byte list" where
  "snpublish_val (dup, qos, retained, packetid, topic, payload, payloadlen) =
     (if take_bit 1 dup = 0 then 0 else 255, qos, take_bit 1 retained, packetid, topic_type topic,
      topic_norm (topic_data topic), cptr_bytes payload payloadlen)"

definition snpublish_view ::
  "snpublish_out \<Rightarrow> byte \<times> int \<times> byte \<times> u16 \<times> MQTTSN_topicTypes \<times> topic_union \<times> byte list" where
  "snpublish_view out =
     (snp_dup out, snp_qos out, snp_retained out, snp_packetid out, topic_type (snp_topic out),
      topic_norm (topic_data (snp_topic out)), cptr_bytes (snp_payload out) (snp_payloadlen out))"

lemma snpublish_flags_fields [field_simps]:
  "snflags_dup (snpublish_flags dup qos retained t) = (if take_bit 1 dup = 0 then 0 else - 1)"
  "0 \<le> qos \<Longrightarrow> qos \<le> 3 \<Longrightarrow> uint (snflags_QoS (snpublish_flags dup qos retained t)) = qos"
  "snflags_retain (snpublish_flags dup qos retained t) = take_bit 1 retained"
  "snflags_topicIdType (snpublish_flags dup qos retained t) = topicType_code t"
  by (simp_all add: snpublish_flags_def snflags_defs field_simps uint_take_bit_word_of_int)

lemma snpublishLength_body:
  assumes "sn_topic_ok topic qos" "cptr_holds payload payloadlen"
  shows "MQTTSNSerialize_publishLength payloadlen topic qos =
    Some (int (length (snpublish_body (dup, qos, retained, packetid, topic, payload, payloadlen))))"
  using assms(1) by (cases rule: sn_topic_ok_cases)
    (simp_all add: MQTTSNSerialize_publishLength_def length_cptr_bytes assms(2))

lemma MQTTSNSerialize_publish_eq:
  assumes "snpublish_ok a" "a = (dup, qos, retained, packetid, topic, payload, payloadlen)"
  shows "MQTTSNSerialize_publish buf buflen dup qos retained packetid topic payload payloadlen =
    (if MQTTSNPacket_len (int (length (snpublish_body a))) > buflen then Some (buf, - 2)
     else emit_rc buf (sn_frame (snpublish_body a)))"
proof -
  have ok: "sn_topic_ok topic qos" "cptr_holds payload payloadlen"
    using assms by auto
  note len = snpublishLength_body [OF ok, of dup retained packetid, folded assms(2)]
  show ?thesis
    using ok(1)
  proof (cases rule: sn_topic_ok_cases)
    case (long_name name l)
    with ok show ?thesis
      by (simp add: MQTTSNSerialize_publish_def len sn_frame_def emit_simps)
         (simp add: assms(2) snpublish_flags_def)
  qed (use ok in \<open>simp add: MQTTSNSerialize_publish_def len sn_frame_def emit_simps;
      simp add: assms(2) snpublish_flags_def\<close>)+
qed

lemma snpublish_decode:
  assumes "snpublish_ok a" "int (length (sn_frame (snpublish_body a))) \<le> n"
  shows "\<exists>out'. MQTTSNDeserialize_publish out (sn_frame (snpublish_body a) @ rest) n = Some (1, out') \<and>
    snpublish_view out' = snpublish_val a"
proof -
  obtain dup qos retained packetid topic payload payloadlen
    where a: "a = (dup, qos, retained, packetid, topic, payload, payloadlen)"
    by (cases a rule: snpublish_ok.cases)
  have ok: "sn_topic_ok topic qos" "cptr_holds payload payloadlen" "0 \<le> qos" "qos \<le> 3"
    and f: "frame_ok (snpublish_body a)"
    using assms(1) by (simp_all add: a)
  have le: "int (length (snpublish_body a)) \<le> n"
    using assms(2) sn_frame_start [OF f, of n] sn_lenlen_bounds(1) [of "snpublish_body a"] by simp
  note b = MQTTSNDeserialize_publish_def sn_begin_frame [OF f assms(2)]
  show ?thesis
    using ok(1)
  proof (cases rule: sn_topic_ok_cases)
    case (long_name name l)
    have l: "0 \<le> l" "l < 65536"
      using f long_name(1,3) length_cptr_bytes [OF long_name(3)] by (auto simp: a frame_ok_def cptr_holds_def)
    obtain nm where nm: "set_long_len l (topic_data (snp_topic out)) = Topic_long nm l"
      by (cases "topic_data (snp_topic out)") (simp_all add: set_long_len_def)
    show ?thesis
      unfolding b using le ok(2-4) long_name
      by (simp add: a Let_def topicType_of_def read_simps field_simps read_topicid_def readInt_be16 [OF l] nm long_topic_def
          snpublish_view_def length_cptr_bytes)
  next
    case (ident i)
    then show ?thesis
      unfolding b using le ok(2-4)
      by (auto simp: a Let_def topicType_of_def read_simps field_simps read_topicid_def long_topic_def snpublish_view_def length_cptr_bytes)
  next
    case (short_name c d)
    then show ?thesis
      unfolding b using le ok(2-4)
      by (auto simp: a Let_def read_simps field_simps read_topicid_def long_topic_def snpublish_view_def length_cptr_bytes)
  qed
qed

interpretation snpublish: sn_codec
  "\<lambda>buf buflen (dup, qos, retained, packetid, topic, payload, payloadlen).
     MQTTSNSerialize_publish buf buflen dup qos retained packetid topic payload payloadlen"
  snpublish_body snpublish_ok MQTTSNDeserialize_publish snpublish_view snpublish_val
proof unfold_locales
  fix a :: snpublish_args and buf buflen
  assume "snpublish_ok a"
  then show "(case a of (dup, qos, retained, packetid, topic, payload, payloadlen) \<Rightarrow>
       MQTTSNSerialize_publish buf buflen dup qos retained packetid topic payload payloadlen) =
     (if MQTTSNPacket_len (int (length (snpublish_body a))) > buflen then Some (buf, - 2)
      else emit_rc buf (sn_frame (snpublish_body a)))"
    by (cases a rule: snpublish_ok.cases) (simp only: prod.case MQTTSNSerialize_publish_eq [OF _ refl])
next
  fix a :: snpublish_args
  show "snpublish_ok a \<Longrightarrow> frame_ok (snpublish_body a)"
    by (cases a rule: snpublish_ok.cases) simp
qed (rule snpublish_decode)


subsection \<open>The other messages on the wire\<close>

text \<open>PUBACK and REGACK: topic identifier, packet identifier and return code.\<close>

fun topic_ack_body :: "MQTTSN_msgTypes \<Rightarrow> u16 \<times> u16 \<times> byte \<Rightarrow> byte list" where
  "topic_ack_body t (topicid, packetid, returncode) =
     sn_code t # be16 (uint topicid) @ be16 (uint packetid) @ [returncode]"

definition topic_ack_view :: "topic_ack_out \<Rightarrow> u16 \<times> u16 \<times> byte" where
  "topic_ack_view out = (ta_topicid out, ta_packetid out, ta_returncode out)"

lemma frame_ok_topic_ack: "frame_ok (topic_ack_body t a)"
  by (cases a) (simp add: frame_ok_def)

lemma len_topic_ack: "int (length (topic_ack_body t a)) = 6"
  by (cases a) simp

interpretation snpuback: sn_codec
  "\<lambda>buf buflen (topicid, packetid, returncode). MQTTSNSerialize_puback buf buflen topicid packetid returncode"
  "topic_ack_body MQTTSN_PUBACK" "\<lambda>_. True" MQTTSNDeserialize_puback topic_ack_view id
proof unfold_locales
  fix a :: "u16 \<times> u16 \<times> byte" and buf buflen
  show "(case a of (topicid, packetid, returncode) \<Rightarrow> MQTTSNSerialize_puback buf buflen topicid packetid returncode) =
     (if MQTTSNPacket_len (int (length (topic_ack_body MQTTSN_PUBACK a))) > buflen then Some (buf, - 2)
      else emit_rc buf (sn_frame (topic_ack_body MQTTSN_PUBACK a)))"
    unfolding sn_frame_def len_topic_ack by (cases a) (simp add: MQTTSNSerialize_puback_def emit_simps)
next
  fix a :: "u16 \<times> u16 \<times> byte" and n and out :: topic_ack_out and rest
  assume n: "int (length (sn_frame (topic_ack_body MQTTSN_PUBACK a))) \<le> n"
  then have "6 \<le> n"
    by (simp add: sn_frame_def len_topic_ack)
  then show "\<exists>out'. MQTTSNDeserialize_puback out (sn_frame (topic_ack_body MQTTSN_PUBACK a) @ rest) n = Some (1, out') \<and>
      topic_ack_view out' = id a"
    unfolding MQTTSNDeserialize_puback_def sn_begin_frame [OF frame_ok_topic_ack n]
    by (cases a) (simp add: read_simps topic_ack_view_def)
qed (rule frame_ok_topic_ack)

interpretation snregack: sn_codec
  "\<lambda>buf buflen (topicid, packetid, return_code). MQTTSNSerialize_regack buf buflen topicid packetid return_code"
  "topic_ack_body MQTTSN_REGACK" "\<lambda>_. True" MQTTSNDeserialize_regack topic_ack_view id
proof unfold_locales
  fix a :: "u16 \<times> u16 \<times> byte" and buf buflen
  show "(case a of (topicid, packetid, return_code) \<Rightarrow> MQTTSNSerialize_regack buf buflen topicid packetid return_code) =
     (if MQTTSNPacket_len (int (length (topic_ack_body MQTTSN_REGACK a))) > buflen then Some (buf, - 2)
      else emit_rc buf (sn_frame (topic_ack_body MQTTSN_REGACK a)))"
    unfolding sn_frame_def len_topic_ack by (cases a) (simp add: MQTTSNSerialize_regack_def emit_simps)
next
  fix a :: "u16 \<times> u16 \<times> byte" and n and out :: topic_ack_out and rest
  assume n: "int (length (sn_frame (topic_ack_body MQTTSN_REGACK a))) \<le> n"
  then have "6 \<le> n"
    by (simp add: sn_frame_def len_topic_ack)
  then show "\<exists>out'. MQTTSNDeserialize_regack out (sn_frame (topic_ack_body MQTTSN_REGACK a) @ rest) n = Some (1, out') \<and>
      topic_ack_view out' = id a"
    unfolding MQTTSNDeserialize_regack_def sn_begin_frame [OF frame_ok_topic_ack n]
    by (cases a) (simp add: read_simps topic_ack_view_def)
qed (rule frame_ok_topic_ack)

text \<open>PUBREC, PUBREL and PUBCOMP.\<close>

fun snack_body :: "u16 \<times> u16 \<Rightarrow> byte list" where
  "snack_body (packet_type, packetid) = ucast packet_type # be16 (uint packetid)"

definition snack_ok :: "u16 \<times> u16 \<Rightarrow> bool" where
  "snack_ok a \<longleftrightarrow> fst a = 14 \<or> fst a = 15 \<or> fst a = 16"

definition snack_view :: "snack_out \<Rightarrow> u16 \<times> u16" where
  "snack_view out = (ucast (snack_type out), snack_packetid out)"

lemma frame_ok_snack: "frame_ok (snack_body a)"
  by (cases a) (simp add: frame_ok_def)

lemma len_snack: "int (length (snack_body a)) = 3"
  by (cases a) simp

interpretation snack: sn_codec
  "\<lambda>buf buflen (packet_type, packetid). MQTTSNSerialize_ack buf buflen packet_type packetid"
  snack_body snack_ok MQTTSNDeserialize_ack snack_view id
proof unfold_locales
  fix a :: "u16 \<times> u16" and buf buflen
  show "(case a of (packet_type, packetid) \<Rightarrow> MQTTSNSerialize_ack buf buflen packet_type packetid) =
     (if MQTTSNPacket_len (int (length (snack_body a))) > buflen then Some (buf, - 2)
      else emit_rc buf (sn_frame (snack_body a)))"
    unfolding sn_frame_def len_snack
    by (cases a) (simp add: MQTTSNSerialize_ack_def emit_simps MQTTSNPacket_len_def)
next
  fix a :: "u16 \<times> u16" and n and out :: snack_out and rest
  assume ok: "snack_ok a" and n: "int (length (sn_frame (snack_body a))) \<le> n"
  then have "3 \<le> n"
    by (simp add: sn_frame_def len_snack)
  then show "\<exists>out'. MQTTSNDeserialize_ack out (sn_frame (snack_body a) @ rest) n = Some (1, out') \<and> snack_view out' = id a"
    unfolding MQTTSNDeserialize_ack_def sn_begin_frame [OF frame_ok_snack n]
    using ok by (cases a) (auto simp: read_simps snack_view_def snack_ok_def)
qed (rule frame_ok_snack)

text \<open>REGISTER. A topic name given as a C string is written without a length in front here, so both
  representations are fine.\<close>

definition name_bytes :: "MQTTSNString \<Rightarrow> byte list" where
  "name_bytes s = (case sn_cstring s of
     Some c \<Rightarrow> c | None \<Rightarrow> cptr_bytes (snls_data (sn_lenstring s)) (snls_len (sn_lenstring s)))"

definition name_holds :: "MQTTSNString \<Rightarrow> bool" where
  "name_holds s \<longleftrightarrow> (case sn_cstring s of
     Some c \<Rightarrow> True | None \<Rightarrow> cptr_holds (snls_data (sn_lenstring s)) (snls_len (sn_lenstring s)))"

fun register_body :: "u16 \<times> u16 \<times> MQTTSNString \<Rightarrow> byte list" where
  "register_body (topicid, packetid, topicname) = 10 # be16 (uint topicid) @ be16 (uint packetid) @ name_bytes topicname"

fun register_ok :: "u16 \<times> u16 \<times> MQTTSNString \<Rightarrow> bool" where
  "register_ok (topicid, packetid, topicname) \<longleftrightarrow>
     name_holds topicname \<and> frame_ok (register_body (topicid, packetid, topicname))"

fun register_val :: "u16 \<times> u16 \<times> MQTTSNString \<Rightarrow> u16 \<times> u16 \<times> byte list" where
  "register_val (topicid, packetid, topicname) = (topicid, packetid, name_bytes topicname)"

definition register_view :: "register_out \<Rightarrow> u16 \<times> u16 \<times> byte list" where
  "register_view out = (reg_topicid out, reg_packetid out, name_bytes (reg_topicname out))"

lemma MQTTSNSerialize_register_eq:
  assumes "name_holds topicname"
  shows "MQTTSNSerialize_register buf buflen topicid packetid topicname =
    (if MQTTSNPacket_len (int (length (register_body (topicid, packetid, topicname)))) > buflen then Some (buf, - 2)
     else emit_rc buf (sn_frame (register_body (topicid, packetid, topicname))))"
proof (cases "sn_cstring topicname")
  case None
  let ?p = "snls_data (sn_lenstring topicname)" and ?l = "snls_len (sn_lenstring topicname)"
  have "cptr_holds ?p ?l" "MQTTSNSerialize_registerLength ?l = int (length (register_body (topicid, packetid, topicname)))"
    using assms None
    by (simp_all add: name_holds_def MQTTSNSerialize_registerLength_def name_bytes_def length_cptr_bytes)
  with None show ?thesis
    by (simp add: MQTTSNSerialize_register_def sn_frame_def emit_simps del: register_body.simps)
       (simp add: name_bytes_def)
next
  case (Some s)
  have "cptr_holds (Some s) (int (length s))" "cptr_bytes (Some s) (int (length s)) = s"
    "MQTTSNSerialize_registerLength (int (length s)) = int (length (register_body (topicid, packetid, topicname)))"
    using Some by (simp_all add: cptr_holds_def cptr_bytes_def MQTTSNSerialize_registerLength_def name_bytes_def)
  with Some show ?thesis
    by (simp add: MQTTSNSerialize_register_def sn_frame_def emit_simps del: register_body.simps)
       (simp add: name_bytes_def)
qed

interpretation register: sn_codec
  "\<lambda>buf buflen (topicid, packetid, topicname). MQTTSNSerialize_register buf buflen topicid packetid topicname"
  register_body register_ok MQTTSNDeserialize_register register_view register_val
proof unfold_locales
  fix a :: "u16 \<times> u16 \<times> MQTTSNString" and buf buflen
  assume "register_ok a"
  then show "(case a of (topicid, packetid, topicname) \<Rightarrow> MQTTSNSerialize_register buf buflen topicid packetid topicname) =
     (if MQTTSNPacket_len (int (length (register_body a))) > buflen then Some (buf, - 2)
      else emit_rc buf (sn_frame (register_body a)))"
    by (cases a) (simp add: MQTTSNSerialize_register_eq del: register_body.simps)
next
  fix a :: "u16 \<times> u16 \<times> MQTTSNString"
  show "register_ok a \<Longrightarrow> frame_ok (register_body a)"
    by (cases a) simp
next
  fix a :: "u16 \<times> u16 \<times> MQTTSNString" and n and out :: register_out and rest
  assume ok: "register_ok a" and n: "int (length (sn_frame (register_body a))) \<le> n"
  have f: "frame_ok (register_body a)"
    using ok by (cases a) simp
  have "int (length (register_body a)) \<le> n"
    using n sn_frame_start [OF f, of n] sn_lenlen_bounds(1) [of "register_body a"] by simp
  then show "\<exists>out'. MQTTSNDeserialize_register out (sn_frame (register_body a) @ rest) n = Some (1, out') \<and>
      register_view out' = register_val a"
    unfolding MQTTSNDeserialize_register_def sn_begin_frame [OF f n]
    by (cases a) (simp add: read_simps register_view_def name_bytes_def)
qed


subsection \<open>Properties\<close>

text \<open>C40: PUBLISH of MQTT-SN: with a topic in the form its type calls for (a registered or predefined identifier, a short name, or a
  long name at QoS -1), the serialiser stays inside a buffer of \<open>buflen\<close> bytes and either asks for a larger one or writes a datagram that
  \<open>MQTTSNPacket_read_nb\<close> takes for a PUBLISH and from which \<open>MQTTSNDeserialize_publish\<close> recovers QoS, retain flag, packet identifier, topic
  type, topic and payload. A set duplicate flag comes back as 255.\<close>

theorem snpublish_round_trip:
  assumes "snpublish_ok (dup, qos, retained, packetid, topic, payload, payloadlen)" "buflen \<le> int (length buf)"
  shows "\<exists>buf' rc. MQTTSNSerialize_publish buf buflen dup qos retained packetid topic payload payloadlen = Some (buf', rc) \<and>
    (rc = - 2 \<and> buf' = buf \<or>
     0 \<le> rc \<and> rc \<le> buflen \<and> drop (nat rc) buf' = drop (nat rc) buf \<and> MQTTSNPacket_read_nb buf' rc = Some 12 \<and>
     (\<exists>out'. MQTTSNDeserialize_publish out buf' rc = Some (1, out') \<and>
       snp_dup out' = (if even dup then 0 else 255) \<and> snp_qos out' = qos \<and>
       snp_retained out' = take_bit 1 retained \<and> snp_packetid out' = packetid \<and>
       topic_type (snp_topic out') = topic_type topic \<and>
       topic_norm (topic_data (snp_topic out')) = topic_norm (topic_data topic) \<and>
       cptr_bytes (snp_payload out') (snp_payloadlen out') = cptr_bytes payload payloadlen))"
proof -
  let ?a = "(dup, qos, retained, packetid, topic, payload, payloadlen)"
  obtain buf' rc where s: "MQTTSNSerialize_publish buf buflen dup qos retained packetid topic payload payloadlen = Some (buf', rc)"
    and c: "rc = - 2 \<and> buf' = buf \<or> 0 \<le> rc \<and> rc \<le> buflen \<and> drop (nat rc) buf' = drop (nat rc) buf"
    using snpublish.memory_safe [OF assms] by auto
  show ?thesis
  proof (cases "rc = - 2")
    case True
    then show ?thesis using s c by auto
  next
    case False
    obtain out' where o: "MQTTSNDeserialize_publish out buf' rc = Some (1, out')" "snpublish_view out' = snpublish_val ?a"
      using snpublish.round_trip [OF assms(1), of buf buflen buf' rc rc out] s False by auto
    have "MQTTSNPacket_read_nb buf' rc = Some 12"
      using snpublish.sent_and_received [OF assms(1), of buf buflen buf' rc] s False by simp
    then show ?thesis
      using s c False o by (auto simp: snpublish_view_def even_iff_mod_2_eq_zero)
  qed
qed

theorem snpublish_round_trip_witness:
  "\<exists>buf' rc. MQTTSNSerialize_publish (replicate 12 0) 12 1 3 0 7
      \<lparr>topic_type = MQTTSN_TOPIC_TYPE_NORMAL, topic_data = Topic_long (Some [97, 98]) 2\<rparr> (Some [5]) 1 = Some (buf', rc) \<and>
    (rc = - 2 \<and> buf' = replicate 12 0 \<or> 0 \<le> rc \<and> rc \<le> 12 \<and> drop (nat rc) buf' = drop (nat rc) (replicate 12 0) \<and>
     MQTTSNPacket_read_nb buf' rc = Some 12 \<and>
     (\<exists>out'. MQTTSNDeserialize_publish
         \<lparr>snp_dup = 0, snp_qos = 0, snp_retained = 0, snp_packetid = 0,
          snp_topic = \<lparr>topic_type = MQTTSN_TOPIC_TYPE_NORMAL, topic_data = Topic_id 0\<rparr>, snp_payload = None, snp_payloadlen = 0\<rparr>
         buf' rc = Some (1, out') \<and>
       snp_dup out' = (if even (1 :: byte) then 0 else 255) \<and> snp_qos out' = 3 \<and>
       snp_retained out' = take_bit 1 0 \<and> snp_packetid out' = 7 \<and>
       topic_type (snp_topic out') = topic_type \<lparr>topic_type = MQTTSN_TOPIC_TYPE_NORMAL, topic_data = Topic_long (Some [97, 98]) 2\<rparr> \<and>
       topic_norm (topic_data (snp_topic out')) =
         topic_norm (topic_data \<lparr>topic_type = MQTTSN_TOPIC_TYPE_NORMAL, topic_data = Topic_long (Some [97, 98]) 2\<rparr>) \<and>
       cptr_bytes (snp_payload out') (snp_payloadlen out') = cptr_bytes (Some [5]) 1))"
  by (rule snpublish_round_trip)
     (simp_all add: sn_topic_ok_def long_topic_def cptr_holds_def cptr_bytes_def frame_ok_def)

text \<open>Topic registration and the acknowledgements of MQTT-SN: REGISTER (with the name in either representation), REGACK,
  PUBACK, PUBREC, PUBREL and PUBCOMP as one side writes them are read back by the other side with the topic
  identifier, the packet identifier, the name and the return code as they were.\<close>

theorem sn_registration_round_trip:
  assumes "register_ok (topicid, packetid, topicname)" "t = 14 \<or> t = 15 \<or> t = 16"
    and "MQTTSNSerialize_register buf1 n1 topicid packetid topicname = Some (buf1', rc1)" "rc1 \<noteq> - 2"
    and "MQTTSNSerialize_regack buf2 n2 topicid packetid code = Some (buf2', rc2)" "rc2 \<noteq> - 2"
    and "MQTTSNSerialize_puback buf3 n3 topicid packetid code = Some (buf3', rc3)" "rc3 \<noteq> - 2"
    and "MQTTSNSerialize_ack buf4 n4 t packetid = Some (buf4', rc4)" "rc4 \<noteq> - 2"
  shows "(\<exists>out'. MQTTSNDeserialize_register outr buf1' rc1 = Some (1, out') \<and>
      reg_topicid out' = topicid \<and> reg_packetid out' = packetid \<and> name_bytes (reg_topicname out') = name_bytes topicname) \<and>
    MQTTSNDeserialize_regack outa buf2' rc2 =
      Some (1, \<lparr>ta_topicid = topicid, ta_packetid = packetid, ta_returncode = code\<rparr>) \<and>
    MQTTSNDeserialize_puback outa buf3' rc3 =
      Some (1, \<lparr>ta_topicid = topicid, ta_packetid = packetid, ta_returncode = code\<rparr>) \<and>
    MQTTSNDeserialize_ack outk buf4' rc4 = Some (1, \<lparr>snack_type = ucast t, snack_packetid = packetid\<rparr>)"
proof (intro conjI)
  have view: "out' = \<lparr>ta_topicid = topicid, ta_packetid = packetid, ta_returncode = code\<rparr>"
    if "topic_ack_view out' = (topicid, packetid, code)" for out'
    using that by (cases out') (simp add: topic_ack_view_def)
  show "\<exists>out'. MQTTSNDeserialize_register outr buf1' rc1 = Some (1, out') \<and>
      reg_topicid out' = topicid \<and> reg_packetid out' = packetid \<and> name_bytes (reg_topicname out') = name_bytes topicname"
    using register.round_trip [OF assms(1), of buf1 n1 buf1' rc1 rc1 outr] assms(3,4) by (auto simp: register_view_def)
  show "MQTTSNDeserialize_regack outa buf2' rc2 =
      Some (1, \<lparr>ta_topicid = topicid, ta_packetid = packetid, ta_returncode = code\<rparr>)"
    using snregack.round_trip [where a = "(topicid, packetid, code)" and buf = buf2 and buflen = n2 and buf' = buf2'
        and rc = rc2 and n = rc2 and out = outa] assms(5,6) view by auto
  show "MQTTSNDeserialize_puback outa buf3' rc3 =
      Some (1, \<lparr>ta_topicid = topicid, ta_packetid = packetid, ta_returncode = code\<rparr>)"
    using snpuback.round_trip [where a = "(topicid, packetid, code)" and buf = buf3 and buflen = n3 and buf' = buf3'
        and rc = rc3 and n = rc3 and out = outa] assms(7,8) view by auto
  obtain out' where o: "MQTTSNDeserialize_ack outk buf4' rc4 = Some (1, out')" "snack_view out' = (t, packetid)"
    using snack.round_trip [of "(t, packetid)" buf4 n4 buf4' rc4 rc4 outk] assms(2,9,10) by (auto simp: snack_ok_def)
  have "ucast (ucast (snack_type out') :: u16) = snack_type out'"
    by (rule bit_word_eqI) (simp add: bit_simps)
  then have "snack_type out' = ucast t" "snack_packetid out' = packetid"
    using o(2) by (auto simp: snack_view_def)
  then show "MQTTSNDeserialize_ack outk buf4' rc4 = Some (1, \<lparr>snack_type = ucast t, snack_packetid = packetid\<rparr>)"
    using o(1) by (cases out') simp
qed

theorem sn_registration_round_trip_witness:
  "MQTTSNDeserialize_ack \<lparr>snack_type = 0, snack_packetid = 0\<rparr> [4, 16, 0, 9, 0] 4 =
     Some (1, \<lparr>snack_type = ucast (16 :: u16), snack_packetid = 9\<rparr>)"
proof -
  have ok: "register_ok (3, 9, MQTTSNString_c [97])"
    by (simp add: name_holds_def MQTTSNString_c_def name_bytes_def frame_ok_def)
  have s: "MQTTSNSerialize_register (replicate 8 0) 8 3 9 (MQTTSNString_c [97]) = Some ([7, 10, 0, 3, 0, 9, 97, 0], 7)"
    "MQTTSNSerialize_regack (replicate 8 0) 8 3 9 0 = Some ([7, 11, 0, 3, 0, 9, 0, 0], 7)"
    "MQTTSNSerialize_puback (replicate 8 0) 8 3 9 0 = Some ([7, 13, 0, 3, 0, 9, 0, 0], 7)"
    "MQTTSNSerialize_ack (replicate 5 0) 5 16 9 = Some ([4, 16, 0, 9, 0], 4)"
    by code_simp+
  show ?thesis
    using sn_registration_round_trip [OF ok _ s(1) _ s(2) _ s(3) _ s(4),
        where outr = "\<lparr>reg_topicid = 0, reg_packetid = 0, reg_topicname = MQTTSNString_initializer\<rparr>"
        and outa = "\<lparr>ta_topicid = 0, ta_packetid = 0, ta_returncode = 0\<rparr>" and outk = "\<lparr>snack_type = 0, snack_packetid = 0\<rparr>"]
    by simp
qed

text \<open>\<open>MQTTSNDeserialize_publish\<close> does not hold a PUBLISH to its length. With a one-byte length field of any value \<open>m\<close> up to
  \<open>buflen + 1\<close> and at least seven bytes in the buffer, a message with a topic identifier or a short name is accepted, and \<open>payloadlen\<close>
  is \<open>m - 7\<close>: negative for a length below seven, and past the end of the received data for \<open>m = buflen + 1\<close>.\<close>

theorem snpublish_length_unchecked:
  assumes "buf = word_of_int m # 12 # flags # rest" "2 \<le> m" "m < 256" "m \<le> buflen + 1" "4 \<le> length rest"
    and "snflags_topicIdType flags \<noteq> 0 \<or> snflags_QoS flags \<noteq> 3"
  shows "\<exists>out'. MQTTSNDeserialize_publish out buf buflen = Some (1, out') \<and> snp_payloadlen out' = m - 7"
proof -
  obtain a b c d ds where r: "rest = a # b # c # d # ds"
    using assms(5) by (auto simp: numeral_eq_Suc Suc_le_length_iff)
  have u: "uint (word_of_int m :: byte) = m"
    unfolding uint_word_of_int using assms(2,3) by simp
  have "(word_of_int m :: byte) \<noteq> 1"
    using assms(2) by (intro notI) (drule arg_cong [where f = uint], simp only: u, simp)
  then have b: "sn_begin (Some 0) buf buflen = Some (1, (1, 12 # flags # rest), m)"
    using u assms(1,2,4) by (simp add: sn_begin_def MQTTSNPacket_decode_def ptr_add_def)
  have uint_3_byte: "uint (3 :: byte) = 3"
    by simp
  have "uint (snflags_QoS flags) = 3 \<Longrightarrow> snflags_topicIdType flags \<noteq> 0"
    using assms(6) by (metis unsigned_word_eqI uint_3_byte)
  then have l: "\<not> (topicType_of (snflags_topicIdType flags) = MQTTSN_TOPIC_TYPE_NORMAL \<and> uint (snflags_QoS flags) = 3)"
    by (auto simp: topicType_of_def)
  show ?thesis
    unfolding MQTTSNDeserialize_publish_def b using assms(4) l
    by (auto simp: readChar_Cons read_topicid_def long_topic_def readInt_cases r Let_def)
qed

theorem snpublish_length_unchecked_witness:
  "\<exists>out'. MQTTSNDeserialize_publish
     \<lparr>snp_dup = 0, snp_qos = 0, snp_retained = 0, snp_packetid = 0,
      snp_topic = \<lparr>topic_type = MQTTSN_TOPIC_TYPE_NORMAL, topic_data = Topic_id 0\<rparr>, snp_payload = None, snp_payloadlen = 0\<rparr>
     [2, 12, 0, 0, 1, 0, 2] 2 = Some (1, out') \<and> snp_payloadlen out' = 2 - 7"
  by (rule snpublish_length_unchecked [where flags = 0 and rest = "[0, 1, 0, 2]"])
     (simp_all add: snflags_defs field_simps)


end
