(* ===== verification/MQTTSN_Subscribe.thy ===== *)
theory MQTTSN_Subscribe
  imports MQTTSN_Publish
begin

text \<open>
  \<^verbatim>\<open>MQTTSNSubscribeClient.c\<close>, \<^verbatim>\<open>MQTTSNSubscribeServer.c\<close>, \<^verbatim>\<open>MQTTSNUnsubscribeClient.c\<close> and
  \<^verbatim>\<open>MQTTSNUnsubscribeServer.c\<close>: SUBSCRIBE, SUBACK, UNSUBSCRIBE and UNSUBACK of MQTT-SN.
\<close>

subsection \<open>SUBSCRIBE\<close>

definition MQTTSNSerialize_subscribeLength :: "MQTTSN_topicid \<Rightarrow> int option" where
  "MQTTSNSerialize_subscribeLength topicFilter =
     (if topic_type topicFilter = MQTTSN_TOPIC_TYPE_NORMAL
      then do { (_, l) \<leftarrow> data_long (topic_data topicFilter); Some (4 + l) }
      else if topic_type topicFilter = MQTTSN_TOPIC_TYPE_SHORT \<or> topic_type topicFilter = MQTTSN_TOPIC_TYPE_PREDEFINED
      then Some (4 + 2)
      else Some 4)"

text \<open>The topic filter at the end of SUBSCRIBE and UNSUBSCRIBE. A type the enumeration does not name
  writes nothing.\<close>

definition write_filter :: "wptr \<Rightarrow> MQTTSN_topicid \<Rightarrow> wptr option" where
  "write_filter w topicFilter =
     (if topic_type topicFilter = MQTTSN_TOPIC_TYPE_NORMAL
      then do { (name, l) \<leftarrow> data_long (topic_data topicFilter); write_mem w name l }
      else if topic_type topicFilter = MQTTSN_TOPIC_TYPE_PREDEFINED
      then do { i \<leftarrow> data_id (topic_data topicFilter); writeInt w (uint i) }
      else if topic_type topicFilter = MQTTSN_TOPIC_TYPE_SHORT
      then do {
        (c0, c1) \<leftarrow> data_short (topic_data topicFilter);
        w \<leftarrow> writeChar w c0;
        writeChar w c1 }
      else Some w)"

definition MQTTSNSerialize_subscribe ::
  "buffer \<Rightarrow> int \<Rightarrow> byte \<Rightarrow> int \<Rightarrow> u16 \<Rightarrow> MQTTSN_topicid \<Rightarrow> (buffer \<times> int) option" where
  "MQTTSNSerialize_subscribe buf buflen dup qos packetid topicFilter = do {
     n \<leftarrow> MQTTSNSerialize_subscribeLength topicFilter;
     let len = MQTTSNPacket_len n;
     if len > buflen then Some (buf, MQTTSNPACKET_BUFFER_TOO_SHORT)
     else do {
       w \<leftarrow> sn_write_len (buf, 0) len;
       w \<leftarrow> writeChar w (sn_code MQTTSN_SUBSCRIBE);
       let flags = set_snflags_dup dup 0;
       let flags = set_snflags_QoS (word_of_int qos) flags;
       let flags = set_snflags_topicIdType (topicType_code (topic_type topicFilter)) flags;
       w \<leftarrow> writeChar w flags;
       w \<leftarrow> writeInt w (uint packetid);
       (buf, ptr) \<leftarrow> write_filter w topicFilter;
       Some (buf, int ptr) } }"

text \<open>Reading the filter: a long name is what is left of the packet.\<close>

definition read_filter :: "rptr \<Rightarrow> int \<Rightarrow> MQTTSN_topicid \<Rightarrow> MQTTSN_topicid option" where
  "read_filter curdata enddata topicFilter =
     (if topic_type topicFilter = MQTTSN_TOPIC_TYPE_NORMAL
      then Some (topicFilter\<lparr>topic_data := Topic_long (Some (snd curdata)) (enddata - fst curdata)\<rparr>)
      else if topic_type topicFilter = MQTTSN_TOPIC_TYPE_PREDEFINED
      then do { (i, curdata) \<leftarrow> readInt curdata; Some (topicFilter\<lparr>topic_data := Topic_id (word_of_int i)\<rparr>) }
      else if topic_type topicFilter = MQTTSN_TOPIC_TYPE_SHORT
      then do {
        (c0, curdata) \<leftarrow> readChar curdata;
        (c1, curdata) \<leftarrow> readChar curdata;
        Some (topicFilter\<lparr>topic_data := Topic_short c0 c1\<rparr>) }
      else Some topicFilter)"

record snsubscribe_out =
  sns_dup :: byte
  sns_qos :: int
  sns_packetid :: u16
  sns_topicFilter :: MQTTSN_topicid

definition MQTTSNDeserialize_subscribe :: "snsubscribe_out \<Rightarrow> buffer \<Rightarrow> int \<Rightarrow> (int \<times> snsubscribe_out) option" where
  "MQTTSNDeserialize_subscribe out buf buflen = do {
     (_, curdata, enddata) \<leftarrow> sn_begin (Some 0) buf buflen;
     if enddata - fst curdata > buflen then Some (0, out)
     else do {
       (c, curdata) \<leftarrow> readChar curdata;
       if c \<noteq> sn_code MQTTSN_SUBSCRIBE then Some (0, out)
       else do {
         (flags, curdata) \<leftarrow> readChar curdata;
         (packetid, curdata) \<leftarrow> readInt curdata;
         topicFilter \<leftarrow> read_filter curdata enddata
           ((sns_topicFilter out)\<lparr>topic_type := topicType_of (snflags_topicIdType flags)\<rparr>);
         Some (1, \<lparr>sns_dup = word_of_int (snflags_dup flags), sns_qos = uint (snflags_QoS flags),
                   sns_packetid = word_of_int packetid, sns_topicFilter = topicFilter\<rparr>) } } }"

subsection \<open>SUBACK\<close>

definition MQTTSNSerialize_suback :: "buffer \<Rightarrow> int \<Rightarrow> int \<Rightarrow> u16 \<Rightarrow> u16 \<Rightarrow> byte \<Rightarrow> (buffer \<times> int) option" where
  "MQTTSNSerialize_suback buf buflen qos topicid packetid returncode =
     (let len = MQTTSNPacket_len 7
      in if len > buflen then Some (buf, MQTTSNPACKET_BUFFER_TOO_SHORT)
         else do {
           w \<leftarrow> sn_write_len (buf, 0) len;
           w \<leftarrow> writeChar w (sn_code MQTTSN_SUBACK);
           let flags = set_snflags_QoS (word_of_int qos) 0;
           w \<leftarrow> writeChar w flags;
           w \<leftarrow> writeInt w (uint topicid);
           w \<leftarrow> writeInt w (uint packetid);
           (buf, ptr) \<leftarrow> writeChar w returncode;
           Some (buf, int ptr) })"

record snsuback_out =
  snsa_qos :: int
  snsa_topicid :: u16
  snsa_packetid :: u16
  snsa_returncode :: byte

definition MQTTSNDeserialize_suback :: "snsuback_out \<Rightarrow> buffer \<Rightarrow> int \<Rightarrow> (int \<times> snsuback_out) option" where
  "MQTTSNDeserialize_suback out buf buflen = do {
     (_, curdata, enddata) \<leftarrow> sn_begin (Some 0) buf buflen;
     if enddata - fst curdata > buflen then Some (0, out)
     else do {
       (c, curdata) \<leftarrow> readChar curdata;
       if c \<noteq> sn_code MQTTSN_SUBACK then Some (0, out)
       else do {
         (flags, curdata) \<leftarrow> readChar curdata;
         (topicid, curdata) \<leftarrow> readInt curdata;
         (packetid, curdata) \<leftarrow> readInt curdata;
         (returncode, curdata) \<leftarrow> readChar curdata;
         Some (1, \<lparr>snsa_qos = uint (snflags_QoS flags), snsa_topicid = word_of_int topicid,
                   snsa_packetid = word_of_int packetid, snsa_returncode = returncode\<rparr>) } } }"

subsection \<open>UNSUBSCRIBE and UNSUBACK\<close>

definition MQTTSNSerialize_unsubscribeLength :: "MQTTSN_topicid \<Rightarrow> int option" where
  "MQTTSNSerialize_unsubscribeLength topicFilter =
     (if topic_type topicFilter = MQTTSN_TOPIC_TYPE_NORMAL
      then do { (_, l) \<leftarrow> data_long (topic_data topicFilter); Some (4 + l) }
      else if topic_type topicFilter = MQTTSN_TOPIC_TYPE_SHORT \<or> topic_type topicFilter = MQTTSN_TOPIC_TYPE_PREDEFINED
      then Some (4 + 2)
      else Some 4)"

definition MQTTSNSerialize_unsubscribe :: "buffer \<Rightarrow> int \<Rightarrow> u16 \<Rightarrow> MQTTSN_topicid \<Rightarrow> (buffer \<times> int) option" where
  "MQTTSNSerialize_unsubscribe buf buflen packetid topicFilter = do {
     n \<leftarrow> MQTTSNSerialize_unsubscribeLength topicFilter;
     let len = MQTTSNPacket_len n;
     if len > buflen then Some (buf, MQTTSNPACKET_BUFFER_TOO_SHORT)
     else do {
       w \<leftarrow> sn_write_len (buf, 0) len;
       w \<leftarrow> writeChar w (sn_code MQTTSN_UNSUBSCRIBE);
       let flags = set_snflags_topicIdType (topicType_code (topic_type topicFilter)) 0;
       w \<leftarrow> writeChar w flags;
       w \<leftarrow> writeInt w (uint packetid);
       (buf, ptr) \<leftarrow> write_filter w topicFilter;
       Some (buf, int ptr) } }"

record snunsubscribe_out =
  snu_packetid :: u16
  snu_topicFilter :: MQTTSN_topicid

definition MQTTSNDeserialize_unsubscribe :: "snunsubscribe_out \<Rightarrow> buffer \<Rightarrow> int \<Rightarrow> (int \<times> snunsubscribe_out) option" where
  "MQTTSNDeserialize_unsubscribe out buf buflen = do {
     (_, curdata, enddata) \<leftarrow> sn_begin (Some 0) buf buflen;
     if enddata - fst curdata > buflen then Some (0, out)
     else do {
       (c, curdata) \<leftarrow> readChar curdata;
       if c \<noteq> sn_code MQTTSN_UNSUBSCRIBE then Some (0, out)
       else do {
         (flags, curdata) \<leftarrow> readChar curdata;
         (packetid, curdata) \<leftarrow> readInt curdata;
         topicFilter \<leftarrow> read_filter curdata enddata
           ((snu_topicFilter out)\<lparr>topic_type := topicType_of (snflags_topicIdType flags)\<rparr>);
         Some (1, \<lparr>snu_packetid = word_of_int packetid, snu_topicFilter = topicFilter\<rparr>) } } }"

definition MQTTSNSerialize_unsuback :: "buffer \<Rightarrow> int \<Rightarrow> u16 \<Rightarrow> (buffer \<times> int) option" where
  "MQTTSNSerialize_unsuback buf buflen packetid =
     (let len = MQTTSNPacket_len 3
      in if len > buflen then Some (buf, MQTTSNPACKET_BUFFER_TOO_SHORT)
         else do {
           w \<leftarrow> sn_write_len (buf, 0) len;
           w \<leftarrow> writeChar w (sn_code MQTTSN_UNSUBACK);
           (buf, ptr) \<leftarrow> writeInt w (uint packetid);
           Some (buf, int ptr) })"

definition MQTTSNDeserialize_unsuback :: "u16 \<Rightarrow> buffer \<Rightarrow> int \<Rightarrow> (int \<times> u16) option" where
  "MQTTSNDeserialize_unsuback packetid buf buflen = do {
     (_, curdata, enddata) \<leftarrow> sn_begin (Some 0) buf buflen;
     if enddata - fst curdata > buflen then Some (0, packetid)
     else do {
       (c, curdata) \<leftarrow> readChar curdata;
       if c \<noteq> sn_code MQTTSN_UNSUBACK then Some (0, packetid)
       else do { (i, curdata) \<leftarrow> readInt curdata; Some (1, word_of_int i) } } }"

subsection \<open>Filters on the wire\<close>

text \<open>A filter in the form its type calls for: a name, a predefined identifier or a short name.\<close>

definition filter_ok :: "MQTTSN_topicid \<Rightarrow> bool" where
  "filter_ok f \<longleftrightarrow>
     (case topic_data f of
        Topic_long name l \<Rightarrow> topic_type f = MQTTSN_TOPIC_TYPE_NORMAL \<and> cptr_holds name l
      | Topic_id i \<Rightarrow> topic_type f = MQTTSN_TOPIC_TYPE_PREDEFINED
      | Topic_short a b \<Rightarrow> topic_type f = MQTTSN_TOPIC_TYPE_SHORT)"

fun filter_bytes :: "topic_union \<Rightarrow> byte list" where
  "filter_bytes (Topic_long name l) = cptr_bytes name l"
| "filter_bytes (Topic_id i) = be16 (uint i)"
| "filter_bytes (Topic_short a b) = [a, b]"

lemma filter_ok_cases:
  assumes "filter_ok f"
  obtains (long_name) name l where "topic_data f = Topic_long name l" "topic_type f = MQTTSN_TOPIC_TYPE_NORMAL" "cptr_holds name l"
  | (ident) i where "topic_data f = Topic_id i" "topic_type f = MQTTSN_TOPIC_TYPE_PREDEFINED"
  | (short_name) a b where "topic_data f = Topic_short a b" "topic_type f = MQTTSN_TOPIC_TYPE_SHORT"
  using assms by (cases "topic_data f") (auto simp: filter_ok_def)

lemma write_filter_emit [emit_simps]:
  "filter_ok f \<Longrightarrow> Option.bind (emit buf out) (\<lambda>w. Option.bind (write_filter w f) k) =
     Option.bind (emit buf (out @ filter_bytes (topic_data f))) k"
  by (cases rule: filter_ok_cases) (auto simp: write_filter_def emit_simps)

lemma filter_lengths:
  assumes "filter_ok f"
  shows "MQTTSNSerialize_subscribeLength f = Some (4 + int (length (filter_bytes (topic_data f))))"
    and "MQTTSNSerialize_unsubscribeLength f = Some (4 + int (length (filter_bytes (topic_data f))))"
  using assms by (cases rule: filter_ok_cases;
      simp add: MQTTSNSerialize_subscribeLength_def MQTTSNSerialize_unsubscribeLength_def length_cptr_bytes)+

lemma read_filter_bytes [read_simps]:
  assumes "filter_ok f" "topic_type g = topic_type f" "enddata = p + int (length (filter_bytes (topic_data f)))"
  shows "\<exists>g'. read_filter (p, filter_bytes (topic_data f) @ rest) enddata g = Some g' \<and>
    topic_type g' = topic_type f \<and> topic_norm (topic_data g') = topic_norm (topic_data f)"
  using assms by (cases rule: filter_ok_cases) (auto simp: read_filter_def read_simps length_cptr_bytes)

fun snsubscribe_body :: "byte \<times> int \<times> u16 \<times> MQTTSN_topicid \<Rightarrow> byte list" where
  "snsubscribe_body (dup, qos, packetid, f) =
     18 # set_snflags_topicIdType (topicType_code (topic_type f)) (set_snflags_QoS (word_of_int qos) (set_snflags_dup dup 0)) #
       be16 (uint packetid) @ filter_bytes (topic_data f)"

fun snsubscribe_ok :: "byte \<times> int \<times> u16 \<times> MQTTSN_topicid \<Rightarrow> bool" where
  "snsubscribe_ok (dup, qos, packetid, f) \<longleftrightarrow>
     0 \<le> qos \<and> qos \<le> 3 \<and> filter_ok f \<and> frame_ok (snsubscribe_body (dup, qos, packetid, f))"

fun snsubscribe_val :: "byte \<times> int \<times> u16 \<times> MQTTSN_topicid \<Rightarrow> byte \<times> int \<times> u16 \<times> MQTTSN_topicTypes \<times> topic_union" where
  "snsubscribe_val (dup, qos, packetid, f) =
     (if even dup then 0 else 255, qos, packetid, topic_type f, topic_norm (topic_data f))"

definition snsubscribe_view :: "snsubscribe_out \<Rightarrow> byte \<times> int \<times> u16 \<times> MQTTSN_topicTypes \<times> topic_union" where
  "snsubscribe_view out =
     (sns_dup out, sns_qos out, sns_packetid out, topic_type (sns_topicFilter out), topic_norm (topic_data (sns_topicFilter out)))"

interpretation snsubscribe: sn_codec
  "\<lambda>buf buflen (dup, qos, packetid, f). MQTTSNSerialize_subscribe buf buflen dup qos packetid f"
  snsubscribe_body snsubscribe_ok MQTTSNDeserialize_subscribe snsubscribe_view snsubscribe_val
proof unfold_locales
  fix a :: "byte \<times> int \<times> u16 \<times> MQTTSN_topicid" and buf buflen
  assume ok: "snsubscribe_ok a"
  obtain dup qos packetid f where a: "a = (dup, qos, packetid, f)"
    by (cases a)
  have "MQTTSNSerialize_subscribeLength f = Some (int (length (snsubscribe_body a)))"
    using ok by (simp add: a filter_lengths)
  then show "(case a of (dup, qos, packetid, f) \<Rightarrow> MQTTSNSerialize_subscribe buf buflen dup qos packetid f) =
     (if MQTTSNPacket_len (int (length (snsubscribe_body a))) > buflen then Some (buf, - 2)
      else emit_rc buf (sn_frame (snsubscribe_body a)))"
    using ok unfolding sn_frame_def
    by (simp add: a MQTTSNSerialize_subscribe_def emit_simps)
next
  fix a :: "byte \<times> int \<times> u16 \<times> MQTTSN_topicid"
  show "snsubscribe_ok a \<Longrightarrow> frame_ok (snsubscribe_body a)"
    by (cases a) simp
next
  fix a :: "byte \<times> int \<times> u16 \<times> MQTTSN_topicid" and n and out :: snsubscribe_out and rest
  assume ok: "snsubscribe_ok a" and n: "int (length (sn_frame (snsubscribe_body a))) \<le> n"
  obtain dup qos packetid f where a: "a = (dup, qos, packetid, f)"
    by (cases a)
  have f: "frame_ok (snsubscribe_body a)"
    using ok by (simp add: a)
  have le: "int (length (snsubscribe_body a)) \<le> n"
    using n sn_frame_start [OF f, of n] sn_lenlen_bounds(1) [of "snsubscribe_body a"] by simp
  let ?p = "4 + sn_lenlen (snsubscribe_body a)"
  obtain g where g: "read_filter (?p, filter_bytes (topic_data f) @ rest)
      (sn_lenlen (snsubscribe_body a) + int (length (snsubscribe_body a)))
      ((sns_topicFilter out)\<lparr>topic_type := topic_type f\<rparr>) = Some g"
    "topic_type g = topic_type f" "topic_norm (topic_data g) = topic_norm (topic_data f)"
    using ok read_filter_bytes [of f "(sns_topicFilter out)\<lparr>topic_type := topic_type f\<rparr>"
        "sn_lenlen (snsubscribe_body a) + int (length (snsubscribe_body a))" ?p rest] by (auto simp: a)
  show "\<exists>out'. MQTTSNDeserialize_subscribe out (sn_frame (snsubscribe_body a) @ rest) n = Some (1, out') \<and>
      snsubscribe_view out' = snsubscribe_val a"
    unfolding MQTTSNDeserialize_subscribe_def sn_begin_frame [OF f n]
    using le ok g by (simp add: a read_simps snflags_defs field_simps uint_take_bit_word_of_int snsubscribe_view_def
        even_iff_mod_2_eq_zero)
qed


fun snunsubscribe_body :: "u16 \<times> MQTTSN_topicid \<Rightarrow> byte list" where
  "snunsubscribe_body (packetid, f) =
     20 # set_snflags_topicIdType (topicType_code (topic_type f)) 0 # be16 (uint packetid) @ filter_bytes (topic_data f)"

fun snunsubscribe_ok :: "u16 \<times> MQTTSN_topicid \<Rightarrow> bool" where
  "snunsubscribe_ok (packetid, f) \<longleftrightarrow> filter_ok f \<and> frame_ok (snunsubscribe_body (packetid, f))"

fun snunsubscribe_val :: "u16 \<times> MQTTSN_topicid \<Rightarrow> u16 \<times> MQTTSN_topicTypes \<times> topic_union" where
  "snunsubscribe_val (packetid, f) = (packetid, topic_type f, topic_norm (topic_data f))"

definition snunsubscribe_view :: "snunsubscribe_out \<Rightarrow> u16 \<times> MQTTSN_topicTypes \<times> topic_union" where
  "snunsubscribe_view out =
     (snu_packetid out, topic_type (snu_topicFilter out), topic_norm (topic_data (snu_topicFilter out)))"

interpretation snunsubscribe: sn_codec
  "\<lambda>buf buflen (packetid, f). MQTTSNSerialize_unsubscribe buf buflen packetid f"
  snunsubscribe_body snunsubscribe_ok MQTTSNDeserialize_unsubscribe snunsubscribe_view snunsubscribe_val
proof unfold_locales
  fix a :: "u16 \<times> MQTTSN_topicid" and buf buflen
  assume ok: "snunsubscribe_ok a"
  obtain packetid f where a: "a = (packetid, f)"
    by (cases a)
  have "MQTTSNSerialize_unsubscribeLength f = Some (int (length (snunsubscribe_body a)))"
    using ok by (simp add: a filter_lengths)
  then show "(case a of (packetid, f) \<Rightarrow> MQTTSNSerialize_unsubscribe buf buflen packetid f) =
     (if MQTTSNPacket_len (int (length (snunsubscribe_body a))) > buflen then Some (buf, - 2)
      else emit_rc buf (sn_frame (snunsubscribe_body a)))"
    using ok unfolding sn_frame_def
    by (simp add: a MQTTSNSerialize_unsubscribe_def emit_simps)
next
  fix a :: "u16 \<times> MQTTSN_topicid"
  show "snunsubscribe_ok a \<Longrightarrow> frame_ok (snunsubscribe_body a)"
    by (cases a) simp
next
  fix a :: "u16 \<times> MQTTSN_topicid" and n and out :: snunsubscribe_out and rest
  assume ok: "snunsubscribe_ok a" and n: "int (length (sn_frame (snunsubscribe_body a))) \<le> n"
  obtain packetid f where a: "a = (packetid, f)"
    by (cases a)
  have f: "frame_ok (snunsubscribe_body a)"
    using ok by (simp add: a)
  have le: "int (length (snunsubscribe_body a)) \<le> n"
    using n sn_frame_start [OF f, of n] sn_lenlen_bounds(1) [of "snunsubscribe_body a"] by simp
  let ?p = "4 + sn_lenlen (snunsubscribe_body a)"
  obtain g where g: "read_filter (?p, filter_bytes (topic_data f) @ rest)
      (sn_lenlen (snunsubscribe_body a) + int (length (snunsubscribe_body a)))
      ((snu_topicFilter out)\<lparr>topic_type := topic_type f\<rparr>) = Some g"
    "topic_type g = topic_type f" "topic_norm (topic_data g) = topic_norm (topic_data f)"
    using ok read_filter_bytes [of f "(snu_topicFilter out)\<lparr>topic_type := topic_type f\<rparr>"
        "sn_lenlen (snunsubscribe_body a) + int (length (snunsubscribe_body a))" ?p rest] by (auto simp: a)
  show "\<exists>out'. MQTTSNDeserialize_unsubscribe out (sn_frame (snunsubscribe_body a) @ rest) n = Some (1, out') \<and>
      snunsubscribe_view out' = snunsubscribe_val a"
    unfolding MQTTSNDeserialize_unsubscribe_def sn_begin_frame [OF f n]
    using le ok g by (simp add: a read_simps snflags_defs field_simps snunsubscribe_view_def)
qed

fun snsuback_body :: "int \<times> u16 \<times> u16 \<times> byte \<Rightarrow> byte list" where
  "snsuback_body (qos, topicid, packetid, returncode) =
     19 # set_snflags_QoS (word_of_int qos) 0 # be16 (uint topicid) @ be16 (uint packetid) @ [returncode]"

definition snsuback_view :: "snsuback_out \<Rightarrow> int \<times> u16 \<times> u16 \<times> byte" where
  "snsuback_view out = (snsa_qos out, snsa_topicid out, snsa_packetid out, snsa_returncode out)"

lemma frame_ok_snsuback: "frame_ok (snsuback_body a)"
  by (cases a) (simp add: frame_ok_def)

lemma len_snsuback: "int (length (snsuback_body a)) = 7"
  by (cases a) simp

interpretation snsuback: sn_codec
  "\<lambda>buf buflen (qos, topicid, packetid, returncode). MQTTSNSerialize_suback buf buflen qos topicid packetid returncode"
  snsuback_body "\<lambda>a. 0 \<le> fst a \<and> fst a \<le> 3" MQTTSNDeserialize_suback snsuback_view id
proof unfold_locales
  fix a :: "int \<times> u16 \<times> u16 \<times> byte" and buf buflen
  show "(case a of (qos, topicid, packetid, returncode) \<Rightarrow> MQTTSNSerialize_suback buf buflen qos topicid packetid returncode) =
     (if MQTTSNPacket_len (int (length (snsuback_body a))) > buflen then Some (buf, - 2)
      else emit_rc buf (sn_frame (snsuback_body a)))"
    unfolding sn_frame_def len_snsuback by (cases a) (simp add: MQTTSNSerialize_suback_def emit_simps)
next
  fix a :: "int \<times> u16 \<times> u16 \<times> byte" and n and out :: snsuback_out and rest
  assume ok: "0 \<le> fst a \<and> fst a \<le> 3" and n: "int (length (sn_frame (snsuback_body a))) \<le> n"
  then have "7 \<le> n"
    by (simp add: sn_frame_def len_snsuback)
  then show "\<exists>out'. MQTTSNDeserialize_suback out (sn_frame (snsuback_body a) @ rest) n = Some (1, out') \<and>
      snsuback_view out' = id a"
    unfolding MQTTSNDeserialize_suback_def sn_begin_frame [OF frame_ok_snsuback n]
    using ok by (cases a) (simp add: read_simps snsuback_view_def snflags_defs field_simps uint_take_bit_word_of_int)
qed (rule frame_ok_snsuback)

definition snunsuback_body :: "u16 \<Rightarrow> byte list" where
  "snunsuback_body packetid = 21 # be16 (uint packetid)"

lemma frame_ok_snunsuback: "frame_ok (snunsuback_body a)"
  by (simp add: frame_ok_def snunsuback_body_def)

lemma len_snunsuback: "int (length (snunsuback_body a)) = 3"
  by (simp add: snunsuback_body_def)

interpretation snunsuback: sn_codec MQTTSNSerialize_unsuback snunsuback_body "\<lambda>_. True" MQTTSNDeserialize_unsuback id id
proof unfold_locales
  fix a :: u16 and buf buflen
  show "MQTTSNSerialize_unsuback buf buflen a =
     (if MQTTSNPacket_len (int (length (snunsuback_body a))) > buflen then Some (buf, - 2)
      else emit_rc buf (sn_frame (snunsuback_body a)))"
    unfolding sn_frame_def len_snunsuback by (simp add: MQTTSNSerialize_unsuback_def emit_simps snunsuback_body_def)
next
  fix a :: u16 and n and out :: u16 and rest
  assume n: "int (length (sn_frame (snunsuback_body a))) \<le> n"
  then have "3 \<le> n"
    by (simp add: sn_frame_def len_snunsuback)
  then show "\<exists>out'. MQTTSNDeserialize_unsuback out (sn_frame (snunsuback_body a) @ rest) n = Some (1, out') \<and> id out' = id a"
    unfolding MQTTSNDeserialize_unsuback_def sn_begin_frame [OF frame_ok_snunsuback n]
    by (simp add: snunsuback_body_def read_simps)
qed (rule frame_ok_snunsuback)

subsection \<open>Properties\<close>

text \<open>Subscribing and unsubscribing in MQTT-SN. What the client writes (SUBSCRIBE and UNSUBSCRIBE with a filter that is a name, a
  predefined identifier or a short name) the gateway reads back with QoS, packet identifier and filter, and the acknowledgement the
  gateway writes (SUBACK, UNSUBACK) the client reads back with the granted QoS, the topic identifier, the packet identifier and the
  return code.\<close>

theorem sn_subscription_round_trip:
  assumes "snsubscribe_ok (dup, qos, packetid, f)" "snunsubscribe_ok (packetid, f)" "0 \<le> granted" "granted \<le> 3"
    and "MQTTSNSerialize_subscribe buf1 n1 dup qos packetid f = Some (buf1', rc1)" "rc1 \<noteq> - 2"
    and "MQTTSNSerialize_suback buf2 n2 granted topicid packetid code = Some (buf2', rc2)" "rc2 \<noteq> - 2"
    and "MQTTSNSerialize_unsubscribe buf3 n3 packetid f = Some (buf3', rc3)" "rc3 \<noteq> - 2"
    and "MQTTSNSerialize_unsuback buf4 n4 packetid = Some (buf4', rc4)" "rc4 \<noteq> - 2"
  shows "(\<exists>out'. MQTTSNDeserialize_subscribe outs buf1' rc1 = Some (1, out') \<and> sns_dup out' = (if even dup then 0 else 255) \<and>
      sns_qos out' = qos \<and> sns_packetid out' = packetid \<and> topic_type (sns_topicFilter out') = topic_type f \<and>
      topic_norm (topic_data (sns_topicFilter out')) = topic_norm (topic_data f)) \<and>
    MQTTSNDeserialize_suback outa buf2' rc2 = Some (1, \<lparr>snsa_qos = granted, snsa_topicid = topicid,
      snsa_packetid = packetid, snsa_returncode = code\<rparr>) \<and>
    (\<exists>out'. MQTTSNDeserialize_unsubscribe outu buf3' rc3 = Some (1, out') \<and>
      snu_packetid out' = packetid \<and> topic_type (snu_topicFilter out') = topic_type f \<and>
      topic_norm (topic_data (snu_topicFilter out')) = topic_norm (topic_data f)) \<and>
    MQTTSNDeserialize_unsuback pid buf4' rc4 = Some (1, packetid)"
proof (intro conjI)
  show "\<exists>out'. MQTTSNDeserialize_subscribe outs buf1' rc1 = Some (1, out') \<and> sns_dup out' = (if even dup then 0 else 255) \<and>
      sns_qos out' = qos \<and> sns_packetid out' = packetid \<and> topic_type (sns_topicFilter out') = topic_type f \<and>
      topic_norm (topic_data (sns_topicFilter out')) = topic_norm (topic_data f)"
    using snsubscribe.round_trip [OF assms(1), of buf1 n1 buf1' rc1 rc1 outs] assms(5,6) by (auto simp: snsubscribe_view_def)
  obtain out' where o: "MQTTSNDeserialize_suback outa buf2' rc2 = Some (1, out')"
    "snsuback_view out' = (granted, topicid, packetid, code)"
    using snsuback.round_trip [where a = "(granted, topicid, packetid, code)" and buf = buf2 and buflen = n2 and buf' = buf2'
        and rc = rc2 and n = rc2 and out = outa] assms(3,4,7,8) by auto
  then show "MQTTSNDeserialize_suback outa buf2' rc2 = Some (1, \<lparr>snsa_qos = granted, snsa_topicid = topicid,
      snsa_packetid = packetid, snsa_returncode = code\<rparr>)"
    by (cases out') (simp add: snsuback_view_def)
  show "\<exists>out'. MQTTSNDeserialize_unsubscribe outu buf3' rc3 = Some (1, out') \<and>
      snu_packetid out' = packetid \<and> topic_type (snu_topicFilter out') = topic_type f \<and>
      topic_norm (topic_data (snu_topicFilter out')) = topic_norm (topic_data f)"
    using snunsubscribe.round_trip [OF assms(2), of buf3 n3 buf3' rc3 rc3 outu] assms(9,10) by (auto simp: snunsubscribe_view_def)
  show "MQTTSNDeserialize_unsuback pid buf4' rc4 = Some (1, packetid)"
    using snunsuback.round_trip [where a = packetid and buf = buf4 and buflen = n4 and buf' = buf4'
        and rc = rc4 and n = rc4 and out = pid] assms(11,12) by auto
qed

theorem sn_subscription_round_trip_witness:
  "\<exists>out'. MQTTSNDeserialize_subscribe
      \<lparr>sns_dup = 0, sns_qos = 0, sns_packetid = 0, sns_topicFilter = \<lparr>topic_type = MQTTSN_TOPIC_TYPE_3, topic_data = Topic_id 0\<rparr>\<rparr>
      [7, 18, 32, 0, 9, 97, 98, 0] 7 = Some (1, out') \<and>
    sns_qos out' = 1 \<and> topic_norm (topic_data (sns_topicFilter out')) = Topic_long (Some [97, 98]) 2"
proof -
  let ?f = "\<lparr>topic_type = MQTTSN_TOPIC_TYPE_NORMAL, topic_data = Topic_long (Some [97, 98]) 2\<rparr>"
  have ok: "snsubscribe_ok (0, 1, 9, ?f)" "snunsubscribe_ok (9, ?f)"
    by (simp_all add: filter_ok_def cptr_holds_def cptr_bytes_def frame_ok_def)
  have s: "MQTTSNSerialize_subscribe (replicate 8 0) 8 0 1 9 ?f = Some ([7, 18, 32, 0, 9, 97, 98, 0], 7)"
    "MQTTSNSerialize_suback (replicate 8 0) 8 1 5 9 0 = Some ([8, 19, 32, 0, 5, 0, 9, 0], 8)"
    "MQTTSNSerialize_unsubscribe (replicate 8 0) 8 9 ?f = Some ([7, 20, 0, 0, 9, 97, 98, 0], 7)"
    "MQTTSNSerialize_unsuback (replicate 4 0) 4 9 = Some ([4, 21, 0, 9], 4)"
    by code_simp+
  show ?thesis
    using sn_subscription_round_trip [OF ok _ _ s(1) _ s(2) _ s(3) _ s(4),
        where outs = "\<lparr>sns_dup = 0, sns_qos = 0, sns_packetid = 0, sns_topicFilter = \<lparr>topic_type = MQTTSN_TOPIC_TYPE_3, topic_data = Topic_id 0\<rparr>\<rparr>"
        and outa = "\<lparr>snsa_qos = 0, snsa_topicid = 0, snsa_packetid = 0, snsa_returncode = 0\<rparr>"
        and outu = "\<lparr>snu_packetid = 0, snu_topicFilter = \<lparr>topic_type = MQTTSN_TOPIC_TYPE_3, topic_data = Topic_id 0\<rparr>\<rparr>" and pid = 0]
    by (auto simp: cptr_bytes_def)
qed


end
