(* ===== verification/MQTTSN_Connect.thy ===== *)
theory MQTTSN_Connect
  imports MQTTSN_Packet
begin

text \<open>
  \<^verbatim>\<open>MQTTSNConnectClient.c\<close> and \<^verbatim>\<open>MQTTSNConnectServer.c\<close>: CONNECT, CONNACK, DISCONNECT, PINGREQ,
  PINGRESP and the will messages of MQTT-SN, serialisers and deserialisers of both sides. The
  deserialisers declare \<open>mylen\<close> with or without an initial value; \<open>sn_begin\<close> is called with
  \<open>Some 0\<close> or \<open>None\<close> accordingly.
\<close>

subsection \<open>CONNECT\<close>

record MQTTSNPacket_connectData =
  snc_struct_id :: "byte list"
  snc_struct_version :: int
  snc_clientID :: MQTTSNString
  snc_duration :: u16
  snc_cleansession :: byte
  snc_willFlag :: byte

definition MQTTSNPacket_connectData_initializer :: MQTTSNPacket_connectData where
  "MQTTSNPacket_connectData_initializer =
     \<lparr>snc_struct_id = [77, 81, 83, 67], snc_struct_version = 0, snc_clientID = MQTTSNString_initializer,
      snc_duration = 10, snc_cleansession = 1, snc_willFlag = 0\<rparr>"

definition MQTTSNSerialize_connectLength :: "MQTTSNPacket_connectData \<Rightarrow> int" where
  "MQTTSNSerialize_connectLength options = 5 + MQTTSNstrlen (snc_clientID options)"

definition MQTTSNSerialize_connect :: "buffer \<Rightarrow> int \<Rightarrow> MQTTSNPacket_connectData \<Rightarrow> (buffer \<times> int) option" where
  "MQTTSNSerialize_connect buf buflen options =
     (let len = MQTTSNPacket_len (MQTTSNSerialize_connectLength options)
      in if len > buflen then Some (buf, MQTTSNPACKET_BUFFER_TOO_SHORT)
         else do {
           w \<leftarrow> sn_write_len (buf, 0) len;
           w \<leftarrow> writeChar w (sn_code MQTTSN_CONNECT);
           let flags = set_snflags_cleanSession (snc_cleansession options) 0;
           let flags = set_snflags_will (snc_willFlag options) flags;
           w \<leftarrow> writeChar w flags;
           w \<leftarrow> writeChar w 1;
           w \<leftarrow> writeInt w (uint (snc_duration options));
           (buf, ptr) \<leftarrow> writeMQTTSNString w (snc_clientID options);
           Some (buf, int ptr) })"

definition MQTTSNDeserialize_connect ::
  "MQTTSNPacket_connectData \<Rightarrow> buffer \<Rightarrow> int \<Rightarrow> (int \<times> MQTTSNPacket_connectData) option" where
  "MQTTSNDeserialize_connect data buf len = do {
     (_, curdata, enddata) \<leftarrow> sn_begin (Some 0) buf len;
     if enddata - fst curdata < 2 then Some (0, data)
     else do {
       (c, curdata) \<leftarrow> readChar curdata;
       if c \<noteq> sn_code MQTTSN_CONNECT then Some (0, data)
       else do {
         (flags, curdata) \<leftarrow> readChar curdata;
         let data = data\<lparr>snc_cleansession := snflags_cleanSession flags, snc_willFlag := snflags_will flags\<rparr>;
         (version, curdata) \<leftarrow> readChar curdata;
         if version \<noteq> 1 then Some (0, data)
         else do {
           (duration, curdata) \<leftarrow> readInt curdata;
           let data = data\<lparr>snc_duration := word_of_int duration\<rparr>;
           let (rd, clientID, curdata) = readMQTTSNString (snc_clientID data) curdata enddata;
           let data = data\<lparr>snc_clientID := clientID\<rparr>;
           if rd = 0 then Some (0, data) else Some (1, data) } } } }"

subsection \<open>CONNACK\<close>

definition MQTTSNSerialize_connack :: "buffer \<Rightarrow> int \<Rightarrow> int \<Rightarrow> (buffer \<times> int) option" where
  "MQTTSNSerialize_connack buf buflen connack_rc =
     (if buflen < 3 then Some (buf, MQTTSNPACKET_BUFFER_TOO_SHORT)
      else do {
        w \<leftarrow> sn_write_len (buf, 0) 3;
        w \<leftarrow> writeChar w (sn_code MQTTSN_CONNACK);
        (buf, ptr) \<leftarrow> writeChar w (word_of_int connack_rc);
        Some (buf, int ptr) })"

text \<open>\<open>rc\<close> is the number of length bytes until it is set to 1: the early exits return it.\<close>

definition MQTTSNDeserialize_connack :: "char_abi \<Rightarrow> int \<Rightarrow> buffer \<Rightarrow> int \<Rightarrow> (int \<times> int) option" where
  "MQTTSNDeserialize_connack abi connack_rc buf buflen = do {
     (rc, curdata, enddata) \<leftarrow> sn_begin None buf buflen;
     if enddata < 3 then Some (rc, connack_rc)
     else do {
       (c, curdata) \<leftarrow> readChar curdata;
       if c \<noteq> sn_code MQTTSN_CONNACK then Some (rc, connack_rc)
       else do { (c, curdata) \<leftarrow> readChar curdata; Some (1, char_int abi c) } } }"

subsection \<open>DISCONNECT\<close>

definition MQTTSNSerialize_disconnectLength :: "int \<Rightarrow> int" where
  "MQTTSNSerialize_disconnectLength duration = (if duration > 0 then 3 else 1)"

definition MQTTSNSerialize_disconnect :: "buffer \<Rightarrow> int \<Rightarrow> int \<Rightarrow> (buffer \<times> int) option" where
  "MQTTSNSerialize_disconnect buf buflen duration =
     (let len = MQTTSNPacket_len (MQTTSNSerialize_disconnectLength duration)
      in if len > buflen then Some (buf, MQTTSNPACKET_BUFFER_TOO_SHORT)
         else do {
           w \<leftarrow> sn_write_len (buf, 0) len;
           w \<leftarrow> writeChar w (sn_code MQTTSN_DISCONNECT);
           (buf, ptr) \<leftarrow> (if duration > 0 then writeInt w duration else Some w);
           Some (buf, int ptr) })"

definition MQTTSNDeserialize_disconnect :: "int \<Rightarrow> buffer \<Rightarrow> int \<Rightarrow> (int \<times> int) option" where
  "MQTTSNDeserialize_disconnect duration buf buflen = do {
     (_, curdata, enddata) \<leftarrow> sn_begin None buf buflen;
     if enddata - fst curdata < 1 then Some (- 1, duration)
     else do {
       (c, curdata) \<leftarrow> readChar curdata;
       if c \<noteq> sn_code MQTTSN_DISCONNECT then Some (- 1, duration)
       else if enddata - fst curdata = 2
         then do { (i, curdata) \<leftarrow> readInt curdata; Some (1, i) }
       else if enddata \<noteq> fst curdata then Some (- 1, duration)
       else Some (1, duration) } }"

subsection \<open>PINGREQ and PINGRESP\<close>

definition MQTTSNSerialize_pingreq :: "buffer \<Rightarrow> int \<Rightarrow> MQTTSNString \<Rightarrow> (buffer \<times> int) option" where
  "MQTTSNSerialize_pingreq buf buflen clientid =
     (let len = MQTTSNPacket_len (MQTTSNstrlen clientid + 1)
      in if len > buflen then Some (buf, MQTTSNPACKET_BUFFER_TOO_SHORT)
         else do {
           w \<leftarrow> sn_write_len (buf, 0) len;
           w \<leftarrow> writeChar w (sn_code MQTTSN_PINGREQ);
           (buf, ptr) \<leftarrow> writeMQTTSNString w clientid;
           Some (buf, int ptr) })"

definition MQTTSNDeserialize_pingreq :: "MQTTSNString \<Rightarrow> buffer \<Rightarrow> int \<Rightarrow> (int \<times> MQTTSNString) option" where
  "MQTTSNDeserialize_pingreq clientID buf len = do {
     (_, curdata, enddata) \<leftarrow> sn_begin (Some 0) buf len;
     if enddata - fst curdata < 1 then Some (0, clientID)
     else do {
       (c, curdata) \<leftarrow> readChar curdata;
       if c \<noteq> sn_code MQTTSN_PINGREQ then Some (0, clientID)
       else do {
         let (rd, clientID, curdata) = readMQTTSNString clientID curdata enddata;
         if rd = 0 then Some (0, clientID) else Some (1, clientID) } } }"

definition MQTTSNSerialize_pingresp :: "buffer \<Rightarrow> int \<Rightarrow> (buffer \<times> int) option" where
  "MQTTSNSerialize_pingresp buf buflen =
     (if buflen < 2 then Some (buf, MQTTSNPACKET_BUFFER_TOO_SHORT)
      else do {
        w \<leftarrow> sn_write_len (buf, 0) 2;
        (buf, ptr) \<leftarrow> writeChar w (sn_code MQTTSN_PINGRESP);
        Some (buf, int ptr) })"

definition MQTTSNDeserialize_pingresp :: "buffer \<Rightarrow> int \<Rightarrow> int option" where
  "MQTTSNDeserialize_pingresp buf buflen = do {
     (_, curdata, enddata) \<leftarrow> sn_begin None buf buflen;
     if enddata - fst curdata < 1 then Some 0
     else do {
       (c, curdata) \<leftarrow> readChar curdata;
       if c \<noteq> sn_code MQTTSN_PINGRESP then Some 0 else Some 1 } }"

subsection \<open>Will topic and will message\<close>

definition MQTTSNSerialize_willtopic1 ::
  "buffer \<Rightarrow> int \<Rightarrow> int \<Rightarrow> byte \<Rightarrow> MQTTSNString \<Rightarrow> MQTTSN_msgTypes \<Rightarrow> (buffer \<times> int) option" where
  "MQTTSNSerialize_willtopic1 buf buflen willQoS willRetain willTopic packet_type =
     (let len = MQTTSNPacket_len (MQTTSNstrlen willTopic + 2)
      in if len > buflen then Some (buf, MQTTSNPACKET_BUFFER_TOO_SHORT)
         else do {
           w \<leftarrow> sn_write_len (buf, 0) len;
           w \<leftarrow> writeChar w (sn_code packet_type);
           let flags = set_snflags_QoS (word_of_int willQoS) 0;
           let flags = set_snflags_retain willRetain flags;
           w \<leftarrow> writeChar w flags;
           (buf, ptr) \<leftarrow> writeMQTTSNString w willTopic;
           Some (buf, int ptr) })"

definition MQTTSNSerialize_willtopicupd ::
  "buffer \<Rightarrow> int \<Rightarrow> int \<Rightarrow> byte \<Rightarrow> MQTTSNString \<Rightarrow> (buffer \<times> int) option" where
  "MQTTSNSerialize_willtopicupd buf buflen willQoS willRetain willTopic =
     MQTTSNSerialize_willtopic1 buf buflen willQoS willRetain willTopic MQTTSN_WILLTOPICUPD"

definition MQTTSNSerialize_willtopic ::
  "buffer \<Rightarrow> int \<Rightarrow> int \<Rightarrow> byte \<Rightarrow> MQTTSNString \<Rightarrow> (buffer \<times> int) option" where
  "MQTTSNSerialize_willtopic buf buflen willQoS willRetain willTopic =
     MQTTSNSerialize_willtopic1 buf buflen willQoS willRetain willTopic MQTTSN_WILLTOPIC"

definition MQTTSNSerialize_willmsg1 ::
  "buffer \<Rightarrow> int \<Rightarrow> MQTTSNString \<Rightarrow> MQTTSN_msgTypes \<Rightarrow> (buffer \<times> int) option" where
  "MQTTSNSerialize_willmsg1 buf buflen willMsg packet_type =
     (let len = MQTTSNPacket_len (MQTTSNstrlen willMsg + 1)
      in if len > buflen then Some (buf, MQTTSNPACKET_BUFFER_TOO_SHORT)
         else do {
           w \<leftarrow> sn_write_len (buf, 0) len;
           w \<leftarrow> writeChar w (sn_code packet_type);
           (buf, ptr) \<leftarrow> writeMQTTSNString w willMsg;
           Some (buf, int ptr) })"

definition MQTTSNSerialize_willmsg :: "buffer \<Rightarrow> int \<Rightarrow> MQTTSNString \<Rightarrow> (buffer \<times> int) option" where
  "MQTTSNSerialize_willmsg buf buflen willMsg = MQTTSNSerialize_willmsg1 buf buflen willMsg MQTTSN_WILLMSG"

definition MQTTSNSerialize_willmsgupd :: "buffer \<Rightarrow> int \<Rightarrow> MQTTSNString \<Rightarrow> (buffer \<times> int) option" where
  "MQTTSNSerialize_willmsgupd buf buflen willMsg = MQTTSNSerialize_willmsg1 buf buflen willMsg MQTTSN_WILLMSGUPD"

record willtopic_out =
  will_QoS :: int
  will_Retain :: byte
  will_Topic :: MQTTSNString

definition MQTTSNDeserialize_willtopic1 ::
  "MQTTSN_msgTypes \<Rightarrow> willtopic_out \<Rightarrow> buffer \<Rightarrow> int \<Rightarrow> (int \<times> willtopic_out) option" where
  "MQTTSNDeserialize_willtopic1 packet_type out buf len = do {
     (_, curdata, enddata) \<leftarrow> sn_begin (Some 0) buf len;
     if enddata > len then Some (0, out)
     else do {
       (c, curdata) \<leftarrow> readChar curdata;
       if c \<noteq> sn_code packet_type then Some (0, out)
       else do {
         (flags, curdata) \<leftarrow> readChar curdata;
         let (rd, willTopic, curdata) = readMQTTSNString (will_Topic out) curdata enddata;
         let out = \<lparr>will_QoS = uint (snflags_QoS flags), will_Retain = snflags_retain flags, will_Topic = willTopic\<rparr>;
         if rd = 0 then Some (0, out) else Some (1, out) } } }"

definition MQTTSNDeserialize_willtopic :: "willtopic_out \<Rightarrow> buffer \<Rightarrow> int \<Rightarrow> (int \<times> willtopic_out) option" where
  "MQTTSNDeserialize_willtopic out buf len = MQTTSNDeserialize_willtopic1 MQTTSN_WILLTOPIC out buf len"

definition MQTTSNDeserialize_willtopicupd :: "willtopic_out \<Rightarrow> buffer \<Rightarrow> int \<Rightarrow> (int \<times> willtopic_out) option" where
  "MQTTSNDeserialize_willtopicupd out buf len = MQTTSNDeserialize_willtopic1 MQTTSN_WILLTOPICUPD out buf len"

definition MQTTSNDeserialize_willmsg1 ::
  "MQTTSN_msgTypes \<Rightarrow> MQTTSNString \<Rightarrow> buffer \<Rightarrow> int \<Rightarrow> (int \<times> MQTTSNString) option" where
  "MQTTSNDeserialize_willmsg1 packet_type willMsg buf len = do {
     (_, curdata, enddata) \<leftarrow> sn_begin (Some 0) buf len;
     if enddata > len then Some (0, willMsg)
     else do {
       (c, curdata) \<leftarrow> readChar curdata;
       if c \<noteq> sn_code packet_type then Some (0, willMsg)
       else do {
         let (rd, willMsg, curdata) = readMQTTSNString willMsg curdata enddata;
         if rd = 0 then Some (0, willMsg) else Some (1, willMsg) } } }"

definition MQTTSNDeserialize_willmsg :: "MQTTSNString \<Rightarrow> buffer \<Rightarrow> int \<Rightarrow> (int \<times> MQTTSNString) option" where
  "MQTTSNDeserialize_willmsg willMsg buf len = MQTTSNDeserialize_willmsg1 MQTTSN_WILLMSG willMsg buf len"

definition MQTTSNDeserialize_willmsgupd :: "MQTTSNString \<Rightarrow> buffer \<Rightarrow> int \<Rightarrow> (int \<times> MQTTSNString) option" where
  "MQTTSNDeserialize_willmsgupd willMsg buf len = MQTTSNDeserialize_willmsg1 MQTTSN_WILLMSGUPD willMsg buf len"

subsection \<open>Requests and responses for the will\<close>

definition MQTTSNSerialize_willtopicreq :: "buffer \<Rightarrow> int \<Rightarrow> (buffer \<times> int) option" where
  "MQTTSNSerialize_willtopicreq buf buflen =
     (if buflen < 2 then Some (buf, MQTTSNPACKET_BUFFER_TOO_SHORT)
      else do {
        w \<leftarrow> sn_write_len (buf, 0) 2;
        (buf, ptr) \<leftarrow> writeChar w (sn_code MQTTSN_WILLTOPICREQ);
        Some (buf, int ptr) })"

definition MQTTSNSerialize_willmsgreq :: "buffer \<Rightarrow> int \<Rightarrow> (buffer \<times> int) option" where
  "MQTTSNSerialize_willmsgreq buf buflen =
     (if buflen < 2 then Some (buf, MQTTSNPACKET_BUFFER_TOO_SHORT)
      else do {
        w \<leftarrow> sn_write_len (buf, 0) 2;
        (buf, ptr) \<leftarrow> writeChar w (sn_code MQTTSN_WILLMSGREQ);
        Some (buf, int ptr) })"

text \<open>These two take \<open>curdata\<close> to be behind one length byte, and refuse any other length field.\<close>

definition MQTTSNDeserialize_willtopicreq :: "buffer \<Rightarrow> int \<Rightarrow> int option" where
  "MQTTSNDeserialize_willtopicreq buf buflen = do {
     (rc, mylen) \<leftarrow> MQTTSNPacket_decode buf buflen None;
     let curdata = ptr_add (0, buf) 1;
     if rc \<noteq> 1 then Some (- 1)
     else do {
       mylen \<leftarrow> mylen;
       if mylen > buflen then Some MQTTSNPACKET_BUFFER_TOO_SHORT
       else if mylen - fst curdata < 1 then Some (- 1)
       else do {
         (c, curdata) \<leftarrow> readChar curdata;
         if c \<noteq> sn_code MQTTSN_WILLTOPICREQ then Some (- 1) else Some 1 } } }"

definition MQTTSNDeserialize_willmsgreq :: "buffer \<Rightarrow> int \<Rightarrow> int option" where
  "MQTTSNDeserialize_willmsgreq buf buflen = do {
     (rc, mylen) \<leftarrow> MQTTSNPacket_decode buf buflen None;
     let curdata = ptr_add (0, buf) 1;
     if rc \<noteq> 1 then Some (- 1)
     else do {
       mylen \<leftarrow> mylen;
       if mylen > buflen then Some MQTTSNPACKET_BUFFER_TOO_SHORT
       else if mylen - fst curdata < 1 then Some (- 1)
       else do {
         (c, curdata) \<leftarrow> readChar curdata;
         if c \<noteq> sn_code MQTTSN_WILLMSGREQ then Some (- 1) else Some 1 } } }"

definition MQTTSNSerialize_willtopicresp :: "buffer \<Rightarrow> int \<Rightarrow> int \<Rightarrow> (buffer \<times> int) option" where
  "MQTTSNSerialize_willtopicresp buf buflen resp_rc =
     (if buflen < 3 then Some (buf, MQTTSNPACKET_BUFFER_TOO_SHORT)
      else do {
        w \<leftarrow> sn_write_len (buf, 0) 3;
        w \<leftarrow> writeChar w (sn_code MQTTSN_WILLTOPICRESP);
        (buf, ptr) \<leftarrow> writeChar w (word_of_int resp_rc);
        Some (buf, int ptr) })"

definition MQTTSNSerialize_willmsgresp :: "buffer \<Rightarrow> int \<Rightarrow> int \<Rightarrow> (buffer \<times> int) option" where
  "MQTTSNSerialize_willmsgresp buf buflen resp_rc =
     (if buflen < 3 then Some (buf, MQTTSNPACKET_BUFFER_TOO_SHORT)
      else do {
        w \<leftarrow> sn_write_len (buf, 0) 3;
        w \<leftarrow> writeChar w (sn_code MQTTSN_WILLMSGRESP);
        (buf, ptr) \<leftarrow> writeChar w (word_of_int resp_rc);
        Some (buf, int ptr) })"

definition MQTTSNDeserialize_willtopicresp :: "char_abi \<Rightarrow> int \<Rightarrow> buffer \<Rightarrow> int \<Rightarrow> (int \<times> int) option" where
  "MQTTSNDeserialize_willtopicresp abi resp_rc buf buflen = do {
     (_, curdata, enddata) \<leftarrow> sn_begin None buf buflen;
     if enddata < 3 then Some (0, resp_rc)
     else do {
       (c, curdata) \<leftarrow> readChar curdata;
       if c \<noteq> sn_code MQTTSN_WILLTOPICRESP then Some (0, resp_rc)
       else do { (c, curdata) \<leftarrow> readChar curdata; Some (1, char_int abi c) } } }"

definition MQTTSNDeserialize_willmsgresp :: "char_abi \<Rightarrow> int \<Rightarrow> buffer \<Rightarrow> int \<Rightarrow> (int \<times> int) option" where
  "MQTTSNDeserialize_willmsgresp abi resp_rc buf buflen = do {
     (_, curdata, enddata) \<leftarrow> sn_begin None buf buflen;
     if enddata < 3 then Some (0, resp_rc)
     else do {
       (c, curdata) \<leftarrow> readChar curdata;
       if c \<noteq> sn_code MQTTSN_WILLMSGRESP then Some (0, resp_rc)
       else do { (c, curdata) \<leftarrow> readChar curdata; Some (1, char_int abi c) } } }"

subsection \<open>Bodies\<close>

definition connect_snflags :: "MQTTSNPacket_connectData \<Rightarrow> byte" where
  "connect_snflags options =
     set_snflags_will (snc_willFlag options) (set_snflags_cleanSession (snc_cleansession options) 0)"

definition snconnect_body :: "MQTTSNPacket_connectData \<Rightarrow> byte list" where
  "snconnect_body options =
     4 # connect_snflags options # 1 # be16 (uint (snc_duration options)) @ MQTTSNString_bytes (snc_clientID options)"

definition snconnect_ok :: "MQTTSNPacket_connectData \<Rightarrow> bool" where
  "snconnect_ok options \<longleftrightarrow> MQTTSNString_ok (snc_clientID options) \<and> frame_ok (snconnect_body options)"

definition snconnect_view :: "MQTTSNPacket_connectData \<Rightarrow> byte \<times> byte \<times> u16 \<times> byte list" where
  "snconnect_view data =
     (snc_cleansession data, snc_willFlag data, snc_duration data, MQTTSNString_bytes (snc_clientID data))"

definition snconnect_val :: "MQTTSNPacket_connectData \<Rightarrow> byte \<times> byte \<times> u16 \<times> byte list" where
  "snconnect_val data =
     (take_bit 1 (snc_cleansession data), take_bit 1 (snc_willFlag data), snc_duration data,
      MQTTSNString_bytes (snc_clientID data))"

lemma connect_snflags_fields [field_simps]:
  "snflags_cleanSession (connect_snflags options) = take_bit 1 (snc_cleansession options)"
  "snflags_will (connect_snflags options) = take_bit 1 (snc_willFlag options)"
  by (simp_all add: connect_snflags_def snflags_defs field_simps)

interpretation snconnect: sn_codec MQTTSNSerialize_connect snconnect_body snconnect_ok
  MQTTSNDeserialize_connect snconnect_view snconnect_val
proof unfold_locales
  fix a buf buflen
  assume ok: "snconnect_ok a"
  then have "MQTTSNSerialize_connectLength a = int (length (snconnect_body a))"
    by (simp add: MQTTSNSerialize_connectLength_def snconnect_body_def snconnect_ok_def MQTTSNstrlen_ok)
  then show "MQTTSNSerialize_connect buf buflen a =
      (if MQTTSNPacket_len (int (length (snconnect_body a))) > buflen then Some (buf, - 2)
       else emit_rc buf (sn_frame (snconnect_body a)))"
    using ok by (simp add: MQTTSNSerialize_connect_def snconnect_ok_def emit_simps sn_frame_def Let_def)
       (simp add: snconnect_body_def connect_snflags_def)
next
  fix a n out rest
  assume ok: "snconnect_ok a" and n: "int (length (sn_frame (snconnect_body a))) \<le> n"
  have f: "frame_ok (snconnect_body a)"
    using ok by (simp add: snconnect_ok_def)
  show "\<exists>out'. MQTTSNDeserialize_connect out (sn_frame (snconnect_body a) @ rest) n = Some (1, out') \<and>
      snconnect_view out' = snconnect_val a"
    unfolding MQTTSNDeserialize_connect_def sn_begin_frame [OF f n]
    by (simp add: snconnect_body_def read_simps field_simps snconnect_view_def snconnect_val_def)
qed (simp add: snconnect_ok_def)


text \<open>Return codes: two bytes after the length.\<close>

definition code_body :: "MQTTSN_msgTypes \<Rightarrow> int \<Rightarrow> byte list" where
  "code_body t c = [sn_code t, word_of_int c]"

lemma frame_ok_code [simp]: "frame_ok (code_body t c)"
  by (simp add: frame_ok_def code_body_def)

lemma len_code [simp]: "MQTTSNPacket_len (int (length (code_body t c))) = 3"
  by (simp add: MQTTSNPacket_len_def code_body_def)

lemma sn_frame_code: "sn_frame (code_body t c) = sn_len_field 3 @ [sn_code t, word_of_int c]"
  by (simp add: sn_frame_def, simp add: code_body_def)

text \<open>A return code that is a \<open>char\<close> of the ABI comes back as it was.\<close>

definition char_range :: "char_abi \<Rightarrow> int \<Rightarrow> bool" where
  "char_range abi c \<longleftrightarrow> (case abi of Signed_Char \<Rightarrow> - 128 \<le> c \<and> c < 128 | Unsigned_Char \<Rightarrow> 0 \<le> c \<and> c < 256)"

lemma char_int_of_int: "char_range abi c \<Longrightarrow> char_int abi (word_of_int c) = c"
proof (cases abi)
  case Signed_Char
  assume "char_range abi c"
  then show ?thesis
    using Signed_Char by (simp add: char_range_def signed_of_int signed_take_bit_int_eq_self)
next
  case Unsigned_Char
  assume "char_range abi c"
  then show ?thesis
    using Unsigned_Char by (simp add: char_range_def uint_word_of_int)
qed


text \<open>The three messages that carry a return code.\<close>

interpretation snconnack: sn_codec MQTTSNSerialize_connack "code_body MQTTSN_CONNACK" "char_range abi"
  "MQTTSNDeserialize_connack abi" id id
  for abi
proof unfold_locales
  fix c n out rest
  assume c: "char_range abi c" and n: "int (length (sn_frame (code_body MQTTSN_CONNACK c))) \<le> n"
  show "\<exists>out'. MQTTSNDeserialize_connack abi out (sn_frame (code_body MQTTSN_CONNACK c) @ rest) n = Some (1, out') \<and>
      id out' = id c"
    unfolding MQTTSNDeserialize_connack_def sn_begin_frame [OF frame_ok_code n]
    using c by (simp add: code_body_def sn_lenlen_def char_int_of_int read_simps)
qed (simp_all add: MQTTSNSerialize_connack_def emit_simps sn_frame_code)

interpretation willtopicresp: sn_codec MQTTSNSerialize_willtopicresp "code_body MQTTSN_WILLTOPICRESP" "char_range abi"
  "MQTTSNDeserialize_willtopicresp abi" id id
  for abi
proof unfold_locales
  fix c n out rest
  assume c: "char_range abi c" and n: "int (length (sn_frame (code_body MQTTSN_WILLTOPICRESP c))) \<le> n"
  show "\<exists>out'. MQTTSNDeserialize_willtopicresp abi out (sn_frame (code_body MQTTSN_WILLTOPICRESP c) @ rest) n =
      Some (1, out') \<and> id out' = id c"
    unfolding MQTTSNDeserialize_willtopicresp_def sn_begin_frame [OF frame_ok_code n]
    using c by (simp add: code_body_def sn_lenlen_def char_int_of_int read_simps)
qed (simp_all add: MQTTSNSerialize_willtopicresp_def emit_simps sn_frame_code)

interpretation willmsgresp: sn_codec MQTTSNSerialize_willmsgresp "code_body MQTTSN_WILLMSGRESP" "char_range abi"
  "MQTTSNDeserialize_willmsgresp abi" id id
  for abi
proof unfold_locales
  fix c n out rest
  assume c: "char_range abi c" and n: "int (length (sn_frame (code_body MQTTSN_WILLMSGRESP c))) \<le> n"
  show "\<exists>out'. MQTTSNDeserialize_willmsgresp abi out (sn_frame (code_body MQTTSN_WILLMSGRESP c) @ rest) n =
      Some (1, out') \<and> id out' = id c"
    unfolding MQTTSNDeserialize_willmsgresp_def sn_begin_frame [OF frame_ok_code n]
    using c by (simp add: code_body_def sn_lenlen_def char_int_of_int read_simps)
qed (simp_all add: MQTTSNSerialize_willmsgresp_def emit_simps sn_frame_code)

text \<open>DISCONNECT: no duration leaves the out-parameter as it is.\<close>

definition disconnect_body :: "int \<Rightarrow> byte list" where
  "disconnect_body duration = 24 # (if duration > 0 then be16 duration else [])"

lemma frame_ok_disconnect: "frame_ok (disconnect_body duration)"
  by (simp add: frame_ok_def disconnect_body_def)

lemma MQTTSNSerialize_disconnect_eq:
  "MQTTSNSerialize_disconnect buf buflen duration =
     (if MQTTSNPacket_len (int (length (disconnect_body duration))) > buflen then Some (buf, - 2)
      else emit_rc buf (sn_frame (disconnect_body duration)))"
proof -
  have "MQTTSNSerialize_disconnectLength duration = int (length (disconnect_body duration))"
    by (simp add: MQTTSNSerialize_disconnectLength_def disconnect_body_def)
  then show ?thesis
    by (simp add: MQTTSNSerialize_disconnect_def emit_simps sn_frame_def Let_def)
       (simp add: disconnect_body_def emit_simps)
qed

interpretation sndisconnect: sn_codec MQTTSNSerialize_disconnect disconnect_body "\<lambda>d. 0 < d \<and> d < 65536"
  MQTTSNDeserialize_disconnect id id
proof unfold_locales
  fix d n and out :: int and rest
  assume d: "0 < d \<and> d < 65536" and n: "int (length (sn_frame (disconnect_body d))) \<le> n"
  show "\<exists>out'. MQTTSNDeserialize_disconnect out (sn_frame (disconnect_body d) @ rest) n = Some (1, out') \<and> id out' = id d"
    unfolding MQTTSNDeserialize_disconnect_def sn_begin_frame [OF frame_ok_disconnect n]
    using d by (simp add: disconnect_body_def sn_lenlen_def read_simps)
qed (simp_all add: MQTTSNSerialize_disconnect_eq frame_ok_disconnect)

lemma disconnect_without_duration:
  assumes "int (length (sn_frame (disconnect_body d))) \<le> n" "d \<le> 0"
  shows "MQTTSNDeserialize_disconnect out (sn_frame (disconnect_body d) @ rest) n = Some (1, out)"
  unfolding MQTTSNDeserialize_disconnect_def sn_begin_frame [OF frame_ok_disconnect assms(1)]
  using assms(2) by (simp add: disconnect_body_def sn_lenlen_def read_simps)

text \<open>Messages that are a string behind the message type: PINGREQ, WILLMSG, WILLMSGUPD.\<close>

definition string_body :: "MQTTSN_msgTypes \<Rightarrow> MQTTSNString \<Rightarrow> byte list" where
  "string_body t s = sn_code t # MQTTSNString_bytes s"

definition string_ok :: "MQTTSN_msgTypes \<Rightarrow> MQTTSNString \<Rightarrow> bool" where
  "string_ok t s \<longleftrightarrow> MQTTSNString_ok s \<and> frame_ok (string_body t s)"

lemma len_string_body: "MQTTSNString_ok s \<Longrightarrow> int (length (string_body t s)) = MQTTSNstrlen s + 1"
  by (simp add: string_body_def MQTTSNstrlen_ok)

lemma string_ok_frame: "string_ok t s \<Longrightarrow> frame_ok (string_body t s)"
  by (simp add: string_ok_def)

interpretation pingreq: sn_codec MQTTSNSerialize_pingreq "string_body MQTTSN_PINGREQ" "string_ok MQTTSN_PINGREQ"
  MQTTSNDeserialize_pingreq MQTTSNString_bytes MQTTSNString_bytes
proof unfold_locales
  fix s buf buflen
  assume "string_ok MQTTSN_PINGREQ s"
  then show "MQTTSNSerialize_pingreq buf buflen s =
     (if MQTTSNPacket_len (int (length (string_body MQTTSN_PINGREQ s))) > buflen then Some (buf, - 2)
      else emit_rc buf (sn_frame (string_body MQTTSN_PINGREQ s)))"
    by (simp add: MQTTSNSerialize_pingreq_def string_ok_def len_string_body sn_frame_def emit_simps)
       (simp add: string_body_def)
next
  fix s n and out :: MQTTSNString and rest
  assume ok: "string_ok MQTTSN_PINGREQ s" and n: "int (length (sn_frame (string_body MQTTSN_PINGREQ s))) \<le> n"
  show "\<exists>out'. MQTTSNDeserialize_pingreq out (sn_frame (string_body MQTTSN_PINGREQ s) @ rest) n = Some (1, out') \<and>
      MQTTSNString_bytes out' = MQTTSNString_bytes s"
    unfolding MQTTSNDeserialize_pingreq_def sn_begin_frame [OF string_ok_frame [OF ok] n]
    by (simp add: string_body_def read_simps)
qed (simp_all add: string_ok_def)

interpretation willmsg: sn_codec "\<lambda>buf buflen s. MQTTSNSerialize_willmsg1 buf buflen s t" "string_body t" "string_ok t"
  "MQTTSNDeserialize_willmsg1 t" MQTTSNString_bytes MQTTSNString_bytes
  for t
proof unfold_locales
  fix s buf buflen
  assume "string_ok t s"
  then show "MQTTSNSerialize_willmsg1 buf buflen s t =
     (if MQTTSNPacket_len (int (length (string_body t s))) > buflen then Some (buf, - 2)
      else emit_rc buf (sn_frame (string_body t s)))"
    by (simp add: MQTTSNSerialize_willmsg1_def string_ok_def len_string_body sn_frame_def emit_simps)
       (simp add: string_body_def)
next
  fix s n and out :: MQTTSNString and rest
  assume ok: "string_ok t s" and n: "int (length (sn_frame (string_body t s))) \<le> n"
  have "sn_lenlen (string_body t s) + int (length (string_body t s)) \<le> n"
    using n sn_frame_start [OF string_ok_frame [OF ok]] by simp
  then show "\<exists>out'. MQTTSNDeserialize_willmsg1 t out (sn_frame (string_body t s) @ rest) n = Some (1, out') \<and>
      MQTTSNString_bytes out' = MQTTSNString_bytes s"
    unfolding MQTTSNDeserialize_willmsg1_def sn_begin_frame [OF string_ok_frame [OF ok] n]
    by (simp add: string_body_def read_simps)
qed (simp_all add: string_ok_def)

text \<open>WILLTOPIC and WILLTOPICUPD.\<close>

definition willtopic_flags :: "int \<Rightarrow> byte \<Rightarrow> byte" where
  "willtopic_flags willQoS willRetain = set_snflags_retain willRetain (set_snflags_QoS (word_of_int willQoS) 0)"

fun willtopic_body :: "MQTTSN_msgTypes \<Rightarrow> int \<times> byte \<times> MQTTSNString \<Rightarrow> byte list" where
  "willtopic_body t (willQoS, willRetain, willTopic) =
     sn_code t # willtopic_flags willQoS willRetain # MQTTSNString_bytes willTopic"

fun willtopic_ok :: "MQTTSN_msgTypes \<Rightarrow> int \<times> byte \<times> MQTTSNString \<Rightarrow> bool" where
  "willtopic_ok t (willQoS, willRetain, willTopic) \<longleftrightarrow>
     0 \<le> willQoS \<and> willQoS \<le> 3 \<and> MQTTSNString_ok willTopic \<and>
     frame_ok (willtopic_body t (willQoS, willRetain, willTopic))"

fun willtopic_val :: "int \<times> byte \<times> MQTTSNString \<Rightarrow> int \<times> byte \<times> byte list" where
  "willtopic_val (willQoS, willRetain, willTopic) = (willQoS, take_bit 1 willRetain, MQTTSNString_bytes willTopic)"

definition willtopic_view :: "willtopic_out \<Rightarrow> int \<times> byte \<times> byte list" where
  "willtopic_view out = (will_QoS out, will_Retain out, MQTTSNString_bytes (will_Topic out))"

lemma willtopic_flags_fields [field_simps]:
  "0 \<le> q \<Longrightarrow> q \<le> 3 \<Longrightarrow> uint (snflags_QoS (willtopic_flags q r)) = q"
  "snflags_retain (willtopic_flags q r) = take_bit 1 r"
  by (simp_all add: willtopic_flags_def snflags_defs field_simps uint_take_bit_word_of_int)

interpretation willtopic: sn_codec
  "\<lambda>buf buflen (willQoS, willRetain, willTopic). MQTTSNSerialize_willtopic1 buf buflen willQoS willRetain willTopic t"
  "willtopic_body t" "willtopic_ok t" "MQTTSNDeserialize_willtopic1 t" willtopic_view willtopic_val
  for t
proof unfold_locales
  fix a :: "int \<times> byte \<times> MQTTSNString" and buf buflen
  assume ok: "willtopic_ok t a"
  obtain q r s where a: "a = (q, r, s)"
    by (cases a)
  have "int (length (willtopic_body t a)) = MQTTSNstrlen s + 2"
    using ok by (simp add: a MQTTSNstrlen_ok)
  then show "(case a of (willQoS, willRetain, willTopic) \<Rightarrow>
       MQTTSNSerialize_willtopic1 buf buflen willQoS willRetain willTopic t) =
     (if MQTTSNPacket_len (int (length (willtopic_body t a))) > buflen then Some (buf, - 2)
      else emit_rc buf (sn_frame (willtopic_body t a)))"
    using ok by (simp add: a MQTTSNSerialize_willtopic1_def sn_frame_def emit_simps del: willtopic_body.simps)
       (simp add: willtopic_flags_def)
next
  fix a :: "int \<times> byte \<times> MQTTSNString" and n and out :: willtopic_out and rest
  assume ok: "willtopic_ok t a" and n: "int (length (sn_frame (willtopic_body t a))) \<le> n"
  obtain q r s where a: "a = (q, r, s)"
    by (cases a)
  have f: "frame_ok (willtopic_body t a)"
    using ok by (simp add: a)
  have "sn_lenlen (willtopic_body t a) + int (length (willtopic_body t a)) \<le> n"
    using n sn_frame_start [OF f] by simp
  then show "\<exists>out'. MQTTSNDeserialize_willtopic1 t out (sn_frame (willtopic_body t a) @ rest) n = Some (1, out') \<and>
      willtopic_view out' = willtopic_val a"
    unfolding MQTTSNDeserialize_willtopic1_def sn_begin_frame [OF f n]
    using ok by (simp add: a read_simps willtopic_view_def field_simps)
next
  fix a :: "int \<times> byte \<times> MQTTSNString"
  show "willtopic_ok t a \<Longrightarrow> frame_ok (willtopic_body t a)"
    by (cases a) simp
qed

text \<open>The messages without content. Their deserialisers have no result but the return code.\<close>

abbreviation no_content :: "(buffer \<Rightarrow> int \<Rightarrow> int option) \<Rightarrow> unit \<Rightarrow> buffer \<Rightarrow> int \<Rightarrow> (int \<times> unit) option" where
  "no_content f \<equiv> \<lambda>_ buf n. map_option (\<lambda>rc. (rc, ())) (f buf n)"

lemma frame_ok_single: "frame_ok [c]"
  by (simp add: frame_ok_def)

lemma len_single: "MQTTSNPacket_len (int (length [c])) = 2"
  by (simp add: MQTTSNPacket_len_def)

interpretation pingresp: sn_codec "\<lambda>buf buflen (u :: unit). MQTTSNSerialize_pingresp buf buflen" "\<lambda>_. [23]" "\<lambda>_. True"
  "no_content MQTTSNDeserialize_pingresp" id id
proof unfold_locales
  fix buf buflen
  show "MQTTSNSerialize_pingresp buf buflen =
     (if MQTTSNPacket_len (int (length [23 :: byte])) > buflen then Some (buf, - 2) else emit_rc buf (sn_frame [23]))"
    by (simp add: MQTTSNSerialize_pingresp_def emit_simps sn_frame_def MQTTSNPacket_len_def)
next
  fix n :: int and out :: unit and rest :: "byte list" and a :: unit
  assume n: "int (length (sn_frame [23])) \<le> n"
  show "\<exists>out'. no_content MQTTSNDeserialize_pingresp out (sn_frame [23] @ rest) n = Some (1, out') \<and> id out' = id a"
    unfolding MQTTSNDeserialize_pingresp_def sn_begin_frame [OF frame_ok_single n] by (simp add: read_simps)
qed (rule frame_ok_single)

lemma sn_frame_single: "sn_frame [c] = [2, c]"
  by (simp add: sn_frame_def sn_len_field_def MQTTSNPacket_len_def)

interpretation willtopicreq: sn_codec "\<lambda>buf buflen (u :: unit). MQTTSNSerialize_willtopicreq buf buflen" "\<lambda>_. [6]"
  "\<lambda>_. True" "no_content MQTTSNDeserialize_willtopicreq" id id
proof unfold_locales
  fix buf buflen
  show "MQTTSNSerialize_willtopicreq buf buflen =
     (if MQTTSNPacket_len (int (length [6 :: byte])) > buflen then Some (buf, - 2) else emit_rc buf (sn_frame [6]))"
    by (simp add: MQTTSNSerialize_willtopicreq_def emit_simps sn_frame_def MQTTSNPacket_len_def)
next
  fix n :: int and out :: unit and rest :: "byte list" and a :: unit
  assume n: "int (length (sn_frame [6])) \<le> n"
  then show "\<exists>out'. no_content MQTTSNDeserialize_willtopicreq out (sn_frame [6] @ rest) n = Some (1, out') \<and> id out' = id a"
    by (simp add: MQTTSNDeserialize_willtopicreq_def sn_frame_single MQTTSNPacket_decode_def readChar_def ptr_add_def)
qed (rule frame_ok_single)

interpretation willmsgreq: sn_codec "\<lambda>buf buflen (u :: unit). MQTTSNSerialize_willmsgreq buf buflen" "\<lambda>_. [8]"
  "\<lambda>_. True" "no_content MQTTSNDeserialize_willmsgreq" id id
proof unfold_locales
  fix buf buflen
  show "MQTTSNSerialize_willmsgreq buf buflen =
     (if MQTTSNPacket_len (int (length [8 :: byte])) > buflen then Some (buf, - 2) else emit_rc buf (sn_frame [8]))"
    by (simp add: MQTTSNSerialize_willmsgreq_def emit_simps sn_frame_def MQTTSNPacket_len_def)
next
  fix n :: int and out :: unit and rest :: "byte list" and a :: unit
  assume n: "int (length (sn_frame [8])) \<le> n"
  then show "\<exists>out'. no_content MQTTSNDeserialize_willmsgreq out (sn_frame [8] @ rest) n = Some (1, out') \<and> id out' = id a"
    by (simp add: MQTTSNDeserialize_willmsgreq_def sn_frame_single MQTTSNPacket_decode_def readChar_def ptr_add_def)
qed (rule frame_ok_single)


subsection \<open>Properties\<close>

text \<open>CONNECT of MQTT-SN from client to server: on a buffer of at least \<open>buflen\<close> bytes, a client identifier given by
  pointer and length, and a packet that is not the exceptional size, the serialiser stays inside the buffer and either asks for a larger one
  or writes a datagram that \<open>MQTTSNPacket_read_nb\<close> takes for a CONNECT and from which \<open>MQTTSNDeserialize_connect\<close> recovers the clean
  session and will flags, the duration and the client identifier.\<close>

theorem snconnect_round_trip:
  assumes "snconnect_ok options" "buflen \<le> int (length buf)"
  shows "\<exists>buf' rc. MQTTSNSerialize_connect buf buflen options = Some (buf', rc) \<and>
    (rc = - 2 \<and> buf' = buf \<and> buflen < MQTTSNPacket_len (MQTTSNSerialize_connectLength options) \<or>
     0 < rc \<and> rc \<le> buflen \<and> drop (nat rc) buf' = drop (nat rc) buf \<and>
     MQTTSNPacket_read_nb buf' rc = Some 4 \<and>
     (\<exists>data'. MQTTSNDeserialize_connect data buf' rc = Some (1, data') \<and>
       snc_cleansession data' = take_bit 1 (snc_cleansession options) \<and>
       snc_willFlag data' = take_bit 1 (snc_willFlag options) \<and> snc_duration data' = snc_duration options \<and>
       MQTTSNString_bytes (snc_clientID data') = MQTTSNString_bytes (snc_clientID options)))"
proof -
  obtain buf' rc where s: "MQTTSNSerialize_connect buf buflen options = Some (buf', rc)"
    and c: "rc = - 2 \<and> buf' = buf \<and> buflen < MQTTSNPacket_len (int (length (snconnect_body options))) \<or>
      0 \<le> rc \<and> rc \<le> buflen \<and> take (nat rc) buf' = sn_frame (snconnect_body options) \<and> drop (nat rc) buf' = drop (nat rc) buf"
    using snconnect.memory_safe [OF assms] by blast
  have l: "MQTTSNSerialize_connectLength options = int (length (snconnect_body options))"
    using assms(1) by (simp add: MQTTSNSerialize_connectLength_def snconnect_body_def snconnect_ok_def MQTTSNstrlen_ok)
  show ?thesis
  proof (cases "rc = - 2")
    case True
    then show ?thesis using s c l by auto
  next
    case False
    have "MQTTSNPacket_read_nb buf' rc = Some 4"
      using snconnect.sent_and_received [OF assms(1) s False] by (simp add: snconnect_body_def)
    moreover have "0 < rc"
      using c False by (cases "rc = 0") (auto simp: sn_frame_def snconnect_body_def)
    moreover obtain data' where "MQTTSNDeserialize_connect data buf' rc = Some (1, data')"
      "snconnect_view data' = snconnect_val options"
      using snconnect.round_trip [OF assms(1) s False order_refl, of data] by auto
    ultimately show ?thesis
      using s c False by (auto simp: snconnect_view_def snconnect_val_def)
  qed
qed

theorem snconnect_round_trip_witness:
  "\<exists>buf' rc. MQTTSNSerialize_connect (replicate 10 0) 10
      (MQTTSNPacket_connectData_initializer\<lparr>snc_clientID := MQTTSNString_l [97, 98]\<rparr>) = Some (buf', rc) \<and>
    MQTTSNPacket_read_nb buf' rc = Some 4 \<and>
    (\<exists>data'. MQTTSNDeserialize_connect MQTTSNPacket_connectData_initializer buf' rc = Some (1, data') \<and>
       MQTTSNString_bytes (snc_clientID data') = [97, 98])"
proof -
  let ?o = "MQTTSNPacket_connectData_initializer\<lparr>snc_clientID := MQTTSNString_l [97, 98]\<rparr>"
  have "snconnect_ok ?o"
    by (simp add: snconnect_ok_def snconnect_body_def frame_ok_def)
  moreover have "MQTTSNPacket_len (MQTTSNSerialize_connectLength ?o) = 8"
    by (simp add: MQTTSNSerialize_connectLength_def MQTTSNPacket_len_def MQTTSNstrlen_ok)
  ultimately show ?thesis
    using snconnect_round_trip [of ?o 10 "replicate 10 0" MQTTSNPacket_connectData_initializer] by fastforce
qed

text \<open>The will of an MQTT-SN client: WILLTOPIC, WILLTOPICUPD, WILLMSG and WILLMSGUPD as the client code writes them are read
  back by the server code with QoS, retain flag, topic and message as they were, and a deserialiser for another of these
  message types refuses them.\<close>

theorem will_round_trip:
  assumes "t = MQTTSN_WILLTOPIC \<or> t = MQTTSN_WILLTOPICUPD" "u = MQTTSN_WILLMSG \<or> u = MQTTSN_WILLMSGUPD"
    and "willtopic_ok t (willQoS, willRetain, willTopic)" "string_ok u willMsg"
    and "MQTTSNSerialize_willtopic1 buf1 n1 willQoS willRetain willTopic t = Some (buf1', rc1)" "rc1 \<noteq> - 2"
    and "MQTTSNSerialize_willmsg1 buf2 n2 willMsg u = Some (buf2', rc2)" "rc2 \<noteq> - 2"
  shows "(\<exists>out'. MQTTSNDeserialize_willtopic1 t out buf1' rc1 = Some (1, out') \<and>
      will_QoS out' = willQoS \<and> will_Retain out' = take_bit 1 willRetain \<and>
      MQTTSNString_bytes (will_Topic out') = MQTTSNString_bytes willTopic) \<and>
    (\<exists>msg'. MQTTSNDeserialize_willmsg1 u msg buf2' rc2 = Some (1, msg') \<and>
      MQTTSNString_bytes msg' = MQTTSNString_bytes willMsg) \<and>
    (\<forall>t'. sn_code t' \<noteq> sn_code t \<longrightarrow> MQTTSNDeserialize_willtopic1 t' out buf1' rc1 = Some (0, out))"
proof (intro conjI allI impI)
  have b: "buf1' = sn_frame (willtopic_body t (willQoS, willRetain, willTopic)) @
      drop (length (sn_frame (willtopic_body t (willQoS, willRetain, willTopic)))) buf1"
    "rc1 = int (length (sn_frame (willtopic_body t (willQoS, willRetain, willTopic))))"
    using willtopic.result_cases [OF assms(3), of buf1 n1] assms(5,6) by auto
  have f: "frame_ok (willtopic_body t (willQoS, willRetain, willTopic))"
    using assms(3) by simp
  show "\<exists>out'. MQTTSNDeserialize_willtopic1 t out buf1' rc1 = Some (1, out') \<and>
      will_QoS out' = willQoS \<and> will_Retain out' = take_bit 1 willRetain \<and>
      MQTTSNString_bytes (will_Topic out') = MQTTSNString_bytes willTopic"
    using willtopic.reads [OF assms(3), of rc1 out] b by (auto simp: willtopic_view_def)
  show "\<exists>msg'. MQTTSNDeserialize_willmsg1 u msg buf2' rc2 = Some (1, msg') \<and>
      MQTTSNString_bytes msg' = MQTTSNString_bytes willMsg"
    using willmsg.round_trip [OF assms(4,7,8) order_refl] .
  fix t'
  assume ne: "sn_code t' \<noteq> sn_code t"
  have "sn_lenlen (willtopic_body t (willQoS, willRetain, willTopic)) +
      int (length (willtopic_body t (willQoS, willRetain, willTopic))) \<le> rc1"
    using b(2) sn_frame_start [OF f] by simp
  then show "MQTTSNDeserialize_willtopic1 t' out buf1' rc1 = Some (0, out)"
    unfolding MQTTSNDeserialize_willtopic1_def b(1) using ne
    by (subst sn_begin_frame [OF f]) (simp_all add: b(2) read_simps)
qed

theorem will_round_trip_witness:
  "\<exists>out'. MQTTSNDeserialize_willtopic1 MQTTSN_WILLTOPIC
      \<lparr>will_QoS = 0, will_Retain = 0, will_Topic = MQTTSNString_initializer\<rparr> [5, 7, 48, 97, 98, 0] 5 = Some (1, out') \<and>
    will_QoS out' = 1 \<and> will_Retain out' = 1 \<and> MQTTSNString_bytes (will_Topic out') = [97, 98]"
proof -
  have t: "willtopic_ok MQTTSN_WILLTOPIC (1, 1, MQTTSNString_l [97, 98])" "string_ok MQTTSN_WILLMSG (MQTTSNString_l [99])"
    by (simp_all add: frame_ok_def string_ok_def string_body_def)
  have s: "MQTTSNSerialize_willtopic1 (replicate 6 0) 6 1 1 (MQTTSNString_l [97, 98]) MQTTSN_WILLTOPIC =
      Some ([5, 7, 48, 97, 98, 0], 5)"
    "MQTTSNSerialize_willmsg1 (replicate 6 0) 6 (MQTTSNString_l [99]) MQTTSN_WILLMSG = Some ([3, 9, 99, 0, 0, 0], 3)"
    by code_simp+
  show ?thesis
    using will_round_trip [OF _ _ t s(1) _ s(2), where msg = MQTTSNString_initializer
        and out = "\<lparr>will_QoS = 0, will_Retain = 0, will_Topic = MQTTSNString_initializer\<rparr>"] by simp
qed

text \<open>A C string as client identifier, the usual way to give it, makes a wrong packet: \<open>writeMQTTSNString\<close> writes two bytes more
  than \<open>MQTTSNstrlen\<close> counts. With a buffer of exactly the size that \<open>MQTTSNPacket_len\<close> asks for, CONNECT is written past its
  end; with a larger one, the datagram is two bytes longer than its length field says, so that the reader refuses it.\<close>

theorem snconnect_cstring_overruns:
  assumes "snc_clientID options = MQTTSNString_c s" "length s < 240"
    "int (length buf) = int (length s) + 6" "int (length buf2) = int (length s) + 8"
  shows "MQTTSNSerialize_connect buf (int (length buf)) options = None \<and>
    (\<exists>buf'. MQTTSNSerialize_connect buf2 (int (length buf2)) options = Some (buf', int (length s) + 8) \<and>
      MQTTSNPacket_read_nb buf' (int (length s) + 8) = Some (- 1))"
proof -
  let ?b = "4 # connect_snflags options # 1 # be16 (uint (snc_duration options)) @ lp_string s"
  have l: "MQTTSNPacket_len (MQTTSNSerialize_connectLength options) = int (length s) + 6"
    using assms(1,2) by (simp add: MQTTSNSerialize_connectLength_def MQTTSNPacket_len_def MQTTSNstrlen_def MQTTSNString_c_def)
  have e: "MQTTSNSerialize_connect b (int (length b)) options =
      emit_rc b (sn_len_field (int (length s) + 6) @ ?b)" if "int (length s) + 6 \<le> int (length b)" for b
    using that assms(1) by (simp add: MQTTSNSerialize_connect_def l emit_simps connect_snflags_def Let_def)
  have f: "sn_len_field (int (length s) + 6) = [word_of_int (int (length s) + 6)]"
    using assms(2) by (simp add: sn_len_field_def)
  have u: "uint (word_of_int (int (length s) + 6) :: byte) = int (length s) + 6"
    unfolding uint_word_of_int using assms(2) by simp
  have "(word_of_int (int (length s) + 6) :: byte) \<noteq> 1"
    by (intro notI) (drule arg_cong [where f = uint], simp only: u, simp)
  then have "MQTTSNPacket_read_nb ([word_of_int (int (length s) + 6)] @ ?b) (int (length s) + 8) = Some (- 1)"
    using u by (simp add: MQTTSNPacket_read_nb_def MQTTSNPacket_decode_def)
  with e [of buf] e [of buf2] f assms(3,4) show ?thesis
    by (auto simp: emit_rc_def)
qed

theorem snconnect_cstring_overruns_witness:
  "MQTTSNSerialize_connect (replicate 8 0) (int (length (replicate 8 (0 :: byte))))
     (MQTTSNPacket_connectData_initializer\<lparr>snc_clientID := MQTTSNString_c [97, 98]\<rparr>) = None"
  using snconnect_cstring_overruns [of "MQTTSNPacket_connectData_initializer\<lparr>snc_clientID := MQTTSNString_c [97, 98]\<rparr>" "[97, 98]"
      "replicate 8 0" "replicate 10 0"] by simp

text \<open>On a datagram whose length field cannot be read (an empty one, or one that ends inside a three-byte length
  field) the client's \<open>MQTTSNDeserialize_connack\<close>, \<open>MQTTSNDeserialize_pingresp\<close>, \<open>MQTTSNDeserialize_willtopicresp\<close> and \<open>MQTTSNDeserialize_willmsgresp\<close>
  and the server's \<open>MQTTSNDeserialize_disconnect\<close> compute with a local variable that was never set, and \<open>MQTTSNDeserialize_pingreq\<close> reads the
  byte in front of the buffer. \<open>MQTTSNDeserialize_connect\<close> refuses such a datagram.\<close>

theorem sn_uninitialised_length:
  assumes "buflen \<le> 0 \<or> (\<exists>rest. buf = 1 # rest \<and> buflen < 3)"
  shows "MQTTSNDeserialize_connack abi r buf buflen = None \<and> MQTTSNDeserialize_pingresp buf buflen = None \<and>
    MQTTSNDeserialize_willtopicresp abi r buf buflen = None \<and> MQTTSNDeserialize_willmsgresp abi r buf buflen = None \<and>
    MQTTSNDeserialize_disconnect d buf buflen = None \<and>
    MQTTSNDeserialize_pingreq s buf buflen = None \<and> MQTTSNDeserialize_connect data buf buflen = Some (0, data)"
proof -
  have "MQTTSNPacket_decode buf buflen v = Some (- 1, v)" for v
    using assms by (auto simp: MQTTSNPacket_decode_def)
  then have "sn_begin None buf buflen = None" "sn_begin (Some 0) buf buflen = Some (- 1, (- 1, []), 0)"
    by (simp_all add: sn_begin_def ptr_add_def)
  then show ?thesis
    by (simp add: MQTTSNDeserialize_connack_def MQTTSNDeserialize_pingresp_def MQTTSNDeserialize_willtopicresp_def
        MQTTSNDeserialize_willmsgresp_def MQTTSNDeserialize_disconnect_def MQTTSNDeserialize_connect_def
        MQTTSNDeserialize_pingreq_def)
qed

theorem sn_uninitialised_length_witness:
  "MQTTSNDeserialize_connack Signed_Char 7 [1, 0] 2 = None \<and> MQTTSNDeserialize_pingreq MQTTSNString_initializer [1, 0] 2 = None"
  using sn_uninitialised_length [of 2 "[1, 0]"] by simp


end
