(* ===== verification/MQTTSN_Cpp_Client.thy ===== *)
theory MQTTSN_Cpp_Client
  imports MQTT_Cpp_Safety MQTTSN_Subscribe MQTTSN_Connect
begin

text \<open>
  The C++ client for MQTT-SN, \<^verbatim>\<open>MQTTSNClient/src/MQTTSNClient.h\<close>: the class template \<open>MQTTSN::Client\<close>. Its methods are the functions
  with the prefix \<open>CppSN_\<close>. Network, timers and build options are those of the C++ client for MQTT; the header
  tests the symbols \<open>MQTTCLIENT_QOS1\<close> and \<open>MQTTCLIENT_QOS2\<close>, not the ones with the prefix \<open>MQTTSNCLIENT\<close> that it defines, and
  \<open>MAX_MQTT_PACKET_SIZE\<close> of the configuration is its parameter \<open>MAX_PACKET_SIZE\<close>.

  A handler does not have a copy of its topic but the address of an object of the application, which \<open>subscribe\<close> changes
  later; \<open>sc_topics\<close> is that memory. A topic is a union: reading a name where an identifier was stored is \<open>None\<close>, as in
  \<open>MQTTSN_Packet\<close>. The array \<open>registrations\<close> is never used and left out.
\<close>

subsection \<open>Data\<close>

abbreviation (input) MAX_SUBSCRIPTIONS_EXCEEDED :: int where "MAX_SUBSCRIPTIONS_EXCEEDED \<equiv> - 3"

record 'h SNMessageHandlers =
  snh_topicFilter :: "nat option"
  snh_fp :: "'h option"

record ('t, 'h) CppSNClient =
  sc_command_timeout_ms :: u32
  sc_sendbuf :: buffer
  sc_readbuf :: buffer
  sc_last_sent :: 't
  sc_last_received :: 't
  sc_duration :: u16
  sc_ping_outstanding :: bool
  sc_cleansession :: bool
  sc_packetid :: int
  sc_messageHandlers :: "'h SNMessageHandlers list"
  sc_defaultMessageHandler :: "'h option"
  sc_isconnected :: bool
  sc_pubbuf :: buffer
  sc_inflightLen :: int
  sc_inflightMsgid :: u16
  sc_inflightQoS :: int
  sc_pubrel :: bool
  sc_incomingQoS2messages :: "u16 list"
  sc_topics :: "nat \<Rightarrow> MQTTSN_topicid"
  sc_delivered :: "('h \<times> MQTTSN_topicid \<times> MQTTMessage) list"

definition SNPacketId_getNext :: "('t, 'h) CppSNClient \<Rightarrow> int \<times> ('t, 'h) CppSNClient" where
  "SNPacketId_getNext c =
     (let i = (if sc_packetid c = 65535 then 1 else sc_packetid c + 1) in (i, c\<lparr>sc_packetid := i\<rparr>))"

text \<open>The constructor; the argument \<open>c\<close> is the memory of the object before it.\<close>

definition CppSNClient_new ::
  "client_config \<Rightarrow> ('w, 't) net_ops \<Rightarrow> 'w \<Rightarrow> ('t, 'h) CppSNClient \<Rightarrow> u32 \<Rightarrow> 'w \<times> ('t, 'h) CppSNClient" where
  "CppSNClient_new cfg n w c command_timeout =
     (let (t1, w) = Timer_new n w;
          (t2, w) = Timer_new n w;
          c = c\<lparr>sc_last_sent := t1, sc_last_received := t2, sc_packetid := 0, sc_defaultMessageHandler := None,
                sc_ping_outstanding := False,
                sc_messageHandlers := map (\<lambda>s. \<lparr>snh_topicFilter = None, snh_fp = None\<rparr>) (sc_messageHandlers c),
                sc_command_timeout_ms := command_timeout, sc_isconnected := False\<rparr>;
          c = (if MQTTCLIENT_QOS1 cfg \<or> MQTTCLIENT_QOS2 cfg then c\<lparr>sc_inflightMsgid := 0, sc_inflightQoS := QOS0\<rparr> else c);
          c = (if MQTTCLIENT_QOS2 cfg
               then c\<lparr>sc_pubrel := False, sc_incomingQoS2messages := map (\<lambda>_. 0) (sc_incomingQoS2messages c)\<rparr> else c)
      in (w, c))"

definition CppSN_setDefaultMessageHandler :: "('t, 'h) CppSNClient \<Rightarrow> 'h option \<Rightarrow> ('t, 'h) CppSNClient" where
  "CppSN_setDefaultMessageHandler c mh = c\<lparr>sc_defaultMessageHandler := mh\<rparr>"

definition CppSN_isQoS2msgidFree :: "('t, 'h) CppSNClient \<Rightarrow> u16 \<Rightarrow> bool" where
  "CppSN_isQoS2msgidFree c i = (\<not> list_ex (\<lambda>m. m = i) (sc_incomingQoS2messages c))"

definition CppSN_useQoS2msgid :: "('t, 'h) CppSNClient \<Rightarrow> u16 \<Rightarrow> bool \<times> ('t, 'h) CppSNClient" where
  "CppSN_useQoS2msgid c i =
     (let ms = sc_incomingQoS2messages c; k = scan_slots (\<lambda>m. m = 0) ms
      in if k < length ms then (True, c\<lparr>sc_incomingQoS2messages := ms[k := i]\<rparr>) else (False, c))"

subsection \<open>Sending and receiving\<close>

text \<open>\<open>ipstack.write\<close> is called with \<open>length\<close>, not with what is left of it.\<close>

partial_function (option) CppSN_sendPacket_loop ::
  "('w, 't) net_ops \<Rightarrow> 'w \<Rightarrow> buffer \<Rightarrow> int \<Rightarrow> 't \<Rightarrow> int \<Rightarrow> (int \<times> 'w) option" where
  "CppSN_sendPacket_loop n w sendbuf len timer sent =
     (if sent < len
      then case timer_expired n w timer of (expired, w) \<Rightarrow>
        if expired then Some (sent, w)
        else case timer_left_ms n w timer of (left, w) \<Rightarrow>
          Option.bind (write_window sendbuf sent len) (\<lambda>bytes.
            case ipstack_write n w bytes left of (rc, w) \<Rightarrow>
              if rc < 0 then Some (sent, w)
              else CppSN_sendPacket_loop n w sendbuf len timer (sent + rc))
      else Some (sent, w))"

declare CppSN_sendPacket_loop.simps [code]

definition CppSN_sendPacket ::
  "('w, 't) net_ops \<Rightarrow> 'w \<Rightarrow> ('t, 'h) CppSNClient \<Rightarrow> int \<Rightarrow> 't \<Rightarrow> (int \<times> 'w \<times> ('t, 'h) CppSNClient) option" where
  "CppSN_sendPacket n w c len timer = do {
     (sent, w) \<leftarrow> CppSN_sendPacket_loop n w (sc_sendbuf c) len timer 0;
     if sent = len
     then if sc_duration c > 0
          then let (t, w) = timer_countdown n w (sc_last_sent c) (uint (sc_duration c))
               in Some (SUCCESS, w, c\<lparr>sc_last_sent := t\<rparr>)
          else Some (SUCCESS, w, c)
     else Some (FAILURE, w, c) }"

text \<open>\<open>decodePacket\<close> is the one of the client for MQTT; it is never called.\<close>

definition CppSN_decodePacket :: "('w, 't) net_ops \<Rightarrow> 'w \<Rightarrow> int \<Rightarrow> (int \<times> int \<times> 'w) option" where
  "CppSN_decodePacket n w timeout = MQTTPacket_decode (\<lambda>w k. ipstack_read n w k timeout) w"

definition CppSN_readPacket ::
  "client_config \<Rightarrow> ('w, 't) net_ops \<Rightarrow> 'w \<Rightarrow> ('t, 'h) CppSNClient \<Rightarrow> 't \<Rightarrow> (int \<times> 'w \<times> ('t, 'h) CppSNClient) option" where
  "CppSN_readPacket cfg n w c timer = do {
     let (left, w) = timer_left_ms n w timer;
     (len, bs, w) \<leftarrow> ipstack_read n w (MAX_MQTT_PACKET_SIZE cfg) left;
     readbuf \<leftarrow> put_bytes (sc_readbuf c) 0 bs;
     let c = c\<lparr>sc_readbuf := readbuf\<rparr>;
     if len < 2 then Some (FAILURE, w, c)
     else do {
       (lenlen, datalen) \<leftarrow> MQTTSNPacket_decode readbuf len (Some 0);
       if datalen \<noteq> Some len then Some (FAILURE, w, c)
       else do {
         ch \<leftarrow> load readbuf lenlen;
         if sc_duration c > 0
         then let (t, w) = timer_countdown n w (sc_last_received c) (uint (sc_duration c))
              in Some (uint ch, w, c\<lparr>sc_last_received := t\<rparr>)
         else Some (uint ch, w, c) } } }"

subsection \<open>Topics and delivery\<close>

text \<open>The scan of \<open>isTopicMatched\<close>: the filter is the memory from \<open>curf\<close> on, which must have a byte 0 where the scan gets there.\<close>

fun CppSN_match_loop :: "byte list \<Rightarrow> byte list \<Rightarrow> bool option" where
  "CppSN_match_loop [] curn = None"
| "CppSN_match_loop (cf # curf) [] = Some (cf = 0)"
| "CppSN_match_loop (cf # curf) (cn # curn) =
     (if cf = 0 then Some False
      else if cn = ch_slash \<and> cf \<noteq> ch_slash then Some False
      else if cf \<noteq> ch_plus \<and> cf \<noteq> ch_hash \<and> cf \<noteq> cn then Some False
      else CppSN_match_loop curf
             (tl (if cf = ch_plus then skip_level (cn # curn)
                  else if cf = ch_hash then [last (cn # curn)]
                  else cn # curn)))"

definition CppSN_isTopicMatched :: "cptr \<Rightarrow> MQTTSNString \<Rightarrow> bool option" where
  "CppSN_isTopicMatched topicf topicName = do {
     f \<leftarrow> topicf;
     let len = snls_len (sn_lenstring topicName);
     if cptr_holds (snls_data (sn_lenstring topicName)) len
     then CppSN_match_loop f (cptr_bytes (snls_data (sn_lenstring topicName)) len)
     else None }"

text \<open>The condition of the loop in \<open>deliverMessage\<close>: \<open>isTopicMatched\<close> is called, with the names of both topics, when they are not
  equal.\<close>

definition CppSN_slot_matches ::
  "('t, 'h) CppSNClient \<Rightarrow> MQTTSN_topicid \<Rightarrow> 'h SNMessageHandlers \<Rightarrow> bool option" where
  "CppSN_slot_matches c topic slot =
     (case snh_topicFilter slot of
        None \<Rightarrow> Some False
      | Some a \<Rightarrow> do {
          e \<leftarrow> MQTTSNTopic_equals topic (sc_topics c a);
          if e then Some True
          else do {
            (name, len) \<leftarrow> data_long (topic_data topic);
            (f, _) \<leftarrow> data_long (topic_data (sc_topics c a));
            CppSN_isTopicMatched f (MQTTSNString_initializer\<lparr>sn_lenstring := \<lparr>snls_len = len, snls_data = name\<rparr>\<rparr>) } })"

fun CppSN_deliverMessage_loop ::
  "('t, 'h) CppSNClient \<Rightarrow> MQTTSN_topicid \<Rightarrow> MQTTMessage \<Rightarrow> 'h SNMessageHandlers list \<Rightarrow> int
   \<Rightarrow> ('h \<times> MQTTSN_topicid \<times> MQTTMessage) list \<Rightarrow> (int \<times> ('h \<times> MQTTSN_topicid \<times> MQTTMessage) list) option" where
  "CppSN_deliverMessage_loop c topic message [] rc calls = Some (rc, calls)"
| "CppSN_deliverMessage_loop c topic message (slot # slots) rc calls = do {
     m \<leftarrow> CppSN_slot_matches c topic slot;
     (case (m, snh_fp slot) of
        (True, Some h) \<Rightarrow> CppSN_deliverMessage_loop c topic message slots SUCCESS (calls @ [(h, topic, message)])
      | _ \<Rightarrow> CppSN_deliverMessage_loop c topic message slots rc calls) }"

definition CppSN_deliverMessage ::
  "('t, 'h) CppSNClient \<Rightarrow> MQTTSN_topicid \<Rightarrow> MQTTMessage \<Rightarrow> (int \<times> ('t, 'h) CppSNClient) option" where
  "CppSN_deliverMessage c topic message = do {
     (rc, calls) \<leftarrow> CppSN_deliverMessage_loop c topic message (sc_messageHandlers c) FAILURE (sc_delivered c);
     (case sc_defaultMessageHandler c of
        Some h \<Rightarrow>
          if rc = FAILURE
          then Some (SUCCESS, c\<lparr>sc_delivered := calls @ [(h, topic, message)]\<rparr>)
          else Some (rc, c\<lparr>sc_delivered := calls\<rparr>)
      | None \<Rightarrow> Some (rc, c\<lparr>sc_delivered := calls\<rparr>)) }"

subsection \<open>One round\<close>

definition CppSN_keepalive ::
  "client_config \<Rightarrow> ('w, 't) net_ops \<Rightarrow> 'w \<Rightarrow> ('t, 'h) CppSNClient \<Rightarrow> (int \<times> 'w \<times> ('t, 'h) CppSNClient) option" where
  "CppSN_keepalive cfg n w c =
     (if sc_duration c = 0 then Some (SUCCESS, w, c)
      else do {
        let (e, w) = timer_expired n w (sc_last_sent c);
        let (e, w) = (if e then (True, w) else timer_expired n w (sc_last_received c));
        if \<not> e \<or> sc_ping_outstanding c then Some (FAILURE, w, c)
        else do {
          let (timer, w) = Timer_ms n w 1000;
          (buf, len) \<leftarrow> MQTTSNSerialize_pingreq (sc_sendbuf c) (MAX_MQTT_PACKET_SIZE cfg) MQTTSNString_initializer;
          let c = c\<lparr>sc_sendbuf := buf\<rparr>;
          if len > 0
          then do {
            (rc, w, c) \<leftarrow> CppSN_sendPacket n w c len timer;
            Some (rc, w, if rc = SUCCESS then c\<lparr>sc_ping_outstanding := True\<rparr> else c) }
          else Some (FAILURE, w, c) } })"

text \<open>\<open>rc\<close> of \<open>cycle\<close> is an \<open>unsigned char\<close>: assigning \<open>FAILURE\<close> makes it 255, and it is never equal to \<open>FAILURE\<close>. The
  case functions return \<open>rc\<close>, whether they leave by \<open>goto exit\<close>, and the state.\<close>

definition uchar :: "int \<Rightarrow> int" where
  "uchar i = i mod 256"

definition register_out_zero :: register_out where
  "register_out_zero = \<lparr>reg_topicid = 0, reg_packetid = 0, reg_topicname = MQTTSNString_initializer\<rparr>"

definition CppSN_cycle_register ::
  "client_config \<Rightarrow> ('w, 't) net_ops \<Rightarrow> 'w \<Rightarrow> ('t, 'h) CppSNClient \<Rightarrow> 't \<Rightarrow> (int \<times> bool \<times> 'w \<times> ('t, 'h) CppSNClient) option" where
  "CppSN_cycle_register cfg n w c timer = do {
     (r, out) \<leftarrow> MQTTSNDeserialize_register register_out_zero (sc_readbuf c) (MAX_MQTT_PACKET_SIZE cfg);
     if r \<noteq> 1 then Some (0, True, w, c)
     else do {
       (buf, len) \<leftarrow> MQTTSNSerialize_regack (sc_sendbuf c) (MAX_MQTT_PACKET_SIZE cfg) (reg_topicid out) (reg_packetid out) 0;
       let c = c\<lparr>sc_sendbuf := buf\<rparr>;
       (rc, w, c) \<leftarrow> (if len \<le> 0 then Some (FAILURE, w, c) else CppSN_sendPacket n w c len timer);
       Some (uchar rc, False, w, c) } }"

definition CppSN_cycle_deliver ::
  "client_config \<Rightarrow> ('t, 'h) CppSNClient \<Rightarrow> MQTTSN_topicid \<Rightarrow> MQTTMessage \<Rightarrow> ('t, 'h) CppSNClient option" where
  "CppSN_cycle_deliver cfg c topic msg =
     (if MQTTCLIENT_QOS2 cfg \<and> msg_qos msg = 2
      then if CppSN_isQoS2msgidFree c (msg_id msg)
           then let (ok, c) = CppSN_useQoS2msgid c (msg_id msg)
                in if ok then map_option snd (CppSN_deliverMessage c topic msg) else Some c
           else Some c
      else map_option snd (CppSN_deliverMessage c topic msg))"

text \<open>\<open>topicid\<close> and \<open>msg\<close> are not initialised.\<close>

definition snpublish_out_zero :: snpublish_out where
  "snpublish_out_zero =
     \<lparr>snp_dup = 0, snp_qos = 0, snp_retained = 0, snp_packetid = 0,
      snp_topic = \<lparr>topic_type = MQTTSN_TOPIC_TYPE_NORMAL, topic_data = Topic_id 0\<rparr>, snp_payload = None, snp_payloadlen = 0\<rparr>"

definition CppSN_publish_ack ::
  "client_config \<Rightarrow> ('t, 'h) CppSNClient \<Rightarrow> MQTTSN_topicid \<Rightarrow> MQTTMessage \<Rightarrow> (buffer \<times> int) option" where
  "CppSN_publish_ack cfg c topic msg =
     (if msg_qos msg = 1
      then do {
        i \<leftarrow> data_id (topic_data topic);
        MQTTSNSerialize_puback (sc_sendbuf c) (MAX_MQTT_PACKET_SIZE cfg) i (msg_id msg) 0 }
      else if msg_qos msg = 2
      then MQTTSNSerialize_pubrec (sc_sendbuf c) (MAX_MQTT_PACKET_SIZE cfg) (msg_id msg)
      else Some (sc_sendbuf c, 0))"

definition CppSN_cycle_publish ::
  "client_config \<Rightarrow> ('w, 't) net_ops \<Rightarrow> 'w \<Rightarrow> ('t, 'h) CppSNClient \<Rightarrow> 't \<Rightarrow> (int \<times> bool \<times> 'w \<times> ('t, 'h) CppSNClient) option" where
  "CppSN_cycle_publish cfg n w c timer = do {
     (r, out) \<leftarrow> MQTTSNDeserialize_publish snpublish_out_zero (sc_readbuf c) (MAX_MQTT_PACKET_SIZE cfg);
     if r \<noteq> 1 then Some (0, True, w, c)
     else do {
       let msg = \<lparr>msg_qos = snp_qos out, msg_retained = snp_retained out, msg_dup = snp_dup out,
                  msg_id = snp_packetid out, msg_payload = snp_payload out,
                  msg_payloadlen = word_of_int (snp_payloadlen out)\<rparr>;
       c \<leftarrow> CppSN_cycle_deliver cfg c (snp_topic out) msg;
       if \<not> (MQTTCLIENT_QOS1 cfg \<or> MQTTCLIENT_QOS2 cfg)
       then Some (0, False, w, c\<lparr>sc_ping_outstanding := False\<rparr>)
       else if msg_qos msg = 0 then Some (0, False, w, c)
       else do {
         (buf, len) \<leftarrow> CppSN_publish_ack cfg c (snp_topic out) msg;
         let c = c\<lparr>sc_sendbuf := buf\<rparr>;
         (rc, w, c) \<leftarrow> (if len \<le> 0 then Some (FAILURE, w, c) else CppSN_sendPacket n w c len timer);
         Some (uchar rc, uchar rc = FAILURE, w, c) } } }"

text \<open>The case PUBREC calls functions of the MQTT library on the MQTT-SN packet.\<close>

definition CppSN_cycle_pubrec ::
  "client_config \<Rightarrow> ('w, 't) net_ops \<Rightarrow> 'w \<Rightarrow> ('t, 'h) CppSNClient \<Rightarrow> 't \<Rightarrow> (int \<times> bool \<times> 'w \<times> ('t, 'h) CppSNClient) option" where
  "CppSN_cycle_pubrec cfg n w c timer = do {
     (r, out) \<leftarrow> MQTTDeserialize_ack \<lparr>ack_packettype = 0, ack_dup = 0, ack_packetid = 0\<rparr>
        (sc_readbuf c) (MAX_MQTT_PACKET_SIZE cfg);
     (rc, w, c) \<leftarrow>
       (if r \<noteq> 1 then Some (FAILURE, w, c)
        else do {
          (buf, len) \<leftarrow> MQTTSerialize_ack (sc_sendbuf c) (MAX_MQTT_PACKET_SIZE cfg) (msgType_code PUBREL) 0 (ack_packetid out);
          let c = c\<lparr>sc_sendbuf := buf\<rparr>;
          if len \<le> 0 then Some (FAILURE, w, c) else CppSN_sendPacket n w c len timer });
     Some (uchar rc, uchar rc = FAILURE, w, c) }"

text \<open>The switch; \<open>packet_type\<close> is an \<open>unsigned short\<close>, and there is no default case.\<close>

definition CppSN_cycle_dispatch ::
  "client_config \<Rightarrow> ('w, 't) net_ops \<Rightarrow> 'w \<Rightarrow> ('t, 'h) CppSNClient \<Rightarrow> 't \<Rightarrow> int
   \<Rightarrow> (int \<times> bool \<times> 'w \<times> ('t, 'h) CppSNClient) option" where
  "CppSN_cycle_dispatch cfg n w c timer packet_type =
     (if packet_type = 10 then CppSN_cycle_register cfg n w c timer
      else if packet_type = 12 then CppSN_cycle_publish cfg n w c timer
      else if MQTTCLIENT_QOS2 cfg \<and> packet_type = 15 then CppSN_cycle_pubrec cfg n w c timer
      else if packet_type = 23 then Some (0, False, w, c\<lparr>sc_ping_outstanding := False\<rparr>)
      else Some (0, False, w, c))"

definition CppSN_cycle ::
  "client_config \<Rightarrow> ('w, 't) net_ops \<Rightarrow> 'w \<Rightarrow> ('t, 'h) CppSNClient \<Rightarrow> 't \<Rightarrow> (int \<times> 'w \<times> ('t, 'h) CppSNClient) option" where
  "CppSN_cycle cfg n w c timer = do {
     (t, w, c) \<leftarrow> CppSN_readPacket cfg n w c timer;
     let packet_type = t mod 65536;
     (rc, leave, w, c) \<leftarrow> CppSN_cycle_dispatch cfg n w c timer packet_type;
     (w, c) \<leftarrow> (if leave then Some (w, c) else map_option snd (CppSN_keepalive cfg n w c));
     Some (if rc = SUCCESS then uchar packet_type else rc, w, c) }"

partial_function (option) CppSN_yield_loop ::
  "client_config \<Rightarrow> ('w, 't) net_ops \<Rightarrow> 'w \<Rightarrow> ('t, 'h) CppSNClient \<Rightarrow> 't \<Rightarrow> (int \<times> 'w \<times> ('t, 'h) CppSNClient) option" where
  "CppSN_yield_loop cfg n w c timer =
     (case timer_expired n w timer of (expired, w) \<Rightarrow>
        if expired then Some (SUCCESS, w, c)
        else Option.bind (CppSN_cycle cfg n w c timer) (\<lambda>(rc, w, c).
          if rc = FAILURE then Some (FAILURE, w, c) else CppSN_yield_loop cfg n w c timer))"

declare CppSN_yield_loop.simps [code]

definition CppSN_yield ::
  "client_config \<Rightarrow> ('w, 't) net_ops \<Rightarrow> 'w \<Rightarrow> ('t, 'h) CppSNClient \<Rightarrow> u32 \<Rightarrow> (int \<times> 'w \<times> ('t, 'h) CppSNClient) option" where
  "CppSN_yield cfg n w c timeout_ms = do {
     let (timer, w) = Timer_new n w;
     let (timer, w) = timer_countdown_ms n w timer timeout_ms;
     CppSN_yield_loop cfg n w c timer }"

partial_function (option) CppSN_waitfor_loop ::
  "client_config \<Rightarrow> ('w, 't) net_ops \<Rightarrow> 'w \<Rightarrow> ('t, 'h) CppSNClient \<Rightarrow> int \<Rightarrow> 't \<Rightarrow> int \<Rightarrow> (int \<times> 'w \<times> ('t, 'h) CppSNClient) option" where
  "CppSN_waitfor_loop cfg n w c packet_type timer rc =
     (case timer_expired n w timer of (expired, w) \<Rightarrow>
        if expired then Some (rc, w, c)
        else Option.bind (CppSN_cycle cfg n w c timer) (\<lambda>(rc, w, c).
          if rc \<noteq> packet_type then CppSN_waitfor_loop cfg n w c packet_type timer rc
          else Some (rc, w, c)))"

declare CppSN_waitfor_loop.simps [code]

definition CppSN_waitfor ::
  "client_config \<Rightarrow> ('w, 't) net_ops \<Rightarrow> 'w \<Rightarrow> ('t, 'h) CppSNClient \<Rightarrow> int \<Rightarrow> 't \<Rightarrow> (int \<times> 'w \<times> ('t, 'h) CppSNClient) option" where
  "CppSN_waitfor cfg n w c packet_type timer = CppSN_waitfor_loop cfg n w c packet_type timer FAILURE"

subsection \<open>Publishing\<close>

text \<open>Waiting for PUBACK; \<open>MQTTSNDeserialize_ack\<close> is called to take it apart.\<close>

definition CppSN_await_puback ::
  "client_config \<Rightarrow> ('w, 't) net_ops \<Rightarrow> 'w \<Rightarrow> ('t, 'h) CppSNClient \<Rightarrow> 't \<Rightarrow> (int \<times> 'w \<times> ('t, 'h) CppSNClient) option" where
  "CppSN_await_puback cfg n w c timer = do {
     (t, w, c) \<leftarrow> CppSN_waitfor cfg n w c 13 timer;
     if t = 13
     then do {
       (r, out) \<leftarrow> MQTTSNDeserialize_ack \<lparr>snack_type = 0, snack_packetid = 0\<rparr> (sc_readbuf c) (MAX_MQTT_PACKET_SIZE cfg);
       if r \<noteq> 1 then Some (FAILURE, w, c)
       else Some (SUCCESS, w, if sc_inflightMsgid c = snack_packetid out then c\<lparr>sc_inflightMsgid := 0\<rparr> else c) }
     else Some (FAILURE, w, c) }"

text \<open>The private \<open>publish(len, timer, qos)\<close>. The branch for QoS 2 is compiled only without \<open>MQTTCLIENT_QOS1\<close>, where it
  does not compile.\<close>

definition CppSN_publish_buf ::
  "client_config \<Rightarrow> ('w, 't) net_ops \<Rightarrow> 'w \<Rightarrow> ('t, 'h) CppSNClient \<Rightarrow> int \<Rightarrow> 't \<Rightarrow> int \<Rightarrow> (int \<times> 'w \<times> ('t, 'h) CppSNClient) option" where
  "CppSN_publish_buf cfg n w c len timer qos = do {
     (rc, w, c) \<leftarrow> CppSN_sendPacket n w c len timer;
     (rc, w, c) \<leftarrow>
       (if rc = SUCCESS \<and> MQTTCLIENT_QOS1 cfg \<and> qos = 1 then CppSN_await_puback cfg n w c timer else Some (rc, w, c));
     Some (rc, w, if rc \<noteq> SUCCESS then c\<lparr>sc_isconnected := False\<rparr> else c) }"

definition CppSN_take_id :: "client_config \<Rightarrow> ('t, 'h) CppSNClient \<Rightarrow> u16 \<Rightarrow> int \<Rightarrow> u16 \<times> ('t, 'h) CppSNClient" where
  "CppSN_take_id cfg c i qos =
     (if (MQTTCLIENT_QOS1 cfg \<or> MQTTCLIENT_QOS2 cfg) \<and> (qos = 1 \<or> qos = 2)
      then let (k, c) = SNPacketId_getNext c in (word_of_int k, c) else (i, c))"

definition CppSN_store_inflight ::
  "client_config \<Rightarrow> ('t, 'h) CppSNClient \<Rightarrow> u16 \<Rightarrow> int \<Rightarrow> int \<Rightarrow> ('t, 'h) CppSNClient option" where
  "CppSN_store_inflight cfg c i len qos =
     (if (MQTTCLIENT_QOS1 cfg \<or> MQTTCLIENT_QOS2 cfg) \<and> \<not> sc_cleansession c
      then do {
        pubbuf \<leftarrow> put_bytes (sc_pubbuf c) 0 (take (nat len) (sc_sendbuf c));
        let c = c\<lparr>sc_pubbuf := pubbuf, sc_inflightMsgid := i, sc_inflightLen := len, sc_inflightQoS := qos\<rparr>;
        Some (if MQTTCLIENT_QOS2 cfg then c\<lparr>sc_pubrel := False\<rparr> else c) }
      else Some c)"

text \<open>\<open>publish(topic, payload, payloadlen, id, qos, retained)\<close>; the reference \<open>id\<close> is passed and returned.\<close>

definition CppSN_publish_id ::
  "client_config \<Rightarrow> ('w, 't) net_ops \<Rightarrow> 'w \<Rightarrow> ('t, 'h) CppSNClient \<Rightarrow> MQTTSN_topicid \<Rightarrow> cptr \<Rightarrow> u32 \<Rightarrow> u16 \<Rightarrow> int \<Rightarrow> byte
   \<Rightarrow> (int \<times> 'w \<times> ('t, 'h) CppSNClient \<times> u16) option" where
  "CppSN_publish_id cfg n w c topic payload payloadlen i qos retained = do {
     let (timer, w) = Timer_ms n w (int_of_size (sc_command_timeout_ms c));
     if \<not> sc_isconnected c then Some (FAILURE, w, c, i)
     else do {
       let (i, c) = CppSN_take_id cfg c i qos;
       (buf, len) \<leftarrow> MQTTSNSerialize_publish (sc_sendbuf c) (MAX_MQTT_PACKET_SIZE cfg) 0 qos retained i topic payload
          (int_of_size payloadlen);
       let c = c\<lparr>sc_sendbuf := buf\<rparr>;
       if len \<le> 0 then Some (FAILURE, w, c, i)
       else do {
         c \<leftarrow> CppSN_store_inflight cfg c i len qos;
         (rc, w, c) \<leftarrow> CppSN_publish_buf cfg n w c len timer qos;
         Some (rc, w, c, i) } } }"

definition CppSN_publish ::
  "client_config \<Rightarrow> ('w, 't) net_ops \<Rightarrow> 'w \<Rightarrow> ('t, 'h) CppSNClient \<Rightarrow> MQTTSN_topicid \<Rightarrow> cptr \<Rightarrow> u32 \<Rightarrow> int \<Rightarrow> byte
   \<Rightarrow> (int \<times> 'w \<times> ('t, 'h) CppSNClient) option" where
  "CppSN_publish cfg n w c topicName payload payloadlen qos retained = do {
     (rc, w, c, _) \<leftarrow> CppSN_publish_id cfg n w c topicName payload payloadlen 0 qos retained;
     Some (rc, w, c) }"

definition CppSN_publish_message ::
  "client_config \<Rightarrow> ('w, 't) net_ops \<Rightarrow> 'w \<Rightarrow> ('t, 'h) CppSNClient \<Rightarrow> MQTTSN_topicid \<Rightarrow> MQTTMessage
   \<Rightarrow> (int \<times> 'w \<times> ('t, 'h) CppSNClient) option" where
  "CppSN_publish_message cfg n w c topicName message =
     CppSN_publish cfg n w c topicName (msg_payload message) (msg_payloadlen message) (msg_qos message) (msg_retained message)"

subsection \<open>Connecting\<close>

definition CppSN_resend_inflight ::
  "client_config \<Rightarrow> ('w, 't) net_ops \<Rightarrow> 'w \<Rightarrow> ('t, 'h) CppSNClient \<Rightarrow> 't \<Rightarrow> int \<Rightarrow> (int \<times> 'w \<times> ('t, 'h) CppSNClient) option" where
  "CppSN_resend_inflight cfg n w c timer rc =
     (if MQTTCLIENT_QOS2 cfg \<and> sc_inflightMsgid c > 0 \<and> sc_inflightQoS c = 2 \<and> sc_pubrel c
      then do {
        (buf, len) \<leftarrow> MQTTSerialize_ack (sc_sendbuf c) (MAX_MQTT_PACKET_SIZE cfg) (msgType_code PUBREL) 0 (sc_inflightMsgid c);
        let c = c\<lparr>sc_sendbuf := buf\<rparr>;
        if len \<le> 0 then Some (FAILURE, w, c) else CppSN_publish_buf cfg n w c len timer (sc_inflightQoS c) }
      else if (MQTTCLIENT_QOS1 cfg \<or> MQTTCLIENT_QOS2 cfg) \<and> sc_inflightMsgid c > 0
      then do {
        buf \<leftarrow> put_bytes (sc_sendbuf c) 0 (take (nat (MAX_MQTT_PACKET_SIZE cfg)) (sc_pubbuf c));
        CppSN_publish_buf cfg n w (c\<lparr>sc_sendbuf := buf\<rparr>) (sc_inflightLen c) timer (sc_inflightQoS c) }
      else Some (rc, w, c))"

definition CppSN_read_connack ::
  "char_abi \<Rightarrow> client_config \<Rightarrow> ('t, 'h) CppSNClient \<Rightarrow> int \<Rightarrow> int option" where
  "CppSN_read_connack abi cfg c packet_type =
     (if packet_type = 5
      then do {
        (r, connack_rc) \<leftarrow> MQTTSNDeserialize_connack abi 255 (sc_readbuf c) (MAX_MQTT_PACKET_SIZE cfg);
        Some (if r = 1 then connack_rc else FAILURE) }
      else Some FAILURE)"

definition CppSN_start_received :: "('w, 't) net_ops \<Rightarrow> 'w \<Rightarrow> ('t, 'h) CppSNClient \<Rightarrow> 'w \<times> ('t, 'h) CppSNClient" where
  "CppSN_start_received n w c =
     (if sc_duration c > 0
      then let (t, w) = timer_countdown n w (sc_last_received c) (uint (sc_duration c)) in (w, c\<lparr>sc_last_received := t\<rparr>)
      else (w, c))"

definition CppSN_connect_options ::
  "char_abi \<Rightarrow> client_config \<Rightarrow> ('w, 't) net_ops \<Rightarrow> 'w \<Rightarrow> ('t, 'h) CppSNClient \<Rightarrow> MQTTSNPacket_connectData
   \<Rightarrow> (int \<times> 'w \<times> ('t, 'h) CppSNClient) option" where
  "CppSN_connect_options abi cfg n w c options = do {
     let (connect_timer, w) = Timer_ms n w (int_of_size (sc_command_timeout_ms c));
     (rc, w, c) \<leftarrow>
       (if sc_isconnected c then Some (FAILURE, w, c)
        else do {
          let c = c\<lparr>sc_duration := snc_duration options, sc_cleansession := snc_cleansession options \<noteq> 0\<rparr>;
          (buf, len) \<leftarrow> MQTTSNSerialize_connect (sc_sendbuf c) (MAX_MQTT_PACKET_SIZE cfg) options;
          let c = c\<lparr>sc_sendbuf := buf\<rparr>;
          if len \<le> 0 then Some (FAILURE, w, c)
          else do {
            (rc, w, c) \<leftarrow> CppSN_sendPacket n w c len connect_timer;
            if rc \<noteq> SUCCESS then Some (rc, w, c)
            else do {
              let (w, c) = CppSN_start_received n w c;
              (t, w, c) \<leftarrow> CppSN_waitfor cfg n w c 5 connect_timer;
              rc \<leftarrow> CppSN_read_connack abi cfg c t;
              CppSN_resend_inflight cfg n w c connect_timer rc } } });
     Some (rc, w, if rc = SUCCESS then c\<lparr>sc_isconnected := True\<rparr> else c) }"

definition CppSN_connect ::
  "char_abi \<Rightarrow> client_config \<Rightarrow> ('w, 't) net_ops \<Rightarrow> 'w \<Rightarrow> ('t, 'h) CppSNClient \<Rightarrow> (int \<times> 'w \<times> ('t, 'h) CppSNClient) option" where
  "CppSN_connect abi cfg n w c = CppSN_connect_options abi cfg n w c MQTTSNPacket_connectData_initializer"

subsection \<open>Subscriptions and disconnecting\<close>

text \<open>The topic is passed by reference: \<open>a\<close> is its address. The deserialiser of SUBACK stores the topic identifier in its union,
  and the handler keeps the address. Inside the block a second variable \<open>rc\<close> hides the one that is returned.\<close>

definition CppSN_add_handler :: "('t, 'h) CppSNClient \<Rightarrow> nat \<Rightarrow> 'h option \<Rightarrow> ('t, 'h) CppSNClient" where
  "CppSN_add_handler c a messageHandler =
     (let slots = sc_messageHandlers c; i = scan_slots (\<lambda>s. snh_topicFilter s = None) slots
      in if i < length slots
         then c\<lparr>sc_messageHandlers := slots[i := \<lparr>snh_topicFilter = Some a, snh_fp = messageHandler\<rparr>]\<rparr> else c)"

definition CppSN_read_suback ::
  "client_config \<Rightarrow> ('t, 'h) CppSNClient \<Rightarrow> nat \<Rightarrow> int \<Rightarrow> 'h option \<Rightarrow> ('t, 'h) CppSNClient option" where
  "CppSN_read_suback cfg c a qos messageHandler = do {
     (r, out) \<leftarrow> MQTTSNDeserialize_suback \<lparr>snsa_qos = - 1, snsa_topicid = 0, snsa_packetid = 0, snsa_returncode = 0\<rparr>
        (sc_readbuf c) (MAX_MQTT_PACKET_SIZE cfg);
     if r \<noteq> 1 then Some c
     else do {
       let c = c\<lparr>sc_topics := (sc_topics c)(a := (sc_topics c a)\<lparr>topic_data := Topic_id (snsa_topicid out)\<rparr>)\<rparr>;
       if qos \<noteq> snsa_qos out then Some c
       else Some (if snsa_returncode out = 0 then CppSN_add_handler c a messageHandler else c) } }"

definition CppSN_subscribe ::
  "client_config \<Rightarrow> ('w, 't) net_ops \<Rightarrow> 'w \<Rightarrow> ('t, 'h) CppSNClient \<Rightarrow> nat \<Rightarrow> int \<Rightarrow> 'h option
   \<Rightarrow> (int \<times> 'w \<times> ('t, 'h) CppSNClient) option" where
  "CppSN_subscribe cfg n w c a qos messageHandler = do {
     let (timer, w) = Timer_ms n w (int_of_size (sc_command_timeout_ms c));
     if \<not> sc_isconnected c then Some (FAILURE, w, c)
     else do {
       (rc, w, c) \<leftarrow>
         (if \<not> list_ex (\<lambda>s. snh_topicFilter s = None) (sc_messageHandlers c)
          then Some (MAX_SUBSCRIPTIONS_EXCEEDED, w, c)
          else do {
            let (i, c) = SNPacketId_getNext c;
            (buf, len) \<leftarrow> MQTTSNSerialize_subscribe (sc_sendbuf c) (MAX_MQTT_PACKET_SIZE cfg) 0 qos (word_of_int i) (sc_topics c a);
            let c = c\<lparr>sc_sendbuf := buf\<rparr>;
            if len \<le> 0 then Some (FAILURE, w, c)
            else do {
              (rc, w, c) \<leftarrow> CppSN_sendPacket n w c len timer;
              if rc \<noteq> SUCCESS then Some (rc, w, c)
              else do {
                (t, w, c) \<leftarrow> CppSN_waitfor cfg n w c 19 timer;
                if t = 19 then do { c \<leftarrow> CppSN_read_suback cfg c a qos messageHandler; Some (rc, w, c) }
                else Some (FAILURE, w, c) } } });
       Some (rc, w, if rc \<noteq> SUCCESS then c\<lparr>sc_isconnected := False\<rparr> else c) } }"

definition CppSN_unsubscribe ::
  "client_config \<Rightarrow> ('w, 't) net_ops \<Rightarrow> 'w \<Rightarrow> ('t, 'h) CppSNClient \<Rightarrow> nat \<Rightarrow> (int \<times> 'w \<times> ('t, 'h) CppSNClient) option" where
  "CppSN_unsubscribe cfg n w c a = do {
     let (timer, w) = Timer_ms n w (int_of_size (sc_command_timeout_ms c));
     (rc, w, c) \<leftarrow>
       (if \<not> sc_isconnected c then Some (FAILURE, w, c)
        else do {
          let (i, c) = SNPacketId_getNext c;
          (buf, len) \<leftarrow> MQTTSNSerialize_unsubscribe (sc_sendbuf c) (MAX_MQTT_PACKET_SIZE cfg) (word_of_int i) (sc_topics c a);
          let c = c\<lparr>sc_sendbuf := buf\<rparr>;
          if len \<le> 0 then Some (FAILURE, w, c)
          else do {
            (rc, w, c) \<leftarrow> CppSN_sendPacket n w c len timer;
            if rc \<noteq> SUCCESS then Some (rc, w, c)
            else do {
              (t, w, c) \<leftarrow> CppSN_waitfor cfg n w c 21 timer;
              if t = 21
              then do {
                (r, mypacketid) \<leftarrow> MQTTSNDeserialize_unsuback 0 (sc_readbuf c) (MAX_MQTT_PACKET_SIZE cfg);
                Some (if r = 1 then 0 else rc, w, c) }
              else Some (FAILURE, w, c) } } });
     Some (rc, w, if rc \<noteq> SUCCESS then c\<lparr>sc_isconnected := False\<rparr> else c) }"

definition CppSN_disconnect ::
  "client_config \<Rightarrow> ('w, 't) net_ops \<Rightarrow> 'w \<Rightarrow> ('t, 'h) CppSNClient \<Rightarrow> u16 \<Rightarrow> (int \<times> 'w \<times> ('t, 'h) CppSNClient) option" where
  "CppSN_disconnect cfg n w c dur = do {
     let (timer, w) = Timer_ms n w (int_of_size (sc_command_timeout_ms c));
     let int_duration = (if dur = 0 then - 1 else uint dur);
     (buf, len) \<leftarrow> MQTTSNSerialize_disconnect (sc_sendbuf c) (MAX_MQTT_PACKET_SIZE cfg) int_duration;
     let c = c\<lparr>sc_sendbuf := buf\<rparr>;
     (rc, w, c) \<leftarrow> (if len > 0 then CppSN_sendPacket n w c len timer else Some (FAILURE, w, c));
     Some (rc, w, c\<lparr>sc_isconnected := False\<rparr>) }"

end
