(* ===== verification/MQTTSN_Cpp_Safety.thy ===== *)
theory MQTTSN_Cpp_Safety
  imports MQTTSN_Cpp_Client
begin

text \<open>
  The C++ client for MQTT-SN on the platform \<open>cpp_platform\<close> of the C++ client for MQTT, when datagrams are written as a whole (the
  locale \<open>cpp_datagrams\<close>). The calculus \<open>returns\<close> of total correctness for computations that may be undefined: \<open>returns m P\<close> says that \<open>m\<close> has
  a result and the result satisfies \<open>P\<close>. As long as no handler is registered for a topic, every method returns whatever
  datagrams arrive and keeps the invariant of the client.
\<close>

subsection \<open>Total correctness\<close>

definition returns :: "'a option \<Rightarrow> ('a \<Rightarrow> bool) \<Rightarrow> bool" where
  "returns m P \<longleftrightarrow> (\<exists>x. m = Some x \<and> P x)"

named_theorems wp \<open>weakest preconditions of the constructs of the model\<close>

lemma returns_simps [wp, simp]:
  "returns (Some x) P = P x"
  "returns None P = False"
  "returns (Option.bind m f) P = returns m (\<lambda>x. returns (f x) P)"
  "returns (map_option g m) P = returns m (\<lambda>x. P (g x))"
  by (cases m; auto simp: returns_def)+

lemma returns_if [wp]: "returns (if b then m else k) P = ((b \<longrightarrow> returns m P) \<and> (\<not> b \<longrightarrow> returns k P))"
  by simp

lemma returns_prod [wp]: "returns (case p of (a, b) \<Rightarrow> f a b) P = (\<forall>a b. p = (a, b) \<longrightarrow> returns (f a b) P)"
  by (cases p) simp

lemma returns_Let [wp]: "returns (Let t f) P = returns (f t) P"
  by (simp add: Let_def)

lemma returns_mono: "returns m Q \<Longrightarrow> (\<And>x. Q x \<Longrightarrow> P x) \<Longrightarrow> returns m P"
  by (auto simp: returns_def)

lemma returnsD: "returns m P \<Longrightarrow> \<exists>x. m = Some x \<and> P x"
  by (simp add: returns_def)

subsection \<open>The invariant\<close>

definition SN_inv :: "client_config \<Rightarrow> ('t, 'h) CppSNClient \<Rightarrow> bool" where
  "SN_inv cfg c \<longleftrightarrow>
     10 \<le> MAX_MQTT_PACKET_SIZE cfg \<and> int (length (sc_sendbuf c)) = MAX_MQTT_PACKET_SIZE cfg \<and>
     int (length (sc_pubbuf c)) = MAX_MQTT_PACKET_SIZE cfg \<and> MAX_MQTT_PACKET_SIZE cfg \<le> int (length (sc_readbuf c)) \<and>
     0 \<le> sc_packetid c \<and> sc_packetid c \<le> 65535 \<and>
     ((MQTTCLIENT_QOS1 cfg \<or> MQTTCLIENT_QOS2 cfg) \<and> sc_inflightMsgid c \<noteq> 0 \<longrightarrow>
        0 < sc_inflightLen c \<and> sc_inflightLen c \<le> MAX_MQTT_PACKET_SIZE cfg)"

text \<open>What only \<open>subscribe\<close> and the application change, and the memory behind the read buffer.\<close>

definition sn_frame_of ::
  "client_config \<Rightarrow> ('t, 'h) CppSNClient \<Rightarrow> 'h SNMessageHandlers list \<times> (nat \<Rightarrow> MQTTSN_topicid) \<times> 'h option \<times> byte list" where
  "sn_frame_of cfg c =
     (sc_messageHandlers c, sc_topics c, sc_defaultMessageHandler c, drop (nat (MAX_MQTT_PACKET_SIZE cfg)) (sc_readbuf c))"

definition unsubscribed :: "('t, 'h) CppSNClient \<Rightarrow> bool" where
  "unsubscribed c \<longleftrightarrow> list_all (\<lambda>s. snh_topicFilter s = None) (sc_messageHandlers c)"

lemma SN_inv_update [simp]:
  "SN_inv cfg (c\<lparr>sc_last_sent := t\<rparr>) = SN_inv cfg c"
  "SN_inv cfg (c\<lparr>sc_last_received := t\<rparr>) = SN_inv cfg c"
  "SN_inv cfg (c\<lparr>sc_ping_outstanding := b\<rparr>) = SN_inv cfg c"
  "SN_inv cfg (c\<lparr>sc_isconnected := b\<rparr>) = SN_inv cfg c"
  "SN_inv cfg (c\<lparr>sc_delivered := d\<rparr>) = SN_inv cfg c"
  "SN_inv cfg (c\<lparr>sc_duration := k\<rparr>) = SN_inv cfg c"
  "SN_inv cfg (c\<lparr>sc_cleansession := b\<rparr>) = SN_inv cfg c"
  "SN_inv cfg (c\<lparr>sc_pubrel := b\<rparr>) = SN_inv cfg c"
  "SN_inv cfg (c\<lparr>sc_topics := ts\<rparr>) = SN_inv cfg c"
  "SN_inv cfg (c\<lparr>sc_messageHandlers := hs\<rparr>) = SN_inv cfg c"
  "SN_inv cfg (c\<lparr>sc_incomingQoS2messages := ms\<rparr>) = SN_inv cfg c"
  by (simp_all add: SN_inv_def)

lemma sn_frame_update [simp]:
  "sn_frame_of cfg (c\<lparr>sc_last_sent := t\<rparr>) = sn_frame_of cfg c"
  "sn_frame_of cfg (c\<lparr>sc_last_received := t\<rparr>) = sn_frame_of cfg c"
  "sn_frame_of cfg (c\<lparr>sc_ping_outstanding := b\<rparr>) = sn_frame_of cfg c"
  "sn_frame_of cfg (c\<lparr>sc_isconnected := b\<rparr>) = sn_frame_of cfg c"
  "sn_frame_of cfg (c\<lparr>sc_delivered := d\<rparr>) = sn_frame_of cfg c"
  "sn_frame_of cfg (c\<lparr>sc_duration := k\<rparr>) = sn_frame_of cfg c"
  "sn_frame_of cfg (c\<lparr>sc_cleansession := b\<rparr>) = sn_frame_of cfg c"
  "sn_frame_of cfg (c\<lparr>sc_pubrel := b\<rparr>) = sn_frame_of cfg c"
  "sn_frame_of cfg (c\<lparr>sc_sendbuf := buf\<rparr>) = sn_frame_of cfg c"
  "sn_frame_of cfg (c\<lparr>sc_pubbuf := buf\<rparr>) = sn_frame_of cfg c"
  "sn_frame_of cfg (c\<lparr>sc_packetid := i\<rparr>) = sn_frame_of cfg c"
  "sn_frame_of cfg (c\<lparr>sc_inflightMsgid := m\<rparr>) = sn_frame_of cfg c"
  "sn_frame_of cfg (c\<lparr>sc_inflightLen := i\<rparr>) = sn_frame_of cfg c"
  "sn_frame_of cfg (c\<lparr>sc_inflightQoS := i\<rparr>) = sn_frame_of cfg c"
  "sn_frame_of cfg (c\<lparr>sc_incomingQoS2messages := ms\<rparr>) = sn_frame_of cfg c"
  by (simp_all add: sn_frame_of_def)

lemma unsubscribed_frame: "sn_frame_of cfg c = sn_frame_of cfg c' \<Longrightarrow> unsubscribed c = unsubscribed c'"
  by (simp add: sn_frame_of_def unsubscribed_def)

lemma SN_inv_sendbuf [simp]:
  "length buf = length (sc_sendbuf c) \<Longrightarrow> SN_inv cfg (c\<lparr>sc_sendbuf := buf\<rparr>) = SN_inv cfg c"
  by (simp add: SN_inv_def)

lemma SN_sizes:
  assumes "SN_inv cfg c"
  shows "10 \<le> MAX_MQTT_PACKET_SIZE cfg" "MAX_MQTT_PACKET_SIZE cfg \<le> int (length (sc_readbuf c))"
  using assms by (simp_all add: SN_inv_def)

lemma SN_inv_acked: "SN_inv cfg c \<Longrightarrow> SN_inv cfg (c\<lparr>sc_inflightMsgid := 0\<rparr>)"
  by (simp add: SN_inv_def)

lemma SN_inv_getNext: "SN_inv cfg c \<Longrightarrow> SNPacketId_getNext c = (i, c') \<Longrightarrow> SN_inv cfg c' \<and> c' = c\<lparr>sc_packetid := i\<rparr>"
  by (auto simp: SNPacketId_getNext_def SN_inv_def Let_def split: if_splits)

subsection \<open>Datagrams in the read buffer\<close>

text \<open>The buffer begins with a datagram of type \<open>t\<close> whose length field is right and at most the size of the buffer.\<close>

definition sn_holds :: "int \<Rightarrow> int \<Rightarrow> buffer \<Rightarrow> bool" where
  "sn_holds n t buf \<longleftrightarrow>
     (\<exists>l len. (l = 1 \<or> l = 3) \<and> (\<forall>v. MQTTSNPacket_decode buf n v = Some (l, Some len)) \<and> 2 \<le> len \<and> len \<le> n \<and>
        t = uint (buf ! nat l))"

lemma decode_shorter:
  assumes "MQTTSNPacket_decode buf k (Some 0) = Some (l, Some k)" "2 \<le> k" "k \<le> n"
  shows "(l = 1 \<or> l = 3) \<and> (\<forall>v. MQTTSNPacket_decode buf n v = Some (l, Some k))"
  using assms by (cases buf) (auto simp: MQTTSNPacket_decode_def split: if_splits Option.bind_splits prod.splits)

lemma decode_total: "3 \<le> length buf \<Longrightarrow> \<exists>l v. MQTTSNPacket_decode buf k u = Some (l, v)"
  by (cases buf) (auto simp: MQTTSNPacket_decode_def readInt_cases)

lemma seven_bytes: "7 \<le> length ys \<Longrightarrow> \<exists>x0 x1 x2 x3 x4 x5 x6 xs. ys = x0 # x1 # x2 # x3 # x4 # x5 # x6 # xs"
  by (auto simp: numeral_eq_Suc Suc_le_length_iff)

lemma sn_holds_begin:
  assumes "sn_holds n t buf" "10 \<le> n" "n \<le> int (length buf)"
  shows "\<exists>l len x0 x1 x2 x3 x4 x5 x6 xs. (\<forall>v. sn_begin v buf n = Some (l, (l, x0 # x1 # x2 # x3 # x4 # x5 # x6 # xs), len)) \<and>
    (l = 1 \<or> l = 3) \<and> t = uint x0 \<and> 2 \<le> len \<and> len \<le> n"
proof -
  obtain l len where l: "l = 1 \<or> l = 3" "\<forall>v. MQTTSNPacket_decode buf n v = Some (l, Some len)" "2 \<le> len" "len \<le> n"
    "t = uint (buf ! nat l)"
    using assms(1) by (auto simp: sn_holds_def)
  have n: "7 \<le> length (drop (nat l) buf)" "nat l < length buf"
    using assms(2,3) l(1) by auto
  obtain x0 x1 x2 x3 x4 x5 x6 xs where d: "drop (nat l) buf = x0 # x1 # x2 # x3 # x4 # x5 # x6 # xs"
    using seven_bytes [OF n(1)] by blast
  have "x0 = buf ! nat l"
    using d hd_drop_conv_nth [OF n(2)] by simp
  moreover have "sn_begin v buf n = Some (l, (l, drop (nat l) buf), len)" for v
    using l(1,2) by (auto simp: sn_begin_def ptr_add_def)
  ultimately show ?thesis
    using l(1,3-5) unfolding d by blast
qed

lemma readInt_Cons2 [read_simps]: "readInt (p, a # b # ys) = Some (256 * uint a + uint b, p + 2, ys)"
  by (simp add: readInt_cases)

lemma sn_deserialisers_total:
  assumes "sn_holds n t buf" "10 \<le> n" "n \<le> int (length buf)"
  shows "\<exists>r out'. MQTTSNDeserialize_register ro buf n = Some (r, out')"
    and "\<exists>r out'. MQTTSNDeserialize_ack ao buf n = Some (r, out')"
    and "\<exists>r out'. MQTTSNDeserialize_suback so buf n = Some (r, out')"
    and "\<exists>r out'. MQTTSNDeserialize_unsuback uo buf n = Some (r, out')"
    and "\<exists>r out'. MQTTSNDeserialize_connack abi co buf n = Some (r, out')"
  using sn_holds_begin [OF assms]
  by (fastforce simp: MQTTSNDeserialize_register_def MQTTSNDeserialize_ack_def MQTTSNDeserialize_suback_def
     MQTTSNDeserialize_unsuback_def MQTTSNDeserialize_connack_def Let_def read_simps)+

lemma snpublish_total:
  assumes "sn_holds n t buf" "10 \<le> n" "n \<le> int (length buf)"
  shows "\<exists>r out'. MQTTSNDeserialize_publish po buf n = Some (r, out') \<and>
    (r = 1 \<longrightarrow> snp_qos out' = 3 \<or> (\<exists>i. data_id (topic_data (snp_topic out')) = Some i))"
proof -
  obtain l len x0 x1 x2 x3 x4 x5 x6 xs where b:
    "sn_begin (Some 0) buf n = Some (l, (l, x0 # x1 # x2 # x3 # x4 # x5 # x6 # xs), len)"
    using sn_holds_begin [OF assms] by blast
  show ?thesis
    by (simp add: MQTTSNDeserialize_publish_def b read_simps Let_def read_topicid_def set_long_len_def long_topic_def
        split: topic_union.split)
qed

lemma ack_total_bytes:
  assumes "10 \<le> length buf"
  shows "\<exists>r out'. MQTTDeserialize_ack out buf k = Some (r, out')"
proof -
  obtain x0 x1 x2 x3 x4 x5 x6 x7 xs where b: "buf = x0 # x1 # x2 # x3 # x4 # x5 # x6 # x7 # xs"
    using assms by (auto simp: numeral_eq_Suc Suc_le_length_iff)
  show ?thesis
    by (simp add: MQTTDeserialize_ack_def b MQTTPacket_decodeBuf_def MQTTPacket_decode_def MQTTPacket_decode_loop.simps
        bufchar_def read_simps Let_def ptr_add_def)
qed


subsection \<open>The platform\<close>

locale cpp_datagrams = cpp_platform n ticks sent
  for n :: "('w, 't) net_ops" and ticks :: "'w \<Rightarrow> 't \<Rightarrow> nat" and sent :: "'w \<Rightarrow> byte list" +
  assumes whole: "ipstack_write n w bs t = (rc, w') \<Longrightarrow> rc \<le> 0 \<or> rc = int (length bs)"
begin

definition sn_step :: "client_config \<Rightarrow> 'w \<Rightarrow> ('t, 'h) CppSNClient \<Rightarrow> 'w \<Rightarrow> ('t, 'h) CppSNClient \<Rightarrow> bool" where
  "sn_step cfg w c w' c' \<longleftrightarrow> later w w' \<and> SN_inv cfg c' \<and> sn_frame_of cfg c' = sn_frame_of cfg c"

lemma sn_step_refl: "SN_inv cfg c \<Longrightarrow> sn_step cfg w c w c"
  by (simp add: sn_step_def)

lemma sn_step_trans: "sn_step cfg w c w' c' \<Longrightarrow> sn_step cfg w' c' w'' c'' \<Longrightarrow> sn_step cfg w c w'' c''"
  unfolding sn_step_def using later_trans by metis

lemma sn_step_inv: "sn_step cfg w c w' c' \<Longrightarrow> SN_inv cfg c'"
  by (simp add: sn_step_def)

lemma sn_step_later: "sn_step cfg w c w' c' \<Longrightarrow> later w' w'' \<Longrightarrow> sn_step cfg w c w'' c'"
  unfolding sn_step_def using later_trans by blast

lemmas later_step = later_ops [THEN [2] sn_step_later, rotated]

lemma sn_step_update [simp]:
  "sn_step cfg w c w' (c'\<lparr>sc_last_sent := t\<rparr>) = sn_step cfg w c w' c'"
  "sn_step cfg w c w' (c'\<lparr>sc_last_received := t\<rparr>) = sn_step cfg w c w' c'"
  "sn_step cfg w c w' (c'\<lparr>sc_ping_outstanding := b\<rparr>) = sn_step cfg w c w' c'"
  "sn_step cfg w c w' (c'\<lparr>sc_isconnected := b\<rparr>) = sn_step cfg w c w' c'"
  "sn_step cfg w c w' (c'\<lparr>sc_delivered := d\<rparr>) = sn_step cfg w c w' c'"
  "sn_step cfg w c w' (c'\<lparr>sc_incomingQoS2messages := ms\<rparr>) = sn_step cfg w c w' c'"
  by (simp_all add: sn_step_def)

lemma sn_step_sendbuf:
  "sn_step cfg w c w' c' \<Longrightarrow> length buf = length (sc_sendbuf c') \<Longrightarrow> sn_step cfg w c w' (c'\<lparr>sc_sendbuf := buf\<rparr>)"
  by (simp add: sn_step_def)

lemma send_loop_returns:
  assumes "0 < len" "len \<le> int (length buf)"
  shows "returns (CppSN_sendPacket_loop n w buf len timer 0) (\<lambda>(s, w'). (s = 0 \<or> s = len) \<and> later w w')"
proof (induction "ticks w timer" arbitrary: w rule: less_induct)
  case less
  let ?bs = "take (nat len) buf"
  have win: "write_window buf 0 len = Some ?bs" "int (length ?bs) = len"
    using assms by (simp_all add: write_window_def)
  obtain e w1 where e: "timer_expired n w timer = (e, w1)" by force
  obtain l w2 where l: "timer_left_ms n w1 timer = (l, w2)" by force
  obtain rc w3 where rc: "ipstack_write n w2 ?bs l = (rc, w3)" by force
  have w1: "later w w1" and w3: "later w w3" and w13: "later w1 w3"
    using later_ops(4) [OF e] later_ops(7) [OF l] later_ops(1) [OF rc] later_trans by blast+
  note step = CppSN_sendPacket_loop.simps [of n w buf len timer 0] assms(1) e l win(1) rc
  consider e | "\<not> e" "rc < 0" | "\<not> e" "rc = 0" | "\<not> e" "rc = len"
    using whole [OF rc] win(2) by linarith
  then show ?case
  proof cases
    case 3
    have "ticks w3 timer < ticks w timer"
      using runs_down [of w timer w1] e 3(1) w13 by (fastforce simp: later_def intro: le_less_trans)
    then have "returns (CppSN_sendPacket_loop n w3 buf len timer 0) (\<lambda>(s, w'). (s = 0 \<or> s = len) \<and> later w3 w')"
      by (rule less)
    then show ?thesis
      using 3 by (subst CppSN_sendPacket_loop.simps)
        (auto simp: step(2-) intro!: later_trans [OF w3] elim!: returns_mono)
  next
    case 4
    then have "CppSN_sendPacket_loop n w3 buf len timer rc = Some (len, w3)"
      by (subst CppSN_sendPacket_loop.simps) simp
    then show ?thesis
      using 4 w3 by (subst CppSN_sendPacket_loop.simps) (simp add: step(2-))
  qed (use w1 w3 in \<open>subst CppSN_sendPacket_loop.simps, simp add: step(2-)\<close>)+
qed

lemma send_returns:
  assumes "SN_inv cfg c" "0 < len" "len \<le> MAX_MQTT_PACKET_SIZE cfg"
  shows "returns (CppSN_sendPacket n w c len timer) (\<lambda>(rc, w', c'). (rc = SUCCESS \<or> rc = FAILURE) \<and> later w w' \<and>
    (\<exists>t. c' = c\<lparr>sc_last_sent := t\<rparr>))"
proof -
  have "len \<le> int (length (sc_sendbuf c))"
    using assms by (simp add: SN_inv_def)
  note loop = send_loop_returns [OF assms(2) this, of w timer]
  have same: "\<exists>t. c = c\<lparr>sc_last_sent := t\<rparr>"
    by (intro exI [of _ "sc_last_sent c"]) simp
  show ?thesis
    unfolding CppSN_sendPacket_def returns_simps
    using same by (intro returns_mono [OF loop])
      (auto simp: wp split: prod.splits dest: later_ops(6) intro: later_trans)
qed

lemma send_step:
  assumes "sn_step cfg w0 c0 w c" "length buf = length (sc_sendbuf c)" "0 < len" "len \<le> MAX_MQTT_PACKET_SIZE cfg"
  shows "returns (CppSN_sendPacket n w (c\<lparr>sc_sendbuf := buf\<rparr>) len timer) (\<lambda>(rc, w', c'). (rc = SUCCESS \<or> rc = FAILURE) \<and>
    sn_step cfg w0 c0 w' c' \<and> sc_readbuf c' = sc_readbuf c)"
  using send_returns [OF sn_step_inv [OF sn_step_sendbuf [OF assms(1,2)]] assms(3,4), of w timer]
  by (rule returns_mono) (auto intro: sn_step_later [OF sn_step_sendbuf [OF assms(1,2)]])


lemma read_returns':
  assumes "SN_inv cfg c"
  shows "returns (CppSN_readPacket cfg n w c timer) (\<lambda>(rc, w', c'). sn_step cfg w c w' c' \<and>
    (rc = FAILURE \<or> 0 \<le> rc \<and> rc < 256 \<and> sn_holds (MAX_MQTT_PACKET_SIZE cfg) rc (sc_readbuf c')))"
proof -
  let ?max = "MAX_MQTT_PACKET_SIZE cfg"
  have size: "10 \<le> ?max" "?max \<le> int (length (sc_readbuf c))"
    using assms by (simp_all add: SN_inv_def)
  obtain l w1 where l: "timer_left_ms n w timer = (l, w1)" by force
  obtain len bs w2 where r: "ipstack_read n w1 ?max l = Some (len, bs, w2)" "int (length bs) \<le> ?max"
    "len > 0 \<longrightarrow> len = int (length bs)" and w2: "later w w2"
    using reads [of ?max w1 l] size later_trans [OF later_ops(7) [OF l]] by (auto simp: later_def)
  let ?rb = "overlay bs (sc_readbuf c)"
  have b: "put_bytes (sc_readbuf c) 0 bs = Some ?rb"
    using put_bytes_overlay [of "[]" bs "sc_readbuf c" 0] r(2) size by simp
  have len_rb: "length ?rb = length (sc_readbuf c)"
    using r(2) size by simp
  have step: "sn_step cfg w c w2 (c\<lparr>sc_readbuf := ?rb\<rparr>)"
    using assms w2 len_rb r(2) by (simp add: sn_step_def SN_inv_def sn_frame_of_def drop_overlay)
  obtain ll dl where d: "MQTTSNPacket_decode ?rb len (Some 0) = Some (ll, dl)"
    using decode_total [of ?rb] len_rb size by fastforce
  have holds: "sn_holds ?max (uint (?rb ! nat ll)) ?rb" "load ?rb ll = Some (?rb ! nat ll)"
    if "dl = Some len" "\<not> len < 2"
  proof -
    have "MQTTSNPacket_decode ?rb len (Some 0) = Some (ll, Some len)" "2 \<le> len" "len \<le> ?max"
      using d that r(2,3) by auto
    note dec = decode_shorter [OF this] this
    then show "sn_holds ?max (uint (?rb ! nat ll)) ?rb"
      unfolding sn_holds_def by blast
    show "load ?rb ll = Some (?rb ! nat ll)"
      using dec(1) len_rb size by (auto simp: load_def)
  qed
  have "uint (?rb ! nat ll) < 256"
    using uint_lt2p [of "?rb ! nat ll"] by simp
  then show ?thesis
    using step holds by (auto simp: CppSN_readPacket_def l r(1) b d wp intro: later_step)
qed

lemma pingreq_returns:
  assumes "SN_inv cfg c"
  shows "returns (MQTTSNSerialize_pingreq (sc_sendbuf c) (MAX_MQTT_PACKET_SIZE cfg) MQTTSNString_initializer)
    (\<lambda>(buf, len). length buf = length (sc_sendbuf c) \<and> len \<le> MAX_MQTT_PACKET_SIZE cfg)"
proof -
  have "string_ok MQTTSN_PINGREQ MQTTSNString_initializer"
    by (simp add: string_ok_def string_body_def MQTTSNString_initializer_def frame_ok_def MQTTSNString_ok_def MQTTSNString_bytes_def
        cptr_holds_def)
  then show ?thesis
    using pingreq.memory_safe [of MQTTSNString_initializer "MAX_MQTT_PACKET_SIZE cfg" "sc_sendbuf c"] assms
    by (auto simp: returns_def SN_inv_def)
qed

lemma keepalive_step':
  assumes "sn_step cfg w0 c0 w c"
  shows "returns (CppSN_keepalive cfg n w c) (\<lambda>(rc, w', c'). sn_step cfg w0 c0 w' c' \<and> sc_readbuf c' = sc_readbuf c)"
  using assms sn_step_inv [OF assms]
  by (auto simp: CppSN_keepalive_def wp intro!: returns_mono [OF send_step] returns_mono [OF pingreq_returns])
     (blast intro: later_step sn_step_sendbuf)+


lemma acks_return:
  assumes "SN_inv cfg c"
  shows "returns (MQTTSNSerialize_regack (sc_sendbuf c) (MAX_MQTT_PACKET_SIZE cfg) i j r)
      (\<lambda>(buf, len). length buf = length (sc_sendbuf c) \<and> len \<le> MAX_MQTT_PACKET_SIZE cfg)"
    and "returns (MQTTSNSerialize_puback (sc_sendbuf c) (MAX_MQTT_PACKET_SIZE cfg) i j r)
      (\<lambda>(buf, len). length buf = length (sc_sendbuf c) \<and> len \<le> MAX_MQTT_PACKET_SIZE cfg)"
    and "returns (MQTTSNSerialize_pubrec (sc_sendbuf c) (MAX_MQTT_PACKET_SIZE cfg) i)
      (\<lambda>(buf, len). length buf = length (sc_sendbuf c) \<and> len \<le> MAX_MQTT_PACKET_SIZE cfg)"
    and "returns (MQTTSerialize_ack (sc_sendbuf c) (MAX_MQTT_PACKET_SIZE cfg) ty d i)
      (\<lambda>(buf, len). length buf = length (sc_sendbuf c) \<and> len \<le> MAX_MQTT_PACKET_SIZE cfg)"
  using snregack.memory_safe [where a = "(i, j, r)" and buflen = "MAX_MQTT_PACKET_SIZE cfg" and buf = "sc_sendbuf c"]
    snpuback.memory_safe [where a = "(i, j, r)" and buflen = "MAX_MQTT_PACKET_SIZE cfg" and buf = "sc_sendbuf c"]
    snack.memory_safe [where a = "(15, i)" and buflen = "MAX_MQTT_PACKET_SIZE cfg" and buf = "sc_sendbuf c"]
    ack.memory_safe [where a = "(ty, d, i)" and buf = "sc_sendbuf c" and buflen = "MAX_MQTT_PACKET_SIZE cfg"] assms
  by (auto simp: returns_def SN_inv_def snack_ok_def MQTTSNSerialize_pubrec_def)

text \<open>With no handler registered, a message goes to the default handler.\<close>

lemma deliver_loop_unsubscribed:
  "list_all (\<lambda>s. snh_topicFilter s = None) slots \<Longrightarrow> CppSN_deliverMessage_loop c t m slots rc calls = Some (rc, calls)"
  by (induction slots) (auto simp: CppSN_slot_matches_def split: option.splits)

lemma deliver_unsubscribed:
  assumes "unsubscribed c" "sn_step cfg w0 c0 w c"
  shows "returns (CppSN_deliverMessage c t m)
    (\<lambda>(rc, c'). sn_step cfg w0 c0 w c' \<and> sc_readbuf c' = sc_readbuf c \<and> sc_sendbuf c' = sc_sendbuf c)"
  using assms by (simp add: CppSN_deliverMessage_def unsubscribed_def deliver_loop_unsubscribed split: option.split)

lemma cycle_deliver_unsubscribed:
  assumes "unsubscribed c" "sn_step cfg w0 c0 w c"
  shows "returns (CppSN_cycle_deliver cfg c t m)
    (\<lambda>c'. sn_step cfg w0 c0 w c' \<and> sc_readbuf c' = sc_readbuf c \<and> sc_sendbuf c' = sc_sendbuf c)"
proof -
  have u: "unsubscribed (c\<lparr>sc_incomingQoS2messages := ms\<rparr>)" "sn_step cfg w0 c0 w (c\<lparr>sc_incomingQoS2messages := ms\<rparr>)" for ms
    using assms by (simp_all add: unsubscribed_def)
  show ?thesis
    using assms(2) returns_mono [OF deliver_unsubscribed [OF assms]] returns_mono [OF deliver_unsubscribed [OF u]]
    by (simp add: CppSN_cycle_deliver_def CppSN_useQoS2msgid_def wp Let_def split: prod.split) fastforce
qed

lemma cycle_register_step:
  assumes "sn_step cfg w0 c0 w c" "sn_holds (MAX_MQTT_PACKET_SIZE cfg) t (sc_readbuf c)"
  shows "returns (CppSN_cycle_register cfg n w c timer)
    (\<lambda>(rc, leave, w', c'). (rc = 0 \<or> rc = 255) \<and> sn_step cfg w0 c0 w' c' \<and> sc_readbuf c' = sc_readbuf c)"
proof -
  note inv = sn_step_inv [OF assms(1)]
  obtain r out where "MQTTSNDeserialize_register register_out_zero (sc_readbuf c) (MAX_MQTT_PACKET_SIZE cfg) = Some (r, out)"
    using sn_deserialisers_total(1) [OF assms(2) SN_sizes [OF inv]] by blast
  then show ?thesis
    using assms(1)
    by (auto simp: CppSN_cycle_register_def wp uchar_def simp del: if_split
       intro!: returns_mono [OF acks_return(1) [OF inv]] returns_mono [OF send_step] sn_step_sendbuf)
qed

lemma cycle_pubrec_step:
  assumes "sn_step cfg w0 c0 w c"
  shows "returns (CppSN_cycle_pubrec cfg n w c timer)
    (\<lambda>(rc, leave, w', c'). (rc = 0 \<or> rc = 255) \<and> sn_step cfg w0 c0 w' c' \<and> sc_readbuf c' = sc_readbuf c)"
proof -
  note inv = sn_step_inv [OF assms(1)]
  obtain r out where d: "MQTTDeserialize_ack \<lparr>ack_packettype = 0, ack_dup = 0, ack_packetid = 0\<rparr> (sc_readbuf c)
      (MAX_MQTT_PACKET_SIZE cfg) = Some (r, out)"
    using ack_total_bytes [of "sc_readbuf c"] inv by (fastforce simp: SN_inv_def)
  show ?thesis
  proof (cases "r = 1")
    case True
    then show ?thesis
      using d assms(1)
      by (auto simp: CppSN_cycle_pubrec_def wp uchar_def simp del: if_split
         intro!: returns_mono [OF acks_return(4) [OF inv]] returns_mono [OF send_step] sn_step_sendbuf)
  qed (use d assms in \<open>simp add: CppSN_cycle_pubrec_def uchar_def\<close>)
qed

lemma publish_ack_returns:
  assumes "SN_inv cfg c" "msg_qos m = 1 \<longrightarrow> (\<exists>i. data_id (topic_data t) = Some i)"
  shows "returns (CppSN_publish_ack cfg c t m) (\<lambda>(buf, len). length buf = length (sc_sendbuf c) \<and> len \<le> MAX_MQTT_PACKET_SIZE cfg)"
  using assms acks_return(2,3) [OF assms(1)] by (auto simp: CppSN_publish_ack_def SN_inv_def)

lemma sn_cycle_publish_step:
  assumes "sn_step cfg w0 c0 w c" "sn_holds (MAX_MQTT_PACKET_SIZE cfg) t (sc_readbuf c)" "unsubscribed c"
  shows "returns (CppSN_cycle_publish cfg n w c timer)
    (\<lambda>(rc, leave, w', c'). (rc = 0 \<or> rc = 255) \<and> sn_step cfg w0 c0 w' c' \<and> sc_readbuf c' = sc_readbuf c)"
proof -
  note inv = sn_step_inv [OF assms(1)]
  obtain r out where d: "MQTTSNDeserialize_publish snpublish_out_zero (sc_readbuf c) (MAX_MQTT_PACKET_SIZE cfg) = Some (r, out)"
    "r = 1 \<longrightarrow> snp_qos out = 3 \<or> (\<exists>i. data_id (topic_data (snp_topic out)) = Some i)"
    using snpublish_total [OF assms(2) SN_sizes [OF inv], of snpublish_out_zero] by blast
  show ?thesis
  proof (cases "r = 1")
    case True
    then show ?thesis
      using d
      by (auto simp: CppSN_cycle_publish_def wp uchar_def simp del: if_split
         intro!: returns_mono [OF cycle_deliver_unsubscribed [OF assms(3,1)]] returns_mono [OF publish_ack_returns]
           returns_mono [OF send_step] sn_step_sendbuf dest: sn_step_inv)
  qed (use d(1) assms in \<open>simp add: CppSN_cycle_publish_def\<close>)
qed


lemma unsubscribed_step: "sn_step cfg w c w' c' \<Longrightarrow> unsubscribed c \<Longrightarrow> unsubscribed c'"
  using unsubscribed_frame [of cfg c' c] by (simp add: sn_step_def)

lemma sn_cycle_dispatch_step:
  assumes "sn_step cfg w0 c0 w c" "unsubscribed c"
    and "t = 65535 \<or> sn_holds (MAX_MQTT_PACKET_SIZE cfg) t (sc_readbuf c)"
  shows "returns (CppSN_cycle_dispatch cfg n w c timer t)
    (\<lambda>(rc, leave, w', c'). (rc = 0 \<or> rc = 255) \<and> sn_step cfg w0 c0 w' c' \<and> sc_readbuf c' = sc_readbuf c)"
  using assms cycle_register_step [OF assms(1)] sn_cycle_publish_step [OF assms(1)] cycle_pubrec_step [OF assms(1)]
  by (auto simp: CppSN_cycle_dispatch_def)

lemma sn_cycle_step:
  assumes "SN_inv cfg c" "unsubscribed c"
  shows "returns (CppSN_cycle cfg n w c timer) (\<lambda>(rc, w', c'). sn_step cfg w c w' c' \<and> 0 \<le> rc \<and> rc \<le> 255 \<and>
    (rc = 255 \<or> sn_holds (MAX_MQTT_PACKET_SIZE cfg) rc (sc_readbuf c')))"
  by (auto simp: CppSN_cycle_def wp uchar_def intro!: returns_mono [OF read_returns' [OF assms(1)]]
      returns_mono [OF sn_cycle_dispatch_step] returns_mono [OF keepalive_step'] unsubscribed_step [OF _ assms(2)])

lemma sn_waitfor_loop_step:
  assumes "SN_inv cfg c" "unsubscribed c" "rc = FAILURE \<or> 0 \<le> rc \<and> rc \<le> 255 \<and> rc \<noteq> ty" "0 \<le> ty" "ty < 255"
  shows "returns (CppSN_waitfor_loop cfg n w c ty timer rc) (\<lambda>(rc, w', c'). sn_step cfg w c w' c' \<and>
    (rc = FAILURE \<or> 0 \<le> rc \<and> rc \<le> 255) \<and> (rc = ty \<longrightarrow> sn_holds (MAX_MQTT_PACKET_SIZE cfg) rc (sc_readbuf c')))"
  using assms(1-3)
proof (induction "ticks w timer" arbitrary: w c rc rule: less_induct)
  case less
  obtain e w1 where e: "timer_expired n w timer = (e, w1)" by force
  note w1 = later_ops(4) [OF e]
  show ?case
  proof (cases e)
    case True
    then show ?thesis
      using e less.prems w1 assms(4) by (subst CppSN_waitfor_loop.simps) (auto simp: sn_step_def)
  next
    case False
    have dec: "ticks w2 timer < ticks w timer" if "sn_step cfg w1 c w2 c2" for w2 c2
      using runs_down [of w timer w1] e False that by (fastforce simp: sn_step_def later_def intro: le_less_trans)
    have "returns (CppSN_waitfor_loop cfg n w2 c2 ty timer rc2) (\<lambda>(rc, w', c'). sn_step cfg w c w' c' \<and>
        (rc = FAILURE \<or> 0 \<le> rc \<and> rc \<le> 255) \<and> (rc = ty \<longrightarrow> sn_holds (MAX_MQTT_PACKET_SIZE cfg) rc (sc_readbuf c')))"
      if s: "sn_step cfg w1 c w2 c2" and r: "0 \<le> rc2" "rc2 \<le> 255" "rc2 \<noteq> ty" for rc2 w2 c2
    proof -
      have step: "sn_step cfg w c w2 c2"
        using sn_step_trans [OF later_step(4) [OF e sn_step_refl [OF less.prems(1)]] s] .
      note u = unsubscribed_step [OF s less.prems(2)]
      show ?thesis
        by (rule returns_mono [OF less.hyps [OF dec [OF s] sn_step_inv [OF s] u, of rc2]])
           (use r in \<open>auto intro: sn_step_trans [OF step]\<close>)
    qed
    then show ?thesis
      using e False assms(5) sn_step_trans [OF later_step(4) [OF e sn_step_refl [OF less.prems(1)]]]
      by (subst CppSN_waitfor_loop.simps) (auto simp: wp intro!: returns_mono [OF sn_cycle_step [OF less.prems(1,2)]])
  qed
qed

lemma sn_waitfor_step:
  assumes "sn_step cfg w0 c0 w c" "unsubscribed c" "0 \<le> ty" "ty < 255"
  shows "returns (CppSN_waitfor cfg n w c ty timer) (\<lambda>(rc, w', c'). sn_step cfg w0 c0 w' c' \<and>
    (rc = ty \<longrightarrow> sn_holds (MAX_MQTT_PACKET_SIZE cfg) rc (sc_readbuf c')))"
  unfolding CppSN_waitfor_def
  using sn_waitfor_loop_step [OF sn_step_inv [OF assms(1)] assms(2) _ assms(3,4), of FAILURE w timer]
  by (auto intro: sn_step_trans [OF assms(1)] elim!: returns_mono)

lemma sn_yield_loop_step:
  assumes "SN_inv cfg c" "unsubscribed c"
  shows "returns (CppSN_yield_loop cfg n w c timer) (\<lambda>(rc, w', c'). rc = SUCCESS \<and> sn_step cfg w c w' c')"
  using assms
proof (induction "ticks w timer" arbitrary: w c rule: less_induct)
  case less
  obtain e w1 where e: "timer_expired n w timer = (e, w1)" by force
  show ?case
  proof (cases e)
    case True
    then show ?thesis
      using e later_step(4) [OF e sn_step_refl [OF less.prems(1)]] by (subst CppSN_yield_loop.simps) simp
  next
    case False
    have "returns (CppSN_yield_loop cfg n w2 c2 timer) (\<lambda>(rc, w', c'). rc = SUCCESS \<and> sn_step cfg w c w' c')"
      if s: "sn_step cfg w1 c w2 c2" for w2 c2
    proof -
      have "ticks w2 timer < ticks w timer"
        using runs_down [of w timer w1] e False s by (fastforce simp: sn_step_def later_def intro: le_less_trans)
      then show ?thesis
        using less.hyps [OF _ sn_step_inv [OF s] unsubscribed_step [OF s less.prems(2)]] sn_step_trans [OF sn_step_trans [OF later_step(4) [OF e sn_step_refl [OF less.prems(1)]] s]]
        by (fastforce elim!: returns_mono)
    qed
    then show ?thesis
      using e False by (subst CppSN_yield_loop.simps) (auto simp: wp intro!: returns_mono [OF sn_cycle_step [OF less.prems]])
  qed
qed


lemma send_same:
  assumes "sn_step cfg w0 c0 w c" "0 < len" "len \<le> MAX_MQTT_PACKET_SIZE cfg"
  shows "returns (CppSN_sendPacket n w c len timer) (\<lambda>(rc, w', c'). (rc = SUCCESS \<or> rc = FAILURE) \<and>
    sn_step cfg w0 c0 w' c' \<and> sc_readbuf c' = sc_readbuf c)"
  using send_step [OF assms(1) refl assms(2,3), of timer] by simp

lemma await_puback_step:
  assumes "sn_step cfg w0 c0 w c" "unsubscribed c"
  shows "returns (CppSN_await_puback cfg n w c timer) (\<lambda>(rc, w', c'). (rc = SUCCESS \<or> rc = FAILURE) \<and> sn_step cfg w0 c0 w' c')"
proof -
  have "\<exists>r out. MQTTSNDeserialize_ack \<lparr>snack_type = 0, snack_packetid = 0\<rparr> (sc_readbuf c') (MAX_MQTT_PACKET_SIZE cfg) = Some (r, out)"
    if "sn_step cfg w0 c0 w' c'" "sn_holds (MAX_MQTT_PACKET_SIZE cfg) 13 (sc_readbuf c')" for w' c'
    using sn_deserialisers_total(2) [OF that(2) SN_sizes [OF sn_step_inv [OF that(1)]]] .
  moreover have "sn_step cfg w0 c0 w' (c'\<lparr>sc_inflightMsgid := 0\<rparr>)" if "sn_step cfg w0 c0 w' c'" for w' c'
    using that SN_inv_acked by (auto simp: sn_step_def)
  ultimately show ?thesis
    by (fastforce simp: CppSN_await_puback_def wp intro!: returns_mono [OF sn_waitfor_step [OF assms]])
qed

lemma sn_publish_buf_step:
  assumes "sn_step cfg w0 c0 w c" "unsubscribed c0" "0 < len" "len \<le> MAX_MQTT_PACKET_SIZE cfg"
  shows "returns (CppSN_publish_buf cfg n w c len timer qos) (\<lambda>(rc, w', c'). sn_step cfg w0 c0 w' c' \<and>
    (rc = SUCCESS \<or> rc = FAILURE \<and> \<not> sc_isconnected c'))"
  by (auto simp: CppSN_publish_buf_def wp intro!: returns_mono [OF send_same [OF assms(1,3,4)]]
     returns_mono [OF await_puback_step] unsubscribed_step [OF _ assms(2)])


lemma serialisers_return:
  assumes "SN_inv cfg c"
  shows "snpublish_ok (0, qos, ret, i, topic, pl, k) \<Longrightarrow>
      returns (MQTTSNSerialize_publish (sc_sendbuf c) (MAX_MQTT_PACKET_SIZE cfg) 0 qos ret i topic pl k)
      (\<lambda>(buf, len). length buf = length (sc_sendbuf c) \<and> len \<le> MAX_MQTT_PACKET_SIZE cfg)"
    and "snconnect_ok options \<Longrightarrow> returns (MQTTSNSerialize_connect (sc_sendbuf c) (MAX_MQTT_PACKET_SIZE cfg) options)
      (\<lambda>(buf, len). length buf = length (sc_sendbuf c) \<and> len \<le> MAX_MQTT_PACKET_SIZE cfg)"
    and "snsubscribe_ok (0, qos, i, topic) \<Longrightarrow>
      returns (MQTTSNSerialize_subscribe (sc_sendbuf c) (MAX_MQTT_PACKET_SIZE cfg) 0 qos i topic)
      (\<lambda>(buf, len). length buf = length (sc_sendbuf c) \<and> len \<le> MAX_MQTT_PACKET_SIZE cfg)"
    and "snunsubscribe_ok (i, topic) \<Longrightarrow> returns (MQTTSNSerialize_unsubscribe (sc_sendbuf c) (MAX_MQTT_PACKET_SIZE cfg) i topic)
      (\<lambda>(buf, len). length buf = length (sc_sendbuf c) \<and> len \<le> MAX_MQTT_PACKET_SIZE cfg)"
    and "returns (MQTTSNSerialize_disconnect (sc_sendbuf c) (MAX_MQTT_PACKET_SIZE cfg) (if dur = 0 then - 1 else uint dur))
      (\<lambda>(buf, len). length buf = length (sc_sendbuf c) \<and> len \<le> MAX_MQTT_PACKET_SIZE cfg)"
proof -
  have size: "MAX_MQTT_PACKET_SIZE cfg \<le> int (length (sc_sendbuf c))" "10 \<le> MAX_MQTT_PACKET_SIZE cfg"
    using assms by (simp_all add: SN_inv_def)
  show "snpublish_ok (0, qos, ret, i, topic, pl, k) \<Longrightarrow>
      returns (MQTTSNSerialize_publish (sc_sendbuf c) (MAX_MQTT_PACKET_SIZE cfg) 0 qos ret i topic pl k)
      (\<lambda>(buf, len). length buf = length (sc_sendbuf c) \<and> len \<le> MAX_MQTT_PACKET_SIZE cfg)"
    using snpublish.memory_safe [where a = "(0, qos, ret, i, topic, pl, k)", OF _ size(1)] size(2)
    by (auto simp: returns_def simp del: snpublish_ok.simps)
  show "snconnect_ok options \<Longrightarrow> returns (MQTTSNSerialize_connect (sc_sendbuf c) (MAX_MQTT_PACKET_SIZE cfg) options)
      (\<lambda>(buf, len). length buf = length (sc_sendbuf c) \<and> len \<le> MAX_MQTT_PACKET_SIZE cfg)"
    using snconnect.memory_safe [where a = options, OF _ size(1)] size(2) by (auto simp: returns_def)
  show "snsubscribe_ok (0, qos, i, topic) \<Longrightarrow>
      returns (MQTTSNSerialize_subscribe (sc_sendbuf c) (MAX_MQTT_PACKET_SIZE cfg) 0 qos i topic)
      (\<lambda>(buf, len). length buf = length (sc_sendbuf c) \<and> len \<le> MAX_MQTT_PACKET_SIZE cfg)"
    using snsubscribe.memory_safe [where a = "(0, qos, i, topic)", OF _ size(1)] size(2)
    by (auto simp: returns_def simp del: snsubscribe_ok.simps)
  show "snunsubscribe_ok (i, topic) \<Longrightarrow> returns (MQTTSNSerialize_unsubscribe (sc_sendbuf c) (MAX_MQTT_PACKET_SIZE cfg) i topic)
      (\<lambda>(buf, len). length buf = length (sc_sendbuf c) \<and> len \<le> MAX_MQTT_PACKET_SIZE cfg)"
    using snunsubscribe.memory_safe [where a = "(i, topic)", OF _ size(1)] size(2)
    by (auto simp: returns_def simp del: snunsubscribe_ok.simps)
  show "returns (MQTTSNSerialize_disconnect (sc_sendbuf c) (MAX_MQTT_PACKET_SIZE cfg) (if dur = 0 then - 1 else uint dur))
      (\<lambda>(buf, len). length buf = length (sc_sendbuf c) \<and> len \<le> MAX_MQTT_PACKET_SIZE cfg)"
    using size by (auto simp: returns_def MQTTSNSerialize_disconnect_eq emit_rc_def emit_def sn_frame_def disconnect_body_def
       sn_len_field_def MQTTSNPacket_len_def)
qed

lemma getNext_step:
  "SNPacketId_getNext c = (i, c') \<Longrightarrow> sn_step cfg w0 c0 w c \<Longrightarrow> sn_step cfg w0 c0 w c' \<and> sc_topics c' = sc_topics c \<and>
    sc_messageHandlers c' = sc_messageHandlers c \<and> sc_isconnected c' = sc_isconnected c"
  using SN_inv_getNext [of cfg c i c'] by (auto simp: sn_step_def)

lemma sn_store_inflight_step:
  assumes "SN_inv cfg c" "0 < len" "len \<le> MAX_MQTT_PACKET_SIZE cfg"
  shows "returns (CppSN_store_inflight cfg c i len qos) (\<lambda>c'. \<forall>w0 c0 w. sn_step cfg w0 c0 w c \<longrightarrow> sn_step cfg w0 c0 w c')"
proof -
  have size: "int (length (sc_pubbuf c)) = MAX_MQTT_PACKET_SIZE cfg" "int (length (sc_sendbuf c)) = MAX_MQTT_PACKET_SIZE cfg"
    using assms(1) by (simp_all add: SN_inv_def)
  show ?thesis
    using assms size by (auto simp: CppSN_store_inflight_def put_bytes_def wp sn_step_def SN_inv_def)
qed

lemma sn_timer_step: "SN_inv cfg c \<Longrightarrow> Timer_ms n w t = (x, w1) \<Longrightarrow> sn_step cfg w c w1 c"
  using later_step(3) sn_step_refl by blast

lemma sn_publish_step:
  assumes "SN_inv cfg c" "unsubscribed c" "\<forall>i. snpublish_ok (0, qos, ret, i, topic, pl, int_of_size k)"
  shows "returns (CppSN_publish_id cfg n w c topic pl k i qos ret) (\<lambda>(rc, w', c', _). sn_step cfg w c w' c' \<and>
    (rc = SUCCESS \<or> rc = FAILURE))"
proof -
  have id: "sn_step cfg w c w1 c'" if "CppSN_take_id cfg c i qos = (j, c')" "Timer_ms n w t = (x, w1)" for t x w1 j c'
    using that sn_timer_step [OF assms(1) that(2)]
    by (auto simp: CppSN_take_id_def Let_def intro: getNext_step [THEN conjunct1] split: if_splits prod.splits)
  have inv: "SN_inv cfg c'" if "CppSN_take_id cfg c i qos = (j, c')" for j c'
    using that assms(1) SN_inv_getNext by (fastforce simp: CppSN_take_id_def Let_def split: if_splits prod.splits)
  note ser = returns_mono [OF serialisers_return(1)] and store = returns_mono [OF sn_store_inflight_step]
    and pub = returns_mono [OF sn_publish_buf_step [where ?w0.0 = w and ?c0.0 = c]]
  show ?thesis
    using assms(3)
    by (auto simp: CppSN_publish_id_def wp simp del: snpublish_ok.simps intro!: ser store pub
       assms(2) intro: id inv sn_step_sendbuf sn_timer_step [OF assms(1)]) (blast intro: id sn_step_sendbuf)
qed

lemma resend_step:
  assumes "sn_step cfg w0 c0 w c" "unsubscribed c0"
  shows "returns (CppSN_resend_inflight cfg n w c timer rc0) (\<lambda>(rc, w', c'). sn_step cfg w0 c0 w' c')"
proof -
  note inv = sn_step_inv [OF assms(1)]
  have n: "length (sc_pubbuf c) = length (sc_sendbuf c)" "MAX_MQTT_PACKET_SIZE cfg = int (length (sc_sendbuf c))"
    using inv by (simp_all add: SN_inv_def)
  then have pub: "put_bytes (sc_sendbuf c) 0 (take (nat (MAX_MQTT_PACKET_SIZE cfg)) (sc_pubbuf c)) = Some (sc_pubbuf c)"
    by (simp add: put_bytes_def)
  have len: "0 < sc_inflightLen c" "sc_inflightLen c \<le> MAX_MQTT_PACKET_SIZE cfg"
    if "MQTTCLIENT_QOS1 cfg \<or> MQTTCLIENT_QOS2 cfg" "0 < sc_inflightMsgid c"
    using inv that by (auto simp: SN_inv_def word_greater_zero_iff)
  note ser = returns_mono [OF acks_return(4) [OF inv]]
    and buf = returns_mono [OF sn_publish_buf_step [where ?w0.0 = w0 and ?c0.0 = c0 and cfg = cfg]]
  show ?thesis
    using assms pub n(1) len
    by (auto simp: CppSN_resend_inflight_def wp intro!: ser buf sn_step_sendbuf)
qed

lemma sn_read_connack_returns:
  assumes "SN_inv cfg c" "t = 5 \<longrightarrow> sn_holds (MAX_MQTT_PACKET_SIZE cfg) t (sc_readbuf c)"
  shows "returns (CppSN_read_connack abi cfg c t) (\<lambda>rc. True)"
  using assms(2) sn_deserialisers_total(5) [OF _ SN_sizes [OF assms(1)], of 5 abi 255]
  by (auto simp: CppSN_read_connack_def wp)

lemma sn_start_received_step:
  "CppSN_start_received n w1 c1 = (w2, c2) \<Longrightarrow> sn_step cfg w c w1 c1 \<Longrightarrow> sn_step cfg w c w2 c2"
  using later_step(6) by (auto simp: CppSN_start_received_def split: if_splits prod.splits)

lemma sn_connect_step:
  assumes "SN_inv cfg c" "unsubscribed c" "snconnect_ok options"
  shows "returns (CppSN_connect_options abi cfg n w c options) (\<lambda>(rc, w', c'). sn_step cfg w c w' c' \<and>
    (rc = SUCCESS \<longrightarrow> sc_isconnected c'))"
proof -
  have 1: "sn_step cfg w c w1 (c\<lparr>sc_duration := d, sc_cleansession := b\<rparr>)" if "Timer_ms n w t = (x, w1)" for t x w1 d b
    using sn_timer_step [OF assms(1) that] by (simp add: sn_step_def)
  note ser = returns_mono [OF serialisers_return(2) [OF assms(1,3)]]
    and send = returns_mono [OF send_step [where ?w0.0 = w and ?c0.0 = c and cfg = cfg]]
    and wait = returns_mono [OF sn_waitfor_step [where ?w0.0 = w and ?c0.0 = c and cfg = cfg]]
    and resend = returns_mono [OF resend_step [where ?w0.0 = w and ?c0.0 = c and cfg = cfg, OF _ assms(2)]]
  show ?thesis
    by (auto simp: CppSN_connect_options_def wp intro!: ser send wait resend returns_mono [OF sn_read_connack_returns]
       unsubscribed_step [OF _ assms(2)] intro: 1 sn_timer_step [OF assms(1)] sn_step_sendbuf sn_start_received_step sn_step_inv)
qed


lemma sn_unsubscribe_step:
  assumes "SN_inv cfg c" "unsubscribed c" "\<forall>i. snunsubscribe_ok (i, sc_topics c a)"
  shows "returns (CppSN_unsubscribe cfg n w c a) (\<lambda>(rc, w', c'). sn_step cfg w c w' c' \<and>
    (rc = SUCCESS \<or> rc = FAILURE \<and> \<not> sc_isconnected c'))"
proof -
  obtain t w1 where t: "Timer_ms n w (int_of_size (sc_command_timeout_ms c)) = (t, w1)" by force
  obtain j c1 where j: "SNPacketId_getNext c = (j, c1)" by force
  note c = sn_timer_step [OF assms(1) t]
  have c1: "sn_step cfg w c w1 c1" "SN_inv cfg c1" "sc_topics c1 = sc_topics c"
    using getNext_step [OF j c] SN_inv_getNext [OF assms(1) j] by auto
  have un: "returns (MQTTSNDeserialize_unsuback 0 (sc_readbuf c1) (MAX_MQTT_PACKET_SIZE cfg)) (\<lambda>_. True)"
    if "sn_step cfg w c w1 c1" "sn_holds (MAX_MQTT_PACKET_SIZE cfg) 21 (sc_readbuf c1)" for w1 c1
    using sn_deserialisers_total(4) [OF that(2) SN_sizes [OF sn_step_inv [OF that(1)]]] by (auto simp: returns_def)
  note ser = returns_mono [OF serialisers_return(4)]
    and send = returns_mono [OF send_step [where ?w0.0 = w and ?c0.0 = c and cfg = cfg]]
    and wait = returns_mono [OF sn_waitfor_step [where ?w0.0 = w and ?c0.0 = c and cfg = cfg]]
  show ?thesis
    using assms(3) c c1
    by (auto simp: CppSN_unsubscribe_def wp t j simp del: snunsubscribe_ok.simps intro!: ser send wait returns_mono [OF un]
       unsubscribed_step [OF _ assms(2)] intro: sn_step_sendbuf)
qed

text \<open>\<open>subscribe\<close> returns too, and may register one handler.\<close>

lemma subscribe_returns:
  assumes "SN_inv cfg c" "unsubscribed c" "\<forall>i. snsubscribe_ok (0, qos, i, sc_topics c a)"
  shows "returns (CppSN_subscribe cfg n w c a qos h) (\<lambda>(rc, w', c'). later w w' \<and> SN_inv cfg c' \<and>
    (rc = SUCCESS \<or> rc = FAILURE \<or> rc = MAX_SUBSCRIPTIONS_EXCEEDED))"
proof -
  obtain t w1 where t: "Timer_ms n w (int_of_size (sc_command_timeout_ms c)) = (t, w1)" by force
  obtain j c1 where j: "SNPacketId_getNext c = (j, c1)" by force
  note c = sn_timer_step [OF assms(1) t]
  have c1: "sn_step cfg w c w1 c1" "SN_inv cfg c1" "sc_topics c1 = sc_topics c"
    using getNext_step [OF j c] SN_inv_getNext [OF assms(1) j] by auto
  have sub: "returns (CppSN_read_suback cfg c1 a qos h) (SN_inv cfg)"
    if "sn_step cfg w c w1 c1" "sn_holds (MAX_MQTT_PACKET_SIZE cfg) 19 (sc_readbuf c1)" for w1 c1
    using sn_deserialisers_total(3) [OF that(2) SN_sizes [OF sn_step_inv [OF that(1)]],
        of "\<lparr>snsa_qos = - 1, snsa_topicid = 0, snsa_packetid = 0, snsa_returncode = 0\<rparr>"] sn_step_inv [OF that(1)]
    by (auto simp: CppSN_read_suback_def CppSN_add_handler_def wp Let_def)
  note ser = returns_mono [OF serialisers_return(3)]
    and send = returns_mono [OF send_step [where ?w0.0 = w and ?c0.0 = c and cfg = cfg]]
    and wait = returns_mono [OF sn_waitfor_step [where ?w0.0 = w and ?c0.0 = c and cfg = cfg]]
  have l: "sn_step cfg w c w' c' \<Longrightarrow> later w w'" for w' c' by (simp add: sn_step_def)
  show ?thesis
    using assms(1,3) c1 l [OF c]
    by (auto simp: CppSN_subscribe_def wp t j simp del: snsubscribe_ok.simps intro!: ser send wait returns_mono [OF sub]
       unsubscribed_step [OF _ assms(2)] intro: l sn_step_sendbuf sn_step_inv)
qed

lemma sn_disconnect_step:
  assumes "SN_inv cfg c"
  shows "returns (CppSN_disconnect cfg n w c dur) (\<lambda>(rc, w', c'). sn_step cfg w c w' c' \<and>
    (rc = SUCCESS \<or> rc = FAILURE) \<and> \<not> sc_isconnected c')"
proof -
  note ser = returns_mono [OF serialisers_return(5) [OF assms]]
    and send = returns_mono [OF send_step [where ?w0.0 = w and ?c0.0 = c and cfg = cfg]]
  show ?thesis
    unfolding CppSN_disconnect_def returns_Let returns_prod returns_simps
    by (intro allI impI ser) (auto simp: wp intro!: send intro: sn_timer_step [OF assms] sn_step_sendbuf)
qed

end
end
