(* ===== verification/MQTTSN_Cpp_Protocol.thy ===== *)
theory MQTTSN_Cpp_Protocol
  imports MQTTSN_Cpp_Safety
begin

text \<open>
  What the C++ client for MQTT-SN does with the datagrams it gets. The locale \<open>cpp_dgram_net\<close> extends the platform by the datagrams that
  have arrived and were not read yet.
\<close>

subsection \<open>Delivery\<close>

text \<open>Two topics that are identifiers or short names are the same for the client if their types and their two bytes are.\<close>

definition same_topic :: "MQTTSN_topicid \<Rightarrow> MQTTSN_topicid \<Rightarrow> bool" where
  "same_topic a b \<longleftrightarrow> topic_type a = topic_type b \<and> data_id (topic_data a) = data_id (topic_data b)"

definition has_id :: "MQTTSN_topicid \<Rightarrow> bool" where
  "has_id a \<longleftrightarrow> data_id (topic_data a) \<noteq> None"

definition registered :: "('t, 'h) CppSNClient \<Rightarrow> MQTTSN_topicid list" where
  "registered c = map (sc_topics c) (List.map_filter snh_topicFilter (sc_messageHandlers c))"

definition CppSN_targets :: "('t, 'h) CppSNClient \<Rightarrow> 'h list" where
  "CppSN_targets c =
     (let hs = List.map_filter snh_fp (filter (\<lambda>s. snh_topicFilter s \<noteq> None) (sc_messageHandlers c))
      in if hs = [] then (case sc_defaultMessageHandler c of Some h \<Rightarrow> [h] | None \<Rightarrow> []) else hs)"

lemma data_short_id: "data_id x = data_id y \<Longrightarrow> data_id x \<noteq> None \<Longrightarrow> data_short x = data_short y"
proof -
  have u: "ucast a + push_bit 8 (ucast b) = or (ucast a) (push_bit 8 (ucast b) :: u16)" for a b :: byte
    by (rule disjunctive_add_eq_or, rule bit_word_eqI) (auto simp: bit_simps dest: bit_imp_le_length)
  have 1: "ucast (ucast a + push_bit 8 (ucast b :: u16) :: u16) = a" for a b :: byte
    unfolding u by (rule bit_word_eqI) (auto simp: bit_simps)
  have 2: "ucast (drop_bit 8 (ucast a + push_bit 8 (ucast b :: u16) :: u16)) = b" for a b :: byte
    unfolding u by (rule bit_word_eqI) (auto simp: bit_simps dest: bit_imp_le_length)
  have inj: "a = c \<and> b = d" if "ucast a + push_bit 8 (ucast b) = (ucast c + push_bit 8 (ucast d) :: u16)" for a b c d :: byte
    using 1 [of a b] 1 [of c d] 2 [of a b] 2 [of c d] unfolding that by simp
  assume "data_id x = data_id y" "data_id x \<noteq> None"
  then show "data_short x = data_short y"
    by (cases x; cases y) (auto simp: 1 2 dest: inj)
qed

lemma equals_ids:
  assumes "has_id a" "has_id b"
  shows "MQTTSNTopic_equals a b = Some (same_topic a b)"
proof -
  obtain i j where i: "data_id (topic_data a) = Some i" "data_id (topic_data b) = Some j"
    using assms by (auto simp: has_id_def)
  have s: "\<exists>p. data_short (topic_data a) = Some p" "\<exists>p. data_short (topic_data b) = Some p"
    using i by (cases "topic_data a"; cases "topic_data b"; auto)+
  show ?thesis
    using i s data_short_id [of "topic_data a" "topic_data b"] by (auto simp: MQTTSNTopic_equals_def same_topic_def)
qed

lemma slot_matches_id:
  assumes "has_id t" "snh_topicFilter s = Some a" "has_id (sc_topics c a)"
  shows "CppSN_slot_matches c t s = (if same_topic t (sc_topics c a) then Some True else None)"
proof -
  have "data_long (topic_data t) = None"
    using assms(1) by (cases "topic_data t") (auto simp: has_id_def)
  then show ?thesis
    using assms equals_ids [OF assms(1,3)] by (simp add: CppSN_slot_matches_def)
qed

lemma deliver_loop_ids:
  assumes "has_id t" "\<forall>b \<in> set (map (sc_topics c) (List.map_filter snh_topicFilter slots)). has_id b"
  shows "CppSN_deliverMessage_loop c t m slots rc calls =
    (if \<forall>b \<in> set (map (sc_topics c) (List.map_filter snh_topicFilter slots)). same_topic t b
     then let hs = List.map_filter snh_fp (filter (\<lambda>s. snh_topicFilter s \<noteq> None) slots)
          in Some (if hs = [] then rc else SUCCESS, calls @ map (\<lambda>h. (h, t, m)) hs)
     else None)"
  using assms(2)
proof (induction slots arbitrary: rc calls)
  case Nil
  then show ?case by (simp add: List.map_filter_def)
next
  case (Cons s slots)
  show ?case
  proof (cases "snh_topicFilter s")
    case None
    then have "CppSN_slot_matches c t s = Some False"
      by (simp add: CppSN_slot_matches_def)
    then show ?thesis
      using Cons None by (simp add: map_filter_simps)
  next
    case (Some a)
    then have "CppSN_slot_matches c t s = (if same_topic t (sc_topics c a) then Some True else None)"
      using Cons.prems by (intro slot_matches_id [OF assms(1)]) (simp_all add: map_filter_simps)
    then show ?thesis
      using Cons Some by (cases "snh_fp s") (auto simp: map_filter_simps Let_def)
  qed
qed


lemma deliver_ids:
  assumes "has_id t" "\<forall>b \<in> set (registered c). has_id b"
  shows "CppSN_deliverMessage c t m =
    (if \<forall>b \<in> set (registered c). same_topic t b
     then Some (if CppSN_targets c = [] then FAILURE else SUCCESS,
                c\<lparr>sc_delivered := sc_delivered c @ map (\<lambda>h. (h, t, m)) (CppSN_targets c)\<rparr>)
     else None)"
  using assms
  by (cases "sc_defaultMessageHandler c")
     (auto simp: CppSN_deliverMessage_def deliver_loop_ids registered_def CppSN_targets_def Let_def)

lemma deliver_same:
  assumes "has_id t" "\<forall>b \<in> set (registered c). has_id b" "\<forall>b \<in> set (registered c). same_topic t b" "msg_qos m \<noteq> 2"
  shows "CppSN_cycle_deliver cfg c t m = Some (c\<lparr>sc_delivered := sc_delivered c @ map (\<lambda>h. (h, t, m)) (CppSN_targets c)\<rparr>)"
  using deliver_ids [OF assms(1,2), of m] assms(3,4) by (simp add: CppSN_cycle_deliver_def)

subsection \<open>A PUBACK is never understood\<close>

text \<open>Partial correctness: if a computation has a result, the result satisfies \<open>P\<close>.\<close>

definition whenever :: "'a option \<Rightarrow> ('a \<Rightarrow> bool) \<Rightarrow> bool" where
  "whenever m P \<longleftrightarrow> (\<forall>x. m = Some x \<longrightarrow> P x)"

named_theorems wlp \<open>weakest liberal preconditions of the constructs of the model\<close>

lemma whenever_simps [wlp]:
  "whenever (Some x) P = P x"
  "whenever None P = True"
  "whenever (Option.bind m f) P = whenever m (\<lambda>x. whenever (f x) P)"
  "whenever (map_option g m) P = whenever m (\<lambda>x. P (g x))"
  "whenever (if b then k1 else k2) P = ((b \<longrightarrow> whenever k1 P) \<and> (\<not> b \<longrightarrow> whenever k2 P))"
  "whenever (case p of (a, b) \<Rightarrow> h a b) P = (\<forall>a b. p = (a, b) \<longrightarrow> whenever (h a b) P)"
  "whenever (Let t l) P = whenever (l t) P"
  by (cases m; cases p; auto simp: whenever_def Let_def)+

lemma whenever_mono: "whenever m Q \<Longrightarrow> (\<And>x. Q x \<Longrightarrow> P x) \<Longrightarrow> whenever m P"
  by (auto simp: whenever_def)

lemma whenever_any: "(\<And>x. P x) \<Longrightarrow> whenever m P"
  by (simp add: whenever_def)

lemma whenever_send:
  "whenever (CppSN_sendPacket n w c len timer) (\<lambda>(rc, w', c'). (rc = SUCCESS \<or> rc = FAILURE) \<and> sc_readbuf c' = sc_readbuf c)"
  by (auto simp: CppSN_sendPacket_def wlp intro: whenever_any)

lemma whenever_keepalive: "whenever (CppSN_keepalive cfg n w c) (\<lambda>(rc, w', c'). sc_readbuf c' = sc_readbuf c)"
  by (auto simp: CppSN_keepalive_def wlp intro: whenever_any intro!: whenever_mono [OF whenever_send])

lemmas codecs_any =
  whenever_any [where m = "MQTTSNDeserialize_register a b c" for a b c]
  whenever_any [where m = "MQTTSNDeserialize_publish a b c" for a b c]
  whenever_any [where m = "MQTTDeserialize_ack a b c" for a b c]
  whenever_any [where m = "MQTTSNSerialize_regack a b c d e" for a b c d e]
  whenever_any [where m = "MQTTSerialize_ack a b c d e" for a b c d e]
  whenever_any [where m = "CppSN_publish_ack a b c d" for a b c d]
  whenever_any [where m = "CppSN_cycle_deliver a b c d" for a b c d]

lemma whenever_dispatch:
  "whenever (CppSN_cycle_dispatch cfg n w c timer t)
     (\<lambda>(rc, leave, w', c'). (rc = 0 \<or> rc = 255) \<and> (t = 13 \<longrightarrow> c' = c))"
  by (auto simp: CppSN_cycle_dispatch_def CppSN_cycle_register_def CppSN_cycle_publish_def CppSN_cycle_pubrec_def wlp uchar_def
     intro!: codecs_any whenever_mono [OF whenever_send])

definition puback_in :: "buffer \<Rightarrow> bool" where
  "puback_in buf \<longleftrightarrow> (\<exists>l k. MQTTSNPacket_decode buf k (Some 0) = Some (l, Some k) \<and> 2 \<le> k \<and> load buf l = Some 13)"

lemma puback_inI: "MQTTSNPacket_decode buf k (Some 0) = Some (l, Some k) \<Longrightarrow> \<not> k < 2 \<Longrightarrow> load buf l = Some 13 \<Longrightarrow> puback_in buf"
  unfolding puback_in_def by force

lemma whenever_read:
  "whenever (CppSN_readPacket cfg n w c timer) (\<lambda>(rc, w', c'). rc = FAILURE \<or> 0 \<le> rc \<and> rc < 256 \<and> (rc = 13 \<longrightarrow> puback_in (sc_readbuf c')))"
proof -
  have 13: "uint ch = 13 \<longleftrightarrow> ch = 13" for ch :: byte
    using word_uint_eq_iff [of ch 13] by simp
  have 256: "uint ch < 256" for ch :: byte
    using uint_lt2p [of ch] by simp
  show ?thesis
    by (simp add: CppSN_readPacket_def wlp) (auto simp: whenever_def 13 256 intro: puback_inI)
qed

lemma whenever_cycle:
  "whenever (CppSN_cycle cfg n w c timer) (\<lambda>(rc, w', c'). rc = 13 \<longrightarrow> puback_in (sc_readbuf c'))"
  by (auto simp: CppSN_cycle_def wlp uchar_def intro!: whenever_mono [OF whenever_read] whenever_mono [OF whenever_dispatch]
     whenever_mono [OF whenever_keepalive])

lemma waitfor_loop_type:
  assumes "CppSN_waitfor_loop cfg n w c ty timer rc = Some x"
  shows "ty = 13 \<longrightarrow> rc \<noteq> 13 \<longrightarrow> (case x of (rc, w', c') \<Rightarrow> rc = 13 \<longrightarrow> puback_in (sc_readbuf c'))"
proof (rule CppSN_waitfor_loop.raw_induct [where P = "\<lambda>cfg n w c ty timer rc x. ty = 13 \<longrightarrow> rc \<noteq> 13 \<longrightarrow>
    (case x of (rc, w', c') \<Rightarrow> rc = 13 \<longrightarrow> puback_in (sc_readbuf c'))", OF _ assms])
  fix loop cfg w c ty timer rc x and n :: "('a, 'b) net_ops"
  assume IH: "\<And>cfg n w c ty timer rc x. loop cfg n w c ty timer rc = Some x \<Longrightarrow> ty = 13 \<longrightarrow> rc \<noteq> 13 \<longrightarrow>
      (case x of (rc, w', c') \<Rightarrow> rc = 13 \<longrightarrow> puback_in (sc_readbuf c'))"
    and step: "(case timer_expired n w timer of (expired, w) \<Rightarrow> if expired then Some (rc, w, c)
      else Option.bind (CppSN_cycle cfg n w c timer) (\<lambda>(rc, w, c).
        if rc \<noteq> ty then loop cfg n w c ty timer rc else Some (rc, w, c))) = Some x"
  obtain e w1 where e: "timer_expired n w timer = (e, w1)" by force
  show "ty = 13 \<longrightarrow> rc \<noteq> 13 \<longrightarrow> (case x of (rc, w', c') \<Rightarrow> rc = 13 \<longrightarrow> puback_in (sc_readbuf c'))"
  proof (cases e)
    case False
    then obtain rc2 w2 c2 where r: "CppSN_cycle cfg n w1 c timer = Some (rc2, w2, c2)"
      and l: "if rc2 \<noteq> ty then loop cfg n w2 c2 ty timer rc2 = Some x else x = (rc2, w2, c2)"
      using step e by (auto simp: bind_eq_Some_conv split: if_splits)
    then show ?thesis
      using IH [of cfg n w2 c2 ty timer rc2 x] whenever_cycle [of cfg n w1 c timer]
      by (auto simp: whenever_def split: if_splits)
  qed (use step e in auto)
qed

lemma whenever_waitfor:
  "whenever (CppSN_waitfor cfg n w c 13 timer) (\<lambda>(rc, w', c'). rc = 13 \<longrightarrow> puback_in (sc_readbuf c'))"
  using waitfor_loop_type by (fastforce simp: whenever_def CppSN_waitfor_def)

lemma ack_rejects_puback:
  assumes "puback_in buf" "3 \<le> n"
  shows "whenever (MQTTSNDeserialize_ack out buf n) (\<lambda>(r, out'). r = 0)"
proof -
  obtain l k where l: "MQTTSNPacket_decode buf k (Some 0) = Some (l, Some k)" "2 \<le> k" "load buf l = Some 13"
    using assms(1) by (auto simp: puback_in_def)
  have "MQTTSNPacket_decode buf n (Some 0) = Some (l, Some k)" "l = 1 \<or> l = 3"
    using l(1,2) assms(2) by (cases buf; auto simp: MQTTSNPacket_decode_def split: if_splits Option.bind_splits prod.splits)+
  moreover have "\<exists>ys. drop (nat l) buf = 13 # ys"
    using l(3) by (auto simp: load_def Cons_nth_drop_Suc [symmetric] split: if_splits)
  ultimately show ?thesis
    by (auto simp: MQTTSNDeserialize_ack_def sn_begin_def ptr_add_def wlp read_simps)
qed

lemma whenever_await_puback:
  "3 \<le> MAX_MQTT_PACKET_SIZE cfg \<Longrightarrow> whenever (CppSN_await_puback cfg n w c timer) (\<lambda>(rc, w', c'). rc = FAILURE)"
  by (auto simp: CppSN_await_puback_def wlp intro!: whenever_mono [OF whenever_waitfor] whenever_mono [OF ack_rejects_puback])


lemma whenever_publish_buf:
  assumes "3 \<le> MAX_MQTT_PACKET_SIZE cfg" "MQTTCLIENT_QOS1 cfg"
  shows "whenever (CppSN_publish_buf cfg n w c len timer 1) (\<lambda>(rc, w', c'). rc = FAILURE \<and> \<not> sc_isconnected c')"
  using assms(2)
  by (auto simp: CppSN_publish_buf_def wlp intro!: whenever_mono [OF whenever_send] whenever_mono [OF whenever_await_puback [OF assms(1)]])

subsection \<open>The network\<close>

lemma sn_frame_type:
  assumes "frame_ok body"
  shows "int (length (sn_frame body)) = sn_lenlen body + int (length body)" "2 \<le> int (length (sn_frame body))"
    "load (overlay (sn_frame body) buf) (sn_lenlen body) = Some (hd body)"
proof -
  have l: "int (length (sn_len_field (MQTTSNPacket_len (int (length body))))) = sn_lenlen body"
    and b: "body \<noteq> []"
    using assms by (auto simp: length_sn_len_field MQTTSNPacket_len_def sn_lenlen_def frame_ok_def)
  show "int (length (sn_frame body)) = sn_lenlen body + int (length body)"
    using l by (simp add: sn_frame_def)
  then show "2 \<le> int (length (sn_frame body))"
    using b sn_lenlen_bounds(1) [of body] by (cases body) auto
  show "load (overlay (sn_frame body) buf) (sn_lenlen body) = Some (hd body)"
    unfolding load_def l [symmetric] overlay_def using b by (cases body) (simp_all add: sn_frame_def)
qed

subsection \<open>A PUBLISH in the read buffer\<close>

text \<open>What a handler sees of a call.\<close>

fun sn_call :: "'h \<times> MQTTSN_topicid \<times> MQTTMessage \<Rightarrow> 'h \<times> MQTTSN_topicTypes \<times> u16 option \<times> int \<times> byte \<times> byte list" where
  "sn_call (h, t, m) =
     (h, topic_type t, data_id (topic_data t), msg_qos m, msg_retained m, cptr_bytes (msg_payload m) (uint (msg_payloadlen m)))"

lemma snpublish_payloadlen:
  assumes "snpublish_ok a" "int (length (sn_frame (snpublish_body a))) \<le> n"
    and a: "a = (dup, qos, retained, packetid, topic, payload, payloadlen)" and "has_id topic"
  shows "\<exists>out'. MQTTSNDeserialize_publish out (sn_frame (snpublish_body a) @ rest) n = Some (1, out') \<and>
    snp_payloadlen out' = payloadlen"
proof -
  have ok: "sn_topic_ok topic qos" "cptr_holds payload payloadlen" "0 \<le> qos" "qos \<le> 3"
    and f: "frame_ok (snpublish_body a)"
    using assms(1) by (simp_all add: a)
  have le: "int (length (snpublish_body a)) \<le> n"
    using assms(2) sn_frame_start [OF f, of n] sn_lenlen_bounds(1) [of "snpublish_body a"] by simp
  note b = MQTTSNDeserialize_publish_def sn_begin_frame [OF f assms(2)]
  show ?thesis
    using ok(1)
  proof (cases rule: sn_topic_ok_cases)
    case (ident i)
    then show ?thesis
      unfolding b using le ok(2-4)
      by (auto simp: a Let_def topicType_of_def read_simps field_simps read_topicid_def long_topic_def length_cptr_bytes)
  next
    case (short_name c d)
    then show ?thesis
      unfolding b using le ok(2-4)
      by (auto simp: a Let_def read_simps field_simps read_topicid_def long_topic_def length_cptr_bytes)
  qed (use assms(4) in \<open>simp add: has_id_def\<close>)
qed

lemma snpublish_received:
  assumes "snpublish_ok a" "int (length (sn_frame (snpublish_body a))) \<le> n"
    and a: "a = (dup, qos, retained, packetid, topic, payload, payloadlen)" and "has_id topic"
  obtains out' where "MQTTSNDeserialize_publish out (overlay (sn_frame (snpublish_body a)) buf) n = Some (1, out')"
    "snp_qos out' = qos" "snp_retained out' = take_bit 1 retained" "snp_packetid out' = packetid"
    "topic_type (snp_topic out') = topic_type topic" "data_id (topic_data (snp_topic out')) = data_id (topic_data topic)"
    "cptr_bytes (snp_payload out') (uint (word_of_int (snp_payloadlen out') :: u32)) = cptr_bytes payload payloadlen"
proof -
  note wire = overlay_def
  obtain out' where d: "MQTTSNDeserialize_publish out (overlay (sn_frame (snpublish_body a)) buf) n = Some (1, out')"
    "snpublish_view out' = snpublish_val a" "snp_payloadlen out' = payloadlen"
    using snpublish_decode [OF assms(1,2)] snpublish_payloadlen [OF assms] unfolding wire by (metis Pair_inject option.inject)
  have len: "int (length (cptr_bytes payload payloadlen)) = payloadlen" "frame_ok (snpublish_body a)"
    using assms(1) length_cptr_bytes by (auto simp: a cptr_holds_def)
  then have "payloadlen < 65533"
    by (auto simp: a frame_ok_def)
  then have "uint (word_of_int payloadlen :: u32) = payloadlen"
    using len(1) by (simp add: uint_word_of_int)
  moreover have "topic_data (snp_topic out') = topic_data topic"
    using d(2) assms(4) by (cases "topic_data topic"; cases "topic_data (snp_topic out')") (auto simp: a snpublish_view_def has_id_def)
  ultimately show thesis
    using d that by (simp add: a snpublish_view_def)
qed

lemma add_first_handler:
  assumes "unsubscribed c" "sc_messageHandlers c \<noteq> []"
  shows "registered (CppSN_add_handler c a (Some h)) = [sc_topics c a]" "CppSN_targets (CppSN_add_handler c a (Some h)) = [h]"
proof -
  obtain s ss where c: "sc_messageHandlers c = s # ss" "snh_topicFilter s = None" "\<forall>s \<in> set ss. snh_topicFilter s = None"
    using assms by (cases "sc_messageHandlers c") (auto simp: unsubscribed_def list_all_iff)
  then have "List.map_filter snh_topicFilter ss = []" "filter (\<lambda>s. snh_topicFilter s \<noteq> None) ss = []"
    by (auto simp: List.map_filter_def filter_empty_conv)
  then show "registered (CppSN_add_handler c a (Some h)) = [sc_topics c a]" "CppSN_targets (CppSN_add_handler c a (Some h)) = [h]"
    using c by (simp_all add: CppSN_add_handler_def registered_def CppSN_targets_def map_filter_simps)
qed

locale cpp_dgram_net = cpp_datagrams n ticks sent
  for n :: "('w, 't) net_ops" and ticks :: "'w \<Rightarrow> 't \<Rightarrow> nat" and sent :: "'w \<Rightarrow> byte list" +
  fixes inbox :: "'w \<Rightarrow> byte list list"
  assumes read_dgram: "inbox w = d # ds \<Longrightarrow> d \<noteq> [] \<Longrightarrow> int (length d) \<le> k \<Longrightarrow>
      \<exists>w'. ipstack_read n w k t = Some (int (length d), d, w') \<and> inbox w' = ds"
    and inbox_write: "ipstack_write n w bs t = (rc, w') \<Longrightarrow> inbox w' = inbox w"
    and inbox_new: "Timer_new n w = (timer, w') \<Longrightarrow> inbox w' = inbox w"
    and inbox_ms: "Timer_ms n w ms = (timer, w') \<Longrightarrow> inbox w' = inbox w"
    and inbox_expired: "timer_expired n w timer = (e, w') \<Longrightarrow> inbox w' = inbox w"
    and inbox_countdown_ms: "timer_countdown_ms n w timer m = (timer', w') \<Longrightarrow> inbox w' = inbox w"
    and inbox_countdown: "timer_countdown n w timer sec = (timer', w') \<Longrightarrow> inbox w' = inbox w"
    and inbox_left: "timer_left_ms n w timer = (l, w') \<Longrightarrow> inbox w' = inbox w"
begin

lemmas inbox_ops = inbox_write inbox_new inbox_ms inbox_expired inbox_countdown_ms inbox_countdown inbox_left

lemma send_loop_inbox:
  assumes "CppSN_sendPacket_loop m w buf len timer s0 = Some (s1, w')" "m = n"
  shows "inbox w' = inbox w"
proof -
  have "m = n \<longrightarrow> inbox (snd x) = inbox w" if "CppSN_sendPacket_loop m w buf len timer s0 = Some x" for x
  proof (rule CppSN_sendPacket_loop.raw_induct [where P = "\<lambda>m w buf len timer s0 x. m = n \<longrightarrow> inbox (snd x) = inbox w", OF _ that])
    fix loop m w buf len timer s0 x
    assume IH: "\<And>m w buf len timer s0 x. loop m w buf len timer s0 = Some x \<Longrightarrow> m = n \<longrightarrow> inbox (snd x) = inbox w"
      and step: "(if s0 < len then case timer_expired m w timer of (expired, w) \<Rightarrow> if expired then Some (s0, w)
        else case timer_left_ms m w timer of (left, w) \<Rightarrow> Option.bind (write_window buf s0 len) (\<lambda>bytes.
          case ipstack_write m w bytes left of (rc, w) \<Rightarrow> if rc < 0 then Some (s0, w) else loop m w buf len timer (s0 + rc))
        else Some (s0, w)) = Some x"
    obtain e w1 l w2 where e: "timer_expired m w timer = (e, w1)" "timer_left_ms m w1 timer = (l, w2)"
      by (metis surj_pair)
    obtain rc w3 where rc: "ipstack_write m w2 (the (write_window buf s0 len)) l = (rc, w3)" by force
    show "m = n \<longrightarrow> inbox (snd x) = inbox w"
    proof
      assume m: "m = n"
      have "inbox w1 = inbox w" "inbox w2 = inbox w" "inbox w3 = inbox w"
        using e rc inbox_ops unfolding m by metis+
      then show "inbox (snd x) = inbox w"
        using step e rc IH [of m w3 buf len timer "s0 + rc" x] m
        by (cases "write_window buf s0 len") (auto split: if_splits)
    qed
  qed
  then show ?thesis
    using assms by auto
qed

text \<open>Sending and the keep-alive do not read datagrams and do not call handlers.\<close>

lemma quiet_send:
  "whenever (CppSN_sendPacket n w c len timer) (\<lambda>(rc, w', c'). inbox w' = inbox w \<and> sc_delivered c' = sc_delivered c)"
  by (auto simp: CppSN_sendPacket_def wlp) (auto simp: whenever_def dest!: send_loop_inbox inbox_ops)

lemma quiet_keepalive:
  "whenever (CppSN_keepalive cfg n w c) (\<lambda>(rc, w', c'). inbox w' = inbox w \<and> sc_delivered c' = sc_delivered c)"
  by (auto simp: CppSN_keepalive_def wlp dest!: inbox_ops intro!: whenever_mono [OF quiet_send]
     whenever_any [where m = "MQTTSNSerialize_pingreq a b c" for a b c])

lemma read_frame:
  assumes "SN_inv cfg c" "frame_ok body" "int (length (sn_frame body)) \<le> MAX_MQTT_PACKET_SIZE cfg" "inbox w = sn_frame body # ds"
  shows "returns (CppSN_readPacket cfg n w c timer) (\<lambda>(rc, w', c'). rc = uint (hd body) \<and> inbox w' = ds \<and> sn_step cfg w c w' c' \<and>
     sc_readbuf c' = overlay (sn_frame body) (sc_readbuf c) \<and> sc_delivered c' = sc_delivered c \<and> sc_isconnected c' = sc_isconnected c)"
proof -
  let ?max = "MAX_MQTT_PACKET_SIZE cfg" and ?d = "sn_frame body" and ?rb = "overlay (sn_frame body) (sc_readbuf c)"
  note size = SN_sizes [OF assms(1)]
  obtain l w1 where l: "timer_left_ms n w timer = (l, w1)" by force
  have ne: "?d \<noteq> []"
    by (simp add: sn_frame_def sn_len_field_def)
  have "inbox w1 = ?d # ds"
    using inbox_ops(7) [OF l] assms(4) by simp
  then obtain w2 where r: "ipstack_read n w1 ?max l = Some (int (length ?d), ?d, w2)" "inbox w2 = ds"
    using read_dgram [OF _ ne assms(3)] by blast
  have w2: "later w w2"
    using later_trans [OF later_ops(7) [OF l]] time_read [OF r(1)] by (auto simp: later_def)
  have b: "put_bytes (sc_readbuf c) 0 ?d = Some ?rb"
    using put_bytes_overlay [of "[]" ?d "sc_readbuf c" 0] assms(3) size by simp
  have len_rb: "length ?rb = length (sc_readbuf c)"
    using assms(3) size by simp
  have step: "sn_step cfg w c w2 (c\<lparr>sc_readbuf := ?rb\<rparr>)"
    using assms(1,3) w2 len_rb by (simp add: sn_step_def SN_inv_def sn_frame_of_def drop_overlay)
  have d: "MQTTSNPacket_decode ?rb (int (length ?d)) (Some 0) = Some (sn_lenlen body, Some (int (length ?d)))"
    using decode_sn_frame [OF assms(2) order_refl] sn_frame_type(1) [OF assms(2)] by (simp add: overlay_def)
  show ?thesis
    using step d sn_frame_type [OF assms(2)] by (auto simp: CppSN_readPacket_def l r b wp intro: later_step dest: inbox_ops)
qed


lemma keepalive_quietly:
  assumes "sn_step cfg w0 c0 w c"
  shows "returns (CppSN_keepalive cfg n w c) (\<lambda>(rc, w', c'). sn_step cfg w0 c0 w' c' \<and> sc_readbuf c' = sc_readbuf c \<and>
      inbox w' = inbox w \<and> sc_delivered c' = sc_delivered c)"
  using keepalive_step' [OF assms] quiet_keepalive [of cfg w c] by (auto simp: returns_def whenever_def)

lemma send_quietly:
  assumes "sn_step cfg w0 c0 w c" "length buf = length (sc_sendbuf c)" "0 < len" "len \<le> MAX_MQTT_PACKET_SIZE cfg"
  shows "returns (CppSN_sendPacket n w (c\<lparr>sc_sendbuf := buf\<rparr>) len timer) (\<lambda>(rc, w', c'). (rc = SUCCESS \<or> rc = FAILURE) \<and>
    sn_step cfg w0 c0 w' c' \<and> inbox w' = inbox w \<and> sc_delivered c' = sc_delivered c)"
  using send_step [OF assms, of timer] quiet_send [of w "c\<lparr>sc_sendbuf := buf\<rparr>" len timer] by (auto simp: returns_def whenever_def)

text \<open>Datagrams of the types that \<open>cycle\<close> does not handle stay in the read buffer, and their type is returned.\<close>

lemma cycle_passes:
  assumes "SN_inv cfg c" "frame_ok body" "int (length (sn_frame body)) \<le> MAX_MQTT_PACKET_SIZE cfg" "inbox w = sn_frame body # ds"
    and "uint (hd body) \<notin> {10, 12, 15, 23}" "uint (hd body) \<noteq> 0"
  shows "returns (CppSN_cycle cfg n w c timer) (\<lambda>(rc, w', c'). rc = uint (hd body) \<and> inbox w' = ds \<and> sn_step cfg w c w' c' \<and>
     sc_readbuf c' = overlay (sn_frame body) (sc_readbuf c) \<and> sc_delivered c' = sc_delivered c)"
proof -
  have 256: "uint (hd body) < 256"
    using uint_lt2p [of "hd body"] by simp
  show ?thesis
    using assms(5,6) 256
    by (auto simp: CppSN_cycle_def CppSN_cycle_dispatch_def wp uchar_def intro!: returns_mono [OF read_frame [OF assms(1-4)]]
       returns_mono [OF keepalive_quietly])
qed


text \<open>A PUBLISH of QoS 0 or 1 is handed to the handlers of its topic, when all registered topics are that topic.\<close>

lemma cycle_delivers:
  assumes inv: "SN_inv cfg c" and ok: "snpublish_ok a" and size: "int (length (sn_frame (snpublish_body a))) \<le> MAX_MQTT_PACKET_SIZE cfg"
    and inbox: "inbox w = sn_frame (snpublish_body a) # ds"
    and a: "a = (dup, qos, retained, packetid, topic, payload, payloadlen)" and "has_id topic" "qos = 0 \<or> qos = 1"
    and same: "\<forall>b \<in> set (registered c). has_id b \<and> same_topic topic b"
  shows "returns (CppSN_cycle cfg n w c timer) (\<lambda>(rc, w', c'). inbox w' = ds \<and> sn_step cfg w c w' c' \<and>
     map sn_call (sc_delivered c') = map sn_call (sc_delivered c) @ map (\<lambda>h. (h, topic_type topic, data_id (topic_data topic), qos,
       take_bit 1 retained, cptr_bytes payload payloadlen)) (CppSN_targets c))"
proof -
  obtain out where out: "MQTTSNDeserialize_publish snpublish_out_zero (overlay (sn_frame (snpublish_body a)) (sc_readbuf c))
      (MAX_MQTT_PACKET_SIZE cfg) = Some (1, out)"
    "snp_qos out = qos" "snp_retained out = take_bit 1 retained" "snp_packetid out = packetid"
    "topic_type (snp_topic out) = topic_type topic" "data_id (topic_data (snp_topic out)) = data_id (topic_data topic)"
    "cptr_bytes (snp_payload out) (uint (word_of_int (snp_payloadlen out) :: u32)) = cptr_bytes payload payloadlen"
    by (rule snpublish_received [OF ok size a assms(6)])
  have f: "frame_ok (snpublish_body a)" "uint (hd (snpublish_body a)) = 12"
    using ok by (simp_all add: a)
  have t: "has_id (snp_topic out)" "\<exists>i. data_id (topic_data topic) = Some i" "same_topic (snp_topic out) b = same_topic topic b" for b
    using assms(6) out(5,6) by (auto simp: has_id_def same_topic_def)
  have ids: "\<forall>b \<in> set (registered c). has_id b" "\<forall>b \<in> set (registered c). same_topic (snp_topic out) b"
    using same t(3) by auto
  define msg where "msg = \<lparr>msg_qos = snp_qos out, msg_retained = snp_retained out, msg_dup = snp_dup out,
                  msg_id = snp_packetid out, msg_payload = snp_payload out,
                  msg_payloadlen = word_of_int (snp_payloadlen out)\<rparr>"
  have deliver: "CppSN_cycle_deliver cfg c1 (snp_topic out) msg =
      Some (c1\<lparr>sc_delivered := sc_delivered c1 @ map (\<lambda>h. (h, snp_topic out, msg)) (CppSN_targets c)\<rparr>)"
    if "sn_step cfg w c w1 c1" for w1 c1
  proof -
    have r: "registered c1 = registered c" "CppSN_targets c1 = CppSN_targets c"
      using that by (auto simp: sn_step_def sn_frame_of_def registered_def CppSN_targets_def Let_def)
    have "msg_qos msg \<noteq> 2"
      using out(2) assms(7) by (auto simp: msg_def)
    then show ?thesis
      using deliver_same [OF t(1), of c1 msg cfg, unfolded r] ids by blast
  qed
  let ?calls = "map (\<lambda>h. (h, snp_topic out, msg)) (CppSN_targets c)"
  have ack: "msg_qos msg = 1 \<longrightarrow> (\<exists>i. data_id (topic_data (snp_topic out)) = Some i)"
    using t(2) out(6) by simp
  have publish: "returns (CppSN_cycle_publish cfg n w1 c1 timer) (\<lambda>(rc, leave, w', c'). sn_step cfg w c w' c' \<and>
      inbox w' = inbox w1 \<and> sc_delivered c' = sc_delivered c1 @ ?calls)"
    if c1: "sn_step cfg w c w1 c1" "sc_readbuf c1 = overlay (sn_frame (snpublish_body a)) (sc_readbuf c)" for w1 c1
  proof -
    let ?c2 = "c1\<lparr>sc_delivered := sc_delivered c1 @ ?calls\<rparr>"
    have c2: "sn_step cfg w c w1 ?c2" "SN_inv cfg ?c2"
      using c1(1) by (simp_all add: sn_step_def)
    note send = returns_mono [OF send_quietly [OF c2(1)]]
    show ?thesis
      unfolding CppSN_cycle_publish_def c1(2) out(1) returns_simps prod.case returns_Let msg_def [symmetric]
      using c2 sn_step_sendbuf [OF c2(1)]
      by (auto simp: wp deliver [OF c1(1)] intro!: returns_mono [OF publish_ack_returns [OF c2(2) ack]] send)
  qed
  note read = returns_mono [OF read_frame [OF inv f(1) size inbox]]
    and keep = returns_mono [OF keepalive_quietly [where ?w0.0 = w and ?c0.0 = c and cfg = cfg]]
  have "returns (CppSN_cycle cfg n w c timer) (\<lambda>(rc, w', c'). inbox w' = ds \<and> sn_step cfg w c w' c' \<and>
     sc_delivered c' = sc_delivered c @ ?calls)"
    using f(2) by (auto simp: CppSN_cycle_def CppSN_cycle_dispatch_def wp intro!: read returns_mono [OF publish] keep)
  then show ?thesis
    by (rule returns_mono) (use out(2-) in \<open>auto simp: msg_def\<close>)
qed


text \<open>A subscription for which the SUBACK is the next datagram: if \<open>subscribe\<close> succeeds, the handler is registered under the
  identifier that the gateway gave the topic.\<close>

lemma waitfor_suback:
  assumes step: "sn_step cfg w0 c0 w c" and q: "0 \<le> q" "q \<le> 3" and inbox: "inbox w = sn_frame (snsuback_body (q, i, pid, code)) # ds"
  shows "returns (CppSN_waitfor cfg n w c 19 timer) (\<lambda>(rc, w', c'). sn_step cfg w0 c0 w' c' \<and> sc_delivered c' = sc_delivered c \<and>
    (rc = FAILURE \<or> rc = 19 \<and> inbox w' = ds \<and> (\<exists>buf. sc_readbuf c' = overlay (sn_frame (snsuback_body (q, i, pid, code))) buf)))"
proof -
  note inv = sn_step_inv [OF step]
  have size: "int (length (sn_frame (snsuback_body (q, i, pid, code)))) \<le> MAX_MQTT_PACKET_SIZE cfg"
    using SN_sizes(1) [OF inv] by (simp add: length_sn_frame [OF frame_ok_snsuback] len_snsuback MQTTSNPacket_len_def del: snsuback_body.simps)
  obtain e w1 where e: "timer_expired n w timer = (e, w1)" by force
  have w1: "inbox w1 = sn_frame (snsuback_body (q, i, pid, code)) # ds" "later w w1"
    using inbox_expired [OF e] inbox later_ops(4) [OF e] by simp_all
  have t: "uint (hd (snsuback_body (q, i, pid, code))) = 19"
    by simp
  note cycle = returns_mono [OF cycle_passes [OF inv frame_ok_snsuback size w1(1)]]
  show ?thesis
    unfolding CppSN_waitfor_def
    by (subst CppSN_waitfor_loop.simps) (auto simp: e wp t simp del: snsuback_body.simps intro!: cycle
       intro: sn_step_later [OF step w1(2)] sn_step_trans [OF sn_step_later [OF step w1(2)]])
qed

lemma read_suback_registers:
  assumes "0 \<le> q" "q \<le> 3" "SN_inv cfg c" "sc_readbuf c = overlay (sn_frame (snsuback_body (q, i, pid, code))) buf"
  shows "CppSN_read_suback cfg c a qos h =
    (let c' = c\<lparr>sc_topics := (sc_topics c)(a := (sc_topics c a)\<lparr>topic_data := Topic_id i\<rparr>)\<rparr>
     in Some (if qos = q \<and> code = 0 then CppSN_add_handler c' a h else c'))"
proof -
  have size: "int (length (sn_frame (snsuback_body (q, i, pid, code)))) \<le> MAX_MQTT_PACKET_SIZE cfg"
    using SN_sizes(1) [OF assms(3)] by (simp add: length_sn_frame [OF frame_ok_snsuback] len_snsuback MQTTSNPacket_len_def del: snsuback_body.simps)
  obtain out where "MQTTSNDeserialize_suback \<lparr>snsa_qos = - 1, snsa_topicid = 0, snsa_packetid = 0, snsa_returncode = 0\<rparr>
      (sc_readbuf c) (MAX_MQTT_PACKET_SIZE cfg) = Some (1, out)" "snsuback_view out = (q, i, pid, code)"
    using snsuback.reads [where a = "(q, i, pid, code)", OF _ size] assms(1,2,4) by (auto simp: overlay_def simp del: snsuback_body.simps)
  then show ?thesis
    by (auto simp: CppSN_read_suback_def snsuback_view_def Let_def)
qed


lemma subscribe_registers:
  assumes inv: "SN_inv cfg c" and un: "unsubscribed c" "sc_messageHandlers c \<noteq> []" and ok: "\<forall>j. snsubscribe_ok (0, q, j, sc_topics c a)"
    and q: "0 \<le> q" "q \<le> 3" and inbox: "inbox w = sn_frame (snsuback_body (q, i, pid, 0)) # ds"
  shows "returns (CppSN_subscribe cfg n w c a q (Some h)) (\<lambda>(rc, w', c'). SN_inv cfg c' \<and> sc_delivered c' = sc_delivered c \<and>
    (rc = SUCCESS \<longrightarrow> inbox w' = ds \<and> registered c' = [(sc_topics c a)\<lparr>topic_data := Topic_id i\<rparr>] \<and> CppSN_targets c' = [h]))"
proof -
  obtain t w1 where t: "Timer_ms n w (int_of_size (sc_command_timeout_ms c)) = (t, w1)" by force
  obtain j c1 where j: "SNPacketId_getNext c = (j, c1)" by force
  note c = sn_timer_step [OF inv t]
  have c1: "sn_step cfg w c w1 c1" "SN_inv cfg c1" "sc_topics c1 = sc_topics c" "sc_delivered c1 = sc_delivered c"
    using getNext_step [OF j c] SN_inv_getNext [OF inv j] by auto
  have w1: "inbox w1 = sn_frame (snsuback_body (q, i, pid, 0)) # ds"
    using inbox inbox_ms [OF t] by simp
  have sub: "returns (CppSN_read_suback cfg c2 a q (Some h)) (\<lambda>c'. SN_inv cfg c' \<and> sc_delivered c' = sc_delivered c2 \<and>
      registered c' = [(sc_topics c a)\<lparr>topic_data := Topic_id i\<rparr>] \<and> CppSN_targets c' = [h])"
    if c2: "sn_step cfg w c w2 c2" "sc_readbuf c2 = overlay (sn_frame (snsuback_body (q, i, pid, 0))) buf" for w2 c2 buf
  proof -
    let ?c = "c2\<lparr>sc_topics := (sc_topics c2)(a := (sc_topics c2 a)\<lparr>topic_data := Topic_id i\<rparr>)\<rparr>"
    have f: "sc_messageHandlers c2 = sc_messageHandlers c" "sc_topics c2 = sc_topics c" "SN_inv cfg c2"
      using c2(1) by (auto simp: sn_step_def sn_frame_of_def)
    then have "unsubscribed ?c" "sc_messageHandlers ?c \<noteq> []"
      using un by (simp_all add: unsubscribed_def)
    note add = add_first_handler [OF this, of a h]
    have "SN_inv cfg (CppSN_add_handler ?c a (Some h))" "sc_delivered (CppSN_add_handler ?c a (Some h)) = sc_delivered c2"
      using f(3) by (simp_all add: CppSN_add_handler_def Let_def)
    then show ?thesis
      using read_suback_registers [OF q f(3) c2(2), of a q "Some h"] add f(2) by simp
  qed
  have free: "list_ex (\<lambda>s. snh_topicFilter s = None) (sc_messageHandlers c)"
    using un by (cases "sc_messageHandlers c") (simp_all add: unsubscribed_def)
  note ser = returns_mono [OF serialisers_return(3)]
    and send = returns_mono [OF send_quietly [where ?w0.0 = w and ?c0.0 = c and cfg = cfg]]
    and wait = returns_mono [OF waitfor_suback [where ?w0.0 = w and ?c0.0 = c and cfg = cfg, OF _ q]]
  show ?thesis
    using ok c1 w1 inv free
    by (auto simp: CppSN_subscribe_def wp t j simp del: snsubscribe_ok.simps snsuback_body.simps intro!: ser send wait returns_mono [OF sub]
       intro: sn_step_sendbuf sn_step_inv)
qed

end

subsection \<open>A simulated network\<close>

record dgram_world =
  dg_in :: "byte list list"
  dg_out :: "byte list"
  dg_now :: int

definition dgram_read :: "dgram_world \<Rightarrow> int \<Rightarrow> (int \<times> byte list \<times> dgram_world) option" where
  "dgram_read w k =
     Some (case dg_in w of
        [] \<Rightarrow> (0, [], w)
      | d # ds \<Rightarrow> (int (length (take (nat k) d)), take (nat k) d, w\<lparr>dg_in := ds\<rparr>))"

definition dgram_sim :: "(dgram_world, int) net_ops" where
  "dgram_sim = \<lparr>
     ipstack_read = (\<lambda>w k t. dgram_read w k),
     ipstack_write = (\<lambda>w bs t. (int (length bs), w\<lparr>dg_out := dg_out w @ bs\<rparr>)),
     Timer_new = (\<lambda>w. (0, w)),
     Timer_ms = (\<lambda>w ms. (dg_now w + ms, w)),
     timer_expired = (\<lambda>w t. (t \<le> dg_now w, w\<lparr>dg_now := dg_now w + 1\<rparr>)),
     timer_countdown_ms = (\<lambda>w t ms. (dg_now w + uint ms, w)),
     timer_countdown = (\<lambda>w t s. (dg_now w + 1000 * s, w)),
     timer_left_ms = (\<lambda>w t. (t - dg_now w, w))\<rparr>"

interpretation dgramnet: cpp_dgram_net dgram_sim "\<lambda>w t. nat (t - dg_now w)" dg_out dg_in
  by unfold_locales (auto simp: dgram_sim_def dgram_read_def split: list.splits)

definition dgram_start :: "byte list list \<Rightarrow> dgram_world" where
  "dgram_start ds = \<lparr>dg_in = ds, dg_out = [], dg_now = 0\<rparr>"

definition demo_sn :: "(int, nat) CppSNClient" where
  "demo_sn = \<lparr>sc_command_timeout_ms = 1000, sc_sendbuf = replicate 20 0, sc_readbuf = replicate 20 0, sc_last_sent = 0,
     sc_last_received = 0, sc_duration = 0, sc_ping_outstanding = False, sc_cleansession = False, sc_packetid = 0,
     sc_messageHandlers = replicate 5 \<lparr>snh_topicFilter = None, snh_fp = None\<rparr>, sc_defaultMessageHandler = Some 7,
     sc_isconnected = True, sc_pubbuf = replicate 20 0, sc_inflightLen = 0, sc_inflightMsgid = 0, sc_inflightQoS = 0,
     sc_pubrel = False, sc_incomingQoS2messages = replicate 3 0,
     sc_topics = (\<lambda>_. \<lparr>topic_type = MQTTSN_TOPIC_TYPE_NORMAL, topic_data = Topic_long (Some [97, 0]) 1\<rparr>), sc_delivered = []\<rparr>"

lemma demo_sn_inv: "SN_inv demo_config demo_sn" "unsubscribed demo_sn"
  by (simp_all add: SN_inv_def demo_sn_def demo_config_def unsubscribed_def list_all_iff)

lemma demo_sn_ok:
  "snconnect_ok MQTTSNPacket_connectData_initializer"
  "snsubscribe_ok (0, 0, i, sc_topics demo_sn a)"
  "snunsubscribe_ok (i, sc_topics demo_sn a)"
  "snpublish_ok (0, 1, 0, i, \<lparr>topic_type = MQTTSN_TOPIC_TYPE_NORMAL, topic_data = Topic_id 5\<rparr>, Some [1, 2], int_of_size 2)"
proof -
  show "snconnect_ok MQTTSNPacket_connectData_initializer"
    by (simp add: snconnect_ok_def MQTTSNPacket_connectData_initializer_def MQTTSNString_initializer_def MQTTSNString_ok_def
       MQTTSNString_bytes_def frame_ok_def snconnect_body_def cptr_holds_def)
  show "snsubscribe_ok (0, 0, i, sc_topics demo_sn a)" "snunsubscribe_ok (i, sc_topics demo_sn a)"
    by (simp_all add: demo_sn_def frame_ok_def filter_ok_def cptr_holds_def cptr_bytes_def)
  show "snpublish_ok (0, 1, 0, i, \<lparr>topic_type = MQTTSN_TOPIC_TYPE_NORMAL, topic_data = Topic_id 5\<rparr>, Some [1, 2], int_of_size 2)"
    by (simp add: sn_topic_ok_def long_topic_def cptr_holds_def cptr_bytes_def frame_ok_def int_of_size_def)
qed

subsection \<open>Properties\<close>



text \<open>A publication of QoS 1 never succeeds. In a client built with \<open>MQTTCLIENT_QOS1\<close>, whatever the network does, \<open>publish\<close> with
  QoS 1 returns nothing but \<open>FAILURE\<close>, even when the PUBACK arrives: it is taken apart by
  \<open>MQTTSNDeserialize_ack\<close>, which refuses a PUBACK. And it does return on a platform that writes whole datagrams, as long as no
  handler is registered.\<close>

theorem sn_qos1_never_succeeds:
  assumes "MQTTCLIENT_QOS1 cfg" "SN_inv cfg c"
  shows "(\<forall>rc w' c'. CppSN_publish cfg n w c topic payload payloadlen 1 retained = Some (rc, w', c') \<longrightarrow> rc = FAILURE) \<and>
    (cpp_datagrams n ticks sent \<and> unsubscribed c \<and> (\<forall>i. snpublish_ok (0, 1, retained, i, topic, payload, int_of_size payloadlen)) \<longrightarrow>
      (\<exists>w' c'. CppSN_publish cfg n w c topic payload payloadlen 1 retained = Some (FAILURE, w', c')))"
proof -
  have size: "3 \<le> MAX_MQTT_PACKET_SIZE cfg"
    using SN_sizes(1) [OF assms(2)] by simp
  have "whenever (CppSN_publish cfg n w c topic payload payloadlen 1 retained) (\<lambda>(rc, _). rc = FAILURE)"
    by (auto simp: CppSN_publish_def CppSN_publish_id_def wlp
       intro!: whenever_mono [OF whenever_publish_buf [OF size assms(1)]]
         whenever_any [where m = "MQTTSNSerialize_publish a b c d e f g h i" for a b c d e f g h i]
         whenever_any [where m = "CppSN_store_inflight a b c d e" for a b c d e])
  then have all: "rc = FAILURE" if "CppSN_publish cfg n w c topic payload payloadlen 1 retained = Some (rc, w', c')" for rc w' c'
    using that by (simp add: whenever_def)
  have "\<exists>rc w' c'. CppSN_publish cfg n w c topic payload payloadlen 1 retained = Some (rc, w', c')"
    if "cpp_datagrams n ticks sent" "unsubscribed c" "\<forall>i. snpublish_ok (0, 1, retained, i, topic, payload, int_of_size payloadlen)"
    using cpp_datagrams.sn_publish_step [OF that(1) assms(2) that(2,3), of w 0] by (fastforce simp: CppSN_publish_def returns_def)
  then show ?thesis
    using all by blast
qed

theorem sn_qos1_never_succeeds_witness:
  "\<exists>w' c'. CppSN_publish demo_config dgram_sim (dgram_start [[7, 13, 0, 5, 0, 1, 0]]) demo_sn
      \<lparr>topic_type = MQTTSN_TOPIC_TYPE_NORMAL, topic_data = Topic_id 5\<rparr> (Some [1, 2]) 2 1 0 = Some (FAILURE, w', c')"
proof -
  have "MQTTCLIENT_QOS1 demo_config"
    by (simp add: demo_config_def)
  from sn_qos1_never_succeeds [OF this demo_sn_inv(1), where n = dgram_sim and sent = dg_out and ticks = "\<lambda>w t. nat (t - dg_now w)"]
  show ?thesis
    using dgramnet.cpp_datagrams_axioms demo_sn_inv(2) demo_sn_ok(4) by blast
qed

text \<open>Delivery in the C++ client for MQTT-SN is defined only if all registered topics are the same. When the topics of the handlers are
  identifiers, as they are after \<open>subscribe\<close>, a message with a topic identifier or a short name
  is handed to the functions registered, or to the default handler if there is none, and the result says whether anyone got it; but as soon as
  one registered topic is another one, the names of the topics are compared, and there are none.\<close>

theorem sn_delivery_defined:
  assumes "has_id t" "\<forall>b \<in> set (registered c). has_id b"
  shows "CppSN_deliverMessage c t m =
    (if \<forall>b \<in> set (registered c). same_topic t b
     then Some (if CppSN_targets c = [] then FAILURE else SUCCESS,
                c\<lparr>sc_delivered := sc_delivered c @ map (\<lambda>h. (h, t, m)) (CppSN_targets c)\<rparr>)
     else None)"
  by (rule deliver_ids [OF assms])

theorem sn_delivery_defined_witness:
  "CppSN_deliverMessage
      (demo_sn\<lparr>sc_messageHandlers := [\<lparr>snh_topicFilter = Some 0, snh_fp = Some 3\<rparr>, \<lparr>snh_topicFilter = Some 1, snh_fp = Some 4\<rparr>],
         sc_topics := \<lambda>a. \<lparr>topic_type = MQTTSN_TOPIC_TYPE_NORMAL, topic_data = Topic_id (of_nat a)\<rparr>\<rparr>)
      \<lparr>topic_type = MQTTSN_TOPIC_TYPE_NORMAL, topic_data = Topic_id 1\<rparr>
      \<lparr>msg_qos = 0, msg_retained = 0, msg_dup = 0, msg_id = 0, msg_payload = Some [42], msg_payloadlen = 1\<rparr> = None"
  by (subst sn_delivery_defined) (simp_all add: has_id_def registered_def map_filter_simps same_topic_def)

text \<open>C23: A subscription leads to messages. If the client has no handlers yet and the next datagrams are a SUBACK that accepts the
  subscription with the QoS asked for and identifier \<open>i\<close>, and a PUBLISH of QoS 0 or 1 with the
  identifier \<open>i\<close>, then \<open>subscribe\<close> returns, and if with \<open>SUCCESS\<close>, the next round hands the message to the handler
  given to \<open>subscribe\<close>, once, and nothing else.\<close>

theorem sn_subscribed_message_delivered:
  assumes "cpp_dgram_net n ticks sent inbox" "SN_inv cfg c" "unsubscribed c" "sc_messageHandlers c \<noteq> []"
    and "\<forall>j. snsubscribe_ok (0, q, j, sc_topics c a)" "0 \<le> q" "q \<le> 3"
    and "inbox w = sn_frame (snsuback_body (q, i, pid, 0)) # sn_frame (snpublish_body (dup, qos, retained, pid', topic, payload, payloadlen)) # ds"
    and "topic = \<lparr>topic_type = topic_type (sc_topics c a), topic_data = Topic_id i\<rparr>" "qos = 0 \<or> qos = 1"
    and "snpublish_ok (dup, qos, retained, pid', topic, payload, payloadlen)"
    and "int (length (sn_frame (snpublish_body (dup, qos, retained, pid', topic, payload, payloadlen)))) \<le> MAX_MQTT_PACKET_SIZE cfg"
  shows "\<exists>rc w' c'. CppSN_subscribe cfg n w c a q (Some h) = Some (rc, w', c') \<and>
    (rc = SUCCESS \<longrightarrow> (\<exists>rc' w'' c''. CppSN_cycle cfg n w' c' timer = Some (rc', w'', c'') \<and> inbox w'' = ds \<and>
       map sn_call (sc_delivered c'') = map sn_call (sc_delivered c) @
         [(h, topic_type topic, Some i, qos, take_bit 1 retained, cptr_bytes payload payloadlen)]))"
proof -
  obtain rc w' c' where s: "CppSN_subscribe cfg n w c a q (Some h) = Some (rc, w', c')" "SN_inv cfg c'" "sc_delivered c' = sc_delivered c"
    "rc = SUCCESS \<longrightarrow> inbox w' = sn_frame (snpublish_body (dup, qos, retained, pid', topic, payload, payloadlen)) # ds \<and>
      registered c' = [(sc_topics c a)\<lparr>topic_data := Topic_id i\<rparr>] \<and> CppSN_targets c' = [h]"
    using cpp_dgram_net.subscribe_registers [OF assms(1-8), of h] by (auto simp: returns_def simp del: snpublish_body.simps)
  have t: "has_id topic" "data_id (topic_data topic) = Some i" "same_topic topic ((sc_topics c a)\<lparr>topic_data := Topic_id i\<rparr>)"
    "has_id ((sc_topics c a)\<lparr>topic_data := Topic_id i\<rparr>)"
    by (simp_all add: assms(9) has_id_def same_topic_def)
  have "\<exists>rc' w'' c''. CppSN_cycle cfg n w' c' timer = Some (rc', w'', c'') \<and> inbox w'' = ds \<and>
       map sn_call (sc_delivered c'') = map sn_call (sc_delivered c) @
         [(h, topic_type topic, Some i, qos, take_bit 1 retained, cptr_bytes payload payloadlen)]" if "rc = SUCCESS"
    using cpp_dgram_net.cycle_delivers [OF assms(1) s(2) assms(11,12) _ refl t(1) assms(10), of w' ds timer] s(3,4) t(2-) that
    by (auto simp: returns_def simp del: snpublish_body.simps)
  then show ?thesis
    using s(1) by blast
qed

lemma demo_subscribe_succeeds:
  "map_option fst (CppSN_subscribe demo_config dgram_sim
      (dgram_start [[8, 19, 0, 0, 5, 0, 1, 0], [8, 12, 0, 0, 5, 0, 0, 42]]) demo_sn 0 0 (Some 3)) = Some SUCCESS"
  by code_simp

theorem sn_subscribed_message_delivered_witness:
  "\<exists>w' c'. CppSN_subscribe demo_config dgram_sim
      (dgram_start [[8, 19, 0, 0, 5, 0, 1, 0], [8, 12, 0, 0, 5, 0, 0, 42]]) demo_sn 0 0 (Some 3) = Some (SUCCESS, w', c') \<and>
    (\<exists>rc' w'' c''. CppSN_cycle demo_config dgram_sim w' c' 100 = Some (rc', w'', c'') \<and> dg_in w'' = [] \<and>
       map sn_call (sc_delivered c'') = [(3, MQTTSN_TOPIC_TYPE_NORMAL, Some 5, 0, 0, [42])])"
proof -
  let ?t = "\<lparr>topic_type = MQTTSN_TOPIC_TYPE_NORMAL, topic_data = Topic_id 5\<rparr>"
  let ?w = "dgram_start [sn_frame (snsuback_body (0, 5, 1, 0)), sn_frame (snpublish_body (0, 0, 0, 0, ?t, Some [42], 1))]"
  have w: "?w = dgram_start [[8, 19, 0, 0, 5, 0, 1, 0], [8, 12, 0, 0, 5, 0, 0, 42]]"
    by code_simp
  have ok: "snpublish_ok (0, 0, 0, 0, ?t, Some [42], 1)"
    by (simp add: sn_topic_ok_def long_topic_def cptr_holds_def cptr_bytes_def frame_ok_def)
  have size: "int (length (sn_frame (snpublish_body (0, 0, 0, 0, ?t, Some [42], 1)))) \<le> MAX_MQTT_PACKET_SIZE demo_config"
    by code_simp
  have demo: "sc_messageHandlers demo_sn \<noteq> []" "sc_delivered demo_sn = []" "?t = \<lparr>topic_type = topic_type (sc_topics demo_sn 0), topic_data = Topic_id 5\<rparr>"
    by (simp_all add: demo_sn_def)
  have inbox: "dg_in ?w = sn_frame (snsuback_body (0, 5, 1, 0)) # sn_frame (snpublish_body (0, 0, 0, 0, ?t, Some [42], 1)) # []"
    by (simp only: dgram_start_def dgram_world.simps)
  have sub: "\<forall>j. snsubscribe_ok (0, 0, j, sc_topics demo_sn 0)"
    using demo_sn_ok(2) by blast
  have b: "cptr_bytes (Some [42]) 1 = [42 :: byte]" "take_bit 1 (0 :: byte) = 0" "topic_type ?t = MQTTSN_TOPIC_TYPE_NORMAL"
    by (simp_all add: cptr_bytes_def)
  show ?thesis
    using sn_subscribed_message_delivered [OF dgramnet.cpp_dgram_net_axioms demo_sn_inv demo(1) sub order_refl _ inbox demo(3) disjI1 [OF refl] ok size,
        of 3 100] demo_subscribe_succeeds unfolding w b demo(2) by auto
qed

end
