(* ===== verification/MQTT_MbedOs.thy ===== *)
theory MQTT_MbedOs
  imports MQTTSN_Cpp_Protocol MQTT_Cpp_Protocol
begin

text \<open>
  The port to Mbed OS: \<^verbatim>\<open>src/MQTTNetworkUtil.h\<close>, the network classes of \<^verbatim>\<open>src/\<close>, the timer \<open>Countdown\<close> of \<^verbatim>\<open>MQTTmbed.h\<close> and the class
  \<open>MQTTClient\<close> of \<^verbatim>\<open>src/MQTTClientMbedOs.cpp\<close>, which owns one of the two C++ clients. What the code calls in Mbed OS (sockets, name
  resolution, the class \<open>Timer\<close> and the values of its error codes) is the parameter \<open>mbed_os\<close>.
\<close>

subsection \<open>Mbed OS\<close>

text \<open>\<open>socket_recv\<close> gives the result of \<open>recv\<close> and the bytes it stored. A timer is a value \<open>'m\<close>, an address a value \<open>'a\<close>.\<close>

record ('w, 'm, 'a) mbed_os =
  NSAPI_ERROR_OK :: int
  NSAPI_ERROR_WOULD_BLOCK :: int
  NSAPI_ERROR_UNSUPPORTED :: int
  NSAPI_ERROR_NO_CONNECTION :: int
  NSAPI_ERROR_DNS_FAILURE :: int
  socket_set_timeout :: "'w \<Rightarrow> int \<Rightarrow> 'w"
  socket_recv :: "'w \<Rightarrow> int \<Rightarrow> int \<times> byte list \<times> 'w"
  socket_send :: "'w \<Rightarrow> byte list \<Rightarrow> int \<times> 'w"
  socket_open :: "'w \<Rightarrow> int \<times> 'w"
  socket_connect :: "'w \<Rightarrow> 'a \<times> int \<Rightarrow> int \<times> 'w"
  socket_close :: "'w \<Rightarrow> int \<times> 'w"
  socket_set_root_ca_cert :: "'w \<Rightarrow> byte list option \<Rightarrow> int \<times> 'w"
  socket_set_client_cert_key :: "'w \<Rightarrow> byte list \<Rightarrow> byte list \<Rightarrow> int \<times> 'w"
  gethostbyname :: "'w \<Rightarrow> byte list \<Rightarrow> int \<times> 'a \<times> 'w"
  SocketAddress :: "byte list \<Rightarrow> 'a"
  mtimer_init :: "'w \<Rightarrow> 'm \<times> 'w"
  mtimer_stop :: "'w \<Rightarrow> 'm \<Rightarrow> 'm \<times> 'w"
  mtimer_reset :: "'w \<Rightarrow> 'm \<Rightarrow> 'm \<times> 'w"
  mtimer_start :: "'w \<Rightarrow> 'm \<Rightarrow> 'm \<times> 'w"
  mtimer_read_ms :: "'w \<Rightarrow> 'm \<Rightarrow> int \<times> 'w"

subsection \<open>Reading and writing\<close>

definition convert_nsapi_error_to_mqtt_error :: "('w, 'm, 'a) mbed_os \<Rightarrow> int \<Rightarrow> int" where
  "convert_nsapi_error_to_mqtt_error os nsapi_error =
     (if nsapi_error = NSAPI_ERROR_WOULD_BLOCK os then 0 else if nsapi_error = 0 then - 1 else nsapi_error)"

text \<open>The loop collects what it stored in the buffer; \<open>None\<close> in the first component is its regular end.\<close>

partial_function (option) accumulate_loop ::
  "('w, 'm, 'a) mbed_os \<Rightarrow> 'w \<Rightarrow> int \<Rightarrow> byte list \<Rightarrow> (int option \<times> byte list \<times> 'w) option" where
  "accumulate_loop os w remaining stored =
     (if remaining \<noteq> 0
      then case socket_recv os w remaining of (ret, bs, w) \<Rightarrow>
        if ret > 0 then accumulate_loop os w (remaining - ret) (stored @ bs)
        else Some (Some (convert_nsapi_error_to_mqtt_error os ret), stored @ bs, w)
      else Some (None, stored, w))"

declare accumulate_loop.simps [code]

definition accumulate_mqtt_read ::
  "('w, 'm, 'a) mbed_os \<Rightarrow> 'w \<Rightarrow> int \<Rightarrow> int \<Rightarrow> (int \<times> byte list \<times> 'w) option" where
  "accumulate_mqtt_read os w len timeout = do {
     let w = socket_set_timeout os w timeout;
     (result, bs, w) \<leftarrow> accumulate_loop os w len [];
     Some (case result of Some e \<Rightarrow> e | None \<Rightarrow> len, bs, w) }"

definition mqtt_write :: "('w, 'm, 'a) mbed_os \<Rightarrow> 'w \<Rightarrow> byte list \<Rightarrow> int \<Rightarrow> int \<times> 'w" where
  "mqtt_write os w bytes timeout =
     (let w = socket_set_timeout os w timeout;
          (ret, w) = socket_send os w bytes
      in if ret > 0 then (ret, w) else (convert_nsapi_error_to_mqtt_error os ret, w))"

text \<open>\<open>read\<close> and \<open>write\<close> of all four network classes are these two functions. \<open>connect\<close> of the classes:\<close>

definition MQTTNetworkMbedOs_connect :: "('w, 'm, 'a) mbed_os \<Rightarrow> 'w \<Rightarrow> byte list \<Rightarrow> int \<Rightarrow> int \<times> 'w" where
  "MQTTNetworkMbedOs_connect os w hostname port = socket_connect os w (SocketAddress os hostname, port)"

definition MQTTNetworkMbedOs_disconnect :: "('w, 'm, 'a) mbed_os \<Rightarrow> 'w \<Rightarrow> int \<times> 'w" where
  "MQTTNetworkMbedOs_disconnect os w = socket_close os w"

definition MQTTNetwork_connect :: "('w, 'm, 'a) mbed_os \<Rightarrow> 'w \<Rightarrow> byte list \<Rightarrow> int \<Rightarrow> int \<times> 'w" where
  "MQTTNetwork_connect os w hostname port =
     (let (ret, w) = socket_open os w
      in if ret \<noteq> NSAPI_ERROR_OK os then (ret, w)
         else let (ret, addr, w) = gethostbyname os w hostname
              in if ret \<noteq> NSAPI_ERROR_OK os then (NSAPI_ERROR_DNS_FAILURE os, w)
                 else socket_connect os w (addr, port))"

definition MQTTNetwork_disconnect :: "('w, 'm, 'a) mbed_os \<Rightarrow> 'w \<Rightarrow> int \<times> 'w" where
  "MQTTNetwork_disconnect os w = socket_close os w"

definition MQTTNetworkTLS_connect ::
  "('w, 'm, 'a) mbed_os \<Rightarrow> 'w \<Rightarrow> byte list \<Rightarrow> int \<Rightarrow> byte list option \<Rightarrow> byte list option \<Rightarrow> byte list option \<Rightarrow> int \<times> 'w" where
  "MQTTNetworkTLS_connect os w hostname port ssl_ca_pem ssl_cli_pem ssl_pk_pem =
     (let (ret, w) = socket_open os w
      in if ret < 0 then (ret, w)
         else let (ret, addr, w) = gethostbyname os w hostname
              in if ret < 0 then (ret, w)
                 else let (ret, w) = socket_set_root_ca_cert os w ssl_ca_pem
                      in if ret < 0 then (ret, w)
                         else let (ret, w) = (case (ssl_cli_pem, ssl_pk_pem) of
                                    (Some cli, Some pk) \<Rightarrow> socket_set_client_cert_key os w cli pk
                                  | _ \<Rightarrow> (ret, w))
                              in if ret < 0 then (ret, w) else socket_connect os w (addr, port))"

definition MQTTNetworkTLS_disconnect :: "('w, 'm, 'a) mbed_os \<Rightarrow> 'w \<Rightarrow> int \<times> 'w" where
  "MQTTNetworkTLS_disconnect os w = socket_close os w"

definition MQTTNetworkTLS_set_root_ca_cert :: "('w, 'm, 'a) mbed_os \<Rightarrow> 'w \<Rightarrow> byte list option \<Rightarrow> int \<times> 'w" where
  "MQTTNetworkTLS_set_root_ca_cert os w root_ca_pem = socket_set_root_ca_cert os w root_ca_pem"

definition MQTTSNNetworkUDP_connect :: "('w, 'm, 'a) mbed_os \<Rightarrow> 'w \<Rightarrow> byte list \<Rightarrow> int \<Rightarrow> int \<times> 'w" where
  "MQTTSNNetworkUDP_connect os w hostname port =
     (let (_, w) = socket_open os w in socket_connect os w (SocketAddress os hostname, port))"

definition MQTTSNNetworkUDP_disconnect :: "'w \<Rightarrow> int \<times> 'w" where
  "MQTTSNNetworkUDP_disconnect w = (0, w)"

subsection \<open>Countdown\<close>

text \<open>An \<open>unsigned long\<close> has 32 bits. The comparison and the difference with the \<open>int\<close> of \<open>read_ms\<close> are those of \<open>unsigned long\<close>. The
  argument \<open>g\<close> is the value of \<open>interval_end_ms\<close> that the default constructor leaves uninitialised.\<close>

record 'm Countdown =
  cd_t :: 'm
  interval_end_ms :: u32

definition Countdown_new :: "('w, 'm, 'a) mbed_os \<Rightarrow> u32 \<Rightarrow> 'w \<Rightarrow> 'm Countdown \<times> 'w" where
  "Countdown_new os g w = (let (t, w) = mtimer_init os w in (\<lparr>cd_t = t, interval_end_ms = g\<rparr>, w))"

definition Countdown_countdown_ms :: "('w, 'm, 'a) mbed_os \<Rightarrow> 'w \<Rightarrow> 'm Countdown \<Rightarrow> u32 \<Rightarrow> 'm Countdown \<times> 'w" where
  "Countdown_countdown_ms os w c ms =
     (let (t, w) = mtimer_stop os w (cd_t c);
          (t, w) = mtimer_reset os w t;
          (t, w) = mtimer_start os w t
      in (\<lparr>cd_t = t, interval_end_ms = ms\<rparr>, w))"

definition Countdown_ms :: "('w, 'm, 'a) mbed_os \<Rightarrow> u32 \<Rightarrow> 'w \<Rightarrow> int \<Rightarrow> 'm Countdown \<times> 'w" where
  "Countdown_ms os g w ms = (let (c, w) = Countdown_new os g w in Countdown_countdown_ms os w c (word_of_int ms))"

definition Countdown_countdown :: "('w, 'm, 'a) mbed_os \<Rightarrow> 'w \<Rightarrow> 'm Countdown \<Rightarrow> int \<Rightarrow> 'm Countdown \<times> 'w" where
  "Countdown_countdown os w c seconds = Countdown_countdown_ms os w c (word_of_int seconds * 1000)"

definition Countdown_expired :: "('w, 'm, 'a) mbed_os \<Rightarrow> 'w \<Rightarrow> 'm Countdown \<Rightarrow> bool \<times> 'w" where
  "Countdown_expired os w c = (let (r, w) = mtimer_read_ms os w (cd_t c) in (word_of_int r \<ge> interval_end_ms c, w))"

definition Countdown_left_ms :: "('w, 'm, 'a) mbed_os \<Rightarrow> 'w \<Rightarrow> 'm Countdown \<Rightarrow> int \<times> 'w" where
  "Countdown_left_ms os w c = (let (r, w) = mtimer_read_ms os w (cd_t c) in (sint (interval_end_ms c - word_of_int r), w))"

text \<open>The template arguments of the clients: \<open>MQTTNetworkMbedOs\<close> and \<open>Countdown\<close>.\<close>

definition MQTTNetworkMbedOs :: "('w, 'm, 'a) mbed_os \<Rightarrow> u32 \<Rightarrow> ('w, 'm Countdown) net_ops" where
  "MQTTNetworkMbedOs os g = \<lparr>
     ipstack_read = accumulate_mqtt_read os,
     ipstack_write = mqtt_write os,
     Timer_new = Countdown_new os g,
     Timer_ms = Countdown_ms os g,
     timer_expired = Countdown_expired os,
     timer_countdown_ms = Countdown_countdown_ms os,
     timer_countdown = Countdown_countdown os,
     timer_left_ms = Countdown_left_ms os\<rparr>"

subsection \<open>The class MQTTClient\<close>

record ('m, 'h, 'k) MQTTClientMbedOs =
  mo_client :: "('m Countdown, 'h) CppClient option"
  mo_clientSN :: "('m Countdown, 'k) CppSNClient option"

definition MQTTClient_init :: "('m, 'h, 'k) MQTTClientMbedOs" where
  "MQTTClient_init = \<lparr>mo_client = None, mo_clientSN = None\<rparr>"

text \<open>The constructors; \<open>mem\<close> is the memory of the object that \<open>new\<close> returns. They differ in the class of the socket.\<close>

definition MQTTClient_TCPSocket ::
  "('w, 'm, 'a) mbed_os \<Rightarrow> u32 \<Rightarrow> client_config \<Rightarrow> 'w \<Rightarrow> ('m Countdown, 'h) CppClient \<Rightarrow> 'w \<times> ('m, 'h, 'k) MQTTClientMbedOs" where
  "MQTTClient_TCPSocket os g cfg w mem =
     (let m = MQTTClient_init; (w, c) = CppClient_new cfg (MQTTNetworkMbedOs os g) w mem 30000
      in (w, m\<lparr>mo_client := Some c\<rparr>))"

definition MQTTClient_TLSSocket ::
  "('w, 'm, 'a) mbed_os \<Rightarrow> u32 \<Rightarrow> client_config \<Rightarrow> 'w \<Rightarrow> ('m Countdown, 'h) CppClient \<Rightarrow> 'w \<times> ('m, 'h, 'k) MQTTClientMbedOs" where
  "MQTTClient_TLSSocket os g cfg w mem =
     (let m = MQTTClient_init; (w, c) = CppClient_new cfg (MQTTNetworkMbedOs os g) w mem 30000
      in (w, m\<lparr>mo_client := Some c\<rparr>))"

definition MQTTClient_UDPSocket ::
  "('w, 'm, 'a) mbed_os \<Rightarrow> u32 \<Rightarrow> client_config \<Rightarrow> 'w \<Rightarrow> ('m Countdown, 'k) CppSNClient \<Rightarrow> 'w \<times> ('m, 'h, 'k) MQTTClientMbedOs" where
  "MQTTClient_UDPSocket os g cfg w mem =
     (let m = MQTTClient_init; (w, c) = CppSNClient_new cfg (MQTTNetworkMbedOs os g) w mem 30000
      in (w, m\<lparr>mo_clientSN := Some c\<rparr>))"

definition MQTTClient_DTLSSocket ::
  "('w, 'm, 'a) mbed_os \<Rightarrow> u32 \<Rightarrow> client_config \<Rightarrow> 'w \<Rightarrow> ('m Countdown, 'k) CppSNClient \<Rightarrow> 'w \<times> ('m, 'h, 'k) MQTTClientMbedOs" where
  "MQTTClient_DTLSSocket os g cfg w mem =
     (let m = MQTTClient_init; (w, c) = CppSNClient_new cfg (MQTTNetworkMbedOs os g) w mem 30000
      in (w, m\<lparr>mo_clientSN := Some c\<rparr>))"

text \<open>Every method calls the client there is and turns a negative result into one error code.\<close>

definition nsapi_result :: "('w, 'm, 'a) mbed_os \<Rightarrow> int \<Rightarrow> int" where
  "nsapi_result os ret = (if ret < 0 then NSAPI_ERROR_NO_CONNECTION os else ret)"

definition call_client ::
  "('w, 'm, 'a) mbed_os \<Rightarrow> 'w \<Rightarrow> ('m, 'h, 'k) MQTTClientMbedOs
   \<Rightarrow> (('m Countdown, 'h) CppClient \<Rightarrow> (int \<times> 'w \<times> ('m Countdown, 'h) CppClient) option)
   \<Rightarrow> (int \<times> 'w \<times> ('m, 'h, 'k) MQTTClientMbedOs) option" where
  "call_client os w m f =
     (case mo_client m of
        None \<Rightarrow> Some (NSAPI_ERROR_NO_CONNECTION os, w, m)
      | Some c \<Rightarrow> do { (ret, w, c) \<leftarrow> f c; Some (nsapi_result os ret, w, m\<lparr>mo_client := Some c\<rparr>) })"

definition call_clientSN ::
  "('w, 'm, 'a) mbed_os \<Rightarrow> 'w \<Rightarrow> ('m, 'h, 'k) MQTTClientMbedOs
   \<Rightarrow> (('m Countdown, 'k) CppSNClient \<Rightarrow> (int \<times> 'w \<times> ('m Countdown, 'k) CppSNClient) option)
   \<Rightarrow> (int \<times> 'w \<times> ('m, 'h, 'k) MQTTClientMbedOs) option" where
  "call_clientSN os w m f =
     (case mo_clientSN m of
        None \<Rightarrow> Some (NSAPI_ERROR_NO_CONNECTION os, w, m)
      | Some c \<Rightarrow> do { (ret, w, c) \<leftarrow> f c; Some (nsapi_result os ret, w, m\<lparr>mo_clientSN := Some c\<rparr>) })"

definition MQTTClient_connect where
  "MQTTClient_connect os g cfg w m options =
     call_client os w m (\<lambda>c. Cpp_connect_options cfg (MQTTNetworkMbedOs os g) w c options)"

definition MQTTClient_connect_SN where
  "MQTTClient_connect_SN abi os g cfg w m options =
     call_clientSN os w m (\<lambda>c. CppSN_connect_options abi cfg (MQTTNetworkMbedOs os g) w c options)"

definition MQTTClient_publish where
  "MQTTClient_publish os g cfg w m topicName message =
     call_client os w m (\<lambda>c. Cpp_publish_message cfg (MQTTNetworkMbedOs os g) w c topicName message)"

definition MQTTClient_publish_SN where
  "MQTTClient_publish_SN os g cfg w m topicName message =
     call_clientSN os w m (\<lambda>c. CppSN_publish_message cfg (MQTTNetworkMbedOs os g) w c topicName message)"

definition MQTTClient_subscribe where
  "MQTTClient_subscribe abi os g cfg w m topicf qos mh =
     call_client os w m (\<lambda>c. Cpp_subscribe abi cfg (MQTTNetworkMbedOs os g) w c topicf qos mh)"

definition MQTTClient_subscribe_SN where
  "MQTTClient_subscribe_SN os g cfg w m a qos mh =
     call_clientSN os w m (\<lambda>c. CppSN_subscribe cfg (MQTTNetworkMbedOs os g) w c a qos mh)"

definition MQTTClient_unsubscribe where
  "MQTTClient_unsubscribe os g cfg w m topicf =
     call_client os w m (\<lambda>c. Cpp_unsubscribe cfg (MQTTNetworkMbedOs os g) w c topicf)"

definition MQTTClient_unsubscribe_SN where
  "MQTTClient_unsubscribe_SN os g cfg w m a =
     call_clientSN os w m (\<lambda>c. CppSN_unsubscribe cfg (MQTTNetworkMbedOs os g) w c a)"

definition MQTTClient_yield where
  "MQTTClient_yield os g cfg w m timeout_ms =
     (if mo_client m \<noteq> None then call_client os w m (\<lambda>c. Cpp_yield cfg (MQTTNetworkMbedOs os g) w c timeout_ms)
      else call_clientSN os w m (\<lambda>c. CppSN_yield cfg (MQTTNetworkMbedOs os g) w c timeout_ms))"

definition MQTTClient_disconnect where
  "MQTTClient_disconnect os g cfg w m =
     (if mo_client m \<noteq> None then call_client os w m (\<lambda>c. Cpp_disconnect cfg (MQTTNetworkMbedOs os g) w c)
      else call_clientSN os w m (\<lambda>c. CppSN_disconnect cfg (MQTTNetworkMbedOs os g) w c 0))"

definition MQTTClient_isConnected :: "('m, 'h, 'k) MQTTClientMbedOs \<Rightarrow> bool" where
  "MQTTClient_isConnected m =
     (case (mo_client m, mo_clientSN m) of
        (Some c, None) \<Rightarrow> cl_isconnected c
      | (None, Some c) \<Rightarrow> sc_isconnected c
      | _ \<Rightarrow> False)"

text \<open>With a client for MQTT-SN the method follows the pointer to the other client, which is null.\<close>

definition MQTTClient_setDefaultMessageHandler ::
  "('m, 'h, 'k) MQTTClientMbedOs \<Rightarrow> 'h option \<Rightarrow> ('m, 'h, 'k) MQTTClientMbedOs option" where
  "MQTTClient_setDefaultMessageHandler m mh =
     (case (mo_client m, mo_clientSN m) of
        (Some c, _) \<Rightarrow> Some (m\<lparr>mo_client := Some (Cpp_setDefaultMessageHandler c mh)\<rparr>)
      | (None, Some _) \<Rightarrow> None
      | (None, None) \<Rightarrow> Some m)"

definition MQTTClient_setMessageHandler ::
  "('w, 'm, 'a) mbed_os \<Rightarrow> ('m, 'h, 'k) MQTTClientMbedOs \<Rightarrow> byte list \<Rightarrow> 'h option \<Rightarrow> int \<times> ('m, 'h, 'k) MQTTClientMbedOs" where
  "MQTTClient_setMessageHandler os m topicf mh =
     (case (mo_clientSN m, mo_client m) of
        (Some _, _) \<Rightarrow> (NSAPI_ERROR_UNSUPPORTED os, m)
      | (None, None) \<Rightarrow> (NSAPI_ERROR_NO_CONNECTION os, m)
      | (None, Some c) \<Rightarrow> let (rc, c) = Cpp_setMessageHandler c topicf mh in (rc, m\<lparr>mo_client := Some c\<rparr>))"

subsection \<open>The contract of sockets and timers\<close>

text \<open>\<open>ticks w c\<close> is an upper bound for the readings of the timer before the countdown \<open>c\<close> has expired, \<open>sent\<close> the bytes sent on the socket.
  \<open>recv\<close> stores as many bytes as it says, at most as many as it is asked for, and \<open>send\<close> sends a prefix.\<close>

locale mbed_platform =
  fixes os :: "('w, 'm, 'a) mbed_os"
    and ticks :: "'w \<Rightarrow> 'm Countdown \<Rightarrow> nat"
    and sent :: "'w \<Rightarrow> byte list"
  assumes recv_count: "0 < k \<Longrightarrow> socket_recv os w k = (ret, bs, w') \<Longrightarrow> ret \<le> k \<and> int (length bs) = max 0 ret"
    and time_recv: "socket_recv os w k = (ret, bs, w') \<Longrightarrow> ticks w' s \<le> ticks w s \<and> sent w' = sent w"
    and time_set: "ticks (socket_set_timeout os w ms) s \<le> ticks w s \<and> sent (socket_set_timeout os w ms) = sent w"
    and send_count: "socket_send os w bs = (ret, w') \<Longrightarrow> ret \<le> int (length bs)"
    and sends: "socket_send os w bs = (ret, w') \<Longrightarrow> ticks w' s \<le> ticks w s \<and> sent w' = sent w @ take (nat ret) bs"
    and mtime_init: "mtimer_init os w = (t, w') \<Longrightarrow> ticks w' s \<le> ticks w s \<and> sent w' = sent w"
    and mtime_stop: "mtimer_stop os w t = (t', w') \<Longrightarrow> ticks w' s \<le> ticks w s \<and> sent w' = sent w"
    and mtime_reset: "mtimer_reset os w t = (t', w') \<Longrightarrow> ticks w' s \<le> ticks w s \<and> sent w' = sent w"
    and mtime_start: "mtimer_start os w t = (t', w') \<Longrightarrow> ticks w' s \<le> ticks w s \<and> sent w' = sent w"
    and mtime_read: "mtimer_read_ms os w t = (r, w') \<Longrightarrow> ticks w' s \<le> ticks w s \<and> sent w' = sent w"
    and mtime_passes: "mtimer_read_ms os w t = (r, w') \<Longrightarrow> word_of_int r < e \<Longrightarrow>
        ticks w' \<lparr>cd_t = t, interval_end_ms = e\<rparr> < ticks w \<lparr>cd_t = t, interval_end_ms = e\<rparr>"
    and would_block: "NSAPI_ERROR_WOULD_BLOCK os < 0"
    and no_connection: "NSAPI_ERROR_NO_CONNECTION os < 0"
begin

lemma convert_negative: "ret \<le> 0 \<Longrightarrow> convert_nsapi_error_to_mqtt_error os ret \<le> 0"
  by (simp add: convert_nsapi_error_to_mqtt_error_def)

text \<open>The loop ends: each turn but the last stores at least one byte.\<close>

lemma accumulate_loop_returns:
  "0 \<le> k \<Longrightarrow> \<exists>r bs w'. accumulate_loop os w k stored = Some (r, stored @ bs, w') \<and> int (length bs) \<le> k \<and>
    (case r of None \<Rightarrow> int (length bs) = k | Some e \<Rightarrow> e \<le> 0)"
proof (induction "nat k" arbitrary: w k stored rule: less_induct)
  case less
  show ?case
  proof (cases "k = 0")
    case True
    then show ?thesis
      by (subst accumulate_loop.simps) simp
  next
    case False
    obtain ret bs w1 where r: "socket_recv os w k = (ret, bs, w1)" by (metis surj_pair)
    have c: "ret \<le> k" "int (length bs) = max 0 ret"
      using recv_count [OF _ r] False less.prems by simp_all
    show ?thesis
    proof (cases "ret > 0")
      case True
      then obtain r' bs' w' where "accumulate_loop os w1 (k - ret) (stored @ bs) = Some (r', (stored @ bs) @ bs', w')"
        "int (length bs') \<le> k - ret" "case r' of None \<Rightarrow> int (length bs') = k - ret | Some e \<Rightarrow> e \<le> 0"
        using less.hyps [of "k - ret" w1 "stored @ bs"] c by auto
      then show ?thesis
        using True False r c
        by (subst accumulate_loop.simps) (auto split: option.splits intro!: exI [of _ "bs @ bs'"])
    qed (use False r c convert_negative less.prems in \<open>subst accumulate_loop.simps, auto\<close>)
  qed
qed

lemma accumulate_loop_time:
  assumes "accumulate_loop os w k stored = Some (r, bs, w')"
  shows "ticks w' s \<le> ticks w s \<and> sent w' = sent w"
proof -
  have "os' = os \<longrightarrow> ticks (snd (snd x)) s \<le> ticks w s \<and> sent (snd (snd x)) = sent w"
    if "accumulate_loop os' w k stored = Some x" for os' x
  proof (rule accumulate_loop.raw_induct [where P = "\<lambda>os' w k stored x. os' = os \<longrightarrow> ticks (snd (snd x)) s \<le> ticks w s \<and>
      sent (snd (snd x)) = sent w", OF _ that])
    fix loop w k stored x and os' :: "('w, 'm, 'a) mbed_os"
    assume IH: "\<And>os' w k stored x. loop os' w k stored = Some x \<Longrightarrow> os' = os \<longrightarrow> ticks (snd (snd x)) s \<le> ticks w s \<and>
        sent (snd (snd x)) = sent w"
      and step: "(if k \<noteq> 0 then case socket_recv os' w k of (ret, bs, w) \<Rightarrow> if ret > 0 then loop os' w (k - ret) (stored @ bs)
        else Some (Some (convert_nsapi_error_to_mqtt_error os' ret), stored @ bs, w) else Some (None, stored, w)) = Some x"
    obtain ret bs w1 where r: "socket_recv os' w k = (ret, bs, w1)" by (metis surj_pair)
    show "os' = os \<longrightarrow> ticks (snd (snd x)) s \<le> ticks w s \<and> sent (snd (snd x)) = sent w"
      using step IH [of os' w1 "k - ret" "stored @ bs" x] r time_recv [of w k ret bs w1 s]
      by (auto split: if_splits)
  qed
  then show ?thesis
    using assms by auto
qed

lemma read_contract:
  assumes "0 < k"
  shows "\<exists>rc bs w'. accumulate_mqtt_read os w k t = Some (rc, bs, w') \<and> int (length bs) \<le> k \<and> (rc > 0 \<longrightarrow> rc = int (length bs))"
  using accumulate_loop_returns [of k "socket_set_timeout os w t" "[]"] assms
  by (auto simp: accumulate_mqtt_read_def split: option.splits)

lemma read_time:
  assumes "accumulate_mqtt_read os w k t = Some (rc, bs, w')"
  shows "ticks w' s \<le> ticks w s \<and> sent w' = sent w"
proof -
  obtain r where "accumulate_loop os (socket_set_timeout os w t) k [] = Some (r, bs, w')"
    using assms by (auto simp: accumulate_mqtt_read_def bind_eq_Some_conv)
  then show ?thesis
    using accumulate_loop_time [of _ _ _ _ _ _ s] time_set [of w t s] by (metis order_trans)
qed

lemma write_contract:
  assumes "mqtt_write os w bs t = (rc, w')"
  shows "rc \<le> int (length bs)" "ticks w' s \<le> ticks w s \<and> sent w' = sent w @ take (nat rc) bs"
proof -
  obtain ret w1 where r: "socket_send os (socket_set_timeout os w t) bs = (ret, w1)" by force
  have rc: "rc = (if ret > 0 then ret else convert_nsapi_error_to_mqtt_error os ret)" "w' = w1"
    using assms r by (auto simp: mqtt_write_def split: if_splits)
  show "rc \<le> int (length bs)"
    using rc(1) send_count [OF r] convert_negative [of ret] by (auto split: if_splits)
  show "ticks w' s \<le> ticks w s \<and> sent w' = sent w @ take (nat rc) bs"
    using rc sends [OF r, of s] time_set [of w t s] convert_negative [of ret] by (auto split: if_splits)
qed

lemma countdown_time:
  "Countdown_countdown_ms os w c ms = (c', w') \<Longrightarrow> ticks w' s \<le> ticks w s \<and> sent w' = sent w"
  by (auto simp: Countdown_countdown_ms_def split: prod.splits dest!: mtime_stop [where s = s] mtime_reset [where s = s] mtime_start [where s = s])

end

sublocale mbed_platform \<subseteq> port: cpp_platform "MQTTNetworkMbedOs os g" ticks sent
  for g
proof unfold_locales
  show "timer_expired (MQTTNetworkMbedOs os g) w timer = (False, w') \<Longrightarrow> ticks w' timer < ticks w timer" for w timer w'
    using mtime_passes by (cases timer) (auto simp: MQTTNetworkMbedOs_def Countdown_expired_def not_le split: prod.splits)
qed (use read_contract read_time write_contract countdown_time mtime_init mtime_read in
     \<open>fastforce simp: MQTTNetworkMbedOs_def Countdown_new_def Countdown_ms_def Countdown_countdown_def Countdown_expired_def Countdown_left_ms_def
       split: prod.splits intro: order_trans\<close>)+

context mbed_platform
begin

lemma is_port: "cpp_platform (MQTTNetworkMbedOs os g) ticks sent"
  by (rule port.cpp_platform_axioms)

end

subsection \<open>Stream sockets\<close>

text \<open>A stream socket gives out the bytes in order, in pieces of any size.\<close>

locale mbed_stream = mbed_platform os ticks sent
  for os :: "('w, 'm, 'a) mbed_os" and ticks :: "'w \<Rightarrow> 'm Countdown \<Rightarrow> nat" and sent :: "'w \<Rightarrow> byte list" +
  fixes pending :: "'w \<Rightarrow> byte list"
  assumes recv_stream: "pending w \<noteq> [] \<Longrightarrow> 0 < k \<Longrightarrow> \<exists>j w'. 0 < j \<and> j \<le> length (pending w) \<and> int j \<le> k \<and>
      socket_recv os w k = (int j, take j (pending w), w') \<and> pending w' = drop j (pending w)"
    and pending_set: "pending (socket_set_timeout os w ms) = pending w"
    and pending_send: "socket_send os w bs = (ret, w') \<Longrightarrow> pending w' = pending w"
    and pending_init: "mtimer_init os w = (t, w') \<Longrightarrow> pending w' = pending w"
    and pending_stop: "mtimer_stop os w t = (t', w') \<Longrightarrow> pending w' = pending w"
    and pending_reset: "mtimer_reset os w t = (t', w') \<Longrightarrow> pending w' = pending w"
    and pending_start: "mtimer_start os w t = (t', w') \<Longrightarrow> pending w' = pending w"
    and pending_read: "mtimer_read_ms os w t = (r, w') \<Longrightarrow> pending w' = pending w"
begin

lemma accumulate_loop_pending:
  "pending w = bs @ ys \<Longrightarrow> \<exists>w'. accumulate_loop os w (int (length bs)) stored = Some (None, stored @ bs, w') \<and> pending w' = ys"
proof (induction "length bs" arbitrary: w bs stored rule: less_induct)
  case less
  show ?case
  proof (cases "bs = []")
    case True
    then show ?thesis
      using less.prems by (subst accumulate_loop.simps) simp
  next
    case False
    then obtain j w1 where j: "0 < j" "j \<le> length bs" "socket_recv os w (int (length bs)) = (int j, take j bs, w1)"
      "pending w1 = drop j bs @ ys"
      using recv_stream [of w "int (length bs)"] less.prems by auto
    obtain w' where "accumulate_loop os w1 (int (length (drop j bs))) (stored @ take j bs) =
        Some (None, (stored @ take j bs) @ drop j bs, w')" "pending w' = ys"
      using less.hyps [OF _ j(4)] j(1) False by fastforce
    moreover have "int (length (drop j bs)) = int (length bs) - int j"
      using j(2) by simp
    ultimately show ?thesis
      using j(1,3) False by (subst accumulate_loop.simps) simp
  qed
qed

lemma accumulate_reads:
  assumes "pending w = bs @ ys"
  shows "\<exists>w'. accumulate_mqtt_read os w (int (length bs)) t = Some (int (length bs), bs, w') \<and> pending w' = ys"
  using accumulate_loop_pending [of "socket_set_timeout os w t" bs ys "[]"] assms
  by (auto simp: accumulate_mqtt_read_def pending_set)

lemma pending_countdown: "Countdown_countdown_ms os w c ms = (c', w') \<Longrightarrow> pending w' = pending w"
  by (auto simp: Countdown_countdown_ms_def split: prod.splits dest!: pending_stop pending_reset pending_start)

end

sublocale mbed_stream \<subseteq> net: cpp_network "MQTTNetworkMbedOs os g" ticks sent pending
  for g
  by unfold_locales (use accumulate_reads pending_countdown pending_init pending_read pending_set pending_send in
     \<open>fastforce simp: MQTTNetworkMbedOs_def Countdown_new_def Countdown_ms_def Countdown_countdown_def Countdown_expired_def Countdown_left_ms_def
       mqtt_write_def split: prod.splits if_splits\<close>)+

context mbed_stream
begin

lemma is_network: "cpp_network (MQTTNetworkMbedOs os g) ticks sent pending"
  by (rule net.cpp_network_axioms)

end

subsection \<open>Datagram sockets\<close>

text \<open>A datagram socket takes a datagram as a whole, and gives out one datagram with each \<open>recv\<close>. All datagrams that arrive are packets of MQTT-SN
  and shorter than the read buffer of \<open>maxlen\<close> bytes.\<close>

locale mbed_datagrams = mbed_platform os ticks sent
  for os :: "('w, 'm, 'a) mbed_os" and ticks :: "'w \<Rightarrow> 'm Countdown \<Rightarrow> nat" and sent :: "'w \<Rightarrow> byte list" +
  fixes maxlen :: int
  assumes recv_datagram: "socket_recv os w k = (ret, bs, w') \<Longrightarrow> ret > 0 \<Longrightarrow>
      \<exists>body. frame_ok body \<and> int (length (sn_frame body)) < maxlen \<and> bs = take (nat k) (sn_frame body)"
    and send_whole: "socket_send os w bs = (ret, w') \<Longrightarrow> ret \<le> 0 \<or> ret = int (length bs)"

sublocale mbed_datagrams \<subseteq> dgrams: cpp_datagrams "MQTTNetworkMbedOs os g" ticks sent
  for g
proof unfold_locales
  show "rc \<le> 0 \<or> rc = int (length bs)" if "ipstack_write (MQTTNetworkMbedOs os g) w bs t = (rc, w')" for w bs t rc w'
    using that send_whole [of "socket_set_timeout os w t" bs] convert_negative
    by (auto simp: MQTTNetworkMbedOs_def mqtt_write_def split: prod.splits if_splits)
qed

context mbed_datagrams
begin

lemma read_never:
  assumes "accumulate_mqtt_read os w maxlen t = Some (rc, bs, w')" "0 < maxlen"
  shows "rc \<le> 0 \<or> rc = maxlen \<and> (\<exists>body rest. frame_ok body \<and> int (length (sn_frame body)) < maxlen \<and> bs = sn_frame body @ rest)"
proof -
  let ?w = "socket_set_timeout os w t"
  obtain ret bs1 w1 where r: "socket_recv os ?w maxlen = (ret, bs1, w1)" by (metis surj_pair)
  show ?thesis
  proof (cases "ret > 0")
    case True
    obtain body where body: "frame_ok body" "int (length (sn_frame body)) < maxlen" "bs1 = sn_frame body"
      using recv_datagram [OF r True] by auto
    have ret: "ret \<le> maxlen"
      using recv_count [OF assms(2) r] by simp
    obtain r' bs' w2 where "accumulate_loop os w1 (maxlen - ret) bs1 = Some (r', bs1 @ bs', w2)" "case r' of None \<Rightarrow> True | Some e \<Rightarrow> e \<le> 0"
      using accumulate_loop_returns [of "maxlen - ret" w1 bs1] ret by (fastforce split: option.splits)
    then show ?thesis
      using assms True r body
      by (auto simp: accumulate_mqtt_read_def accumulate_loop.simps [of os ?w] split: option.splits)
  next
    case False
    then show ?thesis
      using assms r convert_negative [of ret] by (auto simp: accumulate_mqtt_read_def accumulate_loop.simps [of os ?w])
  qed
qed

lemma returns_whenever: "returns m P \<Longrightarrow> whenever m Q \<Longrightarrow> returns m (\<lambda>x. P x \<and> Q x)"
  by (auto simp: returns_def whenever_def)

text \<open>So the client for MQTT-SN, which asks for as many bytes as its buffer has and expects one datagram, never sees a packet.\<close>

lemma readPacket_never:
  assumes "SN_inv cfg c" "MAX_MQTT_PACKET_SIZE cfg = maxlen"
  shows "whenever (CppSN_readPacket cfg (MQTTNetworkMbedOs os g) w c timer)
    (\<lambda>(rc, w', c'). rc = FAILURE \<and> sc_inflightMsgid c' = sc_inflightMsgid c)"
proof -
  note size = SN_sizes [OF assms(1)]
  have pos: "0 < maxlen"
    using size(1) assms(2) by simp
  have dec: "whenever (MQTTSNPacket_decode buf maxlen (Some 0)) (\<lambda>(l, d). d \<noteq> Some maxlen)"
    if "frame_ok body" "int (length (sn_frame body)) < maxlen" "put_bytes (sc_readbuf c) 0 (sn_frame body @ rest) = Some buf" for body rest buf
  proof -
    have "buf = sn_frame body @ drop (length (sn_frame body)) buf"
      using that(3) by (auto simp: put_bytes_def split: if_splits)
    then have "MQTTSNPacket_decode buf maxlen (Some 0) = Some (sn_lenlen body, Some (int (length (sn_frame body))))"
      using decode_sn_frame [OF that(1) less_imp_le [OF that(2)], of "drop (length (sn_frame body)) buf" "Some 0"]
        sn_frame_type(1) [OF that(1)] by metis
    then show ?thesis
      using that(2) by (simp add: wlp)
  qed
  have read: "whenever (ipstack_read (MQTTNetworkMbedOs os g) w1 maxlen t) (\<lambda>(rc, bs, w'). rc \<le> 0 \<or>
      rc = maxlen \<and> (\<exists>body rest. frame_ok body \<and> int (length (sn_frame body)) < maxlen \<and> bs = sn_frame body @ rest))" for w1 t
    using read_never [OF _ pos] by (auto simp: whenever_def MQTTNetworkMbedOs_def)
  have put: "whenever (put_bytes (sc_readbuf c) 0 bs) (\<lambda>buf. put_bytes (sc_readbuf c) 0 bs = Some buf)" for bs
    by (simp add: whenever_def)
  note rules = whenever_mono [OF read] whenever_mono [OF put] whenever_mono [OF dec]
  show ?thesis
    unfolding CppSN_readPacket_def assms(2) by (auto simp: wlp intro!: rules)
qed

lemma send_keeps_inflight:
  "whenever (CppSN_sendPacket n w c len timer) (\<lambda>(rc, w', c'). (rc = SUCCESS \<or> rc = FAILURE) \<and> sc_inflightMsgid c' = sc_inflightMsgid c)"
  by (auto simp: CppSN_sendPacket_def wlp intro: whenever_any)

lemma keepalive_keeps_inflight:
  "whenever (CppSN_keepalive cfg n w c) (\<lambda>(rc, w', c'). sc_inflightMsgid c' = sc_inflightMsgid c)"
  by (auto simp: CppSN_keepalive_def wlp intro: whenever_any intro!: whenever_mono [OF send_keeps_inflight])

lemma cycle_never:
  assumes "SN_inv cfg c" "MAX_MQTT_PACKET_SIZE cfg = maxlen"
  shows "whenever (CppSN_cycle cfg (MQTTNetworkMbedOs os g) w c timer)
    (\<lambda>(rc, w', c'). rc = 255 \<and> sc_inflightMsgid c' = sc_inflightMsgid c)"
  by (auto simp: CppSN_cycle_def CppSN_cycle_dispatch_def wlp uchar_def intro!: whenever_mono [OF readPacket_never [OF assms]]
     whenever_mono [OF keepalive_keeps_inflight])

lemma waitfor_never:
  assumes "SN_inv cfg c" "unsubscribed c" "MAX_MQTT_PACKET_SIZE cfg = maxlen" "ty \<noteq> 255"
  shows "returns (CppSN_waitfor_loop cfg (MQTTNetworkMbedOs os g) w c ty timer rc0)
    (\<lambda>(rc, w', c'). (rc = rc0 \<or> rc = 255) \<and> sc_inflightMsgid c' = sc_inflightMsgid c)"
  using assms(1,2)
proof (induction "ticks w timer" arbitrary: w c rc0 rule: less_induct)
  case less
  let ?n = "MQTTNetworkMbedOs os g"
  obtain e w1 where e: "timer_expired ?n w timer = (e, w1)" by force
  show ?case
  proof (cases e)
    case True
    then show ?thesis
      using e by (subst CppSN_waitfor_loop.simps) simp
  next
    case False
    obtain w2 c2 where c2: "CppSN_cycle cfg ?n w1 c timer = Some (255, w2, c2)" "sc_inflightMsgid c2 = sc_inflightMsgid c"
      "dgrams.sn_step cfg w1 c w2 c2"
      using returns_whenever [OF dgrams.sn_cycle_step [OF less.prems] cycle_never [OF less.prems(1) assms(3)], of g w1 timer]
      unfolding returns_def by blast
    have "ticks w2 timer < ticks w timer"
      using port.runs_down [of g w timer w1] e False c2(3) by (auto simp: dgrams.sn_step_def port.later_def intro: le_less_trans)
    then have "returns (CppSN_waitfor_loop cfg ?n w2 c2 ty timer 255)
        (\<lambda>(rc, w', c'). (rc = 255 \<or> rc = 255) \<and> sc_inflightMsgid c' = sc_inflightMsgid c2)"
      by (rule less.hyps [OF _ dgrams.sn_step_inv [OF c2(3)] dgrams.unsubscribed_step [OF c2(3) less.prems(2)]])
    then show ?thesis
      using e False c2(1,2) assms(4) by (subst CppSN_waitfor_loop.simps) (auto elim!: returns_mono)
  qed
qed

lemma connect_never:
  assumes "SN_inv cfg c" "unsubscribed c" "MAX_MQTT_PACKET_SIZE cfg = maxlen" "snconnect_ok options" "sc_inflightMsgid c = 0"
  shows "\<exists>w' c'. CppSN_connect_options abi cfg (MQTTNetworkMbedOs os g) w c options = Some (FAILURE, w', c') \<and> SN_inv cfg c'"
proof -
  let ?n = "MQTTNetworkMbedOs os g"
  have 1: "dgrams.sn_step cfg w c w1 (c\<lparr>sc_duration := d, sc_cleansession := b\<rparr>)" if "Timer_ms ?n w t = (x, w1)" for t x w1 d b
    using dgrams.sn_timer_step [OF assms(1) that] by (simp add: dgrams.sn_step_def)
  have start: "sc_inflightMsgid c2 = 0" if "CppSN_start_received ?n w1 c1 = (w2, c2)" "sc_inflightMsgid c1 = 0" for w1 c1 w2 c2
    using that by (auto simp: CppSN_start_received_def split: if_splits prod.splits)
  have resend: "CppSN_resend_inflight cfg ?n w1 c1 timer rc = Some (rc, w1, c1)" if "sc_inflightMsgid c1 = 0" for w1 c1 timer rc
    using that by (simp add: CppSN_resend_inflight_def)
  have connack: "CppSN_read_connack abi cfg c1 t = Some FAILURE" if "t = FAILURE \<or> t = 255" for c1 :: "('m Countdown, 'b) CppSNClient" and t
    using that by (auto simp: CppSN_read_connack_def)
  note ser = returns_mono [OF dgrams.serialisers_return(2) [OF assms(1,4)]]
    and send = returns_mono [OF returns_whenever [OF dgrams.send_step [where ?w0.0 = w and ?c0.0 = c and cfg = cfg] send_keeps_inflight]]
  have wait: "returns (CppSN_waitfor cfg ?n w1 c1 5 timer) P"
    if "SN_inv cfg c1" "unsubscribed c1" "sc_inflightMsgid c1 = 0" "\<And>rc w' c'. rc = FAILURE \<or> rc = 255 \<Longrightarrow> sc_inflightMsgid c' = 0 \<Longrightarrow> P (rc, w', c')"
    for w1 timer P and c1 :: "('m Countdown, 'b) CppSNClient"
    unfolding CppSN_waitfor_def by (rule returns_mono [OF waitfor_never [OF that(1,2) assms(3)]]) (use that(3,4) in auto)
  have "returns (CppSN_connect_options abi cfg ?n w c options) (\<lambda>(rc, w', c'). rc = FAILURE)"
    by (auto simp: CppSN_connect_options_def wp assms(5) connack resend intro!: ser send wait
       dgrams.unsubscribed_step [OF _ assms(2)] intro: 1 start dgrams.sn_step_sendbuf dgrams.sn_start_received_step dgrams.sn_step_inv)
  then show ?thesis
    using dgrams.sn_connect_step [OF assms(1,2,4), of abi g w] by (auto simp: returns_def dgrams.sn_step_def)
qed

end

subsection \<open>A simulated system\<close>

text \<open>The stream comes in pieces of at most two bytes; datagrams are given by their bodies. A timer is the time of its start, and what it shows
  does not go beyond the range of 32 bits.\<close>

record 'i mbed_world =
  mw_in :: "'i list"
  mw_out :: "byte list"
  mw_now :: int

definition sim_shows :: "int \<Rightarrow> int" where
  "sim_shows a = max 0 (min a 4294967295)"

definition sim_os :: "('i mbed_world \<Rightarrow> int \<Rightarrow> int \<times> byte list \<times> 'i mbed_world) \<Rightarrow> ('i mbed_world, int, unit) mbed_os" where
  "sim_os recv = \<lparr>
     NSAPI_ERROR_OK = 0, NSAPI_ERROR_WOULD_BLOCK = - 3001, NSAPI_ERROR_UNSUPPORTED = - 3002,
     NSAPI_ERROR_NO_CONNECTION = - 3004, NSAPI_ERROR_DNS_FAILURE = - 3009,
     socket_set_timeout = (\<lambda>w t. w),
     socket_recv = recv,
     socket_send = (\<lambda>w bs. (int (length bs), w\<lparr>mw_out := mw_out w @ bs\<rparr>)),
     socket_open = (\<lambda>w. (0, w)), socket_connect = (\<lambda>w a. (0, w)), socket_close = (\<lambda>w. (0, w)),
     socket_set_root_ca_cert = (\<lambda>w c. (0, w)), socket_set_client_cert_key = (\<lambda>w c k. (0, w)),
     gethostbyname = (\<lambda>w h. (0, (), w)), SocketAddress = (\<lambda>h. ()),
     mtimer_init = (\<lambda>w. (mw_now w, w)),
     mtimer_stop = (\<lambda>w t. (t, w)), mtimer_reset = (\<lambda>w t. (mw_now w, w)), mtimer_start = (\<lambda>w t. (t, w)),
     mtimer_read_ms = (\<lambda>w t. (sim_shows (mw_now w - t), w\<lparr>mw_now := mw_now w + 1\<rparr>))\<rparr>"

definition sim_ticks :: "'i mbed_world \<Rightarrow> int Countdown \<Rightarrow> nat" where
  "sim_ticks w c = nat (uint (interval_end_ms c) + cd_t c - mw_now w)"

definition recv_pieces :: "byte mbed_world \<Rightarrow> int \<Rightarrow> int \<times> byte list \<times> byte mbed_world" where
  "recv_pieces w k =
     (if mw_in w = [] then (- 3001, [], w)
      else let j = min 2 (min (nat k) (length (mw_in w)))
           in (int j, take j (mw_in w), w\<lparr>mw_in := drop j (mw_in w)\<rparr>))"

definition recv_frames :: "byte list mbed_world \<Rightarrow> int \<Rightarrow> int \<times> byte list \<times> byte list mbed_world" where
  "recv_frames w k =
     (case mw_in w of
        [] \<Rightarrow> (- 3001, [], w)
      | body # bodies \<Rightarrow>
          let d = take (nat k) (sn_frame body); w = w\<lparr>mw_in := bodies\<rparr>
          in if frame_ok body \<and> int (length (sn_frame body)) < 20 then (int (length d), d, w) else (- 3001, [], w))"

lemma sim_timer: "(word_of_int (sim_shows a) :: u32) < e \<Longrightarrow> a < uint e"
  using uint_lt2p [of e] by (auto simp: sim_shows_def word_less_alt uint_word_of_int max_def min_def split: if_splits)

interpretation mbedstream: mbed_stream "sim_os recv_pieces" sim_ticks mw_out mw_in
  by unfold_locales (auto simp: sim_os_def sim_ticks_def recv_pieces_def Let_def min_def split: if_splits dest: sim_timer)

interpretation mbeddgrams: mbed_datagrams "sim_os recv_frames" sim_ticks mw_out 20
  by unfold_locales (auto simp: sim_os_def sim_ticks_def recv_frames_def Let_def split: if_splits list.splits dest: sim_timer)

subsection \<open>Properties\<close>

text \<open>What is lost: bytes that were received before a timeout are taken off the stream, and the result is 0.\<close>

lemma accumulate_loses_bytes:
  "accumulate_mqtt_read (sim_os recv_pieces) \<lparr>mw_in = [1, 2, 3], mw_out = [], mw_now = 0\<rparr> 5 100 =
     Some (0, [1, 2, 3], \<lparr>mw_in = [], mw_out = [], mw_now = 0\<rparr>)"
  by code_simp

lemma default_handler_null:
  "MQTTClient_setDefaultMessageHandler (snd (MQTTClient_UDPSocket os g cfg w mem)) mh = None"
  by (simp add: MQTTClient_UDPSocket_def MQTTClient_init_def MQTTClient_setDefaultMessageHandler_def split: prod.splits)

text \<open>C30: Reading over a stream socket of Mbed OS is exact. However the socket cuts the stream, if the next bytes of the stream are \<open>bs\<close>, then
  \<open>read\<close> of that many bytes stores exactly these and leaves the rest of the stream; and whatever the socket does,
  \<open>read\<close> returns, never stores more than it was asked for, and a positive result is the number of bytes stored.\<close>

theorem mbed_read_accumulates:
  assumes "mbed_stream os ticks sent pending"
  shows "(pending w = bs @ ys \<longrightarrow>
      (\<exists>w'. accumulate_mqtt_read os w (int (length bs)) t = Some (int (length bs), bs, w') \<and> pending w' = ys)) \<and>
    (0 < k \<longrightarrow> (\<exists>rc bs' w'. accumulate_mqtt_read os w k t = Some (rc, bs', w') \<and> int (length bs') \<le> k \<and>
       (rc > 0 \<longrightarrow> rc = int (length bs'))))"
  using mbed_stream.accumulate_reads [OF assms, of w bs ys t] mbed_platform.read_contract [OF mbed_stream.axioms(1) [OF assms], of k w t] by blast

theorem mbed_read_accumulates_witness:
  "\<exists>w'. accumulate_mqtt_read (sim_os recv_pieces) \<lparr>mw_in = [1, 2, 3, 4], mw_out = [], mw_now = 0\<rparr> 3 100 = Some (3, [1, 2, 3], w') \<and> mw_in w' = [4]"
  using mbed_read_accumulates [OF mbedstream.mbed_stream_axioms, of "\<lparr>mw_in = [1, 2, 3, 4], mw_out = [], mw_now = 0\<rparr>" "[1, 2, 3]" "[4]" 100 1]
  by simp

text \<open>C27: The client for MQTT over a stream socket of Mbed OS refines the receiver of the specification: whatever pieces the socket cuts the stream into, a
  round with a PUBLISH that fits or a PUBREL on the stream reads exactly that packet, tells the application what the receiver of QoS 2 tells it and
  sends the answer of the receiver, or ends disconnected.\<close>

theorem mbed_stream_refines:
  assumes "mbed_stream os ticks sent pending" "Cpp_inv cfg c" "MQTTCLIENT_QOS2 cfg" "packet_ok cfg pk" "pending w = packet_wire pk @ rest"
  shows "\<exists>rc w' c'. Cpp_cycle cfg (MQTTNetworkMbedOs os g) w c timer = Some (rc, w', c') \<and> pending w' = rest \<and> Cpp_inv cfg c' \<and>
    snd (received c') = snd (receive (length (cl_incomingQoS2messages c)) (Cpp_targets c) pk (received c)) \<and>
    (rc > 0 \<and> received c' = receive (length (cl_incomingQoS2messages c)) (Cpp_targets c) pk (received c) \<and>
       (\<exists>ys. sent w' = sent w @ packet_answer pk @ ys) \<or>
     rc < 0 \<and> \<not> cl_isconnected c')"
  using cpp_network.cycle_refines [OF mbed_stream.is_network [OF assms(1)] assms(2-), of g timer] by blast

definition demo_mbed :: "(int Countdown, nat) CppClient" where
  "demo_mbed = \<lparr>cl_command_timeout_ms = 1000, cl_sendbuf = replicate 20 0, cl_readbuf = replicate 22 0,
     cl_last_sent = \<lparr>cd_t = 0, interval_end_ms = 0\<rparr>, cl_last_received = \<lparr>cd_t = 0, interval_end_ms = 0\<rparr>,
     cl_ping_sent = \<lparr>cd_t = 0, interval_end_ms = 0\<rparr>, cl_keepAliveInterval = 0, cl_ping_outstanding = False, cl_cleansession = False,
     cl_packetid = 0, cl_messageHandlers = replicate 5 \<lparr>topicFilter = None, fp = None\<rparr>, cl_defaultMessageHandler = Some 7,
     cl_isconnected = True, cl_pubbuf = replicate 20 0, cl_inflightLen = 0, cl_inflightMsgid = 0, cl_inflightQoS = 0,
     cl_pubrel = False, cl_incomingQoS2messages = [9, 0], cl_delivered = []\<rparr>"

lemma demo_mbed_inv: "Cpp_inv demo_config demo_mbed"
proof -
  have "slots_ok (cl_messageHandlers demo_mbed)"
    by (rule slots_okI) (simp_all add: demo_mbed_def)
  then show ?thesis
    by (simp add: Cpp_inv_def demo_mbed_def demo_config_def filters_are_cstrings_def qos2_table_ok_def)
qed

theorem mbed_stream_refines_witness:
  "\<exists>rc w' c'. Cpp_cycle demo_config (MQTTNetworkMbedOs (sim_os recv_pieces) 0)
      \<lparr>mw_in = packet_wire (Release 9), mw_out = [], mw_now = 0\<rparr> demo_mbed \<lparr>cd_t = 0, interval_end_ms = 50\<rparr> = Some (rc, w', c') \<and> mw_in w' = [] \<and>
    snd (received c') = snd (receive 2 (Cpp_targets demo_mbed) (Release 9) (received demo_mbed))"
proof -
  have cfg: "MQTTCLIENT_QOS2 demo_config" "packet_ok demo_config (Release 9)" "length (cl_incomingQoS2messages demo_mbed) = 2"
    by (simp_all add: demo_config_def demo_mbed_def)
  have "mw_in \<lparr>mw_in = packet_wire (Release 9), mw_out = [], mw_now = 0\<rparr> = packet_wire (Release 9) @ []"
    by (simp only: mbed_world.simps append_Nil2)
  from mbed_stream_refines [OF mbedstream.mbed_stream_axioms demo_mbed_inv cfg(1,2) this, of 0 "\<lparr>cd_t = 0, interval_end_ms = 50\<rparr>"]
  show ?thesis
    unfolding cfg(3) by blast
qed

text \<open>C29: Five methods of the class \<open>MQTTClient\<close> return when it has a client for MQTT (and none for MQTT-SN), whatever socket and peer do: \<open>yield\<close>, \<open>connect\<close>, \<open>publish\<close>,
  \<open>unsubscribe\<close> and \<open>disconnect\<close>. The method \<open>subscribe\<close> is not among them: a SUBACK with two return codes makes it undefined. The first four have a result that is not negative or the one error code \<open>NSAPI_ERROR_NO_CONNECTION\<close>, and keep the
  invariant of the client. When \<open>yield\<close> or \<open>unsubscribe\<close> do not return 0, and after every \<open>disconnect\<close>, \<open>isConnected\<close> is
  false; after a \<open>connect\<close> that returns 0 it is true. Publish takes arguments that make a packet.\<close>

theorem mbed_client_returns:
  assumes "mbed_platform os ticks sent" "mo_client m = Some c" "mo_clientSN m = None" "Cpp_inv cfg c" "connect_ok options"
    and "publishable topic (msg_payload msg) (msg_payloadlen msg) (msg_qos msg) (msg_retained msg)" "length topicf < 65536"
  shows "(\<exists>rc w' c' m'. MQTTClient_yield os g cfg w m ms = Some (rc, w', m') \<and> mo_client m' = Some c' \<and> Cpp_inv cfg c' \<and>
      (rc = 0 \<or> rc = NSAPI_ERROR_NO_CONNECTION os \<and> \<not> MQTTClient_isConnected m')) \<and>
    (\<exists>rc w' c' m'. MQTTClient_connect os g cfg w m options = Some (rc, w', m') \<and> mo_client m' = Some c' \<and> Cpp_inv cfg c' \<and>
      (rc \<ge> 0 \<or> rc = NSAPI_ERROR_NO_CONNECTION os) \<and> (rc = 0 \<longrightarrow> MQTTClient_isConnected m')) \<and>
    (\<exists>rc w' c' m'. MQTTClient_publish os g cfg w m topic msg = Some (rc, w', m') \<and> mo_client m' = Some c' \<and> Cpp_inv cfg c' \<and>
      (rc = 0 \<or> rc = NSAPI_ERROR_NO_CONNECTION os)) \<and>
    (\<exists>rc w' c' m'. MQTTClient_unsubscribe os g cfg w m topicf = Some (rc, w', m') \<and> mo_client m' = Some c' \<and> Cpp_inv cfg c' \<and>
      (rc = 0 \<or> rc = NSAPI_ERROR_NO_CONNECTION os \<and> \<not> MQTTClient_isConnected m')) \<and>
    (\<exists>rc w' c' m'. MQTTClient_disconnect os g cfg w m = Some (rc, w', m') \<and> mo_client m' = Some c' \<and> Cpp_inv cfg c' \<and>
      \<not> MQTTClient_isConnected m')"
proof -
  let ?n = "MQTTNetworkMbedOs os g"
  note port = mbed_platform.is_port [OF assms(1), of g]
  note s = cpp_platform.safe_step_def [OF port] and neg = mbed_platform.no_connection [OF assms(1)]
  note defs = nsapi_result_def MQTTClient_isConnected_def assms(2,3)
  have yield: "\<exists>rc w' c'. Cpp_yield cfg ?n w c ms = Some (rc, w', c') \<and> Cpp_inv cfg c' \<and> (rc = 0 \<or> rc = FAILURE \<and> \<not> cl_isconnected c')"
    using cpp_platform.yield_step [OF port assms(4), of w ms] unfolding s by blast
  have connect: "\<exists>rc w' c'. Cpp_connect_options cfg ?n w c options = Some (rc, w', c') \<and> Cpp_inv cfg c' \<and> (rc = 0 \<longrightarrow> cl_isconnected c')"
    using cpp_platform.connect_step [OF port assms(4,5), of w "\<lparr>cd_rc = 0, cd_sessionPresent = False\<rparr>"]
    unfolding s Cpp_connect_options_def by auto
  have publish: "\<exists>rc w' c'. Cpp_publish_message cfg ?n w c topic msg = Some (rc, w', c') \<and> Cpp_inv cfg c' \<and> (rc = 0 \<or> rc = FAILURE)"
    using cpp_platform.publish_step [OF port assms(4,6), of w 0] unfolding s Cpp_publish_message_def Cpp_publish_def by auto
  have unsub: "\<exists>rc w' c'. Cpp_unsubscribe cfg ?n w c topicf = Some (rc, w', c') \<and> Cpp_inv cfg c' \<and> (rc = 0 \<or> rc = FAILURE \<and> \<not> cl_isconnected c')"
    using cpp_platform.unsubscribe_step [OF port assms(4,7), of w] unfolding s by blast
  have disc: "\<exists>rc w' c'. Cpp_disconnect cfg ?n w c = Some (rc, w', c') \<and> Cpp_inv cfg c' \<and> \<not> cl_isconnected c'"
    using cpp_platform.disconnect_step [OF port assms(4), of w] unfolding s by blast
  note defs = defs call_client_def MQTTClient_yield_def MQTTClient_connect_def MQTTClient_publish_def MQTTClient_unsubscribe_def MQTTClient_disconnect_def
  show ?thesis
    apply (intro conjI)
    subgoal using yield by (auto simp: defs)
    subgoal using connect neg by (auto simp: defs)
    subgoal using publish by (auto simp: defs)
    subgoal using unsub by (auto simp: defs)
    subgoal using disc by (auto simp: defs)
    done
qed

theorem mbed_client_returns_witness:
  "\<exists>rc w' c' m'. MQTTClient_yield (sim_os recv_pieces) 0 demo_config \<lparr>mw_in = [208, 0], mw_out = [], mw_now = 0\<rparr>
       (MQTTClient_init\<lparr>mo_client := Some demo_mbed\<rparr> :: (int, nat, nat) MQTTClientMbedOs) 50 = Some (rc, w', m') \<and>
     mo_client m' = Some c' \<and> Cpp_inv demo_config c' \<and> (rc = 0 \<or> rc = - 3004 \<and> \<not> MQTTClient_isConnected m')"
proof -
  have m: "mo_client (MQTTClient_init\<lparr>mo_client := Some demo_mbed\<rparr> :: (int, nat, nat) MQTTClientMbedOs) = Some demo_mbed"
    "mo_clientSN (MQTTClient_init\<lparr>mo_client := Some demo_mbed\<rparr> :: (int, nat, nat) MQTTClientMbedOs) = None"
    by (simp_all add: MQTTClient_init_def)
  have p: "publishable [97] (msg_payload msg) (msg_payloadlen msg) (msg_qos msg) (msg_retained msg)"
    if "msg = \<lparr>msg_qos = 1, msg_retained = 0, msg_dup = 0, msg_id = 0, msg_payload = Some [1, 2], msg_payloadlen = 2\<rparr>" for msg
    using demo_publishable that by simp
  have "NSAPI_ERROR_NO_CONNECTION (sim_os recv_pieces) = - 3004"
    by (simp add: sim_os_def)
  then show ?thesis
    using mbed_client_returns [OF mbedstream.mbed_platform_axioms m demo_mbed_inv demo_options_ok p [OF refl], of "[98]" 0
        "\<lparr>mw_in = [208, 0], mw_out = [], mw_now = 0\<rparr>" 50] by simp
qed

text \<open>Over a datagram socket of Mbed OS the client for MQTT-SN can never connect. If all datagrams that arrive are packets of MQTT-SN shorter than
  the read buffer, then \<open>connect\<close> of the class \<open>MQTTClient\<close> returns, and always with \<open>NSAPI_ERROR_NO_CONNECTION\<close>, also when the gateway accepts the
  connection: \<open>read\<close> collects datagrams until the whole buffer is full, and the client expects one datagram.\<close>

theorem mbed_sn_never_connects:
  assumes "mbed_datagrams os ticks sent maxlen" "mo_clientSN m = Some c" "SN_inv cfg c" "unsubscribed c"
    and "MAX_MQTT_PACKET_SIZE cfg = maxlen" "snconnect_ok options" "sc_inflightMsgid c = 0"
  shows "\<exists>w' m'. MQTTClient_connect_SN abi os g cfg w m options = Some (NSAPI_ERROR_NO_CONNECTION os, w', m')"
  using mbed_datagrams.connect_never [OF assms(1,3-7), of abi g w] assms(2)
  by (auto simp: MQTTClient_connect_SN_def call_clientSN_def nsapi_result_def)

definition demo_mbed_sn :: "(int Countdown, nat) CppSNClient" where
  "demo_mbed_sn = \<lparr>sc_command_timeout_ms = 1000, sc_sendbuf = replicate 20 0, sc_readbuf = replicate 20 0,
     sc_last_sent = \<lparr>cd_t = 0, interval_end_ms = 0\<rparr>, sc_last_received = \<lparr>cd_t = 0, interval_end_ms = 0\<rparr>, sc_duration = 0,
     sc_ping_outstanding = False, sc_cleansession = False, sc_packetid = 0,
     sc_messageHandlers = replicate 5 \<lparr>snh_topicFilter = None, snh_fp = None\<rparr>, sc_defaultMessageHandler = Some 7,
     sc_isconnected = False, sc_pubbuf = replicate 20 0, sc_inflightLen = 0, sc_inflightMsgid = 0, sc_inflightQoS = 0,
     sc_pubrel = False, sc_incomingQoS2messages = replicate 3 0,
     sc_topics = (\<lambda>_. \<lparr>topic_type = MQTTSN_TOPIC_TYPE_NORMAL, topic_data = Topic_id 1\<rparr>), sc_delivered = []\<rparr>"

theorem mbed_sn_never_connects_witness:
  "\<exists>w' m'. MQTTClient_connect_SN Unsigned_Char (sim_os recv_frames) 0 demo_config \<lparr>mw_in = [[5, 0]], mw_out = [], mw_now = 0\<rparr>
     (MQTTClient_init\<lparr>mo_clientSN := Some demo_mbed_sn\<rparr> :: (int, nat, nat) MQTTClientMbedOs) MQTTSNPacket_connectData_initializer =
       Some (- 3004, w', m')"
proof -
  have c: "SN_inv demo_config demo_mbed_sn" "unsubscribed demo_mbed_sn" "sc_inflightMsgid demo_mbed_sn = 0" "MAX_MQTT_PACKET_SIZE demo_config = 20"
    "mo_clientSN (MQTTClient_init\<lparr>mo_clientSN := Some demo_mbed_sn\<rparr> :: (int, nat, nat) MQTTClientMbedOs) = Some demo_mbed_sn"
    "NSAPI_ERROR_NO_CONNECTION (sim_os recv_frames) = - 3004"
    by (simp_all add: SN_inv_def demo_mbed_sn_def demo_config_def unsubscribed_def list_all_iff sim_os_def)
  show ?thesis
    using mbed_sn_never_connects [OF mbeddgrams.mbed_datagrams_axioms c(5,1,2,4) demo_sn_ok(1) c(3)] unfolding c(6) by blast
qed

text \<open>C31: The countdown timer of Mbed OS within its range of 32 bits. When the timer shows \<open>r\<close> milliseconds (a C \<open>int\<close> that is not negative), the countdown has expired
  exactly when \<open>r\<close> has reached its end. \<open>left_ms\<close> is the difference if the end fits into an \<open>int\<close>; an end of \<open>2 ^ 31 + r\<close> or
  more gives a negative number although the countdown has not expired. A countdown in seconds has the right end as long as it is at most 4294967
  seconds, which all keep-alive intervals are; one second more wraps around to 704 milliseconds.\<close>

theorem countdown_range:
  assumes "mtimer_read_ms os w (cd_t c) = (r, w')" "0 \<le> r" "r < 2 ^ 31"
  shows "(fst (Countdown_expired os w c) \<longleftrightarrow> uint (interval_end_ms c) \<le> r) \<and>
    (uint (interval_end_ms c) < 2 ^ 31 \<longrightarrow> fst (Countdown_left_ms os w c) = uint (interval_end_ms c) - r) \<and>
    (2 ^ 31 + r \<le> uint (interval_end_ms c) \<longrightarrow> fst (Countdown_left_ms os w c) < 0 \<and> \<not> fst (Countdown_expired os w c)) \<and>
    (0 \<le> sec \<and> sec \<le> 4294967 \<longrightarrow> uint (interval_end_ms (fst (Countdown_countdown os w c sec))) = sec * 1000) \<and>
    uint (interval_end_ms (fst (Countdown_countdown os w c 4294968))) = 704"
proof -
  let ?e = "interval_end_ms c"
  have e: "0 \<le> uint ?e" "uint ?e < 2 ^ 32"
    using uint_lt2p [of ?e] by simp_all
  have expired: "fst (Countdown_expired os w c) \<longleftrightarrow> uint ?e \<le> r"
    using assms by (simp add: Countdown_expired_def word_le_def uint_word_of_int)
  have left: "fst (Countdown_left_ms os w c) = signed_take_bit 31 (uint ?e - r)"
  proof -
    have "?e - word_of_int r = word_of_int (uint ?e - r)"
      by simp
    then show ?thesis
      using assms(1) by (simp add: Countdown_left_ms_def sint_sbintrunc' del: of_int_diff)
  qed
  have fits: "signed_take_bit 31 (uint ?e - r) = uint ?e - r" if "uint ?e < 2 ^ 31"
  proof (rule signed_take_bit_int_eq_self)
    show "- (2 ^ 31) \<le> uint ?e - r" "uint ?e - r < 2 ^ 31"
      using that assms(2,3) e(1) by linarith+
  qed
  have wraps: "signed_take_bit 31 (uint ?e - r) < 0" if "2 ^ 31 + r \<le> uint ?e"
  proof -
    have "(uint ?e - r) div 2 ^ 31 = 1"
      using that assms(2) e(2) by (intro div_pos_geq [THEN trans]) simp_all
    then show ?thesis
      by (simp add: signed_take_bit_negative_iff bit_iff_odd)
  qed
  have sec: "uint (interval_end_ms (fst (Countdown_countdown os w c k))) = k * 1000 mod 2 ^ 32" for k
    by (simp add: Countdown_countdown_def Countdown_countdown_ms_def uint_word_ariths uint_word_of_int mod_mult_left_eq split: prod.split)
  show ?thesis
    using expired left fits wraps sec [of sec] sec [of 4294968] assms(2) by (auto simp: not_le)
qed

theorem countdown_range_witness:
  "fst (Countdown_left_ms (sim_os recv_pieces) \<lparr>mw_in = [], mw_out = [], mw_now = 30\<rparr> \<lparr>cd_t = 0, interval_end_ms = 100\<rparr>) = 70"
proof -
  have "mtimer_read_ms (sim_os recv_pieces) \<lparr>mw_in = [], mw_out = [], mw_now = 30\<rparr> (cd_t \<lparr>cd_t = 0, interval_end_ms = 100\<rparr>) =
      (30, \<lparr>mw_in = [], mw_out = [], mw_now = 31\<rparr>)"
    by (simp add: sim_os_def sim_shows_def)
  from countdown_range [OF this] show ?thesis by simp
qed

end
