(* ===== verification/MQTT_Linux.thy ===== *)
theory MQTT_Linux
  imports MQTT_Client_Protocol MQTT_Cpp_Protocol
begin

text \<open>
  The ports to Linux: \<^verbatim>\<open>MQTTClient-C/src/linux/MQTTLinux.c\<close> of the C client and the two files \<^verbatim>\<open>linux.cpp\<close> of the C++ clients for MQTT and
  MQTT-SN. Each has timers over \<open>gettimeofday\<close> and a socket; they differ in the loop that reads. The system calls are the parameter
  \<open>linux_os\<close>; the locales say what is asked of them, and that each port then keeps the contract of its client.
\<close>

subsection \<open>The system\<close>

text \<open>A failed \<open>recv\<close> gives the value of \<open>errno\<close> (it returns -1), any other the bytes it stored (it returns their number). An entry of the list of
  \<open>getaddrinfo\<close> is a family and an address. The macros \<open>timersub\<close> and \<open>timeradd\<close> are those of \<^verbatim>\<open>sys/time.h\<close>; seconds are unbounded.\<close>

record timeval =
  tv_sec :: int
  tv_usec :: int

record ('w, 'a) linux_os =
  EAGAIN :: int
  EWOULDBLOCK :: int
  ENOTCONN :: int
  ECONNRESET :: int
  AF_INET :: int
  sys_gettimeofday :: "'w \<Rightarrow> timeval \<times> 'w"
  sys_rcvtimeo :: "'w \<Rightarrow> int \<Rightarrow> timeval \<Rightarrow> 'w"
  sys_sndtimeo :: "'w \<Rightarrow> int \<Rightarrow> timeval \<Rightarrow> 'w"
  sys_recv :: "'w \<Rightarrow> int \<Rightarrow> int \<Rightarrow> (int + byte list) \<times> 'w"
  sys_write :: "'w \<Rightarrow> int \<Rightarrow> byte list \<Rightarrow> int \<times> 'w"
  sys_getaddrinfo :: "'w \<Rightarrow> byte list \<Rightarrow> int \<times> (int \<times> 'a) list \<times> 'w"
  sys_socket :: "'w \<Rightarrow> int \<Rightarrow> int \<times> 'w"
  sys_connect :: "'w \<Rightarrow> int \<Rightarrow> 'a \<times> u16 \<Rightarrow> int \<times> 'w"
  sys_close :: "'w \<Rightarrow> int \<Rightarrow> int \<times> 'w"

definition timersub :: "timeval \<Rightarrow> timeval \<Rightarrow> timeval" where
  "timersub a b =
     (let sec = tv_sec a - tv_sec b; usec = tv_usec a - tv_usec b
      in if usec < 0 then \<lparr>tv_sec = sec - 1, tv_usec = usec + 1000000\<rparr> else \<lparr>tv_sec = sec, tv_usec = usec\<rparr>)"

definition timeradd :: "timeval \<Rightarrow> timeval \<Rightarrow> timeval" where
  "timeradd a b =
     (let sec = tv_sec a + tv_sec b; usec = tv_usec a + tv_usec b
      in if usec \<ge> 1000000 then \<lparr>tv_sec = sec + 1, tv_usec = usec - 1000000\<rparr> else \<lparr>tv_sec = sec, tv_usec = usec\<rparr>)"

text \<open>Conversion to \<open>int\<close>, also used where the code overflows in \<open>int\<close>.\<close>

definition c_int :: "int \<Rightarrow> int" where
  "c_int x = sint (word_of_int x :: u32)"

subsection \<open>MQTTLinux.c\<close>

record linux_Timer =
  end_time :: timeval

definition linux_TimerInit :: "'w \<Rightarrow> linux_Timer \<times> 'w" where
  "linux_TimerInit w = (\<lparr>end_time = \<lparr>tv_sec = 0, tv_usec = 0\<rparr>\<rparr>, w)"

definition linux_TimerIsExpired :: "('w, 'a) linux_os \<Rightarrow> 'w \<Rightarrow> linux_Timer \<Rightarrow> bool \<times> 'w" where
  "linux_TimerIsExpired os w timer =
     (let (now, w) = sys_gettimeofday os w; res = timersub (end_time timer) now
      in (tv_sec res < 0 \<or> (tv_sec res = 0 \<and> tv_usec res \<le> 0), w))"

definition linux_TimerCountdownMS :: "('w, 'a) linux_os \<Rightarrow> 'w \<Rightarrow> linux_Timer \<Rightarrow> u32 \<Rightarrow> linux_Timer \<times> 'w" where
  "linux_TimerCountdownMS os w timer timeout =
     (let (now, w) = sys_gettimeofday os w;
          interval = \<lparr>tv_sec = uint (timeout div 1000), tv_usec = uint ((timeout mod 1000) * 1000)\<rparr>
      in (timer\<lparr>end_time := timeradd now interval\<rparr>, w))"

definition linux_TimerCountdown :: "('w, 'a) linux_os \<Rightarrow> 'w \<Rightarrow> linux_Timer \<Rightarrow> u32 \<Rightarrow> linux_Timer \<times> 'w" where
  "linux_TimerCountdown os w timer timeout =
     (let (now, w) = sys_gettimeofday os w;
          interval = \<lparr>tv_sec = uint timeout, tv_usec = 0\<rparr>
      in (timer\<lparr>end_time := timeradd now interval\<rparr>, w))"

definition linux_TimerLeftMS :: "('w, 'a) linux_os \<Rightarrow> 'w \<Rightarrow> linux_Timer \<Rightarrow> int \<times> 'w" where
  "linux_TimerLeftMS os w timer =
     (let (now, w) = sys_gettimeofday os w; res = timersub (end_time timer) now
      in (if tv_sec res < 0 then 0 else c_int (tv_sec res * 1000 + tv_usec res sdiv 1000), w))"

text \<open>The loop of \<open>linux_read\<close>: the result and the bytes stored in the buffer.\<close>

function linux_read_loop ::
  "('w, 'a) linux_os \<Rightarrow> 'w \<Rightarrow> int \<Rightarrow> int \<Rightarrow> int \<Rightarrow> byte list \<Rightarrow> int \<times> byte list \<times> 'w" where
  "linux_read_loop os w fd len bytes stored =
     (if bytes < len
      then case sys_recv os w fd (len - bytes) of
          (Inl errno, w) \<Rightarrow> (if errno \<noteq> EAGAIN os \<and> errno \<noteq> EWOULDBLOCK os then - 1 else bytes, stored, w)
        | (Inr bs, w) \<Rightarrow>
            if bs = [] then (0, stored, w)
            else linux_read_loop os w fd len (bytes + int (length bs)) (stored @ bs)
      else (bytes, stored, w))"
  by pat_completeness auto
termination
  by (relation "measure (\<lambda>(os, w, fd, len, bytes, stored). nat (len - bytes))") auto

declare linux_read_loop.simps [simp del]

definition read_interval :: "int \<Rightarrow> timeval" where
  "read_interval timeout_ms =
     (let interval = \<lparr>tv_sec = timeout_ms sdiv 1000, tv_usec = (timeout_ms smod 1000) * 1000\<rparr>
      in if tv_sec interval < 0 \<or> (tv_sec interval = 0 \<and> tv_usec interval \<le> 0) then \<lparr>tv_sec = 0, tv_usec = 100\<rparr> else interval)"

definition linux_read :: "('w, 'a) linux_os \<Rightarrow> int \<Rightarrow> 'w \<Rightarrow> int \<Rightarrow> int \<Rightarrow> int \<times> byte list \<times> 'w" where
  "linux_read os fd w len timeout_ms =
     (let w = sys_rcvtimeo os w fd (read_interval timeout_ms) in linux_read_loop os w fd len 0 [])"

definition write_interval :: "int \<Rightarrow> timeval" where
  "write_interval timeout_ms = \<lparr>tv_sec = 0, tv_usec = c_int (timeout_ms * 1000)\<rparr>"

definition linux_write :: "('w, 'a) linux_os \<Rightarrow> int \<Rightarrow> 'w \<Rightarrow> byte list \<Rightarrow> int \<Rightarrow> int \<times> 'w" where
  "linux_write os fd w bytes timeout_ms =
     (let w = sys_sndtimeo os w fd (write_interval timeout_ms) in sys_write os w fd bytes)"

text \<open>The structure \<open>Network\<close> is the descriptor; its functions are always \<open>linux_read\<close> and \<open>linux_write\<close>.\<close>

record linux_Network =
  my_socket :: int

definition NetworkInit :: linux_Network where
  "NetworkInit = \<lparr>my_socket = 0\<rparr>"

definition prefer_ip4 :: "('w, 'a) linux_os \<Rightarrow> (int \<times> 'a) list \<Rightarrow> (int \<times> 'a) list" where
  "prefer_ip4 os result =
     (let res = dropWhile (\<lambda>(family, _). family \<noteq> AF_INET os) result in if res = [] then result else res)"

text \<open>\<open>None\<close> is the access through a null pointer, if \<open>getaddrinfo\<close> succeeds with no result.\<close>

definition NetworkConnect ::
  "('w, 'a) linux_os \<Rightarrow> 'w \<Rightarrow> linux_Network \<Rightarrow> byte list \<Rightarrow> int \<Rightarrow> (int \<times> 'w \<times> linux_Network) option" where
  "NetworkConnect os w n addr port = do {
     let (rc, result, w) = sys_getaddrinfo os w addr;
     if rc \<noteq> 0 then Some (rc, w, n)
     else case prefer_ip4 os result of
         [] \<Rightarrow> None
       | (ai_family, sin_addr) # _ \<Rightarrow>
           if ai_family = AF_INET os
           then do {
             let (fd, w) = sys_socket os w (AF_INET os);
             let n = n\<lparr>my_socket := fd\<rparr>;
             if fd \<noteq> - 1
             then do { let (rc, w) = sys_connect os w fd (sin_addr, word_of_int port); Some (rc, w, n) }
             else Some (- 1, w, n) }
           else Some (- 1, w, n) }"

definition NetworkDisconnect :: "('w, 'a) linux_os \<Rightarrow> 'w \<Rightarrow> linux_Network \<Rightarrow> 'w" where
  "NetworkDisconnect os w n = snd (sys_close os w (my_socket n))"

definition linux_platform :: "('w, 'a) linux_os \<Rightarrow> linux_Network \<Rightarrow> ('w, linux_Timer) platform" where
  "linux_platform os n = \<lparr>
     mqttread = linux_read os (my_socket n),
     mqttwrite = linux_write os (my_socket n),
     TimerInit = linux_TimerInit,
     TimerIsExpired = linux_TimerIsExpired os,
     TimerCountdownMS = linux_TimerCountdownMS os,
     TimerCountdown = linux_TimerCountdown os,
     TimerLeftMS = linux_TimerLeftMS os\<rparr>"

subsection \<open>linux.cpp of the client for MQTT\<close>

record IPStack =
  mysock :: int

definition IPStack_connect ::
  "('w, 'a) linux_os \<Rightarrow> 'w \<Rightarrow> IPStack \<Rightarrow> byte list \<Rightarrow> int \<Rightarrow> (int \<times> 'w \<times> IPStack) option" where
  "IPStack_connect os w s hostname port = do {
     let (rc, result, w) = sys_getaddrinfo os w hostname;
     if rc \<noteq> 0 then Some (rc, w, s)
     else case prefer_ip4 os result of
         [] \<Rightarrow> None
       | (ai_family, sin_addr) # _ \<Rightarrow>
           if ai_family = AF_INET os
           then do {
             let (fd, w) = sys_socket os w (AF_INET os);
             let s = s\<lparr>mysock := fd\<rparr>;
             if fd \<noteq> - 1
             then do { let (rc, w) = sys_connect os w fd (sin_addr, word_of_int port); Some (rc, w, s) }
             else Some (0, w, s) }
           else Some (- 1, w, s) }"

abbreviation max_tries :: nat where "max_tries \<equiv> 10"

function IPStack_read_loop ::
  "('w, 'a) linux_os \<Rightarrow> 'w \<Rightarrow> int \<Rightarrow> int \<Rightarrow> int \<Rightarrow> nat \<Rightarrow> byte list \<Rightarrow> int \<times> byte list \<times> 'w" where
  "IPStack_read_loop os w fd len bytes i stored =
     (if bytes < len
      then case sys_recv os w fd (len - bytes) of
          (Inl errno, w) \<Rightarrow> (if errno \<noteq> EAGAIN os \<and> errno \<noteq> EWOULDBLOCK os then - 1 else bytes, stored, w)
        | (Inr bs, w) \<Rightarrow>
            if i + 1 \<ge> max_tries \<or> bs = [] then (bytes + int (length bs), stored @ bs, w)
            else IPStack_read_loop os w fd len (bytes + int (length bs)) (i + 1) (stored @ bs)
      else (bytes, stored, w))"
  by pat_completeness auto
termination
  by (relation "measure (\<lambda>(os, w, fd, len, bytes, i, stored). max_tries - i)") auto

declare IPStack_read_loop.simps [simp del]

definition IPStack_read :: "('w, 'a) linux_os \<Rightarrow> IPStack \<Rightarrow> 'w \<Rightarrow> int \<Rightarrow> int \<Rightarrow> int \<times> byte list \<times> 'w" where
  "IPStack_read os s w len timeout_ms =
     (let w = sys_rcvtimeo os w (mysock s) (read_interval timeout_ms) in IPStack_read_loop os w (mysock s) len 0 0 [])"

definition IPStack_write :: "('w, 'a) linux_os \<Rightarrow> IPStack \<Rightarrow> 'w \<Rightarrow> byte list \<Rightarrow> int \<Rightarrow> int \<times> 'w" where
  "IPStack_write os s w bytes timeout =
     (let w = sys_sndtimeo os w (mysock s) (write_interval timeout) in sys_write os w (mysock s) bytes)"

definition IPStack_disconnect :: "('w, 'a) linux_os \<Rightarrow> 'w \<Rightarrow> IPStack \<Rightarrow> int \<times> 'w" where
  "IPStack_disconnect os w s = sys_close os w (mysock s)"

text \<open>The class \<open>Countdown\<close>; \<open>g\<close> is the value of \<open>end_time\<close> that the default constructor leaves uninitialised.\<close>

record LinuxCountdown =
  cd_end_time :: timeval

definition LinuxCountdown_new :: "timeval \<Rightarrow> 'w \<Rightarrow> LinuxCountdown \<times> 'w" where
  "LinuxCountdown_new g w = (\<lparr>cd_end_time = g\<rparr>, w)"

definition LinuxCountdown_countdown_ms :: "('w, 'a) linux_os \<Rightarrow> 'w \<Rightarrow> LinuxCountdown \<Rightarrow> int \<Rightarrow> LinuxCountdown \<times> 'w" where
  "LinuxCountdown_countdown_ms os w c ms =
     (let (now, w) = sys_gettimeofday os w;
          interval = \<lparr>tv_sec = ms sdiv 1000, tv_usec = (ms smod 1000) * 1000\<rparr>
      in (c\<lparr>cd_end_time := timeradd now interval\<rparr>, w))"

definition LinuxCountdown_ms :: "('w, 'a) linux_os \<Rightarrow> timeval \<Rightarrow> 'w \<Rightarrow> int \<Rightarrow> LinuxCountdown \<times> 'w" where
  "LinuxCountdown_ms os g w ms = LinuxCountdown_countdown_ms os w \<lparr>cd_end_time = g\<rparr> ms"

definition LinuxCountdown_expired :: "('w, 'a) linux_os \<Rightarrow> 'w \<Rightarrow> LinuxCountdown \<Rightarrow> bool \<times> 'w" where
  "LinuxCountdown_expired os w c =
     (let (now, w) = sys_gettimeofday os w; res = timersub (cd_end_time c) now
      in (tv_sec res < 0 \<or> (tv_sec res = 0 \<and> tv_usec res \<le> 0), w))"

definition LinuxCountdown_countdown :: "('w, 'a) linux_os \<Rightarrow> 'w \<Rightarrow> LinuxCountdown \<Rightarrow> int \<Rightarrow> LinuxCountdown \<times> 'w" where
  "LinuxCountdown_countdown os w c seconds =
     (let (now, w) = sys_gettimeofday os w;
          interval = \<lparr>tv_sec = seconds, tv_usec = 0\<rparr>
      in (c\<lparr>cd_end_time := timeradd now interval\<rparr>, w))"

definition LinuxCountdown_left_ms :: "('w, 'a) linux_os \<Rightarrow> 'w \<Rightarrow> LinuxCountdown \<Rightarrow> int \<times> 'w" where
  "LinuxCountdown_left_ms os w c =
     (let (now, w) = sys_gettimeofday os w; res = timersub (cd_end_time c) now
      in (if tv_sec res < 0 then 0 else c_int (tv_sec res * 1000 + tv_usec res sdiv 1000), w))"

text \<open>The template arguments of the client. \<open>countdown_ms\<close> takes an \<open>int\<close>, to which the \<open>unsigned long\<close> of the client is converted.\<close>

definition linux_net_ops :: "('w, 'a) linux_os \<Rightarrow> timeval \<Rightarrow> IPStack \<Rightarrow> ('w, LinuxCountdown) net_ops" where
  "linux_net_ops os g s = \<lparr>
     ipstack_read = (\<lambda>w len timeout. Some (IPStack_read os s w len timeout)),
     ipstack_write = IPStack_write os s,
     Timer_new = LinuxCountdown_new g,
     Timer_ms = LinuxCountdown_ms os g,
     timer_expired = LinuxCountdown_expired os,
     timer_countdown_ms = (\<lambda>w c ms. LinuxCountdown_countdown_ms os w c (sint ms)),
     timer_countdown = LinuxCountdown_countdown os,
     timer_left_ms = LinuxCountdown_left_ms os\<rparr>"

subsection \<open>linux.cpp of the client for MQTT-SN\<close>

text \<open>\<open>Socket_error\<close> also writes a message for most errors. This copy of \<open>read\<close> has no way out but an error or a full buffer, and
  \<open>write\<close> sets the time limit for reading.\<close>

definition Socket_error :: "('w, 'a) linux_os \<Rightarrow> int \<Rightarrow> string \<Rightarrow> int" where
  "Socket_error os errno aString =
     (if aString \<noteq> ''shutdown'' \<or> (errno \<noteq> ENOTCONN os \<and> errno \<noteq> ECONNRESET os) then errno else 0)"

partial_function (option) SNIPStack_read_loop ::
  "('w, 'a) linux_os \<Rightarrow> 'w \<Rightarrow> int \<Rightarrow> int \<Rightarrow> int \<Rightarrow> byte list \<Rightarrow> (int \<times> byte list \<times> 'w) option" where
  "SNIPStack_read_loop os w fd len bytes stored =
     (if bytes < len
      then case sys_recv os w fd (len - bytes) of
          (Inl errno, w) \<Rightarrow>
            if Socket_error os errno ''read'' \<noteq> 0 then Some (- 1, stored, w) else SNIPStack_read_loop os w fd len bytes stored
        | (Inr bs, w) \<Rightarrow> SNIPStack_read_loop os w fd len (bytes + int (length bs)) (stored @ bs)
      else Some (bytes, stored, w))"

declare SNIPStack_read_loop.simps [code]

definition SNIPStack_read :: "('w, 'a) linux_os \<Rightarrow> IPStack \<Rightarrow> 'w \<Rightarrow> int \<Rightarrow> int \<Rightarrow> (int \<times> byte list \<times> 'w) option" where
  "SNIPStack_read os s w len timeout_ms =
     (let w = sys_rcvtimeo os w (mysock s) (read_interval timeout_ms) in SNIPStack_read_loop os w (mysock s) len 0 [])"

definition SNIPStack_write :: "('w, 'a) linux_os \<Rightarrow> IPStack \<Rightarrow> 'w \<Rightarrow> byte list \<Rightarrow> int \<Rightarrow> int \<times> 'w" where
  "SNIPStack_write os s w bytes timeout =
     (let w = sys_rcvtimeo os w (mysock s) (write_interval timeout) in sys_write os w (mysock s) bytes)"

subsection \<open>Time\<close>

definition usecs :: "timeval \<Rightarrow> int" where
  "usecs t = tv_sec t * 1000000 + tv_usec t"

definition tv_ok :: "timeval \<Rightarrow> bool" where
  "tv_ok t \<longleftrightarrow> 0 \<le> tv_usec t \<and> tv_usec t < 1000000"

lemma timeradd_usecs: "tv_ok a \<Longrightarrow> tv_ok b \<Longrightarrow> tv_ok (timeradd a b) \<and> usecs (timeradd a b) = usecs a + usecs b"
  by (auto simp: timeradd_def usecs_def tv_ok_def Let_def)

lemma timersub_usecs: "tv_ok a \<Longrightarrow> tv_ok b \<Longrightarrow> tv_ok (timersub a b) \<and> usecs (timersub a b) = usecs a - usecs b"
  by (auto simp: timersub_def usecs_def tv_ok_def Let_def)

lemma tv_expired: "tv_ok t \<Longrightarrow> (tv_sec t < 0 \<or> (tv_sec t = 0 \<and> tv_usec t \<le> 0)) \<longleftrightarrow> usecs t \<le> 0"
  by (auto simp: usecs_def tv_ok_def)

lemma tv_millis:
  assumes "tv_ok t"
  shows "tv_sec t * 1000 + tv_usec t sdiv 1000 = usecs t div 1000" "tv_sec t < 0 \<longleftrightarrow> usecs t < 0"
proof -
  have "tv_usec t sdiv 1000 = tv_usec t div 1000"
    using assms by (auto simp: tv_ok_def signed_divide_int_def sgn_if)
  moreover have "usecs t = tv_usec t + (tv_sec t * 1000) * 1000"
    by (simp add: usecs_def)
  then have "usecs t div 1000 = tv_sec t * 1000 + tv_usec t div 1000"
    using div_mult_self1 [of 1000 "tv_usec t" "tv_sec t * 1000"] by simp
  ultimately show "tv_sec t * 1000 + tv_usec t sdiv 1000 = usecs t div 1000"
    by simp
  show "tv_sec t < 0 \<longleftrightarrow> usecs t < 0"
    using assms by (auto simp: usecs_def tv_ok_def)
qed

lemma c_int_id: "- 2147483648 \<le> x \<Longrightarrow> x < 2147483648 \<Longrightarrow> c_int x = x"
  by (simp add: c_int_def sint_sbintrunc' signed_take_bit_int_eq_self)

lemma interval_ms: "tv_ok \<lparr>tv_sec = uint (ms div 1000 :: u32), tv_usec = uint ((ms mod 1000) * 1000 :: u32)\<rparr>"
  "usecs \<lparr>tv_sec = uint (ms div 1000 :: u32), tv_usec = uint ((ms mod 1000) * 1000 :: u32)\<rparr> = uint ms * 1000"
proof -
  have m: "uint (ms mod 1000 :: u32) = uint ms mod 1000" "uint (ms div 1000 :: u32) = uint ms div 1000"
    by (simp_all add: uint_mod uint_div)
  then have "uint ((ms mod 1000) * 1000 :: u32) = (uint ms mod 1000) * 1000"
    by (simp add: uint_word_ariths)
  then show "tv_ok \<lparr>tv_sec = uint (ms div 1000 :: u32), tv_usec = uint ((ms mod 1000) * 1000 :: u32)\<rparr>"
    "usecs \<lparr>tv_sec = uint (ms div 1000 :: u32), tv_usec = uint ((ms mod 1000) * 1000 :: u32)\<rparr> = uint ms * 1000"
    using m by (auto simp: tv_ok_def usecs_def) presburger+
qed

text \<open>A timer that has not expired at the time \<open>now\<close> ends in this second or later, also if its microseconds are out of range.\<close>

lemma not_expired_sec:
  assumes "\<not> (tv_sec (timersub e now) < 0 \<or> (tv_sec (timersub e now) = 0 \<and> tv_usec (timersub e now) \<le> 0))" "tv_ok now"
  shows "usecs now < (tv_sec e + 1) * 1000000"
  using assms by (auto simp: timersub_def usecs_def tv_ok_def Let_def split: if_splits)

subsection \<open>The contract of the system calls\<close>

text \<open>\<open>clock\<close> is the time in microseconds that \<open>gettimeofday\<close> gives; it is not set back. \<open>recv\<close> stores at most as many bytes as
  it is asked for, and \<open>write\<close> sends a prefix, of any length. \<open>sent\<close> is what was sent on the socket.\<close>

locale linux_sockets =
  fixes os :: "('w, 'a) linux_os"
    and fd :: int
    and clock :: "'w \<Rightarrow> int"
    and sent :: "'w \<Rightarrow> byte list"
  assumes now: "sys_gettimeofday os w = (t, w') \<Longrightarrow> tv_ok t \<and> usecs t = clock w' \<and> clock w \<le> clock w' \<and> sent w' = sent w"
    and set_rcv: "clock w \<le> clock (sys_rcvtimeo os w fd tv) \<and> sent (sys_rcvtimeo os w fd tv) = sent w"
    and set_snd: "clock w \<le> clock (sys_sndtimeo os w fd tv) \<and> sent (sys_sndtimeo os w fd tv) = sent w"
    and recv_time: "sys_recv os w fd k = (r, w') \<Longrightarrow> clock w \<le> clock w' \<and> sent w' = sent w"
    and recv_fits: "0 < k \<Longrightarrow> sys_recv os w fd k = (Inr bs, w') \<Longrightarrow> int (length bs) \<le> k"
    and write_time: "sys_write os w fd bs = (rc, w') \<Longrightarrow> clock w \<le> clock w' \<and> sent w' = sent w @ take (nat rc) bs"
    and write_fits: "sys_write os w fd bs = (rc, w') \<Longrightarrow> rc \<le> int (length bs)"
begin

lemma timer_reads:
  assumes "tv_ok (end_time timer)"
  shows "linux_TimerIsExpired os w timer = (e, w') \<Longrightarrow> e \<longleftrightarrow> usecs (end_time timer) \<le> clock w'"
    "linux_TimerLeftMS os w timer = (l, w') \<Longrightarrow>
      l = (if usecs (end_time timer) < clock w' then 0 else c_int ((usecs (end_time timer) - clock w') div 1000))"
proof -
  obtain t w1 where t: "sys_gettimeofday os w = (t, w1)" by force
  note n = now [OF t] and d = timersub_usecs [OF assms, of t]
  show "linux_TimerIsExpired os w timer = (e, w') \<Longrightarrow> e \<longleftrightarrow> usecs (end_time timer) \<le> clock w'"
    using t n d tv_expired [of "timersub (end_time timer) t"] by (auto simp: linux_TimerIsExpired_def Let_def)
  show "linux_TimerLeftMS os w timer = (l, w') \<Longrightarrow>
      l = (if usecs (end_time timer) < clock w' then 0 else c_int ((usecs (end_time timer) - clock w') div 1000))"
    using t n d tv_millis [of "timersub (end_time timer) t"] by (auto simp: linux_TimerLeftMS_def Let_def)
qed

lemma timer_set:
  "linux_TimerCountdownMS os w timer ms = (timer', w') \<Longrightarrow>
     tv_ok (end_time timer') \<and> usecs (end_time timer') = clock w' + 1000 * uint ms"
  "linux_TimerCountdown os w timer s = (timer', w') \<Longrightarrow>
     tv_ok (end_time timer') \<and> usecs (end_time timer') = clock w' + 1000000 * uint s"
proof -
  obtain t w1 where t: "sys_gettimeofday os w = (t, w1)" by force
  note n = now [OF t]
  have s: "tv_ok \<lparr>tv_sec = uint s, tv_usec = 0\<rparr>" "usecs \<lparr>tv_sec = uint s, tv_usec = 0\<rparr> = 1000000 * uint s"
    by (simp_all add: tv_ok_def usecs_def)
  show "linux_TimerCountdownMS os w timer ms = (timer', w') \<Longrightarrow>
     tv_ok (end_time timer') \<and> usecs (end_time timer') = clock w' + 1000 * uint ms"
    using t n timeradd_usecs [OF _ interval_ms(1) [of ms], of t] interval_ms(2) [of ms] by (auto simp: linux_TimerCountdownMS_def Let_def)
  show "linux_TimerCountdown os w timer s = (timer', w') \<Longrightarrow>
     tv_ok (end_time timer') \<and> usecs (end_time timer') = clock w' + 1000000 * uint s"
    using t n timeradd_usecs [OF _ s(1), of t] s(2) by (auto simp: linux_TimerCountdown_def Let_def)
qed

text \<open>A timer that ends \<open>d\<close> microseconds after \<open>w1\<close>.\<close>

lemma timer_left:
  assumes "tv_ok (end_time timer)" "usecs (end_time timer) = clock w1 + d" "d < 2147483648000" "clock w1 \<le> clock w2"
    and "linux_TimerLeftMS os w2 timer = (l, w3)"
  shows "l = max 0 ((d - (clock w3 - clock w1)) div 1000) \<and> 0 \<le> l \<and> l \<le> max 0 (d div 1000)"
proof -
  have t: "clock w1 \<le> clock w3"
    using assms(4,5) now [of w2] by (force simp: linux_TimerLeftMS_def Let_def split: prod.splits)
  let ?m = "(d - (clock w3 - clock w1)) div 1000"
  have m: "?m \<le> d div 1000" "?m < 2147483648"
    using t assms(3) by (auto intro: zdiv_mono1)
  have "l = (if d < clock w3 - clock w1 then 0 else c_int ?m)"
    using timer_reads(2) [OF assms(1,5)] assms(2) by (auto simp: algebra_simps)
  moreover have "0 \<le> ?m \<longleftrightarrow> \<not> d < clock w3 - clock w1"
    by (auto simp: pos_imp_zdiv_nonneg_iff)
  ultimately show ?thesis
    using m c_int_id [of ?m] by (auto simp: max_def split: if_splits)
qed

end

text \<open>The clock may give the same time again, but not for ever: \<open>still\<close> is the number of readings until it gives a later one, and these numbers are bounded.\<close>

locale linux_running = linux_sockets os fd clock sent
  for os :: "('w, 'a) linux_os" and fd :: int and clock :: "'w \<Rightarrow> int" and sent :: "'w \<Rightarrow> byte list" +
  fixes still :: "'w \<Rightarrow> nat"
    and bound :: nat
  assumes still_bound: "still w \<le> bound"
    and now_still: "sys_gettimeofday os w = (t, w') \<Longrightarrow> clock w < clock w' \<or> still w' < still w"
    and rcv_still: "clock (sys_rcvtimeo os w fd tv) = clock w \<Longrightarrow> still (sys_rcvtimeo os w fd tv) \<le> still w"
    and snd_still: "clock (sys_sndtimeo os w fd tv) = clock w \<Longrightarrow> still (sys_sndtimeo os w fd tv) \<le> still w"
    and recv_still: "sys_recv os w fd k = (r, w') \<Longrightarrow> clock w' = clock w \<Longrightarrow> still w' \<le> still w"
    and write_still: "sys_write os w fd bs = (rc, w') \<Longrightarrow> clock w' = clock w \<Longrightarrow> still w' \<le> still w"
begin

definition later :: "'w \<Rightarrow> 'w \<Rightarrow> bool" where
  "later w w' \<longleftrightarrow> clock w < clock w' \<or> clock w = clock w' \<and> still w' \<le> still w"

lemma later_refl [simp]: "later w w"
  by (simp add: later_def)

lemma later_trans: "later w1 w2 \<Longrightarrow> later w2 w3 \<Longrightarrow> later w1 w3"
  by (auto simp: later_def)

lemma later_calls:
  "sys_gettimeofday os w = (t, w') \<Longrightarrow> later w w'"
  "later w (sys_rcvtimeo os w fd tv)"
  "later w (sys_sndtimeo os w fd tv)"
  "sys_recv os w fd k = (r, w') \<Longrightarrow> later w w'"
  "sys_write os w fd bs = (rc, w') \<Longrightarrow> later w w'"
  using now [of w t w'] now_still [of w t w'] set_rcv [of w tv] rcv_still [of w tv] set_snd [of w tv] snd_still [of w tv]
    recv_time [of w k r w'] recv_still [of w k r w'] write_time [of w bs rc w'] write_still [of w bs rc w']
  by (auto simp: later_def le_less)

text \<open>What both loops keep: the result is negative, zero or the number of bytes stored.\<close>

lemma linux_read_loop_count:
  "linux_read_loop os w fd len bytes stored = (rc, bs, w') \<Longrightarrow> bytes = int (length stored) \<Longrightarrow>
    int (length bs) \<le> max len bytes \<and> (rc > 0 \<longrightarrow> rc = int (length bs)) \<and> later w w' \<and> sent w' = sent w"
proof (induction "nat (len - bytes)" arbitrary: w bytes stored rc bs w' rule: less_induct)
  case less
  note loop = less.prems(1) [unfolded linux_read_loop.simps [of os w fd len bytes stored]]
  obtain r w1 where r: "sys_recv os w fd (len - bytes) = (r, w1)" by force
  note t = recv_time [OF r] later_calls(4) [OF r]
  show ?case
  proof (cases "bytes < len \<and> (\<exists>ys. r = Inr ys \<and> ys \<noteq> [])")
    case True
    then obtain ys where ys: "r = Inr ys" "ys \<noteq> []" by blast
    have "int (length ys) \<le> len - bytes"
      using recv_fits [of "len - bytes" w ys w1] r ys True by simp
    then show ?thesis
      using less.hyps [of "bytes + int (length ys)" w1 "stored @ ys" rc bs w'] loop r ys True t less.prems(2) later_trans [of w w1 w'] by simp
  qed (use loop r t less.prems in \<open>auto split: sum.splits if_splits\<close>)
qed

lemma IPStack_read_loop_count:
  "IPStack_read_loop os w fd len bytes i stored = (rc, bs, w') \<Longrightarrow> bytes = int (length stored) \<Longrightarrow>
    int (length bs) \<le> max len bytes \<and> (rc > 0 \<longrightarrow> rc = int (length bs)) \<and> later w w' \<and> sent w' = sent w"
proof (induction "max_tries - i" arbitrary: i w bytes stored rc bs w' rule: less_induct)
  case less
  note loop = less.prems(1) [unfolded IPStack_read_loop.simps [of os w fd len bytes i stored]]
  obtain r w1 where r: "sys_recv os w fd (len - bytes) = (r, w1)" by force
  note t = recv_time [OF r] later_calls(4) [OF r]
  have fits: "int (length ys) \<le> len - bytes" if "r = Inr ys" "bytes < len" for ys
    using recv_fits [of "len - bytes" w ys w1] r that by simp
  show ?case
  proof (cases "bytes < len \<and> (\<exists>ys. r = Inr ys \<and> ys \<noteq> []) \<and> i + 1 < max_tries")
    case True
    then obtain ys where ys: "r = Inr ys" "ys \<noteq> []" by blast
    have "max_tries - (i + 1) < max_tries - i"
      using True by linarith
    from less.hyps [OF this, of w1 "bytes + int (length ys)" "stored @ ys" rc bs w'] show ?thesis
      using loop r ys True t less.prems(2) fits [OF ys(1)] later_trans [of w w1 w'] by simp
  qed (use loop r t less.prems fits in \<open>auto split: sum.splits if_splits\<close>)
qed

lemma linux_read_count:
  assumes "linux_read os fd w k ms = (rc, bs, w')"
  shows "int (length bs) \<le> max k 0 \<and> (rc > 0 \<longrightarrow> rc = int (length bs)) \<and> later w w' \<and> sent w' = sent w"
  using linux_read_loop_count [of "sys_rcvtimeo os w fd (read_interval ms)" k 0 "[]"] assms
    set_rcv [of w "read_interval ms"] later_trans [OF later_calls(2) [of w "read_interval ms"]] by (auto simp: linux_read_def Let_def)

lemma IPStack_read_count:
  assumes "IPStack_read os \<lparr>mysock = fd\<rparr> w k ms = (rc, bs, w')"
  shows "int (length bs) \<le> max k 0 \<and> (rc > 0 \<longrightarrow> rc = int (length bs)) \<and> later w w' \<and> sent w' = sent w"
  using IPStack_read_loop_count [of "sys_rcvtimeo os w fd (read_interval ms)" k 0 0 "[]"] assms
    set_rcv [of w "read_interval ms"] later_trans [OF later_calls(2) [of w "read_interval ms"]] by (auto simp: IPStack_read_def Let_def)

lemma writes_prefix:
  "linux_write os fd w bs ms = (rc, w') \<Longrightarrow> later w w' \<and> rc \<le> int (length bs) \<and> sent w' = sent w @ take (nat rc) bs"
  "IPStack_write os \<lparr>mysock = fd\<rparr> w bs ms = (rc, w') \<Longrightarrow> later w w' \<and> rc \<le> int (length bs) \<and> sent w' = sent w @ take (nat rc) bs"
  using write_time [of "sys_sndtimeo os w fd (write_interval ms)" bs rc w'] write_fits [of "sys_sndtimeo os w fd (write_interval ms)" bs rc w']
    set_snd [of w "write_interval ms"] later_trans [OF later_calls(3) [of w "write_interval ms"]]
    later_calls(5) [of "sys_sndtimeo os w fd (write_interval ms)" bs rc w'] by (auto simp: linux_write_def IPStack_write_def Let_def)

definition ticks_to :: "timeval \<Rightarrow> 'w \<Rightarrow> nat" where
  "ticks_to e w =
     (let d = (tv_sec e + 1) * 1000000 - clock w in if d \<le> 0 then 0 else nat d * (bound + 1) + still w)"

lemma ticks_less:
  assumes "clock w < clock w'" "clock w' < (tv_sec e + 1) * 1000000"
  shows "ticks_to e w' < ticks_to e w"
proof -
  let ?d = "\<lambda>w. nat ((tv_sec e + 1) * 1000000 - clock w)"
  have "Suc (?d w') \<le> ?d w"
    using assms by simp
  then have "Suc (?d w') * (bound + 1) \<le> ?d w * (bound + 1)"
    by (rule mult_le_mono1)
  then show ?thesis
    using assms still_bound [of w'] by (simp add: ticks_to_def Let_def)
qed

lemma ticks_mono:
  assumes "later w w'"
  shows "ticks_to e w' \<le> ticks_to e w"
proof (cases "clock w < clock w' \<and> clock w' < (tv_sec e + 1) * 1000000")
  case True
  then show ?thesis
    using ticks_less [of w w' e] by simp
next
  case False
  then show ?thesis
    using assms by (auto simp: ticks_to_def later_def Let_def)
qed

lemma ticks_run_down:
  assumes "sys_gettimeofday os w = (t, w')" "\<not> (tv_sec (timersub e t) < 0 \<or> (tv_sec (timersub e t) = 0 \<and> tv_usec (timersub e t) \<le> 0))"
  shows "ticks_to e w' < ticks_to e w"
proof (cases "clock w < clock w'")
  case True
  then show ?thesis
    using ticks_less now [OF assms(1)] not_expired_sec [OF assms(2)] by simp
next
  case False
  then have "clock w' = clock w" "still w' < still w"
    using now [OF assms(1)] now_still [OF assms(1)] by auto
  then show ?thesis
    using now [OF assms(1)] not_expired_sec [OF assms(2)] by (simp add: ticks_to_def Let_def)
qed

lemma now_time: "sys_gettimeofday os w = (t, w') \<Longrightarrow> ticks_to e w' \<le> ticks_to e w \<and> sent w' = sent w"
  using now ticks_mono later_calls(1) by fastforce

end

sublocale linux_running \<subseteq> cport: cpp_platform "linux_net_ops os g \<lparr>mysock = fd\<rparr>" "\<lambda>w c. ticks_to (cd_end_time c) w" sent
  for g
proof unfold_locales
  show "timer_expired (linux_net_ops os g \<lparr>mysock = fd\<rparr>) w timer = (False, w') \<Longrightarrow>
      ticks_to (cd_end_time timer) w' < ticks_to (cd_end_time timer) w" for w timer w'
    using ticks_run_down by (force simp: linux_net_ops_def LinuxCountdown_expired_def Let_def split: prod.splits)
  show "0 < k \<Longrightarrow> \<exists>rc bs w'. ipstack_read (linux_net_ops os g \<lparr>mysock = fd\<rparr>) w k t = Some (rc, bs, w') \<and>
      int (length bs) \<le> k \<and> (rc > 0 \<longrightarrow> rc = int (length bs))" for w k t
    using IPStack_read_count [of w k t] by (cases "IPStack_read os \<lparr>mysock = fd\<rparr> w k t") (auto simp: linux_net_ops_def)
qed (use IPStack_read_count writes_prefix(2) ticks_mono now_time in
     \<open>fastforce simp: linux_net_ops_def LinuxCountdown_new_def LinuxCountdown_ms_def LinuxCountdown_countdown_ms_def LinuxCountdown_countdown_def
       LinuxCountdown_expired_def LinuxCountdown_left_ms_def Let_def split: prod.splits\<close>)+

sublocale linux_running \<subseteq> port: mqtt_platform "linux_platform os \<lparr>my_socket = fd\<rparr>" "\<lambda>w t. ticks_to (end_time t) w"
proof unfold_locales
  show "TimerIsExpired (linux_platform os \<lparr>my_socket = fd\<rparr>) w timer = (False, w') \<Longrightarrow>
      ticks_to (end_time timer) w' < ticks_to (end_time timer) w" for w timer w'
    using ticks_run_down by (force simp: linux_platform_def linux_TimerIsExpired_def Let_def split: prod.splits)
qed (use linux_read_count writes_prefix(1) ticks_mono now_time in
     \<open>fastforce simp: linux_platform_def linux_TimerInit_def linux_TimerCountdownMS_def linux_TimerCountdown_def linux_TimerIsExpired_def
       linux_TimerLeftMS_def Let_def split: prod.splits\<close>)+

context linux_running
begin

lemma is_port: "mqtt_platform (linux_platform os \<lparr>my_socket = fd\<rparr>) (\<lambda>w t. ticks_to (end_time t) w)"
  by (rule port.mqtt_platform_axioms)

end

subsection \<open>Streams\<close>

text \<open>\<open>pending\<close> is what the peer has sent; \<open>recv\<close> gives it out in order, in pieces of any size.\<close>

locale linux_stream = linux_running os fd clock sent still bound
  for os :: "('w, 'a) linux_os" and fd :: int and clock :: "'w \<Rightarrow> int" and sent :: "'w \<Rightarrow> byte list"
    and still :: "'w \<Rightarrow> nat" and bound :: nat +
  fixes pending :: "'w \<Rightarrow> byte list"
  assumes recv_stream: "pending w \<noteq> [] \<Longrightarrow> 0 < k \<Longrightarrow> \<exists>j w'. 0 < j \<and> j \<le> length (pending w) \<and> int j \<le> k \<and>
      sys_recv os w fd k = (Inr (take j (pending w)), w') \<and> pending w' = drop j (pending w)"
    and keep_now: "sys_gettimeofday os w = (t, w') \<Longrightarrow> pending w' = pending w"
    and keep_rcv: "pending (sys_rcvtimeo os w fd tv) = pending w"
    and keep_snd: "pending (sys_sndtimeo os w fd tv) = pending w"
    and keep_send: "sys_write os w fd bs = (rc, w') \<Longrightarrow> pending w' = pending w"
begin

lemma linux_read_loop_pending:
  "pending w = bs @ ys \<Longrightarrow> bytes + int (length bs) = len \<Longrightarrow>
    \<exists>w'. linux_read_loop os w fd len bytes stored = (len, stored @ bs, w') \<and> pending w' = ys"
proof (induction "length bs" arbitrary: w bs bytes stored rule: less_induct)
  case less
  show ?case
  proof (cases "bs = []")
    case True
    then show ?thesis
      using less.prems by (simp add: linux_read_loop.simps)
  next
    case False
    have k: "len - bytes = int (length bs)"
      using less.prems(2) by simp
    obtain j w1 where j: "0 < j" "j \<le> length bs" "sys_recv os w fd (len - bytes) = (Inr (take j bs), w1)" "pending w1 = drop j bs @ ys"
      using recv_stream [of w "len - bytes"] less.prems(1) False k by auto
    obtain w' where "linux_read_loop os w1 fd len (bytes + int (length (take j bs))) (stored @ take j bs) =
        (len, (stored @ take j bs) @ drop j bs, w')" "pending w' = ys"
      using less.hyps [OF _ j(4), of "bytes + int (length (take j bs))" "stored @ take j bs"] j(1,2) False k by auto
    then show ?thesis
      using j False k by (subst linux_read_loop.simps) simp
  qed
qed

lemma linux_read_pending:
  "pending w = bs @ ys \<Longrightarrow> \<exists>w'. linux_read os fd w (int (length bs)) ms = (int (length bs), bs, w') \<and> pending w' = ys"
  using linux_read_loop_pending [of "sys_rcvtimeo os w fd (read_interval ms)" bs ys 0 "int (length bs)" "[]"]
  by (simp add: linux_read_def keep_rcv)

end

sublocale linux_stream \<subseteq> net: mqtt_network "linux_platform os \<lparr>my_socket = fd\<rparr>" "\<lambda>w t. ticks_to (end_time t) w" pending sent
proof unfold_locales
  show "mqttwrite (linux_platform os \<lparr>my_socket = fd\<rparr>) w bs t = (rc, w') \<Longrightarrow>
      pending w' = pending w \<and> sent w' = sent w @ take (nat rc) bs" for w bs t rc w'
    using writes_prefix(1) [of w bs t rc w'] keep_send keep_snd
    by (fastforce simp: linux_platform_def linux_write_def Let_def)
qed (use linux_read_pending linux_read_count now_time keep_now in
     \<open>fastforce simp: linux_platform_def linux_TimerInit_def linux_TimerCountdownMS_def linux_TimerCountdown_def linux_TimerIsExpired_def
       linux_TimerLeftMS_def Let_def split: prod.splits\<close>)+

context linux_stream
begin

lemma is_network: "mqtt_network (linux_platform os \<lparr>my_socket = fd\<rparr>) (\<lambda>w t. ticks_to (end_time t) w) pending sent"
  by (rule net.mqtt_network_axioms)

end

text \<open>\<open>IPStack\<close> gives up after ten pieces. It reads everything if \<open>pending\<close> has arrived and \<open>recv\<close> gives out all of it that it is asked for.\<close>

locale linux_arrived = linux_stream os fd clock sent still bound pending
  for os :: "('w, 'a) linux_os" and fd :: int and clock :: "'w \<Rightarrow> int" and sent :: "'w \<Rightarrow> byte list"
    and still :: "'w \<Rightarrow> nat" and bound :: nat and pending :: "'w \<Rightarrow> byte list" +
  assumes recv_whole: "pending w \<noteq> [] \<Longrightarrow> 0 < k \<Longrightarrow>
    \<exists>w'. sys_recv os w fd k = (Inr (take (nat k) (pending w)), w') \<and> pending w' = drop (nat k) (pending w)"
begin

lemma IPStack_read_pending:
  assumes "pending w = bs @ ys"
  shows "\<exists>w'. IPStack_read os \<lparr>mysock = fd\<rparr> w (int (length bs)) ms = (int (length bs), bs, w') \<and> pending w' = ys"
proof (cases "bs = []")
  case True
  then show ?thesis
    using assms keep_rcv by (simp add: IPStack_read_def IPStack_read_loop.simps)
next
  case False
  let ?w = "sys_rcvtimeo os w fd (read_interval ms)"
  obtain w1 where "sys_recv os ?w fd (int (length bs)) = (Inr bs, w1)" "pending w1 = ys"
    using recv_whole [of ?w "int (length bs)"] assms False keep_rcv [of w "read_interval ms"] by auto
  then show ?thesis
    using False by (simp add: IPStack_read_def IPStack_read_loop.simps [of os ?w] IPStack_read_loop.simps [of os w1])
qed

end

sublocale linux_arrived \<subseteq> cnet: cpp_network "linux_net_ops os g \<lparr>mysock = fd\<rparr>" "\<lambda>w c. ticks_to (cd_end_time c) w" sent pending
  for g
proof unfold_locales
  show "ipstack_write (linux_net_ops os g \<lparr>mysock = fd\<rparr>) w bs t = (rc, w') \<Longrightarrow> pending w' = pending w" for w bs t rc w'
    using keep_send [of "sys_sndtimeo os w fd (write_interval t)" bs rc w'] keep_snd [of w "write_interval t"]
    by (simp add: linux_net_ops_def IPStack_write_def)
qed (use IPStack_read_pending keep_now in
     \<open>fastforce simp: linux_net_ops_def LinuxCountdown_new_def LinuxCountdown_ms_def LinuxCountdown_countdown_ms_def LinuxCountdown_countdown_def
       LinuxCountdown_expired_def LinuxCountdown_left_ms_def Let_def split: prod.splits\<close>)+

context linux_arrived
begin

lemma is_cpp_network: "cpp_network (linux_net_ops os g \<lparr>mysock = fd\<rparr>) (\<lambda>w c. ticks_to (cd_end_time c) w) sent pending"
  by (rule cnet.cpp_network_axioms)

end

subsection \<open>A read that does not end\<close>

text \<open>When the peer has closed the connection \<open>recv\<close> returns 0 for good. \<open>read\<close> of the client for MQTT-SN asks again and again.\<close>

lemma sn_read_loop_spins:
  assumes "\<And>w k. closed w \<Longrightarrow> \<exists>w'. sys_recv os w fd k = (Inr [], w') \<and> closed w'" "closed w" "bytes < len"
  shows "SNIPStack_read_loop os w fd len bytes stored = None"
proof -
  let ?P = "\<lambda>os' w fd' len bytes stored r. os' = os \<longrightarrow> fd' = fd \<longrightarrow> closed w \<longrightarrow> \<not> bytes < len"
  have "?P os w fd len bytes stored r" if "SNIPStack_read_loop os w fd len bytes stored = Some r" for r
  proof (rule SNIPStack_read_loop.raw_induct [where P = ?P, OF _ that], intro impI notI)
    fix loop os' w fd' len bytes stored r
    assume IH: "\<And>os' w fd' len bytes stored r. loop os' w fd' len bytes stored = Some r \<Longrightarrow> ?P os' w fd' len bytes stored r"
      and step: "(if bytes < len then case sys_recv os' w fd' (len - bytes) of
          (Inl errno, w) \<Rightarrow> if Socket_error os' errno ''read'' \<noteq> 0 then Some (- 1, stored, w) else loop os' w fd' len bytes stored
        | (Inr bs, w) \<Rightarrow> loop os' w fd' len (bytes + int (length bs)) (stored @ bs) else Some (bytes, stored, w)) = Some r"
      and at: "os' = os" "fd' = fd" "closed w" "bytes < len"
    obtain w' where "sys_recv os w fd (len - bytes) = (Inr [], w')" "closed w'"
      using assms(1) [OF at(3)] by blast
    then show False
      using step at IH by fastforce
  qed
  then show ?thesis
    using assms(2,3) by (cases "SNIPStack_read_loop os w fd len bytes stored") auto
qed

subsection \<open>A simulated system\<close>

text \<open>Two sockets: \<open>recv_cut\<close> gives out at most three bytes at a time, \<open>recv_all\<close> everything it is asked for; both time out on an empty stream, and \<open>write\<close> takes at most
  three bytes. The clock advances by ten microseconds with each reading.\<close>

record linux_world =
  lw_in :: "byte list"
  lw_out :: "byte list"
  lw_now :: int

definition linux_sim ::
  "(linux_world \<Rightarrow> int \<Rightarrow> int \<Rightarrow> (int + byte list) \<times> linux_world) \<Rightarrow> (linux_world, nat) linux_os" where
  "linux_sim recv = \<lparr>
     EAGAIN = 11, EWOULDBLOCK = 11, ENOTCONN = 107, ECONNRESET = 104, AF_INET = 2,
     sys_gettimeofday = (\<lambda>w. (\<lparr>tv_sec = (lw_now w + 10) div 1000000, tv_usec = (lw_now w + 10) mod 1000000\<rparr>, w\<lparr>lw_now := lw_now w + 10\<rparr>)),
     sys_rcvtimeo = (\<lambda>w fd tv. w), sys_sndtimeo = (\<lambda>w fd tv. w),
     sys_recv = recv,
     sys_write = (\<lambda>w fd bs. (int (length (take 3 bs)), w\<lparr>lw_out := lw_out w @ take 3 bs\<rparr>)),
     sys_getaddrinfo = (\<lambda>w h. (0, [(10, 0), (2, 1), (2, 2)], w)),
     sys_socket = (\<lambda>w f. (3, w)), sys_connect = (\<lambda>w fd a. (0, w)), sys_close = (\<lambda>w fd. (0, w))\<rparr>"

definition recv_some :: "nat \<Rightarrow> linux_world \<Rightarrow> (int + byte list) \<times> linux_world" where
  "recv_some j w = (if lw_in w = [] then (Inl 11, w) else (Inr (take j (lw_in w)), w\<lparr>lw_in := drop j (lw_in w)\<rparr>))"

definition recv_cut :: "linux_world \<Rightarrow> int \<Rightarrow> int \<Rightarrow> (int + byte list) \<times> linux_world" where
  "recv_cut w fd k = recv_some (min (nat k) (min 3 (length (lw_in w)))) w"

definition recv_all :: "linux_world \<Rightarrow> int \<Rightarrow> int \<Rightarrow> (int + byte list) \<times> linux_world" where
  "recv_all w fd k = recv_some (min (nat k) (length (lw_in w))) w"

definition linux_start :: "byte list \<Rightarrow> linux_world" where
  "linux_start bs = \<lparr>lw_in = bs, lw_out = [], lw_now = 0\<rparr>"

lemma pieces:
  assumes "xs \<noteq> []" "0 < k"
  shows "\<exists>j>0. j \<le> length xs \<and> int j \<le> k \<and>
      take (min (nat k) (min 3 (length xs))) xs = take j xs \<and> drop (min (nat k) (min 3 (length xs))) xs = drop j xs"
    and "\<exists>j>0. j \<le> length xs \<and> int j \<le> k \<and> take (nat k) xs = take j xs \<and> drop (nat k) xs = drop j xs"
  subgoal using assms by (intro exI [of _ "min (nat k) (min 3 (length xs))"]) auto
  subgoal using assms by (intro exI [of _ "min (nat k) (length xs)"]) (auto simp: min_def)
  done

lemma take_min_length: "take (min n (length xs)) xs = take n xs" "drop (min n (length xs)) xs = drop n xs" "take (min (length xs) n) xs = take n xs"
  by (simp_all add: min_def)

interpretation linux_cut: linux_stream "linux_sim recv_cut" fd lw_now lw_out "\<lambda>_. 0" 0 lw_in
  for fd
  by unfold_locales (auto simp: linux_sim_def recv_cut_def recv_some_def tv_ok_def usecs_def take_min_length pieces split: if_splits)

interpretation linux_all: linux_arrived "linux_sim recv_all" fd lw_now lw_out "\<lambda>_. 0" 0 lw_in
  for fd
  by unfold_locales (auto simp: linux_sim_def recv_all_def recv_some_def tv_ok_def usecs_def take_min_length pieces split: if_splits)

text \<open>The read of the client for MQTT gives up after ten pieces: of 32 bytes that are all there it returns 30.\<close>

lemma ipstack_read_gives_up:
  "fst (IPStack_read (linux_sim recv_cut) \<lparr>mysock = 3\<rparr> (linux_start (replicate 32 7)) 32 1000) = 30"
  by code_simp

text \<open>\<open>connect\<close> of that client returns 0 when there is no socket; that of the C client returns -1.\<close>

lemma connect_without_socket:
  assumes "sys_getaddrinfo os w h = (0, result, w1)" "prefer_ip4 os result = (AF_INET os, a) # rest" "sys_socket os w1 (AF_INET os) = (- 1, w2)"
  shows "IPStack_connect os w s h port = Some (0, w2, s\<lparr>mysock := - 1\<rparr>)"
    "NetworkConnect os w n h port = Some (- 1, w2, n\<lparr>my_socket := - 1\<rparr>)"
  using assms by (simp_all add: IPStack_connect_def NetworkConnect_def)

text \<open>The address that is connected to is the first of the family \<open>AF_INET\<close>; without one the result is -1.\<close>

lemma prefer_ip4_first:
  "prefer_ip4 os (pre @ (AF_INET os, a) # post) = (AF_INET os, a) # post" if "\<forall>(f, _) \<in> set pre. f \<noteq> AF_INET os"
  using that by (induction pre) (auto simp: prefer_ip4_def)

lemma connect_without_ip4:
  assumes "sys_getaddrinfo os w h = (0, result, w1)" "result \<noteq> []" "\<forall>(f, _) \<in> set result. f \<noteq> AF_INET os"
  shows "NetworkConnect os w n h port = Some (- 1, w1, n)"
proof -
  have "prefer_ip4 os result = result"
    using assms(3) by (auto simp: prefer_ip4_def Let_def)
  then show ?thesis
    using assms by (cases result) (auto simp: NetworkConnect_def)
qed

text \<open>The time limit for \<open>write\<close> is a value that \<open>setsockopt\<close> takes only below one second.\<close>

lemma write_interval_valid: "- 2147483 \<le> ms \<Longrightarrow> ms \<le> 2147483 \<Longrightarrow> tv_ok (write_interval ms) \<longleftrightarrow> 0 \<le> ms \<and> ms < 1000"
  by (simp add: write_interval_def tv_ok_def c_int_id)

text \<open>That for \<open>read\<close> is always valid and positive.\<close>

lemma read_interval_valid: "tv_ok (read_interval ms) \<and> 0 < usecs (read_interval ms)"
proof (cases "0 < ms")
  case True
  then have "ms sdiv 1000 = ms div 1000" "ms smod 1000 = ms mod 1000"
    by (simp_all add: signed_divide_int_def signed_modulo_int_def sgn_if)
  moreover have "0 \<le> ms mod 1000" "ms mod 1000 < 1000" "0 \<le> ms div 1000"
    using True by (simp_all add: pos_imp_zdiv_nonneg_iff)
  moreover have "ms div 1000 * 1000000 + ms mod 1000 * 1000 = ms * 1000"
    using div_mult_mod_eq [of ms 1000] by linarith
  ultimately show ?thesis
    using True by (auto simp: read_interval_def tv_ok_def usecs_def Let_def)
next
  case False
  then have "ms sdiv 1000 < 0 \<or> ms sdiv 1000 = 0 \<and> (ms smod 1000) * 1000 \<le> 0"
    by (auto simp: signed_divide_int_def signed_modulo_int_def sgn_if pos_imp_zdiv_nonneg_iff)
  then show ?thesis
    by (auto simp: read_interval_def tv_ok_def usecs_def Let_def)
qed

subsection \<open>Properties\<close>

text \<open>C36: The C client on Linux, with its socket and its timers. However \<open>recv\<close> cuts the stream, if a PUBLISH of QoS 0, 1 or 2 that fits into the read buffer
  is next on the stream, one round of the client takes exactly this packet off the stream and calls exactly the handlers for its topic with its
  topic, payload, QoS and retained flag; it returns PUBLISH and has written the acknowledgement to the socket, and at most a PINGREQ after it, or it returns \<open>FAILURE\<close> and the
  session is closed. Asked of the system is that the clock is not set back and does not stand still for ever, that \<open>recv\<close> gives out the stream in order and that \<open>write\<close> sends a prefix of what it is
  given. Where \<open>write\<close> cuts, there has to be memory behind the send buffer, since \<open>sendPacket\<close> then hands out bytes behind it (\<open>send_room\<close>).\<close>

theorem linux_client_delivers:
  assumes "linux_stream os fd clock sent still bound pending" "client_inv c" "send_room (linux_platform os \<lparr>my_socket = fd\<rparr>) c"
    and "publish_ok (dup, qos, retained, packetid, topic, payload, payloadlen)" "qos \<le> 2"
    and "pending w = publish_wire (dup, qos, retained, packetid, topic, payload, payloadlen) @ rest"
    and "int (length (publish_wire (dup, qos, retained, packetid, topic, payload, payloadlen))) \<le> uint (readbuf_size c)"
  shows "\<exists>rc w' c' calls. cycle (linux_platform os \<lparr>my_socket = fd\<rparr>) w c timer = Some (rc, w', c') \<and>
    pending w' = rest \<and> delivered c' = delivered c @ calls \<and>
    map told calls = map (\<lambda>h. (h, MQTTString_bytes topic, cptr_bytes payload payloadlen, qos, take_bit 1 retained))
      (targets c (MQTTString_bytes topic)) \<and>
    (rc = 3 \<and> (\<exists>ping \<in> {[], [192, 0]}. sent w' = sent w @ answer qos packetid @ ping) \<or>
     rc = FAILURE \<and> isconnected c' = 0)"
proof -
  note n = linux_stream.is_network [OF assms(1)]
  have "mqtt_platform.sound (linux_platform os \<lparr>my_socket = fd\<rparr>) (behind_buf c) (behind_readbuf c) c"
    using mqtt_platform.sound_iff [OF mqtt_network.axioms(1) [OF n]] assms(2,3) by blast
  from mqtt_network.cycle_delivers [OF n this assms(4) refl assms(5-7)] show ?thesis .
qed

definition linux_client :: "(linux_Timer, nat) MQTTClient" where
  "linux_client = \<lparr>next_packetid = 1, command_timeout_ms = 1000, buf_size = 20, readbuf_size = 20,
     c_buf = replicate 40 0, c_readbuf = replicate 20 0, keepAliveInterval = 0, ping_outstanding = 0, isconnected = 1, cleansession = 0,
     messageHandlers = \<lparr>topicFilter = Some [97], fp = Some 5\<rparr> # replicate 4 \<lparr>topicFilter = None, fp = None\<rparr>,
     defaultMessageHandler = None, last_sent = \<lparr>end_time = \<lparr>tv_sec = 0, tv_usec = 0\<rparr>\<rparr>, last_received = \<lparr>end_time = \<lparr>tv_sec = 0, tv_usec = 0\<rparr>\<rparr>,
     delivered = []\<rparr>"

lemma linux_client_inv: "client_inv linux_client"
proof -
  have "slots_ok (messageHandlers linux_client)"
    by (rule slots_okI) (auto simp: linux_client_def nth_Cons split: nat.splits)
  then show ?thesis
    by (simp add: client_inv_def packetid_ok_def filters_are_cstrings_def int_of_size_def linux_client_def)
qed

lemma linux_client_room: "send_room p linux_client"
  by (simp add: send_room_def behind_buf_def linux_client_def int_of_size_def)

theorem linux_client_delivers_witness:
  "\<exists>rc w' c' calls. cycle (linux_platform (linux_sim recv_cut) \<lparr>my_socket = 3\<rparr>)
       (linux_start (publish_wire (0, 1, 0, 7, MQTTString_c [97], Some [5], 1) @ [208, 0])) linux_client
       \<lparr>end_time = \<lparr>tv_sec = 1, tv_usec = 0\<rparr>\<rparr> = Some (rc, w', c') \<and>
    lw_in w' = [208, 0] \<and> delivered c' = delivered linux_client @ calls \<and>
    map told calls = map (\<lambda>h. (h, MQTTString_bytes (MQTTString_c [97]), cptr_bytes (Some [5]) 1, 1, take_bit 1 0))
      (targets linux_client (MQTTString_bytes (MQTTString_c [97]))) \<and>
    (rc = 3 \<and> (\<exists>ping \<in> {[], [192, 0]}. lw_out w' =
        lw_out (linux_start (publish_wire (0, 1, 0, 7, MQTTString_c [97], Some [5], 1) @ [208, 0])) @ answer 1 7 @ ping) \<or>
     rc = FAILURE \<and> isconnected c' = 0)"
  by (rule linux_client_delivers [OF linux_cut.linux_stream_axioms linux_client_inv linux_client_room])
     (simp_all add: cptr_holds_def cptr_bytes_def linux_start_def linux_client_def varint_small)

text \<open>The commands of the C client on Linux return for every behaviour of the peer, every cut of the stream and every cut of a write.\<close>

theorem linux_commands_return:
  assumes "linux_running os fd clock sent still bound" "client_inv (c :: (linux_Timer, 'h) MQTTClient)" "send_room (linux_platform os \<lparr>my_socket = fd\<rparr>) c"
    and "id_room (linux_platform os \<lparr>my_socket = fd\<rparr>) (behind_readbuf c) TYPE('h)" "publish_args_ok topic msg" "length topicf < 65536"
  shows "(\<exists>rc w' c'. MQTTYield (linux_platform os \<lparr>my_socket = fd\<rparr>) w c ms = Some (rc, w', c') \<and> client_inv c' \<and> behind_buf c' = behind_buf c \<and>
      behind_readbuf c' = behind_readbuf c \<and> (rc = SUCCESS \<or> rc = FAILURE \<and> isconnected c' = 0)) \<and>
    (\<exists>rc w' c' msg'. MQTTPublish (linux_platform os \<lparr>my_socket = fd\<rparr>) w c topic msg = Some (rc, w', c', msg') \<and> client_inv c' \<and>
      behind_buf c' = behind_buf c \<and> behind_readbuf c' = behind_readbuf c \<and> (rc = SUCCESS \<or> rc = FAILURE \<and> isconnected c' = 0)) \<and>
    (\<exists>rc w' c'. MQTTUnsubscribe (linux_platform os \<lparr>my_socket = fd\<rparr>) w c topicf = Some (rc, w', c') \<and> client_inv c' \<and>
      behind_buf c' = behind_buf c \<and> behind_readbuf c' = behind_readbuf c \<and> (rc = SUCCESS \<or> rc = FAILURE \<and> isconnected c' = 0)) \<and>
    (\<exists>rc w' c'. MQTTDisconnect (linux_platform os \<lparr>my_socket = fd\<rparr>) w c = Some (rc, w', c') \<and> client_inv c' \<and>
      behind_buf c' = behind_buf c \<and> behind_readbuf c' = behind_readbuf c \<and> isconnected c' = 0)"
proof -
  note port = linux_running.is_port [OF assms(1)]
  note s = mqtt_platform.sound_iff [OF port]
  have c: "mqtt_platform.sound (linux_platform os \<lparr>my_socket = fd\<rparr>) (behind_buf c) (behind_readbuf c) c"
    using assms by (simp add: s)
  show ?thesis
    using mqtt_platform.MQTTYield_returns [OF port c assms(4), of w ms] mqtt_platform.MQTTPublish_returns [OF port c assms(5,4), of w]
      mqtt_platform.MQTTUnsubscribe_returns [OF port c assms(6,4), of w] mqtt_platform.MQTTDisconnect_returns [OF port c, of w]
    unfolding s by (intro conjI) blast+
qed

text \<open>The C++ client on Linux refines the receiver of the specification as long as what it reads has arrived.\<close>

theorem linux_cpp_refines:
  assumes "linux_arrived os fd clock sent still bound pending" "Cpp_inv cfg c" "MQTTCLIENT_QOS2 cfg" "packet_ok cfg pk" "pending w = packet_wire pk @ rest"
  shows "\<exists>rc w' c'. Cpp_cycle cfg (linux_net_ops os g \<lparr>mysock = fd\<rparr>) w c timer = Some (rc, w', c') \<and> pending w' = rest \<and> Cpp_inv cfg c' \<and>
    snd (received c') = snd (receive (length (cl_incomingQoS2messages c)) (Cpp_targets c) pk (received c)) \<and>
    (rc > 0 \<and> received c' = receive (length (cl_incomingQoS2messages c)) (Cpp_targets c) pk (received c) \<and>
       (\<exists>ys. sent w' = sent w @ packet_answer pk @ ys) \<or>
     rc < 0 \<and> \<not> cl_isconnected c')"
  using cpp_network.cycle_refines [OF linux_arrived.is_cpp_network [OF assms(1)] assms(2-), of g timer] by blast

text \<open>C37: The timers of the C client on Linux, over a clock in microseconds. A timer set to \<open>ms\<close> milliseconds or \<open>s\<close> seconds has expired exactly when at least this time has passed since it was set,
  for all values of 32 bits. The milliseconds left are what remains, rounded down, and never more than the timer was set to; with \<open>int\<close> as the type of the result this holds up
  to 2147483647 milliseconds, and up to 2147483 seconds.\<close>

theorem linux_timer_range:
  assumes "linux_sockets os fd clock sent" "clock w1 \<le> clock w2"
  shows "(linux_TimerCountdownMS os w timer ms = (t, w1) \<longrightarrow> linux_TimerIsExpired os w2 t = (e, w3) \<longrightarrow>
      (e \<longleftrightarrow> 1000 * uint ms \<le> clock w3 - clock w1)) \<and>
    (linux_TimerCountdownMS os w timer ms = (t, w1) \<longrightarrow> linux_TimerLeftMS os w2 t = (l, w3) \<longrightarrow> uint ms \<le> 2147483647 \<longrightarrow>
      l = max 0 ((1000 * uint ms - (clock w3 - clock w1)) div 1000) \<and> 0 \<le> l \<and> l \<le> uint ms) \<and>
    (linux_TimerCountdown os w timer s = (t, w1) \<longrightarrow> linux_TimerIsExpired os w2 t = (e, w3) \<longrightarrow>
      (e \<longleftrightarrow> 1000000 * uint s \<le> clock w3 - clock w1)) \<and>
    (linux_TimerCountdown os w timer s = (t, w1) \<longrightarrow> linux_TimerLeftMS os w2 t = (l, w3) \<longrightarrow> uint s \<le> 2147483 \<longrightarrow>
      l = max 0 ((1000000 * uint s - (clock w3 - clock w1)) div 1000) \<and> 0 \<le> l \<and> l \<le> 1000 * uint s)"
proof -
  note reads = linux_sockets.timer_reads [OF assms(1)] and set = linux_sockets.timer_set [OF assms(1)]
    and left = linux_sockets.timer_left [OF assms(1)]
  show ?thesis
    apply (intro conjI)
    subgoal using reads(1) [of t w2 e w3] set(1) [of w timer ms t w1] by auto
    subgoal using left [of t w1 "1000 * uint ms" w2 l w3] set(1) [of w timer ms t w1] assms(2) by auto
    subgoal using reads(1) [of t w2 e w3] set(2) [of w timer s t w1] by auto
    subgoal using left [of t w1 "1000000 * uint s" w2 l w3] set(2) [of w timer s t w1] assms(2) by auto
    done
qed

text \<open>Set to 1500 milliseconds ten microseconds after the start; looked at after 990 more.\<close>

theorem linux_timer_range_witness:
  "linux_TimerLeftMS (linux_sim recv_cut) \<lparr>lw_in = [], lw_out = [], lw_now = 1000\<rparr> \<lparr>end_time = \<lparr>tv_sec = 1, tv_usec = 500010\<rparr>\<rparr> =
     (1499, \<lparr>lw_in = [], lw_out = [], lw_now = 1010\<rparr>)"
proof -
  have s: "linux_TimerCountdownMS (linux_sim recv_cut) (linux_start []) \<lparr>end_time = \<lparr>tv_sec = 0, tv_usec = 0\<rparr>\<rparr> 1500 =
      (\<lparr>end_time = \<lparr>tv_sec = 1, tv_usec = 500010\<rparr>\<rparr>, \<lparr>lw_in = [], lw_out = [], lw_now = 10\<rparr>)"
    by code_simp
  have l: "snd (linux_TimerLeftMS (linux_sim recv_cut) \<lparr>lw_in = [], lw_out = [], lw_now = 1000\<rparr> \<lparr>end_time = \<lparr>tv_sec = 1, tv_usec = 500010\<rparr>\<rparr>) =
      \<lparr>lw_in = [], lw_out = [], lw_now = 1010\<rparr>"
    by code_simp
  show ?thesis
    using linux_timer_range [OF linux_cut.linux_sockets_axioms, of "\<lparr>lw_in = [], lw_out = [], lw_now = 10\<rparr>"
        "\<lparr>lw_in = [], lw_out = [], lw_now = 1000\<rparr>"] s l
    by (cases "linux_TimerLeftMS (linux_sim recv_cut) \<lparr>lw_in = [], lw_out = [], lw_now = 1000\<rparr> \<lparr>end_time = \<lparr>tv_sec = 1, tv_usec = 500010\<rparr>\<rparr>")
       fastforce
qed

text \<open>Beyond that the result is negative, although the timer has not expired, and the next read waits for 100 microseconds only.\<close>

lemma linux_left_negative:
  "let (t, w) = linux_TimerCountdownMS (linux_sim recv_cut) (linux_start []) \<lparr>end_time = \<lparr>tv_sec = 0, tv_usec = 0\<rparr>\<rparr> 3000000000
   in fst (linux_TimerLeftMS (linux_sim recv_cut) w t) = - 1294967297 \<and> \<not> fst (linux_TimerIsExpired (linux_sim recv_cut) w t)"
  by code_simp

end
