(* ===== verification/MQTTSN_Search.thy ===== *)
theory MQTTSN_Search
  imports MQTTSN_Packet
begin

text \<open>
  \<^verbatim>\<open>MQTTSNSearchClient.c\<close> and \<^verbatim>\<open>MQTTSNSearchServer.c\<close>: gateway discovery in MQTT-SN, the messages
  ADVERTISE, SEARCHGW and GWINFO.
\<close>

definition MQTTSNSerialize_advertise :: "buffer \<Rightarrow> int \<Rightarrow> byte \<Rightarrow> u16 \<Rightarrow> (buffer \<times> int) option" where
  "MQTTSNSerialize_advertise buf buflen gatewayid duration =
     (let len = MQTTSNPacket_len 4
      in if len > buflen then Some (buf, MQTTSNPACKET_BUFFER_TOO_SHORT)
         else do {
           w \<leftarrow> sn_write_len (buf, 0) len;
           w \<leftarrow> writeChar w (sn_code MQTTSN_ADVERTISE);
           w \<leftarrow> writeChar w gatewayid;
           (buf, ptr) \<leftarrow> writeInt w (uint duration);
           Some (buf, int ptr) })"

record advertise_out =
  adv_gatewayid :: byte
  adv_duration :: u16

definition MQTTSNDeserialize_advertise :: "advertise_out \<Rightarrow> buffer \<Rightarrow> int \<Rightarrow> (int \<times> advertise_out) option" where
  "MQTTSNDeserialize_advertise out buf buflen = do {
     (_, curdata, enddata) \<leftarrow> sn_begin (Some 0) buf buflen;
     if enddata - fst curdata > buflen then Some (0, out)
     else do {
       (c, curdata) \<leftarrow> readChar curdata;
       if c \<noteq> sn_code MQTTSN_ADVERTISE then Some (0, out)
       else do {
         (gatewayid, curdata) \<leftarrow> readChar curdata;
         (duration, curdata) \<leftarrow> readInt curdata;
         Some (1, \<lparr>adv_gatewayid = gatewayid, adv_duration = word_of_int duration\<rparr>) } } }"

definition MQTTSNSerialize_searchgw :: "buffer \<Rightarrow> int \<Rightarrow> byte \<Rightarrow> (buffer \<times> int) option" where
  "MQTTSNSerialize_searchgw buf buflen radius =
     (let len = MQTTSNPacket_len 2
      in if len > buflen then Some (buf, MQTTSNPACKET_BUFFER_TOO_SHORT)
         else do {
           w \<leftarrow> sn_write_len (buf, 0) len;
           w \<leftarrow> writeChar w (sn_code MQTTSN_SEARCHGW);
           (buf, ptr) \<leftarrow> writeChar w radius;
           Some (buf, int ptr) })"

definition MQTTSNDeserialize_searchgw :: "byte \<Rightarrow> buffer \<Rightarrow> int \<Rightarrow> (int \<times> byte) option" where
  "MQTTSNDeserialize_searchgw radius buf buflen = do {
     (_, curdata, enddata) \<leftarrow> sn_begin (Some 0) buf buflen;
     if enddata - fst curdata > buflen then Some (0, radius)
     else do {
       (c, curdata) \<leftarrow> readChar curdata;
       if c \<noteq> sn_code MQTTSN_SEARCHGW then Some (0, radius)
       else do { (r, curdata) \<leftarrow> readChar curdata; Some (1, r) } } }"

text \<open>The address is left out when its pointer is NULL; the length field counts it all the same.\<close>

definition MQTTSNSerialize_gwinfo :: "buffer \<Rightarrow> int \<Rightarrow> byte \<Rightarrow> u16 \<Rightarrow> cptr \<Rightarrow> (buffer \<times> int) option" where
  "MQTTSNSerialize_gwinfo buf buflen gatewayid gatewayaddress_len gatewayaddress =
     (let len = MQTTSNPacket_len (2 + uint gatewayaddress_len)
      in if len > buflen then Some (buf, MQTTSNPACKET_BUFFER_TOO_SHORT)
         else do {
           w \<leftarrow> sn_write_len (buf, 0) len;
           w \<leftarrow> writeChar w (sn_code MQTTSN_GWINFO);
           w \<leftarrow> writeChar w gatewayid;
           (buf, ptr) \<leftarrow> (if gatewayaddress_len > 0 \<and> gatewayaddress \<noteq> None
                        then write_mem w gatewayaddress (uint gatewayaddress_len) else Some w);
           Some (buf, int ptr) })"

record gwinfo_out =
  gw_gatewayid :: byte
  gw_address_len :: u16
  gw_address :: cptr

text \<open>The test in front of the address is \<open>gatewayaddress_len > 0\<close> on the pointer that the caller gave,
  not on the length it points to; it holds for every pointer to an object.\<close>

definition MQTTSNDeserialize_gwinfo :: "gwinfo_out \<Rightarrow> buffer \<Rightarrow> int \<Rightarrow> (int \<times> gwinfo_out) option" where
  "MQTTSNDeserialize_gwinfo out buf buflen = do {
     (_, curdata, enddata) \<leftarrow> sn_begin (Some 0) buf buflen;
     if enddata - fst curdata > buflen then Some (0, out)
     else do {
       (c, curdata) \<leftarrow> readChar curdata;
       if c \<noteq> sn_code MQTTSN_GWINFO then Some (0, out)
       else do {
         (gatewayid, curdata) \<leftarrow> readChar curdata;
         Some (1, \<lparr>gw_gatewayid = gatewayid, gw_address_len = word_of_int (enddata - fst curdata),
                   gw_address = Some (snd curdata)\<rparr>) } } }"

subsection \<open>On the wire\<close>

fun advertise_body :: "byte \<times> u16 \<Rightarrow> byte list" where
  "advertise_body (gatewayid, duration) = 0 # gatewayid # be16 (uint duration)"

definition advertise_view :: "advertise_out \<Rightarrow> byte \<times> u16" where
  "advertise_view out = (adv_gatewayid out, adv_duration out)"

lemma frame_ok_advertise: "frame_ok (advertise_body a)"
  by (cases a) (simp add: frame_ok_def)

lemma len_advertise: "int (length (advertise_body a)) = 4"
  by (cases a) simp

interpretation advertise: sn_codec
  "\<lambda>buf buflen (gatewayid, duration). MQTTSNSerialize_advertise buf buflen gatewayid duration"
  advertise_body "\<lambda>_. True" MQTTSNDeserialize_advertise advertise_view id
proof unfold_locales
  fix a :: "byte \<times> u16" and buf buflen
  show "(case a of (gatewayid, duration) \<Rightarrow> MQTTSNSerialize_advertise buf buflen gatewayid duration) =
     (if MQTTSNPacket_len (int (length (advertise_body a))) > buflen then Some (buf, - 2)
      else emit_rc buf (sn_frame (advertise_body a)))"
    unfolding sn_frame_def len_advertise by (cases a) (simp add: MQTTSNSerialize_advertise_def emit_simps)
next
  fix a :: "byte \<times> u16" and n and out :: advertise_out and rest
  assume n: "int (length (sn_frame (advertise_body a))) \<le> n"
  then have "4 \<le> n"
    by (simp add: sn_frame_def len_advertise)
  then show "\<exists>out'. MQTTSNDeserialize_advertise out (sn_frame (advertise_body a) @ rest) n = Some (1, out') \<and>
      advertise_view out' = id a"
    unfolding MQTTSNDeserialize_advertise_def sn_begin_frame [OF frame_ok_advertise n]
    by (cases a) (simp add: read_simps advertise_view_def)
qed (rule frame_ok_advertise)

definition searchgw_body :: "byte \<Rightarrow> byte list" where
  "searchgw_body radius = [1, radius]"

lemma frame_ok_searchgw: "frame_ok (searchgw_body a)"
  by (simp add: frame_ok_def searchgw_body_def)

lemma len_searchgw: "int (length (searchgw_body a)) = 2"
  by (simp add: searchgw_body_def)

interpretation searchgw: sn_codec MQTTSNSerialize_searchgw searchgw_body "\<lambda>_. True" MQTTSNDeserialize_searchgw id id
proof unfold_locales
  fix a :: byte and buf buflen
  show "MQTTSNSerialize_searchgw buf buflen a =
     (if MQTTSNPacket_len (int (length (searchgw_body a))) > buflen then Some (buf, - 2)
      else emit_rc buf (sn_frame (searchgw_body a)))"
    unfolding sn_frame_def len_searchgw by (simp add: MQTTSNSerialize_searchgw_def emit_simps searchgw_body_def)
next
  fix a :: byte and n and out :: byte and rest
  assume n: "int (length (sn_frame (searchgw_body a))) \<le> n"
  then have "2 \<le> n"
    by (simp add: sn_frame_def len_searchgw)
  then show "\<exists>out'. MQTTSNDeserialize_searchgw out (sn_frame (searchgw_body a) @ rest) n = Some (1, out') \<and> id out' = id a"
    unfolding MQTTSNDeserialize_searchgw_def sn_begin_frame [OF frame_ok_searchgw n]
    by (simp add: searchgw_body_def read_simps)
qed (rule frame_ok_searchgw)

fun gwinfo_body :: "byte \<times> u16 \<times> cptr \<Rightarrow> byte list" where
  "gwinfo_body (gatewayid, l, address) = 2 # gatewayid # cptr_bytes address (uint l)"

fun gwinfo_ok :: "byte \<times> u16 \<times> cptr \<Rightarrow> bool" where
  "gwinfo_ok (gatewayid, l, address) \<longleftrightarrow>
     cptr_holds address (uint l) \<and> frame_ok (gwinfo_body (gatewayid, l, address))"

fun gwinfo_val :: "byte \<times> u16 \<times> cptr \<Rightarrow> byte \<times> u16 \<times> byte list" where
  "gwinfo_val (gatewayid, l, address) = (gatewayid, l, cptr_bytes address (uint l))"

definition gwinfo_view :: "gwinfo_out \<Rightarrow> byte \<times> u16 \<times> byte list" where
  "gwinfo_view out = (gw_gatewayid out, gw_address_len out, cptr_bytes (gw_address out) (uint (gw_address_len out)))"

interpretation gwinfo: sn_codec
  "\<lambda>buf buflen (gatewayid, l, address). MQTTSNSerialize_gwinfo buf buflen gatewayid l address"
  gwinfo_body gwinfo_ok MQTTSNDeserialize_gwinfo gwinfo_view gwinfo_val
proof unfold_locales
  fix a :: "byte \<times> u16 \<times> cptr" and buf buflen
  assume ok: "gwinfo_ok a"
  obtain g l p where a: "a = (g, l, p)"
    by (cases a)
  have h: "cptr_holds p (uint l)"
    using ok by (simp add: a)
  have n: "int (length (gwinfo_body a)) = 2 + uint l"
    by (simp add: a length_cptr_bytes [OF h])
  have "l = 0 \<Longrightarrow> cptr_bytes p (uint l) = []"
    by (simp add: cptr_bytes_def split: option.splits)
  moreover have "p = None \<Longrightarrow> l = 0"
    using h by (simp add: cptr_holds_def unsigned_eq_0_iff)
  ultimately show "(case a of (gatewayid, l, address) \<Rightarrow> MQTTSNSerialize_gwinfo buf buflen gatewayid l address) =
     (if MQTTSNPacket_len (int (length (gwinfo_body a))) > buflen then Some (buf, - 2)
      else emit_rc buf (sn_frame (gwinfo_body a)))"
    unfolding sn_frame_def n using h
    by (cases "l = 0"; cases p) (simp_all add: a MQTTSNSerialize_gwinfo_def emit_simps word_neq_0_conv)
next
  fix a :: "byte \<times> u16 \<times> cptr"
  show "gwinfo_ok a \<Longrightarrow> frame_ok (gwinfo_body a)"
    by (cases a) simp
next
  fix a :: "byte \<times> u16 \<times> cptr" and n and out :: gwinfo_out and rest
  assume ok: "gwinfo_ok a" and n: "int (length (sn_frame (gwinfo_body a))) \<le> n"
  obtain g l p where a: "a = (g, l, p)"
    by (cases a)
  have h: "cptr_holds p (uint l)" and f: "frame_ok (gwinfo_body a)"
    using ok by (simp_all add: a)
  have le: "int (length (gwinfo_body a)) \<le> n"
    using n sn_frame_start [OF f, of n] sn_lenlen_bounds(1) [of "gwinfo_body a"] by simp
  show "\<exists>out'. MQTTSNDeserialize_gwinfo out (sn_frame (gwinfo_body a) @ rest) n = Some (1, out') \<and>
      gwinfo_view out' = gwinfo_val a"
    unfolding MQTTSNDeserialize_gwinfo_def sn_begin_frame [OF f n]
    using le h by (simp add: a read_simps gwinfo_view_def length_cptr_bytes)
qed

subsection \<open>Properties\<close>

text \<open>Gateway discovery: ADVERTISE, SEARCHGW and GWINFO as one side writes them are read back by the other side with the gateway
  identifier, the duration, the radius and the gateway address. A GWINFO without an address comes back with length 0 but with a
  pointer that is not NULL.\<close>

theorem sn_discovery_round_trip:
  assumes "gwinfo_ok (gatewayid, l, address)"
    and "MQTTSNSerialize_advertise buf1 n1 gatewayid duration = Some (buf1', rc1)" "rc1 \<noteq> - 2"
    and "MQTTSNSerialize_searchgw buf2 n2 radius = Some (buf2', rc2)" "rc2 \<noteq> - 2"
    and "MQTTSNSerialize_gwinfo buf3 n3 gatewayid l address = Some (buf3', rc3)" "rc3 \<noteq> - 2"
  shows "MQTTSNDeserialize_advertise outa buf1' rc1 = Some (1, \<lparr>adv_gatewayid = gatewayid, adv_duration = duration\<rparr>) \<and>
    MQTTSNDeserialize_searchgw r buf2' rc2 = Some (1, radius) \<and>
    (\<exists>out'. MQTTSNDeserialize_gwinfo outg buf3' rc3 = Some (1, out') \<and> gw_gatewayid out' = gatewayid \<and>
      gw_address_len out' = l \<and> gw_address out' \<noteq> None \<and>
      cptr_bytes (gw_address out') (uint l) = cptr_bytes address (uint l))"
proof (intro conjI)
  obtain out' where o: "MQTTSNDeserialize_advertise outa buf1' rc1 = Some (1, out')" "advertise_view out' = (gatewayid, duration)"
    using advertise.round_trip [where a = "(gatewayid, duration)" and buf = buf1 and buflen = n1 and buf' = buf1'
        and rc = rc1 and n = rc1 and out = outa] assms(2,3) by auto
  then show "MQTTSNDeserialize_advertise outa buf1' rc1 = Some (1, \<lparr>adv_gatewayid = gatewayid, adv_duration = duration\<rparr>)"
    by (cases out') (simp add: advertise_view_def)
  show "MQTTSNDeserialize_searchgw r buf2' rc2 = Some (1, radius)"
    using searchgw.round_trip [where a = radius and buf = buf2 and buflen = n2 and buf' = buf2'
        and rc = rc2 and n = rc2 and out = r] assms(4,5) by auto
  obtain out' where g: "MQTTSNDeserialize_gwinfo outg buf3' rc3 = Some (1, out')"
    "gwinfo_view out' = gwinfo_val (gatewayid, l, address)"
    using gwinfo.round_trip [OF assms(1), of buf3 n3 buf3' rc3 rc3 outg] assms(6,7) by auto
  have "gw_address out' \<noteq> None"
    using g(1) by (auto simp: MQTTSNDeserialize_gwinfo_def split: if_splits Option.bind_splits)
  with g show "\<exists>out'. MQTTSNDeserialize_gwinfo outg buf3' rc3 = Some (1, out') \<and> gw_gatewayid out' = gatewayid \<and>
      gw_address_len out' = l \<and> gw_address out' \<noteq> None \<and>
      cptr_bytes (gw_address out') (uint l) = cptr_bytes address (uint l)"
    by (auto simp: gwinfo_view_def)
qed

theorem sn_discovery_round_trip_witness:
  "MQTTSNDeserialize_searchgw 0 [3, 1, 7] 3 = Some (1, 7) \<and>
   (\<exists>out'. MQTTSNDeserialize_gwinfo \<lparr>gw_gatewayid = 0, gw_address_len = 0, gw_address = None\<rparr> [3, 2, 9, 0] 3 = Some (1, out') \<and>
     gw_address_len out' = 0 \<and> gw_address out' \<noteq> None)"
proof -
  have ok: "gwinfo_ok (9, 0, None)"
    by (simp add: cptr_holds_def cptr_bytes_def frame_ok_def)
  have s: "MQTTSNSerialize_advertise (replicate 5 0) 5 9 30 = Some ([5, 0, 9, 0, 30], 5)"
    "MQTTSNSerialize_searchgw (replicate 3 0) 3 7 = Some ([3, 1, 7], 3)"
    "MQTTSNSerialize_gwinfo (replicate 4 0) 4 9 0 None = Some ([3, 2, 9, 0], 3)"
    by code_simp+
  show ?thesis
    using sn_discovery_round_trip [OF ok s(1) _ s(2) _ s(3), where r = 0
        and outa = "\<lparr>adv_gatewayid = 0, adv_duration = 0\<rparr>" and outg = "\<lparr>gw_gatewayid = 0, gw_address_len = 0, gw_address = None\<rparr>"]
    by auto
qed

end
