(* ===== verification/MQTTSNGW_Tree23.thy ===== *)
theory MQTTSNGW_Tree23
  imports MQTT_Prelude
begin

text \<open>
  The search tree of the gateway, class template \<open>Tree23\<close> of \<^verbatim>\<open>MQTTSNGWProcess.h\<close>: a 2-3 tree whose nodes
  carry a type field that also signals, between two calls of the recursion, that a node has grown
  (\<open>TREE23_INSERT_ACTIVE\<close>) or shrunk (\<open>TREE23_DELETE_ACTIVE\<close>). A pointer to a node is a value of the datatype, with a
  constructor for \<open>NULL\<close>; the code never shares nodes. \<open>None\<close> is a dereferenced null pointer or, in the two
  lookups, a node with a type that keeps the loop where it is. Keys are compared the way the key class of the gateway's
  tests does. The properties: every reachable tree is balanced and sorted, no operation
  dereferences a null pointer, and the operations are those of a finite map.
\<close>

subsection \<open>Nodes\<close>

abbreviation TREE23_INSERT_ACTIVE :: int where "TREE23_INSERT_ACTIVE \<equiv> - 2"
abbreviation TREE23_DELETE_ACTIVE :: int where "TREE23_DELETE_ACTIVE \<equiv> - 1"
abbreviation TREE23_BI_NODE :: int where "TREE23_BI_NODE \<equiv> 2"
abbreviation TREE23_TRI_NODE :: int where "TREE23_TRI_NODE \<equiv> 3"

definition key_compare :: "'k :: linorder \<Rightarrow> 'k \<Rightarrow> int" where
  "key_compare key obj = (if key = obj then 0 else if key < obj then - 1 else 1)"

type_synonym ('k, 'v) Tree23Elm = "'k \<times> 'v"

datatype ('k, 'v) Tree23Node =
  NULL
| Tree23Node int "('k, 'v) Tree23Elm option" "('k, 'v) Tree23Elm option"
    "('k, 'v) Tree23Node" "('k, 'v) Tree23Node" "('k, 'v) Tree23Node"

text \<open>The constructors with a child, an element, an element and two children, and everything.\<close>

definition node_midle :: "int \<Rightarrow> ('k, 'v) Tree23Node \<Rightarrow> ('k, 'v) Tree23Node" where
  [simp]: "node_midle ty midle = Tree23Node ty None None NULL midle NULL"

definition node_elm :: "int \<Rightarrow> ('k, 'v) Tree23Elm option \<Rightarrow> ('k, 'v) Tree23Node" where
  [simp]: "node_elm ty telm = Tree23Node ty telm None NULL NULL NULL"

definition node_bi :: "int \<Rightarrow> ('k, 'v) Tree23Elm option \<Rightarrow> ('k, 'v) Tree23Node \<Rightarrow> ('k, 'v) Tree23Node \<Rightarrow> ('k, 'v) Tree23Node" where
  [simp]: "node_bi ty telm left right = Tree23Node ty telm None left NULL right"

definition node_tri :: "int \<Rightarrow> ('k, 'v) Tree23Elm option \<Rightarrow> ('k, 'v) Tree23Elm option \<Rightarrow>
    ('k, 'v) Tree23Node \<Rightarrow> ('k, 'v) Tree23Node \<Rightarrow> ('k, 'v) Tree23Node \<Rightarrow> ('k, 'v) Tree23Node" where
  [simp]: "node_tri ty telm0 telm1 left midle right = Tree23Node ty telm0 telm1 left midle right"

subsection \<open>Insertion\<close>

fun addLeft2 :: "('k, 'v) Tree23Node \<Rightarrow> ('k, 'v) Tree23Node option" where
  "addLeft2 (Tree23Node ty telm0 telm1 left midle right) =
     (case left of
        Tree23Node nty ntelm0 ntelm1 nleft nmidle nright \<Rightarrow>
          if nty = TREE23_INSERT_ACTIVE
          then Some (node_tri TREE23_TRI_NODE ntelm0 telm0 nleft nright right)
          else Some (Tree23Node ty telm0 telm1 left midle right)
      | NULL \<Rightarrow> Some (Tree23Node ty telm0 telm1 left midle right))"
| "addLeft2 NULL = None"

fun addLeft3 :: "('k, 'v) Tree23Node \<Rightarrow> ('k, 'v) Tree23Node option" where
  "addLeft3 (Tree23Node ty telm0 telm1 left midle right) =
     (case left of
        Tree23Node nty ntelm0 ntelm1 nleft nmidle nright \<Rightarrow>
          if nty = TREE23_INSERT_ACTIVE
          then let n = Tree23Node TREE23_BI_NODE ntelm0 ntelm1 nleft nmidle nright;
                   nn = node_bi TREE23_BI_NODE telm1 midle right
               in Some (node_bi TREE23_INSERT_ACTIVE telm0 n nn)
          else Some (Tree23Node ty telm0 telm1 left midle right)
      | NULL \<Rightarrow> Some (Tree23Node ty telm0 telm1 left midle right))"
| "addLeft3 NULL = None"

fun addRight2 :: "('k, 'v) Tree23Node \<Rightarrow> ('k, 'v) Tree23Node option" where
  "addRight2 (Tree23Node ty telm0 telm1 left midle right) =
     (case right of
        Tree23Node nty ntelm0 ntelm1 nleft nmidle nright \<Rightarrow>
          if nty = TREE23_INSERT_ACTIVE
          then Some (node_tri TREE23_TRI_NODE telm0 ntelm0 left nleft nright)
          else Some (Tree23Node ty telm0 telm1 left midle right)
      | NULL \<Rightarrow> Some (Tree23Node ty telm0 telm1 left midle right))"
| "addRight2 NULL = None"

fun addRight3 :: "('k, 'v) Tree23Node \<Rightarrow> ('k, 'v) Tree23Node option" where
  "addRight3 (Tree23Node ty telm0 telm1 left midle right) =
     (case right of
        Tree23Node nty ntelm0 ntelm1 nleft nmidle nright \<Rightarrow>
          if nty = TREE23_INSERT_ACTIVE
          then let n = Tree23Node TREE23_BI_NODE ntelm0 ntelm1 nleft nmidle nright;
                   nn = node_bi TREE23_BI_NODE telm0 left midle
               in Some (node_bi TREE23_INSERT_ACTIVE telm1 nn n)
          else Some (Tree23Node ty telm0 telm1 left midle right)
      | NULL \<Rightarrow> Some (Tree23Node ty telm0 telm1 left midle right))"
| "addRight3 NULL = None"

fun addMidle3 :: "('k, 'v) Tree23Node \<Rightarrow> ('k, 'v) Tree23Node option" where
  "addMidle3 (Tree23Node ty telm0 telm1 left midle right) =
     (case midle of
        Tree23Node nty ntelm0 ntelm1 nleft nmidle nright \<Rightarrow>
          if nty = TREE23_INSERT_ACTIVE
          then let nleft = node_bi TREE23_BI_NODE telm0 left nleft;
                   nright = node_bi TREE23_BI_NODE telm1 nright right
               in Some (Tree23Node nty ntelm0 ntelm1 nleft nmidle nright)
          else Some (Tree23Node ty telm0 telm1 left midle right)
      | NULL \<Rightarrow> Some (Tree23Node ty telm0 telm1 left midle right))"
| "addMidle3 NULL = None"

fun add_node :: "('k :: linorder, 'v) Tree23Node \<Rightarrow> ('k, 'v) Tree23Elm \<Rightarrow> ('k, 'v) Tree23Node option" where
  "add_node NULL elm = Some (node_elm TREE23_INSERT_ACTIVE (Some elm))"
| "add_node (Tree23Node ty telm0 telm1 left midle right) elm = do {
     e0 \<leftarrow> telm0;
     let cmp0 = key_compare (fst elm) (fst e0);
     if ty = 2
     then if cmp0 < 0
          then do { left \<leftarrow> add_node left elm; addLeft2 (Tree23Node ty telm0 telm1 left midle right) }
          else if cmp0 = 0 then Some (Tree23Node ty (Some elm) telm1 left midle right)
          else do { right \<leftarrow> add_node right elm; addRight2 (Tree23Node ty telm0 telm1 left midle right) }
     else if ty = 3
     then do {
       e1 \<leftarrow> telm1;
       let cmp1 = key_compare (fst elm) (fst e1);
       if cmp0 < 0
       then do { left \<leftarrow> add_node left elm; addLeft3 (Tree23Node ty telm0 telm1 left midle right) }
       else if cmp0 = 0 then Some (Tree23Node ty (Some elm) telm1 left midle right)
       else if cmp1 < 0
       then do { midle \<leftarrow> add_node midle elm; addMidle3 (Tree23Node ty telm0 telm1 left midle right) }
       else if cmp1 = 0 then Some (Tree23Node ty telm0 (Some elm) left midle right)
       else do { right \<leftarrow> add_node right elm; addRight3 (Tree23Node ty telm0 telm1 left midle right) } }
     else Some NULL }"

text \<open>The method \<open>add\<close> on the root; \<open>abs\<close> turns a grown root into a node.\<close>

definition Tree23_add :: "('k :: linorder, 'v) Tree23Node \<Rightarrow> 'k \<Rightarrow> 'v \<Rightarrow> ('k, 'v) Tree23Node option" where
  "Tree23_add root key val = do {
     root \<leftarrow> add_node root (key, val);
     (case root of
        NULL \<Rightarrow> None
      | Tree23Node ty telm0 telm1 left midle right \<Rightarrow>
          Some (Tree23Node \<bar>ty\<bar> telm0 telm1 left midle right)) }"

subsection \<open>Removal\<close>

fun removeLeft2 :: "('k, 'v) Tree23Node \<Rightarrow> ('k, 'v) Tree23Node option" where
  "removeLeft2 (Tree23Node ty telm0 telm1 left midle right) =
     (case left of
        Tree23Node nty ntelm0 ntelm1 nleft nmidle nright \<Rightarrow>
          if nty = TREE23_DELETE_ACTIVE
          then (case right of
                  Tree23Node rty rtelm0 rtelm1 rleft rmidle rright \<Rightarrow>
                    if rty = 2
                    then Some (node_midle TREE23_DELETE_ACTIVE
                           (node_tri TREE23_TRI_NODE telm0 rtelm0 nmidle rleft rright))
                    else if rty = 3
                    then Some (node_bi TREE23_BI_NODE rtelm0
                           (node_bi TREE23_BI_NODE telm0 nmidle rleft)
                           (node_bi TREE23_BI_NODE rtelm1 rmidle rright))
                    else Some (Tree23Node ty telm0 telm1 left midle right)
                | NULL \<Rightarrow> None)
          else Some (Tree23Node ty telm0 telm1 left midle right)
      | NULL \<Rightarrow> Some (Tree23Node ty telm0 telm1 left midle right))"
| "removeLeft2 NULL = None"

fun removeRight2 :: "('k, 'v) Tree23Node \<Rightarrow> ('k, 'v) Tree23Node option" where
  "removeRight2 (Tree23Node ty telm0 telm1 left midle right) =
     (case right of
        Tree23Node nty ntelm0 ntelm1 nleft nmidle nright \<Rightarrow>
          if nty = TREE23_DELETE_ACTIVE
          then (case left of
                  Tree23Node lty ltelm0 ltelm1 lleft lmidle lright \<Rightarrow>
                    if lty = 2
                    then Some (node_midle TREE23_DELETE_ACTIVE
                           (node_tri TREE23_TRI_NODE ltelm0 telm0 lleft lright nmidle))
                    else if lty = 3
                    then Some (node_bi TREE23_BI_NODE ltelm1
                           (node_bi TREE23_BI_NODE ltelm0 lleft lmidle)
                           (node_bi TREE23_BI_NODE telm0 lright nmidle))
                    else Some (Tree23Node ty telm0 telm1 left midle right)
                | NULL \<Rightarrow> None)
          else Some (Tree23Node ty telm0 telm1 left midle right)
      | NULL \<Rightarrow> Some (Tree23Node ty telm0 telm1 left midle right))"
| "removeRight2 NULL = None"

fun removeLeft3 :: "('k, 'v) Tree23Node \<Rightarrow> ('k, 'v) Tree23Node option" where
  "removeLeft3 (Tree23Node ty telm0 telm1 left midle right) =
     (case left of
        Tree23Node nty ntelm0 ntelm1 nleft nmidle nright \<Rightarrow>
          if nty = TREE23_DELETE_ACTIVE
          then (case midle of
                  Tree23Node mty mtelm0 mtelm1 mleft mmidle mright \<Rightarrow>
                    if mty = 2
                    then Some (node_bi TREE23_BI_NODE telm1
                           (node_tri TREE23_TRI_NODE telm0 mtelm0 nmidle mleft mright) right)
                    else if mty = 3
                    then Some (node_tri TREE23_TRI_NODE mtelm0 telm1
                           (node_bi TREE23_BI_NODE telm0 nmidle mleft)
                           (node_bi TREE23_BI_NODE mtelm1 mmidle mright) right)
                    else Some (Tree23Node ty telm0 telm1 left midle right)
                | NULL \<Rightarrow> None)
          else Some (Tree23Node ty telm0 telm1 left midle right)
      | NULL \<Rightarrow> Some (Tree23Node ty telm0 telm1 left midle right))"
| "removeLeft3 NULL = None"

fun removeMidle3 :: "('k, 'v) Tree23Node \<Rightarrow> ('k, 'v) Tree23Node option" where
  "removeMidle3 (Tree23Node ty telm0 telm1 left midle right) =
     (case midle of
        Tree23Node nty ntelm0 ntelm1 nleft nmidle nright \<Rightarrow>
          if nty = TREE23_DELETE_ACTIVE
          then (case right of
                  Tree23Node rty rtelm0 rtelm1 rleft rmidle rright \<Rightarrow>
                    if rty = 2
                    then Some (node_bi TREE23_BI_NODE telm0 left
                           (node_tri TREE23_TRI_NODE telm1 rtelm0 nmidle rleft rright))
                    else if rty = 3
                    then Some (node_tri TREE23_TRI_NODE telm0 rtelm0 left
                           (node_bi TREE23_BI_NODE telm1 nmidle rleft)
                           (node_bi TREE23_BI_NODE rtelm1 rmidle rright))
                    else Some (Tree23Node ty telm0 telm1 left midle right)
                | NULL \<Rightarrow> None)
          else Some (Tree23Node ty telm0 telm1 left midle right)
      | NULL \<Rightarrow> Some (Tree23Node ty telm0 telm1 left midle right))"
| "removeMidle3 NULL = None"

fun removeRight3 :: "('k, 'v) Tree23Node \<Rightarrow> ('k, 'v) Tree23Node option" where
  "removeRight3 (Tree23Node ty telm0 telm1 left midle right) =
     (case right of
        Tree23Node nty ntelm0 ntelm1 nleft nmidle nright \<Rightarrow>
          if nty = TREE23_DELETE_ACTIVE
          then (case midle of
                  Tree23Node mty mtelm0 mtelm1 mleft mmidle mright \<Rightarrow>
                    if mty = 2
                    then Some (node_bi TREE23_BI_NODE telm0 left
                           (node_tri TREE23_TRI_NODE mtelm0 telm1 mleft mright nmidle))
                    else if mty = 3
                    then Some (node_tri TREE23_TRI_NODE telm0 mtelm1 left
                           (node_bi TREE23_BI_NODE mtelm0 mleft mmidle)
                           (node_bi TREE23_BI_NODE telm1 mright nmidle))
                    else Some (Tree23Node ty telm0 telm1 left midle right)
                | NULL \<Rightarrow> None)
          else Some (Tree23Node ty telm0 telm1 left midle right)
      | NULL \<Rightarrow> Some (Tree23Node ty telm0 telm1 left midle right))"
| "removeRight3 NULL = None"

text \<open>\<open>removeMax\<close> also fills the element it is passed; here it is the second component of the result.\<close>

fun removeMax :: "('k, 'v) Tree23Node \<Rightarrow> (('k, 'v) Tree23Node \<times> ('k, 'v) Tree23Elm option) option" where
  "removeMax (Tree23Node ty telm0 telm1 left midle right) =
     (if right = NULL
      then if ty = 2 then do { e \<leftarrow> telm0; Some (node_midle TREE23_DELETE_ACTIVE NULL, Some e) }
           else if ty = 3 then do { e \<leftarrow> telm1; Some (node_elm TREE23_BI_NODE telm0, Some e) }
           else Some (NULL, None)
      else do {
        (right, elm) \<leftarrow> removeMax right;
        if ty = 2 then do { n \<leftarrow> removeRight2 (Tree23Node ty telm0 telm1 left midle right); Some (n, elm) }
        else if ty = 3 then do { n \<leftarrow> removeRight3 (Tree23Node ty telm0 telm1 left midle right); Some (n, elm) }
        else Some (NULL, elm) })"
| "removeMax NULL = None"

fun remove_node :: "('k :: linorder, 'v) Tree23Node \<Rightarrow> 'k \<Rightarrow> ('k, 'v) Tree23Node option" where
  "remove_node NULL k = Some NULL"
| "remove_node (Tree23Node ty telm0 telm1 left midle right) k = do {
     e0 \<leftarrow> telm0;
     let cmp0 = key_compare k (fst e0);
     if ty = 2
     then if cmp0 < 0
          then do { left \<leftarrow> remove_node left k; removeLeft2 (Tree23Node ty telm0 telm1 left midle right) }
          else if cmp0 = 0
          then if left = NULL then Some (node_midle TREE23_DELETE_ACTIVE NULL)
               else do {
                 (left, maxLeft) \<leftarrow> removeMax left;
                 removeLeft2 (Tree23Node ty maxLeft telm1 left midle right) }
          else do { right \<leftarrow> remove_node right k; removeRight2 (Tree23Node ty telm0 telm1 left midle right) }
     else if ty = 3
     then do {
       e1 \<leftarrow> telm1;
       let cmp1 = key_compare k (fst e1);
       if cmp0 < 0
       then do { left \<leftarrow> remove_node left k; removeLeft3 (Tree23Node ty telm0 telm1 left midle right) }
       else if cmp0 = 0
       then if left = NULL then Some (node_elm TREE23_BI_NODE telm1)
            else do {
              (left, maxLeft) \<leftarrow> removeMax left;
              removeLeft3 (Tree23Node ty maxLeft telm1 left midle right) }
       else if cmp1 < 0
       then do { midle \<leftarrow> remove_node midle k; removeMidle3 (Tree23Node ty telm0 telm1 left midle right) }
       else if cmp1 = 0
       then if midle = NULL then Some (node_elm TREE23_BI_NODE telm0)
            else do {
              (midle, maxMidle) \<leftarrow> removeMax midle;
              removeMidle3 (Tree23Node ty telm0 maxMidle left midle right) }
       else do { right \<leftarrow> remove_node right k; removeRight3 (Tree23Node ty telm0 telm1 left midle right) } }
     else Some NULL }"

definition Tree23_remove :: "('k :: linorder, 'v) Tree23Node \<Rightarrow> 'k \<Rightarrow> ('k, 'v) Tree23Node option" where
  "Tree23_remove root k = do {
     root \<leftarrow> remove_node root k;
     (case root of
        Tree23Node ty telm0 telm1 left midle right \<Rightarrow>
          Some (if ty = TREE23_DELETE_ACTIVE then midle else root)
      | NULL \<Rightarrow> Some NULL) }"

subsection \<open>Lookup\<close>

fun Tree23_find :: "('k :: linorder, 'v) Tree23Node \<Rightarrow> 'k \<Rightarrow> bool option" where
  "Tree23_find NULL key = Some False"
| "Tree23_find (Tree23Node ty telm0 telm1 left midle right) key = do {
     e0 \<leftarrow> telm0;
     let cmp0 = key_compare key (fst e0);
     if ty = 2
     then if cmp0 < 0 then Tree23_find left key
          else if cmp0 = 0 then Some True
          else Tree23_find right key
     else if ty = 3
     then do {
       e1 \<leftarrow> telm1;
       let cmp1 = key_compare key (fst e1);
       if cmp0 < 0 then Tree23_find left key
       else if cmp0 = 0 then Some True
       else if cmp1 < 0 then Tree23_find midle key
       else if cmp1 = 0 then Some True
       else Tree23_find right key }
     else None }"

fun Tree23_getVal :: "('k :: linorder, 'v) Tree23Node \<Rightarrow> 'k \<Rightarrow> 'v option option" where
  "Tree23_getVal NULL key = Some None"
| "Tree23_getVal (Tree23Node ty telm0 telm1 left midle right) key = do {
     e0 \<leftarrow> telm0;
     let cmp0 = key_compare key (fst e0);
     if ty = 2
     then if cmp0 < 0 then Tree23_getVal left key
          else if cmp0 = 0 then Some (Some (snd e0))
          else Tree23_getVal right key
     else if ty = 3
     then do {
       e1 \<leftarrow> telm1;
       let cmp1 = key_compare key (fst e1);
       if cmp0 < 0 then Tree23_getVal left key
       else if cmp0 = 0 then Some (Some (snd e0))
       else if cmp1 < 0 then Tree23_getVal midle key
       else if cmp1 = 0 then Some (Some (snd e1))
       else Tree23_getVal right key }
     else None }"

subsection \<open>The invariant and the abstract map\<close>

text \<open>A tree of height \<open>h\<close>: all leaves at the same depth, and in every node exactly the elements and children its
  type calls for.\<close>

fun full :: "nat \<Rightarrow> ('k, 'v) Tree23Node \<Rightarrow> bool" where
  "full h NULL \<longleftrightarrow> h = 0"
| "full 0 (Tree23Node ty telm0 telm1 left midle right) \<longleftrightarrow> False"
| "full (Suc h) (Tree23Node ty telm0 telm1 left midle right) \<longleftrightarrow>
     telm0 \<noteq> None \<and> full h left \<and> full h right \<and>
     (ty = TREE23_BI_NODE \<and> telm1 = None \<and> midle = NULL \<or>
      ty = TREE23_TRI_NODE \<and> telm1 \<noteq> None \<and> full h midle)"

fun elems :: "('k, 'v) Tree23Node \<Rightarrow> ('k, 'v) Tree23Elm list" where
  "elems NULL = []"
| "elems (Tree23Node ty telm0 telm1 left midle right) =
     elems left @ (case telm0 of None \<Rightarrow> [] | Some e \<Rightarrow> [e]) @ elems midle @
     (case telm1 of None \<Rightarrow> [] | Some e \<Rightarrow> [e]) @ elems right"

definition sorted_keys :: "('k :: linorder \<times> 'v) list \<Rightarrow> bool" where
  "sorted_keys es \<longleftrightarrow> sorted_wrt (<) (map fst es)"

definition tree_inv :: "('k :: linorder, 'v) Tree23Node \<Rightarrow> bool" where
  "tree_inv t \<longleftrightarrow> (\<exists>h. full h t) \<and> sorted_keys (elems t)"

definition tree_map :: "('k, 'v) Tree23Node \<Rightarrow> 'k \<rightharpoonup> 'v" where
  "tree_map t = map_of (elems t)"

lemma full_0 [simp]: "full 0 t \<longleftrightarrow> t = NULL"
  by (cases t) auto

lemma full_Suc_cases [consumes 1, case_names bi tri]:
  assumes "full (Suc h) t"
  obtains a l r where "t = Tree23Node 2 (Some a) None l NULL r" "full h l" "full h r"
    | a b l m r where "t = Tree23Node 3 (Some a) (Some b) l m r" "full h l" "full h m" "full h r"
  using assms by (cases t) auto

lemma full_NULL_same: "full h t \<Longrightarrow> full h t' \<Longrightarrow> t = NULL \<longleftrightarrow> t' = NULL"
  by (cases h) auto

subsection \<open>Sorted association lists\<close>

fun put :: "'k :: linorder \<times> 'v \<Rightarrow> ('k \<times> 'v) list \<Rightarrow> ('k \<times> 'v) list" where
  "put e [] = [e]"
| "put e (x # xs) = (if fst e < fst x then e # x # xs else if fst e = fst x then e # xs else x # put e xs)"

definition drop_key :: "'k \<Rightarrow> ('k \<times> 'v) list \<Rightarrow> ('k \<times> 'v) list" where
  "drop_key k = filter (\<lambda>e. fst e \<noteq> k)"

lemma sorted_keys_simps [simp]:
  "sorted_keys []"
  "sorted_keys (x # xs) \<longleftrightarrow> (\<forall>y\<in>set xs. fst x < fst y) \<and> sorted_keys xs"
  "sorted_keys (xs @ ys) \<longleftrightarrow> sorted_keys xs \<and> sorted_keys ys \<and> (\<forall>x\<in>set xs. \<forall>y\<in>set ys. fst x < fst y)"
  by (auto simp: sorted_keys_def sorted_wrt_append)

lemma put_append:
  assumes "sorted_keys (xs @ x # ys)"
  shows "put e (xs @ x # ys) =
    (if fst e < fst x then put e xs @ x # ys else if fst e = fst x then xs @ e # ys else xs @ x # put e ys)"
  using assms by (induction xs) auto

lemma put_front: "put e (x # ys) = (if fst e < fst x then put e [] @ x # ys else if fst e = fst x then e # ys else x # put e ys)"
  by simp

lemma set_put: "set (put e xs) \<subseteq> insert e (set xs)"
  by (induction xs) auto

lemma sorted_put: "sorted_keys xs \<Longrightarrow> sorted_keys (put e xs)"
proof (induction xs)
  case (Cons x xs)
  then show ?case
    using subsetD [OF set_put, of _ e xs] by (auto simp: not_less le_less)
qed simp

lemma map_of_put: "sorted_keys xs \<Longrightarrow> map_of (put e xs) = (map_of xs)(fst e \<mapsto> snd e)"
  by (induction xs) (auto simp: fun_eq_iff)

lemma sorted_drop_key: "sorted_keys xs \<Longrightarrow> sorted_keys (drop_key k xs)"
  by (induction xs) (auto simp: drop_key_def)

lemma map_of_drop_key: "map_of (drop_key k xs) = (map_of xs)(k := None)"
  by (induction xs) (auto simp: drop_key_def fun_eq_iff)

lemma drop_key_id: "\<forall>x\<in>set xs. fst x \<noteq> k \<Longrightarrow> drop_key k xs = xs"
  by (simp add: drop_key_def)

lemma drop_key_append:
  assumes "sorted_keys (xs @ x # ys)"
  shows "drop_key k (xs @ x # ys) =
    (if k < fst x then drop_key k xs @ x # ys else if k = fst x then xs @ ys else xs @ x # drop_key k ys)"
proof -
  have "drop_key k ys = ys" if "k < fst x \<or> k = fst x"
    using assms that by (auto intro!: drop_key_id)
  moreover have "drop_key k xs = xs" if "fst x < k \<or> k = fst x"
    using assms that by (auto intro!: drop_key_id)
  ultimately show ?thesis
    by (cases k "fst x" rule: linorder_cases) (auto simp: drop_key_def)
qed

lemma key_compare_iff [simp]:
  "key_compare a b < 0 \<longleftrightarrow> a < b" "key_compare a b = 0 \<longleftrightarrow> a = b"
  by (auto simp: key_compare_def)

subsection \<open>Insertion\<close>

definition grown :: "nat \<Rightarrow> ('k, 'v) Tree23Node \<Rightarrow> bool" where
  "grown h t \<longleftrightarrow> full h t \<or> (\<exists>e l r. t = Tree23Node TREE23_INSERT_ACTIVE (Some e) None l NULL r \<and> full h l \<and> full h r)"

lemma grown_cases [consumes 1, case_names same up]:
  assumes "grown h t"
  obtains "full h t" | e l r where "t = Tree23Node (- 2) (Some e) None l NULL r" "full h l" "full h r"
  using assms by (auto simp: grown_def)

lemma not_active: "full h (Tree23Node ty a b l m r) \<Longrightarrow> ty = 2 \<or> ty = 3"
  by (cases h) auto

lemma add_fix:
  assumes "grown h t'" "full h l" "full h m" "full h r"
  shows "\<exists>n. addLeft2 (Tree23Node 2 (Some a) None t' NULL r) = Some n \<and> grown (Suc h) n \<and> elems n = elems t' @ a # elems r"
    "\<exists>n. addRight2 (Tree23Node 2 (Some a) None l NULL t') = Some n \<and> grown (Suc h) n \<and> elems n = elems l @ a # elems t'"
    "\<exists>n. addLeft3 (Tree23Node 3 (Some a) (Some b) t' m r) = Some n \<and> grown (Suc h) n \<and>
       elems n = elems t' @ a # elems m @ b # elems r"
    "\<exists>n. addMidle3 (Tree23Node 3 (Some a) (Some b) l t' r) = Some n \<and> grown (Suc h) n \<and>
       elems n = elems l @ a # elems t' @ b # elems r"
    "\<exists>n. addRight3 (Tree23Node 3 (Some a) (Some b) l m t') = Some n \<and> grown (Suc h) n \<and>
       elems n = elems l @ a # elems m @ b # elems t'"
  using assms by (cases rule: grown_cases; auto simp: grown_def split: Tree23Node.split dest: not_active)+

lemma add_node_spec:
  "full h t \<Longrightarrow> sorted_keys (elems t) \<Longrightarrow>
   \<exists>t'. add_node t e = Some t' \<and> grown h t' \<and> elems t' = put e (elems t)"
proof (induction h arbitrary: t)
  case 0
  then show ?case by (simp add: grown_def)
next
  case (Suc h)
  have IH: "\<exists>t'. add_node t e = Some t' \<and> grown h t' \<and> elems t' = put e (elems t)"
    if "full h t" "sorted_keys (elems t)" for t
    using that by (rule Suc.IH)
  from Suc.prems(1) show ?case
  proof (cases rule: full_Suc_cases)
    case (bi a l r)
    have s: "sorted_keys (elems l @ a # elems r)"
      using bi Suc.prems(2) by simp
    obtain l' r' where "add_node l e = Some l'" "grown h l'" "elems l' = put e (elems l)"
      "add_node r e = Some r'" "grown h r'" "elems r' = put e (elems r)"
      using IH [OF bi(2)] IH [OF bi(3)] s by auto
    then show ?thesis
      using bi add_fix(1) [of h l' l l r a] add_fix(2) [of h r' l l r a] put_append [OF s, of e]
      by (cases "fst e" "fst a" rule: linorder_cases) (auto simp: grown_def)
  next
    case (tri a b l m r)
    have s: "sorted_keys (elems l @ a # elems m @ b # elems r)" "sorted_keys (elems m @ b # elems r)"
      using tri Suc.prems(2) by simp_all
    obtain l' m' r' where "add_node l e = Some l'" "grown h l'" "elems l' = put e (elems l)"
      "add_node m e = Some m'" "grown h m'" "elems m' = put e (elems m)"
      "add_node r e = Some r'" "grown h r'" "elems r' = put e (elems r)"
      using IH [OF tri(2)] IH [OF tri(3)] IH [OF tri(4)] s by auto
    then show ?thesis
      using tri s(1) add_fix(3) [of h l' l m r a b] add_fix(4) [of h m' l m r a b] add_fix(5) [of h r' l m r a b]
        put_append [OF s(1), of e] put_append [OF s(2), of e]
      by (cases "fst e" "fst a" rule: linorder_cases; cases "fst e" "fst b" rule: linorder_cases)
         (auto simp: grown_def)
  qed
qed

subsection \<open>Removal\<close>

definition shrunk :: "nat \<Rightarrow> ('k, 'v) Tree23Node \<Rightarrow> bool" where
  "shrunk h t \<longleftrightarrow> full h t \<or> (\<exists>k m. h = Suc k \<and> t = Tree23Node TREE23_DELETE_ACTIVE None None NULL m NULL \<and> full k m)"

lemma shrunk_cases [consumes 1, case_names same down]:
  assumes "shrunk h t"
  obtains "full h t" | k m where "h = Suc k" "t = Tree23Node (- 1) None None NULL m NULL" "full k m"
  using assms by (auto simp: shrunk_def)

lemma remove_fix2:
  assumes "shrunk h t'" "full h s"
  shows "\<exists>n. removeLeft2 (Tree23Node 2 (Some a) None t' NULL s) = Some n \<and> shrunk (Suc h) n \<and> elems n = elems t' @ a # elems s"
    "\<exists>n. removeRight2 (Tree23Node 2 (Some a) None s NULL t') = Some n \<and> shrunk (Suc h) n \<and> elems n = elems s @ a # elems t'"
  using assms
  by (cases rule: shrunk_cases; cases s; auto simp: shrunk_def split: Tree23Node.split dest: not_active)+

lemma remove_fix3:
  assumes "shrunk h t'" "full h x" "full h y"
  shows "\<exists>n. removeLeft3 (Tree23Node 3 (Some a) (Some b) t' x y) = Some n \<and> shrunk (Suc h) n \<and>
      elems n = elems t' @ a # elems x @ b # elems y"
    "\<exists>n. removeMidle3 (Tree23Node 3 (Some a) (Some b) x t' y) = Some n \<and> shrunk (Suc h) n \<and>
      elems n = elems x @ a # elems t' @ b # elems y"
    "\<exists>n. removeRight3 (Tree23Node 3 (Some a) (Some b) x y t') = Some n \<and> shrunk (Suc h) n \<and>
      elems n = elems x @ a # elems y @ b # elems t'"
  using assms
  by (cases rule: shrunk_cases; cases x; cases y; auto simp: shrunk_def split: Tree23Node.split dest: not_active)+

lemma removeMax_spec:
  "full (Suc h) t \<Longrightarrow> \<exists>t' e. removeMax t = Some (t', Some e) \<and> shrunk (Suc h) t' \<and> elems t = elems t' @ [e]"
proof (induction h arbitrary: t)
  case 0
  then show ?case by (cases rule: full_Suc_cases) (auto simp: shrunk_def)
next
  case (Suc h)
  from Suc.prems show ?case
  proof (cases rule: full_Suc_cases)
    case (bi a l r)
    obtain r' e where "removeMax r = Some (r', Some e)" "shrunk (Suc h) r'" "elems r = elems r' @ [e]"
      using Suc.IH [OF bi(3)] by auto
    then show ?thesis
      using bi remove_fix2(2) [of "Suc h" r' l a] by auto
  next
    case (tri a b l m r)
    obtain r' e where "removeMax r = Some (r', Some e)" "shrunk (Suc h) r'" "elems r = elems r' @ [e]"
      using Suc.IH [OF tri(4)] by auto
    then show ?thesis
      using tri remove_fix3(3) [of "Suc h" r' l m a b] by auto
  qed
qed

lemma remove_max_or_NULL:
  assumes "full h t"
  obtains "t = NULL" "h = 0"
    | t' e where "t \<noteq> NULL" "removeMax t = Some (t', Some e)" "shrunk h t'" "elems t = elems t' @ [e]"
  using assms removeMax_spec by (cases h) fastforce+

lemma remove_node_spec:
  fixes t :: "('k :: linorder, 'v) Tree23Node"
  shows "full h t \<Longrightarrow> sorted_keys (elems t) \<Longrightarrow>
   \<exists>t'. remove_node t k = Some t' \<and> shrunk h t' \<and> elems t' = drop_key k (elems t)"
proof (induction h arbitrary: t)
  case 0
  then show ?case by (simp add: shrunk_def drop_key_def)
next
  case (Suc h)
  have IH: "\<exists>t'. remove_node t k = Some t' \<and> shrunk h t' \<and> elems t' = drop_key k (elems t)"
    if "full h t" "sorted_keys (elems t)" for t :: "('k, 'v) Tree23Node"
    using that by (rule Suc.IH)
  from Suc.prems(1) show ?case
  proof (cases rule: full_Suc_cases)
    case (bi a l r)
    have s: "sorted_keys (elems l @ a # elems r)"
      using bi Suc.prems(2) by simp
    obtain l' r' where c: "remove_node l k = Some l'" "shrunk h l'" "elems l' = drop_key k (elems l)"
      "remove_node r k = Some r'" "shrunk h r'" "elems r' = drop_key k (elems r)"
      using IH [OF bi(2)] IH [OF bi(3)] s by auto
    show ?thesis
    proof (cases "k = fst a")
      case False
      then show ?thesis
        using c bi remove_fix2(1) [of h l' r a] remove_fix2(2) [of h r' l a] drop_key_append [OF s, of k]
        by (cases k "fst a" rule: linorder_cases) auto
    next
      case True
      from bi(2) show ?thesis
        by (cases rule: remove_max_or_NULL)
           (use True bi drop_key_append [OF s, of k] remove_fix2(1) [of h _ r] in \<open>auto simp: shrunk_def\<close>)
    qed
  next
    case (tri a b l m r)
    have s: "sorted_keys (elems l @ a # elems m @ b # elems r)" "sorted_keys (elems m @ b # elems r)"
      and ab: "fst a < fst b"
      using tri Suc.prems(2) by simp_all
    obtain l' m' r' where c: "remove_node l k = Some l'" "shrunk h l'" "elems l' = drop_key k (elems l)"
      "remove_node m k = Some m'" "shrunk h m'" "elems m' = drop_key k (elems m)"
      "remove_node r k = Some r'" "shrunk h r'" "elems r' = drop_key k (elems r)"
      using IH [OF tri(2)] IH [OF tri(3)] IH [OF tri(4)] s by auto
    consider "k \<noteq> fst a" "k \<noteq> fst b" | "k = fst a" | "k = fst b" by blast
    then show ?thesis
    proof cases
      case 1
      then show ?thesis
        using c tri ab remove_fix3(1) [of h l' m r a b] remove_fix3(2) [of h m' l r a b] remove_fix3(3) [of h r' l m a b]
          drop_key_append [OF s(1), of k] drop_key_append [OF s(2), of k]
        by (cases k "fst a" rule: linorder_cases; cases k "fst b" rule: linorder_cases) auto
    next
      case 2
      from tri(2) show ?thesis
        by (cases rule: remove_max_or_NULL)
           (use 2 tri drop_key_append [OF s(1), of k] remove_fix3(1) [of h _ m r] in \<open>auto simp: shrunk_def\<close>)
    next
      case 3
      from tri(3) show ?thesis
        by (cases rule: remove_max_or_NULL)
           (use 3 ab tri drop_key_append [OF s(1), of k] drop_key_append [OF s(2), of k] remove_fix3(2) [of h _ l r] in
             \<open>auto simp: shrunk_def\<close>)
    qed
  qed
qed


subsection \<open>Lookup\<close>

lemma map_of_middle:
  assumes "sorted_keys (xs @ x # ys)"
  shows "map_of (xs @ x # ys) key =
    (if key < fst x then map_of xs key else if key = fst x then Some (snd x) else map_of ys key)"
proof -
  have xs: "map_of xs key = None" if "fst x \<le> key"
    using assms that by (auto simp: map_of_eq_None_iff)
  have ys: "map_of ys key = None" if "key \<le> fst x"
    using assms that by (auto simp: map_of_eq_None_iff)
  show ?thesis
    using xs ys by (cases key "fst x" rule: linorder_cases; cases x) (auto simp: map_add_def split: option.splits)
qed

lemma lookup_spec:
  "full h t \<Longrightarrow> sorted_keys (elems t) \<Longrightarrow>
   Tree23_getVal t key = Some (map_of (elems t) key) \<and> Tree23_find t key = Some (map_of (elems t) key \<noteq> None)"
proof (induction h arbitrary: t)
  case (Suc h)
  from Suc.prems(1) show ?case
  proof (cases rule: full_Suc_cases)
    case (bi a l r)
    have "sorted_keys (elems l @ a # elems r)"
      using bi Suc.prems(2) by simp
    from map_of_middle [OF this, of key] bi show ?thesis
      using Suc.IH [of l] Suc.IH [of r] Suc.prems(2) by simp
  next
    case (tri a b l m r)
    have "sorted_keys (elems l @ a # elems m @ b # elems r)" "sorted_keys (elems m @ b # elems r)"
      using tri Suc.prems(2) by simp_all
    from map_of_middle [OF this(1), of key] map_of_middle [OF this(2), of key] tri show ?thesis
      using Suc.IH [of l] Suc.IH [of m] Suc.IH [of r] Suc.prems(2) by simp
  qed
qed simp

subsection \<open>The tree as a finite map\<close>

text \<open>A map with operations that may fail, as their client sees it: under the invariant they do not fail, keep it, and do to
  the abstract map what they promise. What follows for a sequence of operations is proved from these laws.\<close>

datatype ('k, 'v) map_op = Add 'k 'v | Remove 'k

fun run_ops :: "('t \<Rightarrow> 'k \<Rightarrow> 'v \<Rightarrow> 't option) \<Rightarrow> ('t \<Rightarrow> 'k \<Rightarrow> 't option) \<Rightarrow> 't \<Rightarrow> ('k, 'v) map_op list \<Rightarrow> 't option" where
  "run_ops add remove t [] = Some t"
| "run_ops add remove t (Add k v # xs) = do { t \<leftarrow> add t k v; run_ops add remove t xs }"
| "run_ops add remove t (Remove k # xs) = do { t \<leftarrow> remove t k; run_ops add remove t xs }"

fun abs_ops :: "('k \<rightharpoonup> 'v) \<Rightarrow> ('k, 'v) map_op list \<Rightarrow> ('k \<rightharpoonup> 'v)" where
  "abs_ops m [] = m"
| "abs_ops m (Add k v # xs) = abs_ops (m(k \<mapsto> v)) xs"
| "abs_ops m (Remove k # xs) = abs_ops (m(k := None)) xs"

locale fallible_map =
  fixes empty_map :: 't
    and add :: "'t \<Rightarrow> 'k \<Rightarrow> 'v \<Rightarrow> 't option"
    and remove :: "'t \<Rightarrow> 'k \<Rightarrow> 't option"
    and getVal :: "'t \<Rightarrow> 'k \<Rightarrow> 'v option option"
    and inv :: "'t \<Rightarrow> bool"
    and abs_map :: "'t \<Rightarrow> 'k \<rightharpoonup> 'v"
  assumes empty_inv: "inv empty_map" and empty_abs: "abs_map empty_map = Map.empty"
    and add_ok: "inv t \<Longrightarrow> \<exists>t'. add t k v = Some t' \<and> inv t' \<and> abs_map t' = (abs_map t)(k \<mapsto> v)"
    and remove_ok: "inv t \<Longrightarrow> \<exists>t'. remove t k = Some t' \<and> inv t' \<and> abs_map t' = (abs_map t)(k := None)"
    and getVal_ok: "inv t \<Longrightarrow> getVal t k = Some (abs_map t k)"
begin

lemma run_ok: "inv t \<Longrightarrow> \<exists>t'. run_ops add remove t xs = Some t' \<and> inv t' \<and> abs_map t' = abs_ops (abs_map t) xs"
proof (induction "abs_map t" xs arbitrary: t rule: abs_ops.induct)
  case (2 k v xs)
  obtain t' where "add t k v = Some t'" "inv t'" "abs_map t' = (abs_map t)(k \<mapsto> v)"
    using add_ok [OF 2(2)] by blast
  then show ?case
    using 2(1) [of t'] by simp
next
  case (3 k xs)
  obtain t' where "remove t k = Some t'" "inv t'" "abs_map t' = (abs_map t)(k := None)"
    using remove_ok [OF 3(2)] by blast
  then show ?case
    using 3(1) [of t'] by simp
qed simp

lemma run_from_empty:
  "\<exists>t. run_ops add remove empty_map xs = Some t \<and> inv t \<and> abs_map t = abs_ops Map.empty xs"
  using run_ok [OF empty_inv, of xs] by (simp add: empty_abs)

end

lemma Tree23_add_spec:
  assumes "tree_inv t"
  shows "\<exists>t'. Tree23_add t k v = Some t' \<and> tree_inv t' \<and> tree_map t' = (tree_map t)(k \<mapsto> v)"
proof -
  obtain h where h: "full h t" "sorted_keys (elems t)"
    using assms by (auto simp: tree_inv_def)
  obtain t' where t': "add_node t (k, v) = Some t'" "grown h t'" "elems t' = put (k, v) (elems t)"
    using add_node_spec [OF h] by blast
  have e: "sorted_keys (elems t')" "map_of (elems t') = (map_of (elems t))(k \<mapsto> v)"
    using t'(3) sorted_put [OF h(2), of "(k, v)"] map_of_put [OF h(2), of "(k, v)"] by simp_all
  have nn: "elems t' \<noteq> []"
    using t'(3) by (cases "elems t") auto
  from t'(2) show ?thesis
  proof (cases rule: grown_cases)
    case same
    with nn t'(1) obtain ty a b l m r where n: "t' = Tree23Node ty a b l m r" by (cases t') auto
    then have "\<bar>ty\<bar> = ty" using same not_active by fastforce
    then show ?thesis
      using n same t'(1) e by (auto simp: Tree23_add_def tree_inv_def tree_map_def)
  next
    case (up a l r)
    then have "full (Suc h) (Tree23Node 2 (Some a) None l NULL r)" by simp
    then show ?thesis
      using up t'(1) e unfolding Tree23_add_def tree_inv_def tree_map_def by fastforce
  qed
qed

lemma Tree23_remove_spec:
  assumes "tree_inv t"
  shows "\<exists>t'. Tree23_remove t k = Some t' \<and> tree_inv t' \<and> tree_map t' = (tree_map t)(k := None)"
proof -
  obtain h where h: "full h t" "sorted_keys (elems t)"
    using assms by (auto simp: tree_inv_def)
  obtain t' where t': "remove_node t k = Some t'" "shrunk h t'" "elems t' = drop_key k (elems t)"
    using remove_node_spec [OF h] by blast
  have e: "sorted_keys (elems t')" "map_of (elems t') = (map_of (elems t))(k := None)"
    using t'(3) sorted_drop_key [OF h(2), of k] map_of_drop_key [of k "elems t"] by simp_all
  from t'(2) show ?thesis
  proof (cases rule: shrunk_cases)
    case same
    then show ?thesis
      using t'(1) e not_active [of h]
      by (cases t') (fastforce simp: Tree23_remove_def tree_inv_def tree_map_def)+
  next
    case (down j m)
    then show ?thesis
      using t'(1) e by (auto simp: Tree23_remove_def tree_inv_def tree_map_def)
  qed
qed

lemma tree_inv_NULL: "tree_inv NULL" and tree_map_NULL: "tree_map NULL = Map.empty"
  by (simp_all add: tree_inv_def tree_map_def)

lemma Tree23_lookup_spec:
  assumes "tree_inv t"
  shows "Tree23_getVal t k = Some (tree_map t k)" "Tree23_find t k = Some (tree_map t k \<noteq> None)"
  using assms lookup_spec [of _ t k] by (auto simp: tree_inv_def tree_map_def)

interpretation tree23: fallible_map NULL Tree23_add Tree23_remove Tree23_getVal tree_inv tree_map
  by unfold_locales
     (simp_all add: tree_inv_NULL tree_map_NULL Tree23_add_spec Tree23_remove_spec Tree23_lookup_spec)

subsection \<open>Properties\<close>

lemma full_size: "full h t \<Longrightarrow> 2 ^ h \<le> Suc (length (elems t))"
proof (induction h arbitrary: t)
  case (Suc h)
  from Suc.prems show ?case
  proof (cases rule: full_Suc_cases)
    case (bi a l r)
    then show ?thesis using Suc.IH [of l] Suc.IH [of r] by simp
  next
    case (tri a b l m r)
    then show ?thesis using Suc.IH [of l] Suc.IH [of r] by simp
  qed
qed simp

text \<open>C39: The 2-3 tree of the gateway refines a finite map. Whatever sequence of \<open>add\<close> and \<open>remove\<close> is run on an empty tree, no call
  dereferences a null pointer, the tree is balanced and sorted afterwards, its height is at most the binary logarithm of its size (plus
  one element), and \<open>getVal\<close> and \<open>find\<close> end and answer for every key as the map does on which the same updates and removals were made.\<close>

theorem tree23_refines_map:
  "\<exists>t h. run_ops Tree23_add Tree23_remove NULL ops = Some t \<and> full h t \<and> sorted_keys (elems t) \<and>
     2 ^ h \<le> Suc (length (elems t)) \<and>
     (\<forall>key. Tree23_getVal t key = Some (abs_ops Map.empty ops key) \<and>
            Tree23_find t key = Some (abs_ops Map.empty ops key \<noteq> None))"
proof -
  obtain t where t: "run_ops Tree23_add Tree23_remove NULL ops = Some t" "tree_inv t" "tree_map t = abs_ops Map.empty ops"
    using tree23.run_from_empty by blast
  then obtain h where "full h t" "sorted_keys (elems t)"
    by (auto simp: tree_inv_def)
  then show ?thesis
    using t Tree23_lookup_spec [OF t(2)] full_size [of h t] by auto
qed

end
