(* ===== verification/MQTTSNGW_Topic.thy ===== *)
theory MQTTSNGW_Topic
  imports MQTTSN_Packet MQTT_Topic
begin

text \<open>
  The topics of the gateway, \<^verbatim>\<open>MQTTSNGWTopic.cpp\<close>: the table that gives a client's topic names their topic
  identifiers (\<open>Topics\<close>), the matching of a name against a registered filter (\<open>Topic::isMatch\<close>), and the map from message
  identifiers to topic identifiers of messages that wait for an acknowledgement (\<open>TopicIdMap\<close>). The linked lists are the
  lists of their elements in order; the theory \<open>MQTTSNGW_Linked\<close> relates them to the pointers. Memory
  allocation succeeds. A \<open>std::string\<close> is the list of its bytes.
\<close>

abbreviation MAX_TOPIC_PAR_CLIENT :: byte where "MAX_TOPIC_PAR_CLIENT \<equiv> 50"
abbreviation MAX_INFLIGHTMESSAGES :: int where "MAX_INFLIGHTMESSAGES \<equiv> 10"

subsection \<open>Topic\<close>

record Topic =
  tp_type :: MQTTSN_topicTypes
  tp_topicId :: u16
  tp_topicName :: "byte list"

text \<open>\<open>string::find\<close> of a character from a position on, and \<open>string::substr\<close>, which throws when the position is behind the
  end.\<close>

fun find_ch :: "byte list \<Rightarrow> byte \<Rightarrow> nat \<Rightarrow> nat option" where
  "find_ch [] c pos = None"
| "find_ch (x # xs) c 0 = (if x = c then Some 0 else map_option Suc (find_ch xs c 0))"
| "find_ch (x # xs) c (Suc pos) = map_option Suc (find_ch xs c pos)"

definition substr :: "byte list \<Rightarrow> nat \<Rightarrow> nat \<Rightarrow> byte list option" where
  "substr s pos n = (if pos \<le> length s then Some (take n (drop pos s)) else None)"

definition substr_from :: "byte list \<Rightarrow> nat \<Rightarrow> byte list option" where
  "substr_from s pos = (if pos \<le> length s then Some (drop pos s) else None)"

lemma find_ch_bounds: "find_ch s c pos = Some loc \<Longrightarrow> pos \<le> loc \<and> loc < length s"
  by (induction s c pos arbitrary: loc rule: find_ch.induct) (auto split: if_splits)

text \<open>The loop of \<open>isMatch\<close>: \<open>_topicName\<close> is the filter, \<open>tpos\<close> and \<open>pos\<close> the two positions.\<close>

function isMatch_loop :: "byte list \<Rightarrow> byte list \<Rightarrow> nat \<Rightarrow> nat \<Rightarrow> bool option" where
  "isMatch_loop tname name tpos pos =
     (let tlen = length tname; wildcard = [ch_hash]; wildcards = [ch_plus]
      in case (find_ch name ch_slash pos, find_ch tname ch_slash tpos) of
           (Some loc, Some tloc) \<Rightarrow> do {
             subtopic \<leftarrow> substr name pos (loc - pos);
             subtopict \<leftarrow> substr tname tpos (tloc - tpos);
             if subtopict = wildcard then Some True
             else if subtopict = wildcards
             then if tloc + 1 > tlen then Some (find_ch name ch_slash (loc + 1) = None)
                  else isMatch_loop tname name (tloc + 1) (loc + 1)
             else if subtopic \<noteq> subtopict then Some False
             else if tloc + 1 > tlen then Some False
             else isMatch_loop tname name (tloc + 1) (loc + 1) }
         | (None, None) \<Rightarrow> do {
             subtopic \<leftarrow> substr_from name pos;
             subtopict \<leftarrow> substr_from tname tpos;
             Some (if subtopict = wildcard \<or> subtopict = wildcards then True
                   else if subtopic = subtopict then True else False) }
         | (None, Some tloc) \<Rightarrow> do {
             subtopic \<leftarrow> substr_from name pos;
             subtopict \<leftarrow> substr tname tpos (tloc - tpos);
             if subtopic \<noteq> subtopict then Some False
             else do { rest \<leftarrow> substr_from tname (tloc + 1); Some (rest = wildcard) } }
         | (Some loc, None) \<Rightarrow> do {
             rest \<leftarrow> substr_from tname tpos;
             Some (rest = wildcard) })"
  by pat_completeness auto
termination
  by (relation "measure (\<lambda>(tname, name, tpos, pos). length name - pos)") (auto dest!: find_ch_bounds [OF sym])

declare isMatch_loop.simps [simp del]

definition isMatch :: "Topic \<Rightarrow> byte list \<Rightarrow> bool option" where
  "isMatch topic topicName = isMatch_loop (tp_topicName topic) topicName 0 0"

subsection \<open>Topics\<close>

record Topics =
  ts_topics :: "Topic list"
  ts_nextTopicId :: u16
  ts_cnt :: byte

definition Topics_init :: Topics where
  "Topics_init = \<lparr>ts_topics = [], ts_nextTopicId = 0, ts_cnt = 0\<rparr>"

text \<open>\<open>string(name, len)\<close> from a pointer, and the prefix of a string that its \<open>c_str\<close> denotes as a C string.\<close>

definition string_of :: "cptr \<Rightarrow> int \<Rightarrow> byte list option" where
  "string_of name len = (if cptr_holds name len then Some (cptr_bytes name len) else None)"

definition c_str :: "byte list \<Rightarrow> byte list" where
  "c_str = takeWhile (\<lambda>b. b \<noteq> 0)"

definition find_name :: "Topics \<Rightarrow> byte list \<Rightarrow> Topic option" where
  "find_name ts sname = find (\<lambda>p. tp_topicName p = sname) (ts_topics ts)"

definition getTopicByName :: "Topics \<Rightarrow> MQTTSN_topicid \<Rightarrow> Topic option option" where
  "getTopicByName ts topicid = do {
     (ch, len) \<leftarrow> data_long (topic_data topicid);
     sname \<leftarrow> string_of ch len;
     Some (find_name ts sname) }"

text \<open>\<open>data.id\<close> of the union. When it holds a long name, the two bytes are those of an address, whatever \<open>addr\<close>
  they are.\<close>

definition union_id :: "u16 \<Rightarrow> topic_union \<Rightarrow> u16" where
  "union_id addr d = (case data_id d of Some i \<Rightarrow> i | None \<Rightarrow> addr)"

definition getTopicById :: "u16 \<Rightarrow> Topics \<Rightarrow> MQTTSN_topicid \<Rightarrow> Topic option" where
  "getTopicById addr ts topicid =
     find (\<lambda>p. tp_type p = topic_type topicid \<and> tp_topicId p = union_id addr (topic_data topicid)) (ts_topics ts)"

definition getNextTopicId :: "Topics \<Rightarrow> u16 \<times> Topics" where
  "getNextTopicId ts =
     (let n = ts_nextTopicId ts + 1;
          n = (if n = 0xffff then n + 2 else n)
      in (n, ts\<lparr>ts_nextTopicId := n\<rparr>))"

text \<open>\<open>add\<close> of a name with an identifier; identifier 0 asks for the next free one.\<close>

definition Topics_add_name :: "Topics \<Rightarrow> byte list \<Rightarrow> u16 \<Rightarrow> Topic option \<times> Topics" where
  "Topics_add_name ts topicName i =
     (if ts_cnt ts \<ge> MAX_TOPIC_PAR_CLIENT then (None, ts)
      else case find_name ts topicName of
        Some topic \<Rightarrow> (Some topic, ts)
      | None \<Rightarrow>
          let (topic, ts) =
                (if i = 0
                 then let (n, ts) = getNextTopicId ts
                      in (\<lparr>tp_type = MQTTSN_TOPIC_TYPE_NORMAL, tp_topicId = n, tp_topicName = topicName\<rparr>, ts)
                 else (\<lparr>tp_type = MQTTSN_TOPIC_TYPE_PREDEFINED, tp_topicId = i, tp_topicName = topicName\<rparr>, ts))
          in (Some topic, ts\<lparr>ts_topics := ts_topics ts @ [topic], ts_cnt := ts_cnt ts + 1\<rparr>))"

definition Topics_add :: "Topics \<Rightarrow> MQTTSN_topicid \<Rightarrow> (Topic option \<times> Topics) option" where
  "Topics_add ts topicid =
     (if topic_type topicid \<noteq> MQTTSN_TOPIC_TYPE_NORMAL then Some (None, ts)
      else do {
        topic \<leftarrow> getTopicByName ts topicid;
        (case topic of
           Some topic \<Rightarrow> Some (Some topic, ts)
         | None \<Rightarrow> do {
             (ch, len) \<leftarrow> data_long (topic_data topicid);
             name \<leftarrow> string_of ch len;
             Some (Topics_add_name ts (c_str name) 0) }) })"

fun match_loop :: "Topic list \<Rightarrow> byte list \<Rightarrow> Topic option option" where
  "match_loop [] topicName = Some None"
| "match_loop (topic # topics) topicName = do {
     m \<leftarrow> isMatch topic topicName;
     if m then Some (Some topic) else match_loop topics topicName }"

definition Topics_match :: "Topics \<Rightarrow> MQTTSN_topicid \<Rightarrow> Topic option option" where
  "Topics_match ts topicid =
     (if topic_type topicid \<noteq> MQTTSN_TOPIC_TYPE_NORMAL then Some None
      else do {
        (ch, len) \<leftarrow> data_long (topic_data topicid);
        topicName \<leftarrow> string_of ch len;
        match_loop (ts_topics ts) topicName })"

fun eraseNormal_loop :: "Topic list \<Rightarrow> byte \<Rightarrow> Topic list \<times> byte" where
  "eraseNormal_loop [] cnt = ([], cnt)"
| "eraseNormal_loop (topic # topics) cnt =
     (if tp_type topic = MQTTSN_TOPIC_TYPE_NORMAL then eraseNormal_loop topics (cnt - 1)
      else let (kept, cnt) = eraseNormal_loop topics cnt in (topic # kept, cnt))"

definition eraseNormal :: "Topics \<Rightarrow> Topics" where
  "eraseNormal ts =
     (let (kept, cnt) = eraseNormal_loop (ts_topics ts) (ts_cnt ts) in ts\<lparr>ts_topics := kept, ts_cnt := cnt\<rparr>)"

subsection \<open>TopicIdMap\<close>

record TopicIdMapElement =
  tm_msgId :: u16
  tm_topicId :: u16
  tm_type :: MQTTSN_topicTypes

record TopicIdMap =
  tm_elements :: "TopicIdMapElement list"
  tm_cnt :: int
  tm_maxInflight :: int

definition TopicIdMap_init :: TopicIdMap where
  "TopicIdMap_init = \<lparr>tm_elements = [], tm_cnt = 0, tm_maxInflight = MAX_INFLIGHTMESSAGES\<rparr>"

definition getElement :: "TopicIdMap \<Rightarrow> u16 \<Rightarrow> TopicIdMapElement option" where
  "getElement m msgId = find (\<lambda>p. tm_msgId p = msgId) (tm_elements m)"

text \<open>The first element with the property is removed.\<close>

fun remove_first :: "('a \<Rightarrow> bool) \<Rightarrow> 'a list \<Rightarrow> 'a list" where
  "remove_first P [] = []"
| "remove_first P (x # xs) = (if P x then xs else x # remove_first P xs)"

definition TopicIdMap_erase :: "TopicIdMap \<Rightarrow> u16 \<Rightarrow> TopicIdMap" where
  "TopicIdMap_erase m msgId =
     m\<lparr>tm_elements := remove_first (\<lambda>p. tm_msgId p = msgId) (tm_elements m), tm_cnt := tm_cnt m - 1\<rparr>"

definition TopicIdMap_add :: "TopicIdMap \<Rightarrow> u16 \<Rightarrow> u16 \<Rightarrow> MQTTSN_topicTypes \<Rightarrow> TopicIdMapElement option \<times> TopicIdMap" where
  "TopicIdMap_add m msgId topicId type =
     (if tm_cnt m > tm_maxInflight m * 2 \<or> topicId = 0 \<and> type \<noteq> MQTTSN_TOPIC_TYPE_SHORT then (None, m)
      else let m = (if getElement m msgId \<noteq> None then TopicIdMap_erase m msgId else m);
               elm = \<lparr>tm_msgId = msgId, tm_topicId = topicId, tm_type = type\<rparr>
           in (Some elm, m\<lparr>tm_elements := tm_elements m @ [elm], tm_cnt := tm_cnt m + 1\<rparr>))"

definition TopicIdMap_clear :: "TopicIdMap \<Rightarrow> TopicIdMap" where
  "TopicIdMap_clear m = m\<lparr>tm_elements := [], tm_cnt := 0\<rparr>"


subsection \<open>Matching by levels\<close>

lemma join_Cons2: "ls \<noteq> [] \<Longrightarrow> join (l # ls) = l @ ch_slash # join ls"
  by (cases ls) auto

lemma find_ch_append:
  "c \<notin> set xs \<Longrightarrow> find_ch (xs @ ys) c 0 = (case find_ch ys c 0 of None \<Rightarrow> None | Some i \<Rightarrow> Some (length xs + i))"
  by (induction xs) (auto split: option.splits)

lemma find_ch_none: "c \<notin> set xs \<Longrightarrow> find_ch xs c 0 = None"
  using find_ch_append [of c xs "[]"] by simp

lemma find_ch_from:
  "pos \<le> length s \<Longrightarrow> find_ch s c pos = (case find_ch (drop pos s) c 0 of None \<Rightarrow> None | Some i \<Rightarrow> Some (pos + i))"
proof (induction s arbitrary: pos)
  case (Cons x s)
  then show ?case
    by (cases pos) (auto split: option.splits)
qed simp

text \<open>The position in a string and the levels that are still ahead.\<close>

definition at_levels :: "byte list \<Rightarrow> nat \<Rightarrow> byte list list \<Rightarrow> bool" where
  "at_levels s pos ls \<longleftrightarrow> pos \<le> length s \<and> drop pos s = join ls \<and> ls \<noteq> [] \<and> (\<forall>l\<in>set ls. ch_slash \<notin> set l)"

lemma at_levels_last:
  assumes "at_levels s pos [l]"
  shows "find_ch s ch_slash pos = None" "substr_from s pos = Some l"
  using assms find_ch_from [of pos s ch_slash] by (auto simp: at_levels_def find_ch_none substr_from_def)

lemma at_levels_more:
  assumes "at_levels s pos (l # l' # ls)"
  shows "find_ch s ch_slash pos = Some (pos + length l)" "substr s pos (length l) = Some l"
    "at_levels s (pos + length l + 1) (l' # ls)" "substr_from s pos = Some (join (l # l' # ls))"
proof -
  have d: "drop pos s = l @ ch_slash # join (l' # ls)" "pos \<le> length s" "ch_slash \<notin> set l" "\<forall>l\<in>set (l' # ls). ch_slash \<notin> set l"
    using assms by (auto simp: at_levels_def)
  then show "find_ch s ch_slash pos = Some (pos + length l)" "substr s pos (length l) = Some l"
    "substr_from s pos = Some (join (l # l' # ls))"
    using find_ch_from [of pos s ch_slash] by (simp_all add: find_ch_append substr_def substr_from_def)
  have "drop (pos + length l + 1) s = drop (length l + 1) (drop pos s)"
    by (simp add: add.commute)
  moreover have "pos + length (l @ ch_slash # join (l' # ls)) \<le> length s"
    using d(1,2) by (metis length_drop le_add_diff_inverse order_refl)
  ultimately show "at_levels s (pos + length l + 1) (l' # ls)"
    using d by (simp add: at_levels_def)
qed

text \<open>What the loop decides, level by level.\<close>

fun gw_match :: "byte list list \<Rightarrow> byte list list \<Rightarrow> bool" where
  "gw_match (f # f' # fs) (n # n' # ns) \<longleftrightarrow>
     f = [ch_hash] \<or> (f = [ch_plus] \<or> n = f) \<and> gw_match (f' # fs) (n' # ns)"
| "gw_match [f] [n] \<longleftrightarrow> f = [ch_hash] \<or> f = [ch_plus] \<or> n = f"
| "gw_match (f # f' # fs) [n] \<longleftrightarrow> n = f \<and> f' = [ch_hash] \<and> fs = []"
| "gw_match [f] (n # n' # ns) \<longleftrightarrow> f = [ch_hash]"
| "gw_match _ _ \<longleftrightarrow> False"

lemma join_eq_single:
  assumes "\<forall>l\<in>set (f # fs). ch_slash \<notin> set l" "ch_slash \<notin> set w"
  shows "join (f # fs) = w \<longleftrightarrow> f = w \<and> fs = []"
  using assms by (cases fs) auto

lemma isMatch_loop_levels:
  assumes "at_levels tname tpos fs" "at_levels name pos ns"
  shows "isMatch_loop tname name tpos pos = Some (gw_match fs ns)"
  using assms
proof (induction fs ns arbitrary: tpos pos rule: gw_match.induct)
  case (1 f f' fs n n' ns)
  note t = at_levels_more [OF 1(2)] and m = at_levels_more [OF 1(3)]
  have b: "tpos + length f + 1 \<le> length tname"
    using t(3) by (simp add: at_levels_def)
  show ?case
    using 1(1) [OF t(3) m(3)] t m b
    by (subst isMatch_loop.simps) (auto simp: Let_def)
next
  case (2 f n)
  then show ?case
    by (subst isMatch_loop.simps) (auto simp: at_levels_last)
next
  case (3 f f' fs n)
  note t = at_levels_more [OF 3(1)]
  have r: "substr_from tname (tpos + length f + 1) = Some (join (f' # fs))"
    using t(3) by (simp add: at_levels_def substr_from_def)
  have j: "join (f' # fs) = [ch_hash] \<longleftrightarrow> f' = [ch_hash] \<and> fs = []"
    using t(3) by (intro join_eq_single) (auto simp: at_levels_def)
  show ?case
    using t r j at_levels_last [OF 3(2)]
    by (subst isMatch_loop.simps) (simp add: Let_def)
next
  case (4 f n n' ns)
  note m = at_levels_more [OF 4(2)]
  show ?case
    using m at_levels_last [OF 4(1)]
    by (subst isMatch_loop.simps) (simp add: Let_def)
qed (auto simp: at_levels_def)

lemma gw_match_level_match:
  assumes "[ch_hash] \<notin> set (butlast fs)" "fs \<noteq> []" "ns \<noteq> []"
  shows "gw_match fs ns \<longleftrightarrow> level_match fs ns \<and>
    \<not> (length fs = Suc (length ns) \<and> last fs = [ch_hash] \<and> last (butlast fs) = [ch_plus] \<and> last ns \<noteq> [ch_plus])"
  using assms
proof (induction fs ns rule: gw_match.induct)
  case (3 f f' fs n)
  then show ?case
    by (cases fs) auto
next
  case (1 f f' fs n n' ns)
  then show ?case
    by (auto split: if_splits)
qed auto

text \<open>Topic matching in the gateway. \<open>Topic::isMatch\<close> returns for all strings whose levels are separated by \<open>/\<close> (empty levels included), and for a
  filter with \<open>#\<close> only as its last level it decides the matching relation of the specification, with one exception: a filter ending in
  \<open>+/#\<close> does not match a name that ends at the level of the \<open>+\<close>.\<close>

theorem isMatch_levels:
  assumes "\<forall>l\<in>set fs \<union> set ns. ch_slash \<notin> set l" "fs \<noteq> []" "ns \<noteq> []" "[ch_hash] \<notin> set (butlast fs)"
  shows "isMatch \<lparr>tp_type = ty, tp_topicId = i, tp_topicName = join fs\<rparr> (join ns) = Some (level_match fs ns \<and>
    \<not> (length fs = Suc (length ns) \<and> last fs = [ch_hash] \<and> last (butlast fs) = [ch_plus] \<and> last ns \<noteq> [ch_plus]))"
  unfolding isMatch_def
  using isMatch_loop_levels [of "join fs" 0 fs "join ns" 0 ns] assms gw_match_level_match [OF assms(4,2,3)]
  by (simp add: at_levels_def)

theorem isMatch_levels_witness:
  "isMatch \<lparr>tp_type = MQTTSN_TOPIC_TYPE_NORMAL, tp_topicId = 1, tp_topicName = join [[97], [43], [35]]\<rparr> (join [[97], [], [98]]) = Some True"
  using isMatch_levels [of "[[97], [43], [35]]" "[[97], [], [98]]" MQTTSN_TOPIC_TYPE_NORMAL 1] by simp

subsection \<open>Topic identifiers\<close>

text \<open>The identifiers in the order in which the table hands them out: 1 to 65534 over and over.\<close>

definition nth_id :: "nat \<Rightarrow> u16" where
  "nth_id k = of_nat (k mod 65534 + 1)"

lemma unat_of_nat_u16: "n < 65536 \<Longrightarrow> unat (of_nat n :: u16) = n"
  by (simp add: unsigned_of_nat take_bit_nat_eq_self)

lemma unat_of_nat_byte: "n < 256 \<Longrightarrow> unat (of_nat n :: byte) = n"
  by (simp add: unsigned_of_nat take_bit_nat_eq_self)

lemma unat_nth_id: "unat (nth_id k) = k mod 65534 + 1"
proof -
  have "k mod 65534 < 65534" by simp
  then show ?thesis
    unfolding nth_id_def by (intro unat_of_nat_u16) simp
qed

lemma nth_id_range: "nth_id k \<noteq> 0" "nth_id k \<noteq> 0xffff"
proof -
  have "k mod 65534 < 65534" by simp
  then show "nth_id k \<noteq> 0" "nth_id k \<noteq> 0xffff"
    using unat_nth_id [of k] by auto
qed

lemma nth_id_inj:
  assumes "nth_id i = nth_id j" "i \<le> j" "j < i + 65534"
  shows "i = j"
proof -
  have "j mod 65534 = i mod 65534"
    using assms(1) unat_nth_id [of i] unat_nth_id [of j] by simp
  then have "65534 dvd j - i"
    using assms(2) by (simp add: mod_eq_dvd_iff_nat)
  then show ?thesis
    using assms(2,3) by (auto dest: dvd_imp_le)
qed

lemma distinct_nth_ids: "k \<le> 65534 \<Longrightarrow> distinct (map nth_id [n - k..<n])"
proof -
  assume k: "k \<le> 65534"
  have "inj_on nth_id (set [n - k..<n])"
  proof (rule inj_onI)
    fix i j
    assume "i \<in> set [n - k..<n]" "j \<in> set [n - k..<n]" "nth_id i = nth_id j"
    moreover from this have "i < j + 65534" "j < i + 65534"
      using k by auto
    ultimately show "i = j"
      using nth_id_inj [of i j] nth_id_inj [of j i] by (cases "i \<le> j") auto
  qed
  then show ?thesis
    by (simp add: distinct_map)
qed

definition id_before :: "nat \<Rightarrow> u16" where
  "id_before n = (if n = 0 then 0 else nth_id (n - 1))"

lemma next_id: "ts_nextTopicId ts = id_before n \<Longrightarrow> getNextTopicId ts = (nth_id n, ts\<lparr>ts_nextTopicId := nth_id n\<rparr>)"
proof (cases n)
  case 0
  assume "ts_nextTopicId ts = id_before n"
  with 0 show ?thesis by (simp add: getNextTopicId_def id_before_def nth_id_def Let_def)
next
  case (Suc m)
  assume n: "ts_nextTopicId ts = id_before n"
  define r where "r = m mod 65534"
  have r: "r < 65534" and nr: "n mod 65534 = (if r = 65533 then 0 else r + 1)"
    by (simp_all add: r_def Suc mod_Suc)
  have b: "id_before n = of_nat (r + 1)"
    by (simp add: id_before_def Suc nth_id_def r_def)
  show ?thesis
  proof (cases "r = 65533")
    case True
    then show ?thesis
      using n nr by (simp add: getNextTopicId_def b nth_id_def Let_def)
  next
    case False
    then have "unat (of_nat (r + 2) :: u16) = r + 2"
      using r by (intro unat_of_nat_u16) simp
    then have "(of_nat (r + 2) :: u16) \<noteq> 0xffff"
      using r False by (intro notI) (drule arg_cong [where f = unat], simp)
    then have "of_nat r + (2 :: u16) \<noteq> 0xffff"
      by simp
    then show ?thesis
      using n nr False by (simp add: getNextTopicId_def b nth_id_def Let_def)
  qed
qed

definition normal_ids :: "Topic list \<Rightarrow> u16 list" where
  "normal_ids topics = map tp_topicId (filter (\<lambda>t. tp_type t = MQTTSN_TOPIC_TYPE_NORMAL) topics)"

text \<open>The invariant of the table: the count is right and within the limit, no name comes twice, and the identifiers of the normal topics
  are the last ones that were handed out.\<close>

definition topics_ok :: "Topics \<Rightarrow> bool" where
  "topics_ok ts \<longleftrightarrow>
     unat (ts_cnt ts) = length (ts_topics ts) \<and> length (ts_topics ts) \<le> 50 \<and>
     distinct (map tp_topicName (ts_topics ts)) \<and>
     (\<exists>n k. k \<le> n \<and> ts_nextTopicId ts = id_before n \<and> normal_ids (ts_topics ts) = map nth_id [n - k..<n])"

lemma topics_ok_init: "topics_ok Topics_init"
  unfolding topics_ok_def Topics_init_def normal_ids_def by (auto simp: id_before_def intro!: exI [of _ 0])

lemma topics_ok_distinct_ids: "topics_ok ts \<Longrightarrow> distinct (normal_ids (ts_topics ts))"
proof -
  assume ts: "topics_ok ts"
  then obtain n k where k: "k \<le> n" "normal_ids (ts_topics ts) = map nth_id [n - k..<n]"
    by (auto simp: topics_ok_def)
  have "length (normal_ids (ts_topics ts)) \<le> 50"
    using ts length_filter_le [of _ "ts_topics ts"] unfolding topics_ok_def normal_ids_def
    by (metis (no_types, lifting) le_trans length_map)
  then have "k \<le> 65534"
    using k by simp
  then show ?thesis
    using k(2) distinct_nth_ids by simp
qed

lemma topics_ok_ids_nonzero: "topics_ok ts \<Longrightarrow> i \<in> set (normal_ids (ts_topics ts)) \<Longrightarrow> i \<noteq> 0 \<and> i \<noteq> 0xffff"
  using nth_id_range by (auto simp: topics_ok_def)

lemma find_name_None: "find_name ts name = None \<longleftrightarrow> name \<notin> tp_topicName ` set (ts_topics ts)"
  by (auto simp: find_name_def find_None_iff)

lemma find_unique:
  assumes "t \<in> set xs" "P t" "\<And>u. u \<in> set xs \<Longrightarrow> P u \<Longrightarrow> u = t"
  shows "find P xs = Some t"
proof (cases "find P xs")
  case None
  then show ?thesis using assms(1,2) by (auto simp: find_None_iff)
next
  case (Some u)
  then show ?thesis using assms(3) [of u] by (auto simp: find_Some_iff)
qed

lemma find_name_member: "topics_ok ts \<Longrightarrow> t \<in> set (ts_topics ts) \<Longrightarrow> find_name ts (tp_topicName t) = Some t"
  unfolding find_name_def topics_ok_def by (intro find_unique) (auto simp: distinct_map inj_on_def)

lemma getTopicById_member:
  assumes "topics_ok ts" "t \<in> set (ts_topics ts)" "tp_type t = MQTTSN_TOPIC_TYPE_NORMAL"
  shows "getTopicById addr ts \<lparr>topic_type = MQTTSN_TOPIC_TYPE_NORMAL, topic_data = Topic_id (tp_topicId t)\<rparr> = Some t"
  unfolding getTopicById_def
proof (rule find_unique)
  fix u
  let ?d = "\<lparr>topic_type = MQTTSN_TOPIC_TYPE_NORMAL, topic_data = Topic_id (tp_topicId t)\<rparr>"
  assume u: "u \<in> set (ts_topics ts)"
    "tp_type u = topic_type ?d \<and> tp_topicId u = union_id addr (topic_data ?d)"
  have "inj_on tp_topicId (set (filter (\<lambda>t. tp_type t = MQTTSN_TOPIC_TYPE_NORMAL) (ts_topics ts)))"
    using topics_ok_distinct_ids [OF assms(1)] by (simp add: normal_ids_def distinct_map)
  then show "u = t"
    using u assms(2,3) by (auto simp: inj_on_def union_id_def)
qed (use assms in \<open>simp_all add: union_id_def\<close>)

lemma topics_ok_full: "topics_ok ts \<Longrightarrow> ts_cnt ts \<ge> 50 \<longleftrightarrow> length (ts_topics ts) = 50"
  by (auto simp: topics_ok_def word_le_nat_alt)

lemma Topics_add_name_new:
  assumes "topics_ok ts" "length (ts_topics ts) < 50" "find_name ts name = None"
  shows "\<exists>t ts'. Topics_add_name ts name i = (Some t, ts') \<and> topics_ok ts' \<and> ts_topics ts' = ts_topics ts @ [t] \<and>
    tp_topicName t = name \<and> tp_topicId t \<noteq> 0 \<and> (i \<noteq> 0 \<longrightarrow> tp_topicId t = i \<and> tp_type t = MQTTSN_TOPIC_TYPE_PREDEFINED) \<and>
    (i = 0 \<longrightarrow> tp_type t = MQTTSN_TOPIC_TYPE_NORMAL)"
proof -
  obtain n k where n: "k \<le> n" "ts_nextTopicId ts = id_before n" "normal_ids (ts_topics ts) = map nth_id [n - k..<n]"
    using assms(1) by (auto simp: topics_ok_def)
  have nf: "\<not> ts_cnt ts \<ge> 50"
    using topics_ok_full [OF assms(1)] assms(2) by simp
  have c: "unat (ts_cnt ts + 1) = Suc (length (ts_topics ts))"
    using assms(1,2) by (simp add: topics_ok_def unat_word_ariths)
  have u: "name \<notin> tp_topicName ` set (ts_topics ts)" "distinct (map tp_topicName (ts_topics ts))"
    using assms(1,3) by (auto simp: find_name_None topics_ok_def)
  show ?thesis
  proof (cases "i = 0")
    case True
    let ?t = "\<lparr>tp_type = MQTTSN_TOPIC_TYPE_NORMAL, tp_topicId = nth_id n, tp_topicName = name\<rparr>"
    let ?ts = "ts\<lparr>ts_nextTopicId := nth_id n, ts_topics := ts_topics ts @ [?t], ts_cnt := ts_cnt ts + 1\<rparr>"
    have "[Suc n - Suc k..<Suc n] = [n - k..<n] @ [n]"
      using n(1) by simp
    then have ids: "normal_ids (ts_topics ?ts) = map nth_id [Suc n - Suc k..<Suc n]"
      using n(3) by (simp add: normal_ids_def)
    have "topics_ok ?ts"
      unfolding topics_ok_def using c u assms(2)
      by (intro conjI exI [of _ "Suc n"] exI [of _ "Suc k"] ids) (simp_all add: n(1) id_before_def)
    then show ?thesis
      using True nf assms(3) nth_id_range next_id [OF n(2)] by (simp add: Topics_add_name_def Let_def)
  next
    case False
    let ?t = "\<lparr>tp_type = MQTTSN_TOPIC_TYPE_PREDEFINED, tp_topicId = i, tp_topicName = name\<rparr>"
    let ?ts = "ts\<lparr>ts_topics := ts_topics ts @ [?t], ts_cnt := ts_cnt ts + 1\<rparr>"
    have ids: "normal_ids (ts_topics ?ts) = map nth_id [n - k..<n]"
      using n(3) by (simp add: normal_ids_def)
    have "topics_ok ?ts"
      unfolding topics_ok_def using c u assms(2)
      by (intro conjI exI [of _ n] exI [of _ k] ids) (simp_all add: n)
    then show ?thesis
      using False nf assms(3) by (simp add: Topics_add_name_def Let_def)
  qed
qed

lemma eraseNormal_loop_spec:
  "eraseNormal_loop topics cnt =
     (filter (\<lambda>t. tp_type t \<noteq> MQTTSN_TOPIC_TYPE_NORMAL) topics, cnt - of_nat (length (normal_ids topics)))"
  by (induction topics arbitrary: cnt) (auto simp: normal_ids_def)

lemma eraseNormal_keeps:
  assumes "topics_ok ts"
  shows "topics_ok (eraseNormal ts)"
    "ts_topics (eraseNormal ts) = filter (\<lambda>t. tp_type t \<noteq> MQTTSN_TOPIC_TYPE_NORMAL) (ts_topics ts)"
    "ts_nextTopicId (eraseNormal ts) = ts_nextTopicId ts"
proof -
  let ?xs = "ts_topics ts"
  show f: "ts_topics (eraseNormal ts) = filter (\<lambda>t. tp_type t \<noteq> MQTTSN_TOPIC_TYPE_NORMAL) ?xs"
    and nx: "ts_nextTopicId (eraseNormal ts) = ts_nextTopicId ts"
    by (simp_all add: eraseNormal_def eraseNormal_loop_spec Let_def)
  obtain n where n: "ts_nextTopicId ts = id_before n"
    using assms by (auto simp: topics_ok_def)
  have len: "length (normal_ids ?xs) + length (filter (\<lambda>t. tp_type t \<noteq> MQTTSN_TOPIC_TYPE_NORMAL) ?xs) = length ?xs"
    unfolding normal_ids_def by (simp add: sum_length_filter_compl)
  have c: "unat (ts_cnt ts) = length ?xs" "length ?xs \<le> 50" "distinct (map tp_topicName ?xs)"
    using assms by (auto simp: topics_ok_def)
  have "unat (of_nat (length (normal_ids ?xs)) :: byte) = length (normal_ids ?xs)"
    using len c(2) by (intro unat_of_nat_byte) simp
  then have "unat (ts_cnt (eraseNormal ts)) = length (ts_topics (eraseNormal ts))"
    using len c(1) f by (simp add: eraseNormal_def eraseNormal_loop_spec Let_def unat_sub word_le_nat_alt)
  moreover have "normal_ids (ts_topics (eraseNormal ts)) = []"
    by (simp add: f normal_ids_def)
  moreover have "length (ts_topics (eraseNormal ts)) \<le> 50"
    using f c(2) length_filter_le [of _ ?xs] by (metis le_trans)
  moreover have "distinct (map tp_topicName (ts_topics (eraseNormal ts)))"
    using c(3) by (simp add: f distinct_map_filter)
  ultimately show "topics_ok (eraseNormal ts)"
    unfolding topics_ok_def using n nx by (intro conjI exI [of _ n] exI [of _ 0]) simp_all
qed


lemma Topics_add_name_keeps:
  assumes "topics_ok ts"
  shows "topics_ok (snd (Topics_add_name ts name i))"
proof (cases "ts_cnt ts \<ge> 50 \<or> find_name ts name \<noteq> None")
  case True
  then show ?thesis using assms by (auto simp: Topics_add_name_def)
next
  case False
  then have "length (ts_topics ts) < 50" "find_name ts name = None"
    using topics_ok_full [OF assms] assms by (auto simp: topics_ok_def)
  then obtain t ts' where "Topics_add_name ts name i = (Some t, ts')" "topics_ok ts'"
    using Topics_add_name_new [OF assms, of name i] by blast
  then show ?thesis by simp
qed

text \<open>A name as the topic identifier of a REGISTER or SUBSCRIBE.\<close>

definition named_topic :: "byte list \<Rightarrow> MQTTSN_topicid" where
  "named_topic name = \<lparr>topic_type = MQTTSN_TOPIC_TYPE_NORMAL, topic_data = Topic_long (Some name) (int (length name))\<rparr>"

lemma string_of_named [simp]: "string_of (Some name) (int (length name)) = Some name"
  by (simp add: string_of_def cptr_holds_def cptr_bytes_def)

lemma getTopicByName_named [simp]: "getTopicByName ts (named_topic name) = Some (find_name ts name)"
  by (simp add: getTopicByName_def named_topic_def)

lemma c_str_id: "0 \<notin> set name \<Longrightarrow> c_str name = name"
  by (auto simp: c_str_def takeWhile_eq_all_conv)

lemma find_name_append: "find_name (ts\<lparr>ts_topics := xs @ [t]\<rparr>) n =
    (case find_name (ts\<lparr>ts_topics := xs\<rparr>) n of Some u \<Rightarrow> Some u | None \<Rightarrow> if tp_topicName t = n then Some t else None)"
  unfolding find_name_def by (induction xs) auto

lemma find_name_extend:
  assumes "ts_topics ts' = ts_topics ts @ [t]" "n \<noteq> tp_topicName t"
  shows "find_name ts' n = find_name ts n"
  using find_name_append [where ts = ts and xs = "ts_topics ts" and t = t and n = n] assms by (auto simp: find_name_def split: option.splits)

text \<open>Registration refines a growing map from names to identifiers. For a name without NUL bytes, \<open>Topics::add\<close> returns a topic with
  this name; it fails only if the name is new and the table has its fifty entries, and then changes nothing. The topic found has an identifier other
  than 0, is found again by its name and, if it is not a predefined one, also by its identifier; all other names keep their topics.
  The invariant (right count, distinct names, distinct identifiers) holds again.\<close>

theorem topic_registration:
  assumes "topics_ok ts" "0 \<notin> set name" "\<forall>t\<in>set (ts_topics ts). tp_topicId t \<noteq> 0"
  shows "\<exists>r ts'. Topics_add ts (named_topic name) = Some (r, ts') \<and> topics_ok ts' \<and>
    (r = None \<longleftrightarrow> find_name ts name = None \<and> length (ts_topics ts) = 50) \<and> (r = None \<longrightarrow> ts' = ts) \<and>
    find_name ts' name = r \<and> (\<forall>n. n \<noteq> name \<longrightarrow> find_name ts' n = find_name ts n) \<and>
    (\<forall>t. r = Some t \<longrightarrow> tp_topicName t = name \<and> tp_topicId t \<noteq> 0 \<and>
      (tp_type t = MQTTSN_TOPIC_TYPE_NORMAL \<longrightarrow>
       getTopicById addr ts' \<lparr>topic_type = MQTTSN_TOPIC_TYPE_NORMAL, topic_data = Topic_id (tp_topicId t)\<rparr> = Some t))"
proof (cases "find_name ts name")
  case (Some t)
  then have "t \<in> set (ts_topics ts)" "tp_topicName t = name"
    by (auto simp: find_name_def find_Some_iff)
  moreover have "Topics_add ts (named_topic name) = Some (Some t, ts)"
    using Some by (simp add: Topics_add_def) (simp add: named_topic_def)
  ultimately show ?thesis
    using Some assms getTopicById_member [OF assms(1)] by auto
next
  case None
  then have a: "Topics_add ts (named_topic name) = Some (Topics_add_name ts name 0)"
    by (simp add: Topics_add_def) (simp add: named_topic_def c_str_id [OF assms(2)])
  show ?thesis
  proof (cases "length (ts_topics ts) = 50")
    case True
    then have "Topics_add_name ts name 0 = (None, ts)"
      using topics_ok_full [OF assms(1)] by (simp add: Topics_add_name_def)
    then show ?thesis
      using a None True assms(1) by simp
  next
    case False
    then have "length (ts_topics ts) < 50"
      using assms(1) by (simp add: topics_ok_def)
    then obtain t ts' where t: "Topics_add_name ts name 0 = (Some t, ts')" "topics_ok ts'"
      "ts_topics ts' = ts_topics ts @ [t]" "tp_topicName t = name" "tp_topicId t \<noteq> 0"
      using Topics_add_name_new [OF assms(1) _ None, of 0] by blast
    have "t \<in> set (ts_topics ts')"
      using t(3) by simp
    then show ?thesis
      using a t False None find_name_member [OF t(2), of t] getTopicById_member [OF t(2), of t]
        find_name_extend [OF t(3)] by auto
  qed
qed

theorem topic_registration_witness:
  "\<exists>r ts'. Topics_add Topics_init (named_topic [97, 98, 99]) = Some (r, ts') \<and> topics_ok ts' \<and>
    find_name ts' [97, 98, 99] = r \<and> r \<noteq> None"
proof -
  have "\<forall>t\<in>set (ts_topics Topics_init). tp_topicId t \<noteq> 0" "length (ts_topics Topics_init) \<noteq> 50"
    by (simp_all add: Topics_init_def)
  then show ?thesis
    using topic_registration [OF topics_ok_init, of "[97, 98, 99]" 0] by auto
qed

datatype topics_op = Register "byte list" | Predefine "byte list" u16 | Reset

fun topics_step :: "Topics \<Rightarrow> topics_op \<Rightarrow> Topics" where
  "topics_step ts (Register name) = snd (Topics_add_name ts name 0)"
| "topics_step ts (Predefine name i) = snd (Topics_add_name ts name i)"
| "topics_step ts Reset = eraseNormal ts"

lemma topics_step_keeps: "topics_ok ts \<Longrightarrow> topics_ok (topics_step ts x)"
  by (cases x) (simp_all add: Topics_add_name_keeps eraseNormal_keeps)

lemma topics_steps_keep: "topics_ok ts \<Longrightarrow> topics_ok (foldl topics_step ts xs)"
  by (induction xs arbitrary: ts) (simp_all add: topics_step_keeps)

text \<open>The lifecycle of the table. From the empty table, every sequence of registrations, predefined topics and clean-session resets
  (\<open>eraseNormal\<close>) keeps the invariant, so that the identifiers of the normal topics are distinct and neither 0 nor 65535. A reset
  removes exactly the normal topics and does not start the numbering over.\<close>

theorem topics_lifecycle:
  "let ts = foldl topics_step Topics_init ops
   in topics_ok ts \<and> distinct (normal_ids (ts_topics ts)) \<and> {0, 0xffff} \<inter> set (normal_ids (ts_topics ts)) = {} \<and>
      ts_topics (eraseNormal ts) = filter (\<lambda>t. tp_type t \<noteq> MQTTSN_TOPIC_TYPE_NORMAL) (ts_topics ts) \<and>
      ts_nextTopicId (eraseNormal ts) = ts_nextTopicId ts"
proof -
  have "topics_ok (foldl topics_step Topics_init ops)"
    by (rule topics_steps_keep [OF topics_ok_init])
  then show ?thesis
    using topics_ok_distinct_ids topics_ok_ids_nonzero eraseNormal_keeps by (auto simp: Let_def)
qed

subsection \<open>Message identifiers waiting for an acknowledgement\<close>

definition topicidmap_ok :: "TopicIdMap \<Rightarrow> bool" where
  "topicidmap_ok m \<longleftrightarrow>
     tm_cnt m = int (length (tm_elements m)) \<and> tm_cnt m \<le> 2 * tm_maxInflight m + 1 \<and> distinct (map tm_msgId (tm_elements m))"

text \<open>The map as a function of the message identifier.\<close>

definition waited :: "TopicIdMap \<Rightarrow> u16 \<Rightarrow> (u16 \<times> MQTTSN_topicTypes) option" where
  "waited m msgId = map_option (\<lambda>e. (tm_topicId e, tm_type e)) (getElement m msgId)"

lemma set_remove_first: "distinct (map f xs) \<Longrightarrow> set (remove_first (\<lambda>x. f x = k) xs) = {x \<in> set xs. f x \<noteq> k}"
proof (induction xs)
  case (Cons a xs)
  then have "f a \<notin> f ` set xs" by simp
  then have "f x \<noteq> f a" if "x \<in> set xs" for x
    using that by (metis image_eqI)
  then show ?case
    using Cons by auto
qed simp

lemma distinct_remove_first: "distinct (map f xs) \<Longrightarrow> distinct (map f (remove_first (\<lambda>x. f x = k) xs))"
  by (induction xs) (auto simp: set_remove_first)

lemma length_remove_first: "find P xs \<noteq> None \<Longrightarrow> Suc (length (remove_first P xs)) = length xs"
  by (induction xs) auto

lemma remove_first_absent: "find P xs = None \<Longrightarrow> remove_first P xs = xs"
  by (induction xs) (auto split: if_splits)

lemma find_remove_first:
  "distinct (map f xs) \<Longrightarrow>
   find (\<lambda>x. f x = j) (remove_first (\<lambda>x. f x = k) xs) = (if j = k then None else find (\<lambda>x. f x = j) xs)"
proof (induction xs)
  case (Cons a xs)
  then have "find (\<lambda>x. f x = f a) xs = None"
    by (auto simp: find_None_iff) (metis image_eqI)
  then show ?case
    using Cons by auto
qed simp

lemma find_append_last: "find P (xs @ [x]) = (case find P xs of Some y \<Rightarrow> Some y | None \<Rightarrow> if P x then Some x else None)"
  by (induction xs) auto

lemma TopicIdMap_erase_present:
  assumes "topicidmap_ok m" "getElement m msgId \<noteq> None"
  shows "topicidmap_ok (TopicIdMap_erase m msgId)" "waited (TopicIdMap_erase m msgId) = (waited m)(msgId := None)"
    "tm_cnt (TopicIdMap_erase m msgId) = tm_cnt m - 1"
proof -
  have "int (length (remove_first (\<lambda>p. tm_msgId p = msgId) (tm_elements m))) = int (length (tm_elements m)) - 1"
    using length_remove_first [OF assms(2) [unfolded getElement_def]] by linarith
  then show "topicidmap_ok (TopicIdMap_erase m msgId)"
    using assms(1) by (simp add: topicidmap_ok_def TopicIdMap_erase_def distinct_remove_first)
  show "waited (TopicIdMap_erase m msgId) = (waited m)(msgId := None)"
    using assms(1) by (auto simp: waited_def getElement_def TopicIdMap_erase_def topicidmap_ok_def find_remove_first)
qed (simp add: TopicIdMap_erase_def)

lemma TopicIdMap_append:
  assumes "topicidmap_ok m" "getElement m msgId = None" "tm_cnt m \<le> 2 * tm_maxInflight m"
  shows "topicidmap_ok (m\<lparr>tm_elements := tm_elements m @ [\<lparr>tm_msgId = msgId, tm_topicId = i, tm_type = ty\<rparr>], tm_cnt := tm_cnt m + 1\<rparr>)"
    "waited (m\<lparr>tm_elements := tm_elements m @ [\<lparr>tm_msgId = msgId, tm_topicId = i, tm_type = ty\<rparr>], tm_cnt := tm_cnt m + 1\<rparr>) =
       (waited m)(msgId \<mapsto> (i, ty))"
proof -
  have "msgId \<notin> tm_msgId ` set (tm_elements m)"
    using assms(2) by (auto simp: getElement_def find_None_iff)
  then show "topicidmap_ok (m\<lparr>tm_elements := tm_elements m @ [\<lparr>tm_msgId = msgId, tm_topicId = i, tm_type = ty\<rparr>], tm_cnt := tm_cnt m + 1\<rparr>)"
    using assms(1,3) by (simp add: topicidmap_ok_def)
qed (use assms(2) in \<open>auto simp: waited_def getElement_def find_append_last fun_eq_iff split: option.splits\<close>)

text \<open>The map from message identifiers to topics refines a bounded finite map. \<open>add\<close> fails and changes nothing if more than twenty
  entries are there or the topic identifier is 0 for a topic that is not a short name; otherwise it makes the entry, replacing one for the same message.
  \<open>erase\<close> of an entry that is there removes it. Both keep the invariant that the count is the number of entries.\<close>

theorem topicidmap_refines_map:
  assumes "topicidmap_ok m" "TopicIdMap_add m msgId i ty = (r, m')"
  shows "topicidmap_ok m' \<and>
    (r = None \<longleftrightarrow> tm_cnt m > 2 * tm_maxInflight m \<or> i = 0 \<and> ty \<noteq> MQTTSN_TOPIC_TYPE_SHORT) \<and>
    (r = None \<longrightarrow> m' = m) \<and> (r \<noteq> None \<longrightarrow> waited m' = (waited m)(msgId \<mapsto> (i, ty))) \<and>
    (waited m k \<noteq> None \<longrightarrow> topicidmap_ok (TopicIdMap_erase m k) \<and> waited (TopicIdMap_erase m k) = (waited m)(k := None))"
proof -
  have e: "topicidmap_ok (TopicIdMap_erase m k) \<and> waited (TopicIdMap_erase m k) = (waited m)(k := None)"
    if "waited m k \<noteq> None"
    using that TopicIdMap_erase_present [OF assms(1), of k] by (auto simp: waited_def)
  consider "tm_cnt m > 2 * tm_maxInflight m \<or> i = 0 \<and> ty \<noteq> MQTTSN_TOPIC_TYPE_SHORT"
    | "\<not> (tm_cnt m > 2 * tm_maxInflight m \<or> i = 0 \<and> ty \<noteq> MQTTSN_TOPIC_TYPE_SHORT)" "getElement m msgId = None"
    | "\<not> (tm_cnt m > 2 * tm_maxInflight m \<or> i = 0 \<and> ty \<noteq> MQTTSN_TOPIC_TYPE_SHORT)" "getElement m msgId \<noteq> None"
    by blast
  then show ?thesis
  proof cases
    case 1
    then show ?thesis
      using assms e by (auto simp: TopicIdMap_add_def mult.commute)
  next
    case 2
    then show ?thesis
      using assms e TopicIdMap_append [OF assms(1) 2(2), of i ty]
      by (auto simp: TopicIdMap_add_def Let_def mult.commute)
  next
    case 3
    note p = TopicIdMap_erase_present [OF assms(1) 3(2)]
    have "getElement (TopicIdMap_erase m msgId) msgId = None"
      using p(2) by (auto simp: waited_def dest: fun_cong [of _ _ msgId])
    moreover have "tm_cnt (TopicIdMap_erase m msgId) \<le> 2 * tm_maxInflight (TopicIdMap_erase m msgId)"
      using 3(1) p(3) by (simp add: TopicIdMap_erase_def)
    ultimately show ?thesis
      using assms e 3 p(2) TopicIdMap_append [OF p(1), of msgId i ty]
      by (auto simp: TopicIdMap_add_def Let_def mult.commute)
  qed
qed

theorem topicidmap_refines_map_witness:
  "let m = snd (TopicIdMap_add TopicIdMap_init 7 3 MQTTSN_TOPIC_TYPE_NORMAL)
   in topicidmap_ok m \<and> waited m 7 = Some (3, MQTTSN_TOPIC_TYPE_NORMAL)"
proof -
  have i: "topicidmap_ok TopicIdMap_init"
    by (simp add: topicidmap_ok_def TopicIdMap_init_def)
  show ?thesis
    using topicidmap_refines_map [OF i surjective_pairing, of 7 3 MQTTSN_TOPIC_TYPE_NORMAL]
    by (auto simp: Let_def TopicIdMap_init_def)
qed

text \<open>\<open>erase\<close> of an identifier that is not in the map still counts down.\<close>

lemma erase_absent_breaks_count:
  assumes "topicidmap_ok m" "getElement m msgId = None"
  shows "tm_elements (TopicIdMap_erase m msgId) = tm_elements m \<and> \<not> topicidmap_ok (TopicIdMap_erase m msgId)"
  using assms by (auto simp: TopicIdMap_erase_def getElement_def remove_first_absent topicidmap_ok_def)

end
