(* ===== verification/MQTTSNGW_Packet.thy ===== *)
theory MQTTSNGW_Packet
  imports MQTT_Connect MQTT_Subscribe MQTTSN_Connect MQTTSN_Subscribe MQTTSN_Search
begin

text \<open>
  The packet classes of the gateway. \<open>MQTTGWPacket\<close> (\<^verbatim>\<open>MQTTGWPacket.cpp\<close>) is an MQTT packet as the gateway exchanges it with
  the broker: header byte, remaining length and the bytes behind them; the methods build and take apart the packets themselves. \<open>MQTTSNPacket\<close>
  (\<^verbatim>\<open>MQTTSNGWPacket.cpp\<close>) is a datagram exchanged with the clients; its methods call the MQTT-SN packet
  library. Their names get the prefixes \<open>GW_\<close> and \<open>SN_\<close>.

  \<^verbatim>\<open>MQTTGWPacket.cpp\<close> has its own copies of \<open>MQTTPacket_encode\<close>, \<open>readInt\<close>, \<open>readChar\<close>, \<open>writeChar\<close>, \<open>writeInt\<close>, and \<open>writeUTF\<close> is
  \<open>writeCString\<close>; they are the functions of \<open>MQTT_Packet\<close>. Memory allocation succeeds for every size that is not negative.
  Local arrays start with bytes 0.
\<close>

abbreviation MQTTSNGW_MAX_PACKET_SIZE :: nat where "MQTTSNGW_MAX_PACKET_SIZE \<equiv> 1024"

definition calloc :: "int \<Rightarrow> byte list option" where
  "calloc n = (if n < 0 then None else Some (replicate (nat n) 0))"

subsection \<open>MQTTGWPacket: data\<close>

record MQTTGWPacket =
  gp_header :: MQTTHeader
  gp_remainingLength :: int
  gp_data :: "byte list option"

record GWConnect =
  gc_header :: MQTTHeader
  gc_flags :: MQTTConnectFlags
  gc_clientID :: "byte list option"
  gc_willTopic :: "byte list option"
  gc_willMsg :: "byte list option"
  gc_keepAliveTimer :: int
  gc_version :: byte

record GWConnack =
  gca_header :: MQTTHeader
  gca_flags :: byte
  gca_rc :: byte

record GWPublish =
  gpub_header :: MQTTHeader
  gpub_topic :: cptr
  gpub_topiclen :: int
  gpub_msgId :: int
  gpub_payload :: cptr
  gpub_payloadlen :: int

record GWAck =
  gack_header :: MQTTHeader
  gack_msgId :: int

definition MQTTPacket_Connect_Initializer :: GWConnect where
  "MQTTPacket_Connect_Initializer = \<lparr>gc_header = 0, gc_flags = 0, gc_clientID = None, gc_willTopic = None, gc_willMsg = None,
     gc_keepAliveTimer = 0, gc_version = 0\<rparr>"

definition MQTTPacket_Publish_Initializer :: GWPublish where
  "MQTTPacket_Publish_Initializer = \<lparr>gpub_header = 0, gpub_topic = None, gpub_topiclen = 0, gpub_msgId = 0, gpub_payload = None,
     gpub_payloadlen = 0\<rparr>"

definition GW_new :: MQTTGWPacket where
  "GW_new = \<lparr>gp_header = 0, gp_remainingLength = 0, gp_data = None\<rparr>"

text \<open>\<open>clearData\<close> frees the data; every caller assigns the pointer again or starts from a new packet, whose pointer is
  null.\<close>

definition GW_clearData :: "MQTTGWPacket \<Rightarrow> MQTTGWPacket" where
  "GW_clearData p = p\<lparr>gp_header := 0, gp_remainingLength := 0, gp_data := None\<rparr>"

definition GW_getType :: "MQTTGWPacket \<Rightarrow> int" where
  "GW_getType p = uint (header_type (gp_header p))"

subsection \<open>MQTTGWPacket: taking packets apart\<close>

definition GW_getAck :: "GWAck \<Rightarrow> MQTTGWPacket \<Rightarrow> (int \<times> GWAck) option" where
  "GW_getAck ack p =
     (if GW_getType p \<notin> {4, 5, 6, 7, 11} then Some (0, ack)
      else do {
        d \<leftarrow> gp_data p;
        (i, _) \<leftarrow> readInt (0, d);
        Some (1, \<lparr>gack_header = gp_header p, gack_msgId = i\<rparr>) })"

definition GW_getCONNACK :: "GWConnack \<Rightarrow> MQTTGWPacket \<Rightarrow> (int \<times> GWConnack) option" where
  "GW_getCONNACK resp p =
     (if header_type (gp_header p) \<noteq> msgType_code CONNACK then Some (0, resp)
      else do {
        d \<leftarrow> gp_data p;
        (f, cur) \<leftarrow> readChar (0, d);
        (rc, _) \<leftarrow> readChar cur;
        Some (1, \<lparr>gca_header = gp_header p, gca_flags = f, gca_rc = rc\<rparr>) })"

definition GW_getSUBACK :: "u16 \<times> byte \<Rightarrow> MQTTGWPacket \<Rightarrow> (int \<times> u16 \<times> byte) option" where
  "GW_getSUBACK out p =
     (if header_type (gp_header p) \<noteq> msgType_code SUBACK then Some (0, out)
      else do {
        d \<leftarrow> gp_data p;
        (i, cur) \<leftarrow> readInt (0, d);
        (rc, _) \<leftarrow> readChar cur;
        Some (1, word_of_int i, rc) })"

definition GW_getPUBLISH :: "GWPublish \<Rightarrow> MQTTGWPacket \<Rightarrow> (int \<times> GWPublish) option" where
  "GW_getPUBLISH pub p =
     (if header_type (gp_header p) \<noteq> msgType_code PUBLISH then Some (0, pub)
      else do {
        d \<leftarrow> gp_data p;
        (topiclen, ptr) \<leftarrow> readInt (0, d);
        let ptr = ptr_add ptr topiclen;
        (msgId, payloadlen, ptr) \<leftarrow>
          (if header_qos (gp_header p) > 0
           then do { (i, ptr) \<leftarrow> readInt ptr; Some (i, gp_remainingLength p - topiclen - 4, ptr) }
           else Some (0, gp_remainingLength p - topiclen - 2, ptr));
        Some (1, \<lparr>gpub_header = gp_header p, gpub_topic = Some (drop 2 d), gpub_topiclen = topiclen,
                   gpub_msgId = msgId, gpub_payload = Some (snd ptr), gpub_payloadlen = payloadlen\<rparr>) })"

subsection \<open>MQTTGWPacket: building packets\<close>

definition strlen :: "byte list option \<Rightarrow> int option" where
  "strlen s = map_option (\<lambda>s. int (length s)) s"

definition writeUTF :: "wptr \<Rightarrow> byte list option \<Rightarrow> wptr option" where
  "writeUTF w s = do { s \<leftarrow> s; writeCString w s }"

definition connect_fields_len :: "GWConnect \<Rightarrow> byte list option \<Rightarrow> byte list option \<Rightarrow> int option" where
  "connect_fields_len connect username password = do {
     n \<leftarrow> strlen (gc_clientID connect);
     let len = (if gc_version connect = 3 then 12 else 10) + n + 2;
     len \<leftarrow> (if flags_will (gc_flags connect) \<noteq> 0
             then do { t \<leftarrow> strlen (gc_willTopic connect); m \<leftarrow> strlen (gc_willMsg connect); Some (len + (t + 2 + m + 2)) }
             else Some len);
     len \<leftarrow> (if flags_username (gc_flags connect) \<noteq> 0 then do { n \<leftarrow> strlen username; Some (len + (n + 2)) } else Some len);
     (if flags_password (gc_flags connect) \<noteq> 0 then do { n \<leftarrow> strlen password; Some (len + (n + 2)) } else Some len) }"

definition GW_setCONNECT ::
  "MQTTGWPacket \<Rightarrow> GWConnect \<Rightarrow> byte list option \<Rightarrow> byte list option \<Rightarrow> (int \<times> MQTTGWPacket) option" where
  "GW_setCONNECT p connect username password = do {
     let p = (GW_clearData p)\<lparr>gp_header := gc_header connect\<rparr>;
     len \<leftarrow> connect_fields_len connect username password;
     d \<leftarrow> calloc len;
     let p = p\<lparr>gp_remainingLength := len, gp_data := Some d\<rparr>;
     if gc_version connect \<noteq> 3 \<and> gc_version connect \<noteq> 4 then Some (0, p)
     else do {
       w \<leftarrow> (if gc_version connect = 3
             then do { w \<leftarrow> writeCString (d, 0) protocol_MQIsdp; writeChar w 3 }
             else do { w \<leftarrow> writeCString (d, 0) protocol_MQTT; writeChar w 4 });
       w \<leftarrow> writeChar w (gc_flags connect);
       w \<leftarrow> writeInt w (gc_keepAliveTimer connect);
       w \<leftarrow> writeUTF w (gc_clientID connect);
       w \<leftarrow> (if flags_will (gc_flags connect) \<noteq> 0
             then do { w \<leftarrow> writeUTF w (gc_willTopic connect); writeUTF w (gc_willMsg connect) } else Some w);
       w \<leftarrow> (if flags_username (gc_flags connect) \<noteq> 0 then writeUTF w username else Some w);
       w \<leftarrow> (if flags_password (gc_flags connect) \<noteq> 0 then writeUTF w password else Some w);
       Some (1, p\<lparr>gp_data := Some (fst w)\<rparr>) } }"

definition GW_setSUBSCRIBE :: "MQTTGWPacket \<Rightarrow> byte list \<Rightarrow> byte \<Rightarrow> u16 \<Rightarrow> (int \<times> MQTTGWPacket) option" where
  "GW_setSUBSCRIBE p topic qos msgId = do {
     let header = set_header_qos 1 (set_header_type (msgType_code SUBSCRIBE) 0);
     let len = int (length topic) + 5;
     d \<leftarrow> calloc len;
     w \<leftarrow> writeInt (d, 0) (uint msgId);
     w \<leftarrow> writeCString w topic;
     w \<leftarrow> writeChar w qos;
     Some (1, (GW_clearData p)\<lparr>gp_header := header, gp_remainingLength := len, gp_data := Some (fst w)\<rparr>) }"

definition GW_setUNSUBSCRIBE :: "MQTTGWPacket \<Rightarrow> byte list \<Rightarrow> u16 \<Rightarrow> (int \<times> MQTTGWPacket) option" where
  "GW_setUNSUBSCRIBE p topic msgid = do {
     let header = set_header_qos 1 (set_header_type (msgType_code UNSUBSCRIBE) 0);
     let len = int (length topic) + 4;
     d \<leftarrow> calloc len;
     w \<leftarrow> writeInt (d, 0) (uint msgid);
     w \<leftarrow> writeCString w topic;
     Some (1, (GW_clearData p)\<lparr>gp_header := header, gp_remainingLength := len, gp_data := Some (fst w)\<rparr>) }"

definition GW_setPUBLISH :: "MQTTGWPacket \<Rightarrow> GWPublish \<Rightarrow> (int \<times> MQTTGWPacket) option" where
  "GW_setPUBLISH p pub =
     (let header = set_header_type (msgType_code PUBLISH) (gpub_header pub);
          len = 4 + gpub_topiclen pub + gpub_payloadlen pub
      in case calloc len of
           None \<Rightarrow> Some (0, GW_clearData p)
         | Some d \<Rightarrow> do {
             w \<leftarrow> writeInt (d, 0) (gpub_topiclen pub);
             w \<leftarrow> write_mem w (gpub_topic pub) (gpub_topiclen pub);
             (w, len) \<leftarrow>
               (if header_qos header > 0 then do { w \<leftarrow> writeInt w (gpub_msgId pub); Some (w, len) }
                else Some (w, len - 2));
             d \<leftarrow> memcpy (fst w) (snd w) (gpub_payload pub) (gpub_payloadlen pub);
             Some (1, (GW_clearData p)\<lparr>gp_header := header, gp_remainingLength := len, gp_data := Some d\<rparr>) })"

definition GW_setAck :: "MQTTGWPacket \<Rightarrow> byte \<Rightarrow> u16 \<Rightarrow> (int \<times> MQTTGWPacket) option" where
  "GW_setAck p msgType msgid = do {
     let header = set_header_qos (if msgType = msgType_code PUBREL then 1 else 0) (set_header_type msgType 0);
     d \<leftarrow> calloc 2;
     w \<leftarrow> writeInt (d, 0) (uint msgid);
     Some (1, (GW_clearData p)\<lparr>gp_header := header, gp_remainingLength := 2, gp_data := Some (fst w)\<rparr>) }"

definition GW_setHeader :: "MQTTGWPacket \<Rightarrow> byte \<Rightarrow> int \<times> MQTTGWPacket" where
  "GW_setHeader p msgType =
     (let p = GW_clearData p
      in if msgType < msgType_code CONNECT \<or> msgType > msgType_code DISCONNECT then (0, p)
         else (0, p\<lparr>gp_header := set_header_type msgType (gp_header p)\<rparr>))"

subsection \<open>MQTTGWPacket: the network\<close>

text \<open>The bytes of the packet go into \<open>buf\<close>, whatever its size.\<close>

definition GW_getPacketData :: "MQTTGWPacket \<Rightarrow> buffer \<Rightarrow> (int \<times> buffer) option" where
  "GW_getPacketData p buf = do {
     w \<leftarrow> writeChar (buf, 0) (gp_header p);
     (buf, len) \<leftarrow> MQTTPacket_encode w (gp_remainingLength p);
     buf \<leftarrow> memcpy buf (snd w + nat len) (gp_data p) (gp_remainingLength p);
     Some (1 + len + gp_remainingLength p, buf) }"

definition GW_getPacketLength :: "MQTTGWPacket \<Rightarrow> int option" where
  "GW_getPacketLength p = do {
     (_, n) \<leftarrow> MQTTPacket_encode (replicate 4 0, 0) (gp_remainingLength p);
     Some (1 + n + gp_remainingLength p) }"

definition GW_send :: "('s \<Rightarrow> byte list \<Rightarrow> int \<times> 's) \<Rightarrow> 's \<Rightarrow> MQTTGWPacket \<Rightarrow> (int \<times> 's) option" where
  "GW_send net_send s p = do {
     (len, buf) \<leftarrow> GW_getPacketData p (replicate MQTTSNGW_MAX_PACKET_SIZE 0);
     Some (net_send s (take (nat len) buf)) }"

text \<open>The loop that reads the remaining length; \<open>c\<close> is \<open>None\<close> as long as the variable is not initialised. A result of 0 leaves it as
  it is.\<close>

function GW_recv_len :: "'s getfn \<Rightarrow> 's \<Rightarrow> byte option \<Rightarrow> int \<Rightarrow> int \<Rightarrow> int \<Rightarrow> (int \<times> int \<times> int \<times> 's) option" where
  "GW_recv_len recv s c len multiplier rem_len =
     (if len + 1 > 3 then Some (- 2, len + 1, rem_len, s)
      else case recv s 1 of
        None \<Rightarrow> None
      | Some (rc, cs, s) \<Rightarrow>
          (if rc = - 1 then Some (- 1, len + 1, rem_len, s)
           else case (case cs of x # _ \<Rightarrow> Some x | [] \<Rightarrow> c) of
             None \<Rightarrow> None
           | Some x \<Rightarrow>
               (let rem_len = rem_len + uint (x AND 127) * multiplier;
                    multiplier = multiplier * 128
                in if x AND 128 \<noteq> 0 then GW_recv_len recv s (Some x) (len + 1) multiplier rem_len
                   else Some (0, len + 1, rem_len, s))))"
  by pat_completeness auto
termination
  by (relation "measure (\<lambda>(r, s, c, len, m, n). nat (4 - len))") auto

declare GW_recv_len.simps [simp del]

definition GW_recv :: "'s getfn \<Rightarrow> 's \<Rightarrow> MQTTGWPacket \<Rightarrow> (int \<times> MQTTGWPacket \<times> 's) option" where
  "GW_recv recv s p = do {
     (rc, bs, s) \<leftarrow> recv s 1;
     let p = (case bs of b # _ \<Rightarrow> p\<lparr>gp_header := b\<rparr> | [] \<Rightarrow> p);
     if rc \<le> 0 then Some (rc, p, s)
     else do {
       (e, len, rem_len, s) \<leftarrow> GW_recv_len recv s None 0 1 (gp_remainingLength p);
       let p = p\<lparr>gp_remainingLength := rem_len\<rparr>;
       if e < 0 then Some (e, p, s)
       else if rem_len > 0
       then do {
         d \<leftarrow> calloc rem_len;
         (n, bs, s) \<leftarrow> recv s rem_len;
         d \<leftarrow> memcpy d 0 (Some bs) (int (length bs));
         let p = p\<lparr>gp_data := Some d\<rparr>;
         if n = - 1 then Some (- 1, p, s)
         else if n \<noteq> rem_len then Some (- 2, p, s)
         else Some (1 + len + rem_len, p, s) }
       else Some (1 + len + rem_len, p, s) } }"

subsection \<open>MQTTGWPacket: message identifiers\<close>

definition GW_getMsgId :: "MQTTGWPacket \<Rightarrow> int option" where
  "GW_getMsgId p =
     (if GW_getType p = 3
      then do {
        (_, pub) \<leftarrow> GW_getPUBLISH (MQTTPacket_Publish_Initializer\<lparr>gpub_msgId := 0\<rparr>) p;
        Some (gpub_msgId pub) }
      else if GW_getType p \<in> {4, 5, 6, 7, 8, 10, 9, 11}
      then (case gp_data p of Some (a # b # _) \<Rightarrow> Some (256 * uint a + uint b) | _ \<Rightarrow> None)
      else Some 0)"

definition GW_setMsgId :: "MQTTGWPacket \<Rightarrow> int \<Rightarrow> MQTTGWPacket option" where
  "GW_setMsgId p msgId =
     (if GW_getType p = 3
      then do {
        (_, pub) \<leftarrow> GW_getPUBLISH (MQTTPacket_Publish_Initializer\<lparr>gpub_topiclen := 0, gpub_msgId := 0\<rparr>) p;
        d \<leftarrow> gp_data p;
        w \<leftarrow> writeInt (d, nat (gpub_topiclen pub)) msgId;
        w \<leftarrow> writeInt w msgId;
        Some (p\<lparr>gp_data := Some (fst w)\<rparr>) }
      else if GW_getType p \<in> {8, 10, 4, 5, 6, 7, 9, 11}
      then do {
        d \<leftarrow> gp_data p;
        w \<leftarrow> writeInt (d, 0) msgId;
        Some (p\<lparr>gp_data := Some (fst w)\<rparr>) }
      else Some p)"

definition GW_assign :: "MQTTGWPacket \<Rightarrow> MQTTGWPacket option" where
  "GW_assign packet = do {
     d \<leftarrow> calloc (gp_remainingLength packet);
     d \<leftarrow> memcpy d 0 (gp_data packet) (gp_remainingLength packet);
     Some \<lparr>gp_header = gp_header packet, gp_remainingLength = gp_remainingLength packet, gp_data = Some d\<rparr> }"

text \<open>The length in a \<open>UTF8String\<close> is one byte.\<close>

definition GW_getTopic :: "MQTTGWPacket \<Rightarrow> (byte \<times> cptr) option" where
  "GW_getTopic p =
     (if header_type (gp_header p) = msgType_code SUBSCRIBE \<or> header_type (gp_header p) = msgType_code UNSUBSCRIBE
      then do {
        d \<leftarrow> gp_data p;
        (n, _) \<leftarrow> readInt (ptr_add (0, d) 2);
        Some (word_of_int n, Some (drop 4 d)) }
      else Some (0, None))"

definition mqtt_packet_names :: "string list" where
  "mqtt_packet_names = [''RESERVED'', ''CONNECT'', ''CONNACK'', ''PUBLISH'', ''PUBACK'', ''PUBREC'', ''PUBREL'', ''PUBCOMP'',
     ''SUBSCRIBE'', ''SUBACK'', ''UNSUBSCRIBE'', ''UNSUBACK'', ''PINGREQ'', ''PINGRESP'', ''DISCONNECT'']"

definition GW_getName :: "MQTTGWPacket \<Rightarrow> string" where
  "GW_getName p =
     (if GW_getType p > uint (msgType_code DISCONNECT) then ''UNKNOWN'' else mqtt_packet_names ! nat (GW_getType p))"

subsection \<open>MQTTSNPacket: data\<close>

record MQTTSNPacket =
  spk_buf :: "byte list option"
  spk_bufLen :: int

definition SN_new :: MQTTSNPacket where
  "SN_new = \<lparr>spk_buf = None, spk_bufLen = 0\<rparr>"

definition SN_copy :: "MQTTSNPacket \<Rightarrow> MQTTSNPacket option" where
  "SN_copy packet = do {
     d \<leftarrow> calloc (spk_bufLen packet);
     d \<leftarrow> memcpy d 0 (spk_buf packet) (spk_bufLen packet);
     Some \<lparr>spk_buf = Some d, spk_bufLen = spk_bufLen packet\<rparr> }"

text \<open>The length is an \<open>unsigned short\<close>: a negative result of a serialiser arrives as a large number.\<close>

definition SN_desirialize :: "buffer \<Rightarrow> int \<Rightarrow> MQTTSNPacket option" where
  "SN_desirialize buf n = do {
     let len = uint (word_of_int n :: u16);
     d \<leftarrow> calloc len;
     d \<leftarrow> memcpy d 0 (Some buf) len;
     Some \<lparr>spk_buf = Some d, spk_bufLen = len\<rparr> }"

text \<open>A setter: a local array of \<open>n\<close> bytes, a serialiser, and the copy of what it wrote.\<close>

definition SN_set :: "nat \<Rightarrow> (buffer \<Rightarrow> int \<Rightarrow> (buffer \<times> int) option) \<Rightarrow> MQTTSNPacket option" where
  "SN_set n ser = do { (buf, len) \<leftarrow> ser (replicate n 0) (int n); SN_desirialize buf len }"

definition SN_recv :: "'s getfn \<Rightarrow> 's \<Rightarrow> MQTTSNPacket \<Rightarrow> (int \<times> MQTTSNPacket \<times> 's) option" where
  "SN_recv net_read s packet = do {
     (len, bs, s) \<leftarrow> net_read s (int MQTTSNGW_MAX_PACKET_SIZE);
     buf \<leftarrow> memcpy (replicate MQTTSNGW_MAX_PACKET_SIZE 0) 0 (Some bs) (int (length bs));
     if len > 1 then do { packet \<leftarrow> SN_desirialize buf len; Some (spk_bufLen packet, packet, s) }
     else Some (0, packet, s) }"

subsection \<open>MQTTSNPacket: fields at fixed places\<close>

text \<open>\<open>_buf[i]\<close>\<close>

definition SN_byte :: "MQTTSNPacket \<Rightarrow> int \<Rightarrow> byte option" where
  "SN_byte p i = do { b \<leftarrow> spk_buf p; array_get b i }"

definition SN_decode :: "MQTTSNPacket \<Rightarrow> int option" where
  "SN_decode p = do { b \<leftarrow> spk_buf p; (n, _) \<leftarrow> MQTTSNPacket_decode b (spk_bufLen p) (Some 0); Some n }"

definition SN_getType :: "MQTTSNPacket \<Rightarrow> int option" where
  "SN_getType p =
     (if spk_bufLen p = 0 then Some 0
      else do { n \<leftarrow> SN_decode p; c \<leftarrow> SN_byte p n; Some (uint c) })"

definition SN_isQoSMinusPUBLISH :: "MQTTSNPacket \<Rightarrow> bool option" where
  "SN_isQoSMinusPUBLISH p =
     (if spk_bufLen p = 0 then Some False
      else do {
        n \<leftarrow> SN_decode p;
        c \<leftarrow> SN_byte p n;
        if c = sn_code MQTTSN_PUBLISH then do { f \<leftarrow> SN_byte p (n + 1); Some (f AND 0x60 = 0x60) } else Some False })"

definition SN_isAccepted :: "MQTTSNPacket \<Rightarrow> bool option" where
  "SN_isAccepted p = do {
     t \<leftarrow> SN_getType p;
     if t = uint (sn_code MQTTSN_CONNACK) then do { c \<leftarrow> SN_byte p 2; Some (c = 0) } else Some False }"

definition SN_isDuplicate :: "MQTTSNPacket \<Rightarrow> bool option" where
  "SN_isDuplicate p = do {
     n \<leftarrow> SN_decode p;
     c \<leftarrow> SN_byte p (n + 1);
     Some (c AND 0x80 \<noteq> 0) }"

text \<open>Where the message identifier is: the place for each type of packet.\<close>

definition SN_msgId_at :: "MQTTSNPacket \<Rightarrow> int option option" where
  "SN_msgId_at p = do {
     t \<leftarrow> SN_getType p;
     if t = uint (sn_code MQTTSN_PUBLISH) then do { n \<leftarrow> SN_decode p; Some (Some (n + 4)) }
     else if t \<in> {uint (sn_code MQTTSN_PUBACK), uint (sn_code MQTTSN_REGISTER), uint (sn_code MQTTSN_REGACK)} then Some (Some 4)
     else if t \<in> {uint (sn_code MQTTSN_PUBREC), uint (sn_code MQTTSN_PUBREL), uint (sn_code MQTTSN_PUBCOMP), uint (sn_code MQTTSN_UNSUBACK)}
     then Some (Some 2)
     else if t \<in> {uint (sn_code MQTTSN_SUBSCRIBE), uint (sn_code MQTTSN_UNSUBSCRIBE)} then do { n \<leftarrow> SN_decode p; Some (Some (n + 2)) }
     else if t = uint (sn_code MQTTSN_SUBACK) then Some (Some 5)
     else Some None }"

definition SN_getMsgId :: "MQTTSNPacket \<Rightarrow> int option" where
  "SN_getMsgId p = do {
     at \<leftarrow> SN_msgId_at p;
     (case at of
        None \<Rightarrow> Some 0
      | Some i \<Rightarrow> do { a \<leftarrow> SN_byte p i; b \<leftarrow> SN_byte p (i + 1); Some (256 * uint a + uint b) }) }"

definition SN_setMsgId :: "MQTTSNPacket \<Rightarrow> u16 \<Rightarrow> MQTTSNPacket option" where
  "SN_setMsgId p msgId = do {
     at \<leftarrow> SN_msgId_at p;
     (case at of
        None \<Rightarrow> Some p
      | Some i \<Rightarrow> do {
          b \<leftarrow> spk_buf p;
          b \<leftarrow> (if i < 0 then None else store b (nat i) (word_of_int (uint msgId div 256)));
          b \<leftarrow> store b (nat i + 1) (word_of_int (uint msgId mod 256));
          Some (p\<lparr>spk_buf := Some b\<rparr>) }) }"

subsection \<open>MQTTSNPacket: building packets\<close>

definition SN_setADVERTISE :: "byte \<Rightarrow> u16 \<Rightarrow> MQTTSNPacket option" where
  "SN_setADVERTISE gatewayid duration = SN_set 5 (\<lambda>buf n. MQTTSNSerialize_advertise buf n gatewayid duration)"

definition SN_setGWINFO :: "byte \<Rightarrow> MQTTSNPacket option" where
  "SN_setGWINFO gatewayId = SN_set 3 (\<lambda>buf n. MQTTSNSerialize_gwinfo buf n gatewayId 0 None)"

definition SN_setCONNACK :: "byte \<Rightarrow> MQTTSNPacket option" where
  "SN_setCONNACK returnCode = SN_set 3 (\<lambda>buf n. MQTTSNSerialize_connack buf n (uint returnCode))"

definition SN_setWILLTOPICREQ :: "MQTTSNPacket option" where
  "SN_setWILLTOPICREQ = SN_set 2 MQTTSNSerialize_willtopicreq"

definition SN_setWILLMSGREQ :: "MQTTSNPacket option" where
  "SN_setWILLMSGREQ = SN_set 2 MQTTSNSerialize_willmsgreq"

definition SN_setREGISTER :: "u16 \<Rightarrow> u16 \<Rightarrow> MQTTSNString \<Rightarrow> MQTTSNPacket option" where
  "SN_setREGISTER topicId msgId topicName =
     SN_set MQTTSNGW_MAX_PACKET_SIZE (\<lambda>buf n. MQTTSNSerialize_register buf n topicId msgId topicName)"

definition SN_setREGACK :: "u16 \<Rightarrow> u16 \<Rightarrow> byte \<Rightarrow> MQTTSNPacket option" where
  "SN_setREGACK topicId msgId returnCode = SN_set 7 (\<lambda>buf n. MQTTSNSerialize_regack buf n topicId msgId returnCode)"

definition SN_setPUBLISH :: "byte \<Rightarrow> int \<Rightarrow> byte \<Rightarrow> u16 \<Rightarrow> MQTTSN_topicid \<Rightarrow> cptr \<Rightarrow> u16 \<Rightarrow> MQTTSNPacket option" where
  "SN_setPUBLISH dup qos retained msgId topic payload payloadlen =
     SN_set MQTTSNGW_MAX_PACKET_SIZE
       (\<lambda>buf n. MQTTSNSerialize_publish buf n dup qos retained msgId topic payload (uint payloadlen))"

definition SN_setPUBACK :: "u16 \<Rightarrow> u16 \<Rightarrow> byte \<Rightarrow> MQTTSNPacket option" where
  "SN_setPUBACK topicId msgId returnCode = SN_set 7 (\<lambda>buf n. MQTTSNSerialize_puback buf n topicId msgId returnCode)"

definition SN_setPUBREC :: "u16 \<Rightarrow> MQTTSNPacket option" where
  "SN_setPUBREC msgId = SN_set 4 (\<lambda>buf n. MQTTSNSerialize_pubrec buf n msgId)"

definition SN_setPUBREL :: "u16 \<Rightarrow> MQTTSNPacket option" where
  "SN_setPUBREL msgId = SN_set 4 (\<lambda>buf n. MQTTSNSerialize_pubrel buf n msgId)"

definition SN_setPUBCOMP :: "u16 \<Rightarrow> MQTTSNPacket option" where
  "SN_setPUBCOMP msgId = SN_set 4 (\<lambda>buf n. MQTTSNSerialize_pubcomp buf n msgId)"

definition SN_setSUBACK :: "int \<Rightarrow> u16 \<Rightarrow> u16 \<Rightarrow> byte \<Rightarrow> MQTTSNPacket option" where
  "SN_setSUBACK qos topicId msgId returnCode = SN_set 8 (\<lambda>buf n. MQTTSNSerialize_suback buf n qos topicId msgId returnCode)"

definition SN_setUNSUBACK :: "u16 \<Rightarrow> MQTTSNPacket option" where
  "SN_setUNSUBACK msgId = SN_set 4 (\<lambda>buf n. MQTTSNSerialize_unsuback buf n msgId)"

definition SN_setPINGRESP :: "MQTTSNPacket option" where
  "SN_setPINGRESP = SN_set 32 MQTTSNSerialize_pingresp"

definition SN_setDISCONNECT :: "u16 \<Rightarrow> MQTTSNPacket option" where
  "SN_setDISCONNECT duration = SN_set 4 (\<lambda>buf n. MQTTSNSerialize_disconnect buf n (uint duration))"

definition SN_setWILLTOPICRESP :: "byte \<Rightarrow> MQTTSNPacket option" where
  "SN_setWILLTOPICRESP returnCode =
     SN_set MQTTSNGW_MAX_PACKET_SIZE (\<lambda>buf n. MQTTSNSerialize_willtopicresp buf n (uint returnCode))"

definition SN_setWILLMSGRESP :: "byte \<Rightarrow> MQTTSNPacket option" where
  "SN_setWILLMSGRESP returnCode =
     SN_set MQTTSNGW_MAX_PACKET_SIZE (\<lambda>buf n. MQTTSNSerialize_willmsgresp buf n (uint returnCode))"

definition SN_setCONNECT :: "MQTTSNPacket_connectData \<Rightarrow> MQTTSNPacket option" where
  "SN_setCONNECT options = SN_set MQTTSNGW_MAX_PACKET_SIZE (\<lambda>buf n. MQTTSNSerialize_connect buf n options)"

definition SN_setPINGREQ :: "MQTTSNString \<Rightarrow> MQTTSNPacket option" where
  "SN_setPINGREQ clientId = SN_set MQTTSNGW_MAX_PACKET_SIZE (\<lambda>buf n. MQTTSNSerialize_pingreq buf n clientId)"

subsection \<open>MQTTSNPacket: taking packets apart\<close>

definition SN_getCONNECT :: "MQTTSNPacket_connectData \<Rightarrow> MQTTSNPacket \<Rightarrow> (int \<times> MQTTSNPacket_connectData) option" where
  "SN_getCONNECT data p = do { b \<leftarrow> spk_buf p; MQTTSNDeserialize_connect data b (spk_bufLen p) }"

definition SN_getWILLTOPIC :: "willtopic_out \<Rightarrow> MQTTSNPacket \<Rightarrow> (int \<times> willtopic_out) option" where
  "SN_getWILLTOPIC out p = do { b \<leftarrow> spk_buf p; MQTTSNDeserialize_willtopic out b (spk_bufLen p) }"

definition SN_getWILLMSG :: "MQTTSNString \<Rightarrow> MQTTSNPacket \<Rightarrow> (int \<times> MQTTSNString) option" where
  "SN_getWILLMSG willmsg p = do { b \<leftarrow> spk_buf p; MQTTSNDeserialize_willmsg willmsg b (spk_bufLen p) }"

definition SN_getREGISTER :: "register_out \<Rightarrow> MQTTSNPacket \<Rightarrow> (int \<times> register_out) option" where
  "SN_getREGISTER out p = do { b \<leftarrow> spk_buf p; MQTTSNDeserialize_register out b (spk_bufLen p) }"

definition SN_getREGACK :: "topic_ack_out \<Rightarrow> MQTTSNPacket \<Rightarrow> (int \<times> topic_ack_out) option" where
  "SN_getREGACK out p = do { b \<leftarrow> spk_buf p; MQTTSNDeserialize_regack out b (spk_bufLen p) }"

definition SN_getPUBLISH :: "snpublish_out \<Rightarrow> MQTTSNPacket \<Rightarrow> (int \<times> snpublish_out) option" where
  "SN_getPUBLISH out p = do { b \<leftarrow> spk_buf p; MQTTSNDeserialize_publish out b (spk_bufLen p) }"

definition SN_getPUBACK :: "topic_ack_out \<Rightarrow> MQTTSNPacket \<Rightarrow> (int \<times> topic_ack_out) option" where
  "SN_getPUBACK out p = do { b \<leftarrow> spk_buf p; MQTTSNDeserialize_puback out b (spk_bufLen p) }"

definition SN_getACK :: "u16 \<Rightarrow> MQTTSNPacket \<Rightarrow> (int \<times> u16) option" where
  "SN_getACK msgId p = do {
     b \<leftarrow> spk_buf p;
     (rc, out) \<leftarrow> MQTTSNDeserialize_ack \<lparr>snack_type = 0, snack_packetid = msgId\<rparr> b (spk_bufLen p);
     Some (rc, snack_packetid out) }"

definition SN_getSUBSCRIBE :: "snsubscribe_out \<Rightarrow> MQTTSNPacket \<Rightarrow> (int \<times> snsubscribe_out) option" where
  "SN_getSUBSCRIBE out p = do { b \<leftarrow> spk_buf p; MQTTSNDeserialize_subscribe out b (spk_bufLen p) }"

definition SN_getUNSUBSCRIBE :: "snunsubscribe_out \<Rightarrow> MQTTSNPacket \<Rightarrow> (int \<times> snunsubscribe_out) option" where
  "SN_getUNSUBSCRIBE out p = do { b \<leftarrow> spk_buf p; MQTTSNDeserialize_unsubscribe out b (spk_bufLen p) }"

definition SN_getDISCONNECT :: "MQTTSNPacket \<Rightarrow> (int \<times> u16) option" where
  "SN_getDISCONNECT p = do {
     b \<leftarrow> spk_buf p;
     (rc, dur) \<leftarrow> MQTTSNDeserialize_disconnect 0 b (spk_bufLen p);
     Some (rc, word_of_int dur) }"

subsection \<open>What a packet is on the wire\<close>

text \<open>The bytes of an MQTT packet, and the packets whose remaining length can be sent.\<close>

definition GW_wire :: "MQTTGWPacket \<Rightarrow> byte list" where
  "GW_wire p = gp_header p # varint (nat (gp_remainingLength p)) @ cptr_bytes (gp_data p) (gp_remainingLength p)"

definition GW_ok :: "MQTTGWPacket \<Rightarrow> bool" where
  "GW_ok p \<longleftrightarrow> cptr_holds (gp_data p) (gp_remainingLength p) \<and> gp_remainingLength p < 268435456"

lemma encode_emit:
  "0 \<le> n \<Longrightarrow> Option.bind (emit buf out) (\<lambda>w. Option.bind (MQTTPacket_encode w n) (\<lambda>(b, l). k b (snd w + nat l) l)) =
   Option.bind (emit buf (out @ varint (nat n))) (\<lambda>(b, q). k b q (int (length (varint (nat n)))))"
  using encode_loop_emit [of "length out" 0 out buf "nat n"]
  by (auto simp: emit_def MQTTPacket_encode_def)

lemma writeInt_start: "Option.bind (writeInt (buf, 0) n) k = Option.bind (emit buf (be16 n)) k"
  using writeInt_emit [of buf "[]" n k] by (simp add: emit_Nil)

lemma GW_getPacketData_eq:
  assumes "GW_ok p"
  shows "GW_getPacketData p buf =
    (if length (GW_wire p) \<le> length buf
     then Some (int (length (GW_wire p)), GW_wire p @ drop (length (GW_wire p)) buf) else None)"
proof -
  let ?n = "gp_remainingLength p" and ?d = "cptr_bytes (gp_data p) (gp_remainingLength p)"
  let ?v = "varint (nat ?n)"
  have n: "0 \<le> ?n" "?n = int (length ?d)"
    using assms by (auto simp: GW_ok_def cptr_holds_def length_cptr_bytes)
  have src: "?d = [] \<or> (\<exists>s. gp_data p = Some s \<and> take (length ?d) s = ?d)"
    by (cases "gp_data p") (auto simp: cptr_bytes_def min_def)
  have "GW_getPacketData p buf =
    Option.bind (emit buf (gp_header p # ?v))
      (\<lambda>(b, q). do { b \<leftarrow> memcpy b q (gp_data p) ?n; Some (1 + int (length ?v) + ?n, b) })"
    using encode_emit [OF n(1), of buf "[gp_header p]"
        "\<lambda>b q l. do { b \<leftarrow> memcpy b q (gp_data p) ?n; Some (1 + l + ?n, b) }"]
    by (simp add: GW_getPacketData_def writeChar_start case_prod_beta')
  then show ?thesis
    using memcpy_emit [OF n(2) src, of "gp_header p # ?v" buf] n
    by (auto simp: emit_def GW_wire_def)
qed

lemma GW_getPacketLength_eq: "GW_ok p \<Longrightarrow> GW_getPacketLength p = Some (int (length (GW_wire p)))"
  using encode_loop_emit [of 0 0 "[]" "replicate 4 0" "nat (gp_remainingLength p)"] length_cptr_bytes [of "gp_data p" "gp_remainingLength p"]
  by (auto simp: GW_getPacketLength_def MQTTPacket_encode_def GW_ok_def GW_wire_def length_varint cptr_holds_def)

lemma GW_send_eq:
  assumes "GW_ok p"
  shows "GW_send net_send s p = (if length (GW_wire p) \<le> 1024 then Some (net_send s (GW_wire p)) else None)"
  using assms by (simp add: GW_send_def GW_getPacketData_eq)

text \<open>A network that delivers the bytes of a stream, as many as are asked for.\<close>

definition stream_recv :: "byte list getfn" where
  "stream_recv s n = (if nat n \<le> length s then Some (n, take (nat n) s, drop (nat n) s) else Some (- 1, [], s))"

lemma stream_recv_append: "n = int (length xs) \<Longrightarrow> stream_recv (xs @ ys) n = Some (n, xs, ys)"
  by (simp add: stream_recv_def)

lemma stream_recv_Cons: "stream_recv (x # ys) 1 = Some (1, [x], ys)"
  by (simp add: stream_recv_def)

lemma GW_recv_len_varint:
  "len + int (length (varint n)) \<le> 3 \<Longrightarrow>
   GW_recv_len stream_recv (varint n @ ys) c len m v =
     Some (0, len + int (length (varint n)), v + int n * m, ys)"
proof (induction n arbitrary: c len m v rule: varint.induct)
  case (1 n)
  show ?case
  proof (cases "n < 128")
    case True
    then show ?thesis
      using "1.prems" by (simp add: varint.simps [of n] GW_recv_len.simps [of _ _ _ len] stream_recv_Cons varint_last)
  next
    case False
    let ?d = "word_of_nat (n mod 128) OR 128 :: byte"
    have v: "varint n = ?d # varint (n div 128)"
      using False by (subst varint.simps) simp
    then have le: "(len + 1) + int (length (varint (n div 128))) \<le> 3"
      using "1.prems" by simp
    have e: "int n = int (n mod 128) + 128 * int (n div 128)"
      by (simp add: zmod_int zdiv_int)
    have n: "int (n mod 128) * m + int (n div 128) * (m * 128) = int n * m"
      by (subst e) (simp add: algebra_simps)
    have "GW_recv_len stream_recv (varint n @ ys) c len m v =
          GW_recv_len stream_recv (varint (n div 128) @ ys) (Some ?d) (len + 1) (m * 128) (v + int (n mod 128) * m)"
      using le by (subst GW_recv_len.simps) (simp add: v stream_recv_Cons varint_more)
    also have "\<dots> = Some (0, len + 1 + int (length (varint (n div 128))),
        v + int (n mod 128) * m + int (n div 128) * (m * 128), ys)"
      using False le by (intro "1.IH") auto
    finally show ?thesis
      using n by (simp add: v add.assoc)
  qed
qed

lemma GW_recv_len_long:
  "len + int (length (varint n)) > 3 \<Longrightarrow> len \<le> 3 \<Longrightarrow>
   \<exists>v' t. GW_recv_len stream_recv (varint n @ ys) c len m v = Some (- 2, 4, v', t)"
proof (induction n arbitrary: c len m v rule: varint.induct)
  case (1 n)
  show ?case
  proof (cases "len = 3")
    case True
    then show ?thesis
      by (simp add: GW_recv_len.simps)
  next
    case False
    then have big: "\<not> n < 128"
      using "1.prems" by (auto simp: varint.simps [of n])
    let ?d = "word_of_nat (n mod 128) OR 128 :: byte"
    have v: "varint n = ?d # varint (n div 128)"
      using big by (subst varint.simps) simp
    then have "\<exists>v' t. GW_recv_len stream_recv (varint (n div 128) @ ys) (Some ?d) (len + 1) (m * 128) (v + int (n mod 128) * m) =
      Some (- 2, 4, v', t)"
      using "1.prems" False by (intro "1.IH" [OF big]) auto
    then show ?thesis
      using "1.prems" False by (subst GW_recv_len.simps) (simp add: v stream_recv_Cons varint_more)
  qed
qed

lemma GW_recv_frame:
  assumes "length body < 2097152"
  shows "GW_recv stream_recv ((h # varint (length body) @ body) @ rest) GW_new =
    Some (1 + int (length (varint (length body))) + int (length body),
      \<lparr>gp_header = h, gp_remainingLength = int (length body), gp_data = (if body = [] then None else Some body)\<rparr>, rest)"
proof -
  have len: "int (length (varint (length body))) \<le> 3"
    using assms by (simp add: length_varint)
  show ?thesis
    using GW_recv_len_varint [of 0 "length body" "body @ rest" None 1 0] len
    by (auto simp: GW_recv_def GW_new_def stream_recv_Cons stream_recv_append Let_def calloc_def memcpy_def)
qed

subsection \<open>PUBLISH between the gateway and the broker\<close>

text \<open>The arguments of the packet library's PUBLISH for the fields of a \<open>Publish\<close>.\<close>

definition GW_publish_args :: "GWPublish \<Rightarrow> publish_args" where
  "GW_publish_args pub =
     (header_dup (gpub_header pub), uint (header_qos (gpub_header pub)), header_retain (gpub_header pub), word_of_int (gpub_msgId pub),
      \<lparr>cstring = None, lenstring = \<lparr>ls_len = gpub_topiclen pub, ls_data = gpub_topic pub\<rparr>\<rparr>, gpub_payload pub, gpub_payloadlen pub)"

definition GW_publish_ok :: "GWPublish \<Rightarrow> bool" where
  "GW_publish_ok pub \<longleftrightarrow> cptr_holds (gpub_topic pub) (gpub_topiclen pub) \<and> gpub_topiclen pub < 65536 \<and>
     0 \<le> gpub_msgId pub \<and> gpub_msgId pub < 65536 \<and> cptr_holds (gpub_payload pub) (gpub_payloadlen pub) \<and>
     4 + gpub_topiclen pub + gpub_payloadlen pub < 268435456"

lemma header_as_publish:
  "set_header_type 3 h = publish_header (header_dup h) (uint (header_qos h)) (header_retain h)"
  by (rule bit_word_eqI) (auto simp: publish_header_def header_defs bit_bf_set bit_bf_get less_Suc_eq numeral_eq_Suc)

lemma header_qos_set_type: "header_qos (set_header_type t h) = header_qos h" "header_type (set_header_type 3 h) = 3"
  by (simp_all add: header_defs field_simps)

lemma qos_range: "0 \<le> uint (header_qos h)" "uint (header_qos h) \<le> 3"
proof -
  have "uint (header_qos h) < 4"
    unfolding header_defs bf_get_def unsigned_take_bit_eq using take_bit_int_less_exp [of 2 "uint (drop_bit 1 h)"] by simp
  then show "0 \<le> uint (header_qos h)" "uint (header_qos h) \<le> 3" by simp_all
qed

lemma MQTTString_len:
  assumes "cptr_holds t n"
  shows "MQTTString_bytes \<lparr>cstring = None, lenstring = \<lparr>ls_len = n, ls_data = t\<rparr>\<rparr> = cptr_bytes t n"
  using assms by (auto simp: MQTTString_bytes_def cptr_bytes_def cptr_holds_def split: option.splits)

lemma GW_publish_args_ok:
  assumes "GW_publish_ok pub"
  shows "publish_ok (GW_publish_args pub)"
proof -
  have "length (cptr_bytes (gpub_topic pub) (gpub_topiclen pub)) = nat (gpub_topiclen pub)"
    "length (cptr_bytes (gpub_payload pub) (gpub_payloadlen pub)) = nat (gpub_payloadlen pub)"
    using assms length_cptr_bytes [of "gpub_topic pub" "gpub_topiclen pub"] length_cptr_bytes [of "gpub_payload pub" "gpub_payloadlen pub"]
    by (auto simp: GW_publish_ok_def)
  then show ?thesis
    using assms qos_range [of "gpub_header pub"]
    by (auto simp: GW_publish_args_def GW_publish_ok_def MQTTString_ok_def MQTTString_len cptr_holds_def split: option.splits)
qed

definition GW_publish_body :: "GWPublish \<Rightarrow> byte list" where
  "GW_publish_body pub = publish_body (GW_publish_args pub)"

lemma GW_publish_body_eq:
  assumes "GW_publish_ok pub"
  shows "GW_publish_body pub = be16 (gpub_topiclen pub) @ cptr_bytes (gpub_topic pub) (gpub_topiclen pub)
    @ (if header_qos (gpub_header pub) > 0 then be16 (gpub_msgId pub) else []) @ cptr_bytes (gpub_payload pub) (gpub_payloadlen pub)"
proof -
  have q: "0 < uint (header_qos (gpub_header pub)) \<longleftrightarrow> header_qos (gpub_header pub) > 0"
    by (simp add: word_less_def)
  have "uint (word_of_int (gpub_msgId pub) :: u16) = gpub_msgId pub"
    using assms by (simp add: GW_publish_ok_def uint_word_of_int)
  then show ?thesis
    using assms length_cptr_bytes [of "gpub_topic pub" "gpub_topiclen pub"]
    by (simp add: GW_publish_body_def GW_publish_args_def MQTTString_len lp_string_def GW_publish_ok_def q)
qed

text \<open>The packet that \<open>setPUBLISH\<close> makes. For QoS 0 two bytes of the allocated memory are left over.\<close>

lemma GW_setPUBLISH_eq:
  assumes "GW_publish_ok pub"
  shows "GW_setPUBLISH p pub = Some (1, \<lparr>gp_header = set_header_type 3 (gpub_header pub),
    gp_remainingLength = int (length (GW_publish_body pub)),
    gp_data = Some (GW_publish_body pub @ (if header_qos (gpub_header pub) > 0 then [] else [0, 0]))\<rparr>)"
proof -
  let ?t = "cptr_bytes (gpub_topic pub) (gpub_topiclen pub)" and ?y = "cptr_bytes (gpub_payload pub) (gpub_payloadlen pub)"
  have h: "cptr_holds (gpub_topic pub) (gpub_topiclen pub)" "cptr_holds (gpub_payload pub) (gpub_payloadlen pub)"
    using assms by (simp_all add: GW_publish_ok_def)
  note len = length_cptr_bytes [OF h(1)] length_cptr_bytes [OF h(2)]
  let ?len = "4 + gpub_topiclen pub + gpub_payloadlen pub"
  define d :: buffer where d: "d = replicate (4 + length ?t + length ?y) 0"
  have "nat ?len = 4 + length ?t + length ?y" "0 \<le> ?len"
    using len by linarith+
  then have c: "calloc ?len = Some d"
    by (simp add: calloc_def d)
  have mem: "Option.bind (emit d out) (\<lambda>w. Option.bind (memcpy (fst w) (snd w) (gpub_payload pub) (gpub_payloadlen pub)) k) =
    Option.bind (emit d (out @ ?y)) (\<lambda>w. k (fst w))" for out and k :: "byte list \<Rightarrow> (int \<times> MQTTGWPacket) option"
    using memcpy_emit [of "gpub_payloadlen pub" ?y "gpub_payload pub" out d] len h(2)
    by (auto simp: emit_def cptr_bytes_def cptr_holds_def split: option.splits)
  show ?thesis
    using c len unfolding GW_publish_body_eq [OF assms]
    by (cases "header_qos (gpub_header pub) > 0")
      (simp_all add: GW_setPUBLISH_def header_qos_set_type writeInt_start write_mem_cptr_emit [OF h(1)] writeInt_emit mem GW_clearData_def,
       simp_all add: emit_def d numeral_2_eq_2)
qed

text \<open>What a \<open>Publish\<close> says, as bytes.\<close>

definition GW_publish_view :: "GWPublish \<Rightarrow> MQTTHeader \<times> byte list \<times> int \<times> byte list" where
  "GW_publish_view pub = (gpub_header pub, cptr_bytes (gpub_topic pub) (gpub_topiclen pub), gpub_msgId pub,
     cptr_bytes (gpub_payload pub) (gpub_payloadlen pub))"

lemma GW_getPUBLISH_body:
  assumes "GW_publish_ok pub" "gp_header p = set_header_type 3 (gpub_header pub)"
    "gp_remainingLength p = int (length (GW_publish_body pub))" "gp_data p = Some (GW_publish_body pub @ pad)"
  shows "\<exists>pub'. GW_getPUBLISH out p = Some (1, pub') \<and> GW_publish_view pub' =
    (set_header_type 3 (gpub_header pub), cptr_bytes (gpub_topic pub) (gpub_topiclen pub),
     if header_qos (gpub_header pub) > 0 then gpub_msgId pub else 0, cptr_bytes (gpub_payload pub) (gpub_payloadlen pub)) \<and>
    gpub_topiclen pub' = gpub_topiclen pub"
proof -
  let ?t = "cptr_bytes (gpub_topic pub) (gpub_topiclen pub)" and ?y = "cptr_bytes (gpub_payload pub) (gpub_payloadlen pub)"
  have h: "cptr_holds (gpub_topic pub) (gpub_topiclen pub)" "cptr_holds (gpub_payload pub) (gpub_payloadlen pub)"
    and r: "0 \<le> gpub_topiclen pub" "gpub_topiclen pub < 65536" "0 \<le> gpub_msgId pub" "gpub_msgId pub < 65536"
    using assms(1) by (auto simp: GW_publish_ok_def cptr_holds_def)
  have len: "gpub_topiclen pub = int (length ?t)" "gpub_payloadlen pub = int (length ?y)"
    using length_cptr_bytes [OF h(1)] length_cptr_bytes [OF h(2)] by simp_all
  have drop2: "drop 2 (be16 n @ xs) = xs" for n xs
    by (simp add: be16_def)
  have cb: "cptr_bytes (Some (?t @ xs)) (gpub_topiclen pub) = ?t" "cptr_bytes (Some (?y @ xs)) (gpub_payloadlen pub) = ?y" for xs
    using h by simp_all
  show ?thesis
    using assms(2-4) r unfolding GW_publish_body_eq [OF assms(1)]
    by (cases "header_qos (gpub_header pub) > 0")
      (simp_all add: GW_getPUBLISH_def header_qos_set_type read_simps drop2 GW_publish_view_def h cb len(2) [symmetric] len(1) [symmetric])
qed

subsection \<open>Datagrams of the gateway\<close>

text \<open>The datagram of a body. Every setter makes it if it fits the local array; a serialiser that refuses returns -2, which becomes a copy of
  65534 bytes from that array.\<close>

definition SN_frame :: "byte list \<Rightarrow> MQTTSNPacket" where
  "SN_frame body = \<lparr>spk_buf = Some (sn_frame body), spk_bufLen = int (length (sn_frame body))\<rparr>"

lemma u16_value: "0 \<le> n \<Longrightarrow> n < 65536 \<Longrightarrow> uint (word_of_int n :: u16) = n"
  by (simp add: uint_word_of_int)

lemma SN_desirialize_error: "length buf < 65534 \<Longrightarrow> SN_desirialize buf (- 2) = None"
  by (simp add: SN_desirialize_def calloc_def memcpy_def)

lemma SN_desirialize_frame:
  assumes "length bs < 65536"
  shows "SN_desirialize (bs @ rest) (int (length bs)) = Some \<lparr>spk_buf = Some bs, spk_bufLen = int (length bs)\<rparr>"
proof -
  have "uint (word_of_int (int (length bs)) :: u16) = int (length bs)"
    using assms by (intro u16_value) simp_all
  then show ?thesis
    unfolding SN_desirialize_def Let_def by (simp only:) (simp add: calloc_def memcpy_def)
qed

context sn_writer
begin

lemma gateway_setter:
  assumes "ok a" "n < 65534"
  shows "SN_set n (\<lambda>buf m. ser buf m a) = (if length (sn_frame (body a)) \<le> n then Some (SN_frame (body a)) else None)"
proof (cases "length (sn_frame (body a)) \<le> n")
  case True
  then have "ser (replicate n 0) (int n) a =
    Some (sn_frame (body a) @ drop (length (sn_frame (body a))) (replicate n 0), int (length (sn_frame (body a))))"
    using assms(1) by (intro writes_wire) (simp_all flip: length_sn_frame [OF frame])
  then show ?thesis
    using True assms(2) SN_desirialize_frame [of "sn_frame (body a)" "drop (length (sn_frame (body a))) (replicate n 0)"]
    by (simp add: SN_set_def SN_frame_def)
next
  case False
  then have "ser (replicate n 0) (int n) a = Some (replicate n 0, - 2)"
    using assms(1) by (intro short_buffer) (simp_all flip: length_sn_frame [OF frame])
  then show ?thesis
    using False assms(2) SN_desirialize_error [of "replicate n 0"] by (simp add: SN_set_def)
qed

end

lemma sn_frame_split: "frame_ok body \<Longrightarrow> \<exists>f. sn_frame body = f @ body \<and> int (length f) = sn_lenlen body"
  by (auto simp: sn_frame_def length_sn_len_field MQTTSNPacket_len_def sn_lenlen_def frame_ok_def)

lemma SN_decode_frame: "frame_ok body \<Longrightarrow> SN_decode (SN_frame body) = Some (sn_lenlen body)"
  using decode_sn_frame [of body "int (length (sn_frame body))" "[]" "Some 0"] by (simp add: SN_decode_def SN_frame_def)

lemma SN_byte_frame:
  assumes "frame_ok body" "k < length body"
  shows "SN_byte (SN_frame body) (sn_lenlen body + int k) = Some (body ! k)"
proof -
  obtain f where f: "sn_frame body = f @ body" "int (length f) = sn_lenlen body"
    using sn_frame_split [OF assms(1)] by blast
  then have "sn_lenlen body + int k = int (length f + k)" by simp
  then show ?thesis
    unfolding \<open>sn_lenlen body + int k = int (length f + k)\<close>
    using f(1) assms(2) by (simp add: SN_byte_def SN_frame_def array_get_def nat_plus_as_int [symmetric] del: of_nat_add)
qed

lemma SN_getType_frame:
  assumes "frame_ok body"
  shows "SN_getType (SN_frame body) = Some (uint (hd body))"
proof -
  have b: "body \<noteq> []"
    using assms by (simp add: frame_ok_def)
  then have "spk_bufLen (SN_frame body) \<noteq> 0"
    by (simp add: SN_frame_def sn_frame_def sn_len_field_def)
  then show ?thesis
    using SN_byte_frame [OF assms, of 0] b by (simp add: SN_getType_def SN_decode_frame [OF assms] hd_conv_nth)
qed

lemma store_byte: "k < length buf \<Longrightarrow> store buf k c = Some (buf[k := c])"
  by (simp add: store_def)

text \<open>The two bytes at an offset of the body.\<close>

lemma SN_frame_update:
  assumes "frame_ok body" "Suc k < length body"
  shows "\<exists>f. spk_buf (SN_frame body) = Some (f @ body) \<and> sn_lenlen body = int (length f) \<and>
    \<lparr>spk_buf = Some (f @ body[k := c, Suc k := d]), spk_bufLen = spk_bufLen (SN_frame body)\<rparr> = SN_frame (body[k := c, Suc k := d])"
proof -
  obtain f where f: "sn_frame body = f @ body" "int (length f) = sn_lenlen body"
    using sn_frame_split [OF assms(1)] by blast
  have "sn_frame (body[k := c, Suc k := d]) = f @ body[k := c, Suc k := d]"
    using f(1) by (simp add: sn_frame_def)
  then show ?thesis
    using f by (intro exI [of _ f]) (simp add: SN_frame_def)
qed

lemma writeInt_mid:
  assumes "length ab = 2" "k = length xs"
  shows "writeInt (xs @ ab @ ys, k) n = Some (xs @ be16 n @ ys, k + 2)"
proof -
  obtain a b where "ab = [a, b]"
    using assms(1) by (auto simp: length_Suc_conv numeral_2_eq_2)
  then show ?thesis
    by (simp add: writeInt_def writeChar_def store_def be16_def assms(2) list_update_append)
qed

subsection \<open>Properties\<close>

text \<open>A PUBLISH that the gateway builds for the broker. From well-formed fields (a topic below 65536 bytes, a payload that is there, a
  message identifier of 16 bits) \<open>setPUBLISH\<close> makes a packet from which \<open>getPUBLISH\<close> reads the same topic, payload and
  flags (and, for QoS above 0, the same identifier). \<open>send\<close> hands the network exactly the bytes the packet library would write
  for these fields, if they are at most 1024; otherwise it writes past its local buffer.\<close>

theorem gw_publish_to_broker:
  assumes "GW_publish_ok pub"
  shows "\<exists>q pub'. GW_setPUBLISH p pub = Some (1, q) \<and> GW_getPUBLISH out q = Some (1, pub') \<and>
    GW_publish_view pub' = (set_header_type 3 (gpub_header pub), cptr_bytes (gpub_topic pub) (gpub_topiclen pub),
      if header_qos (gpub_header pub) > 0 then gpub_msgId pub else 0, cptr_bytes (gpub_payload pub) (gpub_payloadlen pub)) \<and>
    GW_send net_send s q =
      (if length (publish_wire (GW_publish_args pub)) \<le> 1024 then Some (net_send s (publish_wire (GW_publish_args pub))) else None)"
proof -
  let ?pad = "if header_qos (gpub_header pub) > 0 then [] else [0, 0] :: byte list"
  define q where "q = \<lparr>gp_header = set_header_type 3 (gpub_header pub),
    gp_remainingLength = int (length (GW_publish_body pub)), gp_data = Some (GW_publish_body pub @ ?pad)\<rparr>"
  have q: "GW_setPUBLISH p pub = Some (1, q)"
    unfolding q_def by (rule GW_setPUBLISH_eq [OF assms])
  have "length (GW_publish_body pub) < 268435456"
    using GW_publish_args_ok [OF assms] unfolding GW_publish_body_def GW_publish_args_def by (simp del: publish_body.simps)
  then have ok: "GW_ok q" and w: "GW_wire q = publish_wire (GW_publish_args pub)"
    by (auto simp: q_def GW_ok_def cptr_holds_def GW_wire_def GW_publish_body_def GW_publish_args_def header_as_publish Let_def
        simp del: publish_body.simps)
  show ?thesis
    using q GW_getPUBLISH_body [OF assms, of q ?pad out] GW_send_eq [OF ok, of net_send s] unfolding w
    by (auto simp: q_def)
qed

theorem gw_publish_to_broker_witness:
  "\<exists>q pub'. GW_setPUBLISH GW_new \<lparr>gpub_header = 50, gpub_topic = Some [97, 47, 98], gpub_topiclen = 3, gpub_msgId = 7,
      gpub_payload = Some [1, 2], gpub_payloadlen = 2\<rparr> = Some (1, q) \<and>
    GW_getPUBLISH MQTTPacket_Publish_Initializer q = Some (1, pub') \<and> GW_publish_view pub' = (50, [97, 47, 98], 7, [1, 2]) \<and>
    GW_send (\<lambda>s bs. (int (length bs), s @ bs)) [] q = Some (11, [50, 9, 0, 3, 97, 47, 98, 0, 7, 1, 2])"
proof -
  let ?pub = "\<lparr>gpub_header = 50, gpub_topic = Some [97, 47, 98], gpub_topiclen = 3, gpub_msgId = 7,
      gpub_payload = Some [1, 2], gpub_payloadlen = 2\<rparr> :: GWPublish"
  have "GW_publish_ok ?pub"
    by (simp add: GW_publish_ok_def cptr_holds_def)
  moreover have "publish_wire (GW_publish_args ?pub) = [50, 9, 0, 3, 97, 47, 98, 0, 7, 1, 2]"
    by code_simp
  moreover have "set_header_type 3 (50 :: byte) = 50" "header_qos 50 > 0"
    by code_simp+
  ultimately show ?thesis
    using gw_publish_to_broker [of ?pub GW_new MQTTPacket_Publish_Initializer "\<lambda>s bs. (int (length bs), s @ bs)" "[]"]
    by (simp add: cptr_bytes_def)
qed

text \<open>What the gateway sends it also receives: of a stream that starts with the bytes of a packet, \<open>recv\<close> takes exactly these bytes
  and returns their number, the header and the data, if the remaining length fits three length bytes. If it needs four, \<open>recv\<close> gives up with -2.\<close>

theorem gw_recv_inverts_wire:
  assumes "GW_ok p"
  shows "\<exists>rc q t. GW_recv stream_recv (GW_wire p @ rest) GW_new = Some (rc, q, t) \<and>
    (if gp_remainingLength p < 2097152
     then rc = int (length (GW_wire p)) \<and> t = rest \<and> gp_header q = gp_header p \<and> gp_remainingLength q = gp_remainingLength p \<and>
       cptr_bytes (gp_data q) (gp_remainingLength q) = cptr_bytes (gp_data p) (gp_remainingLength p)
     else rc = - 2)"
proof -
  let ?n = "gp_remainingLength p" and ?b = "cptr_bytes (gp_data p) (gp_remainingLength p)"
  have n: "?n = int (length ?b)" and lt: "?n < 268435456"
    using assms length_cptr_bytes [of "gp_data p" ?n] by (auto simp: GW_ok_def)
  have "nat ?n = length ?b"
    using n by linarith
  then have w: "GW_wire p = gp_header p # varint (length ?b) @ ?b"
    by (simp add: GW_wire_def)
  show ?thesis
  proof (cases "?n < 2097152")
    case True
    then show ?thesis
      using GW_recv_frame [of ?b "gp_header p" rest] n unfolding w
      by (auto simp flip: n simp: cptr_bytes_def)
  next
    case False
    then have "2097152 \<le> length ?b" "length ?b < 268435456"
      using n lt by linarith+
    then have "length (varint (length ?b)) = 4"
      by (simp add: length_varint)
    then obtain v t where "GW_recv_len stream_recv (varint (length ?b) @ ?b @ rest) None 0 1 0 = Some (- 2, 4, v, t)"
      using GW_recv_len_long [of 0 "length ?b" "?b @ rest" None 1 0] by auto
    then show ?thesis
      using False unfolding w by (simp add: GW_recv_def GW_new_def stream_recv_Cons)
  qed
qed

theorem gw_recv_inverts_wire_witness:
  "\<exists>rc q t. GW_recv stream_recv ([64, 2, 1, 5] @ [9]) GW_new = Some (rc, q, t) \<and> rc = 4 \<and> t = [9] \<and> gp_header q = 64 \<and>
     gp_remainingLength q = 2 \<and> cptr_bytes (gp_data q) (gp_remainingLength q) = [1, 5]"
proof -
  let ?p = "\<lparr>gp_header = 64, gp_remainingLength = 2, gp_data = Some [1, 5]\<rparr> :: MQTTGWPacket"
  have "GW_ok ?p"
    by (simp add: GW_ok_def cptr_holds_def)
  moreover have "GW_wire ?p = [64, 2, 1, 5]"
    by code_simp
  ultimately show ?thesis
    using gw_recv_inverts_wire [of ?p "[9]"] by (auto simp: cptr_bytes_def)
qed

text \<open>\<open>setMsgId\<close> on a PUBLISH of QoS above 0: the packet then carries the identifier, and the same flags and payload, but the identifier is
  also written over the last two bytes of the topic name (the offset leaves out the length field of the topic).\<close>

theorem gw_setMsgId_publish:
  assumes "GW_publish_ok pub" "header_qos (gpub_header pub) > 0" "2 \<le> gpub_topiclen pub" "GW_setPUBLISH p pub = Some (1, q)"
    "0 \<le> msgId" "msgId < 65536"
  shows "\<exists>q' pub'. GW_setMsgId q msgId = Some q' \<and> GW_getMsgId q' = Some msgId \<and> GW_getPUBLISH out q' = Some (1, pub') \<and>
    GW_publish_view pub' = (set_header_type 3 (gpub_header pub),
      take (nat (gpub_topiclen pub) - 2) (cptr_bytes (gpub_topic pub) (gpub_topiclen pub)) @ be16 msgId, msgId,
      cptr_bytes (gpub_payload pub) (gpub_payloadlen pub))"
proof -
  let ?t = "cptr_bytes (gpub_topic pub) (gpub_topiclen pub)" and ?y = "cptr_bytes (gpub_payload pub) (gpub_payloadlen pub)"
  have h: "cptr_holds (gpub_topic pub) (gpub_topiclen pub)"
    using assms(1) by (simp add: GW_publish_ok_def)
  have len: "length ?t = nat (gpub_topiclen pub)"
    using length_cptr_bytes [OF h] by simp
  define t1 where "t1 = take (nat (gpub_topiclen pub) - 2) ?t"
  define t2 where "t2 = drop (nat (gpub_topiclen pub) - 2) ?t"
  have t: "?t = t1 @ t2" "length t1 = nat (gpub_topiclen pub) - 2" "length t2 = 2"
    using len assms(3) by (simp_all add: t1_def t2_def)
  let ?pub = "pub\<lparr>gpub_topic := Some (t1 @ be16 msgId), gpub_msgId := msgId\<rparr>"
  have len': "nat (gpub_topiclen pub) = length (t1 @ be16 msgId)"
    using t assms(3) by simp
  then have topic: "cptr_bytes (Some (t1 @ be16 msgId)) (gpub_topiclen pub) = t1 @ be16 msgId"
    by (simp add: cptr_bytes_def)
  have ok: "GW_publish_ok ?pub"
    using assms(1,5,6) len' by (auto simp: GW_publish_ok_def cptr_holds_def)
  have q: "q = \<lparr>gp_header = set_header_type 3 (gpub_header pub), gp_remainingLength = int (length (GW_publish_body pub)),
    gp_data = Some (GW_publish_body pub)\<rparr>"
    using assms(2,4) GW_setPUBLISH_eq [OF assms(1), of p] by simp
  define q' where "q' = q\<lparr>gp_data := Some (GW_publish_body ?pub)\<rparr>"
  have body: "GW_publish_body pub = (be16 (gpub_topiclen pub) @ t1) @ t2 @ be16 (gpub_msgId pub) @ ?y"
    using GW_publish_body_eq [OF assms(1)] assms(2) t(1) by simp
  have body': "GW_publish_body ?pub = (be16 (gpub_topiclen pub) @ t1 @ be16 msgId) @ be16 msgId @ ?y"
    using GW_publish_body_eq [OF ok] assms(2) topic by simp
  have k: "nat (gpub_topiclen pub) = length (be16 (gpub_topiclen pub) @ t1)"
    "nat (gpub_topiclen pub) + 2 = length (be16 (gpub_topiclen pub) @ t1 @ be16 msgId)"
    using t(2) assms(3) by simp_all
  have ty: "GW_getType q = 3"
    by (simp add: GW_getType_def q header_qos_set_type)
  obtain pub0 where "GW_getPUBLISH (MQTTPacket_Publish_Initializer\<lparr>gpub_topiclen := 0, gpub_msgId := 0\<rparr>) q = Some (1, pub0)"
    "gpub_topiclen pub0 = gpub_topiclen pub"
    using GW_getPUBLISH_body [OF assms(1), of q "[]"] by (auto simp: q)
  then have set: "GW_setMsgId q msgId = Some q'"
    using writeInt_mid [OF t(3) k(1), of "be16 (gpub_msgId pub) @ ?y" msgId]
      writeInt_mid [OF _ k(2), of "be16 (gpub_msgId pub)" ?y msgId] ty
    by (simp add: GW_setMsgId_def q'_def body' q body)
  have *: "\<exists>pub'. GW_getPUBLISH out q' = Some (1, pub') \<and> GW_publish_view pub' =
     (set_header_type 3 (gpub_header pub), t1 @ be16 msgId, msgId, ?y)" for out
    using GW_getPUBLISH_body [OF ok, of q' "[]" out] assms(2) topic t(3) by (auto simp: q'_def q body body')
  have "GW_getMsgId q' = Some msgId"
    using * [of "MQTTPacket_Publish_Initializer\<lparr>gpub_msgId := 0\<rparr>"] ty
    by (auto simp: GW_getMsgId_def GW_getType_def q'_def GW_publish_view_def)
  then show ?thesis
    using set * [of out] unfolding t1_def by auto
qed

theorem gw_setMsgId_publish_witness:
  "\<exists>q' pub'. GW_setMsgId \<lparr>gp_header = 50, gp_remainingLength = 8, gp_data = Some [0, 3, 97, 47, 98, 0, 7, 1]\<rparr> 258 = Some q' \<and>
    GW_getMsgId q' = Some 258 \<and> GW_getPUBLISH MQTTPacket_Publish_Initializer q' = Some (1, pub') \<and>
    GW_publish_view pub' = (50, [97, 1, 2], 258, [1])"
proof -
  let ?pub = "\<lparr>gpub_header = 50, gpub_topic = Some [97, 47, 98], gpub_topiclen = 3, gpub_msgId = 7,
      gpub_payload = Some [1], gpub_payloadlen = 1\<rparr> :: GWPublish"
  have ok: "GW_publish_ok ?pub"
    by (simp add: GW_publish_ok_def cptr_holds_def)
  have h: "set_header_type 3 (50 :: byte) = 50" "header_qos 50 > 0" "be16 258 = [1, 2]"
    by code_simp+
  have "GW_setPUBLISH GW_new ?pub = Some (1, \<lparr>gp_header = 50, gp_remainingLength = 8, gp_data = Some [0, 3, 97, 47, 98, 0, 7, 1]\<rparr>)"
    by code_simp
  from gw_setMsgId_publish [OF ok _ _ this, of 258 MQTTPacket_Publish_Initializer] show ?thesis
    using h by (simp add: cptr_bytes_def)
qed

text \<open>A PUBLISH datagram for a client: from well-formed arguments \<open>setPUBLISH\<close> makes a datagram of type PUBLISH and with that message identifier, from
  which \<open>getPUBLISH\<close> reads the flags, the topic and the payload it was made of, if the datagram has at most 1024 bytes.
  If it has more, the result -2 of the serialiser is used as a length, and \<open>desirialize\<close> reads 65534 bytes from the local array.\<close>

theorem gw_snpublish_round_trip:
  assumes "snpublish_ok (dup, qos, retained, msgId, topic, payload, uint payloadlen)"
  shows "case SN_setPUBLISH dup qos retained msgId topic payload payloadlen of
      None \<Rightarrow> 1024 < length (sn_frame (snpublish_body (dup, qos, retained, msgId, topic, payload, uint payloadlen)))
    | Some p \<Rightarrow> SN_getType p = Some 12 \<and> SN_getMsgId p = Some (uint msgId) \<and>
        (\<exists>out'. SN_getPUBLISH out p = Some (1, out') \<and>
           snpublish_view out' = snpublish_val (dup, qos, retained, msgId, topic, payload, uint payloadlen))"
proof -
  define a where "a = (dup, qos, retained, msgId, topic, payload, uint payloadlen)"
  have ok: "snpublish_ok a" and f: "frame_ok (snpublish_body a)"
    using assms by (simp_all add: a_def del: snpublish_body.simps)
  have set: "SN_setPUBLISH dup qos retained msgId topic payload payloadlen =
    (if length (sn_frame (snpublish_body a)) \<le> 1024 then Some (SN_frame (snpublish_body a)) else None)"
    using snpublish.gateway_setter [OF ok, of 1024] by (simp add: SN_setPUBLISH_def a_def del: snpublish_body.simps)
  obtain c d where td: "topic_field (topic_data topic) = [c, d]"
    by (cases "topic_data topic") (simp_all add: be16_def)
  have body: "snpublish_body a = 12 # snpublish_flags dup qos retained (topic_type topic) # c # d # be16 (uint msgId) @
      topic_name (topic_data topic) @ cptr_bytes payload (uint payloadlen)"
    by (simp add: a_def td)
  have ty: "SN_getType (SN_frame (snpublish_body a)) = Some 12"
    using SN_getType_frame [OF f] by (simp add: body)
  have "SN_byte (SN_frame (snpublish_body a)) (sn_lenlen (snpublish_body a) + 4) = Some (word_of_int (uint msgId sdiv 256))"
    "SN_byte (SN_frame (snpublish_body a)) (5 + sn_lenlen (snpublish_body a)) = Some (word_of_int (uint msgId smod 256))"
    using SN_byte_frame [OF f, of 4] SN_byte_frame [OF f, of 5] by (simp_all add: body be16_def add.commute)
  then have "SN_getMsgId (SN_frame (snpublish_body a)) = Some (uint msgId)"
    using be16_value [of "uint msgId"] uint_range_size [of msgId]
    by (simp add: SN_getMsgId_def SN_msgId_at_def ty SN_decode_frame [OF f] word_size)
  moreover have "\<exists>out'. SN_getPUBLISH out (SN_frame (snpublish_body a)) = Some (1, out') \<and> snpublish_view out' = snpublish_val a"
    using snpublish.reads [OF ok, of "int (length (sn_frame (snpublish_body a)))" out "[]"]
    by (simp add: SN_getPUBLISH_def SN_frame_def)
  ultimately show ?thesis
    using set ty by (simp flip: a_def del: snpublish_body.simps)
qed

theorem gw_snpublish_round_trip_witness:
  "\<exists>p out'. SN_setPUBLISH 0 1 0 258 \<lparr>topic_type = MQTTSN_TOPIC_TYPE_NORMAL, topic_data = Topic_id 5\<rparr> (Some [65, 66]) 2 = Some p \<and>
     SN_getMsgId p = Some 258 \<and>
     SN_getPUBLISH \<lparr>snp_dup = 0, snp_qos = 0, snp_retained = 0, snp_packetid = 0,
       snp_topic = \<lparr>topic_type = MQTTSN_TOPIC_TYPE_NORMAL, topic_data = Topic_id 0\<rparr>, snp_payload = None, snp_payloadlen = 0\<rparr> p =
       Some (1, out') \<and>
     snpublish_view out' = (0, 1, 0, 258, MQTTSN_TOPIC_TYPE_NORMAL, Topic_id 5, [65, 66])"
proof -
  let ?t = "\<lparr>topic_type = MQTTSN_TOPIC_TYPE_NORMAL, topic_data = Topic_id 5\<rparr>"
  have "snpublish_ok (0, 1, 0, 258, ?t, Some [65, 66], uint (2 :: u16))"
    by (simp add: sn_topic_ok_def long_topic_def cptr_holds_def frame_ok_def cptr_bytes_def)
  from gw_snpublish_round_trip [OF this, of "\<lparr>snp_dup = 0, snp_qos = 0, snp_retained = 0, snp_packetid = 0,
       snp_topic = \<lparr>topic_type = MQTTSN_TOPIC_TYPE_NORMAL, topic_data = Topic_id 0\<rparr>, snp_payload = None, snp_payloadlen = 0\<rparr>"]
  show ?thesis
    by (auto simp: cptr_bytes_def sn_frame_def sn_len_field_def MQTTSNPacket_len_def split: option.splits)
qed

text \<open>\<open>setMsgId\<close> on a PUBLISH datagram changes the message identifier and nothing else.\<close>

theorem gw_snpublish_setMsgId:
  assumes "snpublish_ok (dup, qos, retained, msgId, topic, payload, payloadlen)"
  shows "SN_setMsgId (SN_frame (snpublish_body (dup, qos, retained, msgId, topic, payload, payloadlen))) newId =
    Some (SN_frame (snpublish_body (dup, qos, retained, newId, topic, payload, payloadlen)))"
proof -
  let ?a = "(dup, qos, retained, msgId, topic, payload, payloadlen)"
  have f: "frame_ok (snpublish_body ?a)"
    using assms by (simp del: snpublish_body.simps)
  obtain c d where td: "topic_field (topic_data topic) = [c, d]"
    by (cases "topic_data topic") (simp_all add: be16_def)
  have body: "snpublish_body (dup, qos, retained, i, topic, payload, payloadlen) =
      12 # snpublish_flags dup qos retained (topic_type topic) # c # d # word_of_int (uint i sdiv 256) # word_of_int (uint i smod 256) #
      topic_name (topic_data topic) @ cptr_bytes payload payloadlen" for i
    by (simp add: td be16_def)
  let ?h = "word_of_int (uint newId div 256) :: byte" and ?l = "word_of_int (uint newId mod 256) :: byte"
  have upd: "(snpublish_body ?a)[4 := ?h, Suc 4 := ?l] = snpublish_body (dup, qos, retained, newId, topic, payload, payloadlen)"
    unfolding body using sdiv_smod_nonneg [of "uint newId"] by simp
  have len: "Suc 4 < length (snpublish_body ?a)"
    by (simp add: body)
  obtain g where g: "spk_buf (SN_frame (snpublish_body ?a)) = Some (g @ snpublish_body ?a)" "sn_lenlen (snpublish_body ?a) = int (length g)"
    "\<lparr>spk_buf = Some (g @ (snpublish_body ?a)[4 := ?h, Suc 4 := ?l]), spk_bufLen = spk_bufLen (SN_frame (snpublish_body ?a))\<rparr> =
      SN_frame ((snpublish_body ?a)[4 := ?h, Suc 4 := ?l])"
    using SN_frame_update [OF f len, of ?h ?l] by blast
  have ty: "SN_getType (SN_frame (snpublish_body ?a)) = Some 12"
    using SN_getType_frame [OF f] by (simp add: body)
  have "nat (int (length g) + 4) = length g + 4" "nat (int (length g) + 4) + 1 = length g + Suc 4"
    by simp_all
  then show ?thesis
    using len g(1) g(3) [symmetric] unfolding upd [symmetric]
    by (simp add: SN_setMsgId_def SN_msgId_at_def ty SN_decode_frame [OF f] g(2) store_byte list_update_append del: snpublish_body.simps)
qed

theorem gw_snpublish_setMsgId_witness:
  "SN_setMsgId (SN_frame (snpublish_body
       (0, 1, 0, 258, \<lparr>topic_type = MQTTSN_TOPIC_TYPE_NORMAL, topic_data = Topic_id 5\<rparr>, Some [65, 66], 2))) 7 =
   Some (SN_frame (snpublish_body
       (0, 1, 0, 7, \<lparr>topic_type = MQTTSN_TOPIC_TYPE_NORMAL, topic_data = Topic_id 5\<rparr>, Some [65, 66], 2)))"
  by (rule gw_snpublish_setMsgId) (simp add: sn_topic_ok_def long_topic_def cptr_holds_def frame_ok_def cptr_bytes_def)

end
