(* ===== verification/MQTTSNGW_Connect.thy ===== *)
theory MQTTSNGW_Connect
  imports MQTTSNGW_Packet
begin

subsection \<open>CONNECT to the broker\<close>

text \<open>The options of the packet library for a \<open>Connect\<close> of the gateway with its user name and password.\<close>

definition GW_string :: "byte \<Rightarrow> byte list option \<Rightarrow> MQTTString" where
  "GW_string flag s = (if flag = 0 then MQTTString_initializer else MQTTString_c (the s))"

definition GW_connect_data :: "GWConnect \<Rightarrow> byte list option \<Rightarrow> byte list option \<Rightarrow> MQTTPacket_connectData" where
  "GW_connect_data c username password = MQTTPacket_connectData_initializer
     \<lparr>cd_MQTTVersion := gc_version c, cd_clientID := MQTTString_c (the (gc_clientID c)),
      cd_keepAliveInterval := word_of_int (gc_keepAliveTimer c),
      cd_cleansession := flags_cleansession (gc_flags c), cd_willFlag := flags_will (gc_flags c),
      cd_will := MQTTPacket_willOptions_initializer
        \<lparr>will_topicName := GW_string (flags_will (gc_flags c)) (gc_willTopic c),
         will_message := GW_string (flags_will (gc_flags c)) (gc_willMsg c),
         will_retained := flags_willRetain (gc_flags c), will_qos := flags_willQoS (gc_flags c)\<rparr>,
      cd_username := GW_string (flags_username (gc_flags c)) username,
      cd_password := GW_string (flags_password (gc_flags c)) password\<rparr>"

text \<open>The strings that the flags announce are there, and the flags say no more than the library's can.\<close>

definition GW_string_ok :: "byte \<Rightarrow> byte list option \<Rightarrow> bool" where
  "GW_string_ok flag s \<longleftrightarrow> flag \<noteq> 0 \<longrightarrow> (case s of None \<Rightarrow> False | Some s \<Rightarrow> length s < 65536)"

definition GW_connect_ok :: "GWConnect \<Rightarrow> byte list option \<Rightarrow> byte list option \<Rightarrow> bool" where
  "GW_connect_ok c username password \<longleftrightarrow>
     gc_header c = set_header_type 1 0 \<and> (gc_version c = 3 \<or> gc_version c = 4) \<and> 0 \<le> gc_keepAliveTimer c \<and> gc_keepAliveTimer c < 65536 \<and>
     GW_string_ok 1 (gc_clientID c) \<and> GW_string_ok (flags_will (gc_flags c)) (gc_willTopic c) \<and>
     GW_string_ok (flags_will (gc_flags c)) (gc_willMsg c) \<and> GW_string_ok (flags_username (gc_flags c)) username \<and>
     GW_string_ok (flags_password (gc_flags c)) password \<and>
     \<not> bit (gc_flags c) 0 \<and> (flags_will (gc_flags c) = 0 \<longrightarrow> flags_willQoS (gc_flags c) = 0 \<and> flags_willRetain (gc_flags c) = 0)"

lemma GW_string_bytes: "GW_string_ok flag s \<Longrightarrow> flag \<noteq> 0 \<Longrightarrow> s = Some (MQTTString_bytes (GW_string flag s))"
  by (auto simp: GW_string_ok_def GW_string_def split: option.splits)

lemma GW_string_valid: "GW_string_ok flag s \<Longrightarrow> MQTTString_ok (GW_string flag s)"
  by (auto simp: GW_string_ok_def GW_string_def MQTTString_initializer_def MQTTString_ok_def [of "\<lparr>cstring = None, lenstring = x\<rparr>" for x]
      MQTTString_bytes_def [of "\<lparr>cstring = None, lenstring = x\<rparr>" for x] split: option.splits)

lemma has_GW_string: "has_string (GW_string flag s) \<longleftrightarrow> flag \<noteq> 0"
  by (simp add: GW_string_def has_string_def MQTTString_c_def MQTTString_initializer_def)

lemma strlen_GW_string: "GW_string_ok flag s \<Longrightarrow> flag \<noteq> 0 \<Longrightarrow> strlen s = Some (int (length (MQTTString_bytes (GW_string flag s))))"
  by (subst GW_string_bytes) (simp_all add: strlen_def)

lemma writeUTF_emit:
  assumes "GW_string_ok flag s" "flag \<noteq> 0"
  shows "Option.bind (emit buf out) (\<lambda>w. Option.bind (writeUTF w s) k) =
    Option.bind (emit buf (out @ lp_string (MQTTString_bytes (GW_string flag s)))) k"
  by (subst (1) GW_string_bytes [OF assms]) (simp add: writeUTF_def writeCString_emit)

lemma bf_get_eq_0: "bf_get p w b = 0 \<longleftrightarrow> (\<forall>n<w. \<not> bit b (p + n))"
proof
  assume "bf_get p w b = 0"
  then show "\<forall>n<w. \<not> bit b (p + n)"
    using bit_bf_get [of p w b] by (metis bit_0_eq bot_apply bot_bool_def)
next
  assume "\<forall>n<w. \<not> bit b (p + n)"
  then show "bf_get p w b = 0"
    by (intro bit_word_eqI) (simp add: bit_bf_get)
qed

lemma bit_flag_fields:
  "bf_get p 1 b = 0 \<longleftrightarrow> \<not> bit b p"
  "bf_get p 2 b = 0 \<longleftrightarrow> \<not> bit b p \<and> \<not> bit b (p + 1)"
  unfolding bf_get_eq_0 by (auto simp: less_2_cases_iff)

lemma connect_flags_GW:
  assumes "GW_connect_ok c username password"
  shows "connect_flags (GW_connect_data c username password) = gc_flags c"
proof (rule bit_word_eqI)
  fix n
  assume "n < LENGTH(8)"
  moreover have z: "\<not> bit (gc_flags c) 0" "\<not> bit (gc_flags c) 2 \<Longrightarrow> \<not> bit (gc_flags c) 3 \<and> \<not> bit (gc_flags c) 4 \<and> \<not> bit (gc_flags c) 5"
    using assms unfolding GW_connect_ok_def connect_flags_defs bit_flag_fields by simp_all
  ultimately consider "n = 0" | "n = 1" | "n = 2" | "n = 3" | "n = 4" | "n = 5" | "n = 6" | "n = 7"
    by (auto simp: less_Suc_eq numeral_eq_Suc)
  then show "bit (connect_flags (GW_connect_data c username password)) n = bit (gc_flags c) n"
    using z by cases (simp_all add: connect_flags_def Let_def GW_connect_data_def has_GW_string connect_flags_defs
        bit_flag_fields bit_flag_fields(1) [unfolded One_nat_def] bit_bf_set bit_bf_get)
qed

lemma GW_will_emit:
  assumes "GW_string_ok f s" "GW_string_ok f t"
  shows "Option.bind (emit buf out) (\<lambda>w. Option.bind
     (if f \<noteq> 0 then do { w \<leftarrow> writeUTF w s; writeUTF w t } else Some w) k) =
   Option.bind (emit buf (out @ opt_field (f \<noteq> 0) (GW_string f s) @ opt_field (f \<noteq> 0) (GW_string f t))) k"
  using assms by (cases "f \<noteq> 0") (simp_all add: opt_field_def writeUTF_emit)

lemma GW_opt_emit:
  assumes "GW_string_ok f s"
  shows "Option.bind (emit buf out) (\<lambda>w. Option.bind (if f \<noteq> 0 then writeUTF w s else Some w) k) =
   Option.bind (emit buf (out @ opt_field (f \<noteq> 0) (GW_string f s))) k"
  using assms by (cases "f \<noteq> 0") (simp_all add: opt_field_def writeUTF_emit)

lemma GW_clientID: "MQTTString_c (the s) = GW_string 1 s"
  by (simp add: GW_string_def)

lemma GW_connect_body:
  assumes "GW_connect_ok c username password"
  shows "connect_body (GW_connect_data c username password) =
     (if gc_version c = 4 then lp_string protocol_MQTT @ [4] else lp_string protocol_MQIsdp @ [3])
     @ [gc_flags c] @ be16 (gc_keepAliveTimer c) @ lp_string (MQTTString_bytes (GW_string 1 (gc_clientID c)))
     @ opt_field (flags_will (gc_flags c) \<noteq> 0) (GW_string (flags_will (gc_flags c)) (gc_willTopic c))
     @ opt_field (flags_will (gc_flags c) \<noteq> 0) (GW_string (flags_will (gc_flags c)) (gc_willMsg c))
     @ opt_field (flags_username (gc_flags c) \<noteq> 0) (GW_string (flags_username (gc_flags c)) username)
     @ opt_field (flags_password (gc_flags c) \<noteq> 0) (GW_string (flags_password (gc_flags c)) password)"
proof -
  have "uint (word_of_int (gc_keepAliveTimer c) :: u16) = gc_keepAliveTimer c"
    using assms by (intro u16_value) (simp_all add: GW_connect_ok_def)
  then show ?thesis
    using connect_flags_GW [OF assms]
    by (simp add: connect_body_def GW_connect_data_def has_GW_string GW_clientID)
qed

lemma GW_connect_len:
  assumes "GW_connect_ok c username password"
  shows "connect_fields_len c username password = Some (int (length (connect_body (GW_connect_data c username password))))"
proof -
  have s: "GW_string_ok 1 (gc_clientID c)" "GW_string_ok (flags_will (gc_flags c)) (gc_willTopic c)"
    "GW_string_ok (flags_will (gc_flags c)) (gc_willMsg c)" "GW_string_ok (flags_username (gc_flags c)) username"
    "GW_string_ok (flags_password (gc_flags c)) password" "gc_version c = 3 \<or> gc_version c = 4"
    using assms by (simp_all add: GW_connect_ok_def)
  show ?thesis
    using s(6) unfolding GW_connect_body [OF assms] connect_fields_len_def strlen_GW_string [OF s(1) one_neq_zero]
    by (auto simp: opt_field_def strlen_GW_string [OF s(2)] strlen_GW_string [OF s(3)]
        strlen_GW_string [OF s(4)] strlen_GW_string [OF s(5)] protocol_MQTT_def protocol_MQIsdp_def)
qed

lemma writeCString_start: "Option.bind (writeCString (buf, 0) s) k = Option.bind (emit buf (lp_string s)) k"
  using writeCString_emit [of buf "[]" s k] by (simp add: emit_Nil)

lemma GW_set_all:
  "p\<lparr>gp_header := h, gp_remainingLength := n, gp_data := d\<rparr> = \<lparr>gp_header = h, gp_remainingLength = n, gp_data = d\<rparr>"
  for p :: MQTTGWPacket
  by (cases p) simp

lemma GW_setCONNECT_eq:
  assumes "GW_connect_ok c username password"
  shows "GW_setCONNECT p c username password = Some (1, \<lparr>gp_header = set_header_type 1 0,
     gp_remainingLength = int (length (connect_body (GW_connect_data c username password))),
     gp_data = Some (connect_body (GW_connect_data c username password))\<rparr>)"
proof -
  let ?b = "connect_body (GW_connect_data c username password)"
  have s: "GW_string_ok 1 (gc_clientID c)" "GW_string_ok (flags_will (gc_flags c)) (gc_willTopic c)"
    "GW_string_ok (flags_will (gc_flags c)) (gc_willMsg c)" "GW_string_ok (flags_username (gc_flags c)) username"
    "GW_string_ok (flags_password (gc_flags c)) password"
    and v: "gc_version c = 3 \<or> gc_version c = 4" and h: "gc_header c = set_header_type 1 0"
    using assms by (simp_all add: GW_connect_ok_def)
  define n where "n = length ?b"
  define d :: buffer where d: "d = replicate n 0"
  have c: "calloc (int n) = Some d"
    by (simp add: calloc_def d)
  have "GW_setCONNECT p c username password =
    Option.bind (emit d ?b) (\<lambda>w. Some (1, \<lparr>gp_header = set_header_type 1 0, gp_remainingLength = int n, gp_data = Some (fst w)\<rparr>))"
    unfolding GW_setCONNECT_def GW_connect_len [OF assms, folded n_def] Let_def
    using v by (elim disjE) (simp_all add: GW_set_all c writeCString_start writeChar_emit writeInt_emit writeUTF_emit [OF s(1)] GW_will_emit [OF s(2,3), simplified] GW_opt_emit [OF s(4), simplified]
        GW_opt_emit [OF s(5), simplified] GW_connect_body [OF assms] GW_clearData_def h del: if_split)
  then show ?thesis
    by (simp add: emit_def d n_def)
qed

text \<open>The CONNECT the gateway builds for a client. If the flags announce only strings that are there, \<open>setCONNECT\<close> makes a packet whose bytes
  are exactly those \<open>MQTTSerialize_connect\<close> writes for the same client identifier, keep alive time, flags, will, user name and
  password; so a server reads these values.\<close>

theorem gw_connect_to_broker:
  assumes "GW_connect_ok c username password"
  shows "\<exists>q. GW_setCONNECT p c username password = Some (1, q) \<and> GW_ok q \<and>
    GW_wire q = connect_wire (GW_connect_data c username password) \<and> connect_ok (GW_connect_data c username password)"
proof -
  let ?d = "GW_connect_data c username password"
  have s: "GW_string_ok 1 (gc_clientID c)" "GW_string_ok (flags_will (gc_flags c)) (gc_willTopic c)"
    "GW_string_ok (flags_will (gc_flags c)) (gc_willMsg c)" "GW_string_ok (flags_username (gc_flags c)) username"
    "GW_string_ok (flags_password (gc_flags c)) password" "gc_version c = 3 \<or> gc_version c = 4"
    using assms by (simp_all add: GW_connect_ok_def)
  have field: "length (opt_field b (GW_string f x)) \<le> 65538" if "GW_string_ok f x" for b f x
    using GW_string_valid [OF that] by (auto simp: opt_field_def MQTTString_ok_def)
  have "length (MQTTString_bytes (GW_string 1 (gc_clientID c))) < 65536"
    using GW_string_valid [OF s(1)] by (simp add: MQTTString_ok_def)
  then have len: "length (connect_body ?d) < 268435456"
    using field [OF s(2), of "flags_will (gc_flags c) \<noteq> 0"] field [OF s(3), of "flags_will (gc_flags c) \<noteq> 0"]
      field [OF s(4), of "flags_username (gc_flags c) \<noteq> 0"] field [OF s(5), of "flags_password (gc_flags c) \<noteq> 0"]
    unfolding GW_connect_body [OF assms] by (simp add: protocol_MQTT_def protocol_MQIsdp_def)
  then have "connect_ok ?d"
    using s GW_string_valid [OF s(1)] GW_string_valid [OF s(2)] GW_string_valid [OF s(3)] GW_string_valid [OF s(4)] GW_string_valid [OF s(5)]
    by (simp add: connect_ok_def, simp add: GW_connect_data_def GW_clientID)
  then show ?thesis
    using GW_setCONNECT_eq [OF assms, of p] len
    by (simp add: GW_ok_def GW_wire_def cptr_holds_def cptr_bytes_def connect_wire_def)
qed

theorem gw_connect_to_broker_witness:
  "\<exists>q. GW_setCONNECT GW_new \<lparr>gc_header = 16, gc_flags = 0xC2, gc_clientID = Some [99, 49], gc_willTopic = None, gc_willMsg = None,
       gc_keepAliveTimer = 30, gc_version = 4\<rparr> (Some [117]) (Some [112]) = Some (1, q) \<and>
     GW_wire q = [16, 20, 0, 4, 77, 81, 84, 84, 4, 0xC2, 0, 30, 0, 2, 99, 49, 0, 1, 117, 0, 1, 112]"
proof -
  let ?c = "\<lparr>gc_header = 16, gc_flags = 0xC2, gc_clientID = Some [99, 49], gc_willTopic = None, gc_willMsg = None,
       gc_keepAliveTimer = 30, gc_version = 4\<rparr> :: GWConnect"
  have f: "flags_will 0xC2 = 0" "flags_willQoS 0xC2 = 0" "flags_willRetain 0xC2 = 0" "\<not> bit (0xC2 :: byte) 0"
    "set_header_type 1 0 = 16"
    by code_simp+
  have "GW_connect_ok ?c (Some [117]) (Some [112])"
    by (simp add: GW_connect_ok_def GW_string_ok_def f)
  moreover have "connect_wire (GW_connect_data ?c (Some [117]) (Some [112])) =
      [16, 20, 0, 4, 77, 81, 84, 84, 4, 0xC2, 0, 30, 0, 2, 99, 49, 0, 1, 117, 0, 1, 112]"
    by code_simp
  ultimately show ?thesis
    using gw_connect_to_broker [of ?c "Some [117]" "Some [112]" GW_new] by auto
qed

end
