(* ===== verification/MQTTSNGW_Linked.thy ===== *)
theory MQTTSNGW_Linked
  imports MQTTSNGW_Topic
begin

text \<open>
  The linked structures of the gateway on their pointers. \<open>Que\<close> and \<open>List\<close> are the templates of \<^verbatim>\<open>MQTTSNGWProcess.h\<close>,
  \<open>WaitREGACKPacketList\<close> is in \<^verbatim>\<open>MQTTSNGWClient.cpp\<close>, \<open>TopicIdMap\<close> in \<^verbatim>\<open>MQTTSNGWTopic.cpp\<close>. A store maps the addresses of the elements to
  their fields; reading or writing an element that is not there (a null pointer, or memory that was deleted) is \<open>None\<close>. The
  predicate \<open>dseg\<close> says that a part of the store is a doubly linked chain. Each class is shown to behave as the list of its elements, from the
  constructor through every sequence of calls; for \<open>TopicIdMap\<close> that is the model in \<open>MQTTSNGW_Topic\<close>.
  \<open>new\<close> succeeds; it returns addresses that were not used before.
\<close>

subsection \<open>The store\<close>

type_synonym addr = nat

record 'a cell =
  nd_elm :: 'a
  nd_next :: "addr option"
  nd_prev :: "addr option"

type_synonym 'a store = "addr \<rightharpoonup> 'a cell"

definition set_next :: "'a store \<Rightarrow> addr option \<Rightarrow> addr option \<Rightarrow> 'a store option" where
  "set_next h p v = do { a \<leftarrow> p; n \<leftarrow> h a; Some (h(a \<mapsto> n\<lparr>nd_next := v\<rparr>)) }"

definition set_prev :: "'a store \<Rightarrow> addr option \<Rightarrow> addr option \<Rightarrow> 'a store option" where
  "set_prev h p v = do { a \<leftarrow> p; n \<leftarrow> h a; Some (h(a \<mapsto> n\<lparr>nd_prev := v\<rparr>)) }"

text \<open>A list head: the store, the address \<open>new\<close> returns next, the first and the last element.\<close>

record 'a dlist =
  dl_heap :: "'a store"
  dl_new :: addr
  dl_first :: "addr option"
  dl_end :: "addr option"

definition dl_init :: "'a dlist" where
  "dl_init = \<lparr>dl_heap = Map.empty, dl_new = 0, dl_first = None, dl_end = None\<rparr>"

text \<open>The code shared by \<open>TopicIdMap::add\<close>, \<open>WaitREGACKPacketList::setPacket\<close> and \<open>List::add\<close>: \<open>new\<close>, and the element becomes the last
  one.\<close>

definition dl_append :: "'a \<Rightarrow> 'a dlist \<Rightarrow> 'a dlist option" where
  "dl_append x l =
     (let elm = dl_new l;
          l = l\<lparr>dl_heap := (dl_heap l)(elm \<mapsto> \<lparr>nd_elm = x, nd_next = None, nd_prev = None\<rparr>), dl_new := elm + 1\<rparr>
      in if dl_first l = None then Some (l\<lparr>dl_first := Some elm, dl_end := Some elm\<rparr>)
         else do {
           h \<leftarrow> set_prev (dl_heap l) (Some elm) (dl_end l);
           h \<leftarrow> set_next h (dl_end l) (Some elm);
           Some (l\<lparr>dl_heap := h, dl_end := Some elm\<rparr>) })"

text \<open>The search loops \<open>while (p) \<dots> p = p->_next\<close>.\<close>

partial_function (option) dl_find :: "('a \<Rightarrow> bool) \<Rightarrow> 'a store \<Rightarrow> addr option \<Rightarrow> addr option option" where
  "dl_find P h p =
     (case p of
        None \<Rightarrow> Some None
      | Some a \<Rightarrow> (case h a of
            None \<Rightarrow> None
          | Some n \<Rightarrow> if P (nd_elm n) then Some (Some a) else dl_find P h (nd_next n)))"

text \<open>Taking the element \<open>p\<close> out of its list, as \<open>TopicIdMap::erase\<close> and \<open>WaitREGACKPacketList::erase\<close> do.\<close>

definition dl_unlink :: "addr \<Rightarrow> 'a dlist \<Rightarrow> 'a dlist option" where
  "dl_unlink p l = do {
     n \<leftarrow> dl_heap l p;
     l \<leftarrow> (if nd_prev n = None then Some (l\<lparr>dl_first := nd_next n\<rparr>)
           else do { h \<leftarrow> set_next (dl_heap l) (nd_prev n) (nd_next n); Some (l\<lparr>dl_heap := h\<rparr>) });
     n \<leftarrow> dl_heap l p;
     (if nd_next n = None then Some (l\<lparr>dl_end := nd_prev n\<rparr>)
      else do { h \<leftarrow> set_prev (dl_heap l) (nd_next n) (nd_prev n); Some (l\<lparr>dl_heap := h\<rparr>) }) }"

definition dl_delete :: "addr \<Rightarrow> 'a dlist \<Rightarrow> 'a dlist option" where
  "dl_delete p l = do { _ \<leftarrow> dl_heap l p; Some (l\<lparr>dl_heap := (dl_heap l)(p := None)\<rparr>) }"

text \<open>The loops \<open>while (p) { q = p->_next; delete p; p = q; }\<close>.\<close>

partial_function (option) dl_free :: "'a store \<Rightarrow> addr option \<Rightarrow> 'a store option" where
  "dl_free h p =
     (case p of
        None \<Rightarrow> Some h
      | Some a \<Rightarrow> (case h a of None \<Rightarrow> None | Some n \<Rightarrow> dl_free (h(a := None)) (nd_next n)))"

definition dl_clear :: "'a dlist \<Rightarrow> 'a dlist option" where
  "dl_clear l = do { h \<leftarrow> dl_free (dl_heap l) (dl_first l); Some (l\<lparr>dl_heap := h, dl_first := None, dl_end := None\<rparr>) }"

subsection \<open>Chains\<close>

definition first_of :: "(addr \<times> 'a) list \<Rightarrow> addr option \<Rightarrow> addr option" where
  "first_of cs nx = (case cs of [] \<Rightarrow> nx | c # _ \<Rightarrow> Some (fst c))"

definition last_of :: "addr option \<Rightarrow> (addr \<times> 'a) list \<Rightarrow> addr option" where
  "last_of pr cs = (if cs = [] then pr else Some (fst (last cs)))"

text \<open>A chain of elements at the given addresses, between an element \<open>pr\<close> and an element \<open>nx\<close>.\<close>

fun dseg :: "'a store \<Rightarrow> addr option \<Rightarrow> (addr \<times> 'a) list \<Rightarrow> addr option \<Rightarrow> bool" where
  "dseg h pr [] nx \<longleftrightarrow> True"
| "dseg h pr (c # cs) nx \<longleftrightarrow>
     h (fst c) = Some \<lparr>nd_elm = snd c, nd_next = first_of cs nx, nd_prev = pr\<rparr> \<and> dseg h (Some (fst c)) cs nx"

lemma first_of_simps [simp]:
  "first_of [] nx = nx" "first_of (c # cs) nx = Some (fst c)" "first_of (cs @ ds) nx = first_of cs (first_of ds nx)"
  by (simp_all add: first_of_def split: list.splits)

lemma last_of_simps [simp]:
  "last_of pr [] = pr" "last_of pr (c # cs) = last_of (Some (fst c)) cs" "last_of pr (cs @ ds) = last_of (last_of pr cs) ds"
  by (simp_all add: last_of_def)

lemma first_of_None [simp]: "first_of cs None = None \<longleftrightarrow> cs = []"
  by (cases cs) simp_all

lemma first_of_nonempty: "cs \<noteq> [] \<Longrightarrow> first_of cs p = Some (fst (hd cs))"
  by (cases cs) simp_all

lemma dseg_append [simp]: "dseg h pr (cs @ ds) nx \<longleftrightarrow> dseg h pr cs (first_of ds nx) \<and> dseg h (last_of pr cs) ds nx"
  by (induction cs arbitrary: pr) auto

lemma dseg_frame [simp]: "a \<notin> fst ` set cs \<Longrightarrow> dseg (h(a := v)) pr cs nx = dseg h pr cs nx"
  by (induction cs arbitrary: pr) auto

text \<open>The next pointer of the last element and the previous pointer of the first one can be set.\<close>

lemma dseg_set_next:
  assumes "dseg h pr cs nx" "distinct (map fst cs)" "cs \<noteq> []"
  shows "\<exists>h'. set_next h (last_of pr cs) nx' = Some h' \<and> dseg h' pr cs nx' \<and> (\<forall>a. a \<noteq> fst (last cs) \<longrightarrow> h' a = h a)"
proof -
  obtain ds a x where cs: "cs = ds @ [(a, x)]"
    using assms(3) by (metis prod.exhaust rev_exhaust)
  then have "h a = Some \<lparr>nd_elm = x, nd_next = nx, nd_prev = last_of pr ds\<rparr>" "dseg h pr ds (Some a)" "a \<notin> fst ` set ds"
    using assms by simp_all
  then show ?thesis
    by (simp add: cs set_next_def)
qed

lemma dseg_set_prev:
  assumes "dseg h pr cs nx" "distinct (map fst cs)" "cs \<noteq> []"
  shows "\<exists>h'. set_prev h (first_of cs nx) pr' = Some h' \<and> dseg h' pr' cs nx \<and> (\<forall>a. a \<noteq> fst (hd cs) \<longrightarrow> h' a = h a)"
  using assms by (cases cs) (simp_all add: set_prev_def)

lemma dseg_cong: "(\<And>a. a \<in> fst ` set cs \<Longrightarrow> h' a = h a) \<Longrightarrow> dseg h' pr cs nx = dseg h pr cs nx"
  by (induction cs arbitrary: pr) auto

lemma dseg_lookup: "dseg h pr (cs @ (a, x) # ds) nx \<Longrightarrow> h a = Some \<lparr>nd_elm = x, nd_next = first_of ds nx, nd_prev = last_of pr cs\<rparr>"
  by simp

lemma dseg_find:
  "dseg h pr cs None \<Longrightarrow> dl_find P h (first_of cs None) = Some (map_option fst (find (\<lambda>c. P (snd c)) cs))"
proof (induction cs arbitrary: pr)
  case Nil
  show ?case by (subst dl_find.simps) simp
next
  case (Cons c cs)
  then show ?case by (subst dl_find.simps) auto
qed

lemma dseg_free:
  "dseg h pr cs None \<Longrightarrow> distinct (map fst cs) \<Longrightarrow> \<exists>h'. dl_free h (first_of cs None) = Some h' \<and>
     (\<forall>a. h' a = (if a \<in> fst ` set cs then None else h a))"
proof (induction cs arbitrary: h pr)
  case Nil
  show ?case by (subst dl_free.simps) simp
next
  case (Cons c cs)
  have "dseg (h(fst c := None)) (Some (fst c)) cs None" "distinct (map fst cs)"
    using Cons.prems by simp_all
  from Cons.IH [OF this] obtain h' where "dl_free (h(fst c := None)) (first_of cs None) = Some h'"
    "\<forall>a. h' a = (if a \<in> fst ` set cs then None else (h(fst c := None)) a)"
    by blast
  then show ?case
    using Cons.prems by (subst dl_free.simps) auto
qed

subsection \<open>Doubly linked lists\<close>

text \<open>The state of a list with the given elements: \<open>pr\<close> is what the first element has as its previous one, and the pointer to the last
  element counts if there is one. What is in the store besides has been taken out of the list.\<close>

definition dl_chain :: "addr option \<Rightarrow> 'a dlist \<Rightarrow> (addr \<times> 'a) list \<Rightarrow> bool" where
  "dl_chain pr l cs \<longleftrightarrow> distinct (map fst cs) \<and> dl_first l = first_of cs None \<and> (cs \<noteq> [] \<longrightarrow> dl_end l = last_of None cs) \<and>
     dseg (dl_heap l) pr cs None \<and> (\<forall>a \<ge> dl_new l. dl_heap l a = None)"

text \<open>The lists that also keep both ends null.\<close>

definition dl_repr :: "'a dlist \<Rightarrow> (addr \<times> 'a) list \<Rightarrow> bool" where
  "dl_repr l cs \<longleftrightarrow> distinct (map fst cs) \<and> dl_first l = first_of cs None \<and> dl_end l = last_of None cs \<and>
     dseg (dl_heap l) None cs None \<and> (\<forall>a \<ge> dl_new l. dl_heap l a = None)"

lemma dl_repr_chain: "dl_repr l cs \<longleftrightarrow> dl_chain None l cs \<and> (cs = [] \<longrightarrow> dl_end l = None)"
  by (auto simp: dl_repr_def dl_chain_def)

lemma dl_repr_init: "dl_repr dl_init []"
  by (simp add: dl_repr_def dl_init_def)

lemma dseg_dom: "dseg h pr cs nx \<Longrightarrow> a \<in> fst ` set cs \<Longrightarrow> h a \<noteq> None"
  by (induction cs arbitrary: pr) auto

lemma dl_chain_fresh: "dl_chain pr l cs \<Longrightarrow> a \<in> fst ` set cs \<Longrightarrow> a < dl_new l"
  using dseg_dom [of "dl_heap l" pr cs None a] by (force simp: dl_chain_def not_less [symmetric])

lemma dl_repr_fresh: "dl_repr l cs \<Longrightarrow> a \<in> fst ` set cs \<Longrightarrow> a < dl_new l"
  using dl_chain_fresh [of None l cs a] by (simp add: dl_repr_chain)

lemma dl_append_chain:
  assumes "dl_chain pr l cs"
  shows "\<exists>l'. dl_append x l = Some l' \<and> dl_chain (if cs = [] then None else pr) l' (cs @ [(dl_new l, x)])"
proof (cases "cs = []")
  case True
  then show ?thesis
    using assms by (auto simp: dl_append_def dl_chain_def Let_def)
next
  case False
  let ?e = "dl_new l" and ?h = "(dl_heap l)(dl_new l \<mapsto> \<lparr>nd_elm = x, nd_next = None, nd_prev = last_of None cs\<rparr>)"
  have r: "distinct (map fst cs)" "dl_first l = first_of cs None" "dl_end l = last_of None cs" "dseg (dl_heap l) pr cs None"
    "\<forall>a \<ge> dl_new l. dl_heap l a = None"
    using assms False by (simp_all add: dl_chain_def)
  have e: "?e \<notin> fst ` set cs"
    using dl_chain_fresh [OF assms] by blast
  have lo: "last_of p cs = last_of None cs" for p
    using False by (simp add: last_of_def)
  have "dseg ?h pr cs None"
    using r(4) e by simp
  then obtain h' where h': "set_next ?h (last_of None cs) (Some ?e) = Some h'" "dseg h' pr cs (Some ?e)"
    "\<forall>a. a \<noteq> fst (last cs) \<longrightarrow> h' a = ?h a"
    using dseg_set_next [OF _ r(1) False, of ?h pr None "Some ?e"] unfolding lo [of pr] by blast
  have "fst (last cs) \<in> fst ` set cs"
    using False by simp
  then have l: "fst (last cs) < ?e"
    by (rule dl_chain_fresh [OF assms])
  then have "h' ?e = ?h ?e" "\<forall>a \<ge> ?e + 1. h' a = None"
    using h'(3) r(5) by auto
  then show ?thesis
    using h' r e False lo [of pr] by (auto simp: dl_append_def dl_chain_def Let_def set_prev_def first_of_nonempty)
qed

lemma dl_append_repr: "dl_repr l cs \<Longrightarrow> \<exists>l'. dl_append x l = Some l' \<and> dl_repr l' (cs @ [(dl_new l, x)])"
  using dl_append_chain [of None l cs x] by (auto simp: dl_repr_chain split: if_splits)

lemma dl_unlink_repr:
  assumes "dl_repr l (cs @ (a, x) # ds)"
  shows "\<exists>l' n. dl_unlink a l = Some l' \<and> dl_repr l' (cs @ ds) \<and> dl_heap l' a = Some n \<and> dl_new l' = dl_new l"
proof -
  have d: "distinct (map fst cs)" "distinct (map fst ds)" "a \<notin> fst ` set cs" "a \<notin> fst ` set ds" "fst ` set cs \<inter> fst ` set ds = {}"
    and f: "dl_first l = first_of (cs @ (a, x) # ds) None" "dl_end l = last_of None (cs @ (a, x) # ds)"
    and s: "dseg (dl_heap l) None cs (Some a)" "dseg (dl_heap l) (Some a) ds None"
    and a: "dl_heap l a = Some \<lparr>nd_elm = x, nd_next = first_of ds None, nd_prev = last_of None cs\<rparr>"
    and new: "\<forall>a \<ge> dl_new l. dl_heap l a = None"
    using assms by (auto simp: dl_repr_def)
  have fresh: "b \<in> fst ` set (cs @ (a, x) # ds) \<Longrightarrow> b < dl_new l" for b
    using dl_repr_fresh [OF assms] .
  have 1: "\<exists>h1 f1. (if last_of None cs = None then Some (l\<lparr>dl_first := first_of ds None\<rparr>)
      else do { h \<leftarrow> set_next (dl_heap l) (last_of None cs) (first_of ds None); Some (l\<lparr>dl_heap := h\<rparr>) }) =
      Some (l\<lparr>dl_heap := h1, dl_first := f1\<rparr>) \<and> f1 = first_of (cs @ ds) None \<and> dseg h1 None cs (first_of ds None) \<and>
      (\<forall>b. b \<notin> fst ` set cs \<longrightarrow> h1 b = dl_heap l b) \<and> (\<forall>b \<ge> dl_new l. h1 b = None)"
  proof (cases "cs = []")
    case True
    then show ?thesis
      using new by (intro exI [of _ "dl_heap l"] exI [of _ "first_of ds None"]) simp
  next
    case False
    obtain h1 where h1: "set_next (dl_heap l) (last_of None cs) (first_of ds None) = Some h1" "dseg h1 None cs (first_of ds None)"
      "\<forall>b. b \<noteq> fst (last cs) \<longrightarrow> h1 b = dl_heap l b"
      using dseg_set_next [OF s(1) d(1) False] by blast
    have "fst (last cs) \<in> fst ` set cs"
      using False by simp
    moreover from this have "fst (last cs) < dl_new l"
      by (intro fresh) auto
    moreover have "first_of cs p = dl_first l" for p
      using False f(1) by (cases cs) simp_all
    ultimately show ?thesis
      using h1 new False by (intro exI [of _ h1] exI [of _ "dl_first l"]) (auto simp: last_of_def)
  qed
  then obtain h1 where u: "(if last_of None cs = None then Some (l\<lparr>dl_first := first_of ds None\<rparr>)
      else do { h \<leftarrow> set_next (dl_heap l) (last_of None cs) (first_of ds None); Some (l\<lparr>dl_heap := h\<rparr>) }) =
      Some (l\<lparr>dl_heap := h1, dl_first := first_of (cs @ ds) None\<rparr>)"
    and h1: "dseg h1 None cs (first_of ds None)" "\<forall>b. b \<notin> fst ` set cs \<longrightarrow> h1 b = dl_heap l b" "\<forall>b \<ge> dl_new l. h1 b = None"
    by blast
  have a1: "h1 a = dl_heap l a"
    using h1(2) d(3) by blast
  have s2: "dseg h1 (Some a) ds None"
    using h1(2) d(5) s(2) by (subst dseg_cong [of ds h1 "dl_heap l"]) auto
  let ?l = "l\<lparr>dl_heap := h1, dl_first := first_of (cs @ ds) None\<rparr>"
  have unl: "dl_unlink a l = (if first_of ds None = None then Some (?l\<lparr>dl_end := last_of None cs\<rparr>)
    else do { h \<leftarrow> set_prev h1 (first_of ds None) (last_of None cs); Some (?l\<lparr>dl_heap := h\<rparr>) })"
    by (simp only: dl_unlink_def a Option.bind.bind_lunit cell.simps u) (simp add: a1 a)
  show ?thesis
  proof (cases "ds = []")
    case True
    then show ?thesis
      using h1 d a a1 by (auto simp: unl dl_repr_def)
  next
    case False
    obtain h2 where h2: "set_prev h1 (first_of ds None) (last_of None cs) = Some h2" "dseg h2 (last_of None cs) ds None"
      "\<forall>b. b \<noteq> fst (hd ds) \<longrightarrow> h2 b = h1 b"
      using dseg_set_prev [OF s2 d(2) False] by blast
    have hd: "fst (hd ds) \<in> fst ` set ds"
      using False by simp
    then have "fst (hd ds) \<notin> fst ` set cs"
      using d(5) by (meson disjoint_iff)
    then have "h2 b = h1 b" if "b \<in> fst ` set cs" for b
      using that h2(3) by metis
    then have "dseg h2 None cs (first_of ds None)"
      using h1(1) dseg_cong [of cs h2 h1] by simp
    moreover have "fst (hd ds) \<noteq> a" "fst (hd ds) < dl_new l"
      using hd d(4) fresh [of "fst (hd ds)"] by (metis, simp add: image_Un)
    then have "h2 a = h1 a" "\<forall>b \<ge> dl_new l. h2 b = None"
      using h2(3) h1(3) by (metis, metis not_le)
    moreover have "last_of p ds = dl_end l" for p
      using False f(2) by (simp add: last_of_def)
    ultimately show ?thesis
      using h1 h2 d a a1 False by (auto simp: unl dl_repr_def)
  qed
qed

lemma dl_delete_repr:
  assumes "dl_repr l cs" "dl_heap l a = Some n" "a \<notin> fst ` set cs"
  shows "\<exists>l'. dl_delete a l = Some l' \<and> dl_repr l' cs"
  using assms by (auto simp: dl_delete_def dl_repr_def)

lemma dl_clear_repr:
  assumes "dl_repr l cs"
  shows "\<exists>l'. dl_clear l = Some l' \<and> dl_repr l' []"
proof -
  obtain h where "dl_free (dl_heap l) (dl_first l) = Some h" "\<forall>a. h a = (if a \<in> fst ` set cs then None else dl_heap l a)"
    using assms dseg_free [of "dl_heap l" None cs] by (auto simp: dl_repr_def)
  then show ?thesis
    using assms by (auto simp: dl_clear_def dl_repr_def)
qed

lemma dl_find_repr: "dl_repr l cs \<Longrightarrow> dl_find P (dl_heap l) (dl_first l) = Some (map_option fst (find (\<lambda>c. P (snd c)) cs))"
  using dseg_find [of "dl_heap l" None cs P] by (simp add: dl_repr_def)

text \<open>Finding an element and taking it out.\<close>

lemma find_split: "find P xs = Some x \<Longrightarrow> \<exists>ys zs. xs = ys @ x # zs \<and> (\<forall>y \<in> set ys. \<not> P y)"
proof (induction xs)
  case (Cons a xs)
  show ?case
  proof (cases "P a")
    case True
    with Cons.prems show ?thesis by (intro exI [of _ "[]"] exI [of _ xs]) simp
  next
    case False
    with Cons obtain ys zs where "xs = ys @ x # zs" "\<forall>y \<in> set ys. \<not> P y" by auto
    with False show ?thesis by (intro exI [of _ "a # ys"] exI [of _ zs]) simp
  qed
qed simp

lemma remove_first_split: "\<forall>y \<in> set ys. \<not> P y \<Longrightarrow> P x \<Longrightarrow> remove_first P (ys @ x # zs) = ys @ zs"
  by (induction ys) auto

lemma find_snd: "find P (map snd cs) = map_option snd (find (\<lambda>c. P (snd c)) cs)"
  by (induction cs) auto

lemma map_remove_first: "map snd (remove_first (\<lambda>c. P (snd c)) cs) = remove_first P (map snd cs)"
  by (induction cs) auto

lemma dl_remove_repr:
  assumes "dl_repr l cs" "find (\<lambda>c. P (snd c)) cs = Some (a, x)"
  shows "\<exists>l' n. dl_unlink a l = Some l' \<and> dl_repr l' (remove_first (\<lambda>c. P (snd c)) cs) \<and> dl_heap l' a = Some n \<and>
    a \<notin> fst ` set (remove_first (\<lambda>c. P (snd c)) cs) \<and> dl_new l' = dl_new l"
proof -
  obtain ys zs where cs: "cs = ys @ (a, x) # zs" "\<forall>y \<in> set ys. \<not> P (snd y)"
    using find_split [OF assms(2)] by blast
  moreover have "P x"
    using assms(2) by (metis (mono_tags, lifting) find_Some_iff snd_conv)
  ultimately have rm: "remove_first (\<lambda>c. P (snd c)) cs = ys @ zs"
    using remove_first_split [of ys "\<lambda>c. P (snd c)" "(a, x)" zs] by simp
  have "a \<notin> fst ` set (ys @ zs)"
    using assms(1) by (auto simp: cs(1) dl_repr_def)
  then show ?thesis
    using dl_unlink_repr [of l ys a x zs] assms(1) unfolding rm by (auto simp: cs(1))
qed

subsection \<open>TopicIdMap\<close>

record TopicIdMapP =
  tp_list :: "TopicIdMapElement dlist"
  tp_cnt :: int
  tp_maxInflight :: int

definition TopicIdMapP_init :: TopicIdMapP where
  "TopicIdMapP_init = \<lparr>tp_list = dl_init, tp_cnt = 0, tp_maxInflight = MAX_INFLIGHTMESSAGES\<rparr>"

text \<open>The result of \<open>getElement\<close> is the pointer; its fields are in the store.\<close>

definition TopicIdMapP_getElement :: "TopicIdMapP \<Rightarrow> u16 \<Rightarrow> addr option option" where
  "TopicIdMapP_getElement m msgId = dl_find (\<lambda>p. tm_msgId p = msgId) (dl_heap (tp_list m)) (dl_first (tp_list m))"

definition TopicIdMapP_erase :: "TopicIdMapP \<Rightarrow> u16 \<Rightarrow> TopicIdMapP option" where
  "TopicIdMapP_erase m msgId = do {
     p \<leftarrow> TopicIdMapP_getElement m msgId;
     m \<leftarrow> (case p of
             None \<Rightarrow> Some m
           | Some p \<Rightarrow> do { l \<leftarrow> dl_unlink p (tp_list m); l \<leftarrow> dl_delete p l; Some (m\<lparr>tp_list := l\<rparr>) });
     Some (m\<lparr>tp_cnt := tp_cnt m - 1\<rparr>) }"

definition TopicIdMapP_add :: "TopicIdMapP \<Rightarrow> u16 \<Rightarrow> u16 \<Rightarrow> MQTTSN_topicTypes \<Rightarrow> (addr option \<times> TopicIdMapP) option" where
  "TopicIdMapP_add m msgId topicId type =
     (if tp_cnt m > tp_maxInflight m * 2 \<or> topicId = 0 \<and> type \<noteq> MQTTSN_TOPIC_TYPE_SHORT then Some (None, m)
      else do {
        p \<leftarrow> TopicIdMapP_getElement m msgId;
        m \<leftarrow> (if p \<noteq> None then TopicIdMapP_erase m msgId else Some m);
        l \<leftarrow> dl_append \<lparr>tm_msgId = msgId, tm_topicId = topicId, tm_type = type\<rparr> (tp_list m);
        Some (dl_end l, m\<lparr>tp_list := l, tp_cnt := tp_cnt m + 1\<rparr>) })"

definition TopicIdMapP_clear :: "TopicIdMapP \<Rightarrow> TopicIdMapP option" where
  "TopicIdMapP_clear m = do { l \<leftarrow> dl_clear (tp_list m); Some (m\<lparr>tp_list := l, tp_cnt := 0\<rparr>) }"

definition tp_repr :: "TopicIdMapP \<Rightarrow> TopicIdMap \<Rightarrow> bool" where
  "tp_repr m a \<longleftrightarrow> (\<exists>cs. dl_repr (tp_list m) cs \<and> map snd cs = tm_elements a) \<and> tp_cnt m = tm_cnt a \<and> tp_maxInflight m = tm_maxInflight a"

subsection \<open>WaitREGACKPacketList\<close>

text \<open>An element has the message identifier of the REGISTER and the packet that waits for its REGACK.\<close>

record 'p WaitREGACKPacketList =
  wr_list :: "(u16 \<times> 'p) dlist"
  wr_cnt :: byte

definition WaitREGACK_init :: "'p WaitREGACKPacketList" where
  "WaitREGACK_init = \<lparr>wr_list = dl_init, wr_cnt = 0\<rparr>"

definition WaitREGACK_setPacket :: "'p \<Rightarrow> u16 \<Rightarrow> 'p WaitREGACKPacketList \<Rightarrow> (int \<times> 'p WaitREGACKPacketList) option" where
  "WaitREGACK_setPacket packet REGACKMsgId w = do {
     l \<leftarrow> dl_append (REGACKMsgId, packet) (wr_list w);
     Some (1, w\<lparr>wr_list := l, wr_cnt := wr_cnt w + 1\<rparr>) }"

definition WaitREGACK_getPacket :: "u16 \<Rightarrow> 'p WaitREGACKPacketList \<Rightarrow> 'p option option" where
  "WaitREGACK_getPacket REGACKMsgId w = do {
     p \<leftarrow> dl_find (\<lambda>e. fst e = REGACKMsgId) (dl_heap (wr_list w)) (dl_first (wr_list w));
     (case p of
        None \<Rightarrow> Some None
      | Some p \<Rightarrow> do { n \<leftarrow> dl_heap (wr_list w) p; Some (Some (snd (nd_elm n))) }) }"

text \<open>The element is not deleted.\<close>

definition WaitREGACK_erase :: "u16 \<Rightarrow> 'p WaitREGACKPacketList \<Rightarrow> 'p WaitREGACKPacketList option" where
  "WaitREGACK_erase REGACKMsgId w = do {
     p \<leftarrow> dl_find (\<lambda>e. fst e = REGACKMsgId) (dl_heap (wr_list w)) (dl_first (wr_list w));
     (case p of
        None \<Rightarrow> Some w
      | Some p \<Rightarrow> do { l \<leftarrow> dl_unlink p (wr_list w); Some (w\<lparr>wr_list := l, wr_cnt := wr_cnt w - 1\<rparr>) }) }"

definition WaitREGACK_getCount :: "'p WaitREGACKPacketList \<Rightarrow> byte" where
  "WaitREGACK_getCount w = wr_cnt w"

subsection \<open>Que\<close>

record 'a Que =
  q_list :: "'a dlist"
  q_cnt :: int
  q_maxSize :: int

definition Que_init :: "'a Que" where
  "Que_init = \<lparr>q_list = dl_init, q_cnt = 0, q_maxSize = 0\<rparr>"

definition Que_setMaxSize :: "int \<Rightarrow> 'a Que \<Rightarrow> 'a Que" where
  "Que_setMaxSize maxSize q = q\<lparr>q_maxSize := maxSize\<rparr>"

definition Que_size :: "'a Que \<Rightarrow> int" where
  "Que_size q = q_cnt q"

text \<open>The argument is a pointer, which may be null.\<close>

definition Que_post :: "'a option \<Rightarrow> 'a Que \<Rightarrow> (int \<times> 'a Que) option" where
  "Que_post t q =
     (case t of
        None \<Rightarrow> Some (0, q)
      | Some x \<Rightarrow>
          (if q_maxSize q = 0 \<or> q_cnt q < q_maxSize q
           then do {
             let l = q_list q;
             let elm = dl_new l;
             let l = l\<lparr>dl_heap := (dl_heap l)(elm \<mapsto> \<lparr>nd_elm = x, nd_next = None, nd_prev = None\<rparr>), dl_new := elm + 1\<rparr>;
             l \<leftarrow> (if dl_first l \<noteq> None
                   then if dl_end l = dl_first l
                        then do { h \<leftarrow> set_prev (dl_heap l) (Some elm) (dl_end l);
                                  h \<leftarrow> set_next h (dl_first l) (Some elm);
                                  Some (l\<lparr>dl_heap := h, dl_end := Some elm\<rparr>) }
                        else do { h \<leftarrow> set_next (dl_heap l) (dl_end l) (Some elm);
                                  h \<leftarrow> set_prev h (Some elm) (dl_end l);
                                  Some (l\<lparr>dl_heap := h, dl_end := Some elm\<rparr>) }
                   else Some (l\<lparr>dl_first := Some elm, dl_end := Some elm\<rparr>));
             let q = q\<lparr>q_list := l, q_cnt := q_cnt q + 1\<rparr>;
             Some (q_cnt q, q) }
           else Some (0, q)))"

text \<open>\<open>pop\<close> clears the previous pointer of the element it then deletes, not that of the new head.\<close>

definition Que_pop :: "'a Que \<Rightarrow> 'a Que option" where
  "Que_pop q =
     (case dl_first (q_list q) of
        None \<Rightarrow> Some q
      | Some head \<Rightarrow> do {
          let l = q_list q;
          l \<leftarrow> (if dl_first l = dl_end l then Some (l\<lparr>dl_first := None, dl_end := None\<rparr>)
                else do { n \<leftarrow> dl_heap l head;
                          h \<leftarrow> set_prev (dl_heap l) (Some head) None;
                          Some (l\<lparr>dl_first := nd_next n, dl_heap := h\<rparr>) });
          l \<leftarrow> dl_delete head l;
          Some (q\<lparr>q_list := l, q_cnt := q_cnt q - 1\<rparr>) })"

definition Que_front :: "'a Que \<Rightarrow> 'a option option" where
  "Que_front q =
     (case dl_first (q_list q) of
        None \<Rightarrow> Some None
      | Some head \<Rightarrow> do { n \<leftarrow> dl_heap (q_list q) head; Some (Some (nd_elm n)) })"

subsection \<open>PacketQue\<close>

text \<open>The calls are between \<open>lock\<close> and \<open>unlock\<close> of the queue's mutex.\<close>

definition PacketQue_getPacket :: "'a Que \<Rightarrow> 'a option option" where
  "PacketQue_getPacket q = (if Que_size q > 0 then Que_front q else Some None)"

definition PacketQue_post :: "'a option \<Rightarrow> 'a Que \<Rightarrow> (int \<times> 'a Que) option" where
  "PacketQue_post packet q = Que_post packet q"

definition PacketQue_pop :: "'a Que \<Rightarrow> 'a Que option" where
  "PacketQue_pop q = (if Que_size q > 0 then Que_pop q else Some q)"

subsection \<open>List\<close>

record 'a List =
  li_list :: "'a dlist"
  li_size :: int

definition List_init :: "'a List" where
  "List_init = \<lparr>li_list = dl_init, li_size = 0\<rparr>"

definition List_add :: "'a \<Rightarrow> 'a List \<Rightarrow> (int \<times> 'a List) option" where
  "List_add t l = do { d \<leftarrow> dl_append t (li_list l); Some (1, l\<lparr>li_list := d, li_size := li_size l + 1\<rparr>) }"

definition List_erase :: "addr \<Rightarrow> 'a List \<Rightarrow> 'a List option" where
  "List_erase elm l = do {
     let d = li_list l;
     n \<leftarrow> dl_heap d elm;
     d \<leftarrow> (if dl_first d = Some elm then Some (d\<lparr>dl_first := nd_next n\<rparr>)
           else if dl_end d = Some elm
           then do { h \<leftarrow> set_next (dl_heap d) (nd_prev n) None; Some (d\<lparr>dl_end := nd_prev n, dl_heap := h\<rparr>) }
           else do { h \<leftarrow> set_next (dl_heap d) (nd_prev n) (nd_next n);
                     h \<leftarrow> set_prev h (nd_next n) (nd_prev n);
                     Some (d\<lparr>dl_heap := h\<rparr>) });
     d \<leftarrow> dl_delete elm d;
     Some (l\<lparr>li_list := d, li_size := li_size l - 1\<rparr>) }"

definition List_clear :: "'a List \<Rightarrow> 'a List option" where
  "List_clear l = do { d \<leftarrow> dl_clear (li_list l); Some (l\<lparr>li_list := d, li_size := 0\<rparr>) }"

definition List_getElm :: "'a List \<Rightarrow> addr option" where
  "List_getElm l = dl_first (li_list l)"

definition List_getNext :: "addr \<Rightarrow> 'a List \<Rightarrow> addr option option" where
  "List_getNext elm l = do { n \<leftarrow> dl_heap (li_list l) elm; Some (nd_next n) }"

subsection \<open>Sequences of calls\<close>

fun runP :: "('op \<Rightarrow> 'p \<Rightarrow> ('r \<times> 'p) option) \<Rightarrow> 'op list \<Rightarrow> 'p \<Rightarrow> ('r list \<times> 'p) option" where
  "runP step [] p = Some ([], p)"
| "runP step (c # cs) p = do { (r, p) \<leftarrow> step c p; (rs, p) \<leftarrow> runP step cs p; Some (r # rs, p) }"

fun run :: "('op \<Rightarrow> 'a \<Rightarrow> 'r \<times> 'a) \<Rightarrow> 'op list \<Rightarrow> 'a \<Rightarrow> 'r list \<times> 'a" where
  "run step [] a = ([], a)"
| "run step (c # cs) a = (let (r, a) = step c a; (rs, a) = run step cs a in (r # rs, a))"

text \<open>A structure on the store that does what a list does: each call succeeds, returns the same, and keeps the relation. Then so does every
  sequence of calls.\<close>

locale linked_refinement =
  fixes stepP :: "'op \<Rightarrow> 'p \<Rightarrow> ('r \<times> 'p) option"
    and step :: "'op \<Rightarrow> 'a \<Rightarrow> 'r \<times> 'a"
    and repr :: "'p \<Rightarrow> 'a \<Rightarrow> bool"
    and initP :: 'p
    and init :: 'a
  assumes init_repr: "repr initP init"
    and step_repr: "repr p a \<Longrightarrow> \<exists>p'. stepP c p = Some (fst (step c a), p') \<and> repr p' (snd (step c a))"
begin

lemma run_repr: "repr p a \<Longrightarrow> \<exists>p'. runP stepP cs p = Some (fst (run step cs a), p') \<and> repr p' (snd (run step cs a))"
proof (induction cs arbitrary: p a)
  case (Cons c cs)
  then obtain p1 where p1: "stepP c p = Some (fst (step c a), p1)" "repr p1 (snd (step c a))"
    using step_repr by blast
  show ?case
    using Cons.IH [OF p1(2)] p1(1) by (auto simp: Let_def split: prod.splits)
qed simp

lemma all_calls: "\<exists>p. runP stepP cs initP = Some (fst (run step cs init), p) \<and> repr p (snd (run step cs init))"
  using run_repr [OF init_repr] .

end

subsection \<open>Topics of messages that wait for an acknowledgement\<close>

lemma TopicIdMapP_erase_repr:
  assumes "tp_repr m a"
  shows "\<exists>m'. TopicIdMapP_erase m msgId = Some m' \<and> tp_repr m' (TopicIdMap_erase a msgId)"
proof -
  let ?P = "\<lambda>p. tm_msgId p = msgId"
  obtain cs where cs: "dl_repr (tp_list m) cs" "map snd cs = tm_elements a" and c: "tp_cnt m = tm_cnt a" "tp_maxInflight m = tm_maxInflight a"
    using assms by (auto simp: tp_repr_def)
  note f = dl_find_repr [OF cs(1), of ?P]
  show ?thesis
  proof (cases "find (\<lambda>c. ?P (snd c)) cs")
    case None
    then have "remove_first ?P (tm_elements a) = tm_elements a"
      using find_snd [of ?P cs] by (intro remove_first_absent) (simp add: cs(2))
    then show ?thesis
      using None f cs c by (auto simp: TopicIdMapP_erase_def TopicIdMapP_getElement_def TopicIdMap_erase_def tp_repr_def)
  next
    case (Some p)
    then obtain b x where p: "find (\<lambda>c. ?P (snd c)) cs = Some (b, x)"
      by (cases p) simp
    obtain l n where l: "dl_unlink b (tp_list m) = Some l" "dl_repr l (remove_first (\<lambda>c. ?P (snd c)) cs)" "dl_heap l b = Some n"
      "b \<notin> fst ` set (remove_first (\<lambda>c. ?P (snd c)) cs)"
      using dl_remove_repr [OF cs(1) p] by blast
    obtain l' where "dl_delete b l = Some l'" "dl_repr l' (remove_first (\<lambda>c. ?P (snd c)) cs)"
      using dl_delete_repr [OF l(2,3,4)] by blast
    then show ?thesis
      using l(1) p f cs(2) c map_remove_first [of ?P cs]
      by (auto simp: TopicIdMapP_erase_def TopicIdMapP_getElement_def TopicIdMap_erase_def tp_repr_def)
  qed
qed

lemma TopicIdMapP_getElement_repr:
  assumes "tp_repr m a"
  shows "\<exists>p. TopicIdMapP_getElement m msgId = Some p \<and>
    getElement a msgId = map_option (\<lambda>p. nd_elm (the (dl_heap (tp_list m) p))) p"
proof -
  let ?P = "\<lambda>p. tm_msgId p = msgId"
  obtain cs where cs: "dl_repr (tp_list m) cs" "map snd cs = tm_elements a"
    using assms by (auto simp: tp_repr_def)
  show ?thesis
  proof (cases "find (\<lambda>c. ?P (snd c)) cs")
    case None
    then show ?thesis
      using dl_find_repr [OF cs(1), of ?P] find_snd [of ?P cs]
      by (simp add: TopicIdMapP_getElement_def getElement_def cs(2))
  next
    case (Some p)
    then obtain ys zs where "cs = ys @ p # zs"
      using find_split [OF Some] by (elim exE conjE)
    then have "dl_heap (tp_list m) (fst p) = Some \<lparr>nd_elm = snd p, nd_next = first_of zs None, nd_prev = last_of None ys\<rparr>"
      using cs(1) by (auto simp: dl_repr_def)
    then show ?thesis
      using Some dl_find_repr [OF cs(1), of ?P] find_snd [of ?P cs]
      by (simp add: TopicIdMapP_getElement_def getElement_def cs(2))
  qed
qed

lemma TopicIdMapP_add_repr:
  assumes "tp_repr m a"
  shows "\<exists>r m'. TopicIdMapP_add m msgId i ty = Some (r, m') \<and> tp_repr m' (snd (TopicIdMap_add a msgId i ty)) \<and>
    map_option (\<lambda>p. nd_elm (the (dl_heap (tp_list m') p))) r = fst (TopicIdMap_add a msgId i ty)"
proof (cases "tp_cnt m > tp_maxInflight m * 2 \<or> i = 0 \<and> ty \<noteq> MQTTSN_TOPIC_TYPE_SHORT")
  case True
  moreover from this have "tm_cnt a > tm_maxInflight a * 2 \<or> i = 0 \<and> ty \<noteq> MQTTSN_TOPIC_TYPE_SHORT"
    using assms by (simp add: tp_repr_def)
  ultimately show ?thesis
    using assms unfolding TopicIdMapP_add_def TopicIdMap_add_def by simp
next
  case False
  let ?e = "\<lparr>tm_msgId = msgId, tm_topicId = i, tm_type = ty\<rparr>"
  let ?a = "if getElement a msgId \<noteq> None then TopicIdMap_erase a msgId else a"
  from False have "\<not> (tm_cnt a > tm_maxInflight a * 2 \<or> i = 0 \<and> ty \<noteq> MQTTSN_TOPIC_TYPE_SHORT)"
    using assms by (simp add: tp_repr_def)
  then have abs: "TopicIdMap_add a msgId i ty = (Some ?e, ?a\<lparr>tm_elements := tm_elements ?a @ [?e], tm_cnt := tm_cnt ?a + 1\<rparr>)"
    unfolding TopicIdMap_add_def Let_def by (simp only: if_False)
  obtain p where p: "TopicIdMapP_getElement m msgId = Some p" "p \<noteq> None \<longleftrightarrow> getElement a msgId \<noteq> None"
    using TopicIdMapP_getElement_repr [OF assms, of msgId] by auto
  obtain m1 where m1: "(if p \<noteq> None then TopicIdMapP_erase m msgId else Some m) = Some m1" "tp_repr m1 ?a"
    using TopicIdMapP_erase_repr [OF assms, of msgId] assms p(2) by (cases "p = None") auto
  then obtain cs where cs: "dl_repr (tp_list m1) cs" "map snd cs = tm_elements ?a" "tp_cnt m1 = tm_cnt ?a"
    "tp_maxInflight m1 = tm_maxInflight ?a"
    by (auto simp: tp_repr_def)
  obtain l where l: "dl_append ?e (tp_list m1) = Some l" "dl_repr l (cs @ [(dl_new (tp_list m1), ?e)])"
    using dl_append_repr [OF cs(1)] by blast
  have "TopicIdMapP_add m msgId i ty = Some (dl_end l, m1\<lparr>tp_list := l, tp_cnt := tp_cnt m1 + 1\<rparr>)"
    using False p(1) m1(1) l(1) unfolding TopicIdMapP_add_def by (simp only: if_False Option.bind.bind_lunit)
  moreover have "tp_repr (m1\<lparr>tp_list := l, tp_cnt := tp_cnt m1 + 1\<rparr>) (snd (TopicIdMap_add a msgId i ty))"
    unfolding abs tp_repr_def using l(2) cs by (intro conjI exI [of _ "cs @ [(dl_new (tp_list m1), ?e)]"]) simp_all
  moreover have "map_option (\<lambda>p. nd_elm (the (dl_heap l p))) (dl_end l) = Some ?e"
    using l(2) by (auto simp: dl_repr_def)
  ultimately show ?thesis
    unfolding abs by auto
qed

datatype tm_call = TM_add u16 u16 MQTTSN_topicTypes | TM_get u16 | TM_erase u16 | TM_clear

text \<open>A pointer that is returned stands for the element it leads to.\<close>

definition tm_deref :: "TopicIdMapP \<Rightarrow> addr option \<Rightarrow> TopicIdMapElement option" where
  "tm_deref m p = map_option (\<lambda>p. nd_elm (the (dl_heap (tp_list m) p))) p"

fun tmP_step :: "tm_call \<Rightarrow> TopicIdMapP \<Rightarrow> (TopicIdMapElement option \<times> TopicIdMapP) option" where
  "tmP_step (TM_add i t ty) m = do { (p, m) \<leftarrow> TopicIdMapP_add m i t ty; Some (tm_deref m p, m) }"
| "tmP_step (TM_get i) m = do { p \<leftarrow> TopicIdMapP_getElement m i; Some (tm_deref m p, m) }"
| "tmP_step (TM_erase i) m = do { m \<leftarrow> TopicIdMapP_erase m i; Some (None, m) }"
| "tmP_step TM_clear m = do { m \<leftarrow> TopicIdMapP_clear m; Some (None, m) }"

fun tm_step :: "tm_call \<Rightarrow> TopicIdMap \<Rightarrow> TopicIdMapElement option \<times> TopicIdMap" where
  "tm_step (TM_add i t ty) m = TopicIdMap_add m i t ty"
| "tm_step (TM_get i) m = (getElement m i, m)"
| "tm_step (TM_erase i) m = (None, TopicIdMap_erase m i)"
| "tm_step TM_clear m = (None, TopicIdMap_clear m)"

interpretation topicidmap: linked_refinement tmP_step tm_step tp_repr TopicIdMapP_init TopicIdMap_init
proof unfold_locales
  show "tp_repr TopicIdMapP_init TopicIdMap_init"
    using dl_repr_init by (auto simp: tp_repr_def TopicIdMapP_init_def TopicIdMap_init_def)
next
  fix m a c
  assume r: "tp_repr m a"
  show "\<exists>m'. tmP_step c m = Some (fst (tm_step c a), m') \<and> tp_repr m' (snd (tm_step c a))"
  proof (cases c)
    case (TM_add i t ty)
    then show ?thesis
      using TopicIdMapP_add_repr [OF r, of i t ty] by (auto simp: tm_deref_def)
  next
    case (TM_get i)
    then show ?thesis
      using TopicIdMapP_getElement_repr [OF r, of i] r by (auto simp: tm_deref_def)
  next
    case (TM_erase i)
    then show ?thesis
      using TopicIdMapP_erase_repr [OF r, of i] by auto
  next
    case TM_clear
    obtain cs where "dl_repr (tp_list m) cs"
      using r by (auto simp: tp_repr_def)
    then show ?thesis
      using TM_clear r dl_clear_repr [of "tp_list m" cs]
      by (auto simp: TopicIdMapP_clear_def TopicIdMap_clear_def tp_repr_def)
  qed
qed

subsection \<open>Packets that wait for a REGACK\<close>

datatype 'p wr_call = WR_set u16 'p | WR_get u16 | WR_erase u16 | WR_count

fun wrP_step :: "'p wr_call \<Rightarrow> 'p WaitREGACKPacketList \<Rightarrow> (('p option \<times> byte) \<times> 'p WaitREGACKPacketList) option" where
  "wrP_step (WR_set i p) w = do { (_, w) \<leftarrow> WaitREGACK_setPacket p i w; Some ((None, 0), w) }"
| "wrP_step (WR_get i) w = do { p \<leftarrow> WaitREGACK_getPacket i w; Some ((p, 0), w) }"
| "wrP_step (WR_erase i) w = do { w \<leftarrow> WaitREGACK_erase i w; Some ((None, 0), w) }"
| "wrP_step WR_count w = Some ((None, WaitREGACK_getCount w), w)"

text \<open>The list of identifiers and packets.\<close>

fun wr_step :: "'p wr_call \<Rightarrow> (u16 \<times> 'p) list \<Rightarrow> ('p option \<times> byte) \<times> (u16 \<times> 'p) list" where
  "wr_step (WR_set i p) ws = ((None, 0), ws @ [(i, p)])"
| "wr_step (WR_get i) ws = ((map_of ws i, 0), ws)"
| "wr_step (WR_erase i) ws = ((None, 0), remove_first (\<lambda>e. fst e = i) ws)"
| "wr_step WR_count ws = ((None, word_of_nat (length ws)), ws)"

definition wr_repr :: "'p WaitREGACKPacketList \<Rightarrow> (u16 \<times> 'p) list \<Rightarrow> bool" where
  "wr_repr w ws \<longleftrightarrow> (\<exists>cs. dl_repr (wr_list w) cs \<and> map snd cs = ws) \<and> wr_cnt w = word_of_nat (length ws)"

lemma map_of_find: "map_of ws i = map_option snd (find (\<lambda>e. fst e = i) ws)"
  by (induction ws) auto

lemma WaitREGACK_getPacket_repr:
  assumes "wr_repr w ws"
  shows "WaitREGACK_getPacket i w = Some (map_of ws i)"
proof -
  let ?P = "\<lambda>e :: u16 \<times> _. fst e = i"
  obtain cs where cs: "dl_repr (wr_list w) cs" "map snd cs = ws"
    using assms by (auto simp: wr_repr_def)
  have f: "find ?P ws = map_option snd (find (\<lambda>c. ?P (snd c)) cs)"
    using find_snd [of ?P cs] by (simp add: cs(2))
  show ?thesis
  proof (cases "find (\<lambda>c. ?P (snd c)) cs")
    case None
    then show ?thesis
      using dl_find_repr [OF cs(1), of ?P] f by (simp add: WaitREGACK_getPacket_def map_of_find)
  next
    case (Some p)
    then obtain ys zs where "cs = ys @ p # zs"
      using find_split [OF Some] by (elim exE conjE)
    then have "dl_heap (wr_list w) (fst p) = Some \<lparr>nd_elm = snd p, nd_next = first_of zs None, nd_prev = last_of None ys\<rparr>"
      using cs(1) by (auto simp: dl_repr_def)
    then show ?thesis
      using Some dl_find_repr [OF cs(1), of ?P] f by (simp add: WaitREGACK_getPacket_def map_of_find)
  qed
qed

lemma WaitREGACK_erase_repr:
  assumes "wr_repr w ws"
  shows "\<exists>w'. WaitREGACK_erase i w = Some w' \<and> wr_repr w' (remove_first (\<lambda>e. fst e = i) ws)"
proof -
  let ?P = "\<lambda>e :: u16 \<times> _. fst e = i"
  obtain cs where cs: "dl_repr (wr_list w) cs" "map snd cs = ws" and c: "wr_cnt w = word_of_nat (length ws)"
    using assms by (auto simp: wr_repr_def)
  have f: "find ?P ws = map_option snd (find (\<lambda>c. ?P (snd c)) cs)"
    using find_snd [of ?P cs] by (simp add: cs(2))
  show ?thesis
  proof (cases "find (\<lambda>c. ?P (snd c)) cs")
    case None
    then show ?thesis
      using dl_find_repr [OF cs(1), of ?P] f assms remove_first_absent [of ?P ws] by (auto simp: WaitREGACK_erase_def)
  next
    case (Some p)
    then obtain b x where p: "find (\<lambda>c. ?P (snd c)) cs = Some (b, x)"
      by (cases p) simp
    then obtain l where l: "dl_unlink b (wr_list w) = Some l" "dl_repr l (remove_first (\<lambda>c. ?P (snd c)) cs)"
      using dl_remove_repr [OF cs(1) p] by blast
    have "Suc (length (remove_first ?P ws)) = length ws"
      using f p by (intro length_remove_first) simp
    then have n: "word_of_nat (length (remove_first ?P ws)) = (word_of_nat (length ws) - 1 :: byte)"
      by (metis add_diff_cancel_left' of_nat_Suc)
    have "WaitREGACK_erase i w = Some (w\<lparr>wr_list := l, wr_cnt := wr_cnt w - 1\<rparr>)"
      using p dl_find_repr [OF cs(1), of ?P] l(1) by (simp add: WaitREGACK_erase_def)
    then show ?thesis
      using l(2) n c map_remove_first [of ?P cs] by (auto simp: wr_repr_def cs(2))
  qed
qed

interpretation waitregack: linked_refinement wrP_step wr_step wr_repr WaitREGACK_init "[] :: (u16 \<times> 'p) list"
proof unfold_locales
  show "wr_repr WaitREGACK_init ([] :: (u16 \<times> 'p) list)"
    using dl_repr_init by (auto simp: wr_repr_def WaitREGACK_init_def)
next
  fix w :: "'p WaitREGACKPacketList" and ws c
  assume r: "wr_repr w ws"
  show "\<exists>w'. wrP_step c w = Some (fst (wr_step c ws), w') \<and> wr_repr w' (snd (wr_step c ws))"
  proof (cases c)
    case (WR_set i p)
    obtain cs where cs: "dl_repr (wr_list w) cs" "map snd cs = ws"
      using r by (auto simp: wr_repr_def)
    obtain l where "dl_append (i, p) (wr_list w) = Some l" "dl_repr l (cs @ [(dl_new (wr_list w), i, p)])"
      using dl_append_repr [OF cs(1)] by blast
    moreover from this(2) have "\<exists>ds. dl_repr l ds \<and> map snd ds = ws @ [(i, p)]"
      using cs(2) by (intro exI [of _ "cs @ [(dl_new (wr_list w), i, p)]"]) simp
    ultimately show ?thesis
      using WR_set r by (simp add: WaitREGACK_setPacket_def wr_repr_def)
  next
    case (WR_get i)
    then show ?thesis
      using WaitREGACK_getPacket_repr [OF r] r by simp
  next
    case (WR_erase i)
    then show ?thesis
      using WaitREGACK_erase_repr [OF r, of i] by auto
  next
    case WR_count
    then show ?thesis
      using r by (simp add: WaitREGACK_getCount_def wr_repr_def)
  qed
qed

subsection \<open>Queues\<close>

datatype 'a que_call = Q_post "'a option" | Q_pop | Q_front | Q_size

fun queP_step :: "'a que_call \<Rightarrow> 'a Que \<Rightarrow> ((int \<times> 'a option) \<times> 'a Que) option" where
  "queP_step (Q_post t) q = do { (rc, q) \<leftarrow> Que_post t q; Some ((rc, None), q) }"
| "queP_step Q_pop q = do { q \<leftarrow> Que_pop q; Some ((0, None), q) }"
| "queP_step Q_front q = do { t \<leftarrow> Que_front q; Some ((0, t), q) }"
| "queP_step Q_size q = Some ((Que_size q, None), q)"

text \<open>A bounded queue: a list and the greatest length, 0 for none.\<close>

fun que_step :: "int \<Rightarrow> 'a que_call \<Rightarrow> 'a list \<Rightarrow> (int \<times> 'a option) \<times> 'a list" where
  "que_step bound (Q_post None) xs = ((0, None), xs)"
| "que_step bound (Q_post (Some x)) xs =
     (if bound = 0 \<or> int (length xs) < bound then ((int (length xs) + 1, None), xs @ [x]) else ((0, None), xs))"
| "que_step bound Q_pop xs = ((0, None), tl xs)"
| "que_step bound Q_front xs = ((0, if xs = [] then None else Some (hd xs)), xs)"
| "que_step bound Q_size xs = ((int (length xs), None), xs)"

definition que_repr :: "int \<Rightarrow> 'a Que \<Rightarrow> 'a list \<Rightarrow> bool" where
  "que_repr bound q xs \<longleftrightarrow> (\<exists>pr cs. dl_chain pr (q_list q) cs \<and> map snd cs = xs) \<and> q_cnt q = int (length xs) \<and> q_maxSize q = bound"

text \<open>Both branches of \<open>post\<close> append.\<close>

lemma Que_post_append:
  assumes "dl_chain pr (q_list q) cs"
  shows "Que_post (Some x) q =
    (if q_maxSize q = 0 \<or> q_cnt q < q_maxSize q
     then do { l \<leftarrow> dl_append x (q_list q); Some (q_cnt q + 1, q\<lparr>q_list := l, q_cnt := q_cnt q + 1\<rparr>) } else Some (0, q))"
proof -
  let ?e = "dl_new (q_list q)" and ?l = "q_list q"
  let ?h = "(dl_heap ?l)(?e \<mapsto> \<lparr>nd_elm = x, nd_next = None, nd_prev = None\<rparr>)"
  show ?thesis
  proof (cases "cs = []")
    case True
    then show ?thesis
      using assms by (simp add: Que_post_def dl_append_def dl_chain_def Let_def)
  next
    case False
    then obtain a where a: "dl_end ?l = Some a" "a \<in> fst ` set cs" "dl_first ?l \<noteq> None"
      using assms by (auto simp: dl_chain_def last_of_def first_of_nonempty)
    have "a \<noteq> ?e"
      using dl_chain_fresh [OF assms a(2)] by simp
    then have "Option.bind (set_next ?h (Some a) (Some ?e)) (\<lambda>h. set_prev h (Some ?e) (Some a)) =
        Option.bind (set_prev ?h (Some ?e) (Some a)) (\<lambda>h. set_next h (Some a) (Some ?e))"
      by (cases "dl_heap ?l a") (auto simp: set_next_def set_prev_def fun_upd_twist)
    then have "Option.bind (set_next ?h (Some a) (Some ?e)) (\<lambda>h. Option.bind (set_prev h (Some ?e) (Some a)) k) =
        Option.bind (set_prev ?h (Some ?e) (Some a)) (\<lambda>h. Option.bind (set_next h (Some a) (Some ?e)) k)" for k :: "_ \<Rightarrow> 'a dlist option"
      by (simp flip: bind_assoc)
    then show ?thesis
      using a by (auto simp: Que_post_def dl_append_def Let_def)
  qed
qed

lemma Que_pop_repr:
  assumes "dl_chain pr (q_list q) ((a, x) # cs)"
  shows "\<exists>l pr'. Que_pop q = Some (q\<lparr>q_list := l, q_cnt := q_cnt q - 1\<rparr>) \<and> dl_chain pr' l cs"
proof -
  let ?l = "q_list q"
  have h: "dl_heap ?l a = Some \<lparr>nd_elm = x, nd_next = first_of cs None, nd_prev = pr\<rparr>" "dseg (dl_heap ?l) (Some a) cs None"
    "dl_first ?l = Some a" "dl_end ?l = last_of (Some a) cs" "a \<notin> fst ` set cs" "distinct (map fst cs)" "\<forall>b \<ge> dl_new ?l. dl_heap ?l b = None"
    using assms by (simp_all add: dl_chain_def)
  show ?thesis
  proof (cases "cs = []")
    case True
    then show ?thesis
      using h by (auto simp: Que_pop_def dl_delete_def dl_chain_def Let_def)
  next
    case False
    then have "last_of (Some a) cs \<noteq> Some a" "last_of None cs = last_of (Some a) cs"
      using h(5) by (auto simp: last_of_def)
    then show ?thesis
      using h False
      by (intro exI [of _ "?l\<lparr>dl_first := first_of cs None, dl_heap := (dl_heap ?l)(a := None)\<rparr>"] exI [of _ "Some a"])
         (simp add: Que_pop_def dl_delete_def dl_chain_def Let_def set_prev_def)
  qed
qed

interpretation que: linked_refinement queP_step "que_step bound" "que_repr bound" "Que_setMaxSize bound Que_init" "[] :: 'a list"
proof unfold_locales
  show "que_repr bound (Que_setMaxSize bound Que_init) ([] :: 'a list)"
    using dl_repr_init by (auto simp: que_repr_def Que_init_def Que_setMaxSize_def dl_repr_chain)
next
  fix q :: "'a Que" and xs c
  assume r: "que_repr bound q xs"
  then obtain pr cs where cs: "dl_chain pr (q_list q) cs" "map snd cs = xs" "q_cnt q = int (length xs)" "q_maxSize q = bound"
    by (auto simp: que_repr_def)
  show "\<exists>q'. queP_step c q = Some (fst (que_step bound c xs), q') \<and> que_repr bound q' (snd (que_step bound c xs))"
  proof (cases c)
    case (Q_post t)
    show ?thesis
    proof (cases t)
      case None
      then show ?thesis
        using Q_post r by (simp add: Que_post_def)
    next
      case (Some x)
      obtain l pr' where l: "dl_append x (q_list q) = Some l" "dl_chain pr' l (cs @ [(dl_new (q_list q), x)])"
        using dl_append_chain [OF cs(1), of x] by blast
      from l(2) have "\<exists>pr ds. dl_chain pr l ds \<and> map snd ds = xs @ [x]"
        using cs(2) by (intro exI [of _ pr'] exI [of _ "cs @ [(dl_new (q_list q), x)]"]) simp
      then show ?thesis
        using Q_post Some r l(1) cs(3,4) by (auto simp: Que_post_append [OF cs(1)] que_repr_def)
    qed
  next
    case Q_pop
    show ?thesis
    proof (cases cs)
      case Nil
      then show ?thesis
        using Q_pop r cs by (auto simp: Que_pop_def dl_chain_def)
    next
      case (Cons p ds)
      then obtain l pr' where l: "Que_pop q = Some (q\<lparr>q_list := l, q_cnt := q_cnt q - 1\<rparr>)" "dl_chain pr' l ds"
        using Que_pop_repr [of pr q "fst p" "snd p" ds] cs(1) by auto
      from l(2) have "\<exists>pr es. dl_chain pr l es \<and> map snd es = tl xs"
        using cs(2) Cons by (intro exI [of _ pr'] exI [of _ ds]) auto
      then show ?thesis
        using l(1) Q_pop cs(2-4) Cons by (auto simp: que_repr_def)
    qed
  next
    case Q_front
    then show ?thesis
      using r cs by (cases cs) (auto simp: Que_front_def dl_chain_def)
  next
    case Q_size
    then show ?thesis
      using r cs(3) by (simp add: Que_size_def)
  qed
qed

lemma PacketQue_repr:
  assumes "que_repr bound q xs"
  shows "PacketQue_getPacket q = Some (if xs = [] then None else Some (hd xs))" "PacketQue_pop q = Que_pop q"
proof -
  have n: "Que_size q = int (length xs)"
    using assms by (simp add: que_repr_def Que_size_def)
  have f: "Que_front q = Some (if xs = [] then None else Some (hd xs))"
    using que.step_repr [OF assms, of Q_front] by (auto split: Option.bind_splits)
  show "PacketQue_getPacket q = Some (if xs = [] then None else Some (hd xs))"
    using n f by (simp add: PacketQue_getPacket_def)
  have "Que_pop q = Some q" if "xs = []"
    using assms that by (auto simp: que_repr_def dl_chain_def Que_pop_def)
  then show "PacketQue_pop q = Que_pop q"
    using n by (auto simp: PacketQue_pop_def)
qed

subsection \<open>Lists\<close>

text \<open>The element that \<open>k\<close> calls of \<open>getNext\<close> lead to.\<close>

fun List_nth :: "nat \<Rightarrow> addr option \<Rightarrow> 'a List \<Rightarrow> addr option option" where
  "List_nth k None l = Some None"
| "List_nth 0 (Some p) l = Some (Some p)"
| "List_nth (Suc k) (Some p) l = do { p \<leftarrow> List_getNext p l; List_nth k p l }"

datatype 'a list_call = L_add 'a | L_erase nat | L_clear | L_size

fun listP_step :: "'a list_call \<Rightarrow> 'a List \<Rightarrow> (int \<times> 'a List) option" where
  "listP_step (L_add x) l = List_add x l"
| "listP_step (L_erase k) l = do {
     p \<leftarrow> List_nth k (List_getElm l) l;
     (case p of None \<Rightarrow> Some (0, l) | Some p \<Rightarrow> do { l \<leftarrow> List_erase p l; Some (0, l) }) }"
| "listP_step L_clear l = do { l \<leftarrow> List_clear l; Some (0, l) }"
| "listP_step L_size l = Some (li_size l, l)"

fun list_step :: "'a list_call \<Rightarrow> 'a list \<Rightarrow> int \<times> 'a list" where
  "list_step (L_add x) xs = (1, xs @ [x])"
| "list_step (L_erase k) xs = (0, take k xs @ drop (Suc k) xs)"
| "list_step L_clear xs = (0, [])"
| "list_step L_size xs = (int (length xs), xs)"

definition list_repr :: "'a List \<Rightarrow> 'a list \<Rightarrow> bool" where
  "list_repr l xs \<longleftrightarrow> (\<exists>pr cs. dl_chain pr (li_list l) cs \<and> map snd cs = xs) \<and> li_size l = int (length xs)"

lemma List_nth_seg:
  "dseg (dl_heap (li_list l)) pr cs None \<Longrightarrow>
   List_nth k (first_of cs None) l = Some (if k < length cs then Some (fst (cs ! k)) else None)"
proof (induction cs arbitrary: k pr)
  case (Cons c cs)
  then show ?case
    by (cases k) (auto simp: List_getNext_def)
qed simp

text \<open>The first element of the list may have any previous one: it is the one case in which \<open>erase\<close> does not look at it.\<close>

lemma List_erase_chain:
  assumes "dl_chain pr (li_list l) (cs @ (a, x) # ds)"
  shows "\<exists>d pr'. List_erase a l = Some (l\<lparr>li_list := d, li_size := li_size l - 1\<rparr>) \<and> dl_chain pr' d (cs @ ds)"
proof -
  let ?l = "li_list l"
  have d: "distinct (map fst cs)" "distinct (map fst ds)" "a \<notin> fst ` set cs" "a \<notin> fst ` set ds" "fst ` set cs \<inter> fst ` set ds = {}"
    and f: "dl_first ?l = first_of (cs @ (a, x) # ds) None" "dl_end ?l = last_of None (cs @ (a, x) # ds)"
    and s: "dseg (dl_heap ?l) pr cs (Some a)" "dseg (dl_heap ?l) (Some a) ds None"
    and a: "dl_heap ?l a = Some \<lparr>nd_elm = x, nd_next = first_of ds None, nd_prev = last_of pr cs\<rparr>"
    and new: "\<forall>a \<ge> dl_new ?l. dl_heap ?l a = None"
    using assms by (auto simp: dl_chain_def)
  show ?thesis
  proof (cases "cs = []")
    case True
    then show ?thesis
      using d f s a new
      by (intro exI [of _ "?l\<lparr>dl_first := first_of ds None, dl_heap := (dl_heap ?l)(a := None)\<rparr>"] exI [of _ "Some a"])
         (simp add: List_erase_def Let_def dl_delete_def dl_chain_def last_of_def)
  next
    case False
    have l: "last_of p cs = Some (fst (last cs))" "fst (last cs) \<in> fst ` set cs" for p
      using False by (simp_all add: last_of_def)
    have "fst (last cs) < dl_new ?l"
      using dl_chain_fresh [OF assms, of "fst (last cs)"] l(2) by (simp add: image_Un)
    have na: "fst (last cs) \<noteq> a" "fst (hd cs) \<noteq> a"
      using l(2) d(3) False by (metis, metis hd_in_set image_eqI)
    obtain h1 where h1: "set_next (dl_heap ?l) (last_of pr cs) (first_of ds None) = Some h1" "dseg h1 pr cs (first_of ds None)"
      "\<forall>b. b \<noteq> fst (last cs) \<longrightarrow> h1 b = dl_heap ?l b"
      using dseg_set_next [OF s(1) d(1) False] by blast
    have n1: "\<forall>b \<ge> dl_new ?l. h1 b = None"
      using h1(3) new \<open>fst (last cs) < dl_new ?l\<close> by (metis not_le)
    have a1: "h1 a = dl_heap ?l a"
      using h1(3) na(1) by metis
    show ?thesis
    proof (cases "ds = []")
      case True
      then show ?thesis
        using False d f a a1 h1 na n1
        by (intro exI [of _ "?l\<lparr>dl_end := last_of None cs, dl_heap := h1(a := None)\<rparr>"] exI [of _ pr])
           (simp add: List_erase_def Let_def dl_delete_def dl_chain_def first_of_nonempty l(1))
    next
      case nd: False
      have "h1 b = dl_heap ?l b" if "b \<in> fst ` set ds" for b
        using that h1(3) l(2) d(5) by (metis disjoint_iff)
      then have "dseg h1 (Some a) ds None"
        using s(2) dseg_cong [of ds h1 "dl_heap ?l"] by simp
      then obtain h2 where h2: "set_prev h1 (first_of ds None) (last_of pr cs) = Some h2" "dseg h2 (last_of pr cs) ds None"
        "\<forall>b. b \<noteq> fst (hd ds) \<longrightarrow> h2 b = h1 b"
        using dseg_set_prev [OF _ d(2) nd] by blast
      have hd: "fst (hd ds) \<in> fst ` set ds"
        using nd by simp
      have "h2 b = h1 b" if "b \<in> fst ` set cs" for b
        using that h2(3) hd d(5) by (metis disjoint_iff)
      then have c2: "dseg h2 pr cs (first_of ds None)"
        using h1(2) dseg_cong [of cs h2 h1] by simp
      have "fst (hd ds) < dl_new ?l" "fst (hd ds) \<noteq> a"
        using dl_chain_fresh [OF assms, of "fst (hd ds)"] hd d(4) by (simp add: image_Un, metis)
      then have n2: "\<forall>b \<ge> dl_new ?l. h2 b = None" "h2 a = h1 a"
        using h2(3) n1 by (metis not_le, metis)
      have le: "last_of (Some a) ds \<noteq> Some a" "last_of (Some a) ds = last_of (Some (fst (last cs))) ds"
        using nd d(4) by (auto simp: last_of_def)
      show ?thesis
        using False nd d f a a1 h1(1) h2(1,2) c2 n2 na le
        by (intro exI [of _ "?l\<lparr>dl_heap := h2(a := None)\<rparr>"] exI [of _ pr])
           (simp add: List_erase_def Let_def dl_delete_def dl_chain_def first_of_nonempty l(1))
    qed
  qed
qed

interpretation linkedlist: linked_refinement listP_step list_step list_repr List_init "[] :: 'a list"
proof unfold_locales
  show "list_repr List_init ([] :: 'a list)"
    using dl_repr_init by (auto simp: list_repr_def List_init_def dl_repr_chain)
next
  fix l :: "'a List" and xs c
  assume r: "list_repr l xs"
  then obtain pr cs where cs: "dl_chain pr (li_list l) cs" "map snd cs = xs" "li_size l = int (length xs)"
    by (auto simp: list_repr_def)
  show "\<exists>l'. listP_step c l = Some (fst (list_step c xs), l') \<and> list_repr l' (snd (list_step c xs))"
  proof (cases c)
    case (L_add x)
    obtain d pr' where d: "dl_append x (li_list l) = Some d" "dl_chain pr' d (cs @ [(dl_new (li_list l), x)])"
      using dl_append_chain [OF cs(1), of x] by blast
    from d(2) have "\<exists>pr ds. dl_chain pr d ds \<and> map snd ds = xs @ [x]"
      using cs(2) by (intro exI [of _ pr'] exI [of _ "cs @ [(dl_new (li_list l), x)]"]) simp
    then show ?thesis
      using L_add d(1) cs(3) by (auto simp: List_add_def list_repr_def)
  next
    case (L_erase k)
    have nth: "List_nth k (List_getElm l) l = Some (if k < length cs then Some (fst (cs ! k)) else None)"
      using List_nth_seg [of l pr cs k] cs(1) by (simp add: dl_chain_def List_getElm_def)
    show ?thesis
    proof (cases "k < length cs")
      case True
      have "dl_chain pr (li_list l) (take k cs @ (fst (cs ! k), snd (cs ! k)) # drop (Suc k) cs)"
        using cs(1) True by (simp add: Cons_nth_drop_Suc)
      from List_erase_chain [OF this]
      obtain d pr' where d: "List_erase (fst (cs ! k)) l = Some (l\<lparr>li_list := d, li_size := li_size l - 1\<rparr>)"
        "dl_chain pr' d (take k cs @ drop (Suc k) cs)"
        by blast
      from d(2) have "\<exists>pr ds. dl_chain pr d ds \<and> map snd ds = take k xs @ drop (Suc k) xs"
        using cs(2) by (intro exI [of _ pr'] exI [of _ "take k cs @ drop (Suc k) cs"]) (auto simp: take_map drop_map)
      moreover have "int (length (take k xs @ drop (Suc k) xs)) = int (length xs) - 1"
        using True cs(2) by auto
      ultimately show ?thesis
        using L_erase nth True d(1) cs(3) by (auto simp: list_repr_def)
    next
      case False
      then have "length xs \<le> k"
        using cs(2) by auto
      then show ?thesis
        using L_erase nth False r by simp
    qed
  next
    case L_clear
    obtain h where "dl_free (dl_heap (li_list l)) (dl_first (li_list l)) = Some h"
      "\<forall>a. h a = (if a \<in> fst ` set cs then None else dl_heap (li_list l) a)"
      using cs(1) dseg_free [of "dl_heap (li_list l)" pr cs] by (auto simp: dl_chain_def)
    then show ?thesis
      using L_clear cs(1) by (auto simp: List_clear_def dl_clear_def list_repr_def dl_chain_def)
  next
    case L_size
    then show ?thesis
      using r cs(3) by simp
  qed
qed

subsection \<open>Properties\<close>

text \<open>The queue template: whatever sequence of \<open>post\<close>, \<open>pop\<close>, \<open>front\<close> and \<open>size\<close> is called after the constructor and \<open>setMaxSize\<close>, no call follows
  a null pointer or a pointer to deleted memory, and the calls return what a first-in first-out queue of at most
  \<open>bound\<close> elements returns (without bound if \<open>bound\<close> is 0): \<open>post\<close> the new length, or 0 if the queue is full or the argument is null.\<close>

theorem que_is_bounded_queue:
  "\<exists>q. runP queP_step calls (Que_setMaxSize bound Que_init) = Some (fst (run (que_step bound) calls []), q) \<and>
     que_repr bound q (snd (run (que_step bound) calls []))"
  by (rule que.all_calls)

text \<open>The pointer implementation of \<open>TopicIdMap\<close> does exactly what its model as a list does, for every sequence of \<open>add\<close>, \<open>getElement\<close>,
  \<open>erase\<close> and \<open>clear\<close>, without touching memory it has deleted.\<close>

theorem topicidmap_pointers_refine:
  "\<exists>m. runP tmP_step calls TopicIdMapP_init = Some (fst (run tm_step calls TopicIdMap_init), m) \<and>
     tp_repr m (snd (run tm_step calls TopicIdMap_init))"
  by (rule topicidmap.all_calls)

text \<open>The list of packets that wait for a REGACK: for every sequence of calls, \<open>getPacket\<close> returns the oldest packet that was
  stored under the identifier and not erased, and \<open>getCount\<close> the number of packets modulo 256.\<close>

theorem waitregack_pointers_refine:
  "\<exists>w. runP wrP_step calls WaitREGACK_init = Some (fst (run wr_step calls []), w) \<and> wr_repr w (snd (run wr_step calls []))"
  by (rule waitregack.all_calls)

text \<open>The list template: for every sequence of calls, \<open>erase\<close> removes the element it is given and nothing else and follows no pointer to deleted
  memory, although the head keeps a pointer to the deleted element before it and the tail pointer of an emptied list is left as it was.\<close>

theorem linked_list_refines:
  "\<exists>l. runP listP_step calls List_init = Some (fst (run list_step calls []), l) \<and> list_repr l (snd (run list_step calls []))"
  by (rule linkedlist.all_calls)

end
