(* ===== verification/MQTTSNGW_Client.thy ===== *)
theory MQTTSNGW_Client
  imports MQTTSNGW_Topic MQTTSNGW_Packet MQTTSNGW_Linked
begin

text \<open>
  The clients of the gateway: \<open>Client\<close> of \<^verbatim>\<open>MQTTSNGWClient.cpp\<close> with its state machine, \<open>MessageIdTable\<close> of
  \<^verbatim>\<open>MQTTSNGWMessageIdTable.cpp\<close>, and \<open>ClientList\<close> of \<^verbatim>\<open>MQTTSNGWClientList.cpp\<close>. The queues of packets, the packets that wait for a REGACK and
  the linked lists are the lists of their elements, as \<open>MQTTSNGW_Linked\<close> justifies. A pointer to a client is a number, and a client that was deleted
  is no longer in the list. Addresses are those of the UDP sensor network (\<^verbatim>\<open>linux/udp/SensorNetwork.cpp\<close>). Of a timer the model has the interval it was
  last started with; whether it is up is an argument of the operations that ask. The configuration files are not modelled.
\<close>

subsection \<open>Client: data\<close>

datatype ClientStatus =
  Cstat_Disconnected | Cstat_TryConnecting | Cstat_Connecting | Cstat_Active | Cstat_Asleep | Cstat_Awake | Cstat_Lost

datatype ClientType = Ctype_Regular | Ctype_Forwarded | Ctype_QoS_1 | Ctype_Aggregated | Ctype_Proxy | Ctype_Aggregater

datatype AdapterType = Atype_QoSm1Proxy | Atype_Aggregater

abbreviation (input) MAX_SAVED_PUBLISH :: int where "MAX_SAVED_PUBLISH \<equiv> 20"
abbreviation (input) MQTTSN_RC_ACCEPTED :: byte where "MQTTSN_RC_ACCEPTED \<equiv> 0"
abbreviation (input) MQTTSN_RC_REJECTED_CONGESTED :: byte where "MQTTSN_RC_REJECTED_CONGESTED \<equiv> 1"
abbreviation (input) MQTTSN_RC_REJECTED_INVALID_TOPIC_ID :: byte where "MQTTSN_RC_REJECTED_INVALID_TOPIC_ID \<equiv> 2"
abbreviation (input) MQTTSN_RC_NOT_SUPPORTED :: byte where "MQTTSN_RC_NOT_SUPPORTED \<equiv> 3"

record SensorNetAddress =
  sna_portNo :: u16
  sna_IpAddr :: u32

definition sna_isMatch :: "SensorNetAddress \<Rightarrow> SensorNetAddress \<Rightarrow> bool" where
  "sna_isMatch a addr \<longleftrightarrow> sna_portNo a = sna_portNo addr \<and> sna_IpAddr a = sna_IpAddr addr"

text \<open>A C string is its bytes before the terminating NUL. \<open>cl_forwarder\<close> says which forwarder the client is behind.\<close>

record Client =
  cl_packetId :: u16
  cl_snMsgId :: byte
  cl_status :: ClientStatus
  cl_keepAliveMsec :: u32
  cl_keepAliveTimer :: "u32 option"
  cl_topics :: Topics
  cl_waitedPubTopicIdMap :: TopicIdMap
  cl_waitedSubTopicIdMap :: TopicIdMap
  cl_clientId :: "byte list option"
  cl_willTopic :: "byte list option"
  cl_willMsg :: "byte list option"
  cl_connectData :: GWConnect
  cl_waitWillMsgFlg :: bool
  cl_sessionStatus :: bool
  cl_clientSleepPacketQue :: "MQTTGWPacket list"
  cl_proxyPacketQue :: "MQTTSNPacket list"
  cl_waitREGACKList :: "(u16 \<times> MQTTSNPacket) list"
  cl_hasPredefTopic :: bool
  cl_holdPingRequest :: bool
  cl_forwarder :: "nat option"
  cl_clientType :: ClientType
  cl_secureNetwork :: bool
  cl_sensorNetype :: bool
  cl_sensorNetAddr :: SensorNetAddress

definition Client_new :: "bool \<Rightarrow> Client" where
  "Client_new secure =
     \<lparr>cl_packetId = 0, cl_snMsgId = 0, cl_status = Cstat_Disconnected, cl_keepAliveMsec = 0, cl_keepAliveTimer = None,
      cl_topics = Topics_init, cl_waitedPubTopicIdMap = TopicIdMap_init, cl_waitedSubTopicIdMap = TopicIdMap_init,
      cl_clientId = None, cl_willTopic = None, cl_willMsg = None, cl_connectData = MQTTPacket_Connect_Initializer,
      cl_waitWillMsgFlg = False, cl_sessionStatus = False, cl_clientSleepPacketQue = [], cl_proxyPacketQue = [],
      cl_waitREGACKList = [], cl_hasPredefTopic = False, cl_holdPingRequest = False, cl_forwarder = None,
      cl_clientType = Ctype_Regular, cl_secureNetwork = secure, cl_sensorNetype = True,
      cl_sensorNetAddr = \<lparr>sna_portNo = 0, sna_IpAddr = 0\<rparr>\<rparr>"

subsection \<open>Client: packets and topics that wait\<close>

definition getClientSleepPacket :: "Client \<Rightarrow> MQTTGWPacket option" where
  "getClientSleepPacket cl = (case cl_clientSleepPacketQue cl of [] \<Rightarrow> None | p # _ \<Rightarrow> Some p)"

definition deleteFirstClientSleepPacket :: "Client \<Rightarrow> Client" where
  "deleteFirstClientSleepPacket cl = cl\<lparr>cl_clientSleepPacketQue := tl (cl_clientSleepPacketQue cl)\<rparr>"

definition setClientSleepPacket :: "MQTTGWPacket \<Rightarrow> Client \<Rightarrow> int \<times> Client" where
  "setClientSleepPacket packet cl =
     (let ((rc, _), q) = que_step MAX_SAVED_PUBLISH (Q_post (Some packet)) (cl_clientSleepPacketQue cl)
      in (rc, cl\<lparr>cl_clientSleepPacketQue := q\<rparr>))"

definition getProxyPacket :: "Client \<Rightarrow> MQTTSNPacket option" where
  "getProxyPacket cl = (case cl_proxyPacketQue cl of [] \<Rightarrow> None | p # _ \<Rightarrow> Some p)"

definition deleteFirstProxyPacket :: "Client \<Rightarrow> Client" where
  "deleteFirstProxyPacket cl = cl\<lparr>cl_proxyPacketQue := tl (cl_proxyPacketQue cl)\<rparr>"

definition setProxyPacket :: "MQTTSNPacket \<Rightarrow> Client \<Rightarrow> int \<times> Client" where
  "setProxyPacket packet cl =
     (let ((rc, _), q) = que_step MAX_SAVED_PUBLISH (Q_post (Some packet)) (cl_proxyPacketQue cl)
      in (rc, cl\<lparr>cl_proxyPacketQue := q\<rparr>))"

definition getWaitedPubTopicId :: "u16 \<Rightarrow> Client \<Rightarrow> TopicIdMapElement option" where
  "getWaitedPubTopicId msgId cl = getElement (cl_waitedPubTopicIdMap cl) msgId"

definition getWaitedSubTopicId :: "u16 \<Rightarrow> Client \<Rightarrow> TopicIdMapElement option" where
  "getWaitedSubTopicId msgId cl = getElement (cl_waitedSubTopicIdMap cl) msgId"

definition eraseWaitedPubTopicId :: "u16 \<Rightarrow> Client \<Rightarrow> Client" where
  "eraseWaitedPubTopicId msgId cl = cl\<lparr>cl_waitedPubTopicIdMap := TopicIdMap_erase (cl_waitedPubTopicIdMap cl) msgId\<rparr>"

definition eraseWaitedSubTopicId :: "u16 \<Rightarrow> Client \<Rightarrow> Client" where
  "eraseWaitedSubTopicId msgId cl = cl\<lparr>cl_waitedSubTopicIdMap := TopicIdMap_erase (cl_waitedSubTopicIdMap cl) msgId\<rparr>"

definition clearWaitedPubTopicId :: "Client \<Rightarrow> Client" where
  "clearWaitedPubTopicId cl = cl\<lparr>cl_waitedPubTopicIdMap := TopicIdMap_clear (cl_waitedPubTopicIdMap cl)\<rparr>"

definition clearWaitedSubTopicId :: "Client \<Rightarrow> Client" where
  "clearWaitedSubTopicId cl = cl\<lparr>cl_waitedSubTopicIdMap := TopicIdMap_clear (cl_waitedSubTopicIdMap cl)\<rparr>"

definition setWaitedPubTopicId :: "u16 \<Rightarrow> u16 \<Rightarrow> MQTTSN_topicTypes \<Rightarrow> Client \<Rightarrow> Client" where
  "setWaitedPubTopicId msgId topicId type cl =
     cl\<lparr>cl_waitedPubTopicIdMap := snd (TopicIdMap_add (cl_waitedPubTopicIdMap cl) msgId topicId type)\<rparr>"

definition setWaitedSubTopicId :: "u16 \<Rightarrow> u16 \<Rightarrow> MQTTSN_topicTypes \<Rightarrow> Client \<Rightarrow> Client" where
  "setWaitedSubTopicId msgId topicId type cl =
     cl\<lparr>cl_waitedSubTopicIdMap := snd (TopicIdMap_add (cl_waitedSubTopicIdMap cl) msgId topicId type)\<rparr>"

subsection \<open>Client: the state machine\<close>

text \<open>\<open>_keepAliveTimer.start(_keepAliveMsec * 1.5)\<close>\<close>

definition start_keepAlive :: "Client \<Rightarrow> Client" where
  "start_keepAlive cl = cl\<lparr>cl_keepAliveTimer := Some (word_of_int (uint (cl_keepAliveMsec cl) * 3 div 2))\<rparr>"

definition checkTimeover :: "bool \<Rightarrow> Client \<Rightarrow> bool" where
  "checkTimeover isTimeup cl \<longleftrightarrow> cl_status cl = Cstat_Active \<and> isTimeup"

definition setKeepAlive :: "MQTTSNPacket \<Rightarrow> Client \<Rightarrow> Client option" where
  "setKeepAlive packet cl = do {
     (rc, param) \<leftarrow> SN_getCONNECT MQTTSNPacket_connectData_initializer packet;
     Some (if rc \<noteq> 0
           then start_keepAlive (cl\<lparr>cl_keepAliveMsec := word_of_int (uint (snc_duration param) * 1000)\<rparr>)
           else cl) }"

definition disconnected :: "Client \<Rightarrow> Client" where
  "disconnected cl = cl\<lparr>cl_status := Cstat_Disconnected, cl_waitWillMsgFlg := False\<rparr>"

definition updateStatus_active :: "int \<Rightarrow> MQTTSNPacket \<Rightarrow> Client \<Rightarrow> Client option" where
  "updateStatus_active t packet cl =
     (if t \<in> {uint (sn_code MQTTSN_PINGREQ), uint (sn_code MQTTSN_PUBLISH), uint (sn_code MQTTSN_SUBSCRIBE), uint (sn_code MQTTSN_UNSUBSCRIBE),
              uint (sn_code MQTTSN_PUBACK), uint (sn_code MQTTSN_PUBCOMP), uint (sn_code MQTTSN_PUBREL), uint (sn_code MQTTSN_PUBREC)}
      then Some (if cl_clientType cl \<noteq> Ctype_Proxy then start_keepAlive cl else cl)
      else if t = uint (sn_code MQTTSN_DISCONNECT)
      then do {
        (_, duration) \<leftarrow> SN_getDISCONNECT packet;
        Some (if duration \<noteq> 0 then cl\<lparr>cl_status := Cstat_Asleep\<rparr> else disconnected cl) }
      else Some cl)"

definition updateStatus_sleeping :: "int \<Rightarrow> Client \<Rightarrow> Client" where
  "updateStatus_sleeping t cl =
     (if t = uint (sn_code MQTTSN_CONNECT) then cl\<lparr>cl_status := Cstat_Active\<rparr>
      else if t = uint (sn_code MQTTSN_DISCONNECT) then disconnected cl
      else if t = uint (sn_code MQTTSN_PINGREQ) then cl\<lparr>cl_status := Cstat_Awake\<rparr>
      else if t = uint (sn_code MQTTSN_PINGRESP) then cl\<lparr>cl_status := Cstat_Asleep\<rparr>
      else cl)"

definition updateStatus :: "MQTTSNPacket \<Rightarrow> Client \<Rightarrow> Client option" where
  "updateStatus packet cl = do {
     t \<leftarrow> SN_getType packet;
     if (cl_status cl = Cstat_Disconnected \<or> cl_status cl = Cstat_Lost) \<and> t = uint (sn_code MQTTSN_CONNECT)
     then setKeepAlive packet cl
     else if cl_status cl = Cstat_Active then updateStatus_active t packet cl
     else if cl_status cl = Cstat_Awake \<or> cl_status cl = Cstat_Asleep then Some (updateStatus_sleeping t cl)
     else Some cl }"

definition connectSended :: "Client \<Rightarrow> Client" where
  "connectSended cl = cl\<lparr>cl_status := Cstat_Connecting\<rparr>"

definition connackSended :: "byte \<Rightarrow> Client \<Rightarrow> Client" where
  "connackSended rc cl = (if rc = MQTTSN_RC_ACCEPTED then cl\<lparr>cl_status := Cstat_Active\<rparr> else disconnected cl)"

definition tryConnect :: "Client \<Rightarrow> Client" where
  "tryConnect cl = cl\<lparr>cl_status := Cstat_TryConnecting\<rparr>"

definition isConnectSendable :: "Client \<Rightarrow> bool" where
  "isConnectSendable cl \<longleftrightarrow> \<not> (cl_status cl = Cstat_Lost \<or> cl_status cl = Cstat_TryConnecting)"

definition isDisconnect :: "Client \<Rightarrow> bool" where "isDisconnect cl \<longleftrightarrow> cl_status cl = Cstat_Disconnected"
definition isActive :: "Client \<Rightarrow> bool" where "isActive cl \<longleftrightarrow> cl_status cl = Cstat_Active"
definition isSleep :: "Client \<Rightarrow> bool" where "isSleep cl \<longleftrightarrow> cl_status cl = Cstat_Asleep"
definition isAwake :: "Client \<Rightarrow> bool" where "isAwake cl \<longleftrightarrow> cl_status cl = Cstat_Awake"
definition isConnecting :: "Client \<Rightarrow> bool" where "isConnecting cl \<longleftrightarrow> cl_status cl = Cstat_Connecting"

definition erasable :: "Client \<Rightarrow> bool" where
  "erasable cl \<longleftrightarrow> cl_sessionStatus cl \<and> \<not> cl_hasPredefTopic cl \<and> cl_forwarder cl = None"

definition setForwarder :: "nat \<Rightarrow> Client \<Rightarrow> Client" where
  "setForwarder forwarder cl = cl\<lparr>cl_forwarder := Some forwarder, cl_clientType := Ctype_Forwarded\<rparr>"

definition setAdapterType :: "AdapterType \<Rightarrow> Client \<Rightarrow> Client" where
  "setAdapterType type cl =
     (case type of
        Atype_QoSm1Proxy \<Rightarrow> cl\<lparr>cl_clientType := Ctype_Proxy\<rparr>
      | Atype_Aggregater \<Rightarrow> cl\<lparr>cl_clientType := Ctype_Aggregater\<rparr>)"

definition isAdapter :: "Client \<Rightarrow> bool" where
  "isAdapter cl \<longleftrightarrow> cl_clientType cl = Ctype_Proxy \<or> cl_clientType cl = Ctype_Aggregater"

definition isQoSm1 :: "Client \<Rightarrow> bool" where "isQoSm1 cl \<longleftrightarrow> cl_clientType cl = Ctype_QoS_1"
definition isQoSm1Proxy :: "Client \<Rightarrow> bool" where "isQoSm1Proxy cl \<longleftrightarrow> cl_clientType cl = Ctype_Proxy"
definition isAggregated :: "Client \<Rightarrow> bool" where "isAggregated cl \<longleftrightarrow> cl_clientType cl = Ctype_Aggregated"
definition isAggregater :: "Client \<Rightarrow> bool" where "isAggregater cl \<longleftrightarrow> cl_clientType cl = Ctype_Aggregater"

definition setQoSm1 :: "Client \<Rightarrow> Client" where "setQoSm1 cl = cl\<lparr>cl_clientType := Ctype_QoS_1\<rparr>"
definition setAggregated :: "Client \<Rightarrow> Client" where "setAggregated cl = cl\<lparr>cl_clientType := Ctype_Aggregated\<rparr>"

subsection \<open>Client: identifiers and strings\<close>

definition Client_getNextPacketId :: "Client \<Rightarrow> u16 \<times> Client" where
  "Client_getNextPacketId cl =
     (let n = cl_packetId cl + 1;
          n = (if n = 0xffff then 1 else n)
      in (n, cl\<lparr>cl_packetId := n\<rparr>))"

definition getNextSnMsgId :: "Client \<Rightarrow> byte \<times> Client" where
  "getNextSnMsgId cl =
     (let n = cl_snMsgId cl + 1;
          n = (if n = 0 then n + 1 else n)
      in (n, cl\<lparr>cl_snMsgId := n\<rparr>))"

text \<open>A zeroed array of \<open>MQTTSNstrlen(s) + 1\<close> bytes into which \<open>writeMQTTSNString\<close> writes.\<close>

definition save_string :: "MQTTSNString \<Rightarrow> byte list option" where
  "save_string s = do {
     d \<leftarrow> calloc (MQTTSNstrlen s + 1);
     w \<leftarrow> writeMQTTSNString (d, 0) s;
     Some (c_str (fst w)) }"

definition setClientId :: "MQTTSNString \<Rightarrow> Client \<Rightarrow> Client option" where
  "setClientId i cl =
     (case sn_cstring i of
        Some s \<Rightarrow> Some (cl\<lparr>cl_clientId := Some s\<rparr>)
      | None \<Rightarrow> do { s \<leftarrow> save_string i; Some (cl\<lparr>cl_clientId := Some s\<rparr>) })"

definition setWillTopic :: "MQTTSNString \<Rightarrow> Client \<Rightarrow> Client option" where
  "setWillTopic willTopic cl = do { s \<leftarrow> save_string willTopic; Some (cl\<lparr>cl_willTopic := Some s\<rparr>) }"

definition setWillMsg :: "MQTTSNString \<Rightarrow> Client \<Rightarrow> Client option" where
  "setWillMsg willMsg cl = do { s \<leftarrow> save_string willMsg; Some (cl\<lparr>cl_willMsg := Some s\<rparr>) }"

subsection \<open>ClientList\<close>

type_synonym client_ptr = nat

abbreviation (input) MAX_CLIENTS :: u16 where "MAX_CLIENTS \<equiv> 100"
abbreviation (input) TRANSPEARENT_TYPE :: int where "TRANSPEARENT_TYPE \<equiv> 0"
abbreviation (input) QOSM1PROXY_TYPE :: int where "QOSM1PROXY_TYPE \<equiv> 1"
abbreviation (input) AGGREGATER_TYPE :: int where "AGGREGATER_TYPE \<equiv> 2"

text \<open>The clients in the order of the list; \<open>cll_new\<close> is the pointer the next \<open>new Client\<close> returns.\<close>

record ClientList =
  cll_clients :: "(client_ptr \<times> Client) list"
  cll_new :: client_ptr
  cll_clientCnt :: u16
  cll_authorize :: bool

definition ClientList_init :: ClientList where
  "ClientList_init = \<lparr>cll_clients = [], cll_new = 0, cll_clientCnt = 0, cll_authorize = False\<rparr>"

definition cll_update :: "client_ptr \<Rightarrow> Client \<Rightarrow> ClientList \<Rightarrow> ClientList" where
  "cll_update p cl l = l\<lparr>cll_clients := map (\<lambda>(q, c). (q, if q = p then cl else c)) (cll_clients l)\<rparr>"

definition getClient_addr :: "SensorNetAddress option \<Rightarrow> ClientList \<Rightarrow> client_ptr option" where
  "getClient_addr addr l =
     (case addr of
        None \<Rightarrow> None
      | Some addr \<Rightarrow> map_option fst (find (\<lambda>(p, cl). sna_isMatch (cl_sensorNetAddr cl) addr) (cll_clients l)))"

text \<open>\<open>strncmp\<close> over the length of the argument; a client without an identifier is a null pointer.\<close>

fun getClient_id_loop :: "byte list \<Rightarrow> nat \<Rightarrow> (client_ptr \<times> Client) list \<Rightarrow> client_ptr option option" where
  "getClient_id_loop clID n [] = Some None"
| "getClient_id_loop clID n ((p, cl) # cls) = do {
     s \<leftarrow> cl_clientId cl;
     m \<leftarrow> strncmp_eq (s @ [0]) clID n;
     if m then Some (Some p) else getClient_id_loop clID n cls }"

definition getClient_id :: "MQTTSNString \<Rightarrow> ClientList \<Rightarrow> client_ptr option option" where
  "getClient_id clientId l =
     (case (case sn_cstring clientId of Some s \<Rightarrow> Some (s @ [0]) | None \<Rightarrow> snls_data (sn_lenstring clientId)) of
        None \<Rightarrow> if MQTTSNstrlen clientId = 0 then getClient_id_loop [] 0 (cll_clients l) else None
      | Some clID \<Rightarrow> getClient_id_loop clID (nat (MQTTSNstrlen clientId)) (cll_clients l))"

definition add_client :: "Client \<Rightarrow> ClientList \<Rightarrow> ClientList" where
  "add_client client l =
     l\<lparr>cll_clients := cll_clients l @ [(cll_new l, client)], cll_new := cll_new l + 1, cll_clientCnt := cll_clientCnt l + 1\<rparr>"

definition createClient ::
  "SensorNetAddress option \<Rightarrow> MQTTSNString \<Rightarrow> bool \<Rightarrow> bool \<Rightarrow> int \<Rightarrow> ClientList \<Rightarrow> (client_ptr option \<times> ClientList) option" where
  "createClient addr clientId unstableLine secure type l =
     (if cll_clientCnt l > MAX_CLIENTS then Some (None, l)
      else case getClient_addr addr l of
        Some p \<Rightarrow> Some (Some p, l)
      | None \<Rightarrow> do {
          let client = Client_new secure;
          let client = (case addr of Some a \<Rightarrow> client\<lparr>cl_sensorNetAddr := a\<rparr> | None \<Rightarrow> client);
          let client = client\<lparr>cl_sensorNetype := unstableLine\<rparr>;
          client \<leftarrow> (if MQTTSNstrlen clientId \<noteq> 0 then setClientId clientId client
                     else setClientId (MQTTSNString_c []) client);
          let client = (if type = AGGREGATER_TYPE then setAggregated client
                        else if type = QOSM1PROXY_TYPE then setQoSm1 client else client);
          Some (Some (cll_new l), add_client client l) })"

text \<open>\<open>createClient\<close> with three arguments.\<close>

definition createClient3 :: "SensorNetAddress option \<Rightarrow> MQTTSNString \<Rightarrow> int \<Rightarrow> ClientList \<Rightarrow> (client_ptr option \<times> ClientList) option" where
  "createClient3 addr clientId type l = createClient addr clientId False False type l"

text \<open>The comparison of \<open>clientId->cstring\<close> with \<open>common_topic\<close> compares two pointers; \<open>same\<close> says whether they are equal. The gateway's own topics are the
  second state.\<close>

definition createPredefinedTopic ::
  "bool \<Rightarrow> MQTTSNString \<Rightarrow> byte list \<Rightarrow> u16 \<Rightarrow> bool \<Rightarrow> ClientList \<Rightarrow> Topics \<Rightarrow> (client_ptr option \<times> ClientList \<times> Topics) option" where
  "createPredefinedTopic same clientId topicName topicId aggregate l topics =
     (if same then Some (None, l, snd (Topics_add_name topics (c_str topicName) topicId))
      else do {
        client \<leftarrow> getClient_id clientId l;
        if cll_authorize l \<and> client = None then Some (None, l, topics)
        else if cll_clientCnt l > MAX_CLIENTS then Some (None, l, topics)
        else do {
          (p, l) \<leftarrow>
            (case client of
               Some p \<Rightarrow> Some (p, l)
             | None \<Rightarrow> do {
                 cl \<leftarrow> setClientId clientId (Client_new False);
                 let cl = (if aggregate then setAggregated cl else cl);
                 Some (cll_new l, add_client cl l) });
          cl \<leftarrow> map_of (cll_clients l) p;
          let cl = cl\<lparr>cl_topics := snd (Topics_add_name (cl_topics cl) (c_str topicName) topicId), cl_hasPredefTopic := True\<rparr>;
          Some (Some p, cll_update p cl l, topics) } })"

text \<open>The forwarder of a client that can be erased is null.\<close>

definition ClientList_erase :: "client_ptr \<Rightarrow> ClientList \<Rightarrow> (client_ptr option \<times> ClientList) option" where
  "ClientList_erase p l = do {
     cl \<leftarrow> map_of (cll_clients l) p;
     Some (if \<not> cll_authorize l \<and> erasable cl
           then (None, l\<lparr>cll_clients := remove_first (\<lambda>c. fst c = p) (cll_clients l), cll_clientCnt := cll_clientCnt l - 1\<rparr>)
           else (Some p, l)) }"

definition getClientCount :: "ClientList \<Rightarrow> u16" where
  "getClientCount l = cll_clientCnt l"

subsection \<open>MessageIdTable\<close>

abbreviation (input) MAX_MESSAGEID_TABLE_SIZE :: int where "MAX_MESSAGEID_TABLE_SIZE \<equiv> 500"

record MessageIdElement =
  mi_msgId :: u16
  mi_client :: client_ptr
  mi_clientMsgId :: u16

record MessageIdTable =
  mt_elements :: "MessageIdElement list"
  mt_cnt :: int

definition MessageIdTable_init :: MessageIdTable where
  "MessageIdTable_init = \<lparr>mt_elements = [], mt_cnt = 0\<rparr>"

definition mt_find_msgId :: "u16 \<Rightarrow> MessageIdTable \<Rightarrow> MessageIdElement option" where
  "mt_find_msgId msgId t = find (\<lambda>p. mi_msgId p = msgId) (mt_elements t)"

definition mt_find_client :: "client_ptr \<Rightarrow> u16 \<Rightarrow> MessageIdTable \<Rightarrow> MessageIdElement option" where
  "mt_find_client client clientMsgId t = find (\<lambda>p. mi_clientMsgId p = clientMsgId \<and> mi_client p = client) (mt_elements t)"

text \<open>\<open>aggregater->msgId()\<close> is \<open>Client_getNextPacketId\<close> of the adapter's client, whose state is the last argument.\<close>

definition MessageIdTable_add ::
  "client_ptr \<Rightarrow> u16 \<Rightarrow> MessageIdTable \<Rightarrow> Client \<Rightarrow> MessageIdElement option \<times> MessageIdTable \<times> Client" where
  "MessageIdTable_add client clientMsgId t adapter =
     (if mt_cnt t > MAX_MESSAGEID_TABLE_SIZE then (None, t, adapter)
      else if mt_elements t \<noteq> [] \<and> mt_find_client client clientMsgId t \<noteq> None then (None, t, adapter)
      else let (n, adapter) = Client_getNextPacketId adapter;
               elm = \<lparr>mi_msgId = n, mi_client = client, mi_clientMsgId = clientMsgId\<rparr>
           in (Some elm, t\<lparr>mt_elements := mt_elements t @ [elm], mt_cnt := mt_cnt t + 1\<rparr>, adapter))"

definition MessageIdTable_clear :: "u16 \<Rightarrow> MessageIdTable \<Rightarrow> MessageIdTable" where
  "MessageIdTable_clear msgId t =
     t\<lparr>mt_elements := remove_first (\<lambda>p. mi_msgId p = msgId) (mt_elements t), mt_cnt := mt_cnt t - 1\<rparr>"

definition MessageIdTable_erase :: "u16 \<Rightarrow> MessageIdTable \<Rightarrow> MessageIdTable" where
  "MessageIdTable_erase msgId t = (if mt_find_msgId msgId t = None then t else MessageIdTable_clear msgId t)"

text \<open>The pointer of the client and its message identifier, or null and 0.\<close>

definition getClientMsgId :: "u16 \<Rightarrow> MessageIdTable \<Rightarrow> (client_ptr option \<times> u16) \<times> MessageIdTable" where
  "getClientMsgId msgId t =
     (case mt_find_msgId msgId t of
        None \<Rightarrow> ((None, 0), t)
      | Some p \<Rightarrow> ((Some (mi_client p), mi_clientMsgId p), MessageIdTable_clear msgId t))"

definition MessageIdTable_getMsgId :: "client_ptr \<Rightarrow> u16 \<Rightarrow> MessageIdTable \<Rightarrow> u16" where
  "MessageIdTable_getMsgId client clientMsgId t =
     (case mt_find_client client clientMsgId t of None \<Rightarrow> 0 | Some p \<Rightarrow> mi_msgId p)"

subsection \<open>The state machine\<close>

lemmas client_predicates = isDisconnect_def isActive_def isSleep_def isAwake_def isConnecting_def

lemmas status_defs = disconnected_def updateStatus_active_def updateStatus_sleeping_def updateStatus_def connectSended_def connackSended_def
  start_keepAlive_def setKeepAlive_def

lemma start_keepAlive_status [simp]: "cl_status (start_keepAlive cl) = cl_status cl"
  by (simp add: start_keepAlive_def)

lemma disconnected_status [simp]: "cl_status (disconnected cl) = Cstat_Disconnected"
  by (simp add: disconnected_def)

text \<open>The transitions a packet from or to the client can make.\<close>

inductive packet_transition :: "int \<Rightarrow> ClientStatus \<Rightarrow> ClientStatus \<Rightarrow> bool" where
  stay: "packet_transition t s s"
| sleep: "packet_transition 24 Cstat_Active Cstat_Asleep"
| leave: "s \<in> {Cstat_Active, Cstat_Asleep, Cstat_Awake} \<Longrightarrow> packet_transition 24 s Cstat_Disconnected"
| resume: "s \<in> {Cstat_Asleep, Cstat_Awake} \<Longrightarrow> packet_transition 4 s Cstat_Active"
| awake: "s \<in> {Cstat_Asleep, Cstat_Awake} \<Longrightarrow> packet_transition 22 s Cstat_Awake"
| back_to_sleep: "s \<in> {Cstat_Asleep, Cstat_Awake} \<Longrightarrow> packet_transition 23 s Cstat_Asleep"

lemma setKeepAlive_status: "setKeepAlive packet cl = Some cl' \<Longrightarrow> cl_status cl' = cl_status cl"
  by (auto simp: setKeepAlive_def start_keepAlive_def split: if_splits Option.bind_splits)

lemma updateStatus_transition:
  assumes "updateStatus packet cl = Some cl'" "SN_getType packet = Some t"
  shows "packet_transition t (cl_status cl) (cl_status cl')"
  using assms by (auto simp: updateStatus_def updateStatus_active_def updateStatus_sleeping_def packet_transition.simps
      split: if_splits Option.bind_splits dest!: setKeepAlive_status)

text \<open>What happens to a client in the gateway: it is created; a packet passes through \<open>updateStatus\<close>; the gateway has sent the CONNECT; the CONNACK of the
  broker is passed on; the session ends. The flag says whether the last CONNACK since the last CONNECT or the last end of the session accepted it.\<close>

inductive client_run :: "bool \<Rightarrow> Client \<Rightarrow> bool" where
  created: "client_run False (Client_new secure)"
| packet: "client_run acc cl \<Longrightarrow> updateStatus p cl = Some cl' \<Longrightarrow>
     client_run (acc \<and> cl_status cl' \<noteq> Cstat_Disconnected) cl'"
| sent: "client_run acc cl \<Longrightarrow> client_run False (connectSended cl)"
| connack: "client_run acc cl \<Longrightarrow> client_run (rc = MQTTSN_RC_ACCEPTED) (connackSended rc cl)"
| over: "client_run acc cl \<Longrightarrow> client_run False (disconnected cl)"

lemma updateStatus_type: "updateStatus p cl = Some cl' \<Longrightarrow> \<exists>t. SN_getType p = Some t"
  by (auto simp: updateStatus_def split: Option.bind_splits)

lemma client_run_accepted:
  "client_run acc cl \<Longrightarrow>
   cl_status cl \<notin> {Cstat_TryConnecting, Cstat_Lost} \<and> (cl_status cl \<in> {Cstat_Active, Cstat_Asleep, Cstat_Awake} \<longrightarrow> acc)"
proof (induction rule: client_run.induct)
  case (packet acc cl p cl')
  then obtain t where "packet_transition t (cl_status cl) (cl_status cl')"
    using updateStatus_transition updateStatus_type by blast
  then show ?case
    using packet.IH by (cases rule: packet_transition.cases) auto
qed (auto simp: Client_new_def connectSended_def connackSended_def)

subsection \<open>Identifiers\<close>

lemma u16_of_int_eq: "0 \<le> i \<Longrightarrow> i < 65536 \<Longrightarrow> 0 \<le> j \<Longrightarrow> j < 65536 \<Longrightarrow> word_of_int i = (word_of_int j :: u16) \<longleftrightarrow> i = j"
  by (metis u16_value)

fun packet_ids :: "nat \<Rightarrow> Client \<Rightarrow> u16 list" where
  "packet_ids 0 cl = []"
| "packet_ids (Suc k) cl = (let (i, cl) = Client_getNextPacketId cl in i # packet_ids k cl)"

fun sn_ids :: "nat \<Rightarrow> Client \<Rightarrow> byte list" where
  "sn_ids 0 cl = []"
| "sn_ids (Suc k) cl = (let (i, cl) = getNextSnMsgId cl in i # sn_ids k cl)"

lemma Client_getNextPacketId_value:
  assumes "cl_packetId cl = word_of_nat m" "m < 65535"
  shows "Client_getNextPacketId cl = (word_of_nat (m mod 65534 + 1), cl\<lparr>cl_packetId := word_of_nat (m mod 65534 + 1)\<rparr>)"
proof -
  have "word_of_nat m + 1 = (0xffff :: u16) \<longleftrightarrow> word_of_int (int m + 1) = (word_of_int 65535 :: u16)"
    by simp
  also have "\<dots> \<longleftrightarrow> m = 65534"
    using assms(2) by (subst u16_of_int_eq) auto
  finally show ?thesis
    using assms by (auto simp: Client_getNextPacketId_def Let_def)
qed

lemma packet_ids_values:
  "cl_packetId cl = word_of_nat m \<Longrightarrow> m < 65535 \<Longrightarrow>
   packet_ids k cl = map (\<lambda>i. word_of_nat ((m + i) mod 65534 + 1)) [0..<k]"
proof (induction k arbitrary: cl m)
  case (Suc k)
  let ?m = "m mod 65534 + 1"
  have "packet_ids k (cl\<lparr>cl_packetId := word_of_nat ?m\<rparr>) = map (\<lambda>i. word_of_nat ((?m + i) mod 65534 + 1)) [0..<k]"
    by (rule Suc.IH) simp_all
  moreover have "(?m + i) mod 65534 = (m + Suc i) mod 65534" for i
    using mod_add_left_eq [of m 65534 "Suc i"] by simp
  ultimately show ?case
    using Client_getNextPacketId_value [OF Suc.prems] by (simp add: map_Suc_upt [symmetric] upt_conv_Cons del: upt_Suc)
qed simp

lemma getNextSnMsgId_value:
  assumes "cl_snMsgId cl = word_of_nat m" "m < 256"
  shows "getNextSnMsgId cl = (word_of_nat (m mod 255 + 1), cl\<lparr>cl_snMsgId := word_of_nat (m mod 255 + 1)\<rparr>)"
proof (cases "m = 255")
  case True
  then show ?thesis
    using assms by (simp add: getNextSnMsgId_def Let_def)
next
  case False
  then have "unat (word_of_nat (m + 1) :: byte) = m + 1"
    using assms(2) by (intro unat_of_nat_byte) simp
  then have "word_of_nat (m + 1) \<noteq> (0 :: byte)"
    by (metis unat_0 add_is_0 one_neq_zero)
  then show ?thesis
    using assms False by (simp add: getNextSnMsgId_def Let_def add.commute)
qed

lemma sn_ids_values:
  "cl_snMsgId cl = word_of_nat m \<Longrightarrow> m < 256 \<Longrightarrow> sn_ids k cl = map (\<lambda>i. word_of_nat ((m + i) mod 255 + 1)) [0..<k]"
proof (induction k arbitrary: cl m)
  case (Suc k)
  let ?m = "m mod 255 + 1"
  have "sn_ids k (cl\<lparr>cl_snMsgId := word_of_nat ?m\<rparr>) = map (\<lambda>i. word_of_nat ((?m + i) mod 255 + 1)) [0..<k]"
    by (intro Suc.IH) (simp, use mod_less_divisor [of 255 m] in linarith)
  moreover have "(?m + i) mod 255 = (m + Suc i) mod 255" for i
    using mod_add_left_eq [of m 255 "Suc i"] by simp
  ultimately show ?case
    using getNextSnMsgId_value [OF Suc.prems] by (simp add: map_Suc_upt [symmetric] upt_conv_Cons del: upt_Suc)
qed simp

subsection \<open>The list of clients\<close>

definition cll_ok :: "ClientList \<Rightarrow> bool" where
  "cll_ok l \<longleftrightarrow> distinct (map fst (cll_clients l)) \<and> (\<forall>p \<in> fst ` set (cll_clients l). p < cll_new l) \<and>
     cll_clientCnt l = word_of_nat (length (cll_clients l)) \<and> length (cll_clients l) \<le> 101 \<and>
     (\<forall>c \<in> set (cll_clients l). cl_clientId (snd c) \<noteq> None)"

lemma cll_ok_init: "cll_ok ClientList_init"
  by (simp add: cll_ok_def ClientList_init_def)

lemma cll_count_full: "cll_ok l \<Longrightarrow> cll_clientCnt l > MAX_CLIENTS \<longleftrightarrow> length (cll_clients l) > 100"
proof -
  assume "cll_ok l"
  then have "unat (cll_clientCnt l) = length (cll_clients l)"
    using unat_of_nat_u16 [of "length (cll_clients l)"] by (simp add: cll_ok_def)
  then show ?thesis
    by (simp add: word_less_nat_alt)
qed

lemma add_client_ok:
  assumes "cll_ok l" "length (cll_clients l) \<le> 100" "cl_clientId cl \<noteq> None"
  shows "cll_ok (add_client cl l)" "map_of (cll_clients (add_client cl l)) (cll_new l) = Some cl"
    "q \<noteq> cll_new l \<Longrightarrow> map_of (cll_clients (add_client cl l)) q = map_of (cll_clients l) q"
proof -
  have new: "cll_new l \<notin> fst ` set (cll_clients l)"
    using assms(1) by (auto simp: cll_ok_def)
  then have "map_of (cll_clients l) (cll_new l) = None"
    by (simp add: map_of_eq_None_iff)
  then show "map_of (cll_clients (add_client cl l)) (cll_new l) = Some cl"
    "q \<noteq> cll_new l \<Longrightarrow> map_of (cll_clients (add_client cl l)) q = map_of (cll_clients l) q"
    by (simp_all add: add_client_def map_add_def split: option.splits)
  show "cll_ok (add_client cl l)"
    using assms new by (auto simp: cll_ok_def add_client_def)
qed

lemma cll_update_ok:
  assumes "cll_ok l" "cl_clientId cl \<noteq> None"
  shows "cll_ok (cll_update p cl l)"
  using assms by (auto simp: cll_ok_def cll_update_def case_prod_beta' comp_def image_image)

lemma map_of_update: "map_of (map (\<lambda>(q, c). (q, if q = p then cl else c)) cs) q =
  (if q = p \<and> map_of cs p \<noteq> None then Some cl else map_of cs q)"
  by (induction cs) auto

lemma cll_update_lookup:
  "map_of (cll_clients (cll_update p cl l)) q =
     (if q = p \<and> map_of (cll_clients l) p \<noteq> None then Some cl else map_of (cll_clients l) q)"
  by (auto simp: cll_update_def map_of_update map_of_eq_None_iff)

lemma setClientId_status: "setClientId i cl = Some cl' \<Longrightarrow> cl_clientId cl' \<noteq> None \<and> cl_sensorNetAddr cl' = cl_sensorNetAddr cl"
  by (auto simp: setClientId_def split: option.splits Option.bind_splits)

lemma set_remove_first_subset: "set (remove_first P xs) \<subseteq> set xs"
  by (induction xs) auto

lemma erase_ok:
  assumes "cll_ok l"
  shows "cll_ok (l\<lparr>cll_clients := remove_first (\<lambda>c. fst c = p) (cll_clients l), cll_clientCnt := cll_clientCnt l - 1\<rparr>) \<or>
    map_of (cll_clients l) p = None"
proof (cases "find (\<lambda>c. fst c = p) (cll_clients l)")
  case None
  then show ?thesis
    by (auto simp: find_None_iff map_of_eq_None_iff)
next
  case (Some c)
  have n: "Suc (length (remove_first (\<lambda>c. fst c = p) (cll_clients l))) = length (cll_clients l)"
    using Some by (intro length_remove_first) simp
  then have "word_of_nat (length (remove_first (\<lambda>c. fst c = p) (cll_clients l))) = (word_of_nat (length (cll_clients l)) - 1 :: u16)"
    by (metis add_diff_cancel_left' of_nat_Suc)
  moreover have "set (remove_first (\<lambda>c. fst c = p) (cll_clients l)) \<subseteq> set (cll_clients l)"
    by (rule set_remove_first_subset)
  ultimately show ?thesis
    using assms n distinct_remove_first [of fst "cll_clients l" p] by (auto simp: cll_ok_def)
qed

lemma getClient_addr_found:
  assumes "getClient_addr (Some addr) l = Some p" "cll_ok l"
  shows "\<exists>cl. map_of (cll_clients l) p = Some cl \<and> sna_isMatch (cl_sensorNetAddr cl) addr"
proof -
  obtain c where c: "find (\<lambda>(p, cl). sna_isMatch (cl_sensorNetAddr cl) addr) (cll_clients l) = Some c" "p = fst c"
    using assms(1) by (auto simp: getClient_addr_def)
  then have "c \<in> set (cll_clients l)" "sna_isMatch (cl_sensorNetAddr (snd c)) addr"
    by (auto simp: find_Some_iff case_prod_beta')
  moreover have "distinct (map fst (cll_clients l))"
    using assms(2) by (simp add: cll_ok_def)
  ultimately show ?thesis
    using c(2) by (intro exI [of _ "snd c"]) simp
qed

lemma createClient_new:
  assumes "createClient (Some addr) i unstable secure type l = Some (r, l')" "\<not> cll_clientCnt l > MAX_CLIENTS" "getClient_addr (Some addr) l = None"
  obtains cl where "cl_clientId cl \<noteq> None" "cl_sensorNetAddr cl = addr" "r = Some (cll_new l)" "l' = add_client cl l"
proof -
  let ?c = "(Client_new secure)\<lparr>cl_sensorNetAddr := addr, cl_sensorNetype := unstable\<rparr>"
  let ?k = "\<lambda>c. if type = AGGREGATER_TYPE then setAggregated c else if type = QOSM1PROXY_TYPE then setQoSm1 c else c"
  obtain c where c: "setClientId (if MQTTSNstrlen i \<noteq> 0 then i else MQTTSNString_c []) ?c = Some c" "r = Some (cll_new l)" "l' = add_client (?k c) l"
    using assms by (auto simp: createClient_def Let_def split: if_splits Option.bind_splits)
  have "cl_clientId (?k c) \<noteq> None" "cl_sensorNetAddr (?k c) = addr"
    using setClientId_status [OF c(1)] by (simp_all add: setAggregated_def setQoSm1_def)
  then show ?thesis
    using c(2,3) by (rule that)
qed

text \<open>The search by identifier, for identifiers without NUL bytes.\<close>

lemma strncmp_prefix:
  "0 \<notin> set s \<Longrightarrow> 0 \<notin> set t \<Longrightarrow> strncmp_eq (s @ [0]) (t @ r) (length t) = Some (take (length t) s = t)"
proof (induction t arbitrary: s)
  case (Cons y t)
  then show ?case
    by (cases s) auto
qed simp

lemma getClient_id_find:
  assumes "\<forall>c \<in> set cs. \<exists>s. cl_clientId (snd c) = Some s \<and> 0 \<notin> set s" "0 \<notin> set t"
  shows "getClient_id_loop (t @ r) (length t) cs =
    Some (map_option fst (find (\<lambda>c. take (length t) (the (cl_clientId (snd c))) = t) cs))"
  using assms(1)
proof (induction cs)
  case (Cons c cs)
  then obtain s where "cl_clientId (snd c) = Some s" "0 \<notin> set s"
    by auto
  then show ?case
    using Cons strncmp_prefix [OF _ assms(2), of s r] by (cases c) auto
qed simp

subsection \<open>Properties\<close>

text \<open>C38: The state machine of a client. Whatever packets pass and whatever the broker answers, a client is active, asleep or awake only if the last CONNACK since
  its last CONNECT to the broker accepted it and its session has not ended; and the states \<open>Cstat_TryConnecting\<close> and \<open>Cstat_Lost\<close> are never reached, so
  \<open>isConnectSendable\<close> always holds.\<close>

theorem client_session_accepted:
  assumes "client_run acc cl"
  shows "(isActive cl \<or> isSleep cl \<or> isAwake cl \<longrightarrow> acc) \<and> isConnectSendable cl"
  using client_run_accepted [OF assms] by (auto simp: client_predicates isConnectSendable_def)

theorem client_session_accepted_witness:
  "isActive (connackSended 0 (connectSended (Client_new False))) \<and> isConnectSendable (connackSended 0 (connectSended (Client_new False)))"
proof -
  have "client_run (0 = MQTTSN_RC_ACCEPTED) (connackSended 0 (connectSended (Client_new False)))"
    by (rule client_run.connack [OF client_run.sent [OF client_run.created]])
  from client_session_accepted [OF this] show ?thesis
    by (simp add: isActive_def connackSended_def)
qed

text \<open>The identifiers a client gives out, from its creation on: packet identifiers run from 1 to 65534 and start again, the one-byte message identifiers of
  REGISTER from 1 to 255; none is ever 0.\<close>

theorem gw_identifiers_cycle:
  "packet_ids k (Client_new secure) = map (\<lambda>i. word_of_nat (i mod 65534 + 1)) [0..<k] \<and>
   sn_ids k (Client_new secure) = map (\<lambda>i. word_of_nat (i mod 255 + 1)) [0..<k]"
  using packet_ids_values [of "Client_new secure" 0 k] sn_ids_values [of "Client_new secure" 0 k]
  by (simp add: Client_new_def)

text \<open>\<open>createClient\<close> on a list of clients that satisfies the invariant (distinct pointers, the count is the length, at most 101 clients, every client has an
  identifier): it returns null and changes nothing if there are more than 100 clients; otherwise the client with that address if there is one, with the list unchanged; otherwise a
  new client with the address, which is then found under it, while every other client is as before. The invariant is kept, by \<open>erase\<close> too.\<close>

theorem clientlist_create:
  assumes "cll_ok l" "createClient (Some addr) i unstable secure type l = Some (r, l')"
  shows "cll_ok l' \<and> (ClientList_erase p l = Some (q, l'') \<longrightarrow> cll_ok l'') \<and>
    (case r of
       None \<Rightarrow> length (cll_clients l) > 100 \<and> l' = l
     | Some c \<Rightarrow> (\<exists>cl. map_of (cll_clients l') c = Some cl \<and> sna_isMatch (cl_sensorNetAddr cl) addr) \<and> getClient_addr (Some addr) l' = Some c \<and>
         (l' = l \<or> getClient_addr (Some addr) l = None \<and> (\<forall>d. d \<noteq> c \<longrightarrow> map_of (cll_clients l') d = map_of (cll_clients l) d)))"
proof -
  have e: "ClientList_erase p l = Some (q, l'') \<longrightarrow> cll_ok l''"
    using erase_ok [OF assms(1), of p] assms(1) by (auto simp: ClientList_erase_def split: Option.bind_splits if_splits)
  show ?thesis
  proof (cases "cll_clientCnt l > MAX_CLIENTS")
    case True
    then show ?thesis
      using assms e cll_count_full [OF assms(1)] by (simp add: createClient_def)
  next
    case False
    then have le: "length (cll_clients l) \<le> 100"
      using cll_count_full [OF assms(1)] by simp
    show ?thesis
    proof (cases "getClient_addr (Some addr) l")
      case (Some c)
      then have "r = Some c" "l' = l"
        using False assms(2) by (simp_all add: createClient_def)
      then show ?thesis
        using assms(1) e Some getClient_addr_found [OF Some assms(1)] by simp
    next
      case None
      then obtain cl where cl: "cl_clientId cl \<noteq> None" "cl_sensorNetAddr cl = addr" "r = Some (cll_new l)" "l' = add_client cl l"
        using createClient_new [OF assms(2) False] by blast
      have "getClient_addr (Some addr) l' = Some (cll_new l)"
        using None cl(2) by (auto simp: cl(4) getClient_addr_def add_client_def find_append_last sna_isMatch_def)
      then show ?thesis
        using e cl None add_client_ok [OF assms(1) le cl(1)] by (auto simp: sna_isMatch_def)
    qed
  qed
qed

theorem clientlist_create_witness:
  "\<exists>r l'. createClient (Some \<lparr>sna_portNo = 7, sna_IpAddr = 9\<rparr>) (MQTTSNString_c [97]) True False TRANSPEARENT_TYPE ClientList_init = Some (r, l') \<and>
     cll_ok l' \<and> getClient_addr (Some \<lparr>sna_portNo = 7, sna_IpAddr = 9\<rparr>) l' = Some 0"
proof -
  let ?a = "\<lparr>sna_portNo = 7, sna_IpAddr = 9\<rparr>"
  obtain cl where c: "createClient (Some ?a) (MQTTSNString_c [97]) True False TRANSPEARENT_TYPE ClientList_init =
      Some (Some 0, add_client cl ClientList_init)"
    by (auto simp: createClient_def ClientList_init_def getClient_addr_def setClientId_def MQTTSNString_c_def Let_def MQTTSNstrlen_def)
  show ?thesis
    using clientlist_create [OF cll_ok_init c] c by auto
qed

text \<open>The search for a client by its identifier compares only as many bytes as the identifier in the CONNECT has: it returns the first client whose identifier
  begins with it, whether or not they are equal; an empty identifier finds the first client.\<close>

theorem getClient_finds_prefix:
  assumes "\<forall>c \<in> set (cll_clients l). \<exists>s. cl_clientId (snd c) = Some s \<and> 0 \<notin> set s" "0 \<notin> set t"
  shows "getClient_id (MQTTSNString_l t) l =
    Some (map_option fst (find (\<lambda>c. take (length t) (the (cl_clientId (snd c))) = t) (cll_clients l)))"
  using getClient_id_find [OF assms, of "[]"]
  by (simp add: getClient_id_def MQTTSNString_l_def MQTTSNstrlen_def)

theorem getClient_finds_prefix_witness:
  "getClient_id (MQTTSNString_l [97]) \<lparr>cll_clients = [(0, (Client_new False)\<lparr>cl_clientId := Some [97, 98]\<rparr>)], cll_new = 1,
     cll_clientCnt = 1, cll_authorize = False\<rparr> = Some (Some 0)"
  by (subst getClient_finds_prefix) simp_all

text \<open>The table of message identifiers of an aggregating gateway. If the table has room and no entry for the message of the client, \<open>add\<close> makes one under the
  next packet identifier of the adapter. If no older entry has that identifier, \<open>getClientMsgId\<close> for it returns the client and the client's own identifier and takes the entry
  out again, and \<open>getMsgId\<close> finds it for a duplicate. A second \<open>add\<close> for the same message is refused.\<close>

theorem messageid_table_round_trip:
  assumes "mt_cnt t = int (length (mt_elements t))" "mt_cnt t \<le> 500" "mt_find_client c i t = None"
    "mt_find_msgId (fst (Client_getNextPacketId ad)) t = None"
  shows "\<exists>elm t' ad'. MessageIdTable_add c i t ad = (Some elm, t', ad') \<and> mi_msgId elm = fst (Client_getNextPacketId ad) \<and>
    getClientMsgId (mi_msgId elm) t' = ((Some c, i), t) \<and> MessageIdTable_getMsgId c i t' = mi_msgId elm \<and>
    fst (MessageIdTable_add c i t' ad') = None"
proof -
  let ?n = "fst (Client_getNextPacketId ad)"
  let ?e = "\<lparr>mi_msgId = ?n, mi_client = c, mi_clientMsgId = i\<rparr>"
  let ?t = "t\<lparr>mt_elements := mt_elements t @ [?e], mt_cnt := mt_cnt t + 1\<rparr>"
  have add: "MessageIdTable_add c i t ad = (Some ?e, ?t, snd (Client_getNextPacketId ad))"
    using assms(2,3) by (simp add: MessageIdTable_add_def Let_def case_prod_beta')
  have "remove_first (\<lambda>p. mi_msgId p = ?n) (mt_elements t @ [?e]) = mt_elements t"
    using assms(4) remove_first_split [of "mt_elements t" "\<lambda>p. mi_msgId p = ?n" ?e "[]"]
    by (auto simp: mt_find_msgId_def find_None_iff)
  then have "getClientMsgId ?n ?t = ((Some c, i), t)"
    using assms(4) by (simp add: getClientMsgId_def mt_find_msgId_def find_append_last MessageIdTable_clear_def)
  moreover have "MessageIdTable_getMsgId c i ?t = ?n" "fst (MessageIdTable_add c i ?t ad') = None" for ad'
    using assms(3) by (simp_all add: MessageIdTable_getMsgId_def MessageIdTable_add_def mt_find_client_def find_append_last)
  ultimately show ?thesis
    using add by simp
qed

theorem messageid_table_round_trip_witness:
  "\<exists>elm t' ad'. MessageIdTable_add 4 9 MessageIdTable_init (Client_new True) = (Some elm, t', ad') \<and>
     mi_msgId elm = fst (Client_getNextPacketId (Client_new True)) \<and>
     getClientMsgId (mi_msgId elm) t' = ((Some 4, 9), MessageIdTable_init) \<and> MessageIdTable_getMsgId 4 9 t' = mi_msgId elm \<and>
     fst (MessageIdTable_add 4 9 t' ad') = None"
  by (rule messageid_table_round_trip) (simp_all add: MessageIdTable_init_def mt_find_client_def mt_find_msgId_def)

end
