(* ===== verification/MQTTSNGW_Forwarder.thy ===== *)
theory MQTTSNGW_Forwarder
  imports MQTTSNGW_Client
begin

text \<open>
  Clients behind a forwarder: the encapsulation of \<^verbatim>\<open>MQTTSNGWEncapsulatedPacket.cpp\<close> and the forwarders of \<^verbatim>\<open>MQTTSNGWForwarder.cpp\<close>. A forwarder is
  known by its place in the list, which only grows. Memory allocation succeeds.
\<close>

subsection \<open>WirelessNodeId\<close>

record WirelessNodeId =
  wn_len :: byte
  wn_nodeId :: cptr

definition WirelessNodeId_new :: WirelessNodeId where
  "WirelessNodeId_new = \<lparr>wn_len = 0, wn_nodeId = None\<rparr>"

definition setId :: "cptr \<Rightarrow> byte \<Rightarrow> WirelessNodeId option" where
  "setId i len = do {
     d \<leftarrow> calloc (uint len);
     d \<leftarrow> memcpy d 0 i (uint len);
     Some \<lparr>wn_len = len, wn_nodeId = Some d\<rparr> }"

definition setId_copy :: "WirelessNodeId \<Rightarrow> WirelessNodeId option" where
  "setId_copy i = setId (wn_nodeId i) (wn_len i)"

definition wn_equals :: "WirelessNodeId \<Rightarrow> WirelessNodeId \<Rightarrow> bool option" where
  "wn_equals a b =
     (if wn_len a = wn_len b
      then if wn_len a = 0 then Some True
           else do { x \<leftarrow> wn_nodeId a; y \<leftarrow> wn_nodeId b; memcmp_eq x y (unat (wn_len a)) }
      else Some False)"

subsection \<open>MQTTSNGWEncapsulatedPacket\<close>

record MQTTSNGWEncapsulatedPacket =
  ep_mqttsn :: "MQTTSNPacket option"
  ep_id :: WirelessNodeId
  ep_ctrl :: byte

definition EP_new :: "MQTTSNPacket option \<Rightarrow> MQTTSNGWEncapsulatedPacket" where
  "EP_new packet = \<lparr>ep_mqttsn = packet, ep_id = WirelessNodeId_new, ep_ctrl = 0\<rparr>"

text \<open>The first byte is the sum modulo 256; the packet is copied behind that many bytes.\<close>

definition EP_serialize :: "MQTTSNGWEncapsulatedPacket \<Rightarrow> buffer \<Rightarrow> (int \<times> buffer) option" where
  "EP_serialize e buf = do {
     let b0 = wn_len (ep_id e) + 3;
     buf \<leftarrow> store buf 0 b0;
     buf \<leftarrow> store buf 1 (sn_code MQTTSN_ENCAPSULATED);
     buf \<leftarrow> store buf 2 (ep_ctrl e);
     buf \<leftarrow> memcpy buf 3 (wn_nodeId (ep_id e)) (uint (wn_len (ep_id e)));
     (case ep_mqttsn e of
        None \<Rightarrow> Some (uint b0, buf)
      | Some p \<Rightarrow> do {
          buf \<leftarrow> memcpy buf (unat b0) (spk_buf p) (spk_bufLen p);
          Some (uint b0 + spk_bufLen p, buf) }) }"

definition EP_desirialize :: "buffer \<Rightarrow> u16 \<Rightarrow> (int \<times> MQTTSNGWEncapsulatedPacket) option" where
  "EP_desirialize buf len = do {
     ctrl \<leftarrow> array_get buf 2;
     b0 \<leftarrow> array_get buf 0;
     i \<leftarrow> setId (Some (drop 3 buf)) (b0 - 3);
     p \<leftarrow> SN_desirialize (drop (unat b0) buf) (uint len - uint b0);
     Some (uint b0, \<lparr>ep_mqttsn = Some p, ep_id = i, ep_ctrl = ctrl\<rparr>) }"

definition EP_unicast :: "MQTTSNGWEncapsulatedPacket \<Rightarrow> byte list option" where
  "EP_unicast e = do {
     (len, buf) \<leftarrow> EP_serialize e (replicate MQTTSNGW_MAX_PACKET_SIZE 0);
     Some (take (nat len) buf) }"

definition EP_setWirelessNodeId :: "WirelessNodeId \<Rightarrow> MQTTSNGWEncapsulatedPacket \<Rightarrow> MQTTSNGWEncapsulatedPacket option" where
  "EP_setWirelessNodeId i e = do { i \<leftarrow> setId_copy i; Some (e\<lparr>ep_id := i\<rparr>) }"

subsection \<open>Forwarders\<close>

record Forwarder =
  fw_forwarderName :: "byte list"
  fw_sensorNetAddr :: SensorNetAddress
  fw_clients :: "(client_ptr \<times> WirelessNodeId) list"

type_synonym forwarder_ptr = nat

definition getForwarder :: "SensorNetAddress \<Rightarrow> Forwarder list \<Rightarrow> forwarder_ptr option" where
  "getForwarder addr fs = map_option fst (find (\<lambda>(i, f). sna_isMatch (fw_sensorNetAddr f) addr) (enumerate 0 fs))"

definition addForwarder :: "SensorNetAddress \<Rightarrow> byte list \<Rightarrow> Forwarder list \<Rightarrow> forwarder_ptr \<times> Forwarder list" where
  "addForwarder addr forwarderId fs =
     (length fs, fs @ [\<lparr>fw_forwarderName = forwarderId, fw_sensorNetAddr = addr, fw_clients = []\<rparr>])"

text \<open>The client learns its forwarder; \<open>fw\<close> is the pointer of \<open>f\<close>.\<close>

definition Forwarder_addClient ::
  "forwarder_ptr \<Rightarrow> client_ptr \<Rightarrow> WirelessNodeId \<Rightarrow> Forwarder \<Rightarrow> ClientList \<Rightarrow> (Forwarder \<times> ClientList) option" where
  "Forwarder_addClient fw client i f l = do {
     cl \<leftarrow> map_of (cll_clients l) client;
     let l = cll_update client (setForwarder fw cl) l;
     if client \<in> fst ` set (fw_clients f) then Some (f, l)
     else do { i \<leftarrow> setId_copy i; Some (f\<lparr>fw_clients := fw_clients f @ [(client, i)]\<rparr>, l) } }"

fun forwarded_client :: "WirelessNodeId \<Rightarrow> (client_ptr \<times> WirelessNodeId) list \<Rightarrow> client_ptr option option" where
  "forwarded_client i [] = Some None"
| "forwarded_client i ((client, j) # ps) = do {
     e \<leftarrow> wn_equals j i;
     if e then Some (Some client) else forwarded_client i ps }"

definition Forwarder_getClient :: "WirelessNodeId \<Rightarrow> Forwarder \<Rightarrow> client_ptr option option" where
  "Forwarder_getClient i f = forwarded_client i (fw_clients f)"

definition getWirelessNodeId :: "client_ptr \<Rightarrow> Forwarder \<Rightarrow> WirelessNodeId option" where
  "getWirelessNodeId client f = map_of (fw_clients f) client"

text \<open>\<open>prev\<close> is never set: the list begins anew behind the element that is erased.\<close>

definition eraseClient :: "client_ptr \<Rightarrow> Forwarder \<Rightarrow> Forwarder" where
  "eraseClient client f =
     (if client \<in> fst ` set (fw_clients f)
      then f\<lparr>fw_clients := tl (dropWhile (\<lambda>p. fst p \<noteq> client) (fw_clients f))\<rparr> else f)"


subsection \<open>The encapsulated datagram\<close>

definition EP_of :: "byte list \<Rightarrow> byte \<Rightarrow> byte list \<Rightarrow> MQTTSNGWEncapsulatedPacket" where
  "EP_of node ctrl bs =
     \<lparr>ep_mqttsn = Some \<lparr>spk_buf = Some bs, spk_bufLen = int (length bs)\<rparr>,
      ep_id = \<lparr>wn_len = word_of_nat (length node), wn_nodeId = Some node\<rparr>, ep_ctrl = ctrl\<rparr>"

definition EP_wire :: "byte list \<Rightarrow> byte \<Rightarrow> byte list \<Rightarrow> byte list" where
  "EP_wire node ctrl bs = (word_of_nat (length node) + 3) # sn_code MQTTSN_ENCAPSULATED # ctrl # node @ bs"

lemma byte_of_length:
  assumes "n < 253"
  shows "unat (word_of_nat n :: byte) = n" "uint (word_of_nat n :: byte) = int n"
    "unat (word_of_nat n + 3 :: byte) = n + 3" "uint (word_of_nat n + 3 :: byte) = int n + 3"
proof -
  have b: "unat (word_of_nat (n + 3) :: byte) = n + 3"
    by (rule unat_of_nat_byte) (use assms in simp)
  show a: "unat (word_of_nat n :: byte) = n"
    by (rule unat_of_nat_byte) (use assms in simp)
  show c: "unat (word_of_nat n + 3 :: byte) = n + 3"
    using b by simp
  show "uint (word_of_nat n :: byte) = int n" "uint (word_of_nat n + 3 :: byte) = int n + 3"
    using a c by (simp_all only: uint_nat of_nat_add of_nat_numeral)
qed

lemma EP_serialize_wire:
  assumes "length node < 253"
  shows "EP_serialize (EP_of node ctrl bs) buf =
    (if length (EP_wire node ctrl bs) \<le> length buf
     then Some (int (length (EP_wire node ctrl bs)), EP_wire node ctrl bs @ drop (length (EP_wire node ctrl bs)) buf) else None)"
proof (cases "3 \<le> length buf")
  case True
  then obtain x y z rest where buf: "buf = x # y # z # rest"
    by (auto simp: numeral_3_eq_3 Suc_le_length_iff)
  have st: "store (x # y # z # rest) 0 a = Some (a # y # z # rest)" "store (a # y # z # rest) (Suc 0) b = Some (a # b # z # rest)"
    "store (a # b # z # rest) 2 c = Some (a # b # c # rest)" for a b c
    by (simp_all add: store_def numeral_2_eq_2)
  have m: "memcpy (a # b # c # rest) 3 (Some node) (int (length node)) =
    (if length node \<le> length rest then Some (a # b # c # node @ drop (length node) rest) else None)" for a b c
    by (auto simp: memcpy_def numeral_3_eq_3)
  have m2: "memcpy (a # b # c # node @ drop (length node) rest) (length node + 3) (Some bs) (int (length bs)) =
    (if length node + length bs \<le> length rest then Some (a # b # c # node @ bs @ drop (length node + length bs) rest) else None)"
    if "length node \<le> length rest" for a b c
    using that by (auto simp: memcpy_def ac_simps numeral_3_eq_3)
  show ?thesis
    unfolding EP_of_def EP_wire_def
    by (simp add: EP_serialize_def byte_of_length [OF assms] st m m2 buf)
next
  case False
  then have "length buf = 0 \<or> length buf = Suc 0 \<or> length buf = Suc (Suc 0)"
    by linarith
  then have "buf = [] \<or> (\<exists>x. buf = [x]) \<or> (\<exists>x y. buf = [x, y])"
    by (auto simp: length_Suc_conv)
  then show ?thesis
    by (auto simp: EP_serialize_def EP_of_def EP_wire_def store_def)
qed


lemma EP_desirialize_wire:
  assumes "length node < 253" "length (EP_wire node ctrl bs) < 65536"
  shows "EP_desirialize (EP_wire node ctrl bs @ rest) (word_of_nat (length (EP_wire node ctrl bs))) = Some (int (length node) + 3, EP_of node ctrl bs)"
proof -
  let ?w = "EP_wire node ctrl bs"
  have n: "uint (word_of_nat (length ?w) :: u16) = int (length ?w)"
    using assms(2) u16_value [of "int (length ?w)"] by simp
  have len: "int (length ?w) - (int (length node) + 3) = int (length bs)"
    by (simp add: EP_wire_def)
  have d: "drop (length node + 3) (?w @ rest) = bs @ rest" "drop 3 (?w @ rest) = node @ bs @ rest"
    by (simp_all add: EP_wire_def numeral_3_eq_3)
  have i: "setId (Some (node @ bs @ rest)) (word_of_nat (length node)) = Some \<lparr>wn_len = word_of_nat (length node), wn_nodeId = Some node\<rparr>"
    by (simp add: setId_def calloc_def memcpy_def byte_of_length [OF assms(1)])
  have p: "SN_desirialize (bs @ rest) (int (length bs)) = Some \<lparr>spk_buf = Some bs, spk_bufLen = int (length bs)\<rparr>"
    by (rule SN_desirialize_frame) (use assms(2) in \<open>simp add: EP_wire_def\<close>)
  have g: "array_get (?w @ rest) 2 = Some ctrl" "array_get (?w @ rest) 0 = Some (word_of_nat (length node) + 3)"
    by (simp_all add: array_get_def EP_wire_def)
  show ?thesis
    unfolding EP_desirialize_def n
    by (simp add: g byte_of_length [OF assms(1)] d i len p EP_of_def del: drop_append)
qed

subsection \<open>Properties\<close>

text \<open>Encapsulation for clients behind a forwarder. With a node identifier of fewer than 253 bytes, what the gateway sends for a packet is a datagram of type
  ENCAPSULATED, from which \<open>desirialize\<close> takes the identifier, the control byte and the packet again; a datagram of more than 1024 bytes overruns the
  buffer of \<open>unicast\<close>.\<close>

theorem encapsulation_round_trip:
  assumes "length node < 253" "length bs < 65000"
  shows "EP_desirialize (EP_wire node ctrl bs @ rest) (word_of_nat (length (EP_wire node ctrl bs))) = Some (int (length node) + 3, EP_of node ctrl bs) \<and>
    EP_unicast (EP_of node ctrl bs) = (if length (EP_wire node ctrl bs) \<le> 1024 then Some (EP_wire node ctrl bs) else None) \<and>
    SN_getType \<lparr>spk_buf = Some (EP_wire node ctrl bs), spk_bufLen = int (length (EP_wire node ctrl bs))\<rparr> = Some (uint (sn_code MQTTSN_ENCAPSULATED))"
proof -
  let ?w = "EP_wire node ctrl bs"
  have 1: "length ?w < 65536"
    using assms by (simp add: EP_wire_def)
  have u: "EP_unicast (EP_of node ctrl bs) = (if length ?w \<le> 1024 then Some ?w else None)"
    by (simp add: EP_unicast_def EP_serialize_wire [OF assms(1)])
  have b: "(word_of_nat (length node) + 3 :: byte) \<noteq> 1"
    using byte_of_length(3) [OF assms(1)] by (metis One_nat_def add_is_1 numeral_eq_one_iff numeral_3_eq_3 nat.distinct(1) nat.inject unat_1)
  have t: "SN_getType \<lparr>spk_buf = Some ?w, spk_bufLen = int (length ?w)\<rparr> = Some (uint (sn_code MQTTSN_ENCAPSULATED))"
    using b by (simp add: SN_getType_def SN_decode_def SN_byte_def EP_wire_def MQTTSNPacket_decode_def array_get_def)
  show ?thesis
    using EP_desirialize_wire [OF assms(1) 1] u t by simp
qed


theorem encapsulation_round_trip_witness:
  "EP_unicast (EP_of [7, 8] 1 [2, 22]) = Some (EP_wire [7, 8] 1 [2, 22]) \<and>
   EP_desirialize (EP_wire [7, 8] 1 [2, 22] @ [0]) 7 = Some (5, EP_of [7, 8] 1 [2, 22])"
  using encapsulation_round_trip [of "[7, 8]" "[2, 22]" 1 "[0]"] by (simp add: EP_wire_def)

text \<open>A node identifier that is there: the invariant of the clients of a forwarder.\<close>

definition wn_ok :: "WirelessNodeId \<Rightarrow> bool" where
  "wn_ok i \<longleftrightarrow> (\<exists>d. wn_nodeId i = Some d \<and> length d = unat (wn_len i))"

definition forwarder_ok :: "Forwarder \<Rightarrow> bool" where
  "forwarder_ok f \<longleftrightarrow> distinct (map fst (fw_clients f)) \<and> (\<forall>e\<in>set (fw_clients f). wn_ok (snd e))"

lemma setId_copy_ok: "wn_ok i \<Longrightarrow> setId_copy i = Some i"
  by (cases i) (auto simp: wn_ok_def setId_copy_def setId_def calloc_def memcpy_def uint_0_iff)

lemma wn_equals_ok:
  assumes "wn_ok i" "wn_ok j"
  shows "wn_equals i j = Some (i = j)"
proof (cases "wn_len i = wn_len j")
  case True
  obtain d e where d: "wn_nodeId i = Some d" "length d = unat (wn_len j)" and e: "wn_nodeId j = Some e" "length e = unat (wn_len j)"
    using assms True by (auto simp: wn_ok_def)
  have eq: "i = j \<longleftrightarrow> d = e"
    using True d(1) e(1) by (auto intro: WirelessNodeId.equality)
  have "memcmp_eq d e (unat (wn_len j)) = Some (d = e)"
    using memcmp_eq_take [of "unat (wn_len j)" d e] d(2) e(2) by simp
  moreover have "wn_len j = 0 \<Longrightarrow> d = [] \<and> e = []"
    using d(2) e(2) by simp
  ultimately show ?thesis
    by (auto simp: wn_equals_def True d(1) e(1) eq)
next
  case False
  then show ?thesis
    by (auto simp: wn_equals_def)
qed

lemma forwarded_client_find:
  assumes "wn_ok i" "\<forall>e\<in>set ps. wn_ok (snd e)"
  shows "forwarded_client i ps = Some (map_option fst (find (\<lambda>e. snd e = i) ps))"
  using assms(2) by (induction ps) (auto simp: wn_equals_ok [OF _ assms(1)])

text \<open>The clients of a forwarder. Adding a client under a node identifier keeps the table well formed, records the forwarder in the client, and the client then has
  that identifier and is found under it unless another client had it before; the other clients keep theirs. Erasing the first client removes it alone; but erasing a later one
  removes every client before it as well.\<close>

theorem forwarder_table:
  assumes "forwarder_ok f" "wn_ok i" "map_of (cll_clients l) c = Some cl"
  shows "\<exists>f' l'. Forwarder_addClient fw c i f l = Some (f', l') \<and> forwarder_ok f' \<and>
    l' = cll_update c (setForwarder fw cl) l \<and>
    (\<forall>d. getWirelessNodeId d f' = (if d = c \<and> getWirelessNodeId c f = None then Some i else getWirelessNodeId d f)) \<and>
    (getWirelessNodeId c f = None \<longrightarrow> Forwarder_getClient i f' =
       Some (Some (case find (\<lambda>e. snd e = i) (fw_clients f) of None \<Rightarrow> c | Some e \<Rightarrow> fst e))) \<and>
    (fw_clients f = before @ (e, j) # after \<longrightarrow> fw_clients (eraseClient e f) = after)"
proof -
  have er: "fw_clients f = before @ (e, j) # after \<longrightarrow> fw_clients (eraseClient e f) = after"
  proof
    assume f: "fw_clients f = before @ (e, j) # after"
    then have "e \<notin> fst ` set before"
      using assms(1) by (auto simp: forwarder_ok_def)
    then have "dropWhile (\<lambda>p. fst p \<noteq> e) (fw_clients f) = (e, j) # after"
      unfolding f by (subst dropWhile_append2) auto
    then show "fw_clients (eraseClient e f) = after"
      by (simp add: eraseClient_def f)
  qed
  let ?f = "if c \<in> fst ` set (fw_clients f) then f else f\<lparr>fw_clients := fw_clients f @ [(c, i)]\<rparr>"
  have n: "getWirelessNodeId c f = None \<longleftrightarrow> c \<notin> fst ` set (fw_clients f)"
    by (simp add: getWirelessNodeId_def map_of_eq_None_iff)
  have add: "Forwarder_addClient fw c i f l = Some (?f, cll_update c (setForwarder fw cl) l)"
    using assms by (simp add: Forwarder_addClient_def setId_copy_ok)
  have ok: "forwarder_ok ?f"
    using assms by (auto simp: forwarder_ok_def)
  have look: "getWirelessNodeId d ?f = (if d = c \<and> getWirelessNodeId c f = None then Some i else getWirelessNodeId d f)" for d
    using n by (auto simp: getWirelessNodeId_def map_of_append map_add_def split: option.splits)
  have get: "getWirelessNodeId c f = None \<longrightarrow> Forwarder_getClient i ?f =
       Some (Some (case find (\<lambda>e. snd e = i) (fw_clients f) of None \<Rightarrow> c | Some e \<Rightarrow> fst e))"
  proof
    assume "getWirelessNodeId c f = None"
    then have f: "fw_clients ?f = fw_clients f @ [(c, i)]"
      using n by simp
    have "forwarded_client i (fw_clients ?f) = Some (map_option fst (find (\<lambda>e. snd e = i) (fw_clients ?f)))"
      using ok by (intro forwarded_client_find [OF assms(2)]) (simp add: forwarder_ok_def)
    then show "Forwarder_getClient i ?f = Some (Some (case find (\<lambda>e. snd e = i) (fw_clients f) of None \<Rightarrow> c | Some e \<Rightarrow> fst e))"
      unfolding f Forwarder_getClient_def by (simp add: find_append_last split: option.splits)
  qed
  show ?thesis
    using er by (intro exI [of _ ?f] exI [of _ "cll_update c (setForwarder fw cl) l"] conjI allI add ok look get refl)
qed

theorem forwarder_table_witness:
  "\<exists>f'. Forwarder_addClient 0 5 \<lparr>wn_len = 1, wn_nodeId = Some [9]\<rparr> \<lparr>fw_forwarderName = [], fw_sensorNetAddr = \<lparr>sna_portNo = 1, sna_IpAddr = 2\<rparr>, fw_clients = []\<rparr>
     \<lparr>cll_clients = [(5, Client_new False)], cll_new = 6, cll_clientCnt = 1, cll_authorize = False\<rparr> =
     Some (f', \<lparr>cll_clients = [(5, setForwarder 0 (Client_new False))], cll_new = 6, cll_clientCnt = 1, cll_authorize = False\<rparr>) \<and>
   Forwarder_getClient \<lparr>wn_len = 1, wn_nodeId = Some [9]\<rparr> f' = Some (Some 5)"
  using forwarder_table [of "\<lparr>fw_forwarderName = [], fw_sensorNetAddr = \<lparr>sna_portNo = 1, sna_IpAddr = 2\<rparr>, fw_clients = []\<rparr>" "\<lparr>wn_len = 1, wn_nodeId = Some [9]\<rparr>"
    "\<lparr>cll_clients = [(5, Client_new False)], cll_new = 6, cll_clientCnt = 1, cll_authorize = False\<rparr>" 5 "Client_new False" 0 "[]" 0 undefined "[]"]
  by (auto simp: forwarder_ok_def wn_ok_def getWirelessNodeId_def cll_update_def)

end
