(* ===== verification/MQTTSNGW_Gateway.thy ===== *)
theory MQTTSNGW_Gateway
  imports MQTTSNGW_Forwarder
begin

text \<open>
  The state the tasks of the gateway share: events and their queues (\<^verbatim>\<open>MQTTSNGateway.cpp\<close>), the proxies and adapters that represent groups of clients to the
  broker (\<^verbatim>\<open>MQTTSNGWAdapter.cpp\<close>, \<^verbatim>\<open>MQTTSNGWQoSm1Proxy.cpp\<close>, \<^verbatim>\<open>MQTTSNGWAggregater.cpp\<close>) and their manager (\<^verbatim>\<open>MQTTSNGWAdapterManager.cpp\<close>). A queue of
  events is the list of its elements with a bound, as \<open>MQTTSNGW_Linked\<close> justifies; a task that waits on an empty queue does not take a step. Of a timer the model has
  whether it was started; whether it is up is an argument. Start-up from the configuration files is not modelled, nor the timers of the thread that sends
  advertisements.
\<close>

subsection \<open>Events\<close>

datatype Event =
  EtStop
| EtTimeout
| EtBrokerRecv client_ptr MQTTGWPacket
| EtBrokerSend client_ptr MQTTGWPacket
| EtClientRecv client_ptr MQTTSNPacket
| EtClientSend client_ptr MQTTSNPacket
| EtBroadcast MQTTSNPacket
| EtSensornetSend SensorNetAddress MQTTSNPacket

text \<open>\<open>EventQue\<close> with its bound. An event that does not fit is deleted.\<close>

definition EventQue_post :: "int \<Rightarrow> Event \<Rightarrow> Event list \<Rightarrow> Event list" where
  "EventQue_post bound ev q = snd (que_step bound (Q_post (Some ev)) q)"

definition EventQue_timedwait :: "Event list \<Rightarrow> Event \<times> Event list" where
  "EventQue_timedwait q = (if q = [] then (EtTimeout, q) else (hd q, tl q))"

definition EventQue_wait :: "Event list \<Rightarrow> (Event \<times> Event list) option" where
  "EventQue_wait q = (case q of [] \<Rightarrow> None | ev # q \<Rightarrow> Some (ev, q))"

abbreviation (input) packetEventQue_size :: int where "packetEventQue_size \<equiv> 1000"

subsection \<open>The state of the gateway\<close>

record Proxy =
  px_suspendedPacketEventQue :: "Event list"
  px_responseTimer :: bool
  px_isWaitingResp :: bool
  px_retryCnt :: int

definition Proxy_new :: Proxy where
  "Proxy_new = \<lparr>px_suspendedPacketEventQue = [], px_responseTimer = False, px_isWaitingResp = False, px_retryCnt = 0\<rparr>"

text \<open>\<open>ad_isActive\<close> is the member of the derived classes that their \<open>isActive\<close> returns.\<close>

record Adapter =
  ad_proxy :: Proxy
  ad_proxySecure :: Proxy
  ad_client :: "client_ptr option"
  ad_clientSecure :: "client_ptr option"
  ad_isActive :: bool
  ad_isSecure :: bool

definition Adapter_new :: Adapter where
  "Adapter_new = \<lparr>ad_proxy = Proxy_new, ad_proxySecure = Proxy_new, ad_client = None, ad_clientSecure = None, ad_isActive = False, ad_isSecure = False\<rparr>"

text \<open>\<open>gw_network\<close> says which clients have a valid connection to the broker.\<close>

record Gateway =
  gw_loginId :: "byte list option"
  gw_password :: "byte list option"
  gw_keepAlive :: u16
  gw_gatewayId :: byte
  gw_mqttVersion :: byte
  gw_secure :: bool
  gw_clientList :: ClientList
  gw_packetEventQue :: "Event list"
  gw_brokerSendQue :: "Event list"
  gw_clientSendQue :: "Event list"
  gw_topics :: Topics
  gw_forwarders :: "Forwarder list"
  gw_qosm1Proxy :: Adapter
  gw_aggregater :: Adapter
  gw_msgIdTable :: MessageIdTable
  gw_network :: "client_ptr \<Rightarrow> bool"

definition gw_client :: "client_ptr \<Rightarrow> Gateway \<Rightarrow> Client option" where
  "gw_client c g = map_of (cll_clients (gw_clientList g)) c"

definition gw_set :: "client_ptr \<Rightarrow> Client \<Rightarrow> Gateway \<Rightarrow> Gateway" where
  "gw_set c cl g = g\<lparr>gw_clientList := cll_update c cl (gw_clientList g)\<rparr>"

definition network_close :: "client_ptr \<Rightarrow> Gateway \<Rightarrow> Gateway" where
  "network_close c g = g\<lparr>gw_network := (gw_network g)(c := False)\<rparr>"

definition post_packetEvent :: "Event \<Rightarrow> Gateway \<Rightarrow> Gateway" where
  "post_packetEvent ev g = g\<lparr>gw_packetEventQue := EventQue_post packetEventQue_size ev (gw_packetEventQue g)\<rparr>"

definition post_brokerSend :: "Event \<Rightarrow> Gateway \<Rightarrow> Gateway" where
  "post_brokerSend ev g = g\<lparr>gw_brokerSendQue := EventQue_post 0 ev (gw_brokerSendQue g)\<rparr>"

definition post_clientSend :: "Event \<Rightarrow> Gateway \<Rightarrow> Gateway" where
  "post_clientSend ev g = g\<lparr>gw_clientSendQue := EventQue_post 0 ev (gw_clientSendQue g)\<rparr>"

subsection \<open>Proxy\<close>

text \<open>\<open>responseUp\<close> and \<open>keepAliveUp\<close> say whether the two timers are up.\<close>

definition Proxy_checkConnection :: "bool \<Rightarrow> bool \<Rightarrow> client_ptr \<Rightarrow> Proxy \<Rightarrow> Gateway \<Rightarrow> (Proxy \<times> Gateway) option" where
  "Proxy_checkConnection responseUp keepAliveUp c px g = do {
     cl \<leftarrow> gw_client c g;
     if isDisconnect cl \<or> isConnecting cl \<and> responseUp
     then do {
       let g = gw_set c (connectSended cl) g;
       let options = MQTTSNPacket_connectData_initializer
         \<lparr>snc_clientID := MQTTSNString_initializer\<lparr>sn_cstring := cl_clientId cl\<rparr>, snc_duration := 900\<rparr>;
       packet \<leftarrow> SN_setCONNECT options;
       Some (px\<lparr>px_responseTimer := True\<rparr>, post_packetEvent (EtClientRecv c packet) g) }
     else if isActive cl \<and> keepAliveUp \<or> px_isWaitingResp px \<and> responseUp
     then do {
       packet \<leftarrow> SN_setPINGREQ MQTTSNString_initializer;
       let g = post_packetEvent (EtClientRecv c packet) g;
       let px = px\<lparr>px_responseTimer := True, px_isWaitingResp := True, px_retryCnt := px_retryCnt px + 1\<rparr>;
       Some (px, if px_retryCnt px > 3 then gw_set c (disconnected cl) g else g) }
     else Some (px, g) }"

definition sendSuspendedPacket :: "Proxy \<Rightarrow> Gateway \<Rightarrow> Proxy \<times> Gateway" where
  "sendSuspendedPacket px g = (px\<lparr>px_suspendedPacketEventQue := []\<rparr>, fold post_packetEvent (px_suspendedPacketEventQue px) g)"

definition Proxy_recv :: "MQTTSNPacket \<Rightarrow> Proxy \<Rightarrow> Gateway \<Rightarrow> (Proxy \<times> Gateway) option" where
  "Proxy_recv packet px g = do {
     t \<leftarrow> SN_getType packet;
     if t = uint (sn_code MQTTSN_CONNACK)
     then do {
       a \<leftarrow> SN_isAccepted packet;
       Some (if a then sendSuspendedPacket (px\<lparr>px_responseTimer := False, px_retryCnt := 0\<rparr>) g else (px, g)) }
     else if t = uint (sn_code MQTTSN_PINGRESP)
     then Some (px\<lparr>px_isWaitingResp := False, px_responseTimer := False, px_retryCnt := 0\<rparr>, g)
     else Some (px, g) }"

definition Proxy_savePacket :: "client_ptr \<Rightarrow> MQTTSNPacket \<Rightarrow> Proxy \<Rightarrow> Proxy option" where
  "Proxy_savePacket c packet px = do {
     pk \<leftarrow> SN_copy packet;
     Some (px\<lparr>px_suspendedPacketEventQue := EventQue_post 0 (EtClientRecv c pk) (px_suspendedPacketEventQue px)\<rparr>) }"

subsection \<open>Adapter\<close>

text \<open>The two adapters of the gateway; an operation of an adapter takes and returns it with the gateway.\<close>

definition Adapter_setup :: "byte list \<Rightarrow> AdapterType \<Rightarrow> Adapter \<Rightarrow> Gateway \<Rightarrow> (Adapter \<times> Gateway) option" where
  "Adapter_setup adapterName adapterType ad g = do {
     let ad = ad\<lparr>ad_isSecure := gw_secure g\<rparr>;
     (c, l) \<leftarrow> createClient None (MQTTSNString_c (c_str adapterName)) True False TRANSPEARENT_TYPE (gw_clientList g);
     c \<leftarrow> c;
     cl \<leftarrow> map_of (cll_clients l) c;
     let l = cll_update c (setAdapterType adapterType cl) l;
     (s, l) \<leftarrow> createClient None (MQTTSNString_c (c_str adapterName @ [45, 83])) True True TRANSPEARENT_TYPE l;
     s \<leftarrow> s;
     cl \<leftarrow> map_of (cll_clients l) s;
     let l = cll_update s (setAdapterType adapterType cl) l;
     Some (ad\<lparr>ad_client := Some c, ad_clientSecure := Some s\<rparr>, g\<lparr>gw_clientList := l\<rparr>) }"

definition Adapter_getClient :: "SensorNetAddress \<Rightarrow> Gateway \<Rightarrow> client_ptr option" where
  "Adapter_getClient addr g =
     (case getClient_addr (Some addr) (gw_clientList g) of
        None \<Rightarrow> None
      | Some c \<Rightarrow> (case gw_client c g of None \<Rightarrow> None | Some cl \<Rightarrow> if isQoSm1 cl then Some c else None))"

definition Adapter_getClientId :: "SensorNetAddress \<Rightarrow> Gateway \<Rightarrow> byte list option" where
  "Adapter_getClientId addr g =
     (case Adapter_getClient addr g of
        None \<Rightarrow> None
      | Some c \<Rightarrow> (case gw_client c g of None \<Rightarrow> None | Some cl \<Rightarrow> if isQoSm1 cl then cl_clientId cl else None))"

definition Adapter_isSecure :: "SensorNetAddress \<Rightarrow> Gateway \<Rightarrow> bool" where
  "Adapter_isSecure addr g =
     (case Adapter_getClient addr g of
        None \<Rightarrow> False
      | Some c \<Rightarrow> (case gw_client c g of None \<Rightarrow> False | Some cl \<Rightarrow> cl_secureNetwork cl))"

text \<open>The four answers are those of the timers of the two proxies.\<close>

definition Adapter_checkConnection :: "bool \<times> bool \<Rightarrow> bool \<times> bool \<Rightarrow> Adapter \<Rightarrow> Gateway \<Rightarrow> (Adapter \<times> Gateway) option" where
  "Adapter_checkConnection up upSecure ad g = do {
     c \<leftarrow> ad_client ad;
     (px, g) \<leftarrow> Proxy_checkConnection (fst up) (snd up) c (ad_proxy ad) g;
     let ad = ad\<lparr>ad_proxy := px\<rparr>;
     if ad_isSecure ad
     then do {
       c \<leftarrow> ad_clientSecure ad;
       (px, g) \<leftarrow> Proxy_checkConnection (fst upSecure) (snd upSecure) c (ad_proxySecure ad) g;
       Some (ad\<lparr>ad_proxySecure := px\<rparr>, g) }
     else Some (ad, g) }"

definition Adapter_send :: "MQTTSNPacket \<Rightarrow> Client \<Rightarrow> Adapter \<Rightarrow> Gateway \<Rightarrow> (Adapter \<times> Gateway) option" where
  "Adapter_send packet cl ad g =
     (if cl_secureNetwork cl \<and> \<not> ad_isSecure ad
      then if ad_isSecure ad
           then do { (px, g) \<leftarrow> Proxy_recv packet (ad_proxySecure ad) g; Some (ad\<lparr>ad_proxySecure := px\<rparr>, g) }
           else Some (ad, g)
      else do { (px, g) \<leftarrow> Proxy_recv packet (ad_proxy ad) g; Some (ad\<lparr>ad_proxy := px\<rparr>, g) })"

definition Adapter_savePacket :: "client_ptr \<Rightarrow> Client \<Rightarrow> MQTTSNPacket \<Rightarrow> Adapter \<Rightarrow> Adapter option" where
  "Adapter_savePacket c cl packet ad =
     (if cl_secureNetwork cl
      then do { px \<leftarrow> Proxy_savePacket c packet (ad_proxySecure ad); Some (ad\<lparr>ad_proxySecure := px\<rparr>) }
      else do { px \<leftarrow> Proxy_savePacket c packet (ad_proxy ad); Some (ad\<lparr>ad_proxy := px\<rparr>) })"

definition getAdapterClient :: "Client \<Rightarrow> Adapter \<Rightarrow> client_ptr option" where
  "getAdapterClient cl ad = (if cl_secureNetwork cl then ad_client ad else ad_client ad)"

subsection \<open>Aggregater\<close>

text \<open>Message identifiers come from the secure client of the adapter. The table of topics of aggregated clients is not implemented: adding does nothing, and the list of
  clients for a topic is null.\<close>

definition addMessageIdTable :: "client_ptr \<Rightarrow> u16 \<Rightarrow> Gateway \<Rightarrow> (u16 \<times> Gateway) option" where
  "addMessageIdTable c msgId g = do {
     s \<leftarrow> ad_clientSecure (gw_aggregater g);
     cl \<leftarrow> gw_client s g;
     let (elm, t, cl) = MessageIdTable_add c msgId (gw_msgIdTable g) cl;
     Some (case elm of None \<Rightarrow> 0 | Some elm \<Rightarrow> mi_msgId elm, (gw_set s cl g)\<lparr>gw_msgIdTable := t\<rparr>) }"

definition Aggregater_getMsgId :: "client_ptr \<Rightarrow> u16 \<Rightarrow> Gateway \<Rightarrow> u16" where
  "Aggregater_getMsgId c clientMsgId g = MessageIdTable_getMsgId c clientMsgId (gw_msgIdTable g)"

definition convertClient :: "u16 \<Rightarrow> Gateway \<Rightarrow> (client_ptr option \<times> u16) \<times> Gateway" where
  "convertClient msgId g = (let (r, t) = getClientMsgId msgId (gw_msgIdTable g) in (r, g\<lparr>gw_msgIdTable := t\<rparr>))"

definition addAggregateTopic :: "Topic \<Rightarrow> client_ptr \<Rightarrow> Gateway \<Rightarrow> int \<times> Gateway" where
  "addAggregateTopic topic c g = (0, g)"

definition removeAggregateTopic :: "Topic \<Rightarrow> client_ptr \<Rightarrow> Gateway \<Rightarrow> Gateway" where
  "removeAggregateTopic topic c g = g"

definition removeAggregateTopicList :: "Topics \<Rightarrow> client_ptr \<Rightarrow> Gateway \<Rightarrow> Gateway" where
  "removeAggregateTopicList topics c g = g"

definition createClientList :: "Topic \<Rightarrow> Gateway \<Rightarrow> client_ptr list option" where
  "createClientList topic g = None"

subsection \<open>AdapterManager\<close>

definition isAggregaterActive :: "Gateway \<Rightarrow> bool" where
  "isAggregaterActive g \<longleftrightarrow> ad_isActive (gw_aggregater g)"

definition isAggregatedClient :: "Client \<Rightarrow> Gateway \<Rightarrow> bool" where
  "isAggregatedClient cl g \<longleftrightarrow> \<not> (\<not> ad_isActive (gw_aggregater g) \<or> isQoSm1 cl \<or> isAggregater cl \<or> isQoSm1Proxy cl)"

text \<open>The client under whose connection a packet goes to the broker.\<close>

definition AdapterManager_getClient :: "client_ptr \<Rightarrow> Gateway \<Rightarrow> client_ptr option" where
  "AdapterManager_getClient c g = do {
     cl \<leftarrow> gw_client c g;
     if isQoSm1 cl then getAdapterClient cl (gw_qosm1Proxy g)
     else if isAggregated cl then getAdapterClient cl (gw_aggregater g)
     else Some c }"

text \<open>What \<open>unicastToClient\<close> puts on the sensor network.\<close>

definition unicastToClient :: "client_ptr \<Rightarrow> MQTTSNPacket \<Rightarrow> Gateway \<Rightarrow> ((SensorNetAddress \<times> byte list) option \<times> Gateway) option" where
  "unicastToClient c packet g = do {
     cl \<leftarrow> gw_client c g;
     (case cl_forwarder cl of
        Some fw \<Rightarrow> do {
          f \<leftarrow> (if fw < length (gw_forwarders g) then Some (gw_forwarders g ! fw) else None);
          i \<leftarrow> getWirelessNodeId c f;
          e \<leftarrow> EP_setWirelessNodeId i (EP_new (Some packet));
          bs \<leftarrow> EP_unicast e;
          Some (Some (fw_sensorNetAddr f, bs), g) }
      | None \<Rightarrow>
          if isQoSm1Proxy cl
          then do { (ad, g) \<leftarrow> Adapter_send packet cl (gw_qosm1Proxy g) g; Some (None, g\<lparr>gw_qosm1Proxy := ad\<rparr>) }
          else if isAggregater cl
          then do { (ad, g) \<leftarrow> Adapter_send packet cl (gw_aggregater g) g; Some (None, g\<lparr>gw_aggregater := ad\<rparr>) }
          else do { bs \<leftarrow> spk_buf packet; Some (Some (cl_sensorNetAddr cl, take (nat (spk_bufLen packet)) bs), g) }) }"

definition AdapterManager_checkConnection ::
  "(bool \<times> bool) \<times> (bool \<times> bool) \<Rightarrow> (bool \<times> bool) \<times> (bool \<times> bool) \<Rightarrow> Gateway \<Rightarrow> Gateway option" where
  "AdapterManager_checkConnection upAggregater upProxy g = do {
     g \<leftarrow> (if ad_isActive (gw_aggregater g)
           then do { (ad, g) \<leftarrow> Adapter_checkConnection (fst upAggregater) (snd upAggregater) (gw_aggregater g) g; Some (g\<lparr>gw_aggregater := ad\<rparr>) }
           else Some g);
     (if ad_isActive (gw_qosm1Proxy g)
      then do { (ad, g) \<leftarrow> Adapter_checkConnection (fst upProxy) (snd upProxy) (gw_qosm1Proxy g) g; Some (g\<lparr>gw_qosm1Proxy := ad\<rparr>) }
      else Some g) }"

end
