(* ===== verification/MQTTSNGW_Handlers.thy ===== *)
theory MQTTSNGW_Handlers
  imports MQTTSNGW_Gateway
begin

text \<open>
  The handlers of the gateway and the dispatcher that calls them: \<^verbatim>\<open>MQTTSNGWConnectionHandler.cpp\<close>, \<^verbatim>\<open>MQTTSNGWPublishHandler.cpp\<close>, \<^verbatim>\<open>MQTTSNGWSubscribeHandler.cpp\<close>
  and \<^verbatim>\<open>MQTTSNAggregateConnectionHandler.cpp\<close> for packets from clients, \<^verbatim>\<open>MQTTGWConnectionHandler.cpp\<close>, \<^verbatim>\<open>MQTTGWPublishHandler.cpp\<close> and
  \<^verbatim>\<open>MQTTGWSubscribeHandler.cpp\<close> for packets from the broker, and \<^verbatim>\<open>MQTTSNGWPacketHandleTask.cpp\<close>. A handler takes the client (a pointer), the packet and the gateway; \<open>None\<close> is
  undefined behaviour: a null or dangling pointer, an access outside memory, or the use of a variable that was not initialised. Names of handlers for packets from clients begin with
  \<open>SN\<close>, for packets from the broker with \<open>GW\<close>. A bit-field of type \<open>bool\<close> is 1 for every value but 0.
\<close>

text \<open>What a handler finds in its own uninitialised \<open>MQTTSN_topicid\<close> and in the two low bytes of an address.\<close>

record locals =
  lo_addr :: u16
  lo_topic :: MQTTSN_topicid

definition bit_of :: "byte \<Rightarrow> byte" where
  "bit_of b = (if b \<noteq> 0 then 1 else 0)"

subsection \<open>Connections of clients\<close>

definition sendADVERTISE :: "Gateway \<Rightarrow> Gateway option" where
  "sendADVERTISE g = do {
     adv \<leftarrow> SN_setADVERTISE (gw_gatewayId g) (gw_keepAlive g);
     Some (post_clientSend (EtBroadcast adv) g) }"

definition handleSearchgw :: "MQTTSNPacket \<Rightarrow> Gateway \<Rightarrow> Gateway option" where
  "handleSearchgw packet g = do {
     t \<leftarrow> SN_getType packet;
     if t = uint (sn_code MQTTSN_SEARCHGW)
     then do { gwinfo \<leftarrow> SN_setGWINFO (gw_gatewayId g); Some (post_clientSend (EtBroadcast gwinfo) g) }
     else Some g }"

function sendStored_loop :: "client_ptr \<Rightarrow> Client \<Rightarrow> Gateway \<Rightarrow> Client \<times> Gateway" where
  "sendStored_loop c cl g =
     (case getClientSleepPacket cl of
        None \<Rightarrow> (cl, g)
      | Some msg \<Rightarrow> sendStored_loop c (deleteFirstClientSleepPacket cl) (post_packetEvent (EtBrokerRecv c msg) g))"
  by pat_completeness auto
termination
  by (relation "measure (\<lambda>(c, cl, g). length (cl_clientSleepPacketQue cl))")
    (auto simp: getClientSleepPacket_def deleteFirstClientSleepPacket_def split: list.splits)

declare sendStored_loop.simps [simp del]

definition sendStoredPublish :: "client_ptr \<Rightarrow> Gateway \<Rightarrow> Gateway option" where
  "sendStoredPublish c g = do {
     cl \<leftarrow> gw_client c g;
     let (cl, g) = sendStored_loop c cl g;
     Some (gw_set c cl g) }"

definition connect_data :: "MQTTSNPacket_connectData \<Rightarrow> Client \<Rightarrow> Gateway \<Rightarrow> GWConnect" where
  "connect_data data cl g =
     (let connectData = MQTTPacket_Connect_Initializer
            \<lparr>gc_header := set_header_type (msgType_code CONNECT) 0, gc_clientID := cl_clientId cl, gc_version := gw_mqttVersion g,
             gc_keepAliveTimer := uint (snc_duration data), gc_flags := set_flags_will (bit_of (snc_willFlag data)) 0\<rparr>;
          connectData = (if gw_loginId g \<noteq> None \<and> gw_password g \<noteq> None
            then connectData\<lparr>gc_flags := set_flags_username 1 (set_flags_password 1 (gc_flags connectData))\<rparr> else connectData)
      in if snc_cleansession data \<noteq> 0
         then connectData\<lparr>gc_flags := set_flags_cleansession 1 (gc_flags connectData)\<rparr> else connectData)"

definition clean_session :: "Client \<Rightarrow> Client" where
  "clean_session cl =
     (let cl = clearWaitedSubTopicId (clearWaitedPubTopicId cl)
      in cl\<lparr>cl_topics := eraseNormal (cl_topics cl), cl_sessionStatus := True\<rparr>)"

text \<open>All fields of \<open>data\<close> that are used are assigned when \<open>getCONNECT\<close> succeeds.\<close>

definition SN_handleConnect :: "client_ptr \<Rightarrow> MQTTSNPacket \<Rightarrow> Gateway \<Rightarrow> Gateway option" where
  "SN_handleConnect c packet g = do {
     (rc, data) \<leftarrow> SN_getCONNECT MQTTSNPacket_connectData_initializer packet;
     if rc = 0 then Some g
     else do {
       cl \<leftarrow> gw_client c g;
       if isSleep cl \<or> isAwake cl
       then do {
         packet \<leftarrow> SN_setCONNACK MQTTSN_RC_ACCEPTED;
         sendStoredPublish c (post_clientSend (EtClientSend c packet) g) }
       else do {
         let cl = (if isAdapter cl then cl else disconnected cl);
         let cl = cl\<lparr>cl_connectData := connect_data data cl g, cl_sessionStatus := False\<rparr>;
         let cl = (if snc_cleansession data \<noteq> 0 then clean_session cl else cl);
         let g = gw_set c cl g;
         if snc_willFlag data \<noteq> 0
         then do { reqTopic \<leftarrow> SN_setWILLTOPICREQ; Some (post_clientSend (EtClientSend c reqTopic) g) }
         else do {
           (_, mqMsg) \<leftarrow> GW_setCONNECT GW_new (cl_connectData cl) (gw_loginId g) (gw_password g);
           Some (post_brokerSend (EtBrokerSend c mqMsg) g) } } } }"

definition SN_handleWilltopic :: "client_ptr \<Rightarrow> MQTTSNPacket \<Rightarrow> Gateway \<Rightarrow> Gateway option" where
  "SN_handleWilltopic c packet g = do {
     (rc, out) \<leftarrow> SN_getWILLTOPIC \<lparr>will_QoS = 0, will_Retain = 0, will_Topic = MQTTSNString_initializer\<rparr> packet;
     if rc = 0 then Some g
     else do {
       cl \<leftarrow> gw_client c g;
       cl \<leftarrow> setWillTopic (will_Topic out) cl;
       let connectData = cl_connectData cl;
       let connectData = connectData\<lparr>gc_willTopic := cl_willTopic cl,
             gc_flags := set_flags_willRetain (bit_of (will_Retain out)) (set_flags_willQoS (word_of_int (will_QoS out)) (gc_flags connectData))\<rparr>;
       let cl = cl\<lparr>cl_connectData := connectData, cl_waitWillMsgFlg := True\<rparr>;
       reqMsg \<leftarrow> SN_setWILLMSGREQ;
       Some (post_clientSend (EtClientSend c reqMsg) (gw_set c cl g)) } }"

definition SN_handleWillmsg :: "client_ptr \<Rightarrow> MQTTSNPacket \<Rightarrow> Gateway \<Rightarrow> Gateway option" where
  "SN_handleWillmsg c packet g = do {
     cl \<leftarrow> gw_client c g;
     if \<not> cl_waitWillMsgFlg cl \<or> \<not> isConnectSendable cl then Some g
     else do {
       (rc, willmsg) \<leftarrow> SN_getWILLMSG MQTTSNString_initializer packet;
       if rc = 0 then Some g
       else do {
         cl \<leftarrow> setWillMsg willmsg cl;
         let connectData = (cl_connectData cl)\<lparr>gc_willMsg := cl_willMsg cl\<rparr>;
         (_, mqttPacket) \<leftarrow> GW_setCONNECT GW_new connectData (gw_loginId g) (gw_password g);
         let cl = cl\<lparr>cl_connectData := connectData, cl_waitWillMsgFlg := False\<rparr>;
         Some (post_brokerSend (EtBrokerSend c mqttPacket) (gw_set c cl g)) } } }"

definition SN_handleDisconnect :: "client_ptr \<Rightarrow> MQTTSNPacket \<Rightarrow> Gateway \<Rightarrow> Gateway option" where
  "SN_handleDisconnect c packet g = do {
     (rc, duration) \<leftarrow> SN_getDISCONNECT packet;
     let g = (if rc \<noteq> 0 \<and> duration = 0 then post_brokerSend (EtBrokerSend c (snd (GW_setHeader GW_new (msgType_code DISCONNECT)))) g else g);
     snMsg \<leftarrow> SN_setDISCONNECT 0;
     Some (post_clientSend (EtClientSend c snMsg) g) }"

definition SN_handleWilltopicupd :: "client_ptr \<Rightarrow> Gateway \<Rightarrow> Gateway option" where
  "SN_handleWilltopicupd c g = do {
     respMsg \<leftarrow> SN_setWILLTOPICRESP MQTTSN_RC_NOT_SUPPORTED;
     Some (post_clientSend (EtClientSend c respMsg) g) }"

definition SN_handleWillmsgupd :: "client_ptr \<Rightarrow> Gateway \<Rightarrow> Gateway option" where
  "SN_handleWillmsgupd c g = do {
     respMsg \<leftarrow> SN_setWILLMSGRESP MQTTSN_RC_NOT_SUPPORTED;
     Some (post_clientSend (EtClientSend c respMsg) g) }"

definition send_pingreq :: "client_ptr \<Rightarrow> Client \<Rightarrow> Gateway \<Rightarrow> Gateway" where
  "send_pingreq c cl g =
     post_brokerSend (EtBrokerSend c (snd (GW_setHeader GW_new (msgType_code PINGREQ)))) (gw_set c (cl\<lparr>cl_holdPingRequest := False\<rparr>) g)"

definition SN_handlePingreq :: "client_ptr \<Rightarrow> Gateway \<Rightarrow> Gateway option" where
  "SN_handlePingreq c g = do {
     cl \<leftarrow> gw_client c g;
     if (isSleep cl \<or> isAwake cl) \<and> getClientSleepPacket cl \<noteq> None
     then do {
       g \<leftarrow> sendStoredPublish c g;
       cl \<leftarrow> gw_client c g;
       Some (gw_set c (cl\<lparr>cl_holdPingRequest := True\<rparr>) g) }
     else Some (send_pingreq c cl g) }"

subsection \<open>Publications of clients\<close>

text \<open>The topic of an identifier: one of the client, or a predefined one of the gateway, which is then added to those of the client.\<close>

definition resolve_topic :: "u16 \<Rightarrow> MQTTSN_topicid \<Rightarrow> Client \<Rightarrow> Gateway \<Rightarrow> Topic option \<times> Client" where
  "resolve_topic addr topicid cl g =
     (case getTopicById addr (cl_topics cl) topicid of
        Some topic \<Rightarrow> (Some topic, cl)
      | None \<Rightarrow>
          (case getTopicById addr (gw_topics g) topicid of
             None \<Rightarrow> (None, cl)
           | Some topic \<Rightarrow>
               (let (topic, ts) = Topics_add_name (cl_topics cl) (c_str (tp_topicName topic)) (tp_topicId topic)
                in (topic, cl\<lparr>cl_topics := ts\<rparr>))))"

definition snpublish_init :: "locals \<Rightarrow> snpublish_out" where
  "snpublish_init lo = \<lparr>snp_dup = 0, snp_qos = 0, snp_retained = 0, snp_packetid = 0, snp_topic = lo_topic lo, snp_payload = None, snp_payloadlen = 0\<rparr>"

text \<open>The rest of \<open>handlePublish\<close> once the topic is known: \<open>name\<close> is \<open>pub.topic\<close> with its length.\<close>

definition publish_to_broker ::
  "u16 \<Rightarrow> client_ptr \<Rightarrow> snpublish_out \<Rightarrow> cptr \<times> int \<Rightarrow> Client \<Rightarrow> Gateway \<Rightarrow> (MQTTGWPacket option \<times> Gateway) option" where
  "publish_to_broker addr c out name cl g = do {
     let cl = (if snp_packetid out \<noteq> 0 \<and> snp_qos out > 0 \<and> snp_qos out < 3
               then setWaitedPubTopicId (snp_packetid out) (union_id addr (topic_data (snp_topic out))) (topic_type (snp_topic out)) cl else cl);
     let header = set_header_retain (bit_of (snp_retained out)) (set_header_qos (if snp_qos out = 3 then 0 else word_of_int (snp_qos out))
       (set_header_dup (bit_of (snp_dup out)) 0));
     let pub = \<lparr>gpub_header = header, gpub_topic = fst name, gpub_topiclen = snd name, gpub_msgId = uint (snp_packetid out),
       gpub_payload = snp_payload out, gpub_payloadlen = snp_payloadlen out\<rparr>;
     (_, publish) \<leftarrow> GW_setPUBLISH GW_new pub;
     let g = gw_set c cl g;
     Some (if isAggregaterActive g \<and> isAggregated cl then (Some publish, g)
           else (None, post_brokerSend (EtBrokerSend c publish) g)) }"

definition SN_handlePublish :: "locals \<Rightarrow> client_ptr \<Rightarrow> MQTTSNPacket \<Rightarrow> Gateway \<Rightarrow> (MQTTGWPacket option \<times> Gateway) option" where
  "SN_handlePublish lo c packet g = do {
     cl \<leftarrow> gw_client c g;
     if \<not> ad_isActive (gw_qosm1Proxy g) \<and> isQoSm1 cl
     then do { ad \<leftarrow> Adapter_savePacket c cl packet (gw_qosm1Proxy g); Some (None, g\<lparr>gw_qosm1Proxy := ad\<rparr>) }
     else do {
       (rc, out) \<leftarrow> SN_getPUBLISH (snpublish_init lo) packet;
       let topicid = snp_topic out;
       let addr = lo_addr lo;
       if rc = 0 then Some (None, g)
       else if topic_type topicid = MQTTSN_TOPIC_TYPE_SHORT
       then do {
         (a, b) \<leftarrow> data_short (topic_data topicid);
         publish_to_broker addr c out (Some [a, b], 2) cl g }
       else do {
         let (topic, cl) = resolve_topic addr topicid cl g;
         (case topic of
            Some topic \<Rightarrow> publish_to_broker addr c out (Some (tp_topicName topic), int (length (tp_topicName topic))) cl g
          | None \<Rightarrow>
              if snp_qos out = 3 then Some (None, gw_set c cl g)
              else if snp_packetid out \<noteq> 0 \<and> snp_qos out > 0 \<and> snp_qos out < 3
              then do {
                pubAck \<leftarrow> SN_setPUBACK (union_id addr (topic_data topicid)) (snp_packetid out) MQTTSN_RC_REJECTED_INVALID_TOPIC_ID;
                Some (None, post_clientSend (EtClientSend c pubAck) (gw_set c cl g)) }
              else publish_to_broker addr c out (None, 0) cl g) } } }"

definition topic_ack_init :: topic_ack_out where
  "topic_ack_init = \<lparr>ta_topicid = 0, ta_packetid = 0, ta_returncode = 0\<rparr>"

definition SN_handlePuback :: "client_ptr \<Rightarrow> MQTTSNPacket \<Rightarrow> Gateway \<Rightarrow> Gateway option" where
  "SN_handlePuback c packet g = do {
     cl \<leftarrow> gw_client c g;
     if \<not> isActive cl then Some g
     else do {
       (rc, out) \<leftarrow> SN_getPUBACK topic_ack_init packet;
       if rc \<noteq> 0 \<and> ta_returncode out = MQTTSN_RC_ACCEPTED \<and> \<not> ad_isActive (gw_aggregater g)
       then do {
         (_, pubAck) \<leftarrow> GW_setAck GW_new (msgType_code PUBACK) (ta_packetid out);
         Some (post_brokerSend (EtBrokerSend c pubAck) g) }
       else Some g } }"

definition SN_handleAck :: "client_ptr \<Rightarrow> MQTTSNPacket \<Rightarrow> byte \<Rightarrow> Gateway \<Rightarrow> Gateway option" where
  "SN_handleAck c packet packetType g = do {
     cl \<leftarrow> gw_client c g;
     if \<not> isActive cl then Some g
     else do {
       (rc, msgId) \<leftarrow> SN_getACK 0 packet;
       if rc = 0 then Some g
       else do {
         (_, ackPacket) \<leftarrow> GW_setAck GW_new packetType msgId;
         Some (post_brokerSend (EtBrokerSend c ackPacket) g) } } }"

text \<open>\<open>add\<close> returns a null pointer when the table of topics is full; it is used at once.\<close>

definition SN_handleRegister :: "client_ptr \<Rightarrow> MQTTSNPacket \<Rightarrow> Gateway \<Rightarrow> Gateway option" where
  "SN_handleRegister c packet g = do {
     cl \<leftarrow> gw_client c g;
     if \<not> (isActive cl \<or> isAwake cl) then Some g
     else do {
       (rc, out) \<leftarrow> SN_getREGISTER \<lparr>reg_topicid = 0, reg_packetid = 0, reg_topicname = MQTTSNString_initializer\<rparr> packet;
       if rc = 0 then Some g
       else do {
         let lenstring = sn_lenstring (reg_topicname out);
         let topicid = \<lparr>topic_type = MQTTSN_TOPIC_TYPE_NORMAL, topic_data = Topic_long (snls_data lenstring) (snls_len lenstring)\<rparr>;
         (topic, ts) \<leftarrow> Topics_add (cl_topics cl) topicid;
         topic \<leftarrow> topic;
         regAck \<leftarrow> SN_setREGACK (tp_topicId topic) (reg_packetid out) MQTTSN_RC_ACCEPTED;
         Some (post_clientSend (EtClientSend c regAck) (gw_set c (cl\<lparr>cl_topics := ts\<rparr>) g)) } } }"

definition SN_handleRegAck :: "client_ptr \<Rightarrow> MQTTSNPacket \<Rightarrow> Gateway \<Rightarrow> Gateway option" where
  "SN_handleRegAck c packet g = do {
     cl \<leftarrow> gw_client c g;
     if \<not> (isActive cl \<or> isAwake cl) then Some g
     else do {
       (rc, out) \<leftarrow> SN_getREGACK topic_ack_init packet;
       if rc = 0 then Some g
       else do {
         let msgId = ta_packetid out;
         let (cl, g) =
           (case fst (fst (wr_step (WR_get msgId) (cl_waitREGACKList cl))) of
              None \<Rightarrow> (cl, g)
            | Some regAck \<Rightarrow>
                (let cl = cl\<lparr>cl_waitREGACKList := snd (wr_step (WR_erase msgId) (cl_waitREGACKList cl))\<rparr>
                 in (cl, post_clientSend (EtClientSend c regAck) (gw_set c cl g))));
         Some (if cl_holdPingRequest cl \<and> snd (fst (wr_step WR_count (cl_waitREGACKList cl))) = 0 then send_pingreq c cl g else g) } } }"

subsection \<open>Subscriptions of clients\<close>

text \<open>The end of \<open>handleSubscribe\<close>: the topic of the SUBACK is saved and the packet goes to the broker, or back to the caller for an aggregated client.\<close>

definition subscribe_to_broker ::
  "client_ptr \<Rightarrow> snsubscribe_out \<Rightarrow> byte list \<Rightarrow> u16 \<Rightarrow> Client \<Rightarrow> Gateway \<Rightarrow> (MQTTGWPacket option \<times> Gateway) option" where
  "subscribe_to_broker c out name topicId cl g = do {
     (_, subscribe) \<leftarrow> GW_setSUBSCRIBE GW_new name (word_of_int (sns_qos out)) (sns_packetid out);
     let cl = setWaitedSubTopicId (sns_packetid out) topicId (topic_type (sns_topicFilter out)) cl;
     let g = gw_set c cl g;
     Some (if isAggregated cl then (Some subscribe, g) else (None, post_brokerSend (EtBrokerSend c subscribe) g)) }"

text \<open>A predefined identifier that the client does not have: if the gateway has it, SUBACK refuses; if not, a null pointer is followed.\<close>

definition SN_handleSubscribe :: "locals \<Rightarrow> client_ptr \<Rightarrow> MQTTSNPacket \<Rightarrow> Gateway \<Rightarrow> (MQTTGWPacket option \<times> Gateway) option" where
  "SN_handleSubscribe lo c packet g = do {
     (rc, out) \<leftarrow> SN_getSUBSCRIBE \<lparr>sns_dup = 0, sns_qos = 0, sns_packetid = 0, sns_topicFilter = lo_topic lo\<rparr> packet;
     let topicFilter = sns_topicFilter out;
     if rc = 0 \<or> sns_packetid out = 0 then Some (None, g)
     else do {
       cl \<leftarrow> gw_client c g;
       if topic_type topicFilter = MQTTSN_TOPIC_TYPE_PREDEFINED
       then (case getTopicById (lo_addr lo) (cl_topics cl) topicFilter of
               Some topic \<Rightarrow> subscribe_to_broker c out (c_str (tp_topicName topic)) (tp_topicId topic) cl g
             | None \<Rightarrow>
                 (case getTopicById (lo_addr lo) (gw_topics g) topicFilter of
                    None \<Rightarrow> None
                  | Some _ \<Rightarrow> do {
                      sSuback \<leftarrow> SN_setSUBACK (sns_qos out) (union_id (lo_addr lo) (topic_data topicFilter)) (sns_packetid out) MQTTSN_RC_NOT_SUPPORTED;
                      Some (None, post_clientSend (EtClientSend c sSuback) g) }))
       else if topic_type topicFilter = MQTTSN_TOPIC_TYPE_NORMAL
       then do {
         topic \<leftarrow> getTopicByName (cl_topics cl) topicFilter;
         (topic, ts) \<leftarrow> (case topic of Some topic \<Rightarrow> Some (Some topic, cl_topics cl) | None \<Rightarrow> Topics_add (cl_topics cl) topicFilter);
         (case topic of
            None \<Rightarrow> Some (None, g)
          | Some topic \<Rightarrow> subscribe_to_broker c out (c_str (tp_topicName topic)) (tp_topicId topic) (cl\<lparr>cl_topics := ts\<rparr>) g) }
       else do {
         (a, b) \<leftarrow> data_short (topic_data topicFilter);
         subscribe_to_broker c out (c_str [a, b]) 0 cl g } } }"

definition SN_handleUnsubscribe :: "locals \<Rightarrow> client_ptr \<Rightarrow> MQTTSNPacket \<Rightarrow> Gateway \<Rightarrow> (MQTTGWPacket option \<times> Gateway) option" where
  "SN_handleUnsubscribe lo c packet g = do {
     (rc, out) \<leftarrow> SN_getUNSUBSCRIBE \<lparr>snu_packetid = 0, snu_topicFilter = lo_topic lo\<rparr> packet;
     let topicFilter = snu_topicFilter out;
     let msgId = snu_packetid out;
     if rc = 0 \<or> msgId = 0 then Some (None, g)
     else do {
       cl \<leftarrow> gw_client c g;
       name \<leftarrow> (if topic_type topicFilter = MQTTSN_TOPIC_TYPE_SHORT
                then do { (a, b) \<leftarrow> data_short (topic_data topicFilter); Some (Some (c_str [a, b])) }
                else Some (map_option (\<lambda>topic. c_str (tp_topicName topic)) (getTopicById (lo_addr lo) (cl_topics cl) topicFilter)));
       (case name of
          None \<Rightarrow> do {
            sUnsuback \<leftarrow> SN_setUNSUBACK msgId;
            Some (None, post_clientSend (EtClientSend c sUnsuback) g) }
        | Some name \<Rightarrow> do {
            (_, unsubscribe) \<leftarrow> GW_setUNSUBSCRIBE GW_new name msgId;
            Some (if isAggregated cl then (Some unsubscribe, g) else (None, post_brokerSend (EtBrokerSend c unsubscribe) g)) }) } }"

subsection \<open>Packets of the broker\<close>

text \<open>\<open>getPUBLISH\<close>, \<open>getAck\<close>, \<open>getCONNACK\<close> and \<open>getSUBACK\<close> into a variable that is not initialised: if they do not fill it, its use is undefined.\<close>

definition filled :: "(int \<times> 'a) option \<Rightarrow> 'a option" where
  "filled r = do { (rc, x) \<leftarrow> r; if rc = 0 then None else Some x }"

definition connack_code :: "byte \<Rightarrow> byte" where
  "connack_code rc =
     (if rc = 0 then MQTTSN_RC_ACCEPTED
      else if rc = 1 then MQTTSN_RC_NOT_SUPPORTED
      else if rc = 2 then MQTTSN_RC_NOT_SUPPORTED
      else if rc = 3 then MQTTSN_RC_REJECTED_CONGESTED
      else if rc = 4 then MQTTSN_RC_NOT_SUPPORTED
      else if rc = 5 then MQTTSN_RC_NOT_SUPPORTED
      else 3)"

definition GW_handleConnack :: "client_ptr \<Rightarrow> MQTTGWPacket \<Rightarrow> Gateway \<Rightarrow> Gateway option" where
  "GW_handleConnack c packet g = do {
     resp \<leftarrow> filled (GW_getCONNACK \<lparr>gca_header = 0, gca_flags = 0, gca_rc = 0\<rparr> packet);
     let rc = connack_code (gca_rc resp);
     snPacket \<leftarrow> SN_setCONNACK rc;
     cl \<leftarrow> gw_client c g;
     Some (post_clientSend (EtClientSend c snPacket) (gw_set c (connackSended rc cl) g)) }"

definition GW_handlePingresp :: "client_ptr \<Rightarrow> Gateway \<Rightarrow> Gateway option" where
  "GW_handlePingresp c g = do {
     snPacket \<leftarrow> SN_setPINGRESP;
     cl \<leftarrow> gw_client c g;
     cl \<leftarrow> updateStatus snPacket cl;
     Some (post_clientSend (EtClientSend c snPacket) (gw_set c cl g)) }"

text \<open>The event for the client is made and not posted; the connection to the broker is closed.\<close>

definition GW_handleDisconnect :: "client_ptr \<Rightarrow> Gateway \<Rightarrow> Gateway option" where
  "GW_handleDisconnect c g = do {
     _ \<leftarrow> SN_setDISCONNECT 0;
     cl \<leftarrow> gw_client c g;
     Some (network_close c (gw_set c (disconnected cl) g)) }"

definition replyACK :: "client_ptr \<Rightarrow> GWPublish \<Rightarrow> byte \<Rightarrow> Gateway \<Rightarrow> Gateway option" where
  "replyACK c pub type g = do {
     (_, pubAck) \<leftarrow> GW_setAck GW_new type (word_of_int (gpub_msgId pub));
     Some (post_brokerSend (EtBrokerSend c pubAck) g) }"

text \<open>PUBACK or PUBREC, by the QoS of the message.\<close>

definition reply_by_qos :: "client_ptr \<Rightarrow> GWPublish \<Rightarrow> Gateway \<Rightarrow> Gateway option" where
  "reply_by_qos c pub g =
     (if header_qos (gpub_header pub) = 1 then replyACK c pub (msgType_code PUBACK) g
      else if header_qos (gpub_header pub) = 2 then replyACK c pub (msgType_code PUBREC) g
      else Some g)"

definition get_publish :: "MQTTGWPacket \<Rightarrow> GWPublish option" where
  "get_publish packet = filled (GW_getPUBLISH MQTTPacket_Publish_Initializer packet)"

definition snpublish_for :: "GWPublish \<Rightarrow> MQTTSN_topicid \<Rightarrow> MQTTSNPacket option" where
  "snpublish_for pub topicId =
     SN_setPUBLISH (header_dup (gpub_header pub)) (uint (header_qos (gpub_header pub))) (header_retain (gpub_header pub))
       (word_of_int (gpub_msgId pub)) topicId (gpub_payload pub) (word_of_int (gpub_payloadlen pub))"

text \<open>A message for a client that sleeps: it is acknowledged and saved.\<close>

definition save_publish :: "client_ptr \<Rightarrow> MQTTGWPacket \<Rightarrow> Gateway \<Rightarrow> Gateway option" where
  "save_publish c packet g = do {
     pub \<leftarrow> get_publish packet;
     g \<leftarrow> reply_by_qos c pub g;
     msg \<leftarrow> GW_assign packet;
     cl \<leftarrow> gw_client c g;
     Some (if GW_getType msg = 0 then g else gw_set c (snd (setClientSleepPacket msg cl)) g) }"

text \<open>A message whose topic the client has not registered: it is sent behind a REGISTER if one of its filters matches. \<open>add\<close> may return a null pointer, which is used.\<close>

definition register_and_publish :: "client_ptr \<Rightarrow> GWPublish \<Rightarrow> Gateway \<Rightarrow> Gateway option" where
  "register_and_publish c pub g = do {
     cl \<leftarrow> gw_client c g;
     let topicId = \<lparr>topic_type = MQTTSN_TOPIC_TYPE_NORMAL, topic_data = Topic_long (gpub_topic pub) (gpub_topiclen pub)\<rparr>;
     topic \<leftarrow> Topics_match (cl_topics cl) topicId;
     (case topic of
        None \<Rightarrow> reply_by_qos c pub g
      | Some _ \<Rightarrow> do {
          (topic, ts) \<leftarrow> Topics_add (cl_topics cl) topicId;
          topic \<leftarrow> topic;
          let cl = cl\<lparr>cl_topics := ts\<rparr>;
          if tp_topicId topic > 0
          then do {
            let (regackMsgId, cl) = getNextSnMsgId cl;
            regPacket \<leftarrow> SN_setREGISTER (tp_topicId topic) (ucast regackMsgId)
              \<lparr>sn_cstring = None, sn_lenstring = \<lparr>snls_len = gpub_topiclen pub, snls_data = gpub_topic pub\<rparr>\<rparr>;
            let g = post_clientSend (EtClientSend c regPacket) g;
            snPacket \<leftarrow> snpublish_for pub (topicId\<lparr>topic_data := Topic_id (tp_topicId topic)\<rparr>);
            Some (gw_set c (cl\<lparr>cl_waitREGACKList := snd (wr_step (WR_set (ucast regackMsgId) snPacket) (cl_waitREGACKList cl))\<rparr>) g) }
          else Some (gw_set c cl g) }) }"

text \<open>The topic of a message with a name of at most two bytes: two bytes are read, whatever the length.\<close>

definition short_topic :: "GWPublish \<Rightarrow> MQTTSN_topicid option" where
  "short_topic pub = do {
     t \<leftarrow> gpub_topic pub;
     a \<leftarrow> array_get t 0;
     b \<leftarrow> array_get t 1;
     Some \<lparr>topic_type = MQTTSN_TOPIC_TYPE_SHORT, topic_data = Topic_short a b\<rparr> }"

definition GW_handlePublish :: "client_ptr \<Rightarrow> MQTTGWPacket \<Rightarrow> Gateway \<Rightarrow> Gateway option" where
  "GW_handlePublish c packet g = do {
     cl \<leftarrow> gw_client c g;
     if \<not> isActive cl \<and> \<not> isSleep cl \<and> \<not> isAwake cl then Some g
     else if isSleep cl then save_publish c packet g
     else do {
       pub \<leftarrow> get_publish packet;
       topicId \<leftarrow>
         (if gpub_topiclen pub \<le> 2 then do { t \<leftarrow> short_topic pub; Some (Some t) }
          else do {
            tp \<leftarrow> getTopicByName (cl_topics cl) \<lparr>topic_type = MQTTSN_TOPIC_TYPE_NORMAL, topic_data = Topic_long (gpub_topic pub) (gpub_topiclen pub)\<rparr>;
            Some (map_option (\<lambda>tp. \<lparr>topic_type = tp_type tp, topic_data = Topic_id (tp_topicId tp)\<rparr>) tp) });
       (case topicId of
          None \<Rightarrow> register_and_publish c pub g
        | Some topicId \<Rightarrow> do {
            snPacket \<leftarrow> snpublish_for pub topicId;
            Some (post_clientSend (EtClientSend c snPacket) g) }) } }"

definition get_ack :: "MQTTGWPacket \<Rightarrow> u16 option" where
  "get_ack packet = do {
     ack \<leftarrow> filled (GW_getAck \<lparr>gack_header = 0, gack_msgId = 0\<rparr> packet);
     Some (word_of_int (gack_msgId ack)) }"

definition GW_handlePuback :: "client_ptr \<Rightarrow> MQTTGWPacket \<Rightarrow> Gateway \<Rightarrow> Gateway option" where
  "GW_handlePuback c packet g = do {
     msgId \<leftarrow> get_ack packet;
     cl \<leftarrow> gw_client c g;
     (case getWaitedPubTopicId msgId cl of
        None \<Rightarrow> Some g
      | Some topicId \<Rightarrow> do {
          mqttsnPacket \<leftarrow> SN_setPUBACK (tm_topicId topicId) msgId 0;
          Some (post_clientSend (EtClientSend c mqttsnPacket) (gw_set c (eraseWaitedPubTopicId msgId cl) g)) }) }"

text \<open>For another type the packet would be sent empty; the dispatcher calls it with these three.\<close>

definition GW_handleAck :: "client_ptr \<Rightarrow> MQTTGWPacket \<Rightarrow> byte \<Rightarrow> Gateway \<Rightarrow> Gateway option" where
  "GW_handleAck c packet type g = do {
     msgId \<leftarrow> get_ack packet;
     cl \<leftarrow> gw_client c g;
     if isActive cl \<or> isAwake cl
     then do {
       mqttsnPacket \<leftarrow>
         (if type = msgType_code PUBREC then SN_setPUBREC msgId
          else if type = msgType_code PUBREL then SN_setPUBREL msgId
          else if type = msgType_code PUBCOMP then SN_setPUBCOMP msgId
          else Some SN_new);
       Some (post_clientSend (EtClientSend c mqttsnPacket) g) }
     else if isSleep cl \<and> type = msgType_code PUBREL
     then do {
       (_, pubComp) \<leftarrow> GW_setAck GW_new (msgType_code PUBCOMP) msgId;
       Some (post_brokerSend (EtBrokerSend c pubComp) g) }
     else Some g }"

definition GW_handleSuback :: "client_ptr \<Rightarrow> MQTTGWPacket \<Rightarrow> Gateway \<Rightarrow> Gateway option" where
  "GW_handleSuback c packet g = do {
     (msgId, rc) \<leftarrow> filled (GW_getSUBACK (0, 0) packet);
     cl \<leftarrow> gw_client c g;
     (case getWaitedSubTopicId msgId cl of
        None \<Rightarrow> Some g
      | Some topicId \<Rightarrow> do {
          let (returnCode, qos) = (if rc = 0x80 then (MQTTSN_RC_REJECTED_INVALID_TOPIC_ID, 0) else (MQTTSN_RC_ACCEPTED, uint rc));
          snPacket \<leftarrow> SN_setSUBACK qos (tm_topicId topicId) msgId returnCode;
          Some (gw_set c (eraseWaitedSubTopicId msgId cl) (post_clientSend (EtClientSend c snPacket) g)) }) }"

definition GW_handleUnsuback :: "client_ptr \<Rightarrow> MQTTGWPacket \<Rightarrow> Gateway \<Rightarrow> Gateway option" where
  "GW_handleUnsuback c packet g = do {
     msgId \<leftarrow> get_ack packet;
     snPacket \<leftarrow> SN_setUNSUBACK msgId;
     Some (post_clientSend (EtClientSend c snPacket) g) }"

subsection \<open>An aggregating gateway\<close>

definition Aggr_handleConnect :: "client_ptr \<Rightarrow> MQTTSNPacket \<Rightarrow> Gateway \<Rightarrow> Gateway option" where
  "Aggr_handleConnect c packet g = do {
     (rc, data) \<leftarrow> SN_getCONNECT MQTTSNPacket_connectData_initializer packet;
     if rc = 0 then Some g
     else do {
       cl \<leftarrow> gw_client c g;
       if isSleep cl \<or> isAwake cl
       then do {
         packet \<leftarrow> SN_setCONNACK MQTTSN_RC_ACCEPTED;
         sendStoredPublish c (post_clientSend (EtClientSend c packet) g) }
       else do {
         let cl = (disconnected cl)\<lparr>cl_connectData := MQTTPacket_Connect_Initializer, cl_sessionStatus := False\<rparr>;
         let (cl, g) = (if snc_cleansession data \<noteq> 0 then (clean_session cl, removeAggregateTopicList (cl_topics cl) c g) else (cl, g));
         if snc_willFlag data \<noteq> 0
         then do { reqTopic \<leftarrow> SN_setWILLTOPICREQ; Some (post_clientSend (EtClientSend c reqTopic) (gw_set c cl g)) }
         else do {
           packet \<leftarrow> SN_setCONNACK MQTTSN_RC_ACCEPTED;
           sendStoredPublish c (post_clientSend (EtClientSend c packet) (gw_set c (connackSended MQTTSN_RC_ACCEPTED cl) g)) } } } }"

definition Aggr_handleWillmsg :: "client_ptr \<Rightarrow> MQTTSNPacket \<Rightarrow> Gateway \<Rightarrow> Gateway option" where
  "Aggr_handleWillmsg c packet g = do {
     cl \<leftarrow> gw_client c g;
     if \<not> cl_waitWillMsgFlg cl \<or> \<not> isConnectSendable cl then Some g
     else do {
       (rc, willmsg) \<leftarrow> SN_getWILLMSG MQTTSNString_initializer packet;
       if rc = 0 then Some g
       else do {
         cl \<leftarrow> setWillMsg willmsg cl;
         packet \<leftarrow> SN_setCONNACK MQTTSN_RC_ACCEPTED;
         sendStoredPublish c (post_clientSend (EtClientSend c packet) (gw_set c cl g)) } } }"

definition Aggr_handleDisconnect :: "client_ptr \<Rightarrow> Gateway \<Rightarrow> Gateway option" where
  "Aggr_handleDisconnect c g = do {
     snMsg \<leftarrow> SN_setDISCONNECT 0;
     Some (post_clientSend (EtClientSend c snMsg) g) }"

definition Aggr_handlePingreq :: "client_ptr \<Rightarrow> Gateway \<Rightarrow> Gateway option" where
  "Aggr_handlePingreq c g = do {
     cl \<leftarrow> gw_client c g;
     if (isSleep cl \<or> isAwake cl) \<and> getClientSleepPacket cl \<noteq> None
     then do {
       g \<leftarrow> sendStoredPublish c g;
       cl \<leftarrow> gw_client c g;
       Some (gw_set c (cl\<lparr>cl_holdPingRequest := True\<rparr>) g) }
     else Some (post_packetEvent (EtBrokerRecv c (snd (GW_setHeader GW_new (msgType_code PINGRESP)))) (gw_set c (cl\<lparr>cl_holdPingRequest := False\<rparr>) g)) }"

text \<open>The identifier towards the broker: that of the first sending for a duplicate, a new one otherwise.\<close>

definition aggregate_msgId :: "client_ptr \<Rightarrow> MQTTSNPacket \<Rightarrow> Gateway \<Rightarrow> (u16 \<times> Gateway) option" where
  "aggregate_msgId c packet g = do {
     dup \<leftarrow> SN_isDuplicate packet;
     i \<leftarrow> SN_getMsgId packet;
     if dup then Some (Aggregater_getMsgId c (word_of_int i) g, g) else addMessageIdTable c (word_of_int i) g }"

definition SN_handleAggregatePublish :: "locals \<Rightarrow> client_ptr \<Rightarrow> MQTTSNPacket \<Rightarrow> Gateway \<Rightarrow> Gateway option" where
  "SN_handleAggregatePublish lo c packet g = do {
     (publish, g) \<leftarrow> SN_handlePublish lo c packet g;
     (case publish of
        None \<Rightarrow> Some g
      | Some publish \<Rightarrow> do {
          i \<leftarrow> GW_getMsgId publish;
          (publish, g) \<leftarrow>
            (if i > 0
             then do {
               (msgId, g) \<leftarrow> aggregate_msgId c packet g;
               publish \<leftarrow> GW_setMsgId publish (uint msgId);
               Some (publish, g) }
             else Some (publish, g));
          Some (post_brokerSend (EtBrokerSend c publish) g) }) }"

definition SN_handleAggregateAck :: "client_ptr \<Rightarrow> MQTTSNPacket \<Rightarrow> byte \<Rightarrow> Gateway \<Rightarrow> Gateway option" where
  "SN_handleAggregateAck c packet type g =
     (if type = sn_code MQTTSN_PUBREC
      then do {
        (rc, msgId) \<leftarrow> SN_getACK 0 packet;
        if rc = 0 then Some g
        else do { ackPacket \<leftarrow> SN_setPUBREL msgId; Some (post_clientSend (EtClientSend c ackPacket) g) } }
      else Some g)"

text \<open>Subscriptions: the name is taken from the packet with a one-byte length.\<close>

definition packet_topic :: "MQTTGWPacket \<Rightarrow> Topic option" where
  "packet_topic packet = do {
     (len, data) \<leftarrow> GW_getTopic packet;
     name \<leftarrow> string_of data (uint len);
     Some \<lparr>tp_type = MQTTSN_TOPIC_TYPE_NORMAL, tp_topicId = 0, tp_topicName = name\<rparr> }"

definition send_aggregated :: "client_ptr \<Rightarrow> MQTTSNPacket \<Rightarrow> MQTTGWPacket \<Rightarrow> Gateway \<Rightarrow> Gateway option" where
  "send_aggregated c packet mqtt g = do {
     (msgId, g) \<leftarrow> aggregate_msgId c packet g;
     if msgId = 0 then Some g
     else do { mqtt \<leftarrow> GW_setMsgId mqtt (uint msgId); Some (post_brokerSend (EtBrokerSend c mqtt) g) } }"

definition SN_handleAggregateSubscribe :: "locals \<Rightarrow> client_ptr \<Rightarrow> MQTTSNPacket \<Rightarrow> Gateway \<Rightarrow> Gateway option" where
  "SN_handleAggregateSubscribe lo c packet g = do {
     (subscribe, g) \<leftarrow> SN_handleSubscribe lo c packet g;
     (case subscribe of
        None \<Rightarrow> Some g
      | Some subscribe \<Rightarrow> do {
          topic \<leftarrow> packet_topic subscribe;
          send_aggregated c packet subscribe (snd (addAggregateTopic topic c g)) }) }"

definition SN_handleAggregateUnsubscribe :: "locals \<Rightarrow> client_ptr \<Rightarrow> MQTTSNPacket \<Rightarrow> Gateway \<Rightarrow> Gateway option" where
  "SN_handleAggregateUnsubscribe lo c packet g = do {
     (unsubscribe, g) \<leftarrow> SN_handleUnsubscribe lo c packet g;
     (case unsubscribe of
        None \<Rightarrow> Some g
      | Some unsubscribe \<Rightarrow> do {
          topic \<leftarrow> packet_topic unsubscribe;
          send_aggregated c packet unsubscribe (removeAggregateTopic topic c g) }) }"

text \<open>An acknowledgement of the broker goes to the client the identifier belongs to.\<close>

definition with_client ::
  "(client_ptr \<Rightarrow> MQTTGWPacket \<Rightarrow> Gateway \<Rightarrow> Gateway option) \<Rightarrow> MQTTGWPacket \<Rightarrow> Gateway \<Rightarrow> Gateway option" where
  "with_client handle packet g = do {
     i \<leftarrow> GW_getMsgId packet;
     let ((newClient, clientMsgId), g) = convertClient (word_of_int i) g;
     (case newClient of
        None \<Rightarrow> Some g
      | Some d \<Rightarrow> do { packet \<leftarrow> GW_setMsgId packet (uint clientMsgId); handle d packet g }) }"

definition GW_handleAggregatePuback :: "MQTTGWPacket \<Rightarrow> Gateway \<Rightarrow> Gateway option" where
  "GW_handleAggregatePuback packet g = with_client GW_handlePuback packet g"

definition GW_handleAggregateAck :: "MQTTGWPacket \<Rightarrow> byte \<Rightarrow> Gateway \<Rightarrow> Gateway option" where
  "GW_handleAggregateAck packet type g = with_client (\<lambda>d packet. GW_handleAck d packet type) packet g"

definition GW_handleAggregateSuback :: "MQTTGWPacket \<Rightarrow> Gateway \<Rightarrow> Gateway option" where
  "GW_handleAggregateSuback packet g = with_client GW_handleSuback packet g"

definition GW_handleAggregateUnsuback :: "MQTTGWPacket \<Rightarrow> Gateway \<Rightarrow> Gateway option" where
  "GW_handleAggregateUnsuback packet g = with_client GW_handleUnsuback packet g"

text \<open>\<open>getPUBLISH\<close> does not take a PUBREL apart: the identifier it replies with is not initialised.\<close>

definition GW_handleAggregatePubrel :: "client_ptr \<Rightarrow> MQTTGWPacket \<Rightarrow> Gateway \<Rightarrow> Gateway option" where
  "GW_handleAggregatePubrel c packet g = do {
     pub \<leftarrow> get_publish packet;
     replyACK c pub (msgType_code PUBCOMP) g }"

fun publish_to_all :: "MQTTGWPacket \<Rightarrow> client_ptr list \<Rightarrow> Gateway \<Rightarrow> Gateway option" where
  "publish_to_all packet [] g = Some g"
| "publish_to_all packet (d # ds) g = do {
     msg \<leftarrow> GW_assign packet;
     if GW_getType msg = 0 then Some g else publish_to_all packet ds (post_packetEvent (EtBrokerRecv d msg) g) }"

definition GW_handleAggregatePublish :: "client_ptr \<Rightarrow> MQTTGWPacket \<Rightarrow> Gateway \<Rightarrow> Gateway option" where
  "GW_handleAggregatePublish c packet g = do {
     pub \<leftarrow> get_publish packet;
     g \<leftarrow> reply_by_qos c pub g;
     name \<leftarrow> string_of (gpub_topic pub) (gpub_topiclen pub);
     (case createClientList \<lparr>tp_type = MQTTSN_TOPIC_TYPE_NORMAL, tp_topicId = 0, tp_topicName = name\<rparr> g of
        None \<Rightarrow> Some g
      | Some ds \<Rightarrow> publish_to_all packet ds g) }"

subsection \<open>PacketHandleTask\<close>

definition transparent_client :: "locals \<Rightarrow> client_ptr \<Rightarrow> MQTTSNPacket \<Rightarrow> Gateway \<Rightarrow> Gateway option" where
  "transparent_client lo c packet g = do {
     t \<leftarrow> SN_getType packet;
     if t = uint (sn_code MQTTSN_CONNECT) then SN_handleConnect c packet g
     else if t = uint (sn_code MQTTSN_WILLTOPIC) then SN_handleWilltopic c packet g
     else if t = uint (sn_code MQTTSN_WILLMSG) then SN_handleWillmsg c packet g
     else if t = uint (sn_code MQTTSN_DISCONNECT) then SN_handleDisconnect c packet g
     else if t = uint (sn_code MQTTSN_WILLMSGUPD) then SN_handleWillmsgupd c g
     else if t = uint (sn_code MQTTSN_PINGREQ) then SN_handlePingreq c g
     else if t = uint (sn_code MQTTSN_PUBLISH) then map_option snd (SN_handlePublish lo c packet g)
     else if t = uint (sn_code MQTTSN_PUBACK) then SN_handlePuback c packet g
     else if t = uint (sn_code MQTTSN_PUBREC) then SN_handleAck c packet (msgType_code PUBREC) g
     else if t = uint (sn_code MQTTSN_PUBREL) then SN_handleAck c packet (msgType_code PUBREL) g
     else if t = uint (sn_code MQTTSN_PUBCOMP) then SN_handleAck c packet (msgType_code PUBCOMP) g
     else if t = uint (sn_code MQTTSN_REGISTER) then SN_handleRegister c packet g
     else if t = uint (sn_code MQTTSN_REGACK) then SN_handleRegAck c packet g
     else if t = uint (sn_code MQTTSN_SUBSCRIBE) then map_option snd (SN_handleSubscribe lo c packet g)
     else if t = uint (sn_code MQTTSN_UNSUBSCRIBE) then map_option snd (SN_handleUnsubscribe lo c packet g)
     else Some g }"

definition aggregate_client :: "locals \<Rightarrow> client_ptr \<Rightarrow> MQTTSNPacket \<Rightarrow> Gateway \<Rightarrow> Gateway option" where
  "aggregate_client lo c packet g = do {
     t \<leftarrow> SN_getType packet;
     if t = uint (sn_code MQTTSN_CONNECT) then Aggr_handleConnect c packet g
     else if t = uint (sn_code MQTTSN_WILLTOPIC) then SN_handleWilltopic c packet g
     else if t = uint (sn_code MQTTSN_WILLMSG) then Aggr_handleWillmsg c packet g
     else if t = uint (sn_code MQTTSN_DISCONNECT) then Aggr_handleDisconnect c g
     else if t = uint (sn_code MQTTSN_WILLMSGUPD) then SN_handleWillmsgupd c g
     else if t = uint (sn_code MQTTSN_PINGREQ) then Aggr_handlePingreq c g
     else if t = uint (sn_code MQTTSN_PUBLISH) then SN_handleAggregatePublish lo c packet g
     else if t = uint (sn_code MQTTSN_PUBACK) then SN_handleAggregateAck c packet (sn_code MQTTSN_PUBACK) g
     else if t = uint (sn_code MQTTSN_PUBREC) then SN_handleAggregateAck c packet (sn_code MQTTSN_PUBREC) g
     else if t = uint (sn_code MQTTSN_PUBREL) then SN_handleAggregateAck c packet (sn_code MQTTSN_PUBREL) g
     else if t = uint (sn_code MQTTSN_PUBCOMP) then SN_handleAggregateAck c packet (sn_code MQTTSN_PUBCOMP) g
     else if t = uint (sn_code MQTTSN_REGISTER) then SN_handleRegister c packet g
     else if t = uint (sn_code MQTTSN_REGACK) then SN_handleRegAck c packet g
     else if t = uint (sn_code MQTTSN_SUBSCRIBE) then SN_handleAggregateSubscribe lo c packet g
     else if t = uint (sn_code MQTTSN_UNSUBSCRIBE) then SN_handleAggregateUnsubscribe lo c packet g
     else Some g }"

definition transparent_broker :: "client_ptr \<Rightarrow> MQTTGWPacket \<Rightarrow> Gateway \<Rightarrow> Gateway option" where
  "transparent_broker c packet g =
     (let t = header_type (gp_header packet)
      in if t = msgType_code CONNACK then GW_handleConnack c packet g
         else if t = msgType_code PINGRESP then GW_handlePingresp c g
         else if t = msgType_code PUBLISH then GW_handlePublish c packet g
         else if t = msgType_code PUBACK then GW_handlePuback c packet g
         else if t = msgType_code PUBREC then GW_handleAck c packet (msgType_code PUBREC) g
         else if t = msgType_code PUBREL then GW_handleAck c packet (msgType_code PUBREL) g
         else if t = msgType_code PUBCOMP then GW_handleAck c packet (msgType_code PUBCOMP) g
         else if t = msgType_code SUBACK then GW_handleSuback c packet g
         else if t = msgType_code UNSUBACK then GW_handleUnsuback c packet g
         else Some g)"

definition aggregate_broker :: "client_ptr \<Rightarrow> MQTTGWPacket \<Rightarrow> Gateway \<Rightarrow> Gateway option" where
  "aggregate_broker c packet g =
     (let t = header_type (gp_header packet)
      in if t = msgType_code CONNACK then GW_handleConnack c packet g
         else if t = msgType_code PINGRESP then GW_handlePingresp c g
         else if t = msgType_code PUBLISH then GW_handleAggregatePublish c packet g
         else if t = msgType_code PUBACK then GW_handleAggregatePuback packet g
         else if t = msgType_code PUBREC then GW_handleAggregateAck packet (msgType_code PUBREC) g
         else if t = msgType_code PUBREL then GW_handleAggregatePubrel c packet g
         else if t = msgType_code PUBCOMP then GW_handleAggregateAck packet (msgType_code PUBCOMP) g
         else if t = msgType_code SUBACK then GW_handleAggregateSuback packet g
         else if t = msgType_code UNSUBACK then GW_handleAggregateUnsuback packet g
         else Some g)"

text \<open>The answers of the timers that are asked when no event came: the advertisement timer, and those of the adapters.\<close>

record timers =
  tmr_advertise :: bool
  tmr_aggregater :: "(bool \<times> bool) \<times> (bool \<times> bool)"
  tmr_qosm1 :: "(bool \<times> bool) \<times> (bool \<times> bool)"

definition handle_client_packet :: "locals \<Rightarrow> client_ptr \<Rightarrow> MQTTSNPacket \<Rightarrow> Gateway \<Rightarrow> Gateway option" where
  "handle_client_packet lo c packet g = do {
     cl \<leftarrow> gw_client c g;
     g \<leftarrow> (if isAggregatedClient cl g then aggregate_client lo c packet g else transparent_client lo c packet g);
     cl \<leftarrow> gw_client c g;
     cl \<leftarrow> updateStatus packet cl;
     Some (gw_set c cl g) }"

definition handle_broker_packet :: "client_ptr \<Rightarrow> MQTTGWPacket \<Rightarrow> Gateway \<Rightarrow> Gateway option" where
  "handle_broker_packet c packet g = do {
     cl \<leftarrow> gw_client c g;
     if isAggregater cl then aggregate_broker c packet g else transparent_broker c packet g }"

text \<open>One round of the task; the flag says that the task goes on.\<close>

definition PacketHandleTask_round :: "timers \<Rightarrow> locals \<Rightarrow> Gateway \<Rightarrow> (bool \<times> Gateway) option" where
  "PacketHandleTask_round tm lo g =
     (let (ev, q) = EventQue_timedwait (gw_packetEventQue g);
          g = g\<lparr>gw_packetEventQue := q\<rparr>
      in case ev of
           EtStop \<Rightarrow> Some (False, g)
         | EtTimeout \<Rightarrow> do {
             g \<leftarrow> (if tmr_advertise tm then sendADVERTISE g else Some g);
             g \<leftarrow> AdapterManager_checkConnection (tmr_aggregater tm) (tmr_qosm1 tm) g;
             Some (True, g) }
         | EtBroadcast packet \<Rightarrow> do { g \<leftarrow> handleSearchgw packet g; Some (True, g) }
         | EtClientRecv c packet \<Rightarrow> do { g \<leftarrow> handle_client_packet lo c packet g; Some (True, g) }
         | EtBrokerRecv c packet \<Rightarrow> do { g \<leftarrow> handle_broker_packet c packet g; Some (True, g) }
         | _ \<Rightarrow> Some (True, g))"

end
