(* ===== verification/MQTTSNGW_Tasks.thy ===== *)
theory MQTTSNGW_Tasks
  imports MQTTSNGW_Handlers
begin

text \<open>
  The tasks of the gateway: \<^verbatim>\<open>MQTTSNGWClientRecvTask.cpp\<close>, \<^verbatim>\<open>MQTTSNGWClientSendTask.cpp\<close>, \<^verbatim>\<open>MQTTSNGWBrokerSendTask.cpp\<close> and \<^verbatim>\<open>MQTTSNGWBrokerRecvTask.cpp\<close>, one round each. The
  sockets are arguments: the datagram and the address it came from, whether a connection to the broker can be made, what a write returns, the stream of a connection. Each task takes its
  locks for single queue operations, so that a round of the model is one order of the operations; the log is left out, except where it writes into an array. Then the whole gateway as a
  state machine in which the tasks take turns in any order.
\<close>

subsection \<open>ClientRecvTask\<close>

text \<open>\<open>log\<close> copies the client identifier of a CONNECT into an array of 65 bytes.\<close>

abbreviation (input) MAX_CLIENTID_LENGTH :: int where "MAX_CLIENTID_LENGTH \<equiv> 64"

definition log_clientId :: "MQTTSNString \<Rightarrow> unit option" where
  "log_clientId i =
     (case sn_cstring i of
        Some s \<Rightarrow> if int (length s) \<le> MAX_CLIENTID_LENGTH + 1 then Some () else None
      | None \<Rightarrow>
          (let len = snls_len (sn_lenstring i)
           in if 0 \<le> len + 1 \<and> len + 1 \<le> MAX_CLIENTID_LENGTH + 1 then Some () else None))"

text \<open>\<open>isAggrActive\<close> is passed as the type of the client.\<close>

definition recv_type :: "Gateway \<Rightarrow> int" where
  "recv_type g = (if isAggregaterActive g then 1 else 0)"

text \<open>The packet inside an ENCAPSULATED one of a known forwarder, with the forwarder and the node. The client that is looked up under the node is not used.\<close>

definition unwrap :: "SensorNetAddress \<Rightarrow> MQTTSNPacket \<Rightarrow> Gateway \<Rightarrow> (forwarder_ptr option \<times> WirelessNodeId \<times> MQTTSNPacket) option" where
  "unwrap addr packet g =
     (case getForwarder addr (gw_forwarders g) of
        None \<Rightarrow> Some (None, WirelessNodeId_new, packet)
      | Some fw \<Rightarrow> do {
          buf \<leftarrow> spk_buf packet;
          (_, encap) \<leftarrow> EP_desirialize buf (word_of_int (spk_bufLen packet));
          nodeId \<leftarrow> setId_copy (ep_id encap);
          _ \<leftarrow> Forwarder_getClient nodeId (gw_forwarders g ! fw);
          packet \<leftarrow> ep_mqttsn encap;
          Some (Some fw, nodeId, packet) })"

text \<open>A CONNECT from an address that no client has: the client is found by its identifier or created; behind a forwarder, it is added to its table.\<close>

definition connect_forwarded ::
  "forwarder_ptr \<Rightarrow> WirelessNodeId \<Rightarrow> MQTTSNString \<Rightarrow> client_ptr option \<Rightarrow> Gateway \<Rightarrow> (client_ptr option \<times> Gateway) option" where
  "connect_forwarded fw nodeId clientID client g = do {
     (client, l) \<leftarrow> (case client of
        Some c \<Rightarrow> Some (Some c, gw_clientList g)
      | None \<Rightarrow> createClient3 None clientID (recv_type g) (gw_clientList g));
     c \<leftarrow> client;
     (f, l) \<leftarrow> Forwarder_addClient fw c nodeId (gw_forwarders g ! fw) l;
     Some (Some c, g\<lparr>gw_clientList := l, gw_forwarders := (gw_forwarders g)[fw := f]\<rparr>) }"

definition connect_direct :: "SensorNetAddress \<Rightarrow> MQTTSNString \<Rightarrow> client_ptr option \<Rightarrow> Gateway \<Rightarrow> (client_ptr option \<times> Gateway) option" where
  "connect_direct addr clientID client g =
     (case client of
        Some c \<Rightarrow> do {
          cl \<leftarrow> gw_client c g;
          Some (Some c, gw_set c (cl\<lparr>cl_sensorNetAddr := addr\<rparr>) g) }
      | None \<Rightarrow> do {
          (client, l) \<leftarrow> createClient3 (Some addr) clientID (recv_type g) (gw_clientList g);
          Some (client, g\<lparr>gw_clientList := l\<rparr>) })"

definition connect_new :: "SensorNetAddress \<Rightarrow> forwarder_ptr option \<Rightarrow> WirelessNodeId \<Rightarrow> MQTTSNPacket \<Rightarrow> Gateway \<Rightarrow> Gateway option" where
  "connect_new addr fwd nodeId packet g = do {
     (rc, data) \<leftarrow> SN_getCONNECT MQTTSNPacket_connectData_initializer packet;
     if rc = 0 then do { _ \<leftarrow> log_clientId (snc_clientID data); Some g }
     else do {
       client \<leftarrow> getClient_id (snc_clientID data) (gw_clientList g);
       (client, g) \<leftarrow>
         (case fwd of
            Some fw \<Rightarrow> connect_forwarded fw nodeId (snc_clientID data) client g
          | None \<Rightarrow> connect_direct addr (snc_clientID data) client g);
       _ \<leftarrow> log_clientId (snc_clientID data);
       Some (case client of None \<Rightarrow> g | Some c \<Rightarrow> post_packetEvent (EtClientRecv c packet) g) } }"

definition ClientRecvTask_round :: "SensorNetAddress \<Rightarrow> MQTTSNPacket \<Rightarrow> Gateway \<Rightarrow> Gateway option" where
  "ClientRecvTask_round addr packet g =
     (if spk_bufLen packet < 2 then Some g
      else do {
        t \<leftarrow> SN_getType packet;
        if t \<le> uint (sn_code MQTTSN_ADVERTISE) \<or> t = uint (sn_code MQTTSN_GWINFO) then Some g
        else if t = uint (sn_code MQTTSN_SEARCHGW) then Some (post_packetEvent (EtBroadcast packet) g)
        else do {
          (fwd, nodeId, packet) \<leftarrow>
            (if t = uint (sn_code MQTTSN_ENCAPSULATED) then unwrap addr packet g else Some (None, WirelessNodeId_new, packet));
          ok \<leftarrow> (if t \<noteq> uint (sn_code MQTTSN_ENCAPSULATED) \<and> ad_isActive (gw_qosm1Proxy g) \<and> Adapter_getClientId addr g \<noteq> None
                 then SN_isQoSMinusPUBLISH packet else Some True);
          if \<not> ok then Some g
          else case getClient_addr (Some addr) (gw_clientList g) of
            Some c \<Rightarrow> Some (post_packetEvent (EtClientRecv c packet) g)
          | None \<Rightarrow> do {
              t \<leftarrow> SN_getType packet;
              if t = uint (sn_code MQTTSN_CONNECT) then connect_new addr fwd nodeId packet g else Some g } } })"

subsection \<open>ClientSendTask\<close>

text \<open>What goes on the sensor network: to an address, or to all.\<close>

datatype datagram = Unicast SensorNetAddress "byte list" | Broadcast "byte list"

definition sn_bytes :: "MQTTSNPacket \<Rightarrow> byte list option" where
  "sn_bytes packet = do { bs \<leftarrow> spk_buf packet; Some (take (nat (spk_bufLen packet)) bs) }"

definition ClientSendTask_round :: "Gateway \<Rightarrow> (datagram option \<times> Gateway) option" where
  "ClientSendTask_round g = do {
     (ev, q) \<leftarrow> EventQue_wait (gw_clientSendQue g);
     let g = g\<lparr>gw_clientSendQue := q\<rparr>;
     (case ev of
        EtClientSend c packet \<Rightarrow> do {
          (d, g) \<leftarrow> unicastToClient c packet g;
          Some (map_option (\<lambda>(a, bs). Unicast a bs) d, g) }
      | EtBroadcast packet \<Rightarrow> do { bs \<leftarrow> sn_bytes packet; Some (Some (Broadcast bs), g) }
      | EtSensornetSend a packet \<Rightarrow> do { bs \<leftarrow> sn_bytes packet; Some (Some (Unicast a bs), g) }
      | _ \<Rightarrow> Some (None, g)) }"

subsection \<open>BrokerSendTask\<close>

text \<open>\<open>connected\<close> is the result of \<open>connect\<close>, \<open>written\<close> that of the write. The result is what was written, with the client whose connection it is.\<close>

definition broker_disconnect :: "client_ptr \<Rightarrow> Gateway \<Rightarrow> Gateway" where
  "broker_disconnect c g = post_packetEvent (EtBrokerRecv c (snd (GW_setHeader GW_new (msgType_code DISCONNECT)))) g"

definition broker_send ::
  "bool \<Rightarrow> (byte list \<Rightarrow> int) \<Rightarrow> client_ptr \<Rightarrow> MQTTGWPacket \<Rightarrow> Gateway \<Rightarrow> ((client_ptr \<times> byte list) option \<times> Gateway) option" where
  "broker_send connected written c packet g = do {
     c \<leftarrow> AdapterManager_getClient c g;
     cl \<leftarrow> gw_client c g;
     let g = (if header_type (gp_header packet) = msgType_code CONNECT \<and> gw_network g c then network_close c g else g);
     if \<not> gw_network g c \<and> \<not> connected then Some (None, network_close c g)
     else do {
       let g = g\<lparr>gw_network := (gw_network g)(c := True)\<rparr>;
       (rc, bs) \<leftarrow> GW_send (\<lambda>_ bs. (written bs, bs)) [] packet;
       Some (if rc > 0
             then (Some (c, bs), if header_type (gp_header packet) = msgType_code CONNECT then gw_set c (connectSended cl) g else g)
             else (None, broker_disconnect c (network_close c g))) } }"

definition BrokerSendTask_round ::
  "bool \<Rightarrow> (byte list \<Rightarrow> int) \<Rightarrow> Gateway \<Rightarrow> ((client_ptr \<times> byte list) option \<times> Gateway) option" where
  "BrokerSendTask_round connected written g = do {
     (ev, q) \<leftarrow> EventQue_wait (gw_brokerSendQue g);
     let g = g\<lparr>gw_brokerSendQue := q\<rparr>;
     (case ev of
        EtBrokerSend c packet \<Rightarrow> broker_send connected written c packet g
      | _ \<Rightarrow> Some (None, g)) }"

subsection \<open>BrokerRecvTask\<close>

text \<open>Packets of other types are logged and dropped.\<close>

definition broker_type_ok :: "MQTTGWPacket \<Rightarrow> bool" where
  "broker_type_ok packet \<longleftrightarrow> header_type (gp_header packet) \<in>
     {msgType_code CONNACK, msgType_code PUBLISH, msgType_code PUBACK, msgType_code PUBREC, msgType_code PUBREL, msgType_code PUBCOMP, msgType_code SUBACK,
      msgType_code UNSUBACK, msgType_code PINGRESP}"

text \<open>One client whose connection can be read.\<close>

definition BrokerRecvTask_client :: "'s getfn \<Rightarrow> 's \<Rightarrow> client_ptr \<Rightarrow> Gateway \<Rightarrow> ('s \<times> Gateway) option" where
  "BrokerRecvTask_client recv s c g = do {
     cl \<leftarrow> gw_client c g;
     if \<not> gw_network g c then Some (s, g)
     else do {
       (rc, packet, s) \<leftarrow> GW_recv recv s GW_new;
       if rc > 0 then Some (s, if broker_type_ok packet then post_packetEvent (EtBrokerRecv c packet) g else g)
       else if rc = 0
       then do {
         (_, l) \<leftarrow> ClientList_erase c (gw_clientList g);
         Some (s, (network_close c g)\<lparr>gw_clientList := l\<rparr>) }
       else Some (s, if (rc = - 1 \<or> rc = - 2) \<and> isActive cl then broker_disconnect c g else g) } }"

subsection \<open>The gateway\<close>

text \<open>One step of the gateway: a round of one of its tasks, with whatever its environment does.\<close>

inductive gateway_step :: "Gateway \<Rightarrow> Gateway \<Rightarrow> bool" where
  receive: "ClientRecvTask_round addr packet g = Some g' \<Longrightarrow> gateway_step g g'"
| handle: "PacketHandleTask_round tm lo g = Some (go, g') \<Longrightarrow> gateway_step g g'"
| to_client: "ClientSendTask_round g = Some (d, g') \<Longrightarrow> gateway_step g g'"
| to_broker: "BrokerSendTask_round connected written g = Some (out, g') \<Longrightarrow> gateway_step g g'"
| from_broker: "BrokerRecvTask_client (recv :: nat getfn) n c g = Some (s, g') \<Longrightarrow> gateway_step g g'"

text \<open>Start-up. The constructor of \<open>Gateway\<close> and the parameters; then the adapters, the clients, topics and forwarders of the configuration files, in any order.\<close>

definition Gateway_new :: "byte list option \<Rightarrow> byte list option \<Rightarrow> u16 \<Rightarrow> byte \<Rightarrow> byte \<Rightarrow> bool \<Rightarrow> Gateway" where
  "Gateway_new login pass keepAlive gatewayId version secure =
     \<lparr>gw_loginId = login, gw_password = pass, gw_keepAlive = keepAlive, gw_gatewayId = gatewayId, gw_mqttVersion = version, gw_secure = secure,
      gw_clientList = ClientList_init, gw_packetEventQue = [], gw_brokerSendQue = [], gw_clientSendQue = [], gw_topics = Topics_init,
      gw_forwarders = [], gw_qosm1Proxy = Adapter_new, gw_aggregater = Adapter_new, gw_msgIdTable = MessageIdTable_init, gw_network = (\<lambda>c. False)\<rparr>"

inductive gateway_started :: "Gateway \<Rightarrow> bool" where
  created: "gateway_started (Gateway_new login pass keepAlive gatewayId version secure)"
| aggregating: "gateway_started g \<Longrightarrow> Adapter_setup name Atype_Aggregater (gw_aggregater g) g = Some (ad, g') \<Longrightarrow>
    gateway_started (g'\<lparr>gw_aggregater := ad\<lparr>ad_isActive := True\<rparr>\<rparr>)"
| qosm1: "gateway_started g \<Longrightarrow> Adapter_setup name Atype_QoSm1Proxy (gw_qosm1Proxy g) g = Some (ad, g') \<Longrightarrow>
    gateway_started (g'\<lparr>gw_qosm1Proxy := ad\<lparr>ad_isActive := True\<rparr>\<rparr>)"
| listed: "gateway_started g \<Longrightarrow> createClient (Some addr) i unstable secure type (gw_clientList g) = Some (r, l) \<Longrightarrow>
    gateway_started (g\<lparr>gw_clientList := l\<rparr>)"
| authorized: "gateway_started g \<Longrightarrow> gateway_started (g\<lparr>gw_clientList := (gw_clientList g)\<lparr>cll_authorize := True\<rparr>\<rparr>)"
| predefined: "gateway_started g \<Longrightarrow> createPredefinedTopic same i name topicId aggregate (gw_clientList g) (gw_topics g) = Some (r, l, ts) \<Longrightarrow>
    gateway_started (g\<lparr>gw_clientList := l, gw_topics := ts\<rparr>)"
| forwarder: "gateway_started g \<Longrightarrow> gateway_started (g\<lparr>gw_forwarders := snd (addForwarder addr name (gw_forwarders g))\<rparr>)"

inductive gateway_reachable :: "Gateway \<Rightarrow> bool" where
  start: "gateway_started g \<Longrightarrow> gateway_reachable g"
| step: "gateway_reachable g \<Longrightarrow> gateway_step g g' \<Longrightarrow> gateway_reachable g'"

inductive_cases gateway_stepE: "gateway_step g g'"

end
