(* ===== verification/MQTTSNGW_Invariant.thy ===== *)
theory MQTTSNGW_Invariant
  imports MQTTSNGW_Tasks
begin

text \<open>An invariant of the whole gateway, kept by every step of every task.\<close>

subsection \<open>Results that satisfy an invariant\<close>

definition kept :: "('a \<Rightarrow> bool) \<Rightarrow> 'a option \<Rightarrow> bool" where
  "kept P m \<longleftrightarrow> (\<forall>x. m = Some x \<longrightarrow> P x)"

lemma kept_rules:
  shows kept_Some: "P x \<Longrightarrow> kept P (Some x)"
    and kept_None: "kept P None"
    and kept_bind: "(\<And>x. m = Some x \<Longrightarrow> kept P (f x)) \<Longrightarrow> kept P (Option.bind m f)"
    and kept_map: "kept (\<lambda>x. P (h x)) k \<Longrightarrow> kept P (map_option h k)"
  by (auto simp: kept_def bind_eq_Some_conv)

lemma keptD: "kept P m \<Longrightarrow> m = Some x \<Longrightarrow> P x"
  by (simp add: kept_def)

subsection \<open>The invariant of a client\<close>

definition client_ok :: "Client \<Rightarrow> bool" where
  "client_ok cl \<longleftrightarrow> cl_clientId cl \<noteq> None \<and> topics_ok (cl_topics cl) \<and> topicidmap_ok (cl_waitedPubTopicIdMap cl) \<and>
     topicidmap_ok (cl_waitedSubTopicIdMap cl) \<and> tm_maxInflight (cl_waitedPubTopicIdMap cl) = 10 \<and> tm_maxInflight (cl_waitedSubTopicIdMap cl) = 10 \<and>
     length (cl_clientSleepPacketQue cl) \<le> 20 \<and> cl_status cl \<notin> {Cstat_TryConnecting, Cstat_Lost}"

lemma topicidmap_add_ok:
  assumes "topicidmap_ok m"
  shows "topicidmap_ok (snd (TopicIdMap_add m i t ty))" "tm_maxInflight (snd (TopicIdMap_add m i t ty)) = tm_maxInflight m"
proof -
  obtain r m' where a: "TopicIdMap_add m i t ty = (r, m')" by (cases "TopicIdMap_add m i t ty")
  show "tm_maxInflight (snd (TopicIdMap_add m i t ty)) = tm_maxInflight m"
    by (simp add: TopicIdMap_add_def TopicIdMap_erase_def Let_def)
  have e: "topicidmap_ok (TopicIdMap_erase m i) \<and> getElement (TopicIdMap_erase m i) i = None" if "getElement m i \<noteq> None"
    using TopicIdMap_erase_present [OF assms that] by (auto simp: waited_def dest: fun_cong [of _ _ i])
  show "topicidmap_ok (snd (TopicIdMap_add m i t ty))"
  proof (cases "getElement m i = None")
    case True
    then show ?thesis
      using assms TopicIdMap_append(1) [OF assms True, of t ty] by (auto simp: TopicIdMap_add_def Let_def mult.commute)
  next
    case False
    have "tm_cnt (TopicIdMap_erase m i) \<le> 2 * tm_maxInflight (TopicIdMap_erase m i)" if "tm_cnt m \<le> 2 * tm_maxInflight m"
      using that by (simp add: TopicIdMap_erase_def)
    then show ?thesis
      using assms False e TopicIdMap_append(1) [of "TopicIdMap_erase m i" i t ty] by (auto simp: TopicIdMap_add_def Let_def mult.commute)
  qed
qed

lemma topicidmap_clear_ok: "topicidmap_ok m \<Longrightarrow> topicidmap_ok (TopicIdMap_clear m)"
  by (auto simp: topicidmap_ok_def TopicIdMap_clear_def)

lemma topicidmap_clear_inflight [simp]: "tm_maxInflight (TopicIdMap_clear m) = tm_maxInflight m"
  by (simp add: TopicIdMap_clear_def)

lemma topicidmap_erase_ok:
  "topicidmap_ok m \<Longrightarrow> getElement m i = Some e \<Longrightarrow> topicidmap_ok (TopicIdMap_erase m i)"
  by (simp add: TopicIdMap_erase_present)

lemma client_ok_new: "cl_clientId cl \<noteq> None \<Longrightarrow> cl_topics cl = Topics_init \<Longrightarrow> cl_waitedPubTopicIdMap cl = TopicIdMap_init \<Longrightarrow>
  cl_waitedSubTopicIdMap cl = TopicIdMap_init \<Longrightarrow> cl_clientSleepPacketQue cl = [] \<Longrightarrow> cl_status cl = Cstat_Disconnected \<Longrightarrow> client_ok cl"
  by (simp add: client_ok_def topics_ok_init topicidmap_ok_def TopicIdMap_init_def)

lemma client_ok_fields [simp]:
  "client_ok (cl\<lparr>cl_connectData := x1\<rparr>) = client_ok cl"
  "client_ok (cl\<lparr>cl_sessionStatus := x2\<rparr>) = client_ok cl"
  "client_ok (cl\<lparr>cl_waitWillMsgFlg := x3\<rparr>) = client_ok cl"
  "client_ok (cl\<lparr>cl_holdPingRequest := x4\<rparr>) = client_ok cl"
  "client_ok (cl\<lparr>cl_waitREGACKList := x5\<rparr>) = client_ok cl"
  "client_ok (cl\<lparr>cl_sensorNetAddr := x6\<rparr>) = client_ok cl"
  "client_ok (cl\<lparr>cl_willTopic := x7\<rparr>) = client_ok cl"
  "client_ok (cl\<lparr>cl_willMsg := x8\<rparr>) = client_ok cl"
  "client_ok (cl\<lparr>cl_keepAliveTimer := x9\<rparr>) = client_ok cl"
  "client_ok (cl\<lparr>cl_keepAliveMsec := x10\<rparr>) = client_ok cl"
  "client_ok (cl\<lparr>cl_snMsgId := x11\<rparr>) = client_ok cl"
  "client_ok (cl\<lparr>cl_packetId := x12\<rparr>) = client_ok cl"
  "client_ok (cl\<lparr>cl_clientType := x13\<rparr>) = client_ok cl"
  "client_ok (cl\<lparr>cl_forwarder := x14\<rparr>) = client_ok cl"
  by (simp_all add: client_ok_def)

lemma client_ok_status: "client_ok cl \<Longrightarrow> s \<notin> {Cstat_TryConnecting, Cstat_Lost} \<Longrightarrow> client_ok (cl\<lparr>cl_status := s\<rparr>)"
  by (simp add: client_ok_def)

lemma client_ok_topics: "client_ok cl \<Longrightarrow> topics_ok ts \<Longrightarrow> client_ok (cl\<lparr>cl_topics := ts\<rparr>)"
  by (simp add: client_ok_def)

lemma client_ok_queue: "client_ok cl \<Longrightarrow> length q \<le> 20 \<Longrightarrow> client_ok (cl\<lparr>cl_clientSleepPacketQue := q\<rparr>)"
  by (simp add: client_ok_def)

lemma client_keeps:
  assumes "client_ok cl"
  shows "client_ok (disconnected cl)" "client_ok (connectSended cl)" "client_ok (connackSended rc cl)" "client_ok (clean_session cl)"
    "client_ok (setWaitedPubTopicId i t ty cl)" "client_ok (setWaitedSubTopicId i t ty cl)" "client_ok (deleteFirstClientSleepPacket cl)"
    "client_ok (snd (setClientSleepPacket msg cl))" "client_ok (setForwarder f cl)" "client_ok (snd (getNextSnMsgId cl))"
    "client_ok (snd (Client_getNextPacketId cl))" "client_ok (start_keepAlive cl)" "client_ok (setAdapterType at cl)"
  using assms
  by (auto simp: client_ok_def disconnected_def connectSended_def connackSended_def clean_session_def clearWaitedPubTopicId_def clearWaitedSubTopicId_def
      setWaitedPubTopicId_def setWaitedSubTopicId_def topicidmap_add_ok topicidmap_clear_ok eraseNormal_keeps deleteFirstClientSleepPacket_def
      setClientSleepPacket_def setForwarder_def getNextSnMsgId_def Client_getNextPacketId_def start_keepAlive_def setAdapterType_def Let_def
      split: AdapterType.splits)

lemma erase_keeps:
  assumes "client_ok cl"
  shows "getWaitedPubTopicId i cl = Some e \<Longrightarrow> client_ok (eraseWaitedPubTopicId i cl)"
    "getWaitedSubTopicId i cl = Some e \<Longrightarrow> client_ok (eraseWaitedSubTopicId i cl)"
  using assms
  by (auto simp: client_ok_def getWaitedPubTopicId_def getWaitedSubTopicId_def eraseWaitedPubTopicId_def eraseWaitedSubTopicId_def topicidmap_erase_ok)
    (auto simp: TopicIdMap_erase_def)

lemma updateStatus_keeps: "client_ok cl \<Longrightarrow> updateStatus p cl = Some cl' \<Longrightarrow> client_ok cl'"
  by (auto simp: updateStatus_def updateStatus_active_def updateStatus_sleeping_def setKeepAlive_def bind_eq_Some_conv client_ok_status
      split: if_splits intro: client_keeps)

lemma Topics_add_keeps: "topics_ok ts \<Longrightarrow> Topics_add ts t = Some (r, ts') \<Longrightarrow> topics_ok ts'"
  by (auto simp: Topics_add_def bind_eq_Some_conv Topics_add_name_keeps split: if_splits option.splits
      dest!: arg_cong [where f = snd, of "Topics_add_name _ _ _"])

lemma will_keeps:
  "client_ok cl \<Longrightarrow> setWillTopic t cl = Some cl' \<Longrightarrow> client_ok cl'"
  "client_ok cl \<Longrightarrow> setWillMsg t cl = Some cl' \<Longrightarrow> client_ok cl'"
  by (auto simp: setWillTopic_def setWillMsg_def bind_eq_Some_conv)

lemma resolve_keeps: "client_ok cl \<Longrightarrow> resolve_topic addr t cl g = (r, cl') \<Longrightarrow> client_ok cl'"
  by (auto simp: resolve_topic_def split: option.splits prod.splits intro!: client_ok_topics)
    (metis Topics_add_name_keeps client_ok_def snd_conv)


subsection \<open>The invariant of the gateway\<close>

definition mt_ok :: "MessageIdTable \<Rightarrow> bool" where
  "mt_ok t \<longleftrightarrow> mt_cnt t = int (length (mt_elements t)) \<and> mt_cnt t \<le> 501"

text \<open>The list of clients is consistent, each client satisfies its invariant, the queue of packets has its bound, forwarders have well-formed tables and the table of message
  identifiers the right count.\<close>

definition clients_ok :: "ClientList \<Rightarrow> bool" where
  "clients_ok l \<longleftrightarrow> cll_ok l \<and> (\<forall>c\<in>set (cll_clients l). client_ok (snd c))"

definition gw_ok :: "Gateway \<Rightarrow> bool" where
  "gw_ok g \<longleftrightarrow> clients_ok (gw_clientList g) \<and> length (gw_packetEventQue g) \<le> 1000 \<and>
     (\<forall>f\<in>set (gw_forwarders g). forwarder_ok f) \<and> mt_ok (gw_msgIdTable g)"

lemma gw_ok_client: "gw_ok g \<Longrightarrow> gw_client c g = Some cl \<Longrightarrow> client_ok cl"
  unfolding gw_ok_def clients_ok_def gw_client_def by (auto dest!: map_of_SomeD)

lemma gw_ok_unchanged [simp]:
  "gw_ok (post_clientSend ev g) = gw_ok g"
  "gw_ok (post_brokerSend ev g) = gw_ok g"
  "gw_ok (network_close c g) = gw_ok g"
  "gw_ok (g\<lparr>gw_qosm1Proxy := ad\<rparr>) = gw_ok g"
  "gw_ok (g\<lparr>gw_aggregater := ad\<rparr>) = gw_ok g"
  "gw_ok (g\<lparr>gw_network := n\<rparr>) = gw_ok g"
  "gw_ok (g\<lparr>gw_clientSendQue := q\<rparr>) = gw_ok g"
  "gw_ok (g\<lparr>gw_brokerSendQue := q\<rparr>) = gw_ok g"
  by (simp_all add: gw_ok_def post_clientSend_def post_brokerSend_def network_close_def)

lemma gw_ok_post: "gw_ok g \<Longrightarrow> gw_ok (post_packetEvent ev g)"
  by (auto simp: gw_ok_def post_packetEvent_def EventQue_post_def)

lemma clients_ok_update:
  assumes "clients_ok l" "client_ok cl"
  shows "clients_ok (cll_update c cl l)"
proof -
  have "cll_ok (cll_update c cl l)"
    using assms by (intro cll_update_ok) (simp_all add: clients_ok_def client_ok_def)
  moreover have "\<forall>e\<in>set (cll_clients (cll_update c cl l)). client_ok (snd e)"
    using assms by (auto simp: clients_ok_def cll_update_def)
  ultimately show ?thesis
    by (simp add: clients_ok_def)
qed

lemma gw_ok_set: "gw_ok g \<Longrightarrow> client_ok cl \<Longrightarrow> gw_ok (gw_set c cl g)"
  by (simp add: gw_ok_def gw_set_def clients_ok_update)

lemma client_post [simp]:
  "gw_client c (post_clientSend ev g) = gw_client c g"
  "gw_client c (post_brokerSend ev g) = gw_client c g"
  "gw_client c (post_packetEvent ev g) = gw_client c g"
  by (simp_all add: gw_client_def post_clientSend_def post_brokerSend_def post_packetEvent_def)

lemma stored_keeps: "gw_ok g \<Longrightarrow> client_ok cl \<Longrightarrow> gw_ok (snd (sendStored_loop c cl g)) \<and> client_ok (fst (sendStored_loop c cl g))"
proof (induction c cl g rule: sendStored_loop.induct)
  case (1 c cl g)
  show ?case
    by (subst (1 2) sendStored_loop.simps)
      (use 1 in \<open>auto split: option.splits intro: gw_ok_post client_keeps\<close>)
qed

lemma sendStoredPublish_keeps: "gw_ok g \<Longrightarrow> kept gw_ok (sendStoredPublish c g)"
  using stored_keeps [OF _ gw_ok_client, of g g c]
  by (auto simp: sendStoredPublish_def case_prod_beta intro!: kept_rules gw_ok_set)

text \<open>A handler keeps the invariant if its parts do: rules for the ways handlers are put together.\<close>

lemma kept_client: "kept client_ok m \<Longrightarrow> (\<And>cl. client_ok cl \<Longrightarrow> kept P (f cl)) \<Longrightarrow> kept P (Option.bind m f)"
  and kept_gateway: "kept gw_ok n \<Longrightarrow> (\<And>g. gw_ok g \<Longrightarrow> kept P (h g)) \<Longrightarrow> kept P (Option.bind n h)"
  and kept_result: "kept (\<lambda>x. gw_ok (snd x)) k \<Longrightarrow> (\<And>r g. gw_ok g \<Longrightarrow> kept P (e (r, g))) \<Longrightarrow> kept P (Option.bind k e)"
  by (auto simp: kept_def bind_eq_Some_conv)

lemma kept_cases:
  shows kept_if: "(b \<Longrightarrow> kept P x) \<Longrightarrow> (\<not> b \<Longrightarrow> kept P y) \<Longrightarrow> kept P (if b then x else y)"
    and kept_case: "(v = None \<Longrightarrow> kept P x) \<Longrightarrow> (\<And>z. v = Some z \<Longrightarrow> kept P (f z)) \<Longrightarrow> kept P (case v of None \<Rightarrow> x | Some z \<Rightarrow> f z)"
    and kept_prod: "(\<And>a b. p = (a, b) \<Longrightarrow> kept P (h a b)) \<Longrightarrow> kept P (case p of (a, b) \<Rightarrow> h a b)"
    and kept_Let: "kept P (e x) \<Longrightarrow> kept P (Let x e)"
  by (auto split: option.splits prod.splits)

lemmas kept_calculus = kept_Some kept_None kept_client kept_gateway kept_result kept_bind kept_map kept_cases

lemma kept_clients:
  shows kept_gw_client: "gw_ok g \<Longrightarrow> kept client_ok (gw_client c g)"
    and kept_updateStatus: "client_ok cl \<Longrightarrow> kept client_ok (updateStatus p cl)"
    and kept_will: "client_ok cl \<Longrightarrow> kept client_ok (setWillTopic t cl)" "client_ok cl \<Longrightarrow> kept client_ok (setWillMsg t cl)"
  by (auto simp: kept_def intro: gw_ok_client updateStatus_keeps will_keeps)

lemmas handler_intros = kept_clients gw_ok_set gw_ok_post client_keeps client_ok_status client_ok_topics

lemma connection_keeps:
  assumes "gw_ok g"
  shows "kept gw_ok (SN_handleConnect c p g)" "kept gw_ok (SN_handleWilltopic c p g)"
    "kept gw_ok (SN_handleWillmsg c p g)" "kept gw_ok (SN_handleDisconnect c p g)"
    "kept gw_ok (SN_handleWillmsgupd c g)" "kept gw_ok (SN_handlePingreq c g)"
    "kept gw_ok (Aggr_handleConnect c p g)" "kept gw_ok (Aggr_handleWillmsg c p g)"
    "kept gw_ok (Aggr_handleDisconnect c g)" "kept gw_ok (Aggr_handlePingreq c g)"
  unfolding SN_handleConnect_def SN_handleWilltopic_def SN_handleWillmsg_def SN_handleDisconnect_def SN_handleWillmsgupd_def
    SN_handlePingreq_def send_pingreq_def Aggr_handleConnect_def Aggr_handleWillmsg_def Aggr_handleDisconnect_def Aggr_handlePingreq_def removeAggregateTopicList_def Let_def
  by (intro kept_calculus; use assms in \<open>auto intro!: handler_intros sendStoredPublish_keeps split: if_splits\<close>)+


lemma client_ok_add: "client_ok cl \<Longrightarrow> Topics_add (cl_topics cl) t = Some (r, ts) \<Longrightarrow> client_ok (cl\<lparr>cl_topics := ts\<rparr>)"
  by (auto simp: client_ok_def intro: Topics_add_keeps)

lemma publish_keeps:
  assumes "gw_ok g"
  shows "client_ok cl \<Longrightarrow> kept (\<lambda>x. gw_ok (snd x)) (publish_to_broker addr c out name cl g)"
    "kept (\<lambda>x. gw_ok (snd x)) (SN_handlePublish lo c p g)"
    "kept gw_ok (SN_handlePuback c p g)" "kept gw_ok (SN_handleAck c p ty g)"
    "kept gw_ok (SN_handleRegAck c p g)"
proof -
  show p: "kept (\<lambda>x. gw_ok (snd x)) (publish_to_broker addr c out name cl g)" if "client_ok cl" for addr c out name cl
    unfolding publish_to_broker_def Let_def
    by (intro kept_calculus; use assms that in \<open>auto intro!: handler_intros\<close>)+
  show "kept (\<lambda>x. gw_ok (snd x)) (SN_handlePublish lo c p g)"
    unfolding SN_handlePublish_def Let_def
    by (intro kept_calculus; use assms in \<open>auto intro!: handler_intros p intro: resolve_keeps\<close>)+
  show "kept gw_ok (SN_handlePuback c p g)" "kept gw_ok (SN_handleAck c p ty g)" "kept gw_ok (SN_handleRegAck c p g)"
    unfolding SN_handlePuback_def SN_handleAck_def SN_handleRegAck_def Let_def send_pingreq_def
    by (intro kept_calculus; use assms in \<open>auto intro!: handler_intros split: option.splits\<close>)+
qed


lemma subscribe_keeps:
  assumes "gw_ok g"
  shows "client_ok cl \<Longrightarrow> kept (\<lambda>x. gw_ok (snd x)) (subscribe_to_broker c out name i cl g)"
    "kept (\<lambda>x. gw_ok (snd x)) (SN_handleSubscribe lo c p g)"
    "kept (\<lambda>x. gw_ok (snd x)) (SN_handleUnsubscribe lo c p g)"
    "kept gw_ok (SN_handleRegister c p g)"
proof -
  show s: "kept (\<lambda>x. gw_ok (snd x)) (subscribe_to_broker c out name i cl g)" if "client_ok cl" for c out name i cl
    unfolding subscribe_to_broker_def Let_def
    by (intro kept_calculus; use assms that in \<open>auto intro!: handler_intros\<close>)+
  show "kept (\<lambda>x. gw_ok (snd x)) (SN_handleSubscribe lo c p g)"
    unfolding SN_handleSubscribe_def Let_def
    by (intro kept_calculus; use assms in \<open>auto intro!: kept_clients s intro: client_ok_add split: option.splits\<close>)+
  show "kept (\<lambda>x. gw_ok (snd x)) (SN_handleUnsubscribe lo c p g)" "kept gw_ok (SN_handleRegister c p g)"
    unfolding SN_handleUnsubscribe_def SN_handleRegister_def Let_def
    by (intro kept_calculus; use assms in \<open>auto intro!: gw_ok_set kept_clients intro: client_ok_add\<close>)+
qed

lemma broker_keeps:
  assumes "gw_ok g"
  shows "kept gw_ok (GW_handleConnack c q g)" "kept gw_ok (GW_handlePingresp c g)"
    "kept gw_ok (replyACK c pub ty g)" "kept gw_ok (reply_by_qos c pub g)" "kept gw_ok (GW_handlePuback c q g)" "kept gw_ok (GW_handleAck c q ty g)"
    "kept gw_ok (GW_handleSuback c q g)" "kept gw_ok (GW_handleUnsuback c q g)"
  unfolding GW_handleConnack_def GW_handlePingresp_def reply_by_qos_def replyACK_def GW_handlePuback_def GW_handleAck_def GW_handleSuback_def
    GW_handleUnsuback_def Let_def
  by (intro kept_calculus; use assms in \<open>auto intro!: handler_intros intro: erase_keeps\<close>)+

lemma broker_publish_keeps:
  assumes "gw_ok g"
  shows "kept gw_ok (save_publish c q g)" "kept gw_ok (register_and_publish c pub g)" "kept gw_ok (GW_handlePublish c q g)"
proof -
  show s: "kept gw_ok (save_publish c q g)" for c q
    unfolding save_publish_def Let_def
    by (intro kept_calculus; use assms in \<open>auto intro!: handler_intros broker_keeps\<close>)+
  show r: "kept gw_ok (register_and_publish c pub g)" for c pub
    unfolding register_and_publish_def Let_def getNextSnMsgId_def
    by (intro kept_calculus; use assms in \<open>auto intro!: gw_ok_set kept_clients broker_keeps intro: client_ok_add\<close>)+
  show "kept gw_ok (GW_handlePublish c q g)"
    unfolding GW_handlePublish_def Let_def
    by (intro kept_calculus; use assms in \<open>auto intro!: handler_intros s r\<close>)+
qed

subsection \<open>An aggregating gateway\<close>

lemma mt_ok_add: "mt_ok t \<Longrightarrow> mt_ok (fst (snd (MessageIdTable_add c i t ad)))"
  by (auto simp: MessageIdTable_add_def mt_ok_def Let_def split: prod.splits)

lemma MessageIdTable_add_client: "client_ok ad \<Longrightarrow> client_ok (snd (snd (MessageIdTable_add c i t ad)))"
  by (auto simp: MessageIdTable_add_def Client_getNextPacketId_def Let_def)

lemma mt_ok_get: "mt_ok t \<Longrightarrow> mt_ok (snd (getClientMsgId i t))"
proof (cases "mt_find_msgId i t")
  case (Some e)
  assume t: "mt_ok t"
  have "Suc (length (remove_first (\<lambda>p. mi_msgId p = i) (mt_elements t))) = length (mt_elements t)"
    using Some length_remove_first [of "\<lambda>p. mi_msgId p = i" "mt_elements t"] by (simp add: mt_find_msgId_def)
  then show ?thesis
    using t Some by (auto simp: getClientMsgId_def MessageIdTable_clear_def mt_ok_def)
qed (simp add: getClientMsgId_def)

lemma gw_ok_msgIdTable: "gw_ok g \<Longrightarrow> mt_ok t \<Longrightarrow> gw_ok (g\<lparr>gw_msgIdTable := t\<rparr>)"
  by (simp add: gw_ok_def)

lemma addMessageIdTable_keeps:
  assumes "gw_ok g"
  shows "kept (\<lambda>x. gw_ok (snd x)) (addMessageIdTable c i g)"
proof -
  have "mt_ok (gw_msgIdTable g)"
    using assms by (simp add: gw_ok_def)
  then show ?thesis
    unfolding addMessageIdTable_def Let_def case_prod_beta
    by (intro kept_calculus; use assms in \<open>auto intro!: kept_clients gw_ok_msgIdTable gw_ok_set mt_ok_add MessageIdTable_add_client\<close>)+
qed

lemma convertClient_keeps: "gw_ok g \<Longrightarrow> gw_ok (snd (convertClient i g))"
  using mt_ok_get [of "gw_msgIdTable g" i] by (auto simp: convertClient_def case_prod_beta gw_ok_def)


lemma aggregate_msgId_keeps: "gw_ok g \<Longrightarrow> kept (\<lambda>x. gw_ok (snd x)) (aggregate_msgId c p g)"
  unfolding aggregate_msgId_def by (intro kept_calculus; auto intro!: addMessageIdTable_keeps)

lemma send_aggregated_keeps: "gw_ok g \<Longrightarrow> kept gw_ok (send_aggregated c p q g)"
  unfolding send_aggregated_def by (intro kept_calculus; auto intro!: aggregate_msgId_keeps)

lemma with_client_keeps:
  assumes "gw_ok g" "\<And>d q g. gw_ok g \<Longrightarrow> kept gw_ok (h d q g)"
  shows "kept gw_ok (with_client h q g)"
  unfolding with_client_def Let_def case_prod_beta
  by (intro kept_calculus; use convertClient_keeps [OF assms(1)] assms(2) in auto)

lemma aggregate_keeps:
  assumes "gw_ok g"
  shows "kept gw_ok (SN_handleAggregatePublish lo c p g)" "kept gw_ok (SN_handleAggregateAck c p ty g)"
    "kept gw_ok (SN_handleAggregateSubscribe lo c p g)" "kept gw_ok (SN_handleAggregateUnsubscribe lo c p g)"
    "kept gw_ok (GW_handleAggregatePubrel c q g)" "kept gw_ok (GW_handleAggregatePublish c q g)"
  unfolding SN_handleAggregatePublish_def SN_handleAggregateAck_def SN_handleAggregateSubscribe_def SN_handleAggregateUnsubscribe_def
    GW_handleAggregatePubrel_def GW_handleAggregatePublish_def addAggregateTopic_def removeAggregateTopic_def createClientList_def
  by (intro kept_calculus; use assms in \<open>auto intro!: publish_keeps subscribe_keeps broker_keeps send_aggregated_keeps aggregate_msgId_keeps kept_calculus\<close>)+

lemma aggregate_ack_keeps:
  assumes "gw_ok g"
  shows "kept gw_ok (GW_handleAggregatePuback q g)" "kept gw_ok (GW_handleAggregateAck q ty g)" "kept gw_ok (GW_handleAggregateSuback q g)"
    "kept gw_ok (GW_handleAggregateUnsuback q g)"
  using assms
  by (auto simp: GW_handleAggregatePuback_def GW_handleAggregateAck_def GW_handleAggregateSuback_def GW_handleAggregateUnsuback_def
      intro!: with_client_keeps broker_keeps)

subsection \<open>Proxies and tasks\<close>

lemma transparent_keeps:
  assumes "gw_ok g"
  shows "kept gw_ok (transparent_client lo c p g)" "kept gw_ok (aggregate_client lo c p g)"
    "kept gw_ok (transparent_broker c q g)" "kept gw_ok (aggregate_broker c q g)"
  unfolding transparent_client_def aggregate_client_def transparent_broker_def aggregate_broker_def Let_def
  by (intro kept_calculus; use assms in \<open>auto intro!: connection_keeps publish_keeps subscribe_keeps broker_keeps broker_publish_keeps aggregate_keeps aggregate_ack_keeps\<close>)+

lemma packets_keep:
  assumes "gw_ok g"
  shows "kept gw_ok (handle_client_packet lo c p g)" "kept gw_ok (handle_broker_packet c q g)"
  unfolding handle_client_packet_def handle_broker_packet_def
  by (intro kept_calculus; use assms in \<open>auto intro!: transparent_keeps kept_clients gw_ok_set\<close>)+


lemma Proxy_keeps:
  assumes "gw_ok g"
  shows "kept (\<lambda>x. gw_ok (snd x)) (Proxy_checkConnection r k c px g)" "kept (\<lambda>x. gw_ok (snd x)) (Proxy_recv p px g)"
proof -
  have "gw_ok (fold post_packetEvent evs g)" for evs
    using assms by (induction evs arbitrary: g) (auto intro: gw_ok_post)
  then have s: "gw_ok (snd (sendSuspendedPacket px g))" for px
    by (simp add: sendSuspendedPacket_def)
  show "kept (\<lambda>x. gw_ok (snd x)) (Proxy_checkConnection r k c px g)" "kept (\<lambda>x. gw_ok (snd x)) (Proxy_recv p px g)"
    unfolding Proxy_checkConnection_def Proxy_recv_def Let_def
    by (intro kept_calculus; use assms in \<open>auto intro!: handler_intros s\<close>)+
qed

lemma Adapter_keeps:
  assumes "gw_ok g"
  shows "kept (\<lambda>x. gw_ok (snd x)) (Adapter_checkConnection up ups ad g)" "kept (\<lambda>x. gw_ok (snd x)) (Adapter_send p cl ad g)"
    "kept gw_ok (AdapterManager_checkConnection upa upp g)"
proof -
  have a: "kept (\<lambda>x. gw_ok (snd x)) (Adapter_checkConnection up ups ad g)" if "gw_ok g" for up ups ad g
    unfolding Adapter_checkConnection_def Let_def
    by (intro kept_calculus; use that in \<open>auto intro!: Proxy_keeps\<close>)+
  show "kept (\<lambda>x. gw_ok (snd x)) (Adapter_checkConnection up ups ad g)"
    by (rule a [OF assms])
  show "kept (\<lambda>x. gw_ok (snd x)) (Adapter_send p cl ad g)"
    unfolding Adapter_send_def Let_def
    by (intro kept_calculus; use assms in \<open>auto intro!: Proxy_keeps\<close>)+
  show "kept gw_ok (AdapterManager_checkConnection upa upp g)"
    unfolding AdapterManager_checkConnection_def Let_def
    by (intro kept_calculus; use assms in \<open>auto intro!: a\<close>)+
qed

lemma gw_ok_queue: "gw_ok g \<Longrightarrow> length q \<le> 1000 \<Longrightarrow> gw_ok (g\<lparr>gw_packetEventQue := q\<rparr>)"
  by (simp add: gw_ok_def)

lemma handle_task_keeps:
  assumes "gw_ok g"
  shows "kept (\<lambda>x. gw_ok (snd x)) (PacketHandleTask_round tm lo g)"
proof -
  obtain ev q where w: "EventQue_timedwait (gw_packetEventQue g) = (ev, q)"
    by (cases "EventQue_timedwait (gw_packetEventQue g)")
  have "length q \<le> 1000"
    using assms w by (auto simp: EventQue_timedwait_def gw_ok_def split: if_splits)
  then have g: "gw_ok (g\<lparr>gw_packetEventQue := q\<rparr>)"
    using assms by (rule gw_ok_queue [rotated])
  have t: "kept gw_ok (sendADVERTISE g)" "kept gw_ok (handleSearchgw p g)" if "gw_ok g" for g p
    unfolding sendADVERTISE_def handleSearchgw_def by (intro kept_calculus; use that in auto)+
  show ?thesis
    unfolding PacketHandleTask_round_def w Let_def prod.case
    using g by (cases ev) (auto intro!: kept_Some kept_gateway kept_if t packets_keep Adapter_keeps)
qed

lemma send_tasks_keep:
  assumes "gw_ok g"
  shows "kept (\<lambda>x. gw_ok (snd x)) (unicastToClient c p g)" "kept (\<lambda>x. gw_ok (snd x)) (ClientSendTask_round g)"
    "kept (\<lambda>x. gw_ok (snd x)) (broker_send connected written c packet g)" "kept (\<lambda>x. gw_ok (snd x)) (BrokerSendTask_round connected written g)"
proof -
  have u: "kept (\<lambda>x. gw_ok (snd x)) (unicastToClient c p g)" if "gw_ok g" for c p g
    unfolding unicastToClient_def Let_def
    by (intro kept_calculus; use that in \<open>auto intro!: kept_clients Adapter_keeps\<close>)
  have b: "kept (\<lambda>x. gw_ok (snd x)) (broker_send connected written c packet g)" if "gw_ok g" for c packet g
    unfolding broker_send_def Let_def broker_disconnect_def
    by (intro kept_calculus; use that in \<open>auto intro!: handler_intros\<close>)
  have "kept (\<lambda>x. gw_ok (snd x)) (case ev of
        EtClientSend c packet \<Rightarrow> do { (d, g) \<leftarrow> unicastToClient c packet g; Some (map_option (\<lambda>(a, bs). Unicast a bs) d, g) }
      | EtBroadcast packet \<Rightarrow> do { bs \<leftarrow> sn_bytes packet; Some (Some (Broadcast bs), g) }
      | EtSensornetSend a packet \<Rightarrow> do { bs \<leftarrow> sn_bytes packet; Some (Some (Unicast a bs), g) }
      | _ \<Rightarrow> Some (None, g))" if "gw_ok g" for ev g
    by (cases ev; simp only: Event.case; intro kept_calculus; use that in \<open>auto intro!: u\<close>)
  then show "kept (\<lambda>x. gw_ok (snd x)) (ClientSendTask_round g)"
    unfolding ClientSendTask_round_def Let_def using assms by (auto intro!: kept_bind)
  show "kept (\<lambda>x. gw_ok (snd x)) (BrokerSendTask_round connected written g)"
    unfolding BrokerSendTask_round_def Let_def
    using assms by (auto intro!: kept_bind b kept_Some split: Event.split)
  show "kept (\<lambda>x. gw_ok (snd x)) (unicastToClient c p g)" "kept (\<lambda>x. gw_ok (snd x)) (broker_send connected written c packet g)"
    by (rule u [OF assms], rule b [OF assms])
qed


lemma kept_setClientId:
  assumes "cl_topics cl = Topics_init" "cl_waitedPubTopicIdMap cl = TopicIdMap_init" "cl_waitedSubTopicIdMap cl = TopicIdMap_init"
    "cl_clientSleepPacketQue cl = []" "cl_status cl = Cstat_Disconnected"
  shows "kept client_ok (setClientId i cl)"
  using assms by (auto simp: kept_def setClientId_def bind_eq_Some_conv split: option.splits intro!: client_ok_new)

lemma add_client_keeps:
  assumes "clients_ok l" "client_ok cl" "\<not> cll_clientCnt l > MAX_CLIENTS"
  shows "clients_ok (add_client cl l)"
proof -
  have "cll_ok (add_client cl l)"
    using assms cll_count_full [of l] by (intro add_client_ok) (auto simp: client_ok_def clients_ok_def)
  then show ?thesis
    using assms by (auto simp: add_client_def clients_ok_def)
qed

lemma createClient_keeps:
  assumes "clients_ok l"
  shows "kept (\<lambda>x. clients_ok (snd x)) (createClient addr i unstable secure type l)"
  unfolding createClient_def Let_def
  by (intro kept_calculus;
      use assms in \<open>auto intro!: add_client_keeps kept_setClientId simp: Client_new_def setAggregated_def setQoSm1_def split: option.splits\<close>)

lemma gw_ok_clients: "gw_ok g \<Longrightarrow> clients_ok (gw_clientList g)" "gw_ok g \<Longrightarrow> clients_ok l \<Longrightarrow> gw_ok (g\<lparr>gw_clientList := l\<rparr>)"
  by (simp_all add: gw_ok_def)

lemma setId_ok: "setId i n = Some w \<Longrightarrow> wn_ok w"
  by (auto simp: setId_def calloc_def memcpy_def wn_ok_def bind_eq_Some_conv split: if_splits option.splits)

lemma addClient_keeps:
  assumes "clients_ok l" "forwarder_ok f"
  shows "kept (\<lambda>x. forwarder_ok (fst x) \<and> clients_ok (snd x)) (Forwarder_addClient fw c i f l)"
proof -
  have u: "clients_ok (cll_update c (setForwarder fw cl) l)" if "map_of (cll_clients l) c = Some cl" for cl
    using that assms(1) by (auto simp: clients_ok_def dest!: map_of_SomeD intro!: clients_ok_update [unfolded clients_ok_def] client_keeps)
  show ?thesis
    unfolding Forwarder_addClient_def Let_def
    using assms(2) u
    by (auto simp: kept_def bind_eq_Some_conv forwarder_ok_def setId_copy_def image_iff dest!: setId_ok split: if_splits)
qed


lemma connect_forwarded_keeps:
  assumes "gw_ok g" "fw < length (gw_forwarders g)"
  shows "kept (\<lambda>x. gw_ok (snd x)) (connect_forwarded fw nodeId i client g)"
proof -
  have f: "gw_ok (g\<lparr>gw_clientList := l, gw_forwarders := (gw_forwarders g)[fw := f]\<rparr>)" if "clients_ok l" "forwarder_ok f" for l f
    using that assms(1) by (auto simp: gw_ok_def dest!: set_update_subset_insert [THEN subsetD])
  have ff: "forwarder_ok (gw_forwarders g ! fw)"
    using assms by (auto simp: gw_ok_def)
  have l: "kept (\<lambda>x. clients_ok (snd x)) (case client of Some c \<Rightarrow> Some (Some c, gw_clientList g) | None \<Rightarrow> createClient3 None i (recv_type g) (gw_clientList g))"
    using createClient_keeps [OF gw_ok_clients(1) [OF assms(1)]] gw_ok_clients(1) [OF assms(1)]
    by (auto simp: createClient3_def intro!: kept_Some split: option.splits)
  show ?thesis
    unfolding connect_forwarded_def
    using keptD [OF l] keptD [OF addClient_keeps [OF _ ff]] by (auto intro!: kept_bind kept_Some f)
qed

lemma connect_direct_keeps:
  assumes "gw_ok g"
  shows "kept (\<lambda>x. gw_ok (snd x)) (connect_direct addr i client g)"
  unfolding connect_direct_def createClient3_def
  using assms keptD [OF createClient_keeps [OF gw_ok_clients(1) [OF assms]]]
  by (auto intro!: kept_bind kept_Some gw_ok_set gw_ok_clients(2) dest!: gw_ok_client [OF assms] split: option.split)

lemma receive_keeps:
  assumes "gw_ok g"
  shows "kept gw_ok (ClientRecvTask_round addr p g)"
proof -
  have new: "kept gw_ok (connect_new addr fwd nodeId p g)" if "\<And>fw. fwd = Some fw \<Longrightarrow> fw < length (gw_forwarders g)" for fwd nodeId p
    unfolding connect_new_def
    by (intro kept_calculus; use assms that in \<open>auto intro!: connect_forwarded_keeps connect_direct_keeps gw_ok_post split: option.split\<close>)
  have fw: "fw < length (gw_forwarders g)" if "unwrap addr q g = Some (Some fw, nodeId, q')" for q fw nodeId q'
    using that by (auto simp: unwrap_def getForwarder_def bind_eq_Some_conv find_Some_iff nth_enumerate_eq split: option.splits)
  show ?thesis
    unfolding ClientRecvTask_round_def
    by (intro kept_calculus; use assms in \<open>auto intro!: gw_ok_post new dest: fw split: if_splits\<close>)
qed

lemma from_broker_keeps:
  assumes "gw_ok g"
  shows "kept (\<lambda>x. gw_ok (snd x)) (BrokerRecvTask_client recv s c g)"
proof -
  have e: "clients_ok l" if "ClientList_erase c (gw_clientList g) = Some (r, l)" for r l
    using that assms erase_ok [of "gw_clientList g" c] gw_ok_clients(1) [OF assms]
    by (auto simp: ClientList_erase_def clients_ok_def bind_eq_Some_conv split: if_splits)
      (use set_remove_first_subset in fastforce)
  show ?thesis
    unfolding BrokerRecvTask_client_def broker_disconnect_def
    by (intro kept_calculus; use assms e in \<open>auto intro!: handler_intros gw_ok_clients(2)\<close>)
qed

subsection \<open>Reachable states\<close>

lemma gateway_step_keeps: "gateway_step g g' \<Longrightarrow> gw_ok g \<Longrightarrow> gw_ok g'"
  by (induction rule: gateway_step.induct)
    (auto dest: keptD [OF receive_keeps] keptD [OF handle_task_keeps] keptD [OF send_tasks_keep(2)] keptD [OF send_tasks_keep(4)] keptD [OF from_broker_keeps])


lemma setup_keeps:
  assumes "gw_ok g"
  shows "kept (\<lambda>x. gw_ok (snd x)) (Adapter_setup name type ad g)"
proof -
  have u: "clients_ok (cll_update c (setAdapterType type cl) l)" if "clients_ok l" "map_of (cll_clients l) c = Some cl" for l c cl
    using that by (auto intro!: clients_ok_update client_keeps) (auto simp: clients_ok_def dest!: map_of_SomeD)
  show ?thesis
    unfolding Adapter_setup_def Let_def
    using assms keptD [OF createClient_keeps]
    by (auto intro!: kept_bind kept_Some gw_ok_clients u dest!: keptD [OF createClient_keeps, rotated])
qed


lemma predefined_keeps:
  assumes "clients_ok l"
  shows "kept (\<lambda>x. clients_ok (fst (snd x))) (createPredefinedTopic same i name t aggregate l ts)"
proof -
  have new: "clients_ok (add_client cl l)" if "setClientId i (Client_new False) = Some cl" "\<not> cll_clientCnt l > MAX_CLIENTS" for cl
    using assms that keptD [OF kept_setClientId that(1)] by (intro add_client_keeps) (auto simp: Client_new_def)
  have new2: "clients_ok (add_client (setAggregated cl) l)" if "setClientId i (Client_new False) = Some cl" "\<not> cll_clientCnt l > MAX_CLIENTS" for cl
    using assms that keptD [OF kept_setClientId that(1)] by (intro add_client_keeps) (auto simp: Client_new_def setAggregated_def)
  have u: "clients_ok (cll_update c (cl\<lparr>cl_topics := snd (Topics_add_name (cl_topics cl) n t), cl_hasPredefTopic := True\<rparr>) l')"
    if "clients_ok l'" "map_of (cll_clients l') c = Some cl" for l' c cl n
  proof -
    have "client_ok cl"
      using that by (auto simp: clients_ok_def dest!: map_of_SomeD)
    then show ?thesis
      using that(1) by (intro clients_ok_update) (auto simp: client_ok_def Topics_add_name_keeps)
  qed
  show ?thesis
    unfolding createPredefinedTopic_def Let_def
    using assms by (auto intro!: kept_bind kept_Some kept_if u new new2 split: option.splits if_splits simp: bind_eq_Some_conv)
qed

lemma started_ok: "gateway_started g \<Longrightarrow> gw_ok g"
proof (induction rule: gateway_started.induct)
  case (created login pass keepAlive gatewayId version secure)
  show ?case
    by (simp add: gw_ok_def clients_ok_def Gateway_new_def cll_ok_init mt_ok_def MessageIdTable_init_def) (simp add: ClientList_init_def)
next
  case (aggregating g name ad g')
  then show ?case
    using keptD [OF setup_keeps] by fastforce
next
  case (qosm1 g name ad g')
  then show ?case
    using keptD [OF setup_keeps] by fastforce
next
  case (listed g addr i unstable secure type r l)
  then show ?case
    using keptD [OF createClient_keeps [OF gw_ok_clients(1)], of g] by (auto intro: gw_ok_clients(2))
next
  case (authorized g)
  then show ?case
    by (simp add: gw_ok_def clients_ok_def cll_ok_def)
next
  case (predefined g same i name topicId aggregate r l ts)
  then have "clients_ok l"
    using keptD [OF predefined_keeps [OF gw_ok_clients(1)], of g] by fastforce
  then show ?case
    using predefined.IH by (simp add: gw_ok_def)
next
  case (forwarder g addr name)
  then show ?case
    by (auto simp: gw_ok_def addForwarder_def forwarder_ok_def)
qed

text \<open>C11: The invariant of the gateway. In whatever way its tasks take turns, whatever datagrams arrive from clients, whatever the broker sends and however the network fails: as long as no
  step runs into undefined behaviour, the list of clients has distinct entries, at most 101 and counted rightly; every client has an identifier, a topic table with distinct names and distinct
  identifiers of at most 50 entries, tables of waiting topics of at most 21 entries, at most 20 saved messages, and is not in one of the states \<open>Cstat_TryConnecting\<close> and \<open>Cstat_Lost\<close>; at most 1000
  packets wait to be handled; the table of message identifiers has at most 501 entries and is counted rightly, and the client tables of the forwarders are consistent. The code does not bound the queues of packets to be
  sent to the clients and to the broker, nor the number of forwarders and of clients behind a forwarder.\<close>

theorem gateway_invariant:
  assumes "gateway_reachable g"
  shows "gw_ok g"
  using assms by (induction rule: gateway_reachable.induct) (auto intro: started_ok gateway_step_keeps)

theorem gateway_invariant_witness:
  "\<exists>g. ClientRecvTask_round \<lparr>sna_portNo = 9, sna_IpAddr = 7\<rparr> \<lparr>spk_buf = Some [7, 4, 4, 1, 0, 60, 97], spk_bufLen = 7\<rparr> (Gateway_new None None 900 1 4 False) = Some g \<and>
     length (gw_packetEventQue g) = 1 \<and> gw_ok g"
proof -
  let ?r = "ClientRecvTask_round \<lparr>sna_portNo = 9, sna_IpAddr = 7\<rparr> \<lparr>spk_buf = Some [7, 4, 4, 1, 0, 60, 97], spk_bufLen = 7\<rparr> (Gateway_new None None 900 1 4 False)"
  have "map_option (\<lambda>g. length (gw_packetEventQue g)) ?r = Some 1"
    by code_simp
  then obtain g where g: "?r = Some g" "length (gw_packetEventQue g) = 1"
    by auto
  moreover have "gw_ok g"
    by (rule gateway_invariant) (rule gateway_reachable.step [OF gateway_reachable.start [OF gateway_started.created] gateway_step.receive [OF g(1)]])
  ultimately show ?thesis
    by auto
qed

end
