(* ===== verification/MQTTSNGW_Relay.thy ===== *)
theory MQTTSNGW_Relay
  imports MQTTSNGW_Invariant
begin

text \<open>
  What the gateway does for its clients, over the whole path from one socket to the other. Here: the tasks on a single packet, and publications of clients that go to the broker
  (\<^verbatim>\<open>MQTTSNGWPublishHandler.cpp\<close>).
\<close>

subsection \<open>Queues and clients\<close>

lemma gw_client_set [simp]:
  "gw_client d (gw_set c cl g) = (if d = c \<and> gw_client c g \<noteq> None then Some cl else gw_client d g)"
  by (simp add: gw_client_def gw_set_def cll_update_lookup)

lemma EventQue_post_unbounded [simp]: "EventQue_post 0 ev q = q @ [ev]"
  by (simp add: EventQue_post_def)

lemma EventQue_post_room [simp]: "int (length q) < bound \<Longrightarrow> EventQue_post bound ev q = q @ [ev]"
  by (simp add: EventQue_post_def)

lemma EventQue_wait_Cons [simp]: "EventQue_wait (ev # q) = Some (ev, q)"
  by (simp add: EventQue_wait_def)

lemma EventQue_timedwait_Cons [simp]: "EventQue_timedwait (ev # q) = (ev, q)"
  by (simp add: EventQue_timedwait_def)

lemma gw_fields [simp]:
  "gw_client c (g\<lparr>gw_packetEventQue := q\<rparr>) = gw_client c g"
  "gw_client c (g\<lparr>gw_brokerSendQue := q\<rparr>) = gw_client c g"
  "gw_client c (g\<lparr>gw_clientSendQue := q\<rparr>) = gw_client c g"
  "gw_client c (g\<lparr>gw_network := n\<rparr>) = gw_client c g"
  by (simp_all add: gw_client_def)

lemma gw_set_fields [simp]:
  "gw_packetEventQue (gw_set c cl g) = gw_packetEventQue g"
  "gw_brokerSendQue (gw_set c cl g) = gw_brokerSendQue g"
  "gw_clientSendQue (gw_set c cl g) = gw_clientSendQue g"
  "gw_aggregater (gw_set c cl g) = gw_aggregater g"
  "gw_qosm1Proxy (gw_set c cl g) = gw_qosm1Proxy g"
  "gw_network (gw_set c cl g) = gw_network g"
  "gw_forwarders (gw_set c cl g) = gw_forwarders g"
  by (simp_all add: gw_set_def)

lemma post_fields [simp]:
  "gw_brokerSendQue (post_brokerSend ev g) = gw_brokerSendQue g @ [ev]"
  "gw_clientSendQue (post_clientSend ev g) = gw_clientSendQue g @ [ev]"
  "gw_packetEventQue (post_brokerSend ev g) = gw_packetEventQue g"
  "gw_packetEventQue (post_clientSend ev g) = gw_packetEventQue g"
  "gw_brokerSendQue (post_clientSend ev g) = gw_brokerSendQue g"
  "gw_clientSendQue (post_brokerSend ev g) = gw_clientSendQue g"
  "gw_network (post_brokerSend ev g) = gw_network g"
  "gw_network (post_clientSend ev g) = gw_network g"
  "gw_aggregater (post_brokerSend ev g) = gw_aggregater g"
  "gw_aggregater (post_clientSend ev g) = gw_aggregater g"
  "gw_qosm1Proxy (post_brokerSend ev g) = gw_qosm1Proxy g"
  "gw_qosm1Proxy (post_clientSend ev g) = gw_qosm1Proxy g"
  by (simp_all add: post_brokerSend_def post_clientSend_def)

lemma post_packetEvent_empty [simp]:
  "gw_packetEventQue g = [] \<Longrightarrow> gw_packetEventQue (post_packetEvent ev g) = [ev]"
  "gw_brokerSendQue (post_packetEvent ev g) = gw_brokerSendQue g"
  "gw_clientSendQue (post_packetEvent ev g) = gw_clientSendQue g"
  "gw_network (post_packetEvent ev g) = gw_network g"
  "gw_aggregater (post_packetEvent ev g) = gw_aggregater g"
  "gw_qosm1Proxy (post_packetEvent ev g) = gw_qosm1Proxy g"
  by (simp_all add: post_packetEvent_def)

text \<open>The situation of the theorems below: a client that was found under its address, in a gateway that is idle; \<open>direct_client\<close> asks also that its connection to the broker is
  open.\<close>

definition idle_client :: "SensorNetAddress \<Rightarrow> client_ptr \<Rightarrow> Client \<Rightarrow> Gateway \<Rightarrow> bool" where
  "idle_client addr c cl g \<longleftrightarrow> gw_ok g \<and> gw_client c g = Some cl \<and> getClient_addr (Some addr) (gw_clientList g) = Some c \<and>
     \<not> ad_isActive (gw_aggregater g) \<and> \<not> ad_isActive (gw_qosm1Proxy g) \<and> cl_clientType cl = Ctype_Regular \<and> cl_forwarder cl = None \<and>
     gw_packetEventQue g = [] \<and> gw_brokerSendQue g = [] \<and> gw_clientSendQue g = []"

definition direct_client :: "SensorNetAddress \<Rightarrow> client_ptr \<Rightarrow> Client \<Rightarrow> Gateway \<Rightarrow> bool" where
  "direct_client addr c cl g \<longleftrightarrow> idle_client addr c cl g \<and> gw_network g c"

lemma direct_idle: "direct_client addr c cl g \<Longrightarrow> idle_client addr c cl g"
  by (simp add: direct_client_def)

lemma idle_clientD:
  assumes "idle_client addr c cl g"
  shows "gw_client c g = Some cl" "getClient_addr (Some addr) (gw_clientList g) = Some c" "\<not> ad_isActive (gw_aggregater g)"
    "\<not> ad_isActive (gw_qosm1Proxy g)" "cl_forwarder cl = None" "cl_clientType cl = Ctype_Regular" "gw_packetEventQue g = []" "gw_brokerSendQue g = []"
    "gw_clientSendQue g = []" "client_ok cl" "\<not> isQoSm1 cl" "\<not> isAggregated cl" "\<not> isAggregater cl" "\<not> isQoSm1Proxy cl" "\<not> isAdapter cl"
  using assms gw_ok_client [of g c cl]
  by (simp_all add: idle_client_def isQoSm1_def isAggregated_def isAggregater_def isQoSm1Proxy_def isAdapter_def)

lemma direct_clientD:
  assumes "direct_client addr c cl g"
  shows "gw_client c g = Some cl" "getClient_addr (Some addr) (gw_clientList g) = Some c" "\<not> ad_isActive (gw_aggregater g)"
    "\<not> ad_isActive (gw_qosm1Proxy g)" "cl_forwarder cl = None" "gw_network g c" "gw_packetEventQue g = []" "gw_brokerSendQue g = []"
    "gw_clientSendQue g = []" "client_ok cl" "\<not> isQoSm1 cl" "\<not> isAggregated cl" "\<not> isAggregater cl" "\<not> isQoSm1Proxy cl" "\<not> isAdapter cl"
  using assms idle_clientD [OF direct_idle [OF assms]] by (simp_all add: direct_client_def)

text \<open>Such a gateway, with one client that has registered \<open>a/b\<close> as topic 1.\<close>

definition demo_client :: "ClientStatus \<Rightarrow> Client" where
  "demo_client s = (Client_new False)\<lparr>cl_clientId := Some [99], cl_sensorNetAddr := \<lparr>sna_portNo = 9, sna_IpAddr = 7\<rparr>, cl_status := s,
     cl_topics := snd (Topics_add_name Topics_init [97, 47, 98] 0)\<rparr>"

definition demo_gateway :: "Client \<Rightarrow> Gateway" where
  "demo_gateway cl = (Gateway_new None None 900 1 4 False)\<lparr>gw_clientList := ClientList_init\<lparr>cll_clients := [(1, cl)], cll_clientCnt := 1, cll_new := 2\<rparr>,
     gw_network := (\<lambda>c. c = 1)\<rparr>"

lemma demo_topics_ok: "topics_ok (snd (Topics_add_name Topics_init [97, 47, 98] 0))"
  using Topics_add_name_new [OF topics_ok_init, of "[97, 47, 98]" 0] by (auto simp: Topics_init_def find_name_def)

lemma demo_client_ok: "s \<notin> {Cstat_TryConnecting, Cstat_Lost} \<Longrightarrow> client_ok (demo_client s)"
  using demo_topics_ok by (simp add: client_ok_def demo_client_def Client_new_def topicidmap_ok_def TopicIdMap_init_def)

lemma demo_direct:
  assumes "client_ok cl" "cl_sensorNetAddr cl = \<lparr>sna_portNo = 9, sna_IpAddr = 7\<rparr>" "cl_clientType cl = Ctype_Regular" "cl_forwarder cl = None"
  shows "direct_client \<lparr>sna_portNo = 9, sna_IpAddr = 7\<rparr> 1 cl (demo_gateway cl)"
  using assms by (simp add: direct_client_def idle_client_def demo_gateway_def Gateway_new_def gw_ok_def clients_ok_def cll_ok_def ClientList_init_def mt_ok_def MessageIdTable_init_def
      gw_client_def getClient_addr_def sna_isMatch_def Adapter_new_def client_ok_def)

subsection \<open>The tasks on a single packet\<close>

lemma receive_known:
  assumes "idle_client addr c cl g" "frame_ok body" "hd body > 2" "hd body \<noteq> 0xfe"
  shows "ClientRecvTask_round addr (SN_frame body) g = Some (post_packetEvent (EtClientRecv c (SN_frame body)) g)"
proof -
  have "\<not> spk_bufLen (SN_frame body) < 2"
    using assms(2) by (auto simp: SN_frame_def sn_frame_def sn_len_field_def frame_ok_def Suc_le_eq numeral_2_eq_2)
  moreover have "\<not> uint (hd body) \<le> 0" "uint (hd body) \<noteq> 1" "uint (hd body) \<noteq> 2" "uint (hd body) \<noteq> 254"
    using assms(3,4) by (auto simp: word_less_def word_uint_eq_iff)
  ultimately show ?thesis
    using idle_clientD [OF assms(1)] by (simp add: ClientRecvTask_round_def SN_getType_frame [OF assms(2)])
qed

lemma handle_one_client_packet:
  assumes "gw_packetEventQue g = [EtClientRecv c packet]" "handle_client_packet lo c packet (g\<lparr>gw_packetEventQue := []\<rparr>) = Some g'"
  shows "PacketHandleTask_round tm lo g = Some (True, g')"
  using assms by (simp add: PacketHandleTask_round_def)

lemma handle_one_broker_packet:
  assumes "gw_packetEventQue g = [EtBrokerRecv c packet]" "handle_broker_packet c packet (g\<lparr>gw_packetEventQue := []\<rparr>) = Some g'"
  shows "PacketHandleTask_round tm lo g = Some (True, g')"
  using assms by (simp add: PacketHandleTask_round_def)

lemma send_to_broker:
  assumes "gw_brokerSendQue g = [EtBrokerSend c packet]" "gw_client c g = Some cl" "cl_clientType cl = Ctype_Regular" "gw_network g c"
    "GW_ok packet" "length (GW_wire packet) \<le> 1024" "header_type (gp_header packet) \<noteq> 1" "written (GW_wire packet) > 0"
  shows "BrokerSendTask_round connected written g = Some (Some (c, GW_wire packet), g\<lparr>gw_brokerSendQue := []\<rparr>)"
proof -
  have "(gw_network g)(c := True) = gw_network g"
    using assms(4) by (simp add: fun_eq_iff)
  then show ?thesis
    using assms
    by (simp add: BrokerSendTask_round_def broker_send_def AdapterManager_getClient_def isQoSm1_def isAggregated_def GW_send_eq)
qed

lemma receive_from_broker:
  assumes "gw_client c g = Some cl" "gw_network g c" "length body < 2097152" "header_type h \<in> {2, 3, 4, 5, 6, 7, 9, 11, 13}"
  shows "BrokerRecvTask_client stream_recv ((h # varint (length body) @ body) @ rest) c g =
    Some (rest, post_packetEvent (EtBrokerRecv c \<lparr>gp_header = h, gp_remainingLength = int (length body), gp_data = (if body = [] then None else Some body)\<rparr>) g)"
proof -
  have "broker_type_ok \<lparr>gp_header = h, gp_remainingLength = int (length body), gp_data = (if body = [] then None else Some body)\<rparr>"
    using assms(4) by (simp add: broker_type_ok_def)
  then show ?thesis
    using assms(1-3) unfolding BrokerRecvTask_client_def GW_recv_frame [OF assms(3)] by simp
qed

lemma send_to_client:
  assumes "gw_clientSendQue g = [EtClientSend c (SN_frame body)]" "gw_client c g = Some cl" "cl_clientType cl = Ctype_Regular" "cl_forwarder cl = None"
  shows "ClientSendTask_round g = Some (Some (Unicast (cl_sensorNetAddr cl) (sn_frame body)), g\<lparr>gw_clientSendQue := []\<rparr>)"
  using assms by (simp add: ClientSendTask_round_def unicastToClient_def isQoSm1Proxy_def isAggregater_def SN_frame_def)


text \<open>A packet through two tasks: from a socket into the queue and from the queue to its handler.\<close>

lemma idle_queue [simp]: "gw_packetEventQue g = [] \<Longrightarrow> (post_packetEvent ev g)\<lparr>gw_packetEventQue := []\<rparr> = g"
  by (simp add: post_packetEvent_def)

lemma client_packet_handled:
  assumes "direct_client addr c cl g" "frame_ok body" "hd body > 2" "hd body \<noteq> 0xfe" "handle_client_packet lo c (SN_frame body) g = Some g'"
  shows "\<exists>g1. ClientRecvTask_round addr (SN_frame body) g = Some g1 \<and> PacketHandleTask_round tm lo g1 = Some (True, g')"
  using assms direct_clientD(7) [OF assms(1)] receive_known [OF direct_idle [OF assms(1)] assms(2-4)]
  by (auto intro!: handle_one_client_packet)

lemma broker_packet_handled:
  assumes "direct_client addr c cl g" "length body < 2097152" "header_type h \<in> {2, 3, 4, 5, 6, 7, 9, 11, 13}"
    "handle_broker_packet c \<lparr>gp_header = h, gp_remainingLength = int (length body), gp_data = (if body = [] then None else Some body)\<rparr> g = Some g'"
  shows "\<exists>g1. BrokerRecvTask_client stream_recv (h # varint (length body) @ body @ rest) c g = Some (rest, g1) \<and> PacketHandleTask_round tm lo g1 = Some (True, g')"
  using assms direct_clientD [OF assms(1)] receive_from_broker [of c g cl body h rest]
  by (auto intro!: handle_one_broker_packet)

subsection \<open>Publications of clients\<close>

abbreviation (input) wire_string :: "byte list \<Rightarrow> MQTTString" where
  "wire_string s \<equiv> \<lparr>cstring = None, lenstring = \<lparr>ls_len = int (length s), ls_data = Some s\<rparr>\<rparr>"

lemma cptr_bytes_all [simp]: "cptr_bytes (Some s) (int (length s)) = s"
  by (simp add: cptr_bytes_def)

lemma GW_publish_packet:
  assumes "GW_publish_ok pub"
  shows "\<exists>q. GW_setPUBLISH p pub = Some (1, q) \<and> GW_ok q \<and> header_type (gp_header q) = 3 \<and> GW_wire q = publish_wire
    (header_dup (gpub_header pub), uint (header_qos (gpub_header pub)), header_retain (gpub_header pub), word_of_int (gpub_msgId pub),
     wire_string (cptr_bytes (gpub_topic pub) (gpub_topiclen pub)), Some (cptr_bytes (gpub_payload pub) (gpub_payloadlen pub)),
     int (length (cptr_bytes (gpub_payload pub) (gpub_payloadlen pub))))"
proof -
  have h: "cptr_holds (gpub_topic pub) (gpub_topiclen pub)"
    using assms by (simp add: GW_publish_ok_def)
  have "length (GW_publish_body pub) < 268435456"
    using GW_publish_args_ok [OF assms] unfolding GW_publish_body_def GW_publish_args_def by (simp del: publish_body.simps)
  moreover have "GW_publish_body pub = publish_body (header_dup (gpub_header pub), uint (header_qos (gpub_header pub)), header_retain (gpub_header pub),
      word_of_int (gpub_msgId pub), wire_string (cptr_bytes (gpub_topic pub) (gpub_topiclen pub)), Some (cptr_bytes (gpub_payload pub) (gpub_payloadlen pub)),
      int (length (cptr_bytes (gpub_payload pub) (gpub_payloadlen pub))))"
    using h unfolding GW_publish_body_def GW_publish_args_def by (simp add: MQTTString_len cptr_holds_def)
  ultimately show ?thesis
    unfolding GW_setPUBLISH_eq [OF assms]
    by (auto simp: GW_ok_def cptr_holds_def GW_wire_def header_as_publish [symmetric] header_qos_set_type Let_def simp del: publish_body.simps)
qed


lemma SN_getPUBLISH_frame:
  assumes "snpublish_ok (dup, qos, retained, msgId, \<lparr>topic_type = ty, topic_data = d\<rparr>, payload, len)" "data_long d = None"
  shows "SN_getPUBLISH out (SN_frame (snpublish_body (dup, qos, retained, msgId, \<lparr>topic_type = ty, topic_data = d\<rparr>, payload, len))) =
    Some (1, \<lparr>snp_dup = (if take_bit 1 dup = 0 then 0 else 255), snp_qos = qos, snp_retained = take_bit 1 retained, snp_packetid = msgId,
      snp_topic = \<lparr>topic_type = ty, topic_data = d\<rparr>, snp_payload = Some (cptr_bytes payload len), snp_payloadlen = len\<rparr>)"
proof -
  let ?a = "(dup, qos, retained, msgId, \<lparr>topic_type = ty, topic_data = d\<rparr>, payload, len)"
  have ok: "sn_topic_ok \<lparr>topic_type = ty, topic_data = d\<rparr> qos" "cptr_holds payload len" "0 \<le> qos" "qos \<le> 3" and f: "frame_ok (snpublish_body ?a)"
    using assms(1) by simp_all
  have le: "int (length (snpublish_body ?a)) \<le> int (length (sn_frame (snpublish_body ?a)))"
    using sn_frame_start [OF f, of "int (length (sn_frame (snpublish_body ?a)))"] sn_lenlen_bounds(1) [of "snpublish_body ?a"] by simp
  have "sn_begin (Some 0) (sn_frame (snpublish_body ?a)) (int (length (sn_frame (snpublish_body ?a)))) =
      Some (sn_lenlen (snpublish_body ?a), (sn_lenlen (snpublish_body ?a), snpublish_body ?a), sn_lenlen (snpublish_body ?a) + int (length (snpublish_body ?a)))"
    using sn_begin_frame [OF f order_refl, of "Some 0" "[]"] by (simp del: snpublish_body.simps)
  note b = SN_getPUBLISH_def SN_frame_def MQTTSNDeserialize_publish_def MQTTSNPacket.simps bind.bind_lunit this prod.case fst_conv
  show ?thesis
    using ok(1)
  proof (cases rule: sn_topic_ok_cases)
    case (ident i)
    then show ?thesis
      using le ok(2-4) unfolding b
      by (auto simp: Let_def topicType_of_def read_simps field_simps read_topicid_def long_topic_def length_cptr_bytes)
  next
    case (short_name a b)
    then show ?thesis
      using le ok(2-4) unfolding b
      by (auto simp: Let_def read_simps field_simps read_topicid_def long_topic_def length_cptr_bytes)
  qed (use assms(2) in auto)
qed


text \<open>The name a topic of a PUBLISH stands for: two characters, or the name the client has registered under an identifier.\<close>

definition topic_name_of :: "Client \<Rightarrow> MQTTSN_topicid \<Rightarrow> byte list option" where
  "topic_name_of cl t =
     (case topic_data t of
        Topic_short a b \<Rightarrow> if topic_type t = MQTTSN_TOPIC_TYPE_SHORT then Some [a, b] else None
      | Topic_id i \<Rightarrow> if topic_type t = MQTTSN_TOPIC_TYPE_SHORT then None else map_option tp_topicName (getTopicById 0 (cl_topics cl) t)
      | Topic_long _ _ \<Rightarrow> None)"

definition publish_header_of :: "byte \<Rightarrow> int \<Rightarrow> byte \<Rightarrow> MQTTHeader" where
  "publish_header_of dup qos retained =
     set_header_retain (bit_of retained) (set_header_qos (if qos = 3 then 0 else word_of_int qos) (set_header_dup (bit_of dup) 0))"

lemma bit_of_mod: "bit_of (x mod 2) = x mod 2" "bit_of (if x mod 2 = 0 then 0 else 255) = x mod 2"
proof -
  have "x mod 2 = 0 \<or> x mod 2 = 1"
    by (metis not_mod_2_eq_1_eq_0)
  then show "bit_of (x mod 2) = x mod 2" "bit_of (if x mod 2 = 0 then 0 else 255) = x mod 2"
    by (auto simp: bit_of_def)
qed

lemma cptr_bytes_bytes: "cptr_bytes (Some (cptr_bytes p n)) n = cptr_bytes p n"
  by (simp add: cptr_bytes_def split: option.splits)

lemma relayed_header_fields:
  assumes "0 \<le> qos" "qos \<le> 3"
  shows "header_dup (publish_header_of dup qos retained) = bit_of dup" "header_retain (publish_header_of dup qos retained) = bit_of retained"
    "uint (header_qos (publish_header_of dup qos retained)) = (if qos = 3 then 0 else qos)"
proof -
  have b: "bit_of x mod 2 = bit_of x" for x
    by (simp add: bit_of_def)
  show "header_dup (publish_header_of dup qos retained) = bit_of dup" "header_retain (publish_header_of dup qos retained) = bit_of retained"
    "uint (header_qos (publish_header_of dup qos retained)) = (if qos = 3 then 0 else qos)"
    using assms by (auto simp: publish_header_of_def header_defs field_simps b uint_take_bit_word_of_int)
qed

lemma publish_to_broker_packet:
  assumes "\<not> isAggregated cl" "0 \<le> snp_qos out" "snp_qos out \<le> 3" "cptr_holds (snp_payload out) (snp_payloadlen out)" "snp_payloadlen out < 65536"
    "length name < 65536"
  shows "\<exists>q. GW_ok q \<and> header_type (gp_header q) = 3 \<and>
    publish_to_broker addr c out (Some name, int (length name)) cl g = Some (None, post_brokerSend (EtBrokerSend c q)
      (gw_set c (if snp_packetid out \<noteq> 0 \<and> snp_qos out > 0 \<and> snp_qos out < 3
        then setWaitedPubTopicId (snp_packetid out) (union_id addr (topic_data (snp_topic out))) (topic_type (snp_topic out)) cl else cl) g)) \<and>
    GW_wire q = publish_wire (bit_of (snp_dup out), if snp_qos out = 3 then 0 else snp_qos out, bit_of (snp_retained out), snp_packetid out,
      wire_string name, Some (cptr_bytes (snp_payload out) (snp_payloadlen out)), snp_payloadlen out)"
proof -
  let ?pub = "\<lparr>gpub_header = publish_header_of (snp_dup out) (snp_qos out) (snp_retained out), gpub_topic = Some name,
    gpub_topiclen = int (length name), gpub_msgId = uint (snp_packetid out), gpub_payload = snp_payload out, gpub_payloadlen = snp_payloadlen out\<rparr>"
  have "uint (snp_packetid out) < 65536"
    using uint_range_size [of "snp_packetid out"] by (simp add: word_size)
  then have "GW_publish_ok ?pub"
    using assms by (simp add: GW_publish_ok_def cptr_holds_def)
  then obtain q where "GW_setPUBLISH GW_new ?pub = Some (1, q)" "GW_ok q" "header_type (gp_header q) = 3"
    "GW_wire q = publish_wire (bit_of (snp_dup out), if snp_qos out = 3 then 0 else snp_qos out, bit_of (snp_retained out), snp_packetid out,
      wire_string name, Some (cptr_bytes (snp_payload out) (snp_payloadlen out)), snp_payloadlen out)"
    using GW_publish_packet [of ?pub GW_new] by (auto simp: relayed_header_fields assms length_cptr_bytes simp del: publish_wire.simps)
  then show ?thesis
    using assms(1) by (intro exI [of _ q]) (simp add: publish_to_broker_def publish_header_of_def setWaitedPubTopicId_def isAggregated_def Let_def del: publish_wire.simps)
qed


lemma updateStatus_publish:
  assumes "SN_getType packet = Some 12"
  shows "\<exists>cl'. updateStatus packet cl = Some cl' \<and> cl_status cl' = cl_status cl \<and> cl_waitedPubTopicIdMap cl' = cl_waitedPubTopicIdMap cl \<and>
    cl_clientType cl' = cl_clientType cl"
  using assms by (auto simp: updateStatus_def updateStatus_active_def updateStatus_sleeping_def start_keepAlive_def)

lemma handle_publish:
  assumes "direct_client addr c cl g" "snpublish_ok (dup, qos, retained, msgId, topic, payload, len)"
    "topic_name_of cl topic = Some name" "length name < 65536"
  shows "\<exists>q g' cl'. handle_client_packet lo c (SN_frame (snpublish_body (dup, qos, retained, msgId, topic, payload, len))) g = Some g' \<and>
    gw_brokerSendQue g' = [EtBrokerSend c q] \<and> gw_network g' = gw_network g \<and> GW_ok q \<and> header_type (gp_header q) = 3 \<and>
    GW_wire q = publish_wire (take_bit 1 dup, if qos = 3 then 0 else qos, take_bit 1 retained, msgId, wire_string name, Some (cptr_bytes payload len), len) \<and>
    gw_client c g' = Some cl' \<and> cl_clientType cl' = cl_clientType cl \<and> cl_waitedPubTopicIdMap cl' =
      (if msgId \<noteq> 0 \<and> qos > 0 \<and> qos < 3
       then snd (TopicIdMap_add (cl_waitedPubTopicIdMap cl) msgId (union_id 0 (topic_data topic)) (topic_type topic)) else cl_waitedPubTopicIdMap cl)"
proof -
  let ?a = "(dup, qos, retained, msgId, topic, payload, len)" and ?p = "SN_frame (snpublish_body (dup, qos, retained, msgId, topic, payload, len))"
  note c = direct_clientD [OF assms(1)]
  have ok: "cptr_holds payload len" "0 \<le> qos" "qos \<le> 3" and f: "frame_ok (snpublish_body ?a)"
    using assms(2) by simp_all
  have l: "len < 65536"
    using f length_cptr_bytes [OF ok(1)] by (simp add: frame_ok_def)
  have d: "data_long (topic_data topic) = None" "\<And>x. union_id x (topic_data topic) = union_id 0 (topic_data topic)"
    using assms(3) by (auto simp: topic_name_of_def union_id_def split: topic_union.splits)
  define out where "out = \<lparr>snp_dup = (if take_bit 1 dup = 0 then 0 else 255), snp_qos = qos, snp_retained = take_bit 1 retained, snp_packetid = msgId,
      snp_topic = topic, snp_payload = Some (cptr_bytes payload len), snp_payloadlen = len\<rparr>"
  have out: "SN_getPUBLISH (snpublish_init lo) ?p = Some (1, out)"
  proof (cases topic)
    case (fields ty td)
    show ?thesis
      using SN_getPUBLISH_frame [of dup qos retained msgId ty td payload len "snpublish_init lo"] assms(2) d(1)
      unfolding out_def fields by (simp del: snpublish_body.simps)
  qed
  have h: "cptr_holds (snp_payload out) (snp_payloadlen out)"
    using length_cptr_bytes [OF ok(1)] ok(1) by (auto simp: out_def cptr_holds_def)
  obtain q where q: "GW_ok q" "header_type (gp_header q) = 3"
    "publish_to_broker (lo_addr lo) c out (Some name, int (length name)) cl g = Some (None, post_brokerSend (EtBrokerSend c q)
      (gw_set c (if snp_packetid out \<noteq> 0 \<and> snp_qos out > 0 \<and> snp_qos out < 3
        then setWaitedPubTopicId (snp_packetid out) (union_id (lo_addr lo) (topic_data (snp_topic out))) (topic_type (snp_topic out)) cl else cl) g))"
    "GW_wire q = publish_wire (bit_of (snp_dup out), if snp_qos out = 3 then 0 else snp_qos out, bit_of (snp_retained out), snp_packetid out,
      wire_string name, Some (cptr_bytes (snp_payload out) (snp_payloadlen out)), snp_payloadlen out)"
    using publish_to_broker_packet [of cl out name "lo_addr lo" c g] c(12) ok l h assms(4) by (auto simp: out_def)
  have e: "SN_handlePublish lo c ?p g = publish_to_broker (lo_addr lo) c out (Some name, int (length name)) cl g"
  proof -
    have "snp_topic out = topic" "getTopicById (lo_addr lo) (cl_topics cl) topic = getTopicById 0 (cl_topics cl) topic"
      by (simp_all add: out_def getTopicById_def d(2) [of "lo_addr lo"])
    then show ?thesis
      using c(1,4,11) assms(3) out
      by (auto simp: SN_handlePublish_def topic_name_of_def resolve_topic_def Let_def simp del: snpublish_body.simps split: topic_union.splits if_splits)
  qed
  have t: "SN_getType ?p = Some 12"
    using SN_getType_frame [OF f] by simp
  define cl1 where "cl1 = (if msgId \<noteq> 0 \<and> qos > 0 \<and> qos < 3 then setWaitedPubTopicId msgId (union_id 0 (topic_data topic)) (topic_type topic) cl else cl)"
  obtain cl' where u: "updateStatus ?p cl1 = Some cl'" "cl_waitedPubTopicIdMap cl' = cl_waitedPubTopicIdMap cl1" "cl_clientType cl' = cl_clientType cl1"
    using updateStatus_publish [OF t, of cl1] by auto
  have "SN_handlePublish lo c ?p g = Some (None, post_brokerSend (EtBrokerSend c q) (gw_set c cl1 g))"
    unfolding e q(3) by (simp add: cl1_def out_def d(2) [of "lo_addr lo"])
  then have "handle_client_packet lo c ?p g = Some (gw_set c cl' (post_brokerSend (EtBrokerSend c q) (gw_set c cl1 g)))"
    using c(1,3) t u(1) by (simp add: handle_client_packet_def isAggregatedClient_def transparent_client_def del: snpublish_body.simps)
  moreover have "GW_wire q = publish_wire (take_bit 1 dup, if qos = 3 then 0 else qos, take_bit 1 retained, msgId, wire_string name, Some (cptr_bytes payload len), len)"
    unfolding q(4) out_def using length_cptr_bytes [OF ok(1)] by (simp add: bit_of_mod take_bit_Suc cptr_bytes_bytes del: publish_wire.simps)
  ultimately show ?thesis
    using q(1,2) c(1,8) u(2,3)
    by (intro exI [of _ q] exI [of _ cl'] exI [of _ "gw_set c cl' (post_brokerSend (EtBrokerSend c q) (gw_set c cl1 g))"])
      (simp add: cl1_def setWaitedPubTopicId_def del: snpublish_body.simps publish_wire.simps)
qed


lemma waited_add:
  assumes "topicidmap_ok m"
  shows "waited (snd (TopicIdMap_add m msgId i ty)) =
    (if tm_cnt m > tm_maxInflight m * 2 \<or> i = 0 \<and> ty \<noteq> MQTTSN_TOPIC_TYPE_SHORT then waited m else (waited m)(msgId \<mapsto> (i, ty)))"
proof (cases "TopicIdMap_add m msgId i ty")
  case (Pair r m')
  show ?thesis
    using topicidmap_refines_map [OF assms Pair] by (auto simp: Pair mult.commute)
qed

text \<open>C3: A PUBLISH of a client reaches the broker. When a datagram with a PUBLISH arrives from the address of a client and its topic is a short name or an identifier the client has, the
  three tasks that handle it write exactly the MQTT PUBLISH with the name of the topic, the payload, the message identifier and the flags to the connection of that client (a QoS of -1 becomes 0), provided
  the packet has at most 1024 bytes. For QoS 1 and 2 the topic is remembered for the acknowledgement, unless the identifier is 0 or more than twenty messages wait already.\<close>

theorem gateway_relays_publish:
  fixes qos len :: int
  assumes "direct_client addr c cl g" "snpublish_ok (dup, qos, retained, msgId, topic, payload, len)" "topic_name_of cl topic = Some name"
    "wire = publish_wire (take_bit 1 dup, if qos = 3 then 0 else qos, take_bit 1 retained, msgId, wire_string name, Some (cptr_bytes payload len), len)"
    "length wire \<le> 1024" "written wire > 0"
  shows "\<exists>g1 g2 g3 cl'. ClientRecvTask_round addr (SN_frame (snpublish_body (dup, qos, retained, msgId, topic, payload, len))) g = Some g1 \<and>
    PacketHandleTask_round tm lo g1 = Some (True, g2) \<and> BrokerSendTask_round connected written g2 = Some (Some (c, wire), g3) \<and>
    gw_client c g3 = Some cl' \<and> waited (cl_waitedPubTopicIdMap cl') =
      (if msgId \<noteq> 0 \<and> qos \<in> {1, 2} \<and> tm_cnt (cl_waitedPubTopicIdMap cl) \<le> 20 \<and> (union_id 0 (topic_data topic) = 0 \<longrightarrow> topic_type topic = MQTTSN_TOPIC_TYPE_SHORT)
       then (waited (cl_waitedPubTopicIdMap cl))(msgId \<mapsto> (union_id 0 (topic_data topic), topic_type topic)) else waited (cl_waitedPubTopicIdMap cl))"
proof -
  let ?b = "snpublish_body (dup, qos, retained, msgId, topic, payload, len)"
  note c = direct_clientD [OF assms(1)]
  have "length name \<le> length wire"
    unfolding assms(4) by (simp add: Let_def MQTTString_len cptr_holds_def lp_string_def)
  then have n: "length name < 65536"
    using assms(5) by simp
  obtain q g2 cl' where h: "handle_client_packet lo c (SN_frame ?b) g = Some g2" "gw_brokerSendQue g2 = [EtBrokerSend c q]" "gw_network g2 = gw_network g"
    "GW_ok q" "header_type (gp_header q) = 3" "GW_wire q = wire" "gw_client c g2 = Some cl'" "cl_clientType cl' = cl_clientType cl"
    "cl_waitedPubTopicIdMap cl' = (if msgId \<noteq> 0 \<and> qos > 0 \<and> qos < 3
       then snd (TopicIdMap_add (cl_waitedPubTopicIdMap cl) msgId (union_id 0 (topic_data topic)) (topic_type topic)) else cl_waitedPubTopicIdMap cl)"
    using handle_publish [OF assms(1-3) n, of lo] unfolding assms(4) [symmetric] by (elim exE conjE) (rule that)
  obtain g1 where g1: "ClientRecvTask_round addr (SN_frame ?b) g = Some g1" "PacketHandleTask_round tm lo g1 = Some (True, g2)"
    using client_packet_handled [OF assms(1) _ _ _ h(1), of tm] assms(2) by auto
  have "cl_clientType cl' = Ctype_Regular"
    using h(8) assms(1) by (simp add: direct_client_def idle_client_def)
  then have "BrokerSendTask_round connected written g2 = Some (Some (c, wire), g2\<lparr>gw_brokerSendQue := []\<rparr>)"
    using send_to_broker [OF h(2,7), of written] h(3-6) c(6) assms(5,6) by simp
  moreover have "waited (cl_waitedPubTopicIdMap cl') =
      (if msgId \<noteq> 0 \<and> qos \<in> {1, 2} \<and> tm_cnt (cl_waitedPubTopicIdMap cl) \<le> 20 \<and> (union_id 0 (topic_data topic) = 0 \<longrightarrow> topic_type topic = MQTTSN_TOPIC_TYPE_SHORT)
       then (waited (cl_waitedPubTopicIdMap cl))(msgId \<mapsto> (union_id 0 (topic_data topic), topic_type topic)) else waited (cl_waitedPubTopicIdMap cl))"
    using c(10) h(9) by (auto simp: waited_add client_ok_def)
  ultimately show ?thesis
    using g1 h(7) by auto
qed


theorem gateway_relays_publish_witness:
  "\<exists>g1 g2 g3 cl'. ClientRecvTask_round \<lparr>sna_portNo = 9, sna_IpAddr = 7\<rparr> (SN_frame [12, 32, 0, 1, 0, 5, 104, 105]) (demo_gateway (demo_client Cstat_Active)) = Some g1 \<and>
    PacketHandleTask_round \<lparr>tmr_advertise = False, tmr_aggregater = ((False, False), (False, False)), tmr_qosm1 = ((False, False), (False, False))\<rparr>
      \<lparr>lo_addr = 0, lo_topic = \<lparr>topic_type = MQTTSN_TOPIC_TYPE_NORMAL, topic_data = Topic_id 0\<rparr>\<rparr> g1 = Some (True, g2) \<and>
    BrokerSendTask_round True (\<lambda>bs. int (length bs)) g2 = Some (Some (1, [50, 9, 0, 3, 97, 47, 98, 0, 5, 104, 105]), g3) \<and>
    gw_client 1 g3 = Some cl' \<and> waited (cl_waitedPubTopicIdMap cl') = [5 \<mapsto> (1, MQTTSN_TOPIC_TYPE_NORMAL)]"
proof -
  let ?topic = "\<lparr>topic_type = MQTTSN_TOPIC_TYPE_NORMAL, topic_data = Topic_id 1\<rparr>" and ?addr = "\<lparr>sna_portNo = 9, sna_IpAddr = 7\<rparr> :: SensorNetAddress"
  let ?wire = "publish_wire (take_bit 1 0, if 1 = (3 :: int) then 0 else 1, take_bit 1 0, 5, wire_string [97, 47, 98], Some (cptr_bytes (Some [104, 105]) 2), 2)"
  have d: "direct_client ?addr 1 (demo_client Cstat_Active) (demo_gateway (demo_client Cstat_Active))"
    by (rule demo_direct) (simp_all add: demo_client_ok, simp_all add: demo_client_def Client_new_def)
  have ok: "snpublish_ok (0, 1, 0, 5, ?topic, Some [104, 105], 2)"
    by (simp add: sn_topic_ok_def long_topic_def cptr_holds_def frame_ok_def cptr_bytes_def)
  have n: "topic_name_of (demo_client Cstat_Active) ?topic = Some [97, 47, 98]"
    by code_simp
  have w: "?wire = [50, 9, 0, 3, 97, 47, 98, 0, 5, 104, 105]" and b: "snpublish_body (0, 1, 0, 5, ?topic, Some [104, 105], 2) = [12, 32, 0, 1, 0, 5, 104, 105]"
    by code_simp+
  have m: "cl_waitedPubTopicIdMap (demo_client Cstat_Active) = TopicIdMap_init" "waited TopicIdMap_init = Map.empty" "union_id 0 (Topic_id 1) = 1" "tm_cnt TopicIdMap_init = 0"
    by (simp_all add: demo_client_def Client_new_def waited_def getElement_def TopicIdMap_init_def union_id_def fun_eq_iff)
  show ?thesis
    using gateway_relays_publish [OF d ok n refl, of "\<lambda>bs. int (length bs)"
        "\<lparr>tmr_advertise = False, tmr_aggregater = ((False, False), (False, False)), tmr_qosm1 = ((False, False), (False, False))\<rparr>"
        "\<lparr>lo_addr = 0, lo_topic = \<lparr>topic_type = MQTTSN_TOPIC_TYPE_NORMAL, topic_data = Topic_id 0\<rparr>\<rparr>" True]
    unfolding w b by (simp add: m)
qed

end
