(* ===== verification/MQTTSNGW_Deliver.thy ===== *)
theory MQTTSNGW_Deliver
  imports MQTTSNGW_Relay
begin

text \<open>
  Packets of the broker on their way to clients (\<^verbatim>\<open>MQTTGWPublishHandler.cpp\<close>, \<^verbatim>\<open>MQTTGWConnectionHandler.cpp\<close>): publications for active and for sleeping clients, acknowledgements.
\<close>

subsection \<open>Taking PUBLISH apart\<close>

fun publish_packet :: "publish_args \<Rightarrow> MQTTGWPacket" where
  "publish_packet (dup, qos, retained, msgId, topic, payload, len) =
     (let body = publish_body (dup, qos, retained, msgId, topic, payload, len)
      in \<lparr>gp_header = publish_header dup qos retained, gp_remainingLength = int (length body), gp_data = Some body\<rparr>)"

lemma get_publish_packet:
  assumes "0 \<le> qos" "qos \<le> 3" "length name < 65536"
  shows "get_publish (publish_packet (dup, qos, retained, msgId, wire_string name, Some payload, int (length payload))) =
    Some \<lparr>gpub_header = publish_header dup qos retained, gpub_topic = Some (name @ (if qos > 0 then be16 (uint msgId) else []) @ payload),
      gpub_topiclen = int (length name), gpub_msgId = (if qos > 0 then uint msgId else 0), gpub_payload = Some payload, gpub_payloadlen = int (length payload)\<rparr>"
proof -
  note h = publish_header_fields(1,4)
  have q: "header_qos (publish_header dup qos retained) > 0 \<longleftrightarrow> qos > 0"
    using h(2) assms(1,2) by (simp add: word_less_def)
  have u: "uint msgId < 65536"
    using uint_range_size [of msgId] by (simp add: word_size)
  have drop2: "drop 2 (be16 n @ xs) = xs" for n xs
    by (simp add: be16_def)
  show ?thesis
    using assms(3) u by (simp add: get_publish_def filled_def GW_getPUBLISH_def Let_def h(1) q MQTTString_len cptr_holds_def lp_string_def read_simps drop2)
qed


subsection \<open>Delivery to an active client\<close>

text \<open>The topic under which a client gets a message: its two characters, or the identifier of its name.\<close>

definition topic_to :: "Client \<Rightarrow> byte list \<Rightarrow> MQTTSN_topicid option" where
  "topic_to cl name =
     (if length name = 2 then Some \<lparr>topic_type = MQTTSN_TOPIC_TYPE_SHORT, topic_data = Topic_short (name ! 0) (name ! 1)\<rparr>
      else if length name < 2 then None
      else map_option (\<lambda>t. \<lparr>topic_type = tp_type t, topic_data = Topic_id (tp_topicId t)\<rparr>) (find_name (cl_topics cl) name))"

lemma snpublish_for_packet:
  assumes "0 \<le> qos" "qos \<le> 2" "sn_topic_ok topic qos" "data_long (topic_data topic) = None" "length payload \<le> 1015" "length payload \<noteq> 249"
    "pub = \<lparr>gpub_header = publish_header dup qos retained, gpub_topic = tp, gpub_topiclen = n, gpub_msgId = uint (msgId :: u16),
      gpub_payload = Some payload, gpub_payloadlen = int (length payload)\<rparr>"
  shows "snpublish_for pub topic = Some (SN_frame (snpublish_body (take_bit 1 dup, qos, take_bit 1 retained, msgId, topic, Some payload, int (length payload))))"
proof -
  let ?a = "(take_bit 1 dup, qos, take_bit 1 retained, msgId, topic, Some payload, int (length payload))"
  have tn: "topic_name (topic_data topic) = []"
    using assms(4) by (cases "topic_data topic") simp_all
  have len: "length (snpublish_body ?a) = 6 + length payload"
    by (simp add: tn)
  have f: "frame_ok (snpublish_body ?a)"
    using assms(5,6) len by (auto simp: frame_ok_def)
  have ok: "snpublish_ok ?a"
    using f assms(1-3) by (simp add: cptr_holds_def del: snpublish_body.simps)
  have "length (sn_frame (snpublish_body ?a)) \<le> 1024"
    using sn_frame_start [OF f, of 1024] sn_lenlen_bounds [of "snpublish_body ?a"] len assms(5) by (auto simp: sn_lenlen_def split: if_splits)
  moreover have "uint (word_of_int (int (length payload)) :: u16) = int (length payload)"
    using assms(5) by (intro u16_value) simp_all
  ultimately show ?thesis
    using snpublish.gateway_setter [OF ok, of 1024] publish_header_fields assms(1,2)
    by (simp add: snpublish_for_def SN_setPUBLISH_def assms(7) del: snpublish_body.simps)
qed


lemma handle_publish_for_active:
  assumes "direct_client addr c cl g" "isActive cl \<or> isAwake cl" "topic_to cl name = Some topic" "sn_topic_ok topic qos"
    "0 \<le> qos" "qos \<le> 2" "length name < 65536" "length payload \<le> 1015" "length payload \<noteq> 249"
  shows "handle_broker_packet c (publish_packet (dup, qos, retained, msgId, wire_string name, Some payload, int (length payload))) g =
    Some (post_clientSend (EtClientSend c (SN_frame (snpublish_body (take_bit 1 dup, qos, take_bit 1 retained, if qos > 0 then msgId else 0, topic,
      Some payload, int (length payload))))) g)"
proof -
  let ?p = "publish_packet (dup, qos, retained, msgId, wire_string name, Some payload, int (length payload))"
  note c = direct_clientD [OF assms(1)]
  define pub where "pub = \<lparr>gpub_header = publish_header dup qos retained, gpub_topic = Some (name @ (if qos > 0 then be16 (uint msgId) else []) @ payload),
      gpub_topiclen = int (length name), gpub_msgId = uint (if qos > 0 then msgId else 0), gpub_payload = Some payload, gpub_payloadlen = int (length payload)\<rparr>"
  have pub: "get_publish ?p = Some pub"
    using get_publish_packet [of qos name dup retained msgId payload] assms(5-7) by (simp add: pub_def del: publish_packet.simps)
  have d: "data_long (topic_data topic) = None"
    using assms(3) by (auto simp: topic_to_def split: if_splits)
  have sn: "snpublish_for pub topic = Some (SN_frame (snpublish_body (take_bit 1 dup, qos, take_bit 1 retained, if qos > 0 then msgId else 0, topic,
      Some payload, int (length payload))))"
    by (rule snpublish_for_packet [OF assms(5,6,4) d assms(8,9) pub_def])
  have h: "handle_broker_packet c ?p g = GW_handlePublish c ?p g"
    using c(1,13) by (simp add: handle_broker_packet_def transparent_broker_def Let_def publish_header_fields)
  have t: "(if gpub_topiclen pub \<le> 2 then do { t \<leftarrow> short_topic pub; Some (Some t) }
      else do {
        tp \<leftarrow> getTopicByName (cl_topics cl) \<lparr>topic_type = MQTTSN_TOPIC_TYPE_NORMAL, topic_data = Topic_long (gpub_topic pub) (gpub_topiclen pub)\<rparr>;
        Some (map_option (\<lambda>tp. \<lparr>topic_type = tp_type tp, topic_data = Topic_id (tp_topicId tp)\<rparr>) tp) }) = Some (Some topic)"
    using assms(3) by (auto simp: topic_to_def pub_def short_topic_def array_get_def nth_append getTopicByName_def string_of_def cptr_holds_def split: if_splits)
  have s: "\<not> isSleep cl"
    using assms(2) by (auto simp: isSleep_def isActive_def isAwake_def)
  show ?thesis
    unfolding h GW_handlePublish_def c(1) bind.bind_lunit pub t using sn s assms(2) by (auto simp del: snpublish_body.simps)
qed

text \<open>C4: A PUBLISH of the broker reaches an active or awake client. When the broker sends a PUBLISH for a client, with a topic that is two characters or a name the client knows, then the three tasks that
  handle it send to the address of the client exactly the MQTT-SN PUBLISH with the topic in its short form or with its identifier, the payload, the flags and, for QoS 1 and 2, the message identifier. This needs a
  payload of at most 1015 bytes, and one that does not make a packet of 255 bytes.\<close>

theorem gateway_delivers_publish:
  assumes "direct_client addr c cl g" "isActive cl \<or> isAwake cl" "topic_to cl name = Some topic" "sn_topic_ok topic qos"
    "0 \<le> qos" "qos \<le> 2" "length name < 65536" "length payload \<le> 1015" "length payload \<noteq> 249"
  shows "\<exists>g1 g2 g3. BrokerRecvTask_client stream_recv
      (publish_wire (dup, qos, retained, msgId, wire_string name, Some payload, int (length payload)) @ rest) c g = Some (rest, g1) \<and>
    PacketHandleTask_round tm lo g1 = Some (True, g2) \<and>
    ClientSendTask_round g2 = Some (Some (Unicast (cl_sensorNetAddr cl) (sn_frame (snpublish_body
      (take_bit 1 dup, qos, take_bit 1 retained, if qos > 0 then msgId else 0, topic, Some payload, int (length payload))))), g3)"
proof -
  let ?a = "(dup, qos, retained, msgId, wire_string name, Some payload, int (length payload))"
  let ?sn = "snpublish_body (take_bit 1 dup, qos, take_bit 1 retained, if qos > 0 then msgId else 0, topic, Some payload, int (length payload))"
  note c = direct_clientD [OF assms(1)]
  note h = handle_publish_for_active [OF assms, of dup retained msgId]
  have body: "publish_body ?a \<noteq> []" "length (publish_body ?a) < 2097152"
    using assms(7,8) by (simp_all add: MQTTString_len cptr_holds_def lp_string_def) (simp add: be16_def)
  then obtain g1 where "BrokerRecvTask_client stream_recv (publish_wire ?a @ rest) c g = Some (rest, g1)"
    "PacketHandleTask_round tm lo g1 = Some (True, post_clientSend (EtClientSend c (SN_frame ?sn)) g)"
    using broker_packet_handled [OF assms(1) body(2), of "publish_header dup qos retained" _ rest tm lo] h
    by (auto simp: Let_def publish_header_fields simp del: publish_body.simps snpublish_body.simps)
  moreover have "ClientSendTask_round (post_clientSend (EtClientSend c (SN_frame ?sn)) g) =
      Some (Some (Unicast (cl_sensorNetAddr cl) (sn_frame ?sn)), (post_clientSend (EtClientSend c (SN_frame ?sn)) g)\<lparr>gw_clientSendQue := []\<rparr>)"
    by (rule send_to_client) (use c assms(1) in \<open>simp_all add: direct_client_def idle_client_def\<close>)
  ultimately show ?thesis
    by blast
qed


abbreviation (input) no_timers :: timers where
  "no_timers \<equiv> \<lparr>tmr_advertise = False, tmr_aggregater = ((False, False), (False, False)), tmr_qosm1 = ((False, False), (False, False))\<rparr>"

abbreviation (input) some_locals :: locals where
  "some_locals \<equiv> \<lparr>lo_addr = 0, lo_topic = \<lparr>topic_type = MQTTSN_TOPIC_TYPE_NORMAL, topic_data = Topic_id 0\<rparr>\<rparr>"

lemma demo_active: "direct_client \<lparr>sna_portNo = 9, sna_IpAddr = 7\<rparr> 1 (demo_client Cstat_Active) (demo_gateway (demo_client Cstat_Active))"
  by (rule demo_direct) (simp_all add: demo_client_ok, simp_all add: demo_client_def Client_new_def)

theorem gateway_delivers_publish_witness:
  "\<exists>g1 g2 g3. BrokerRecvTask_client stream_recv [50, 9, 0, 3, 97, 47, 98, 0, 5, 104, 105] 1 (demo_gateway (demo_client Cstat_Active)) = Some ([], g1) \<and>
    PacketHandleTask_round no_timers some_locals g1 = Some (True, g2) \<and>
    ClientSendTask_round g2 = Some (Some (Unicast \<lparr>sna_portNo = 9, sna_IpAddr = 7\<rparr> [9, 12, 32, 0, 1, 0, 5, 104, 105]), g3)"
proof -
  let ?topic = "\<lparr>topic_type = MQTTSN_TOPIC_TYPE_NORMAL, topic_data = Topic_id 1\<rparr>"
  have n: "topic_to (demo_client Cstat_Active) [97, 47, 98] = Some ?topic" and a: "isActive (demo_client Cstat_Active) \<or> isAwake (demo_client Cstat_Active)"
    by code_simp+
  have k: "sn_topic_ok ?topic 1"
    by (simp add: sn_topic_ok_def long_topic_def)
  have w: "publish_wire (0, 1, 0, 5, wire_string [97, 47, 98], Some [104, 105], int (length [104 :: byte, 105])) = [50, 9, 0, 3, 97, 47, 98, 0, 5, 104, 105]"
    and b: "sn_frame (snpublish_body (take_bit 1 0, 1, take_bit 1 0, if 0 < (1 :: int) then 5 else 0, ?topic, Some [104, 105], int (length [104 :: byte, 105]))) =
      [9, 12, 32, 0, 1, 0, 5, 104, 105]"
    by code_simp+
  have s: "cl_sensorNetAddr (demo_client Cstat_Active) = \<lparr>sna_portNo = 9, sna_IpAddr = 7\<rparr>"
    by (simp add: demo_client_def)
  show ?thesis
    using gateway_delivers_publish [OF demo_active a n k, of "[104, 105]" 0 0 5 "[]" no_timers some_locals] unfolding w b s by simp
qed

subsection \<open>Acknowledgements of the broker\<close>

lemma get_ack_packet:
  assumes "header_type h \<in> {4, 5, 6, 7, 11}"
  shows "get_ack \<lparr>gp_header = h, gp_remainingLength = 2, gp_data = Some (be16 (uint msgId))\<rparr> = Some msgId"
proof -
  have u: "uint msgId < 65536"
    using uint_range_size [of msgId] by (simp add: word_size)
  have "GW_getType \<lparr>gp_header = h, gp_remainingLength = 2, gp_data = Some (be16 (uint msgId))\<rparr> \<in> {4, 5, 6, 7, 11}"
    using assms by (auto simp: GW_getType_def)
  then show ?thesis
    using readInt_be16 [of "uint msgId" 0 "[]"] u by (simp add: get_ack_def filled_def GW_getAck_def)
qed

lemma broker_ack_handled:
  assumes "direct_client addr c cl g" "header_type h \<in> {2, 3, 4, 5, 6, 7, 9, 11, 13}"
    "handle_broker_packet c \<lparr>gp_header = h, gp_remainingLength = 2, gp_data = Some (be16 (uint msgId))\<rparr> g = Some g'"
  shows "\<exists>g1. BrokerRecvTask_client stream_recv (h # 2 # be16 (uint msgId) @ rest) c g = Some (rest, g1) \<and> PacketHandleTask_round tm lo g1 = Some (True, g')"
proof -
  have "varint 2 = [2]" "be16 (uint msgId) \<noteq> []"
    by (code_simp, simp add: be16_def)
  then show ?thesis
    using broker_packet_handled [OF assms(1) _ assms(2), of "be16 (uint msgId)" g' rest tm lo] assms(3) by simp
qed

lemma SN_setPUBACK_eq: "SN_setPUBACK i msgId rc = Some (SN_frame (topic_ack_body MQTTSN_PUBACK (i, msgId, rc)))"
  using snpuback.gateway_setter [where a = "(i, msgId, rc)" and n = 7] len_topic_ack [of MQTTSN_PUBACK "(i, msgId, rc)"]
  by (simp add: SN_setPUBACK_def sn_frame_def sn_len_field_def MQTTSNPacket_len_def)


lemma handle_puback:
  assumes "direct_client addr c cl g" "header_type h = 4" "waited (cl_waitedPubTopicIdMap cl) msgId = Some (i, ty)"
  shows "handle_broker_packet c \<lparr>gp_header = h, gp_remainingLength = 2, gp_data = Some (be16 (uint msgId))\<rparr> g =
    Some (post_clientSend (EtClientSend c (SN_frame (topic_ack_body MQTTSN_PUBACK (i, msgId, 0)))) (gw_set c (eraseWaitedPubTopicId msgId cl) g))"
proof -
  note c = direct_clientD [OF assms(1)]
  obtain e where "getWaitedPubTopicId msgId cl = Some e" "tm_topicId e = i"
    using assms(3) by (auto simp: waited_def getWaitedPubTopicId_def)
  then show ?thesis
    using c(1,13) get_ack_packet [of h msgId] assms(2)
    by (simp add: handle_broker_packet_def transparent_broker_def Let_def GW_handlePuback_def SN_setPUBACK_eq del: topic_ack_body.simps)
qed

text \<open>C19: The acknowledgement comes back. When the broker acknowledges a QoS 1 message of a client, the client gets a PUBACK with the topic it published under, the message identifier and the code for acceptance, and the
  message is not remembered any more. An identifier that is not waited for is dropped without an answer.\<close>

theorem gateway_returns_puback:
  assumes "direct_client addr c cl g" "header_type h = 4"
  shows "\<exists>g1 g2 d g3 cl'. BrokerRecvTask_client stream_recv (h # 2 # be16 (uint msgId) @ rest) c g = Some (rest, g1) \<and>
    PacketHandleTask_round tm lo g1 = Some (True, g2) \<and>
    (case waited (cl_waitedPubTopicIdMap cl) msgId of
       None \<Rightarrow> g2 = g
     | Some (i, ty) \<Rightarrow>
         ClientSendTask_round g2 = Some (Some (Unicast (cl_sensorNetAddr cl) (sn_frame (topic_ack_body MQTTSN_PUBACK (i, msgId, 0)))), g3) \<and>
         gw_client c g3 = Some cl' \<and> waited (cl_waitedPubTopicIdMap cl') = (waited (cl_waitedPubTopicIdMap cl))(msgId := None))"
proof (cases "waited (cl_waitedPubTopicIdMap cl) msgId")
  case None
  note c = direct_clientD [OF assms(1)]
  have "handle_broker_packet c \<lparr>gp_header = h, gp_remainingLength = 2, gp_data = Some (be16 (uint msgId))\<rparr> g = Some g"
    using c(1,13) get_ack_packet [of h msgId] assms(2) None
    by (simp add: handle_broker_packet_def transparent_broker_def Let_def GW_handlePuback_def waited_def getWaitedPubTopicId_def)
  then show ?thesis
    using broker_ack_handled [OF assms(1), of h msgId g rest tm lo] assms(2) None by auto
next
  case (Some e)
  obtain i ty where e: "e = (i, ty)"
    by force
  note c = direct_clientD [OF assms(1)]
  let ?sn = "topic_ack_body MQTTSN_PUBACK (i, msgId, 0)"
  let ?g = "post_clientSend (EtClientSend c (SN_frame ?sn)) (gw_set c (eraseWaitedPubTopicId msgId cl) g)"
  have "\<exists>g1. BrokerRecvTask_client stream_recv (h # 2 # be16 (uint msgId) @ rest) c g = Some (rest, g1) \<and> PacketHandleTask_round tm lo g1 = Some (True, ?g)"
    using broker_ack_handled [OF assms(1), of h msgId ?g rest tm lo] assms(2) handle_puback [OF assms Some [unfolded e]] by simp
  moreover have "ClientSendTask_round ?g = Some (Some (Unicast (cl_sensorNetAddr (eraseWaitedPubTopicId msgId cl)) (sn_frame ?sn)), ?g\<lparr>gw_clientSendQue := []\<rparr>)"
    by (rule send_to_client) (use c(1,5,9) assms(1) in \<open>auto simp: direct_client_def idle_client_def eraseWaitedPubTopicId_def\<close>)
  moreover have "getElement (cl_waitedPubTopicIdMap cl) msgId \<noteq> None" "topicidmap_ok (cl_waitedPubTopicIdMap cl)"
    using Some c(10) by (auto simp: waited_def client_ok_def)
  ultimately show ?thesis
    using TopicIdMap_erase_present(2) [of "cl_waitedPubTopicIdMap cl" msgId] c(1)
    by (auto simp: Some e eraseWaitedPubTopicId_def simp del: topic_ack_body.simps)
qed


theorem gateway_returns_puback_witness:
  "\<exists>g1 g2 d g3 cl'. BrokerRecvTask_client stream_recv [64, 2, 0, 5] 1 (demo_gateway (setWaitedPubTopicId 5 1 MQTTSN_TOPIC_TYPE_NORMAL (demo_client Cstat_Active))) = Some ([], g1) \<and>
    PacketHandleTask_round no_timers some_locals g1 = Some (True, g2) \<and>
    ClientSendTask_round g2 = Some (Some (Unicast \<lparr>sna_portNo = 9, sna_IpAddr = 7\<rparr> [7, 13, 0, 1, 0, 5, 0]), g3) \<and>
    gw_client 1 g3 = Some cl' \<and> waited (cl_waitedPubTopicIdMap cl') = Map.empty"
proof -
  let ?cl = "setWaitedPubTopicId 5 1 MQTTSN_TOPIC_TYPE_NORMAL (demo_client Cstat_Active)"
  have d: "direct_client \<lparr>sna_portNo = 9, sna_IpAddr = 7\<rparr> 1 ?cl (demo_gateway ?cl)"
    by (rule demo_direct) (simp_all add: demo_client_ok client_keeps, simp_all add: setWaitedPubTopicId_def demo_client_def Client_new_def)
  have h: "header_type 64 = 4" and f: "sn_frame (topic_ack_body MQTTSN_PUBACK (1, 5, 0)) = [7, 13, 0, 1, 0, 5, 0]" and b: "be16 (uint (5 :: u16)) = [0, 5]"
    by code_simp+
  have w: "waited (cl_waitedPubTopicIdMap ?cl) = [5 \<mapsto> (1, MQTTSN_TOPIC_TYPE_NORMAL)]"
    by (simp add: setWaitedPubTopicId_def demo_client_def Client_new_def TopicIdMap_add_def TopicIdMap_init_def waited_def getElement_def fun_eq_iff Let_def)
  have s: "cl_sensorNetAddr ?cl = \<lparr>sna_portNo = 9, sna_IpAddr = 7\<rparr>"
    by (simp add: demo_client_def setWaitedPubTopicId_def)
  show ?thesis
    using gateway_returns_puback [OF d h, of 5 "[]" no_timers some_locals] unfolding w s b by (simp add: f del: topic_ack_body.simps)
qed

subsection \<open>Sleeping clients\<close>

lemma GW_assign_packet: "gp_data p = Some d \<Longrightarrow> gp_remainingLength p = int (length d) \<Longrightarrow> GW_assign p = Some p"
  by (simp add: GW_assign_def calloc_def memcpy_def)

text \<open>The acknowledgement that the gateway itself gives to the broker.\<close>

definition ack_packet :: "byte \<Rightarrow> u16 \<Rightarrow> MQTTGWPacket" where
  "ack_packet t msgId = \<lparr>gp_header = set_header_qos (if t = 6 then 1 else 0) (set_header_type t 0), gp_remainingLength = 2, gp_data = Some (be16 (uint msgId))\<rparr>"

lemma GW_setAck_eq: "GW_setAck p t msgId = Some (1, ack_packet t msgId)"
proof -
  have "writeInt ([0, 0], 0) (uint msgId) = Some (be16 (uint msgId), 2)"
    using writeInt_emit [of "[0, 0]" "[]" "uint msgId" Some] by (simp add: emit_def be16_def)
  then show ?thesis
    by (simp add: GW_setAck_def ack_packet_def calloc_def GW_clearData_def numeral_2_eq_2)
qed

lemma handle_publish_asleep:
  assumes "direct_client addr c cl g" "isSleep cl" "0 \<le> qos" "qos \<le> 2" "length name < 65536" "length payload < 2000000"
    "p = publish_packet (dup, qos, retained, msgId, wire_string name, Some payload, int (length payload))"
  shows "\<exists>g'. handle_broker_packet c p g = Some g' \<and>
    gw_brokerSendQue g' = (if qos = 0 then [] else [EtBrokerSend c (ack_packet (if qos = 1 then 4 else 5) msgId)]) \<and>
    gw_clientSendQue g' = [] \<and> gw_client c g' = Some (cl\<lparr>cl_clientSleepPacketQue :=
      (if length (cl_clientSleepPacketQue cl) < 20 then cl_clientSleepPacketQue cl @ [p] else cl_clientSleepPacketQue cl)\<rparr>)"
proof -
  note c = direct_clientD [OF assms(1)]
  obtain tp where pub: "get_publish p = Some \<lparr>gpub_header = publish_header dup qos retained, gpub_topic = tp, gpub_topiclen = int (length name),
      gpub_msgId = (if qos > 0 then uint msgId else 0), gpub_payload = Some payload, gpub_payloadlen = int (length payload)\<rparr>"
    using get_publish_packet [of qos name dup retained msgId payload] assms(3-5) by (simp add: assms(7) del: publish_packet.simps)
  have a: "GW_assign p = Some p"
    by (rule GW_assign_packet) (simp_all add: assms(7) Let_def del: publish_body.simps)
  have t: "header_type (gp_header p) = 3" "GW_getType p \<noteq> 0"
    by (simp_all add: assms(7) Let_def GW_getType_def publish_header_fields)
  have q: "header_qos (publish_header dup qos retained) = 1 \<longleftrightarrow> qos = 1" "header_qos (publish_header dup qos retained) = 2 \<longleftrightarrow> qos = 2"
    using assms(3,4) publish_header_fields(4) [of qos dup retained] by (simp_all add: word_uint_eq_iff)
  have h: "handle_broker_packet c p g = save_publish c p g"
    using c(1,13) t(1) assms(2) by (auto simp: handle_broker_packet_def transparent_broker_def Let_def GW_handlePublish_def isSleep_def isActive_def isAwake_def)
  show ?thesis
    unfolding h save_publish_def pub bind.bind_lunit reply_by_qos_def replyACK_def a GW_setAck_eq using c(1,8,9) t(2) assms(3,4) q
    by (auto simp: setClientSleepPacket_def Let_def)
qed


text \<open>C18: A PUBLISH for a client that sleeps is kept. The gateway acknowledges it to the broker itself (PUBACK for QoS 1, PUBREC for QoS 2), sends nothing to the client and appends the packet, unchanged, to the
  messages saved for the client; the twenty-first message is acknowledged as well, but lost.\<close>

theorem gateway_saves_for_sleeping:
  assumes "direct_client addr c cl g" "isSleep cl" "0 \<le> qos" "qos \<le> 2" "length name < 65536" "length payload < 2000000"
    "a = (dup, qos, retained, msgId, wire_string name, Some payload, int (length payload))"
  shows "\<exists>g1 g2. BrokerRecvTask_client stream_recv (publish_wire a @ rest) c g = Some (rest, g1) \<and> PacketHandleTask_round tm lo g1 = Some (True, g2) \<and>
    gw_brokerSendQue g2 = (if qos = 0 then [] else [EtBrokerSend c (ack_packet (if qos = 1 then 4 else 5) msgId)]) \<and>
    gw_clientSendQue g2 = [] \<and> gw_client c g2 = Some (cl\<lparr>cl_clientSleepPacketQue :=
      (if length (cl_clientSleepPacketQue cl) < 20 then cl_clientSleepPacketQue cl @ [publish_packet a] else cl_clientSleepPacketQue cl)\<rparr>)"
proof -
  have body: "publish_body a \<noteq> []" "length (publish_body a) < 2097152"
    using assms(5,6) by (simp_all add: assms(7) MQTTString_len cptr_holds_def lp_string_def) (simp add: be16_def)
  obtain g2 where g2: "handle_broker_packet c (publish_packet a) g = Some g2"
    "gw_brokerSendQue g2 = (if qos = 0 then [] else [EtBrokerSend c (ack_packet (if qos = 1 then 4 else 5) msgId)])"
    "gw_clientSendQue g2 = []" "gw_client c g2 = Some (cl\<lparr>cl_clientSleepPacketQue :=
      (if length (cl_clientSleepPacketQue cl) < 20 then cl_clientSleepPacketQue cl @ [publish_packet a] else cl_clientSleepPacketQue cl)\<rparr>)"
    using handle_publish_asleep [OF assms(1-6) refl, of dup retained msgId] unfolding assms(7) by blast
  have "\<exists>g1. BrokerRecvTask_client stream_recv (publish_wire a @ rest) c g = Some (rest, g1) \<and> PacketHandleTask_round tm lo g1 = Some (True, g2)"
    using broker_packet_handled [OF assms(1) body(2), of "publish_header dup qos retained" g2 rest tm lo] g2(1) body(1)
    by (simp add: assms(7) Let_def publish_header_fields del: publish_body.simps)
  then show ?thesis
    using g2(2-4) by blast
qed

lemma demo_asleep: "direct_client \<lparr>sna_portNo = 9, sna_IpAddr = 7\<rparr> 1 (demo_client Cstat_Asleep) (demo_gateway (demo_client Cstat_Asleep))"
  by (rule demo_direct) (simp_all add: demo_client_ok, simp_all add: demo_client_def Client_new_def)

theorem gateway_saves_for_sleeping_witness:
  "\<exists>g1 g2. BrokerRecvTask_client stream_recv [50, 9, 0, 3, 97, 47, 98, 0, 5, 104, 105] 1 (demo_gateway (demo_client Cstat_Asleep)) = Some ([], g1) \<and>
    PacketHandleTask_round no_timers some_locals g1 = Some (True, g2) \<and> gw_brokerSendQue g2 = [EtBrokerSend 1 (ack_packet 4 5)] \<and>
    gw_clientSendQue g2 = [] \<and> gw_client 1 g2 = Some ((demo_client Cstat_Asleep)\<lparr>cl_clientSleepPacketQue :=
      [\<lparr>gp_header = 50, gp_remainingLength = 9, gp_data = Some [0, 3, 97, 47, 98, 0, 5, 104, 105]\<rparr>]\<rparr>)"
proof -
  let ?a = "(0, 1, 0, 5, wire_string [97, 47, 98], Some [104, 105], int (length [104 :: byte, 105]))"
  have w: "publish_wire ?a = [50, 9, 0, 3, 97, 47, 98, 0, 5, 104, 105]" "isSleep (demo_client Cstat_Asleep)"
    "publish_packet ?a = \<lparr>gp_header = 50, gp_remainingLength = 9, gp_data = Some [0, 3, 97, 47, 98, 0, 5, 104, 105]\<rparr>"
    by code_simp+
  have q: "cl_clientSleepPacketQue (demo_client Cstat_Asleep) = []"
    by (simp add: demo_client_def Client_new_def)
  show ?thesis
    using gateway_saves_for_sleeping [OF demo_asleep w(2) _ _ _ _ refl, of 1 "[97, 47, 98]" "[104, 105]" 0 0 5 "[]" no_timers some_locals]
    unfolding w q by simp
qed

text \<open>PINGREQ of a sleeping client.\<close>

lemma sendStored_eq:
  "int (length (gw_packetEventQue g) + length (cl_clientSleepPacketQue cl)) \<le> 1000 \<Longrightarrow> sendStored_loop c cl g =
    (cl\<lparr>cl_clientSleepPacketQue := []\<rparr>, g\<lparr>gw_packetEventQue := gw_packetEventQue g @ map (EtBrokerRecv c) (cl_clientSleepPacketQue cl)\<rparr>)"
proof (induction "cl_clientSleepPacketQue cl" arbitrary: cl g)
  case Nil
  then show ?case
    by (subst sendStored_loop.simps) (simp add: getClientSleepPacket_def flip: Nil(1))
next
  case (Cons p ps)
  let ?g = "post_packetEvent (EtBrokerRecv c p) g" and ?cl = "deleteFirstClientSleepPacket cl"
  have d: "ps = cl_clientSleepPacketQue ?cl" "?cl\<lparr>cl_clientSleepPacketQue := []\<rparr> = cl\<lparr>cl_clientSleepPacketQue := []\<rparr>"
    using Cons(2) [symmetric] by (simp_all add: deleteFirstClientSleepPacket_def)
  have g: "gw_packetEventQue ?g = gw_packetEventQue g @ [EtBrokerRecv c p]"
    using Cons(2) [symmetric] Cons(3) by (simp add: post_packetEvent_def)
  have "sendStored_loop c cl g = sendStored_loop c ?cl ?g"
    by (subst sendStored_loop.simps) (simp add: getClientSleepPacket_def flip: Cons(2))
  also have "\<dots> = (?cl\<lparr>cl_clientSleepPacketQue := []\<rparr>, ?g\<lparr>gw_packetEventQue := gw_packetEventQue ?g @ map (EtBrokerRecv c) (cl_clientSleepPacketQue ?cl)\<rparr>)"
    by (rule Cons(1) [OF d(1)]) (use g Cons(2) [symmetric] Cons(3) in \<open>simp flip: d(1)\<close>)
  finally show ?case
    using g d by (simp add: post_packetEvent_def flip: Cons(2))
qed


lemma handle_pingreq:
  assumes "direct_client addr c cl g" "isSleep cl" "SN_getType packet = Some 22"
  shows "\<exists>g'. handle_client_packet lo c packet g = Some g' \<and> gw_clientSendQue g' = [] \<and>
    gw_packetEventQue g' = map (EtBrokerRecv c) (cl_clientSleepPacketQue cl) \<and>
    gw_brokerSendQue g' = (if cl_clientSleepPacketQue cl = [] then [EtBrokerSend c (snd (GW_setHeader GW_new 12))] else []) \<and>
    gw_client c g' = Some (cl\<lparr>cl_clientSleepPacketQue := [], cl_holdPingRequest := cl_clientSleepPacketQue cl \<noteq> [], cl_status := Cstat_Awake\<rparr>)"
proof -
  note c = direct_clientD [OF assms(1)]
  have u: "updateStatus packet cl' = Some (cl'\<lparr>cl_status := Cstat_Awake\<rparr>)" if "cl_status cl' = Cstat_Asleep" for cl'
    using assms(3) that by (simp add: updateStatus_def updateStatus_sleeping_def)
  have h: "handle_client_packet lo c packet g = do { g \<leftarrow> SN_handlePingreq c g; cl \<leftarrow> gw_client c g; cl \<leftarrow> updateStatus packet cl; Some (gw_set c cl g) }"
    using c(1,3) assms(3) by (simp add: handle_client_packet_def isAggregatedClient_def transparent_client_def)
  have s: "cl_status cl = Cstat_Asleep"
    using assms(2) by (simp add: isSleep_def)
  show ?thesis
  proof (cases "cl_clientSleepPacketQue cl = []")
    case True
    have "SN_handlePingreq c g = Some (send_pingreq c cl g)"
      using c(1) True by (simp add: SN_handlePingreq_def getClientSleepPacket_def)
    then show ?thesis
      using c(1,7-9) s True by (auto simp: h u send_pingreq_def)
  next
    case False
    let ?g = "g\<lparr>gw_packetEventQue := map (EtBrokerRecv c) (cl_clientSleepPacketQue cl)\<rparr>"
    have "sendStored_loop c cl g = (cl\<lparr>cl_clientSleepPacketQue := []\<rparr>, ?g)"
      using sendStored_eq [of g cl c] c(7,10) by (simp add: client_ok_def)
    then have "SN_handlePingreq c g = Some (gw_set c (cl\<lparr>cl_clientSleepPacketQue := [], cl_holdPingRequest := True\<rparr>) (gw_set c (cl\<lparr>cl_clientSleepPacketQue := []\<rparr>) ?g))"
      using c(1) assms(2) False by (auto simp: SN_handlePingreq_def getClientSleepPacket_def sendStoredPublish_def neq_Nil_conv)
    then show ?thesis
      using c(1,7-9) s False by (auto simp: h u)
  qed
qed

text \<open>C17: A client that wakes up gets its messages. PINGREQ from a sleeping client makes it awake. If messages were saved, all of them are put into the queue of packets in the order in which they came, nothing stays saved,
  and the PINGREQ is held back: none goes to the broker. If none were saved, the PINGREQ goes to the broker.\<close>

theorem gateway_wakes_client:
  assumes "direct_client addr c cl g" "isSleep cl" "frame_ok (22 # clientId)"
  shows "\<exists>g1 g2. ClientRecvTask_round addr (SN_frame (22 # clientId)) g = Some g1 \<and> PacketHandleTask_round tm lo g1 = Some (True, g2) \<and>
    gw_clientSendQue g2 = [] \<and> gw_packetEventQue g2 = map (EtBrokerRecv c) (cl_clientSleepPacketQue cl) \<and>
    gw_brokerSendQue g2 = (if cl_clientSleepPacketQue cl = [] then [EtBrokerSend c (snd (GW_setHeader GW_new 12))] else []) \<and>
    gw_client c g2 = Some (cl\<lparr>cl_clientSleepPacketQue := [], cl_holdPingRequest := cl_clientSleepPacketQue cl \<noteq> [], cl_status := Cstat_Awake\<rparr>)"
proof -
  have t: "SN_getType (SN_frame (22 # clientId)) = Some 22"
    using SN_getType_frame [OF assms(3)] by simp
  obtain g2 where g2: "handle_client_packet lo c (SN_frame (22 # clientId)) g = Some g2" "gw_clientSendQue g2 = []"
    "gw_packetEventQue g2 = map (EtBrokerRecv c) (cl_clientSleepPacketQue cl)"
    "gw_brokerSendQue g2 = (if cl_clientSleepPacketQue cl = [] then [EtBrokerSend c (snd (GW_setHeader GW_new 12))] else [])"
    "gw_client c g2 = Some (cl\<lparr>cl_clientSleepPacketQue := [], cl_holdPingRequest := cl_clientSleepPacketQue cl \<noteq> [], cl_status := Cstat_Awake\<rparr>)"
    using handle_pingreq [OF assms(1,2) t, of lo] by blast
  then show ?thesis
    using client_packet_handled [OF assms(1,3) _ _ g2(1), of tm] by auto
qed

theorem gateway_wakes_client_witness:
  "\<exists>g1 g2. ClientRecvTask_round \<lparr>sna_portNo = 9, sna_IpAddr = 7\<rparr> (SN_frame [22]) (demo_gateway ((demo_client Cstat_Asleep)\<lparr>cl_clientSleepPacketQue := [GW_new]\<rparr>)) = Some g1 \<and>
    PacketHandleTask_round no_timers some_locals g1 = Some (True, g2) \<and> gw_clientSendQue g2 = [] \<and>
    gw_packetEventQue g2 = [EtBrokerRecv 1 GW_new] \<and> gw_brokerSendQue g2 = []"
proof -
  let ?cl = "(demo_client Cstat_Asleep)\<lparr>cl_clientSleepPacketQue := [GW_new]\<rparr>"
  have "client_ok ?cl"
    by (intro client_ok_queue) (simp_all add: demo_client_ok)
  then have d: "direct_client \<lparr>sna_portNo = 9, sna_IpAddr = 7\<rparr> 1 ?cl (demo_gateway ?cl)"
    by (rule demo_direct) (simp_all add: demo_client_def Client_new_def)
  have "isSleep ?cl" "frame_ok [22]"
    by (simp_all add: isSleep_def demo_client_def frame_ok_def)
  then show ?thesis
    using gateway_wakes_client [OF d, of "[]" no_timers some_locals] by auto
qed

end
