(* ===== verification/MQTTSNGW_Sessions.thy ===== *)
theory MQTTSNGW_Sessions
  imports MQTTSNGW_Deliver MQTTSNGW_Connect
begin

text \<open>
  Sessions and topics of clients over the whole path: CONNECT and CONNACK (\<^verbatim>\<open>MQTTSNGWConnectionHandler.cpp\<close>, \<^verbatim>\<open>MQTTGWConnectionHandler.cpp\<close>), registration of topics by the client and by the gateway
  (\<^verbatim>\<open>MQTTSNGWPublishHandler.cpp\<close>, \<^verbatim>\<open>MQTTGWPublishHandler.cpp\<close>), and what happens at the edges: full tables, unknown topics, long identifiers.
\<close>

subsection \<open>CONNECT\<close>

definition broker_options :: "byte list \<Rightarrow> MQTTSNPacket_connectData \<Rightarrow> Gateway \<Rightarrow> MQTTPacket_connectData" where
  "broker_options i data g =
     (let login = gw_loginId g \<noteq> None \<and> gw_password g \<noteq> None
      in MQTTPacket_connectData_initializer
        \<lparr>cd_MQTTVersion := gw_mqttVersion g, cd_clientID := MQTTString_c i, cd_keepAliveInterval := snc_duration data,
         cd_cleansession := take_bit 1 (snc_cleansession data), cd_willFlag := 0,
         cd_username := (if login then MQTTString_c (the (gw_loginId g)) else MQTTString_initializer),
         cd_password := (if login then MQTTString_c (the (gw_password g)) else MQTTString_initializer)\<rparr>)"

lemma connect_data_fields:
  assumes "snc_willFlag data = 0" "snc_cleansession data = take_bit 1 s"
  shows "flags_will (gc_flags (connect_data data cl g)) = 0" "flags_willQoS (gc_flags (connect_data data cl g)) = 0"
    "flags_willRetain (gc_flags (connect_data data cl g)) = 0" "\<not> bit (gc_flags (connect_data data cl g)) 0"
    "flags_cleansession (gc_flags (connect_data data cl g)) = take_bit 1 s"
    "flags_username (gc_flags (connect_data data cl g)) = (if gw_loginId g \<noteq> None \<and> gw_password g \<noteq> None then 1 else 0)"
    "flags_password (gc_flags (connect_data data cl g)) = (if gw_loginId g \<noteq> None \<and> gw_password g \<noteq> None then 1 else 0)"
proof -
  have "s mod 2 = 0 \<or> s mod 2 = 1"
    by (metis not_mod_2_eq_1_eq_0)
  moreover have "flags_will f = 0 \<and> flags_willQoS f = 0 \<and> flags_willRetain f = 0 \<and> \<not> bit f 0 \<and> flags_cleansession f = a \<and> flags_username f = b \<and> flags_password f = b"
    if "(f, a, b) \<in> {(0, 0, 0), (2, 1, 0), (0xC0, 0, 1), (0xC2, 1, 1)}" for f a b :: byte
    using that by (elim insertE emptyE) (simp_all, code_simp+)
  moreover have "gc_flags (connect_data data cl g) = (if s mod 2 = 0 then 0 else 2) + (if gw_loginId g \<noteq> None \<and> gw_password g \<noteq> None then 0xC0 else 0)"
  proof -
    have "set_flags_will (bit_of 0) 0 = 0" "set_flags_username 1 (set_flags_password 1 0) = 0xC0" "set_flags_cleansession 1 0 = 2"
      "set_flags_cleansession 1 0xC0 = 0xC2"
      by code_simp+
    then show ?thesis
      using assms by (simp add: connect_data_def Let_def)
  qed
  ultimately show "flags_will (gc_flags (connect_data data cl g)) = 0" "flags_willQoS (gc_flags (connect_data data cl g)) = 0"
    "flags_willRetain (gc_flags (connect_data data cl g)) = 0" "\<not> bit (gc_flags (connect_data data cl g)) 0"
    "flags_cleansession (gc_flags (connect_data data cl g)) = take_bit 1 s"
    "flags_username (gc_flags (connect_data data cl g)) = (if gw_loginId g \<noteq> None \<and> gw_password g \<noteq> None then 1 else 0)"
    "flags_password (gc_flags (connect_data data cl g)) = (if gw_loginId g \<noteq> None \<and> gw_password g \<noteq> None then 1 else 0)"
    by auto
qed


text \<open>What the handler needs of the configuration and of the client.\<close>

definition broker_config :: "Gateway \<Rightarrow> bool" where
  "broker_config g \<longleftrightarrow> gw_mqttVersion g \<in> {3, 4} \<and>
     (\<forall>l p. gw_loginId g = Some l \<longrightarrow> gw_password g = Some p \<longrightarrow> length l < 65536 \<and> length p < 65536)"

definition connectable :: "Client \<Rightarrow> Gateway \<Rightarrow> bool" where
  "connectable cl g \<longleftrightarrow> \<not> isSleep cl \<and> \<not> isAwake cl \<and> broker_config g \<and>
     (case cl_clientId cl of None \<Rightarrow> False | Some i \<Rightarrow> length i < 65536)"

lemma GW_setCONNECT_for:
  assumes "connectable cl g" "cl_clientId cl = Some i" "snc_willFlag data = 0" "snc_cleansession data = take_bit 1 s"
  shows "\<exists>q. GW_setCONNECT GW_new (connect_data data cl g) (gw_loginId g) (gw_password g) = Some (1, q) \<and> header_type (gp_header q) = 1 \<and>
    gp_remainingLength q = int (length (connect_body (broker_options i (data\<lparr>snc_cleansession := s\<rparr>) g))) \<and>
    gp_data q = Some (connect_body (broker_options i (data\<lparr>snc_cleansession := s\<rparr>) g)) \<and> gp_header q = set_header_type 1 0"
proof -
  note f = connect_data_fields [OF assms(3,4), of cl g]
  have d: "gc_header (connect_data data cl g) = set_header_type 1 0" "gc_version (connect_data data cl g) = gw_mqttVersion g"
    "gc_keepAliveTimer (connect_data data cl g) = uint (snc_duration data)" "gc_clientID (connect_data data cl g) = Some i"
    using assms(2) by (simp_all add: connect_data_def Let_def)
  have "uint (snc_duration data) < 65536"
    using uint_range_size [of "snc_duration data"] by (simp add: word_size)
  then have ok: "GW_connect_ok (connect_data data cl g) (gw_loginId g) (gw_password g)"
    using assms(1,2) unfolding GW_connect_ok_def f d connectable_def broker_config_def GW_string_ok_def by (auto simp: f(4))
  have "GW_connect_data (connect_data data cl g) (gw_loginId g) (gw_password g) = broker_options i (data\<lparr>snc_cleansession := s\<rparr>) g"
    unfolding GW_connect_data_def f d GW_string_def broker_options_def Let_def
    by (simp add: MQTTPacket_connectData_initializer_def MQTTPacket_willOptions_initializer_def)
  then show ?thesis
    using GW_setCONNECT_eq [OF ok, of GW_new] by (simp add: header_defs field_simps)
qed


lemma SN_getCONNECT_frame:
  assumes "snconnect_ok options"
  shows "\<exists>data. SN_getCONNECT out (SN_frame (snconnect_body options)) = Some (1, data) \<and> snc_cleansession data = take_bit 1 (snc_cleansession options) \<and>
    snc_willFlag data = take_bit 1 (snc_willFlag options) \<and> snc_duration data = snc_duration options"
  using snconnect.reads [OF assms, of "int (length (sn_frame (snconnect_body options)))" out "[]"]
  by (auto simp: SN_getCONNECT_def SN_frame_def snconnect_view_def snconnect_val_def)

text \<open>The identifier of a client that is not known yet: it is copied from the datagram.\<close>

abbreviation (input) received_id :: "byte list \<Rightarrow> MQTTSNString" where
  "received_id i \<equiv> \<lparr>sn_cstring = None, sn_lenstring = \<lparr>snls_len = int (length i), snls_data = Some i\<rparr>\<rparr>"

lemma SN_getCONNECT_id:
  assumes "snconnect_ok options" "MQTTSNString_bytes (snc_clientID options) = i" "i \<noteq> []"
  shows "\<exists>data. SN_getCONNECT MQTTSNPacket_connectData_initializer (SN_frame (snconnect_body options)) = Some (1, data) \<and> snc_clientID data = received_id i"
proof -
  let ?b = "snconnect_body options"
  have f: "frame_ok ?b"
    using assms(1) by (simp add: snconnect_ok_def)
  have s: "sn_begin (Some 0) (sn_frame ?b) (int (length (sn_frame ?b))) = Some (sn_lenlen ?b, (sn_lenlen ?b, ?b), sn_lenlen ?b + int (length ?b))"
    using sn_begin_frame [OF f order_refl, of "Some 0" "[]"] by simp
  show ?thesis
    unfolding SN_getCONNECT_def SN_frame_def MQTTSNDeserialize_connect_def MQTTSNPacket.simps bind.bind_lunit s prod.case fst_conv
    using assms(2,3) by (simp add: snconnect_body_def read_simps readMQTTSNString_def Let_def MQTTSNPacket_connectData_initializer_def MQTTSNString_initializer_def)
qed

lemma save_received_id:
  assumes "0 \<notin> set i" "i \<noteq> []"
  shows "save_string (received_id i) = Some i"
proof -
  have "takeWhile (\<lambda>b. b \<noteq> 0) (i @ [0]) = i"
    using assms(1) by (induction i) auto
  moreover have "nat (int (length i) + 1) = Suc (length i)"
    by simp
  moreover have "drop (length i) (0 # replicate (length i) 0) = [0 :: byte]"
    using replicate_append_same [of "length i" "0 :: byte"] by (simp flip: replicate_append_same)
  ultimately show ?thesis
    using assms(2) by (simp add: save_string_def MQTTSNstrlen_def calloc_def writeMQTTSNString_def write_mem_def memcpy_def c_str_def)
qed

lemma find_append_None: "find P xs = None \<Longrightarrow> find P (xs @ ys) = find P ys"
  by (induction xs) (auto split: if_splits)

text \<open>A client that the gateway does not know: no client has its address, and no identifier of a client begins with its own, for that is how \<open>getClient\<close> compares them. The list of clients
  has room.\<close>

definition newcomer :: "SensorNetAddress \<Rightarrow> byte list \<Rightarrow> Gateway \<Rightarrow> bool" where
  "newcomer addr i g \<longleftrightarrow> gw_ok g \<and> getClient_addr (Some addr) (gw_clientList g) = None \<and> length (cll_clients (gw_clientList g)) \<le> 100 \<and>
     (\<forall>c\<in>set (cll_clients (gw_clientList g)). \<exists>s. cl_clientId (snd c) = Some s \<and> 0 \<notin> set s \<and> take (length i) s \<noteq> i) \<and>
     i \<noteq> [] \<and> 0 \<notin> set i \<and> length i \<le> 64 \<and> \<not> ad_isActive (gw_aggregater g) \<and> \<not> ad_isActive (gw_qosm1Proxy g) \<and>
     gw_packetEventQue g = [] \<and> gw_brokerSendQue g = [] \<and> gw_clientSendQue g = []"

definition created :: "SensorNetAddress \<Rightarrow> byte list \<Rightarrow> Client" where
  "created addr i = (Client_new False)\<lparr>cl_sensorNetAddr := addr, cl_sensorNetype := False, cl_clientId := Some i\<rparr>"

lemma receive_newcomer:
  assumes "newcomer addr i g" "snconnect_ok options" "MQTTSNString_bytes (snc_clientID options) = i"
    and "g' = g\<lparr>gw_clientList := add_client (created addr i) (gw_clientList g)\<rparr>" "c = cll_new (gw_clientList g)"
  shows "ClientRecvTask_round addr (SN_frame (snconnect_body options)) g = Some (post_packetEvent (EtClientRecv c (SN_frame (snconnect_body options))) g')"
    and "idle_client addr c (created addr i) g'"
proof -
  let ?p = "SN_frame (snconnect_body options)" and ?l = "gw_clientList g"
  have n: "clients_ok ?l" "cll_ok ?l" "getClient_addr (Some addr) ?l = None" "length (cll_clients ?l) \<le> 100" "i \<noteq> []" "0 \<notin> set i" "length i \<le> 64"
    "\<not> ad_isActive (gw_aggregater g)" "\<not> ad_isActive (gw_qosm1Proxy g)"
    using assms(1) by (simp_all add: newcomer_def gw_ok_def clients_ok_def)
  have f: "frame_ok (snconnect_body options)"
    using assms(2) by (simp add: snconnect_ok_def)
  have ty: "SN_getType ?p = Some 4"
    using SN_getType_frame [OF f] by (simp add: snconnect_body_def)
  have len: "\<not> spk_bufLen ?p < 2"
    using f by (auto simp: SN_frame_def sn_frame_def sn_len_field_def frame_ok_def Suc_le_eq numeral_2_eq_2)
  obtain data where data: "SN_getCONNECT MQTTSNPacket_connectData_initializer ?p = Some (1, data)" "snc_clientID data = received_id i"
    using SN_getCONNECT_id [OF assms(2,3) n(5)] by blast
  have "find (\<lambda>c. take (length i) (the (cl_clientId (snd c))) = i) (cll_clients ?l) = None"
    using assms(1) by (auto simp: find_None_iff newcomer_def)
  then have "getClient_id (received_id i) ?l = Some None"
    using getClient_id_find [of "cll_clients ?l" i "[]"] assms(1) n(6) by (fastforce simp: getClient_id_def MQTTSNstrlen_def newcomer_def)
  moreover have "\<not> cll_clientCnt ?l > MAX_CLIENTS"
    using cll_count_full [OF n(2)] n(4) by simp
  then have "createClient3 (Some addr) (received_id i) (recv_type g) ?l = Some (Some c, add_client (created addr i) ?l)"
    using n save_received_id [OF n(6,5)]
    by (simp add: createClient3_def createClient_def MQTTSNstrlen_def setClientId_def recv_type_def isAggregaterActive_def created_def assms(5))
  moreover have "log_clientId (received_id i) = Some ()"
    using n(7) by (simp add: log_clientId_def)
  ultimately have "connect_new addr None nodeId ?p g = Some (post_packetEvent (EtClientRecv c ?p) g')" for nodeId
    using data by (simp add: connect_new_def connect_direct_def assms(4))
  then show "ClientRecvTask_round addr ?p g = Some (post_packetEvent (EtClientRecv c ?p) g')"
    using ty len n(3,9) by (simp add: ClientRecvTask_round_def)
  have "client_ok (created addr i)"
    by (simp add: client_ok_def created_def Client_new_def topicidmap_ok_def TopicIdMap_init_def topics_ok_init)
  then have "clients_ok (add_client (created addr i) ?l)"
    using add_client_keeps [OF n(1)] cll_count_full [OF n(2)] n(4) by simp
  then have "gw_ok g'"
    using assms(1,4) by (simp add: newcomer_def gw_ok_def)
  moreover have "gw_client c g' = Some (created addr i)"
    using add_client_ok(2) [OF n(2,4), of "created addr i"] by (simp add: gw_client_def assms(4,5) created_def)
  moreover have "getClient_addr (Some addr) (gw_clientList g') = Some c"
    using n(3) by (simp add: getClient_addr_def assms(4,5) add_client_def find_append_None created_def sna_isMatch_def)
  ultimately show "idle_client addr c (created addr i) g'"
    using assms(1) by (simp add: idle_client_def newcomer_def assms(4) created_def Client_new_def)
qed

lemma gw_network_fields [simp]:
  "gw_client c (network_close d g) = gw_client c g" "gw_brokerSendQue (network_close d g) = gw_brokerSendQue g"
  by (simp_all add: network_close_def gw_client_def)

lemma send_connect_to_broker:
  assumes "gw_brokerSendQue g = [EtBrokerSend c packet]" "gw_client c g = Some cl" "cl_clientType cl = Ctype_Regular"
    "GW_ok packet" "length (GW_wire packet) \<le> 1024" "header_type (gp_header packet) = 1" "written (GW_wire packet) > 0"
  shows "\<exists>g'. BrokerSendTask_round True written g = Some (Some (c, GW_wire packet), g') \<and> gw_client c g' = Some (connectSended cl) \<and> gw_network g' c"
  using assms
  by (auto simp: BrokerSendTask_round_def broker_send_def AdapterManager_getClient_def isQoSm1_def isAggregated_def GW_send_eq Let_def network_close_def)

lemma clean_session_fields [simp]:
  "cl_status (clean_session cl) = cl_status cl" "cl_clientId (clean_session cl) = cl_clientId cl" "cl_sensorNetAddr (clean_session cl) = cl_sensorNetAddr cl"
  "cl_clientType (clean_session cl) = cl_clientType cl" "cl_connectData (clean_session cl) = cl_connectData cl"
  by (simp_all add: clean_session_def clearWaitedSubTopicId_def clearWaitedPubTopicId_def Let_def)

lemma handle_connect:
  assumes "idle_client addr c cl g" "connectable cl g" "cl_clientId cl = Some i" "snconnect_ok options" "take_bit 1 (snc_willFlag options) = 0"
  shows "\<exists>q g' cl'. handle_client_packet lo c (SN_frame (snconnect_body options)) g = Some g' \<and> gw_brokerSendQue g' = [EtBrokerSend c q] \<and>
    gw_client c g' = Some cl' \<and> cl_clientType cl' = Ctype_Regular \<and> cl_clientId cl' = Some i \<and> cl_sensorNetAddr cl' = cl_sensorNetAddr cl \<and>
    header_type (gp_header q) = 1 \<and>
    (length (connect_wire (broker_options i options g)) \<le> 1024 \<longrightarrow> GW_ok q \<and> GW_wire q = connect_wire (broker_options i options g))"
proof -
  let ?p = "SN_frame (snconnect_body options)"
  note c = idle_clientD [OF assms(1)]
  obtain data where data: "\<And>out. SN_getCONNECT MQTTSNPacket_connectData_initializer ?p = Some (1, data)" "snc_cleansession data = take_bit 1 (snc_cleansession options)"
    "snc_willFlag data = 0" "snc_duration data = snc_duration options"
    using SN_getCONNECT_frame [OF assms(4)] assms(5) by metis
  have b: "broker_options i (data\<lparr>snc_cleansession := snc_cleansession options\<rparr>) g = broker_options i options g"
    by (simp add: broker_options_def data(4))
  obtain q where q: "GW_setCONNECT GW_new (connect_data data (disconnected cl) g) (gw_loginId g) (gw_password g) = Some (1, q)" "header_type (gp_header q) = 1"
    "gp_remainingLength q = int (length (connect_body (broker_options i options g)))" "gp_data q = Some (connect_body (broker_options i options g))"
    "gp_header q = set_header_type 1 0"
    using GW_setCONNECT_for [of "disconnected cl" g i data "snc_cleansession options"] assms(2,3) data
    by (auto simp: b connectable_def disconnected_def isSleep_def isAwake_def)
  define cl1 where "cl1 = (let cl1 = (disconnected cl)\<lparr>cl_connectData := connect_data data (disconnected cl) g, cl_sessionStatus := False\<rparr>
    in if snc_cleansession data \<noteq> 0 then clean_session cl1 else cl1)"
  have t: "SN_getType ?p = Some 4"
    using SN_getType_frame [of "snconnect_body options"] assms(4) by (simp add: snconnect_ok_def snconnect_body_def)
  have cd: "cl_connectData cl1 = connect_data data (disconnected cl) g" "cl_status cl1 = Cstat_Disconnected" "cl_clientType cl1 = Ctype_Regular" "cl_clientId cl1 = Some i"
    "cl_sensorNetAddr cl1 = cl_sensorNetAddr cl"
    using c(6) assms(3) by (auto simp: cl1_def Let_def disconnected_def)
  have h: "SN_handleConnect c ?p g = Some (post_brokerSend (EtBrokerSend c q) (gw_set c cl1 g))"
    using c(1,15) assms(2) data q(1) cd(1) by (simp add: SN_handleConnect_def connectable_def cl1_def Let_def del: snconnect.frame) (simp add: gw_set_def)
  obtain cl' where u: "updateStatus ?p cl1 = Some cl'" "cl_clientType cl' = Ctype_Regular" "cl_clientId cl' = Some i" "cl_sensorNetAddr cl' = cl_sensorNetAddr cl"
    using t cd data(1) by (auto simp: updateStatus_def setKeepAlive_def start_keepAlive_def)
  have "handle_client_packet lo c ?p g = Some (gw_set c cl' (post_brokerSend (EtBrokerSend c q) (gw_set c cl1 g)))"
    using c(1,3) t u(1) h by (simp add: handle_client_packet_def isAggregatedClient_def transparent_client_def)
  moreover have "GW_ok q \<and> GW_wire q = connect_wire (broker_options i options g)" if "length (connect_wire (broker_options i options g)) \<le> 1024"
    using that q by (auto simp: GW_ok_def GW_wire_def cptr_holds_def connect_wire_def)
  ultimately show ?thesis
    using c(1,8) u(2-4) q(2) by auto
qed


lemma queued_connect:
  assumes "idle_client addr c cl g" "connectable cl g" "cl_clientId cl = Some i" "snconnect_ok options" "take_bit 1 (snc_willFlag options) = 0"
    "wire = connect_wire (broker_options i options g)" "length wire \<le> 1024" "written wire > 0"
  shows "\<exists>g2 g3 cl'. PacketHandleTask_round tm lo (post_packetEvent (EtClientRecv c (SN_frame (snconnect_body options))) g) = Some (True, g2) \<and>
    BrokerSendTask_round True written g2 = Some (Some (c, wire), g3) \<and> gw_client c g3 = Some cl' \<and> isConnecting cl' \<and> cl_clientId cl' = Some i \<and>
    sna_isMatch (cl_sensorNetAddr cl') addr \<and> gw_network g3 c"
proof -
  note c = idle_clientD [OF assms(1)]
  obtain q g2 cl' where h: "handle_client_packet lo c (SN_frame (snconnect_body options)) g = Some g2" "gw_brokerSendQue g2 = [EtBrokerSend c q]"
    "gw_client c g2 = Some cl'" "cl_clientType cl' = Ctype_Regular" "header_type (gp_header q) = 1" "GW_ok q" "GW_wire q = wire"
    "cl_clientId cl' = Some i" "cl_sensorNetAddr cl' = cl_sensorNetAddr cl"
    using handle_connect [OF assms(1-5), of lo] assms(6,7) by auto
  obtain g3 where g3: "BrokerSendTask_round True written g2 = Some (Some (c, wire), g3)" "gw_client c g3 = Some (connectSended cl')" "gw_network g3 c"
    using send_connect_to_broker [OF h(2-4,6), of written] h(5,7) assms(7,8) by auto
  have "PacketHandleTask_round tm lo (post_packetEvent (EtClientRecv c (SN_frame (snconnect_body options))) g) = Some (True, g2)"
    by (rule handle_one_client_packet) (use c(7) h(1) in simp_all)
  moreover have "sna_isMatch (cl_sensorNetAddr cl) addr"
    using getClient_addr_found [OF c(2)] c(1) assms(1) by (auto simp: idle_client_def gw_ok_def clients_ok_def gw_client_def)
  ultimately show ?thesis
    using g3 h(8,9) by (auto simp: isConnecting_def connectSended_def)
qed



subsection \<open>CONNACK\<close>

lemma SN_setCONNACK_eq: "SN_setCONNACK rc = Some (SN_frame (code_body MQTTSN_CONNACK (uint rc)))"
proof -
  have "char_range Unsigned_Char (uint rc)"
    using uint_range_size [of rc] by (simp add: char_range_def word_size)
  then show ?thesis
    using snconnack.gateway_setter [of Unsigned_Char "uint rc" 3] by (simp add: SN_setCONNACK_def sn_frame_def sn_len_field_def MQTTSNPacket_len_def) (simp add: code_body_def)
qed

text \<open>C20: The answer of the broker decides. CONNACK with return code 0 makes the client active, every other code leaves it disconnected; the client gets, in three bytes, a CONNACK with the code of MQTT-SN: 0 (accepted)
  for 0, 1 (rejected, congestion) for 3, which is the unavailable server, and 3 (rejected, not supported) for every other code.\<close>

theorem gateway_answers_connect:
  assumes "direct_client addr c cl g" "header_type h = 2"
  shows "\<exists>g1 g2 g3 cl'. BrokerRecvTask_client stream_recv (h # 2 # f # rc # rest) c g = Some (rest, g1) \<and> PacketHandleTask_round tm lo g1 = Some (True, g2) \<and>
    ClientSendTask_round g2 = Some (Some (Unicast (cl_sensorNetAddr cl) ([3, 5, if rc = 0 then 0 else if rc = 3 then 1 else 3])), g3) \<and>
    gw_client c g3 = Some cl' \<and> (rc = 0 \<longrightarrow> isActive cl') \<and> (rc \<noteq> 0 \<longrightarrow> isDisconnect cl')"
proof -
  note c = direct_clientD [OF assms(1)]
  let ?sn = "code_body MQTTSN_CONNACK (uint (connack_code rc))"
  let ?cl = "connackSended (connack_code rc) cl" and ?p = "\<lparr>gp_header = h, gp_remainingLength = 2, gp_data = Some [f, rc]\<rparr>"
  let ?g = "post_clientSend (EtClientSend c (SN_frame ?sn)) (gw_set c ?cl g)"
  have v: "varint 2 = [2]"
    by code_simp
  have "filled (GW_getCONNACK \<lparr>gca_header = 0, gca_flags = 0, gca_rc = 0\<rparr> ?p) = Some \<lparr>gca_header = h, gca_flags = f, gca_rc = rc\<rparr>"
    using assms(2) by (simp add: filled_def GW_getCONNACK_def read_simps)
  then have "handle_broker_packet c ?p g = Some ?g"
    using c(1,13) assms(2) by (simp add: handle_broker_packet_def transparent_broker_def Let_def GW_handleConnack_def SN_setCONNACK_eq)
  then have "\<exists>g1. BrokerRecvTask_client stream_recv (h # 2 # f # rc # rest) c g = Some (rest, g1) \<and> PacketHandleTask_round tm lo g1 = Some (True, ?g)"
    using broker_packet_handled [OF assms(1), of "[f, rc]" h ?g rest tm lo] assms(2) v by (simp add: numeral_2_eq_2)
  moreover have "ClientSendTask_round ?g = Some (Some (Unicast (cl_sensorNetAddr ?cl) (sn_frame ?sn)), ?g\<lparr>gw_clientSendQue := []\<rparr>)"
    by (rule send_to_client) (use c(1,5,9) assms(1) in \<open>auto simp: direct_client_def idle_client_def connackSended_def disconnected_def\<close>)
  moreover have "cl_sensorNetAddr ?cl = cl_sensorNetAddr cl" "rc = 0 \<longrightarrow> isActive ?cl" "rc \<noteq> 0 \<longrightarrow> isDisconnect ?cl"
    by (auto simp: connackSended_def disconnected_def connack_code_def isActive_def isDisconnect_def)
  moreover have "sn_frame ?sn = [3, 5, if rc = 0 then 0 else if rc = 3 then 1 else 3]"
    by (simp add: connack_code_def code_body_def sn_frame_def sn_len_field_def MQTTSNPacket_len_def)
  ultimately show ?thesis
    using c(1) by auto
qed


theorem gateway_answers_connect_witness:
  "\<exists>g1 g2 g3 cl'. BrokerRecvTask_client stream_recv [32, 2, 0, 0] 1 (demo_gateway (demo_client Cstat_Connecting)) = Some ([], g1) \<and>
    PacketHandleTask_round no_timers some_locals g1 = Some (True, g2) \<and>
    ClientSendTask_round g2 = Some (Some (Unicast \<lparr>sna_portNo = 9, sna_IpAddr = 7\<rparr> [3, 5, 0]), g3) \<and> gw_client 1 g3 = Some cl' \<and> isActive cl'"
proof -
  let ?cl = "demo_client Cstat_Connecting"
  have d: "direct_client \<lparr>sna_portNo = 9, sna_IpAddr = 7\<rparr> 1 ?cl (demo_gateway ?cl)"
    by (rule demo_direct) (simp_all add: demo_client_ok, simp_all add: demo_client_def Client_new_def)
  have h: "header_type 32 = 2"
    by code_simp
  have s: "cl_sensorNetAddr ?cl = \<lparr>sna_portNo = 9, sna_IpAddr = 7\<rparr>"
    by (simp add: demo_client_def)
  show ?thesis
    using gateway_answers_connect [OF d h, of 0 0 "[]" no_timers some_locals] unfolding s by auto
qed

subsection \<open>Registration by the client\<close>

lemma SN_setREGACK_eq: "SN_setREGACK i msgId rc = Some (SN_frame (topic_ack_body MQTTSN_REGACK (i, msgId, rc)))"
  using snregack.gateway_setter [where a = "(i, msgId, rc)" and n = 7] len_topic_ack [of MQTTSN_REGACK "(i, msgId, rc)"]
  by (simp add: SN_setREGACK_def sn_frame_def sn_len_field_def MQTTSNPacket_len_def)

definition register_bytes :: "u16 \<Rightarrow> u16 \<Rightarrow> byte list \<Rightarrow> byte list" where
  "register_bytes i msgId name = 10 # be16 (uint i) @ be16 (uint msgId) @ name"

lemma SN_getREGISTER_frame:
  assumes "frame_ok (register_bytes i msgId name)"
  shows "SN_getREGISTER out (SN_frame (register_bytes i msgId name)) = Some (1, \<lparr>reg_topicid = i, reg_packetid = msgId,
    reg_topicname = \<lparr>sn_cstring = None, sn_lenstring = \<lparr>snls_len = int (length name), snls_data = Some name\<rparr>\<rparr>\<rparr>)"
proof -
  let ?b = "register_bytes i msgId name"
  have s: "sn_begin (Some 0) (sn_frame ?b) (int (length (sn_frame ?b))) = Some (sn_lenlen ?b, (sn_lenlen ?b, ?b), sn_lenlen ?b + int (length ?b))"
    using sn_begin_frame [OF assms order_refl, of "Some 0" "[]"] by simp
  have le: "int (length ?b) \<le> int (length (sn_frame ?b))"
    using sn_frame_start [OF assms, of "int (length (sn_frame ?b))"] sn_lenlen_bounds(1) [of ?b] by simp
  have "\<not> int (length (sn_frame ?b)) < int (length ?b)"
    using le by simp
  then show ?thesis
    unfolding SN_getREGISTER_def SN_frame_def MQTTSNDeserialize_register_def MQTTSNPacket.simps bind.bind_lunit s prod.case fst_conv
    by (simp add: register_bytes_def read_simps)
qed

lemma named_topic_add:
  assumes "topics_ok ts" "0 \<notin> set name" "find_name ts name = None \<longrightarrow> length (ts_topics ts) < 50"
    "\<And>t. find_name ts name = Some t \<Longrightarrow> tp_type t = MQTTSN_TOPIC_TYPE_NORMAL"
  shows "\<exists>t ts'. Topics_add ts \<lparr>topic_type = MQTTSN_TOPIC_TYPE_NORMAL, topic_data = Topic_long (Some name) (int (length name))\<rparr> = Some (Some t, ts') \<and>
    topics_ok ts' \<and> tp_topicName t = name \<and> getTopicById 0 ts' \<lparr>topic_type = MQTTSN_TOPIC_TYPE_NORMAL, topic_data = Topic_id (tp_topicId t)\<rparr> = Some t \<and>
    set (ts_topics ts) \<subseteq> set (ts_topics ts')"
proof (cases "find_name ts name")
  case None
  obtain t ts' where t: "Topics_add_name ts name 0 = (Some t, ts')" "topics_ok ts'" "ts_topics ts' = ts_topics ts @ [t]" "tp_topicName t = name"
    "tp_type t = MQTTSN_TOPIC_TYPE_NORMAL"
    using Topics_add_name_new [OF assms(1) _ None, of 0] assms(3) None by auto
  then show ?thesis
    using None getTopicById_member [OF t(2), of t 0] assms(2)
    by (simp add: subset_insertI Topics_add_def getTopicByName_def string_of_def cptr_holds_def c_str_id)
next
  case (Some t)
  then have "t \<in> set (ts_topics ts)" "tp_topicName t = name"
    by (auto simp: find_name_def find_Some_iff)
  then show ?thesis
    using Some getTopicById_member [OF assms(1), of t 0] assms(1,4)
    by (simp add: Topics_add_def getTopicByName_def string_of_def cptr_holds_def)
qed


definition registrable :: "byte list \<Rightarrow> Topics \<Rightarrow> bool" where
  "registrable name ts \<longleftrightarrow> 0 \<notin> set name \<and>
     (case find_name ts name of None \<Rightarrow> length (ts_topics ts) < 50 | Some t \<Rightarrow> tp_type t = MQTTSN_TOPIC_TYPE_NORMAL)"

lemma updateStatus_register:
  assumes "SN_getType packet = Some 10"
  shows "updateStatus packet cl = Some cl"
  using assms by (simp add: updateStatus_def updateStatus_active_def updateStatus_sleeping_def)

lemma handle_register:
  assumes "direct_client addr c cl g" "isActive cl \<or> isAwake cl" "frame_ok (register_bytes i msgId name)"
    "Topics_add (cl_topics cl) \<lparr>topic_type = MQTTSN_TOPIC_TYPE_NORMAL, topic_data = Topic_long (Some name) (int (length name))\<rparr> = Some (Some t, ts)"
  shows "\<exists>g'. handle_client_packet lo c (SN_frame (register_bytes i msgId name)) g = Some g' \<and>
    gw_clientSendQue g' = [EtClientSend c (SN_frame (topic_ack_body MQTTSN_REGACK (tp_topicId t, msgId, 0)))] \<and> gw_client c g' = Some (cl\<lparr>cl_topics := ts\<rparr>)"
proof -
  note c = direct_clientD [OF assms(1)]
  have ty: "SN_getType (SN_frame (register_bytes i msgId name)) = Some 10"
    using SN_getType_frame [OF assms(3)] by (simp add: register_bytes_def)
  have "SN_handleRegister c (SN_frame (register_bytes i msgId name)) g =
      Some (post_clientSend (EtClientSend c (SN_frame (topic_ack_body MQTTSN_REGACK (tp_topicId t, msgId, 0)))) (gw_set c (cl\<lparr>cl_topics := ts\<rparr>) g))"
    using c(1) assms(2,4) by (auto simp: SN_handleRegister_def SN_getREGISTER_frame [OF assms(3)] SN_setREGACK_eq simp del: topic_ack_body.simps)
  then show ?thesis
    using c(1,3,9) ty by (auto simp: handle_client_packet_def isAggregatedClient_def transparent_client_def updateStatus_register simp del: topic_ack_body.simps)
qed

text \<open>C25: Registration of a topic. A REGISTER of an active or awake client for a name that is registered already, or for which there is room in its table, is answered by a REGACK with the message identifier, the code for
  acceptance and an identifier under which the gateway from then on finds exactly that name for publications of the client.\<close>

theorem gateway_registers_topic:
  assumes "direct_client addr c cl g" "isActive cl \<or> isAwake cl" "frame_ok (register_bytes i msgId name)" "registrable name (cl_topics cl)"
  shows "\<exists>g1 g2 g3 cl' k. ClientRecvTask_round addr (SN_frame (register_bytes i msgId name)) g = Some g1 \<and> PacketHandleTask_round tm lo g1 = Some (True, g2) \<and>
    ClientSendTask_round g2 = Some (Some (Unicast (cl_sensorNetAddr cl) (sn_frame (topic_ack_body MQTTSN_REGACK (k, msgId, 0)))), g3) \<and>
    gw_client c g3 = Some cl' \<and> topic_name_of cl' \<lparr>topic_type = MQTTSN_TOPIC_TYPE_NORMAL, topic_data = Topic_id k\<rparr> = Some name"
proof -
  note c = direct_clientD [OF assms(1)]
  have "topics_ok (cl_topics cl)"
    using c(10) by (simp add: client_ok_def)
  then obtain t ts where t: "Topics_add (cl_topics cl) \<lparr>topic_type = MQTTSN_TOPIC_TYPE_NORMAL, topic_data = Topic_long (Some name) (int (length name))\<rparr> = Some (Some t, ts)"
    "tp_topicName t = name" "getTopicById 0 ts \<lparr>topic_type = MQTTSN_TOPIC_TYPE_NORMAL, topic_data = Topic_id (tp_topicId t)\<rparr> = Some t"
    using named_topic_add [of "cl_topics cl" name] assms(4) by (auto simp: registrable_def split: option.splits)
  let ?sn = "topic_ack_body MQTTSN_REGACK (tp_topicId t, msgId, 0)"
  obtain g2 where g2: "handle_client_packet lo c (SN_frame (register_bytes i msgId name)) g = Some g2" "gw_clientSendQue g2 = [EtClientSend c (SN_frame ?sn)]"
    "gw_client c g2 = Some (cl\<lparr>cl_topics := ts\<rparr>)"
    using handle_register [OF assms(1-3) t(1), of lo] by blast
  have "hd (register_bytes i msgId name) = 10"
    by (simp add: register_bytes_def)
  then obtain g1 where "ClientRecvTask_round addr (SN_frame (register_bytes i msgId name)) g = Some g1" "PacketHandleTask_round tm lo g1 = Some (True, g2)"
    using client_packet_handled [OF assms(1,3) _ _ g2(1), of tm] by auto
  moreover have "ClientSendTask_round g2 = Some (Some (Unicast (cl_sensorNetAddr (cl\<lparr>cl_topics := ts\<rparr>)) (sn_frame ?sn)), g2\<lparr>gw_clientSendQue := []\<rparr>)"
    by (rule send_to_client) (use g2 c(5) assms(1) in \<open>simp_all add: direct_client_def idle_client_def\<close>)
  ultimately show ?thesis
    using g2(3) t(2,3) by (auto simp: topic_name_of_def simp del: topic_ack_body.simps)
qed

theorem gateway_registers_topic_witness:
  "\<exists>g1 g2 g3 cl' k. ClientRecvTask_round \<lparr>sna_portNo = 9, sna_IpAddr = 7\<rparr> (SN_frame [10, 0, 0, 0, 7, 120, 47, 121]) (demo_gateway (demo_client Cstat_Active)) = Some g1 \<and>
    PacketHandleTask_round no_timers some_locals g1 = Some (True, g2) \<and>
    ClientSendTask_round g2 = Some (Some (Unicast \<lparr>sna_portNo = 9, sna_IpAddr = 7\<rparr> (sn_frame (topic_ack_body MQTTSN_REGACK (k, 7, 0)))), g3) \<and>
    gw_client 1 g3 = Some cl' \<and> topic_name_of cl' \<lparr>topic_type = MQTTSN_TOPIC_TYPE_NORMAL, topic_data = Topic_id k\<rparr> = Some [120, 47, 121]"
proof -
  let ?cl = "demo_client Cstat_Active"
  have b: "register_bytes 0 7 [120, 47, 121] = [10, 0, 0, 0, 7, 120, 47, 121]"
    by code_simp
  have a: "isActive ?cl \<or> isAwake ?cl" and s: "cl_sensorNetAddr ?cl = \<lparr>sna_portNo = 9, sna_IpAddr = 7\<rparr>"
    by (simp_all add: isActive_def demo_client_def)
  have "registrable [120, 47, 121] (snd (Topics_add_name Topics_init [97, 47, 98] 0))"
    by code_simp
  then have r: "registrable [120, 47, 121] (cl_topics ?cl)"
    by (simp add: demo_client_def)
  have f: "frame_ok (register_bytes 0 7 [120, 47, 121])"
    by (simp add: b frame_ok_def)
  show ?thesis
    using gateway_registers_topic [OF demo_active a f r, of no_timers some_locals] unfolding b s by simp
qed


subsection \<open>Registration by the gateway\<close>

lemma SN_setREGISTER_eq:
  assumes "length name \<le> 1016" "length name \<noteq> 250"
  shows "SN_setREGISTER i msgId \<lparr>sn_cstring = None, sn_lenstring = \<lparr>snls_len = int (length name), snls_data = Some (name @ ys)\<rparr>\<rparr> =
    Some (SN_frame (register_bytes i msgId name))"
proof -
  let ?s = "\<lparr>sn_cstring = None, sn_lenstring = \<lparr>snls_len = int (length name), snls_data = Some (name @ ys)\<rparr>\<rparr>"
  have b: "register_body (i, msgId, ?s) = register_bytes i msgId name"
    by (simp add: register_bytes_def name_bytes_def)
  have len: "length (register_bytes i msgId name) = 5 + length name"
    by (simp add: register_bytes_def)
  have f: "frame_ok (register_bytes i msgId name)"
    using assms len by (auto simp: frame_ok_def)
  have ok: "register_ok (i, msgId, ?s)"
    using f by (simp only: register_ok.simps b) (simp add: name_holds_def cptr_holds_def)
  have "length (sn_frame (register_bytes i msgId name)) \<le> 1024"
    using sn_frame_start [OF f, of 1024] sn_lenlen_bounds [of "register_bytes i msgId name"] len assms(1) by (auto simp: sn_lenlen_def split: if_splits)
  then show ?thesis
    using register.gateway_setter [OF ok, of 1024] by (simp add: SN_setREGISTER_def b del: register_body.simps)
qed

lemma register_and_publish_eq:
  assumes "gw_client c g = Some cl" "topics_ok (cl_topics cl)" "0 \<notin> set name" "find_name (cl_topics cl) name = None" "length (ts_topics (cl_topics cl)) < 50"
    "match_loop (ts_topics (cl_topics cl)) name = Some (Some f)" "length name \<le> 1016" "length name \<noteq> 250"
    "gpub_topic pub = Some (name @ ys)" "gpub_topiclen pub = int (length name)"
    "\<And>k. snpublish_for pub \<lparr>topic_type = MQTTSN_TOPIC_TYPE_NORMAL, topic_data = Topic_id k\<rparr> = Some (p k)"
  shows "\<exists>k r cl' ts. register_and_publish c pub g = Some (gw_set c cl' (post_clientSend (EtClientSend c (SN_frame (register_bytes k r name))) g)) \<and>
    cl' = cl\<lparr>cl_topics := ts, cl_snMsgId := ucast r, cl_waitREGACKList := cl_waitREGACKList cl @ [(r, p k)]\<rparr> \<and>
    topic_name_of cl' \<lparr>topic_type = MQTTSN_TOPIC_TYPE_NORMAL, topic_data = Topic_id k\<rparr> = Some name"
proof -
  obtain t ts where t: "Topics_add_name (cl_topics cl) name 0 = (Some t, ts)" "topics_ok ts" "ts_topics ts = ts_topics (cl_topics cl) @ [t]" "tp_topicName t = name"
    "tp_type t = MQTTSN_TOPIC_TYPE_NORMAL" "tp_topicId t \<noteq> 0"
    using Topics_add_name_new [OF assms(2,5,4), of 0] by auto
  have z: "0 < tp_topicId t"
    using t(6) by (simp add: word_gt_0)
  obtain r cl1 where r: "getNextSnMsgId (cl\<lparr>cl_topics := ts\<rparr>) = (r, cl1)" "cl1 = cl\<lparr>cl_topics := ts, cl_snMsgId := r\<rparr>"
    by (simp add: getNextSnMsgId_def Let_def)
  let ?d = "\<lparr>topic_type = MQTTSN_TOPIC_TYPE_NORMAL, topic_data = Topic_long (gpub_topic pub) (gpub_topiclen pub)\<rparr>"
  have n: "string_of (Some (name @ ys)) (int (length name)) = Some name"
    by (simp add: string_of_def cptr_holds_def)
  have m: "Topics_match (cl_topics cl) ?d = Some (Some f)" "Topics_add (cl_topics cl) ?d = Some (Some t, ts)"
    using assms(3,4,6) t(1) n by (simp_all add: Topics_match_def Topics_add_def getTopicByName_def assms(9,10) c_str_id)
  have u: "ucast (ucast r :: u16) = r"
    by (rule bit_word_eqI) (auto simp: bit_simps)
  have "register_and_publish c pub g = Some (gw_set c (cl1\<lparr>cl_waitREGACKList := cl_waitREGACKList cl @ [(ucast r, p (tp_topicId t))]\<rparr>)
      (post_clientSend (EtClientSend c (SN_frame (register_bytes (tp_topicId t) (ucast r) name))) g))"
    using z assms(1) m r SN_setREGISTER_eq [OF assms(7,8), of "tp_topicId t" "ucast r" ys]
    by (simp add: register_and_publish_def assms(9-11) Let_def)
  moreover have "getTopicById 0 ts \<lparr>topic_type = MQTTSN_TOPIC_TYPE_NORMAL, topic_data = Topic_id (tp_topicId t)\<rparr> = Some t"
    using getTopicById_member [OF t(2), of t 0] t(3,5) by simp
  ultimately show ?thesis
    using t(4) by (intro exI [of _ "tp_topicId t"] exI [of _ "ucast r"] exI [of _ "cl1\<lparr>cl_waitREGACKList := cl_waitREGACKList cl @ [(ucast r, p (tp_topicId t))]\<rparr>"]
        exI [of _ ts]) (simp add: r(2) u topic_name_of_def)
qed


text \<open>C21: A message under a new topic. When the broker sends an active or awake client a message whose topic the client has not registered, but one of its filters matches, and there is room for the topic, the client gets a
  REGISTER with a new identifier for the name, and the PUBLISH with that identifier waits under the message identifier of the REGISTER.\<close>

theorem gateway_announces_topic:
  assumes "direct_client addr c cl g" "isActive cl \<or> isAwake cl" "2 < length name" "0 \<notin> set name" "find_name (cl_topics cl) name = None"
    "length (ts_topics (cl_topics cl)) < 50" "match_loop (ts_topics (cl_topics cl)) name = Some (Some f)" "length name \<le> 1016" "length name \<noteq> 250"
    "0 \<le> qos" "qos \<le> 2" "length payload \<le> 1015" "length payload \<noteq> 249"
  shows "\<exists>g1 g2 g3 cl' k r. BrokerRecvTask_client stream_recv
      (publish_wire (dup, qos, retained, msgId, wire_string name, Some payload, int (length payload)) @ rest) c g = Some (rest, g1) \<and>
    PacketHandleTask_round tm lo g1 = Some (True, g2) \<and>
    ClientSendTask_round g2 = Some (Some (Unicast (cl_sensorNetAddr cl) (sn_frame (register_bytes k r name))), g3) \<and> gw_client c g3 = Some cl' \<and>
    topic_name_of cl' \<lparr>topic_type = MQTTSN_TOPIC_TYPE_NORMAL, topic_data = Topic_id k\<rparr> = Some name \<and>
    cl_waitREGACKList cl' = cl_waitREGACKList cl @ [(r, SN_frame (snpublish_body (take_bit 1 dup, qos, take_bit 1 retained, if qos > 0 then msgId else 0,
      \<lparr>topic_type = MQTTSN_TOPIC_TYPE_NORMAL, topic_data = Topic_id k\<rparr>, Some payload, int (length payload))))]"
proof -
  let ?a = "(dup, qos, retained, msgId, wire_string name, Some payload, int (length payload))"
  let ?sn = "\<lambda>k. SN_frame (snpublish_body (take_bit 1 dup, qos, take_bit 1 retained, if qos > 0 then msgId else 0,
      \<lparr>topic_type = MQTTSN_TOPIC_TYPE_NORMAL, topic_data = Topic_id k\<rparr>, Some payload, int (length payload)))"
  note c = direct_clientD [OF assms(1)]
  define pub where "pub = \<lparr>gpub_header = publish_header dup qos retained, gpub_topic = Some (name @ (if qos > 0 then be16 (uint msgId) else []) @ payload),
      gpub_topiclen = int (length name), gpub_msgId = uint (if qos > 0 then msgId else 0), gpub_payload = Some payload, gpub_payloadlen = int (length payload)\<rparr>"
  have pub: "get_publish (publish_packet ?a) = Some pub"
    using get_publish_packet [of qos name dup retained msgId payload] assms(8,10,11) by (simp add: pub_def del: publish_packet.simps)
  have sn: "snpublish_for pub \<lparr>topic_type = MQTTSN_TOPIC_TYPE_NORMAL, topic_data = Topic_id k\<rparr> = Some (?sn k)" for k
    by (rule snpublish_for_packet [OF assms(10,11) _ _ assms(12,13) pub_def]) (use assms(11) in \<open>simp_all add: sn_topic_ok_def long_topic_def\<close>)
  have ok: "topics_ok (cl_topics cl)"
    using c(10) by (simp add: client_ok_def)
  obtain k r cl' ts where reg: "register_and_publish c pub g = Some (gw_set c cl' (post_clientSend (EtClientSend c (SN_frame (register_bytes k r name))) g))"
    "cl' = cl\<lparr>cl_topics := ts, cl_snMsgId := ucast r, cl_waitREGACKList := cl_waitREGACKList cl @ [(r, ?sn k)]\<rparr>"
    "topic_name_of cl' \<lparr>topic_type = MQTTSN_TOPIC_TYPE_NORMAL, topic_data = Topic_id k\<rparr> = Some name"
    using register_and_publish_eq [OF c(1) ok assms(4-9), of pub "(if qos > 0 then be16 (uint msgId) else []) @ payload" ?sn] sn by (auto simp: pub_def)
  let ?g = "gw_set c cl' (post_clientSend (EtClientSend c (SN_frame (register_bytes k r name))) g)"
  have h: "handle_broker_packet c (publish_packet ?a) g = Some ?g"
  proof -
    have "handle_broker_packet c (publish_packet ?a) g = GW_handlePublish c (publish_packet ?a) g"
      using c(1,13) by (simp add: handle_broker_packet_def transparent_broker_def Let_def publish_header_fields)
    also have "\<dots> = Some ?g"
      using c(1) assms(2,3,5) reg(1)
      by (auto simp: GW_handlePublish_def pub isSleep_def isActive_def isAwake_def getTopicByName_def string_of_def cptr_holds_def simp del: publish_packet.simps) (auto simp: pub_def)
    finally show ?thesis .
  qed
  have body: "publish_body ?a \<noteq> []" "length (publish_body ?a) < 2097152"
    using assms(8,12) by (simp_all add: MQTTString_len cptr_holds_def lp_string_def) (simp add: be16_def)
  obtain g1 where "BrokerRecvTask_client stream_recv (publish_wire ?a @ rest) c g = Some (rest, g1)" "PacketHandleTask_round tm lo g1 = Some (True, ?g)"
    using broker_packet_handled [OF assms(1) body(2), of "publish_header dup qos retained" ?g rest tm lo] h body(1)
    by (auto simp: Let_def publish_header_fields simp del: publish_body.simps)
  moreover have "ClientSendTask_round ?g = Some (Some (Unicast (cl_sensorNetAddr cl') (sn_frame (register_bytes k r name))), ?g\<lparr>gw_clientSendQue := []\<rparr>)"
    by (rule send_to_client) (use c(1,5,9) assms(1) in \<open>auto simp: direct_client_def idle_client_def reg(2)\<close>)
  moreover have "cl_sensorNetAddr cl' = cl_sensorNetAddr cl" "cl_waitREGACKList cl' = cl_waitREGACKList cl @ [(r, ?sn k)]"
    by (simp_all add: reg(2))
  ultimately show ?thesis
    using c(1) reg(3) by (intro exI conjI) (assumption | simp)+
qed


theorem gateway_announces_topic_witness:
  "\<exists>g1 g2 g3 cl' k r. BrokerRecvTask_client stream_recv [48, 7, 0, 3, 97, 47, 120, 104, 105] 1
      (demo_gateway ((demo_client Cstat_Active)\<lparr>cl_topics := snd (Topics_add_name Topics_init [97, 47, 35] 0)\<rparr>)) = Some ([], g1) \<and>
    PacketHandleTask_round no_timers some_locals g1 = Some (True, g2) \<and>
    ClientSendTask_round g2 = Some (Some (Unicast \<lparr>sna_portNo = 9, sna_IpAddr = 7\<rparr> (sn_frame (register_bytes k r [97, 47, 120]))), g3) \<and>
    gw_client 1 g3 = Some cl' \<and> topic_name_of cl' \<lparr>topic_type = MQTTSN_TOPIC_TYPE_NORMAL, topic_data = Topic_id k\<rparr> = Some [97, 47, 120]"
proof -
  let ?ts = "snd (Topics_add_name Topics_init [97, 47, 35] 0)"
  let ?cl = "(demo_client Cstat_Active)\<lparr>cl_topics := ?ts\<rparr>"
  have "topics_ok ?ts"
    using Topics_add_name_new [OF topics_ok_init, of "[97, 47, 35]" 0] by (auto simp: Topics_init_def find_name_def)
  then have "client_ok ?cl"
    by (intro client_ok_topics) (simp_all add: demo_client_ok)
  then have d: "direct_client \<lparr>sna_portNo = 9, sna_IpAddr = 7\<rparr> 1 ?cl (demo_gateway ?cl)"
    by (rule demo_direct) (simp_all add: demo_client_def Client_new_def)
  have "find_name ?ts [97, 47, 120] = None" "length (ts_topics ?ts) < 50" "match_loop (ts_topics ?ts) [97, 47, 120] = Some (Some (hd (ts_topics ?ts)))"
    by code_simp+
  then have t: "find_name (cl_topics ?cl) [97, 47, 120] = None" "length (ts_topics (cl_topics ?cl)) < 50"
    "match_loop (ts_topics (cl_topics ?cl)) [97, 47, 120] = Some (Some (hd (ts_topics ?ts)))"
    by simp_all
  have a: "isActive ?cl \<or> isAwake ?cl" and s: "cl_sensorNetAddr ?cl = \<lparr>sna_portNo = 9, sna_IpAddr = 7\<rparr>"
    by (simp_all add: isActive_def demo_client_def)
  have w: "publish_wire (0, 0, 0, 5, wire_string [97, 47, 120], Some [104, 105], int (length [104 :: byte, 105])) @ [] = [48, 7, 0, 3, 97, 47, 120, 104, 105]"
    by code_simp
  have n: "2 < length [97 :: byte, 47, 120]" "(0 :: byte) \<notin> set [97, 47, 120]"
    by simp_all
  have b: "length [97 :: byte, 47, 120] \<le> 1016" "length [97 :: byte, 47, 120] \<noteq> 250" "0 \<le> (0 :: int)" "0 \<le> (2 :: int)" "length [104 :: byte, 105] \<le> 1015"
    "length [104 :: byte, 105] \<noteq> 249"
    by simp_all
  obtain g1 g2 g3 cl' k r where "BrokerRecvTask_client stream_recv [48, 7, 0, 3, 97, 47, 120, 104, 105] 1 (demo_gateway ?cl) = Some ([], g1)"
    "PacketHandleTask_round no_timers some_locals g1 = Some (True, g2)"
    "ClientSendTask_round g2 = Some (Some (Unicast \<lparr>sna_portNo = 9, sna_IpAddr = 7\<rparr> (sn_frame (register_bytes k r [97, 47, 120]))), g3)"
    "gw_client 1 g3 = Some cl'" "topic_name_of cl' \<lparr>topic_type = MQTTSN_TOPIC_TYPE_NORMAL, topic_data = Topic_id k\<rparr> = Some [97, 47, 120]"
    using gateway_announces_topic [OF d a n t b, of 0 0 5 "[]" no_timers some_locals] unfolding w s by blast
  then show ?thesis
    by blast
qed

lemma SN_getREGACK_frame:
  "\<exists>o'. SN_getREGACK out (SN_frame (topic_ack_body MQTTSN_REGACK (k, msgId, rc))) = Some (1, o') \<and> ta_packetid o' = msgId"
  using snregack.reads [where a = "(k, msgId, rc)" and n = "int (length (sn_frame (topic_ack_body MQTTSN_REGACK (k, msgId, rc))))" and out = out and rest = "[]"]
  by (auto simp: SN_getREGACK_def SN_frame_def topic_ack_view_def simp del: topic_ack_body.simps)

text \<open>C22: The client gets the message after its REGACK. When an active or awake client acknowledges the REGISTER with a message identifier for which a packet waits, the gateway sends that packet, and it does not wait any more;
  if it was the last one and a PINGREQ of the client was held back, PINGREQ goes to the broker.\<close>

theorem gateway_publishes_after_regack:
  assumes "direct_client addr c cl g" "isActive cl \<or> isAwake cl" "map_of (cl_waitREGACKList cl) msgId = Some (SN_frame body)"
    "length (cl_waitREGACKList cl) < 256"
  shows "\<exists>g1 g2 g3 cl'. ClientRecvTask_round addr (SN_frame (topic_ack_body MQTTSN_REGACK (k, msgId, rc))) g = Some g1 \<and> PacketHandleTask_round tm lo g1 = Some (True, g2) \<and>
    ClientSendTask_round g2 = Some (Some (Unicast (cl_sensorNetAddr cl) (sn_frame body)), g3) \<and> gw_client c g3 = Some cl' \<and>
    cl_waitREGACKList cl' = remove_first (\<lambda>e. fst e = msgId) (cl_waitREGACKList cl) \<and>
    gw_brokerSendQue g3 = (if cl_holdPingRequest cl \<and> length (cl_waitREGACKList cl) = 1 then [EtBrokerSend c (snd (GW_setHeader GW_new 12))] else [])"
proof -
  let ?b = "topic_ack_body MQTTSN_REGACK (k, msgId, rc)"
  let ?ws = "remove_first (\<lambda>e. fst e = msgId) (cl_waitREGACKList cl)"
  let ?cl = "cl\<lparr>cl_waitREGACKList := ?ws\<rparr>"
  note c = direct_clientD [OF assms(1)]
  have "find (\<lambda>e. fst e = msgId) (cl_waitREGACKList cl) \<noteq> None"
    using map_of_SomeD [OF assms(3)] by (auto simp: find_None_iff simp del: not_None_eq)
  then have len: "Suc (length ?ws) = length (cl_waitREGACKList cl)"
    by (rule length_remove_first)
  then have cnt: "word_of_nat (length ?ws) = (0 :: byte) \<longleftrightarrow> length (cl_waitREGACKList cl) = 1"
    using assms(4) by (auto simp: word_of_nat_eq_0_iff dest: dvd_imp_le)
  have ty: "SN_getType (SN_frame ?b) = Some 11"
    using SN_getType_frame [OF frame_ok_topic_ack, of MQTTSN_REGACK "(k, msgId, rc)"] by simp
  define g2 where "g2 = (let g = post_clientSend (EtClientSend c (SN_frame body)) (gw_set c ?cl g)
    in if cl_holdPingRequest cl \<and> length (cl_waitREGACKList cl) = 1 then send_pingreq c ?cl g else g)"
  obtain o' where o': "SN_getREGACK topic_ack_init (SN_frame ?b) = Some (1, o')" "ta_packetid o' = msgId"
    using SN_getREGACK_frame by blast
  have r: "SN_handleRegAck c (SN_frame ?b) g = Some g2"
    using c(1) assms(2,3) o' cnt by (auto simp: SN_handleRegAck_def g2_def Let_def simp del: topic_ack_body.simps)
  define cl' where "cl' = (if cl_holdPingRequest cl \<and> length (cl_waitREGACKList cl) = 1 then ?cl\<lparr>cl_holdPingRequest := False\<rparr> else ?cl)"
  have cl': "gw_client c g2 = Some cl'" "cl_waitREGACKList cl' = ?ws" "cl_clientType cl' = Ctype_Regular" "cl_forwarder cl' = None"
    "cl_sensorNetAddr cl' = cl_sensorNetAddr cl"
    using c(1,5) assms(1) by (simp_all add: g2_def cl'_def Let_def send_pingreq_def direct_client_def idle_client_def)
  have "updateStatus (SN_frame ?b) cl' = Some cl'"
    using ty by (simp add: updateStatus_def updateStatus_active_def updateStatus_sleeping_def)
  then have h: "handle_client_packet lo c (SN_frame ?b) g = Some (gw_set c cl' g2)"
    using c(1,3) ty r cl'(1) by (simp add: handle_client_packet_def isAggregatedClient_def transparent_client_def del: topic_ack_body.simps)
  obtain g1 where "ClientRecvTask_round addr (SN_frame ?b) g = Some g1" "PacketHandleTask_round tm lo g1 = Some (True, gw_set c cl' g2)"
    using client_packet_handled [OF assms(1) frame_ok_topic_ack _ _ h, of tm] by auto
  moreover have "ClientSendTask_round (gw_set c cl' g2) = Some (Some (Unicast (cl_sensorNetAddr cl') (sn_frame body)), (gw_set c cl' g2)\<lparr>gw_clientSendQue := []\<rparr>)"
    by (rule send_to_client) (use c(9) cl' in \<open>auto simp: g2_def Let_def send_pingreq_def\<close>)
  moreover have "gw_brokerSendQue g2 = (if cl_holdPingRequest cl \<and> length (cl_waitREGACKList cl) = 1 then [EtBrokerSend c (snd (GW_setHeader GW_new 12))] else [])"
    using c(8) by (simp add: g2_def Let_def send_pingreq_def)
  ultimately show ?thesis
    using cl' by (intro exI conjI) (assumption | simp)+
qed


theorem gateway_publishes_after_regack_witness:
  "\<exists>g1 g2 g3 cl'. ClientRecvTask_round \<lparr>sna_portNo = 9, sna_IpAddr = 7\<rparr> (SN_frame [11, 0, 2, 0, 1, 0])
      (demo_gateway ((demo_client Cstat_Awake)\<lparr>cl_waitREGACKList := [(1, SN_frame [12, 0, 0, 2, 0, 0, 104])], cl_holdPingRequest := True\<rparr>)) = Some g1 \<and>
    PacketHandleTask_round no_timers some_locals g1 = Some (True, g2) \<and>
    ClientSendTask_round g2 = Some (Some (Unicast \<lparr>sna_portNo = 9, sna_IpAddr = 7\<rparr> [8, 12, 0, 0, 2, 0, 0, 104]), g3) \<and> gw_client 1 g3 = Some cl' \<and>
    cl_waitREGACKList cl' = [] \<and> gw_brokerSendQue g3 = [EtBrokerSend 1 (snd (GW_setHeader GW_new 12))]"
proof -
  let ?cl = "(demo_client Cstat_Awake)\<lparr>cl_waitREGACKList := [(1, SN_frame [12, 0, 0, 2, 0, 0, 104])], cl_holdPingRequest := True\<rparr>"
  have "client_ok ?cl"
    using demo_client_ok [of Cstat_Awake] by (simp add: client_ok_def)
  then have d: "direct_client \<lparr>sna_portNo = 9, sna_IpAddr = 7\<rparr> 1 ?cl (demo_gateway ?cl)"
    by (rule demo_direct) (simp_all add: demo_client_def Client_new_def)
  have a: "isActive ?cl \<or> isAwake ?cl" and m: "map_of (cl_waitREGACKList ?cl) 1 = Some (SN_frame [12, 0, 0, 2, 0, 0, 104])"
    and s: "cl_sensorNetAddr ?cl = \<lparr>sna_portNo = 9, sna_IpAddr = 7\<rparr>" and l: "length (cl_waitREGACKList ?cl) < 256"
    by (simp_all add: isAwake_def demo_client_def)
  have b: "topic_ack_body MQTTSN_REGACK (2, 1, 0) = [11, 0, 2, 0, 1, 0]" and f: "sn_frame [12, 0, 0, 2, 0, 0, 104] = [8, 12, 0, 0, 2, 0, 0, 104]"
    by code_simp+
  show ?thesis
    using gateway_publishes_after_regack [OF d a m l, of 2 0 no_timers some_locals] unfolding s b f by simp
qed


subsection \<open>Undefined behaviour\<close>

lemma register_full_table:
  assumes "direct_client addr c cl g" "isActive cl \<or> isAwake cl" "frame_ok (register_bytes i msgId name)" "find_name (cl_topics cl) name = None"
    "length (ts_topics (cl_topics cl)) = 50"
  shows "handle_client_packet lo c (SN_frame (register_bytes i msgId name)) g = None"
proof -
  note c = direct_clientD [OF assms(1)]
  have "topics_ok (cl_topics cl)"
    using c(10) by (simp add: client_ok_def)
  then have "ts_cnt (cl_topics cl) \<ge> 50"
    using topics_ok_full assms(5) by blast
  then have "Topics_add (cl_topics cl) \<lparr>topic_type = MQTTSN_TOPIC_TYPE_NORMAL, topic_data = Topic_long (Some name) (int (length name))\<rparr> = Some (None, cl_topics cl)"
    using assms(4) by (simp add: Topics_add_def getTopicByName_def string_of_def cptr_holds_def Topics_add_name_def)
  moreover have "SN_getType (SN_frame (register_bytes i msgId name)) = Some 10"
    using SN_getType_frame [OF assms(3)] by (simp add: register_bytes_def)
  ultimately show ?thesis
    using c(1,3) assms(2)
    by (auto simp: handle_client_packet_def isAggregatedClient_def transparent_client_def SN_handleRegister_def SN_getREGISTER_frame [OF assms(3)])
qed

lemma subscribe_unknown_predefined:
  assumes "direct_client addr c cl g" "snsubscribe_ok (dup, qos, msgId, f)" "f = \<lparr>topic_type = MQTTSN_TOPIC_TYPE_PREDEFINED, topic_data = Topic_id i\<rparr>" "msgId \<noteq> 0"
    "getTopicById 0 (cl_topics cl) f = None" "getTopicById 0 (gw_topics g) f = None"
  shows "handle_client_packet lo c (SN_frame (snsubscribe_body (dup, qos, msgId, f))) g = None"
proof -
  let ?p = "SN_frame (snsubscribe_body (dup, qos, msgId, f))"
  note c = direct_clientD [OF assms(1)]
  have ty: "SN_getType ?p = Some 18"
    using SN_getType_frame [of "snsubscribe_body (dup, qos, msgId, f)"] assms(2) by simp
  obtain out where out: "SN_getSUBSCRIBE \<lparr>sns_dup = 0, sns_qos = 0, sns_packetid = 0, sns_topicFilter = lo_topic lo\<rparr> ?p = Some (1, out)"
    "snsubscribe_view out = snsubscribe_val (dup, qos, msgId, f)"
    using snsubscribe.reads [OF assms(2), of "int (length (sn_frame (snsubscribe_body (dup, qos, msgId, f))))"
        "\<lparr>sns_dup = 0, sns_qos = 0, sns_packetid = 0, sns_topicFilter = lo_topic lo\<rparr>" "[]"]
    by (auto simp: SN_getSUBSCRIBE_def SN_frame_def simp del: snsubscribe_body.simps)
  then have o2: "sns_packetid out = msgId" "topic_type (sns_topicFilter out) = MQTTSN_TOPIC_TYPE_PREDEFINED" "topic_data (sns_topicFilter out) = Topic_id i"
    by (auto simp: snsubscribe_view_def assms(3) elim: topic_norm.elims)
  have "getTopicById (lo_addr lo) ts (sns_topicFilter out) = getTopicById 0 ts f" for ts
    using o2 by (simp add: getTopicById_def assms(3) union_id_def)
  then show ?thesis
    using c(1,3) ty out(1) o2(1,2) assms(4-6)
    by (simp add: handle_client_packet_def isAggregatedClient_def transparent_client_def SN_handleSubscribe_def Let_def del: snsubscribe_body.simps)
qed

lemma bind_None: "Option.bind m (\<lambda>x. None) = None"
  by (cases m) simp_all

lemma connect_no_cstring:
  assumes "sn_cstring (snc_clientID data) = None" "MQTTSNDeserialize_connect data buf n = Some (rc, data')"
  shows "sn_cstring (snc_clientID data') = None"
  using assms by (auto simp: MQTTSNDeserialize_connect_def readMQTTSNString_def Let_def split: Option.bind_splits if_splits)

lemma connect_long_identifier:
  assumes "getClient_addr (Some addr) (gw_clientList g) = None" "\<not> ad_isActive (gw_qosm1Proxy g)" "snconnect_ok options"
    "length (MQTTSNString_bytes (snc_clientID options)) > 64"
  shows "ClientRecvTask_round addr (SN_frame (snconnect_body options)) g = None"
proof -
  let ?p = "SN_frame (snconnect_body options)"
  have f: "frame_ok (snconnect_body options)"
    using assms(3) by (simp add: snconnect_ok_def)
  have ty: "SN_getType ?p = Some 4"
    using SN_getType_frame [OF f] by (simp add: snconnect_body_def)
  have n: "\<not> spk_bufLen ?p < 2"
    using f by (auto simp: SN_frame_def sn_frame_def sn_len_field_def frame_ok_def Suc_le_eq numeral_2_eq_2)
  obtain data where data: "SN_getCONNECT MQTTSNPacket_connectData_initializer ?p = Some (1, data)" "MQTTSNString_bytes (snc_clientID data) = MQTTSNString_bytes (snc_clientID options)"
    using snconnect.reads [OF assms(3), of "int (length (sn_frame (snconnect_body options)))" MQTTSNPacket_connectData_initializer "[]"]
    by (auto simp: SN_getCONNECT_def SN_frame_def snconnect_view_def snconnect_val_def)
  have "sn_cstring (snc_clientID data) = None"
  proof (rule connect_no_cstring)
    show "sn_cstring (snc_clientID MQTTSNPacket_connectData_initializer) = None"
      by (simp add: MQTTSNPacket_connectData_initializer_def MQTTSNString_initializer_def)
    show "MQTTSNDeserialize_connect MQTTSNPacket_connectData_initializer (sn_frame (snconnect_body options)) (int (length (sn_frame (snconnect_body options)))) = Some (1, data)"
      using data(1) by (simp add: SN_getCONNECT_def SN_frame_def)
  qed
  then have "log_clientId (snc_clientID data) = None"
    using assms(4) unfolding data(2) [symmetric] by (auto simp: log_clientId_def Let_def MQTTSNString_bytes_def cptr_bytes_def split: if_splits option.splits)
  then have "connect_new addr None nodeId ?p g = None" for nodeId
    using data(1) by (simp add: connect_new_def case_prod_beta' bind_None)
  then show ?thesis
    using n ty assms(1,2) by (simp add: ClientRecvTask_round_def)
qed


text \<open>Datagrams that make the gateway follow a null pointer or overrun an array. A REGISTER for a new name when the table of topics of the client is full; a SUBSCRIBE to a predefined topic that neither the client nor the
  gateway has; a CONNECT with an identifier of more than 64 bytes from an address that no client has, whose identifier the log copies into an array of 65 bytes.\<close>

theorem gateway_undefined_behaviour:
  shows "(direct_client addr c cl g \<and> (isActive cl \<or> isAwake cl) \<and> frame_ok (register_bytes i msgId name) \<and> find_name (cl_topics cl) name = None \<and>
      length (ts_topics (cl_topics cl)) = 50 \<longrightarrow> handle_client_packet lo c (SN_frame (register_bytes i msgId name)) g = None) \<and>
    (direct_client addr c cl g \<and> snsubscribe_ok (dup, qos, msgId, f) \<and> f = \<lparr>topic_type = MQTTSN_TOPIC_TYPE_PREDEFINED, topic_data = Topic_id i\<rparr> \<and> msgId \<noteq> 0 \<and>
      getTopicById 0 (cl_topics cl) f = None \<and> getTopicById 0 (gw_topics g) f = None \<longrightarrow>
      handle_client_packet lo c (SN_frame (snsubscribe_body (dup, qos, msgId, f))) g = None) \<and>
    (getClient_addr (Some addr) (gw_clientList g) = None \<and> \<not> ad_isActive (gw_qosm1Proxy g) \<and> snconnect_ok options \<and>
      length (MQTTSNString_bytes (snc_clientID options)) > 64 \<longrightarrow> ClientRecvTask_round addr (SN_frame (snconnect_body options)) g = None)"
  by (intro conjI impI; elim conjE) (rule register_full_table subscribe_unknown_predefined connect_long_identifier; assumption)+

theorem gateway_undefined_behaviour_witness:
  "handle_client_packet some_locals 1 (SN_frame [18, 1, 0, 7, 0, 9]) (demo_gateway (demo_client Cstat_Active)) = None"
proof -
  let ?f = "\<lparr>topic_type = MQTTSN_TOPIC_TYPE_PREDEFINED, topic_data = Topic_id 9\<rparr>" and ?cl = "demo_client Cstat_Active"
  have b: "snsubscribe_body (0, 0, 7, ?f) = [18, 1, 0, 7, 0, 9]"
    by code_simp
  have ok: "snsubscribe_ok (0, 0, 7, ?f)"
    by (simp only: snsubscribe_ok.simps b) (simp add: frame_ok_def filter_ok_def)
  have "getTopicById 0 (snd (Topics_add_name Topics_init [97, 47, 98] 0)) ?f = None"
    by code_simp
  then have t: "getTopicById 0 (cl_topics ?cl) ?f = None" "getTopicById 0 (gw_topics (demo_gateway ?cl)) ?f = None"
    by (simp_all add: demo_client_def demo_gateway_def Gateway_new_def getTopicById_def Topics_init_def)
  show ?thesis
    using gateway_undefined_behaviour [of "\<lparr>sna_portNo = 9, sna_IpAddr = 7\<rparr>" 1 ?cl "demo_gateway ?cl" 9 7 "[]" some_locals 0 0 ?f] demo_active ok t
    unfolding b by (simp del: snsubscribe_ok.simps)
qed

end
