(* ===== verification/MQTTSNGW_XBee.thy ===== *)
theory MQTTSNGW_XBee
  imports MQTT_Transport
begin

text \<open>
  The gateway on an XBee radio, \<^verbatim>\<open>linux/xbee/SensorNetwork.cpp\<close>: addresses, frames on the serial line and their escaping, sending and
  receiving. The serial line (class \<open>SerialPort\<close>, which is system calls) is the parameter \<open>serial_ops\<close>.
\<close>

subsection \<open>Data\<close>

abbreviation (input) API_XMITREQUEST :: byte where "API_XMITREQUEST \<equiv> 0x10"
abbreviation (input) API_RESPONSE :: byte where "API_RESPONSE \<equiv> 0x90"
abbreviation (input) API_XMITSTATUS :: byte where "API_XMITSTATUS \<equiv> 0x8B"
abbreviation (input) START_BYTE :: byte where "START_BYTE \<equiv> 0x7e"
abbreviation (input) ESCAPE :: byte where "ESCAPE \<equiv> 0x7d"
abbreviation (input) XON :: byte where "XON \<equiv> 0x11"
abbreviation (input) XOFF :: byte where "XOFF \<equiv> 0x13"

text \<open>\<open>serial_recv\<close> is the result of \<open>SerialPort::recv\<close> and the byte it read; the result of \<open>SerialPort::send\<close> is never used.\<close>

record 's serial_ops =
  serial_recv :: "'s \<Rightarrow> byte option \<times> 's"
  serial_send :: "'s \<Rightarrow> byte \<Rightarrow> 's"
  serial_flush :: "'s \<Rightarrow> 's"

record XBeeAddress =
  address64 :: "byte list"
  address16 :: "byte list"

record XBee =
  xb_frameId :: byte
  xb_respCd :: byte
  xb_respId :: byte
  xb_apiMode :: byte

definition XBeeAddress_new :: XBeeAddress where
  "XBeeAddress_new = \<lparr>address64 = replicate 8 0, address16 = replicate 2 0\<rparr>"

definition XBeeAddress_setAddress :: "byte list \<Rightarrow> byte list \<Rightarrow> XBeeAddress option" where
  "XBeeAddress_setAddress a64 a16 =
     (if 8 \<le> length a64 \<and> 2 \<le> length a16 then Some \<lparr>address64 = take 8 a64, address16 = take 2 a16\<rparr> else None)"

definition XBeeAddress_setAddress_string :: "byte list \<Rightarrow> XBeeAddress option" where
  "XBeeAddress_setAddress_string s =
     (if 8 \<le> length s + 1 then Some \<lparr>address64 = take 8 (s @ [0]), address16 = replicate 2 0\<rparr> else None)"

definition XBeeAddress_setBroadcastAddress :: XBeeAddress where
  "XBeeAddress_setBroadcastAddress = \<lparr>address64 = replicate 6 0 @ [0xff, 0xff], address16 = [0xff, 0xfe]\<rparr>"

definition XBeeAddress_isMatch :: "XBeeAddress \<Rightarrow> XBeeAddress \<Rightarrow> bool" where
  "XBeeAddress_isMatch a b = (address64 a = address64 b \<and> address16 a = address16 b)"

definition XBee_new :: XBee where
  "XBee_new = \<lparr>xb_frameId = 0, xb_respCd = 0, xb_respId = 0, xb_apiMode = 2\<rparr>"

definition XBee_setApiMode :: "XBee \<Rightarrow> byte \<Rightarrow> XBee" where
  "XBee_setApiMode x mode = x\<lparr>xb_apiMode := mode\<rparr>"

subsection \<open>Sending\<close>

definition XBee_send_byte :: "'s serial_ops \<Rightarrow> XBee \<Rightarrow> 's \<Rightarrow> byte \<Rightarrow> 's" where
  "XBee_send_byte p x s c =
     (if xb_apiMode x = 2 \<and> (c = START_BYTE \<or> c = ESCAPE \<or> c = XON \<or> c = XOFF)
      then serial_send p (serial_send p s ESCAPE) (xor c 0x20)
      else serial_send p s c)"

text \<open>The loops of \<open>send\<close>: each byte is written and added to the checksum.\<close>

fun XBee_send_sum :: "'s serial_ops \<Rightarrow> XBee \<Rightarrow> 's \<Rightarrow> byte \<Rightarrow> byte list \<Rightarrow> byte \<times> 's" where
  "XBee_send_sum p x s checksum [] = (checksum, s)"
| "XBee_send_sum p x s checksum (c # cs) = XBee_send_sum p x (XBee_send_byte p x s c) (checksum + c) cs"

definition XBee_nextFrameId :: "byte \<Rightarrow> byte" where
  "XBee_nextFrameId i = (if i = 0 then 1 else i + 1)"

text \<open>\<open>resp\<close> is the status that the receiving thread stores while \<open>send\<close> waits for it, if one arrives in time.\<close>

definition XBee_send ::
  "'s serial_ops \<Rightarrow> XBee \<Rightarrow> 's \<Rightarrow> byte list \<Rightarrow> byte \<Rightarrow> XBeeAddress \<Rightarrow> (byte \<times> byte) option \<Rightarrow> (int \<times> 's \<times> XBee) option" where
  "XBee_send p x s payload pLen addr resp =
     (if unat pLen \<le> length payload
      then let x = x\<lparr>xb_respCd := - 1\<rparr>;
               s = serial_send p s START_BYTE;
               s = XBee_send_byte p x s 0;
               s = XBee_send_byte p x s (14 + pLen);
               s = serial_send p s API_XMITREQUEST;
               checksum = 0 + API_XMITREQUEST;
               x = x\<lparr>xb_frameId := XBee_nextFrameId (xb_frameId x)\<rparr>;
               (checksum, s) = XBee_send_sum p x s checksum [xb_frameId x];
               (checksum, s) = XBee_send_sum p x s checksum (address64 addr);
               (checksum, s) = XBee_send_sum p x s checksum (address16 addr);
               (checksum, s) = XBee_send_sum p x s checksum [0, 0];
               (checksum, s) = XBee_send_sum p x s checksum (take (unat pLen) payload);
               s = XBee_send_byte p x s (0xff - checksum);
               x = (case resp of Some (cd, i) \<Rightarrow> x\<lparr>xb_respCd := cd, xb_respId := i\<rparr> | None \<Rightarrow> x)
           in Some (if xb_respCd x \<noteq> 0 \<or> xb_frameId x \<noteq> xb_respId x then - 1 else uint pLen, s, x)
      else None)"

definition XBee_unicast ::
  "'s serial_ops \<Rightarrow> XBee \<Rightarrow> 's \<Rightarrow> byte list \<Rightarrow> u16 \<Rightarrow> XBeeAddress \<Rightarrow> (byte \<times> byte) option \<Rightarrow> (int \<times> 's \<times> XBee) option" where
  "XBee_unicast p x s payload payloadLen addr resp = XBee_send p x s payload (ucast payloadLen) addr resp"

definition XBee_broadcast ::
  "'s serial_ops \<Rightarrow> XBee \<Rightarrow> 's \<Rightarrow> byte list \<Rightarrow> u16 \<Rightarrow> (byte \<times> byte) option \<Rightarrow> (int \<times> 's \<times> XBee) option" where
  "XBee_broadcast p x s payload payloadLen resp = XBee_send p x s payload (ucast payloadLen) XBeeAddress_setBroadcastAddress resp"

subsection \<open>Receiving\<close>

text \<open>\<open>recv(buf)\<close>: whether it returned 0, and the byte in \<open>buf\<close> after it.\<close>

definition XBee_recv_byte :: "'s serial_ops \<Rightarrow> XBee \<Rightarrow> 's \<Rightarrow> byte \<Rightarrow> bool \<times> byte \<times> 's" where
  "XBee_recv_byte p x s buf =
     (case serial_recv p s of
        (None, s) \<Rightarrow> (False, buf, s)
      | (Some b, s) \<Rightarrow>
          if b = ESCAPE \<and> xb_apiMode x = 2
          then (case serial_recv p s of
                  (None, s) \<Rightarrow> (True, xor 0x20 b, s)
                | (Some b', s) \<Rightarrow> (True, xor 0x20 b', s))
          else (True, b, s))"

partial_function (option) XBee_find_start :: "'s serial_ops \<Rightarrow> 's \<Rightarrow> (bool \<times> 's) option" where
  "XBee_find_start p s =
     (case serial_recv p s of
        (None, s) \<Rightarrow> Some (False, s)
      | (Some b, s) \<Rightarrow> if b = START_BYTE then Some (True, s) else XBee_find_start p s)"

declare XBee_find_start.simps [code]

text \<open>The loop that fills \<open>recvData\<close>, an array of 128 bytes of the caller.\<close>

primrec XBee_read_data ::
  "'s serial_ops \<Rightarrow> XBee \<Rightarrow> nat \<Rightarrow> 's \<Rightarrow> nat \<Rightarrow> byte \<Rightarrow> byte \<Rightarrow> buffer \<Rightarrow> (bool \<times> nat \<times> byte \<times> byte \<times> buffer \<times> 's) option" where
  "XBee_read_data p x 0 s pos checksum buf recvData = Some (True, pos, checksum, buf, recvData, s)"
| "XBee_read_data p x (Suc len) s pos checksum buf recvData =
     (case XBee_recv_byte p x s buf of
        (False, buf, s) \<Rightarrow> Some (False, pos, checksum, buf, recvData, s)
      | (True, buf, s) \<Rightarrow> do {
          recvData \<leftarrow> put_bytes recvData pos [buf];
          XBee_read_data p x len s (pos + 1) (checksum + buf) buf recvData })"

definition XBee_readApiFrame :: "'s serial_ops \<Rightarrow> XBee \<Rightarrow> 's \<Rightarrow> buffer \<Rightarrow> (int \<times> buffer \<times> 's) option" where
  "XBee_readApiFrame p x s recvData = do {
     (found, s) \<leftarrow> XBee_find_start p s;
     if \<not> found then Some (- 1, recvData, serial_flush p s)
     else case XBee_recv_byte p x s START_BYTE of (ok, buf, s) \<Rightarrow>
       if \<not> ok then Some (- 1, recvData, serial_flush p s)
       else case XBee_recv_byte p x s buf of (ok, buf, s) \<Rightarrow>
         if \<not> ok then Some (- 1, recvData, serial_flush p s)
         else do {
           (ok, pos, checksum, buf, recvData, s) \<leftarrow> XBee_read_data p x (unat buf) s 0 0 buf recvData;
           if \<not> ok then Some (- 1, recvData, serial_flush p s)
           else case XBee_recv_byte p x s buf of (_, buf, s) \<Rightarrow>
             if 0xff - checksum = buf then Some (int pos, recvData, s)
             else Some (- 1, recvData, serial_flush p s) } }"

text \<open>\<open>recv(buf, bufLen, clientAddr)\<close>; \<open>bufLen\<close> is not used. A negative size of \<open>memcpy\<close> is undefined.\<close>

partial_function (option) XBee_recv ::
  "'s serial_ops \<Rightarrow> XBee \<Rightarrow> 's \<Rightarrow> buffer \<Rightarrow> buffer \<Rightarrow> XBeeAddress \<Rightarrow> (int \<times> buffer \<times> XBeeAddress \<times> XBee \<times> 's) option" where
  "XBee_recv p x s data buf clientAddr =
     Option.bind (XBee_readApiFrame p x s data) (\<lambda>(len, data, s).
       if len > 0
       then if hd data = API_RESPONSE
            then if len < 12 then None
                 else Option.bind (put_bytes buf 0 (take (nat (len - 12)) (drop 12 data))) (\<lambda>buf.
                   Some (len - 12, buf, \<lparr>address64 = take 8 (drop 1 data), address16 = take 2 (drop 9 data)\<rparr>, x, s))
            else if hd data = API_XMITSTATUS
            then XBee_recv p (x\<lparr>xb_respCd := data ! 5, xb_respId := data ! 1\<rparr>) s data buf clientAddr
            else XBee_recv p x s data buf clientAddr
       else Some (0, buf, clientAddr, x, s))"

declare XBee_recv.simps [code]

subsection \<open>Frames on the serial line\<close>

definition xbee_escape :: "byte \<Rightarrow> byte \<Rightarrow> byte list" where
  "xbee_escape mode c =
     (if mode = 2 \<and> (c = START_BYTE \<or> c = ESCAPE \<or> c = XON \<or> c = XOFF) then [ESCAPE, xor c 0x20] else [c])"

definition xbee_escapes :: "byte \<Rightarrow> byte list \<Rightarrow> byte list" where
  "xbee_escapes mode cs = concat (map (xbee_escape mode) cs)"

definition xbee_frame :: "byte \<Rightarrow> byte list \<Rightarrow> byte list" where
  "xbee_frame mode content =
     START_BYTE # xbee_escapes mode (0 # of_nat (length content) # content @ [0xff - sum_list content])"

lemma xbee_escapes_simps [simp]:
  "xbee_escapes mode [] = []"
  "xbee_escapes mode (c # cs) = xbee_escape mode c @ xbee_escapes mode cs"
  "xbee_escapes mode (cs @ ds) = xbee_escapes mode cs @ xbee_escapes mode ds"
  by (simp_all add: xbee_escapes_def)

text \<open>The contract of the serial line: bytes come in order, and every byte sent is written.\<close>

locale serial_line =
  fixes p :: "'s serial_ops"
    and incoming :: "'s \<Rightarrow> byte list"
    and outgoing :: "'s \<Rightarrow> byte list"
  assumes recv_next: "incoming s = b # bs \<Longrightarrow> \<exists>s'. serial_recv p s = (Some b, s') \<and> incoming s' = bs"
    and recv_silent: "incoming s = [] \<Longrightarrow> \<exists>s'. serial_recv p s = (None, s') \<and> incoming s' = []"
    and send_next: "outgoing (serial_send p s b) = outgoing s @ [b]"
begin

lemma send_byte_writes: "outgoing (XBee_send_byte p x s c) = outgoing s @ xbee_escape (xb_apiMode x) c"
  by (auto simp: XBee_send_byte_def xbee_escape_def send_next)

lemma send_sum_writes:
  "XBee_send_sum p x s k cs = (k', s') \<Longrightarrow> k' = k + sum_list cs \<and> outgoing s' = outgoing s @ xbee_escapes (xb_apiMode x) cs"
  by (induction cs arbitrary: s k) (fastforce simp: send_byte_writes add.assoc)+

lemma send_writes_frame:
  assumes "unat pLen \<le> length payload" "length (address64 addr) = 8" "length (address16 addr) = 2" "unat pLen \<le> 241"
  shows "\<exists>rc s' x'. XBee_send p x s payload pLen addr resp = Some (rc, s', x') \<and>
    outgoing s' = outgoing s @ xbee_frame (xb_apiMode x) (API_XMITREQUEST # XBee_nextFrameId (xb_frameId x) #
      address64 addr @ address16 addr @ [0, 0] @ take (unat pLen) payload)"
proof -
  let ?m = "xb_apiMode x" and ?i = "XBee_nextFrameId (xb_frameId x)" and ?x = "x\<lparr>xb_respCd := - 1, xb_frameId := XBee_nextFrameId (xb_frameId x)\<rparr>"
  let ?s0 = "serial_send p (XBee_send_byte p (x\<lparr>xb_respCd := - 1\<rparr>) (XBee_send_byte p (x\<lparr>xb_respCd := - 1\<rparr>) (serial_send p s START_BYTE) 0) (14 + pLen)) API_XMITREQUEST"
  obtain k1 s1 where 1: "XBee_send_sum p ?x ?s0 API_XMITREQUEST [?i] = (k1, s1)" by force
  obtain k2 s2 where 2: "XBee_send_sum p ?x s1 k1 (address64 addr) = (k2, s2)" by force
  obtain k3 s3 where 3: "XBee_send_sum p ?x s2 k2 (address16 addr) = (k3, s3)" by force
  obtain k4 s4 where 4: "XBee_send_sum p ?x s3 k3 [0, 0] = (k4, s4)" by force
  obtain k5 s5 where 5: "XBee_send_sum p ?x s4 k4 (take (unat pLen) payload) = (k5, s5)" by force
  note sums = send_sum_writes [OF 1] send_sum_writes [OF 2] send_sum_writes [OF 3] send_sum_writes [OF 4] send_sum_writes [OF 5]
  have len: "of_nat (length (API_XMITREQUEST # ?i # address64 addr @ address16 addr @ [0, 0] @ take (unat pLen) payload)) = 14 + pLen"
    using assms(1-3) by simp
  have "xbee_escape ?m API_XMITREQUEST = [API_XMITREQUEST]"
    by (simp add: xbee_escape_def)
  moreover have "k5 = sum_list (API_XMITREQUEST # ?i # address64 addr @ address16 addr @ [0, 0] @ take (unat pLen) payload)"
    using sums by (simp add: add.assoc)
  ultimately have "outgoing (XBee_send_byte p ?x s5 (0xff - k5)) = outgoing s @ xbee_frame ?m (API_XMITREQUEST # ?i #
      address64 addr @ address16 addr @ [0, 0] @ take (unat pLen) payload)"
    using sums unfolding xbee_frame_def len by (simp add: send_byte_writes send_next)
  then show ?thesis
    using assms(1) 1 2 3 4 5 by (simp add: XBee_send_def Let_def)
qed

lemma recv_byte_escaped:
  assumes "incoming s = xbee_escape (xb_apiMode x) c @ rest"
  shows "\<exists>s'. XBee_recv_byte p x s buf = (True, c, s') \<and> incoming s' = rest"
proof (cases "xb_apiMode x = 2 \<and> (c = START_BYTE \<or> c = ESCAPE \<or> c = XON \<or> c = XOFF)")
  case True
  then obtain s1 where s1: "serial_recv p s = (Some ESCAPE, s1)" "incoming s1 = xor c 0x20 # rest"
    using recv_next [of s ESCAPE] assms by (auto simp: xbee_escape_def)
  obtain s2 where "serial_recv p s1 = (Some (xor c 0x20), s2)" "incoming s2 = rest"
    using recv_next [OF s1(2)] by blast
  moreover have "xor 0x20 (xor c 0x20) = c"
    by (metis xor.assoc xor.commute xor.right_neutral xor_self_eq)
  ultimately show ?thesis
    using True s1(1) by (simp add: XBee_recv_byte_def)
next
  case False
  then obtain s1 where "serial_recv p s = (Some c, s1)" "incoming s1 = rest"
    using recv_next [of s c] assms by (auto simp: xbee_escape_def)
  then show ?thesis
    using False by (auto simp: XBee_recv_byte_def)
qed

lemma find_start_skips:
  "incoming s = junk @ START_BYTE # rest \<Longrightarrow> START_BYTE \<notin> set junk \<Longrightarrow>
     \<exists>s'. XBee_find_start p s = Some (True, s') \<and> incoming s' = rest"
proof (induction junk arbitrary: s)
  case Nil
  then show ?case
    using recv_next [of s START_BYTE rest] by (subst XBee_find_start.simps) auto
next
  case (Cons b junk)
  then obtain s1 where "serial_recv p s = (Some b, s1)" "incoming s1 = junk @ START_BYTE # rest"
    using recv_next [of s b] by auto
  then show ?case
    using Cons.IH [of s1] Cons.prems(2) by (subst XBee_find_start.simps) auto
qed

lemma read_data_reads:
  "incoming s = xbee_escapes (xb_apiMode x) cs @ rest \<Longrightarrow> pos + length cs \<le> length data \<Longrightarrow>
     \<exists>b s'. XBee_read_data p x (length cs) s pos k buf data =
       Some (True, pos + length cs, k + sum_list cs, b, take pos data @ cs @ drop (pos + length cs) data, s') \<and> incoming s' = rest"
proof (induction cs arbitrary: s pos k buf data)
  case Nil
  then show ?case by simp
next
  case (Cons c cs)
  obtain s1 where s1: "XBee_recv_byte p x s buf = (True, c, s1)" "incoming s1 = xbee_escapes (xb_apiMode x) cs @ rest"
    using recv_byte_escaped [of s x c "xbee_escapes (xb_apiMode x) cs @ rest" buf] Cons.prems(1) by auto
  let ?data = "take pos data @ c # drop (Suc pos) data"
  have put: "put_bytes data pos [c] = Some ?data"
    using Cons.prems(2) by (simp add: put_bytes_def)
  have "take (Suc pos) ?data = take pos data @ [c]" "drop (Suc pos + length cs) ?data = drop (Suc pos + length cs) data"
    using Cons.prems(2) by (simp_all add: min_def add.commute)
  then show ?case
    using Cons.IH [OF s1(2), of "Suc pos" ?data "k + c" c] s1(1) put Cons.prems(2) by (auto simp: add.assoc)
qed

lemma readApiFrame_reads:
  assumes "incoming s = junk @ xbee_frame (xb_apiMode x) content @ rest" "START_BYTE \<notin> set junk" "length content \<le> length data"
    and "length content < 256"
  shows "\<exists>s'. XBee_readApiFrame p x s data = Some (int (length content), content @ drop (length content) data, s') \<and> incoming s' = rest"
proof -
  let ?m = "xb_apiMode x" and ?k = "0xff - sum_list content"
  obtain s1 where 1: "XBee_find_start p s = Some (True, s1)"
    "incoming s1 = xbee_escape ?m 0 @ xbee_escape ?m (of_nat (length content)) @ xbee_escapes ?m content @ xbee_escape ?m ?k @ rest"
    using find_start_skips [OF _ assms(2), of s] assms(1) by (auto simp: xbee_frame_def)
  obtain s2 where 2: "XBee_recv_byte p x s1 START_BYTE = (True, 0, s2)"
    "incoming s2 = xbee_escape ?m (of_nat (length content)) @ xbee_escapes ?m content @ xbee_escape ?m ?k @ rest"
    using recv_byte_escaped [OF 1(2)] by blast
  obtain s3 where 3: "XBee_recv_byte p x s2 0 = (True, of_nat (length content), s3)"
    "incoming s3 = xbee_escapes ?m content @ xbee_escape ?m ?k @ rest"
    using recv_byte_escaped [OF 2(2)] by blast
  have n: "unat (of_nat (length content) :: byte) = length content"
    using assms(4) by (simp add: unat_of_nat)
  obtain b s4 where 4: "XBee_read_data p x (length content) s3 0 0 (of_nat (length content)) data =
      Some (True, length content, sum_list content, b, content @ drop (length content) data, s4)" "incoming s4 = xbee_escape ?m ?k @ rest"
    using read_data_reads [OF 3(2), of 0 data 0 "of_nat (length content)"] assms(3) by auto
  obtain s5 where "XBee_recv_byte p x s4 b = (True, ?k, s5)" "incoming s5 = rest"
    using recv_byte_escaped [OF 4(2)] by blast
  then show ?thesis
    using 1(1) 2(1) 3(1) 4(1) n by (simp add: XBee_readApiFrame_def)
qed

text \<open>\<open>recv\<close> stores the status of each transmission it finds on the line and returns the first packet.\<close>

lemma recv_returns_packet:
  assumes "length data = 128" "length a64 = 8" "length a16 = 2" "length payload \<le> 116" "length payload \<le> length buf"
    and "\<forall>c \<in> set statuses. hd c = API_XMITSTATUS \<and> 6 \<le> length c \<and> length c \<le> 128"
    and "incoming s = concat (map (xbee_frame (xb_apiMode x)) statuses) @
        xbee_frame (xb_apiMode x) (API_RESPONSE # a64 @ a16 @ options # payload) @ rest"
  shows "\<exists>s'. XBee_recv p x s data buf addr = Some (int (length payload), payload @ drop (length payload) buf,
      \<lparr>address64 = a64, address16 = a16\<rparr>, fold (\<lambda>c x. x\<lparr>xb_respCd := c ! 5, xb_respId := c ! 1\<rparr>) statuses x, s') \<and> incoming s' = rest"
  using assms(1,6,7)
proof (induction statuses arbitrary: s x data)
  case Nil
  let ?c = "API_RESPONSE # a64 @ a16 @ options # payload"
  obtain s1 where s1: "XBee_readApiFrame p x s data = Some (int (length ?c), ?c @ drop (length ?c) data, s1)" "incoming s1 = rest"
    using readApiFrame_reads [of s "[]" x ?c rest data] Nil assms(2-4) by auto
  have "put_bytes buf 0 payload = Some (payload @ drop (length payload) buf)"
    using assms(5) by (simp add: put_bytes_def)
  then show ?case
    using s1 assms(2-4) by (subst XBee_recv.simps) simp
next
  case (Cons c statuses)
  obtain s1 where s1: "XBee_readApiFrame p x s data = Some (int (length c), c @ drop (length c) data, s1)"
    "incoming s1 = concat (map (xbee_frame (xb_apiMode x)) statuses) @
        xbee_frame (xb_apiMode x) (API_RESPONSE # a64 @ a16 @ options # payload) @ rest"
    using readApiFrame_reads [of s "[]" x c _ data] Cons.prems by auto
  have c: "c \<noteq> []" "hd c = API_XMITSTATUS" "6 \<le> length c" "length c \<le> 128"
    using Cons.prems(2) by auto
  then have d: "hd (c @ drop (length c) data) = API_XMITSTATUS" "(c @ drop (length c) data) ! 5 = c ! 5" "(c @ drop (length c) data) ! 1 = c ! 1"
    "length (c @ drop (length c) data) = 128"
    using Cons.prems(1) by (simp_all add: nth_append)
  show ?case
    using Cons.IH [OF d(4), of s1 "x\<lparr>xb_respCd := c ! 5, xb_respId := c ! 1\<rparr>"] Cons.prems(2) s1 c d
    by (subst XBee_recv.simps) simp
qed

text \<open>A frame that is longer than the array overruns it.\<close>

lemma read_data_overruns:
  "incoming s = xbee_escapes (xb_apiMode x) cs @ rest \<Longrightarrow> pos \<le> length data \<Longrightarrow> length data < pos + length cs \<Longrightarrow>
     XBee_read_data p x (length cs) s pos k buf data = None"
proof (induction cs arbitrary: s pos k buf data)
  case (Cons c cs)
  obtain s1 where s1: "XBee_recv_byte p x s buf = (True, c, s1)" "incoming s1 = xbee_escapes (xb_apiMode x) cs @ rest"
    using recv_byte_escaped [of s x c "xbee_escapes (xb_apiMode x) cs @ rest" buf] Cons.prems(1) by auto
  show ?case
  proof (cases "pos < length data")
    case True
    then have "put_bytes data pos [c] = Some (take pos data @ c # drop (Suc pos) data)"
      by (simp add: put_bytes_def)
    then show ?thesis
      using Cons.IH [OF s1(2), of "Suc pos" "take pos data @ c # drop (Suc pos) data"] s1(1) Cons.prems True by simp
  next
    case False
    then show ?thesis
      using s1(1) by (simp add: put_bytes_def)
  qed
qed simp

lemma readApiFrame_overruns:
  assumes "incoming s = xbee_frame (xb_apiMode x) content @ rest" "length data < length content" "length content < 256"
  shows "XBee_readApiFrame p x s data = None"
proof -
  let ?m = "xb_apiMode x" and ?k = "0xff - sum_list content"
  obtain s1 where 1: "XBee_find_start p s = Some (True, s1)"
    "incoming s1 = xbee_escape ?m 0 @ xbee_escape ?m (of_nat (length content)) @ xbee_escapes ?m content @ xbee_escape ?m ?k @ rest"
    using find_start_skips [of s "[]"] assms(1) by (auto simp: xbee_frame_def)
  obtain s2 where 2: "XBee_recv_byte p x s1 START_BYTE = (True, 0, s2)"
    "incoming s2 = xbee_escape ?m (of_nat (length content)) @ xbee_escapes ?m content @ xbee_escape ?m ?k @ rest"
    using recv_byte_escaped [OF 1(2)] by blast
  obtain s3 where 3: "XBee_recv_byte p x s2 0 = (True, of_nat (length content), s3)"
    "incoming s3 = xbee_escapes ?m content @ xbee_escape ?m ?k @ rest"
    using recv_byte_escaped [OF 2(2)] by blast
  have "unat (of_nat (length content) :: byte) = length content"
    using assms(3) by (simp add: unat_of_nat)
  then show ?thesis
    using 1(1) 2(1) 3(1) read_data_overruns [OF 3(2), of 0 data] assms(2) by (simp add: XBee_readApiFrame_def)
qed

end

subsection \<open>A simulated line\<close>

record serial_world =
  sw_in :: "byte list"
  sw_out :: "byte list"

definition sim_serial :: "serial_world serial_ops" where
  "sim_serial = \<lparr>
     serial_recv = (\<lambda>s. case sw_in s of [] \<Rightarrow> (None, s) | b # bs \<Rightarrow> (Some b, s\<lparr>sw_in := bs\<rparr>)),
     serial_send = (\<lambda>s b. s\<lparr>sw_out := sw_out s @ [b]\<rparr>),
     serial_flush = (\<lambda>s. s\<lparr>sw_in := []\<rparr>)\<rparr>"

interpretation simserial: serial_line sim_serial sw_in sw_out
  by unfold_locales (auto simp: sim_serial_def)

subsection \<open>Properties\<close>

text \<open>C32: The frames of the XBee driver can be read back. What \<open>send\<close> writes on one serial line for a payload of at most 114 bytes, with its
  escapes, length and checksum, is read by \<open>readApiFrame\<close> from another line as exactly the frame of the request (type, frame
  identifier, addresses and payload), also behind bytes without a start byte, and what follows on the line stays there.\<close>

theorem xbee_round_trip:
  assumes "serial_line p incoming outgoing" "serial_line q incoming' outgoing'"
    and "unat pLen \<le> length payload" "length (address64 addr) = 8" "length (address16 addr) = 2" "unat pLen \<le> 114"
    and "xb_apiMode y = xb_apiMode x" "length data = 128" "START_BYTE \<notin> set junk"
  shows "\<exists>rc s' x' sent. XBee_send p x s payload pLen addr resp = Some (rc, s', x') \<and> outgoing s' = outgoing s @ sent \<and>
    (incoming' r = junk @ sent @ rest \<longrightarrow>
      (\<exists>r' tail. XBee_readApiFrame q y r data = Some (14 + uint pLen,
          API_XMITREQUEST # xb_frameId x' # address64 addr @ address16 addr @ [0, 0] @ take (unat pLen) payload @ tail, r') \<and>
        incoming' r' = rest))"
proof -
  let ?i = "XBee_nextFrameId (xb_frameId x)"
  let ?content = "API_XMITREQUEST # ?i # address64 addr @ address16 addr @ [0, 0] @ take (unat pLen) payload"
  obtain rc s' x' where s: "XBee_send p x s payload pLen addr resp = Some (rc, s', x')"
    "outgoing s' = outgoing s @ xbee_frame (xb_apiMode x) ?content"
    using serial_line.send_writes_frame [OF assms(1,3-5), of x s resp] assms(6) by auto
  then have i: "xb_frameId x' = ?i"
    by (auto simp: XBee_send_def Let_def split: if_splits prod.splits option.splits)
  have len: "int (length ?content) = 14 + uint pLen"
    using assms(3-5) by simp
  have "\<exists>r'. XBee_readApiFrame q y r data = Some (int (length ?content), ?content @ drop (length ?content) data, r') \<and> incoming' r' = rest"
    if "incoming' r = junk @ xbee_frame (xb_apiMode x) ?content @ rest"
    using serial_line.readApiFrame_reads [OF assms(2) _ assms(9), of r y ?content rest data] that assms(3-8) by auto
  then show ?thesis
    using s i unfolding len by (intro exI [of _ rc] exI [of _ s'] exI [of _ x'] exI [of _ "xbee_frame (xb_apiMode x) ?content"]) auto
qed

definition demo_frame :: "byte list" where
  "demo_frame = [0x7e, 0, 16, 16, 1] @ replicate 12 0 @ [0x7d, 0x5e, 5, 107]"

lemma demo_send:
  "XBee_send sim_serial XBee_new \<lparr>sw_in = [], sw_out = []\<rparr> [0x7e, 5] 2 XBeeAddress_new (Some (0, 1)) =
     Some (2, \<lparr>sw_in = [], sw_out = demo_frame\<rparr>, XBee_new\<lparr>xb_frameId := 1, xb_respId := 1\<rparr>)"
  by code_simp

theorem xbee_round_trip_witness:
  "\<exists>r' tail. XBee_readApiFrame sim_serial XBee_new \<lparr>sw_in = 9 # demo_frame @ [7], sw_out = []\<rparr> (replicate 128 0) =
     Some (16, API_XMITREQUEST # 1 # replicate 8 0 @ replicate 2 0 @ [0, 0] @ [0x7e, 5] @ tail, r') \<and> sw_in r' = [7]"
  using xbee_round_trip [OF simserial.serial_line_axioms simserial.serial_line_axioms, of 2 "[0x7e, 5]" XBeeAddress_new XBee_new XBee_new
      "replicate 128 0" "[9]" "\<lparr>sw_in = [], sw_out = []\<rparr>" "Some (0, 1)" "\<lparr>sw_in = 9 # demo_frame @ [7], sw_out = []\<rparr>" "[7]"] demo_send
  by (auto simp: XBeeAddress_new_def)

text \<open>C35: \<open>recv\<close> of the XBee driver returns the next packet on the line. Behind any number of status frames and a packet of at most 116 bytes that fits
  into the buffer of the caller, it returns the length of the packet, stores the packet and the addresses of its sender, and has stored
  the last status for \<open>send\<close> to find.\<close>

theorem xbee_recv_delivers:
  assumes "serial_line p incoming outgoing" "length data = 128" "length a64 = 8" "length a16 = 2"
    and "length payload \<le> 116" "length payload \<le> length buf"
    and "\<forall>c \<in> set statuses. hd c = API_XMITSTATUS \<and> 6 \<le> length c \<and> length c \<le> 128"
    and "incoming s = concat (map (xbee_frame (xb_apiMode x)) statuses) @
        xbee_frame (xb_apiMode x) (API_RESPONSE # a64 @ a16 @ options # payload) @ rest"
  shows "\<exists>s'. XBee_recv p x s data buf addr = Some (int (length payload), payload @ drop (length payload) buf,
      \<lparr>address64 = a64, address16 = a16\<rparr>, fold (\<lambda>c x. x\<lparr>xb_respCd := c ! 5, xb_respId := c ! 1\<rparr>) statuses x, s') \<and> incoming s' = rest"
  by (rule serial_line.recv_returns_packet [OF assms])

theorem xbee_recv_delivers_witness:
  "\<exists>s'. XBee_recv sim_serial XBee_new \<lparr>sw_in = xbee_frame 2 [0x8B, 1, 0, 0, 0, 0, 0] @ xbee_frame 2 (API_RESPONSE # replicate 8 1 @ [2, 3] @ 0 # [5, 6]),
       sw_out = []\<rparr> (replicate 128 0) (replicate 4 0) XBeeAddress_new =
     Some (2, [5, 6, 0, 0], \<lparr>address64 = replicate 8 1, address16 = [2, 3]\<rparr>, XBee_new\<lparr>xb_respCd := 0, xb_respId := 1\<rparr>, s') \<and> sw_in s' = []"
  using xbee_recv_delivers [OF simserial.serial_line_axioms, of "replicate 128 0" "replicate 8 1" "[2, 3]" "[5, 6]" "replicate 4 0"
      "[[0x8B, 1, 0, 0, 0, 0, 0]]" "\<lparr>sw_in = xbee_frame 2 [0x8B, 1, 0, 0, 0, 0, 0] @ xbee_frame 2 (API_RESPONSE # replicate 8 1 @ [2, 3] @ 0 # [5, 6]),
       sw_out = []\<rparr>" XBee_new 0 "[]" XBeeAddress_new]
  by (simp add: XBee_new_def numeral_2_eq_2)

text \<open>Two kinds of frames make \<open>recv\<close> of the XBee driver undefined: a frame of 129 to 255 bytes overruns the array of 128 bytes that it is read into, and a packet
  frame of less than 12 bytes is copied with a negative size. Both have a valid checksum.\<close>

theorem xbee_recv_undefined:
  assumes "serial_line p incoming outgoing" "length data = 128" "incoming s = xbee_frame (xb_apiMode x) content @ rest"
    and "128 < length content \<and> length content < 256 \<or> content \<noteq> [] \<and> hd content = API_RESPONSE \<and> length content < 12"
  shows "XBee_recv p x s data buf addr = None"
proof (cases "128 < length content")
  case True
  then show ?thesis
    using serial_line.readApiFrame_overruns [OF assms(1,3)] assms(2,4) by (subst XBee_recv.simps) auto
next
  case False
  then have c: "content \<noteq> []" "hd content = API_RESPONSE" "length content < 12"
    using assms(4) by auto
  then obtain s' where "XBee_readApiFrame p x s data = Some (int (length content), content @ drop (length content) data, s')"
    using serial_line.readApiFrame_reads [OF assms(1), of s "[]" x content rest data] assms(2,3) by auto
  then show ?thesis
    using c by (subst XBee_recv.simps) simp
qed

theorem xbee_recv_undefined_witness:
  "XBee_recv sim_serial XBee_new \<lparr>sw_in = xbee_frame 2 [0x90, 1], sw_out = []\<rparr> (replicate 128 0) (replicate 4 0) XBeeAddress_new = None"
  by (rule xbee_recv_undefined [OF simserial.serial_line_axioms, where content = "[0x90, 1]" and rest = "[]"]) (simp_all add: XBee_new_def)

end
