(* ===== verification/MQTTSNGW_Config.thy ===== *)
theory MQTTSNGW_Config
  imports MQTT_Transport "HOL-Library.Sublist"
begin

text \<open>
  The configuration of the gateway: \<open>Process::getParam\<close> (\<^verbatim>\<open>MQTTSNGWProcess.cpp\<close>), which looks for a line of the configuration file, and the
  part of \<open>Gateway::initialize\<close> (\<^verbatim>\<open>MQTTSNGateway.cpp\<close>) that reads the parameters. A file is its bytes, or \<open>None\<close> if it cannot be opened.
\<close>

subsection \<open>Reading a parameter\<close>

abbreviation (input) MQTTSNGW_PARAM_MAX :: nat where "MQTTSNGW_PARAM_MAX \<equiv> 128"

text \<open>At most \<open>n\<close> characters of the file, up to and with a newline, as \<open>fgets\<close> of size \<open>n + 1\<close> reads them.\<close>

fun fgets_take :: "nat \<Rightarrow> byte list \<Rightarrow> byte list \<times> byte list" where
  "fgets_take 0 bs = ([], bs)"
| "fgets_take (Suc n) [] = ([], [])"
| "fgets_take (Suc n) (b # bs) = (if b = 10 then ([b], bs) else map_prod (Cons b) id (fgets_take n bs))"

definition c_string :: "byte list \<Rightarrow> byte list" where
  "c_string mem = takeWhile (\<lambda>c. c \<noteq> 0) mem"

definition strncmp_equal :: "byte list \<Rightarrow> byte list \<Rightarrow> bool" where
  "strncmp_equal mem parameter = (take (length parameter) (c_string mem) = parameter)"

text \<open>The two loops over \<open>str\<close>, which do not stop at its end: what is behind the first equals sign, and what is copied from there to \<open>param\<close>
  until a newline.\<close>

fun scan_equals :: "byte list \<Rightarrow> byte list option" where
  "scan_equals [] = None"
| "scan_equals (c # cs) = (if c = 61 then Some cs else scan_equals cs)"

fun copy_value :: "nat \<Rightarrow> byte list \<Rightarrow> byte list option" where
  "copy_value 0 mem = None"
| "copy_value (Suc room) [] = None"
| "copy_value (Suc room) (c # cs) = (if c = 10 then Some [] else map_option (Cons c) (copy_value room cs))"

definition isspace :: "byte \<Rightarrow> bool" where
  "isspace c = (c = 32 \<or> 9 \<le> c \<and> c \<le> 13)"

definition trim_value :: "byte list \<Rightarrow> byte list" where
  "trim_value param = dropWhile isspace (rev (dropWhile isspace (rev (c_string param))))"

lemma fgets_take_length: "length (snd (fgets_take n bs)) \<le> length bs"
  by (induction n bs rule: fgets_take.induct) auto

lemma fgets_take_shorter: "bs \<noteq> [] \<Longrightarrow> 0 < n \<Longrightarrow> length (snd (fgets_take n bs)) < length bs"
  using fgets_take_length by (cases bs; cases n) (auto simp: less_Suc_eq_le)

function getParam_loop :: "byte list \<Rightarrow> buffer \<Rightarrow> byte list \<Rightarrow> (int \<times> byte list option) option" where
  "getParam_loop parameter str file =
     (if file = [] then Some (- 3, None)
      else Option.bind (put_bytes str 0 (fst (fgets_take (MQTTSNGW_PARAM_MAX - 2) file) @ [0])) (\<lambda>str.
        if strncmp_equal str parameter
        then Option.bind (scan_equals str) (\<lambda>mem. Option.bind (copy_value MQTTSNGW_PARAM_MAX mem) (\<lambda>param.
               Some (0, Some (trim_value param))))
        else getParam_loop parameter str (snd (fgets_take (MQTTSNGW_PARAM_MAX - 2) file))))"
  by pat_completeness auto
termination
  by (relation "measure (\<lambda>(_, _, file). length file)") (auto intro: fgets_take_shorter)

declare getParam_loop.simps [simp del]

text \<open>The result and the value; \<open>str\<close> is the array before the call, which is not initialised.\<close>

definition Process_getParam :: "buffer \<Rightarrow> byte list option \<Rightarrow> byte list \<Rightarrow> (int \<times> byte list option) option" where
  "Process_getParam str config parameter =
     (case config of None \<Rightarrow> Some (- 1, None) | Some file \<Rightarrow> getParam_loop parameter str file)"

subsection \<open>The parameters of the gateway\<close>

datatype gw_exception = No_config_file | Invalid_Gateway_Id | Gateway_Name_missing

record GatewayParams =
  par_brokerName :: "byte list option"
  par_port :: "byte list option"
  par_portSecure :: "byte list option"
  par_certKey :: "byte list option"
  par_privateKey :: "byte list option"
  par_rootCApath :: "byte list option"
  par_rootCAfile :: "byte list option"
  par_gatewayId :: byte
  par_gatewayName :: "byte list option"
  par_mqttVersion :: byte
  par_maxInflightMsgs :: u16
  par_keepAlive :: u16
  par_loginId :: "byte list option"
  par_password :: "byte list option"
  par_clientAuthentication :: bool

definition GatewayParams_init :: GatewayParams where
  "GatewayParams_init = \<lparr>par_brokerName = None, par_port = None, par_portSecure = None, par_certKey = None, par_privateKey = None,
     par_rootCApath = None, par_rootCAfile = None, par_gatewayId = 0, par_gatewayName = None, par_mqttVersion = 0,
     par_maxInflightMsgs = 0, par_keepAlive = 0, par_loginId = None, par_password = None, par_clientAuthentication = False\<rparr>"

text \<open>\<open>MultiTaskProcess::getParam\<close> throws an exception if there is no file. The outer \<open>None\<close> is undefined behaviour.\<close>

definition MultiTaskProcess_getParam ::
  "buffer \<Rightarrow> byte list option \<Rightarrow> byte list \<Rightarrow> (gw_exception + byte list option) option" where
  "MultiTaskProcess_getParam str config parameter =
     map_option (\<lambda>(rc, v). if rc = - 1 then Inl No_config_file else if rc = 0 then Inr v else Inr None) (Process_getParam str config parameter)"

definition bind_param ::
  "(gw_exception + 'a) option \<Rightarrow> ('a \<Rightarrow> (gw_exception + 'b) option) \<Rightarrow> (gw_exception + 'b) option" where
  "bind_param m f = (case m of None \<Rightarrow> None | Some (Inl e) \<Rightarrow> Some (Inl e) | Some (Inr x) \<Rightarrow> f x)"

definition digits_value :: "byte list \<Rightarrow> int" where
  "digits_value s = foldl (\<lambda>n c. 10 * n + (uint c - 48)) 0 (takeWhile (\<lambda>c. 48 \<le> c \<and> c \<le> 57) s)"

text \<open>\<open>atoi\<close> is undefined for a number that is not an \<open>int\<close>.\<close>

definition atoi :: "byte list \<Rightarrow> int option" where
  "atoi s =
     (let s = dropWhile isspace s;
          v = (if s \<noteq> [] \<and> hd s = 45 then - digits_value (tl s)
               else if s \<noteq> [] \<and> hd s = 43 then digits_value (tl s) else digits_value s)
      in if - 2147483648 \<le> v \<and> v \<le> 2147483647 then Some v else None)"

text \<open>A number parameter: the value that is given, or the default, in both cases converted to the type of the field.\<close>

definition number_param :: "byte list option \<Rightarrow> int \<Rightarrow> int option" where
  "number_param param dflt = (case param of Some v \<Rightarrow> atoi v | None \<Rightarrow> Some dflt)"

definition ascii_lower :: "byte \<Rightarrow> byte" where
  "ascii_lower c = (if 65 \<le> c \<and> c \<le> 90 then c + 32 else c)"

definition strcasecmp_equal :: "byte list \<Rightarrow> byte list \<Rightarrow> bool" where
  "strcasecmp_equal a b = (map ascii_lower a = map ascii_lower b)"

abbreviation (input) bytes :: "string \<Rightarrow> byte list" where
  "bytes s \<equiv> map (\<lambda>c. of_nat (of_char c)) s"

definition Gateway_readParams :: "buffer \<Rightarrow> byte list option \<Rightarrow> (gw_exception + GatewayParams) option" where
  "Gateway_readParams str config =
     (let get = MultiTaskProcess_getParam str config; p = GatewayParams_init in
      bind_param (get (bytes ''BrokerName'')) (\<lambda>brokerName.
      bind_param (get (bytes ''BrokerPortNo'')) (\<lambda>port.
      bind_param (get (bytes ''BrokerSecurePortNo'')) (\<lambda>portSecure.
      bind_param (get (bytes ''CertKey'')) (\<lambda>certKey.
      bind_param (get (bytes ''PrivateKey'')) (\<lambda>privateKey.
      bind_param (get (bytes ''RootCApath'')) (\<lambda>rootCApath.
      bind_param (get (bytes ''RootCAfile'')) (\<lambda>rootCAfile.
      bind_param (get (bytes ''GatewayID'')) (\<lambda>gatewayID.
      Option.bind (number_param gatewayID (uint (par_gatewayId p))) (\<lambda>gatewayId.
      let p = p\<lparr>par_brokerName := brokerName, par_port := port, par_portSecure := portSecure, par_certKey := certKey,
                par_privateKey := privateKey, par_rootCApath := rootCApath, par_rootCAfile := rootCAfile,
                par_gatewayId := word_of_int gatewayId\<rparr> in
      if par_gatewayId p = 0 \<or> uint (par_gatewayId p) > 255 then Some (Inl Invalid_Gateway_Id)
      else
      bind_param (get (bytes ''GatewayName'')) (\<lambda>gatewayName.
      let p = p\<lparr>par_gatewayName := gatewayName\<rparr> in
      if par_gatewayName p = None then Some (Inl Gateway_Name_missing)
      else
      bind_param (get (bytes ''MQTTVersion'')) (\<lambda>v.
      Option.bind (number_param v 4) (\<lambda>mqttVersion.
      bind_param (get (bytes ''MaxInflightMsgs'')) (\<lambda>v.
      Option.bind (number_param v 4) (\<lambda>maxInflightMsgs.
      bind_param (get (bytes ''KeepAlive'')) (\<lambda>v.
      Option.bind (number_param v 900) (\<lambda>keepAlive.
      bind_param (get (bytes ''LoginID'')) (\<lambda>loginID.
      bind_param (get (bytes ''Password'')) (\<lambda>password.
      bind_param (get (bytes ''ClientAuthentication'')) (\<lambda>clientAuthentication.
      Some (Inr (p\<lparr>
        par_mqttVersion := word_of_int mqttVersion, par_maxInflightMsgs := word_of_int maxInflightMsgs, par_keepAlive := word_of_int keepAlive,
        par_loginId := loginID, par_password := password,
        par_clientAuthentication :=
          (case clientAuthentication of Some v \<Rightarrow> strcasecmp_equal v (bytes ''YES'') | None \<Rightarrow> par_clientAuthentication p)\<rparr>))))))))))))))))))))))"

subsection \<open>Configuration files\<close>

text \<open>A configuration file as its lines: settings, and lines that are empty or begin with a hash sign.\<close>

datatype conf_line = Setting "byte list" "byte list" | Remark "byte list"

fun line_text :: "conf_line \<Rightarrow> byte list" where
  "line_text (Setting n v) = n @ 61 # v"
| "line_text (Remark t) = t"

definition conf_bytes :: "conf_line list \<Rightarrow> byte list" where
  "conf_bytes ls = concat (map (\<lambda>l. line_text l @ [10]) ls)"

fun line_ok :: "conf_line \<Rightarrow> bool" where
  "line_ok (Setting n v) \<longleftrightarrow> {0, 10, 61} \<inter> set n = {} \<and> {0, 10} \<inter> set v = {} \<and> length n + length v < 125"
| "line_ok (Remark t) \<longleftrightarrow> {0, 10} \<inter> set t = {} \<and> length t < 126 \<and> (t = [] \<or> hd t = 35)"

definition param_ok :: "byte list \<Rightarrow> bool" where
  "param_ok p \<longleftrightarrow> p \<noteq> [] \<and> hd p \<noteq> 35 \<and> {0, 10, 61} \<inter> set p = {}"

text \<open>The value of a parameter: that of the first setting whose name begins with it.\<close>

fun conf_lookup :: "conf_line list \<Rightarrow> byte list \<Rightarrow> byte list option" where
  "conf_lookup [] p = None"
| "conf_lookup (Setting n v # ls) p = (if prefix p n then Some (trim_value v) else conf_lookup ls p)"
| "conf_lookup (Remark t # ls) p = conf_lookup ls p"

lemma fgets_line: "10 \<notin> set t \<Longrightarrow> length t < n \<Longrightarrow> fgets_take n (t @ 10 # rest) = (t @ [10], rest)"
proof (induction t arbitrary: n)
  case Nil
  then show ?case by (cases n) auto
next
  case (Cons c t)
  then show ?case by (cases n) auto
qed

lemma line_text_ok: "line_ok l \<Longrightarrow> 10 \<notin> set (line_text l) \<and> 0 \<notin> set (line_text l) \<and> length (line_text l) < 126"
  by (cases l) auto

lemma c_string_line: "0 \<notin> set t \<Longrightarrow> c_string (t @ 10 # 0 # rest) = t @ [10]"
proof -
  assume "0 \<notin> set t"
  then have "c_string ((t @ [10]) @ 0 # rest) = t @ [10]"
    unfolding c_string_def by (subst takeWhile_append2) auto
  then show ?thesis by simp
qed

lemma prefix_take: "prefix p t \<longleftrightarrow> take (length p) t = p"
  by (metis append_eq_conv_conj prefix_def take_is_prefix)

lemma prefix_until: "c \<notin> set p \<Longrightarrow> prefix p (n @ c # v) \<longleftrightarrow> prefix p n"
  by (auto simp: prefix_append prefix_Cons)

lemma strncmp_line:
  assumes "0 \<notin> set t" "param_ok p"
  shows "strncmp_equal (t @ 10 # 0 # rest) p \<longleftrightarrow> prefix p t"
proof -
  have "strncmp_equal (t @ 10 # 0 # rest) p \<longleftrightarrow> prefix p (t @ [10])"
    by (simp add: strncmp_equal_def c_string_line [OF assms(1)] prefix_take)
  also have "\<dots> \<longleftrightarrow> prefix p t"
    using prefix_until [of 10 p t "[]"] assms(2) by (auto simp: param_ok_def)
  finally show ?thesis .
qed

lemma scan_value: "61 \<notin> set n \<Longrightarrow> scan_equals (n @ 61 # v) = Some v"
  by (induction n) auto

lemma copy_value_line: "10 \<notin> set v \<Longrightarrow> length v < room \<Longrightarrow> copy_value room (v @ 10 # rest) = Some v"
proof (induction v arbitrary: room)
  case Nil
  then show ?case by (cases room) auto
next
  case (Cons c v)
  then show ?case by (cases room) auto
qed

lemma getParam_loop_finds:
  assumes "param_ok p"
  shows "list_all line_ok ls \<Longrightarrow> length str = 128 \<Longrightarrow>
    getParam_loop p str (conf_bytes ls) = Some (case conf_lookup ls p of Some v \<Rightarrow> (0, Some v) | None \<Rightarrow> (- 3, None))"
proof (induction ls arbitrary: str)
  case Nil
  then show ?case
    by (subst getParam_loop.simps) (simp add: conf_bytes_def)
next
  case (Cons l ls)
  let ?t = "line_text l"
  have l: "line_ok l" "10 \<notin> set ?t" "0 \<notin> set ?t" "length ?t < 126"
    using Cons.prems(1) line_text_ok [of l] by auto
  have bytes: "conf_bytes (l # ls) = ?t @ 10 # conf_bytes ls"
    by (simp add: conf_bytes_def)
  have f: "fgets_take 126 (conf_bytes (l # ls)) = (?t @ [10], conf_bytes ls)"
    unfolding bytes by (rule fgets_line [OF l(2,4)])
  let ?mem = "?t @ 10 # 0 # drop (length ?t + 2) str"
  have put: "put_bytes str 0 ((?t @ [10]) @ [0]) = Some ?mem"
    using l(4) Cons.prems(2) by (simp add: put_bytes_def)
  have len: "length ?mem = 128"
    using l(4) Cons.prems(2) by simp
  note step = getParam_loop.simps [of p str "conf_bytes (l # ls)"]
  have loop: "getParam_loop p str (conf_bytes (l # ls)) =
      (if prefix p ?t then Option.bind (scan_equals ?mem) (\<lambda>mem. Option.bind (copy_value 128 mem) (\<lambda>param. Some (0, Some (trim_value param))))
       else getParam_loop p ?mem (conf_bytes ls))"
    unfolding step using f put strncmp_line [OF l(3) assms] by (simp add: bytes)
  have IH: "getParam_loop p ?mem (conf_bytes ls) = Some (case conf_lookup ls p of Some v \<Rightarrow> (0, Some v) | None \<Rightarrow> (- 3, None))"
    using Cons.IH [OF _ len] Cons.prems(1) by simp
  show ?case
  proof (cases l)
    case (Setting n v)
    have p: "prefix p ?t \<longleftrightarrow> prefix p n"
      using Setting assms prefix_until [of 61 p n v] by (auto simp: param_ok_def)
    have "scan_equals ?mem = Some (v @ 10 # 0 # drop (length ?t + 2) str)"
      using scan_value [of n "v @ 10 # 0 # drop (length ?t + 2) str"] Setting l(1) by simp
    moreover have "copy_value 128 (v @ 10 # 0 # drop (length ?t + 2) str) = Some v"
      using copy_value_line [of v 128] Setting l(1) by auto
    ultimately show ?thesis
      using loop p IH Setting by simp
  next
    case (Remark t)
    then have "\<not> prefix p ?t"
      using l(1) assms by (auto simp: param_ok_def prefix_def)
    then show ?thesis
      using loop IH Remark by simp
  qed
qed

lemma getParam_lookup:
  assumes "param_ok p" "list_all line_ok ls" "length str = 128"
  shows "MultiTaskProcess_getParam str (Some (conf_bytes ls)) p = Some (Inr (conf_lookup ls p))"
  using getParam_loop_finds [OF assms]
  by (simp add: MultiTaskProcess_getParam_def Process_getParam_def split: option.split)

lemma bind_param_simps [simp]:
  "bind_param (Some (Inr x)) f = f x"
  "bind_param (Some (Inl e)) f = Some (Inl e)"
  "bind_param None f = None"
  by (simp_all add: bind_param_def)

lemma parameter_names:
  "list_all param_ok (map bytes [''BrokerName'', ''BrokerPortNo'', ''BrokerSecurePortNo'', ''CertKey'', ''PrivateKey'', ''RootCApath'',
     ''RootCAfile'', ''GatewayID'', ''GatewayName'', ''MQTTVersion'', ''MaxInflightMsgs'', ''KeepAlive'', ''LoginID'', ''Password'',
     ''ClientAuthentication''])"
  by code_simp

subsection \<open>Numbers\<close>

fun decimal :: "nat \<Rightarrow> byte list" where
  "decimal n = (if n < 10 then [48 + of_nat n] else decimal (n div 10) @ [48 + of_nat (n mod 10)])"

declare decimal.simps [simp del]

lemma digit_byte: "k < 10 \<Longrightarrow> uint (48 + of_nat k :: byte) = 48 + int k"
proof -
  assume k: "k < 10"
  then have "uint (of_nat k :: byte) = int k"
    using unat_of_nat [where 'a = 8, of k] by (simp add: uint_nat)
  then show ?thesis
    using k by (simp add: uint_word_ariths)
qed

lemma decimal_digits: "list_all (\<lambda>c. 48 \<le> uint c \<and> uint c \<le> 57) (decimal n) \<and> decimal n \<noteq> []"
proof (induction n rule: decimal.induct)
  case (1 n)
  then show ?case
    using mod_less_divisor [of 10 n] by (subst (1 2) decimal.simps) (simp add: digit_byte, simp add: less_Suc_eq_le [symmetric])
qed

lemma decimal_value: "foldl (\<lambda>n c. 10 * n + (uint c - 48)) 0 (decimal n) = int n"
proof (induction n rule: decimal.induct)
  case (1 n)
  then show ?case
    by (subst decimal.simps) (simp add: digit_byte, presburger)
qed

lemma atoi_decimal:
  assumes "n \<le> 2147483647"
  shows "atoi (decimal n) = Some (int n)"
proof -
  have d: "list_all (\<lambda>c. 48 \<le> uint c \<and> uint c \<le> 57) (decimal n)" "decimal n \<noteq> []"
    using decimal_digits by auto
  then have "48 \<le> uint (hd (decimal n))" "uint (hd (decimal n)) \<le> 57"
    by (simp_all add: list_all_iff)
  then have h: "hd (decimal n) \<noteq> 45" "hd (decimal n) \<noteq> 43" "\<not> isspace (hd (decimal n))"
    by (auto simp: isspace_def word_le_def word_uint_eq_iff)
  have w: "takeWhile (\<lambda>c. 48 \<le> c \<and> c \<le> 57) (decimal n) = decimal n"
    unfolding takeWhile_eq_all_conv using d(1) by (simp add: list_all_iff word_le_def)
  have "digits_value (decimal n) = int n"
    by (simp only: digits_value_def w decimal_value)
  moreover have "dropWhile isspace (decimal n) = decimal n"
    using d(2) h(3) by (cases "decimal n") auto
  ultimately show ?thesis
    using assms h by (simp add: atoi_def Let_def)
qed

text \<open>A line without an equals sign, or a last line without a newline, is read beyond the end of the array.\<close>

lemma getParam_overreads:
  "Process_getParam (replicate 128 0) (Some (bytes ''KeepAlive'' @ [10])) (bytes ''KeepAlive'') = None"
  "Process_getParam (replicate 128 0) (Some (bytes ''KeepAlive=5'')) (bytes ''KeepAlive'') = None"
  by code_simp+

subsection \<open>Properties\<close>

text \<open>C33: \<open>getParam\<close> is a search in the settings of the configuration file. For every file of settings, empty lines and remarks with lines of at most 125
  characters, whatever is in the uninitialised array, \<open>getParam\<close> is defined and returns 0 with the value, without the spaces around it, of the first
  setting whose name \<^emph>\<open>begins with\<close> the parameter, and -3 if there is none; without a file it returns -1.\<close>

theorem getParam_finds_setting:
  assumes "param_ok p" "list_all line_ok ls" "length str = 128"
  shows "Process_getParam str (Some (conf_bytes ls)) p = Some (case conf_lookup ls p of Some v \<Rightarrow> (0, Some v) | None \<Rightarrow> (- 3, None)) \<and>
    Process_getParam str None p = Some (- 1, None)"
  using getParam_loop_finds [OF assms] by (simp add: Process_getParam_def)

theorem getParam_finds_setting_witness:
  "Process_getParam (replicate 128 0) (Some (conf_bytes [Remark (bytes ''# UDP''), Setting (bytes ''GatewayIDs'') (bytes '' 7 ''),
       Setting (bytes ''GatewayID'') (bytes ''1'')])) (bytes ''GatewayID'') = Some (0, Some (bytes ''7''))"
proof -
  have ok: "param_ok (bytes ''GatewayID'')" "list_all line_ok [Remark (bytes ''# UDP''), Setting (bytes ''GatewayIDs'') (bytes '' 7 ''),
      Setting (bytes ''GatewayID'') (bytes ''1'')]"
    "conf_lookup [Remark (bytes ''# UDP''), Setting (bytes ''GatewayIDs'') (bytes '' 7 ''), Setting (bytes ''GatewayID'') (bytes ''1'')]
       (bytes ''GatewayID'') = Some (bytes ''7'')"
    by code_simp+
  show ?thesis
    using getParam_finds_setting [OF ok(1,2), of "replicate 128 0"] unfolding ok(3) by simp
qed

text \<open>C34: The parameters of the gateway are those of the configuration file. For every such file whose four numbers are written in decimal and fit (gateway identifier and version below 256, messages in flight and keep alive time
  below 65536), \<open>initialize\<close> is defined. It throws an exception if the gateway identifier is missing or 0, and if the gateway name is missing. Otherwise the broker and its ports, the private key and the
  authorities, the name, the login and the password are the values of their settings, the numbers are those that were written, the version is 4 and the keep alive time 900 seconds if they are not set, and clients are
  authenticated if and only if this is set to \<open>YES\<close>, in capital or small letters. Nothing is stated on the certificate, nor on the number of messages in flight if it is not set.\<close>

theorem gateway_parameters_read:
  assumes "list_all line_ok ls" "length str = 128" "val = (\<lambda>name. conf_lookup ls (bytes name))"
    and "\<And>name. name \<in> {''GatewayID'', ''MQTTVersion'', ''MaxInflightMsgs'', ''KeepAlive''} \<Longrightarrow> val name = map_option decimal (num name)"
    and "\<And>k. num ''GatewayID'' = Some k \<Longrightarrow> k < 256" "\<And>k. num ''MQTTVersion'' = Some k \<Longrightarrow> k < 256"
    and "\<And>k. num ''MaxInflightMsgs'' = Some k \<Longrightarrow> k < 65536" "\<And>k. num ''KeepAlive'' = Some k \<Longrightarrow> k < 65536"
  shows "\<exists>r. Gateway_readParams str (Some (conf_bytes ls)) = Some r \<and>
    (r = Inl Invalid_Gateway_Id \<longleftrightarrow> num ''GatewayID'' = None \<or> num ''GatewayID'' = Some 0) \<and>
    (r = Inl Gateway_Name_missing \<longleftrightarrow> (\<exists>k. num ''GatewayID'' = Some k \<and> k \<noteq> 0) \<and> val ''GatewayName'' = None) \<and>
    (r = Inl Invalid_Gateway_Id \<or> r = Inl Gateway_Name_missing \<or>
     (\<exists>p. r = Inr p \<and> par_brokerName p = val ''BrokerName'' \<and> par_port p = val ''BrokerPortNo'' \<and> par_portSecure p = val ''BrokerSecurePortNo'' \<and>
       par_privateKey p = val ''PrivateKey'' \<and> par_rootCApath p = val ''RootCApath'' \<and> par_rootCAfile p = val ''RootCAfile'' \<and>
       num ''GatewayID'' = Some (unat (par_gatewayId p)) \<and> par_gatewayName p = val ''GatewayName'' \<and>
       unat (par_mqttVersion p) = (case num ''MQTTVersion'' of Some k \<Rightarrow> k | None \<Rightarrow> 4) \<and>
       (\<forall>k. num ''MaxInflightMsgs'' = Some k \<longrightarrow> unat (par_maxInflightMsgs p) = k) \<and>
       unat (par_keepAlive p) = (case num ''KeepAlive'' of Some k \<Rightarrow> k | None \<Rightarrow> 900) \<and>
       par_loginId p = val ''LoginID'' \<and> par_password p = val ''Password'' \<and>
       (par_clientAuthentication p \<longleftrightarrow> (\<exists>v. val ''ClientAuthentication'' = Some v \<and> map ascii_lower v = bytes ''yes''))))"
proof -
  have get: "MultiTaskProcess_getParam str (Some (conf_bytes ls)) (bytes name) = Some (Inr (val name))"
    if "name \<in> set [''BrokerName'', ''BrokerPortNo'', ''BrokerSecurePortNo'', ''CertKey'', ''PrivateKey'', ''RootCApath'',
     ''RootCAfile'', ''GatewayID'', ''GatewayName'', ''MQTTVersion'', ''MaxInflightMsgs'', ''KeepAlive'', ''LoginID'', ''Password'',
     ''ClientAuthentication'']" for name
    using getParam_lookup [OF _ assms(1,2)] parameter_names that unfolding assms(3) list_all_iff set_map by blast
  have num: "number_param (val name) d = Some (case num name of Some k \<Rightarrow> int k | None \<Rightarrow> d)"
    if "name \<in> {''GatewayID'', ''MQTTVersion'', ''MaxInflightMsgs'', ''KeepAlive''}" for name d
  proof (cases "num name")
    case (Some k)
    then have "k \<le> 2147483647"
      using that assms(5-8) by fastforce
    then show ?thesis
      using Some assms(4) [OF that] atoi_decimal by (simp add: number_param_def)
  qed (use assms(4) [OF that] in \<open>simp add: number_param_def\<close>)
  note nums = num [of "''GatewayID''"] num [of "''MQTTVersion''"] num [of "''MaxInflightMsgs''"] num [of "''KeepAlive''"]
  have byte: "\<not> 255 < uint (b :: byte)" for b
    using uint_lt2p [of b] by simp
  have u: "k < 256 \<Longrightarrow> unat (word_of_nat k :: byte) = k" "m < 65536 \<Longrightarrow> unat (word_of_nat m :: u16) = m" for k m
    using unat_of_nat [where 'a = 8, of k] unat_of_nat [where 'a = 16, of m] by simp_all
  have yes: "strcasecmp_equal v (bytes ''YES'') \<longleftrightarrow> map ascii_lower v = bytes ''yes''" for v
  proof -
    have "map ascii_lower (bytes ''YES'') = bytes ''yes''"
      by code_simp
    then show ?thesis
      by (simp add: strcasecmp_equal_def)
  qed
  let ?id = "case num ''GatewayID'' of Some k \<Rightarrow> int k | None \<Rightarrow> 0"
  have id: "(word_of_int ?id :: byte) = 0 \<longleftrightarrow> num ''GatewayID'' = None \<or> num ''GatewayID'' = Some 0"
    "num ''GatewayID'' = Some k \<Longrightarrow> unat (word_of_int ?id :: byte) = k" for k
    using assms(5) u(1) by (auto split: option.split simp: unat_eq_0 [symmetric])
  have ver: "unat (word_of_int (case num ''MQTTVersion'' of Some k \<Rightarrow> int k | None \<Rightarrow> 4) :: byte) = (case num ''MQTTVersion'' of Some k \<Rightarrow> k | None \<Rightarrow> 4)"
    using assms(6) u(1) by (auto split: option.split)
  have inf: "unat (word_of_int (case num ''MaxInflightMsgs'' of Some k \<Rightarrow> int k | None \<Rightarrow> 4) :: u16) = k" if "num ''MaxInflightMsgs'' = Some k" for k
    using assms(7) that u(2) by auto
  have keep: "unat (word_of_int (case num ''KeepAlive'' of Some k \<Rightarrow> int k | None \<Rightarrow> 900) :: u16) = (case num ''KeepAlive'' of Some k \<Rightarrow> k | None \<Rightarrow> 900)"
    using assms(8) u(2) by (auto split: option.split)
  have auth: "(case v of Some v \<Rightarrow> strcasecmp_equal v (bytes ''YES'') | None \<Rightarrow> False) \<longleftrightarrow> (\<exists>w. v = Some w \<and> map ascii_lower w = bytes ''yes'')" for v
    by (simp only: yes split: option.split) auto
  note names = list.set insert_iff simp_thms
  define p where "p = \<lparr>par_brokerName = val ''BrokerName'', par_port = val ''BrokerPortNo'', par_portSecure = val ''BrokerSecurePortNo'',
     par_certKey = val ''CertKey'', par_privateKey = val ''PrivateKey'', par_rootCApath = val ''RootCApath'', par_rootCAfile = val ''RootCAfile'',
     par_gatewayId = word_of_int ?id, par_gatewayName = val ''GatewayName'',
     par_mqttVersion = word_of_int (case num ''MQTTVersion'' of Some k \<Rightarrow> int k | None \<Rightarrow> 4),
     par_maxInflightMsgs = word_of_int (case num ''MaxInflightMsgs'' of Some k \<Rightarrow> int k | None \<Rightarrow> 4),
     par_keepAlive = word_of_int (case num ''KeepAlive'' of Some k \<Rightarrow> int k | None \<Rightarrow> 900),
     par_loginId = val ''LoginID'', par_password = val ''Password'',
     par_clientAuthentication = (case val ''ClientAuthentication'' of Some v \<Rightarrow> strcasecmp_equal v (bytes ''YES'') | None \<Rightarrow> False)\<rparr>"
  have read: "Gateway_readParams str (Some (conf_bytes ls)) = Some
    (if num ''GatewayID'' = None \<or> num ''GatewayID'' = Some 0 then Inl Invalid_Gateway_Id
     else if val ''GatewayName'' = None then Inl Gateway_Name_missing else Inr p)"
    unfolding Gateway_readParams_def Let_def p_def
    by (simp only: get names bind_param_simps nums bind.bind_lunit GatewayParams_init_def GatewayParams.simps uint_0_eq id byte if_distrib [of Some, symmetric] cong: if_cong)
  show ?thesis
    unfolding read using id(2) inf by (auto simp: p_def ver keep auth simp del: of_int_of_nat_eq)
qed

text \<open>A number that is not an \<open>int\<close> is undefined, and 257 is not refused: it becomes 1.\<close>

lemma gateway_id_converted:
  "Gateway_readParams (replicate 128 0) (Some (conf_bytes [Setting (bytes ''GatewayID'') (bytes ''4294967297'')])) = None"
  "map_option (map_sum id par_gatewayId) (Gateway_readParams (replicate 128 0)
     (Some (conf_bytes [Setting (bytes ''GatewayID'') (bytes ''257''), Setting (bytes ''GatewayName'') (bytes ''gw'')]))) = Some (Inr 1)"
  by code_simp+

theorem gateway_parameters_read_witness:
  "\<exists>p. Gateway_readParams (replicate 128 0)
     (Some (conf_bytes [Setting (bytes ''GatewayID'') (bytes ''25''), Setting (bytes ''GatewayName'') (bytes ''gw''), Setting (bytes ''KeepAlive'') (bytes ''60'')])) = Some (Inr p) \<and>
     unat (par_gatewayId p) = 25 \<and> unat (par_mqttVersion p) = 4 \<and> unat (par_keepAlive p) = 60"
proof -
  let ?ls = "[Setting (bytes ''GatewayID'') (bytes ''25''), Setting (bytes ''GatewayName'') (bytes ''gw''), Setting (bytes ''KeepAlive'') (bytes ''60'')]"
  let ?num = "(\<lambda>_. None)(''GatewayID'' \<mapsto> 25, ''KeepAlive'' \<mapsto> 60) :: string \<Rightarrow> nat option"
  have ok: "list_all line_ok ?ls" "conf_lookup ?ls (bytes ''GatewayID'') = map_option decimal (?num ''GatewayID'')"
    "conf_lookup ?ls (bytes ''MQTTVersion'') = map_option decimal (?num ''MQTTVersion'')"
    "conf_lookup ?ls (bytes ''MaxInflightMsgs'') = map_option decimal (?num ''MaxInflightMsgs'')"
    "conf_lookup ?ls (bytes ''KeepAlive'') = map_option decimal (?num ''KeepAlive'')" "conf_lookup ?ls (bytes ''GatewayName'') = Some (bytes ''gw'')"
    by code_simp+
  have num: "conf_lookup ?ls (bytes name) = map_option decimal (?num name)"
    if "name \<in> {''GatewayID'', ''MQTTVersion'', ''MaxInflightMsgs'', ''KeepAlive''}" for name
    using that ok(2-5) by blast
  have vals: "?num ''GatewayID'' = Some 25" "?num ''MQTTVersion'' = None" "?num ''MaxInflightMsgs'' = None" "?num ''KeepAlive'' = Some 60"
    by code_simp+
  from gateway_parameters_read [OF ok(1) _ refl num, of "replicate 128 0"] show ?thesis
    unfolding vals ok(6) by auto
qed

end
