(* ===== verification/Spec2Isabelle.thy ===== *)
theory Spec2Isabelle
  imports MQTT_Publish MQTT_Connect MQTT_Subscribe MQTT_Transport MQTT_Topic MQTT_Client MQTT_Session MQTT_Client_Safety MQTT_Client_Protocol MQTT_Cpp_Protocol MQTTSN_Cpp_Protocol MQTT_MbedOs MQTT_Linux
    MQTTSN_Connect MQTTSN_Subscribe MQTTSN_Search
    MQTTSNGW_Tree23 MQTTSNGW_Topic MQTTSNGW_Packet MQTTSNGW_Connect MQTTSNGW_Linked MQTTSNGW_Client MQTTSNGW_Invariant MQTTSNGW_Sessions MQTTSNGW_XBee MQTTSNGW_Config
begin
text \<open>
  \<^bold>\<open>Verification of the Paho embedded MQTT and MQTT-SN code in mbed-mqtt.\<close>

  \<^bold>\<open>The program.\<close> The repository has two families of sources. \<^verbatim>\<open>paho_mqtt_embedded_c\<close> has the packet library
  for MQTT 3.1 and 3.1.1 (\<^verbatim>\<open>MQTTPacket/src\<close>), a client in C on top of it (\<^verbatim>\<open>MQTTClient-C/src\<close>) with ports to
  operating systems, and a client in C++. \<^verbatim>\<open>paho_mqtt-sn_embedded_c\<close> has the packet library for MQTT-SN
  (\<^verbatim>\<open>MQTTSNPacket/src\<close>), a client in C++, and a gateway that connects MQTT-SN devices to an MQTT broker
  (\<^verbatim>\<open>MQTTSNGateway/src\<close>). An application calls a client; the client serialises a packet into its buffer,
  writes it to the network of its platform, reads packets back through the packet library and calls the
  message handlers of the application.

  \<^bold>\<open>Conventions.\<close> A C function is a HOL function that takes and returns the state it changes. \<open>None\<close> is an access
  outside a memory object (and, in the functions that loop on the network, a loop without end); every
  theorem that says a function returns says that it is \<open>Some\<close>. Bytes and fixed-width integers are words; a C
  \<open>int\<close> is a HOL \<open>int\<close>, and the theorems bound it where it matters; \<open>size_t\<close> and \<open>unsigned int\<close> have 32 bits. Whether
  \<open>char\<close> is signed is a parameter where the result depends on it. Logging and the stack trace macros
  are left out.

  \<^bold>\<open>The packet library.\<close>
  \<^item> \<open>MQTT_Prelude\<close>: C types, checked memory, the writer state, wire-format fields and the collections
    of simplification rules the component proofs use.
  \<^item> \<open>MQTT_Packet\<close>: \<^verbatim>\<open>MQTTPacket.c\<close>: remaining length, cursors, strings, header byte.
  \<^item> \<open>MQTT_Codec\<close>: the contracts of serialisers and deserialisers as the locales \<open>packet_writer\<close>, \<open>safe_packet_writer\<close> and
    \<open>packet_codec\<close>. Every pair of functions below is an interpretation, which gives its memory safety, its
    round trip and that its format is unambiguous.
  \<^item> \<open>MQTT_Publish\<close>, \<open>MQTT_Connect\<close>, \<open>MQTT_Subscribe\<close>: the packets, both sides.
  \<^item> \<open>MQTT_Transport\<close>: the blocking reader and the resumable reader, with the locale \<open>byte_source\<close> for its callback.
    The reader is a state machine; its invariant relates the bytes in the buffer to the packet on the wire.
  \<^item> \<open>MQTTSN_Packet\<close>, \<open>MQTTSN_Connect\<close>, \<open>MQTTSN_Publish\<close>, \<open>MQTTSN_Subscribe\<close>, \<open>MQTTSN_Search\<close>: the same for MQTT-SN, with the locales
    \<open>sn_writer\<close> and \<open>sn_codec\<close>, which are sublocales of the contracts above.

  \<^bold>\<open>The C client.\<close>
  \<^item> \<open>MQTT_Topic\<close>: \<open>isTopicMatched\<close> against the level-wise matching relation of the specification.
  \<^item> \<open>MQTT_Client\<close>: all operations of \<^verbatim>\<open>MQTTClient.c\<close> on a record of the client structure and a platform that is a parameter.
  \<^item> \<open>MQTT_Session\<close>: packet identifiers, the handler table as a refinement of a bounded map (locale and
    interpretation), delivery of messages, closing a session.
  \<^item> \<open>MQTT_Client_Safety\<close>: the locale \<open>mqtt_platform\<close>, the contract of network and timers, which allows writes that are cut, and under it
    memory safety, termination of every loop and the client invariant for all operations but \<open>MQTTSubscribe\<close>. The buffers have just the sizes the client was
    told. The code reads behind them in two places; \<open>send_room\<close> and \<open>id_room\<close> say when this does no harm, and they are hypotheses of the theorems.
  \<^item> \<open>MQTT_Client_Protocol\<close>: the locale \<open>mqtt_network\<close>, which extends it by the bytes received and sent, and what
    happens to a PUBLISH that arrives; then the answers of a broker that the client does not handle well.

  \<^bold>\<open>The C++ client\<close> (\<^verbatim>\<open>MQTTClient/src/MQTTClient.h\<close>).
  \<^item> \<open>MQTT_Cpp_Client\<close>: all methods of the class template; network and timer are a record of functions, the build options a
    configuration.
  \<^item> \<open>MQTT_Cpp_Safety\<close>: the locale \<open>cpp_platform\<close>, which also allows writes that take a part, and under it termination, memory safety
    and the invariant for every method and every build.
  \<^item> \<open>MQTT_Cpp_Protocol\<close>: the locale \<open>cpp_network\<close> with the bytes sent and still to come; the receiver of QoS 2 messages as an abstract
    specification that \<open>cycle\<close> refines, exactly-once delivery, resending after a reconnect, topic matching.

  \<^bold>\<open>The C++ client for MQTT-SN\<close> (\<^verbatim>\<open>MQTTSNClient/src/MQTTSNClient.h\<close>).
  \<^item> \<open>MQTTSN_Cpp_Client\<close>: all methods of the class template, with the topics of the application, which its handlers point to, in the state.
  \<^item> \<open>MQTTSN_Cpp_Safety\<close>: the calculus \<open>returns\<close> of total correctness; the locale \<open>cpp_datagrams\<close>, which extends \<open>cpp_platform\<close> by writes
    that are not cut, and under it that every method returns and keeps the invariant.
  \<^item> \<open>MQTTSN_Cpp_Protocol\<close>: the locale \<open>cpp_dgram_net\<close> with the datagrams still to come; when delivery is defined, the way from a
    subscription to a message, and why a QoS 1 publication always fails (with the calculus \<open>whenever\<close> of partial correctness).

  \<^bold>\<open>The port to Mbed OS\<close> (\<^verbatim>\<open>src/src\<close>, \<^verbatim>\<open>MQTTmbed.h\<close>).
  \<^item> \<open>MQTT_MbedOs\<close>: the class \<open>MQTTClient\<close> over either C++ client, the network classes and the countdown timer; Mbed OS is the parameter
    \<open>mbed_os\<close>. The locale \<open>mbed_platform\<close> has the contract of its sockets and timers, and as a sublocale of \<open>cpp_platform\<close> it carries the
    theorems of both clients over; \<open>mbed_stream\<close> and \<open>mbed_datagrams\<close> add what stream and datagram sockets promise.

  \<^bold>\<open>The ports to Linux\<close> (\<^verbatim>\<open>MQTTLinux.c\<close>, \<^verbatim>\<open>linux.cpp\<close>).
  \<^item> \<open>MQTT_Linux\<close>: timers and sockets of the C client and the C++ clients on Linux; the system calls are the parameter \<open>linux_os\<close>. The locale
    \<open>linux_sockets\<close> has their contract, with writes that may be cut; \<open>linux_running\<close> adds that the clock does not stand still for ever and is a sublocale of
    \<open>cpp_platform\<close> and of \<open>mqtt_platform\<close>; \<open>linux_stream\<close> and \<open>linux_arrived\<close> carry the theorems on streams over to the C and the C++ client. Reading of the MQTT-SN client is shown not to
    end on a closed connection.

  \<^bold>\<open>The gateway\<close> (\<^verbatim>\<open>MQTTSNGateway/src\<close>).
  \<^item> \<open>MQTTSNGW_Tree23\<close>, \<open>MQTTSNGW_Linked\<close>: the templates of \<^verbatim>\<open>MQTTSNGWProcess.h\<close> and the linked lists of other classes. The
    lists are modelled with their pointers in a store, in which following a pointer to a deleted cell is \<open>None\<close>; the locale
    \<open>linked_refinement\<close> turns a simulation of single calls into one of all sequences of calls.
  \<^item> \<open>MQTTSNGW_Topic\<close>: topics, the topic table of a client and the map of waiting topic identifiers (\<^verbatim>\<open>MQTTSNGWTopic.cpp\<close>).
  \<^item> \<open>MQTTSNGW_Packet\<close>, \<open>MQTTSNGW_Connect\<close>: the classes \<open>MQTTGWPacket\<close> (to and from the broker) and \<open>MQTTSNPacket\<close> (to and from clients),
    on top of the serialisers above; what the gateway sends is what the packet library would write.
  \<^item> \<open>MQTTSNGW_Client\<close>: the state of a client in the gateway, the list of clients and the table of message identifiers.
  \<^item> \<open>MQTTSNGW_Forwarder\<close>: packets of clients behind a forwarder, the list of forwarders and their client tables.
  \<^item> \<open>MQTTSNGW_Gateway\<close>: the state the tasks share (class \<open>Gateway\<close>), events and their queues, adapters, proxies and the aggregater.
  \<^item> \<open>MQTTSNGW_Handlers\<close>: all handlers for packets of clients and of the broker, transparent and aggregating, and the dispatcher
    that calls them (\<^verbatim>\<open>MQTTSNGWPacketHandleTask.cpp\<close>).
  \<^item> \<open>MQTTSNGW_Tasks\<close>: the rounds of the four tasks at the sockets, and the whole gateway as a step relation in which the tasks take
    turns in any order; sockets and timers are arguments of a round.
  \<^item> \<open>MQTTSNGW_Invariant\<close>: the invariant of the gateway, kept by every step, with the calculus \<open>kept\<close> for computations that may run
    into undefined behaviour.
  \<^item> \<open>MQTTSNGW_Relay\<close>, \<open>MQTTSNGW_Deliver\<close>, \<open>MQTTSNGW_Sessions\<close>: what the gateway does from one socket to the other, as compositions of rounds of its tasks:
    publications of clients, publications and acknowledgements of the broker, sleeping clients, sessions and registrations.
  \<^item> \<open>MQTTSNGW_Config\<close>: reading a parameter from the configuration file, and the parameters of the gateway.
  \<^item> \<open>MQTTSNGW_XBee\<close>: the driver for XBee radios, with the locale \<open>serial_line\<close> for the serial port.

  \<^bold>\<open>Bounds.\<close> No model has fuel. The loops of the packet library are functions with a measure; the loops of the client
  that wait for the network are \<^theory_text>\<open>partial_function\<close>s, and the termination theorems give \<open>Some\<close> for every peer. The contract of
  the platform is satisfiable: it is interpreted on a simulated network.

  \<^bold>\<open>Not modelled.\<close> The build of the C client with \<open>MQTT_TASK\<close> (a thread and a mutex), the FreeRTOS and CC3200 ports,
  \<^verbatim>\<open>MQTTFormat.c\<close> (log output), the threads, sockets, TLS and log output of the gateway and the lists of clients and topics that it reads from files, the gateway
  tester, samples and tests.
\<close>
end
